(* ===== verification/Prelude.thy ===== *)
theory Prelude
  imports Complex_Main "HOL-Library.Word" "HOL-Library.Monad_Syntax" "HOL-Library.Sublist"
    "HOL-Library.Product_Lexorder" "HOL-Library.Char_ord" "HOL-Library.List_Lexorder"
begin

text \<open>
  The shared vocabulary of the development: the collections of rewrite rules the component
  theories extend, the Go types the components use (instants, durations, \<^verbatim>\<open>float64\<close> values
  that are only compared or truncated, dynamically typed \<^verbatim>\<open>any\<close> values) and the parts of Go's
  \<^verbatim>\<open>strings\<close> and \<^verbatim>\<open>strconv\<close> packages the sources call, with the lemmas on them that
  several components need.

  Strings are Go strings: sequences of bytes, so \<^verbatim>\<open>len\<close> is \<^const>\<open>length\<close> and a character
  outside ASCII is its UTF-8 encoding.
\<close>

section \<open>Collections\<close>

named_theorems step_simps \<open>equations that evaluate one operation of a component\<close>

section \<open>Instants and durations\<close>

text \<open>
  A \<^verbatim>\<open>time.Time\<close> is its number of nanoseconds since the zero time, a \<^verbatim>\<open>time.Duration\<close> a number of
  nanoseconds. \<^verbatim>\<open>t.After(u)\<close> is \<open>u < t\<close> and \<^verbatim>\<open>t.Before(u)\<close> is \<open>t < u\<close>.
\<close>

type_synonym gotime = int
type_synonym duration = int

abbreviation millisecond :: duration where "millisecond \<equiv> 1000000"
abbreviation second :: duration where "second \<equiv> 1000000000"
abbreviation minute :: duration where "minute \<equiv> 60000000000"
abbreviation hour :: duration where "hour \<equiv> 3600000000000"

section \<open>Machine integers and floating point numbers\<close>

abbreviation max_int64 :: int where "max_int64 \<equiv> 9223372036854775807"
abbreviation min_int64 :: int where "min_int64 \<equiv> -9223372036854775808"

definition int64_range :: "int \<Rightarrow> bool" where
  "int64_range i \<longleftrightarrow> min_int64 \<le> i \<and> i \<le> max_int64"

text \<open>The value of an \<^verbatim>\<open>int64\<close> computation whose exact result is \<open>i\<close>.\<close>

definition wrap64 :: "int \<Rightarrow> int" where
  "wrap64 i = (i + 9223372036854775808) mod 18446744073709551616 - 9223372036854775808"

text \<open>
  A \<^verbatim>\<open>float64\<close> value as far as comparisons and truncation see it: not a number, an
  infinity, or a rational.
\<close>

datatype gofloat = GoNaN | GoPosInf | GoNegInf | GoFin rat

text \<open>Go's integer division and conversion truncate towards zero.\<close>

definition go_quot :: "int \<Rightarrow> int \<Rightarrow> int" where
  "go_quot a b = sgn a * sgn b * (\<bar>a\<bar> div \<bar>b\<bar>)"

text \<open>
  \<^verbatim>\<open>int(f)\<close> for a \<^verbatim>\<open>float64\<close>: truncation; a value \<^verbatim>\<open>int\<close> cannot hold gives the
  smallest \<^verbatim>\<open>int\<close>, which is what the amd64 conversion instruction produces.
\<close>

definition rat_trunc :: "rat \<Rightarrow> int" where
  "rat_trunc q = (if q < 0 then - \<lfloor>- q\<rfloor> else \<lfloor>q\<rfloor>)"

fun go_int_of_float :: "gofloat \<Rightarrow> int" where
  "go_int_of_float (GoFin q) =
     (let i = rat_trunc q in if int64_range i then i else min_int64)"
| "go_int_of_float _ = min_int64"

text \<open>\<^verbatim>\<open>f == float64(int(f))\<close>\<close>

fun float_is_integral :: "gofloat \<Rightarrow> bool" where
  "float_is_integral (GoFin q) = (q = of_int (go_int_of_float (GoFin q)))"
| "float_is_integral _ = False"

section \<open>Dynamically typed values\<close>

text \<open>
  The \<^verbatim>\<open>any\<close> values the configuration maps hold: the dynamic types the sources switch on,
  and \<open>VOther\<close> for a value of any other type.
\<close>

datatype goval =
    VNil
  | VBool bool
  | VInt int
  | VInt64 int
  | VFloat gofloat
  | VNumber string
  | VString string
  | VInts "int list"
  | VInt64s "int list"
  | VFloats "gofloat list"
  | VStrings "string list"
  | VList "goval list"
  | VMap "(string \<times> goval) list"
  | VOther

text \<open>
  A \<^verbatim>\<open>map[string]any\<close> variable: \<^const>\<open>None\<close> is the nil map. \<open>cfg_get\<close> is the
  two-valued lookup \<^verbatim>\<open>v, ok := m[k]\<close>.
\<close>

type_synonym goconfig = "(string \<times> goval) list option"

definition cfg_get :: "goconfig \<Rightarrow> string \<Rightarrow> goval option" where
  "cfg_get m k = (case m of None \<Rightarrow> None | Some kvs \<Rightarrow> map_of kvs k)"

text \<open>The one-valued lookup \<^verbatim>\<open>m[k]\<close>, nil for a missing key.\<close>

definition assoc_get :: "(string \<times> goval) list \<Rightarrow> string \<Rightarrow> goval" where
  "assoc_get kvs k = (case map_of kvs k of None \<Rightarrow> VNil | Some v \<Rightarrow> v)"

section \<open>Package strings\<close>

text \<open>The UTF-8 encodings of the runes for which \<^verbatim>\<open>unicode.IsSpace\<close> holds.\<close>

definition go_spaces :: "string list" where
  "go_spaces =
     [[CHR 0x20], [CHR 0x09], [CHR 0x0A], [CHR 0x0B], [CHR 0x0C], [CHR 0x0D],
      [CHR 0xC2, CHR 0x85], [CHR 0xC2, CHR 0xA0], [CHR 0xE1, CHR 0x9A, CHR 0x80],
      [CHR 0xE2, CHR 0x80, CHR 0x80], [CHR 0xE2, CHR 0x80, CHR 0x81],
      [CHR 0xE2, CHR 0x80, CHR 0x82], [CHR 0xE2, CHR 0x80, CHR 0x83],
      [CHR 0xE2, CHR 0x80, CHR 0x84], [CHR 0xE2, CHR 0x80, CHR 0x85],
      [CHR 0xE2, CHR 0x80, CHR 0x86], [CHR 0xE2, CHR 0x80, CHR 0x87],
      [CHR 0xE2, CHR 0x80, CHR 0x88], [CHR 0xE2, CHR 0x80, CHR 0x89],
      [CHR 0xE2, CHR 0x80, CHR 0x8A], [CHR 0xE2, CHR 0x80, CHR 0xA8],
      [CHR 0xE2, CHR 0x80, CHR 0xA9], [CHR 0xE2, CHR 0x80, CHR 0xAF],
      [CHR 0xE2, CHR 0x81, CHR 0x9F], [CHR 0xE3, CHR 0x80, CHR 0x80]]"

text \<open>
  Remove words of \<open>ws\<close> from the front as long as one matches; \<^verbatim>\<open>strings.HasPrefix(s, w)\<close>
  is \<^term>\<open>prefix w s\<close>.
\<close>

function trim_words :: "string list \<Rightarrow> string \<Rightarrow> string" where
  "trim_words ws s =
     (case find (\<lambda>w. w \<noteq> [] \<and> prefix w s) ws of
        None \<Rightarrow> s
      | Some w \<Rightarrow> trim_words ws (drop (length w) s))"
  by pat_completeness auto
termination
proof (relation "measure (\<lambda>(ws, s). length s)", goal_cases)
  case 1
  show ?case by simp
next
  case (2 ws s w)
  then have "w \<noteq> []" "prefix w s"
    by (auto simp: find_Some_iff)
  then have "s \<noteq> []" and "0 < length w" by auto
  then show ?case by simp
qed

declare trim_words.simps [simp del]

definition TrimSpace :: "string \<Rightarrow> string" where
  "TrimSpace s = rev (trim_words (map rev go_spaces) (rev (trim_words go_spaces s)))"

text \<open>\<^verbatim>\<open>strings.Split(s, sep)\<close> for a separator of one byte.\<close>

fun split_byte :: "char \<Rightarrow> string \<Rightarrow> string list" where
  "split_byte c [] = [[]]"
| "split_byte c (x # xs) =
     (if x = c then [] # split_byte c xs
      else (case split_byte c xs of [] \<Rightarrow> [[x]] | p # ps \<Rightarrow> (x # p) # ps))"

text \<open>\<^verbatim>\<open>strings.NewReplacer(old, new).Replace\<close> for a single pair.\<close>

function replace_all :: "string \<Rightarrow> string \<Rightarrow> string \<Rightarrow> string" where
  "replace_all old new [] = []"
| "replace_all old new (x # xs) =
     (if old \<noteq> [] \<and> prefix old (x # xs)
      then new @ replace_all old new (drop (length old) (x # xs))
      else x # replace_all old new xs)"
  by pat_completeness auto
termination
  by (relation "measure (\<lambda>(old, new, s). length s)") auto

text \<open>\<^verbatim>\<open>strings.ReplaceAll(s, c, "")\<close> for one byte.\<close>

definition remove_byte :: "char \<Rightarrow> string \<Rightarrow> string" where
  "remove_byte c s = filter (\<lambda>x. x \<noteq> c) s"

section \<open>Package strconv\<close>

definition digit_value :: "char \<Rightarrow> int option" where
  "digit_value c = (let n = of_char c :: int in
     if 48 \<le> n \<and> n \<le> 57 then Some (n - 48) else None)"

fun parse_digits :: "int \<Rightarrow> string \<Rightarrow> int option" where
  "parse_digits acc [] = Some acc"
| "parse_digits acc (c # cs) =
     (case digit_value c of None \<Rightarrow> None | Some d \<Rightarrow> parse_digits (10 * acc + d) cs)"

text \<open>
  \<^verbatim>\<open>strconv.Atoi\<close> and \<^verbatim>\<open>strconv.ParseInt(s, 10, 64)\<close> on a 64-bit platform: an optional
  sign, at least one decimal digit, and a value in range; \<^const>\<open>None\<close> is the error.
\<close>

definition Atoi :: "string \<Rightarrow> int option" where
  "Atoi s =
     (let (neg, ds) = (case s of
          [] \<Rightarrow> (False, [])
        | c # cs \<Rightarrow> if c = CHR ''-'' then (True, cs)
                    else if c = CHR ''+'' then (False, cs) else (False, s))
      in if ds = [] then None
         else (case parse_digits 0 ds of
             None \<Rightarrow> None
           | Some n \<Rightarrow> let v = (if neg then - n else n) in
               if int64_range v then Some v else None))"

text \<open>\<^verbatim>\<open>strconv.Itoa\<close>.\<close>

definition digit_char :: "nat \<Rightarrow> char" where
  "digit_char d = char_of (48 + d)"

fun nat_digits :: "nat \<Rightarrow> string" where
  "nat_digits n = (if n < 10 then [digit_char n] else nat_digits (n div 10) @ [digit_char (n mod 10)])"

definition Itoa :: "int \<Rightarrow> string" where
  "Itoa i = (if i < 0 then CHR ''-'' # nat_digits (nat (- i)) else nat_digits (nat i))"

section \<open>Package unicode/utf8\<close>

text \<open>
  The length of the first encoded rune of a string, by the table of well-formed byte sequences:
  shortest forms only, no surrogates, nothing above U+10FFFF.
\<close>

definition continuation :: "nat \<Rightarrow> bool" where
  "continuation b \<longleftrightarrow> 128 \<le> b \<and> b \<le> 191"

fun utf8_len :: "nat list \<Rightarrow> nat option" where
  "utf8_len [] = None"
| "utf8_len (b # bs) =
     (if b < 128 then Some 1
      else case bs of
        [] \<Rightarrow> None
      | c # cs \<Rightarrow>
          if 194 \<le> b \<and> b \<le> 223 \<and> continuation c then Some 2
          else case cs of
            [] \<Rightarrow> None
          | d # ds \<Rightarrow>
              if 224 \<le> b \<and> b \<le> 239 \<and> continuation d \<and>
                 (if b = 224 then 160 \<le> c else 128 \<le> c) \<and> (if b = 237 then c \<le> 159 else c \<le> 191) then Some 3
              else case ds of
                [] \<Rightarrow> None
              | e # es \<Rightarrow>
                  if 240 \<le> b \<and> b \<le> 244 \<and> continuation d \<and> continuation e \<and>
                     (if b = 240 then 144 \<le> c else 128 \<le> c) \<and> (if b = 244 then c \<le> 143 else c \<le> 191) then Some 4
                  else None)"

lemma utf8_len_pos: "utf8_len bs = Some n \<Longrightarrow> 0 < n"
  by (cases bs) (auto split: if_splits list.splits)

function valid_bytes :: "nat list \<Rightarrow> bool" where
  "valid_bytes bs =
     (if bs = [] then True
      else case utf8_len bs of None \<Rightarrow> False | Some n \<Rightarrow> valid_bytes (drop n bs))"
  by pat_completeness auto
termination
  by (relation "measure length") (auto dest: utf8_len_pos)

declare valid_bytes.simps [simp del]

definition ValidString :: "string \<Rightarrow> bool" where
  "ValidString s = valid_bytes (map of_char s)"

lemma ValidString_Nil [simp]: "ValidString []"
  by (simp add: ValidString_def valid_bytes.simps)

section \<open>Lists\<close>

lemma sum_list_update_int:
  "i < length xs \<Longrightarrow> sum_list (xs[i := x]) = sum_list xs + x - (xs ! i :: int)"
  by (induction xs arbitrary: i) (auto split: nat.splits)

text \<open>Association lists without repeated keys.\<close>

lemma map_of_filter_distinct:
  "distinct (map fst al) \<Longrightarrow>
   map_of (filter P al) k = (case map_of al k of None \<Rightarrow> None | Some e \<Rightarrow> if P (k, e) then Some e else None)"
  by (induction al) (force split: option.splits dest: map_of_SomeD)+

lemma length_distinct_keys: "distinct (map fst al) \<Longrightarrow> length al = card (dom (map_of al))"
  by (metis dom_map_of_conv_image_fst distinct_card length_map set_map)

section \<open>Trimming\<close>

text \<open>
  The words are whole encodings: none is empty, none starts another one
  (\<open>trim_code\<close>), and no word starts with a byte that continues a word
  (\<open>trim_sync\<close>).
\<close>

definition trim_code :: "string list \<Rightarrow> bool" where
  "trim_code ws \<longleftrightarrow> (\<forall>u \<in> set ws. u \<noteq> []) \<and>
     (\<forall>u \<in> set ws. \<forall>v \<in> set ws. prefix u v \<longrightarrow> u = v)"

definition trim_sync :: "string list \<Rightarrow> bool" where
  "trim_sync ws \<longleftrightarrow> (\<forall>u \<in> set ws. \<forall>v \<in> set ws. hd v \<notin> set (tl u))"

lemma trim_codeD:
  assumes "trim_code ws" "u \<in> set ws"
  shows "u \<noteq> []" "v \<in> set ws \<Longrightarrow> prefix u v \<Longrightarrow> u = v"
  using assms by (auto simp: trim_code_def)

lemma trim_words_stop: "(\<forall>w \<in> set ws. w \<noteq> [] \<longrightarrow> \<not> prefix w s) \<Longrightarrow> trim_words ws s = s"
  by (subst trim_words.simps) (auto split: option.splits simp: find_Some_iff)

lemma trim_words_word:
  assumes "trim_code ws" "w \<in> set ws"
  shows "trim_words ws (w @ s) = trim_words ws s"
proof -
  have "w \<noteq> []" using assms by (rule trim_codeD)
  with assms(2) have "find (\<lambda>w'. w' \<noteq> [] \<and> prefix w' (w @ s)) ws \<noteq> None"
    by (auto simp: find_None_iff)
  then obtain u where u: "find (\<lambda>w'. w' \<noteq> [] \<and> prefix w' (w @ s)) ws = Some u" by blast
  then have "u \<in> set ws" "prefix u (w @ s)" by (auto simp: find_Some_iff)
  then have "prefix u w \<or> prefix w u" using prefix_same_cases [of u "w @ s" w] by auto
  with assms \<open>u \<in> set ws\<close> have "u = w" by (auto dest: trim_codeD(2))
  with u show ?thesis by (subst trim_words.simps) simp
qed

lemma trim_words_concat:
  "trim_code ws \<Longrightarrow> set us \<subseteq> set ws \<Longrightarrow> trim_words ws (concat us @ s) = trim_words ws s"
  by (induction us) (auto simp: trim_words_word)

lemma trim_words_Nil [simp]: "trim_words ws [] = []"
  by (subst trim_words.simps) (auto split: option.splits simp: find_Some_iff)

lemma trim_words_decomp:
  "\<exists>us. set us \<subseteq> set ws \<and> s = concat us @ trim_words ws s \<and>
     (\<forall>w \<in> set ws. w \<noteq> [] \<longrightarrow> \<not> prefix w (trim_words ws s))"
proof (induction ws s rule: trim_words.induct)
  case (1 ws s)
  show ?case
  proof (cases "find (\<lambda>w. w \<noteq> [] \<and> prefix w s) ws")
    case None
    then have "trim_words ws s = s" by (subst trim_words.simps) simp
    with None show ?thesis
      by (intro exI [of _ "[]"]) (auto simp: find_None_iff)
  next
    case (Some w)
    then have w: "w \<in> set ws" "prefix w s" by (auto simp: find_Some_iff)
    have eq: "trim_words ws s = trim_words ws (drop (length w) s)"
      using Some by (subst trim_words.simps) simp
    from "1.IH" [OF Some] obtain us where us: "set us \<subseteq> set ws"
      "drop (length w) s = concat us @ trim_words ws s"
      "\<forall>v \<in> set ws. v \<noteq> [] \<longrightarrow> \<not> prefix v (trim_words ws s)"
      unfolding eq by blast
    have "s = w @ drop (length w) s" using w(2) by (auto simp: prefix_def)
    also have "\<dots> = concat (w # us) @ trim_words ws s" by (simp add: us(2))
    finally have "s = concat (w # us) @ trim_words ws s" .
    moreover have "set (w # us) \<subseteq> set ws" using w(1) us(1) by simp
    ultimately show ?thesis using us(3) by blast
  qed
qed

lemma trim_words_idem: "trim_words ws (trim_words ws s) = trim_words ws s"
  using trim_words_decomp [of ws s] by (auto intro: trim_words_stop)

text \<open>Trimming ignores whole words behind a string it does not trim away.\<close>

lemma trim_words_append_words:
  assumes code: "trim_code ws" "trim_sync ws" and us: "set us \<subseteq> set ws" and ne: "trim_words ws a \<noteq> []"
  shows "trim_words ws (a @ concat us) = trim_words ws a @ concat us"
proof -
  obtain vs where vs: "set vs \<subseteq> set ws" "a = concat vs @ trim_words ws a"
    and stop: "\<forall>w \<in> set ws. w \<noteq> [] \<longrightarrow> \<not> prefix w (trim_words ws a)"
    using trim_words_decomp [of ws a] by blast
  define b where "b = trim_words ws a"
  have "trim_words ws (a @ concat us) = trim_words ws (b @ concat us)"
    using trim_words_concat [OF code(1) vs(1), of "b @ concat us"] vs(2) unfolding b_def
    by (metis append.assoc)
  moreover have "\<not> prefix w (b @ concat us)" if w: "w \<in> set ws" for w
  proof
    assume "prefix w (b @ concat us)"
    then consider "prefix w b" | c where "w = b @ c" "c \<noteq> []" "prefix c (concat us)"
      by (cases "prefix w b") (auto simp: prefix_append)
    then show False
    proof cases
      case 1
      with stop w code show ?thesis by (auto simp: b_def trim_code_def)
    next
      case 2
      then have "us \<noteq> []" by auto
      with us code have u: "concat us \<noteq> []" "hd (concat us) = hd (hd us)" "hd us \<in> set ws"
        by (cases us; auto simp: trim_code_def)+
      from 2 u(1) have "hd c = hd (concat us)" by (auto simp: prefix_def)
      moreover have "hd c \<in> set (tl w)" using 2 ne by (cases b) (auto simp: b_def)
      ultimately show ?thesis using code w u by (auto simp: trim_sync_def)
    qed
  qed
  ultimately show ?thesis by (simp add: b_def trim_words_stop)
qed

lemma trim_code_go_spaces:
  "trim_code go_spaces" "trim_sync go_spaces" "trim_code (map rev go_spaces)"
  by (simp_all add: trim_code_def trim_sync_def go_spaces_def)

lemma TrimSpace_Nil [simp]: "TrimSpace [] = []"
  by (simp add: TrimSpace_def)

text \<open>Removing ASCII blanks does not disturb the encodings of the other spaces.\<close>

lemma remove_blank_words:
  assumes "set us \<subseteq> set ws" "ws = go_spaces \<or> ws = map rev go_spaces"
  shows "\<exists>vs. set vs \<subseteq> set ws \<and> remove_byte (CHR '' '') (concat us) = concat vs"
  using assms(1)
proof (induction us)
  case (Cons u us)
  then obtain vs where vs: "set vs \<subseteq> set ws" "remove_byte (CHR '' '') (concat us) = concat vs" by auto
  have "u \<in> set ws" using Cons.prems by simp
  then have "remove_byte (CHR '' '') u = [] \<or> remove_byte (CHR '' '') u = u"
    using assms(2) by (auto simp: go_spaces_def remove_byte_def)
  then show ?case
  proof
    assume "remove_byte (CHR '' '') u = []"
    with vs show ?thesis by (intro exI [of _ vs]) (auto simp: remove_byte_def)
  next
    assume "remove_byte (CHR '' '') u = u"
    with vs \<open>u \<in> set ws\<close> show ?thesis
      by (intro exI [of _ "u # vs"]) (auto simp: remove_byte_def)
  qed
qed (auto simp: remove_byte_def intro: exI [of _ "[]"])

lemma remove_byte_append: "remove_byte c (s @ t) = remove_byte c s @ remove_byte c t"
  by (simp add: remove_byte_def)

lemma remove_byte_rev: "remove_byte c (rev s) = rev (remove_byte c s)"
  by (simp add: remove_byte_def rev_filter)

lemma trim_words_remove_blank:
  assumes "ws = go_spaces \<or> ws = map rev go_spaces"
  shows "trim_words ws (remove_byte (CHR '' '') (trim_words ws s)) = trim_words ws (remove_byte (CHR '' '') s)"
proof -
  obtain us where us: "set us \<subseteq> set ws" "s = concat us @ trim_words ws s"
    using trim_words_decomp [of ws s] by blast
  then obtain vs where vs: "set vs \<subseteq> set ws" "remove_byte (CHR '' '') (concat us) = concat vs"
    using remove_blank_words assms by blast
  have "remove_byte (CHR '' '') s = concat vs @ remove_byte (CHR '' '') (trim_words ws s)"
    using us(2) vs(2) by (metis remove_byte_append)
  with vs(1) assms show ?thesis by (auto simp: trim_words_concat trim_code_go_spaces)
qed

text \<open>The right end: trimming blanks there first makes no difference either.\<close>

definition trim_right :: "string \<Rightarrow> string" where
  "trim_right s = rev (trim_words (map rev go_spaces) (rev s))"

lemma TrimSpace_eq: "TrimSpace s = trim_right (trim_words go_spaces s)"
  by (simp add: TrimSpace_def trim_right_def)

lemma trim_right_words:
  assumes "set us \<subseteq> set go_spaces"
  shows "trim_right (s @ concat us) = trim_right s"
proof -
  have "rev (concat us) = concat (map rev (rev us))" by (simp add: rev_concat rev_map)
  moreover have "set (map rev (rev us)) \<subseteq> set (map rev go_spaces)" using assms by auto
  ultimately show ?thesis
    using trim_words_concat [OF trim_code_go_spaces(3), of "map rev (rev us)" "rev s"]
    by (simp add: trim_right_def)
qed

lemma trim_right_decomp: "\<exists>us. set us \<subseteq> set go_spaces \<and> s = trim_right s @ concat us"
proof -
  obtain us where us: "set us \<subseteq> set (map rev go_spaces)"
    "rev s = concat us @ trim_words (map rev go_spaces) (rev s)"
    using trim_words_decomp [of "map rev go_spaces" "rev s"] by blast
  have "s = trim_right s @ rev (concat us)"
    using arg_cong [OF us(2), of rev] by (simp add: trim_right_def)
  moreover have "rev (concat us) = concat (map rev (rev us))" by (simp add: rev_concat rev_map)
  moreover have "set (map rev (rev us)) \<subseteq> set go_spaces" using us(1) by auto
  ultimately show ?thesis by metis
qed

lemma TrimSpace_words:
  assumes "set us \<subseteq> set go_spaces"
  shows "TrimSpace (s @ concat us) = TrimSpace s"
proof (cases "trim_words go_spaces s = []")
  case True
  obtain vs where "set vs \<subseteq> set go_spaces" "s = concat vs"
    using trim_words_decomp [of go_spaces s] True by auto
  then have "trim_words go_spaces (s @ concat us) = []"
    using trim_words_concat [OF trim_code_go_spaces(1), of "vs @ us" "[]"] assms by auto
  with True show ?thesis by (simp add: TrimSpace_eq)
next
  case False
  with assms show ?thesis
    by (simp add: TrimSpace_eq trim_words_append_words trim_code_go_spaces trim_right_words)
qed

lemma TrimSpace_remove_blank_right:
  "TrimSpace (remove_byte (CHR '' '') (trim_right s)) = TrimSpace (remove_byte (CHR '' '') s)"
proof -
  obtain us where us: "set us \<subseteq> set go_spaces" "s = trim_right s @ concat us"
    using trim_right_decomp by blast
  then obtain vs where "set vs \<subseteq> set go_spaces" "remove_byte (CHR '' '') (concat us) = concat vs"
    using remove_blank_words by blast
  with us(2) show ?thesis by (metis remove_byte_append TrimSpace_words)
qed

lemma TrimSpace_remove_blank:
  "TrimSpace (remove_byte (CHR '' '') (TrimSpace s)) = TrimSpace (remove_byte (CHR '' '') s)"
proof -
  have "TrimSpace (remove_byte (CHR '' '') (TrimSpace s))
      = TrimSpace (remove_byte (CHR '' '') (trim_words go_spaces s))"
    unfolding TrimSpace_eq [of s] by (rule TrimSpace_remove_blank_right)
  also have "\<dots> = TrimSpace (remove_byte (CHR '' '') s)"
    unfolding TrimSpace_eq by (simp add: trim_words_remove_blank)
  finally show ?thesis .
qed

section \<open>Decimal numbers\<close>

declare nat_digits.simps [simp del]

lemma nat_digits_Nil [simp]: "nat_digits n \<noteq> []"
  by (subst nat_digits.simps) simp

lemma digit_value_char: "d < 10 \<Longrightarrow> digit_value (digit_char d) = Some (int d)"
proof -
  assume "d < 10"
  moreover have "list_all (\<lambda>d. digit_value (digit_char d) = Some (int d)) [0..<10]" by code_simp
  ultimately show ?thesis by (auto simp: list_all_iff)
qed

lemma parse_digits_append:
  "parse_digits acc (xs @ ys) = (case parse_digits acc xs of None \<Rightarrow> None | Some n \<Rightarrow> parse_digits n ys)"
  by (induction xs arbitrary: acc) (auto split: option.split)

lemma parse_nat_digits: "parse_digits 0 (nat_digits n) = Some (int n)"
proof (induction n rule: nat_digits.induct)
  case (1 n)
  have "10 * int (n div 10) + int (n mod 10) = int n" by presburger
  with 1 show ?case
    by (subst nat_digits.simps) (auto simp: digit_value_char parse_digits_append)
qed

lemma nat_digits_chars: "c \<in> set (nat_digits n) \<Longrightarrow> \<exists>d < 10. c = digit_char d"
proof (induction n rule: nat_digits.induct)
  case (1 n)
  from 1(2) consider "n < 10" "c = digit_char n" | "\<not> n < 10" "c \<in> set (nat_digits (n div 10))" | "c = digit_char (n mod 10)"
    by (subst (asm) nat_digits.simps) (auto split: if_splits)
  then show ?case
  proof cases
    case 2
    with 1(1) show ?thesis by blast
  next
    case 3
    then show ?thesis by (intro exI [of _ "n mod 10"]) simp
  qed blast
qed

lemma digit_char_cases: "d < 10 \<Longrightarrow> digit_char d \<noteq> CHR ''-'' \<and> digit_char d \<noteq> CHR ''+''"
  using digit_value_char [of d] by (auto simp: digit_value_def Let_def)

lemma Atoi_Itoa: "0 \<le> i \<Longrightarrow> int64_range i \<Longrightarrow> Atoi (Itoa i) = Some i"
proof -
  assume i: "0 \<le> i" "int64_range i"
  obtain c cs where cs: "nat_digits (nat i) = c # cs" by (cases "nat_digits (nat i)") auto
  then have "c \<in> set (nat_digits (nat i))" by simp
  then obtain d where "d < 10" "c = digit_char d" using nat_digits_chars by blast
  then have "c \<noteq> CHR ''-''" "c \<noteq> CHR ''+''" by (auto dest: digit_char_cases)
  with i cs parse_nat_digits [of "nat i"] show ?thesis by (simp add: Atoi_def Itoa_def)
qed

text \<open>A string that neither starts nor ends with a space is not trimmed.\<close>

lemma TrimSpace_keep:
  assumes "list_all (\<lambda>w. \<not> prefix w s) go_spaces" "list_all (\<lambda>w. \<not> suffix w s) go_spaces"
  shows "TrimSpace s = s"
proof -
  have "trim_words go_spaces s = s"
    using assms(1) by (intro trim_words_stop) (auto simp: list_all_iff)
  moreover have "trim_words (map rev go_spaces) (rev s) = rev s"
    using assms(2) by (intro trim_words_stop) (auto simp: list_all_iff suffix_to_prefix)
  ultimately show ?thesis by (simp add: TrimSpace_def)
qed

lemma digit_char_not_space: "d < 10 \<Longrightarrow> w \<in> set go_spaces \<Longrightarrow> digit_char d \<noteq> hd w \<and> digit_char d \<noteq> last w"
  using digit_value_char [of d] by (auto simp: go_spaces_def digit_value_def Let_def split: if_splits)

lemma TrimSpace_Itoa: "0 \<le> i \<Longrightarrow> TrimSpace (Itoa i) = Itoa i"
proof (rule TrimSpace_keep)
  assume i: "0 \<le> i"
  let ?s = "nat_digits (nat i)"
  have "hd ?s \<in> set ?s" "last ?s \<in> set ?s" by simp_all
  then obtain d e where de: "d < 10" "hd ?s = digit_char d" "e < 10" "last ?s = digit_char e"
    using nat_digits_chars by meson
  have ne: "w \<noteq> []" if "w \<in> set go_spaces" for w using that by (auto simp: go_spaces_def)
  have "\<not> prefix w ?s \<and> \<not> suffix w ?s" if w: "w \<in> set go_spaces" for w
    using ne [OF w] digit_char_not_space [OF de(1) w] digit_char_not_space [OF de(3) w] de
    by (auto simp: prefix_def suffix_def hd_append)
  with i show "list_all (\<lambda>w. \<not> prefix w (Itoa i)) go_spaces" "list_all (\<lambda>w. \<not> suffix w (Itoa i)) go_spaces"
    by (auto simp: list_all_iff Itoa_def)
qed

text \<open>What is trimmed away entirely consists of spaces.\<close>

lemma TrimSpace_eq_Nil: "TrimSpace s = [] \<Longrightarrow> s \<noteq> [] \<Longrightarrow> last s \<in> last ` set go_spaces"
proof -
  assume "TrimSpace s = []" and ne: "s \<noteq> []"
  obtain us where us: "set us \<subseteq> set go_spaces" "s = concat us @ trim_words go_spaces s"
    using trim_words_decomp [of go_spaces s] by blast
  define r where "r = trim_words go_spaces s"
  obtain vs where vs: "set vs \<subseteq> set (map rev go_spaces)" "rev r = concat vs @ trim_words (map rev go_spaces) (rev r)"
    using trim_words_decomp [of "map rev go_spaces" "rev r"] by blast
  have empty: "\<forall>w \<in> set go_spaces. w \<noteq> []" by (simp add: go_spaces_def)
  from \<open>TrimSpace s = []\<close> vs have r: "rev r = concat vs" by (simp add: TrimSpace_def r_def)
  show ?thesis
  proof (cases vs)
    case Nil
    with r us have s: "s = concat us" by (simp add: r_def)
    with ne have "us \<noteq> []" by auto
    then obtain ws w where w: "us = ws @ [w]" by (cases us rule: rev_cases) auto
    with us have "w \<in> set go_spaces" by simp
    with s w empty show ?thesis by auto
  next
    case (Cons v vs')
    with vs obtain w where w: "v = rev w" "w \<in> set go_spaces" by auto
    with r Cons have "rev (rev r) = rev (rev w @ concat vs')" by simp
    then have "r = rev (concat vs') @ w" by simp
    with us(2) w empty show ?thesis by (auto simp: r_def)
  qed
qed

lemma nat_digits_inj: "nat_digits m = nat_digits n \<Longrightarrow> m = n"
proof -
  assume "nat_digits m = nat_digits n"
  then have "parse_digits 0 (nat_digits m) = parse_digits 0 (nat_digits n)" by (rule arg_cong)
  then show ?thesis unfolding parse_nat_digits by simp
qed

lemma Itoa_inj: "Itoa i = Itoa j \<Longrightarrow> i = j"
proof -
  assume eq: "Itoa i = Itoa j"
  have neg: "nat_digits n \<noteq> CHR ''-'' # xs" for n xs
  proof
    assume "nat_digits n = CHR ''-'' # xs"
    then have "CHR ''-'' \<in> set (nat_digits n)" by simp
    then obtain d where "d < 10" "CHR ''-'' = digit_char d" using nat_digits_chars by blast
    then show False using digit_char_cases [of d] by simp
  qed
  have neg': "CHR ''-'' # xs \<noteq> nat_digits n" for n xs using neg [of n xs] by metis
  show ?thesis
  proof (cases "i < 0"; cases "j < 0")
    assume "i < 0" "j < 0"
    with eq have "nat (- i) = nat (- j)" by (intro nat_digits_inj) (simp add: Itoa_def)
    with \<open>i < 0\<close> \<open>j < 0\<close> show ?thesis by simp
  next
    assume "\<not> i < 0" "\<not> j < 0"
    with eq have "nat i = nat j" by (intro nat_digits_inj) (simp add: Itoa_def)
    with \<open>\<not> i < 0\<close> \<open>\<not> j < 0\<close> show ?thesis by simp
  qed (use eq neg neg' in \<open>simp_all add: Itoa_def\<close>)
qed

end
