(* ===== verification/StatusCodes.thy ===== *)
theory StatusCodes
  imports Prelude
begin

text \<open>
  HTTP status code policies: \<^verbatim>\<open>backend/internal/service/status_code_range_policy.go\<close>, the
  parser and normaliser of status code ranges that account policies are configured with.
  Two parsers read the same dynamically typed values: the lenient one drops what it cannot
  read, the strict one reports it. Both normalise what they read into sorted, disjoint,
  maximal ranges, which the membership test and the expansion rely on.
\<close>

section \<open>Ranges and their normal form\<close>

record httpStatusCodeRange =
  Start :: int
  End :: int

abbreviation mkRange :: "int \<Rightarrow> int \<Rightarrow> httpStatusCodeRange" where
  "mkRange s e \<equiv> \<lparr>Start = s, End = e\<rparr>"

definition isHTTPStatusCode :: "int \<Rightarrow> bool" where
  "isHTTPStatusCode code \<longleftrightarrow> code \<ge> 100 \<and> code \<le> 599"

text \<open>The loop that keeps the ranges that make sense.\<close>

definition validRange :: "httpStatusCodeRange \<Rightarrow> bool" where
  "validRange r \<longleftrightarrow> isHTTPStatusCode (Start r) \<and> isHTTPStatusCode (End r) \<and> Start r \<le> End r"

text \<open>
  The merging loop: \<open>cur\<close> is the last element of the result so far, which the loop may
  still extend.
\<close>

fun mergeRanges :: "httpStatusCodeRange \<Rightarrow> httpStatusCodeRange list \<Rightarrow> httpStatusCodeRange list" where
  "mergeRanges cur [] = [cur]"
| "mergeRanges cur (r # rs) =
     (if Start r \<le> End cur + 1
      then mergeRanges (if End r > End cur then cur\<lparr>End := End r\<rparr> else cur) rs
      else cur # mergeRanges r rs)"

text \<open>
  Sorting by start and then by end is a total order on ranges, so the unstable library sort
  and the stable one give the same list.
\<close>

definition normalizeHTTPStatusCodeRanges :: "httpStatusCodeRange list \<Rightarrow> httpStatusCodeRange list" where
  "normalizeHTTPStatusCodeRanges ranges =
     (case sort_key (\<lambda>r. (Start r, End r)) (filter validRange ranges) of
        [] \<Rightarrow> []
      | r # rs \<Rightarrow> mergeRanges r rs)"

fun rangesContainLoop :: "httpStatusCodeRange list \<Rightarrow> int \<Rightarrow> bool" where
  "rangesContainLoop [] code = False"
| "rangesContainLoop (r # rs) code =
     (if code < Start r then False
      else if code \<le> End r then True
      else rangesContainLoop rs code)"

definition httpStatusCodeRangesContain :: "httpStatusCodeRange list \<Rightarrow> int \<Rightarrow> bool" where
  "httpStatusCodeRangesContain ranges code =
     (if \<not> isHTTPStatusCode code then False else rangesContainLoop ranges code)"

definition expandHTTPStatusCodeRanges :: "httpStatusCodeRange list \<Rightarrow> int list" where
  "expandHTTPStatusCodeRanges ranges =
     concat (map (\<lambda>r. [Start r..End r]) (normalizeHTTPStatusCodeRanges ranges))"

section \<open>The parsers\<close>

definition statusCodeExactRange :: "int \<Rightarrow> httpStatusCodeRange list" where
  "statusCodeExactRange code = (if \<not> isHTTPStatusCode code then [] else [mkRange code code])"

text \<open>The errors of the strict parser, one constructor per message.\<close>

datatype statusCodeError =
    OutOfBounds int
  | NotAnInteger gofloat
  | InvalidNumber string
  | InvalidRules "string list"
  | UnsupportedValue goval

definition strictStatusCodeExactRange :: "int \<Rightarrow> statusCodeError + httpStatusCodeRange list" where
  "strictStatusCodeExactRange code =
     (if \<not> isHTTPStatusCode code then Inl (OutOfBounds code) else Inr [mkRange code code])"

definition parseHTTPStatusCodeRangeToken :: "string \<Rightarrow> httpStatusCodeRange option" where
  "parseHTTPStatusCodeRangeToken token0 =
     (let token = TrimSpace (remove_byte (CHR '' '') token0) in
      if token = [] then None
      else if CHR ''-'' \<in> set token then
        (case split_byte (CHR ''-'') token of
           [a, b] \<Rightarrow>
             if a = [] \<or> b = [] then None
             else (case (Atoi a, Atoi b) of
                 (Some start, Some end') \<Rightarrow>
                   if start > end' \<or> \<not> isHTTPStatusCode start \<or> \<not> isHTTPStatusCode end' then None
                   else Some (mkRange start end')
               | _ \<Rightarrow> None)
         | _ \<Rightarrow> None)
      else (case Atoi token of
          None \<Rightarrow> None
        | Some code \<Rightarrow> if \<not> isHTTPStatusCode code then None else Some (mkRange code code)))"

text \<open>The full-width comma the replacer turns into a comma.\<close>

definition fullwidth_comma :: string where
  "fullwidth_comma = [CHR 0xEF, CHR 0xBC, CHR 0x8C]"

definition codeSegments :: "string \<Rightarrow> string list" where
  "codeSegments input = split_byte (CHR '','') (replace_all fullwidth_comma '','' input)"

definition parseHTTPStatusCodeRangesString :: "string \<Rightarrow> httpStatusCodeRange list" where
  "parseHTTPStatusCodeRangesString input0 =
     (let input = TrimSpace input0 in
      if input = [] then []
      else normalizeHTTPStatusCodeRanges
             (List.map_filter parseHTTPStatusCodeRangeToken (codeSegments input)))"

fun strictSegments ::
  "string list \<Rightarrow> httpStatusCodeRange list \<Rightarrow> string list \<Rightarrow> httpStatusCodeRange list \<times> string list" where
  "strictSegments [] ranges invalid = (ranges, invalid)"
| "strictSegments (s # segs) ranges invalid =
     (let segment = TrimSpace s in
      if segment = [] then strictSegments segs ranges invalid
      else (case parseHTTPStatusCodeRangeToken segment of
          Some r \<Rightarrow> strictSegments segs (ranges @ [r]) invalid
        | None \<Rightarrow> strictSegments segs ranges (invalid @ [segment])))"

definition parseHTTPStatusCodeRangesStringStrict ::
  "string \<Rightarrow> statusCodeError + httpStatusCodeRange list" where
  "parseHTTPStatusCodeRangesStringStrict input0 =
     (let input = TrimSpace input0 in
      if input = [] then Inr []
      else (let (ranges, invalid) = strictSegments (codeSegments input) [] [] in
            if invalid \<noteq> [] then Inl (InvalidRules invalid)
            else Inr (normalizeHTTPStatusCodeRanges ranges)))"

fun parseHTTPStatusCodeRangesValue :: "goval \<Rightarrow> httpStatusCodeRange list" where
  "parseHTTPStatusCodeRangesValue VNil = []"
| "parseHTTPStatusCodeRangesValue (VInt v) = statusCodeExactRange v"
| "parseHTTPStatusCodeRangesValue (VInt64 v) = statusCodeExactRange v"
| "parseHTTPStatusCodeRangesValue (VFloat v) = statusCodeExactRange (go_int_of_float v)"
| "parseHTTPStatusCodeRangesValue (VNumber v) =
     (case Atoi v of Some i \<Rightarrow> statusCodeExactRange i | None \<Rightarrow> [])"
| "parseHTTPStatusCodeRangesValue (VString v) = parseHTTPStatusCodeRangesString v"
| "parseHTTPStatusCodeRangesValue (VInts v) =
     normalizeHTTPStatusCodeRanges (concat (map statusCodeExactRange v))"
| "parseHTTPStatusCodeRangesValue (VFloats v) =
     normalizeHTTPStatusCodeRanges (concat (map (\<lambda>f. statusCodeExactRange (go_int_of_float f)) v))"
| "parseHTTPStatusCodeRangesValue (VStrings v) =
     normalizeHTTPStatusCodeRanges (concat (map parseHTTPStatusCodeRangesString v))"
| "parseHTTPStatusCodeRangesValue (VList v) =
     normalizeHTTPStatusCodeRanges (concat (map parseHTTPStatusCodeRangesValue v))"
| "parseHTTPStatusCodeRangesValue _ = []"

text \<open>
  The loops of the strict parser: the first error ends the loop, otherwise the ranges of the
  items are appended in order.
\<close>

fun collectStrict ::
  "('a \<Rightarrow> statusCodeError + httpStatusCodeRange list) \<Rightarrow> 'a list \<Rightarrow> statusCodeError + httpStatusCodeRange list" where
  "collectStrict f [] = Inr []"
| "collectStrict f (x # xs) =
     (case f x of
        Inl e \<Rightarrow> Inl e
      | Inr next \<Rightarrow> (case collectStrict f xs of Inl e \<Rightarrow> Inl e | Inr rest \<Rightarrow> Inr (next @ rest)))"

lemma collectStrict_cong [fundef_cong]:
  "\<lbrakk>xs = ys; \<And>x. x \<in> set ys \<Longrightarrow> f x = g x\<rbrakk> \<Longrightarrow> collectStrict f xs = collectStrict g ys"
  by (induction ys arbitrary: xs) (auto split: sum.splits)

definition normalizeStrict ::
  "statusCodeError + httpStatusCodeRange list \<Rightarrow> statusCodeError + httpStatusCodeRange list" where
  "normalizeStrict r = (case r of Inl e \<Rightarrow> Inl e | Inr rs \<Rightarrow> Inr (normalizeHTTPStatusCodeRanges rs))"

definition strictFloat :: "gofloat \<Rightarrow> statusCodeError + httpStatusCodeRange list" where
  "strictFloat v = (if \<not> float_is_integral v then Inl (NotAnInteger v)
                    else strictStatusCodeExactRange (go_int_of_float v))"

fun parseHTTPStatusCodeRangesValueStrict :: "goval \<Rightarrow> statusCodeError + httpStatusCodeRange list" where
  "parseHTTPStatusCodeRangesValueStrict VNil = Inr []"
| "parseHTTPStatusCodeRangesValueStrict (VInt v) = strictStatusCodeExactRange v"
| "parseHTTPStatusCodeRangesValueStrict (VInt64 v) = strictStatusCodeExactRange v"
| "parseHTTPStatusCodeRangesValueStrict (VFloat v) = strictFloat v"
| "parseHTTPStatusCodeRangesValueStrict (VNumber v) =
     (case Atoi v of None \<Rightarrow> Inl (InvalidNumber v) | Some i \<Rightarrow> strictStatusCodeExactRange i)"
| "parseHTTPStatusCodeRangesValueStrict (VString v) = parseHTTPStatusCodeRangesStringStrict v"
| "parseHTTPStatusCodeRangesValueStrict (VInts v) =
     normalizeStrict (collectStrict strictStatusCodeExactRange v)"
| "parseHTTPStatusCodeRangesValueStrict (VInt64s v) =
     normalizeStrict (collectStrict strictStatusCodeExactRange v)"
| "parseHTTPStatusCodeRangesValueStrict (VFloats v) =
     normalizeStrict (collectStrict strictFloat v)"
| "parseHTTPStatusCodeRangesValueStrict (VStrings v) =
     normalizeStrict (collectStrict parseHTTPStatusCodeRangesStringStrict v)"
| "parseHTTPStatusCodeRangesValueStrict (VList v) =
     normalizeStrict (collectStrict parseHTTPStatusCodeRangesValueStrict v)"
| "parseHTTPStatusCodeRangesValueStrict v = Inl (UnsupportedValue v)"

definition ParseHTTPStatusCodesValue :: "goval \<Rightarrow> statusCodeError + int list" where
  "ParseHTTPStatusCodesValue value =
     (case parseHTTPStatusCodeRangesValueStrict value of
        Inl e \<Rightarrow> Inl e
      | Inr ranges \<Rightarrow> Inr (expandHTTPStatusCodeRanges ranges))"

section \<open>The normal form\<close>

text \<open>
  What normalisation promises: the ranges are valid, ascending, and a gap of at least one code
  separates neighbours. \<open>codesOf\<close> is the set of status codes a list of ranges stands for.
\<close>

definition normalRanges :: "httpStatusCodeRange list \<Rightarrow> bool" where
  "normalRanges rs \<longleftrightarrow> list_all validRange rs \<and> sorted_wrt (\<lambda>a b. End a + 1 < Start b) rs"

definition codesOf :: "httpStatusCodeRange list \<Rightarrow> int set" where
  "codesOf rs = (\<Union>r \<in> set rs. {Start r..End r})"

lemma codesOf_simps [simp]:
  "codesOf [] = {}"
  "codesOf (r # rs) = {Start r..End r} \<union> codesOf rs"
  "codesOf (rs @ qs) = codesOf rs \<union> codesOf qs"
  by (auto simp: codesOf_def)

lemma codesOf_concat: "codesOf (concat (map f xs)) = (\<Union>x \<in> set xs. codesOf (f x))"
  by (induction xs) auto

lemma codesOf_set_cong: "set rs = set qs \<Longrightarrow> codesOf rs = codesOf qs"
  by (simp add: codesOf_def)

lemma mergeRanges_codes:
  "\<lbrakk>\<forall>r \<in> set rs. Start cur \<le> Start r; sorted (map Start rs);
    \<forall>r \<in> set (cur # rs). Start r \<le> End r\<rbrakk>
   \<Longrightarrow> codesOf (mergeRanges cur rs) = codesOf (cur # rs)"
proof (induction cur rs rule: mergeRanges.induct)
  case (2 cur r rs)
  show ?case
  proof (cases "Start r \<le> End cur + 1")
    case True
    define cur' where "cur' = (if End r > End cur then cur\<lparr>End := End r\<rparr> else cur)"
    have "codesOf (mergeRanges cur' rs) = codesOf (cur' # rs)"
      unfolding cur'_def using True "2.prems" by (intro "2.IH"(1)) auto
    moreover have "{Start cur'..End cur'} = {Start cur..End cur} \<union> {Start r..End r}"
      using True "2.prems" by (auto simp: cur'_def)
    ultimately show ?thesis using True by (auto simp: cur'_def)
  next
    case False
    have "codesOf (mergeRanges r rs) = codesOf (r # rs)"
      using False "2.prems" by (intro "2.IH"(2)) auto
    with False show ?thesis by simp
  qed
qed simp

lemma mergeRanges_bounds:
  "x \<in> set (mergeRanges cur rs) \<Longrightarrow> \<forall>r \<in> set rs. Start cur \<le> Start r \<Longrightarrow>
    sorted (map Start rs) \<Longrightarrow> Start cur \<le> Start x"
  by (induction cur rs rule: mergeRanges.induct) (fastforce split: if_splits)+

lemma mergeRanges_normal:
  "\<lbrakk>\<forall>r \<in> set rs. Start cur \<le> Start r; sorted (map Start rs); list_all validRange (cur # rs)\<rbrakk>
   \<Longrightarrow> normalRanges (mergeRanges cur rs)"
proof (induction cur rs rule: mergeRanges.induct)
  case (2 cur r rs)
  show ?case
  proof (cases "Start r \<le> End cur + 1")
    case True
    with "2.prems" have "normalRanges
        (mergeRanges (if End r > End cur then cur\<lparr>End := End r\<rparr> else cur) rs)"
      by (intro "2.IH"(1)) (auto simp: validRange_def)
    with True show ?thesis by simp
  next
    case False
    with "2.prems" have nf: "normalRanges (mergeRanges r rs)"
      by (intro "2.IH"(2)) auto
    moreover have "\<forall>x \<in> set (mergeRanges r rs). End cur + 1 < Start x"
      using False "2.prems" by (fastforce dest: mergeRanges_bounds)
    ultimately show ?thesis using False "2.prems" by (simp add: normalRanges_def)
  qed
qed (simp add: normalRanges_def)

lemma sorted_pairs_Start:
  "sorted (map (\<lambda>r. (Start r, End r)) rs) \<Longrightarrow> sorted (map Start rs)"
  by (induction rs) (auto simp: less_eq_prod_def)

lemma sorted_ranges_Cons:
  assumes "sort_key (\<lambda>r. (Start r, End r)) (filter validRange ranges) = r # rs"
  shows "\<forall>x \<in> set rs. Start r \<le> Start x" "sorted (map Start rs)"
    "list_all validRange (r # rs)" "set (r # rs) = set (filter validRange ranges)"
proof -
  have "sorted (map (\<lambda>r. (Start r, End r)) (r # rs))"
    using sorted_sort_key [of "\<lambda>r. (Start r, End r)" "filter validRange ranges"] assms by simp
  then have "sorted (map Start (r # rs))" by (rule sorted_pairs_Start)
  then show "\<forall>x \<in> set rs. Start r \<le> Start x" "sorted (map Start rs)" by auto
  show set_eq: "set (r # rs) = set (filter validRange ranges)"
    using arg_cong [OF assms, of set] by simp
  have "\<forall>x \<in> set (r # rs). validRange x" unfolding set_eq by simp
  then show "list_all validRange (r # rs)" by (simp only: list_all_iff)
qed

lemma normalize_normal: "normalRanges (normalizeHTTPStatusCodeRanges ranges)"
  by (auto simp: normalizeHTTPStatusCodeRanges_def normalRanges_def [of "[]"] split: list.splits
      intro!: mergeRanges_normal dest: sorted_ranges_Cons)

lemma normalize_codes:
  "codesOf (normalizeHTTPStatusCodeRanges ranges) = codesOf (filter validRange ranges)"
proof (cases "sort_key (\<lambda>r. (Start r, End r)) (filter validRange ranges)")
  case Nil
  then have "filter validRange ranges = []"
    by (metis empty_set set_empty set_sort)
  with Nil show ?thesis by (simp add: normalizeHTTPStatusCodeRanges_def)
next
  case (Cons r rs)
  note s = sorted_ranges_Cons [OF Cons]
  from s(3) have "\<forall>x \<in> set (r # rs). Start x \<le> End x" by (auto simp: validRange_def list_all_iff)
  with s(1,2) have "codesOf (mergeRanges r rs) = codesOf (r # rs)" by (intro mergeRanges_codes)
  also have "\<dots> = codesOf (filter validRange ranges)" by (rule codesOf_set_cong [OF s(4)])
  finally show ?thesis using Cons by (simp add: normalizeHTTPStatusCodeRanges_def)
qed

lemma rangesContainLoop_iff:
  "sorted_wrt (\<lambda>a b. End a + 1 < Start b) rs \<Longrightarrow> list_all validRange rs \<Longrightarrow>
    rangesContainLoop rs code \<longleftrightarrow> code \<in> codesOf rs"
  by (induction rs code rule: rangesContainLoop.induct)
    (force simp: codesOf_def validRange_def list_all_iff)+

lemma normal_contain_iff:
  "normalRanges rs \<Longrightarrow> httpStatusCodeRangesContain rs code \<longleftrightarrow> code \<in> codesOf rs"
  by (auto simp: httpStatusCodeRangesContain_def normalRanges_def rangesContainLoop_iff)
    (auto simp: codesOf_def validRange_def list_all_iff isHTTPStatusCode_def)

lemma expand_set: "set (expandHTTPStatusCodeRanges ranges) = codesOf (filter validRange ranges)"
  unfolding normalize_codes [symmetric] by (simp add: expandHTTPStatusCodeRanges_def codesOf_def)

lemma concat_upto_sorted:
  "sorted_wrt (\<lambda>a b. End a + 1 < Start b) rs \<Longrightarrow>
    sorted_wrt (<) (concat (map (\<lambda>r. [Start r..End r]) rs))"
  by (induction rs) (force simp: sorted_wrt_append)+

lemma expand_sorted: "sorted_wrt (<) (expandHTTPStatusCodeRanges ranges)"
  using normalize_normal [of ranges]
  by (simp add: expandHTTPStatusCodeRanges_def normalRanges_def concat_upto_sorted)

lemma exactRange_valid: "list_all validRange (statusCodeExactRange c)"
  by (simp add: statusCodeExactRange_def validRange_def)

section \<open>Normal forms are canonical\<close>

lemma normalRanges_Cons:
  "normalRanges (r # rs) \<longleftrightarrow> validRange r \<and> (\<forall>c \<in> codesOf rs. End r + 1 < c) \<and> normalRanges rs"
proof
  assume "normalRanges (r # rs)"
  then show "validRange r \<and> (\<forall>c \<in> codesOf rs. End r + 1 < c) \<and> normalRanges rs"
    by (force simp: normalRanges_def codesOf_def)
next
  assume a: "validRange r \<and> (\<forall>c \<in> codesOf rs. End r + 1 < c) \<and> normalRanges rs"
  then have "Start x \<in> codesOf rs" if "x \<in> set rs" for x
    using that by (auto simp: codesOf_def normalRanges_def list_all_iff validRange_def intro!: bexI [of _ x])
  with a show "normalRanges (r # rs)" by (auto simp: normalRanges_def)
qed

lemma normal_head_eq:
  assumes "normalRanges (r # rs)" "normalRanges (q # qs)" "codesOf (r # rs) = codesOf (q # qs)"
  shows "Start r \<le> Start q" "Start r = Start q \<Longrightarrow> End r \<le> End q"
proof -
  have sq: "Start q \<in> codesOf (r # rs)" and er: "End r \<in> codesOf (q # qs)"
    using assms by (auto simp: normalRanges_Cons validRange_def simp flip: assms(3))
  from sq assms(1) show "Start r \<le> Start q" by (auto simp: normalRanges_Cons validRange_def)
  show "End r \<le> End q" if eq: "Start r = Start q"
  proof (rule ccontr)
    assume "\<not> End r \<le> End q"
    with eq assms(1,2) have "End q + 1 \<in> codesOf (r # rs)" by (auto simp: normalRanges_Cons validRange_def)
    with assms(2,3) show False by (auto simp: normalRanges_Cons)
  qed
qed

lemma normal_unique:
  "normalRanges rs \<Longrightarrow> normalRanges qs \<Longrightarrow> codesOf rs = codesOf qs \<Longrightarrow> rs = qs"
proof (induction rs arbitrary: qs)
  case Nil
  then show ?case by (cases qs) (auto simp: normalRanges_Cons validRange_def)
next
  case (Cons r rs)
  then obtain q qs' where qs: "qs = q # qs'"
    by (cases qs) (auto simp: normalRanges_Cons validRange_def)
  note hd = normal_head_eq [OF Cons.prems(1) Cons.prems(2) [unfolded qs] Cons.prems(3) [unfolded qs]]
    normal_head_eq [OF Cons.prems(2) [unfolded qs] Cons.prems(1) Cons.prems(3) [unfolded qs, symmetric]]
  then have eq: "r = q" by (intro httpStatusCodeRange.equality) auto
  have "codesOf xs = codesOf (r # xs) - {Start r..End r}" if "normalRanges (r # xs)" for xs
    using that by (force simp: normalRanges_Cons)
  with Cons.prems qs eq have "codesOf rs = codesOf qs'" by metis
  with Cons qs eq show ?case by (auto simp: normalRanges_Cons)
qed

section \<open>The strict and the lenient parser\<close>

lemma token_TrimSpace: "parseHTTPStatusCodeRangeToken (TrimSpace s) = parseHTTPStatusCodeRangeToken s"
  by (simp add: parseHTTPStatusCodeRangeToken_def TrimSpace_remove_blank)

lemma token_blank:
  assumes "TrimSpace s = []"
  shows "parseHTTPStatusCodeRangeToken s = None"
proof -
  have "parseHTTPStatusCodeRangeToken s = parseHTTPStatusCodeRangeToken []"
    using token_TrimSpace [of s] assms by simp
  then show ?thesis by (simp add: parseHTTPStatusCodeRangeToken_def remove_byte_def)
qed

lemma strictSegments_eq:
  "fst (strictSegments segs ranges invalid) = ranges @ List.map_filter parseHTTPStatusCodeRangeToken segs"
  "snd (strictSegments segs ranges invalid) =
     invalid @ map TrimSpace (filter (\<lambda>s. TrimSpace s \<noteq> [] \<and> parseHTTPStatusCodeRangeToken s = None) segs)"
  by (induction segs ranges invalid rule: strictSegments.induct)
    (auto simp: Let_def token_TrimSpace token_blank List.map_filter_def split: option.splits)

lemma stringStrict_Inr:
  "parseHTTPStatusCodeRangesStringStrict s = Inr rs \<Longrightarrow> parseHTTPStatusCodeRangesString s = rs"
  using strictSegments_eq(1) [of "codeSegments (TrimSpace s)" "[]" "[]"]
  by (auto simp: parseHTTPStatusCodeRangesStringStrict_def parseHTTPStatusCodeRangesString_def
      Let_def split: prod.splits if_splits)

lemma strictExact_Inr: "strictStatusCodeExactRange c = Inr rs \<Longrightarrow> statusCodeExactRange c = rs"
  by (auto simp: strictStatusCodeExactRange_def statusCodeExactRange_def split: if_splits)

lemma strictFloat_Inr: "strictFloat f = Inr rs \<Longrightarrow> statusCodeExactRange (go_int_of_float f) = rs"
  by (auto simp: strictFloat_def strictExact_Inr split: if_splits)

lemma collectStrict_Inr:
  assumes "collectStrict f xs = Inr rs" "\<And>x qs. x \<in> set xs \<Longrightarrow> f x = Inr qs \<Longrightarrow> g x = qs"
  shows "concat (map g xs) = rs"
  using assms by (induction xs arbitrary: rs) (auto split: sum.splits)

lemma normalizeStrict_Inr:
  assumes "normalizeStrict (collectStrict f xs) = Inr rs"
    "\<And>x qs. x \<in> set xs \<Longrightarrow> f x = Inr qs \<Longrightarrow> g x = qs"
  shows "normalizeHTTPStatusCodeRanges (concat (map g xs)) = rs"
  using assms(1) collectStrict_Inr [of f xs _ g] assms(2)
  by (auto simp: normalizeStrict_def split: sum.splits)

text \<open>The values without a \<^verbatim>\<open>[]int64\<close>, the one type only the strict parser knows.\<close>

fun noInt64s :: "goval \<Rightarrow> bool" where
  "noInt64s (VInt64s _) = False"
| "noInt64s (VList vs) = list_all noInt64s vs"
| "noInt64s _ = True"

lemma strict_lenient_agree:
  "noInt64s v \<Longrightarrow> parseHTTPStatusCodeRangesValueStrict v = Inr rs \<Longrightarrow> parseHTTPStatusCodeRangesValue v = rs"
proof (induction v arbitrary: rs rule: parseHTTPStatusCodeRangesValue.induct)
  case (10 vs)
  then show ?case
    by (auto simp: list_all_iff intro!: normalizeStrict_Inr [of parseHTTPStatusCodeRangesValueStrict])
qed (auto simp: strictExact_Inr strictFloat_Inr stringStrict_Inr split: option.splits
      intro!: normalizeStrict_Inr [of strictStatusCodeExactRange]
        normalizeStrict_Inr [of strictFloat]
        normalizeStrict_Inr [of parseHTTPStatusCodeRangesStringStrict])

lemma lenient_normal: "normalRanges (parseHTTPStatusCodeRangesValue v)"
  by (cases v) (auto simp: normalize_normal parseHTTPStatusCodeRangesString_def Let_def
      statusCodeExactRange_def normalRanges_def [of "[]"] normalRanges_Cons validRange_def
      split: option.splits)

section \<open>Properties\<close>

text \<open>
  Normalisation yields valid, ascending ranges with a gap between neighbours, and a status code lies in
  the result exactly when it lies in one of the valid ranges of the input.
\<close>

theorem normalize_correct:
  "normalRanges (normalizeHTTPStatusCodeRanges ranges) \<and>
   (\<forall>c. c \<in> codesOf (normalizeHTTPStatusCodeRanges ranges) \<longleftrightarrow>
      (\<exists>r \<in> set ranges. validRange r \<and> Start r \<le> c \<and> c \<le> End r))"
  unfolding normalize_codes using normalize_normal [of ranges] by (auto simp: codesOf_def)

text \<open>
  Normal forms are canonical: two lists of ranges normalise to the same list exactly when their
  valid ranges cover the same status codes.
\<close>

theorem normalize_canonical:
  "normalizeHTTPStatusCodeRanges rs = normalizeHTTPStatusCodeRanges qs \<longleftrightarrow>
   codesOf (filter validRange rs) = codesOf (filter validRange qs)"
  using normal_unique [OF normalize_normal normalize_normal, of rs qs] normalize_codes
  by metis

text \<open>
  The membership test, which stops at the first range that starts beyond the code, is right
  on every configured value: it holds exactly for the codes the parsed ranges cover.
\<close>

theorem contain_parsed_value:
  "httpStatusCodeRangesContain (parseHTTPStatusCodeRangesValue v) code \<longleftrightarrow>
   (\<exists>r \<in> set (parseHTTPStatusCodeRangesValue v). Start r \<le> code \<and> code \<le> End r)"
  using normal_contain_iff [OF lenient_normal, of v code] by (auto simp: codesOf_def)

text \<open>
  Expansion lists every status code of the valid ranges once, in ascending order.
\<close>

theorem expand_correct:
  "sorted_wrt (<) (expandHTTPStatusCodeRanges ranges) \<and>
   set (expandHTTPStatusCodeRanges ranges) =
     {c. \<exists>r \<in> set ranges. validRange r \<and> Start r \<le> c \<and> c \<le> End r}"
  by (auto simp: expand_sorted expand_set codesOf_def)

text \<open>
  Where the strict parser accepts a value that holds no \<^verbatim>\<open>[]int64\<close>, the lenient parser reads the
  same ranges from it, whatever the nesting.
\<close>

theorem strict_implies_lenient:
  assumes "noInt64s v" "parseHTTPStatusCodeRangesValueStrict v = Inr rs"
  shows "parseHTTPStatusCodeRangesValue v = rs"
  using assms by (rule strict_lenient_agree)

theorem strict_implies_lenient_witness:
  "parseHTTPStatusCodeRangesValue (VList [VInt 429, VString ''500-503, 502'']) = [mkRange 429 429, mkRange 500 503]"
proof -
  have "noInt64s (VList [VInt 429, VString ''500-503, 502''])" by simp
  moreover have "parseHTTPStatusCodeRangesValueStrict (VList [VInt 429, VString ''500-503, 502''])
      = Inr [mkRange 429 429, mkRange 500 503]" by code_simp
  ultimately show ?thesis by (rule strict_implies_lenient)
qed

end
