(* ===== verification/Account.thy ===== *)
theory Account
  imports StatusCodes
begin

text \<open>
  Account policies: the parts of \<^verbatim>\<open>backend/internal/service/account.go\<close> (and of
  \<^verbatim>\<open>error_state_policy.go\<close>) that decide, from an account's record and its dynamically typed
  configuration, how the account may be scheduled and which upstream errors are its own:
  integer settings, pool mode and its retry codes, custom error codes, temporary
  unschedulability rules, session and concurrency caps, the requests-per-minute ramp and the
  three-way schedulability verdict, and the model mapping with its trailing wildcards.

  Methods are modelled on accounts that exist (a non-nil receiver). Go's \<^verbatim>\<open>int\<close> is 64 bits
  wide; \<open>wrap64\<close> marks the sums and products of configured values that can leave that range.
\<close>

text \<open>The fields of \<^verbatim>\<open>Account\<close> the modelled methods read.\<close>

record account =
  a_ID :: int
  a_Platform :: string
  a_Type :: string
  a_Status :: string
  a_Credentials :: goconfig
  a_Extra :: goconfig
  a_OwnerUserID :: "int option"
  a_Concurrency :: int
  a_LoadFactor :: "int option"
  a_Schedulable :: bool
  a_CreatedAt :: "gotime option"  \<comment> \<open>None: the zero time\<close>
  a_RateLimitResetAt :: "gotime option"
  a_OverloadUntil :: "gotime option"
  a_TempUnschedulableUntil :: "gotime option"

definition IsActive :: "account \<Rightarrow> bool" where
  "IsActive a \<longleftrightarrow> a_Status a = ''active''"

definition IsAnthropicOAuthOrSetupToken :: "account \<Rightarrow> bool" where
  "IsAnthropicOAuthOrSetupToken a \<longleftrightarrow>
     a_Platform a = ''anthropic'' \<and> (a_Type a = ''oauth'' \<or> a_Type a = ''setup-token'')"

definition IsAPIKeyOrBedrock :: "account \<Rightarrow> bool" where
  "IsAPIKeyOrBedrock a \<longleftrightarrow> a_Type a = ''apikey'' \<or> a_Type a = ''bedrock''"

section \<open>Integer settings\<close>

fun parseExtraIntOK :: "goval \<Rightarrow> int \<times> bool" where
  "parseExtraIntOK (VInt v) = (v, True)"
| "parseExtraIntOK (VInt64 v) = (v, True)"
| "parseExtraIntOK (VFloat v) = (go_int_of_float v, True)"
| "parseExtraIntOK (VNumber v) = (case Atoi v of Some i \<Rightarrow> (i, True) | None \<Rightarrow> (0, False))"
| "parseExtraIntOK (VString v) = (case Atoi (TrimSpace v) of Some i \<Rightarrow> (i, True) | None \<Rightarrow> (0, False))"
| "parseExtraIntOK _ = (0, False)"

fun parseExtraInt :: "goval \<Rightarrow> int" where
  "parseExtraInt (VInt v) = v"
| "parseExtraInt (VInt64 v) = v"
| "parseExtraInt (VFloat v) = go_int_of_float v"
| "parseExtraInt (VNumber v) = (case Atoi v of Some i \<Rightarrow> i | None \<Rightarrow> 0)"
| "parseExtraInt (VString v) = (case Atoi (TrimSpace v) of Some i \<Rightarrow> i | None \<Rightarrow> 0)"
| "parseExtraInt _ = 0"

fun parseTempUnschedInt :: "goval \<Rightarrow> int" where
  "parseTempUnschedInt (VInt v) = v"
| "parseTempUnschedInt (VInt64 v) = v"
| "parseTempUnschedInt (VFloat v) = go_int_of_float v"
| "parseTempUnschedInt (VNumber v) = (case Atoi v of Some i \<Rightarrow> i | None \<Rightarrow> 0)"
| "parseTempUnschedInt (VString v) = (case Atoi (TrimSpace v) of Some i \<Rightarrow> i | None \<Rightarrow> 0)"
| "parseTempUnschedInt _ = 0"

definition defaultPoolModeRetryCount :: int where "defaultPoolModeRetryCount = 3"
definition maxPoolModeRetryCount :: int where "maxPoolModeRetryCount = 10"

fun parsePoolModeRetryCount :: "goval \<Rightarrow> int" where
  "parsePoolModeRetryCount (VInt v) = v"
| "parsePoolModeRetryCount (VInt64 v) = v"
| "parsePoolModeRetryCount (VFloat v) = go_int_of_float v"
| "parsePoolModeRetryCount (VNumber v) =
     (case Atoi v of Some i \<Rightarrow> i | None \<Rightarrow> defaultPoolModeRetryCount)"
| "parsePoolModeRetryCount (VString v) =
     (case Atoi (TrimSpace v) of Some i \<Rightarrow> i | None \<Rightarrow> defaultPoolModeRetryCount)"
| "parsePoolModeRetryCount _ = defaultPoolModeRetryCount"

section \<open>Custom error codes and pool mode\<close>

definition bool_setting :: "goconfig \<Rightarrow> string \<Rightarrow> bool" where
  "bool_setting m k = (case cfg_get m k of Some (VBool b) \<Rightarrow> b | _ \<Rightarrow> False)"

definition IsCustomErrorCodesEnabled :: "account \<Rightarrow> bool" where
  "IsCustomErrorCodesEnabled a =
     (if a_Type a \<noteq> ''apikey'' \<or> a_Credentials a = None then False
      else bool_setting (a_Credentials a) ''custom_error_codes_enabled'')"

definition GetCustomErrorCodeRanges :: "account \<Rightarrow> httpStatusCodeRange list" where
  "GetCustomErrorCodeRanges a =
     (case cfg_get (a_Credentials a) ''custom_error_codes'' of
        None \<Rightarrow> []
      | Some VNil \<Rightarrow> []
      | Some raw \<Rightarrow> parseHTTPStatusCodeRangesValue raw)"

definition GetCustomErrorCodes :: "account \<Rightarrow> int list" where
  "GetCustomErrorCodes a =
     (case cfg_get (a_Credentials a) ''custom_error_codes'' of
        Some (VList arr) \<Rightarrow>
          List.map_filter (\<lambda>v. case v of VFloat f \<Rightarrow> Some (go_int_of_float f) | _ \<Rightarrow> None) arr
      | _ \<Rightarrow> [])"

definition HasActiveCustomErrorCodePolicy :: "account \<Rightarrow> bool" where
  "HasActiveCustomErrorCodePolicy a =
     (if \<not> IsCustomErrorCodesEnabled a then False else length (GetCustomErrorCodeRanges a) > 0)"

definition ShouldHandleErrorCode :: "account \<Rightarrow> int \<Rightarrow> bool" where
  "ShouldHandleErrorCode a statusCode =
     (if \<not> IsCustomErrorCodesEnabled a then True
      else let ranges = GetCustomErrorCodeRanges a in
           if length ranges = 0 then False else httpStatusCodeRangesContain ranges statusCode)"

definition IsPoolMode :: "account \<Rightarrow> bool" where
  "IsPoolMode a =
     (if \<not> IsAPIKeyOrBedrock a \<or> a_Credentials a = None then False
      else bool_setting (a_Credentials a) ''pool_mode'')"

definition shouldApplyLocalSystemErrorState :: "account \<Rightarrow> bool" where
  "shouldApplyLocalSystemErrorState a =
     (if IsPoolMode a \<and> \<not> HasActiveCustomErrorCodePolicy a then False else True)"

definition GetPoolModeRetryCount :: "account \<Rightarrow> int" where
  "GetPoolModeRetryCount a =
     (if \<not> IsPoolMode a \<or> a_Credentials a = None then defaultPoolModeRetryCount
      else (case cfg_get (a_Credentials a) ''pool_mode_retry_count'' of
          None \<Rightarrow> defaultPoolModeRetryCount
        | Some VNil \<Rightarrow> defaultPoolModeRetryCount
        | Some raw \<Rightarrow>
            let count = parsePoolModeRetryCount raw in
            if count < 0 then 0
            else if count > maxPoolModeRetryCount then maxPoolModeRetryCount
            else count))"

definition defaultPoolModeRetryableStatusCodes :: "int list" where
  "defaultPoolModeRetryableStatusCodes = [401, 403, 429]"

definition isPoolModeRetryableStatus :: "int \<Rightarrow> bool" where
  "isPoolModeRetryableStatus statusCode = list_ex (\<lambda>c. c = statusCode) defaultPoolModeRetryableStatusCodes"

fun isExplicitEmptyStatusCodeCollection :: "goval \<Rightarrow> bool" where
  "isExplicitEmptyStatusCodeCollection (VList v) = (length v = 0)"
| "isExplicitEmptyStatusCodeCollection (VInts v) = (length v = 0)"
| "isExplicitEmptyStatusCodeCollection (VInt64s v) = (length v = 0)"
| "isExplicitEmptyStatusCodeCollection (VFloats v) = (length v = 0)"
| "isExplicitEmptyStatusCodeCollection (VStrings v) = (length v = 0)"
| "isExplicitEmptyStatusCodeCollection _ = False"

fun isStatusCodeCollection :: "goval \<Rightarrow> bool" where
  "isStatusCodeCollection (VList _) = True"
| "isStatusCodeCollection (VInts _) = True"
| "isStatusCodeCollection (VInt64s _) = True"
| "isStatusCodeCollection (VFloats _) = True"
| "isStatusCodeCollection (VStrings _) = True"
| "isStatusCodeCollection _ = False"

text \<open>\<^const>\<open>None\<close> is the nil slice (not configured), \<open>Some []\<close> the empty one.\<close>

definition GetPoolModeRetryStatusCodes :: "account \<Rightarrow> int list option" where
  "GetPoolModeRetryStatusCodes a =
     (case cfg_get (a_Credentials a) ''pool_mode_retry_status_codes'' of
        None \<Rightarrow> None
      | Some VNil \<Rightarrow> None
      | Some raw \<Rightarrow>
          if isExplicitEmptyStatusCodeCollection raw then Some []
          else let ranges = parseHTTPStatusCodeRangesValue raw in
               if length ranges = 0 then (if isStatusCodeCollection raw then Some [] else None)
               else Some (expandHTTPStatusCodeRanges ranges))"

definition IsPoolModeRetryableStatus :: "account \<Rightarrow> int \<Rightarrow> bool" where
  "IsPoolModeRetryableStatus a statusCode =
     (case GetPoolModeRetryStatusCodes a of
        None \<Rightarrow> isPoolModeRetryableStatus statusCode
      | Some codes \<Rightarrow> list_ex (\<lambda>c. c = statusCode) codes)"

section \<open>Rules for temporary unschedulability\<close>

record TempUnschedulableRule =
  ErrorCode :: int
  ErrorCodeRanges :: "httpStatusCodeRange list"
  Keywords :: "string list"
  DurationMinutes :: int
  Description :: string

fun parseTempUnschedString :: "goval \<Rightarrow> string" where
  "parseTempUnschedString (VString s) = TrimSpace s"
| "parseTempUnschedString _ = []"

definition nonBlankTrimmed :: "string list \<Rightarrow> string list" where
  "nonBlankTrimmed raw = filter (\<lambda>s. s \<noteq> []) (map TrimSpace raw)"

fun parseTempUnschedStrings :: "goval \<Rightarrow> string list" where
  "parseTempUnschedStrings (VStrings v) = nonBlankTrimmed v"
| "parseTempUnschedStrings (VList v) =
     nonBlankTrimmed (List.map_filter (\<lambda>item. case item of VString s \<Rightarrow> Some s | _ \<Rightarrow> None) v)"
| "parseTempUnschedStrings _ = []"

definition tempUnschedRuleRanges :: "(string \<times> goval) list \<Rightarrow> httpStatusCodeRange list" where
  "tempUnschedRuleRanges entry =
     (let r1 = parseHTTPStatusCodeRangesValue (assoc_get entry ''error_code'');
          r2 = (if length r1 = 0 then parseHTTPStatusCodeRangesValue (assoc_get entry ''error_codes'') else r1)
      in if length r2 = 0 then parseHTTPStatusCodeRangesValue (assoc_get entry ''status_codes'') else r2)"

definition tempUnschedRule :: "goval \<Rightarrow> TempUnschedulableRule option" where
  "tempUnschedRule item =
     (case item of
        VMap entry \<Rightarrow>
          let rule = \<lparr>ErrorCode = parseTempUnschedInt (assoc_get entry ''error_code''),
                      ErrorCodeRanges = tempUnschedRuleRanges entry,
                      Keywords = parseTempUnschedStrings (assoc_get entry ''keywords''),
                      DurationMinutes = parseTempUnschedInt (assoc_get entry ''duration_minutes''),
                      Description = parseTempUnschedString (assoc_get entry ''description'')\<rparr>
          in if length (ErrorCodeRanges rule) = 0 \<or> DurationMinutes rule \<le> 0 \<or> length (Keywords rule) = 0
             then None
             else if ErrorCode rule \<le> 0
             then Some (rule\<lparr>ErrorCode := Start (hd (ErrorCodeRanges rule))\<rparr>)
             else Some rule
      | _ \<Rightarrow> None)"

definition GetTempUnschedulableRules :: "account \<Rightarrow> TempUnschedulableRule list" where
  "GetTempUnschedulableRules a =
     (case cfg_get (a_Credentials a) ''temp_unschedulable_rules'' of
        Some (VList arr) \<Rightarrow> List.map_filter tempUnschedRule arr
      | _ \<Rightarrow> [])"

definition IsTempUnschedulableEnabled :: "account \<Rightarrow> bool" where
  "IsTempUnschedulableEnabled a = bool_setting (a_Credentials a) ''temp_unschedulable_enabled''"

section \<open>Sessions, concurrency and time windows\<close>

definition anthropicOAuthDefaultMaxSessions :: int where "anthropicOAuthDefaultMaxSessions = 1"
definition anthropicOAuthDefaultSessionIdleTimeoutMinutes :: int where
  "anthropicOAuthDefaultSessionIdleTimeoutMinutes = 60"
definition anthropicOAuthDefaultBaseRPM :: int where "anthropicOAuthDefaultBaseRPM = 3"
definition anthropicOAuthDefaultRPMStrategy :: string where
  "anthropicOAuthDefaultRPMStrategy = ''sticky_exempt''"
definition anthropicOAuthDefaultRPMWarmupMinutes :: int where "anthropicOAuthDefaultRPMWarmupMinutes = 30"
definition anthropicOAuthDefaultRPMWarmupStartRPM :: int where "anthropicOAuthDefaultRPMWarmupStartRPM = 1"

definition GetMaxSessions :: "account \<Rightarrow> int" where
  "GetMaxSessions a =
     (if IsAnthropicOAuthOrSetupToken a
      then (case cfg_get (a_Extra a) ''max_sessions'' of
          Some v \<Rightarrow> (case parseExtraIntOK v of
              (val, True) \<Rightarrow>
                if val = 0 then 0
                else if val < 0 then anthropicOAuthDefaultMaxSessions
                else val
            | (_, False) \<Rightarrow> anthropicOAuthDefaultMaxSessions)
        | None \<Rightarrow> anthropicOAuthDefaultMaxSessions)
      else (case cfg_get (a_Extra a) ''max_sessions'' of
          Some v \<Rightarrow> parseExtraInt v
        | None \<Rightarrow> 0))"

definition GetSessionIdleTimeoutMinutes :: "account \<Rightarrow> int" where
  "GetSessionIdleTimeoutMinutes a =
     (let dflt = (if IsAnthropicOAuthOrSetupToken a
                  then anthropicOAuthDefaultSessionIdleTimeoutMinutes else 5)
      in case cfg_get (a_Extra a) ''session_idle_timeout_minutes'' of
           Some v \<Rightarrow> let val = parseExtraInt v in if val > 0 then val else dflt
         | None \<Rightarrow> dflt)"

definition capConcurrencyBySessionLimit :: "account \<Rightarrow> int \<Rightarrow> int" where
  "capConcurrencyBySessionLimit a value0 =
     (let v = (if value0 \<le> 0 then 1 else value0) in
      if IsAnthropicOAuthOrSetupToken a
      then (let maxSessions = GetMaxSessions a in
            if maxSessions > 0 \<and> v > maxSessions then maxSessions else v)
      else v)"

definition EffectiveLoadFactor :: "account \<Rightarrow> int" where
  "EffectiveLoadFactor a =
     capConcurrencyBySessionLimit a
       (case a_LoadFactor a of
          Some lf \<Rightarrow> if lf > 0 then lf else if a_Concurrency a > 0 then a_Concurrency a else 1
        | None \<Rightarrow> if a_Concurrency a > 0 then a_Concurrency a else 1)"

definition EffectiveConcurrencyLimit :: "account \<Rightarrow> int" where
  "EffectiveConcurrencyLimit a = capConcurrencyBySessionLimit a (a_Concurrency a)"

definition IsRateLimitedAt :: "account \<Rightarrow> gotime \<Rightarrow> bool" where
  "IsRateLimitedAt a now =
     (if \<not> shouldApplyLocalSystemErrorState a then False
      else (case a_RateLimitResetAt a of None \<Rightarrow> False | Some t \<Rightarrow> now < t))"

definition IsOverloadedAt :: "account \<Rightarrow> gotime \<Rightarrow> bool" where
  "IsOverloadedAt a now =
     (if \<not> shouldApplyLocalSystemErrorState a then False
      else (case a_OverloadUntil a of None \<Rightarrow> False | Some t \<Rightarrow> now < t))"

section \<open>Requests per minute\<close>

definition GetBaseRPM :: "account \<Rightarrow> int" where
  "GetBaseRPM a =
     (if IsAnthropicOAuthOrSetupToken a
      then (case cfg_get (a_Extra a) ''base_rpm'' of
          Some v \<Rightarrow> (case parseExtraIntOK v of
              (val, True) \<Rightarrow>
                if val = 0 then 0
                else if val < 0 then anthropicOAuthDefaultBaseRPM
                else val
            | (_, False) \<Rightarrow> anthropicOAuthDefaultBaseRPM)
        | None \<Rightarrow> anthropicOAuthDefaultBaseRPM)
      else (case cfg_get (a_Extra a) ''base_rpm'' of
          Some v \<Rightarrow> let val = parseExtraInt v in if val > 0 then val else 0
        | None \<Rightarrow> 0))"

definition GetRPMWarmupMinutes :: "account \<Rightarrow> int" where
  "GetRPMWarmupMinutes a =
     (if \<not> IsAnthropicOAuthOrSetupToken a then 0
      else (case cfg_get (a_Extra a) ''rpm_warmup_minutes'' of
          Some v \<Rightarrow> (case parseExtraIntOK v of
              (val, True) \<Rightarrow>
                if val < 0 then anthropicOAuthDefaultRPMWarmupMinutes
                else if val > 24 * 60 then 24 * 60
                else val
            | (_, False) \<Rightarrow> anthropicOAuthDefaultRPMWarmupMinutes)
        | None \<Rightarrow> anthropicOAuthDefaultRPMWarmupMinutes))"

definition GetRPMWarmupStartRPM :: "account \<Rightarrow> int" where
  "GetRPMWarmupStartRPM a =
     (if \<not> IsAnthropicOAuthOrSetupToken a then 0
      else (case cfg_get (a_Extra a) ''rpm_warmup_start_rpm'' of
          Some v \<Rightarrow> (case parseExtraIntOK v of
              (val, parsed) \<Rightarrow>
                if parsed \<and> val > 0 then (if val > 10000 then 10000 else val)
                else anthropicOAuthDefaultRPMWarmupStartRPM)
        | None \<Rightarrow> anthropicOAuthDefaultRPMWarmupStartRPM))"

text \<open>One of the three restarts of the ramp: the latest instant that has passed wins.\<close>

definition laterStart :: "gotime \<Rightarrow> gotime option \<Rightarrow> gotime option \<Rightarrow> gotime option" where
  "laterStart now candidate start =
     (case candidate of
        None \<Rightarrow> start
      | Some t \<Rightarrow>
          if \<not> (now < t) \<and> (case start of None \<Rightarrow> True | Some s \<Rightarrow> s < t) then Some t else start)"

definition rpmWarmupStartAt :: "account \<Rightarrow> gotime \<Rightarrow> gotime option" where
  "rpmWarmupStartAt a now =
     laterStart now (a_TempUnschedulableUntil a)
       (laterStart now (a_OverloadUntil a)
         (laterStart now (a_RateLimitResetAt a) (a_CreatedAt a)))"

definition GetEffectiveBaseRPMAt :: "account \<Rightarrow> gotime \<Rightarrow> int" where
  "GetEffectiveBaseRPMAt a now =
     (let baseRPM = GetBaseRPM a in
      if baseRPM \<le> 0 \<or> \<not> IsAnthropicOAuthOrSetupToken a then baseRPM
      else let warmupMinutes = GetRPMWarmupMinutes a in
      if warmupMinutes \<le> 0 then baseRPM
      else (case rpmWarmupStartAt a now of
        None \<Rightarrow> baseRPM
      | Some startAt \<Rightarrow>
          let startRPM = (if GetRPMWarmupStartRPM a \<le> 0 then 1 else GetRPMWarmupStartRPM a) in
          if startRPM \<ge> baseRPM then baseRPM
          else let duration = warmupMinutes * minute; age = now - startAt in
          if age \<ge> duration then baseRPM
          else if age \<le> 0 then startRPM
          else let totalSeconds = go_quot duration second in
          if totalSeconds \<le> 0 then baseRPM
          else let elapsedSeconds = go_quot age second;
                   ramped = wrap64 (startRPM + go_quot (wrap64 ((baseRPM - startRPM) * elapsedSeconds)) totalSeconds)
          in if ramped < startRPM then startRPM
             else if ramped > baseRPM then baseRPM
             else ramped))"

definition GetRPMStrategy :: "account \<Rightarrow> string" where
  "GetRPMStrategy a =
     (let defaultStrategy = (if IsAnthropicOAuthOrSetupToken a then anthropicOAuthDefaultRPMStrategy
                             else ''tiered'')
      in case cfg_get (a_Extra a) ''rpm_strategy'' of
           Some (VString s) \<Rightarrow>
             if s = ''sticky_exempt'' then ''sticky_exempt''
             else if s = ''tiered'' then ''tiered'' else defaultStrategy
         | _ \<Rightarrow> defaultStrategy)"

definition GetRPMStickyBuffer :: "account \<Rightarrow> int" where
  "GetRPMStickyBuffer a =
     (if a_Extra a = None then 0
      else
        let override = (case cfg_get (a_Extra a) ''rpm_sticky_buffer'' of
                          Some v \<Rightarrow> parseExtraInt v | None \<Rightarrow> 0)
        in if override > 0 then override
        else let base = GetBaseRPM a in
        if base \<le> 0 then 0
        else let conc = (if a_Concurrency a < 0 then 0 else a_Concurrency a);
                 sess = (if GetMaxSessions a < 0 then 0 else GetMaxSessions a);
                 buffer = wrap64 (conc + sess);
                 fl = go_quot base 5;
                 fl' = (if fl < 1 then 1 else fl)
        in if buffer < fl' then fl' else buffer)"

datatype WindowCostSchedulability =
  WindowCostSchedulable | WindowCostStickyOnly | WindowCostNotSchedulable

definition CheckRPMSchedulabilityAt :: "account \<Rightarrow> int \<Rightarrow> gotime \<Rightarrow> WindowCostSchedulability" where
  "CheckRPMSchedulabilityAt a currentRPM now =
     (let baseRPM = GetEffectiveBaseRPMAt a now in
      if baseRPM \<le> 0 then WindowCostSchedulable
      else if currentRPM < baseRPM then WindowCostSchedulable
      else if GetRPMStrategy a = ''sticky_exempt'' then WindowCostStickyOnly
      else if currentRPM < wrap64 (baseRPM + GetRPMStickyBuffer a) then WindowCostStickyOnly
      else WindowCostNotSchedulable)"

section \<open>Model mapping\<close>

text \<open>
  A mapping is listed in the order a \<^verbatim>\<open>range\<close> over the Go map happens to visit it.
\<close>

type_synonym modelMapping = "(string \<times> string) list"

definition matchAntigravityWildcard :: "string \<Rightarrow> string \<Rightarrow> bool" where
  "matchAntigravityWildcard pattern str =
     (if suffix ''*'' pattern then prefix (butlast pattern) str else pattern = str)"

definition matchWildcard :: "string \<Rightarrow> string \<Rightarrow> bool" where
  "matchWildcard pattern str = matchAntigravityWildcard pattern str"

definition matchWildcardMappingResult :: "modelMapping \<Rightarrow> string \<Rightarrow> string \<times> bool" where
  "matchWildcardMappingResult mapping requestedModel =
     (case sort_key (\<lambda>(p, t). (- int (length p), p))
             (filter (\<lambda>(p, t). matchWildcard p requestedModel) mapping) of
        [] \<Rightarrow> (requestedModel, False)
      | (p, t) # _ \<Rightarrow> (t, True))"

definition mappingSupportsRequestedModel :: "modelMapping \<Rightarrow> string \<Rightarrow> bool" where
  "mappingSupportsRequestedModel mapping requestedModel =
     (if requestedModel = [] then False
      else if map_of mapping requestedModel \<noteq> None then True
      else list_ex (\<lambda>(p, t). matchWildcard p requestedModel) mapping)"

definition resolveRequestedModelInMapping :: "modelMapping \<Rightarrow> string \<Rightarrow> string \<times> bool" where
  "resolveRequestedModelInMapping mapping requestedModel =
     (if requestedModel = [] then ([], False)
      else (case map_of mapping requestedModel of
          Some mappedModel \<Rightarrow> (mappedModel, True)
        | None \<Rightarrow> matchWildcardMappingResult mapping requestedModel))"

definition normalizeRequestedModelForLookup :: "string \<Rightarrow> string \<Rightarrow> string" where
  "normalizeRequestedModelForLookup platform requestedModel =
     (let trimmed = TrimSpace requestedModel in
      if trimmed = [] then []
      else if platform \<noteq> ''gemini'' \<and> platform \<noteq> ''antigravity'' then trimmed
      else if trimmed = ''gemini-3.1-pro-preview-customtools'' then ''gemini-3.1-pro-preview''
      else trimmed)"

text \<open>
  \<^verbatim>\<open>ResolveMappedModel\<close> on the account's effective mapping, which is an argument here.
\<close>

definition ResolveMappedModel :: "string \<Rightarrow> modelMapping \<Rightarrow> string \<Rightarrow> string \<times> bool" where
  "ResolveMappedModel platform mapping requestedModel =
     (if length mapping = 0 then (requestedModel, False)
      else (case resolveRequestedModelInMapping mapping requestedModel of
          (mappedModel, True) \<Rightarrow> (mappedModel, True)
        | (_, False) \<Rightarrow>
            let normalized = normalizeRequestedModelForLookup platform requestedModel in
            if normalized \<noteq> requestedModel
            then (case resolveRequestedModelInMapping mapping normalized of
                (mappedModel, True) \<Rightarrow> (mappedModel, True)
              | (_, False) \<Rightarrow> (requestedModel, False))
            else (requestedModel, False)))"

section \<open>Arithmetic\<close>

lemma wrap64_id: "int64_range i \<Longrightarrow> wrap64 i = i"
  by (simp add: wrap64_def int64_range_def)

lemma go_quot_pos: "0 \<le> a \<Longrightarrow> 0 < b \<Longrightarrow> go_quot a b = a div b"
  by (auto simp: go_quot_def sgn_if)

section \<open>The ramp\<close>

lemma GetBaseRPM_nonneg: "0 \<le> GetBaseRPM a"
  by (auto simp: GetBaseRPM_def anthropicOAuthDefaultBaseRPM_def Let_def
      split: option.splits prod.splits bool.splits)

lemma WarmupMinutes_bounds: "0 \<le> GetRPMWarmupMinutes a" "GetRPMWarmupMinutes a \<le> 1440"
  by (auto simp: GetRPMWarmupMinutes_def anthropicOAuthDefaultRPMWarmupMinutes_def
      split: option.splits prod.splits bool.splits)

text \<open>The ramp on its own, as a function of the age of the account.\<close>

definition rampRPM :: "int \<Rightarrow> int \<Rightarrow> int \<Rightarrow> int \<Rightarrow> int" where
  "rampRPM startRPM baseRPM warmupMinutes age =
     (if age \<ge> warmupMinutes * minute then baseRPM
      else if age \<le> 0 then startRPM
      else let ramped = wrap64 (startRPM + go_quot (wrap64 ((baseRPM - startRPM) * go_quot age second))
                                   (go_quot (warmupMinutes * minute) second))
           in if ramped < startRPM then startRPM
              else if ramped > baseRPM then baseRPM
              else ramped)"

lemma effective_ramp:
  "GetEffectiveBaseRPMAt a now =
     (let base = GetBaseRPM a; start = max 1 (GetRPMWarmupStartRPM a) in
      if base \<le> 0 \<or> \<not> IsAnthropicOAuthOrSetupToken a \<or> GetRPMWarmupMinutes a \<le> 0 \<or> start \<ge> base
      then base
      else (case rpmWarmupStartAt a now of
          None \<Rightarrow> base
        | Some startAt \<Rightarrow> rampRPM start base (GetRPMWarmupMinutes a) (now - startAt)))"
proof -
  have total: "go_quot (w * minute) second = w * 60" if "0 < w" for w
    using that by (subst go_quot_pos) simp_all
  have start: "(if x \<le> 0 then 1 else x) = max 1 x" for x :: int by auto
  show ?thesis
    unfolding GetEffectiveBaseRPMAt_def rampRPM_def Let_def start
    by (auto simp: total not_le split: option.splits)
qed

lemma rampRPM_bounds: "s \<le> b \<Longrightarrow> s \<le> rampRPM s b w age \<and> rampRPM s b w age \<le> b"
  by (auto simp: rampRPM_def Let_def)

lemma div_le_mono2_helper: "0 \<le> (c::int) \<Longrightarrow> 0 \<le> e \<Longrightarrow> e < d \<Longrightarrow> c * e div d \<le> c"
proof -
  assume "0 \<le> c" "0 \<le> e" "e < d"
  then have "c * e div d \<le> c * d div d" by (intro zdiv_mono1 mult_left_mono) auto
  with \<open>0 \<le> e\<close> \<open>e < d\<close> show ?thesis by simp
qed

lemma rampRPM_linear:
  assumes "0 < s" "s \<le> b" "b \<le> 1000000000000" "0 < w" "w \<le> 1440" "0 < age" "age < w * minute"
  shows "rampRPM s b w age = s + (b - s) * (age div second) div (60 * w)"
proof -
  define e where "e = age div second"
  have e: "0 \<le> e" "e < 60 * w" using assms by (auto simp: e_def)
  have prod: "0 \<le> (b - s) * e" "(b - s) * e \<le> b * (60 * w)"
    using assms e by (auto intro!: mult_mono)
  moreover have "b * (60 * w) \<le> 1000000000000 * (60 * 1440)"
    using assms by (intro mult_mono) auto
  ultimately have r1: "int64_range ((b - s) * e)" by (auto simp: int64_range_def)
  have le: "(b - s) * e div (60 * w) \<le> b - s"
    using e assms by (intro div_le_mono2_helper [of "b - s" e "60 * w"]) auto
  have ge: "0 \<le> (b - s) * e div (60 * w)" using prod assms by (simp add: pos_imp_zdiv_nonneg_iff)
  have r2: "int64_range (s + (b - s) * e div (60 * w))"
    using ge le assms by (auto simp: int64_range_def)
  show ?thesis
    using assms prod le ge
    by (simp add: rampRPM_def Let_def go_quot_pos wrap64_id r1 r2 flip: e_def)
qed

lemma rampRPM_mono:
  assumes "0 < s" "s \<le> b" "b \<le> 1000000000000" "0 < w" "w \<le> 1440" "age \<le> age'"
  shows "rampRPM s b w age \<le> rampRPM s b w age'"
proof (cases "0 < age \<and> age' < w * minute")
  case True
  have "(b - s) * (age div second) div (60 * w) \<le> (b - s) * (age' div second) div (60 * w)"
    using assms by (intro zdiv_mono1 mult_left_mono) auto
  with True assms show ?thesis by (simp add: rampRPM_linear)
next
  case False
  then consider "age \<le> 0" "age < w * minute" | "age' \<ge> w * minute" using assms(4,6) by fastforce
  then show ?thesis
  proof cases
    case 1
    then have "rampRPM s b w age = s" by (simp add: rampRPM_def)
    with rampRPM_bounds [OF assms(2)] show ?thesis by simp
  next
    case 2
    then have "rampRPM s b w age' = b" by (simp add: rampRPM_def)
    with rampRPM_bounds [OF assms(2)] show ?thesis by simp
  qed
qed

section \<open>Status code policies\<close>

lemma custom_ranges_normal: "normalRanges (GetCustomErrorCodeRanges a)"
  by (auto simp: GetCustomErrorCodeRanges_def lenient_normal normalRanges_def [of "[]"]
      simp del: parseHTTPStatusCodeRangesValue.simps split: option.splits goval.splits)

lemma parsed_filter_valid:
  "filter validRange (parseHTTPStatusCodeRangesValue v) = parseHTTPStatusCodeRangesValue v"
  using lenient_normal [of v] by (auto simp: normalRanges_def list_all_iff intro: filter_True)

lemma explicit_empty_parse:
  "isExplicitEmptyStatusCodeCollection v \<Longrightarrow> parseHTTPStatusCodeRangesValue v = [] \<and> isStatusCodeCollection v"
  by (cases v) (auto simp: normalizeHTTPStatusCodeRanges_def)

section \<open>Wildcards\<close>

lemma sorted_keys_unique:
  assumes "inj_on k (set xs)" "distinct xs" "distinct ys" "set xs = set ys"
  shows "map k (sort_key k xs) = map k (sort_key k ys)"
  using assms by (intro sorted_distinct_set_unique) (auto simp: distinct_map)

lemma matchWildcardMappingResult_perm:
  assumes "distinct (map fst m)" "distinct (map fst m')" "set m = set m'"
  shows "matchWildcardMappingResult m req = matchWildcardMappingResult m' req"
proof -
  define k where "k = (\<lambda>(p :: string, t :: string). (- int (length p), p))"
  define xs where "xs = filter (\<lambda>(p, t). matchWildcard p req) m"
  define ys where "ys = filter (\<lambda>(p, t). matchWildcard p req) m'"
  have xy: "set xs = set ys" "set ys \<subseteq> set m'" using assms(3) by (auto simp: xs_def ys_def)
  have eq: "map k (sort_key k xs) = map k (sort_key k ys)"
  proof (rule sorted_keys_unique)
    show "inj_on k (set xs)"
      unfolding xy(1) using eq_key_imp_eq_value [OF assms(2)] xy(2)
      by (fastforce simp: inj_on_def k_def)
    show "distinct xs" "distinct ys" using assms(1,2) by (auto simp: xs_def ys_def distinct_map)
  qed (fact xy(1))
  have mem: "(p, t) \<in> set m'" if "sort_key k zs = (p, t) # rest" "zs = xs \<or> zs = ys" for zs p t rest
    using arg_cong [OF that(1), of set] that(2) xy by auto
  show ?thesis
  proof (cases "sort_key k xs")
    case Nil
    with eq have "sort_key k ys = []" by simp
    with Nil show ?thesis by (simp add: matchWildcardMappingResult_def flip: xs_def ys_def k_def)
  next
    case (Cons x rest)
    then obtain y rest' where y: "sort_key k ys = y # rest'" "k x = k y" using eq by auto
    obtain p t p' t' where pt: "x = (p, t)" "y = (p', t')" by fastforce
    with y(2) have "p = p'" by (simp add: k_def)
    with mem Cons y(1) pt eq_key_imp_eq_value [OF assms(2)] have "t = t'" by metis
    with Cons y(1) pt show ?thesis by (simp add: matchWildcardMappingResult_def flip: xs_def ys_def k_def)
  qed
qed

lemma resolve_perm:
  assumes "distinct (map fst m)" "distinct (map fst m')" "set m = set m'"
  shows "resolveRequestedModelInMapping m req = resolveRequestedModelInMapping m' req"
  unfolding resolveRequestedModelInMapping_def matchWildcardMappingResult_perm [OF assms]
    map_of_inject_set [OF assms(1,2), THEN iffD2, OF assms(3)] ..

lemma matchWildcardMappingResult_longest:
  assumes "matchWildcardMappingResult m req = (t, True)"
  obtains p where "(p, t) \<in> set m" "matchWildcard p req"
    "\<And>q u. (q, u) \<in> set m \<Longrightarrow> matchWildcard q req \<Longrightarrow> length q \<le> length p"
proof -
  let ?k = "\<lambda>(p :: string, t :: string). (- int (length p), p)"
  let ?xs = "filter (\<lambda>(p, t). matchWildcard p req) m"
  from assms obtain p rest where h: "sort_key ?k ?xs = (p, t) # rest"
    by (auto simp: matchWildcardMappingResult_def split: list.splits prod.splits)
  have set: "set ((p, t) # rest) = set ?xs" using arg_cong [OF h, of set] by simp
  have sorted: "sorted (map ?k ((p, t) # rest))" using sorted_sort_key [of ?k ?xs] unfolding h .
  show thesis
  proof
    show "(p, t) \<in> set m" "matchWildcard p req" using set by auto
    fix q u assume "(q, u) \<in> set m" "matchWildcard q req"
    with set have "(q, u) \<in> set ((p, t) # rest)" by auto
    with sorted show "length q \<le> length p" by (auto simp: less_eq_prod_def)
  qed
qed

section \<open>Properties\<close>

text \<open>
  The effective requests-per-minute limit never exceeds the configured base and never
  falls below the smaller of the base and the ramp's starting rate, whatever the
  configuration, the clock and the overflow of the ramp's product.
\<close>

theorem effective_rpm_bounds:
  "min (GetBaseRPM a) (max 1 (GetRPMWarmupStartRPM a)) \<le> GetEffectiveBaseRPMAt a now \<and>
   GetEffectiveBaseRPMAt a now \<le> GetBaseRPM a"
  unfolding effective_ramp Let_def
  using rampRPM_bounds [of "max 1 (GetRPMWarmupStartRPM a)" "GetBaseRPM a"]
  by (auto split: option.splits)

text \<open>
  As long as no new penalty restarts the ramp, the effective limit only grows with time
  (base rates up to a million million, below which the 64-bit product cannot overflow).
\<close>

theorem rpm_ramp_monotone:
  assumes "now \<le> now'" "rpmWarmupStartAt a now = rpmWarmupStartAt a now'"
    and "GetBaseRPM a \<le> 1000000000000"
  shows "GetEffectiveBaseRPMAt a now \<le> GetEffectiveBaseRPMAt a now'"
  using assms WarmupMinutes_bounds [of a]
  by (auto simp: effective_ramp Let_def not_le split: option.splits intro!: rampRPM_mono)

definition rampExample :: account where
  "rampExample = \<lparr>a_ID = 1, a_Platform = ''anthropic'', a_Type = ''oauth'', a_Status = ''active'',
     a_Credentials = None, a_Extra = Some [(''base_rpm'', VInt 31)], a_OwnerUserID = None,
     a_Concurrency = 3, a_LoadFactor = None, a_Schedulable = True, a_CreatedAt = Some 0,
     a_RateLimitResetAt = None, a_OverloadUntil = None, a_TempUnschedulableUntil = None\<rparr>"

theorem rpm_ramp_monotone_witness:
  "GetEffectiveBaseRPMAt rampExample (10 * minute) = 11 \<and>
   GetEffectiveBaseRPMAt rampExample (20 * minute) = 21 \<and>
   GetEffectiveBaseRPMAt rampExample (10 * minute) \<le> GetEffectiveBaseRPMAt rampExample (20 * minute)"
proof -
  have "(10 * minute) \<le> 20 * minute" by simp
  moreover have "rpmWarmupStartAt rampExample (10 * minute) = rpmWarmupStartAt rampExample (20 * minute)"
    by code_simp
  moreover have "GetBaseRPM rampExample \<le> 1000000000000" by code_simp
  ultimately have "GetEffectiveBaseRPMAt rampExample (10 * minute) \<le> GetEffectiveBaseRPMAt rampExample (20 * minute)"
    by (rule rpm_ramp_monotone)
  moreover have "GetEffectiveBaseRPMAt rampExample (10 * minute) = 11" by code_simp
  moreover have "GetEffectiveBaseRPMAt rampExample (20 * minute) = 21" by code_simp
  ultimately show ?thesis by simp
qed

fun verdictRank :: "WindowCostSchedulability \<Rightarrow> nat" where
  "verdictRank WindowCostSchedulable = 0"
| "verdictRank WindowCostStickyOnly = 1"
| "verdictRank WindowCostNotSchedulable = 2"

text \<open>
  The verdict only gets worse as the request count grows, and an account with the
  \<^verbatim>\<open>sticky_exempt\<close> strategy is never refused to sticky sessions.
\<close>

theorem rpm_verdict_monotone:
  "verdictRank (CheckRPMSchedulabilityAt a (min r r') now) \<le> verdictRank (CheckRPMSchedulabilityAt a (max r r') now) \<and>
   (GetRPMStrategy a = ''sticky_exempt'' \<longrightarrow> CheckRPMSchedulabilityAt a r now \<noteq> WindowCostNotSchedulable)"
  by (auto simp: CheckRPMSchedulabilityAt_def Let_def)

theorem rpm_verdict_monotone_witness:
  "GetRPMStrategy rampExample = ''sticky_exempt'' \<and>
   CheckRPMSchedulabilityAt rampExample 1000 (10 * minute) \<noteq> WindowCostNotSchedulable"
proof -
  have "GetRPMStrategy rampExample = ''sticky_exempt''" by code_simp
  with rpm_verdict_monotone [of rampExample 1000 1000 "10 * minute"] show ?thesis by simp
qed

text \<open>
  The effective concurrency and load factor are at least one, and for an Anthropic OAuth
  account with a session limit they never exceed it.
\<close>

theorem concurrency_caps:
  "1 \<le> EffectiveConcurrencyLimit a \<and> 1 \<le> EffectiveLoadFactor a \<and>
   (IsAnthropicOAuthOrSetupToken a \<and> GetMaxSessions a > 0 \<longrightarrow>
      EffectiveConcurrencyLimit a \<le> GetMaxSessions a \<and> EffectiveLoadFactor a \<le> GetMaxSessions a)"
  by (auto simp: EffectiveConcurrencyLimit_def EffectiveLoadFactor_def
      capConcurrencyBySessionLimit_def Let_def)

theorem concurrency_caps_witness:
  "EffectiveConcurrencyLimit rampExample = 1 \<and> GetMaxSessions rampExample = 1"
proof -
  have "IsAnthropicOAuthOrSetupToken rampExample" "GetMaxSessions rampExample = 1" by code_simp+
  with concurrency_caps [of rampExample] show ?thesis by simp
qed

lemma pool_retry_count_range:
  shows "0 \<le> GetPoolModeRetryCount a" and "GetPoolModeRetryCount a \<le> 10"
  by (auto simp: GetPoolModeRetryCount_def defaultPoolModeRetryCount_def maxPoolModeRetryCount_def Let_def
      split: option.splits goval.splits)

text \<open>
  The pool mode retry count is between 0 and 10 for every configuration.
\<close>

theorem pool_retry_count_bounds: "0 \<le> GetPoolModeRetryCount a \<and> GetPoolModeRetryCount a \<le> 10"
  using pool_retry_count_range by simp

text \<open>
  Which status codes a pool mode account retries: exactly the codes of the configured
  ranges; none when the setting is a collection without a valid code; the default 401, 403
  and 429 otherwise.
\<close>

theorem pool_retryable_status:
  "IsPoolModeRetryableStatus a c \<longleftrightarrow>
     (case cfg_get (a_Credentials a) ''pool_mode_retry_status_codes'' of
        None \<Rightarrow> c \<in> {401, 403, 429}
      | Some raw \<Rightarrow>
          if parseHTTPStatusCodeRangesValue raw \<noteq> []
          then c \<in> codesOf (parseHTTPStatusCodeRangesValue raw)
          else \<not> isStatusCodeCollection raw \<and> c \<in> {401, 403, 429})"
proof (cases "cfg_get (a_Credentials a) ''pool_mode_retry_status_codes''")
  case None
  then show ?thesis
    by (auto simp: IsPoolModeRetryableStatus_def GetPoolModeRetryStatusCodes_def
        isPoolModeRetryableStatus_def defaultPoolModeRetryableStatusCodes_def)
next
  case (Some raw)
  have "list_ex (\<lambda>x. x = c) (expandHTTPStatusCodeRanges (parseHTTPStatusCodeRangesValue raw))
      \<longleftrightarrow> c \<in> codesOf (parseHTTPStatusCodeRangesValue raw)"
    using expand_set [of "parseHTTPStatusCodeRangesValue raw"] by (auto simp: list_ex_iff parsed_filter_valid)
  moreover have "GetPoolModeRetryStatusCodes a =
      (if parseHTTPStatusCodeRangesValue raw \<noteq> []
       then Some (expandHTTPStatusCodeRanges (parseHTTPStatusCodeRangesValue raw))
       else if isStatusCodeCollection raw then Some [] else None)"
    using Some explicit_empty_parse [of raw]
    by (auto simp: GetPoolModeRetryStatusCodes_def Let_def simp del: parseHTTPStatusCodeRangesValue.simps(3-)
        split: goval.split)
  ultimately show ?thesis using Some
    by (auto simp: IsPoolModeRetryableStatus_def isPoolModeRetryableStatus_def
        defaultPoolModeRetryableStatusCodes_def simp del: parseHTTPStatusCodeRangesValue.simps)
qed

text \<open>
  A retry list stored as \<^verbatim>\<open>[]int64\<close> is read as an empty list: the account then retries no
  status at all, although the strict parser accepts the same value and lists its codes.
\<close>

theorem pool_retry_int64_ignored:
  assumes "cfg_get (a_Credentials a) ''pool_mode_retry_status_codes'' = Some (VInt64s cs)"
    and "list_all isHTTPStatusCode cs"
  shows "\<not> IsPoolModeRetryableStatus a c \<and>
    (\<exists>codes. ParseHTTPStatusCodesValue (VInt64s cs) = Inr codes \<and> set codes = set cs)"
proof -
  have strict: "collectStrict strictStatusCodeExactRange cs = Inr (map (\<lambda>c. mkRange c c) cs)"
    using assms(2) by (induction cs) (auto simp: strictStatusCodeExactRange_def)
  have "codesOf (filter validRange (normalizeHTTPStatusCodeRanges (map (\<lambda>c. mkRange c c) cs)))
      = codesOf (normalizeHTTPStatusCodeRanges (map (\<lambda>c. mkRange c c) cs))"
    using normalize_normal [of "map (\<lambda>c. mkRange c c) cs"]
    by (simp add: normalRanges_def list_all_iff filter_True)
  also have "\<dots> = set cs"
    using assms(2) unfolding normalize_codes by (auto simp: codesOf_def validRange_def list_all_iff)
  finally have "set (expandHTTPStatusCodeRanges (normalizeHTTPStatusCodeRanges (map (\<lambda>c. mkRange c c) cs))) = set cs"
    by (simp add: expand_set)
  with strict assms(1) show ?thesis
    by (auto simp: IsPoolModeRetryableStatus_def GetPoolModeRetryStatusCodes_def
        ParseHTTPStatusCodesValue_def normalizeStrict_def Let_def)
qed

theorem pool_retry_int64_ignored_witness:
  "\<not> IsPoolModeRetryableStatus
     (rampExample\<lparr>a_Credentials := Some [(''pool_mode_retry_status_codes'', VInt64s [429])]\<rparr>) 429"
  by (rule conjunct1 [OF pool_retry_int64_ignored [of _ "[429]"]])
    (simp_all add: cfg_get_def isHTTPStatusCode_def)

text \<open>
  A custom error code policy handles exactly the codes of its ranges; without one every code is handled.
\<close>

theorem should_handle_error_code:
  "ShouldHandleErrorCode a c \<longleftrightarrow>
     (if IsCustomErrorCodesEnabled a then c \<in> codesOf (GetCustomErrorCodeRanges a) else True)"
  using normal_contain_iff [OF custom_ranges_normal, of a c]
  by (auto simp: ShouldHandleErrorCode_def Let_def)

definition ruleOk :: "TempUnschedulableRule \<Rightarrow> bool" where
  "ruleOk r \<longleftrightarrow> ErrorCodeRanges r \<noteq> [] \<and> normalRanges (ErrorCodeRanges r) \<and> 0 < DurationMinutes r \<and>
     0 < ErrorCode r \<and> Keywords r \<noteq> [] \<and> [] \<notin> set (Keywords r)"

lemma ruleRanges_normal: "normalRanges (tempUnschedRuleRanges entry)"
  by (auto simp: tempUnschedRuleRanges_def Let_def lenient_normal)

lemma keywords_nonblank: "[] \<notin> set (parseTempUnschedStrings v)"
  by (cases v) (auto simp: nonBlankTrimmed_def)

lemma normal_hd_positive: "rs \<noteq> [] \<Longrightarrow> normalRanges rs \<Longrightarrow> 0 < Start (hd rs)"
  by (cases rs) (auto simp: normalRanges_Cons validRange_def isHTTPStatusCode_def)

lemma tempUnschedRule_ok:
  assumes "tempUnschedRule item = Some r"
  shows "ruleOk r"
proof -
  obtain entry where "item = VMap entry"
    using assms by (auto simp: tempUnschedRule_def split: goval.splits)
  with assms ruleRanges_normal [of entry] keywords_nonblank [of "assoc_get entry ''keywords''"]
  show ?thesis
    by (auto simp: tempUnschedRule_def ruleOk_def Let_def normal_hd_positive split: if_splits)
qed

text \<open>
  Every rule for temporary unschedulability that survives parsing can fire: it has
  normalised ranges, a positive duration, a positive error code and non-blank keywords.
\<close>

theorem temp_unsched_rules_wellformed: "list_all ruleOk (GetTempUnschedulableRules a)"
  by (auto simp: GetTempUnschedulableRules_def list_all_iff List.map_filter_def tempUnschedRule_ok
      split: option.splits goval.splits)

text \<open>
  Model resolution does not depend on the order in which the Go map is iterated.
\<close>

theorem resolve_model_order_independent:
  assumes "distinct (map fst m)" "distinct (map fst m')" "set m = set m'"
  shows "ResolveMappedModel platform m req = ResolveMappedModel platform m' req"
proof -
  have "length m = 0 \<longleftrightarrow> length m' = 0" using assms(3) by auto
  then show ?thesis unfolding ResolveMappedModel_def resolve_perm [OF assms] by simp
qed

theorem resolve_model_order_independent_witness:
  "ResolveMappedModel ''openai'' [(''gpt-*'', ''a''), (''gpt-5*'', ''b'')] ''gpt-5.1'' = (''b'', True) \<and>
   ResolveMappedModel ''openai'' [(''gpt-*'', ''a''), (''gpt-5*'', ''b'')] ''gpt-5.1'' =
   ResolveMappedModel ''openai'' [(''gpt-5*'', ''b''), (''gpt-*'', ''a'')] ''gpt-5.1''"
  by (rule conjI, code_simp, rule resolve_model_order_independent) auto

text \<open>
  A wildcard match takes the target of a longest matching pattern.
\<close>

theorem wildcard_longest_match:
  assumes "matchWildcardMappingResult m req = (t, True)"
  shows "\<exists>p. (p, t) \<in> set m \<and> matchWildcard p req \<and>
    (\<forall>q u. (q, u) \<in> set m \<and> matchWildcard q req \<longrightarrow> length q \<le> length p)"
  using matchWildcardMappingResult_longest [OF assms] by metis

theorem wildcard_longest_match_witness:
  "\<exists>p. (p, ''b'') \<in> set [(''gpt-*'', ''a''), (''gpt-5*'', ''b'')] \<and> matchWildcard p ''gpt-5.1''"
proof -
  have "matchWildcardMappingResult [(''gpt-*'', ''a''), (''gpt-5*'', ''b'')] ''gpt-5.1'' = (''b'', True)"
    by code_simp
  from wildcard_longest_match [OF this] show ?thesis by blast
qed

end
