(* ===== verification/Transitions.thy ===== *)
theory Transitions
  imports Prelude
begin

text \<open>
  The shapes in which the components run: a loop whose body either goes on with a new state or
  leaves with an outcome, a machine that reacts to every event, and a transition relation over
  interleaved steps. Each comes as a locale: the laws of the body are its assumptions, the
  facts about whole runs are proved once inside it, and the component theories interpret it on
  their own definitions.
\<close>

section \<open>Runs\<close>

text \<open>One element of the list drives one iteration; \<^const>\<open>Inr\<close> is the outcome of a left loop.\<close>

fun run_loop :: "('s \<Rightarrow> 'e \<Rightarrow> 's + 'o) \<Rightarrow> 's \<Rightarrow> 'e list \<Rightarrow> 's + 'o" where
  "run_loop body s [] = Inl s"
| "run_loop body s (e # es) =
     (case body s e of Inl s' \<Rightarrow> run_loop body s' es | Inr r \<Rightarrow> Inr r)"

lemma run_loop_append:
  "run_loop body s (es @ fs) =
     (case run_loop body s es of Inl s' \<Rightarrow> run_loop body s' fs | Inr r \<Rightarrow> Inr r)"
  by (induction body s es rule: run_loop.induct) (auto split: sum.splits)

lemma run_loop_total: "run_loop (\<lambda>s e. Inl (f s e)) s es = Inl (foldl f s es)"
  by (induction es arbitrary: s) auto

section \<open>Loops with an invariant and a rank\<close>

locale guarded_loop =
  fixes body :: "'s \<Rightarrow> 'e \<Rightarrow> 's + 'o"
    and inv :: "'s \<Rightarrow> bool"
    and ok :: "'e \<Rightarrow> bool"
  assumes body_inv: "inv s \<Longrightarrow> ok e \<Longrightarrow> body s e = Inl s' \<Longrightarrow> inv s'"
begin

lemma run_inv: "inv s \<Longrightarrow> list_all ok es \<Longrightarrow> run_loop body s es = Inl s' \<Longrightarrow> inv s'"
proof (induction es arbitrary: s)
  case (Cons e es)
  then show ?case by (cases "body s e") (auto dest: body_inv)
qed simp

text \<open>The state in which the loop is left satisfies the invariant too.\<close>

lemma run_exit:
  assumes "inv s" "list_all ok es" "run_loop body s es = Inr r"
  shows "\<exists>t e. inv t \<and> ok e \<and> body t e = Inr r"
  using assms
proof (induction es arbitrary: s)
  case (Cons e es)
  then show ?case by (cases "body s e") (auto dest: body_inv)
qed simp

end

locale ranked_loop = guarded_loop +
  fixes rank :: "'a \<Rightarrow> nat"
  assumes body_rank: "inv s \<Longrightarrow> ok e \<Longrightarrow> body s e = Inl s' \<Longrightarrow> rank s' < rank s"
begin

lemma run_rank:
  "inv s \<Longrightarrow> list_all ok es \<Longrightarrow> run_loop body s es = Inl s' \<Longrightarrow> length es + rank s' \<le> rank s"
proof (induction es arbitrary: s)
  case (Cons e es)
  then obtain t where t: "body s e = Inl t" by (cases "body s e") auto
  with Cons have "inv t" "rank t < rank s" by (auto intro: body_inv body_rank)
  with Cons.IH [of t] Cons.prems t show ?case by simp
qed simp

lemma run_ends:
  assumes "inv s" "list_all ok es" "rank s < length es"
  shows "\<exists>r. run_loop body s es = Inr r"
  using run_rank [OF assms(1,2)] assms(3) by (cases "run_loop body s es") fastforce+

end

section \<open>Machines that react to every event\<close>

locale event_machine =
  fixes react :: "'s \<Rightarrow> 'e \<Rightarrow> 's"
    and inv :: "'s \<Rightarrow> bool"
    and ok :: "'e \<Rightarrow> bool"
  assumes react_inv: "inv s \<Longrightarrow> ok e \<Longrightarrow> inv (react s e)"

sublocale event_machine \<subseteq> loop: guarded_loop "\<lambda>s e. Inl (react s e)" inv ok
  by unfold_locales (auto intro: react_inv)

context event_machine
begin

lemma react_run: "inv s \<Longrightarrow> list_all ok es \<Longrightarrow> inv (foldl react s es)"
  using loop.run_inv [of s es "foldl react s es"] by (simp add: run_loop_total)

end

section \<open>Transition relations\<close>

inductive reachable :: "('s \<Rightarrow> bool) \<Rightarrow> ('s \<Rightarrow> 's \<Rightarrow> bool) \<Rightarrow> 's \<Rightarrow> bool" for init step where
  start: "init s \<Longrightarrow> reachable init step s"
| more: "reachable init step s \<Longrightarrow> step s t \<Longrightarrow> reachable init step t"

locale invariant_system =
  fixes init :: "'s \<Rightarrow> bool"
    and step :: "'s \<Rightarrow> 's \<Rightarrow> bool"
    and inv :: "'s \<Rightarrow> bool"
  assumes init_inv: "init s \<Longrightarrow> inv s"
    and step_inv: "inv s \<Longrightarrow> step s t \<Longrightarrow> inv t"
begin

lemma reachable_inv: "reachable init step s \<Longrightarrow> inv s"
  by (induction rule: reachable.induct) (auto intro: init_inv step_inv)

end

section \<open>Simulation\<close>

text \<open>The answers of a machine to a list of requests, and the requests an ideal machine admits.\<close>

fun answers :: "('s \<Rightarrow> 'e \<Rightarrow> 'o \<times> 's) \<Rightarrow> 's \<Rightarrow> 'e list \<Rightarrow> 'o list" where
  "answers f s [] = []"
| "answers f s (e # es) = (case f s e of (r, s') \<Rightarrow> r # answers f s' es)"

fun admitted :: "('a \<Rightarrow> 'e \<Rightarrow> bool) \<Rightarrow> ('a \<Rightarrow> 'e \<Rightarrow> 'o \<times> 'a) \<Rightarrow> 'a \<Rightarrow> 'e list \<Rightarrow> bool" where
  "admitted ok g a [] = True"
| "admitted ok g a (e # es) = (ok a e \<and> admitted ok g (snd (g a e)) es)"

locale simulation =
  fixes conc :: "'s \<Rightarrow> 'e \<Rightarrow> 'o \<times> 's"
    and ideal :: "'a \<Rightarrow> 'e \<Rightarrow> 'o \<times> 'a"
    and rel :: "'s \<Rightarrow> 'a \<Rightarrow> bool"
    and ok :: "'a \<Rightarrow> 'e \<Rightarrow> bool"
  assumes same_answer: "rel s a \<Longrightarrow> ok a e \<Longrightarrow> fst (conc s e) = fst (ideal a e)"
    and rel_kept: "rel s a \<Longrightarrow> ok a e \<Longrightarrow> rel (snd (conc s e)) (snd (ideal a e))"
begin

lemma answers_agree: "rel s a \<Longrightarrow> admitted ok ideal a es \<Longrightarrow> answers conc s es = answers ideal a es"
proof (induction es arbitrary: s a)
  case (Cons e es)
  then have "rel (snd (conc s e)) (snd (ideal a e))" "fst (conc s e) = fst (ideal a e)"
    by (auto intro: same_answer rel_kept)
  with Cons show ?case by (auto simp: split_def)
qed simp

end

section \<open>Machines that emit events\<close>

text \<open>
  A converter turns every input event into a list of output events. What a consumer makes of
  the whole output is related to the state of the converter if one step keeps the relation.
\<close>

fun transduce :: "('s \<Rightarrow> 'e \<Rightarrow> 'o list \<times> 's) \<Rightarrow> 's \<Rightarrow> 'e list \<Rightarrow> 'o list \<times> 's" where
  "transduce f s [] = ([], s)"
| "transduce f s (e # es) =
     (case f s e of (os, s') \<Rightarrow> case transduce f s' es of (os', t) \<Rightarrow> (os @ os', t))"

lemma transduce_append:
  "transduce f s (es @ es') =
     (case transduce f s es of (os, s') \<Rightarrow> case transduce f s' es' of (os', t) \<Rightarrow> (os @ os', t))"
  by (induction es arbitrary: s) (auto split: prod.splits)

locale observed_machine =
  fixes emit :: "'s \<Rightarrow> 'e \<Rightarrow> 'o list \<times> 's"
    and consume :: "'c \<Rightarrow> 'o \<Rightarrow> 'c"
    and rel :: "'s \<Rightarrow> 'c \<Rightarrow> bool"
    and ok :: "'e \<Rightarrow> bool"
  assumes emit_rel: "rel s c \<Longrightarrow> ok e \<Longrightarrow> rel (snd (emit s e)) (foldl consume c (fst (emit s e)))"
begin

lemma transduce_rel:
  "rel s c \<Longrightarrow> list_all ok es \<Longrightarrow>
   rel (snd (transduce emit s es)) (foldl consume c (fst (transduce emit s es)))"
proof (induction es arbitrary: s c)
  case (Cons e es)
  then have "rel (snd (emit s e)) (foldl consume c (fst (emit s e)))" by (simp add: emit_rel)
  with Cons show ?case by (auto simp: split_def)
qed simp

end

end
