(* ===== verification/Failover.thy ===== *)
theory Failover
  imports Account Transitions
begin

text \<open>
  Account failover: \<^verbatim>\<open>backend/internal/handler/failover_loop.go\<close> (the state shared by the
  iterations of a request's attempt loop and its two decision functions),
  \<^verbatim>\<open>openai_same_account_retry.go\<close> (the retry helper of the OpenAI handlers), the failover
  error of \<^verbatim>\<open>service/gateway_service.go\<close>, the route switch test of
  \<^verbatim>\<open>gateway_handler.go\<close> and the attempt loop of \<^verbatim>\<open>gateway_handler_responses.go\<close> that
  drives them.

  A request context is what the code asks of it: whether it is already cancelled, and whether
  it is cancelled during a wait of a given length. The answers of account selection, of the
  concurrency slot and of the upstream call are the events of the loop.
\<close>

section \<open>The failover error\<close>

datatype NextAccountAction = NextAccountLegacyRetry | NextAccountRetry | NextAccountStop

record UpstreamFailoverError =
  fe_StatusCode :: int
  fe_ForceCacheBilling :: bool
  fe_RetryableOnSameAccount :: bool
  fe_Stage :: string
  fe_Scope :: string
  fe_NextAccountAction :: NextAccountAction

text \<open>The receivers are pointers: \<^const>\<open>None\<close> is nil.\<close>

definition ShouldRetryNextAccount :: "UpstreamFailoverError option \<Rightarrow> bool" where
  "ShouldRetryNextAccount e =
     (case e of None \<Rightarrow> False | Some err \<Rightarrow> fe_NextAccountAction err \<noteq> NextAccountStop)"

definition IsCredentialFailure :: "UpstreamFailoverError option \<Rightarrow> bool" where
  "IsCredentialFailure e =
     (case e of None \<Rightarrow> False | Some err \<Rightarrow> fe_Stage err = ''account_auth'')"

definition ShouldReportAccountScheduleFailure :: "UpstreamFailoverError option \<Rightarrow> bool" where
  "ShouldReportAccountScheduleFailure e =
     (case e of None \<Rightarrow> False
      | Some err \<Rightarrow> \<not> IsCredentialFailure e \<or> fe_Scope err = ''account'')"

definition IsUpstreamReplayUnsafeTimeoutStatus :: "int \<Rightarrow> bool" where
  "IsUpstreamReplayUnsafeTimeoutStatus statusCode \<longleftrightarrow>
     statusCode = 408 \<or> statusCode = 504 \<or> statusCode = 524"

definition shouldSwitchAPIKeyGroupRoute :: "UpstreamFailoverError option \<Rightarrow> bool" where
  "shouldSwitchAPIKeyGroupRoute e =
     (case e of None \<Rightarrow> False
      | Some err \<Rightarrow>
          if IsUpstreamReplayUnsafeTimeoutStatus (fe_StatusCode err) then False
          else if fe_StatusCode err \<in> {401, 402, 403, 429, 502, 503, 529} then True
          else fe_StatusCode err \<ge> 500)"

section \<open>The failover state\<close>

record FailoverState =
  SwitchCount :: int
  MaxSwitches :: int
  FailedAccountIDs :: "int set"
  SameAccountRetryCount :: "int \<Rightarrow> int"  \<comment> \<open>0 where the Go map has no entry\<close>
  LastFailoverErr :: "UpstreamFailoverError option"
  ForceCacheBilling :: bool
  hasBoundSession :: bool

datatype FailoverAction = FailoverContinue | FailoverExhausted | FailoverCanceled

definition maxSameAccountRetries :: int where "maxSameAccountRetries = 3"
definition sameAccountRetryDelay :: duration where "sameAccountRetryDelay = 500 * millisecond"
definition singleAccountBackoffDelay :: duration where "singleAccountBackoffDelay = 2 * second"

definition NewFailoverState :: "int \<Rightarrow> bool \<Rightarrow> FailoverState" where
  "NewFailoverState maxSwitches bound =
     \<lparr>SwitchCount = 0, MaxSwitches = maxSwitches, FailedAccountIDs = {},
      SameAccountRetryCount = (\<lambda>_. 0), LastFailoverErr = None, ForceCacheBilling = False,
      hasBoundSession = bound\<rparr>"

definition SetHasBoundSession :: "FailoverState \<Rightarrow> bool \<Rightarrow> FailoverState" where
  "SetHasBoundSession s bound = s\<lparr>hasBoundSession := bound\<rparr>"

record reqContext =
  ctxErr :: bool  \<comment> \<open>\<^verbatim>\<open>ctx.Err() != nil\<close> on entry\<close>
  ctxDoneWithin :: "duration \<Rightarrow> bool"  \<comment> \<open>\<^verbatim>\<open>ctx.Done()\<close> wins against a timer of this length\<close>

definition sleepWithContext :: "reqContext \<Rightarrow> duration \<Rightarrow> bool" where
  "sleepWithContext ctx d = (if d \<le> 0 then True else \<not> ctxDoneWithin ctx d)"

definition needForceCacheBilling :: "bool \<Rightarrow> UpstreamFailoverError option \<Rightarrow> bool \<Rightarrow> bool" where
  "needForceCacheBilling bound failoverErr sameAccountRetry \<longleftrightarrow>
     (bound \<and> \<not> sameAccountRetry) \<or>
     (case failoverErr of None \<Rightarrow> False | Some err \<Rightarrow> fe_ForceCacheBilling err)"

datatype failoverArg = ArgErr "UpstreamFailoverError option" | ArgInt int | ArgOther

fun resolveArg :: "UpstreamFailoverError option \<times> int \<Rightarrow> failoverArg \<Rightarrow> UpstreamFailoverError option \<times> int" where
  "resolveArg (e, limit) (ArgErr v) = (v, limit)"
| "resolveArg (e, limit) (ArgInt v) = (e, v)"
| "resolveArg (e, limit) ArgOther = (e, limit)"

definition resolveFailoverArguments :: "failoverArg list \<Rightarrow> UpstreamFailoverError option \<times> int" where
  "resolveFailoverArguments args =
     (case foldl resolveArg (None, maxSameAccountRetries) args of
        (failoverErr, limit) \<Rightarrow> (failoverErr, if limit < 0 then 0 else limit))"

text \<open>
  \<^verbatim>\<open>HandleFailoverError\<close> returns the action, the updated state and the accounts for which
  \<^verbatim>\<open>TempUnscheduleRetryableError\<close> was called. The last part, from the exhausted check on, is
  shared by the two paths that reach it.
\<close>

definition switchAccount :: "FailoverState \<Rightarrow> reqContext \<Rightarrow> int \<Rightarrow> string \<Rightarrow> FailoverAction \<times> FailoverState" where
  "switchAccount s0 ctx accountID platform =
     (let s = s0\<lparr>FailedAccountIDs := insert accountID (FailedAccountIDs s0)\<rparr> in
      if SwitchCount s \<ge> MaxSwitches s then (FailoverExhausted, s)
      else let s = s\<lparr>SwitchCount := SwitchCount s + 1\<rparr> in
      if platform = ''antigravity'' \<and> \<not> sleepWithContext ctx ((SwitchCount s - 1) * second)
      then (FailoverCanceled, s)
      else (FailoverContinue, s))"

definition HandleFailoverError ::
  "FailoverState \<Rightarrow> reqContext \<Rightarrow> int \<Rightarrow> string \<Rightarrow> failoverArg list \<Rightarrow> FailoverAction \<times> FailoverState \<times> int list" where
  "HandleFailoverError s0 ctx accountID platform args =
     (if ctxErr ctx then (FailoverCanceled, s0, [])
      else let (failoverErr, sameAccountRetryLimit) = resolveFailoverArguments args;
               s = s0\<lparr>LastFailoverErr := failoverErr\<rparr> in
      case failoverErr of
        None \<Rightarrow> (FailoverExhausted, s, [])
      | Some err \<Rightarrow>
          if \<not> ShouldRetryNextAccount failoverErr then (FailoverExhausted, s, [])
          else let sameAccountRetry = fe_RetryableOnSameAccount err \<and>
                     SameAccountRetryCount s accountID < sameAccountRetryLimit;
                   s = (if needForceCacheBilling (hasBoundSession s) failoverErr sameAccountRetry
                        then s\<lparr>ForceCacheBilling := True\<rparr> else s) in
          if fe_RetryableOnSameAccount err \<and> SameAccountRetryCount s accountID < sameAccountRetryLimit
          then let s = s\<lparr>SameAccountRetryCount :=
                       (SameAccountRetryCount s)(accountID := SameAccountRetryCount s accountID + 1)\<rparr> in
               (if \<not> sleepWithContext ctx sameAccountRetryDelay then FailoverCanceled
                else FailoverContinue, s, [])
          else let unscheduled = (if fe_RetryableOnSameAccount err then [accountID] else []);
                   (action, s) = switchAccount s ctx accountID platform in
               (action, s, unscheduled))"

definition HandleSelectionExhausted :: "FailoverState \<Rightarrow> reqContext \<Rightarrow> FailoverAction \<times> FailoverState" where
  "HandleSelectionExhausted s ctx =
     (if ctxErr ctx then (FailoverCanceled, s)
      else case LastFailoverErr s of
        None \<Rightarrow> (FailoverExhausted, s)
      | Some err \<Rightarrow>
          if fe_StatusCode err = 503 \<and> SwitchCount s \<le> MaxSwitches s
          then (if \<not> sleepWithContext ctx singleAccountBackoffDelay then (FailoverCanceled, s)
                else (FailoverContinue, s\<lparr>FailedAccountIDs := {}\<rparr>))
          else (FailoverExhausted, s))"

section \<open>The retry helper of the OpenAI handlers\<close>

datatype openAISameAccountRetryAction =
  openAISameAccountRetryNoop | openAISameAccountRetryContinue | openAISameAccountRetryCanceled

text \<open>
  \<open>retryCounts\<close> is \<^const>\<open>None\<close> for the nil map. The result names the action, the map and the
  accounts that are temporarily unscheduled (none without a \<^verbatim>\<open>tempUnscheduler\<close>).
\<close>

definition handleOpenAISameAccountRetry ::
  "reqContext \<Rightarrow> bool \<Rightarrow> int \<Rightarrow> int \<Rightarrow> UpstreamFailoverError option \<Rightarrow> (int \<Rightarrow> int) option \<Rightarrow> duration \<Rightarrow>
   openAISameAccountRetryAction \<times> (int \<Rightarrow> int) option \<times> int list" where
  "handleOpenAISameAccountRetry ctx hasUnscheduler accountID retryLimit0 failoverErr retryCounts retryDelay =
     (case failoverErr of
        None \<Rightarrow> (openAISameAccountRetryNoop, retryCounts, [])
      | Some err \<Rightarrow>
          if \<not> fe_RetryableOnSameAccount err then (openAISameAccountRetryNoop, retryCounts, [])
          else let retryLimit = (if retryLimit0 < 0 then 0 else retryLimit0);
                   retryCount = (case retryCounts of None \<Rightarrow> 0 | Some m \<Rightarrow> m accountID) in
          if retryCount < retryLimit
          then (if \<not> sleepWithContext ctx retryDelay then openAISameAccountRetryCanceled
                else openAISameAccountRetryContinue,
                map_option (\<lambda>m. m(accountID := retryCount + 1)) retryCounts, [])
          else (openAISameAccountRetryNoop, retryCounts,
                if hasUnscheduler then [accountID] else []))"

section \<open>The attempt loop of the Responses handler\<close>

definition stickySelectionHonored :: "string \<Rightarrow> int \<Rightarrow> int \<Rightarrow> bool" where
  "stickySelectionHonored sessionKey boundAccountID selectedAccountID \<longleftrightarrow>
     sessionKey \<noteq> [] \<and> boundAccountID > 0 \<and> boundAccountID = selectedAccountID"

text \<open>\<open>cleared\<close> is the answer of the gateway service's \<^verbatim>\<open>ClearStickySessionIfBoundTo\<close>.\<close>

definition clearStickySessionIfBoundTo :: "string \<Rightarrow> int \<Rightarrow> bool \<Rightarrow> bool" where
  "clearStickySessionIfBoundTo sessionHash accountID cleared =
     (if sessionHash = [] \<or> accountID \<le> 0 then False else cleared)"

record attemptState =
  at_fs :: FailoverState
  at_stickyBoundAccountID :: int

text \<open>What the upstream call answers, once an account is selected and its slot is held.\<close>

datatype forwardResult =
    ForwardOK
  | ForwardFailover reqContext UpstreamFailoverError bool bool
      \<comment> \<open>the context, the error, whether response bytes were already written, and whether the
         gateway service cleared the sticky session when asked\<close>
  | ForwardError

datatype attemptEvent =
    SelectError reqContext
  | SelectEmpty
  | SlotError account
  | Attempt account forwardResult

datatype attemptOutcome =
    NoAvailableAccounts  \<comment> \<open>no account, nothing tried since the exclusion list was empty\<close>
  | SelectionExhausted "UpstreamFailoverError option"
  | UpstreamExhausted "UpstreamFailoverError option"
  | ResponseCommitted UpstreamFailoverError
  | ClientGone
  | SlotFailed
  | ForwardFailed
  | Forwarded account

definition responsesAttempt :: "string \<Rightarrow> attemptState \<Rightarrow> attemptEvent \<Rightarrow> attemptState + attemptOutcome" where
  "responsesAttempt sessionHash st ev =
     (let fs = at_fs st in
      case ev of
        SelectError ctx \<Rightarrow>
          if FailedAccountIDs fs = {} then Inr NoAvailableAccounts
          else (case HandleSelectionExhausted fs ctx of
              (FailoverContinue, fs') \<Rightarrow> Inl (st\<lparr>at_fs := fs'\<rparr>)
            | (FailoverCanceled, _) \<Rightarrow> Inr ClientGone
            | (FailoverExhausted, fs') \<Rightarrow> Inr (SelectionExhausted (LastFailoverErr fs')))
      | SelectEmpty \<Rightarrow> Inr NoAvailableAccounts
      | SlotError acc \<Rightarrow> Inr SlotFailed
      | Attempt acc result \<Rightarrow>
          let fs = SetHasBoundSession fs
                     (stickySelectionHonored sessionHash (at_stickyBoundAccountID st) (a_ID acc)) in
          (case result of
             ForwardOK \<Rightarrow> Inr (Forwarded acc)
           | ForwardError \<Rightarrow> Inr ForwardFailed
           | ForwardFailover ctx err written cleared \<Rightarrow>
               if written then Inr (ResponseCommitted err)
               else (case HandleFailoverError fs ctx (a_ID acc) (a_Platform acc)
                            [ArgErr (Some err), ArgInt (GetPoolModeRetryCount acc)] of
                   (action, fs', _) \<Rightarrow>
                     let bound = (if a_ID acc \<in> FailedAccountIDs fs' \<and>
                                     clearStickySessionIfBoundTo sessionHash (a_ID acc) cleared then 0
                                  else at_stickyBoundAccountID st) in
                     (case action of
                        FailoverContinue \<Rightarrow> Inl \<lparr>at_fs = fs', at_stickyBoundAccountID = bound\<rparr>
                      | FailoverExhausted \<Rightarrow> Inr (UpstreamExhausted (LastFailoverErr fs'))
                      | FailoverCanceled \<Rightarrow> Inr ClientGone))))"

definition responsesStart :: "int \<Rightarrow> int \<Rightarrow> attemptState" where
  "responsesStart maxAccountSwitches boundAccountID =
     \<lparr>at_fs = NewFailoverState maxAccountSwitches (boundAccountID > 0),
      at_stickyBoundAccountID = boundAccountID\<rparr>"

definition responsesAttempts :: "string \<Rightarrow> int \<Rightarrow> int \<Rightarrow> attemptEvent list \<Rightarrow> attemptState + attemptOutcome" where
  "responsesAttempts sessionHash maxAccountSwitches boundAccountID events =
     run_loop (responsesAttempt sessionHash) (responsesStart maxAccountSwitches boundAccountID) events"

section \<open>Invariant and rank of the attempt loop\<close>

definition failoverInv :: "FailoverState \<Rightarrow> bool" where
  "failoverInv fs \<longleftrightarrow> 0 \<le> SwitchCount fs \<and> SwitchCount fs \<le> max 0 (MaxSwitches fs) \<and>
     (\<forall>a. 0 \<le> SameAccountRetryCount fs a \<and> SameAccountRetryCount fs a \<le> 10)"

text \<open>The accounts a run can meet are those of a finite list of ids.\<close>

fun knownAccount :: "int list \<Rightarrow> attemptEvent \<Rightarrow> bool" where
  "knownAccount ids (Attempt acc _) = (a_ID acc \<in> set ids)"
| "knownAccount ids _ = True"

definition failoverRank :: "int list \<Rightarrow> FailoverState \<Rightarrow> nat" where
  "failoverRank ids fs = 2 * nat (MaxSwitches fs - SwitchCount fs) +
     (\<Sum>a \<in> set ids. nat (10 - SameAccountRetryCount fs a)) +
     (if FailedAccountIDs fs = {} then 0 else 1)"

lemma retry_budget_less:
  assumes "a \<in> set ids" "c a < (10::int)"
  shows "(\<Sum>b \<in> set ids. nat (10 - (if b = a then c a + 1 else c b))) < (\<Sum>b \<in> set ids. nat (10 - c b))"
  using assms by (intro sum_strict_mono_ex1) auto

lemma resolveFailoverArguments_pair [simp]:
  "resolveFailoverArguments [ArgErr e, ArgInt n] = (e, max 0 n)"
  "resolveFailoverArguments [ArgInt n, ArgErr e] = (e, max 0 n)"
  "resolveFailoverArguments [ArgErr e] = (e, 3)"
  by (simp_all add: resolveFailoverArguments_def maxSameAccountRetries_def)

text \<open>A call that lets the loop go on either used one retry of the account or one switch.\<close>

lemma HandleFailoverError_continue:
  assumes "HandleFailoverError s ctx acc platform [ArgErr (Some err), ArgInt n] = (FailoverContinue, s', u)"
  shows "MaxSwitches s' = MaxSwitches s \<and> hasBoundSession s' = hasBoundSession s \<and>
    (if fe_RetryableOnSameAccount err \<and> SameAccountRetryCount s acc < max 0 n
     then SwitchCount s' = SwitchCount s \<and> FailedAccountIDs s' = FailedAccountIDs s \<and>
       SameAccountRetryCount s' = (SameAccountRetryCount s)(acc := SameAccountRetryCount s acc + 1)
     else SwitchCount s < MaxSwitches s \<and> SwitchCount s' = SwitchCount s + 1 \<and>
       FailedAccountIDs s' = insert acc (FailedAccountIDs s) \<and>
       SameAccountRetryCount s' = SameAccountRetryCount s)"
  using assms
  by (auto simp: HandleFailoverError_def switchAccount_def Let_def split: if_splits)

lemma HandleSelectionExhausted_continue:
  "HandleSelectionExhausted s ctx = (FailoverContinue, s') \<Longrightarrow> s' = s\<lparr>FailedAccountIDs := {}\<rparr>"
  by (auto simp: HandleSelectionExhausted_def split: if_splits option.splits)

lemma responsesAttempt_continue:
  assumes "responsesAttempt h st ev = Inl st'"
  obtains (backoff) ctx where "ev = SelectError ctx" "FailedAccountIDs (at_fs st) \<noteq> {}"
      "at_fs st' = (at_fs st)\<lparr>FailedAccountIDs := {}\<rparr>"
      "at_stickyBoundAccountID st' = at_stickyBoundAccountID st"
  | (failed) acc ctx err cleared fs u where "ev = Attempt acc (ForwardFailover ctx err False cleared)"
      "fs = SetHasBoundSession (at_fs st) (stickySelectionHonored h (at_stickyBoundAccountID st) (a_ID acc))"
      "HandleFailoverError fs ctx (a_ID acc) (a_Platform acc)
         [ArgErr (Some err), ArgInt (GetPoolModeRetryCount acc)] = (FailoverContinue, at_fs st', u)"
      "at_stickyBoundAccountID st' \<in> {0, at_stickyBoundAccountID st}"
proof (cases ev)
  case (SelectError ctx)
  with assms backoff show thesis
    by (auto simp: responsesAttempt_def Let_def split: if_splits FailoverAction.splits prod.splits
        dest: HandleSelectionExhausted_continue)
next
  case (Attempt acc r)
  with assms obtain ctx err cleared where "r = ForwardFailover ctx err False cleared"
    by (auto simp: responsesAttempt_def Let_def split: forwardResult.splits if_splits)
  with Attempt have ev: "ev = Attempt acc (ForwardFailover ctx err False cleared)" by simp
  with assms show thesis
    by (auto simp: responsesAttempt_def Let_def split: FailoverAction.splits prod.splits
        intro!: failed [OF ev refl])
qed (use assms in \<open>auto simp: responsesAttempt_def\<close>)

lemma SetHasBoundSession_simps [simp]:
  "SwitchCount (SetHasBoundSession s b) = SwitchCount s"
  "MaxSwitches (SetHasBoundSession s b) = MaxSwitches s"
  "FailedAccountIDs (SetHasBoundSession s b) = FailedAccountIDs s"
  "SameAccountRetryCount (SetHasBoundSession s b) = SameAccountRetryCount s"
  "ForceCacheBilling (SetHasBoundSession s b) = ForceCacheBilling s"
  "hasBoundSession (SetHasBoundSession s b) = b"
  by (simp_all add: SetHasBoundSession_def)

lemma responsesAttempt_inv:
  assumes inv: "failoverInv (at_fs st)" and "responsesAttempt h st ev = Inl st'"
  shows "failoverInv (at_fs st') \<and> MaxSwitches (at_fs st') = MaxSwitches (at_fs st)"
  using assms(2)
proof (cases rule: responsesAttempt_continue)
  case backoff
  with inv show ?thesis by (simp add: failoverInv_def)
next
  case (failed acc ctx err cleared fs u)
  have "GetPoolModeRetryCount acc \<le> 10" by (rule pool_retry_count_range)
  with inv HandleFailoverError_continue [OF failed(3)] failed(2) show ?thesis
    by (auto simp: failoverInv_def split: if_splits)
qed

lemma responsesAttempt_rank:
  assumes inv: "failoverInv (at_fs st)" and known: "knownAccount ids ev"
    and "responsesAttempt h st ev = Inl st'"
  shows "failoverRank ids (at_fs st') < failoverRank ids (at_fs st)"
  using assms(3)
proof (cases rule: responsesAttempt_continue)
  case backoff
  then show ?thesis by (simp add: failoverRank_def)
next
  case (failed acc ctx err cleared fs u)
  note step = HandleFailoverError_continue [OF failed(3)]
  show ?thesis
  proof (cases "fe_RetryableOnSameAccount err \<and> SameAccountRetryCount fs (a_ID acc) < max 0 (GetPoolModeRetryCount acc)")
    case True
    moreover have "GetPoolModeRetryCount acc \<le> 10" by (rule pool_retry_count_range)
    ultimately have "SameAccountRetryCount (at_fs st) (a_ID acc) < 10" using failed(2) by auto
    with True step failed(1,2) known show ?thesis
      by (auto simp: failoverRank_def intro: retry_budget_less)
  next
    case False
    with step have "SwitchCount fs < MaxSwitches fs" "SwitchCount (at_fs st') = SwitchCount fs + 1"
      "SameAccountRetryCount (at_fs st') = SameAccountRetryCount fs" "MaxSwitches (at_fs st') = MaxSwitches fs"
      by auto
    with failed(2) show ?thesis by (auto simp: failoverRank_def)
  qed
qed

interpretation responses: ranked_loop "responsesAttempt h" "\<lambda>st. failoverInv (at_fs st)"
  "knownAccount ids" "\<lambda>st. failoverRank ids (at_fs st)" for h ids
  by unfold_locales (auto simp: responsesAttempt_inv responsesAttempt_rank)

interpretation responses_max: guarded_loop "responsesAttempt h"
  "\<lambda>st. failoverInv (at_fs st) \<and> MaxSwitches (at_fs st) = m" "\<lambda>_. True" for h m
  by unfold_locales (auto simp: responsesAttempt_inv)

section \<open>Billing\<close>

lemma HandleFailoverError_billing:
  assumes "HandleFailoverError s ctx acc platform [ArgErr (Some err), ArgInt n] = (action, s', u)"
  shows "ForceCacheBilling s' \<Longrightarrow> ForceCacheBilling s \<or> fe_ForceCacheBilling err \<or>
      hasBoundSession s \<and> action \<noteq> FailoverContinue \<or> hasBoundSession s \<and> acc \<in> FailedAccountIDs s'"
    and "ForceCacheBilling s \<Longrightarrow> ForceCacheBilling s'"
  using assms
  by (auto simp: HandleFailoverError_def switchAccount_def needForceCacheBilling_def Let_def split: if_splits)

text \<open>An event after which a cache billed request is justified.\<close>

fun billedFor :: "int \<Rightarrow> attemptEvent \<Rightarrow> bool" where
  "billedFor bound (Attempt acc (ForwardFailover ctx err written cleared)) =
     (fe_ForceCacheBilling err \<or> bound > 0 \<and> a_ID acc = bound)"
| "billedFor bound _ = False"

definition billingInv :: "int \<Rightarrow> attemptState \<Rightarrow> bool" where
  "billingInv bound st \<longleftrightarrow>
     \<not> ForceCacheBilling (at_fs st) \<and> at_stickyBoundAccountID st \<in> {0, bound}"

lemma billing_step:
  assumes inv: "billingInv bound st" and no: "\<not> billedFor bound ev" and "responsesAttempt h st ev = Inl st'"
  shows "billingInv bound st'"
  using assms(3)
proof (cases rule: responsesAttempt_continue)
  case backoff
  with inv show ?thesis by (simp add: billingInv_def)
next
  case (failed acc ctx err cleared fs u)
  from no failed(1) have "\<not> fe_ForceCacheBilling err" "\<not> (bound > 0 \<and> a_ID acc = bound)" by auto
  moreover from this inv failed(2) have "\<not> hasBoundSession fs" "\<not> ForceCacheBilling fs"
    by (auto simp: billingInv_def stickySelectionHonored_def)
  ultimately have "\<not> ForceCacheBilling (at_fs st')"
    using HandleFailoverError_billing(1) [OF failed(3)] by blast
  with failed(4) inv show ?thesis by (auto simp: billingInv_def)
qed

interpretation responses_billing: guarded_loop "responsesAttempt h" "billingInv bound"
  "\<lambda>ev. \<not> billedFor bound ev" for h bound
  by unfold_locales (auto intro: billing_step)

section \<open>Properties\<close>

text \<open>The accounts, errors and contexts of the examples.\<close>

definition exampleAccount :: "int \<Rightarrow> account" where
  "exampleAccount i = rampExample\<lparr>a_ID := i\<rparr>"

definition exampleError :: "int \<Rightarrow> bool \<Rightarrow> UpstreamFailoverError" where
  "exampleError code retryable =
     \<lparr>fe_StatusCode = code, fe_ForceCacheBilling = False, fe_RetryableOnSameAccount = retryable,
      fe_Stage = [], fe_Scope = [], fe_NextAccountAction = NextAccountLegacyRetry\<rparr>"

definition liveContext :: reqContext where
  "liveContext = \<lparr>ctxErr = False, ctxDoneWithin = (\<lambda>_. False)\<rparr>"

lemmas [step_simps] = responsesAttempts_def responsesStart_def responsesAttempt_def HandleFailoverError_def switchAccount_def
  HandleSelectionExhausted_def ShouldRetryNextAccount_def sleepWithContext_def needForceCacheBilling_def
  stickySelectionHonored_def NewFailoverState_def SetHasBoundSession_def Let_def
  exampleError_def exampleAccount_def liveContext_def rampExample_def

text \<open>
  (C2) The attempt loop of a request ends: whatever account selection, the slots and the
  upstreams answer, a loop that meets accounts out of a finite list is left after at most
  twice the allowed number of account switches plus ten iterations per account (the largest
  pool mode retry count) and one more.
\<close>

theorem failover_terminates:
  assumes "list_all (knownAccount ids) events"
    and "2 * nat maxAccountSwitches + 10 * card (set ids) < length events"
  shows "\<exists>r. responsesAttempts sessionHash maxAccountSwitches boundAccountID events = Inr r"
proof -
  let ?st = "responsesStart maxAccountSwitches boundAccountID"
  have "failoverInv (at_fs ?st)" by (simp add: responsesStart_def failoverInv_def NewFailoverState_def)
  moreover have "failoverRank ids (at_fs ?st) = 2 * nat maxAccountSwitches + 10 * card (set ids)"
    by (simp add: responsesStart_def failoverRank_def NewFailoverState_def)
  ultimately show ?thesis
    using responses.run_ends [of ?st ids events] assms by (simp add: responsesAttempts_def)
qed

theorem failover_terminates_witness:
  "\<exists>r. responsesAttempts ''s'' 1 7
     (replicate 13 (Attempt (exampleAccount 7) (ForwardFailover liveContext (exampleError 429 True) False False))) =
   Inr r"
  by (rule failover_terminates [of "[7]"]) (simp_all add: exampleAccount_def list_all_iff)

text \<open>
  As long as the loop runs it has switched accounts at most \<^verbatim>\<open>MaxSwitches\<close> times (never,
  for a negative limit), the limit is the configured one, and no account has been retried more
  than ten times on its own.
\<close>

theorem failover_bounds:
  assumes "responsesAttempts sessionHash maxAccountSwitches boundAccountID events = Inl st"
  shows "0 \<le> SwitchCount (at_fs st) \<and> SwitchCount (at_fs st) \<le> max 0 maxAccountSwitches \<and>
    MaxSwitches (at_fs st) = maxAccountSwitches \<and>
    (\<forall>a. 0 \<le> SameAccountRetryCount (at_fs st) a \<and> SameAccountRetryCount (at_fs st) a \<le> 10)"
proof -
  have "failoverInv (at_fs st) \<and> MaxSwitches (at_fs st) = maxAccountSwitches"
    by (rule responses_max.run_inv [OF _ _ assms [unfolded responsesAttempts_def]])
      (simp_all add: responsesStart_def failoverInv_def NewFailoverState_def list_all_iff)
  then show ?thesis by (auto simp: failoverInv_def)
qed

theorem failover_bounds_witness:
  "\<exists>st. responsesAttempts ''s'' 3 7
     [Attempt (exampleAccount 7) (ForwardFailover liveContext (exampleError 503 False) False True),
      SelectError liveContext] = Inl st \<and>
    SwitchCount (at_fs st) = 1 \<and> FailedAccountIDs (at_fs st) = {} \<and>
    SwitchCount (at_fs st) \<le> max 0 3"
proof -
  let ?es = "[Attempt (exampleAccount 7) (ForwardFailover liveContext (exampleError 503 False) False True),
      SelectError liveContext]"
  obtain st where st: "responsesAttempts ''s'' 3 7 ?es = Inl st" "SwitchCount (at_fs st) = 1"
    "FailedAccountIDs (at_fs st) = {}"
    by (simp add: step_simps)
  with failover_bounds [OF st(1)] show ?thesis by blast
qed

text \<open>
  A request that started on a sticky session (or on none) is billed as cache reads only
  for a reason: if the flag is set while the loop runs, some failed attempt carried an error
  that asks for it or used the very account the session was bound to.
\<close>

theorem force_cache_billing_cause:
  assumes "responsesAttempts sessionHash maxAccountSwitches boundAccountID events = Inl st"
    and "ForceCacheBilling (at_fs st)"
  shows "list_ex (billedFor boundAccountID) events"
proof (rule ccontr)
  assume "\<not> ?thesis"
  then have "list_all (\<lambda>ev. \<not> billedFor boundAccountID ev) events"
    by (simp add: list_all_iff list_ex_iff)
  then have "billingInv boundAccountID st"
    by (intro responses_billing.run_inv [OF _ _ assms(1) [unfolded responsesAttempts_def]])
      (simp_all add: responsesStart_def billingInv_def NewFailoverState_def)
  with assms(2) show False by (simp add: billingInv_def)
qed

theorem force_cache_billing_cause_witness:
  "list_ex (billedFor 7)
     [Attempt (exampleAccount 7) (ForwardFailover liveContext (exampleError 503 False) False True)]"
proof -
  let ?es = "[Attempt (exampleAccount 7) (ForwardFailover liveContext (exampleError 503 False) False True)]"
  obtain st where "responsesAttempts ''s'' 3 7 ?es = Inl st" "ForceCacheBilling (at_fs st)"
    by (simp add: step_simps)
  then show ?thesis by (rule force_cache_billing_cause)
qed

definition afterFailures ::
  "nat \<Rightarrow> FailoverState \<Rightarrow> reqContext \<Rightarrow> int \<Rightarrow> string \<Rightarrow> failoverArg list \<Rightarrow> FailoverState" where
  "afterFailures k s ctx acc platform args =
     ((\<lambda>s. fst (snd (HandleFailoverError s ctx acc platform args))) ^^ k) s"

lemma same_account_retry:
  assumes "fe_RetryableOnSameAccount err" "fe_NextAccountAction err \<noteq> NextAccountStop"
    and "\<not> ctxErr ctx" "\<not> ctxDoneWithin ctx sameAccountRetryDelay"
    and "SameAccountRetryCount s acc < n" "0 \<le> SameAccountRetryCount s acc"
  shows "\<exists>s'. HandleFailoverError s ctx acc platform [ArgErr (Some err), ArgInt n] = (FailoverContinue, s', []) \<and>
    SameAccountRetryCount s' acc = SameAccountRetryCount s acc + 1 \<and>
    FailedAccountIDs s' = FailedAccountIDs s \<and> SwitchCount s' = SwitchCount s"
  using assms by (simp add: HandleFailoverError_def ShouldRetryNextAccount_def sleepWithContext_def Let_def)

lemma after_retries:
  assumes "fe_RetryableOnSameAccount err" "fe_NextAccountAction err \<noteq> NextAccountStop"
    and "\<not> ctxErr ctx" "\<not> ctxDoneWithin ctx sameAccountRetryDelay"
    and "SameAccountRetryCount s acc = 0" "int k \<le> n"
  shows "let t = afterFailures k s ctx acc platform [ArgErr (Some err), ArgInt n] in
    SameAccountRetryCount t acc = int k \<and> FailedAccountIDs t = FailedAccountIDs s \<and> SwitchCount t = SwitchCount s"
  using assms(6)
proof (induction k)
  case (Suc k)
  then show ?case
    using same_account_retry [OF assms(1-4), of "afterFailures k s ctx acc platform [ArgErr (Some err), ArgInt n]" acc n platform]
    by (auto simp: afterFailures_def Let_def)
qed (simp add: afterFailures_def assms(5))

text \<open>
  The budget of retries on one account: a retryable error that keeps coming back on an
  account with limit \<open>n\<close> is retried on that account exactly \<open>n\<close> times, without unscheduling it,
  counting a switch or excluding it; the next occurrence unschedules and excludes it.
\<close>

theorem same_account_budget:
  assumes "fe_RetryableOnSameAccount err" "fe_NextAccountAction err \<noteq> NextAccountStop"
    and "\<not> ctxErr ctx" "\<not> ctxDoneWithin ctx sameAccountRetryDelay"
    and "SameAccountRetryCount s acc = 0" "int k \<le> n"
  shows "case HandleFailoverError (afterFailures k s ctx acc platform [ArgErr (Some err), ArgInt n])
             ctx acc platform [ArgErr (Some err), ArgInt n] of
     (action, t, unscheduled) \<Rightarrow>
       if int k < n
       then action = FailoverContinue \<and> unscheduled = [] \<and>
         FailedAccountIDs t = FailedAccountIDs s \<and> SwitchCount t = SwitchCount s
       else unscheduled = [acc] \<and> acc \<in> FailedAccountIDs t"
proof -
  let ?a = "[ArgErr (Some err), ArgInt n]"
  let ?t = "afterFailures k s ctx acc platform ?a"
  have t: "SameAccountRetryCount ?t acc = int k" "FailedAccountIDs ?t = FailedAccountIDs s"
    "SwitchCount ?t = SwitchCount s"
    using after_retries [OF assms] by (simp_all add: Let_def)
  show ?thesis
  proof (cases "int k < n")
    case True
    with same_account_retry [OF assms(1-4), of ?t acc n platform] t show ?thesis by auto
  next
    case False
    with t assms(1-3,6) show ?thesis
      by (auto simp: HandleFailoverError_def ShouldRetryNextAccount_def switchAccount_def Let_def split: prod.splits)
  qed
qed

theorem same_account_budget_witness:
  "case HandleFailoverError
      (afterFailures 2 (NewFailoverState 3 False) liveContext 7 ''anthropic'' [ArgErr (Some (exampleError 400 True)), ArgInt 2])
      liveContext 7 ''anthropic'' [ArgErr (Some (exampleError 400 True)), ArgInt 2] of
     (action, t, unscheduled) \<Rightarrow> unscheduled = [7] \<and> 7 \<in> FailedAccountIDs t"
  using same_account_budget [of "exampleError 400 True" liveContext "NewFailoverState 3 False" 7 2 2 "''anthropic''"]
  by (simp add: exampleError_def liveContext_def NewFailoverState_def)

text \<open>
  The retry helper of the OpenAI handlers and the failover state agree: on a retryable
  error with the same counters, limit and delay they retry, give up and are cancelled in the
  same cases, leave the same counters and unschedule the same accounts.
\<close>

theorem openai_retry_agrees:
  assumes "fe_RetryableOnSameAccount err" "fe_NextAccountAction err \<noteq> NextAccountStop" "\<not> ctxErr ctx"
  shows "case HandleFailoverError s ctx acc platform [ArgErr (Some err), ArgInt n] of (action, s', unscheduled) \<Rightarrow>
    (case handleOpenAISameAccountRetry ctx True acc n (Some err) (Some (SameAccountRetryCount s)) sameAccountRetryDelay of
       (action2, counts, unscheduled2) \<Rightarrow>
         counts = Some (SameAccountRetryCount s') \<and> unscheduled2 = unscheduled \<and>
         (case action2 of
            openAISameAccountRetryContinue \<Rightarrow> action = FailoverContinue
          | openAISameAccountRetryCanceled \<Rightarrow> action = FailoverCanceled
          | openAISameAccountRetryNoop \<Rightarrow> acc \<in> FailedAccountIDs s'))"
  using assms
  by (auto simp: HandleFailoverError_def handleOpenAISameAccountRetry_def ShouldRetryNextAccount_def
      switchAccount_def Let_def max_def split: prod.splits)

theorem openai_retry_agrees_witness:
  "case HandleFailoverError (NewFailoverState 3 False) liveContext 7 ''openai''
      [ArgErr (Some (exampleError 400 True)), ArgInt 1] of (action, s', unscheduled) \<Rightarrow>
    (case handleOpenAISameAccountRetry liveContext True 7 1 (Some (exampleError 400 True))
        (Some (\<lambda>_. 0)) sameAccountRetryDelay of
       (action2, counts, unscheduled2) \<Rightarrow>
         counts = Some (SameAccountRetryCount s') \<and> unscheduled2 = unscheduled \<and>
         (case action2 of
            openAISameAccountRetryContinue \<Rightarrow> action = FailoverContinue
          | openAISameAccountRetryCanceled \<Rightarrow> action = FailoverCanceled
          | openAISameAccountRetryNoop \<Rightarrow> 7 \<in> FailedAccountIDs s'))"
proof -
  have "SameAccountRetryCount (NewFailoverState 3 False) = (\<lambda>_. 0)" by (simp add: NewFailoverState_def)
  with openai_retry_agrees [of "exampleError 400 True" liveContext 7 1 "NewFailoverState 3 False" "''openai''"]
  show ?thesis by (simp add: exampleError_def liveContext_def)
qed

end
