(* ===== verification/AbuseLimiter.thy ===== *)
theory AbuseLimiter
  imports Transitions "HOL-Library.AList"
begin

text \<open>
  The limiter for invalid API keys, \<^verbatim>\<open>backend/internal/service/invalid_auth_abuse_limiter.go\<close>:
  failures per client are counted in a window in one of sixteen shards, a client that reaches
  the threshold is blocked, the number of tracked clients is capped, and the failures of
  clients that find no room are counted together.

  \<^verbatim>\<open>check\<close> and \<^verbatim>\<open>record\<close> are modelled as atomic operations on the limiter's state: the
  parts under a shard's mutex are, and the atomic counters between them are read and written
  in program order. The instant \<^verbatim>\<open>l.now()\<close> is an argument.
\<close>

section \<open>State\<close>

record invalidAuthAbuseEntry =
  ae_failures :: int
  ae_windowStart :: gotime
  ae_blockedUntil :: gotime  \<comment> \<open>0, the zero time, when never blocked\<close>

type_synonym abuseShard = "(string \<times> invalidAuthAbuseEntry) list"

record invalidAuthAbuseLimiter =
  al_threshold :: int
  al_window :: duration
  al_block :: duration
  al_capacity :: int
  al_shards :: "abuseShard list"
  al_overflow :: invalidAuthAbuseEntry
  al_tracked :: int
  al_recorded :: "64 word"
  al_blocked :: "64 word"
  al_rejected :: "64 word"
  al_expired :: "64 word"
  al_overflowed :: "64 word"
  al_globalBlocked :: "64 word"
  al_cleanupNext :: int
  al_cleanupCursor :: "32 word"

record InvalidAbuseConfig =
  cfg_Enabled :: bool
  cfg_Threshold :: int
  cfg_WindowSeconds :: int
  cfg_BlockSeconds :: int
  cfg_Capacity :: int

definition invalidAuthAbuseShardCount :: nat where "invalidAuthAbuseShardCount = 16"

definition zeroEntry :: invalidAuthAbuseEntry where
  "zeroEntry = \<lparr>ae_failures = 0, ae_windowStart = 0, ae_blockedUntil = 0\<rparr>"

definition newInvalidAuthAbuseLimiter :: "InvalidAbuseConfig option \<Rightarrow> invalidAuthAbuseLimiter option" where
  "newInvalidAuthAbuseLimiter cfg =
     (case cfg of None \<Rightarrow> None
      | Some c \<Rightarrow>
          if \<not> cfg_Enabled c then None
          else if cfg_Threshold c \<le> 0 \<or> cfg_WindowSeconds c \<le> 0 \<or> cfg_BlockSeconds c \<le> 0 \<or> cfg_Capacity c \<le> 0
          then None
          else Some \<lparr>al_threshold = cfg_Threshold c,
                     al_window = wrap64 (cfg_WindowSeconds c * second),
                     al_block = wrap64 (cfg_BlockSeconds c * second),
                     al_capacity = cfg_Capacity c,
                     al_shards = replicate invalidAuthAbuseShardCount [],
                     al_overflow = zeroEntry,
                     al_tracked = 0, al_recorded = 0, al_blocked = 0, al_rejected = 0, al_expired = 0,
                     al_overflowed = 0, al_globalBlocked = 0, al_cleanupNext = 0, al_cleanupCursor = 0\<rparr>)"

section \<open>Operations\<close>

definition entryExpired :: "invalidAuthAbuseLimiter \<Rightarrow> invalidAuthAbuseEntry \<Rightarrow> gotime \<Rightarrow> bool" where
  "entryExpired l e now \<longleftrightarrow>
     \<not> now < ae_blockedUntil e \<and> \<not> now < ae_windowStart e \<and> \<not> now < ae_windowStart e + al_window l"

text \<open>FNV-1a over the bytes of the key.\<close>

definition shardHash :: "string \<Rightarrow> 32 word" where
  "shardHash clientKey =
     foldl (\<lambda>h c. (xor h (of_nat (of_char c))) * 16777619) 2166136261 clientKey"

definition shardIndex :: "string \<Rightarrow> nat" where
  "shardIndex clientKey = unat (shardHash clientKey mod of_nat invalidAuthAbuseShardCount)"

definition shardOf :: "invalidAuthAbuseLimiter \<Rightarrow> string \<Rightarrow> abuseShard" where
  "shardOf l clientKey = al_shards l ! shardIndex clientKey"

definition setShard :: "invalidAuthAbuseLimiter \<Rightarrow> nat \<Rightarrow> abuseShard \<Rightarrow> invalidAuthAbuseLimiter" where
  "setShard l i sh = l\<lparr>al_shards := (al_shards l)[i := sh]\<rparr>"

text \<open>\<^verbatim>\<open>t.UnixNano()\<close>: nanoseconds since 1970, in an \<^verbatim>\<open>int64\<close>.\<close>

definition UnixNano :: "gotime \<Rightarrow> int" where
  "UnixNano t = wrap64 (t - 62135596800 * second)"

definition maybeCleanupAtCapacity :: "invalidAuthAbuseLimiter \<Rightarrow> gotime \<Rightarrow> invalidAuthAbuseLimiter" where
  "maybeCleanupAtCapacity l now =
     (if al_tracked l < al_capacity l then l
      else if UnixNano now < al_cleanupNext l then l
      else let index = al_cleanupCursor l;
               i = unat (index mod of_nat invalidAuthAbuseShardCount);
               kept = filter (\<lambda>(key, e). \<not> entryExpired l e now) (al_shards l ! i);
               n = length (al_shards l ! i) - length kept
           in (setShard l i kept)\<lparr>al_cleanupNext := UnixNano (now + 100 * millisecond),
                al_cleanupCursor := index + 1,
                al_tracked := al_tracked l - int n,
                al_expired := al_expired l + of_nat n\<rparr>)"

text \<open>The common start of \<^verbatim>\<open>check\<close> and \<^verbatim>\<open>record\<close>: drop the client's entry when it has expired.\<close>

definition dropExpired :: "invalidAuthAbuseLimiter \<Rightarrow> string \<Rightarrow> gotime \<Rightarrow> invalidAuthAbuseLimiter" where
  "dropExpired l clientKey now =
     (case map_of (shardOf l clientKey) clientKey of
        None \<Rightarrow> l
      | Some e \<Rightarrow>
          if entryExpired l e now
          then (setShard l (shardIndex clientKey) (AList.delete clientKey (shardOf l clientKey)))
                 \<lparr>al_tracked := al_tracked l - 1, al_expired := al_expired l + 1\<rparr>
          else l)"

definition checkOverflow :: "invalidAuthAbuseLimiter \<Rightarrow> gotime \<Rightarrow> duration \<times> bool" where
  "checkOverflow l now =
     (if now < ae_blockedUntil (al_overflow l) then (ae_blockedUntil (al_overflow l) - now, True)
      else (0, False))"

definition check :: "invalidAuthAbuseLimiter \<Rightarrow> string \<Rightarrow> gotime \<Rightarrow> (duration \<times> bool) \<times> invalidAuthAbuseLimiter" where
  "check l0 clientKey now =
     (if clientKey = [] then ((0, False), l0)
      else let l = dropExpired (maybeCleanupAtCapacity l0 now) clientKey now in
      case map_of (shardOf l clientKey) clientKey of
        Some e \<Rightarrow>
          if now < ae_blockedUntil e
          then ((ae_blockedUntil e - now, True), l\<lparr>al_rejected := al_rejected l + 1\<rparr>)
          else ((0, False), l)
      | None \<Rightarrow>
          if al_tracked l \<ge> al_capacity l \<and> snd (checkOverflow l now)
          then (checkOverflow l now,
                l\<lparr>al_rejected := al_rejected l + 1, al_globalBlocked := al_globalBlocked l + 1\<rparr>)
          else ((0, False), l))"

definition reserveEntry :: "invalidAuthAbuseLimiter \<Rightarrow> bool \<times> invalidAuthAbuseLimiter" where
  "reserveEntry l =
     (if al_tracked l \<ge> al_capacity l then (False, l)
      else (True, l\<lparr>al_tracked := al_tracked l + 1\<rparr>))"

definition recordOverflow :: "invalidAuthAbuseLimiter \<Rightarrow> gotime \<Rightarrow> invalidAuthAbuseLimiter" where
  "recordOverflow l0 now =
     (let l = l0\<lparr>al_overflowed := al_overflowed l0 + 1\<rparr>; e = al_overflow l in
      if now < ae_blockedUntil e then l
      else let e = (if ae_windowStart e = 0 \<or> \<not> now < ae_windowStart e + al_window l
                    then e\<lparr>ae_windowStart := now, ae_failures := 0\<rparr> else e);
               e = e\<lparr>ae_failures := ae_failures e + 1\<rparr> in
      if ae_failures e \<ge> al_threshold l
      then l\<lparr>al_overflow := \<lparr>ae_failures = 0, ae_windowStart = now + al_block l, ae_blockedUntil = now + al_block l\<rparr>,
             al_blocked := al_blocked l + 1\<rparr>
      else l\<lparr>al_overflow := e\<rparr>)"

text \<open>Count one failure on a tracked entry: the new entry and whether the client is now blocked.\<close>

definition countFailure :: "invalidAuthAbuseLimiter \<Rightarrow> invalidAuthAbuseEntry \<Rightarrow> gotime \<Rightarrow> invalidAuthAbuseEntry \<times> bool" where
  "countFailure l e0 now =
     (if now < ae_blockedUntil e0 then (e0, False)
      else let e = (if now < ae_windowStart e0 \<or> \<not> now < ae_windowStart e0 + al_window l
                    then e0\<lparr>ae_windowStart := now, ae_failures := 0\<rparr> else e0);
               e = e\<lparr>ae_failures := ae_failures e + 1\<rparr> in
      if ae_failures e \<ge> al_threshold l
      then (\<lparr>ae_failures = 0, ae_windowStart = now + al_block l, ae_blockedUntil = now + al_block l\<rparr>, True)
      else (e, False))"

definition storeEntry :: "invalidAuthAbuseLimiter \<Rightarrow> string \<Rightarrow> invalidAuthAbuseEntry \<times> bool \<Rightarrow> invalidAuthAbuseLimiter" where
  "storeEntry l clientKey r =
     (setShard l (shardIndex clientKey) (AList.update clientKey (fst r) (shardOf l clientKey)))
       \<lparr>al_blocked := al_blocked l + (if snd r then 1 else 0)\<rparr>"

definition record_failure :: "invalidAuthAbuseLimiter \<Rightarrow> string \<Rightarrow> gotime \<Rightarrow> invalidAuthAbuseLimiter" where
  "record_failure l0 clientKey now =
     (if clientKey = [] then l0
      else let l1 = l0\<lparr>al_recorded := al_recorded l0 + 1\<rparr>;
               l = dropExpired (maybeCleanupAtCapacity l1 now) clientKey now in
      case map_of (shardOf l clientKey) clientKey of
        Some e \<Rightarrow> storeEntry l clientKey (countFailure l e now)
      | None \<Rightarrow>
          (case reserveEntry l of
             (False, l) \<Rightarrow> recordOverflow l now
           | (True, l) \<Rightarrow> storeEntry l clientKey (countFailure l (zeroEntry\<lparr>ae_windowStart := now\<rparr>) now)))"

record InvalidAuthAbuseHealth =
  h_Enabled :: bool
  h_Tracked :: int
  h_Capacity :: int
  h_Recorded :: "64 word"
  h_Blocks :: "64 word"
  h_Rejected :: "64 word"
  h_Expired :: "64 word"
  h_Overflowed :: "64 word"
  h_GlobalBlocked :: "64 word"

definition health :: "invalidAuthAbuseLimiter \<Rightarrow> InvalidAuthAbuseHealth" where
  "health l = \<lparr>h_Enabled = True, h_Tracked = al_tracked l, h_Capacity = al_capacity l,
     h_Recorded = al_recorded l, h_Blocks = al_blocked l, h_Rejected = al_rejected l,
     h_Expired = al_expired l, h_Overflowed = al_overflowed l, h_GlobalBlocked = al_globalBlocked l\<rparr>"

text \<open>The entry points on the API key service; \<^const>\<open>None\<close> is a disabled limiter.\<close>

definition CheckInvalidAuthAbuse ::
  "invalidAuthAbuseLimiter option \<Rightarrow> string \<Rightarrow> gotime \<Rightarrow> (duration \<times> bool) \<times> invalidAuthAbuseLimiter option" where
  "CheckInvalidAuthAbuse s clientKey now =
     (case s of None \<Rightarrow> ((0, False), None)
      | Some l \<Rightarrow> (case check l clientKey now of (r, l') \<Rightarrow> (r, Some l')))"

definition RecordInvalidAuthFailure ::
  "invalidAuthAbuseLimiter option \<Rightarrow> string \<Rightarrow> gotime \<Rightarrow> invalidAuthAbuseLimiter option" where
  "RecordInvalidAuthFailure s clientKey now = map_option (\<lambda>l. record_failure l clientKey now) s"

section \<open>Invariant\<close>

text \<open>
  Every tracked client sits once, in the shard its key hashes to; \<open>tracked\<close> counts the entries
  of all shards and stays within the capacity; a failure count below the threshold is all an
  entry (or the overflow counter) ever holds.
\<close>

definition entryOk :: "int \<Rightarrow> invalidAuthAbuseEntry \<Rightarrow> bool" where
  "entryOk threshold e \<longleftrightarrow> 0 \<le> ae_failures e \<and> ae_failures e < threshold"

definition shardOk :: "int \<Rightarrow> nat \<Rightarrow> abuseShard \<Rightarrow> bool" where
  "shardOk threshold i sh \<longleftrightarrow> distinct (map fst sh) \<and>
     (\<forall>(key, e) \<in> set sh. shardIndex key = i \<and> entryOk threshold e)"

definition entryCount :: "invalidAuthAbuseLimiter \<Rightarrow> int" where
  "entryCount l = (\<Sum>sh \<leftarrow> al_shards l. int (length sh))"

definition abuseInv :: "invalidAuthAbuseLimiter \<Rightarrow> bool" where
  "abuseInv l \<longleftrightarrow> 0 < al_threshold l \<and> 0 < al_capacity l \<and> length (al_shards l) = invalidAuthAbuseShardCount \<and>
     (\<forall>i < invalidAuthAbuseShardCount. shardOk (al_threshold l) i (al_shards l ! i)) \<and>
     al_tracked l = entryCount l \<and> al_tracked l \<le> al_capacity l \<and>
     entryOk (al_threshold l) (al_overflow l)"

lemma mod16_less: "unat ((w :: 32 word) mod of_nat invalidAuthAbuseShardCount) < invalidAuthAbuseShardCount"
  by (simp add: invalidAuthAbuseShardCount_def unat_mod)

lemma shardIndex_less [simp]: "shardIndex k < invalidAuthAbuseShardCount"
  unfolding shardIndex_def by (rule mod16_less)

lemma setShard_simps [simp]:
  "al_threshold (setShard l i sh) = al_threshold l" "al_window (setShard l i sh) = al_window l"
  "al_block (setShard l i sh) = al_block l" "al_capacity (setShard l i sh) = al_capacity l"
  "al_shards (setShard l i sh) = (al_shards l)[i := sh]" "al_overflow (setShard l i sh) = al_overflow l"
  "al_tracked (setShard l i sh) = al_tracked l"
  by (simp_all add: setShard_def)

lemma entryCount_update:
  assumes "i < length (al_shards l)"
  shows "(\<Sum>sh \<leftarrow> (al_shards l)[i := sh']. int (length sh)) =
    entryCount l + int (length sh') - int (length (al_shards l ! i))"
  using assms by (simp add: entryCount_def map_update sum_list_update_int)

lemma abuseInvD:
  assumes "abuseInv l"
  shows "0 < al_threshold l" "0 < al_capacity l" "length (al_shards l) = invalidAuthAbuseShardCount"
    "i < invalidAuthAbuseShardCount \<Longrightarrow> shardOk (al_threshold l) i (al_shards l ! i)"
    "al_tracked l = entryCount l" "al_tracked l \<le> al_capacity l" "entryOk (al_threshold l) (al_overflow l)"
  using assms by (auto simp: abuseInv_def)

text \<open>Replacing one shard keeps the invariant when \<open>tracked\<close> follows its size.\<close>

lemma abuseInv_setShard:
  assumes inv: "abuseInv l" and i: "i < invalidAuthAbuseShardCount" and ok: "shardOk (al_threshold l) i sh"
    and l': "al_shards l' = (al_shards l)[i := sh]" "al_threshold l' = al_threshold l"
      "al_capacity l' = al_capacity l" "al_overflow l' = al_overflow l"
      "al_tracked l' = al_tracked l + int (length sh) - int (length (al_shards l ! i))"
      "al_tracked l' \<le> al_capacity l"
  shows "abuseInv l'"
proof -
  note d = abuseInvD [OF inv]
  have "entryCount l' = entryCount l + int (length sh) - int (length (al_shards l ! i))"
    using entryCount_update [of i l sh] i d(3) by (simp add: entryCount_def l'(1))
  moreover have "shardOk (al_threshold l) j ((al_shards l)[i := sh] ! j)" if "j < invalidAuthAbuseShardCount" for j
    using that d(3) d(4) [of j] ok by (cases "j = i") auto
  ultimately show ?thesis using d l' by (simp add: abuseInv_def)
qed

lemma length_delete_key:
  assumes "distinct (map fst sh)" "map_of sh k = Some e"
  shows "int (length (AList.delete k sh)) = int (length sh) - 1"
  using assms
proof (induction sh)
  case (Cons p sh)
  show ?case
  proof (cases "fst p = k")
    case True
    with Cons.prems have "AList.delete k sh = sh" by (auto intro!: filter_True simp: AList.delete_eq) (metis fst_conv image_eqI)
    with True show ?thesis by (simp add: AList.delete_eq split_def)
  next
    case False
    with Cons show ?thesis by (auto simp: AList.delete_eq split_def)
  qed
qed simp

lemma length_update_key:
  "length (AList.update k e sh) = (if map_of sh k = None then Suc (length sh) else length sh)"
  by (induction sh) (auto split: if_splits)

lemma shardOk_delete: "shardOk t i sh \<Longrightarrow> shardOk t i (AList.delete k sh)"
  by (auto simp: shardOk_def AList.delete_eq distinct_map_filter split: prod.splits)

lemma shardOk_filter: "shardOk t i sh \<Longrightarrow> shardOk t i (filter P sh)"
  by (auto simp: shardOk_def distinct_map_filter)

lemma shardOk_update: "shardOk t (shardIndex k) sh \<Longrightarrow> entryOk t e \<Longrightarrow> shardOk t (shardIndex k) (AList.update k e sh)"
proof -
  assume sh: "shardOk t (shardIndex k) sh" and e: "entryOk t e"
  have "set (AList.update k e sh) \<subseteq> insert (k, e) (set sh)" by (induction sh) auto
  with sh e show ?thesis by (fastforce simp: shardOk_def AList.distinct_update)
qed

section \<open>The operations keep the invariant\<close>

lemma cleanup_inv: "abuseInv l \<Longrightarrow> abuseInv (maybeCleanupAtCapacity l now)"
proof -
  assume inv: "abuseInv l"
  note d = abuseInvD [OF inv]
  define i where "i = unat (al_cleanupCursor l mod of_nat invalidAuthAbuseShardCount)"
  have i: "i < invalidAuthAbuseShardCount" unfolding i_def by (rule mod16_less)
  show ?thesis
  proof (cases "al_tracked l < al_capacity l \<or> UnixNano now < al_cleanupNext l")
    case True
    with inv show ?thesis by (auto simp: maybeCleanupAtCapacity_def)
  next
    case False
    let ?kept = "filter (\<lambda>(key, e). \<not> entryExpired l e now) (al_shards l ! i)"
    have len: "length ?kept \<le> length (al_shards l ! i)" by simp
    show ?thesis
    proof (rule abuseInv_setShard [OF inv i])
      show "shardOk (al_threshold l) i ?kept" using d(4) [OF i] by (rule shardOk_filter)
    qed (use False len d(6) in \<open>auto simp: maybeCleanupAtCapacity_def Let_def of_nat_diff simp flip: i_def\<close>)
  qed
qed

lemma dropExpired_inv: "abuseInv l \<Longrightarrow> abuseInv (dropExpired l k now)"
proof -
  assume inv: "abuseInv l"
  note d = abuseInvD [OF inv]
  have ok: "shardOk (al_threshold l) (shardIndex k) (shardOf l k)" using d(4) by (simp add: shardOf_def)
  show ?thesis
  proof (cases "map_of (shardOf l k) k")
    case (Some e)
    with ok have len: "int (length (AList.delete k (shardOf l k))) = int (length (shardOf l k)) - 1"
      by (intro length_delete_key) (auto simp: shardOk_def)
    show ?thesis
    proof (cases "entryExpired l e now")
      case True
      show ?thesis
        by (rule abuseInv_setShard [OF inv shardIndex_less shardOk_delete [OF ok]])
          (use Some True len d(6) in \<open>auto simp: dropExpired_def simp flip: shardOf_def\<close>)
    next
      case False
      with Some inv show ?thesis by (simp add: dropExpired_def)
    qed
  next
    case None
    with inv show ?thesis by (simp add: dropExpired_def)
  qed
qed

lemma abuseInv_cong:
  assumes "abuseInv l" "al_threshold l' = al_threshold l" "al_capacity l' = al_capacity l"
    "al_shards l' = al_shards l" "al_tracked l' = al_tracked l" "al_overflow l' = al_overflow l"
  shows "abuseInv l'"
  using assms by (simp add: abuseInv_def entryCount_def)

lemma check_inv: "abuseInv l \<Longrightarrow> abuseInv (snd (check l k now))"
proof -
  assume "abuseInv l"
  then have "abuseInv (dropExpired (maybeCleanupAtCapacity l now) k now)"
    by (intro dropExpired_inv cleanup_inv)
  with \<open>abuseInv l\<close> show ?thesis
    by (auto simp: check_def Let_def split: option.split intro: abuseInv_cong)
qed

lemma countFailure_ok: "0 < al_threshold l \<Longrightarrow> entryOk (al_threshold l) e \<Longrightarrow> entryOk (al_threshold l) (fst (countFailure l e now))"
  by (auto simp: countFailure_def entryOk_def Let_def)

lemma recordOverflow_inv: "abuseInv l \<Longrightarrow> abuseInv (recordOverflow l now)"
  by (auto simp: recordOverflow_def abuseInv_def entryOk_def entryCount_def Let_def)

lemma storeEntry_inv:
  assumes inv: "abuseInv l" and r: "entryOk (al_threshold l) (fst r)"
    and l': "al_shards l' = al_shards l" "al_threshold l' = al_threshold l" "al_capacity l' = al_capacity l"
      "al_overflow l' = al_overflow l"
      "al_tracked l' = al_tracked l + (if map_of (shardOf l k) k = None then 1 else 0)"
      "al_tracked l' \<le> al_capacity l"
  shows "abuseInv (storeEntry l' k r)"
proof -
  have ok: "shardOk (al_threshold l) (shardIndex k) (shardOf l k)"
    using abuseInvD(4) [OF inv, of "shardIndex k"] by (simp add: shardOf_def)
  have "shardOf l' k = shardOf l k" by (simp add: shardOf_def l')
  then show ?thesis
    by (intro abuseInv_setShard [OF inv shardIndex_less shardOk_update [OF ok r]])
      (use l' in \<open>auto simp: storeEntry_def length_update_key simp flip: shardOf_def\<close>)
qed

lemma record_inv: "abuseInv l \<Longrightarrow> abuseInv (record_failure l k now)"
proof -
  assume inv: "abuseInv l"
  define l1 where "l1 = dropExpired (maybeCleanupAtCapacity (l\<lparr>al_recorded := al_recorded l + 1\<rparr>) now) k now"
  have "abuseInv (l\<lparr>al_recorded := al_recorded l + 1\<rparr>)" using inv by (rule abuseInv_cong) simp_all
  then have inv1: "abuseInv l1" unfolding l1_def by (intro dropExpired_inv cleanup_inv)
  note d = abuseInvD [OF inv1]
  have ok: "shardOk (al_threshold l1) (shardIndex k) (shardOf l1 k)" using d(4) by (simp add: shardOf_def)
  show ?thesis
  proof (cases "map_of (shardOf l1 k) k")
    case (Some e)
    then have "(k, e) \<in> set (shardOf l1 k)" by (rule map_of_SomeD)
    with ok have "entryOk (al_threshold l1) e" by (auto simp: shardOk_def)
    then have "abuseInv (storeEntry l1 k (countFailure l1 e now))"
      using Some d by (intro storeEntry_inv [OF inv1] countFailure_ok) auto
    with Some inv show ?thesis by (auto simp: record_failure_def Let_def simp flip: l1_def)
  next
    case None
    let ?l2 = "l1\<lparr>al_tracked := al_tracked l1 + 1\<rparr>"
    have "abuseInv (storeEntry ?l2 k (countFailure ?l2 (zeroEntry\<lparr>ae_windowStart := now\<rparr>) now))"
      if "al_tracked l1 < al_capacity l1"
      using that None d countFailure_ok [of ?l2 "zeroEntry\<lparr>ae_windowStart := now\<rparr>" now]
      by (intro storeEntry_inv [OF inv1]) (auto simp: entryOk_def zeroEntry_def)
    with None inv recordOverflow_inv [OF inv1] show ?thesis
      by (auto simp: record_failure_def reserveEntry_def Let_def simp flip: l1_def)
  qed
qed

datatype abuseEvent = Check string gotime | Record string gotime

fun abuseReact :: "invalidAuthAbuseLimiter \<Rightarrow> abuseEvent \<Rightarrow> invalidAuthAbuseLimiter" where
  "abuseReact l (Check k now) = snd (check l k now)"
| "abuseReact l (Record k now) = record_failure l k now"

lemma abuseReact_inv: "abuseInv l \<Longrightarrow> abuseInv (abuseReact l e)"
  by (cases e) (auto intro: check_inv record_inv)

interpretation limiter: event_machine abuseReact abuseInv "\<lambda>_. True"
  by unfold_locales (rule abuseReact_inv)

section \<open>What the operations do to one client\<close>

definition entryOf :: "invalidAuthAbuseLimiter \<Rightarrow> string \<Rightarrow> invalidAuthAbuseEntry option" where
  "entryOf l k = map_of (shardOf l k) k"

definition sameConfig :: "invalidAuthAbuseLimiter \<Rightarrow> invalidAuthAbuseLimiter \<Rightarrow> bool" where
  "sameConfig l l' \<longleftrightarrow> al_threshold l' = al_threshold l \<and> al_window l' = al_window l \<and>
     al_block l' = al_block l \<and> al_capacity l' = al_capacity l"

lemma sameConfig_refl [simp]: "sameConfig l l" by (simp add: sameConfig_def)

lemma sameConfig_trans: "sameConfig l1 l2 \<Longrightarrow> sameConfig l2 l3 \<Longrightarrow> sameConfig l1 l3"
  by (simp add: sameConfig_def)

lemma cleanup_config: "sameConfig l (maybeCleanupAtCapacity l now)"
  by (simp add: maybeCleanupAtCapacity_def sameConfig_def Let_def)

lemma dropExpired_config: "sameConfig l (dropExpired l k now)"
  by (simp add: dropExpired_def sameConfig_def split: option.split)

lemma prepare_config: "sameConfig l (dropExpired (maybeCleanupAtCapacity l now) k now)"
  by (rule sameConfig_trans [OF cleanup_config dropExpired_config])

lemma abuseReact_config: "sameConfig l (abuseReact l e)"
proof (cases e)
  case (Check k now)
  with prepare_config [of l now k] show ?thesis
    by (simp add: check_def sameConfig_def Let_def split: option.split)
next
  case (Record k now)
  with prepare_config [of "l\<lparr>al_recorded := al_recorded l + 1\<rparr>" now k] show ?thesis
    by (simp add: record_failure_def sameConfig_def storeEntry_def reserveEntry_def recordOverflow_def Let_def
        split: option.split)
qed

lemma abuseRun_config: "sameConfig l (foldl abuseReact l es)"
  by (induction es rule: rev_induct) (auto intro: sameConfig_trans abuseReact_config)

lemma entryOf_setShard:
  "length (al_shards l) = invalidAuthAbuseShardCount \<Longrightarrow> al_shards l' = (al_shards l)[i := sh] \<Longrightarrow>
   entryOf l' k = (if shardIndex k = i then map_of sh k else entryOf l k)"
  using shardIndex_less [of k] by (auto simp: entryOf_def shardOf_def)

lemma entryOf_cleanup:
  assumes inv: "abuseInv l"
  shows "entryOf (maybeCleanupAtCapacity l now) k = entryOf l k \<or>
    (\<exists>e. entryOf l k = Some e \<and> entryExpired l e now \<and> entryOf (maybeCleanupAtCapacity l now) k = None)"
proof (cases "al_tracked l < al_capacity l \<or> UnixNano now < al_cleanupNext l")
  case True
  then show ?thesis by (auto simp: maybeCleanupAtCapacity_def)
next
  case False
  define i where "i = unat (al_cleanupCursor l mod of_nat invalidAuthAbuseShardCount)"
  have "distinct (map fst (shardOf l k))"
    using abuseInvD(4) [OF inv, of "shardIndex k"] by (simp add: shardOf_def shardOk_def)
  note filt = map_of_filter_distinct [OF this, of "\<lambda>(key, e). \<not> entryExpired l e now" k]
  have "entryOf (maybeCleanupAtCapacity l now) k =
      (if shardIndex k = i then map_of (filter (\<lambda>(key, e). \<not> entryExpired l e now) (al_shards l ! i)) k
       else entryOf l k)"
    by (rule entryOf_setShard [OF abuseInvD(3) [OF inv]])
      (use False in \<open>simp add: maybeCleanupAtCapacity_def Let_def i_def\<close>)
  with filt show ?thesis by (auto simp: entryOf_def shardOf_def split: option.splits)
qed

lemma entryOf_dropExpired:
  assumes "abuseInv l"
  shows "entryOf (dropExpired l k now) k' =
    (if k' = k then (case entryOf l k of None \<Rightarrow> None | Some e \<Rightarrow> if entryExpired l e now then None else Some e)
     else entryOf l k')"
proof (cases "\<exists>e. entryOf l k = Some e \<and> entryExpired l e now")
  case True
  then obtain e where e: "map_of (shardOf l k) k = Some e" "entryExpired l e now" by (auto simp: entryOf_def)
  have "entryOf (dropExpired l k now) k' =
      (if shardIndex k' = shardIndex k then map_of (AList.delete k (shardOf l k)) k' else entryOf l k')"
    by (rule entryOf_setShard [OF abuseInvD(3) [OF assms]]) (use e in \<open>simp add: dropExpired_def\<close>)
  with True show ?thesis by (auto simp: AList.delete_conv entryOf_def shardOf_def)
next
  case False
  then have "dropExpired l k now = l" by (auto simp: dropExpired_def entryOf_def split: option.splits)
  with False show ?thesis by (auto split: option.splits)
qed

text \<open>The first part of both operations, seen from one client.\<close>

lemma entryOf_prepare:
  assumes "abuseInv l"
  shows "entryOf (dropExpired (maybeCleanupAtCapacity l now) k now) k =
    (case entryOf l k of None \<Rightarrow> None | Some e \<Rightarrow> if entryExpired l e now then None else Some e)"
proof -
  have "entryExpired (maybeCleanupAtCapacity l now) e now = entryExpired l e now" for e
    using cleanup_config [of l now] by (simp add: entryExpired_def sameConfig_def)
  with entryOf_cleanup [OF assms, of now k] entryOf_dropExpired [OF cleanup_inv [OF assms], of now k now k]
  show ?thesis by (cases "entryOf l k") auto
qed

lemma entryOf_prepare_other:
  assumes "abuseInv l" "k' \<noteq> k"
  shows "entryOf (dropExpired (maybeCleanupAtCapacity l now) k now) k' = entryOf l k' \<or>
    (\<exists>e. entryOf l k' = Some e \<and> entryExpired l e now \<and>
      entryOf (dropExpired (maybeCleanupAtCapacity l now) k now) k' = None)"
  using entryOf_cleanup [OF assms(1), of now k'] entryOf_dropExpired [OF cleanup_inv [OF assms(1)], of now k now k'] assms(2)
  by auto

lemma entryOf_storeEntry:
  "abuseInv l \<Longrightarrow> al_shards l' = al_shards l \<Longrightarrow>
   entryOf (storeEntry l' k r) k' = (if k' = k then Some (fst r) else entryOf l k')"
  using entryOf_setShard [OF abuseInvD(3), of l "storeEntry l' k r" "shardIndex k" "AList.update k (fst r) (shardOf l k)" k']
  by (auto simp: storeEntry_def AList.update_conv' entryOf_def shardOf_def)

lemma countFailure_config: "sameConfig l l' \<Longrightarrow> countFailure l' e now = countFailure l e now"
  by (simp add: countFailure_def sameConfig_def Let_def)

lemma record_entry:
  assumes "abuseInv l" "k \<noteq> []"
  shows "entryOf l k = Some e \<Longrightarrow> \<not> entryExpired l e now \<Longrightarrow>
      entryOf (record_failure l k now) k = Some (fst (countFailure l e now))"
    and "entryOf l k = None \<Longrightarrow> al_tracked l < al_capacity l \<Longrightarrow>
      entryOf (record_failure l k now) k = Some (fst (countFailure l (zeroEntry\<lparr>ae_windowStart := now\<rparr>) now))"
proof -
  let ?l0 = "l\<lparr>al_recorded := al_recorded l + 1\<rparr>"
  define l1 where "l1 = dropExpired (maybeCleanupAtCapacity ?l0 now) k now"
  have inv0: "abuseInv ?l0" using assms(1) by (rule abuseInv_cong) simp_all
  then have inv1: "abuseInv l1" unfolding l1_def by (intro dropExpired_inv cleanup_inv)
  have e0: "entryOf ?l0 k = entryOf l k" "entryExpired ?l0 = entryExpired l"
    by (auto simp: entryOf_def shardOf_def entryExpired_def fun_eq_iff)
  note prep = entryOf_prepare [OF inv0, of now k, folded l1_def, unfolded e0]
  have conf: "sameConfig l l1"
    using prepare_config [of ?l0 now k] by (simp add: l1_def sameConfig_def)
  note count = countFailure_config [OF conf]
  show "entryOf (record_failure l k now) k = Some (fst (countFailure l e now))"
    if "entryOf l k = Some e" "\<not> entryExpired l e now"
  proof -
    from that prep have "map_of (shardOf l1 k) k = Some e" by (simp add: entryOf_def)
    with assms(2) have "record_failure l k now = storeEntry l1 k (countFailure l1 e now)"
      by (simp add: record_failure_def Let_def flip: l1_def)
    with entryOf_storeEntry [OF inv1 refl] count show ?thesis by simp
  qed
  show "entryOf (record_failure l k now) k = Some (fst (countFailure l (zeroEntry\<lparr>ae_windowStart := now\<rparr>) now))"
    if none: "entryOf l k = None" and room: "al_tracked l < al_capacity l"
  proof -
    let ?l2 = "l1\<lparr>al_tracked := al_tracked l1 + 1\<rparr>" and ?e = "zeroEntry\<lparr>ae_windowStart := now\<rparr>"
    from room have "maybeCleanupAtCapacity ?l0 now = ?l0" by (simp add: maybeCleanupAtCapacity_def)
    with none have "l1 = ?l0" by (simp add: l1_def dropExpired_def entryOf_def shardOf_def)
    with room none assms(2) have "record_failure l k now = storeEntry ?l2 k (countFailure ?l2 ?e now)"
      by (simp add: record_failure_def reserveEntry_def entryOf_def shardOf_def Let_def flip: l1_def)
    moreover have "countFailure ?l2 ?e now = countFailure l ?e now"
      by (rule countFailure_config) (use conf in \<open>simp add: sameConfig_def\<close>)
    ultimately show ?thesis using entryOf_storeEntry [OF inv1, of ?l2 k] by simp
  qed
qed

lemma check_entry:
  assumes "abuseInv l" "k \<noteq> []" "entryOf l k = Some e" "\<not> entryExpired l e now"
  shows "fst (check l k now) = (if now < ae_blockedUntil e then (ae_blockedUntil e - now, True) else (0, False))"
proof -
  from entryOf_prepare [OF assms(1), of now k] assms(3,4)
  have "map_of (shardOf (dropExpired (maybeCleanupAtCapacity l now) k now) k) k = Some e"
    by (simp add: entryOf_def)
  with assms(2) show ?thesis by (simp add: check_def Let_def)
qed

text \<open>The failures of one client within its first window, counted one by one.\<close>

lemma failures_in_window:
  assumes "abuseInv l" "k \<noteq> []" "entryOf l k = None" "al_tracked l < al_capacity l" "0 \<le> t0"
    and "list_all (\<lambda>t. t0 \<le> t \<and> t < t0 + al_window l) ts"
    and "int (Suc (length ts)) \<le> al_threshold l"
    and "0 < al_window l"
  shows "let l' = foldl (\<lambda>l t. record_failure l k t) l (t0 # ts) in
    abuseInv l' \<and> sameConfig l l' \<and> entryOf l' k = Some
      (if int (Suc (length ts)) < al_threshold l
       then \<lparr>ae_failures = int (Suc (length ts)), ae_windowStart = t0, ae_blockedUntil = 0\<rparr>
       else \<lparr>ae_failures = 0, ae_windowStart = last (t0 # ts) + al_block l,
             ae_blockedUntil = last (t0 # ts) + al_block l\<rparr>)"
  using assms(6,7)
proof (induction ts rule: rev_induct)
  case Nil
  have "sameConfig l (record_failure l k t0)" using abuseReact_config [of l "Record k t0"] by simp
  moreover have "fst (countFailure l (zeroEntry\<lparr>ae_windowStart := t0\<rparr>) t0) =
      (if 1 < al_threshold l then \<lparr>ae_failures = 1, ae_windowStart = t0, ae_blockedUntil = 0\<rparr>
       else \<lparr>ae_failures = 0, ae_windowStart = t0 + al_block l, ae_blockedUntil = t0 + al_block l\<rparr>)"
    using assms(5,8) by (simp add: countFailure_def zeroEntry_def Let_def)
  ultimately show ?case using record_inv [OF assms(1)] record_entry(2) [OF assms(1-4)] by (simp add: Let_def)
next
  case (snoc t ts)
  define l1 where "l1 = foldl (\<lambda>l t. record_failure l k t) l (t0 # ts)"
  define e where "e = \<lparr>ae_failures = int (Suc (length ts)), ae_windowStart = t0, ae_blockedUntil = 0\<rparr>"
  from snoc have l1: "abuseInv l1" "sameConfig l l1" "entryOf l1 k = Some e"
    by (auto simp: l1_def e_def Let_def)
  from snoc.prems have t: "t0 \<le> t" "t < t0 + al_window l" by auto
  with l1(2) have "\<not> entryExpired l1 e t" by (simp add: entryExpired_def sameConfig_def e_def)
  from record_entry(1) [OF l1(1) assms(2) l1(3) this]
  have entry: "entryOf (record_failure l1 k t) k = Some (fst (countFailure l e t))"
    by (simp add: countFailure_config [OF l1(2)])
  have count: "fst (countFailure l e t) =
      (if int (Suc (length (ts @ [t]))) < al_threshold l
       then \<lparr>ae_failures = int (Suc (length (ts @ [t]))), ae_windowStart = t0, ae_blockedUntil = 0\<rparr>
       else \<lparr>ae_failures = 0, ae_windowStart = t + al_block l, ae_blockedUntil = t + al_block l\<rparr>)"
    using t assms(5) by (simp add: countFailure_def e_def Let_def)
  have "foldl (\<lambda>l t. record_failure l k t) l (t0 # ts @ [t]) = record_failure l1 k t" by (simp add: l1_def)
  moreover have "sameConfig l (record_failure l1 k t)"
    using sameConfig_trans [OF l1(2)] abuseReact_config [of l1 "Record k t"] by simp
  ultimately show ?case using record_inv [OF l1(1), of k t] entry count by (simp only: Let_def) simp
qed

section \<open>Properties\<close>

lemma new_limiter_inv: "newInvalidAuthAbuseLimiter (Some cfg) = Some l \<Longrightarrow> abuseInv l"
  by (auto simp: newInvalidAuthAbuseLimiter_def abuseInv_def shardOk_def entryCount_def
      entryOk_def zeroEntry_def sum_list_replicate split: if_splits)

text \<open>
  Every history of checks and recorded failures leaves the limiter consistent:
  \<open>tracked\<close> is the number of entries in the sixteen shards, it never exceeds the configured
  capacity, each client has at most one entry, in the shard its key hashes to, and no entry
  holds the threshold or more failures.
\<close>

theorem abuse_tracking_consistent:
  assumes "newInvalidAuthAbuseLimiter (Some cfg) = Some l0"
  shows "abuseInv (foldl abuseReact l0 events) \<and>
    al_tracked (foldl abuseReact l0 events) \<le> cfg_Capacity cfg"
proof -
  have "abuseInv l0" using assms by (rule new_limiter_inv)
  then have inv: "abuseInv (foldl abuseReact l0 events)"
    by (rule limiter.react_run) (simp add: list_all_iff)
  moreover have "al_capacity l0 = cfg_Capacity cfg"
    using assms by (auto simp: newInvalidAuthAbuseLimiter_def split: if_splits)
  ultimately show ?thesis
    using abuseRun_config [of l0 events] abuseInvD(6) [OF inv] by (simp add: sameConfig_def)
qed

definition exampleAbuseConfig :: InvalidAbuseConfig where
  "exampleAbuseConfig = \<lparr>cfg_Enabled = True, cfg_Threshold = 2, cfg_WindowSeconds = 60,
     cfg_BlockSeconds = 30, cfg_Capacity = 1\<rparr>"

theorem abuse_tracking_consistent_witness:
  "\<exists>l0. newInvalidAuthAbuseLimiter (Some exampleAbuseConfig) = Some l0 \<and>
    (let l = foldl abuseReact l0 [Record ''a'' second, Record ''b'' second] in
     abuseInv l \<and> al_tracked l \<le> 1 \<and> al_overflowed l = 1)"
proof -
  obtain l0 where l0: "newInvalidAuthAbuseLimiter (Some exampleAbuseConfig) = Some l0"
    by (simp add: newInvalidAuthAbuseLimiter_def exampleAbuseConfig_def)
  moreover have "al_overflowed (foldl abuseReact (the (newInvalidAuthAbuseLimiter (Some exampleAbuseConfig)))
      [Record ''a'' second, Record ''b'' second]) = 1" by code_simp
  ultimately show ?thesis
    using abuse_tracking_consistent [OF l0, of "[Record ''a'' second, Record ''b'' second]"]
    by (simp add: Let_def exampleAbuseConfig_def)
qed

text \<open>
  (C34) A client with no entry, while the table has room for one, is blocked by its failures
  exactly when they reach the threshold: recorded within one window, fewer failures leave it accepted for
  the rest of the window, and the failure that reaches the threshold blocks it for the block
  time, with the remaining time reported.
\<close>

theorem abuse_blocks_at_threshold:
  assumes "abuseInv l" "k \<noteq> []" "entryOf l k = None" "al_tracked l < al_capacity l" "0 \<le> t0" "0 < al_window l"
    and "list_all (\<lambda>t. t0 \<le> t \<and> t < t0 + al_window l) ts"
    and "int (Suc (length ts)) \<le> al_threshold l"
    and "if int (Suc (length ts)) < al_threshold l then t0 \<le> now \<and> now < t0 + al_window l
         else now < last (t0 # ts) + al_block l"
  shows "fst (check (foldl (\<lambda>l t. record_failure l k t) l (t0 # ts)) k now) =
    (if int (Suc (length ts)) < al_threshold l then (0, False)
     else (last (t0 # ts) + al_block l - now, True))"
proof -
  define l' where "l' = foldl (\<lambda>l t. record_failure l k t) l (t0 # ts)"
  have l': "abuseInv l'" "sameConfig l l'" "entryOf l' k = Some
      (if int (Suc (length ts)) < al_threshold l
       then \<lparr>ae_failures = int (Suc (length ts)), ae_windowStart = t0, ae_blockedUntil = 0\<rparr>
       else \<lparr>ae_failures = 0, ae_windowStart = last (t0 # ts) + al_block l,
             ae_blockedUntil = last (t0 # ts) + al_block l\<rparr>)" (is "_ = Some ?e")
    using failures_in_window [OF assms(1-5) assms(7,8,6)] by (simp_all only: l'_def Let_def)
  have "\<not> entryExpired l' ?e now"
    using assms(9) l'(2) by (simp add: entryExpired_def sameConfig_def split: if_splits)
  from check_entry [OF l'(1) assms(2) l'(3) this] assms(5,9) show ?thesis
    unfolding l'_def [symmetric] by (simp split: if_splits)
qed

theorem abuse_blocks_at_threshold_witness:
  "\<exists>l. newInvalidAuthAbuseLimiter (Some exampleAbuseConfig) = Some l \<and>
    fst (check (foldl (\<lambda>l t. record_failure l ''a'' t) l [second, 2 * second]) ''a'' (10 * second)) =
    (22 * second, True)"
proof -
  obtain l where l: "newInvalidAuthAbuseLimiter (Some exampleAbuseConfig) = Some l"
    by (simp add: newInvalidAuthAbuseLimiter_def exampleAbuseConfig_def)
  then have "al_threshold l = 2" "al_window l = 60 * second" "al_block l = 30 * second" "al_tracked l = 0"
    "al_capacity l = 1" "al_shards l = replicate 16 []" "al_overflow l = zeroEntry"
    by (auto simp: newInvalidAuthAbuseLimiter_def exampleAbuseConfig_def wrap64_def invalidAuthAbuseShardCount_def)
  moreover from this have "entryOf l ''a'' = None"
    using shardIndex_less [of "''a''"] by (simp add: entryOf_def shardOf_def invalidAuthAbuseShardCount_def)
  moreover have "abuseInv l" using l by (rule new_limiter_inv)
  ultimately show ?thesis
    using l abuse_blocks_at_threshold [of l "''a''" second "[2 * second]" "10 * second"] by simp
qed

text \<open>
  Clients do not disturb each other: an operation for one client leaves the entry of
  every other client as it is, or removes it because it has expired.
\<close>

theorem abuse_clients_isolated:
  assumes "abuseInv l" "k' \<noteq> k" "event = Check k now \<or> event = Record k now"
  shows "entryOf (abuseReact l event) k' = entryOf l k' \<or>
    (\<exists>e. entryOf l k' = Some e \<and> entryExpired l e now \<and> entryOf (abuseReact l event) k' = None)"
proof (cases "k = []")
  case True
  with assms(3) show ?thesis by (auto simp: check_def record_failure_def)
next
  case False
  define l0 where "l0 = (if event = Check k now then l else l\<lparr>al_recorded := al_recorded l + 1\<rparr>)"
  define l1 where "l1 = dropExpired (maybeCleanupAtCapacity l0 now) k now"
  have inv0: "abuseInv l0" using assms(1) by (rule abuseInv_cong) (simp_all add: l0_def)
  then have inv1: "abuseInv l1" unfolding l1_def by (intro dropExpired_inv cleanup_inv)
  have l0: "entryOf l0 k' = entryOf l k'" "entryExpired l0 = entryExpired l"
    by (auto simp: l0_def entryOf_def shardOf_def entryExpired_def fun_eq_iff)
  have shards: "al_shards l' = al_shards l1 \<Longrightarrow> entryOf l' k' = entryOf l1 k'" for l'
    by (simp add: entryOf_def shardOf_def)
  have "entryOf (abuseReact l event) k' = entryOf l1 k'"
  proof (cases "event = Check k now")
    case True
    with False have "al_shards (abuseReact l event) = al_shards l1"
      by (simp add: check_def l0_def l1_def Let_def split: option.split)
    then show ?thesis by (rule shards)
  next
    case rec: False
    have overflow: "al_shards (recordOverflow l1 now) = al_shards l1"
      by (simp add: recordOverflow_def Let_def)
    show ?thesis
      using rec assms(2,3) False entryOf_storeEntry [OF inv1, of _ k _ k'] shards [OF overflow]
      by (auto simp: record_failure_def reserveEntry_def l0_def l1_def Let_def split: option.split)
  qed
  with entryOf_prepare_other [OF inv0 assms(2), of now, folded l1_def] l0 show ?thesis by simp
qed

theorem abuse_clients_isolated_witness:
  "\<exists>l. newInvalidAuthAbuseLimiter (Some exampleAbuseConfig) = Some l \<and>
    (entryOf (abuseReact l (Record ''a'' second)) ''b'' = entryOf l ''b'' \<or>
     (\<exists>e. entryOf l ''b'' = Some e \<and> entryExpired l e second \<and>
        entryOf (abuseReact l (Record ''a'' second)) ''b'' = None))"
proof -
  obtain l where l: "newInvalidAuthAbuseLimiter (Some exampleAbuseConfig) = Some l"
    by (simp add: newInvalidAuthAbuseLimiter_def exampleAbuseConfig_def)
  then have "abuseInv l" by (rule new_limiter_inv)
  from l abuse_clients_isolated [OF this, of "''b''" "''a''" "Record ''a'' second" second] show ?thesis by simp
qed

end
