(* ===== verification/ImageLimiter.thy ===== *)
theory ImageLimiter
  imports Transitions
begin

text \<open>
  The image concurrency limiter, \<^verbatim>\<open>backend/internal/handler/image_concurrency_limiter.go\<close>: a
  counting semaphore whose limit each caller brings along, with a bounded number of waiters
  that are woken through a channel which is closed and replaced on every release.

  Each section under the mutex is one function on the limiter, and the goroutines that call
  \<^verbatim>\<open>acquire\<close> interleave by the steps of a transition relation. A channel is a number; closing
  it puts it into the set of closed channels.
\<close>

section \<open>The limiter\<close>

record imageConcurrencyLimiter =
  il_notify :: "nat option"  \<comment> \<open>the current channel, \<^const>\<open>None\<close> before the first call\<close>
  il_limit :: int
  il_active :: int
  il_waiting :: int
  il_enabled :: bool
  il_closed :: "nat set"
  il_nextChan :: nat  \<comment> \<open>what the next \<^verbatim>\<open>make(chan struct{})\<close> returns\<close>

definition newImageLimiter :: imageConcurrencyLimiter where
  "newImageLimiter = \<lparr>il_notify = None, il_limit = 0, il_active = 0, il_waiting = 0, il_enabled = False,
     il_closed = {}, il_nextChan = 0\<rparr>"

definition makeNotify :: "imageConcurrencyLimiter \<Rightarrow> imageConcurrencyLimiter" where
  "makeNotify l = l\<lparr>il_notify := Some (il_nextChan l), il_nextChan := Suc (il_nextChan l)\<rparr>"

datatype tryResult = Acquired | Refused | Queued nat

definition tryAcquireLocked ::
  "imageConcurrencyLimiter \<Rightarrow> bool \<Rightarrow> int \<Rightarrow> bool \<Rightarrow> int \<Rightarrow> tryResult \<times> imageConcurrencyLimiter" where
  "tryAcquireLocked l0 enabled limit wait maxWaiting =
     (let l1 = (if il_notify l0 = None then makeNotify l0 else l0);
          l = (if il_enabled l1 \<noteq> enabled \<or> il_limit l1 \<noteq> limit
               then l1\<lparr>il_enabled := enabled, il_limit := limit\<rparr> else l1)
      in if il_active l < il_limit l then (Acquired, l\<lparr>il_active := il_active l + 1\<rparr>)
         else if \<not> wait then (Refused, l)
         else if maxWaiting > 0 \<and> il_waiting l \<ge> maxWaiting then (Refused, l)
         else (Queued (the (il_notify l)), l\<lparr>il_waiting := il_waiting l + 1\<rparr>))"

text \<open>The functions behind \<^verbatim>\<open>releaseFunc\<close> and \<^verbatim>\<open>waiterReleaseFunc\<close>; the steps run each once.\<close>

definition releaseSlot :: "imageConcurrencyLimiter \<Rightarrow> imageConcurrencyLimiter" where
  "releaseSlot l0 =
     (let l = (if il_active l0 > 0 then l0\<lparr>il_active := il_active l0 - 1\<rparr> else l0) in
      case il_notify l of
        None \<Rightarrow> l
      | Some ch \<Rightarrow> makeNotify (l\<lparr>il_closed := insert ch (il_closed l)\<rparr>))"

definition releaseWaiter :: "imageConcurrencyLimiter \<Rightarrow> imageConcurrencyLimiter" where
  "releaseWaiter l = (if il_waiting l > 0 then l\<lparr>il_waiting := il_waiting l - 1\<rparr> else l)"

section \<open>The callers\<close>

record acquireCall =
  ac_enabled :: bool
  ac_limit :: int
  ac_wait :: bool
  ac_timeout :: duration
  ac_maxWaiting :: int

definition TryAcquire :: "bool \<Rightarrow> int \<Rightarrow> acquireCall" where
  "TryAcquire enabled limit =
     \<lparr>ac_enabled = enabled, ac_limit = limit, ac_wait = False, ac_timeout = 0, ac_maxWaiting = 0\<rparr>"

text \<open>
  Where a goroutine stands in \<^verbatim>\<open>acquire\<close>: about to try, blocked on a channel, woken or out of
  time with its waiter slot still counted, holding a slot, or done.
\<close>

datatype callerPc = Trying | Waiting nat | Woken | Expired | Holding | Released | Returned bool

definition acquireEntry :: "acquireCall \<Rightarrow> callerPc" where
  "acquireEntry c =
     (if \<not> ac_enabled c \<or> ac_limit c \<le> 0 then Returned True
      else if ac_wait c \<and> ac_timeout c \<le> 0 then Returned False
      else Trying)"

fun afterTry :: "tryResult \<Rightarrow> callerPc" where
  "afterTry Acquired = Holding"
| "afterTry Refused = Returned False"
| "afterTry (Queued ch) = Waiting ch"

type_synonym limiterSystem = "imageConcurrencyLimiter \<times> (acquireCall \<times> callerPc) list"

definition limiterInit :: "limiterSystem \<Rightarrow> bool" where
  "limiterInit s \<longleftrightarrow> s = (newImageLimiter, [])"

inductive limiterStep :: "limiterSystem \<Rightarrow> limiterSystem \<Rightarrow> bool" where
  call: "limiterStep (l, ps) (l, ps @ [(c, acquireEntry c)])"
| attempt: "i < length ps \<Longrightarrow> ps ! i = (c, Trying) \<Longrightarrow>
    tryAcquireLocked l (ac_enabled c) (ac_limit c) (ac_wait c) (max 0 (ac_maxWaiting c)) = (r, l') \<Longrightarrow>
    limiterStep (l, ps) (l', ps[i := (c, afterTry r)])"
| wake: "i < length ps \<Longrightarrow> ps ! i = (c, Waiting ch) \<Longrightarrow> ch \<in> il_closed l \<Longrightarrow>
    limiterStep (l, ps) (l, ps[i := (c, Woken)])"
| timeout: "i < length ps \<Longrightarrow> ps ! i = (c, Waiting ch) \<Longrightarrow>
    limiterStep (l, ps) (l, ps[i := (c, Expired)])"
| again: "i < length ps \<Longrightarrow> ps ! i = (c, Woken) \<Longrightarrow>
    limiterStep (l, ps) (releaseWaiter l, ps[i := (c, Trying)])"
| give_up: "i < length ps \<Longrightarrow> ps ! i = (c, Expired) \<Longrightarrow>
    limiterStep (l, ps) (releaseWaiter l, ps[i := (c, Returned False)])"
| release: "i < length ps \<Longrightarrow> ps ! i = (c, Holding) \<Longrightarrow>
    limiterStep (l, ps) (releaseSlot l, ps[i := (c, Released)])"

section \<open>Invariant\<close>

definition countPc :: "(callerPc \<Rightarrow> bool) \<Rightarrow> (acquireCall \<times> callerPc) list \<Rightarrow> int" where
  "countPc P ps = (\<Sum>p \<leftarrow> ps. if P (snd p) then 1 else 0)"

fun inQueue :: "callerPc \<Rightarrow> bool" where
  "inQueue (Waiting _) = True"
| "inQueue Woken = True"
| "inQueue Expired = True"
| "inQueue _ = False"

text \<open>
  \<open>active\<close> counts the holders and \<open>waiting\<close> the queued callers. The current channel is open;
  a caller blocked on an open channel is blocked on the current one and its limit is reached.
  Only calls with a positive limit get past the entry checks.
\<close>

definition callerOk :: "imageConcurrencyLimiter \<Rightarrow> acquireCall \<times> callerPc \<Rightarrow> bool" where
  "callerOk l p \<longleftrightarrow> (case p of (c, pc) \<Rightarrow>
     (case pc of
        Waiting ch \<Rightarrow> 0 < ac_limit c \<and> (ch \<in> il_closed l \<or> il_notify l = Some ch \<and> ac_limit c \<le> il_active l)
      | Returned _ \<Rightarrow> True
      | _ \<Rightarrow> 0 < ac_limit c))"

definition limiterInv :: "limiterSystem \<Rightarrow> bool" where
  "limiterInv s \<longleftrightarrow> (case s of (l, ps) \<Rightarrow>
     il_active l = countPc (\<lambda>pc. pc = Holding) ps \<and> il_waiting l = countPc inQueue ps \<and>
     list_all (callerOk l) ps \<and>
     (\<forall>ch \<in> il_closed l. ch < il_nextChan l) \<and>
     (case il_notify l of None \<Rightarrow> True | Some ch \<Rightarrow> ch < il_nextChan l \<and> ch \<notin> il_closed l))"

lemma countPc_simps [simp]:
  "countPc P [] = 0" "countPc P (ps @ [p]) = countPc P ps + (if P (snd p) then 1 else 0)"
  by (simp_all add: countPc_def)

lemma countPc_update [simp]:
  "i < length ps \<Longrightarrow> countPc P (ps[i := p]) =
     countPc P ps + (if P (snd p) then 1 else 0) - (if P (snd (ps ! i)) then 1 else 0)"
  by (simp add: countPc_def map_update sum_list_update_int)

lemma countPc_nonneg: "0 \<le> countPc P ps"
  by (induction ps) (auto simp: countPc_def)

lemma countPc_pos:
  assumes "i < length ps" "P (snd (ps ! i))"
  shows "0 < countPc P ps"
proof -
  have "ps = take i ps @ ps ! i # drop (Suc i) ps" using assms(1) by (rule id_take_nth_drop)
  then have "countPc P ps = countPc P (take i ps) + 1 + countPc P (drop (Suc i) ps)"
    using assms(2) by (metis (mono_tags, lifting) countPc_def list.simps(9) map_append sum_list.Cons sum_list_append add.assoc)
  with countPc_nonneg [of P "take i ps"] countPc_nonneg [of P "drop (Suc i) ps"] show ?thesis by simp
qed

lemma countPc_ex: "0 < countPc P ps \<Longrightarrow> \<exists>p \<in> set ps. P (snd p)"
  by (induction ps) (auto simp: countPc_def split: if_splits)

text \<open>A caller that stands well keeps doing so when the channels only grow and \<open>active\<close> does not drop.\<close>

lemma callerOk_mono:
  assumes "callerOk l p" "il_closed l \<subseteq> il_closed l'"
    and "\<And>ch. il_notify l = Some ch \<Longrightarrow> ch \<in> il_closed l' \<or> il_notify l' = Some ch \<and> il_active l \<le> il_active l'"
  shows "callerOk l' p"
  using assms by (fastforce simp: callerOk_def split: prod.splits callerPc.splits)

lemma list_all_callerOk_mono:
  assumes "list_all (callerOk l) ps" "il_closed l \<subseteq> il_closed l'"
    and "\<And>ch. il_notify l = Some ch \<Longrightarrow> ch \<in> il_closed l' \<or> il_notify l' = Some ch \<and> il_active l \<le> il_active l'"
  shows "list_all (callerOk l') ps"
  using assms callerOk_mono by (auto simp: list_all_iff)

lemma list_all_update: "list_all P xs \<Longrightarrow> P x \<Longrightarrow> list_all P (xs[i := x])"
  by (auto simp: list_all_iff dest: set_update_subset_insert [THEN subsetD])

lemma callerOk_entry: "callerOk l (c, acquireEntry c)"
  by (simp add: callerOk_def acquireEntry_def)

lemma attempt_inv:
  assumes inv: "limiterInv (l, ps)" and i: "i < length ps" "ps ! i = (c, Trying)"
    and r: "tryAcquireLocked l (ac_enabled c) (ac_limit c) (ac_wait c) m = (r, l')"
  shows "limiterInv (l', ps[i := (c, afterTry r)])"
proof -
  have "callerOk l (c, Trying)" using inv i by (auto simp: limiterInv_def list_all_length)
  then have pos: "0 < ac_limit c" by (simp add: callerOk_def)
  have mono: "il_closed l' = il_closed l" "il_active l \<le> il_active l'"
    "\<And>ch. il_notify l = Some ch \<Longrightarrow> il_notify l' = Some ch"
    using r by (auto simp: tryAcquireLocked_def makeNotify_def Let_def split: if_splits)
  with inv have old: "list_all (callerOk l') ps"
    by (auto simp: limiterInv_def intro: list_all_callerOk_mono)
  have "callerOk l' (c, afterTry r)"
    using r pos by (auto simp: callerOk_def tryAcquireLocked_def makeNotify_def Let_def split: if_splits)
  with old have all: "list_all (callerOk l') (ps[i := (c, afterTry r)])" by (rule list_all_update)
  have counts: "il_active l' = il_active l + (if afterTry r = Holding then 1 else 0)"
    "il_waiting l' = il_waiting l + (if inQueue (afterTry r) then 1 else 0)"
    using r by (auto simp: tryAcquireLocked_def makeNotify_def Let_def split: if_splits)
  have "(\<forall>ch \<in> il_closed l'. ch < il_nextChan l') \<and>
      (case il_notify l' of None \<Rightarrow> True | Some ch \<Rightarrow> ch < il_nextChan l' \<and> ch \<notin> il_closed l')"
    using r inv
    by (auto simp: tryAcquireLocked_def makeNotify_def limiterInv_def Let_def less_Suc_eq split: if_splits)
  with inv i all counts show ?thesis by (simp add: limiterInv_def)
qed

lemma release_inv:
  assumes inv: "limiterInv (l, ps)" and i: "i < length ps" "ps ! i = (c, Holding)"
  shows "limiterInv (releaseSlot l, ps[i := (c, Released)])"
proof -
  have pos: "0 < ac_limit c" using inv i by (auto simp: limiterInv_def list_all_length callerOk_def)
  have act: "0 < il_active l"
    using inv countPc_pos [of i ps "\<lambda>pc. pc = Holding"] i by (simp add: limiterInv_def)
  have "list_all (callerOk (releaseSlot l)) ps"
    using inv by (auto simp: limiterInv_def releaseSlot_def makeNotify_def Let_def split: option.splits
        intro!: list_all_callerOk_mono [of l])
  then have "list_all (callerOk (releaseSlot l)) (ps[i := (c, Released)])"
    by (rule list_all_update) (simp add: callerOk_def pos)
  with inv i act show ?thesis
    by (auto simp: limiterInv_def releaseSlot_def makeNotify_def Let_def less_Suc_eq split: option.splits)
qed

lemma unqueue_inv:
  assumes inv: "limiterInv (l, ps)" and i: "i < length ps" "ps ! i = (c, pc)" "inQueue pc" "pc = Woken \<or> pc = Expired"
    and pc': "pc' = Trying \<or> pc' = Returned b"
  shows "limiterInv (releaseWaiter l, ps[i := (c, pc')])"
proof -
  have pos: "0 < ac_limit c" using inv i(1,2,4) by (auto simp: limiterInv_def list_all_length callerOk_def)
  have wait: "0 < il_waiting l" using inv countPc_pos [of i ps inQueue] i by (simp add: limiterInv_def)
  then have l': "releaseWaiter l = l\<lparr>il_waiting := il_waiting l - 1\<rparr>" by (simp add: releaseWaiter_def)
  have "list_all (callerOk (releaseWaiter l)) ps"
    using inv by (auto simp: limiterInv_def l' intro!: list_all_callerOk_mono [of l])
  then have "list_all (callerOk (releaseWaiter l)) (ps[i := (c, pc')])"
    by (rule list_all_update) (use pos pc' in \<open>auto simp: callerOk_def\<close>)
  with inv i pc' l' show ?thesis by (auto simp: limiterInv_def split: option.splits)
qed

lemma waiting_pc_inv:
  assumes inv: "limiterInv (l, ps)" and i: "i < length ps" "ps ! i = (c, Waiting ch)" and pc': "pc' = Woken \<or> pc' = Expired"
  shows "limiterInv (l, ps[i := (c, pc')])"
proof -
  have "0 < ac_limit c" using inv i by (auto simp: limiterInv_def list_all_length callerOk_def)
  with inv pc' have "list_all (callerOk l) (ps[i := (c, pc')])"
    by (intro list_all_update) (auto simp: limiterInv_def callerOk_def)
  with inv i pc' show ?thesis by (auto simp: limiterInv_def)
qed

lemma limiterStep_inv:
  assumes "limiterStep s t" "limiterInv s"
  shows "limiterInv t"
  using assms
proof (induction rule: limiterStep.induct)
  case (call l ps c)
  with callerOk_entry [of l c] show ?case by (auto simp: limiterInv_def acquireEntry_def)
next
  case (attempt i ps c l r l')
  then show ?case by (intro attempt_inv)
next
  case (wake i ps c ch l)
  then show ?case by (auto intro: waiting_pc_inv)
next
  case (timeout i ps c ch l)
  then show ?case by (auto intro: waiting_pc_inv)
next
  case (again i ps c l)
  then show ?case by (intro unqueue_inv [where pc = Woken]) auto
next
  case (give_up i ps c l)
  then show ?case by (intro unqueue_inv [where pc = Expired]) auto
next
  case (release i ps c l)
  then show ?case by (intro release_inv)
qed

interpretation images: invariant_system limiterInit limiterStep limiterInv
  by unfold_locales
    (simp add: limiterInit_def limiterInv_def newImageLimiter_def, rule limiterStep_inv)

section \<open>Limits\<close>

text \<open>
  Callers may disagree on the limits. What holds of all of them holds of the limiter: with
  every limit at most \<open>L\<close> there are at most \<open>L\<close> holders, and when every caller that would
  wait has a waiter limit between 1 and \<open>W\<close>, there are at most \<open>W\<close> waiters. A waiter limit
  of zero is no limit, and \<^const>\<open>TryAcquire\<close>, which passes zero, never waits.
\<close>

definition limitsWithin :: "int \<Rightarrow> (acquireCall \<times> callerPc) list \<Rightarrow> bool" where
  "limitsWithin L ps \<longleftrightarrow> list_all (\<lambda>(c, pc). ac_limit c \<le> L) ps"

definition queueWithin :: "int \<Rightarrow> (acquireCall \<times> callerPc) list \<Rightarrow> bool" where
  "queueWithin W ps \<longleftrightarrow> list_all (\<lambda>(c, pc). ac_wait c \<longrightarrow> 1 \<le> ac_maxWaiting c \<and> ac_maxWaiting c \<le> W) ps"

definition withinLimits :: "int \<Rightarrow> int \<Rightarrow> limiterSystem \<Rightarrow> bool" where
  "withinLimits L W s \<longleftrightarrow> limiterInv s \<and>
     (case s of (l, ps) \<Rightarrow> (limitsWithin L ps \<longrightarrow> il_active l \<le> max 0 L) \<and> (queueWithin W ps \<longrightarrow> il_waiting l \<le> max 0 W))"

lemma callsWithin_update:
  "i < length ps \<Longrightarrow> ps ! i = (c, pc) \<Longrightarrow> limitsWithin L (ps[i := (c, pc')]) = limitsWithin L ps"
  "i < length ps \<Longrightarrow> ps ! i = (c, pc) \<Longrightarrow> queueWithin W (ps[i := (c, pc')]) = queueWithin W ps"
  by (auto simp: limitsWithin_def queueWithin_def list_all_length nth_list_update split: prod.splits) (metis fst_conv)+

lemma callsWithin_at:
  "i < length ps \<Longrightarrow> ps ! i = (c, pc) \<Longrightarrow> limitsWithin L ps \<Longrightarrow> ac_limit c \<le> L"
  "i < length ps \<Longrightarrow> ps ! i = (c, pc) \<Longrightarrow> queueWithin W ps \<Longrightarrow> ac_wait c \<Longrightarrow> 1 \<le> ac_maxWaiting c \<and> ac_maxWaiting c \<le> W"
  by (auto simp: limitsWithin_def queueWithin_def list_all_length)

lemma try_within:
  assumes "tryAcquireLocked l enabled limit wait (max 0 m) = (r, l')"
  shows "il_active l \<le> max 0 L \<Longrightarrow> limit \<le> L \<Longrightarrow> il_active l' \<le> max 0 L"
    and "il_waiting l \<le> max 0 W \<Longrightarrow> wait \<longrightarrow> 1 \<le> m \<and> m \<le> W \<Longrightarrow> il_waiting l' \<le> max 0 W"
  using assms by (auto simp: tryAcquireLocked_def makeNotify_def Let_def split: if_splits)

lemma release_within:
  "il_active l \<le> A \<Longrightarrow> il_active (releaseSlot l) \<le> A" "il_waiting (releaseSlot l) = il_waiting l"
  "il_waiting l \<le> B \<Longrightarrow> il_waiting (releaseWaiter l) \<le> B" "il_active (releaseWaiter l) = il_active l"
  by (auto simp: releaseSlot_def releaseWaiter_def makeNotify_def Let_def split: option.splits)

lemma limiterStep_within:
  assumes "limiterStep s t" "withinLimits L W s"
  shows "withinLimits L W t"
proof -
  have inv: "limiterInv t" using assms limiterStep_inv by (auto simp: withinLimits_def)
  from assms show ?thesis
  proof (induction rule: limiterStep.induct)
    case (attempt i ps c l r l')
    have "limitsWithin L ps \<Longrightarrow> il_active l' \<le> max 0 L"
      using attempt(4) callsWithin_at(1) [OF attempt(1,2)] try_within(1) [OF attempt(3)] by (simp add: withinLimits_def)
    moreover have "queueWithin W ps \<Longrightarrow> il_waiting l' \<le> max 0 W"
      using attempt(4) callsWithin_at(2) [OF attempt(1,2)] try_within(2) [OF attempt(3)] by (simp add: withinLimits_def)
    ultimately show ?case
      using attempt limiterStep_inv [OF limiterStep.attempt [OF attempt(1-3)]] by (simp add: withinLimits_def callsWithin_update)
  next
    case (call l ps c)
    then show ?case using limiterStep_inv [OF limiterStep.call [of l ps c]]
      by (auto simp: withinLimits_def limitsWithin_def queueWithin_def)
  qed (auto simp: withinLimits_def callsWithin_update release_within
      intro: limiterStep_inv limiterStep.intros)
qed

interpretation image_limits: invariant_system limiterInit limiterStep "withinLimits L W" for L W
  by unfold_locales
    (simp add: limiterInit_def withinLimits_def limiterInv_def newImageLimiter_def, rule limiterStep_within)

section \<open>Properties\<close>

text \<open>
  (C36) In every interleaving of callers, \<open>active\<close> is the number of callers that hold a slot
  and \<open>waiting\<close> the number that are queued, woken or timed out but not yet dequeued. With all
  limits at most \<open>L\<close>, at most \<open>L\<close> callers hold a slot; and when those that would wait have
  waiter limits in \<open>1..W\<close>, at most \<open>W\<close> are queued, whatever limits the others pass.
\<close>

theorem image_limits_respected:
  assumes "reachable limiterInit limiterStep (l, ps)"
  shows "il_active l = countPc (\<lambda>pc. pc = Holding) ps \<and> il_waiting l = countPc inQueue ps \<and>
    (limitsWithin L ps \<longrightarrow> countPc (\<lambda>pc. pc = Holding) ps \<le> max 0 L) \<and> (queueWithin W ps \<longrightarrow> countPc inQueue ps \<le> max 0 W)"
  using image_limits.reachable_inv [OF assms, of L W] by (auto simp: withinLimits_def limiterInv_def)

text \<open>A run of two callers with limit 1: the first holds the slot, the second waits.\<close>

definition exampleCall :: acquireCall where
  "exampleCall = \<lparr>ac_enabled = True, ac_limit = 1, ac_wait = True, ac_timeout = second, ac_maxWaiting = 5\<rparr>"

definition exampleLimiter :: imageConcurrencyLimiter where
  "exampleLimiter = \<lparr>il_notify = Some 0, il_limit = 1, il_active = 1, il_waiting = 1, il_enabled = True,
     il_closed = {}, il_nextChan = 1\<rparr>"

lemma example_reachable:
  "reachable limiterInit limiterStep (exampleLimiter, [(exampleCall, Holding), (exampleCall, Waiting 0)])"
proof -
  have start: "reachable limiterInit limiterStep (newImageLimiter, [])"
    by (rule reachable.start) (simp add: limiterInit_def)
  let ?l = "newImageLimiter\<lparr>il_notify := Some 0, il_nextChan := 1, il_enabled := True, il_limit := 1, il_active := 1\<rparr>"
  have "reachable limiterInit limiterStep (newImageLimiter, [(exampleCall, Trying)])"
    using reachable.more [OF start limiterStep.call [where c = exampleCall]]
    by (simp add: acquireEntry_def exampleCall_def)
  from reachable.more [OF this limiterStep.attempt [where i = 0 and c = exampleCall and r = Acquired and l' = ?l]]
  have "reachable limiterInit limiterStep (?l, [(exampleCall, Holding)])"
    by (simp add: tryAcquireLocked_def makeNotify_def newImageLimiter_def exampleCall_def)
  from reachable.more [OF this limiterStep.call [where c = exampleCall]]
  have two: "reachable limiterInit limiterStep (?l, [(exampleCall, Holding), (exampleCall, Trying)])"
    by (simp add: acquireEntry_def exampleCall_def)
  from reachable.more [OF two limiterStep.attempt
      [where i = 1 and c = exampleCall and r = "Queued 0" and l' = exampleLimiter]]
  show ?thesis
    by (simp add: tryAcquireLocked_def makeNotify_def newImageLimiter_def exampleCall_def exampleLimiter_def)
qed

text \<open>A third caller that only tries is refused.\<close>

definition exampleCalls :: "(acquireCall \<times> callerPc) list" where
  "exampleCalls = [(exampleCall, Holding), (exampleCall, Waiting 0), (TryAcquire True 1, Returned False)]"

lemma three_reachable: "reachable limiterInit limiterStep (exampleLimiter, exampleCalls)"
proof -
  from reachable.more [OF example_reachable limiterStep.call [where c = "TryAcquire True 1"]]
  have "reachable limiterInit limiterStep
      (exampleLimiter, [(exampleCall, Holding), (exampleCall, Waiting 0), (TryAcquire True 1, Trying)])"
    by (simp add: acquireEntry_def TryAcquire_def)
  from reachable.more [OF this limiterStep.attempt
      [where i = 2 and c = "TryAcquire True 1" and r = Refused and l' = exampleLimiter]]
  show ?thesis
    by (simp add: tryAcquireLocked_def makeNotify_def TryAcquire_def exampleLimiter_def exampleCalls_def Let_def)
qed

theorem image_limits_respected_witness:
  "il_active exampleLimiter = countPc (\<lambda>pc. pc = Holding) exampleCalls \<and>
   countPc (\<lambda>pc. pc = Holding) exampleCalls \<le> max 0 1 \<and> countPc inQueue exampleCalls \<le> max 0 5"
proof -
  have "limitsWithin 1 exampleCalls" "queueWithin 5 exampleCalls" by code_simp+
  with image_limits_respected [OF three_reachable, of 1 5] show ?thesis by blast
qed

text \<open>
  (C35) No wake-up is lost: a caller blocked on a channel is either about to be woken (the
  channel is closed), or the slots of its limit are all held, and the release of any holder
  closes the very channel the caller waits on.
\<close>

theorem image_no_lost_wakeup:
  assumes "reachable limiterInit limiterStep (l, ps)" "i < length ps" "ps ! i = (c, Waiting ch)"
  shows "ch \<in> il_closed l \<or>
    (ac_limit c \<le> countPc (\<lambda>pc. pc = Holding) ps \<and> (\<exists>p \<in> set ps. snd p = Holding) \<and>
     ch \<in> il_closed (releaseSlot l))"
proof (cases "ch \<in> il_closed l")
  case False
  have inv: "limiterInv (l, ps)" using assms(1) by (rule images.reachable_inv)
  with assms(2,3) have "callerOk l (c, Waiting ch)" by (auto simp: limiterInv_def list_all_length)
  with False have c: "0 < ac_limit c" "il_notify l = Some ch" "ac_limit c \<le> il_active l"
    by (auto simp: callerOk_def)
  with inv have "0 < countPc (\<lambda>pc. pc = Holding) ps" by (auto simp: limiterInv_def)
  then have "\<exists>p \<in> set ps. snd p = Holding" by (rule countPc_ex)
  with c inv show ?thesis by (simp add: limiterInv_def releaseSlot_def makeNotify_def Let_def)
qed simp

theorem image_no_lost_wakeup_witness:
  "(0 :: nat) \<in> il_closed exampleLimiter \<or>
    (ac_limit exampleCall \<le> countPc (\<lambda>pc. pc = Holding) [(exampleCall, Holding), (exampleCall, Waiting 0)] \<and>
     (\<exists>p \<in> set [(exampleCall, Holding), (exampleCall, Waiting 0)]. snd p = Holding) \<and>
     0 \<in> il_closed (releaseSlot exampleLimiter))"
  by (rule image_no_lost_wakeup [OF example_reachable, of 1]) simp_all

end
