(* ===== verification/IdempotencyRepo.thy ===== *)
theory IdempotencyRepo
  imports Transitions
begin

text \<open>
  The store behind idempotent requests: the record and the repository interface of
  \<^verbatim>\<open>backend/internal/service/idempotency.go\<close>, and the SQL repository of
  \<^verbatim>\<open>backend/internal/repository/idempotency_repo.go\<close> as operations on the table
  \<^verbatim>\<open>idempotency_records\<close>, whose unique index on scope and key hash (migration 057) decides
  what an insert with \<^verbatim>\<open>ON CONFLICT DO NOTHING\<close> does.

  A statement is atomic. It fails, without an effect, while the database is down. The columns
  \<^verbatim>\<open>created_at\<close> and \<^verbatim>\<open>updated_at\<close>, which nothing reads back, are left out.
\<close>

section \<open>Records and the repository interface\<close>

record IdempotencyRecord =
  ir_ID :: int
  ir_Scope :: string
  ir_IdempotencyKeyHash :: string
  ir_RequestFingerprint :: string
  ir_Status :: string
  ir_ResponseStatus :: "int option"
  ir_ResponseBody :: "string option"
  ir_ErrorReason :: "string option"
  ir_LockedUntil :: "gotime option"
  ir_ExpiresAt :: gotime

definition IdempotencyStatusProcessing :: string where "IdempotencyStatusProcessing = ''processing''"
definition IdempotencyStatusSucceeded :: string where "IdempotencyStatusSucceeded = ''succeeded''"
definition IdempotencyStatusFailedRetryable :: string where
  "IdempotencyStatusFailedRetryable = ''failed_retryable''"

lemmas status_defs = IdempotencyStatusProcessing_def IdempotencyStatusSucceeded_def
  IdempotencyStatusFailedRetryable_def

text \<open>
  The interface \<^verbatim>\<open>IdempotencyRepository\<close> over a store of type \<open>'r\<close>: \<^const>\<open>Inl\<close> is an error. A
  successful \<^verbatim>\<open>CreateProcessing\<close> writes the new id into the record; here it is returned
  (0, the unset id, when the key is taken).
\<close>

record 'r IdempotencyRepository =
  CreateProcessing :: "'r \<Rightarrow> IdempotencyRecord \<Rightarrow> (string + bool \<times> int) \<times> 'r"
  GetByScopeAndKeyHash :: "'r \<Rightarrow> string \<Rightarrow> string \<Rightarrow> string + IdempotencyRecord option"
  TryReclaim :: "'r \<Rightarrow> int \<Rightarrow> string \<Rightarrow> gotime \<Rightarrow> gotime \<Rightarrow> gotime \<Rightarrow> (string + bool) \<times> 'r"
  ExtendProcessingLock :: "'r \<Rightarrow> int \<Rightarrow> string \<Rightarrow> gotime \<Rightarrow> gotime \<Rightarrow> (string + bool) \<times> 'r"
  MarkSucceeded :: "'r \<Rightarrow> int \<Rightarrow> int \<Rightarrow> string \<Rightarrow> gotime \<Rightarrow> string option \<times> 'r"
  MarkFailedRetryable :: "'r \<Rightarrow> int \<Rightarrow> string \<Rightarrow> gotime \<Rightarrow> gotime \<Rightarrow> string option \<times> 'r"
  DeleteExpired :: "'r \<Rightarrow> gotime \<Rightarrow> int \<Rightarrow> (string + int) \<times> 'r"

section \<open>The SQL repository\<close>

record idempotencyTable =
  rows :: "IdempotencyRecord list"
  nextID :: int
  down :: bool

definition dbError :: string where "dbError = ''database unavailable''"

definition rowOf :: "idempotencyTable \<Rightarrow> string \<Rightarrow> string \<Rightarrow> IdempotencyRecord option" where
  "rowOf t scope keyHash = find (\<lambda>r. ir_Scope r = scope \<and> ir_IdempotencyKeyHash r = keyHash) (rows t)"

definition sqlCreateProcessing ::
  "idempotencyTable \<Rightarrow> IdempotencyRecord \<Rightarrow> (string + bool \<times> int) \<times> idempotencyTable" where
  "sqlCreateProcessing t rec =
     (if down t then (Inl dbError, t)
      else case rowOf t (ir_Scope rec) (ir_IdempotencyKeyHash rec) of
        Some _ \<Rightarrow> (Inr (False, 0), t)
      | None \<Rightarrow>
          let row = rec\<lparr>ir_ID := nextID t, ir_ResponseStatus := None, ir_ResponseBody := None,
                        ir_ErrorReason := None\<rparr>
          in (Inr (True, nextID t), t\<lparr>rows := rows t @ [row], nextID := nextID t + 1\<rparr>))"

definition sqlGetByScopeAndKeyHash ::
  "idempotencyTable \<Rightarrow> string \<Rightarrow> string \<Rightarrow> string + IdempotencyRecord option" where
  "sqlGetByScopeAndKeyHash t scope keyHash = (if down t then Inl dbError else Inr (rowOf t scope keyHash))"

text \<open>\<^verbatim>\<open>UPDATE ... SET f WHERE P\<close>, with the number of affected rows.\<close>

definition sqlUpdate ::
  "idempotencyTable \<Rightarrow> (IdempotencyRecord \<Rightarrow> bool) \<Rightarrow> (IdempotencyRecord \<Rightarrow> IdempotencyRecord) \<Rightarrow> nat \<times> idempotencyTable" where
  "sqlUpdate t P f =
     (length (filter P (rows t)), t\<lparr>rows := map (\<lambda>r. if P r then f r else r) (rows t)\<rparr>)"

definition sqlTryReclaim ::
  "idempotencyTable \<Rightarrow> int \<Rightarrow> string \<Rightarrow> gotime \<Rightarrow> gotime \<Rightarrow> gotime \<Rightarrow> (string + bool) \<times> idempotencyTable" where
  "sqlTryReclaim t i fromStatus now newLockedUntil newExpiresAt =
     (if down t then (Inl dbError, t)
      else let (affected, t') = sqlUpdate t
             (\<lambda>r. ir_ID r = i \<and> ir_Status r = fromStatus \<and>
                (case ir_LockedUntil r of None \<Rightarrow> True | Some u \<Rightarrow> u \<le> now))
             (\<lambda>r. r\<lparr>ir_Status := IdempotencyStatusProcessing, ir_LockedUntil := Some newLockedUntil,
                   ir_ErrorReason := None, ir_ExpiresAt := newExpiresAt\<rparr>)
           in (Inr (affected > 0), t'))"

definition sqlExtendProcessingLock ::
  "idempotencyTable \<Rightarrow> int \<Rightarrow> string \<Rightarrow> gotime \<Rightarrow> gotime \<Rightarrow> (string + bool) \<times> idempotencyTable" where
  "sqlExtendProcessingLock t i requestFingerprint newLockedUntil newExpiresAt =
     (if down t then (Inl dbError, t)
      else let (affected, t') = sqlUpdate t
             (\<lambda>r. ir_ID r = i \<and> ir_Status r = IdempotencyStatusProcessing \<and>
                ir_RequestFingerprint r = requestFingerprint)
             (\<lambda>r. r\<lparr>ir_LockedUntil := Some newLockedUntil, ir_ExpiresAt := newExpiresAt\<rparr>)
           in (Inr (affected > 0), t'))"

definition sqlMarkSucceeded ::
  "idempotencyTable \<Rightarrow> int \<Rightarrow> int \<Rightarrow> string \<Rightarrow> gotime \<Rightarrow> string option \<times> idempotencyTable" where
  "sqlMarkSucceeded t i responseStatus responseBody expiresAt =
     (if down t then (Some dbError, t)
      else (None, snd (sqlUpdate t (\<lambda>r. ir_ID r = i)
             (\<lambda>r. r\<lparr>ir_Status := IdempotencyStatusSucceeded, ir_ResponseStatus := Some responseStatus,
                   ir_ResponseBody := Some responseBody, ir_ErrorReason := None,
                   ir_LockedUntil := None, ir_ExpiresAt := expiresAt\<rparr>))))"

definition sqlMarkFailedRetryable ::
  "idempotencyTable \<Rightarrow> int \<Rightarrow> string \<Rightarrow> gotime \<Rightarrow> gotime \<Rightarrow> string option \<times> idempotencyTable" where
  "sqlMarkFailedRetryable t i errorReason lockedUntil expiresAt =
     (if down t then (Some dbError, t)
      else (None, snd (sqlUpdate t (\<lambda>r. ir_ID r = i)
             (\<lambda>r. r\<lparr>ir_Status := IdempotencyStatusFailedRetryable, ir_ErrorReason := Some errorReason,
                   ir_LockedUntil := Some lockedUntil, ir_ExpiresAt := expiresAt\<rparr>))))"

text \<open>Which of several rows with the same expiry falls under the limit SQL leaves open; here the older row.\<close>

definition sqlDeleteExpired :: "idempotencyTable \<Rightarrow> gotime \<Rightarrow> int \<Rightarrow> (string + int) \<times> idempotencyTable" where
  "sqlDeleteExpired t now limit0 =
     (if down t then (Inl dbError, t)
      else let limit = (if limit0 \<le> 0 then 500 else limit0);
               victims = take (nat limit) (sort_key ir_ExpiresAt (filter (\<lambda>r. ir_ExpiresAt r \<le> now) (rows t)));
               ids = map ir_ID victims;
               kept = filter (\<lambda>r. ir_ID r \<notin> set ids) (rows t)
           in (Inr (int (length (rows t)) - int (length kept)), t\<lparr>rows := kept\<rparr>))"

definition sqlRepository :: "idempotencyTable IdempotencyRepository" where
  "sqlRepository =
     \<lparr>CreateProcessing = sqlCreateProcessing, GetByScopeAndKeyHash = sqlGetByScopeAndKeyHash,
      TryReclaim = sqlTryReclaim, ExtendProcessingLock = sqlExtendProcessingLock,
      MarkSucceeded = sqlMarkSucceeded, MarkFailedRetryable = sqlMarkFailedRetryable,
      DeleteExpired = sqlDeleteExpired\<rparr>"

section \<open>Well-formed tables\<close>

definition rowKey :: "IdempotencyRecord \<Rightarrow> string \<times> string" where
  "rowKey r = (ir_Scope r, ir_IdempotencyKeyHash r)"

definition tableOk :: "idempotencyTable \<Rightarrow> bool" where
  "tableOk t \<longleftrightarrow> distinct (map ir_ID (rows t)) \<and> distinct (map rowKey (rows t)) \<and>
     list_all (\<lambda>r. 0 < ir_ID r \<and> ir_ID r < nextID t) (rows t) \<and> 0 < nextID t"

lemma rowOf_Some_iff:
  assumes "tableOk t"
  shows "rowOf t s k = Some r \<longleftrightarrow> r \<in> set (rows t) \<and> ir_Scope r = s \<and> ir_IdempotencyKeyHash r = k"
proof
  assume "rowOf t s k = Some r"
  then show "r \<in> set (rows t) \<and> ir_Scope r = s \<and> ir_IdempotencyKeyHash r = k"
    by (auto simp: rowOf_def find_Some_iff)
next
  assume r: "r \<in> set (rows t) \<and> ir_Scope r = s \<and> ir_IdempotencyKeyHash r = k"
  have "inj_on rowKey (set (rows t))" using assms by (simp add: tableOk_def distinct_map)
  with r show "rowOf t s k = Some r"
    by (cases "rowOf t s k") (auto simp: rowOf_def find_None_iff find_Some_iff inj_on_def rowKey_def)
qed

lemma rowOf_None_iff:
  "rowOf t s k = None \<longleftrightarrow> (\<forall>r \<in> set (rows t). \<not> (ir_Scope r = s \<and> ir_IdempotencyKeyHash r = k))"
  by (auto simp: rowOf_def find_None_iff)

lemma tableOk_same_row:
  "tableOk t \<Longrightarrow> r \<in> set (rows t) \<Longrightarrow> r' \<in> set (rows t) \<Longrightarrow> ir_ID r = ir_ID r' \<Longrightarrow> r = r'"
  by (auto simp: tableOk_def distinct_map inj_on_def)

text \<open>Updates that keep the ids and keys.\<close>

definition keepsKey :: "(IdempotencyRecord \<Rightarrow> IdempotencyRecord) \<Rightarrow> bool" where
  "keepsKey f \<longleftrightarrow> (\<forall>r. ir_ID (f r) = ir_ID r \<and> rowKey (f r) = rowKey r)"

lemma sqlUpdate_ok: "keepsKey f \<Longrightarrow> tableOk t \<Longrightarrow> tableOk (snd (sqlUpdate t P f))"
proof -
  assume f: "keepsKey f" and t: "tableOk t"
  have "ir_ID \<circ> (\<lambda>r. if P r then f r else r) = ir_ID" "rowKey \<circ> (\<lambda>r. if P r then f r else r) = rowKey"
    using f by (auto simp: keepsKey_def fun_eq_iff)
  with t f show ?thesis unfolding tableOk_def sqlUpdate_def by (auto simp: list_all_iff keepsKey_def)
qed

lemma rowOf_sqlUpdate:
  assumes "keepsKey f"
  shows "rowOf (snd (sqlUpdate t P f)) s k = map_option (\<lambda>r. if P r then f r else r) (rowOf t s k)"
proof -
  have f: "ir_Scope (f r) = ir_Scope r" "ir_IdempotencyKeyHash (f r) = ir_IdempotencyKeyHash r" for r
    using assms by (auto simp: keepsKey_def rowKey_def)
  have "find (\<lambda>r. ir_Scope r = s \<and> ir_IdempotencyKeyHash r = k) (map (\<lambda>r. if P r then f r else r) rs) =
    map_option (\<lambda>r. if P r then f r else r) (find (\<lambda>r. ir_Scope r = s \<and> ir_IdempotencyKeyHash r = k) rs)" for rs
    by (induction rs) (auto simp: f)
  then show ?thesis by (simp add: rowOf_def sqlUpdate_def)
qed

lemma sqlUpdate_simps [simp]:
  "nextID (snd (sqlUpdate t P f)) = nextID t" "down (snd (sqlUpdate t P f)) = down t"
  "fst (sqlUpdate t P f) = length (filter P (rows t))"
  by (simp_all add: sqlUpdate_def)

lemma keepsKey_updates [simp]:
  "keepsKey (\<lambda>r. r\<lparr>ir_Status := a, ir_LockedUntil := b, ir_ErrorReason := c, ir_ExpiresAt := d\<rparr>)"
  "keepsKey (\<lambda>r. r\<lparr>ir_LockedUntil := b, ir_ExpiresAt := d\<rparr>)"
  "keepsKey (\<lambda>r. r\<lparr>ir_Status := a, ir_ResponseStatus := e, ir_ResponseBody := g, ir_ErrorReason := c,
     ir_LockedUntil := b, ir_ExpiresAt := d\<rparr>)"
  "keepsKey (\<lambda>r. r\<lparr>ir_Status := a, ir_ErrorReason := c, ir_LockedUntil := b, ir_ExpiresAt := d\<rparr>)"
  by (simp_all add: keepsKey_def rowKey_def)

section \<open>The statements as one machine\<close>

datatype sqlStatement =
    StmtCreate IdempotencyRecord
  | StmtReclaim int string gotime gotime gotime
  | StmtExtend int string gotime gotime
  | StmtSucceed int int string gotime
  | StmtFail int string gotime gotime
  | StmtDelete gotime int
  | StmtOutage bool

fun sqlExec :: "idempotencyTable \<Rightarrow> sqlStatement \<Rightarrow> idempotencyTable" where
  "sqlExec t (StmtCreate rec) = snd (sqlCreateProcessing t rec)"
| "sqlExec t (StmtReclaim i st now l e) = snd (sqlTryReclaim t i st now l e)"
| "sqlExec t (StmtExtend i fp l e) = snd (sqlExtendProcessingLock t i fp l e)"
| "sqlExec t (StmtSucceed i st body e) = snd (sqlMarkSucceeded t i st body e)"
| "sqlExec t (StmtFail i reason l e) = snd (sqlMarkFailedRetryable t i reason l e)"
| "sqlExec t (StmtDelete now limit) = snd (sqlDeleteExpired t now limit)"
| "sqlExec t (StmtOutage b) = t\<lparr>down := b\<rparr>"

lemma sqlCreate_ok: "tableOk t \<Longrightarrow> tableOk (snd (sqlCreateProcessing t rec))"
  by (force simp: sqlCreateProcessing_def tableOk_def rowKey_def list_all_iff rowOf_None_iff Let_def
      split: option.splits)

lemma sqlDelete_ok: "tableOk t \<Longrightarrow> tableOk (snd (sqlDeleteExpired t now limit))"
  by (auto simp: sqlDeleteExpired_def tableOk_def list_all_iff distinct_map_filter Let_def)

lemma sqlExec_ok: "tableOk t \<Longrightarrow> tableOk (sqlExec t st)"
proof (cases st)
  case (StmtOutage b)
  assume "tableOk t"
  with StmtOutage show ?thesis by (simp add: tableOk_def)
qed (auto simp: sqlCreate_ok sqlDelete_ok sqlTryReclaim_def sqlExtendProcessingLock_def sqlMarkSucceeded_def
    sqlMarkFailedRetryable_def sqlUpdate_ok split_def Let_def)

interpretation idempotency_table: event_machine sqlExec tableOk "\<lambda>_. True"
  by unfold_locales (rule sqlExec_ok)

section \<open>Leases\<close>

text \<open>
  The statements of requests that never owned the record \<open>r\<close>: inserts, reclaims before the end of its lock, clean-ups before
  its expiry, and the updates of an owner on other records or, for the renewal, under another fingerprint. The
  updates with which an owner ends name the row by its id alone, so a request that once owned
  this record can change it later; \<open>stale_owner_overwrites\<close> below is what happens then.
\<close>

fun foreign :: "IdempotencyRecord \<Rightarrow> gotime \<Rightarrow> sqlStatement \<Rightarrow> bool" where
  "foreign r u (StmtCreate _) = True"
| "foreign r u (StmtReclaim j _ now _ _) = (j \<noteq> ir_ID r \<or> now < u)"
| "foreign r u (StmtExtend j fp _ _) = (j \<noteq> ir_ID r \<or> fp \<noteq> ir_RequestFingerprint r)"
| "foreign r u (StmtSucceed j _ _ _) = (j \<noteq> ir_ID r)"
| "foreign r u (StmtFail j _ _ _) = (j \<noteq> ir_ID r)"
| "foreign r u (StmtDelete now _) = (now < ir_ExpiresAt r)"
| "foreign r u (StmtOutage _) = True"

definition holdsRow :: "IdempotencyRecord \<Rightarrow> idempotencyTable \<Rightarrow> bool" where
  "holdsRow r t \<longleftrightarrow> tableOk t \<and> r \<in> set (rows t)"

lemma sqlUpdate_other: "r \<in> set (rows t) \<Longrightarrow> \<not> P r \<Longrightarrow> r \<in> set (rows (snd (sqlUpdate t P f)))"
  by (force simp: sqlUpdate_def)

lemma sqlDelete_other:
  assumes "tableOk t" "r \<in> set (rows t)" "now < ir_ExpiresAt r"
  shows "r \<in> set (rows (snd (sqlDeleteExpired t now limit)))"
proof -
  have "ir_ID r \<noteq> ir_ID v" if "v \<in> set (rows t)" "ir_ExpiresAt v \<le> now" for v
    using that assms tableOk_same_row [of t r v] by auto
  with assms(2) show ?thesis
    by (fastforce simp: sqlDeleteExpired_def Let_def dest!: in_set_takeD)
qed

lemma foreign_keeps_row:
  assumes "holdsRow r t" "ir_LockedUntil r = Some u" "foreign r u st"
  shows "holdsRow r (sqlExec t st)"
proof -
  from assms(1) have t: "tableOk t" "r \<in> set (rows t)" by (auto simp: holdsRow_def)
  have "r \<in> set (rows (sqlExec t st))"
  proof (cases st)
    case (StmtDelete now limit)
    with assms(3) t show ?thesis by (simp add: sqlDelete_other)
  qed (use t assms in \<open>auto simp: sqlCreateProcessing_def sqlTryReclaim_def sqlExtendProcessingLock_def
      sqlMarkSucceeded_def sqlMarkFailedRetryable_def split_def Let_def split: option.split intro!: sqlUpdate_other\<close>)
  with t show ?thesis by (simp add: holdsRow_def sqlExec_ok)
qed

interpretation lease: event_machine sqlExec "\<lambda>t. holdsRow r t \<and> ir_LockedUntil r = Some u"
  "foreign r u" for r u
  by unfold_locales (auto intro: foreign_keeps_row)

section \<open>Properties\<close>

text \<open>
  The end of an owner is not bound to its ownership: whoever holds the record, the update of a former
  owner that ends late marks it as succeeded and takes the lock away.
\<close>

lemma stale_owner_overwrites:
  assumes "tableOk t" "r \<in> set (rows t)" "\<not> down t"
  shows "\<exists>r'. rowOf (snd (sqlMarkSucceeded t (ir_ID r) st body e)) (ir_Scope r) (ir_IdempotencyKeyHash r) = Some r' \<and>
    ir_Status r' = IdempotencyStatusSucceeded \<and> ir_LockedUntil r' = None \<and> ir_ResponseBody r' = Some body"
proof -
  have "rowOf t (ir_Scope r) (ir_IdempotencyKeyHash r) = Some r" using assms(1,2) by (simp add: rowOf_Some_iff)
  then show ?thesis using assms(3) by (simp add: sqlMarkSucceeded_def rowOf_sqlUpdate keepsKey_def)
qed

text \<open>
  (C37) A claim is exclusive: while a request holds the record of a key with a lock that has
  not run out, no sequence of statements of requests that never owned this record (\<^const>\<open>foreign\<close>) changes the
  record, and neither an insert for the same key nor a reclaim of the record makes another request
  its owner.
\<close>

theorem idempotency_claim_exclusive:
  assumes "tableOk t" "r \<in> set (rows t)" "ir_LockedUntil r = Some u"
    and "list_all (foreign r u) sts"
    and "ir_Scope rec = ir_Scope r" "ir_IdempotencyKeyHash rec = ir_IdempotencyKeyHash r" "now < u"
  shows "rowOf (foldl sqlExec t sts) (ir_Scope r) (ir_IdempotencyKeyHash r) = Some r \<and>
    fst (sqlCreateProcessing (foldl sqlExec t sts) rec) \<noteq> Inr (True, j) \<and>
    fst (sqlTryReclaim (foldl sqlExec t sts) (ir_ID r) st now l e) \<noteq> Inr True"
proof -
  have "holdsRow r (foldl sqlExec t sts) \<and> ir_LockedUntil r = Some u"
    using assms(1-4) by (intro lease.react_run) (auto simp: holdsRow_def)
  then have t': "tableOk (foldl sqlExec t sts)" "r \<in> set (rows (foldl sqlExec t sts))"
    by (auto simp: holdsRow_def)
  then have row: "rowOf (foldl sqlExec t sts) (ir_Scope r) (ir_IdempotencyKeyHash r) = Some r"
    by (simp add: rowOf_Some_iff)
  have "filter (\<lambda>x. ir_ID x = ir_ID r \<and> ir_Status x = st \<and>
      (case ir_LockedUntil x of None \<Rightarrow> True | Some u \<Rightarrow> u \<le> now)) (rows (foldl sqlExec t sts)) = []"
    using tableOk_same_row [OF t'(1) _ t'(2)] assms(3,7) by (fastforce simp: filter_empty_conv)
  with row assms(5,6) show ?thesis
    by (auto simp: sqlCreateProcessing_def sqlTryReclaim_def split_def Let_def)
qed

definition exampleRow :: IdempotencyRecord where
  "exampleRow = \<lparr>ir_ID = 1, ir_Scope = ''s'', ir_IdempotencyKeyHash = ''k'', ir_RequestFingerprint = ''f'',
     ir_Status = ''processing'', ir_ResponseStatus = None, ir_ResponseBody = None, ir_ErrorReason = None,
     ir_LockedUntil = Some (30 * second), ir_ExpiresAt = 24 * hour\<rparr>"

definition exampleTable :: idempotencyTable where
  "exampleTable = \<lparr>rows = [exampleRow], nextID = 2, down = False\<rparr>"

theorem idempotency_claim_exclusive_witness:
  "rowOf (foldl sqlExec exampleTable [StmtCreate exampleRow, StmtReclaim 1 ''processing'' second (40 * second) hour,
       StmtDelete hour 10]) ''s'' ''k'' = Some exampleRow \<and>
   fst (sqlCreateProcessing (foldl sqlExec exampleTable [StmtCreate exampleRow,
       StmtReclaim 1 ''processing'' second (40 * second) hour, StmtDelete hour 10]) exampleRow) \<noteq> Inr (True, 2) \<and>
   fst (sqlTryReclaim (foldl sqlExec exampleTable [StmtCreate exampleRow,
       StmtReclaim 1 ''processing'' second (40 * second) hour, StmtDelete hour 10])
     1 ''processing'' (29 * second) (60 * second) hour) \<noteq> Inr True"
  using idempotency_claim_exclusive [of exampleTable exampleRow "30 * second"
      "[StmtCreate exampleRow, StmtReclaim 1 ''processing'' second (40 * second) hour, StmtDelete hour 10]"
      exampleRow "29 * second" 2 "''processing''" "60 * second" hour]
  by (simp add: exampleTable_def exampleRow_def tableOk_def)

end
