(* ===== verification/Idempotency.thy ===== *)
theory Idempotency
  imports IdempotencyRepo
begin

text \<open>
  Idempotent requests: \<^verbatim>\<open>backend/internal/service/idempotency.go\<close>. \<^verbatim>\<open>Execute\<close> claims the key
  of a request in the store, runs the operation when it owns the claim, and stores the outcome
  so that a repetition of the request is answered from the store.

  The coordinator works over any store that offers the repository interface; what it needs of
  the store is the locale \<open>idempotency_store\<close>, interpreted on the SQL repository. JSON encoding
  and decoding, SHA-256, upper-casing, the redaction of stored responses and the reason of an
  error are arguments (\<open>idemLib\<close>): nothing is assumed of them beyond what a statement says.
  Clocks are arguments too: the instant read when a request starts and the one read when its
  operation has failed. Metrics and audit log lines are left out.
\<close>

section \<open>Data\<close>

record ('p, 'd, 'e) idemLib =
  lib_MarshalPayload :: "'p \<Rightarrow> string option"
  lib_MarshalData :: "'d \<Rightarrow> string option"
  lib_Unmarshal :: "string \<Rightarrow> 'd option"
  lib_emptyObject :: 'd
  lib_sha256hex :: "string \<Rightarrow> string"
  lib_ToUpper :: "string \<Rightarrow> string"
  lib_RedactText :: "string \<Rightarrow> string"
  lib_Reason :: "'e \<Rightarrow> string"

record IdempotencyConfig =
  ic_DefaultTTL :: duration
  ic_SystemOperationTTL :: duration
  ic_ProcessingTimeout :: duration
  ic_FailedRetryBackoff :: duration
  ic_MaxStoredResponseLen :: int
  ic_ObserveOnly :: bool

definition DefaultIdempotencyConfig :: IdempotencyConfig where
  "DefaultIdempotencyConfig =
     \<lparr>ic_DefaultTTL = 24 * hour, ic_SystemOperationTTL = 1 * hour, ic_ProcessingTimeout = 30 * second,
      ic_FailedRetryBackoff = 5 * second, ic_MaxStoredResponseLen = 64 * 1024, ic_ObserveOnly = True\<rparr>"

text \<open>The coordinator registered as the default, \<^const>\<open>None\<close> before one is set.\<close>

definition DefaultWriteIdempotencyTTL :: "IdempotencyConfig option \<Rightarrow> duration" where
  "DefaultWriteIdempotencyTTL coordinator =
     (case coordinator of
        Some cfg \<Rightarrow> if ic_DefaultTTL cfg > 0 then ic_DefaultTTL cfg else ic_DefaultTTL DefaultIdempotencyConfig
      | None \<Rightarrow> ic_DefaultTTL DefaultIdempotencyConfig)"

definition DefaultSystemOperationIdempotencyTTL :: "IdempotencyConfig option \<Rightarrow> duration" where
  "DefaultSystemOperationIdempotencyTTL coordinator =
     (case coordinator of
        Some cfg \<Rightarrow> if ic_SystemOperationTTL cfg > 0 then ic_SystemOperationTTL cfg
                    else ic_SystemOperationTTL DefaultIdempotencyConfig
      | None \<Rightarrow> ic_SystemOperationTTL DefaultIdempotencyConfig)"

record 'p IdempotencyExecuteOptions =
  io_Scope :: string
  io_ActorScope :: string
  io_Method :: string
  io_Route :: string
  io_IdempotencyKey :: string
  io_Payload :: 'p
  io_TTL :: duration
  io_RequireKey :: bool

record 'd IdempotencyExecuteResult =
  res_Data :: 'd
  res_Replayed :: bool

text \<open>The string is the metadata entry \<^verbatim>\<open>retry_after\<close>; \<open>ErrExec\<close> is the operation's own error.\<close>

datatype 'e idemError =
    ErrIdempotencyKeyRequired
  | ErrIdempotencyKeyInvalid
  | ErrIdempotencyKeyConflict
  | ErrIdempotencyInProgress "string option"
  | ErrIdempotencyRetryBackoff "string option"
  | ErrIdempotencyStoreUnavail
  | ErrIdempotencyInvalidPayload
  | ErrIdempotencyScopeRequired
  | ErrExec 'e

section \<open>Keys, fingerprints and stored responses\<close>

text \<open>
  The loop over the runes of a key rejects what is not printable ASCII; a byte of 128 or more
  always belongs to a rune above 126, and a byte below is a rune of its own.
\<close>

definition NormalizeIdempotencyKey :: "string \<Rightarrow> 'e idemError + string" where
  "NormalizeIdempotencyKey raw =
     (let key = TrimSpace raw in
      if key = [] then Inr []
      else if length key > 128 then Inl ErrIdempotencyKeyInvalid
      else if list_ex (\<lambda>c. (of_char c :: int) < 33 \<or> of_char c > (126 :: int)) key then Inl ErrIdempotencyKeyInvalid
      else Inr key)"

definition HashIdempotencyKey :: "('p, 'd, 'e) idemLib \<Rightarrow> string \<Rightarrow> string" where
  "HashIdempotencyKey lib key = lib_sha256hex lib key"

definition BuildIdempotencyFingerprint ::
  "('p, 'd, 'e) idemLib \<Rightarrow> string \<Rightarrow> string \<Rightarrow> string \<Rightarrow> 'p \<Rightarrow> 'e idemError + string" where
  "BuildIdempotencyFingerprint lib method0 route0 actorScope0 payload =
     (let meth = (if method0 = [] then ''POST'' else method0);
          route = (if route0 = [] then ''/'' else route0);
          actorScope = (if actorScope0 = [] then ''anonymous'' else actorScope0)
      in case lib_MarshalPayload lib payload of
           None \<Rightarrow> Inl ErrIdempotencyInvalidPayload
         | Some raw \<Rightarrow>
             Inr (lib_sha256hex lib
               (lib_ToUpper lib meth @ [CHR 0x0A] @ route @ [CHR 0x0A] @ actorScope @ [CHR 0x0A] @ raw)))"

text \<open>
  \<^verbatim>\<open>int(lockedUntil.Sub(now).Seconds())\<close>: the whole seconds, which the \<^verbatim>\<open>float64\<close> arithmetic
  gets right for the lengths a lock can have (below 97 days).
\<close>

definition retryAfterMeta :: "gotime option \<Rightarrow> gotime \<Rightarrow> string option" where
  "retryAfterMeta lockedUntil now =
     (case lockedUntil of
        None \<Rightarrow> None
      | Some u \<Rightarrow> let sec = go_quot (u - now) second in Some (Itoa (if sec \<le> 0 then 1 else sec)))"

definition conflictWithRetryAfter :: "(string option \<Rightarrow> 'e idemError) \<Rightarrow> gotime option \<Rightarrow> gotime \<Rightarrow> 'e idemError" where
  "conflictWithRetryAfter base lockedUntil now = base (retryAfterMeta lockedUntil now)"

fun retryAfterOf :: "'e idemError \<Rightarrow> string option" where
  "retryAfterOf (ErrIdempotencyInProgress m) = m"
| "retryAfterOf (ErrIdempotencyRetryBackoff m) = m"
| "retryAfterOf _ = None"

definition RetryAfterSecondsFromError :: "'e idemError \<Rightarrow> int" where
  "RetryAfterSecondsFromError err =
     (case retryAfterOf err of
        None \<Rightarrow> 0
      | Some raw \<Rightarrow>
          let v = TrimSpace raw in
          if v = [] then 0
          else (case Atoi v of None \<Rightarrow> 0 | Some seconds \<Rightarrow> if seconds \<le> 0 then 0 else seconds))"

fun validPrefixLen :: "string \<Rightarrow> nat \<Rightarrow> nat" where
  "validPrefixLen s 0 = 0"
| "validPrefixLen s (Suc n) = (if ValidString (take (Suc n) s) then Suc n else validPrefixLen s n)"

definition truncateUTF8 :: "string \<Rightarrow> int \<Rightarrow> string" where
  "truncateUTF8 s maxBytes =
     (if maxBytes \<le> 0 \<or> int (length s) \<le> maxBytes then s
      else take (validPrefixLen s (nat maxBytes)) s)"

definition marshalStoredResponse :: "('p, 'd, 'e) idemLib \<Rightarrow> IdempotencyConfig \<Rightarrow> 'd \<Rightarrow> string option" where
  "marshalStoredResponse lib cfg data =
     (case lib_MarshalData lib data of
        None \<Rightarrow> None
      | Some raw \<Rightarrow>
          let redacted = lib_RedactText lib raw in
          if ic_MaxStoredResponseLen cfg > 0 \<and> int (length redacted) > ic_MaxStoredResponseLen cfg
          then Some (truncateUTF8 redacted (ic_MaxStoredResponseLen cfg) @ ''...(truncated)'')
          else Some redacted)"

definition decodeStoredResponse :: "('p, 'd, 'e) idemLib \<Rightarrow> string option \<Rightarrow> 'd option" where
  "decodeStoredResponse lib stored =
     (case stored of
        None \<Rightarrow> Some (lib_emptyObject lib)
      | Some s \<Rightarrow> if TrimSpace s = [] then Some (lib_emptyObject lib) else lib_Unmarshal lib s)"

section \<open>Execute\<close>

text \<open>
  Claiming a key either answers the request or hands it the id of the record it now owns.
  \<open>answerExisting\<close> is the switch on the status of an existing record, \<open>claimRecord\<close> the part of
  \<^verbatim>\<open>Execute\<close> from the insert to the check of the id.
\<close>

datatype ('d, 'e) claim = Answer "'e idemError + 'd IdempotencyExecuteResult" | Run int

definition answerExisting ::
  "('p, 'd, 'e) idemLib \<Rightarrow> 'r IdempotencyRepository \<Rightarrow> 'r \<Rightarrow> IdempotencyRecord \<Rightarrow> gotime \<Rightarrow> gotime \<Rightarrow> gotime \<Rightarrow>
   ('d, 'e) claim \<times> 'r" where
  "answerExisting lib repo s existing now lockedUntil expiresAt =
     (if ir_Status existing = IdempotencyStatusSucceeded
      then (case decodeStoredResponse lib (ir_ResponseBody existing) of
          None \<Rightarrow> (Answer (Inl ErrIdempotencyStoreUnavail), s)
        | Some data \<Rightarrow> (Answer (Inr \<lparr>res_Data = data, res_Replayed = True\<rparr>), s))
      else if ir_Status existing = IdempotencyStatusProcessing
      then (Answer (Inl (conflictWithRetryAfter ErrIdempotencyInProgress (ir_LockedUntil existing) now)), s)
      else if ir_Status existing = IdempotencyStatusFailedRetryable
      then (if (case ir_LockedUntil existing of None \<Rightarrow> False | Some u \<Rightarrow> now < u)
            then (Answer (Inl (conflictWithRetryAfter ErrIdempotencyRetryBackoff (ir_LockedUntil existing) now)), s)
            else (case TryReclaim repo s (ir_ID existing) IdempotencyStatusFailedRetryable now lockedUntil expiresAt of
                (Inl _, s') \<Rightarrow> (Answer (Inl ErrIdempotencyStoreUnavail), s')
              | (Inr False, s') \<Rightarrow>
                  (Answer (Inl (conflictWithRetryAfter ErrIdempotencyInProgress (ir_LockedUntil existing) now)), s')
              | (Inr True, s') \<Rightarrow> (Run (ir_ID existing), s')))
      else (Answer (Inl ErrIdempotencyKeyConflict), s))"

definition claimRecord ::
  "('p, 'd, 'e) idemLib \<Rightarrow> 'r IdempotencyRepository \<Rightarrow> 'r \<Rightarrow> string \<Rightarrow> string \<Rightarrow> string \<Rightarrow> gotime \<Rightarrow> gotime \<Rightarrow> gotime \<Rightarrow>
   ('d, 'e) claim \<times> 'r" where
  "claimRecord lib repo s scope keyHash fingerprint now lockedUntil expiresAt =
     (let rec = \<lparr>ir_ID = 0, ir_Scope = scope, ir_IdempotencyKeyHash = keyHash, ir_RequestFingerprint = fingerprint,
                 ir_Status = IdempotencyStatusProcessing, ir_ResponseStatus = None, ir_ResponseBody = None,
                 ir_ErrorReason = None, ir_LockedUntil = Some lockedUntil, ir_ExpiresAt = expiresAt\<rparr>
      in case CreateProcessing repo s rec of
        (Inl _, s) \<Rightarrow> (Answer (Inl ErrIdempotencyStoreUnavail), s)
      | (Inr (True, i), s) \<Rightarrow> (Run i, s)
      | (Inr (False, _), s) \<Rightarrow>
          (case GetByScopeAndKeyHash repo s scope keyHash of
             Inl _ \<Rightarrow> (Answer (Inl ErrIdempotencyStoreUnavail), s)
           | Inr None \<Rightarrow> (Answer (Inl ErrIdempotencyStoreUnavail), s)
           | Inr (Some existing) \<Rightarrow>
               if ir_RequestFingerprint existing \<noteq> fingerprint then (Answer (Inl ErrIdempotencyKeyConflict), s)
               else if now < ir_ExpiresAt existing
               then answerExisting lib repo s existing now lockedUntil expiresAt
               else (case TryReclaim repo s (ir_ID existing) (ir_Status existing) now lockedUntil expiresAt of
                   (Inl _, s) \<Rightarrow> (Answer (Inl ErrIdempotencyStoreUnavail), s)
                 | (Inr True, s) \<Rightarrow> (Run (ir_ID existing), s)
                 | (Inr False, s) \<Rightarrow>
                     (case GetByScopeAndKeyHash repo s scope keyHash of
                        Inl _ \<Rightarrow> (Answer (Inl ErrIdempotencyStoreUnavail), s)
                      | Inr None \<Rightarrow> (Answer (Inl ErrIdempotencyStoreUnavail), s)
                      | Inr (Some latest) \<Rightarrow>
                          if ir_RequestFingerprint latest \<noteq> fingerprint
                          then (Answer (Inl ErrIdempotencyKeyConflict), s)
                          else answerExisting lib repo s latest now lockedUntil expiresAt))))"

text \<open>The end of \<^verbatim>\<open>Execute\<close>: store the outcome of the operation under the claimed id.\<close>

definition finishRecord ::
  "('p, 'd, 'e) idemLib \<Rightarrow> IdempotencyConfig \<Rightarrow> 'r IdempotencyRepository \<Rightarrow> int \<Rightarrow> gotime \<Rightarrow> gotime \<Rightarrow>
   ('e + 'd) \<times> 'r \<Rightarrow> ('e idemError + 'd IdempotencyExecuteResult) \<times> 'r" where
  "finishRecord lib cfg repo i expiresAt failedAt outcome =
     (case outcome of
        (Inl execErr, s) \<Rightarrow>
          let backoffUntil = failedAt + ic_FailedRetryBackoff cfg;
              reason = (if lib_Reason lib execErr = [] then ''EXECUTION_FAILED'' else lib_Reason lib execErr)
          in (Inl (ErrExec execErr), snd (MarkFailedRetryable repo s i reason backoffUntil expiresAt))
      | (Inr data, s) \<Rightarrow>
          (case marshalStoredResponse lib cfg data of
             None \<Rightarrow> (Inl ErrIdempotencyStoreUnavail, s)
           | Some storedBody \<Rightarrow>
               (case MarkSucceeded repo s i 200 storedBody expiresAt of
                  (Some _, s) \<Rightarrow> (Inl ErrIdempotencyStoreUnavail, s)
                | (None, s) \<Rightarrow> (Inr \<lparr>res_Data = data, res_Replayed = False\<rparr>, s))))"

text \<open>
  The operation is a function on the store, because other requests use the store while it
  runs. A nil executor is not an argument here; \<^const>\<open>None\<close> for the repository is nil.
\<close>

definition Execute ::
  "('p, 'd, 'e) idemLib \<Rightarrow> IdempotencyConfig \<Rightarrow> 'r IdempotencyRepository option \<Rightarrow> 'p IdempotencyExecuteOptions \<Rightarrow>
   ('r \<Rightarrow> ('e + 'd) \<times> 'r) \<Rightarrow> gotime \<Rightarrow> gotime \<Rightarrow> 'r \<Rightarrow> ('e idemError + 'd IdempotencyExecuteResult) \<times> 'r" where
  "Execute lib cfg repo opts operation now failedAt s =
     (case NormalizeIdempotencyKey (io_IdempotencyKey opts) of
        Inl err \<Rightarrow> (Inl err, s)
      | Inr key \<Rightarrow>
          if key = []
          then (if io_RequireKey opts \<and> \<not> ic_ObserveOnly cfg then (Inl ErrIdempotencyKeyRequired, s)
                else (case operation s of
                    (Inl execErr, s) \<Rightarrow> (Inl (ErrExec execErr), s)
                  | (Inr data, s) \<Rightarrow> (Inr \<lparr>res_Data = data, res_Replayed = False\<rparr>, s)))
          else (case repo of
              None \<Rightarrow> (Inl ErrIdempotencyStoreUnavail, s)
            | Some repo \<Rightarrow>
                if io_Scope opts = [] then (Inl ErrIdempotencyScopeRequired, s)
                else (case BuildIdempotencyFingerprint lib (io_Method opts) (io_Route opts) (io_ActorScope opts) (io_Payload opts) of
                    Inl err \<Rightarrow> (Inl err, s)
                  | Inr fingerprint \<Rightarrow>
                      let ttl = (if io_TTL opts \<le> 0 then ic_DefaultTTL cfg else io_TTL opts);
                          expiresAt = now + ttl;
                          lockedUntil = now + ic_ProcessingTimeout cfg;
                          keyHash = HashIdempotencyKey lib key
                      in (case claimRecord lib repo s (io_Scope opts) keyHash fingerprint now lockedUntil expiresAt of
                            (Answer a, s) \<Rightarrow> (a, s)
                          | (Run i, s) \<Rightarrow>
                              if i = 0 then (Inl ErrIdempotencyStoreUnavail, s)
                              else finishRecord lib cfg repo i expiresAt failedAt (operation s)))))"

section \<open>What the coordinator needs of a store\<close>

text \<open>A request with a usable key and a scope, and the fingerprint it has.\<close>

definition keyedRequest ::
  "('p, 'd, 'e) idemLib \<Rightarrow> 'p IdempotencyExecuteOptions \<Rightarrow> string \<Rightarrow> string \<Rightarrow> bool" where
  "keyedRequest lib opts key fp \<longleftrightarrow>
     (NormalizeIdempotencyKey (io_IdempotencyKey opts) :: 'e idemError + string) = Inr key \<and> key \<noteq> [] \<and>
     io_Scope opts \<noteq> [] \<and>
     BuildIdempotencyFingerprint lib (io_Method opts) (io_Route opts) (io_ActorScope opts) (io_Payload opts) = Inr fp"

definition ttlOf :: "IdempotencyConfig \<Rightarrow> 'p IdempotencyExecuteOptions \<Rightarrow> duration" where
  "ttlOf cfg opts = (if io_TTL opts \<le> 0 then ic_DefaultTTL cfg else io_TTL opts)"

definition newRow :: "IdempotencyConfig \<Rightarrow> 'p IdempotencyExecuteOptions \<Rightarrow> string \<Rightarrow> string \<Rightarrow> gotime \<Rightarrow> int \<Rightarrow> IdempotencyRecord" where
  "newRow cfg opts keyHash fp now i =
     \<lparr>ir_ID = i, ir_Scope = io_Scope opts, ir_IdempotencyKeyHash = keyHash, ir_RequestFingerprint = fp,
      ir_Status = IdempotencyStatusProcessing, ir_ResponseStatus = None, ir_ResponseBody = None,
      ir_ErrorReason = None, ir_LockedUntil = Some (now + ic_ProcessingTimeout cfg),
      ir_ExpiresAt = now + ttlOf cfg opts\<rparr>"

lemma Execute_keyed:
  assumes "keyedRequest lib opts key fp"
  shows "Execute lib cfg (Some repo) opts operation now failedAt s =
    (case claimRecord lib repo s (io_Scope opts) (HashIdempotencyKey lib key) fp now
            (now + ic_ProcessingTimeout cfg) (now + ttlOf cfg opts) of
       (Answer a, s) \<Rightarrow> (a, s)
     | (Run i, s) \<Rightarrow>
         if i = 0 then (Inl ErrIdempotencyStoreUnavail, s)
         else finishRecord lib cfg repo i (now + ttlOf cfg opts) failedAt (operation s))"
  using assms by (simp add: Execute_def keyedRequest_def Let_def flip: ttlOf_def)

text \<open>An operation that leaves the record of one key alone.\<close>

definition leavesAlone ::
  "('r \<Rightarrow> bool) \<Rightarrow> ('r \<Rightarrow> string \<Rightarrow> string \<Rightarrow> IdempotencyRecord option) \<Rightarrow> string \<Rightarrow> string \<Rightarrow> ('r \<Rightarrow> 'x \<times> 'r) \<Rightarrow> bool" where
  "leavesAlone good lookup scope kh operation \<longleftrightarrow>
     (\<forall>s. good s \<longrightarrow> good (snd (operation s)) \<and> lookup (snd (operation s)) scope kh = lookup s scope kh)"

locale idempotency_store =
  fixes repo :: "'r IdempotencyRepository"
    and lookup :: "'r \<Rightarrow> string \<Rightarrow> string \<Rightarrow> IdempotencyRecord option"
    and good :: "'r \<Rightarrow> bool"
  assumes create_new: "good s \<Longrightarrow> lookup s (ir_Scope rec) (ir_IdempotencyKeyHash rec) = None \<Longrightarrow>
      ir_ResponseStatus rec = None \<Longrightarrow> ir_ResponseBody rec = None \<Longrightarrow> ir_ErrorReason rec = None \<Longrightarrow>
      \<exists>i s'. CreateProcessing repo s rec = (Inr (True, i), s') \<and> i \<noteq> 0 \<and> good s' \<and>
        lookup s' (ir_Scope rec) (ir_IdempotencyKeyHash rec) = Some (rec\<lparr>ir_ID := i\<rparr>)"
    and create_taken: "good s \<Longrightarrow> lookup s (ir_Scope rec) (ir_IdempotencyKeyHash rec) = Some r \<Longrightarrow>
      CreateProcessing repo s rec = (Inr (False, 0), s)"
    and get_row: "good s \<Longrightarrow> GetByScopeAndKeyHash repo s scope kh = Inr (lookup s scope kh)"
    and reclaim: "good s \<Longrightarrow> lookup s scope kh = Some r \<Longrightarrow> ir_Status r = st \<Longrightarrow>
      (case ir_LockedUntil r of None \<Rightarrow> True | Some u \<Rightarrow> u \<le> now) \<Longrightarrow>
      \<exists>s'. TryReclaim repo s (ir_ID r) st now l e = (Inr True, s') \<and> good s' \<and>
        lookup s' scope kh = Some (r\<lparr>ir_Status := IdempotencyStatusProcessing, ir_LockedUntil := Some l,
          ir_ErrorReason := None, ir_ExpiresAt := e\<rparr>)"
    and mark_succeeded: "good s \<Longrightarrow> lookup s scope kh = Some r \<Longrightarrow>
      \<exists>s'. MarkSucceeded repo s (ir_ID r) n body e = (None, s') \<and> good s' \<and>
        lookup s' scope kh = Some (r\<lparr>ir_Status := IdempotencyStatusSucceeded, ir_ResponseStatus := Some n,
          ir_ResponseBody := Some body, ir_ErrorReason := None, ir_LockedUntil := None, ir_ExpiresAt := e\<rparr>)"
    and mark_failed: "good s \<Longrightarrow> lookup s scope kh = Some r \<Longrightarrow>
      \<exists>s'. MarkFailedRetryable repo s (ir_ID r) reason l e = (None, s') \<and> good s' \<and>
        lookup s' scope kh = Some (r\<lparr>ir_Status := IdempotencyStatusFailedRetryable,
          ir_ErrorReason := Some reason, ir_LockedUntil := Some l, ir_ExpiresAt := e\<rparr>)"
    and row_id: "good s \<Longrightarrow> lookup s scope kh = Some r \<Longrightarrow> ir_ID r \<noteq> 0"
begin

lemma first_request:
  assumes "good s" "keyedRequest lib opts key fp" "lookup s (io_Scope opts) (HashIdempotencyKey lib key) = None"
  shows "\<exists>i s'. good s' \<and>
    lookup s' (io_Scope opts) (HashIdempotencyKey lib key) = Some (newRow cfg opts (HashIdempotencyKey lib key) fp now i) \<and>
    Execute lib cfg (Some repo) opts operation now failedAt s =
      finishRecord lib cfg repo i (now + ttlOf cfg opts) failedAt (operation s')"
proof -
  let ?rec = "newRow cfg opts (HashIdempotencyKey lib key) fp now 0"
  have "lookup s (ir_Scope ?rec) (ir_IdempotencyKeyHash ?rec) = None" using assms(3) by (simp add: newRow_def)
  from create_new [OF assms(1) this] obtain i s' where "CreateProcessing repo s ?rec = (Inr (True, i), s')" "i \<noteq> 0"
    "good s'" "lookup s' (io_Scope opts) (HashIdempotencyKey lib key) = Some (?rec\<lparr>ir_ID := i\<rparr>)"
    by (auto simp: newRow_def)
  then show ?thesis
    by (intro exI [of _ i] exI [of _ s']) (simp add: Execute_keyed [OF assms(2)] claimRecord_def newRow_def Let_def)
qed

lemma claim_existing:
  assumes "good s" "keyedRequest lib opts key fp"
    and "lookup s (io_Scope opts) (HashIdempotencyKey lib key) = Some r"
  shows "claimRecord lib repo s (io_Scope opts) (HashIdempotencyKey lib key) fp now l e =
    (if ir_RequestFingerprint r \<noteq> fp then (Answer (Inl ErrIdempotencyKeyConflict), s)
     else if now < ir_ExpiresAt r then answerExisting lib repo s r now l e
     else (case TryReclaim repo s (ir_ID r) (ir_Status r) now l e of
         (Inl _, s) \<Rightarrow> (Answer (Inl ErrIdempotencyStoreUnavail), s)
       | (Inr True, s) \<Rightarrow> (Run (ir_ID r), s)
       | (Inr False, s) \<Rightarrow>
           (case GetByScopeAndKeyHash repo s (io_Scope opts) (HashIdempotencyKey lib key) of
              Inl _ \<Rightarrow> (Answer (Inl ErrIdempotencyStoreUnavail), s)
            | Inr None \<Rightarrow> (Answer (Inl ErrIdempotencyStoreUnavail), s)
            | Inr (Some latest) \<Rightarrow>
                if ir_RequestFingerprint latest \<noteq> fp then (Answer (Inl ErrIdempotencyKeyConflict), s)
                else answerExisting lib repo s latest now l e)))"
  using create_taken [OF assms(1)] assms(3) get_row [OF assms(1)]
  by (simp add: claimRecord_def Let_def)

lemma repeat_conflict:
  assumes "good s" "keyedRequest lib opts key fp"
    and "lookup s (io_Scope opts) (HashIdempotencyKey lib key) = Some r" "ir_RequestFingerprint r \<noteq> fp"
  shows "Execute lib cfg (Some repo) opts operation now failedAt s = (Inl ErrIdempotencyKeyConflict, s)"
  using assms(4) by (simp add: Execute_keyed [OF assms(2)] claim_existing [OF assms(1-3)])

lemma repeat_succeeded:
  assumes "good s" "keyedRequest lib opts key fp"
    and "lookup s (io_Scope opts) (HashIdempotencyKey lib key) = Some r" "ir_RequestFingerprint r = fp"
    and "ir_Status r = IdempotencyStatusSucceeded" "now < ir_ExpiresAt r"
  shows "Execute lib cfg (Some repo) opts operation now failedAt s =
    (case decodeStoredResponse lib (ir_ResponseBody r) of
       None \<Rightarrow> (Inl ErrIdempotencyStoreUnavail, s)
     | Some data \<Rightarrow> (Inr \<lparr>res_Data = data, res_Replayed = True\<rparr>, s))"
  using assms(4-6)
  by (simp add: Execute_keyed [OF assms(2)] claim_existing [OF assms(1-3)] answerExisting_def split: option.split)

lemma repeat_failed:
  assumes "good s" "keyedRequest lib opts key fp"
    and "lookup s (io_Scope opts) (HashIdempotencyKey lib key) = Some r" "ir_RequestFingerprint r = fp"
    and "ir_Status r = IdempotencyStatusFailedRetryable" "ir_LockedUntil r = Some u" "now < ir_ExpiresAt r"
  shows "if now < u
    then Execute lib cfg (Some repo) opts operation now failedAt s =
      (Inl (ErrIdempotencyRetryBackoff (retryAfterMeta (Some u) now)), s)
    else \<exists>s'. good s' \<and> lookup s' (io_Scope opts) (HashIdempotencyKey lib key) =
        Some (r\<lparr>ir_Status := IdempotencyStatusProcessing, ir_LockedUntil := Some (now + ic_ProcessingTimeout cfg),
          ir_ErrorReason := None, ir_ExpiresAt := now + ttlOf cfg opts\<rparr>) \<and>
      Execute lib cfg (Some repo) opts operation now failedAt s =
        finishRecord lib cfg repo (ir_ID r) (now + ttlOf cfg opts) failedAt (operation s')"
proof (cases "now < u")
  case True
  with assms(4-7) show ?thesis
    by (simp add: Execute_keyed [OF assms(2)] claim_existing [OF assms(1-3)] answerExisting_def
        conflictWithRetryAfter_def status_defs)
next
  case False
  with reclaim [OF assms(1,3,5), of now "now + ic_ProcessingTimeout cfg" "now + ttlOf cfg opts"] assms(6)
  obtain s' where "TryReclaim repo s (ir_ID r) IdempotencyStatusFailedRetryable now
      (now + ic_ProcessingTimeout cfg) (now + ttlOf cfg opts) = (Inr True, s')" "good s'"
    "lookup s' (io_Scope opts) (HashIdempotencyKey lib key) =
        Some (r\<lparr>ir_Status := IdempotencyStatusProcessing, ir_LockedUntil := Some (now + ic_ProcessingTimeout cfg),
          ir_ErrorReason := None, ir_ExpiresAt := now + ttlOf cfg opts\<rparr>)"
    by auto
  with False assms(4-7) row_id [OF assms(1,3)] show ?thesis
    by (auto simp: Execute_keyed [OF assms(2)] claim_existing [OF assms(1-3)] answerExisting_def status_defs)
qed

text \<open>What a finished operation leaves in the store.\<close>

lemma finish_succeeded:
  assumes "good s" "lookup s scope kh = Some r" "marshalStoredResponse lib cfg data = Some body"
  shows "\<exists>s'. finishRecord lib cfg repo (ir_ID r) e failedAt (Inr data, s) =
      (Inr \<lparr>res_Data = data, res_Replayed = False\<rparr>, s') \<and> good s' \<and>
    lookup s' scope kh = Some (r\<lparr>ir_Status := IdempotencyStatusSucceeded, ir_ResponseStatus := Some 200,
      ir_ResponseBody := Some body, ir_ErrorReason := None, ir_LockedUntil := None, ir_ExpiresAt := e\<rparr>)"
  using mark_succeeded [OF assms(1,2), of 200 body e] assms(3) by (auto simp: finishRecord_def)

lemma finish_failed:
  assumes "good s" "lookup s scope kh = Some r"
  shows "\<exists>s' reason. finishRecord lib cfg repo (ir_ID r) e failedAt (Inl err, s) = (Inl (ErrExec err), s') \<and> good s' \<and>
    lookup s' scope kh = Some (r\<lparr>ir_Status := IdempotencyStatusFailedRetryable, ir_ErrorReason := Some reason,
      ir_LockedUntil := Some (failedAt + ic_FailedRetryBackoff cfg), ir_ExpiresAt := e\<rparr>)"
proof -
  let ?reason = "if lib_Reason lib err = [] then ''EXECUTION_FAILED'' else lib_Reason lib err"
  from mark_failed [OF assms, of ?reason "failedAt + ic_FailedRetryBackoff cfg" e] show ?thesis
    by (auto simp: finishRecord_def Let_def)
qed

text \<open>A first request that succeeds, and what a repetition then gets.\<close>

lemma success_stored:
  assumes "good s" "keyedRequest lib opts key fp" "lookup s (io_Scope opts) (HashIdempotencyKey lib key) = None"
    and "leavesAlone good lookup (io_Scope opts) (HashIdempotencyKey lib key) operation" "\<And>s. fst (operation s) = Inr data"
    and "marshalStoredResponse lib cfg data = Some body"
  shows "\<exists>s'. Execute lib cfg (Some repo) opts operation now failedAt s =
      (Inr \<lparr>res_Data = data, res_Replayed = False\<rparr>, s') \<and> good s' \<and>
    (\<exists>r. lookup s' (io_Scope opts) (HashIdempotencyKey lib key) = Some r \<and> ir_RequestFingerprint r = fp \<and>
      ir_Status r = IdempotencyStatusSucceeded \<and> ir_ResponseBody r = Some body \<and> ir_ExpiresAt r = now + ttlOf cfg opts)"
proof -
  let ?kh = "HashIdempotencyKey lib key"
  obtain i s1 where s1: "good s1" "lookup s1 (io_Scope opts) ?kh = Some (newRow cfg opts ?kh fp now i)"
    "Execute lib cfg (Some repo) opts operation now failedAt s =
      finishRecord lib cfg repo i (now + ttlOf cfg opts) failedAt (operation s1)"
    using first_request [OF assms(1-3)] by blast
  define s2 where "s2 = snd (operation s1)"
  have op: "operation s1 = (Inr data, s2)" using assms(5) [of s1] by (simp add: s2_def prod_eq_iff)
  have "good s2" "lookup s2 (io_Scope opts) ?kh = Some (newRow cfg opts ?kh fp now i)"
    using assms(4) s1(1,2) by (auto simp: leavesAlone_def s2_def)
  from finish_succeeded [OF this assms(6), of "now + ttlOf cfg opts" failedAt] show ?thesis
    using s1(3) op by (auto simp: newRow_def)
qed

lemma failure_stored:
  assumes "good s" "keyedRequest lib opts key fp" "lookup s (io_Scope opts) (HashIdempotencyKey lib key) = None"
    and "leavesAlone good lookup (io_Scope opts) (HashIdempotencyKey lib key) operation" "\<And>s. fst (operation s) = Inl err"
  shows "\<exists>s'. Execute lib cfg (Some repo) opts operation now failedAt s = (Inl (ErrExec err), s') \<and> good s' \<and>
    (\<exists>r. lookup s' (io_Scope opts) (HashIdempotencyKey lib key) = Some r \<and> ir_RequestFingerprint r = fp \<and>
      ir_Status r = IdempotencyStatusFailedRetryable \<and> ir_ExpiresAt r = now + ttlOf cfg opts \<and>
      ir_LockedUntil r = Some (failedAt + ic_FailedRetryBackoff cfg))"
proof -
  let ?kh = "HashIdempotencyKey lib key"
  obtain i s1 where s1: "good s1" "lookup s1 (io_Scope opts) ?kh = Some (newRow cfg opts ?kh fp now i)"
    "Execute lib cfg (Some repo) opts operation now failedAt s =
      finishRecord lib cfg repo i (now + ttlOf cfg opts) failedAt (operation s1)"
    using first_request [OF assms(1-3)] by blast
  define s2 where "s2 = snd (operation s1)"
  have op: "operation s1 = (Inl err, s2)" using assms(5) [of s1] by (simp add: s2_def prod_eq_iff)
  have "good s2" "lookup s2 (io_Scope opts) ?kh = Some (newRow cfg opts ?kh fp now i)"
    using assms(4) s1(1,2) by (auto simp: leavesAlone_def s2_def)
  from finish_failed [OF this, of lib cfg "now + ttlOf cfg opts" failedAt err] show ?thesis
    using s1(3) op by (auto simp: newRow_def)
qed

end

section \<open>The SQL repository is such a store\<close>

definition storeGood :: "idempotencyTable \<Rightarrow> bool" where
  "storeGood t \<longleftrightarrow> tableOk t \<and> \<not> down t"

lemma sql_rows_ids:
  "tableOk t \<Longrightarrow> rowOf t scope kh = Some r \<Longrightarrow> x \<in> set (rows t) \<Longrightarrow> ir_ID x = ir_ID r \<longleftrightarrow> x = r"
  by (auto simp: rowOf_Some_iff dest: tableOk_same_row)

lemma sqlUpdate_row:
  assumes "storeGood t" "rowOf t scope kh = Some r" "keepsKey f" "P r"
  shows "storeGood (snd (sqlUpdate t P f)) \<and> rowOf (snd (sqlUpdate t P f)) scope kh = Some (f r) \<and>
    0 < length (filter P (rows t))"
proof -
  have "r \<in> set (rows t)" using assms(1,2) by (simp add: storeGood_def rowOf_Some_iff)
  with assms(4) have "filter P (rows t) \<noteq> []" by (auto simp: filter_empty_conv)
  with assms show ?thesis by (auto simp: storeGood_def sqlUpdate_ok rowOf_sqlUpdate)
qed

interpretation sql_store: idempotency_store sqlRepository rowOf storeGood
proof (unfold_locales, goal_cases)
  case (1 s rec)
  then have "rowOf (snd (sqlCreateProcessing s rec)) (ir_Scope rec) (ir_IdempotencyKeyHash rec) =
      Some (rec\<lparr>ir_ID := nextID s\<rparr>)"
    by (subst rowOf_Some_iff [OF sqlCreate_ok]) (auto simp: storeGood_def sqlCreateProcessing_def Let_def)
  moreover have "tableOk (snd (sqlCreateProcessing s rec))" using 1 sqlCreate_ok by (auto simp: storeGood_def)
  ultimately show ?case
    using 1 by (auto simp: sqlRepository_def sqlCreateProcessing_def storeGood_def tableOk_def Let_def)
next
  case (4 s scope kh r st now l e)
  then show ?case
    using sqlUpdate_row [OF 4(1,2), of "\<lambda>r. r\<lparr>ir_Status := IdempotencyStatusProcessing, ir_LockedUntil := Some l,
        ir_ErrorReason := None, ir_ExpiresAt := e\<rparr>" "\<lambda>x. ir_ID x = ir_ID r \<and> ir_Status x = st \<and>
        (case ir_LockedUntil x of None \<Rightarrow> True | Some u \<Rightarrow> u \<le> now)"]
    by (auto simp: sqlRepository_def sqlTryReclaim_def storeGood_def split_def Let_def)
next
  case (5 s scope kh r n body e)
  then show ?case
    using sqlUpdate_row [OF 5(1,2), of "\<lambda>r. r\<lparr>ir_Status := IdempotencyStatusSucceeded, ir_ResponseStatus := Some n,
        ir_ResponseBody := Some body, ir_ErrorReason := None, ir_LockedUntil := None, ir_ExpiresAt := e\<rparr>"
        "\<lambda>x. ir_ID x = ir_ID r"]
    by (auto simp: sqlRepository_def sqlMarkSucceeded_def storeGood_def)
next
  case (6 s scope kh r reason l e)
  then show ?case
    using sqlUpdate_row [OF 6(1,2), of "\<lambda>r. r\<lparr>ir_Status := IdempotencyStatusFailedRetryable,
        ir_ErrorReason := Some reason, ir_LockedUntil := Some l, ir_ExpiresAt := e\<rparr>" "\<lambda>x. ir_ID x = ir_ID r"]
    by (auto simp: sqlRepository_def sqlMarkFailedRetryable_def storeGood_def)
next
  case (7 s scope kh r)
  then show ?case by (auto simp: storeGood_def rowOf_Some_iff tableOk_def list_all_iff)
qed (auto simp: sqlRepository_def sqlCreateProcessing_def sqlGetByScopeAndKeyHash_def storeGood_def)

section \<open>Round trips and truncation\<close>

lemma retryAfter_range:
  assumes "int64_range (u - now)"
  shows "int64_range (max 1 (go_quot (u - now) second))" "0 \<le> max 1 (go_quot (u - now) second)"
proof -
  have "go_quot (u - now) second \<le> 9223372036"
    using assms by (auto simp: go_quot_def int64_range_def sgn_if abs_if) 
  then show "int64_range (max 1 (go_quot (u - now) second))" by (auto simp: int64_range_def)
qed simp

lemma validPrefixLen_le: "validPrefixLen s n \<le> n"
  by (induction n) auto

lemma validPrefixLen_valid: "ValidString (take (validPrefixLen s n) s)"
  by (induction n) auto

lemma validPrefixLen_longest: "ValidString (take m s) \<Longrightarrow> m \<le> n \<Longrightarrow> m \<le> validPrefixLen s n"
  by (induction n) (auto simp: le_Suc_eq)

lemma truncated_body:
  assumes "lib_MarshalData lib data = Some raw" "0 < ic_MaxStoredResponseLen cfg"
    and "ic_MaxStoredResponseLen cfg < int (length (lib_RedactText lib raw))"
  shows "\<exists>body. marshalStoredResponse lib cfg data = Some body \<and> body \<noteq> [] \<and> last body = CHR '')''"
  using assms by (simp add: marshalStoredResponse_def)

lemma not_blank: "s \<noteq> [] \<Longrightarrow> last s = CHR '')'' \<Longrightarrow> TrimSpace s \<noteq> []"
proof
  assume "s \<noteq> []" "last s = CHR '')''" "TrimSpace s = []"
  then have "CHR '')'' \<in> last ` set go_spaces" using TrimSpace_eq_Nil [of s] by simp
  then show False by (simp add: go_spaces_def)
qed

section \<open>Properties\<close>

text \<open>
  (C3) A repeated request is answered from the store: when the first request with a key the
  store does not know yet has succeeded with a response that can be encoded, and the store
  stays up, a request with the same scope, key and fingerprint before the record expires never
  runs its operation and leaves the store as it is. It returns the stored response as a replay;
  where what was stored cannot be read back (as a response cut off at the configured length), it
  gets the error of an unavailable store. A request that reuses the key with another fingerprint
  is refused.
\<close>

theorem idempotency_replay:
  assumes "storeGood t" "keyedRequest lib opts key fp" "rowOf t (io_Scope opts) (HashIdempotencyKey lib key) = None"
    and "leavesAlone storeGood rowOf (io_Scope opts) (HashIdempotencyKey lib key) operation"
    and "\<And>s. fst (operation s) = Inr data" "marshalStoredResponse lib cfg data = Some body"
    and "keyedRequest lib opts2 key fp2" "io_Scope opts2 = io_Scope opts" "now2 < now + ttlOf cfg opts"
  shows "\<exists>t'. Execute lib cfg (Some sqlRepository) opts operation now failedAt t =
      (Inr \<lparr>res_Data = data, res_Replayed = False\<rparr>, t') \<and>
    Execute lib cfg (Some sqlRepository) opts2 operation2 now2 failedAt2 t' =
      (if fp2 = fp
       then (case decodeStoredResponse lib (Some body) of
           None \<Rightarrow> Inl ErrIdempotencyStoreUnavail
         | Some replayed \<Rightarrow> Inr \<lparr>res_Data = replayed, res_Replayed = True\<rparr>)
       else Inl ErrIdempotencyKeyConflict, t')"
proof -
  from sql_store.success_stored [OF assms(1-4) assms(5,6)] obtain t' r where t':
    "Execute lib cfg (Some sqlRepository) opts operation now failedAt t = (Inr \<lparr>res_Data = data, res_Replayed = False\<rparr>, t')"
    "storeGood t'" "rowOf t' (io_Scope opts) (HashIdempotencyKey lib key) = Some r" "ir_RequestFingerprint r = fp"
    "ir_Status r = IdempotencyStatusSucceeded" "ir_ResponseBody r = Some body" "ir_ExpiresAt r = now + ttlOf cfg opts"
    by blast
  note row = t'(3) [folded assms(8)]
  show ?thesis
  proof (cases "fp2 = fp")
    case True
    with sql_store.repeat_succeeded [OF t'(2) assms(7) row] t' assms(9) show ?thesis
      by (auto split: option.split)
  next
    case False
    with sql_store.repeat_conflict [OF t'(2) assms(7) row] t' show ?thesis by auto
  qed
qed

text \<open>A concrete library for the examples: payloads and responses are strings, encoded as themselves.\<close>

definition exampleLib :: "(string, string, string) idemLib" where
  "exampleLib = \<lparr>lib_MarshalPayload = Some, lib_MarshalData = Some,
     lib_Unmarshal = (\<lambda>s. if s \<noteq> [] \<and> last s = CHR '')'' then None else Some s),
     lib_emptyObject = ''{}'', lib_sha256hex = id, lib_ToUpper = id, lib_RedactText = id, lib_Reason = id\<rparr>"

definition exampleOpts :: "string \<Rightarrow> string IdempotencyExecuteOptions" where
  "exampleOpts payload = \<lparr>io_Scope = ''orders'', io_ActorScope = ''user:1'', io_Method = ''POST'', io_Route = ''/orders'',
     io_IdempotencyKey = ''k1'', io_Payload = payload, io_TTL = 0, io_RequireKey = True\<rparr>"

definition emptyTable :: idempotencyTable where
  "emptyTable = \<lparr>rows = [], nextID = 1, down = False\<rparr>"

definition exampleFp :: "string \<Rightarrow> string" where
  "exampleFp payload = ''POST'' @ [CHR 0x0A] @ ''/orders'' @ [CHR 0x0A] @ ''user:1'' @ [CHR 0x0A] @ payload"

lemma example_request: "keyedRequest exampleLib (exampleOpts payload) ''k1'' (exampleFp payload)"
proof -
  have "TrimSpace ''k1'' = ''k1''" by code_simp
  then show ?thesis
    by (simp add: keyedRequest_def NormalizeIdempotencyKey_def BuildIdempotencyFingerprint_def exampleLib_def
        exampleOpts_def exampleFp_def Let_def)
qed

lemma example_store: "storeGood emptyTable" "rowOf emptyTable scope kh = None"
  by (simp_all add: storeGood_def tableOk_def emptyTable_def rowOf_def)

theorem idempotency_replay_witness:
  "\<exists>t'. Execute exampleLib DefaultIdempotencyConfig (Some sqlRepository) (exampleOpts ''p'') (Pair (Inr ''done'')) 0 0 emptyTable =
      (Inr \<lparr>res_Data = ''done'', res_Replayed = False\<rparr>, t') \<and>
    Execute exampleLib DefaultIdempotencyConfig (Some sqlRepository) (exampleOpts ''p'') (Pair (Inr ''again'')) hour 0 t' =
      (Inr \<lparr>res_Data = ''done'', res_Replayed = True\<rparr>, t')"
proof -
  have "TrimSpace ''done'' = ''done''" by code_simp
  then show ?thesis
    using idempotency_replay [OF example_store(1) example_request example_store(2),
        of "''p''" "Pair (Inr ''done'')" "''done''" DefaultIdempotencyConfig "''done''" "exampleOpts ''p''"
          "exampleFp ''p''" hour 0 0 "Pair (Inr ''again'')" 0] example_request [of "''p''"]
    by (simp add: leavesAlone_def marshalStoredResponse_def decodeStoredResponse_def exampleLib_def
        DefaultIdempotencyConfig_def ttlOf_def exampleOpts_def)
qed

text \<open>
  After a failed operation the key backs off and is then free again: a repetition before
  the backoff has passed is refused with the time to wait, and the first one after it runs its
  own operation and returns what that returns.
\<close>

theorem idempotency_backoff:
  assumes "storeGood t" "keyedRequest lib opts key fp" "rowOf t (io_Scope opts) (HashIdempotencyKey lib key) = None"
    and "leavesAlone storeGood rowOf (io_Scope opts) (HashIdempotencyKey lib key) operation"
    and "\<And>s. fst (operation s) = Inl err"
    and "leavesAlone storeGood rowOf (io_Scope opts) (HashIdempotencyKey lib key) operation2"
    and "\<And>s. fst (operation2 s) = Inr data" "marshalStoredResponse lib cfg data = Some body"
    and "now2 < now + ttlOf cfg opts"
  shows "\<exists>t'. Execute lib cfg (Some sqlRepository) opts operation now failedAt t = (Inl (ErrExec err), t') \<and>
    (if now2 < failedAt + ic_FailedRetryBackoff cfg
     then Execute lib cfg (Some sqlRepository) opts operation2 now2 failedAt2 t' =
       (Inl (ErrIdempotencyRetryBackoff (retryAfterMeta (Some (failedAt + ic_FailedRetryBackoff cfg)) now2)), t')
     else fst (Execute lib cfg (Some sqlRepository) opts operation2 now2 failedAt2 t') =
       Inr \<lparr>res_Data = data, res_Replayed = False\<rparr>)"
proof -
  let ?kh = "HashIdempotencyKey lib key" and ?u = "failedAt + ic_FailedRetryBackoff cfg"
  from sql_store.failure_stored [OF assms(1-5)] obtain t' r where t':
    "Execute lib cfg (Some sqlRepository) opts operation now failedAt t = (Inl (ErrExec err), t')"
    "storeGood t'" "rowOf t' (io_Scope opts) ?kh = Some r" "ir_RequestFingerprint r = fp"
    "ir_Status r = IdempotencyStatusFailedRetryable" "ir_LockedUntil r = Some ?u" "ir_ExpiresAt r = now + ttlOf cfg opts"
    by blast
  have "now2 < ir_ExpiresAt r" using t'(7) assms(9) by simp
  note again = sql_store.repeat_failed [OF t'(2) assms(2) t'(3-6) this, of cfg operation2 failedAt2]
  show ?thesis
  proof (cases "now2 < ?u")
    case True
    with again t'(1) show ?thesis by auto
  next
    case False
    with again obtain s1 where s1: "storeGood s1" "rowOf s1 (io_Scope opts) ?kh = Some
        (r\<lparr>ir_Status := IdempotencyStatusProcessing, ir_LockedUntil := Some (now2 + ic_ProcessingTimeout cfg),
          ir_ErrorReason := None, ir_ExpiresAt := now2 + ttlOf cfg opts\<rparr>)" (is "_ = Some ?r")
      "Execute lib cfg (Some sqlRepository) opts operation2 now2 failedAt2 t' =
        finishRecord lib cfg sqlRepository (ir_ID r) (now2 + ttlOf cfg opts) failedAt2 (operation2 s1)"
      by auto
    have "operation2 s1 = (Inr data, snd (operation2 s1))" using assms(7) [of s1] by (simp add: prod_eq_iff)
    moreover have "storeGood (snd (operation2 s1))" "rowOf (snd (operation2 s1)) (io_Scope opts) ?kh = Some ?r"
      using assms(6) s1(1,2) by (auto simp: leavesAlone_def)
    ultimately show ?thesis
      using sql_store.finish_succeeded [of "snd (operation2 s1)" "io_Scope opts" ?kh ?r lib cfg data body
          "now2 + ttlOf cfg opts" failedAt2] assms(8) False t'(1) s1(3) by auto
  qed
qed

theorem idempotency_backoff_witness:
  "\<exists>t'. Execute exampleLib DefaultIdempotencyConfig (Some sqlRepository) (exampleOpts ''p'') (Pair (Inl ''boom'')) 0 second emptyTable =
      (Inl (ErrExec ''boom''), t') \<and>
    Execute exampleLib DefaultIdempotencyConfig (Some sqlRepository) (exampleOpts ''p'') (Pair (Inr ''done'')) (3 * second) 0 t' =
      (Inl (ErrIdempotencyRetryBackoff (retryAfterMeta (Some (6 * second)) (3 * second))), t')"
  using idempotency_backoff [OF example_store(1) example_request example_store(2),
      of "''p''" "Pair (Inl ''boom'')" "''boom''" "Pair (Inr ''done'')" "''done''" DefaultIdempotencyConfig "''done''"
        "3 * second" 0 second 0]
  by (simp add: leavesAlone_def marshalStoredResponse_def exampleLib_def DefaultIdempotencyConfig_def ttlOf_def
      exampleOpts_def)

text \<open>
  The waiting time survives its way through the error's metadata: what
  \<^verbatim>\<open>RetryAfterSecondsFromError\<close> reads back is the number of whole seconds until the lock ends,
  and never less than one.
\<close>

theorem retry_after_roundtrip:
  assumes "int64_range (u - now)"
  shows "RetryAfterSecondsFromError (conflictWithRetryAfter ErrIdempotencyInProgress (Some u) now) =
      max 1 (go_quot (u - now) second) \<and>
    RetryAfterSecondsFromError (conflictWithRetryAfter ErrIdempotencyRetryBackoff (Some u) now) =
      max 1 (go_quot (u - now) second)"
proof -
  let ?n = "max 1 (go_quot (u - now) second)"
  note r = retryAfter_range [OF assms]
  have "retryAfterMeta (Some u) now = Some (Itoa ?n)" by (auto simp: retryAfterMeta_def Let_def max_def)
  moreover have "Itoa ?n \<noteq> []" by (simp add: Itoa_def)
  ultimately show ?thesis
    by (simp add: RetryAfterSecondsFromError_def conflictWithRetryAfter_def TrimSpace_Itoa [OF r(2)]
        Atoi_Itoa [OF r(2,1)] Let_def)
qed

theorem retry_after_roundtrip_witness:
  "RetryAfterSecondsFromError (conflictWithRetryAfter ErrIdempotencyInProgress (Some (30 * second)) 500000000 ::
     string idemError) = 29"
  by (simp add: retry_after_roundtrip int64_range_def go_quot_def)

text \<open>
  Truncation keeps the encoding whole: a string longer than the limit is cut to the
  longest of its prefixes within the limit that is valid UTF-8; a shorter one is kept.
\<close>

theorem truncateUTF8_longest_valid:
  "if maxBytes \<le> 0 \<or> int (length s) \<le> maxBytes then truncateUTF8 s maxBytes = s
   else \<exists>n. truncateUTF8 s maxBytes = take n s \<and> int n \<le> maxBytes \<and> ValidString (take n s) \<and>
     (\<forall>m. (if int m \<le> maxBytes \<and> ValidString (take m s) then m \<le> n else True))"
proof (cases "maxBytes \<le> 0 \<or> int (length s) \<le> maxBytes")
  case False
  define n where "n = validPrefixLen s (nat maxBytes)"
  have "n \<le> nat maxBytes" unfolding n_def by (rule validPrefixLen_le)
  with False have "truncateUTF8 s maxBytes = take n s \<and> int n \<le> maxBytes \<and> ValidString (take n s) \<and>
      (\<forall>m. (if int m \<le> maxBytes \<and> ValidString (take m s) then m \<le> n else True))"
    using validPrefixLen_valid [of s "nat maxBytes"] validPrefixLen_longest [of _ s "nat maxBytes"]
    by (auto simp: truncateUTF8_def n_def)
  with False show ?thesis by auto
qed (simp add: truncateUTF8_def)

text \<open>
  A response that is too long to be stored whole is not replayed: its stored form ends in
  the marker \<^verbatim>\<open>...(truncated)\<close>, which no JSON text ends in, so a repetition of the successful
  request is answered with the store error instead of the response.
\<close>

theorem truncated_response_not_replayed:
  assumes "storeGood t" "keyedRequest lib opts key fp" "rowOf t (io_Scope opts) (HashIdempotencyKey lib key) = None"
    and "leavesAlone storeGood rowOf (io_Scope opts) (HashIdempotencyKey lib key) operation"
    and "\<And>s. fst (operation s) = Inr data"
    and "lib_MarshalData lib data = Some raw" "0 < ic_MaxStoredResponseLen cfg"
      "ic_MaxStoredResponseLen cfg < int (length (lib_RedactText lib raw))"
    and json: "\<And>text. text \<noteq> [] \<Longrightarrow> last text = CHR '')'' \<Longrightarrow> lib_Unmarshal lib text = None"
    and "now2 < now + ttlOf cfg opts"
  shows "\<exists>t'. Execute lib cfg (Some sqlRepository) opts operation now failedAt t =
      (Inr \<lparr>res_Data = data, res_Replayed = False\<rparr>, t') \<and>
    Execute lib cfg (Some sqlRepository) opts operation2 now2 failedAt2 t' = (Inl ErrIdempotencyStoreUnavail, t')"
proof -
  from truncated_body [OF assms(6-8)] obtain body where
    body: "marshalStoredResponse lib cfg data = Some body" "body \<noteq> []" "last body = CHR '')''" by blast
  then have dec: "decodeStoredResponse lib (Some body) = None"
    by (simp add: decodeStoredResponse_def not_blank json)
  from sql_store.success_stored [OF assms(1-4) assms(5) body(1)] obtain t' r where t':
    "Execute lib cfg (Some sqlRepository) opts operation now failedAt t = (Inr \<lparr>res_Data = data, res_Replayed = False\<rparr>, t')"
    "storeGood t'" "rowOf t' (io_Scope opts) (HashIdempotencyKey lib key) = Some r" "ir_RequestFingerprint r = fp"
    "ir_Status r = IdempotencyStatusSucceeded" "ir_ResponseBody r = Some body" "ir_ExpiresAt r = now + ttlOf cfg opts"
    by blast
  with sql_store.repeat_succeeded [OF t'(2) assms(2) t'(3-5)] dec assms(10) show ?thesis by auto
qed

definition smallConfig :: IdempotencyConfig where
  "smallConfig = DefaultIdempotencyConfig\<lparr>ic_MaxStoredResponseLen := 4\<rparr>"

theorem truncated_response_not_replayed_witness:
  "\<exists>t'. Execute exampleLib smallConfig (Some sqlRepository) (exampleOpts ''p'') (Pair (Inr ''long answer'')) 0 0 emptyTable =
      (Inr \<lparr>res_Data = ''long answer'', res_Replayed = False\<rparr>, t') \<and>
    Execute exampleLib smallConfig (Some sqlRepository) (exampleOpts ''p'') (Pair (Inr ''x'')) hour 0 t' =
      (Inl ErrIdempotencyStoreUnavail, t')"
  by (rule truncated_response_not_replayed [OF example_store(1) example_request example_store(2)])
    (auto simp: leavesAlone_def exampleLib_def smallConfig_def DefaultIdempotencyConfig_def ttlOf_def exampleOpts_def)

end
