(* ===== verification/Slots.thy ===== *)
theory Slots
  imports Transitions "HOL-Library.AList"
begin

text \<open>
  Concurrency slots: \<^verbatim>\<open>backend/internal/repository/concurrency_cache.go\<close>. The slots of an account
  or a user are the members of one Redis sorted set, scored with the second in which they were
  taken; the Lua scripts drop what is older than the slot lifetime before they count. Wait
  queues are Redis counters with a lifetime.

  Redis runs a script or a pipeline as a unit here. A key whose lifetime has passed is gone,
  and a sorted set without members has no key. Instants are Redis' Unix time in whole seconds;
  the code asks for the time in a round trip of its own before it runs a script, so the instant of a
  script is the one that was handed to it, not the one at which it runs.
  The last section relates the scripts to a table of slots that never expires keys and never
  drops members, only ignores the old ones.
\<close>

section \<open>Sorted sets and counters\<close>

record zset =
  zmembers :: "(string \<times> int) list"
  zexpire :: "int option"

definition emptyZset :: zset where
  "emptyZset = \<lparr>zmembers = [], zexpire = None\<rparr>"

text \<open>What a command sees of a key at an instant.\<close>

definition zlive :: "int \<Rightarrow> zset \<Rightarrow> zset" where
  "zlive now z =
     (case zexpire z of None \<Rightarrow> z | Some e \<Rightarrow> if e \<le> now then emptyZset else z)"

definition ZREMRANGEBYSCORE :: "int \<Rightarrow> zset \<Rightarrow> zset" where
  "ZREMRANGEBYSCORE upTo z = z\<lparr>zmembers := filter (\<lambda>(m, score). upTo < score) (zmembers z)\<rparr>"

definition ZADD :: "int \<Rightarrow> string \<Rightarrow> zset \<Rightarrow> zset" where
  "ZADD score member z = z\<lparr>zmembers := AList.update member score (zmembers z)\<rparr>"

definition ZREM :: "string \<Rightarrow> zset \<Rightarrow> zset" where
  "ZREM member z = z\<lparr>zmembers := AList.delete member (zmembers z)\<rparr>"

definition ZSCORE :: "string \<Rightarrow> zset \<Rightarrow> int option" where
  "ZSCORE member z = map_of (zmembers z) member"

definition ZCARD :: "zset \<Rightarrow> int" where
  "ZCARD z = int (length (zmembers z))"

definition EXPIRE :: "int \<Rightarrow> int \<Rightarrow> zset \<Rightarrow> zset" where
  "EXPIRE now ttl z = (if zmembers z = [] then emptyZset else z\<lparr>zexpire := Some (now + ttl)\<rparr>)"

section \<open>The scripts\<close>

definition acquireScript :: "int \<Rightarrow> int \<Rightarrow> string \<Rightarrow> int \<Rightarrow> zset \<Rightarrow> bool \<times> zset" where
  "acquireScript maxConcurrency ttl requestID now z0 =
     (let z = ZREMRANGEBYSCORE (now - ttl) (zlive now z0) in
      case ZSCORE requestID z of
        Some _ \<Rightarrow> (True, EXPIRE now ttl (ZADD now requestID z))
      | None \<Rightarrow>
          if ZCARD z < maxConcurrency then (True, EXPIRE now ttl (ZADD now requestID z))
          else (False, z))"

definition releaseCommand :: "string \<Rightarrow> int \<Rightarrow> zset \<Rightarrow> zset" where
  "releaseCommand requestID now z = ZREM requestID (zlive now z)"

definition getCountScript :: "int \<Rightarrow> int \<Rightarrow> zset \<Rightarrow> int \<times> zset" where
  "getCountScript ttl now z0 = (let z = ZREMRANGEBYSCORE (now - ttl) (zlive now z0) in (ZCARD z, z))"

definition cleanupExpiredSlotsScript :: "int \<Rightarrow> int \<Rightarrow> zset \<Rightarrow> zset" where
  "cleanupExpiredSlotsScript ttl now z0 =
     (let z = ZREMRANGEBYSCORE (now - ttl) (zlive now z0) in
      if ZCARD z = 0 then emptyZset else EXPIRE now ttl z)"

definition startupCleanupScript :: "string \<Rightarrow> int \<Rightarrow> int \<Rightarrow> zset \<Rightarrow> zset" where
  "startupCleanupScript activePrefix slotTTL now z0 =
     (let z = zlive now z0;
          kept = z\<lparr>zmembers := filter (\<lambda>(m, score). prefix activePrefix m) (zmembers z)\<rparr>
      in if ZCARD kept = 0 then emptyZset else EXPIRE now slotTTL kept)"

text \<open>A counter is its value and the instant it expires at.\<close>

type_synonym counter = "(int \<times> int) option"

definition counterLive :: "int \<Rightarrow> counter \<Rightarrow> counter" where
  "counterLive now c = (case c of None \<Rightarrow> None | Some (v, e) \<Rightarrow> if e \<le> now then None else c)"

definition counterValue :: "int \<Rightarrow> counter \<Rightarrow> int" where
  "counterValue now c = (case counterLive now c of None \<Rightarrow> 0 | Some (v, e) \<Rightarrow> v)"

definition incrementWaitScript :: "int \<Rightarrow> int \<Rightarrow> int \<Rightarrow> counter \<Rightarrow> bool \<times> counter" where
  "incrementWaitScript maxWait ttl now c =
     (let current = counterValue now c in
      if current \<ge> maxWait then (False, counterLive now c)
      else (True, Some (current + 1, now + ttl)))"

definition decrementWaitScript :: "int \<Rightarrow> counter \<Rightarrow> counter" where
  "decrementWaitScript now c =
     (case counterLive now c of
        None \<Rightarrow> None
      | Some (v, e) \<Rightarrow> if v > 0 then Some (v - 1, e) else Some (v, e))"

section \<open>The cache\<close>

record redis =
  zsets :: "string \<Rightarrow> zset"
  counters :: "string \<Rightarrow> counter"
  unavailable :: bool

definition redisError :: string where "redisError = ''redis unavailable''"

record concurrencyCache =
  slotTTLSeconds :: int
  waitQueueTTLSeconds :: int

definition defaultSlotTTLMinutes :: int where "defaultSlotTTLMinutes = 15"

definition NewConcurrencyCache :: "int \<Rightarrow> int \<Rightarrow> concurrencyCache" where
  "NewConcurrencyCache slotTTLMinutes0 waitQueueTTLSeconds0 =
     (let slotTTLMinutes = (if slotTTLMinutes0 \<le> 0 then defaultSlotTTLMinutes else slotTTLMinutes0)
      in \<lparr>slotTTLSeconds = wrap64 (slotTTLMinutes * 60),
          waitQueueTTLSeconds =
            (if waitQueueTTLSeconds0 \<le> 0 then wrap64 (slotTTLMinutes * 60) else waitQueueTTLSeconds0)\<rparr>)"

definition accountSlotKeyPrefix :: string where "accountSlotKeyPrefix = ''concurrency:account:''"
definition userSlotKeyPrefix :: string where "userSlotKeyPrefix = ''concurrency:user:''"
definition waitQueueKeyPrefix :: string where "waitQueueKeyPrefix = ''concurrency:wait:''"
definition accountWaitKeyPrefix :: string where "accountWaitKeyPrefix = ''wait:account:''"

definition accountSlotKey :: "int \<Rightarrow> string" where "accountSlotKey accountID = accountSlotKeyPrefix @ Itoa accountID"
definition userSlotKey :: "int \<Rightarrow> string" where "userSlotKey userID = userSlotKeyPrefix @ Itoa userID"
definition waitQueueKey :: "int \<Rightarrow> string" where "waitQueueKey userID = waitQueueKeyPrefix @ Itoa userID"
definition accountWaitKey :: "int \<Rightarrow> string" where "accountWaitKey accountID = accountWaitKeyPrefix @ Itoa accountID"

definition runZset :: "redis \<Rightarrow> string \<Rightarrow> (zset \<Rightarrow> 'a \<times> zset) \<Rightarrow> (string + 'a) \<times> redis" where
  "runZset r key script =
     (if unavailable r then (Inl redisError, r)
      else (case script (zsets r key) of (x, z) \<Rightarrow> (Inr x, r\<lparr>zsets := (zsets r)(key := z)\<rparr>)))"

definition runCounter :: "redis \<Rightarrow> string \<Rightarrow> (counter \<Rightarrow> 'a \<times> counter) \<Rightarrow> (string + 'a) \<times> redis" where
  "runCounter r key script =
     (if unavailable r then (Inl redisError, r)
      else (case script (counters r key) of (x, c) \<Rightarrow> (Inr x, r\<lparr>counters := (counters r)(key := c)\<rparr>)))"

definition AcquireAccountSlot :: "concurrencyCache \<Rightarrow> redis \<Rightarrow> int \<Rightarrow> int \<Rightarrow> int \<Rightarrow> string \<Rightarrow> (string + bool) \<times> redis" where
  "AcquireAccountSlot c r now accountID maxConcurrency requestID =
     runZset r (accountSlotKey accountID) (acquireScript maxConcurrency (slotTTLSeconds c) requestID now)"

definition ReleaseAccountSlot :: "redis \<Rightarrow> int \<Rightarrow> int \<Rightarrow> string \<Rightarrow> (string + unit) \<times> redis" where
  "ReleaseAccountSlot r now accountID requestID =
     runZset r (accountSlotKey accountID) (\<lambda>z. ((), releaseCommand requestID now z))"

definition GetAccountConcurrency :: "concurrencyCache \<Rightarrow> redis \<Rightarrow> int \<Rightarrow> int \<Rightarrow> (string + int) \<times> redis" where
  "GetAccountConcurrency c r now accountID =
     runZset r (accountSlotKey accountID) (getCountScript (slotTTLSeconds c) now)"

definition AcquireUserSlot :: "concurrencyCache \<Rightarrow> redis \<Rightarrow> int \<Rightarrow> int \<Rightarrow> int \<Rightarrow> string \<Rightarrow> (string + bool) \<times> redis" where
  "AcquireUserSlot c r now userID maxConcurrency requestID =
     runZset r (userSlotKey userID) (acquireScript maxConcurrency (slotTTLSeconds c) requestID now)"

definition ReleaseUserSlot :: "redis \<Rightarrow> int \<Rightarrow> int \<Rightarrow> string \<Rightarrow> (string + unit) \<times> redis" where
  "ReleaseUserSlot r now userID requestID =
     runZset r (userSlotKey userID) (\<lambda>z. ((), releaseCommand requestID now z))"

definition GetUserConcurrency :: "concurrencyCache \<Rightarrow> redis \<Rightarrow> int \<Rightarrow> int \<Rightarrow> (string + int) \<times> redis" where
  "GetUserConcurrency c r now userID =
     runZset r (userSlotKey userID) (getCountScript (slotTTLSeconds c) now)"

definition IncrementWaitCount :: "concurrencyCache \<Rightarrow> redis \<Rightarrow> int \<Rightarrow> int \<Rightarrow> int \<Rightarrow> (string + bool) \<times> redis" where
  "IncrementWaitCount c r now userID maxWait =
     runCounter r (waitQueueKey userID) (incrementWaitScript maxWait (waitQueueTTLSeconds c) now)"

definition DecrementWaitCount :: "redis \<Rightarrow> int \<Rightarrow> int \<Rightarrow> (string + unit) \<times> redis" where
  "DecrementWaitCount r now userID =
     runCounter r (waitQueueKey userID) (\<lambda>c. ((), decrementWaitScript now c))"

definition IncrementAccountWaitCount :: "concurrencyCache \<Rightarrow> redis \<Rightarrow> int \<Rightarrow> int \<Rightarrow> int \<Rightarrow> (string + bool) \<times> redis" where
  "IncrementAccountWaitCount c r now accountID maxWait =
     runCounter r (accountWaitKey accountID) (incrementWaitScript maxWait (waitQueueTTLSeconds c) now)"

definition DecrementAccountWaitCount :: "redis \<Rightarrow> int \<Rightarrow> int \<Rightarrow> (string + unit) \<times> redis" where
  "DecrementAccountWaitCount r now accountID =
     runCounter r (accountWaitKey accountID) (\<lambda>c. ((), decrementWaitScript now c))"

definition GetAccountWaitingCount :: "redis \<Rightarrow> int \<Rightarrow> int \<Rightarrow> string + int" where
  "GetAccountWaitingCount r now accountID =
     (if unavailable r then Inl redisError else Inr (counterValue now (counters r (accountWaitKey accountID))))"

record LoadInfo =
  li_ID :: int
  li_CurrentConcurrency :: int
  li_WaitingCount :: int
  li_LoadRate :: int

text \<open>
  One entry of a load batch: purge the set, count it, read the counter. \<open>slotKey\<close> and \<open>waitKey\<close>
  are the key functions of accounts or of users; an entry is an id with its concurrency limit.
\<close>

definition loadEntry :: "int \<Rightarrow> int \<Rightarrow> (int \<Rightarrow> string) \<Rightarrow> (int \<Rightarrow> string) \<Rightarrow> redis \<Rightarrow> int \<times> int \<Rightarrow> LoadInfo \<times> redis" where
  "loadEntry ttl now slotKey waitKey r entry =
     (case entry of (i, maxConcurrency) \<Rightarrow>
        let (currentConcurrency, z) = getCountScript ttl now (zsets r (slotKey i));
            waitingCount = counterValue now (counters r (waitKey i));
            loadRate = (if maxConcurrency > 0
                        then go_quot (wrap64 ((currentConcurrency + waitingCount) * 100)) maxConcurrency else 0)
        in (\<lparr>li_ID = i, li_CurrentConcurrency = currentConcurrency, li_WaitingCount = waitingCount,
             li_LoadRate = loadRate\<rparr>, r\<lparr>zsets := (zsets r)(slotKey i := z)\<rparr>))"

fun loadEntries :: "int \<Rightarrow> int \<Rightarrow> (int \<Rightarrow> string) \<Rightarrow> (int \<Rightarrow> string) \<Rightarrow> redis \<Rightarrow> (int \<times> int) list \<Rightarrow> LoadInfo list \<times> redis" where
  "loadEntries ttl now slotKey waitKey r [] = ([], r)"
| "loadEntries ttl now slotKey waitKey r (e # es) =
     (let (info, r1) = loadEntry ttl now slotKey waitKey r e;
          (infos, r2) = loadEntries ttl now slotKey waitKey r1 es
      in (info # infos, r2))"

text \<open>The result map, keyed by id: a repeated id keeps its last entry.\<close>

definition loadMap :: "LoadInfo list \<Rightarrow> int \<Rightarrow> LoadInfo option" where
  "loadMap infos = map_of (rev (map (\<lambda>info. (li_ID info, info)) infos))"

definition GetAccountsLoadBatch ::
  "concurrencyCache \<Rightarrow> redis \<Rightarrow> int \<Rightarrow> (int \<times> int) list \<Rightarrow> (string + (int \<Rightarrow> LoadInfo option)) \<times> redis" where
  "GetAccountsLoadBatch c r now accounts =
     (if accounts = [] then (Inr (\<lambda>_. None), r)
      else if unavailable r then (Inl redisError, r)
      else let (infos, r') = loadEntries (slotTTLSeconds c) now accountSlotKey accountWaitKey r accounts
           in (Inr (loadMap infos), r'))"

definition GetUsersLoadBatch ::
  "concurrencyCache \<Rightarrow> redis \<Rightarrow> int \<Rightarrow> (int \<times> int) list \<Rightarrow> (string + (int \<Rightarrow> LoadInfo option)) \<times> redis" where
  "GetUsersLoadBatch c r now users =
     (if users = [] then (Inr (\<lambda>_. None), r)
      else if unavailable r then (Inl redisError, r)
      else let (infos, r') = loadEntries (slotTTLSeconds c) now userSlotKey waitQueueKey r users
           in (Inr (loadMap infos), r'))"

fun countEntries :: "int \<Rightarrow> int \<Rightarrow> redis \<Rightarrow> int list \<Rightarrow> (int \<times> int) list \<times> redis" where
  "countEntries ttl now r [] = ([], r)"
| "countEntries ttl now r (i # is) =
     (let (count, z) = getCountScript ttl now (zsets r (accountSlotKey i));
          (counts, r') = countEntries ttl now (r\<lparr>zsets := (zsets r)(accountSlotKey i := z)\<rparr>) is
      in ((i, count) # counts, r'))"

definition GetAccountConcurrencyBatch ::
  "concurrencyCache \<Rightarrow> redis \<Rightarrow> int \<Rightarrow> int list \<Rightarrow> (string + (int \<Rightarrow> int option)) \<times> redis" where
  "GetAccountConcurrencyBatch c r now accountIDs =
     (if accountIDs = [] then (Inr (\<lambda>_. None), r)
      else if unavailable r then (Inl redisError, r)
      else let (counts, r') = countEntries (slotTTLSeconds c) now r accountIDs
           in (Inr (map_of (rev counts)), r'))"

definition CleanupExpiredAccountSlots :: "concurrencyCache \<Rightarrow> redis \<Rightarrow> int \<Rightarrow> int \<Rightarrow> (string + unit) \<times> redis" where
  "CleanupExpiredAccountSlots c r now accountID =
     runZset r (accountSlotKey accountID) (\<lambda>z. ((), cleanupExpiredSlotsScript (slotTTLSeconds c) now z))"

text \<open>
  A \<^verbatim>\<open>SCAN\<close> with a pattern visits every key with the prefix; the scripts it runs do the same
  when they meet a key twice.
\<close>

definition onPrefix :: "string \<Rightarrow> ('a \<Rightarrow> 'a) \<Rightarrow> (string \<Rightarrow> 'a) \<Rightarrow> string \<Rightarrow> 'a" where
  "onPrefix p f m = (\<lambda>key. if prefix p key then f (m key) else m key)"

definition CleanupExpiredAccountSlotKeys :: "concurrencyCache \<Rightarrow> redis \<Rightarrow> int \<Rightarrow> (string + unit) \<times> redis" where
  "CleanupExpiredAccountSlotKeys c r now =
     (if unavailable r then (Inl redisError, r)
      else (Inr (), r\<lparr>zsets := onPrefix userSlotKeyPrefix (cleanupExpiredSlotsScript (slotTTLSeconds c) now)
                       (onPrefix accountSlotKeyPrefix (cleanupExpiredSlotsScript (slotTTLSeconds c) now) (zsets r))\<rparr>))"

definition cleanupSlotsByPattern :: "concurrencyCache \<Rightarrow> int \<Rightarrow> string \<Rightarrow> string \<Rightarrow> redis \<Rightarrow> redis" where
  "cleanupSlotsByPattern c now pattern activePrefix r =
     r\<lparr>zsets := onPrefix pattern (startupCleanupScript activePrefix (slotTTLSeconds c) now) (zsets r)\<rparr>"

definition deleteKeysByPattern :: "string \<Rightarrow> redis \<Rightarrow> redis" where
  "deleteKeysByPattern pattern r = r\<lparr>counters := onPrefix pattern (\<lambda>_. None) (counters r)\<rparr>"

definition CleanupStaleProcessSlots :: "concurrencyCache \<Rightarrow> redis \<Rightarrow> int \<Rightarrow> string \<Rightarrow> (string + unit) \<times> redis" where
  "CleanupStaleProcessSlots c r now activeRequestPrefix =
     (if activeRequestPrefix = [] then (Inr (), r)
      else if unavailable r then (Inl redisError, r)
      else (Inr (),
        deleteKeysByPattern waitQueueKeyPrefix (deleteKeysByPattern accountWaitKeyPrefix
          (cleanupSlotsByPattern c now userSlotKeyPrefix activeRequestPrefix
            (cleanupSlotsByPattern c now accountSlotKeyPrefix activeRequestPrefix r)))))"

section \<open>The service\<close>

text \<open>
  \<^verbatim>\<open>AcquireAccountSlot\<close> and \<^verbatim>\<open>AcquireUserSlot\<close> of \<^verbatim>\<open>service/concurrency_service.go\<close>: a limit of
  zero or less means no limit; otherwise a slot is taken under a fresh request id, and the
  release function of an acquired slot gives that slot back at whatever instant it is called.
  \<^const>\<open>None\<close> stands for the release function of a slot that was not acquired, which is nil.
\<close>

type_synonym releaseFunc = "int \<Rightarrow> redis \<Rightarrow> redis"

definition serviceAcquireAccountSlot ::
  "concurrencyCache \<Rightarrow> redis \<Rightarrow> int \<Rightarrow> int \<Rightarrow> int \<Rightarrow> string \<Rightarrow> (string + bool \<times> releaseFunc option) \<times> redis" where
  "serviceAcquireAccountSlot c r now accountID maxConcurrency requestID =
     (if maxConcurrency \<le> 0 then (Inr (True, Some (\<lambda>_ r. r)), r)
      else (case AcquireAccountSlot c r now accountID maxConcurrency requestID of
          (Inl e, r') \<Rightarrow> (Inl e, r')
        | (Inr acquired, r') \<Rightarrow>
            if acquired then (Inr (True, Some (\<lambda>t r. snd (ReleaseAccountSlot r t accountID requestID))), r')
            else (Inr (False, None), r')))"

definition serviceAcquireUserSlot ::
  "concurrencyCache \<Rightarrow> redis \<Rightarrow> int \<Rightarrow> int \<Rightarrow> int \<Rightarrow> string \<Rightarrow> (string + bool \<times> releaseFunc option) \<times> redis" where
  "serviceAcquireUserSlot c r now userID maxConcurrency requestID =
     (if maxConcurrency \<le> 0 then (Inr (True, Some (\<lambda>_ r. r)), r)
      else (case AcquireUserSlot c r now userID maxConcurrency requestID of
          (Inl e, r') \<Rightarrow> (Inl e, r')
        | (Inr acquired, r') \<Rightarrow>
            if acquired then (Inr (True, Some (\<lambda>t r. snd (ReleaseUserSlot r t userID requestID))), r')
            else (Inr (False, None), r')))"

definition defaultExtraWaitSlots :: int where "defaultExtraWaitSlots = 20"

definition CalculateMaxWait :: "int \<Rightarrow> int" where
  "CalculateMaxWait userConcurrency =
     wrap64 ((if userConcurrency \<le> 0 then 1 else userConcurrency) + defaultExtraWaitSlots)"

text \<open>The service lets requests queue when the cache fails.\<close>

definition serviceIncrementWaitCount :: "concurrencyCache \<Rightarrow> redis \<Rightarrow> int \<Rightarrow> int \<Rightarrow> int \<Rightarrow> bool \<times> redis" where
  "serviceIncrementWaitCount c r now userID maxWait =
     (case IncrementWaitCount c r now userID maxWait of
        (Inl _, r') \<Rightarrow> (True, r')
      | (Inr ok, r') \<Rightarrow> (ok, r'))"

definition serviceIncrementAccountWaitCount :: "concurrencyCache \<Rightarrow> redis \<Rightarrow> int \<Rightarrow> int \<Rightarrow> int \<Rightarrow> bool \<times> redis" where
  "serviceIncrementAccountWaitCount c r now accountID maxWait =
     (case IncrementAccountWaitCount c r now accountID maxWait of
        (Inl _, r') \<Rightarrow> (True, r')
      | (Inr ok, r') \<Rightarrow> (ok, r'))"

section \<open>The scripts against an ideal table of slots\<close>

datatype slotOp = Acquire int string | Release string | Count | Cleanup | Startup string

datatype slotAnswer = Granted bool | Counted int | Done

fun slotExec :: "int \<Rightarrow> zset \<Rightarrow> int \<times> slotOp \<Rightarrow> slotAnswer \<times> zset" where
  "slotExec ttl z (now, Acquire limit rid) = (case acquireScript limit ttl rid now z of (b, z') \<Rightarrow> (Granted b, z'))"
| "slotExec ttl z (now, Release rid) = (Done, releaseCommand rid now z)"
| "slotExec ttl z (now, Count) = (case getCountScript ttl now z of (n, z') \<Rightarrow> (Counted n, z'))"
| "slotExec ttl z (now, Cleanup) = (Done, cleanupExpiredSlotsScript ttl now z)"
| "slotExec ttl z (now, Startup p) = (Done, startupCleanupScript p ttl now z)"

text \<open>The ideal table remembers when each slot was taken and the last instant it has seen.\<close>

type_synonym slotTable = "int \<times> (string \<rightharpoonup> int)"

definition aliveAt :: "int \<Rightarrow> int \<Rightarrow> (string \<rightharpoonup> int) \<Rightarrow> string \<rightharpoonup> int" where
  "aliveAt ttl now m =
     (\<lambda>x. case m x of None \<Rightarrow> None | Some t \<Rightarrow> if now - ttl < t then Some t else None)"

fun idealExec :: "int \<Rightarrow> slotTable \<Rightarrow> int \<times> slotOp \<Rightarrow> slotAnswer \<times> slotTable" where
  "idealExec ttl (seen, m) (now, Acquire limit rid) =
     (if rid \<in> dom (aliveAt ttl now m) \<or> int (card (dom (aliveAt ttl now m))) < limit
      then (Granted True, (now, m(rid \<mapsto> now))) else (Granted False, (now, m)))"
| "idealExec ttl (seen, m) (now, Release rid) = (Done, (now, m(rid := None)))"
| "idealExec ttl (seen, m) (now, Count) = (Counted (int (card (dom (aliveAt ttl now m)))), (now, m))"
| "idealExec ttl (seen, m) (now, Cleanup) = (Done, (now, m))"
| "idealExec ttl (seen, m) (now, Startup p) = (Done, (now, \<lambda>x. if prefix p x then m x else None))"

text \<open>
  The set and the table agree on every slot that is alive now or will be asked for later; no
  slot is from the future; and the key outlives its members.
\<close>

definition slotRel :: "int \<Rightarrow> zset \<Rightarrow> slotTable \<Rightarrow> bool" where
  "slotRel ttl z a \<longleftrightarrow> (case a of (seen, m) \<Rightarrow>
     distinct (map fst (zmembers z)) \<and>
     (\<forall>x t. map_of (zmembers z) x = Some t \<longrightarrow> t \<le> seen) \<and> (\<forall>x t. m x = Some t \<longrightarrow> t \<le> seen) \<and>
     (\<forall>now \<ge> seen. aliveAt ttl now (map_of (zmembers z)) = aliveAt ttl now m) \<and>
     (case zexpire z of None \<Rightarrow> zmembers z = []
      | Some e \<Rightarrow> \<forall>x t. map_of (zmembers z) x = Some t \<longrightarrow> t + ttl \<le> e))"

lemma aliveAt_aliveAt: "now \<le> now' \<Longrightarrow> aliveAt ttl now' (aliveAt ttl now m) = aliveAt ttl now' m"
  by (auto simp: aliveAt_def fun_eq_iff split: option.splits)

lemma aliveAt_upd: "aliveAt ttl now m1 = aliveAt ttl now m2 \<Longrightarrow> aliveAt ttl now (m1(x := y)) = aliveAt ttl now (m2(x := y))"
  by (auto simp: aliveAt_def fun_eq_iff split: option.splits)

lemma slotRel_empty: "(\<forall>t \<ge> now. aliveAt ttl t m = Map.empty) \<Longrightarrow> (\<forall>x t. m x = Some t \<longrightarrow> t \<le> now) \<Longrightarrow> slotRel ttl emptyZset (now, m)"
  by (simp add: slotRel_def emptyZset_def) (simp add: aliveAt_def)

lemma slotRel_zlive:
  assumes "slotRel ttl z (seen, m)" "seen \<le> now"
  shows "slotRel ttl (zlive now z) (now, m)"
proof (cases "\<exists>e. zexpire z = Some e \<and> e \<le> now")
  case True
  then obtain e where e: "zexpire z = Some e" "e \<le> now" by blast
  have dead: "aliveAt ttl now (map_of (zmembers z)) = Map.empty"
    using assms e by (force simp: slotRel_def aliveAt_def fun_eq_iff split: option.splits)
  have "aliveAt ttl now' m = Map.empty" if "now \<le> now'" for now'
    using that assms dead aliveAt_aliveAt [OF that, of ttl "map_of (zmembers z)"]
    by (auto simp: slotRel_def aliveAt_def fun_eq_iff)
  moreover have "\<forall>x t. m x = Some t \<longrightarrow> t \<le> now" using assms by (fastforce simp: slotRel_def)
  ultimately show ?thesis using e by (simp add: zlive_def slotRel_empty)
next
  case False
  then have "zlive now z = z" by (auto simp: zlive_def split: option.split)
  with assms show ?thesis by (fastforce simp: slotRel_def split: option.splits)
qed

lemma slotRel_purge:
  assumes "slotRel ttl z (seen, m)" "seen \<le> now"
  defines "z' \<equiv> ZREMRANGEBYSCORE (now - ttl) (zlive now z)"
  shows "map_of (zmembers z') = aliveAt ttl now m" "slotRel ttl z' (now, m)"
    "ZCARD z' = int (card (dom (aliveAt ttl now m)))"
proof -
  let ?z = "zlive now z"
  note rel = slotRel_zlive [OF assms(1,2)]
  then have d: "distinct (map fst (zmembers ?z))" by (simp add: slotRel_def)
  have members: "zmembers z' = filter (\<lambda>(m, score). now - ttl < score) (zmembers ?z)"
    by (simp add: z'_def ZREMRANGEBYSCORE_def)
  then have "map_of (zmembers z') = aliveAt ttl now (map_of (zmembers ?z))"
    by (auto simp: map_of_filter_distinct [OF d] aliveAt_def fun_eq_iff split: option.split)
  also have "\<dots> = aliveAt ttl now m" using rel by (simp add: slotRel_def)
  finally show map: "map_of (zmembers z') = aliveAt ttl now m" .
  have d': "distinct (map fst (zmembers z'))" using d members by (simp add: distinct_map_filter)
  with map show "ZCARD z' = int (card (dom (aliveAt ttl now m)))"
    by (simp add: ZCARD_def length_distinct_keys)
  have sub: "aliveAt ttl now m x = Some t \<Longrightarrow> map_of (zmembers ?z) x = Some t" for x t
    using rel by (auto simp: slotRel_def aliveAt_def fun_eq_iff split: option.splits if_splits)
  have "zexpire z' = zexpire ?z" by (simp add: z'_def ZREMRANGEBYSCORE_def)
  then have "case zexpire z' of None \<Rightarrow> zmembers z' = []
      | Some e \<Rightarrow> \<forall>x t. map_of (zmembers z') x = Some t \<longrightarrow> t + ttl \<le> e"
    using rel members sub map by (fastforce simp: slotRel_def split: option.splits)
  moreover have "t \<le> now" if "aliveAt ttl now m x = Some t" for x t
    using rel sub [OF that] by (fastforce simp: slotRel_def)
  ultimately show "slotRel ttl z' (now, m)"
    using d' rel map by (simp add: slotRel_def aliveAt_aliveAt)
qed

lemma slotRel_add:
  assumes "slotRel ttl z (now, m)" "map_of (zmembers z) = aliveAt ttl now m"
  shows "slotRel ttl (EXPIRE now ttl (ZADD now rid z)) (now, m(rid \<mapsto> now))"
proof -
  have ne: "AList.update rid now (zmembers z) \<noteq> []" by (cases "zmembers z") auto
  have "map_of (AList.update rid now (zmembers z)) = (map_of (zmembers z))(rid \<mapsto> now)" by (rule AList.update_conv')
  moreover have "aliveAt ttl t ((map_of (zmembers z))(rid \<mapsto> now)) = aliveAt ttl t (m(rid \<mapsto> now))" if "now \<le> t" for t
    by (rule aliveAt_upd) (use assms that in \<open>simp add: slotRel_def\<close>)
  ultimately show ?thesis
    using assms ne by (auto simp: slotRel_def EXPIRE_def ZADD_def AList.distinct_update)
qed

lemma acquire_sim:
  assumes "slotRel ttl z (seen, m)" "seen \<le> now"
  shows "fst (acquireScript limit ttl rid now z) =
      (rid \<in> dom (aliveAt ttl now m) \<or> int (card (dom (aliveAt ttl now m))) < limit)"
    and "slotRel ttl (snd (acquireScript limit ttl rid now z))
      (now, if rid \<in> dom (aliveAt ttl now m) \<or> int (card (dom (aliveAt ttl now m))) < limit then m(rid \<mapsto> now) else m)"
  using slotRel_purge [OF assms] slotRel_add [OF slotRel_purge(2,1) [OF assms], of rid]
  by (auto simp: acquireScript_def ZSCORE_def Let_def split: option.split)

lemma release_sim:
  assumes "slotRel ttl z (seen, m)" "seen \<le> now"
  shows "slotRel ttl (releaseCommand rid now z) (now, m(rid := None))"
proof -
  note rel = slotRel_zlive [OF assms]
  have map: "map_of (AList.delete rid (zmembers (zlive now z))) = (map_of (zmembers (zlive now z)))(rid := None)"
    by (rule AList.delete_conv')
  have "aliveAt ttl t ((map_of (zmembers (zlive now z)))(rid := None)) = aliveAt ttl t (m(rid := None))" if "now \<le> t" for t
    by (rule aliveAt_upd) (use rel that in \<open>simp add: slotRel_def\<close>)
  with rel map show ?thesis
    by (auto simp: slotRel_def releaseCommand_def ZREM_def AList.distinct_delete split: option.splits if_splits)
qed

lemma slotRel_expire:
  assumes "slotRel ttl z (now, m)"
  shows "slotRel ttl (if ZCARD z = 0 then emptyZset else EXPIRE now ttl z) (now, m)"
proof (cases "zmembers z = []")
  case True
  with assms have "\<forall>t \<ge> now. aliveAt ttl t m = Map.empty" "\<forall>x t. m x = Some t \<longrightarrow> t \<le> now"
    by (auto simp: slotRel_def) (simp add: aliveAt_def)
  with True show ?thesis by (simp add: ZCARD_def slotRel_empty)
qed (use assms in \<open>auto simp: ZCARD_def EXPIRE_def slotRel_def split: option.splits\<close>)

lemma startup_sim:
  assumes "slotRel ttl z (seen, m)" "seen \<le> now"
  shows "slotRel ttl (startupCleanupScript p ttl now z) (now, \<lambda>x. if prefix p x then m x else None)"
proof -
  let ?z = "zlive now z"
  let ?kept = "?z\<lparr>zmembers := filter (\<lambda>(m, score). prefix p m) (zmembers ?z)\<rparr>"
  note rel = slotRel_zlive [OF assms]
  then have d: "distinct (map fst (zmembers ?z))" by (simp add: slotRel_def)
  have map: "map_of (zmembers ?kept) = (\<lambda>x. if prefix p x then map_of (zmembers ?z) x else None)"
    by (auto simp: map_of_filter_distinct [OF d] fun_eq_iff split: option.split)
  have alive: "aliveAt ttl t (\<lambda>x. if prefix p x then f x else None) = (\<lambda>x. if prefix p x then aliveAt ttl t f x else None)"
    for t f by (auto simp: aliveAt_def fun_eq_iff)
  have "slotRel ttl ?kept (now, \<lambda>x. if prefix p x then m x else None)"
    using rel d map by (auto simp: slotRel_def alive distinct_map_filter split: option.splits if_splits)
  then show ?thesis unfolding startupCleanupScript_def Let_def by (rule slotRel_expire)
qed

interpretation slot_table: simulation "slotExec ttl" "idealExec ttl" "slotRel ttl"
  "\<lambda>a e. fst a \<le> fst e" for ttl
proof (unfold_locales, goal_cases)
  case (1 z a e)
  obtain seen m now op where a: "a = (seen, m)" and e: "e = (now, op)" by (cases a; cases e) auto
  with 1 have rel: "slotRel ttl z (seen, m)" "seen \<le> now" by auto
  show ?case
    using acquire_sim(1) [OF rel] slotRel_purge(3) [OF rel]
    by (cases op) (auto simp: a e getCountScript_def split_def Let_def)
next
  case (2 z a e)
  obtain seen m now op where a: "a = (seen, m)" and e: "e = (now, op)" by (cases a; cases e) auto
  with 2 have rel: "slotRel ttl z (seen, m)" "seen \<le> now" by auto
  show ?case
  proof (cases op)
    case (Acquire limit rid)
    with acquire_sim(2) [OF rel, of limit rid] show ?thesis
      by (cases "rid \<in> dom (aliveAt ttl now m) \<or> int (card (dom (aliveAt ttl now m))) < limit")
        (auto simp: a e split_def)
  qed (use slotRel_purge(2) [OF rel] release_sim [OF rel] startup_sim [OF rel]
      slotRel_expire [OF slotRel_purge(2) [OF rel]] in
      \<open>simp_all add: a e getCountScript_def cleanupExpiredSlotsScript_def Let_def\<close>)
qed

lemma admitted_sorted:
  "sorted (seen # map fst es) \<Longrightarrow> admitted (\<lambda>a e. fst a \<le> fst e) (idealExec ttl) (seen, m) es"
proof (induction es arbitrary: seen m)
  case (Cons e es)
  obtain now op where e: "e = (now, op)" by (cases e)
  have "\<exists>m'. snd (idealExec ttl (seen, m) (now, op)) = (now, m')" by (cases op) auto
  with Cons e show ?case by auto
qed simp

section \<open>Capacity\<close>

fun limitWithin :: "int \<Rightarrow> int \<times> slotOp \<Rightarrow> bool" where
  "limitWithin M (now, Acquire limit rid) = (limit \<le> M)"
| "limitWithin M _ = True"

definition setWithin :: "int \<Rightarrow> zset \<Rightarrow> bool" where
  "setWithin M z \<longleftrightarrow> ZCARD z \<le> max 0 M"

lemma ZCARD_filtered [simp]:
  "ZCARD (ZREMRANGEBYSCORE u z) \<le> ZCARD z" "ZCARD (z\<lparr>zmembers := filter P (zmembers z)\<rparr>) \<le> ZCARD z"
  "ZCARD (ZREM x z) \<le> ZCARD z"
  by (simp_all add: ZCARD_def ZREMRANGEBYSCORE_def ZREM_def AList.delete_eq)

lemma ZCARD_zlive: "ZCARD (zlive now z) \<le> ZCARD z"
  by (simp add: zlive_def emptyZset_def ZCARD_def split: option.split)

lemma ZCARD_EXPIRE [simp]: "ZCARD (EXPIRE now ttl z) = ZCARD z"
  by (simp add: EXPIRE_def emptyZset_def ZCARD_def)

lemma ZCARD_empty [simp]: "ZCARD emptyZset = 0"
  by (simp add: emptyZset_def ZCARD_def)

lemma ZCARD_ZADD: "ZCARD (ZADD t x z) = ZCARD z + (if ZSCORE x z = None then 1 else 0)"
proof -
  have "length (AList.update x t al) = (if map_of al x = None then Suc (length al) else length al)" for al
    by (induction al) auto
  then show ?thesis by (simp add: ZCARD_def ZADD_def ZSCORE_def)
qed

lemma slotExec_within: "setWithin M z \<Longrightarrow> limitWithin M e \<Longrightarrow> setWithin M (snd (slotExec ttl z e))"
proof -
  assume z: "setWithin M z" and e: "limitWithin M e"
  obtain now op where e': "e = (now, op)" by (cases e)
  let ?p = "ZREMRANGEBYSCORE (now - ttl) (zlive now z)"
  have live: "ZCARD (zlive now z) \<le> max 0 M" using z ZCARD_zlive [of now z] by (simp add: setWithin_def)
  moreover have "ZCARD ?p \<le> max 0 M" using live ZCARD_filtered(1) [of "now - ttl" "zlive now z"] by linarith
  moreover have "ZCARD (ZREM x (zlive now z)) \<le> max 0 M" for x
    using ZCARD_filtered(3) [of x "zlive now z"] live by linarith
  moreover have "ZCARD ((zlive now z)\<lparr>zmembers := filter P (zmembers (zlive now z))\<rparr>) \<le> max 0 M" for P
    using ZCARD_filtered(2) [of P "zlive now z"] live by linarith
  ultimately show ?thesis
    using e
    by (cases op) (auto simp: e' setWithin_def acquireScript_def getCountScript_def cleanupExpiredSlotsScript_def
        startupCleanupScript_def releaseCommand_def ZCARD_ZADD Let_def split: option.splits)
qed

interpretation slot_capacity: event_machine "\<lambda>z e. snd (slotExec ttl z e)" "setWithin M" "limitWithin M" for ttl M
  by unfold_locales (rule slotExec_within)

section \<open>Keys\<close>

lemma slotKey_inj [simp]:
  "accountSlotKey a = accountSlotKey b \<longleftrightarrow> a = b" "userSlotKey a = userSlotKey b \<longleftrightarrow> a = b"
  by (auto simp: accountSlotKey_def userSlotKey_def dest: Itoa_inj)

lemma slotKey_disjoint [simp]:
  "accountSlotKey a \<noteq> userSlotKey b" "userSlotKey b \<noteq> accountSlotKey a"
  by (simp_all add: accountSlotKey_def userSlotKey_def accountSlotKeyPrefix_def userSlotKeyPrefix_def)

lemma slotKey_prefixes [simp]:
  "prefix accountSlotKeyPrefix (accountSlotKey a)" "prefix userSlotKeyPrefix (userSlotKey a)"
  "prefix accountWaitKeyPrefix (accountWaitKey a)" "prefix waitQueueKeyPrefix (waitQueueKey a)"
  "\<not> prefix userSlotKeyPrefix (accountSlotKey a)" "\<not> prefix accountSlotKeyPrefix (userSlotKey a)"
  by (simp_all add: accountSlotKey_def userSlotKey_def accountWaitKey_def waitQueueKey_def accountSlotKeyPrefix_def
      userSlotKeyPrefix_def accountWaitKeyPrefix_def waitQueueKeyPrefix_def)

text \<open>The slots of a key that count at an instant.\<close>

definition slotsAt :: "int \<Rightarrow> redis \<Rightarrow> string \<Rightarrow> int \<Rightarrow> string set" where
  "slotsAt ttl r key now = dom (aliveAt ttl now (map_of (zmembers (zlive now (zsets r key)))))"

definition keyWf :: "int \<Rightarrow> int \<Rightarrow> redis \<Rightarrow> string \<Rightarrow> bool" where
  "keyWf ttl seen r key \<longleftrightarrow> (\<exists>m. slotRel ttl (zsets r key) (seen, m))"

lemma slotsAt_rel: "slotRel ttl (zsets r key) (seen, m) \<Longrightarrow> seen \<le> now \<Longrightarrow> slotsAt ttl r key now = dom (aliveAt ttl now m)"
  using slotRel_zlive [of ttl "zsets r key" seen m now] by (simp add: slotsAt_def slotRel_def)

section \<open>Properties\<close>

text \<open>
  (C33) The scripts implement a table of slots: for every sequence of acquisitions, releases,
  counts and clean-ups with a clock that does not run backwards, they give the answers of a
  table that keeps all slots for ever and, when asked, ignores those older than the lifetime.
  Purging members and letting keys expire is never observable.
\<close>

theorem slots_refine_table:
  assumes "sorted (t0 # map fst ops)"
  shows "answers (slotExec ttl) emptyZset ops = answers (idealExec ttl) (t0, Map.empty) ops"
  by (rule slot_table.answers_agree)
    (use admitted_sorted [OF assms, of ttl] in \<open>auto simp: slotRel_empty aliveAt_def\<close>)

definition exampleOps :: "(int \<times> slotOp) list" where
  "exampleOps = [(100, Acquire 1 ''a''), (101, Acquire 1 ''b''), (105, Count), (110, Acquire 1 ''b''),
     (111, Release ''b''), (112, Count)]"

theorem slots_refine_table_witness:
  "answers (slotExec 10) emptyZset exampleOps = answers (idealExec 10) (0, Map.empty) exampleOps \<and>
   answers (slotExec 10) emptyZset exampleOps =
     [Granted True, Granted False, Counted 1, Granted True, Done, Counted 0]"
proof -
  have "answers (slotExec 10) emptyZset exampleOps =
     [Granted True, Granted False, Counted 1, Granted True, Done, Counted 0]" by code_simp
  with slots_refine_table [of 0 exampleOps 10] show ?thesis by (simp add: exampleOps_def)
qed

text \<open>
  No more slots than allowed: if no acquisition asks for a limit above \<open>M\<close>, the sorted set
  never has more than \<open>M\<close> members, whatever the order of the operations and the clocks.
\<close>

theorem slots_capacity:
  assumes "list_all (limitWithin M) ops"
  shows "ZCARD (foldl (\<lambda>z e. snd (slotExec ttl z e)) emptyZset ops) \<le> max 0 M"
  using slot_capacity.react_run [of M emptyZset ops ttl] assms by (simp add: setWithin_def)

theorem slots_capacity_witness:
  "ZCARD (foldl (\<lambda>z e. snd (slotExec 10 z e)) emptyZset exampleOps) \<le> max 0 1"
  by (rule slots_capacity) (simp add: exampleOps_def)

text \<open>
  Taking a slot and giving it back leaves no trace: under a fresh request id, an account
  slot that was acquired and released again leaves the slots that count at any later instant
  as they were, and neither step touches the slots of another account, of a user, or a wait
  counter.
\<close>

theorem slot_acquire_release:
  assumes "keyWf (slotTTLSeconds c) seen r (accountSlotKey a)" "seen \<le> now" "now \<le> now2" "now2 \<le> now3"
    and "rid \<notin> slotsAt (slotTTLSeconds c) r (accountSlotKey a) now"
    and "serviceAcquireAccountSlot c r now a maxConcurrency rid = (Inr (True, Some release), r1)"
  shows "slotsAt (slotTTLSeconds c) (release now2 r1) (accountSlotKey a) now3 =
      slotsAt (slotTTLSeconds c) r (accountSlotKey a) now3 \<and>
    (\<forall>b. b = a \<or> zsets (release now2 r1) (accountSlotKey b) = zsets r (accountSlotKey b)) \<and>
    (\<forall>u. zsets (release now2 r1) (userSlotKey u) = zsets r (userSlotKey u)) \<and>
    counters (release now2 r1) = counters r"
proof (cases "maxConcurrency \<le> 0")
  case True
  with assms(6) show ?thesis by (auto simp: serviceAcquireAccountSlot_def)
next
  case False
  let ?ttl = "slotTTLSeconds c" and ?key = "accountSlotKey a"
  let ?z = "zsets r ?key"
  define z1 where "z1 = snd (acquireScript maxConcurrency ?ttl rid now ?z)"
  obtain m where m: "slotRel ?ttl ?z (seen, m)" using assms(1) by (auto simp: keyWf_def)
  from False assms(6) have up: "\<not> unavailable r" and got: "fst (acquireScript maxConcurrency ?ttl rid now ?z)"
    and r1: "r1 = r\<lparr>zsets := (zsets r)(?key := z1)\<rparr>"
    and rel: "release now2 r1 = r\<lparr>zsets := (zsets r)(?key := releaseCommand rid now2 z1)\<rparr>"
    by (auto simp: serviceAcquireAccountSlot_def AcquireAccountSlot_def ReleaseAccountSlot_def runZset_def z1_def
        split: if_splits prod.splits)
  from acquire_sim(1) [OF m assms(2)] got have ok: "rid \<in> dom (aliveAt ?ttl now m) \<or> int (card (dom (aliveAt ?ttl now m))) < maxConcurrency"
    by simp
  with acquire_sim(2) [OF m assms(2), of maxConcurrency rid] have "slotRel ?ttl z1 (now, m(rid \<mapsto> now))"
    by (simp add: z1_def)
  from release_sim [OF this assms(3), of rid]
  have "slotRel ?ttl (zsets (release now2 r1) ?key) (now2, (m(rid \<mapsto> now))(rid := None))" by (simp add: rel)
  from slotsAt_rel [OF this assms(4)]
  have "slotsAt ?ttl (release now2 r1) ?key now3 = dom (aliveAt ?ttl now3 (m(rid := None)))" by simp
  moreover have "rid \<notin> dom (aliveAt ?ttl now m)" using slotsAt_rel [OF m assms(2)] assms(5) by simp
  then have "aliveAt ?ttl now3 (m(rid := None)) = aliveAt ?ttl now3 m"
    using assms(3,4) by (auto simp: aliveAt_def fun_eq_iff split: option.splits if_splits)
  moreover have "slotsAt ?ttl r ?key now3 = dom (aliveAt ?ttl now3 m)"
    using slotsAt_rel [OF m] assms(2-4) by simp
  ultimately show ?thesis by (auto simp: rel)
qed

definition exampleRedis :: redis where
  "exampleRedis = \<lparr>zsets = (\<lambda>_. emptyZset), counters = (\<lambda>_. None), unavailable = False\<rparr>"

theorem slot_acquire_release_witness:
  "\<exists>release r1. serviceAcquireAccountSlot (NewConcurrencyCache 0 0) exampleRedis 100 7 2 ''r1'' =
      (Inr (True, Some release), r1) \<and>
    slotsAt 900 (release 105 r1) (accountSlotKey 7) 200 = slotsAt 900 exampleRedis (accountSlotKey 7) 200"
proof -
  have c: "slotTTLSeconds (NewConcurrencyCache 0 0) = 900"
    by (simp add: NewConcurrencyCache_def defaultSlotTTLMinutes_def wrap64_def Let_def)
  have "keyWf 900 100 exampleRedis (accountSlotKey 7)"
    by (auto simp: keyWf_def exampleRedis_def aliveAt_def intro!: exI [of _ Map.empty] slotRel_empty)
  moreover have "''r1'' \<notin> slotsAt 900 exampleRedis (accountSlotKey 7) 100"
    by (simp add: slotsAt_def exampleRedis_def emptyZset_def zlive_def aliveAt_def)
  moreover obtain release r1 where "serviceAcquireAccountSlot (NewConcurrencyCache 0 0) exampleRedis 100 7 2 ''r1'' =
      (Inr (True, Some release), r1)"
    by (simp add: serviceAcquireAccountSlot_def AcquireAccountSlot_def runZset_def exampleRedis_def acquireScript_def
        ZREMRANGEBYSCORE_def zlive_def emptyZset_def ZSCORE_def ZCARD_def Let_def)
  ultimately show ?thesis
    using slot_acquire_release [of "NewConcurrencyCache 0 0" 100 exampleRedis 7 100 105 200 "''r1''" 2] c by auto
qed

text \<open>
  A restarted process starts clean: after the start-up clean-up only slots with the request
  id prefix of the running process are left, for accounts and users alike, all wait counters
  are zero, and nothing of the own process is lost.
\<close>

theorem startup_cleanup:
  assumes "CleanupStaleProcessSlots c r now p = (Inr (), r')" "p \<noteq> []"
    and "keyWf (slotTTLSeconds c) seen r (accountSlotKey a)" "keyWf (slotTTLSeconds c) seen r (userSlotKey u)" "seen \<le> now"
  shows "slotsAt (slotTTLSeconds c) r' (accountSlotKey a) now = {x \<in> slotsAt (slotTTLSeconds c) r (accountSlotKey a) now. prefix p x} \<and>
    slotsAt (slotTTLSeconds c) r' (userSlotKey u) now = {x \<in> slotsAt (slotTTLSeconds c) r (userSlotKey u) now. prefix p x} \<and>
    counters r' (accountWaitKey a) = None \<and> counters r' (waitQueueKey u) = None"
proof -
  let ?ttl = "slotTTLSeconds c"
  from assms(1,2) have r': "r' = deleteKeysByPattern waitQueueKeyPrefix (deleteKeysByPattern accountWaitKeyPrefix
        (cleanupSlotsByPattern c now userSlotKeyPrefix p (cleanupSlotsByPattern c now accountSlotKeyPrefix p r)))"
    by (auto simp: CleanupStaleProcessSlots_def split: if_splits)
  have zs: "zsets r' (accountSlotKey a) = startupCleanupScript p ?ttl now (zsets r (accountSlotKey a))"
    "zsets r' (userSlotKey u) = startupCleanupScript p ?ttl now (zsets r (userSlotKey u))"
    by (simp_all add: r' deleteKeysByPattern_def cleanupSlotsByPattern_def onPrefix_def)
  have "slotsAt ?ttl r' key now = {x \<in> slotsAt ?ttl r key now. prefix p x}"
    if wf: "keyWf ?ttl seen r key" and z: "zsets r' key = startupCleanupScript p ?ttl now (zsets r key)" for key
  proof -
    from wf obtain m where m: "slotRel ?ttl (zsets r key) (seen, m)" unfolding keyWf_def ..
    have "slotRel ?ttl (zsets r' key) (now, \<lambda>x. if prefix p x then m x else None)"
      using startup_sim [OF m assms(5), of p] z by simp
    from slotsAt_rel [OF this order_refl] slotsAt_rel [OF m assms(5)] show ?thesis
      by (auto simp: aliveAt_def split: option.splits if_splits)
  qed
  with assms(3,4) zs show ?thesis
    by (simp add: r' deleteKeysByPattern_def cleanupSlotsByPattern_def onPrefix_def)
qed

theorem startup_cleanup_witness:
  "\<exists>r'. CleanupStaleProcessSlots (NewConcurrencyCache 0 0) exampleRedis 100 ''r1-'' = (Inr (), r') \<and>
    counters r' (accountWaitKey 7) = None"
proof -
  let ?c = "NewConcurrencyCache 0 0"
  obtain r' where "CleanupStaleProcessSlots ?c exampleRedis 100 ''r1-'' = (Inr (), r')"
    by (simp add: CleanupStaleProcessSlots_def exampleRedis_def)
  moreover have "keyWf (slotTTLSeconds ?c) 100 exampleRedis key" for key
    by (auto simp: keyWf_def exampleRedis_def aliveAt_def intro!: exI [of _ Map.empty] slotRel_empty)
  ultimately show ?thesis
    using startup_cleanup [of ?c exampleRedis 100 "''r1-''" r' 100 7 7] by auto
qed

end
