(* ===== verification/KeywordMatcher.thy ===== *)
theory KeywordMatcher
  imports Prelude
begin

text \<open>
  The keyword matcher of content moderation,
  \<^verbatim>\<open>backend/internal/service/content_moderation_keyword_matcher.go\<close>: an Aho-Corasick automaton over
  the bytes of the lower-cased keywords, built as a trie with sibling-linked edges, completed
  with failure links in breadth-first order and packed into arrays with sorted edges.

  \<^verbatim>\<open>strings.ToLower\<close> is the argument \<open>lower\<close>. Indices are unbounded integers: the \<^verbatim>\<open>int32\<close>
  and \<^verbatim>\<open>uint32\<close> of the source hold them as long as the keywords have fewer than two thousand
  million bytes. \<^const>\<open>None\<close> is a panic (an index out of range) or a loop that does not end within
  its fuel; the fuel is the number of edges or nodes, which is enough.
\<close>

section \<open>Data\<close>

record contentModerationKeywordNode =
  nd_failure :: int
  nd_bestKeyword :: int
  nd_edgeStart :: nat
  nd_edgeCount :: nat

record contentModerationKeywordEdge =
  ed_target :: int
  ed_label :: char

record contentModerationKeywordBuildEdge =
  be_target :: int
  be_nextSibling :: int
  be_label :: char

record contentModerationKeywordMatcher =
  km_nodes :: "contentModerationKeywordNode list"
  km_edges :: "contentModerationKeywordEdge list"
  km_rootTransitions :: "char \<Rightarrow> int"
  km_keywords :: "string list"

type_synonym kwNodes = "contentModerationKeywordNode list"
type_synonym kwBuildEdges = "contentModerationKeywordBuildEdge list"

text \<open>A slice or array access that panics outside its bounds.\<close>

definition elemAt :: "'a list \<Rightarrow> int \<Rightarrow> 'a option" where
  "elemAt xs i = (if 0 \<le> i \<and> nat i < length xs then Some (xs ! nat i) else None)"

section \<open>Building the trie\<close>

definition newContentModerationKeywordNode :: contentModerationKeywordNode where
  "newContentModerationKeywordNode =
     \<lparr>nd_failure = 0, nd_bestKeyword = -1, nd_edgeStart = 0, nd_edgeCount = 0\<rparr>"

definition contentModerationKeywordBuildFirstEdge :: "contentModerationKeywordNode \<Rightarrow> int" where
  "contentModerationKeywordBuildFirstEdge node =
     (if nd_edgeStart node = 0 then -1 else int (nd_edgeStart node - 1))"

text \<open>The loop over the sibling links from one edge on, for the edge with a label and for all edges.\<close>

fun findSibling :: "nat \<Rightarrow> kwBuildEdges \<Rightarrow> int \<Rightarrow> char \<Rightarrow> int option" where
  "findSibling fuel edges i label =
     (if i < 0 then Some (-1)
      else (case fuel of
          0 \<Rightarrow> None
        | Suc n \<Rightarrow>
            (case elemAt edges i of
               None \<Rightarrow> None
             | Some e \<Rightarrow>
                 if be_label e = label then Some (be_target e)
                 else findSibling n edges (be_nextSibling e) label)))"

fun siblings :: "nat \<Rightarrow> kwBuildEdges \<Rightarrow> int \<Rightarrow> kwBuildEdges option" where
  "siblings fuel edges i =
     (if i < 0 then Some []
      else (case fuel of
          0 \<Rightarrow> None
        | Suc n \<Rightarrow>
            (case elemAt edges i of
               None \<Rightarrow> None
             | Some e \<Rightarrow> map_option (Cons e) (siblings n edges (be_nextSibling e)))))"

definition contentModerationKeywordBuildTransition ::
  "kwNodes \<Rightarrow> kwBuildEdges \<Rightarrow> int \<Rightarrow> char \<Rightarrow> int option" where
  "contentModerationKeywordBuildTransition nodes edges state label =
     (if state < 0 \<or> state \<ge> int (length nodes) then Some (-1)
      else findSibling (length edges) edges
             (contentModerationKeywordBuildFirstEdge (nodes ! nat state)) label)"

definition insertLabel ::
  "kwNodes \<times> kwBuildEdges \<times> int \<Rightarrow> char \<Rightarrow> (kwNodes \<times> kwBuildEdges \<times> int) option" where
  "insertLabel st label =
     (case st of (nodes, edges, state) \<Rightarrow>
        contentModerationKeywordBuildTransition nodes edges state label \<bind> (\<lambda>next.
        if next < 0
        then (let next = int (length nodes);
                  nodes = nodes @ [newContentModerationKeywordNode]
              in elemAt nodes state \<bind> (\<lambda>node.
                 let edges = edges @ [\<lparr>be_target = next,
                       be_nextSibling = contentModerationKeywordBuildFirstEdge node, be_label = label\<rparr>]
                 in Some (nodes[nat state := node\<lparr>nd_edgeStart := length edges\<rparr>], edges, next)))
        else Some (nodes, edges, next)))"

fun insertLabels ::
  "kwNodes \<times> kwBuildEdges \<times> int \<Rightarrow> string \<Rightarrow> (kwNodes \<times> kwBuildEdges \<times> int) option" where
  "insertLabels st [] = Some st"
| "insertLabels st (c # cs) = insertLabel st c \<bind> (\<lambda>st. insertLabels st cs)"

definition insertKeyword ::
  "(string \<Rightarrow> string) \<Rightarrow> kwNodes \<times> kwBuildEdges \<Rightarrow> int \<Rightarrow> string \<Rightarrow> (kwNodes \<times> kwBuildEdges) option" where
  "insertKeyword lower t keywordIndex keyword =
     (case t of (nodes, edges) \<Rightarrow>
        if keyword = [] then Some (nodes, edges)
        else insertLabels (nodes, edges, 0) (lower keyword) \<bind> (\<lambda>(nodes, edges, state).
             elemAt nodes state \<bind> (\<lambda>node.
             Some (if nd_bestKeyword node < 0 \<or> keywordIndex < nd_bestKeyword node
                   then nodes[nat state := node\<lparr>nd_bestKeyword := keywordIndex\<rparr>] else nodes, edges))))"

fun insertKeywords ::
  "(string \<Rightarrow> string) \<Rightarrow> kwNodes \<times> kwBuildEdges \<Rightarrow> int \<Rightarrow> string list \<Rightarrow> (kwNodes \<times> kwBuildEdges) option" where
  "insertKeywords lower t i [] = Some t"
| "insertKeywords lower t i (k # ks) = insertKeyword lower t i k \<bind> (\<lambda>t. insertKeywords lower t (i + 1) ks)"

section \<open>Failure links\<close>

definition minKeywordIndex :: "int \<Rightarrow> int \<Rightarrow> int" where
  "minKeywordIndex left right =
     (if left < 0 then right else if right < 0 \<or> left < right then left else right)"

text \<open>The loop that follows failure links until there is a transition; -1 when there is none at the root.\<close>

fun fallbackFrom :: "nat \<Rightarrow> kwNodes \<Rightarrow> kwBuildEdges \<Rightarrow> int \<Rightarrow> char \<Rightarrow> int option" where
  "fallbackFrom fuel nodes edges failure label =
     contentModerationKeywordBuildTransition nodes edges failure label \<bind> (\<lambda>fallback.
     if fallback < 0 \<and> failure \<noteq> 0
     then (case fuel of
         0 \<Rightarrow> None
       | Suc n \<Rightarrow> elemAt nodes failure \<bind> (\<lambda>node. fallbackFrom n nodes edges (nd_failure node) label))
     else Some fallback)"

definition linkEdge ::
  "kwBuildEdges \<Rightarrow> int \<Rightarrow> kwNodes \<Rightarrow> contentModerationKeywordBuildEdge \<Rightarrow> kwNodes option" where
  "linkEdge edges state nodes e =
     elemAt nodes state \<bind> (\<lambda>node.
     fallbackFrom (length nodes) nodes edges (nd_failure node) (be_label e) \<bind> (\<lambda>fallback.
     elemAt nodes (be_target e) \<bind> (\<lambda>child0.
     let child = (if fallback \<ge> 0 then child0\<lparr>nd_failure := fallback\<rparr> else child0);
         nodes = nodes[nat (be_target e) := child]
     in elemAt nodes (nd_failure child) \<bind> (\<lambda>fail.
        Some (nodes[nat (be_target e) :=
          child\<lparr>nd_bestKeyword := minKeywordIndex (nd_bestKeyword child) (nd_bestKeyword fail)\<rparr>])))))"

fun linkEdges :: "kwBuildEdges \<Rightarrow> int \<Rightarrow> kwNodes \<Rightarrow> kwBuildEdges \<Rightarrow> kwNodes option" where
  "linkEdges edges state nodes [] = Some nodes"
| "linkEdges edges state nodes (e # es) =
     linkEdge edges state nodes e \<bind> (\<lambda>nodes. linkEdges edges state nodes es)"

text \<open>The queue as the states that are still to be visited.\<close>

fun linkQueue :: "nat \<Rightarrow> kwBuildEdges \<Rightarrow> kwNodes \<Rightarrow> int list \<Rightarrow> kwNodes option" where
  "linkQueue fuel edges nodes [] = Some nodes"
| "linkQueue 0 edges nodes (state # queue) = None"
| "linkQueue (Suc fuel) edges nodes (state # queue) =
     elemAt nodes state \<bind> (\<lambda>node.
     siblings (length edges) edges (contentModerationKeywordBuildFirstEdge node) \<bind> (\<lambda>es.
     linkEdges edges state nodes es \<bind> (\<lambda>nodes.
     linkQueue fuel edges nodes (queue @ map be_target es))))"

section \<open>Packing\<close>

text \<open>Insertion from the right end of the part that is already in order.\<close>

definition insertByLabel ::
  "contentModerationKeywordEdge list \<Rightarrow> contentModerationKeywordEdge \<Rightarrow> contentModerationKeywordEdge list" where
  "insertByLabel outgoing current =
     (let larger = takeWhile (\<lambda>e. ed_label current < ed_label e) (rev outgoing)
      in take (length outgoing - length larger) outgoing @ current # rev larger)"

definition sortOutgoing :: "contentModerationKeywordEdge list \<Rightarrow> contentModerationKeywordEdge list" where
  "sortOutgoing outgoing = foldl insertByLabel [] outgoing"

text \<open>The array \<^verbatim>\<open>outgoing\<close> has room for 256 edges.\<close>

fun packNodes ::
  "kwBuildEdges \<Rightarrow> kwNodes \<Rightarrow> contentModerationKeywordEdge list \<Rightarrow> (kwNodes \<times> contentModerationKeywordEdge list) option" where
  "packNodes edges [] packed = Some ([], packed)"
| "packNodes edges (node # nodes) packed =
     siblings (length edges) edges (contentModerationKeywordBuildFirstEdge node) \<bind> (\<lambda>es.
     if length es > 256 then None
     else (let outgoing = sortOutgoing (map (\<lambda>e. \<lparr>ed_target = be_target e, ed_label = be_label e\<rparr>) es)
           in packNodes edges nodes (packed @ outgoing) \<bind> (\<lambda>(nodes, packed').
              Some (node\<lparr>nd_edgeStart := length packed, nd_edgeCount := length outgoing\<rparr> # nodes, packed'))))"

text \<open>\<^const>\<open>None\<close> inside the result is the nil matcher.\<close>

definition newContentModerationKeywordMatcher ::
  "(string \<Rightarrow> string) \<Rightarrow> string list \<Rightarrow> contentModerationKeywordMatcher option option" where
  "newContentModerationKeywordMatcher lower keywords =
     (if keywords = [] then Some None
      else insertKeywords lower ([newContentModerationKeywordNode], []) 0 keywords \<bind> (\<lambda>(nodes, edges).
        if length nodes = 1 then Some None
        else siblings (length edges) edges (contentModerationKeywordBuildFirstEdge (hd nodes)) \<bind> (\<lambda>es.
          let rootTransitions = foldl (\<lambda>t e. t(be_label e := be_target e)) (\<lambda>_. 0) es
          in linkQueue (length nodes) edges nodes (map be_target es) \<bind> (\<lambda>nodes.
             packNodes edges nodes [] \<bind> (\<lambda>(nodes, packed).
             Some (Some \<lparr>km_nodes = nodes, km_edges = packed, km_rootTransitions = rootTransitions,
               km_keywords = keywords\<rparr>))))))"

section \<open>Matching\<close>

function lowerBound :: "contentModerationKeywordEdge list \<Rightarrow> char \<Rightarrow> nat \<Rightarrow> nat \<Rightarrow> nat option" where
  "lowerBound edges label left right =
     (if left < right
      then (let middle = left + (right - left) div 2 in
            elemAt edges (int middle) \<bind> (\<lambda>e.
            if ed_label e < label then lowerBound edges label (middle + 1) right
            else lowerBound edges label left middle))
      else Some left)"
  by pat_completeness auto
termination
  by (relation "measure (\<lambda>(edges, label, left, right). right - left)") auto

declare lowerBound.simps [simp del]

definition next_state :: "contentModerationKeywordMatcher \<Rightarrow> int \<Rightarrow> char \<Rightarrow> int option" where
  "next_state m state label =
     (if state = 0 then Some (km_rootTransitions m label)
      else if state < 0 \<or> state \<ge> int (length (km_nodes m)) then Some 0
      else let node = km_nodes m ! nat state;
               stop = nd_edgeStart node + nd_edgeCount node in
      lowerBound (km_edges m) label (nd_edgeStart node) stop \<bind> (\<lambda>left.
      if left < stop
      then elemAt (km_edges m) (int left) \<bind> (\<lambda>e. Some (if ed_label e = label then ed_target e else 0))
      else Some 0))"

fun advance :: "nat \<Rightarrow> contentModerationKeywordMatcher \<Rightarrow> int \<Rightarrow> char \<Rightarrow> int option" where
  "advance fuel m state label =
     next_state m state label \<bind> (\<lambda>next.
     if next \<noteq> 0 then Some next
     else if state = 0 then Some 0
     else (case fuel of
         0 \<Rightarrow> None
       | Suc n \<Rightarrow> elemAt (km_nodes m) state \<bind> (\<lambda>node. advance n m (nd_failure node) label)))"

text \<open>The loop over the text: the state and the best keyword so far; it stops at keyword 0.\<close>

fun scan :: "contentModerationKeywordMatcher \<Rightarrow> string \<Rightarrow> int \<Rightarrow> int \<Rightarrow> int option" where
  "scan m [] state bestKeyword = Some bestKeyword"
| "scan m (label # text) state bestKeyword =
     advance (length (km_nodes m)) m state label \<bind> (\<lambda>state.
     elemAt (km_nodes m) state \<bind> (\<lambda>node.
     let best = minKeywordIndex bestKeyword (nd_bestKeyword node) in
     if best = 0 then Some 0 else scan m text state best))"

definition Match ::
  "(string \<Rightarrow> string) \<Rightarrow> contentModerationKeywordMatcher option \<Rightarrow> string \<Rightarrow> (string \<times> bool) option" where
  "Match lower matcher text =
     (case matcher of
        None \<Rightarrow> Some ([], False)
      | Some m \<Rightarrow>
          if text = [] \<or> km_nodes m = [] \<or> km_keywords m = [] then Some ([], False)
          else scan m (lower text) 0 (-1) \<bind> (\<lambda>bestKeyword.
            if bestKeyword < 0 \<or> bestKeyword \<ge> int (length (km_keywords m)) then Some ([], False)
            else Some (km_keywords m ! nat bestKeyword, True)))"

declare findSibling.simps [simp del] siblings.simps [simp del] fallbackFrom.simps [simp del] advance.simps [simp del]

end
