(* ===== verification/KeywordSearch.thy ===== *)
theory KeywordSearch
  imports KeywordMatcher "HOL-Library.Multiset"
begin

text \<open>
  Correctness of the keyword matcher. The trie is described by the list of the paths of its
  nodes; a failure link points to the longest proper suffix of a path that is a path, which is
  what makes one pass over the text find every keyword; and \<^const>\<open>Match\<close> is shown to return
  the first keyword of the list that occurs in the text, which is what a loop over the keywords
  with \<^verbatim>\<open>strings.Contains\<close> would return.
\<close>

section \<open>The first index with a property\<close>

primrec firstIndex :: "('a \<Rightarrow> bool) \<Rightarrow> 'a list \<Rightarrow> int" where
  "firstIndex P [] = -1"
| "firstIndex P (x # xs) =
     (if P x then 0 else if firstIndex P xs < 0 then -1 else firstIndex P xs + 1)"

lemma firstIndex_ge: "-1 \<le> firstIndex P xs"
  by (induction xs) auto

lemma firstIndex_less: "firstIndex P xs < int (length xs)"
  by (induction xs) auto

lemma firstIndex_neg: "firstIndex P xs < 0 \<longleftrightarrow> (\<forall>x\<in>set xs. \<not> P x)"
  by (induction xs) auto

lemma firstIndex_none: "(\<forall>x\<in>set xs. \<not> P x) \<Longrightarrow> firstIndex P xs = -1"
  by (induction xs) auto

lemma firstIndex_snoc:
  "firstIndex P (xs @ [x]) =
     (if firstIndex P xs < 0 then if P x then int (length xs) else -1 else firstIndex P xs)"
  by (induction xs) auto

lemma firstIndex_cong: "(\<And>x. x \<in> set xs \<Longrightarrow> P x = Q x) \<Longrightarrow> firstIndex P xs = firstIndex Q xs"
  by (induction xs) auto

lemma minKeywordIndex_firstIndex:
  "minKeywordIndex (firstIndex P xs) (firstIndex Q xs) = firstIndex (\<lambda>x. P x \<or> Q x) xs"
  by (induction xs) (auto simp: minKeywordIndex_def split: if_splits)

lemma firstIndex_zero_mono:
  assumes "firstIndex P xs = 0" "\<And>x. x \<in> set xs \<Longrightarrow> P x \<Longrightarrow> Q x"
  shows "firstIndex Q xs = 0"
  using assms firstIndex_ge by (cases xs) (auto split: if_splits)

lemma firstIndex_find:
  "find P xs = (if firstIndex P xs < 0 then None else Some (xs ! nat (firstIndex P xs)))"
proof (induction xs)
  case (Cons x xs)
  have "nat (firstIndex P xs + 1) = Suc (nat (firstIndex P xs))" if "\<not> firstIndex P xs < 0"
    using that by linarith
  with Cons show ?case by auto
qed simp

text \<open>The index of an element, -1 when it is missing.\<close>

abbreviation idx :: "'a list \<Rightarrow> 'a \<Rightarrow> int" where
  "idx xs y \<equiv> firstIndex (\<lambda>x. x = y) xs"

lemma idx_nth: "distinct xs \<Longrightarrow> i < length xs \<Longrightarrow> idx xs (xs ! i) = int i"
proof (induction xs arbitrary: i)
  case (Cons x xs)
  then show ?case
    by (cases i) auto
qed simp

lemma idx_missing: "y \<notin> set xs \<Longrightarrow> idx xs y = -1"
  by (intro firstIndex_none) auto

lemma idx_memE:
  assumes "distinct xs" "y \<in> set xs"
  obtains i where "i < length xs" "xs ! i = y" "idx xs y = int i"
  using assms idx_nth by (metis in_set_conv_nth)

section \<open>The longest suffix in a set\<close>

primrec lsuf :: "'a list set \<Rightarrow> 'a list \<Rightarrow> 'a list" where
  "lsuf T [] = []"
| "lsuf T (x # xs) = (if x # xs \<in> T then x # xs else lsuf T xs)"

definition prefix_closed :: "'a list set \<Rightarrow> bool" where
  "prefix_closed T \<longleftrightarrow> [] \<in> T \<and> (\<forall>u a. u @ [a] \<in> T \<longrightarrow> u \<in> T)"

lemma lsuf_in: "[] \<in> T \<Longrightarrow> lsuf T w \<in> T"
  by (induction w) auto

lemma lsuf_suffix: "suffix (lsuf T w) w"
  by (induction w) (auto simp: suffix_Cons)

lemma lsuf_greatest: "v \<in> T \<Longrightarrow> suffix v w \<Longrightarrow> suffix v (lsuf T w)"
  by (induction w) (auto simp: suffix_Cons)

lemma lsuf_member: "w \<in> T \<Longrightarrow> lsuf T w = w"
  by (cases w) auto

lemma lsuf_eqI:
  assumes "v \<in> T" "suffix v w" "\<And>x. x \<in> T \<Longrightarrow> suffix x w \<Longrightarrow> suffix x v" "[] \<in> T"
  shows "lsuf T w = v"
  by (meson assms lsuf_in lsuf_suffix lsuf_greatest suffix_order.antisym)

text \<open>A state that is the longest suffix of the text read so far stays so by its own transitions.\<close>

lemma lsuf_snoc:
  assumes "prefix_closed T"
  shows "lsuf T (u @ [a]) = lsuf T (lsuf T u @ [a])"
proof (rule lsuf_eqI)
  let ?v = "lsuf T (lsuf T u @ [a])"
  show nil: "[] \<in> T" using assms by (simp add: prefix_closed_def)
  then show "?v \<in> T" by (rule lsuf_in)
  have "suffix (lsuf T u @ [a]) (u @ [a])"
    using lsuf_suffix [of T u] by (auto simp: suffix_def)
  then show "suffix ?v (u @ [a])"
    using lsuf_suffix suffix_order.trans by blast
  fix x assume x: "x \<in> T" "suffix x (u @ [a])"
  show "suffix x ?v"
  proof (cases x rule: rev_cases)
    case (snoc y b)
    with x have "b = a" "suffix y u" by auto
    moreover have "y \<in> T" using assms x snoc by (auto simp: prefix_closed_def)
    ultimately have "suffix x (lsuf T u @ [a])"
      using lsuf_greatest [of y T u] snoc by auto
    with x show ?thesis by (simp add: lsuf_greatest)
  qed simp
qed

lemma lsuf_step:
  assumes "prefix_closed T" "p @ [c] \<notin> T" "p \<noteq> []"
  shows "lsuf T (p @ [c]) = lsuf T (lsuf T (tl p) @ [c])"
proof -
  have "lsuf T (p @ [c]) = lsuf T (tl p @ [c])"
    using assms by (cases p) auto
  also have "\<dots> = lsuf T (lsuf T (tl p) @ [c])"
    using assms(1) by (rule lsuf_snoc)
  finally show ?thesis .
qed

lemma lsuf_tl_length: "p \<noteq> [] \<Longrightarrow> length (lsuf T (tl p)) < length p"
  using suffix_length_le [OF lsuf_suffix, of T "tl p"] by (cases p) auto

lemma suffix_lsuf_tl:
  assumes "v \<in> T" "v \<noteq> []"
  shows "suffix v p \<longleftrightarrow> v = p \<or> suffix v (lsuf T (tl p))"
proof (cases p)
  case (Cons x xs)
  then show ?thesis
    using assms lsuf_suffix [of T xs] lsuf_greatest [of v T xs] suffix_order.trans
    by (auto simp: suffix_Cons)
qed (use assms in auto)

section \<open>The trie\<close>

text \<open>
  The edges reached by the sibling links from an edge, and the edges that leave a node when
  \<open>ps\<close> lists the paths of the nodes: edge \<open>k\<close> leads to node \<open>k + 1\<close>.
\<close>

primrec chain :: "kwBuildEdges \<Rightarrow> int \<Rightarrow> nat list \<Rightarrow> bool" where
  "chain edges i [] \<longleftrightarrow> i < 0"
| "chain edges i (k # ks) \<longleftrightarrow>
     i = int k \<and> k < length edges \<and> chain edges (be_nextSibling (edges ! k)) ks"

definition kids :: "string list \<Rightarrow> nat \<Rightarrow> nat list" where
  "kids ps i = filter (\<lambda>k. butlast (ps ! Suc k) = ps ! i) [0..<length ps - 1]"

definition trie :: "string list \<Rightarrow> kwBuildEdges \<Rightarrow> kwNodes \<Rightarrow> bool" where
  "trie ps edges nodes \<longleftrightarrow>
     length nodes = length ps \<and> length ps = Suc (length edges) \<and> ps ! 0 = [] \<and> distinct ps \<and>
     (\<forall>k<length edges. be_target (edges ! k) = int (Suc k) \<and>
        ps ! Suc k = butlast (ps ! Suc k) @ [be_label (edges ! k)] \<and>
        butlast (ps ! Suc k) \<in> set ps) \<and>
     (\<forall>i<length ps. chain edges (contentModerationKeywordBuildFirstEdge (nodes ! i)) (rev (kids ps i)))"

lemma findSibling_chain:
  "chain edges i ks \<Longrightarrow> length ks \<le> fuel \<Longrightarrow>
   findSibling fuel edges i c =
     Some (case find (\<lambda>k. be_label (edges ! k) = c) ks of None \<Rightarrow> -1 | Some k \<Rightarrow> be_target (edges ! k))"
proof (induction ks arbitrary: i fuel)
  case (Cons k ks)
  then show ?case by (cases fuel) (auto simp: findSibling.simps [of _ _ "int k"] elemAt_def)
qed (simp add: findSibling.simps)

lemma siblings_chain:
  "chain edges i ks \<Longrightarrow> length ks \<le> fuel \<Longrightarrow> siblings fuel edges i = Some (map ((!) edges) ks)"
proof (induction ks arbitrary: i fuel)
  case (Cons k ks)
  then show ?case by (cases fuel) (auto simp: siblings.simps [of _ _ "int k"] elemAt_def)
qed (simp add: siblings.simps)

lemma chain_append: "chain edges i ks \<Longrightarrow> chain (edges @ es) i ks"
  by (induction ks arbitrary: i) (auto simp: nth_append)

lemma kids_less: "k \<in> set (kids ps i) \<Longrightarrow> Suc k < length ps"
  by (auto simp: kids_def)

lemma kids_butlast: "k \<in> set (kids ps i) \<Longrightarrow> butlast (ps ! Suc k) = ps ! i"
  by (auto simp: kids_def)

lemma kids_length: "length (kids ps i) \<le> length ps - 1"
  unfolding kids_def by (metis length_filter_le length_upt minus_nat.diff_0)

lemma kids_distinct: "distinct (kids ps i)"
  by (simp add: kids_def)

lemma trie_lengths:
  assumes "trie ps edges nodes"
  shows "length nodes = length ps" "length ps = Suc (length edges)" "ps ! 0 = []" "distinct ps"
  using assms by (simp_all add: trie_def)

lemma trie_edge:
  assumes "trie ps edges nodes" "k < length edges"
  shows "be_target (edges ! k) = int (Suc k)"
    and "ps ! Suc k = butlast (ps ! Suc k) @ [be_label (edges ! k)]"
  using assms unfolding trie_def by blast+

lemma trie_kid:
  assumes "trie ps edges nodes" "k \<in> set (kids ps i)"
  shows "be_target (edges ! k) = int (Suc k)" "ps ! Suc k = ps ! i @ [be_label (edges ! k)]"
    "Suc k < length ps"
  using trie_edge [OF assms(1), of k] kids_less [OF assms(2)] kids_butlast [OF assms(2)]
    trie_lengths [OF assms(1)] by auto

lemma trie_kidI:
  assumes "trie ps edges nodes" "j < length ps" "ps ! j = ps ! i @ [c]"
  obtains k where "j = Suc k" "k \<in> set (kids ps i)" "be_label (edges ! k) = c"
proof (cases j)
  case 0
  then show ?thesis using assms trie_lengths [OF assms(1)] by simp
next
  case (Suc k)
  then have "k \<in> set (kids ps i)" using assms by (auto simp: kids_def)
  then show ?thesis using that Suc assms trie_kid [OF assms(1)] by auto
qed

lemma trie_siblings:
  assumes "trie ps edges nodes" "i < length ps"
  shows "siblings (length edges) edges (contentModerationKeywordBuildFirstEdge (nodes ! i)) =
           Some (map ((!) edges) (rev (kids ps i)))"
  using assms kids_length [of ps i] siblings_chain unfolding trie_def by simp

lemma trie_find:
  assumes t: "trie ps edges nodes" and ks: "set ks = set (kids ps i)"
  shows "(case find (\<lambda>k. be_label (edges ! k) = c) ks of None \<Rightarrow> d | Some k \<Rightarrow> be_target (edges ! k)) =
    (if ps ! i @ [c] \<in> set ps then idx ps (ps ! i @ [c]) else d)"
proof (cases "find (\<lambda>k. be_label (edges ! k) = c) ks")
  case None
  then have "ps ! i @ [c] \<notin> set ps"
    using trie_kidI [OF t, of _ i c] unfolding find_None_iff ks in_set_conv_nth [of _ ps] by metis
  then show ?thesis using None by simp
next
  case (Some k)
  then have "k \<in> set (kids ps i)" "be_label (edges ! k) = c"
    unfolding ks [symmetric] by (auto simp: find_Some_iff)
  then show ?thesis
    using trie_kid [OF t] idx_nth [OF trie_lengths(4) [OF t], of "Suc k"] nth_mem [of "Suc k" ps] Some by auto
qed

lemma trie_transition:
  assumes t: "trie ps edges nodes" and i: "i < length ps"
  shows "contentModerationKeywordBuildTransition nodes edges (int i) c = Some (idx ps (ps ! i @ [c]))"
proof -
  have ch: "chain edges (contentModerationKeywordBuildFirstEdge (nodes ! i)) (rev (kids ps i))"
    using t i by (simp add: trie_def)
  show ?thesis
    unfolding contentModerationKeywordBuildTransition_def
    using findSibling_chain [OF ch, of "length edges" c] kids_length [of ps i] i trie_lengths [OF t]
      trie_find [OF t, of "rev (kids ps i)" i, where c = c and d = "-1"] idx_missing [of "ps ! i @ [c]" ps]
    by simp
qed

lemma trie_prefix_closed:
  assumes "trie ps edges nodes"
  shows "prefix_closed (set ps)"
  unfolding prefix_closed_def
proof (intro conjI allI impI)
  show "[] \<in> set ps" using trie_lengths [OF assms] by (metis nth_mem zero_less_Suc)
  fix u a assume "u @ [a] \<in> set ps"
  then obtain j where j: "j < length ps" "ps ! j = u @ [a]" by (auto simp: in_set_conv_nth)
  then obtain k where "j = Suc k" "k < length edges"
    using trie_lengths [OF assms] by (cases j) auto
  then show "u \<in> set ps" using assms j unfolding trie_def by (metis butlast_snoc)
qed

lemma trie_nodes_cong:
  assumes "trie ps edges nodes" "map nd_edgeStart nodes' = map nd_edgeStart nodes"
  shows "trie ps edges nodes'"
proof -
  have len: "length nodes' = length nodes" using assms(2) map_eq_imp_length_eq by blast
  have "nd_edgeStart (nodes' ! i) = nd_edgeStart (nodes ! i)" if "i < length nodes" for i
    using that assms(2) len by (metis nth_map)
  then have "contentModerationKeywordBuildFirstEdge (nodes' ! i) =
      contentModerationKeywordBuildFirstEdge (nodes ! i)" if "i < length nodes" for i
    using that by (simp add: contentModerationKeywordBuildFirstEdge_def)
  then show ?thesis using assms(1) len unfolding trie_def by simp
qed

lemma prefix_closed_prefix:
  "prefix_closed T \<Longrightarrow> u @ v \<in> T \<Longrightarrow> u \<in> T"
  by (induction v rule: rev_induct) (auto simp: prefix_closed_def simp flip: append_assoc)

lemma trie_depth:
  assumes "trie ps edges nodes" "p \<in> set ps"
  shows "length p < length ps"
proof -
  have "set (prefixes p) \<subseteq> set ps"
    using prefix_closed_prefix [OF trie_prefix_closed [OF assms(1)]] assms(2)
    by (auto simp: prefix_def)
  then have "card (set (prefixes p)) \<le> length ps"
    using card_mono [OF finite_set] card_length order_trans by blast
  then show ?thesis by (simp add: distinct_card)
qed

section \<open>Inserting the keywords\<close>

lemma kids_extend:
  assumes "i < length ps" "s < length ps" "distinct ps"
  shows "kids (ps @ [ps ! s @ [c]]) i = kids ps i @ (if i = s then [length ps - 1] else [])"
proof -
  obtain n where n: "length ps = Suc n" using assms by (cases "length ps") auto
  let ?qs = "ps @ [ps ! s @ [c]]"
  have "filter (\<lambda>k. butlast (?qs ! Suc k) = ?qs ! i) [0..<n] =
        filter (\<lambda>k. butlast (ps ! Suc k) = ps ! i) [0..<n]"
    using assms n by (intro filter_cong) (auto simp: nth_append)
  moreover have "?qs ! Suc n = ps ! s @ [c]" using n by (simp add: nth_append)
  moreover have "ps ! s = ps ! i \<longleftrightarrow> i = s" using assms by (auto simp: nth_eq_iff_index_eq)
  ultimately show ?thesis using assms n by (simp add: kids_def nth_append)
qed

lemma kids_new:
  assumes "trie ps edges nodes" "p \<notin> set ps" "p \<noteq> []"
  shows "kids (ps @ [p]) (length ps) = []"
proof -
  have "butlast ((ps @ [p]) ! Suc k) \<noteq> p" if k: "k < length ps" for k
  proof (cases "k < length edges")
    case True
    then have "butlast (ps ! Suc k) \<in> set ps" "Suc k < length ps"
      using assms(1) unfolding trie_def by auto
    then show ?thesis using assms(2) by (auto simp: nth_append)
  next
    case False
    then have "Suc k = length ps" using k trie_lengths [OF assms(1)] by simp
    then show ?thesis using assms(3)
      by (metis append_butlast_last_id not_Cons_self2 nth_append_length self_append_conv)
  qed
  then show ?thesis by (simp add: kids_def)
qed

lemma trie_extend:
  assumes t: "trie ps edges nodes" and s: "s < length ps" and new: "ps ! s @ [c] \<notin> set ps"
  defines "e \<equiv> \<lparr>be_target = int (length nodes),
      be_nextSibling = contentModerationKeywordBuildFirstEdge (nodes ! s), be_label = c\<rparr>"
  shows "trie (ps @ [ps ! s @ [c]]) (edges @ [e])
    ((nodes @ [newContentModerationKeywordNode])[s := (nodes ! s)\<lparr>nd_edgeStart := Suc (length edges)\<rparr>])"
    (is "trie ?ps ?edges ?nodes")
  unfolding trie_def
proof (intro conjI allI impI)
  note len = trie_lengths [OF t]
  show "length ?nodes = length ?ps" "length ?ps = Suc (length ?edges)" "distinct ?ps" "?ps ! 0 = []"
    using len new by (simp_all add: nth_append)
  fix k assume k: "k < length ?edges"
  have old: "be_target (edges ! k) = int (Suc k) \<and>
        ps ! Suc k = butlast (ps ! Suc k) @ [be_label (edges ! k)] \<and>
        butlast (ps ! Suc k) \<in> set ps" if "k < length edges"
    using t that unfolding trie_def by blast
  show "be_target (?edges ! k) = int (Suc k)"
    using old k len by (cases "k < length edges") (auto simp: nth_append e_def less_Suc_eq)
  show "?ps ! Suc k = butlast (?ps ! Suc k) @ [be_label (?edges ! k)]"
    using old k len by (cases "k < length edges") (auto simp: nth_append e_def less_Suc_eq)
  show "butlast (?ps ! Suc k) \<in> set ?ps"
    using old k len s by (cases "k < length edges") (auto simp: nth_append less_Suc_eq)
next
  note len = trie_lengths [OF t]
  fix i assume "i < length ?ps"
  then consider "i = length ps" | "i < length ps" "i \<noteq> s" | "i = s" using s by fastforce
  then show "chain ?edges (contentModerationKeywordBuildFirstEdge (?nodes ! i)) (rev (kids ?ps i))"
  proof cases
    case 1
    then show ?thesis using kids_new [OF t new] s len
      by (simp add: nth_append newContentModerationKeywordNode_def contentModerationKeywordBuildFirstEdge_def)
  next
    case 2
    then have "?nodes ! i = nodes ! i" using len by (simp add: nth_append)
    then show ?thesis using 2 t s len kids_extend [of i ps s c]
      by (simp add: trie_def chain_append)
  next
    case 3
    have "chain ?edges (contentModerationKeywordBuildFirstEdge (nodes ! s)) (rev (kids ps s))"
      using t s chain_append unfolding trie_def by blast
    then show ?thesis using 3 s len kids_extend [of s ps s c]
      by (simp add: nth_append contentModerationKeywordBuildFirstEdge_def [of "_\<lparr>nd_edgeStart := _\<rparr>"] e_def)
  qed
qed

text \<open>The nodes before the failure links are computed: no link, and a keyword index per path.\<close>

definition labelled :: "(string \<Rightarrow> int) \<Rightarrow> string list \<Rightarrow> kwNodes \<Rightarrow> bool" where
  "labelled B ps nodes \<longleftrightarrow>
     (\<forall>i<length ps. nd_failure (nodes ! i) = 0 \<and> nd_bestKeyword (nodes ! i) = B (ps ! i)) \<and>
     (\<forall>p. p \<notin> set ps \<longrightarrow> B p = -1)"

lemma insertLabel_trie:
  assumes t: "trie ps edges nodes" and l: "labelled B ps nodes" and s: "s < length ps"
  obtains ps' edges' nodes' s' where
    "insertLabel (nodes, edges, int s) c = Some (nodes', edges', int s')"
    "trie ps' edges' nodes'" "labelled B ps' nodes'" "s' < length ps'"
    "ps' ! s' = ps ! s @ [c]" "set ps \<subseteq> set ps'"
proof (cases "ps ! s @ [c] \<in> set ps")
  case True
  then obtain j where "j < length ps" "ps ! j = ps ! s @ [c]" "idx ps (ps ! s @ [c]) = int j"
    using idx_memE [OF trie_lengths(4) [OF t]] by metis
  then show ?thesis using that [of nodes edges j ps] t l s
    by (simp add: insertLabel_def trie_transition)
next
  case False
  note len = trie_lengths [OF t]
  let ?ps = "ps @ [ps ! s @ [c]]"
  let ?nodes = "(nodes @ [newContentModerationKeywordNode])[s := (nodes ! s)\<lparr>nd_edgeStart := Suc (length edges)\<rparr>]"
  have neg: "idx ps (ps ! s @ [c]) = -1" using False by (rule idx_missing)
  have lab: "labelled B ?ps ?nodes" unfolding labelled_def
  proof (intro conjI allI impI)
    fix i assume "i < length ?ps"
    then show "nd_failure (?nodes ! i) = 0" "nd_bestKeyword (?nodes ! i) = B (?ps ! i)"
      using l s len False
      by (auto simp: labelled_def nth_append nth_list_update less_Suc_eq newContentModerationKeywordNode_def)
  next
    fix p assume "p \<notin> set ?ps"
    then show "B p = -1" using l by (auto simp: labelled_def)
  qed
  show ?thesis
    using that [OF _ trie_extend [OF t s False] lab, of "length ps"] neg s len
    by (auto simp: insertLabel_def trie_transition [OF t] elemAt_def nth_append Let_def)
qed

lemma insertLabels_trie:
  assumes "trie ps edges nodes" "labelled B ps nodes" "s < length ps"
  shows "\<exists>ps' edges' nodes' s'. insertLabels (nodes, edges, int s) cs = Some (nodes', edges', int s') \<and>
    trie ps' edges' nodes' \<and> labelled B ps' nodes' \<and> s' < length ps' \<and>
    ps' ! s' = ps ! s @ cs \<and> set ps \<subseteq> set ps'"
  using assms
proof (induction cs arbitrary: ps edges nodes s)
  case (Cons c cs)
  obtain ps1 edges1 nodes1 s1 where 1:
    "insertLabel (nodes, edges, int s) c = Some (nodes1, edges1, int s1)"
    "trie ps1 edges1 nodes1" "labelled B ps1 nodes1" "s1 < length ps1"
    "ps1 ! s1 = ps ! s @ [c]" "set ps \<subseteq> set ps1"
    using insertLabel_trie [OF Cons.prems] by metis
  from Cons.IH [OF 1(2-4)] show ?case using 1 by fastforce
qed fastforce

definition rawBest :: "(string \<Rightarrow> string) \<Rightarrow> string list \<Rightarrow> string \<Rightarrow> int" where
  "rawBest lower kws p = firstIndex (\<lambda>kw. kw \<noteq> [] \<and> lower kw = p) kws"

lemma rawBest_snoc:
  "rawBest lower (ks @ [k]) p =
     (if rawBest lower ks p < 0 \<and> k \<noteq> [] \<and> lower k = p then int (length ks) else rawBest lower ks p)"
  using firstIndex_ge [of "\<lambda>kw. kw \<noteq> [] \<and> lower kw = p" ks] by (auto simp: rawBest_def firstIndex_snoc)

lemma insertKeyword_trie:
  assumes t: "trie ps edges nodes" and l: "labelled (rawBest lower ks) ps nodes"
  shows "\<exists>ps' edges' nodes'. insertKeyword lower (nodes, edges) (int (length ks)) k = Some (nodes', edges') \<and>
    trie ps' edges' nodes' \<and> labelled (rawBest lower (ks @ [k])) ps' nodes' \<and>
    set ps \<subseteq> set ps' \<and> (k \<noteq> [] \<longrightarrow> lower k \<in> set ps')"
proof (cases "k = []")
  case True
  then have "rawBest lower (ks @ [k]) = rawBest lower ks" by (auto simp: rawBest_snoc)
  then show ?thesis using True t l by (auto simp: insertKeyword_def)
next
  case False
  have "0 < length ps" using trie_lengths [OF t] by simp
  then obtain ps' edges' nodes' s where 1:
    "insertLabels (nodes, edges, 0) (lower k) = Some (nodes', edges', int s)"
    "trie ps' edges' nodes'" "labelled (rawBest lower ks) ps' nodes'" "s < length ps'"
    "ps' ! s = lower k" "set ps \<subseteq> set ps'"
    using insertLabels_trie [OF t l, of 0 "lower k"] trie_lengths(3) [OF t] by auto
  note len = trie_lengths [OF 1(2)]
  let ?new = "rawBest lower ks (lower k) < 0"
  let ?nodes = "if ?new then nodes'[s := (nodes' ! s)\<lparr>nd_bestKeyword := int (length ks)\<rparr>] else nodes'"
  have best: "nd_bestKeyword (nodes' ! s) = rawBest lower ks (lower k)"
    using 1 by (auto simp: labelled_def)
  moreover have "rawBest lower ks (lower k) < int (length ks)"
    by (simp add: rawBest_def firstIndex_less)
  ultimately have eq: "insertKeyword lower (nodes, edges) (int (length ks)) k = Some (?nodes, edges')"
    using False 1 len by (simp add: insertKeyword_def elemAt_def)
  have "map nd_edgeStart ?nodes = map nd_edgeStart nodes'"
    using 1 len by (auto simp: map_update intro: list_update_same_conv [THEN iffD2])
  then have "trie ps' edges' ?nodes" using trie_nodes_cong 1(2) by blast
  moreover have mem: "lower k \<in> set ps'" using 1 nth_mem by metis
  moreover from mem have "labelled (rawBest lower (ks @ [k])) ps' ?nodes"
    using 1(3-5) len False unfolding labelled_def
    by (auto simp: rawBest_snoc nth_list_update nth_eq_iff_index_eq)
  ultimately show ?thesis using eq 1(6) by blast
qed

lemma insertKeywords_trie:
  assumes "trie ps edges nodes" "labelled (rawBest lower ks) ps nodes"
    "\<forall>k\<in>set ks. k \<noteq> [] \<longrightarrow> lower k \<in> set ps"
  shows "\<exists>ps' edges' nodes'. insertKeywords lower (nodes, edges) (int (length ks)) ks' = Some (nodes', edges') \<and>
    trie ps' edges' nodes' \<and> labelled (rawBest lower (ks @ ks')) ps' nodes' \<and>
    (\<forall>k\<in>set (ks @ ks'). k \<noteq> [] \<longrightarrow> lower k \<in> set ps')"
  using assms
proof (induction ks' arbitrary: ps edges nodes ks)
  case (Cons k ks')
  obtain ps1 edges1 nodes1 where 1:
    "insertKeyword lower (nodes, edges) (int (length ks)) k = Some (nodes1, edges1)"
    "trie ps1 edges1 nodes1" "labelled (rawBest lower (ks @ [k])) ps1 nodes1"
    "set ps \<subseteq> set ps1" "k \<noteq> [] \<longrightarrow> lower k \<in> set ps1"
    using insertKeyword_trie [OF Cons.prems(1,2)] by metis
  have "\<forall>x\<in>set (ks @ [k]). x \<noteq> [] \<longrightarrow> lower x \<in> set ps1" using 1 Cons.prems(3) by auto
  from Cons.IH [OF 1(2,3) this] show ?case using 1(1) by (simp add: add.commute)
qed auto

lemma trie_initial: "trie [[]] [] [newContentModerationKeywordNode]"
  by (simp add: trie_def kids_def contentModerationKeywordBuildFirstEdge_def newContentModerationKeywordNode_def)

lemma insertKeywords_correct:
  obtains ps edges nodes where
    "insertKeywords lower ([newContentModerationKeywordNode], []) 0 kws = Some (nodes, edges)"
    "trie ps edges nodes" "labelled (rawBest lower kws) ps nodes"
    "\<And>k. k \<in> set kws \<Longrightarrow> k \<noteq> [] \<Longrightarrow> lower k \<in> set ps"
proof -
  have "labelled (rawBest lower []) [[]] [newContentModerationKeywordNode]"
    by (simp add: labelled_def rawBest_def newContentModerationKeywordNode_def)
  from insertKeywords_trie [OF trie_initial this, where ks' = kws] that show ?thesis by auto
qed

section \<open>Failure links\<close>

definition finBest :: "(string \<Rightarrow> string) \<Rightarrow> string list \<Rightarrow> string \<Rightarrow> int" where
  "finBest lower kws p = firstIndex (\<lambda>kw. kw \<noteq> [] \<and> suffix (lower kw) p) kws"

text \<open>
  The nodes outside \<open>U\<close> have their failure link and the best keyword among all suffixes of their
  path; those in \<open>U\<close> are as the insertions left them.
\<close>

definition linked :: "(string \<Rightarrow> string) \<Rightarrow> string list \<Rightarrow> nat set \<Rightarrow> string list \<Rightarrow> kwNodes \<Rightarrow> bool" where
  "linked lower kws U ps nodes \<longleftrightarrow>
     (\<forall>i<length ps.
        if i \<in> U then nd_failure (nodes ! i) = 0 \<and> nd_bestKeyword (nodes ! i) = rawBest lower kws (ps ! i)
        else nd_failure (nodes ! i) = idx ps (lsuf (set ps) (tl (ps ! i))) \<and>
             nd_bestKeyword (nodes ! i) = finBest lower kws (ps ! i))"

text \<open>What the keywords have to satisfy for the trie to hold them.\<close>

definition stored :: "(string \<Rightarrow> string) \<Rightarrow> string list \<Rightarrow> string list \<Rightarrow> bool" where
  "stored lower kws ps \<longleftrightarrow> (\<forall>k\<in>set kws. k \<noteq> [] \<longrightarrow> lower k \<noteq> [] \<and> lower k \<in> set ps)"

lemma finBest_tl:
  assumes "stored lower kws ps"
  shows "minKeywordIndex (rawBest lower kws p) (finBest lower kws (lsuf (set ps) (tl p))) =
           finBest lower kws p"
  unfolding rawBest_def finBest_def minKeywordIndex_firstIndex
proof (intro firstIndex_cong)
  fix k assume "k \<in> set kws"
  then show "(k \<noteq> [] \<and> lower k = p \<or> k \<noteq> [] \<and> suffix (lower k) (lsuf (set ps) (tl p))) =
      (k \<noteq> [] \<and> suffix (lower k) p)"
    using assms suffix_lsuf_tl [of "lower k" "set ps" p] by (auto simp: stored_def)
qed

lemma finBest_short:
  assumes "stored lower kws ps" "length p \<le> 1"
  shows "finBest lower kws p = rawBest lower kws p"
proof -
  have "suffix v p \<longleftrightarrow> v = p" if "v \<noteq> []" for v
    using assms(2) that by (cases p) (auto simp: suffix_Cons)
  then show ?thesis
    unfolding rawBest_def finBest_def
    using assms(1) by (intro firstIndex_cong) (auto simp: stored_def)
qed

lemma finBest_lsuf:
  assumes "stored lower kws ps"
  shows "finBest lower kws (lsuf (set ps) w) = finBest lower kws w"
  unfolding finBest_def
proof (intro firstIndex_cong)
  fix k assume "k \<in> set kws"
  then show "(k \<noteq> [] \<and> suffix (lower k) (lsuf (set ps) w)) = (k \<noteq> [] \<and> suffix (lower k) w)"
    using assms lsuf_suffix [of "set ps" w] lsuf_greatest [of "lower k" "set ps" w]
      suffix_order.trans by (auto simp: stored_def)
qed

lemma idx_lsuf:
  assumes "trie ps edges nodes"
  obtains j where "j < length ps" "ps ! j = lsuf (set ps) w" "idx ps (lsuf (set ps) w) = int j"
proof -
  have "lsuf (set ps) w \<in> set ps"
    using trie_prefix_closed [OF assms] by (simp add: lsuf_in prefix_closed_def)
  then show ?thesis using idx_memE [OF trie_lengths(4) [OF assms]] that by metis
qed

lemma trie_root:
  assumes "trie ps edges nodes" "i < length ps"
  shows "ps ! i = [] \<longleftrightarrow> i = 0"
  using trie_lengths [OF assms(1)] assms(2) nth_eq_iff_index_eq [of ps i 0] by auto

lemma fallbackFrom_correct:
  assumes t: "trie ps edges nodes"
  shows "q < length ps \<Longrightarrow> length (ps ! q) \<le> fuel \<Longrightarrow>
    (\<And>i. i < length ps \<Longrightarrow> length (ps ! i) \<le> length (ps ! q) \<Longrightarrow>
       nd_failure (nodes ! i) = idx ps (lsuf (set ps) (tl (ps ! i)))) \<Longrightarrow>
    fallbackFrom fuel nodes edges (int q) c =
      Some (if lsuf (set ps) (ps ! q @ [c]) = [] then -1 else idx ps (lsuf (set ps) (ps ! q @ [c])))"
proof (induction fuel arbitrary: q)
  case 0
  then have "ps ! q = []" "q = 0" using trie_root [OF t] by auto
  then show ?case using 0 trie_transition [OF t 0(1)] 
    by (auto simp: fallbackFrom.simps idx_missing lsuf_member)
next
  case (Suc fuel)
  show ?case
  proof (cases "ps ! q @ [c] \<in> set ps")
    case True
    then have "\<not> idx ps (ps ! q @ [c]) < 0" by (simp add: firstIndex_neg)
    then show ?thesis using True trie_transition [OF t Suc.prems(1)] 
      by (simp add: fallbackFrom.simps lsuf_member)
  next
    case False
    then have neg: "idx ps (ps ! q @ [c]) = -1" by (rule idx_missing)
    show ?thesis
    proof (cases "q = 0")
      case True
      then show ?thesis using neg False trie_transition [OF t Suc.prems(1)] trie_lengths [OF t]
        by (simp add: fallbackFrom.simps)
    next
      case q: False
      then have ne: "ps ! q \<noteq> []" using trie_root [OF t Suc.prems(1)] by simp
      obtain j where j: "j < length ps" "ps ! j = lsuf (set ps) (tl (ps ! q))"
        "idx ps (lsuf (set ps) (tl (ps ! q))) = int j"
        using idx_lsuf [OF t] by metis
      have less: "length (ps ! j) < length (ps ! q)" using j lsuf_tl_length [OF ne] by simp
      have "fallbackFrom (Suc fuel) nodes edges (int q) c = fallbackFrom fuel nodes edges (int j) c"
        using Suc.prems(1) q neg j(3) Suc.prems(3) [of q] trie_transition [OF t Suc.prems(1)] trie_lengths [OF t]
        by (simp add: fallbackFrom.simps [of "Suc fuel"] elemAt_def)
      also have "\<dots> = Some (if lsuf (set ps) (ps ! j @ [c]) = [] then -1 else idx ps (lsuf (set ps) (ps ! j @ [c])))"
        using Suc.IH [OF j(1)] Suc.prems(2,3) less by simp
      finally show ?thesis
        using lsuf_step [OF trie_prefix_closed [OF t] False ne] j(2) by simp
    qed
  qed
qed

lemma kid_fallback:
  assumes t: "trie ps edges nodes" and l: "linked lower kws U ps nodes"
    and s: "s < length ps" "s \<noteq> 0" "s \<notin> U" and k: "k \<in> set (kids ps s)"
    and deep: "\<And>i. i \<in> U \<Longrightarrow> length (ps ! s) < length (ps ! i)"
  obtains j where "j < length ps" "ps ! j = lsuf (set ps) (tl (ps ! Suc k))"
    "idx ps (lsuf (set ps) (tl (ps ! Suc k))) = int j" "j \<notin> U"
    "fallbackFrom (length nodes) nodes edges (nd_failure (nodes ! s)) (be_label (edges ! k)) =
       Some (if j = 0 then -1 else int j)"
proof -
  note len = trie_lengths [OF t] and kid = trie_kid [OF t k]
  let ?T = "set ps" and ?c = "be_label (edges ! k)"
  have ne: "ps ! s \<noteq> []" using trie_root [OF t s(1)] s(2) by simp
  obtain q where q: "q < length ps" "ps ! q = lsuf ?T (tl (ps ! s))" "idx ps (lsuf ?T (tl (ps ! s))) = int q"
    using idx_lsuf [OF t] by metis
  have qlen: "length (ps ! q) < length (ps ! s)" using q lsuf_tl_length [OF ne] by simp
  obtain j where j: "j < length ps" "ps ! j = lsuf ?T (tl (ps ! Suc k))" "idx ps (lsuf ?T (tl (ps ! Suc k))) = int j"
    using idx_lsuf [OF t] by metis
  have tl_kid: "lsuf ?T (ps ! q @ [?c]) = lsuf ?T (tl (ps ! Suc k))"
    using lsuf_snoc [OF trie_prefix_closed [OF t], of "tl (ps ! s)" ?c] q(2) kid(2) ne by simp
  have "length (ps ! j) \<le> length (ps ! s)"
    using lsuf_tl_length [of "ps ! Suc k" ?T] kid(2) j(2) by simp
  then have jU: "j \<notin> U" using deep [of j] by auto
  have "length (ps ! q) \<le> length nodes"
    using trie_depth [OF t nth_mem [OF q(1)]] len by simp
  moreover have "nd_failure (nodes ! i) = idx ps (lsuf ?T (tl (ps ! i)))"
    if "i < length ps" "length (ps ! i) \<le> length (ps ! q)" for i
    using l that deep [of i] qlen by (force simp: linked_def)
  ultimately have "fallbackFrom (length nodes) nodes edges (int q) ?c = Some (if j = 0 then -1 else int j)"
    using fallbackFrom_correct [OF t q(1)] j tl_kid trie_root [OF t j(1)] by simp
  moreover have "nd_failure (nodes ! s) = int q" using l s q by (auto simp: linked_def)
  ultimately show ?thesis using that j jU by simp
qed

lemma linkEdge_linked:
  assumes t: "trie ps edges nodes" and st: "stored lower kws ps" and l: "linked lower kws U ps nodes"
    and s: "s < length ps" "s \<noteq> 0" "s \<notin> U" and k: "k \<in> set (kids ps s)" "Suc k \<in> U"
    and deep: "\<And>i. i \<in> U \<Longrightarrow> length (ps ! s) < length (ps ! i)"
  shows "\<exists>nodes'. linkEdge edges (int s) nodes (edges ! k) = Some nodes' \<and>
    linked lower kws (U - {Suc k}) ps nodes' \<and> map nd_edgeStart nodes' = map nd_edgeStart nodes"
proof -
  note len = trie_lengths [OF t] and kid = trie_kid [OF t k(1)]
  obtain j where j: "j < length ps" "ps ! j = lsuf (set ps) (tl (ps ! Suc k))"
    "idx ps (lsuf (set ps) (tl (ps ! Suc k))) = int j" "j \<notin> U"
    and fb: "fallbackFrom (length nodes) nodes edges (nd_failure (nodes ! s)) (be_label (edges ! k)) =
       Some (if j = 0 then -1 else int j)"
    using kid_fallback [OF t l s k(1) deep] by metis
  let ?nodes = "nodes[Suc k := (nodes ! Suc k)\<lparr>nd_failure := int j,
      nd_bestKeyword := finBest lower kws (ps ! Suc k)\<rparr>]"
  have jk: "j \<noteq> Suc k" using k(2) j(4) by auto
  have raw: "nd_failure (nodes ! Suc k) = 0" "nd_bestKeyword (nodes ! Suc k) = rawBest lower kws (ps ! Suc k)"
    using l k(2) kid(3) by (auto simp: linked_def)
  then have child: "(nodes ! Suc k)\<lparr>nd_failure := 0, nd_bestKeyword := b\<rparr> =
      (nodes ! Suc k)\<lparr>nd_bestKeyword := b\<rparr>" for b
    by (cases "nodes ! Suc k") simp
  have "nd_bestKeyword (nodes ! j) = finBest lower kws (lsuf (set ps) (tl (ps ! Suc k)))"
    using l j by (auto simp: linked_def)
  then have "minKeywordIndex (rawBest lower kws (ps ! Suc k)) (nd_bestKeyword (nodes ! j)) =
      finBest lower kws (ps ! Suc k)"
    using finBest_tl [OF st] by simp
  then have "linkEdge edges (int s) nodes (edges ! k) = Some ?nodes"
    using s(1) len kid(1,3) fb raw jk j(1)
    by (auto simp: linkEdge_def elemAt_def nat_add_distrib Let_def child)
  moreover have "linked lower kws (U - {Suc k}) ps ?nodes"
    using l j kid(3) len by (auto simp: linked_def nth_list_update)
  moreover have "map nd_edgeStart ?nodes = map nd_edgeStart nodes"
    using kid(3) len by (auto simp: map_update intro: list_update_same_conv [THEN iffD2])
  ultimately show ?thesis by blast
qed

lemma linkEdges_linked:
  assumes "trie ps edges nodes" "stored lower kws ps" "linked lower kws U ps nodes"
    "s < length ps" "s \<noteq> 0" "s \<notin> U" "set ks \<subseteq> set (kids ps s)" "distinct ks" "Suc ` set ks \<subseteq> U"
    "\<And>i. i \<in> U \<Longrightarrow> length (ps ! s) < length (ps ! i)"
  shows "\<exists>nodes'. linkEdges edges (int s) nodes (map ((!) edges) ks) = Some nodes' \<and>
    linked lower kws (U - Suc ` set ks) ps nodes' \<and> map nd_edgeStart nodes' = map nd_edgeStart nodes"
  using assms
proof (induction ks arbitrary: nodes U)
  case (Cons k ks)
  obtain nodes1 where 1: "linkEdge edges (int s) nodes (edges ! k) = Some nodes1"
    "linked lower kws (U - {Suc k}) ps nodes1" "map nd_edgeStart nodes1 = map nd_edgeStart nodes"
    using linkEdge_linked [OF Cons.prems(1-6), of k] Cons.prems(7-) by auto
  have t1: "trie ps edges nodes1" using trie_nodes_cong [OF Cons.prems(1) 1(3)] .
  have rest: "s \<notin> U - {Suc k}" "set ks \<subseteq> set (kids ps s)" "distinct ks" "Suc ` set ks \<subseteq> U - {Suc k}"
    using Cons.prems(6-9) by auto
  have deep: "length (ps ! s) < length (ps ! i)" if "i \<in> U - {Suc k}" for i
    using Cons.prems(10) that by simp
  obtain nodes' where "linkEdges edges (int s) nodes1 (map ((!) edges) ks) = Some nodes'"
    "linked lower kws (U - {Suc k} - Suc ` set ks) ps nodes'"
    "map nd_edgeStart nodes' = map nd_edgeStart nodes1"
    using Cons.IH [OF t1 Cons.prems(2) 1(2) Cons.prems(4,5) rest deep] by blast
  moreover have "U - {Suc k} - Suc ` set ks = U - Suc ` set (k # ks)" by auto
  ultimately show ?case using 1 by simp
qed simp

section \<open>Breadth-first order\<close>

definition kidset :: "string list \<Rightarrow> nat set \<Rightarrow> nat set" where
  "kidset ps S = (\<Union>j\<in>S. Suc ` set (kids ps j))"

text \<open>
  The queue \<open>q\<close> and the set \<open>U\<close> of the nodes that are not queued yet: these are the children of
  the nodes that are queued or in \<open>U\<close>, and the queue is in order of depth.
\<close>

definition frontier :: "string list \<Rightarrow> nat list \<Rightarrow> nat set \<Rightarrow> bool" where
  "frontier ps q U \<longleftrightarrow>
     distinct q \<and> set q \<inter> U = {} \<and> 0 \<notin> set q \<union> U \<and> set q \<union> U \<subseteq> {..<length ps} \<and>
     U = kidset ps (set q \<union> U) \<and> sorted (map (\<lambda>j. length (ps ! j)) q) \<and>
     (\<forall>j\<in>set q. length (ps ! j) \<le> Suc (length (ps ! hd q)))"

lemma kidset_mem: "i \<in> kidset ps S \<longleftrightarrow> (\<exists>j\<in>S. \<exists>k\<in>set (kids ps j). i = Suc k)"
  by (auto simp: kidset_def)

lemma kid_length:
  assumes "trie ps edges nodes" "k \<in> set (kids ps j)"
  shows "length (ps ! Suc k) = Suc (length (ps ! j))"
  using trie_kid(2) [OF assms] by simp

lemma kid_parent:
  assumes "trie ps edges nodes" "k \<in> set (kids ps i)" "k \<in> set (kids ps j)" "i < length ps" "j < length ps"
  shows "i = j"
  using kids_butlast [OF assms(2)] kids_butlast [OF assms(3)] assms(4,5) trie_lengths(4) [OF assms(1)]
  by (simp add: nth_eq_iff_index_eq)

lemma frontier_deep:
  assumes t: "trie ps edges nodes" and f: "frontier ps (s # q) U"
  shows "i \<in> U \<Longrightarrow> length (ps ! s) < length (ps ! i)"
proof (induction "length (ps ! i)" arbitrary: i rule: less_induct)
  case less
  then obtain j k where j: "j \<in> set (s # q) \<union> U" "k \<in> set (kids ps j)" "i = Suc k"
    using f kidset_mem [of i ps "set (s # q) \<union> U"] unfolding frontier_def by blast
  then have len: "length (ps ! i) = Suc (length (ps ! j))" using kid_length [OF t] by blast
  from j(1) consider "j \<in> set (s # q)" | "j \<in> U" by blast
  then show ?case
  proof cases
    case 1
    then have "length (ps ! s) \<le> length (ps ! j)" using f by (auto simp: frontier_def)
    then show ?thesis using len by simp
  next
    case 2
    then show ?thesis using less.hyps [of j] len by simp
  qed
qed

lemma frontier_empty:
  assumes t: "trie ps edges nodes" and f: "frontier ps [] U"
  shows "U = {}"
proof -
  have "i \<notin> U" for i
  proof (induction "length (ps ! i)" arbitrary: i rule: less_induct)
    case less
    show ?case
    proof
      assume "i \<in> U"
      then obtain j k where "j \<in> U" "k \<in> set (kids ps j)" "i = Suc k"
        using f kidset_mem [of i ps U] unfolding frontier_def by auto
      then show False using less kid_length [OF t] by auto
    qed
  qed
  then show ?thesis by blast
qed

lemma kidset_disjoint:
  assumes "trie ps edges nodes" "S \<inter> S' = {}" "S \<union> S' \<subseteq> {..<length ps}"
  shows "kidset ps S \<inter> kidset ps S' = {}"
  using assms kid_parent [OF assms(1)] by (auto simp: kidset_def) (metis IntI empty_iff lessThan_iff subsetD)

lemma frontier_step:
  assumes t: "trie ps edges nodes" and f: "frontier ps (s # q) U"
  shows "frontier ps (q @ map Suc (rev (kids ps s))) (U - Suc ` set (kids ps s))"
    and "Suc ` set (kids ps s) \<subseteq> U"
proof -
  let ?K = "Suc ` set (kids ps s)"
  have U: "U = kidset ps (set (s # q) \<union> U)" and dis: "distinct (s # q)" "set (s # q) \<inter> U = {}"
    and bnd: "set (s # q) \<union> U \<subseteq> {..<length ps}" "0 \<notin> set (s # q) \<union> U"
    using f by (simp_all add: frontier_def)
  have split: "kidset ps (set (s # q) \<union> U) = ?K \<union> kidset ps (set q \<union> U)" by (auto simp: kidset_def)
  show K: "?K \<subseteq> U" using U split by blast
  have "kidset ps {s} \<inter> kidset ps (set q \<union> U) = {}"
    using kidset_disjoint [OF t, of "{s}" "set q \<union> U"] dis bnd by auto
  moreover have "?K = kidset ps {s}" by (simp add: kidset_def)
  ultimately have "U - ?K = kidset ps (set q \<union> U)" using U split by blast
  moreover have "set q \<union> ?K \<union> (U - ?K) = set q \<union> U" using K by blast
  ultimately have U': "U - ?K = kidset ps (set q \<union> ?K \<union> (U - ?K))" by simp
  have kl: "length (ps ! Suc k) = Suc (length (ps ! s))" if "k \<in> set (kids ps s)" for k
    using kid_length [OF t that] .
  have ql: "length (ps ! s) \<le> length (ps ! j)" "length (ps ! j) \<le> Suc (length (ps ! s))" if "j \<in> set q" for j
    using f that by (auto simp: frontier_def)
  let ?d = "\<lambda>j. length (ps ! j)"
  have "map ?d (map Suc (rev (kids ps s))) = map (\<lambda>_. Suc (?d s)) (rev (kids ps s))"
    using kl by simp
  then have "sorted (map ?d (map Suc (rev (kids ps s))))" by (simp add: map_replicate_const)
  moreover have "sorted (map ?d q)" using f by (simp add: frontier_def)
  ultimately have "sorted (map ?d (q @ map Suc (rev (kids ps s))))"
    using ql(2) kl by (simp add: sorted_append)
  moreover have "length (ps ! j) \<le> Suc (length (ps ! hd (q @ map Suc (rev (kids ps s)))))"
    if "j \<in> set q \<union> ?K" for j
    using that ql kl hd_in_set [of "q @ map Suc (rev (kids ps s))"] by fastforce
  ultimately show "frontier ps (q @ map Suc (rev (kids ps s))) (U - ?K)"
    using U' dis bnd K kids_distinct [of ps s]
    by (auto simp: frontier_def distinct_map)
qed

lemma targets_of_kids:
  assumes "trie ps edges nodes"
  shows "map be_target (map ((!) edges) (rev (kids ps s))) = map int (map Suc (rev (kids ps s)))"
  using trie_kid(1) [OF assms] by simp

lemma linkQueue_linked:
  assumes "trie ps edges nodes" "stored lower kws ps" "linked lower kws U ps nodes"
    "frontier ps q U" "length q + card U \<le> fuel"
  shows "\<exists>nodes'. linkQueue fuel edges nodes (map int q) = Some nodes' \<and>
    linked lower kws {} ps nodes' \<and> map nd_edgeStart nodes' = map nd_edgeStart nodes"
  using assms
proof (induction fuel arbitrary: nodes U q)
  case 0
  then have "q = []" by simp
  moreover from 0 this have "U = {}" using frontier_empty by blast
  ultimately show ?case using 0 by simp
next
  case (Suc fuel)
  show ?case
  proof (cases q)
    case Nil
    then have "U = {}" using Suc.prems frontier_empty by blast
    then show ?thesis using Suc.prems Nil by simp
  next
    case (Cons s q')
    let ?K = "Suc ` set (kids ps s)" and ?ks = "rev (kids ps s)"
    note t = Suc.prems(1) and f = Suc.prems(4) [unfolded Cons]
    note step = frontier_step [OF t f]
    have s: "s < length ps" "s \<noteq> 0" "s \<notin> U" and U: "U \<subseteq> {..<length ps}"
      using f by (auto simp: frontier_def)
    obtain nodes1 where 1: "linkEdges edges (int s) nodes (map ((!) edges) ?ks) = Some nodes1"
      "linked lower kws (U - ?K) ps nodes1" "map nd_edgeStart nodes1 = map nd_edgeStart nodes"
      using linkEdges_linked [OF t Suc.prems(2,3) s _ _ _ frontier_deep [OF t f], of ?ks]
        kids_distinct step(2) by auto
    have "card ?K = length (kids ps s)" by (simp add: card_image distinct_card kids_distinct)
    then have "card (U - ?K) + length (kids ps s) = card U"
      using step(2) U card_mono [of U ?K] finite_subset [of U] by (simp add: card_Diff_subset)
    then have fuel: "length (q' @ map Suc ?ks) + card (U - ?K) \<le> fuel"
      using Suc.prems(5) Cons by simp
    have "linkQueue (Suc fuel) edges nodes (map int q) =
        linkQueue fuel edges nodes1 (map int (q' @ map Suc ?ks))"
      using Cons s(1) trie_lengths [OF t] trie_siblings [OF t s(1)] 1(1)
      by (simp add: elemAt_def targets_of_kids [OF t] del: map_map)
    then show ?thesis
      using Suc.IH [OF trie_nodes_cong [OF t 1(3)] Suc.prems(2) 1(2) step(1) fuel] 1(3) by simp
  qed
qed

lemma initial_frontier:
  assumes t: "trie ps edges nodes"
  defines "q \<equiv> map Suc (rev (kids ps 0))"
  shows "frontier ps q ({..<length ps} - insert 0 (set q))"
proof -
  note len = trie_lengths [OF t]
  let ?U = "{..<length ps} - insert 0 (set q)"
  have set_q: "set q = kidset ps {0}" by (simp add: q_def kidset_def)
  have sub: "set q \<subseteq> {..<length ps}" "0 \<notin> set q" using kids_less by (auto simp: q_def)
  have parent: "i \<in> kidset ps {..<length ps}" if i: "i < length ps" "i \<noteq> 0" for i
  proof -
    obtain k where k: "i = Suc k" "k < length edges" using i len by (cases i) auto
    then have "butlast (ps ! i) \<in> set ps" using t unfolding trie_def by blast
    then obtain j where "j < length ps" "ps ! j = butlast (ps ! i)" by (auto simp: in_set_conv_nth)
    then show ?thesis using k len by (auto simp: kidset_mem kids_def intro: bexI [of _ j])
  qed
  have "kidset ps {..<length ps} \<subseteq> {..<length ps} - {0}"
    using kids_less by (auto simp: kidset_mem)
  then have "kidset ps {..<length ps} = {..<length ps} - {0}"
    using parent by auto
  moreover have all: "{0} \<union> (set q \<union> ?U) = {..<length ps}" using sub len by auto
  moreover have "kidset ps ({0} \<union> (set q \<union> ?U)) = set q \<union> kidset ps (set q \<union> ?U)"
    unfolding set_q by (auto simp: kidset_def)
  ultimately have "set q \<union> kidset ps (set q \<union> ?U) = {..<length ps} - {0}" by simp
  moreover have "set q \<inter> kidset ps (set q \<union> ?U) = {}"
    using sub len kidset_disjoint [OF t, of "{0}" "set q \<union> ?U"] all unfolding set_q by auto
  ultimately have "?U = kidset ps (set q \<union> ?U)" by blast
  moreover have "length (ps ! j) = 1" if "j \<in> set q" for j
    using that kid_length [OF t, of _ 0] len by (auto simp: q_def)
  then have "map (\<lambda>j. length (ps ! j)) q = map (\<lambda>_. 1) q" "\<forall>j\<in>set q. length (ps ! j) \<le> Suc (length (ps ! hd q))"
    by auto
  moreover have "distinct q" by (simp add: q_def distinct_map kids_distinct)
  ultimately show ?thesis using sub
    unfolding frontier_def by (auto simp: map_replicate_const)
qed

lemma initial_linked:
  assumes t: "trie ps edges nodes" and st: "stored lower kws ps" and l: "labelled (rawBest lower kws) ps nodes"
  shows "linked lower kws ({..<length ps} - insert 0 (Suc ` set (kids ps 0))) ps nodes"
proof -
  note len = trie_lengths [OF t]
  have short: "length (ps ! i) \<le> 1" if "i \<in> insert 0 (Suc ` set (kids ps 0))" for i
    using that kid_length [OF t, of _ 0] len by auto
  have root: "idx ps [] = 0" using idx_nth [of ps 0] len by simp
  have "lsuf (set ps) (tl (ps ! i)) = []" if "i \<in> insert 0 (Suc ` set (kids ps 0))" for i
    using short [OF that] by (cases "ps ! i") auto
  then show ?thesis
    using l finBest_short [OF st short] root unfolding linked_def labelled_def by auto
qed

section \<open>Packed edges\<close>

lemma insertByLabel_eq:
  fixes x :: contentModerationKeywordEdge
  defines "larger \<equiv> \<lambda>e. ed_label x < ed_label e"
  shows "insertByLabel xs x = rev (dropWhile larger (rev xs)) @ x # rev (takeWhile larger (rev xs))"
proof -
  have "take (length xs - length (takeWhile larger (rev xs))) xs = rev (dropWhile larger (rev xs))"
    by (metis length_dropWhile_le dropWhile_eq_drop length_rev rev_drop rev_rev_ident)
  then show ?thesis by (simp add: insertByLabel_def larger_def)
qed

lemma mset_insertByLabel: "mset (insertByLabel xs x) = add_mset x (mset xs)"
  by (simp add: insertByLabel_eq)
    (metis add.commute mset_append mset_rev takeWhile_dropWhile_id)

lemma sorted_insertByLabel:
  assumes "sorted (map ed_label xs)"
  shows "sorted (map ed_label (insertByLabel xs x))"
proof -
  let ?P = "\<lambda>e. ed_label x < ed_label e"
  let ?D = "rev (dropWhile ?P (rev xs))" and ?L = "rev (takeWhile ?P (rev xs))"
  have xs: "xs = ?D @ ?L" by (simp flip: rev_append)
  then have "sorted (map ed_label (?D @ ?L))" using assms by simp
  then have D: "sorted (map ed_label ?D)" and L: "sorted (map ed_label ?L)"
    by (simp_all only: map_append sorted_append)
  have small: "ed_label e \<le> ed_label x" if e: "e \<in> set ?D" for e
  proof -
    obtain y ys where y: "dropWhile ?P (rev xs) = y # ys" using e by (cases "dropWhile ?P (rev xs)") auto
    then have "\<not> ?P y" by (metis hd_dropWhile list.distinct(1) list.sel(1))
    moreover have "ed_label e \<le> ed_label y" using D e y by (auto simp: sorted_append)
    ultimately show ?thesis by simp
  qed
  have "?P e" if "e \<in> set ?L" for e using that set_takeWhileD by fastforce
  then show ?thesis
    unfolding insertByLabel_eq using D L small by (fastforce simp: sorted_append intro: less_imp_le)
qed

lemma sortOutgoing_correct:
  "mset (sortOutgoing xs) = mset xs" "sorted (map ed_label (sortOutgoing xs))"
proof -
  have "mset (foldl insertByLabel ys xs) = mset ys + mset xs" for ys
    by (induction xs arbitrary: ys) (simp_all add: mset_insertByLabel)
  then show "mset (sortOutgoing xs) = mset xs" by (simp add: sortOutgoing_def)
  have "sorted (map ed_label ys) \<Longrightarrow> sorted (map ed_label (foldl insertByLabel ys xs))" for ys
    by (induction xs arbitrary: ys) (simp_all add: sorted_insertByLabel)
  then show "sorted (map ed_label (sortOutgoing xs))" by (simp add: sortOutgoing_def)
qed

definition packEdge :: "contentModerationKeywordBuildEdge \<Rightarrow> contentModerationKeywordEdge" where
  "packEdge e = \<lparr>ed_target = be_target e, ed_label = be_label e\<rparr>"

definition outgoing :: "string list \<Rightarrow> kwBuildEdges \<Rightarrow> nat \<Rightarrow> contentModerationKeywordEdge list" where
  "outgoing ps edges i = sortOutgoing (map (\<lambda>k. packEdge (edges ! k)) (rev (kids ps i)))"

lemma outgoing_set: "set (outgoing ps edges i) = (\<lambda>k. packEdge (edges ! k)) ` set (kids ps i)"
  using mset_eq_setD [OF sortOutgoing_correct(1) [of "map (\<lambda>k. packEdge (edges ! k)) (rev (kids ps i))"]]
  by (simp add: outgoing_def)

lemma outgoing_sorted: "sorted (map ed_label (outgoing ps edges i))"
  unfolding outgoing_def by (rule sortOutgoing_correct(2))

lemma kids_labels:
  assumes t: "trie ps edges nodes"
  shows "inj_on (\<lambda>k. be_label (edges ! k)) (set (kids ps i))"
proof (rule inj_onI)
  fix k k' assume k: "k \<in> set (kids ps i)" "k' \<in> set (kids ps i)" "be_label (edges ! k) = be_label (edges ! k')"
  then have "ps ! Suc k = ps ! Suc k'" using trie_kid(2) [OF t] by simp
  then show "k = k'"
    using trie_kid(3) [OF t k(1)] trie_kid(3) [OF t k(2)] trie_lengths(4) [OF t] by (simp add: nth_eq_iff_index_eq)
qed

lemma kids_at_most_256:
  assumes "trie ps edges nodes"
  shows "length (kids ps i) \<le> 256"
proof -
  have "length (kids ps i) = card ((\<lambda>k. be_label (edges ! k)) ` set (kids ps i))"
    using card_image [OF kids_labels [OF assms]] by (simp add: distinct_card kids_distinct)
  also have "\<dots> \<le> card (UNIV :: char set)" by (intro card_mono) auto
  finally show ?thesis by (simp add: card_UNIV_char)
qed

text \<open>Where the edges of a packed node are, and that packing keeps the rest of the node.\<close>

definition packedAs ::
  "contentModerationKeywordEdge list \<Rightarrow> contentModerationKeywordNode \<Rightarrow> contentModerationKeywordNode
   \<Rightarrow> contentModerationKeywordEdge list \<Rightarrow> bool" where
  "packedAs packed node node' xs \<longleftrightarrow>
     nd_failure node' = nd_failure node \<and> nd_bestKeyword node' = nd_bestKeyword node \<and>
     nd_edgeCount node' = length xs \<and>
     (\<exists>before after. packed = before @ xs @ after \<and> nd_edgeStart node' = length before)"

lemma packNodes_correct:
  assumes "\<And>i. i < length nodes \<Longrightarrow>
      siblings (length edges) edges (contentModerationKeywordBuildFirstEdge (nodes ! i)) = Some (es i)"
    and "\<And>i. i < length nodes \<Longrightarrow> length (es i) \<le> 256"
  shows "\<exists>nodes' after. packNodes edges nodes packed = Some (nodes', packed @ after) \<and>
    length nodes' = length nodes \<and>
    (\<forall>i<length nodes. packedAs (packed @ after) (nodes ! i) (nodes' ! i) (sortOutgoing (map packEdge (es i))))"
  using assms
proof (induction nodes arbitrary: packed es)
  case (Cons node nodes)
  let ?out = "sortOutgoing (map packEdge (es 0))"
  have head: "siblings (length edges) edges (contentModerationKeywordBuildFirstEdge node) = Some (es 0)"
    "length (es 0) \<le> 256"
    using Cons.prems(1) [of 0] Cons.prems(2) [of 0] by simp_all
  have "\<exists>nodes' after. packNodes edges nodes (packed @ ?out) = Some (nodes', (packed @ ?out) @ after) \<and>
      length nodes' = length nodes \<and>
      (\<forall>i<length nodes. packedAs ((packed @ ?out) @ after) (nodes ! i) (nodes' ! i)
         (sortOutgoing (map packEdge (es (Suc i)))))"
    using Cons.prems(1) [of "Suc _"] Cons.prems(2) [of "Suc _"]
    by (intro Cons.IH [where es = "\<lambda>i. es (Suc i)"]) auto
  then obtain nodes' after where rest:
    "packNodes edges nodes (packed @ ?out) = Some (nodes', packed @ ?out @ after)"
    "length nodes' = length nodes"
    "\<forall>i<length nodes. packedAs (packed @ ?out @ after) (nodes ! i) (nodes' ! i)
       (sortOutgoing (map packEdge (es (Suc i))))"
    by auto
  let ?node = "node\<lparr>nd_edgeStart := length packed, nd_edgeCount := length ?out\<rparr>"
  have out: "sortOutgoing (map (\<lambda>e. \<lparr>ed_target = be_target e, ed_label = be_label e\<rparr>) (es 0)) = ?out"
    by (simp add: packEdge_def [abs_def])
  have "packNodes edges (node # nodes) packed = Some (?node # nodes', packed @ ?out @ after)"
    using head rest(1) by (simp add: out Let_def)
  moreover have "packedAs (packed @ ?out @ after) node ?node ?out" by (auto simp: packedAs_def)
  ultimately show ?case using rest(2,3) by (auto simp: less_Suc_eq_0_disj)
qed simp

section \<open>Transitions of the packed automaton\<close>

definition isLowerBound :: "contentModerationKeywordEdge list \<Rightarrow> char \<Rightarrow> nat \<Rightarrow> nat \<Rightarrow> nat \<Rightarrow> bool" where
  "isLowerBound edges c l r m \<longleftrightarrow> l \<le> m \<and> m \<le> r \<and>
     (\<forall>i\<in>{l..<m}. ed_label (edges ! i) < c) \<and> (\<forall>i\<in>{m..<r}. c \<le> ed_label (edges ! i))"

lemma isLowerBound_right:
  assumes "isLowerBound edges c (Suc k) r m" "l \<le> k" "\<forall>i\<in>{l..<Suc k}. ed_label (edges ! i) < c"
  shows "isLowerBound edges c l r m"
  using assms by (force simp: isLowerBound_def)

lemma isLowerBound_left:
  assumes "isLowerBound edges c l k m" "k \<le> r" "\<forall>i\<in>{k..<r}. c \<le> ed_label (edges ! i)"
  shows "isLowerBound edges c l r m"
  using assms by (force simp: isLowerBound_def)

lemma lowerBound_correct:
  "l \<le> r \<Longrightarrow> r \<le> length edges \<Longrightarrow>
   (\<And>i j. l \<le> i \<Longrightarrow> i \<le> j \<Longrightarrow> j < r \<Longrightarrow> ed_label (edges ! i) \<le> ed_label (edges ! j)) \<Longrightarrow>
   \<exists>m. lowerBound edges c l r = Some m \<and> isLowerBound edges c l r m"
proof (induction edges c l r rule: lowerBound.induct)
  case (1 edges c l r)
  show ?case
  proof (cases "l < r")
    case False
    then show ?thesis using 1(3) by (subst lowerBound.simps) (auto simp: isLowerBound_def)
  next
    case True
    define k where "k = l + (r - l) div 2"
    have k: "l \<le> k" "k < r" using True by (auto simp: k_def)
    then have e: "elemAt edges (int k) = Some (edges ! k)" using 1(4) by (simp add: elemAt_def)
    show ?thesis
    proof (cases "ed_label (edges ! k) < c")
      case less: True
      have "lowerBound edges c l r = lowerBound edges c (Suc k) r"
        using True e less by (subst lowerBound.simps) (simp add: k_def)
      moreover have "\<exists>m. lowerBound edges c (Suc k) r = Some m \<and> isLowerBound edges c (Suc k) r m"
        using 1(1) [OF True k_def e less] 1(4,5) k by simp
      moreover have "\<forall>i\<in>{l..<Suc k}. ed_label (edges ! i) < c"
        using 1(5) [of _ k] less k by fastforce
      ultimately show ?thesis using k(1) isLowerBound_right by metis
    next
      case ge: False
      have "lowerBound edges c l r = lowerBound edges c l k"
        using True e ge by (subst lowerBound.simps) (simp add: k_def)
      moreover have "\<exists>m. lowerBound edges c l k = Some m \<and> isLowerBound edges c l k m"
        using 1(2) [OF True k_def e ge] 1(4,5) k by simp
      moreover have "\<forall>i\<in>{k..<r}. c \<le> ed_label (edges ! i)"
        using 1(5) [of k] ge k by fastforce
      ultimately show ?thesis using k(2) isLowerBound_left by (metis less_imp_le)
    qed
  qed
qed

lemma lowerBound_slice:
  assumes s: "sorted (map ed_label xs)" and es: "edges = before @ xs @ after"
  obtains m where "lowerBound edges c (length before) (length before + length xs) = Some m"
    "m < length before + length xs \<Longrightarrow> edges ! m \<in> set xs"
    "c \<in> ed_label ` set xs \<Longrightarrow> m < length before + length xs \<and> ed_label (edges ! m) = c"
proof -
  let ?l = "length before" and ?r = "length before + length xs"
  have nth: "edges ! (?l + i) = xs ! i" if "i < length xs" for i
    using that by (simp add: es nth_append)
  have slice: "\<exists>i<length xs. j = ?l + i" if "?l \<le> j" "j < ?r" for j
    using that by (intro exI [of _ "j - ?l"]) auto
  have mono: "ed_label (edges ! i) \<le> ed_label (edges ! j)" if ij: "?l \<le> i" "i \<le> j" "j < ?r" for i j
  proof -
    obtain i' j' where "i = ?l + i'" "j = ?l + j'" "j' < length xs"
      using ij slice [of i] slice [of j] by auto
    then show ?thesis using ij sorted_nth_mono [OF s, of i' j'] by (simp add: nth)
  qed
  obtain m where m: "lowerBound edges c ?l ?r = Some m" "isLowerBound edges c ?l ?r m"
    using lowerBound_correct [of ?l ?r edges c] mono by (auto simp: es)
  have mem: "edges ! m \<in> set xs" if "m < ?r"
    using m(2) slice [of m] that nth by (auto simp: isLowerBound_def)
  have "m < ?r \<and> ed_label (edges ! m) = c" if c: "c \<in> ed_label ` set xs"
  proof -
    obtain i where i: "i < length xs" "ed_label (edges ! (?l + i)) = c"
      using c nth by (auto simp: in_set_conv_nth)
    then have "m \<le> ?l + i" using m(2) unfolding isLowerBound_def by force
    then show ?thesis using m(2) mono [of m "?l + i"] i by (auto simp: isLowerBound_def intro: antisym)
  qed
  then show ?thesis using that m(1) mem by blast
qed

definition automaton ::
  "(string \<Rightarrow> string) \<Rightarrow> string list \<Rightarrow> string list \<Rightarrow> kwBuildEdges \<Rightarrow> kwNodes
   \<Rightarrow> contentModerationKeywordMatcher \<Rightarrow> bool" where
  "automaton lower kws ps edges nodes m \<longleftrightarrow>
     trie ps edges nodes \<and> stored lower kws ps \<and> linked lower kws {} ps nodes \<and>
     length (km_nodes m) = length ps \<and>
     (\<forall>i<length ps. packedAs (km_edges m) (nodes ! i) (km_nodes m ! i) (outgoing ps edges i)) \<and>
     (\<forall>c. km_rootTransitions m c = (if [c] \<in> set ps then idx ps [c] else 0)) \<and>
     km_keywords m = kws"

lemma next_state_correct:
  assumes a: "automaton lower kws ps edges nodes m" and s: "s < length ps"
  shows "next_state m (int s) c = Some (if ps ! s @ [c] \<in> set ps then idx ps (ps ! s @ [c]) else 0)"
proof (cases "s = 0")
  case True
  then show ?thesis using a trie_lengths(3) by (auto simp: next_state_def automaton_def)
next
  case False
  have t: "trie ps edges nodes" and len: "length (km_nodes m) = length ps"
    using a by (simp_all add: automaton_def)
  let ?node = "km_nodes m ! s" and ?out = "outgoing ps edges s"
  obtain before after where p: "km_edges m = before @ ?out @ after"
    "nd_edgeStart ?node = length before" "nd_edgeCount ?node = length ?out"
    using a s by (auto simp: automaton_def packedAs_def)
  obtain i where i: "lowerBound (km_edges m) c (length before) (length before + length ?out) = Some i"
    "i < length before + length ?out \<Longrightarrow> km_edges m ! i \<in> set ?out"
    "c \<in> ed_label ` set ?out \<Longrightarrow> i < length before + length ?out \<and> ed_label (km_edges m ! i) = c"
    using lowerBound_slice [OF outgoing_sorted p(1)] by metis
  have hit: "ps ! s @ [c] \<in> set ps \<and> ed_target e = idx ps (ps ! s @ [c])"
    if e: "e \<in> set ?out" "ed_label e = c" for e
  proof -
    obtain k where "k \<in> set (kids ps s)" "e = packEdge (edges ! k)" using e by (auto simp: outgoing_set)
    then show ?thesis using e trie_kid [OF t] idx_nth [OF trie_lengths(4) [OF t]]
      by (metis packEdge_def contentModerationKeywordEdge.select_convs nth_mem)
  qed
  have found: "c \<in> ed_label ` set ?out" if c: "ps ! s @ [c] \<in> set ps"
  proof -
    obtain j where j: "j < length ps" "ps ! j = ps ! s @ [c]" using c by (auto simp: in_set_conv_nth)
    from trie_kidI [OF t j] obtain k where "k \<in> set (kids ps s)" "be_label (edges ! k) = c" by metis
    then show ?thesis by (force simp: outgoing_set packEdge_def)
  qed
  have "next_state m (int s) c =
      Some (if i < length before + length ?out \<and> ed_label (km_edges m ! i) = c then ed_target (km_edges m ! i) else 0)"
    using False s len p i(1) by (simp add: next_state_def elemAt_def Let_def)
  then show ?thesis using hit [of "km_edges m ! i"] i(2,3) found by auto
qed

section \<open>Scanning the text\<close>

lemma advance_correct:
  assumes a: "automaton lower kws ps edges nodes m"
  shows "s < length ps \<Longrightarrow> length (ps ! s) \<le> fuel \<Longrightarrow>
    advance fuel m (int s) c = Some (idx ps (lsuf (set ps) (ps ! s @ [c])))"
proof (induction fuel arbitrary: s)
  case (0 s)
  have t: "trie ps edges nodes" using a by (simp add: automaton_def)
  have "s = 0" "ps ! 0 = []" using 0 trie_root [OF t] trie_lengths(3) [OF t] by auto
  moreover have "idx ps [] = 0" using idx_nth [of ps 0] trie_lengths [OF t] by simp
  ultimately show ?case using next_state_correct [OF a 0(1), of c]
    by (auto simp: advance.simps lsuf_member)
next
  case (Suc fuel)
  have t: "trie ps edges nodes" and len: "length (km_nodes m) = length ps"
    using a by (simp_all add: automaton_def)
  have root: "idx ps [] = 0" using idx_nth [of ps 0] trie_lengths [OF t] by simp
  note step = next_state_correct [OF a Suc.prems(1), of c]
  consider (hit) "ps ! s @ [c] \<in> set ps" | (stop) "ps ! s @ [c] \<notin> set ps" "s = 0"
    | (fail) "ps ! s @ [c] \<notin> set ps" "s \<noteq> 0" by blast
  then show ?case
  proof cases
    case hit
    then have "idx ps (ps ! s @ [c]) \<noteq> 0"
      using idx_memE [OF trie_lengths(4) [OF t] hit] trie_lengths(3) [OF t]
      by (metis append_is_Nil_conv not_Cons_self2 of_nat_eq_0_iff)
    then show ?thesis using hit step by (simp add: advance.simps lsuf_member)
  next
    case stop
    then show ?thesis using step trie_lengths(3) [OF t] root by (simp add: advance.simps)
  next
    case fail
    have ne: "ps ! s \<noteq> []" using trie_root [OF t Suc.prems(1)] fail by simp
    obtain j where j: "j < length ps" "ps ! j = lsuf (set ps) (tl (ps ! s))"
      "idx ps (lsuf (set ps) (tl (ps ! s))) = int j"
      using idx_lsuf [OF t] by metis
    then have "nd_failure (km_nodes m ! s) = int j"
      using a Suc.prems(1) by (simp add: automaton_def packedAs_def linked_def)
    then have "advance (Suc fuel) m (int s) c = advance fuel m (int j) c"
      using fail step Suc.prems(1) len by (simp add: advance.simps [of "Suc fuel"] elemAt_def)
    moreover have "length (ps ! j) \<le> fuel"
      using Suc.prems(2) lsuf_tl_length [OF ne, of "set ps"] j(2) by simp
    ultimately show ?thesis
      using Suc.IH [OF j(1)] lsuf_step [OF trie_prefix_closed [OF t] fail(1) ne] j(2) by simp
  qed
qed

text \<open>A keyword counts when it is not empty and occurs in the text, both lower-cased.\<close>

definition occurs :: "(string \<Rightarrow> string) \<Rightarrow> string \<Rightarrow> string \<Rightarrow> bool" where
  "occurs lower text kw \<longleftrightarrow> kw \<noteq> [] \<and> sublist (lower kw) text"

lemma occurs_snoc: "occurs lower (u @ [c]) kw \<longleftrightarrow> occurs lower u kw \<or> kw \<noteq> [] \<and> suffix (lower kw) (u @ [c])"
  by (auto simp: occurs_def sublist_snoc)

lemma occurs_append: "occurs lower u kw \<Longrightarrow> occurs lower (u @ w) kw"
  by (simp add: occurs_def sublist_append)

lemma scan_correct:
  assumes a: "automaton lower kws ps edges nodes m"
  shows "s < length ps \<Longrightarrow> ps ! s = lsuf (set ps) u \<Longrightarrow>
    scan m w (int s) (firstIndex (occurs lower u) kws) = Some (firstIndex (occurs lower (u @ w)) kws)"
proof (induction w arbitrary: s u)
  case (Cons c w)
  have t: "trie ps edges nodes" and st: "stored lower kws ps" and len: "length (km_nodes m) = length ps"
    using a by (simp_all add: automaton_def)
  let ?u = "u @ [c]" and ?best = "firstIndex (occurs lower (u @ [c])) kws"
  obtain j where j: "j < length ps" "ps ! j = lsuf (set ps) ?u" "idx ps (lsuf (set ps) ?u) = int j"
    using idx_lsuf [OF t] by metis
  have "length (ps ! s) \<le> length (km_nodes m)"
    using trie_depth [OF t nth_mem [OF Cons.prems(1)]] len by simp
  then have adv: "advance (length (km_nodes m)) m (int s) c = Some (int j)"
    using advance_correct [OF a Cons.prems(1)] Cons.prems(2) j(3)
      lsuf_snoc [OF trie_prefix_closed [OF t], of u c] by simp
  have "nd_bestKeyword (km_nodes m ! j) = finBest lower kws ?u"
    using a j finBest_lsuf [OF st, of ?u] by (simp add: automaton_def packedAs_def linked_def)
  then have best: "minKeywordIndex (firstIndex (occurs lower u) kws) (nd_bestKeyword (km_nodes m ! j)) = ?best"
    unfolding finBest_def by (simp add: minKeywordIndex_firstIndex occurs_snoc [abs_def])
  have zero: "firstIndex (occurs lower (?u @ w)) kws = 0" if "?best = 0"
    using firstIndex_zero_mono [OF that] occurs_append by blast
  have "scan m (c # w) (int s) (firstIndex (occurs lower u) kws) =
      (if ?best = 0 then Some 0 else scan m w (int j) ?best)"
    using adv best j(1) len by (simp add: elemAt_def Let_def)
  then show ?case using Cons.IH [OF j(1,2)] zero by simp
qed simp

section \<open>The constructed matcher\<close>

lemma rootTransitions_find:
  "foldl (\<lambda>t e. t(be_label e := be_target e)) f (map ((!) edges) ks) c =
     (case find (\<lambda>k. be_label (edges ! k) = c) (rev ks) of None \<Rightarrow> f c | Some k \<Rightarrow> be_target (edges ! k))"
  by (induction ks rule: rev_induct) auto

lemma packNodes_outgoing:
  assumes t: "trie ps edges nodes"
  obtains nodes' packed where "packNodes edges nodes [] = Some (nodes', packed)" "length nodes' = length ps"
    "\<And>i. i < length ps \<Longrightarrow> packedAs packed (nodes ! i) (nodes' ! i) (outgoing ps edges i)"
proof -
  let ?es = "\<lambda>i. map ((!) edges) (rev (kids ps i))"
  have "\<exists>nodes' after. packNodes edges nodes [] = Some (nodes', [] @ after) \<and> length nodes' = length nodes \<and>
    (\<forall>i<length nodes. packedAs ([] @ after) (nodes ! i) (nodes' ! i) (sortOutgoing (map packEdge (?es i))))"
    using trie_siblings [OF t] trie_lengths(1) [OF t] kids_at_most_256 [OF t]
    by (intro packNodes_correct [where es = ?es]) simp_all
  then show ?thesis using that trie_lengths(1) [OF t] by (auto simp: outgoing_def comp_def)
qed

lemma initial_fuel:
  assumes t: "trie ps edges nodes"
  shows "length (kids ps 0) + card ({..<length ps} - insert 0 (Suc ` set (kids ps 0))) \<le> length nodes"
proof -
  let ?K = "Suc ` set (kids ps 0)" and ?U = "{..<length ps} - insert 0 (Suc ` set (kids ps 0))"
  have "card ?K + card ?U = card (?K \<union> ?U)" by (intro card_Un_disjoint [symmetric]) auto
  also have "\<dots> \<le> card {..<length ps}" using kids_less by (intro card_mono) auto
  finally show ?thesis using trie_lengths(1) [OF t] by (simp add: card_image distinct_card kids_distinct)
qed

lemma newContentModerationKeywordMatcher_correct:
  assumes lower: "\<And>k. k \<in> set kws \<Longrightarrow> k \<noteq> [] \<Longrightarrow> lower k \<noteq> []"
  obtains (Nil) "newContentModerationKeywordMatcher lower kws = Some None" "\<forall>k\<in>set kws. k = []"
  | (Built) m ps edges nodes where "newContentModerationKeywordMatcher lower kws = Some (Some m)"
      "automaton lower kws ps edges nodes m"
proof (cases "kws = []")
  case False
  obtain ps edges nodes where ins:
    "insertKeywords lower ([newContentModerationKeywordNode], []) 0 kws = Some (nodes, edges)"
    and t: "trie ps edges nodes" and l: "labelled (rawBest lower kws) ps nodes"
    and mem: "\<And>k. k \<in> set kws \<Longrightarrow> k \<noteq> [] \<Longrightarrow> lower k \<in> set ps"
    using insertKeywords_correct by metis
  note len = trie_lengths [OF t]
  have st: "stored lower kws ps" using lower mem by (auto simp: stored_def)
  show ?thesis
  proof (cases "length nodes = 1")
    case True
    then have "ps = [[]]" using len by (cases ps) auto
    then have "\<forall>k\<in>set kws. k = []" using st by (auto simp: stored_def)
    then show ?thesis using Nil False ins True by (simp add: newContentModerationKeywordMatcher_def)
  next
    case many: False
    let ?q = "map Suc (rev (kids ps 0))" and ?es = "map ((!) edges) (rev (kids ps 0))"
    let ?U = "{..<length ps} - insert 0 (set ?q)"
    have fuel: "length ?q + card ?U \<le> length nodes" using initial_fuel [OF t] by simp
    have linked: "linked lower kws ?U ps nodes" using initial_linked [OF t st l] by simp
    obtain nodes1 where 1: "linkQueue (length nodes) edges nodes (map int ?q) = Some nodes1"
      "linked lower kws {} ps nodes1" "map nd_edgeStart nodes1 = map nd_edgeStart nodes"
      using linkQueue_linked [OF t st linked initial_frontier [OF t] fuel] by blast
    have t1: "trie ps edges nodes1" using trie_nodes_cong [OF t 1(3)] .
    obtain nodes2 packed where 2: "packNodes edges nodes1 [] = Some (nodes2, packed)" "length nodes2 = length ps"
      "\<And>i. i < length ps \<Longrightarrow> packedAs packed (nodes1 ! i) (nodes2 ! i) (outgoing ps edges i)"
      using packNodes_outgoing [OF t1] by metis
    let ?root = "foldl (\<lambda>t e. t(be_label e := be_target e)) (\<lambda>_. 0) ?es"
    let ?m = "\<lparr>km_nodes = nodes2, km_edges = packed, km_rootTransitions = ?root, km_keywords = kws\<rparr>"
    have "siblings (length edges) edges (contentModerationKeywordBuildFirstEdge (hd nodes)) = Some ?es"
      using trie_siblings [OF t, of 0] len by (cases nodes) auto
    then have "newContentModerationKeywordMatcher lower kws = Some (Some ?m)"
      using False ins many 1(1) 2(1) targets_of_kids [OF t, of 0]
      by (simp add: newContentModerationKeywordMatcher_def Let_def del: map_map)
    moreover have "automaton lower kws ps edges nodes1 ?m"
      using t1 st 1(2) 2(2,3) trie_find [OF t, of "kids ps 0" 0, where d = 0] len
      by (simp add: automaton_def rootTransitions_find)
    ultimately show ?thesis using Built by blast
  qed
qed (simp add: newContentModerationKeywordMatcher_def Nil)

section \<open>Properties\<close>

text \<open>\<^verbatim>\<open>strings.ToLower\<close> on a byte of an ASCII string.\<close>

definition ascii_lower :: "char \<Rightarrow> char" where
  "ascii_lower c = (if CHR ''A'' \<le> c \<and> c \<le> CHR ''Z'' then char_of (of_char c + 32 :: nat) else c)"

abbreviation firstOccurring :: "(string \<Rightarrow> string) \<Rightarrow> string list \<Rightarrow> string \<Rightarrow> string option" where
  "firstOccurring lower kws text \<equiv>
     find (\<lambda>kw. kw \<noteq> [] \<and> text \<noteq> [] \<and> sublist (lower kw) (lower text)) kws"

lemma Match_automaton:
  assumes a: "automaton lower kws ps edges nodes m"
  shows "Match lower (Some m) text =
    Some (case firstOccurring lower kws text of None \<Rightarrow> ([], False) | Some kw \<Rightarrow> (kw, True))"
proof -
  have t: "trie ps edges nodes" and m: "km_nodes m \<noteq> []" "km_keywords m = kws"
    using a trie_lengths(2) by (force simp: automaton_def)+
  have ps: "0 < length ps" "ps ! 0 = []" using trie_lengths [OF t] by auto
  have start: "firstIndex (occurs lower []) kws = -1"
    using a by (intro firstIndex_none) (auto simp: occurs_def automaton_def stored_def)
  let ?i = "firstIndex (occurs lower (lower text)) kws"
  have scan: "scan m (lower text) 0 (-1) = Some ?i"
    using scan_correct [OF a ps(1), of "[]" "lower text"] ps(2) start by simp
  have find: "firstOccurring lower kws text = (if text = [] \<or> ?i < 0 then None else Some (kws ! nat ?i))"
    using firstIndex_find [of "occurs lower (lower text)" kws]
    by (cases "text = []") (simp_all add: occurs_def [abs_def] find_None_iff)
  have "kws \<noteq> []" if "\<not> ?i < 0" using that by auto
  then have "Match lower (Some m) text = Some (if text = [] \<or> ?i < 0 then ([], False) else (kws ! nat ?i, True))"
    using m scan firstIndex_less [of "occurs lower (lower text)" kws] by (auto simp: Match_def)
  then show ?thesis using find by auto
qed

text \<open>
  (C8) The matcher is built for every list of keywords, and on every text \<^verbatim>\<open>Match\<close> returns the
  first keyword of the configured list that occurs in the text, both lower-cased, in its original
  spelling; \<^verbatim>\<open>("", false)\<close> exactly when no keyword occurs. In particular no index is out of range
  and every loop ends. The hypothesis is that \<^verbatim>\<open>strings.ToLower\<close> never maps a non-empty string
  to the empty one.
\<close>

theorem keyword_match_correct:
  assumes "\<And>k. k \<noteq> [] \<Longrightarrow> lower k \<noteq> []"
  shows "\<exists>m. newContentModerationKeywordMatcher lower kws = Some m \<and>
    Match lower m text =
      Some (case find (\<lambda>kw. kw \<noteq> [] \<and> text \<noteq> [] \<and> sublist (lower kw) (lower text)) kws of
              None \<Rightarrow> ([], False)
            | Some kw \<Rightarrow> (kw, True))"
proof -
  consider "newContentModerationKeywordMatcher lower kws = Some None" "\<forall>k\<in>set kws. k = []"
    | m ps edges nodes where "newContentModerationKeywordMatcher lower kws = Some (Some m)"
        "automaton lower kws ps edges nodes m"
    using newContentModerationKeywordMatcher_correct assms by metis
  then show ?thesis
  proof cases
    case 1
    then have "firstOccurring lower kws text = None" by (auto simp: find_None_iff)
    then show ?thesis using 1 by (simp add: Match_def)
  next
    case 2
    then show ?thesis using Match_automaton [OF 2(2)] by blast
  qed
qed

theorem keyword_match_correct_witness:
  "\<exists>m. newContentModerationKeywordMatcher (map ascii_lower) [''Bomb'', [], ''Om'', ''hers''] = Some m \<and>
      Match (map ascii_lower) m ''xBoM'' = Some (''Om'', True)"
proof -
  have "find (\<lambda>kw. kw \<noteq> [] \<and> ''xBoM'' \<noteq> [] \<and> sublist (map ascii_lower kw) (map ascii_lower ''xBoM''))
      [''Bomb'', [], ''Om'', ''hers''] = Some ''Om''"
    by code_simp
  then show ?thesis
    using keyword_match_correct [of "map ascii_lower" "[''Bomb'', [], ''Om'', ''hers'']" "''xBoM''"] by simp
qed

end
