(* ===== verification/AnthropicStream.thy ===== *)
theory AnthropicStream
  imports Transitions
begin

text \<open>
  The conversion of OpenAI Responses answers into Anthropic messages,
  \<^verbatim>\<open>backend/internal/pkg/apicompat/responses_to_anthropic.go\<close>: of a whole response, and of a stream of
  events one at a time with the state of the stream passed along. A handler returns the emitted
  events and the new state; the records have the fields of the Go structs that this file reads or
  writes.

  The JSON library is the argument \<open>js\<close>: \<^verbatim>\<open>json.Valid\<close>, \<^verbatim>\<open>json.Unmarshal\<close> into a map of raw
  messages (\<^const>\<open>None\<close> for an error), \<^verbatim>\<open>json.Marshal\<close> of such a map and of the map with the one
  key \<^verbatim>\<open>query\<close>. A \<^verbatim>\<open>json.RawMessage\<close> is its bytes.
\<close>

section \<open>Data\<close>

record jsonLib =
  js_Valid :: "string \<Rightarrow> bool"
  js_Unmarshal :: "string \<Rightarrow> (string \<times> string) list option"
  js_Marshal :: "(string \<times> string) list \<Rightarrow> string option"
  js_MarshalQuery :: "string \<Rightarrow> string"

record ResponsesInputTokensDetails =
  itd_CachedTokens :: int

record ResponsesUsage =
  ru_InputTokens :: int
  ru_OutputTokens :: int
  ru_CacheCreationInputTokens :: int
  ru_InputTokensDetails :: "ResponsesInputTokensDetails option"

record ResponsesContentPart =
  rcp_Type :: string
  rcp_Text :: string

record ResponsesSummary =
  rsum_Type :: string
  rsum_Text :: string

record WebSearchAction =
  wsa_Query :: string

record ResponsesOutput =
  ro_Type :: string
  ro_ID :: string
  ro_Content :: "ResponsesContentPart list"
  ro_Status :: string
  ro_EncryptedContent :: string
  ro_Summary :: "ResponsesSummary list"
  ro_CallID :: string
  ro_Name :: string
  ro_Arguments :: string
  ro_Action :: "WebSearchAction option"

record ResponsesIncompleteDetails =
  rid_Reason :: string

record ResponsesResponse =
  rr_ID :: string
  rr_Model :: string
  rr_Status :: string
  rr_Output :: "ResponsesOutput list"
  rr_Usage :: "ResponsesUsage option"
  rr_IncompleteDetails :: "ResponsesIncompleteDetails option"

record ResponsesStreamEvent =
  rse_Type :: string
  rse_Response :: "ResponsesResponse option"
  rse_Usage :: "ResponsesUsage option"
  rse_Item :: "ResponsesOutput option"
  rse_OutputIndex :: int
  rse_Delta :: string
  rse_Arguments :: string

record AnthropicContentBlock =
  cb_Type :: string
  cb_Text :: string
  cb_Thinking :: string
  cb_Signature :: string
  cb_ID :: string
  cb_Name :: string
  cb_Input :: string
  cb_ToolUseID :: string
  cb_Content :: string

record AnthropicUsage =
  au_InputTokens :: int
  au_OutputTokens :: int
  au_CacheCreationInputTokens :: int
  au_CacheReadInputTokens :: int

record AnthropicResponse =
  ar_ID :: string
  ar_Type :: string
  ar_Role :: string
  ar_Content :: "AnthropicContentBlock list"
  ar_Model :: string
  ar_StopReason :: "string option"
  ar_Usage :: AnthropicUsage

record AnthropicDelta =
  ad_Type :: string
  ad_Text :: string
  ad_PartialJSON :: string
  ad_Thinking :: string
  ad_Signature :: string
  ad_StopReason :: string

record AnthropicStreamEvent =
  ev_Type :: string
  ev_Message :: "AnthropicResponse option"
  ev_Index :: "int option"
  ev_ContentBlock :: "AnthropicContentBlock option"
  ev_Delta :: "AnthropicDelta option"
  ev_Usage :: "AnthropicUsage option"

text \<open>The zero values of the structs, which a Go literal with some fields completes.\<close>

definition zeroBlock :: AnthropicContentBlock where
  "zeroBlock = \<lparr>cb_Type = [], cb_Text = [], cb_Thinking = [], cb_Signature = [], cb_ID = [], cb_Name = [],
     cb_Input = [], cb_ToolUseID = [], cb_Content = []\<rparr>"

definition zeroUsage :: AnthropicUsage where
  "zeroUsage = \<lparr>au_InputTokens = 0, au_OutputTokens = 0, au_CacheCreationInputTokens = 0,
     au_CacheReadInputTokens = 0\<rparr>"

definition zeroDelta :: AnthropicDelta where
  "zeroDelta = \<lparr>ad_Type = [], ad_Text = [], ad_PartialJSON = [], ad_Thinking = [], ad_Signature = [],
     ad_StopReason = []\<rparr>"

definition zeroEvent :: AnthropicStreamEvent where
  "zeroEvent = \<lparr>ev_Type = [], ev_Message = None, ev_Index = None, ev_ContentBlock = None, ev_Delta = None,
     ev_Usage = None\<rparr>"

definition content_block_start :: "int \<Rightarrow> AnthropicContentBlock \<Rightarrow> AnthropicStreamEvent" where
  "content_block_start idx b =
     zeroEvent\<lparr>ev_Type := ''content_block_start'', ev_Index := Some idx, ev_ContentBlock := Some b\<rparr>"

definition content_block_delta :: "int \<Rightarrow> AnthropicDelta \<Rightarrow> AnthropicStreamEvent" where
  "content_block_delta idx d =
     zeroEvent\<lparr>ev_Type := ''content_block_delta'', ev_Index := Some idx, ev_Delta := Some d\<rparr>"

definition content_block_stop :: "int \<Rightarrow> AnthropicStreamEvent" where
  "content_block_stop idx = zeroEvent\<lparr>ev_Type := ''content_block_stop'', ev_Index := Some idx\<rparr>"

definition message_delta :: "string \<Rightarrow> AnthropicUsage \<Rightarrow> AnthropicStreamEvent" where
  "message_delta stopReason usage =
     zeroEvent\<lparr>ev_Type := ''message_delta'', ev_Delta := Some (zeroDelta\<lparr>ad_StopReason := stopReason\<rparr>),
       ev_Usage := Some usage\<rparr>"

definition message_stop :: AnthropicStreamEvent where
  "message_stop = zeroEvent\<lparr>ev_Type := ''message_stop''\<rparr>"

definition text_delta :: "string \<Rightarrow> AnthropicDelta" where
  "text_delta t = zeroDelta\<lparr>ad_Type := ''text_delta'', ad_Text := t\<rparr>"

definition input_json_delta :: "string \<Rightarrow> AnthropicDelta" where
  "input_json_delta j = zeroDelta\<lparr>ad_Type := ''input_json_delta'', ad_PartialJSON := j\<rparr>"

definition thinking_delta :: "string \<Rightarrow> AnthropicDelta" where
  "thinking_delta t = zeroDelta\<lparr>ad_Type := ''thinking_delta'', ad_Thinking := t\<rparr>"

definition signature_delta :: "string \<Rightarrow> AnthropicDelta" where
  "signature_delta sig = zeroDelta\<lparr>ad_Type := ''signature_delta'', ad_Signature := sig\<rparr>"

section \<open>Whole responses\<close>

definition CutPrefix :: "string \<Rightarrow> string \<Rightarrow> string option" where
  "CutPrefix s p = (if prefix p s then Some (drop (length p) s) else None)"

definition fromResponsesCallID :: "string \<Rightarrow> string" where
  "fromResponsesCallID i =
     (case CutPrefix i ''fc_'' of
        Some after \<Rightarrow> if prefix ''toolu_'' after \<or> prefix ''call_'' after then after else i
      | None \<Rightarrow> i)"

definition anthropicUsageFromResponsesUsage :: "ResponsesUsage option \<Rightarrow> AnthropicUsage" where
  "anthropicUsageFromResponsesUsage usage =
     (case usage of
        None \<Rightarrow> zeroUsage
      | Some u \<Rightarrow>
          (let cachedTokens = (case ru_InputTokensDetails u of None \<Rightarrow> 0 | Some d \<Rightarrow> itd_CachedTokens d);
               inputTokens = wrap64 (ru_InputTokens u - cachedTokens - ru_CacheCreationInputTokens u)
           in \<lparr>au_InputTokens = (if inputTokens < 0 then 0 else inputTokens),
               au_OutputTokens = ru_OutputTokens u,
               au_CacheCreationInputTokens = ru_CacheCreationInputTokens u,
               au_CacheReadInputTokens = cachedTokens\<rparr>))"

definition containsAnthropicToolUseBlock :: "AnthropicContentBlock list \<Rightarrow> bool" where
  "containsAnthropicToolUseBlock blocks = list_ex (\<lambda>b. cb_Type b = ''tool_use'') blocks"

definition responsesStatusToAnthropicStopReason ::
  "string \<Rightarrow> ResponsesIncompleteDetails option \<Rightarrow> AnthropicContentBlock list \<Rightarrow> string" where
  "responsesStatusToAnthropicStopReason status details blocks =
     (if status = ''incomplete''
      then (case details of
              Some d \<Rightarrow> if rid_Reason d = ''max_output_tokens'' then ''max_tokens'' else ''end_turn''
            | None \<Rightarrow> ''end_turn'')
      else if status = ''completed''
      then if containsAnthropicToolUseBlock blocks then ''tool_use'' else ''end_turn''
      else ''end_turn'')"

definition sanitizeAnthropicToolUseInput :: "jsonLib \<Rightarrow> string \<Rightarrow> string \<Rightarrow> string" where
  "sanitizeAnthropicToolUseInput js name raw =
     (if name \<noteq> ''Read'' \<or> raw = [] then raw
      else case js_Unmarshal js raw of
        None \<Rightarrow> raw
      | Some input \<Rightarrow>
          if map_of input ''pages'' \<noteq> Some [CHR 0x22, CHR 0x22] then raw
          else case js_Marshal js (filter (\<lambda>(k, _). k \<noteq> ''pages'') input) of
            None \<Rightarrow> raw
          | Some sanitized \<Rightarrow> sanitized)"

definition summaryText :: "ResponsesOutput \<Rightarrow> string" where
  "summaryText item =
     concat (map rsum_Text (filter (\<lambda>s. rsum_Type s = ''summary_text'' \<and> rsum_Text s \<noteq> []) (ro_Summary item)))"

definition webSearchQuery :: "ResponsesOutput \<Rightarrow> string" where
  "webSearchQuery item = (case ro_Action item of None \<Rightarrow> [] | Some a \<Rightarrow> wsa_Query a)"

definition serverToolUseBlock :: "jsonLib \<Rightarrow> ResponsesOutput \<Rightarrow> AnthropicContentBlock" where
  "serverToolUseBlock js item =
     zeroBlock\<lparr>cb_Type := ''server_tool_use'', cb_ID := ''srvtoolu_'' @ ro_ID item, cb_Name := ''web_search'',
       cb_Input := js_MarshalQuery js (webSearchQuery item)\<rparr>"

definition webSearchResultBlock :: "ResponsesOutput \<Rightarrow> AnthropicContentBlock" where
  "webSearchResultBlock item =
     zeroBlock\<lparr>cb_Type := ''web_search_tool_result'', cb_ToolUseID := ''srvtoolu_'' @ ro_ID item,
       cb_Content := ''[]''\<rparr>"

text \<open>The body of the loop over the output items: the blocks one item adds.\<close>

definition outputBlocks :: "jsonLib \<Rightarrow> ResponsesOutput \<Rightarrow> AnthropicContentBlock list" where
  "outputBlocks js item =
     (if ro_Type item = ''reasoning''
      then if summaryText item \<noteq> [] \<or> TrimSpace (ro_EncryptedContent item) \<noteq> []
           then [zeroBlock\<lparr>cb_Type := ''thinking'', cb_Thinking := summaryText item,
                   cb_Signature := ro_EncryptedContent item\<rparr>]
           else []
      else if ro_Type item = ''message''
      then map (\<lambda>part. zeroBlock\<lparr>cb_Type := ''text'', cb_Text := rcp_Text part\<rparr>)
             (filter (\<lambda>part. rcp_Type part = ''output_text'' \<and> rcp_Text part \<noteq> []) (ro_Content item))
      else if ro_Type item = ''function_call''
      then [zeroBlock\<lparr>cb_Type := ''tool_use'', cb_ID := fromResponsesCallID (ro_CallID item),
              cb_Name := ro_Name item,
              cb_Input := sanitizeAnthropicToolUseInput js (ro_Name item) (ro_Arguments item)\<rparr>]
      else if ro_Type item = ''web_search_call''
      then [serverToolUseBlock js item, webSearchResultBlock item]
      else [])"

definition ResponsesToAnthropic :: "jsonLib \<Rightarrow> ResponsesResponse \<Rightarrow> string \<Rightarrow> AnthropicResponse" where
  "ResponsesToAnthropic js resp model =
     (let blocks = concat (map (outputBlocks js) (rr_Output resp));
          blocks = (if blocks = [] then [zeroBlock\<lparr>cb_Type := ''text''\<rparr>] else blocks)
      in \<lparr>ar_ID = rr_ID resp, ar_Type = ''message'', ar_Role = ''assistant'', ar_Content = blocks,
          ar_Model = model,
          ar_StopReason =
            Some (responsesStatusToAnthropicStopReason (rr_Status resp) (rr_IncompleteDetails resp) blocks),
          ar_Usage = anthropicUsageFromResponsesUsage (rr_Usage resp)\<rparr>)"

section \<open>Streams\<close>

record ResponsesEventToAnthropicState =
  st_MessageStartSent :: bool
  st_MessageStopSent :: bool
  st_ContentBlockIndex :: int
  st_ContentBlockOpen :: bool
  st_CurrentBlockType :: string
  st_CurrentToolName :: string
  st_CurrentToolArgs :: string
  st_CurrentToolHadDelta :: bool
  st_PendingThinkingSignature :: string
  st_HasToolCall :: bool
  st_OutputIndexToBlockIdx :: "int \<rightharpoonup> int"
  st_InputTokens :: int
  st_OutputTokens :: int
  st_CacheReadInputTokens :: int
  st_CacheCreationInputTokens :: int
  st_ResponseID :: string
  st_Model :: string
  st_Created :: int

type_synonym streamState = ResponsesEventToAnthropicState
type_synonym emission = "AnthropicStreamEvent list \<times> ResponsesEventToAnthropicState"

definition NewResponsesEventToAnthropicState :: "int \<Rightarrow> streamState" where
  "NewResponsesEventToAnthropicState now =
     \<lparr>st_MessageStartSent = False, st_MessageStopSent = False, st_ContentBlockIndex = 0,
      st_ContentBlockOpen = False, st_CurrentBlockType = [], st_CurrentToolName = [], st_CurrentToolArgs = [],
      st_CurrentToolHadDelta = False, st_PendingThinkingSignature = [], st_HasToolCall = False,
      st_OutputIndexToBlockIdx = Map.empty, st_InputTokens = 0, st_OutputTokens = 0,
      st_CacheReadInputTokens = 0, st_CacheCreationInputTokens = 0, st_ResponseID = [], st_Model = [],
      st_Created = now\<rparr>"

definition closeCurrentBlock :: "streamState \<Rightarrow> emission" where
  "closeCurrentBlock st =
     (if \<not> st_ContentBlockOpen st then ([], st)
      else
        (let idx = st_ContentBlockIndex st;
             sig = TrimSpace (st_PendingThinkingSignature st);
             thinking = (st_CurrentBlockType st = ''thinking'');
             events = (if thinking \<and> sig \<noteq> [] then [content_block_delta idx (signature_delta sig)] else []);
             st = (if thinking then st\<lparr>st_PendingThinkingSignature := []\<rparr> else st)
         in (events @ [content_block_stop idx],
             st\<lparr>st_ContentBlockOpen := False, st_ContentBlockIndex := st_ContentBlockIndex st + 1,
                st_CurrentToolName := [], st_CurrentToolArgs := [], st_CurrentToolHadDelta := False\<rparr>)))"

definition resToAnthHandleCreated :: "ResponsesStreamEvent \<Rightarrow> streamState \<Rightarrow> emission" where
  "resToAnthHandleCreated evt st =
     (let st = (case rse_Response evt of
                  None \<Rightarrow> st
                | Some r \<Rightarrow> st\<lparr>st_ResponseID := rr_ID r,
                    st_Model := (if st_Model st = [] then rr_Model r else st_Model st)\<rparr>)
      in if st_MessageStartSent st then ([], st)
         else ([zeroEvent\<lparr>ev_Type := ''message_start'',
                  ev_Message := Some \<lparr>ar_ID = st_ResponseID st, ar_Type = ''message'', ar_Role = ''assistant'',
                    ar_Content = [], ar_Model = st_Model st, ar_StopReason = None, ar_Usage = zeroUsage\<rparr>\<rparr>],
               st\<lparr>st_MessageStartSent := True\<rparr>))"

definition resToAnthHandleOutputItemAdded :: "ResponsesStreamEvent \<Rightarrow> streamState \<Rightarrow> emission" where
  "resToAnthHandleOutputItemAdded evt st =
     (case rse_Item evt of
        None \<Rightarrow> ([], st)
      | Some item \<Rightarrow>
          if ro_Type item = ''function_call'' \<or> ro_Type item = ''custom_tool_call''
          then (case closeCurrentBlock st of (events, st) \<Rightarrow>
                let idx = st_ContentBlockIndex st in
                (events @ [content_block_start idx (zeroBlock\<lparr>cb_Type := ''tool_use'',
                    cb_ID := fromResponsesCallID (ro_CallID item), cb_Name := ro_Name item, cb_Input := ''{}''\<rparr>)],
                 st\<lparr>st_OutputIndexToBlockIdx := (st_OutputIndexToBlockIdx st)(rse_OutputIndex evt \<mapsto> idx),
                    st_ContentBlockOpen := True, st_CurrentBlockType := ''tool_use'',
                    st_CurrentToolName := ro_Name item, st_CurrentToolArgs := [],
                    st_CurrentToolHadDelta := False, st_HasToolCall := True\<rparr>))
          else if ro_Type item = ''reasoning''
          then (case closeCurrentBlock st of (events, st) \<Rightarrow>
                let idx = st_ContentBlockIndex st in
                (events @ [content_block_start idx (zeroBlock\<lparr>cb_Type := ''thinking''\<rparr>)],
                 st\<lparr>st_OutputIndexToBlockIdx := (st_OutputIndexToBlockIdx st)(rse_OutputIndex evt \<mapsto> idx),
                    st_ContentBlockOpen := True, st_CurrentBlockType := ''thinking'',
                    st_PendingThinkingSignature := TrimSpace (ro_EncryptedContent item)\<rparr>))
          else ([], st))"

definition resToAnthHandleTextDelta :: "ResponsesStreamEvent \<Rightarrow> streamState \<Rightarrow> emission" where
  "resToAnthHandleTextDelta evt st =
     (if rse_Delta evt = [] then ([], st)
      else
        (let (events, st) =
               (if \<not> st_ContentBlockOpen st \<or> st_CurrentBlockType st \<noteq> ''text''
                then (case closeCurrentBlock st of (events, st) \<Rightarrow>
                      (events @ [content_block_start (st_ContentBlockIndex st) (zeroBlock\<lparr>cb_Type := ''text''\<rparr>)],
                       st\<lparr>st_ContentBlockOpen := True, st_CurrentBlockType := ''text''\<rparr>))
                else ([], st))
         in (events @ [content_block_delta (st_ContentBlockIndex st) (text_delta (rse_Delta evt))], st)))"

definition resToAnthHandleFuncArgsDelta :: "jsonLib \<Rightarrow> ResponsesStreamEvent \<Rightarrow> streamState \<Rightarrow> emission" where
  "resToAnthHandleFuncArgsDelta js evt st =
     (if rse_Delta evt = [] then ([], st)
      else if st_CurrentBlockType st = ''tool_use'' \<and> st_CurrentToolName st = ''Read''
      then
        (let st = st\<lparr>st_CurrentToolArgs := st_CurrentToolArgs st @ rse_Delta evt\<rparr>
         in if st_CurrentToolHadDelta st \<or> \<not> js_Valid js (st_CurrentToolArgs st) then ([], st)
            else case st_OutputIndexToBlockIdx st (rse_OutputIndex evt) of
              None \<Rightarrow> ([], st)
            | Some blockIdx \<Rightarrow>
                ([content_block_delta blockIdx (input_json_delta
                    (sanitizeAnthropicToolUseInput js (st_CurrentToolName st) (st_CurrentToolArgs st)))],
                 st\<lparr>st_CurrentToolHadDelta := True\<rparr>))
      else
        (let st = (if st_CurrentBlockType st = ''tool_use'' then st\<lparr>st_CurrentToolHadDelta := True\<rparr> else st)
         in case st_OutputIndexToBlockIdx st (rse_OutputIndex evt) of
              None \<Rightarrow> ([], st)
            | Some blockIdx \<Rightarrow> ([content_block_delta blockIdx (input_json_delta (rse_Delta evt))], st)))"

definition resToAnthHandleBlockDone :: "streamState \<Rightarrow> emission" where
  "resToAnthHandleBlockDone st = (if \<not> st_ContentBlockOpen st then ([], st) else closeCurrentBlock st)"

definition resToAnthHandleFuncArgsDone :: "jsonLib \<Rightarrow> ResponsesStreamEvent \<Rightarrow> streamState \<Rightarrow> emission" where
  "resToAnthHandleFuncArgsDone js evt st =
     (if \<not> st_ContentBlockOpen st then ([], st)
      else if st_CurrentBlockType st \<noteq> ''tool_use'' then resToAnthHandleBlockDone st
      else
        (let raw = (if rse_Arguments evt = [] then st_CurrentToolArgs st else rse_Arguments evt);
             sanitized = sanitizeAnthropicToolUseInput js (st_CurrentToolName st) raw
         in if raw = [] \<or> st_CurrentToolHadDelta st then closeCurrentBlock st
            else if st_CurrentToolName st = ''Read'' \<and> sanitized = [] then closeCurrentBlock st
            else
              (let raw = (if st_CurrentToolName st = ''Read'' then sanitized else raw);
                   blockIdx = (case st_OutputIndexToBlockIdx st (rse_OutputIndex evt) of
                                 Some i \<Rightarrow> i | None \<Rightarrow> st_ContentBlockIndex st)
               in if \<not> st_ContentBlockOpen st \<or> blockIdx \<noteq> st_ContentBlockIndex st then ([], st)
                  else case closeCurrentBlock st of (events, st) \<Rightarrow>
                    (content_block_delta blockIdx (input_json_delta raw) # events, st))))"

definition resToAnthHandleReasoningDelta :: "ResponsesStreamEvent \<Rightarrow> streamState \<Rightarrow> emission" where
  "resToAnthHandleReasoningDelta evt st =
     (if rse_Delta evt = [] then ([], st)
      else case st_OutputIndexToBlockIdx st (rse_OutputIndex evt) of
        None \<Rightarrow> ([], st)
      | Some blockIdx \<Rightarrow> ([content_block_delta blockIdx (thinking_delta (rse_Delta evt))], st))"

definition resToAnthHandleWebSearchDone ::
  "jsonLib \<Rightarrow> ResponsesOutput \<Rightarrow> streamState \<Rightarrow> emission" where
  "resToAnthHandleWebSearchDone js item st =
     (case closeCurrentBlock st of (events, st) \<Rightarrow>
        let idx1 = st_ContentBlockIndex st; idx2 = idx1 + 1 in
        (events @
         [content_block_start idx1 (serverToolUseBlock js item), content_block_stop idx1,
          content_block_start idx2 (webSearchResultBlock item), content_block_stop idx2],
         st\<lparr>st_ContentBlockIndex := idx2 + 1\<rparr>))"

definition resToAnthHandleOutputItemDone :: "jsonLib \<Rightarrow> ResponsesStreamEvent \<Rightarrow> streamState \<Rightarrow> emission" where
  "resToAnthHandleOutputItemDone js evt st =
     (case rse_Item evt of
        None \<Rightarrow> ([], st)
      | Some item \<Rightarrow>
          if ro_Type item = ''web_search_call'' \<and> ro_Status item = ''completed''
          then resToAnthHandleWebSearchDone js item st
          else
            (let sig = TrimSpace (ro_EncryptedContent item);
                 st = (if ro_Type item = ''reasoning'' \<and> sig \<noteq> []
                       then st\<lparr>st_PendingThinkingSignature := sig\<rparr> else st)
             in if st_ContentBlockOpen st then closeCurrentBlock st else ([], st)))"

definition setUsage :: "ResponsesUsage option \<Rightarrow> streamState \<Rightarrow> streamState" where
  "setUsage u st =
     (case u of
        None \<Rightarrow> st
      | Some _ \<Rightarrow>
          (let usage = anthropicUsageFromResponsesUsage u
           in st\<lparr>st_InputTokens := au_InputTokens usage, st_OutputTokens := au_OutputTokens usage,
                 st_CacheReadInputTokens := au_CacheReadInputTokens usage,
                 st_CacheCreationInputTokens := au_CacheCreationInputTokens usage\<rparr>))"

definition stateUsage :: "streamState \<Rightarrow> AnthropicUsage" where
  "stateUsage st =
     \<lparr>au_InputTokens = st_InputTokens st, au_OutputTokens = st_OutputTokens st,
      au_CacheCreationInputTokens = st_CacheCreationInputTokens st,
      au_CacheReadInputTokens = st_CacheReadInputTokens st\<rparr>"

definition resToAnthHandleCompleted :: "ResponsesStreamEvent \<Rightarrow> streamState \<Rightarrow> emission" where
  "resToAnthHandleCompleted evt st =
     (if st_MessageStopSent st then ([], st)
      else case closeCurrentBlock st of (events, st) \<Rightarrow>
        (let st = setUsage (rse_Usage evt) st;
             st = (case rse_Response evt of None \<Rightarrow> st | Some r \<Rightarrow> setUsage (rr_Usage r) st);
             stopReason =
               (case rse_Response evt of
                  None \<Rightarrow> ''end_turn''
                | Some r \<Rightarrow>
                    if rr_Status r = ''incomplete''
                    then (case rr_IncompleteDetails r of
                            Some d \<Rightarrow> if rid_Reason d = ''max_output_tokens'' then ''max_tokens'' else ''end_turn''
                          | None \<Rightarrow> ''end_turn'')
                    else if rr_Status r = ''completed'' \<and> st_HasToolCall st then ''tool_use''
                    else ''end_turn'')
         in (events @ [message_delta stopReason (stateUsage st), message_stop],
             st\<lparr>st_MessageStopSent := True\<rparr>)))"

definition ResponsesEventToAnthropicEvents :: "jsonLib \<Rightarrow> streamState \<Rightarrow> ResponsesStreamEvent \<Rightarrow> emission" where
  "ResponsesEventToAnthropicEvents js st evt =
     (let t = rse_Type evt in
      if t = ''response.created'' then resToAnthHandleCreated evt st
      else if t = ''response.output_item.added'' then resToAnthHandleOutputItemAdded evt st
      else if t = ''response.output_text.delta'' then resToAnthHandleTextDelta evt st
      else if t = ''response.output_text.done'' then resToAnthHandleBlockDone st
      else if t = ''response.function_call_arguments.delta'' \<or> t = ''response.custom_tool_call_input.delta''
      then resToAnthHandleFuncArgsDelta js evt st
      else if t = ''response.function_call_arguments.done'' then resToAnthHandleFuncArgsDone js evt st
      else if t = ''response.output_item.done'' then resToAnthHandleOutputItemDone js evt st
      else if t = ''response.reasoning_summary_text.delta'' \<or> t = ''response.reasoning_text.delta''
      then resToAnthHandleReasoningDelta evt st
      else if t = ''response.reasoning_summary_text.done'' then ([], st)
      else if t = ''response.completed'' \<or> t = ''response.done'' \<or> t = ''response.incomplete'' \<or>
              t = ''response.failed''
      then resToAnthHandleCompleted evt st
      else ([], st))"

definition FinalizeResponsesAnthropicStream :: "streamState \<Rightarrow> emission" where
  "FinalizeResponsesAnthropicStream st =
     (if \<not> st_MessageStartSent st \<or> st_MessageStopSent st then ([], st)
      else case closeCurrentBlock st of (events, st) \<Rightarrow>
        (events @ [message_delta (if st_HasToolCall st then ''tool_use'' else ''end_turn'') (stateUsage st),
           message_stop],
         st\<lparr>st_MessageStopSent := True\<rparr>))"

text \<open>One event as server-sent event text; \<open>marshal\<close> is \<^verbatim>\<open>json.Marshal\<close>, \<^const>\<open>None\<close> an error.\<close>

definition ResponsesAnthropicEventToSSE ::
  "(AnthropicStreamEvent \<Rightarrow> string option) \<Rightarrow> AnthropicStreamEvent \<Rightarrow> string option" where
  "ResponsesAnthropicEventToSSE marshal evt =
     marshal evt \<bind> (\<lambda>data.
     Some (''event: '' @ ev_Type evt @ [CHR 0x0A] @ ''data: '' @ data @ [CHR 0x0A, CHR 0x0A]))"

end
