(* ===== verification/MessagesGateway.thy ===== *)
theory MessagesGateway
  imports AnthropicStream
begin

text \<open>
  The loop of the gateway around the conversion, \<^verbatim>\<open>handleAnthropicStreamingResponse\<close> of
  \<^verbatim>\<open>backend/internal/service/openai_gateway_messages.go\<close>: it reads the answer of the upstream frame by
  frame, converts the events and writes them to the client until a terminal event, an error event
  or the end of the input. The \<^verbatim>\<open>select\<close> of the loop with keepalives is a list of inputs in the order in
  which the loop takes them; without keepalives there are only frames and read errors.

  A frame is its payload with the event type already filled in (\<^verbatim>\<open>openAICompatPayloadWithEventType\<close>); the
  text of an error event is not modelled, nor are logging, the operations records and the usage
  that is returned for billing. The library \<open>lib\<close> holds the JSON decoder and the three
  judgements on the payload of an error event.
\<close>

section \<open>State\<close>

record messagesLib =
  ml_Unmarshal :: "string \<Rightarrow> ResponsesStreamEvent option"
  ml_CyberPolicy :: "string \<Rightarrow> bool"
  ml_ShouldFailover :: "string \<Rightarrow> bool"
  ml_ContextWindow :: "string \<Rightarrow> bool"

text \<open>
  What the client is sent: a converted event, a ping, an error event within the stream, or an error
  response in its place. \<open>mr_Accepts\<close> is the number of writes the client still takes before it
  disconnects, \<^const>\<open>None\<close> if it stays.
\<close>

datatype clientEvent = Message AnthropicStreamEvent | Ping | ErrorEvent | ErrorBody

record messagesRun =
  mr_State :: streamState
  mr_Pending :: "AnthropicStreamEvent list"
  mr_Started :: bool
  mr_Written :: "clientEvent list"
  mr_Accepts :: "nat option"
  mr_Disconnected :: bool

text \<open>
  The inputs of the loop, and how it ends: with a result, the error of an error event, an error
  that lets the caller try another account, or the errors of an answer that breaks off.
\<close>

datatype messagesInput = Frame string | ScanError | StreamInterval | KeepaliveInterval

datatype messagesEnd = StreamResult | TerminalError | FailoverError | MissingTerminal | ReadError | IntervalTimeout

section \<open>Writing\<close>

definition clientWrite :: "clientEvent \<Rightarrow> messagesRun \<Rightarrow> messagesRun" where
  "clientWrite e w =
     (if mr_Disconnected w then w
      else if mr_Accepts w = Some 0 then w\<lparr>mr_Disconnected := True\<rparr>
      else w\<lparr>mr_Written := mr_Written w @ [e], mr_Accepts := map_option (\<lambda>n. n - 1) (mr_Accepts w)\<rparr>)"

definition flushPendingSSE :: "messagesRun \<Rightarrow> messagesRun" where
  "flushPendingSSE w =
     (if mr_Disconnected w then w
      else let w1 = fold (\<lambda>e. clientWrite (Message e)) (mr_Pending w) w
           in w1\<lparr>mr_Pending := [], mr_Started := \<not> mr_Disconnected w1\<rparr>)"

text \<open>
  Events that do not start the output (those of \<^verbatim>\<open>response.created\<close>) wait until one does, so that
  an answer that fails at once can still go to another account.
\<close>

fun writeEvents :: "bool \<Rightarrow> AnthropicStreamEvent list \<Rightarrow> messagesRun \<Rightarrow> messagesRun" where
  "writeEvents starts [] w = w"
| "writeEvents starts (e # es) w =
     (if mr_Disconnected w then w
      else if \<not> mr_Started w \<and> \<not> starts then writeEvents starts es (w\<lparr>mr_Pending := mr_Pending w @ [e]\<rparr>)
      else writeEvents starts es (clientWrite (Message e) (if mr_Started w then w else flushPendingSSE w)))"

section \<open>The loop\<close>

definition isOpenAICompatResponsesTerminalEvent :: "string \<Rightarrow> bool" where
  "isOpenAICompatResponsesTerminalEvent eventType \<longleftrightarrow>
     (let t = TrimSpace eventType
      in t = ''response.completed'' \<or> t = ''response.done'' \<or> t = ''response.incomplete'' \<or> t = ''response.failed'')"

definition markStarted :: "messagesRun \<Rightarrow> messagesRun" where
  "markStarted w = (if mr_Disconnected w then w else w\<lparr>mr_Started := True\<rparr>)"

definition streamFailure :: "messagesLib \<Rightarrow> string \<Rightarrow> messagesRun \<Rightarrow> messagesEnd \<times> messagesRun" where
  "streamFailure lib payload w =
     (if ml_CyberPolicy lib payload then (TerminalError, markStarted (clientWrite ErrorEvent w))
      else if \<not> mr_Started w \<and> ml_ShouldFailover lib payload then (FailoverError, w)
      else if ml_ContextWindow lib payload
      then (TerminalError, markStarted (clientWrite ErrorEvent (if mr_Started w then w else flushPendingSSE w)))
      else (TerminalError,
        if mr_Disconnected w then w
        else if \<not> mr_Started w then markStarted (clientWrite ErrorBody w)
        else clientWrite ErrorEvent w))"

definition processDataLine ::
  "messagesLib \<Rightarrow> jsonLib \<Rightarrow> string \<Rightarrow> messagesRun \<Rightarrow> messagesEnd option \<times> messagesRun" where
  "processDataLine lib js payload w =
     (case ml_Unmarshal lib payload of
        None \<Rightarrow> (None, w)
      | Some event \<Rightarrow>
          (let eventType = TrimSpace (rse_Type event) in
           if eventType = ''response.failed'' \<or> eventType = ''error''
           then (case streamFailure lib payload w of (e, w) \<Rightarrow> (Some e, w))
           else case ResponsesEventToAnthropicEvents js (mr_State w) event of (events, st) \<Rightarrow>
             (if isOpenAICompatResponsesTerminalEvent eventType then Some StreamResult else None,
              writeEvents (events \<noteq> [] \<and> rse_Type event \<noteq> ''response.created'') events (w\<lparr>mr_State := st\<rparr>))))"

definition finalizeStream :: "messagesRun \<Rightarrow> messagesRun" where
  "finalizeStream w =
     (case FinalizeResponsesAnthropicStream (mr_State w) of (events, st) \<Rightarrow>
        writeEvents True events (w\<lparr>mr_State := st\<rparr>))"

definition missingTerminalErr :: "messagesRun \<Rightarrow> messagesEnd" where
  "missingTerminalErr w =
     (if mr_Disconnected w then MissingTerminal
      else if \<not> mr_Started w then FailoverError
      else MissingTerminal)"

fun streamLoop :: "messagesLib \<Rightarrow> jsonLib \<Rightarrow> messagesRun \<Rightarrow> messagesInput list \<Rightarrow> messagesEnd \<times> messagesRun" where
  "streamLoop lib js w [] = (missingTerminalErr w, w)"
| "streamLoop lib js w (Frame payload # inputs) =
     (if TrimSpace payload = ''[DONE]'' then (missingTerminalErr w, w)
      else case processDataLine lib js payload w of
        (None, w) \<Rightarrow> streamLoop lib js w inputs
      | (Some e, w) \<Rightarrow> (e, if e = StreamResult then finalizeStream w else w))"
| "streamLoop lib js w (ScanError # inputs) = (ReadError, w)"
| "streamLoop lib js w (StreamInterval # inputs) = (IntervalTimeout, w)"
| "streamLoop lib js w (KeepaliveInterval # inputs) =
     streamLoop lib js (if mr_Disconnected w \<or> \<not> mr_Started w then w else clientWrite Ping w) inputs"

definition initialState :: "int \<Rightarrow> string \<Rightarrow> streamState" where
  "initialState now model = (NewResponsesEventToAnthropicState now)\<lparr>st_Model := model\<rparr>"

definition handleAnthropicStreamingResponse ::
  "messagesLib \<Rightarrow> jsonLib \<Rightarrow> int \<Rightarrow> string \<Rightarrow> nat option \<Rightarrow> messagesInput list \<Rightarrow> messagesEnd \<times> messagesRun" where
  "handleAnthropicStreamingResponse lib js now originalModel accepts inputs =
     streamLoop lib js \<lparr>mr_State = initialState now originalModel, mr_Pending = [], mr_Started = False,
       mr_Written = [], mr_Accepts = accepts, mr_Disconnected = False\<rparr> inputs"

section \<open>What has been written and what is owed\<close>

fun messagesOf :: "clientEvent list \<Rightarrow> AnthropicStreamEvent list" where
  "messagesOf [] = []"
| "messagesOf (Message e # out) = e # messagesOf out"
| "messagesOf (_ # out) = messagesOf out"

lemma messagesOf_append [simp]: "messagesOf (xs @ ys) = messagesOf xs @ messagesOf ys"
  by (induction xs rule: messagesOf.induct) auto

text \<open>
  The client of \<open>w\<close> has been or will be sent the events \<open>out\<close>: those it has not been sent are pending,
  unless it has disconnected; nothing is pending once the output has started, and nothing has been
  written before, and no error.
\<close>

definition owed :: "messagesRun \<Rightarrow> AnthropicStreamEvent list \<Rightarrow> bool" where
  "owed w out \<longleftrightarrow>
     (\<exists>rest. out = messagesOf (mr_Written w) @ rest \<and> (mr_Disconnected w \<or> rest = mr_Pending w)) \<and>
     (mr_Disconnected w \<or> mr_Started w \<or> mr_Written w = []) \<and> (mr_Started w \<longrightarrow> mr_Pending w = []) \<and>
     set (mr_Written w) \<inter> {ErrorEvent, ErrorBody} = {}"

lemma clientWrite_keeps [simp]:
  "mr_State (clientWrite e w) = mr_State w" "mr_Started (clientWrite e w) = mr_Started w"
  "mr_Pending (clientWrite e w) = mr_Pending w"
  by (simp_all add: clientWrite_def)

lemma clientWrite_written: "\<not> mr_Disconnected (clientWrite e w) \<Longrightarrow> mr_Written (clientWrite e w) = mr_Written w @ [e]"
  by (simp add: clientWrite_def split: if_splits)

lemma clientWrite_lost: "mr_Disconnected (clientWrite e w) \<Longrightarrow> mr_Written (clientWrite e w) = mr_Written w"
  by (simp add: clientWrite_def split: if_splits)

lemma clientWrite_disconnected: "mr_Disconnected w \<Longrightarrow> clientWrite e w = w"
  by (simp add: clientWrite_def)

lemma fold_clientWrite:
  "mr_State (fold (\<lambda>e. clientWrite (Message e)) es w) = mr_State w \<and>
   (\<exists>rest. mr_Written w @ map Message es = mr_Written (fold (\<lambda>e. clientWrite (Message e)) es w) @ rest \<and>
      (mr_Disconnected (fold (\<lambda>e. clientWrite (Message e)) es w) \<or> rest = [])) \<and>
   set (mr_Written (fold (\<lambda>e. clientWrite (Message e)) es w)) \<subseteq> set (mr_Written w) \<union> range Message"
proof (induction es arbitrary: w)
  case (Cons e es)
  show ?case
  proof (cases "mr_Disconnected (clientWrite (Message e) w)")
    case True
    then have "fold (\<lambda>e. clientWrite (Message e)) es (clientWrite (Message e) w) = clientWrite (Message e) w"
      by (induction es) (simp_all add: clientWrite_disconnected)
    then have "fold (\<lambda>e. clientWrite (Message e)) (e # es) w = clientWrite (Message e) w" by simp
    then show ?thesis using True clientWrite_lost [OF True] by (simp only:) auto
  next
    case False
    then have "mr_Written (clientWrite (Message e) w) = mr_Written w @ [Message e]" by (rule clientWrite_written)
    then show ?thesis using Cons.IH [of "clientWrite (Message e) w"] by auto
  qed
qed auto

lemma messagesOf_Message [simp]: "messagesOf (map Message es) = es"
  by (induction es) auto

lemma flush_keeps [simp]: "mr_State (flushPendingSSE w) = mr_State w"
  by (simp add: flushPendingSSE_def Let_def fold_clientWrite)

lemma flush_owed:
  assumes "owed w out" "\<not> mr_Disconnected w"
  shows "owed (flushPendingSSE w) out" "mr_Disconnected (flushPendingSSE w) \<or> mr_Started (flushPendingSSE w)"
proof -
  let ?w1 = "fold (\<lambda>e. clientWrite (Message e)) (mr_Pending w) w"
  obtain rest where r: "mr_Written w @ map Message (mr_Pending w) = mr_Written ?w1 @ rest"
    "mr_Disconnected ?w1 \<or> rest = []" using fold_clientWrite by blast
  have "out = messagesOf (mr_Written w @ map Message (mr_Pending w))" using assms by (auto simp: owed_def)
  then have "out = messagesOf (mr_Written ?w1) @ messagesOf rest" unfolding r(1) by simp
  moreover have "set (mr_Written ?w1) \<inter> {ErrorEvent, ErrorBody} = {}"
    using assms(1) fold_clientWrite [of "mr_Pending w" w] by (auto simp: owed_def)
  ultimately show "owed (flushPendingSSE w) out" "mr_Disconnected (flushPendingSSE w) \<or> mr_Started (flushPendingSSE w)"
    using assms(2) r(2) by (auto simp: owed_def flushPendingSSE_def Let_def)
qed

lemma write_owed:
  assumes "owed w out" "mr_Disconnected w \<or> mr_Started w"
  shows "owed (clientWrite (Message e) w) (out @ [e])"
  using assms by (auto simp: owed_def clientWrite_def)

lemma ping_owed: "owed w out \<Longrightarrow> mr_Started w \<Longrightarrow> owed (clientWrite Ping w) out"
  by (auto simp: owed_def clientWrite_def)

lemma owed_disconnected: "owed w out \<Longrightarrow> mr_Disconnected w \<Longrightarrow> owed w (out @ es)"
  by (auto simp: owed_def)

lemma writeEvents_owed:
  "owed w out \<Longrightarrow> owed (writeEvents starts es w) (out @ es) \<and> mr_State (writeEvents starts es w) = mr_State w \<and>
     (starts \<and> es \<noteq> [] \<longrightarrow> mr_Disconnected (writeEvents starts es w) \<or> mr_Started (writeEvents starts es w)) \<and>
     (mr_Started w \<longrightarrow> mr_Disconnected (writeEvents starts es w) \<or> mr_Started (writeEvents starts es w))"
proof (induction starts es w arbitrary: out rule: writeEvents.induct)
  case (2 starts e es w)
  note IH = 2(1,2) and owed = 2(3)
  consider (dead) "mr_Disconnected w" | (wait) "\<not> mr_Disconnected w" "\<not> mr_Started w" "\<not> starts"
    | (sent) "\<not> mr_Disconnected w" "mr_Started w \<or> starts" by blast
  then show ?case
  proof cases
    case dead
    then show ?thesis using owed_disconnected [OF owed] by simp
  next
    case wait
    then have "owed (w\<lparr>mr_Pending := mr_Pending w @ [e]\<rparr>) (out @ [e])" using owed by (auto simp: owed_def)
    from IH(1) [OF _ _ this] wait show ?thesis by simp
  next
    case sent
    let ?w = "if mr_Started w then w else flushPendingSSE w"
    have w: "owed ?w out" "mr_Disconnected ?w \<or> mr_Started ?w"
      using flush_owed [OF owed sent(1)] owed by auto
    have "mr_State ?w = mr_State w" by simp
    with IH(2) [OF sent(1) _ write_owed [OF w]] sent w(2) show ?thesis
      by (cases "mr_Disconnected ?w"; cases es) (auto simp: clientWrite_disconnected)
  qed
qed simp

text \<open>A client that takes every write stays connected.\<close>

definition connected :: "messagesRun \<Rightarrow> bool" where
  "connected w \<longleftrightarrow> mr_Accepts w = None \<and> \<not> mr_Disconnected w"

lemma clientWrite_connected: "connected w \<Longrightarrow> connected (clientWrite e w)"
  by (simp add: connected_def clientWrite_def)

lemma flush_connected:
  assumes "connected w"
  shows "connected (flushPendingSSE w)"
proof -
  have "connected (fold (\<lambda>e. clientWrite (Message e)) es w)" if "connected w" for es w
    using that by (induction es arbitrary: w) (simp_all add: clientWrite_connected)
  from this [OF assms, of "mr_Pending w"] assms show ?thesis
    by (simp add: connected_def flushPendingSSE_def Let_def)
qed

lemma writeEvents_connected: "connected w \<Longrightarrow> connected (writeEvents starts es w)"
proof (induction starts es w rule: writeEvents.induct)
  case (2 starts e es w)
  have "connected (w\<lparr>mr_Pending := mr_Pending w @ [e]\<rparr>)" "\<not> mr_Disconnected w" using 2(3) by (simp_all add: connected_def)
  then show ?case using 2 flush_connected [OF 2(3)] clientWrite_connected by simp
qed simp

lemma state_connected [simp]: "connected (w\<lparr>mr_State := st\<rparr>) = connected w"
  by (simp add: connected_def)

lemma finalize_connected: "connected w \<Longrightarrow> connected (finalizeStream w)"
  by (simp add: finalizeStream_def writeEvents_connected split: prod.split)

lemma failure_connected: "connected w \<Longrightarrow> connected (snd (streamFailure lib payload w))"
proof -
  have "connected w \<Longrightarrow> connected (markStarted w)" for w by (simp add: connected_def markStarted_def)
  then show "connected w \<Longrightarrow> connected (snd (streamFailure lib payload w))"
    by (simp add: streamFailure_def clientWrite_connected flush_connected)
qed

lemma line_connected: "connected w \<Longrightarrow> connected (snd (processDataLine lib js payload w))"
  using failure_connected [of w lib payload]
  by (auto simp: processDataLine_def Let_def writeEvents_connected split: option.split prod.split)

lemma loop_connected: "connected w \<Longrightarrow> connected (snd (streamLoop lib js w inputs))"
proof (induction lib js w inputs rule: streamLoop.induct)
  case (2 lib js w payload inputs)
  with line_connected [OF 2(2), of lib js payload] show ?case
    by (auto simp: finalize_connected split: prod.split option.split)
qed (simp_all add: clientWrite_connected)

lemma handle_connected:
  "handleAnthropicStreamingResponse lib js now model None inputs = (e, w) \<Longrightarrow> \<not> mr_Disconnected w"
  using loop_connected [of "\<lparr>mr_State = initialState now model, mr_Pending = [], mr_Started = False, mr_Written = [],
      mr_Accepts = None, mr_Disconnected = False\<rparr>" lib js inputs]
  by (simp add: handleAnthropicStreamingResponse_def connected_def)

end
