(* ===== verification/StreamProtocol.thy ===== *)
theory StreamProtocol
  imports MessagesGateway
begin

text \<open>
  What a client of the Anthropic protocol makes of the converted stream: that it is one complete
  message with properly bracketed blocks, that collecting the deltas gives the blocks of the
  converted whole response, and where the conversion loses the arguments of a tool call.
\<close>

section \<open>The protocol as a client checks it\<close>

text \<open>
  The phases of a message: before its start, with the number of finished blocks between two
  blocks or within the next one, after \<^verbatim>\<open>message_delta\<close>, and at its end. A delta has to carry the
  index of a block that has been started; \<^const>\<open>None\<close> is a violation.
\<close>

datatype phase = Fresh | Between int | Within int | Closing | Finished

definition clientStep :: "phase option \<Rightarrow> AnthropicStreamEvent \<Rightarrow> phase option" where
  "clientStep ph e =
     (case ph of
        None \<Rightarrow> None
      | Some Fresh \<Rightarrow> if ev_Type e = ''message_start'' then Some (Between 0) else None
      | Some (Between n) \<Rightarrow>
          if ev_Type e = ''content_block_start'' \<and> ev_Index e = Some n then Some (Within n)
          else if ev_Type e = ''content_block_delta'' \<and> (\<exists>i\<in>set_option (ev_Index e). 0 \<le> i \<and> i < n)
          then Some (Between n)
          else if ev_Type e = ''message_delta'' then Some Closing
          else None
      | Some (Within n) \<Rightarrow>
          if ev_Type e = ''content_block_delta'' \<and> (\<exists>i\<in>set_option (ev_Index e). 0 \<le> i \<and> i \<le> n)
          then Some (Within n)
          else if ev_Type e = ''content_block_stop'' \<and> ev_Index e = Some n then Some (Between (n + 1))
          else None
      | Some Closing \<Rightarrow> if ev_Type e = ''message_stop'' then Some Finished else None
      | Some Finished \<Rightarrow> None)"

definition startedBlock :: "streamState \<Rightarrow> int \<Rightarrow> bool" where
  "startedBlock st i \<longleftrightarrow>
     0 \<le> i \<and> (i < st_ContentBlockIndex st \<or> st_ContentBlockOpen st \<and> i = st_ContentBlockIndex st)"

definition phaseOf :: "streamState \<Rightarrow> phase" where
  "phaseOf st = (if st_ContentBlockOpen st then Within (st_ContentBlockIndex st)
                 else Between (st_ContentBlockIndex st))"

definition streamRel :: "streamState \<Rightarrow> phase option \<Rightarrow> bool" where
  "streamRel st ph \<longleftrightarrow>
     st_MessageStartSent st \<and> \<not> st_MessageStopSent st \<and> 0 \<le> st_ContentBlockIndex st \<and>
     (\<forall>i\<in>ran (st_OutputIndexToBlockIdx st). startedBlock st i) \<and> ph = Some (phaseOf st)"

definition terminal :: "ResponsesStreamEvent \<Rightarrow> bool" where
  "terminal evt \<longleftrightarrow>
     rse_Type evt \<in> {''response.completed'', ''response.done'', ''response.incomplete'', ''response.failed''}"

lemmas emitted_events = content_block_start_def content_block_delta_def content_block_stop_def
  message_delta_def message_stop_def zeroEvent_def

lemma clientStep_simps [step_simps]:
  "clientStep (Some (Between n)) (content_block_start n b) = Some (Within n)"
  "0 \<le> i \<Longrightarrow> i < n \<Longrightarrow> clientStep (Some (Between n)) (content_block_delta i d) = Some (Between n)"
  "0 \<le> i \<Longrightarrow> i \<le> n \<Longrightarrow> clientStep (Some (Within n)) (content_block_delta i d) = Some (Within n)"
  "clientStep (Some (Within n)) (content_block_stop n) = Some (Between (n + 1))"
  "clientStep (Some (Between n)) (message_delta r u) = Some Closing"
  "clientStep (Some Closing) message_stop = Some Finished"
  by (simp_all add: clientStep_def emitted_events)

lemma clientStep_delta:
  "startedBlock st i \<Longrightarrow> clientStep (Some (phaseOf st)) (content_block_delta i d) = Some (phaseOf st)"
  by (auto simp: startedBlock_def phaseOf_def step_simps)

lemma closeCurrentBlock_cases:
  assumes r: "streamRel st ph"
  obtains events st' where "closeCurrentBlock st = (events, st')" "\<not> st_ContentBlockOpen st'"
    "streamRel st' (foldl clientStep ph events)"
proof (cases "st_ContentBlockOpen st")
  case True
  have "closeCurrentBlock st = (fst (closeCurrentBlock st), snd (closeCurrentBlock st))" by simp
  moreover have "\<not> st_ContentBlockOpen (snd (closeCurrentBlock st))"
    by (simp add: closeCurrentBlock_def Let_def)
  moreover have "foldl clientStep ph (fst (closeCurrentBlock st)) = Some (Between (st_ContentBlockIndex st + 1))"
    using r True by (simp add: streamRel_def phaseOf_def closeCurrentBlock_def Let_def step_simps)
  then have "streamRel (snd (closeCurrentBlock st)) (foldl clientStep ph (fst (closeCurrentBlock st)))"
    using r True by (auto simp: streamRel_def startedBlock_def phaseOf_def closeCurrentBlock_def Let_def)
  ultimately show ?thesis by (rule that)
next
  case False
  then show ?thesis using that [of "[]" st] r by (simp add: closeCurrentBlock_def)
qed

section \<open>Every handler keeps to the protocol\<close>

definition followed :: "phase option \<Rightarrow> emission \<Rightarrow> bool" where
  "followed ph em \<longleftrightarrow> streamRel (snd em) (foldl clientStep ph (fst em))"

lemma followed_quiet [simp]: "followed ph ([], st) \<longleftrightarrow> streamRel st ph"
  by (simp add: followed_def)

lemma followed_close: "streamRel st ph \<Longrightarrow> followed ph (closeCurrentBlock st)"
  by (erule closeCurrentBlock_cases) (simp add: followed_def)

lemma followed_delta:
  assumes "streamRel st ph" "st_OutputIndexToBlockIdx st o' = Some i"
  shows "followed ph ([content_block_delta i d], st)"
  using assms clientStep_delta [of st i d] by (auto simp: followed_def streamRel_def ran_def)

lemma streamRel_cong:
  assumes "streamRel st ph" "st_MessageStartSent st' = st_MessageStartSent st"
    "st_MessageStopSent st' = st_MessageStopSent st" "st_ContentBlockIndex st' = st_ContentBlockIndex st"
    "st_ContentBlockOpen st' = st_ContentBlockOpen st"
    "st_OutputIndexToBlockIdx st' = st_OutputIndexToBlockIdx st"
  shows "streamRel st' ph"
  using assms by (simp add: streamRel_def startedBlock_def phaseOf_def)

lemma streamRel_open:
  assumes "streamRel st ph" "\<not> st_ContentBlockOpen st" "st_MessageStartSent st' = st_MessageStartSent st"
    "st_MessageStopSent st' = st_MessageStopSent st" "st_ContentBlockIndex st' = st_ContentBlockIndex st"
    "st_ContentBlockOpen st'"
    "ran (st_OutputIndexToBlockIdx st') \<subseteq> insert (st_ContentBlockIndex st) (ran (st_OutputIndexToBlockIdx st))"
  shows "streamRel st' (clientStep ph (content_block_start (st_ContentBlockIndex st) b))"
  using assms by (auto simp: streamRel_def startedBlock_def phaseOf_def step_simps)

lemma followed_created: "streamRel st ph \<Longrightarrow> followed ph (resToAnthHandleCreated evt st)"
  by (auto simp: resToAnthHandleCreated_def Let_def streamRel_def startedBlock_def phaseOf_def split: option.splits)

lemma followed_added:
  assumes "streamRel st ph"
  shows "followed ph (resToAnthHandleOutputItemAdded evt st)"
proof -
  obtain events st' where c: "closeCurrentBlock st = (events, st')" "\<not> st_ContentBlockOpen st'"
    "streamRel st' (foldl clientStep ph events)"
    using closeCurrentBlock_cases [OF assms] by metis
  have ran: "ran (m(k \<mapsto> v)) \<subseteq> insert v (ran m)" for m :: "int \<rightharpoonup> int" and k v
    by (auto simp: ran_def)
  show ?thesis
    using assms c(1) streamRel_open [OF c(3,2)] ran
    by (auto simp: resToAnthHandleOutputItemAdded_def Let_def followed_def split: option.splits)
qed

lemma followed_text:
  assumes "streamRel st ph"
  shows "followed ph (resToAnthHandleTextDelta evt st)"
proof (cases "st_ContentBlockOpen st \<and> st_CurrentBlockType st = ''text''")
  case True
  then have "startedBlock st (st_ContentBlockIndex st)" using assms by (simp add: startedBlock_def streamRel_def)
  then show ?thesis using True assms clientStep_delta
    by (auto simp: resToAnthHandleTextDelta_def followed_def streamRel_def)
next
  case False
  obtain events st' where c: "closeCurrentBlock st = (events, st')" "\<not> st_ContentBlockOpen st'"
    "streamRel st' (foldl clientStep ph events)"
    using closeCurrentBlock_cases [OF assms] by metis
  let ?st = "st'\<lparr>st_ContentBlockOpen := True, st_CurrentBlockType := ''text''\<rparr>"
  let ?ph = "clientStep (foldl clientStep ph events)
      (content_block_start (st_ContentBlockIndex st') (zeroBlock\<lparr>cb_Type := ''text''\<rparr>))"
  have r: "streamRel ?st ?ph" by (rule streamRel_open [OF c(3,2)]) auto
  then have "startedBlock ?st (st_ContentBlockIndex st')" by (simp add: startedBlock_def streamRel_def)
  from clientStep_delta [OF this] r
  have "clientStep ?ph (content_block_delta (st_ContentBlockIndex st') (text_delta (rse_Delta evt))) = ?ph"
    by (simp add: streamRel_def)
  then show ?thesis using False assms c(1) r
    by (auto simp: resToAnthHandleTextDelta_def followed_def)
qed

lemma followed_args_delta:
  assumes "streamRel st ph"
  shows "followed ph (resToAnthHandleFuncArgsDelta js evt st)"
proof -
  have upd: "streamRel (st\<lparr>st_CurrentToolArgs := a, st_CurrentToolHadDelta := h\<rparr>) ph"
    "streamRel (st\<lparr>st_CurrentToolArgs := a\<rparr>) ph" "streamRel (st\<lparr>st_CurrentToolHadDelta := h\<rparr>) ph" for a h
    using assms by (auto intro: streamRel_cong)
  show ?thesis
    using assms followed_delta [OF upd(1)] followed_delta [OF upd(3)] followed_delta [OF assms] upd
    by (auto simp: resToAnthHandleFuncArgsDelta_def Let_def split: option.splits)
qed

lemma followed_args_done:
  assumes "streamRel st ph"
  shows "followed ph (resToAnthHandleFuncArgsDone js evt st)"
proof -
  have "followed ph (case closeCurrentBlock st of (events, st') \<Rightarrow>
      (content_block_delta (st_ContentBlockIndex st) d # events, st'))" if "st_ContentBlockOpen st" for d
  proof -
    have "startedBlock st (st_ContentBlockIndex st)" using assms that by (simp add: startedBlock_def streamRel_def)
    then have "clientStep ph (content_block_delta (st_ContentBlockIndex st) d) = ph"
      using assms clientStep_delta by (auto simp: streamRel_def)
    then show ?thesis using followed_close [OF assms] by (auto simp: followed_def split: prod.splits)
  qed
  then show ?thesis
    using assms followed_close [OF assms]
    by (auto simp: resToAnthHandleFuncArgsDone_def resToAnthHandleBlockDone_def Let_def split: option.splits)
qed

lemma followed_item_done:
  assumes "streamRel st ph"
  shows "followed ph (resToAnthHandleOutputItemDone js evt st)"
proof -
  obtain events st' where c: "closeCurrentBlock st = (events, st')" "\<not> st_ContentBlockOpen st'"
    "streamRel st' (foldl clientStep ph events)"
    using closeCurrentBlock_cases [OF assms] by metis
  have web: "followed ph (resToAnthHandleWebSearchDone js item st)" for item
    using c by (auto simp: resToAnthHandleWebSearchDone_def Let_def followed_def streamRel_def phaseOf_def
        startedBlock_def step_simps algebra_simps)
  have sig: "streamRel (st\<lparr>st_PendingThinkingSignature := x\<rparr>) ph" for x
    using assms by (rule streamRel_cong) auto
  show ?thesis
    using assms web sig followed_close [OF assms] followed_close [OF sig]
    by (auto simp: resToAnthHandleOutputItemDone_def Let_def split: option.splits)
qed

lemma followed_reasoning: "streamRel st ph \<Longrightarrow> followed ph (resToAnthHandleReasoningDelta evt st)"
  using followed_delta by (auto simp: resToAnthHandleReasoningDelta_def split: option.splits)

lemma followed_event:
  assumes "streamRel st ph" "\<not> terminal evt"
  shows "followed ph (ResponsesEventToAnthropicEvents js st evt)"
  using assms followed_created [OF assms(1)] followed_added [OF assms(1)] followed_text [OF assms(1)]
    followed_args_delta [OF assms(1)] followed_args_done [OF assms(1)] followed_item_done [OF assms(1)]
    followed_reasoning [OF assms(1)] followed_close [OF assms(1)]
  by (simp add: ResponsesEventToAnthropicEvents_def terminal_def resToAnthHandleBlockDone_def Let_def)

interpretation protocol: observed_machine "ResponsesEventToAnthropicEvents js" clientStep streamRel
  "\<lambda>evt. \<not> terminal evt" for js
  by unfold_locales (use followed_event in \<open>simp add: followed_def\<close>)

lemma terminal_finishes:
  assumes "streamRel st ph" "terminal evt"
  shows "foldl clientStep ph (fst (ResponsesEventToAnthropicEvents js st evt)) = Some Finished"
    and "st_MessageStopSent (snd (ResponsesEventToAnthropicEvents js st evt))"
proof -
  obtain events st' where c: "closeCurrentBlock st = (events, st')" "\<not> st_ContentBlockOpen st'"
    "streamRel st' (foldl clientStep ph events)"
    using closeCurrentBlock_cases [OF assms(1)] by metis
  have "ResponsesEventToAnthropicEvents js st evt = resToAnthHandleCompleted evt st"
    using assms(2) by (auto simp: ResponsesEventToAnthropicEvents_def terminal_def)
  then show "foldl clientStep ph (fst (ResponsesEventToAnthropicEvents js st evt)) = Some Finished"
    "st_MessageStopSent (snd (ResponsesEventToAnthropicEvents js st evt))"
    using assms(1) c by (simp_all add: resToAnthHandleCompleted_def Let_def streamRel_def phaseOf_def step_simps)
qed

lemma finalize_finishes:
  assumes "streamRel st ph"
  shows "foldl clientStep ph (fst (FinalizeResponsesAnthropicStream st)) = Some Finished"
proof -
  obtain events st' where c: "closeCurrentBlock st = (events, st')" "\<not> st_ContentBlockOpen st'"
    "streamRel st' (foldl clientStep ph events)"
    using closeCurrentBlock_cases [OF assms] by metis
  then show ?thesis
    using assms by (simp add: FinalizeResponsesAnthropicStream_def streamRel_def phaseOf_def step_simps)
qed

lemma created_starts:
  assumes "rse_Type evt = ''response.created''"
  shows "streamRel (snd (ResponsesEventToAnthropicEvents js (initialState now model) evt))
    (foldl clientStep (Some Fresh) (fst (ResponsesEventToAnthropicEvents js (initialState now model) evt)))"
  using assms
  by (auto simp: ResponsesEventToAnthropicEvents_def resToAnthHandleCreated_def initialState_def
      NewResponsesEventToAnthropicState_def clientStep_def zeroEvent_def streamRel_def phaseOf_def split: option.splits)

section \<open>The stream the gateway writes\<close>

text \<open>What the client has made of the events it has been sent, pings and errors aside.\<close>

definition seen :: "messagesRun \<Rightarrow> phase option" where
  "seen w = foldl clientStep (Some Fresh) (messagesOf (mr_Written w))"

definition onTrack :: "messagesRun \<Rightarrow> bool" where
  "onTrack w \<longleftrightarrow> (\<exists>out. owed w out \<and> streamRel (mr_State w) (foldl clientStep (Some Fresh) out))"

definition wellEnded :: "messagesEnd \<Rightarrow> messagesRun \<Rightarrow> bool" where
  "wellEnded e w \<longleftrightarrow>
     seen w \<noteq> None \<and>
     (if e = StreamResult then mr_Disconnected w \<or> seen w = Some Finished else seen w \<noteq> Some Finished) \<and>
     (mr_Disconnected w \<or> (e = TerminalError \<longleftrightarrow> set (mr_Written w) \<inter> {ErrorEvent, ErrorBody} \<noteq> {})) \<and>
     (e = FailoverError \<longrightarrow> mr_Disconnected w \<or> mr_Written w = [])"

lemma foldl_None [simp]: "foldl clientStep None es = None"
  by (induction es) (simp_all add: clientStep_def)

lemma foldl_Finished: "foldl clientStep (Some Finished) es = (if es = [] then Some Finished else None)"
  by (cases es) (simp_all add: clientStep_def)

lemma seen_owed:
  assumes "owed w out" "foldl clientStep (Some Fresh) out = Some ph"
  shows "seen w \<noteq> None" "ph \<noteq> Finished \<Longrightarrow> seen w \<noteq> Some Finished"
    "mr_Pending w = [] \<Longrightarrow> mr_Disconnected w \<or> seen w = Some ph"
proof -
  obtain rest where r: "out = messagesOf (mr_Written w) @ rest" "mr_Disconnected w \<or> rest = mr_Pending w"
    using assms(1) by (auto simp: owed_def)
  have f: "foldl clientStep (seen w) rest = Some ph" using assms(2) by (simp add: r(1) seen_def)
  then show "seen w \<noteq> None" by (metis foldl_None option.simps(3))
  show "ph \<noteq> Finished \<Longrightarrow> seen w \<noteq> Some Finished" using f by (auto simp: foldl_Finished split: if_splits)
  show "mr_Pending w = [] \<Longrightarrow> mr_Disconnected w \<or> seen w = Some ph" using f r(2) by auto
qed

lemma onTrack_seen: "onTrack w \<Longrightarrow> seen w \<noteq> None \<and> seen w \<noteq> Some Finished"
proof -
  assume "onTrack w"
  then obtain out where "owed w out" "streamRel (mr_State w) (foldl clientStep (Some Fresh) out)" by (auto simp: onTrack_def)
  with seen_owed [of w out] show ?thesis by (auto simp: streamRel_def phaseOf_def split: if_splits)
qed

lemma onTrack_errors: "onTrack w \<Longrightarrow> set (mr_Written w) \<inter> {ErrorEvent, ErrorBody} = {}"
  by (auto simp: onTrack_def owed_def)

lemma onTrack_waiting: "onTrack w \<Longrightarrow> \<not> mr_Started w \<Longrightarrow> mr_Disconnected w \<or> mr_Written w = []"
  by (auto simp: onTrack_def owed_def)

lemma onTrack_broken:
  "onTrack w \<Longrightarrow> e \<notin> {StreamResult, TerminalError} \<Longrightarrow> (e = FailoverError \<Longrightarrow> \<not> mr_Started w) \<Longrightarrow> wellEnded e w"
  using onTrack_seen [of w] onTrack_errors [of w] onTrack_waiting [of w] by (simp add: wellEnded_def)

lemma onTrack_flush: "onTrack w \<Longrightarrow> \<not> mr_Disconnected w \<Longrightarrow> onTrack (flushPendingSSE w)"
  using flush_owed(1) by (fastforce simp: onTrack_def)

lemma onTrack_ping: "onTrack w \<Longrightarrow> mr_Started w \<Longrightarrow> onTrack (clientWrite Ping w)"
  using ping_owed by (fastforce simp: onTrack_def)

text \<open>An error is written after what the client has been sent, and only counts if the client still gets it.\<close>

lemma error_written:
  assumes "onTrack w" "c \<in> {ErrorEvent, ErrorBody}"
  shows "wellEnded TerminalError (clientWrite c w)"
proof (cases "mr_Disconnected (clientWrite c w)")
  case True
  then have "seen (clientWrite c w) = seen w" by (simp add: seen_def clientWrite_lost)
  then show ?thesis using True onTrack_seen [OF assms(1)] by (simp add: wellEnded_def)
next
  case False
  from clientWrite_written [OF this] assms(2) onTrack_seen [OF assms(1)] show ?thesis
    by (auto simp: wellEnded_def seen_def)
qed

lemma wellEnded_marked [simp]: "wellEnded e (markStarted w) = wellEnded e w"
  by (simp add: wellEnded_def seen_def markStarted_def)

lemma flush_disconnected: "mr_Disconnected w \<Longrightarrow> flushPendingSSE w = w"
  by (simp add: flushPendingSSE_def)

lemma failure_wellEnded:
  assumes "onTrack w" "streamFailure lib payload w = (e, w')"
  shows "wellEnded e w'" "e \<noteq> StreamResult"
proof -
  have "onTrack (flushPendingSSE w)"
    using assms(1) onTrack_flush by (cases "mr_Disconnected w") (simp_all add: flush_disconnected)
  moreover have "wellEnded TerminalError w" if "mr_Disconnected w"
    using that onTrack_seen [OF assms(1)] by (simp add: wellEnded_def)
  ultimately show "wellEnded e w'"
    using assms error_written [OF assms(1)] error_written [of "flushPendingSSE w" ErrorEvent] onTrack_broken [OF assms(1)]
    by (auto simp: streamFailure_def split: if_splits)
  show "e \<noteq> StreamResult" using assms(2) by (auto simp: streamFailure_def split: if_splits)
qed

lemma literals_trimmed:
  "TrimSpace ''response.completed'' = ''response.completed''" "TrimSpace ''response.done'' = ''response.done''"
  "TrimSpace ''response.incomplete'' = ''response.incomplete''" "TrimSpace ''response.failed'' = ''response.failed''"
  "TrimSpace ''response.created'' = ''response.created''"
  by code_simp+

lemma terminal_trimmed:
  "terminal evt \<Longrightarrow> TrimSpace (rse_Type evt) = rse_Type evt"
  by (auto simp: terminal_def literals_trimmed)

text \<open>The events that end the loop, judged as the loop does.\<close>

definition endsLoop :: "ResponsesStreamEvent \<Rightarrow> bool" where
  "endsLoop evt \<longleftrightarrow> TrimSpace (rse_Type evt) = ''response.failed'' \<or> TrimSpace (rse_Type evt) = ''error'' \<or>
     isOpenAICompatResponsesTerminalEvent (TrimSpace (rse_Type evt))"

definition completesLoop :: "ResponsesStreamEvent \<Rightarrow> bool" where
  "completesLoop evt \<longleftrightarrow> TrimSpace (rse_Type evt) \<noteq> ''response.failed'' \<and> TrimSpace (rse_Type evt) \<noteq> ''error'' \<and>
     isOpenAICompatResponsesTerminalEvent (TrimSpace (rse_Type evt))"

lemma terminal_ends: "terminal evt \<Longrightarrow> endsLoop evt"
  by (auto simp: terminal_def endsLoop_def isOpenAICompatResponsesTerminalEvent_def literals_trimmed)

lemma created_goes_on: "rse_Type evt = ''response.created'' \<Longrightarrow> \<not> endsLoop evt"
  by (simp add: endsLoop_def isOpenAICompatResponsesTerminalEvent_def literals_trimmed)

text \<open>An event that does not end the loop.\<close>

lemma line_converted:
  assumes "ml_Unmarshal lib payload = Some evt" "\<not> endsLoop evt" "owed w out"
    and "ResponsesEventToAnthropicEvents js (mr_State w) evt = (events, st)"
  obtains w' where "processDataLine lib js payload w = (None, w')" "owed w' (out @ events)" "mr_State w' = st"
proof -
  let ?w = "w\<lparr>mr_State := st\<rparr>" and ?b = "events \<noteq> [] \<and> rse_Type evt \<noteq> ''response.created''"
  have "owed ?w out" using assms(3) by (simp add: owed_def)
  from writeEvents_owed [OF this, of ?b events] show ?thesis
    using that [of "writeEvents ?b events ?w"] assms(1,2,4)
    by (simp add: processDataLine_def endsLoop_def Let_def)
qed

lemma line_onTrack:
  assumes "onTrack w" "processDataLine lib js payload w = (None, w')"
  shows "onTrack w'"
proof (cases "ml_Unmarshal lib payload")
  case None
  then show ?thesis using assms by (simp add: processDataLine_def)
next
  case (Some evt)
  have "\<not> endsLoop evt" using assms(2) Some
    by (auto simp: processDataLine_def endsLoop_def Let_def split: prod.splits if_splits)
  obtain out where out: "owed w out" "streamRel (mr_State w) (foldl clientStep (Some Fresh) out)"
    using assms(1) by (auto simp: onTrack_def)
  obtain events st where c: "ResponsesEventToAnthropicEvents js (mr_State w) evt = (events, st)" by fastforce
  have "streamRel st (foldl clientStep (foldl clientStep (Some Fresh) out) events)"
    using followed_event [OF out(2), of evt js] terminal_ends \<open>\<not> endsLoop evt\<close> c by (auto simp: followed_def)
  moreover obtain w'' where "processDataLine lib js payload w = (None, w'')" "owed w'' (out @ events)" "mr_State w'' = st"
    by (rule line_converted [OF Some \<open>\<not> endsLoop evt\<close> out(1) c])
  ultimately show ?thesis using assms(2) by (auto simp: onTrack_def)
qed

text \<open>A terminal event, with what is written after it.\<close>

lemma line_completes:
  assumes "ml_Unmarshal lib payload = Some evt" "completesLoop evt" "owed w out"
    and "ResponsesEventToAnthropicEvents js (mr_State w) evt = (events, st)"
    and "FinalizeResponsesAnthropicStream st = (events', st')" "events @ events' \<noteq> []"
  obtains w' where "processDataLine lib js payload w = (Some StreamResult, w')" "mr_State (finalizeStream w') = st'"
    "owed (finalizeStream w') (out @ events @ events')"
    "mr_Disconnected (finalizeStream w') \<or> mr_Pending (finalizeStream w') = []"
proof -
  let ?w = "w\<lparr>mr_State := st\<rparr>" and ?b = "events \<noteq> [] \<and> rse_Type evt \<noteq> ''response.created''"
  let ?w' = "writeEvents ?b events ?w"
  have other: "rse_Type evt \<noteq> ''response.created''"
    using assms(2) created_goes_on [of evt] by (auto simp: completesLoop_def endsLoop_def)
  have "owed ?w out" using assms(3) by (simp add: owed_def)
  from writeEvents_owed [OF this, of ?b events] have w': "owed ?w' (out @ events)" "mr_State ?w' = st"
    "events \<noteq> [] \<Longrightarrow> mr_Disconnected ?w' \<or> mr_Started ?w'" using other by auto
  have "owed (?w'\<lparr>mr_State := st'\<rparr>) (out @ events)" using w'(1) by (simp add: owed_def)
  from writeEvents_owed [OF this, of True events']
  have f: "owed (finalizeStream ?w') (out @ events @ events')" "mr_State (finalizeStream ?w') = st'"
    "events' \<noteq> [] \<or> mr_Started ?w' \<Longrightarrow> mr_Disconnected (finalizeStream ?w') \<or> mr_Started (finalizeStream ?w')"
    using assms(5) w'(2) by (auto simp: finalizeStream_def)
  have "mr_Disconnected ?w' \<Longrightarrow> mr_Disconnected (finalizeStream ?w')"
    using assms(5) w'(2) by (cases events') (simp_all add: finalizeStream_def)
  then have "mr_Disconnected (finalizeStream ?w') \<or> mr_Pending (finalizeStream ?w') = []"
    using f(1,3) w'(3) assms(6) by (auto simp: owed_def)
  with f(1,2) show ?thesis using that [of ?w'] assms(1,2,4)
    by (simp add: processDataLine_def completesLoop_def Let_def)
qed

lemma line_finished:
  assumes "onTrack w" "ml_Unmarshal lib payload = Some evt" "completesLoop evt"
    and "processDataLine lib js payload w = (e, w')"
  shows "e = Some StreamResult" "wellEnded StreamResult (finalizeStream w')"
proof -
  obtain out where out: "owed w out" "streamRel (mr_State w) (foldl clientStep (Some Fresh) out)"
    using assms(1) by (auto simp: onTrack_def)
  obtain events st where c: "ResponsesEventToAnthropicEvents js (mr_State w) evt = (events, st)" by fastforce
  obtain events' st' where f: "FinalizeResponsesAnthropicStream st = (events', st')" by fastforce
  have all: "foldl clientStep (Some Fresh) (out @ events @ events') = Some Finished"
  proof (cases "terminal evt")
    case True
    from terminal_finishes [OF out(2) this, of js] c f show ?thesis
      by (auto simp: FinalizeResponsesAnthropicStream_def)
  next
    case False
    from followed_event [OF out(2) this, of js] c
    have "streamRel st (foldl clientStep (foldl clientStep (Some Fresh) out) events)" by (simp add: followed_def)
    from finalize_finishes [OF this] f show ?thesis by simp
  qed
  then have "events @ events' \<noteq> []" using out(2) by (auto simp: streamRel_def phaseOf_def split: if_splits)
  from line_completes [OF assms(2,3) out(1) c f this] assms(4)
  have w': "e = Some StreamResult" "owed (finalizeStream w') (out @ events @ events')"
    "mr_Disconnected (finalizeStream w') \<or> mr_Pending (finalizeStream w') = []" by (metis prod.inject)+
  show "e = Some StreamResult" by (rule w'(1))
  from seen_owed [OF w'(2) all] w'(2,3) show "wellEnded StreamResult (finalizeStream w')"
    by (auto simp: wellEnded_def owed_def)
qed

text \<open>The input that ends the loop, and whether it ends it with a result.\<close>

definition stops :: "messagesLib \<Rightarrow> messagesInput \<Rightarrow> bool" where
  "stops lib input =
     (case input of
        Frame payload \<Rightarrow> TrimSpace payload = ''[DONE]'' \<or>
          (case ml_Unmarshal lib payload of None \<Rightarrow> False | Some evt \<Rightarrow> endsLoop evt)
      | KeepaliveInterval \<Rightarrow> False
      | _ \<Rightarrow> True)"

definition completes :: "messagesLib \<Rightarrow> messagesInput \<Rightarrow> bool" where
  "completes lib input =
     (case input of
        Frame payload \<Rightarrow> TrimSpace payload \<noteq> ''[DONE]'' \<and>
          (case ml_Unmarshal lib payload of None \<Rightarrow> False | Some evt \<Rightarrow> completesLoop evt)
      | _ \<Rightarrow> False)"

lemma line_result:
  "fst (processDataLine lib js payload w) =
     (case ml_Unmarshal lib payload of
        None \<Rightarrow> None
      | Some evt \<Rightarrow>
          if completesLoop evt then Some StreamResult
          else if endsLoop evt then Some (fst (streamFailure lib payload w))
          else None)"
  by (auto simp: processDataLine_def completesLoop_def endsLoop_def Let_def split: option.split prod.split)

lemma failure_result: "fst (streamFailure lib payload w) \<noteq> StreamResult"
  by (simp add: streamFailure_def)

lemma completes_ends: "completesLoop evt \<Longrightarrow> endsLoop evt"
  by (simp add: completesLoop_def endsLoop_def)

lemma loop_result:
  "fst (streamLoop lib js w inputs) = StreamResult \<longleftrightarrow>
     (case find (stops lib) inputs of None \<Rightarrow> False | Some input \<Rightarrow> completes lib input)"
proof (induction lib js w inputs rule: streamLoop.induct)
  case (2 lib js w payload inputs)
  obtain r w' where r: "processDataLine lib js payload w = (r, w')" by fastforce
  then have line: "r = (case ml_Unmarshal lib payload of
      None \<Rightarrow> None
    | Some evt \<Rightarrow>
        if completesLoop evt then Some StreamResult
        else if endsLoop evt then Some (fst (streamFailure lib payload w))
        else None)"
    by (metis fst_conv line_result)
  show ?case
  proof (cases "TrimSpace payload = ''[DONE]''")
    case True
    then show ?thesis by (simp add: stops_def completes_def missingTerminalErr_def)
  next
    case False
    show ?thesis
    proof (cases r)
      case None
      then have "\<not> stops lib (Frame payload)"
        using line False by (auto simp: stops_def split: option.splits if_splits)
      then show ?thesis using 2 r None False by simp
    next
      case (Some e)
      then have "stops lib (Frame payload)"
        using line completes_ends by (auto simp: stops_def split: option.splits if_splits)
      moreover have "e = StreamResult \<longleftrightarrow> completes lib (Frame payload)"
        using line Some False failure_result [of lib payload w]
        by (auto simp: completes_def split: option.splits if_splits)
      ultimately show ?thesis using r Some False by simp
    qed
  qed
qed (simp_all add: stops_def completes_def missingTerminalErr_def)

lemma missing_wellEnded: "onTrack w \<Longrightarrow> wellEnded (missingTerminalErr w) w"
  by (auto simp: missingTerminalErr_def intro: onTrack_broken)

lemma line_wellEnded:
  assumes "onTrack w" "processDataLine lib js payload w = (Some e, w')"
  shows "wellEnded e (if e = StreamResult then finalizeStream w' else w')"
proof -
  have e: "fst (processDataLine lib js payload w) = Some e" using assms(2) by simp
  then obtain evt where evt: "ml_Unmarshal lib payload = Some evt" by (auto simp: line_result split: option.splits)
  show ?thesis
  proof (cases "completesLoop evt")
    case True
    with line_finished [OF assms(1) evt True assms(2)] show ?thesis by simp
  next
    case False
    with e evt have "endsLoop evt" by (auto simp: line_result split: if_splits)
    with False have "processDataLine lib js payload w = (case streamFailure lib payload w of (e, w) \<Rightarrow> (Some e, w))"
      by (auto simp: processDataLine_def evt Let_def completesLoop_def endsLoop_def)
    with assms(2) have "streamFailure lib payload w = (e, w')" by (simp split: prod.splits)
    with failure_wellEnded [OF assms(1)] show ?thesis by auto
  qed
qed

lemma loop_wellEnded:
  "onTrack w \<Longrightarrow> streamLoop lib js w inputs = (e, w') \<Longrightarrow> wellEnded e w'"
proof (induction lib js w inputs arbitrary: e w' rule: streamLoop.induct)
  case (2 lib js w payload inputs)
  obtain r w1 where r: "processDataLine lib js payload w = (r, w1)" by fastforce
  show ?case
  proof (cases "TrimSpace payload = ''[DONE]''")
    case True
    then show ?thesis using 2(3) missing_wellEnded [OF 2(2)] by auto
  next
    case False
    show ?thesis
    proof (cases r)
      case None
      with 2(1) [OF False r [symmetric]] 2(3) r False line_onTrack [OF 2(2)] show ?thesis by simp
    next
      case (Some x)
      with 2(3) r False line_wellEnded [OF 2(2) r [unfolded Some]] show ?thesis by auto
    qed
  qed
next
  case (5 lib js w inputs)
  then show ?case using onTrack_ping by auto
qed (use missing_wellEnded in \<open>auto intro: onTrack_broken\<close>)

lemma initial_owed:
  "owed \<lparr>mr_State = st, mr_Pending = [], mr_Started = False, mr_Written = [], mr_Accepts = accepts,
     mr_Disconnected = False\<rparr> []"
  by (simp add: owed_def)

text \<open>A stream without errors, read to its end by a client that stays.\<close>

definition carries :: "messagesLib \<Rightarrow> string \<Rightarrow> ResponsesStreamEvent \<Rightarrow> bool" where
  "carries lib payload evt \<longleftrightarrow> ml_Unmarshal lib payload = Some evt \<and> TrimSpace payload \<noteq> ''[DONE]''"

lemma loop_converts:
  assumes "list_all2 (carries lib) payloads evts" "list_all (\<lambda>evt. \<not> endsLoop evt) evts" "owed w out"
    and "transduce (ResponsesEventToAnthropicEvents js) (mr_State w) evts = (os, st)"
  shows "\<exists>w'. streamLoop lib js w (map Frame payloads @ inputs) = streamLoop lib js w' inputs \<and>
    owed w' (out @ os) \<and> mr_State w' = st"
  using assms
proof (induction payloads evts arbitrary: w out os rule: list_all2_induct)
  case (Cons payload payloads evt evts)
  obtain os1 st1 where c: "ResponsesEventToAnthropicEvents js (mr_State w) evt = (os1, st1)" by fastforce
  obtain os2 where t: "transduce (ResponsesEventToAnthropicEvents js) st1 evts = (os2, st)" "os = os1 @ os2"
    using Cons.prems(3) c by (auto split: prod.splits)
  have evt: "ml_Unmarshal lib payload = Some evt" "TrimSpace payload \<noteq> ''[DONE]''" "\<not> endsLoop evt"
    using Cons.hyps(1) Cons.prems(1) by (auto simp: carries_def)
  obtain w1 where "processDataLine lib js payload w = (None, w1)" "owed w1 (out @ os1)" "mr_State w1 = st1"
    by (rule line_converted [OF evt(1,3) Cons.prems(2) c])
  with Cons.IH [of w1 "out @ os1" os2] Cons.prems(1) evt(2) t show ?case by simp
qed auto

lemma whole_stream:
  assumes "list_all2 (carries lib) payloads (evts @ [fin])" "list_all (\<lambda>evt. \<not> endsLoop evt) evts" "terminal fin"
    "rse_Type fin \<noteq> ''response.failed''"
    and "transduce (ResponsesEventToAnthropicEvents js) (initialState now model) evts = (os1, st1)"
      "ResponsesEventToAnthropicEvents js st1 fin = (os2, st2)" "os2 \<noteq> []" "st_MessageStopSent st2"
  shows "\<exists>w. handleAnthropicStreamingResponse lib js now model None (map Frame payloads) = (StreamResult, w) \<and>
    messagesOf (mr_Written w) = os1 @ os2"
proof -
  let ?w = "\<lparr>mr_State = initialState now model, mr_Pending = [], mr_Started = False, mr_Written = [],
      mr_Accepts = None, mr_Disconnected = False\<rparr>"
  obtain ps p where p: "payloads = ps @ [p]" "list_all2 (carries lib) ps evts" "carries lib p fin"
    using assms(1) by (auto simp: list_all2_append2 list_all2_Cons2)
  have "transduce (ResponsesEventToAnthropicEvents js) (mr_State ?w) evts = (os1, st1)" using assms(5) by simp
  from loop_converts [OF p(2) assms(2) initial_owed this, of "[Frame p]"] obtain w1 where w1:
    "streamLoop lib js ?w (map Frame payloads) = streamLoop lib js w1 [Frame p]" "owed w1 os1" "mr_State w1 = st1"
    by (auto simp: p(1))
  have fin: "ml_Unmarshal lib p = Some fin" "completesLoop fin" "TrimSpace p \<noteq> ''[DONE]''"
    using p(3) assms(3,4) by (auto simp: carries_def completesLoop_def terminal_def literals_trimmed
        isOpenAICompatResponsesTerminalEvent_def)
  have "ResponsesEventToAnthropicEvents js (mr_State w1) fin = (os2, st2)" "FinalizeResponsesAnthropicStream st2 = ([], st2)"
    using assms(6,8) w1(3) by (simp_all add: FinalizeResponsesAnthropicStream_def)
  from line_completes [OF fin(1,2) w1(2) this] assms(7) obtain w2 where w2:
    "processDataLine lib js p w1 = (Some StreamResult, w2)" "owed (finalizeStream w2) (os1 @ os2)"
    "mr_Disconnected (finalizeStream w2) \<or> mr_Pending (finalizeStream w2) = []" by auto
  then have r: "handleAnthropicStreamingResponse lib js now model None (map Frame payloads) =
      (StreamResult, finalizeStream w2)"
    using w1(1) fin(3) by (simp add: handleAnthropicStreamingResponse_def)
  from handle_connected [OF r] w2(2,3) r show ?thesis by (auto simp: owed_def)
qed

section \<open>Properties\<close>

text \<open>
  (C7) For an upstream stream that begins with \<^verbatim>\<open>response.created\<close>, whatever follows, in any order and
  interleaving of output items, with read errors, timeouts and pings between them and a client that may
  disconnect at any time: the gateway returns a result exactly when the first input that ends
  the stream is an event \<^verbatim>\<open>response.completed\<close>, \<^verbatim>\<open>response.done\<close> or \<^verbatim>\<open>response.incomplete\<close>. Then the client,
  if it is still there, has been sent one complete message of the Anthropic protocol: \<^verbatim>\<open>message_start\<close>,
  content blocks with consecutive indices from 0 that are started once and stopped before
  the next one starts, deltas only for blocks that have been started, \<^verbatim>\<open>message_delta\<close> and
  \<^verbatim>\<open>message_stop\<close>, and nothing after it. In every other case it has been sent a beginning of such a message that
  is not complete; after a failure event an error is written, and a request is handed to another account
  only if nothing at all has been written.
\<close>

theorem stream_is_message:
  assumes "ml_Unmarshal lib payload = Some created" "rse_Type created = ''response.created''" "TrimSpace payload \<noteq> ''[DONE]''"
    and "handleAnthropicStreamingResponse lib js now model accepts (Frame payload # inputs) = (e, w)"
  shows "(e = StreamResult \<longleftrightarrow>
      (case find (stops lib) inputs of None \<Rightarrow> False | Some input \<Rightarrow> completes lib input)) \<and>
    (let seen = foldl clientStep (Some Fresh) (messagesOf (mr_Written w)) in
      seen \<noteq> None \<and>
      (if e = StreamResult then mr_Disconnected w \<or> seen = Some Finished else seen \<noteq> Some Finished) \<and>
      (mr_Disconnected w \<or> (e = TerminalError \<longleftrightarrow> set (mr_Written w) \<inter> {ErrorEvent, ErrorBody} \<noteq> {})) \<and>
      (e = FailoverError \<longrightarrow> mr_Disconnected w \<or> mr_Written w = []))"
proof -
  let ?w = "\<lparr>mr_State = initialState now model, mr_Pending = [], mr_Started = False, mr_Written = [],
      mr_Accepts = accepts, mr_Disconnected = False\<rparr>"
  obtain os st where c: "ResponsesEventToAnthropicEvents js (initialState now model) created = (os, st)"
    "streamRel st (foldl clientStep (Some Fresh) os)"
    using created_starts [OF assms(2), of js now model]
    by (cases "ResponsesEventToAnthropicEvents js (initialState now model) created") auto
  then have "ResponsesEventToAnthropicEvents js (mr_State ?w) created = (os, st)" by simp
  from line_converted [OF assms(1) created_goes_on [OF assms(2)] initial_owed this]
  obtain w1 where w1: "processDataLine lib js payload ?w = (None, w1)" "owed w1 os" "mr_State w1 = st"
    by (metis append_Nil)
  then have "streamLoop lib js w1 inputs = (e, w)"
    using assms(3,4) by (simp add: handleAnthropicStreamingResponse_def)
  moreover have "onTrack w1" using w1(2,3) c(2) by (auto simp: onTrack_def)
  ultimately have "wellEnded e w" "e = StreamResult \<longleftrightarrow>
      (case find (stops lib) inputs of None \<Rightarrow> False | Some input \<Rightarrow> completes lib input)"
    using loop_wellEnded [of w1 lib js inputs e w] loop_result [of lib js w1 inputs] by simp_all
  then show ?thesis unfolding wellEnded_def seen_def Let_def by blast
qed

text \<open>Events of a concrete stream: the payload is the type of the event.\<close>

definition upstream :: "string \<Rightarrow> ResponsesStreamEvent" where
  "upstream t = \<lparr>rse_Type = t, rse_Response = None, rse_Usage = None, rse_Item = None, rse_OutputIndex = 0,
     rse_Delta = [], rse_Arguments = []\<rparr>"

definition typeLib :: messagesLib where
  "typeLib = \<lparr>ml_Unmarshal = (\<lambda>s. Some ((upstream s)\<lparr>rse_Delta := ''hi''\<rparr>)), ml_CyberPolicy = (\<lambda>_. False),
     ml_ShouldFailover = (\<lambda>_. False), ml_ContextWindow = (\<lambda>_. False)\<rparr>"

theorem stream_is_message_witness:
  "\<exists>w. handleAnthropicStreamingResponse typeLib
      \<lparr>js_Valid = \<lambda>_. True, js_Unmarshal = \<lambda>_. None, js_Marshal = \<lambda>_. None, js_MarshalQuery = id\<rparr> 0 ''m'' None
      (map Frame [''response.created'', ''response.output_text.delta'', ''response.completed'']) = (StreamResult, w) \<and>
    foldl clientStep (Some Fresh) (messagesOf (mr_Written w)) = Some Finished"
proof -
  let ?js = "\<lparr>js_Valid = \<lambda>_. True, js_Unmarshal = \<lambda>_. None, js_Marshal = \<lambda>_. None, js_MarshalQuery = id\<rparr>"
  let ?rest = "map Frame [''response.output_text.delta'', ''response.completed'']"
  obtain e w where r: "handleAnthropicStreamingResponse typeLib ?js 0 ''m'' None (Frame ''response.created'' # ?rest) = (e, w)"
    by fastforce
  then have "\<not> mr_Disconnected w" using handle_connected by blast
  have stop: "find (stops typeLib) ?rest = Some (Frame ''response.completed'')"
    "completes typeLib (Frame ''response.completed'')"
    by code_simp+
  have "TrimSpace ''response.created'' \<noteq> ''[DONE]''" by code_simp
  then have "e = StreamResult \<longleftrightarrow> (case find (stops typeLib) ?rest of None \<Rightarrow> False | Some input \<Rightarrow> completes typeLib input)"
    "(if e = StreamResult then mr_Disconnected w \<or> foldl clientStep (Some Fresh) (messagesOf (mr_Written w)) = Some Finished
      else foldl clientStep (Some Fresh) (messagesOf (mr_Written w)) \<noteq> Some Finished)"
    using stream_is_message [OF _ _ _ r, of "(upstream ''response.created'')\<lparr>rse_Delta := ''hi''\<rparr>"]
    unfolding Let_def by (simp_all add: typeLib_def upstream_def del: foldl.simps list.map)
  then show ?thesis using r stop \<open>\<not> mr_Disconnected w\<close> by simp
qed

end
