(* ===== verification/StreamCollect.thy ===== *)
theory StreamCollect
  imports StreamProtocol
begin

text \<open>
  The two conversions of \<^verbatim>\<open>responses_to_anthropic.go\<close> agree: a client that collects the deltas of the
  converted stream of a response ends up with the content blocks, the stop reason and the usage of
  the converted whole response. The same collection shows where a stream with parallel tool
  calls loses arguments.
\<close>

section \<open>Collecting a stream\<close>

text \<open>A block with the JSON text received for its input so far.\<close>

type_synonym collected = "AnthropicContentBlock \<times> string"

definition applyDelta :: "AnthropicDelta \<Rightarrow> collected \<Rightarrow> collected" where
  "applyDelta d c =
     (case c of (b, j) \<Rightarrow>
        if ad_Type d = ''text_delta'' then (b\<lparr>cb_Text := cb_Text b @ ad_Text d\<rparr>, j)
        else if ad_Type d = ''thinking_delta'' then (b\<lparr>cb_Thinking := cb_Thinking b @ ad_Thinking d\<rparr>, j)
        else if ad_Type d = ''signature_delta'' then (b\<lparr>cb_Signature := ad_Signature d\<rparr>, j)
        else if ad_Type d = ''input_json_delta'' then (b, j @ ad_PartialJSON d)
        else (b, j))"

definition collectStep :: "collected list \<Rightarrow> AnthropicStreamEvent \<Rightarrow> collected list" where
  "collectStep cs e =
     (if ev_Type e = ''content_block_start''
      then (case ev_ContentBlock e of Some b \<Rightarrow> cs @ [(b, [])] | None \<Rightarrow> cs)
      else if ev_Type e = ''content_block_delta''
      then (case (ev_Index e, ev_Delta e) of
              (Some i, Some d) \<Rightarrow>
                if 0 \<le> i \<and> nat i < length cs then cs[nat i := applyDelta d (cs ! nat i)] else cs
            | _ \<Rightarrow> cs)
      else cs)"

definition finishBlock :: "collected \<Rightarrow> AnthropicContentBlock" where
  "finishBlock c = (case c of (b, j) \<Rightarrow> if j = [] then b else b\<lparr>cb_Input := j\<rparr>)"

definition collect :: "AnthropicStreamEvent list \<Rightarrow> AnthropicContentBlock list" where
  "collect es = map finishBlock (foldl collectStep [] es)"

lemma collectStep_simps [step_simps]:
  "collectStep cs (content_block_start i b) = cs @ [(b, [])]"
  "collectStep cs (content_block_stop i) = cs"
  "collectStep cs (message_delta r u) = cs"
  "collectStep cs message_stop = cs"
  "collectStep (cs @ [c]) (content_block_delta (int (length cs)) d) = cs @ [applyDelta d c]"
  by (simp_all add: collectStep_def emitted_events)

lemma applyDelta_simps [step_simps]:
  "applyDelta (text_delta t) (b, j) = (b\<lparr>cb_Text := cb_Text b @ t\<rparr>, j)"
  "applyDelta (thinking_delta t) (b, j) = (b\<lparr>cb_Thinking := cb_Thinking b @ t\<rparr>, j)"
  "applyDelta (signature_delta t) (b, j) = (b\<lparr>cb_Signature := t\<rparr>, j)"
  "applyDelta (input_json_delta t) (b, j) = (b, j @ t)"
  by (simp_all add: applyDelta_def text_delta_def thinking_delta_def signature_delta_def input_json_delta_def zeroDelta_def)





section \<open>The stream of a response\<close>

definition addedEvt :: "int \<Rightarrow> ResponsesOutput \<Rightarrow> ResponsesStreamEvent" where
  "addedEvt i item = (upstream ''response.output_item.added'')\<lparr>rse_OutputIndex := i, rse_Item := Some item\<rparr>"

definition doneEvt :: "int \<Rightarrow> ResponsesOutput \<Rightarrow> ResponsesStreamEvent" where
  "doneEvt i item = (upstream ''response.output_item.done'')\<lparr>rse_OutputIndex := i, rse_Item := Some item\<rparr>"

definition textEvt :: "string \<Rightarrow> ResponsesStreamEvent" where
  "textEvt d = (upstream ''response.output_text.delta'')\<lparr>rse_Delta := d\<rparr>"

definition textDoneEvt :: ResponsesStreamEvent where
  "textDoneEvt = upstream ''response.output_text.done''"

definition argsEvt :: "int \<Rightarrow> string \<Rightarrow> ResponsesStreamEvent" where
  "argsEvt i d = (upstream ''response.function_call_arguments.delta'')\<lparr>rse_OutputIndex := i, rse_Delta := d\<rparr>"

definition argsDoneEvt :: "int \<Rightarrow> string \<Rightarrow> ResponsesStreamEvent" where
  "argsDoneEvt i a = (upstream ''response.function_call_arguments.done'')\<lparr>rse_OutputIndex := i, rse_Arguments := a\<rparr>"

definition reasoningEvt :: "int \<Rightarrow> string \<Rightarrow> ResponsesStreamEvent" where
  "reasoningEvt i d = (upstream ''response.reasoning_summary_text.delta'')\<lparr>rse_OutputIndex := i, rse_Delta := d\<rparr>"

definition reasoningDoneEvt :: "int \<Rightarrow> ResponsesStreamEvent" where
  "reasoningDoneEvt i = (upstream ''response.reasoning_summary_text.done'')\<lparr>rse_OutputIndex := i\<rparr>"

lemmas upstream_events = addedEvt_def doneEvt_def textEvt_def textDoneEvt_def argsEvt_def argsDoneEvt_def
  reasoningEvt_def reasoningDoneEvt_def upstream_def




lemma conv_simps:
  "ResponsesEventToAnthropicEvents js st (addedEvt i item) = resToAnthHandleOutputItemAdded (addedEvt i item) st"
  "ResponsesEventToAnthropicEvents js st (doneEvt i item) = resToAnthHandleOutputItemDone js (doneEvt i item) st"
  "ResponsesEventToAnthropicEvents js st (textEvt d) = resToAnthHandleTextDelta (textEvt d) st"
  "ResponsesEventToAnthropicEvents js st textDoneEvt = resToAnthHandleBlockDone st"
  "ResponsesEventToAnthropicEvents js st (argsEvt i d) = resToAnthHandleFuncArgsDelta js (argsEvt i d) st"
  "ResponsesEventToAnthropicEvents js st (argsDoneEvt i a) = resToAnthHandleFuncArgsDone js (argsDoneEvt i a) st"
  "ResponsesEventToAnthropicEvents js st (reasoningEvt i d) = resToAnthHandleReasoningDelta (reasoningEvt i d) st"
  "ResponsesEventToAnthropicEvents js st (reasoningDoneEvt i) = ([], st)"
  by (simp_all add: ResponsesEventToAnthropicEvents_def upstream_events)

lemma upstream_goes_on:
  "\<not> endsLoop (addedEvt i item)" "\<not> endsLoop (doneEvt i item)" "\<not> endsLoop (textEvt d)" "\<not> endsLoop textDoneEvt"
  "\<not> endsLoop (argsEvt i d)" "\<not> endsLoop (argsDoneEvt i a)" "\<not> endsLoop (reasoningEvt i d)" "\<not> endsLoop (reasoningDoneEvt i)"
proof -
  have "\<not> endsLoop evt" if "rse_Type evt \<in> {''response.output_item.added'', ''response.output_item.done'',
      ''response.output_text.delta'', ''response.output_text.done'', ''response.function_call_arguments.delta'',
      ''response.function_call_arguments.done'', ''response.reasoning_summary_text.delta'',
      ''response.reasoning_summary_text.done''}" for evt
  proof -
    have "TrimSpace (rse_Type evt) = rse_Type evt \<and> \<not> isOpenAICompatResponsesTerminalEvent (rse_Type evt)"
      using that by (elim insertE emptyE) (simp_all only:, code_simp+)
    then show ?thesis using that by (auto simp: endsLoop_def)
  qed
  then show "\<not> endsLoop (addedEvt i item)" "\<not> endsLoop (doneEvt i item)" "\<not> endsLoop (textEvt d)" "\<not> endsLoop textDoneEvt"
    "\<not> endsLoop (argsEvt i d)" "\<not> endsLoop (argsDoneEvt i a)" "\<not> endsLoop (reasoningEvt i d)" "\<not> endsLoop (reasoningDoneEvt i)"
    by (simp_all add: upstream_events)
qed

lemma evt_fields [simp]:
  "rse_Item (addedEvt i item) = Some item" "rse_OutputIndex (addedEvt i item) = i"
  "rse_Item (doneEvt i item) = Some item" "rse_Delta (textEvt d) = d"
  "rse_OutputIndex (argsEvt i d) = i" "rse_Delta (argsEvt i d) = d"
  "rse_OutputIndex (argsDoneEvt i d) = i" "rse_Arguments (argsDoneEvt i d) = d"
  "rse_OutputIndex (reasoningEvt i d) = i" "rse_Delta (reasoningEvt i d) = d"
  by (simp_all add: upstream_events)

section \<open>Runs of deltas\<close>







section \<open>One item\<close>

text \<open>Between two items no block is open and the client has the blocks the converter has counted.\<close>

definition settled :: "streamState \<Rightarrow> collected list \<Rightarrow> bool" where
  "settled st cs \<longleftrightarrow>
     \<not> st_ContentBlockOpen st \<and> st_ContentBlockIndex st = int (length cs) \<and>
     st_MessageStartSent st \<and> \<not> st_MessageStopSent st \<and> stateUsage st = zeroUsage \<and>
     (st_HasToolCall st \<longleftrightarrow> (\<exists>c\<in>set cs. cb_Type (fst c) = ''tool_use''))"





lemma closed_quiet: "\<not> st_ContentBlockOpen st \<Longrightarrow> closeCurrentBlock st = ([], st)"
  by (simp add: closeCurrentBlock_def)









section \<open>The whole stream\<close>

lemma created_settled:
  assumes "rse_Type created = ''response.created''"
  obtains e st where "ResponsesEventToAnthropicEvents js (initialState now model) created = ([e], st)"
    "collectStep [] e = []" "settled st []"
proof -
  have "\<exists>e st. resToAnthHandleCreated created (initialState now model) = ([e], st) \<and>
      collectStep [] e = [] \<and> settled st []"
    by (cases "rse_Response created")
      (auto simp: resToAnthHandleCreated_def initialState_def collectStep_def NewResponsesEventToAnthropicState_def
        zeroEvent_def settled_def stateUsage_def zeroUsage_def)
  then show ?thesis using that assms by (auto simp: ResponsesEventToAnthropicEvents_def)
qed

lemma lost_run:
  assumes "settled st []"
    "\<forall>item\<in>{item0, item1}. ro_Type item = ''function_call'' \<and> ro_Name item \<noteq> ''Read'' \<and> ro_Arguments item \<noteq> []"
  defines "block \<equiv> \<lambda>item. zeroBlock\<lparr>cb_Type := ''tool_use'', cb_ID := fromResponsesCallID (ro_CallID item),
      cb_Name := ro_Name item, cb_Input := ''{}''\<rparr>"
  shows "\<exists>os st1. transduce (ResponsesEventToAnthropicEvents js) st
      [addedEvt 0 item0, addedEvt 1 item1, argsDoneEvt 0 (ro_Arguments item0),
       argsDoneEvt 1 (ro_Arguments item1), doneEvt 0 item0, doneEvt 1 item1] = (os, st1) \<and>
    foldl collectStep [] os = [(block item0, []), (block item1, ro_Arguments item1)] \<and>
    settled st1 (foldl collectStep [] os)"
proof -
  have open0: "\<not> st_ContentBlockOpen st" "st_ContentBlockIndex st = 0" using assms(1) by (auto simp: settled_def)
  let ?s1 = "st\<lparr>st_OutputIndexToBlockIdx := (st_OutputIndexToBlockIdx st)(0 \<mapsto> 0), st_ContentBlockOpen := True,
      st_CurrentBlockType := ''tool_use'', st_CurrentToolName := ro_Name item0, st_CurrentToolArgs := [],
      st_CurrentToolHadDelta := False, st_HasToolCall := True\<rparr>"
  have 1: "ResponsesEventToAnthropicEvents js st (addedEvt 0 item0) = ([content_block_start 0 (block item0)], ?s1)"
    using assms(2) open0 by (simp add: conv_simps resToAnthHandleOutputItemAdded_def closed_quiet block_def)
  let ?s2 = "?s1\<lparr>st_ContentBlockIndex := 1, st_OutputIndexToBlockIdx := (st_OutputIndexToBlockIdx ?s1)(1 \<mapsto> 1),
      st_CurrentToolName := ro_Name item1\<rparr>"
  have 2: "ResponsesEventToAnthropicEvents js ?s1 (addedEvt 1 item1) =
      ([content_block_stop 0, content_block_start 1 (block item1)], ?s2)"
    using assms(2) open0 by (simp add: conv_simps resToAnthHandleOutputItemAdded_def closeCurrentBlock_def block_def)
  have 3: "ResponsesEventToAnthropicEvents js ?s2 (argsDoneEvt 0 (ro_Arguments item0)) = ([], ?s2)"
    using assms(2) by (simp add: conv_simps resToAnthHandleFuncArgsDone_def)
  let ?s4 = "?s2\<lparr>st_ContentBlockOpen := False, st_ContentBlockIndex := 2, st_CurrentToolName := []\<rparr>"
  have 4: "ResponsesEventToAnthropicEvents js ?s2 (argsDoneEvt 1 (ro_Arguments item1)) =
      ([content_block_delta 1 (input_json_delta (ro_Arguments item1)), content_block_stop 1], ?s4)"
    using assms(2) by (simp add: conv_simps resToAnthHandleFuncArgsDone_def closeCurrentBlock_def)
  have 5: "ResponsesEventToAnthropicEvents js x (doneEvt i item) = ([], x)"
    if "\<not> st_ContentBlockOpen x" "item \<in> {item0, item1}" for x i item
  proof -
    have "ro_Type item = ''function_call''" using that(2) assms(2) by blast
    then show ?thesis using that(1) by (simp add: conv_simps resToAnthHandleOutputItemDone_def)
  qed
  let ?os = "[content_block_start 0 (block item0), content_block_stop 0, content_block_start 1 (block item1),
      content_block_delta 1 (input_json_delta (ro_Arguments item1)), content_block_stop 1]"
  have "transduce (ResponsesEventToAnthropicEvents js) st
      [addedEvt 0 item0, addedEvt 1 item1, argsDoneEvt 0 (ro_Arguments item0),
       argsDoneEvt 1 (ro_Arguments item1), doneEvt 0 item0, doneEvt 1 item1] = (?os, ?s4)"
    unfolding transduce.simps 1 prod.case 2 3 4 by (simp add: 5)
  moreover have "foldl collectStep [] ?os = [(block item0, []), (block item1, ro_Arguments item1)]"
    using collectStep_simps(5) [of "[(block item0, [])]"] by (simp add: step_simps)
  ultimately show ?thesis using assms(1) by (simp add: settled_def stateUsage_def block_def)
qed

lemma stateUsage_setUsage:
  "stateUsage st = zeroUsage \<Longrightarrow> stateUsage (setUsage u st) = anthropicUsageFromResponsesUsage u"
  by (auto simp: setUsage_def stateUsage_def anthropicUsageFromResponsesUsage_def Let_def split: option.splits)

lemma setUsage_keeps [simp]: "st_HasToolCall (setUsage u st) = st_HasToolCall st"
  by (simp add: setUsage_def Let_def split: option.splits)

lemma terminal_settled:
  assumes "settled st cs" "terminal fin" "rse_Response fin = Some resp" "rse_Usage fin = None"
  obtains st' where "st_MessageStopSent st'" "ResponsesEventToAnthropicEvents js st fin =
    ([message_delta (responsesStatusToAnthropicStopReason (rr_Status resp) (rr_IncompleteDetails resp) (map finishBlock cs))
        (anthropicUsageFromResponsesUsage (rr_Usage resp)), message_stop], st')"
proof -
  have type: "cb_Type (finishBlock c) = cb_Type (fst c)" for c by (cases c) (simp add: finishBlock_def)
  have tool: "st_HasToolCall st \<longleftrightarrow> containsAnthropicToolUseBlock (map finishBlock cs)"
    using assms(1) by (auto simp: settled_def containsAnthropicToolUseBlock_def list_ex_iff type)
  have "ResponsesEventToAnthropicEvents js st fin = resToAnthHandleCompleted fin st"
    using assms(2) by (auto simp: ResponsesEventToAnthropicEvents_def terminal_def)
  moreover have "setUsage None st = st" by (simp add: setUsage_def)
  ultimately show ?thesis
    using assms tool stateUsage_setUsage [of st "rr_Usage resp"]
    by (intro that [of "(setUsage (rr_Usage resp) st)\<lparr>st_MessageStopSent := True\<rparr>"])
      (auto simp: resToAnthHandleCompleted_def settled_def closed_quiet responsesStatusToAnthropicStopReason_def
        split: option.splits)
qed

lemma whole_response:
  fixes js resp
  defines "blocks \<equiv> concat (map (outputBlocks js) (rr_Output resp))"
  shows "ar_Content (ResponsesToAnthropic js resp model) =
      (if blocks = [] then [zeroBlock\<lparr>cb_Type := ''text''\<rparr>] else blocks)"
    and "the (ar_StopReason (ResponsesToAnthropic js resp model)) =
      responsesStatusToAnthropicStopReason (rr_Status resp) (rr_IncompleteDetails resp) blocks"
    and "ar_Usage (ResponsesToAnthropic js resp model) = anthropicUsageFromResponsesUsage (rr_Usage resp)"
proof -
  have "containsAnthropicToolUseBlock [zeroBlock\<lparr>cb_Type := ''text''\<rparr>] = containsAnthropicToolUseBlock []"
    by (simp add: containsAnthropicToolUseBlock_def)
  then show "the (ar_StopReason (ResponsesToAnthropic js resp model)) =
      responsesStatusToAnthropicStopReason (rr_Status resp) (rr_IncompleteDetails resp) blocks"
    unfolding blocks_def [symmetric] ResponsesToAnthropic_def
    by (cases "blocks = []") (simp_all add: Let_def responsesStatusToAnthropicStopReason_def)
qed (simp_all only: ResponsesToAnthropic_def blocks_def Let_def AnthropicResponse.select_convs)



section \<open>Properties\<close>


definition exampleJs :: jsonLib where
  "exampleJs = \<lparr>js_Valid = \<lambda>_. True, js_Unmarshal = \<lambda>_. None, js_Marshal = \<lambda>_. None, js_MarshalQuery = id\<rparr>"


definition exampleCall :: "string \<Rightarrow> ResponsesOutput" where
  "exampleCall args = \<lparr>ro_Type = ''function_call'', ro_ID = [], ro_Content = [], ro_Status = [],
     ro_EncryptedContent = [], ro_Summary = [], ro_CallID = ''call_1'', ro_Name = ''Write'', ro_Arguments = args,
     ro_Action = None\<rparr>"

definition exampleResponse :: "ResponsesOutput list \<Rightarrow> ResponsesResponse" where
  "exampleResponse items = \<lparr>rr_ID = ''r'', rr_Model = ''m'', rr_Status = ''completed'', rr_Output = items,
     rr_Usage = None, rr_IncompleteDetails = None\<rparr>"






text \<open>
  (C38) Arguments of parallel tool calls can be lost. When two calls are announced before their
  arguments arrive, and the arguments arrive at once with the events that end them, nothing is
  emitted for the arguments of the first call: the client collects the input \<^verbatim>\<open>{}\<close> for it, where
  the converted whole response has the arguments. The comment in the code takes the arguments
  for already streamed, which they are not. Unless the stream ends with \<^verbatim>\<open>response.failed\<close>, the gateway
  writes just these events and returns a result.
\<close>

theorem parallel_arguments_lost:
  assumes "rse_Type created = ''response.created''" "terminal fin" "rse_Response fin = Some resp" "rse_Usage fin = None"
    "rr_Output resp = [item0, item1]"
    "\<forall>item\<in>{item0, item1}. ro_Type item = ''function_call'' \<and> ro_Name item \<noteq> ''Read'' \<and> ro_Arguments item \<noteq> []"
  shows "let evts = [created, addedEvt 0 item0, addedEvt 1 item1, argsDoneEvt 0 (ro_Arguments item0),
        argsDoneEvt 1 (ro_Arguments item1), doneEvt 0 item0, doneEvt 1 item1, fin];
      events = fst (transduce (ResponsesEventToAnthropicEvents js) (initialState now model) evts)
    in map cb_Input (collect events) = [''{}'', ro_Arguments item1] \<and>
      map cb_Input (ar_Content (ResponsesToAnthropic js resp model)) = [ro_Arguments item0, ro_Arguments item1] \<and>
      (list_all2 (carries lib) payloads evts \<and> rse_Type fin \<noteq> ''response.failed'' \<longrightarrow>
       (\<exists>w. handleAnthropicStreamingResponse lib js now model None (map Frame payloads) = (StreamResult, w) \<and>
         messagesOf (mr_Written w) = events))"
proof -
  obtain e st where c: "ResponsesEventToAnthropicEvents js (initialState now model) created = ([e], st)"
    "collectStep [] e = []" "settled st []"
    using created_settled [OF assms(1)] by metis
  let ?evts = "[addedEvt 0 item0, addedEvt 1 item1, argsDoneEvt 0 (ro_Arguments item0),
       argsDoneEvt 1 (ro_Arguments item1), doneEvt 0 item0, doneEvt 1 item1]"
  let ?block = "\<lambda>item. zeroBlock\<lparr>cb_Type := ''tool_use'', cb_ID := fromResponsesCallID (ro_CallID item),
      cb_Name := ro_Name item, cb_Input := ''{}''\<rparr>"
  obtain os st1 where 1: "transduce (ResponsesEventToAnthropicEvents js) st ?evts = (os, st1)"
    "foldl collectStep [] os = [(?block item0, []), (?block item1, ro_Arguments item1)]" "settled st1 (foldl collectStep [] os)"
    using lost_run [OF c(3) assms(6), of js] by blast
  obtain e1 e2 st2 where 2: "st_MessageStopSent st2"
    "ResponsesEventToAnthropicEvents js st1 fin = ([message_delta e1 e2, message_stop], st2)"
    using terminal_settled [OF 1(3) assms(2-4)] by metis
  let ?events = "e # os @ [message_delta e1 e2, message_stop]"
  have start: "transduce (ResponsesEventToAnthropicEvents js) (initialState now model) (created # ?evts) = (e # os, st1)"
    unfolding transduce.simps(2) [of _ _ created] c(1) prod.case 1(1) by simp
  have "fst (transduce (ResponsesEventToAnthropicEvents js) (initialState now model) ((created # ?evts) @ [fin])) = ?events"
    unfolding transduce_append start using 2 by simp
  then have all: "fst (transduce (ResponsesEventToAnthropicEvents js) (initialState now model)
      [created, addedEvt 0 item0, addedEvt 1 item1, argsDoneEvt 0 (ro_Arguments item0),
       argsDoneEvt 1 (ro_Arguments item1), doneEvt 0 item0, doneEvt 1 item1, fin]) = ?events"
    by (simp only: append_Cons append_Nil)
  have lost: "map cb_Input (collect ?events) = [''{}'', ro_Arguments item1]"
    using c(2) 1(2) assms(6) by (simp add: collect_def finishBlock_def step_simps)
  have whole: "map cb_Input (ar_Content (ResponsesToAnthropic js resp model)) = [ro_Arguments item0, ro_Arguments item1]"
    using assms(5,6) by (simp add: whole_response outputBlocks_def sanitizeAnthropicToolUseInput_def)
  have "list_all (\<lambda>evt. \<not> endsLoop evt) (created # ?evts)"
    using created_goes_on [OF assms(1)] by (simp add: upstream_goes_on)
  note gateway = whole_stream [OF _ this assms(2) _ start 2(2) _ 2(1), of lib payloads, simplified]
  show ?thesis unfolding Let_def all using lost whole gateway by simp
qed

theorem parallel_arguments_lost_witness:
  "map cb_Input (collect (fst (transduce (ResponsesEventToAnthropicEvents exampleJs) (initialState 0 [])
     [upstream ''response.created'', addedEvt 0 (exampleCall ''[1]''), addedEvt 1 (exampleCall ''[2]''),
      argsDoneEvt 0 (ro_Arguments (exampleCall ''[1]'')), argsDoneEvt 1 (ro_Arguments (exampleCall ''[2]'')),
      doneEvt 0 (exampleCall ''[1]''), doneEvt 1 (exampleCall ''[2]''),
      (upstream ''response.completed'')\<lparr>rse_Response :=
         Some (exampleResponse [exampleCall ''[1]'', exampleCall ''[2]''])\<rparr>]))) = [''{}'', ''[2]'']"
  using parallel_arguments_lost [of "upstream ''response.created''"
      "(upstream ''response.completed'')\<lparr>rse_Response := Some (exampleResponse [exampleCall ''[1]'', exampleCall ''[2]''])\<rparr>"
      "exampleResponse [exampleCall ''[1]'', exampleCall ''[2]'']" "exampleCall ''[1]''" "exampleCall ''[2]''" exampleJs 0 "[]"]
  unfolding Let_def by (simp add: upstream_def terminal_def exampleResponse_def exampleCall_def del: transduce.simps)

end
