(* ===== verification/Programs.thy ===== *)
theory Programs
  imports Transitions
begin

text \<open>
  Programs whose statements run against a shared store while other programs run theirs. A
  program is a result or a next statement; a statement gets what the outside world answers (an
  \<open>'e\<close>) and the store, changes the store in one atomic step and leaves the rest of the program.
  Service code that talks to the database is written as such programs, one statement per query
  or transaction, so that one definition can be run alone, be interleaved with others, be
  abandoned between any two statements and meet a database that fails at any of them.

  The second half is a small rely-guarantee logic for such programs: a program is \<^emph>\<open>safe\<close> when all its
  statements keep an invariant of the store and change the store only along a preorder, whatever the
  other programs do along the same preorder in between.
\<close>

section \<open>Programs\<close>

datatype ('e, 's, 'a) prog =
    Return 'a
  | Stmt "'e \<Rightarrow> 's \<Rightarrow> ('e, 's, 'a) prog \<times> 's"

lemma prog_induct [case_names Return Stmt, induct type: prog]:
  assumes "\<And>x. P (Return x)" "\<And>f. (\<And>e s. P (fst (f e s))) \<Longrightarrow> P (Stmt f)"
  shows "P p"
proof (induction p rule: prog.induct)
  case (Stmt f)
  have "P (fst (f e s))" for e s
    by (rule Stmt [of "f e" "f e s"]) (auto simp: fsts.simps prod_eq_iff intro: prod.collapse [symmetric])
  then show ?case by (rule assms(2))
qed (rule assms(1))

primrec andThen :: "('e, 's, 'a) prog \<Rightarrow> ('a \<Rightarrow> ('e, 's, 'b) prog) \<Rightarrow> ('e, 's, 'b) prog" where
  "andThen (Return x) k = k x"
| "andThen (Stmt f) k = Stmt (\<lambda>e s. map_prod (\<lambda>p. andThen p k) id (f e s))"

lemma andThen_Return [simp]: "andThen p Return = p"
  by (induction p) (auto simp: fun_eq_iff prod_eq_iff)

lemma andThen_assoc: "andThen (andThen p k) l = andThen p (\<lambda>x. andThen (k x) l)"
  by (induction p) (auto simp: fun_eq_iff prod_eq_iff)

text \<open>\<^verbatim>\<open>if err != nil { ... }\<close> after a call, and a call whose result is dropped.\<close>

definition handle ::
  "('e, 's, 'x + 'a) prog \<Rightarrow> ('x \<Rightarrow> ('e, 's, 'b) prog) \<Rightarrow> ('a \<Rightarrow> ('e, 's, 'b) prog) \<Rightarrow> ('e, 's, 'b) prog" where
  "handle p h k = andThen p (\<lambda>r. case r of Inl x \<Rightarrow> h x | Inr v \<Rightarrow> k v)"

definition followedBy :: "('e, 's, 'a) prog \<Rightarrow> ('e, 's, 'b) prog \<Rightarrow> ('e, 's, 'b) prog" where
  "followedBy p q = andThen p (\<lambda>_. q)"

definition ask :: "('e \<Rightarrow> 'a) \<Rightarrow> ('e, 's, 'a) prog" where
  "ask g = Stmt (\<lambda>e s. (Return (g e), s))"

text \<open>A program run to its result in one go, the world answering alike all along.\<close>

primrec exec :: "'e \<Rightarrow> ('e, 's, 'a) prog \<Rightarrow> 's \<Rightarrow> 'a \<times> 's" where
  "exec e (Return x) = (\<lambda>s. (x, s))"
| "exec e (Stmt f) = (\<lambda>s. case map_prod (exec e) id (f e s) of (g, t) \<Rightarrow> g t)"

lemma exec_Stmt: "exec e (Stmt f) s = exec e (fst (f e s)) (snd (f e s))"
  by (cases "f e s") simp

lemma exec_andThen: "exec e (andThen p k) s = (case exec e p s of (x, t) \<Rightarrow> exec e (k x) t)"
proof (induction p arbitrary: s)
  case (Stmt f)
  then show ?case by (simp add: exec_Stmt del: exec.simps)
qed simp

lemma exec_simps [simp]:
  "exec e (handle p h k) s = (case exec e p s of (r, t) \<Rightarrow> case r of Inl x \<Rightarrow> exec e (h x) t | Inr v \<Rightarrow> exec e (k v) t)"
  "exec e (followedBy p' q) s = exec e q (snd (exec e p' s))"
  "exec e (ask g) s = (g e, s)"
  by (simp_all add: handle_def followedBy_def ask_def exec_andThen split_def split: sum.split)

section \<open>Databases that fail\<close>

text \<open>
  A statement works, is refused without an effect, or has its effect while the answer is lost:
  the caller sees an error either way. A transaction is one step; its inner errors roll it back.
\<close>

datatype fault = Works | Refused | Lost

record dbEnv =
  fault :: fault
  clock :: gotime

definition statement ::
  "'x \<Rightarrow> ('e dbEnv_scheme \<Rightarrow> 's \<Rightarrow> ('x + 'a) \<times> 's) \<Rightarrow> ('e dbEnv_scheme, 's, 'x + 'a) prog" where
  "statement broken g = Stmt (\<lambda>e s. case fault e of
       Works \<Rightarrow> map_prod Return id (g e s)
     | Refused \<Rightarrow> (Return (Inl broken), s)
     | Lost \<Rightarrow> (Return (Inl broken), snd (g e s)))"

definition transaction ::
  "'x \<Rightarrow> ('e dbEnv_scheme, 's, 'x + 'a) prog \<Rightarrow> ('e dbEnv_scheme, 's, 'x + 'a) prog" where
  "transaction broken p = statement broken (\<lambda>e s. case exec (e\<lparr>fault := Works\<rparr>) p s of
       (Inl x, _) \<Rightarrow> (Inl x, s)
     | (Inr v, t) \<Rightarrow> (Inr v, t))"

lemma exec_statement [simp]:
  "exec e (statement broken g) s = (case fault e of
       Works \<Rightarrow> g e s | Refused \<Rightarrow> (Inl broken, s) | Lost \<Rightarrow> (Inl broken, snd (g e s)))"
  by (simp add: statement_def split_def split: fault.split)

lemma exec_transaction [simp]:
  "fault e = Works \<Longrightarrow> exec e (transaction broken p) s =
     (case exec e p s of (Inl x, _) \<Rightarrow> (Inl x, s) | (Inr v, t) \<Rightarrow> (Inr v, t))"
  by (cases e) (simp add: transaction_def)

section \<open>Pools\<close>

text \<open>
  A pool holds the programs in flight. A program arrives, or one of those in flight takes a step. A
  program that never gets another turn stands for a process that was killed.
\<close>

datatype ('e, 's, 'a) turn = Arrive "('e, 's, 'a) prog" | Turn nat 'e

fun poolStep :: "('e, 's, 'a) prog list \<times> 's \<Rightarrow> ('e, 's, 'a) turn \<Rightarrow> ('e, 's, 'a) prog list \<times> 's" where
  "poolStep (ps, s) (Arrive p) = (ps @ [p], s)"
| "poolStep (ps, s) (Turn i e) =
     (if i < length ps then case ps ! i of Return _ \<Rightarrow> (ps, s) | Stmt f \<Rightarrow> (case f e s of (p, t) \<Rightarrow> (ps[i := p], t))
      else (ps, s))"

fun arrives :: "(('e, 's, 'a) prog \<Rightarrow> bool) \<Rightarrow> ('e, 's, 'a) turn \<Rightarrow> bool" where
  "arrives ok (Arrive p) = ok p"
| "arrives ok (Turn _ _) = True"

section \<open>Safe programs\<close>

text \<open>
  From store \<open>s\<close> the program keeps the invariant \<open>I\<close> and moves along \<open>R\<close>, and its result satisfies \<open>Q\<close>,
  when before each statement, and after the last one, the others may move the store along \<open>R\<close> too.
\<close>

primrec safe ::
  "('s \<Rightarrow> bool) \<Rightarrow> ('s \<Rightarrow> 's \<Rightarrow> bool) \<Rightarrow> ('a \<Rightarrow> 's \<Rightarrow> bool) \<Rightarrow> ('e, 's, 'a) prog \<Rightarrow> 's \<Rightarrow> bool" where
  "safe I R Q (Return x) = (\<lambda>s. \<forall>t. I t \<and> R s t \<longrightarrow> Q x t)"
| "safe I R Q (Stmt f) = (\<lambda>s. \<forall>t e. I t \<and> R s t \<longrightarrow>
     (case map_prod (safe I R Q) id (f e t) of (g, u) \<Rightarrow> I u \<and> R t u \<and> g u))"

lemma safe_Stmt:
  "safe I R Q (Stmt f) s \<longleftrightarrow> (\<forall>t e. I t \<and> R s t \<longrightarrow>
     I (snd (f e t)) \<and> R t (snd (f e t)) \<and> safe I R Q (fst (f e t)) (snd (f e t)))"
  by (auto simp: map_prod_def split_def)

declare safe.simps(2) [simp del] safe_Stmt [simp]

definition benign :: "('s \<Rightarrow> bool) \<Rightarrow> ('s \<Rightarrow> 's \<Rightarrow> bool) \<Rightarrow> ('e, 's, 'a) prog \<Rightarrow> bool" where
  "benign I R p \<longleftrightarrow> (\<forall>s. safe I R (\<lambda>_ _. True) p s)"

locale shared_store =
  fixes I :: "'s \<Rightarrow> bool"
    and R :: "'s \<Rightarrow> 's \<Rightarrow> bool"
  assumes R_refl: "R s s"
    and R_trans: "R s t \<Longrightarrow> R t u \<Longrightarrow> R s u"
begin

lemma safe_later: "safe I R Q p s \<Longrightarrow> R s t \<Longrightarrow> safe I R Q p t"
  by (cases p) (auto intro: R_trans)

lemma safe_future:
  assumes "\<And>t. I t \<Longrightarrow> R s t \<Longrightarrow> safe I R Q p t"
  shows "safe I R Q p s"
proof (cases p)
  case (Return x)
  with assms show ?thesis by (auto simp: R_refl)
next
  case (Stmt f)
  with assms show ?thesis by (auto simp: R_refl)
qed

lemma safe_andThen: "safe I R (\<lambda>x. safe I R Q (k x)) p s \<Longrightarrow> safe I R Q (andThen p k) s"
  by (induction p arbitrary: s) (auto intro: safe_future)

lemma safe_weaken:
  "safe I R Q p s \<Longrightarrow> (\<And>x t. I t \<Longrightarrow> Q x t \<Longrightarrow> Q' x t) \<Longrightarrow> safe I R Q' p s"
  by (induction p arbitrary: s) auto

lemma safe_statement:
  assumes "\<And>t e. I t \<Longrightarrow> R s t \<Longrightarrow> I (snd (g e t)) \<and> R t (snd (g e t))"
    and "\<And>t e u. I t \<Longrightarrow> R s t \<Longrightarrow> I u \<Longrightarrow> R (snd (g e t)) u \<Longrightarrow> Q (fst (g e t)) u"
    and "\<And>t. I t \<Longrightarrow> R s t \<Longrightarrow> Q (Inl broken) t"
  shows "safe I R Q (statement broken g) s"
proof -
  have "Q (Inl broken) u" if "I t" "R s t" "I u" "R t u" for t u
    using assms(3) [of u] that R_trans [of s t u] by blast
  moreover have "Q (Inl broken) u" if "I t" "R s t" "I u" "R (snd (g e t)) u" for t e u
    using assms(1) [of t e] assms(3) [of u] that R_trans by blast
  ultimately show ?thesis
    using assms(1,2) by (auto simp: statement_def R_refl split: fault.split)
qed

lemma safe_handle:
  "safe I R (\<lambda>r. safe I R Q (case r of Inl x \<Rightarrow> h x | Inr v \<Rightarrow> k v)) p s \<Longrightarrow> safe I R Q (handle p h k) s"
  unfolding handle_def by (rule safe_andThen)

lemma safe_followedBy: "safe I R (\<lambda>_. safe I R Q q) p s \<Longrightarrow> safe I R Q (followedBy p q) s"
  unfolding followedBy_def by (rule safe_andThen)

text \<open>The store in which the continuation starts lies ahead of the first one.\<close>

lemma safe_ahead: "safe I R Q p s \<Longrightarrow> R s0 s \<Longrightarrow> safe I R (\<lambda>x t. R s0 t \<and> Q x t) p s"
proof (induction p arbitrary: s)
  case (Stmt f)
  have "safe I R (\<lambda>x t. R s0 t \<and> Q x t) (fst (f e t)) (snd (f e t))" if "I t" "R s t" for t e
    using Stmt.prems that by (intro Stmt.IH) (auto intro: R_trans)
  with Stmt.prems(1) show ?case by simp
qed (auto intro: R_trans)

lemma safe_bind:
  assumes "safe I R Q p s" "\<And>x t. I t \<Longrightarrow> R s t \<Longrightarrow> Q x t \<Longrightarrow> safe I R Q' (k x) t"
  shows "safe I R Q' (andThen p k) s"
  by (intro safe_andThen safe_weaken [OF safe_ahead [OF assms(1) R_refl]]) (auto intro: assms(2))

lemma safe_handle_bind:
  assumes "safe I R Q p s"
    and "\<And>x t. I t \<Longrightarrow> R s t \<Longrightarrow> Q (Inl x) t \<Longrightarrow> safe I R Q' (h x) t"
    and "\<And>v t. I t \<Longrightarrow> R s t \<Longrightarrow> Q (Inr v) t \<Longrightarrow> safe I R Q' (k v) t"
  shows "safe I R Q' (handle p h k) s"
  unfolding handle_def using assms by (intro safe_bind [of Q]) (auto split: sum.split)

lemma safe_seq:
  assumes "safe I R Q p s" "\<And>t. I t \<Longrightarrow> R s t \<Longrightarrow> safe I R Q' q t"
  shows "safe I R Q' (followedBy p q) s"
  unfolding followedBy_def by (intro safe_bind [OF assms(1)] assms(2))

lemma safe_ask: "(\<And>e t. I t \<Longrightarrow> R s t \<Longrightarrow> Q (g e) t) \<Longrightarrow> safe I R Q (ask g) s"
  by (auto simp: ask_def R_refl intro: R_trans)

text \<open>Programs that are safe from every store need no assertions.\<close>

lemma benign_safe: "benign I R p \<Longrightarrow> safe I R (\<lambda>_ _. True) p s"
  by (simp add: benign_def)

lemma benign_Return [intro, simp]: "benign I R (Return x)"
  by (simp add: benign_def)

lemma benign_andThen:
  assumes "benign I R p" "\<And>x. benign I R (k x)"
  shows "benign I R (andThen p k)"
  unfolding benign_def
proof
  fix s
  have "safe I R (\<lambda>_ _. True) p s" using assms(1) by (rule benign_safe)
  then show "safe I R (\<lambda>_ _. True) (andThen p k) s"
    by (intro safe_andThen) (erule safe_weaken, simp add: benign_safe assms(2))
qed

lemma benign_handle [intro]:
  "benign I R p \<Longrightarrow> (\<And>x. benign I R (h x)) \<Longrightarrow> (\<And>v. benign I R (k v)) \<Longrightarrow> benign I R (handle p h k)"
  unfolding handle_def by (rule benign_andThen) (auto split: sum.split)

lemma benign_followedBy [intro]: "benign I R p \<Longrightarrow> benign I R q \<Longrightarrow> benign I R (followedBy p q)"
  unfolding followedBy_def by (rule benign_andThen)

lemma benign_ask [intro, simp]: "benign I R (ask g)"
  by (auto simp: benign_def ask_def R_refl)

lemma benign_statement:
  assumes "\<And>t e. I t \<Longrightarrow> I (snd (g e t)) \<and> R t (snd (g e t))"
  shows "benign I R (statement broken g)"
  unfolding benign_def using assms by (auto intro!: safe_statement)

lemma benign_read: "(\<And>t e. snd (g e t) = t) \<Longrightarrow> benign I R (statement broken g)"
  by (rule benign_statement) (simp add: R_refl)

lemma benign_if [intro]: "(b \<Longrightarrow> benign I R p) \<Longrightarrow> (\<not> b \<Longrightarrow> benign I R q) \<Longrightarrow> benign I R (if b then p else q)"
  by simp

lemma benign_option [intro]:
  "benign I R p \<Longrightarrow> (\<And>v. benign I R (k v)) \<Longrightarrow> benign I R (case r of None \<Rightarrow> p | Some v \<Rightarrow> k v)"
  by (simp split: option.split)

lemma benign_sum [intro]:
  "(\<And>x. benign I R (h x)) \<Longrightarrow> (\<And>v. benign I R (k v)) \<Longrightarrow> benign I R (case r of Inl x \<Rightarrow> h x | Inr v \<Rightarrow> k v)"
  by (simp split: sum.split)

lemma benign_Let [intro]: "benign I R (k v) \<Longrightarrow> benign I R (Let v k)"
  by simp

text \<open>Run in one go, a safe program does what it does in a pool where nobody interferes.\<close>

lemma safe_exec:
  assumes "safe I R Q p s" "I s"
  shows "I (snd (exec e p s)) \<and> R s (snd (exec e p s)) \<and> Q (fst (exec e p s)) (snd (exec e p s))"
  using assms
proof (induction p arbitrary: s)
  case (Stmt f)
  then have f: "I (snd (f e s))" "R s (snd (f e s))" "safe I R Q (fst (f e s)) (snd (f e s))"
    by (auto simp: R_refl)
  with Stmt.IH [of e s "snd (f e s)"] show ?case
    unfolding exec_Stmt by (blast intro: R_trans)
qed (auto simp: R_refl)

lemma benign_exec: "benign I R p \<Longrightarrow> I s \<Longrightarrow> I (snd (exec e p s)) \<and> R s (snd (exec e p s))"
  using safe_exec [of "\<lambda>_ _. True" p s e] by (simp add: benign_def)

lemma benign_transaction [intro]:
  assumes "benign I R p"
  shows "benign I R (transaction broken p)"
  unfolding transaction_def
proof (rule benign_statement)
  fix t e assume "I t"
  with benign_exec [OF assms, of t "e\<lparr>fault := Works\<rparr>"]
  show "I (snd (case exec (e\<lparr>fault := Works\<rparr>) p t of (Inl x, _) \<Rightarrow> (Inl x, t) | (Inr v, u) \<Rightarrow> (Inr v, u))) \<and>
    R t (snd (case exec (e\<lparr>fault := Works\<rparr>) p t of (Inl x, _) \<Rightarrow> (Inl x, t) | (Inr v, u) \<Rightarrow> (Inr v, u)))"
    by (auto simp: R_refl split: prod.split sum.split)
qed

lemma safe_transaction:
  assumes "\<And>t e v u. I t \<Longrightarrow> R s t \<Longrightarrow> fault e = Works \<Longrightarrow> exec e p t = (Inr v, u) \<Longrightarrow>
      I u \<and> R t u \<and> (\<forall>w. I w \<longrightarrow> R u w \<longrightarrow> Q (Inr v) w)"
    and "\<And>x t. I t \<Longrightarrow> R s t \<Longrightarrow> Q (Inl x) t"
  shows "safe I R Q (transaction broken p) s"
proof -
  define body where "body = (\<lambda>e s. case exec (e\<lparr>fault := Works\<rparr>) p s of (Inl x, _) \<Rightarrow> (Inl x, s) | (Inr v, t) \<Rightarrow> (Inr v, t))"
  have body: "I (snd (body e t)) \<and> R t (snd (body e t)) \<and> (\<forall>w. I w \<longrightarrow> R (snd (body e t)) w \<longrightarrow> Q (fst (body e t)) w)"
    if t: "I t" "R s t" for e t
  proof (cases "exec (e\<lparr>fault := Works\<rparr>) p t")
    case (Pair r u)
    show ?thesis
    proof (cases r)
      case (Inl x)
      have "Q (Inl x) w" if "I w" "R t w" for w using assms(2) [of w x] that t R_trans [of s t w] by blast
      with Pair Inl t show ?thesis by (simp add: body_def R_refl)
    next
      case (Inr v)
      with Pair t assms(1) [of t "e\<lparr>fault := Works\<rparr>" v u] show ?thesis by (simp add: body_def)
    qed
  qed
  show ?thesis
    unfolding transaction_def body_def [symmetric] using body by (intro safe_statement) (auto intro: assms(2))
qed

text \<open>A pool of safe programs keeps the invariant in every interleaving.\<close>

definition poolInv where
  "poolInv s0 c \<longleftrightarrow> I (snd c) \<and> R s0 (snd c) \<and> (\<forall>p \<in> set (fst c). safe I R (\<lambda>_ _. True) p (snd c))"

lemma poolStep_inv:
  assumes "poolInv s0 c" "arrives (benign I R) ev"
  shows "poolInv s0 (poolStep c ev)"
proof -
  obtain ps s where c: "c = (ps, s)" by (cases c)
  show ?thesis
  proof (cases ev)
    case (Arrive p)
    with assms c show ?thesis by (auto simp: poolInv_def benign_def)
  next
    case (Turn i e)
    show ?thesis
    proof (cases "i < length ps")
      case i: True
      show ?thesis
      proof (cases "ps ! i")
        case (Stmt f)
        obtain p t where f: "f e s = (p, t)" by (cases "f e s")
        have "Stmt f \<in> set ps" using nth_mem [OF i] Stmt by simp
        then have "safe I R (\<lambda>_ _. True) (Stmt f) s" using assms(1) c by (simp add: poolInv_def del: safe_Stmt)
        then have "\<forall>e. I (snd (f e s)) \<and> R s (snd (f e s)) \<and> safe I R (\<lambda>_ _. True) (fst (f e s)) (snd (f e s))"
          using assms(1) c R_refl by (simp add: poolInv_def)
        with f have p: "I t \<and> R s t \<and> safe I R (\<lambda>_ _. True) p t" by (metis fst_conv snd_conv)
        have "safe I R (\<lambda>_ _. True) q t" if "q \<in> set (ps[i := p])" for q
          using that p assms(1) c set_update_subset_insert [of ps i p] by (auto simp: poolInv_def intro: safe_later)
        with p f i Stmt Turn c assms(1) show ?thesis by (auto simp: poolInv_def intro: R_trans)
      qed (use Turn i c assms in simp)
    qed (use Turn c assms in simp)
  qed
qed

end

sublocale shared_store \<subseteq> pool: event_machine poolStep "poolInv s0" "arrives (benign I R)" for s0
  by unfold_locales (rule poolStep_inv)

context shared_store
begin

lemma pool_ahead:
  assumes "I s0" "list_all (arrives (benign I R)) (evs @ fs)"
  shows "R (snd (foldl poolStep ([], s0) evs)) (snd (foldl poolStep ([], s0) (evs @ fs)))"
proof -
  let ?c = "foldl poolStep ([], s0) evs"
  have "poolInv s0 ?c" using assms by (intro pool.react_run) (auto simp: poolInv_def R_refl)
  then have "poolInv (snd ?c) ?c" by (simp add: poolInv_def R_refl)
  then have "poolInv (snd ?c) (foldl poolStep ?c fs)" by (rule pool.react_run) (use assms(2) in simp)
  then show ?thesis by (simp add: poolInv_def)
qed

theorem pool_safe:
  assumes "I s0" "list_all (arrives (benign I R)) evs"
  shows "I (snd (foldl poolStep ([], s0) evs)) \<and> R s0 (snd (foldl poolStep ([], s0) evs))"
  using pool.react_run [of s0 "([], s0)" evs] assms by (simp add: poolInv_def R_refl)

end

end
