(* ===== verification/PaymentStore.thy ===== *)
theory PaymentStore
  imports Programs
begin

text \<open>
  The tables behind payments, redeem codes and subscriptions, what the world outside the database
  answers, and the single statements the services run: the \<^verbatim>\<open>ent\<close> queries on payment orders and
  their audit log, and the repository methods of
  \<^verbatim>\<open>backend/internal/repository/redeem_code_repo.go\<close>, \<^verbatim>\<open>user_repo.go\<close> and
  \<^verbatim>\<open>user_subscription_repo.go\<close> the services call.

  Amounts read from the database are exact rationals: the columns are decimals, and the rounding of
  \<^verbatim>\<open>float64\<close> arithmetic on them is not modelled. The amounts of an order have two decimals
  (\<^verbatim>\<open>decimal(20,2)\<close>), and PostgreSQL rounds what is written to them; balances have eight, enough for all sums
  of such amounts. The columns that nothing modelled reads back (the JSON
  detail of an audit entry, e-mail addresses and client data of an order, \<^verbatim>\<open>created_at\<close> of most tables)
  are left out. An error is kept as a value; the text stored in \<^verbatim>\<open>failed_reason\<close> is that of the error.
\<close>

section \<open>Errors\<close>

datatype payError =
    DbError
  | RowNotFound
  | ApiError string string
  | PlainError string
  | Because string payError

type_synonym 'a result = "payError + 'a"

section \<open>Rows\<close>

datatype OrderStatus =
    OrderStatusPending | OrderStatusPaid | OrderStatusRecharging | OrderStatusCompleted
  | OrderStatusExpired | OrderStatusCancelled | OrderStatusFailed | OrderStatusRefundRequested
  | OrderStatusRefunding | OrderStatusPartiallyRefunded | OrderStatusRefunded | OrderStatusRefundFailed

definition OrderTypeBalance :: string where "OrderTypeBalance = ''balance''"
definition OrderTypeSubscription :: string where "OrderTypeSubscription = ''subscription''"
definition OrderTypeShop :: string where "OrderTypeShop = ''shop''"

lemmas order_type_defs = OrderTypeBalance_def OrderTypeSubscription_def OrderTypeShop_def

record PaymentOrder =
  po_ID :: int
  po_UserID :: int
  po_Amount :: rat
  po_PayAmount :: rat
  po_RechargeCode :: string
  po_OutTradeNo :: string
  po_PaymentType :: string
  po_PaymentTradeNo :: string
  po_OrderType :: string
  po_SubscriptionGroupID :: "int option"
  po_SubscriptionDays :: "int option"
  po_ProviderInstanceID :: "string option"
  po_ProviderKey :: "string option"
  po_ProviderSnapshot :: "(string \<times> goval) list"
  po_Status :: OrderStatus
  po_RefundAmount :: rat
  po_RefundReason :: "string option"
  po_RefundAt :: "gotime option"
  po_ForceRefund :: bool
  po_RefundRequestedAt :: "gotime option"
  po_RefundRequestReason :: "string option"
  po_RefundRequestedBy :: "string option"
  po_ExpiresAt :: gotime
  po_PaidAt :: "gotime option"
  po_CompletedAt :: "gotime option"
  po_FailedAt :: "gotime option"
  po_FailedReason :: "payError option"
  po_UpdatedAt :: gotime

text \<open>Rounding half away from zero, as \<^verbatim>\<open>math.Round\<close> and PostgreSQL's \<^verbatim>\<open>numeric\<close> do.\<close>

definition goRound :: "rat \<Rightarrow> rat" where
  "goRound q = (if q < 0 then - of_int \<lfloor>- q + 1 / 2\<rfloor> else of_int \<lfloor>q + 1 / 2\<rfloor>)"

definition amountColumn :: "rat \<Rightarrow> rat" where
  "amountColumn q = goRound (q * 100) / 100"

record RedeemCode =
  rc_ID :: int
  rc_Code :: string
  rc_Type :: string
  rc_Value :: rat
  rc_Status :: string
  rc_UsedBy :: "int option"
  rc_UsedAt :: "gotime option"
  rc_ExpiresAt :: "gotime option"
  rc_GroupID :: "int option"
  rc_ValidityDays :: int

definition StatusUnused :: string where "StatusUnused = ''unused''"
definition StatusUsed :: string where "StatusUsed = ''used''"
definition StatusExpired :: string where "StatusExpired = ''expired''"
definition StatusActive :: string where "StatusActive = ''active''"

lemmas row_status_defs = StatusUnused_def StatusUsed_def StatusExpired_def StatusActive_def

record User =
  u_ID :: int
  u_Balance :: rat
  u_TotalRecharged :: rat
  u_Points :: rat
  u_Concurrency :: int
  u_Role :: string

record LedgerEntry =
  le_UserID :: int
  le_Direction :: string
  le_Amount :: rat
  le_Reason :: string
  le_RefType :: string
  le_RefID :: "int option"
  le_BalanceAfter :: rat
  le_Code :: string

record AuditEntry =
  ae_OrderID :: int
  ae_Action :: string
  ae_Operator :: string
  ae_CreatedAt :: gotime

record Group =
  g_ID :: int
  g_Status :: string
  g_SubscriptionType :: string

record UserSubscription =
  us_ID :: int
  us_UserID :: int
  us_GroupID :: int
  us_StartsAt :: gotime
  us_ExpiresAt :: gotime
  us_Status :: string
  us_DailyWindowStart :: "gotime option"
  us_WeeklyWindowStart :: "gotime option"
  us_MonthlyWindowStart :: "gotime option"
  us_DailyUsageUSD :: rat
  us_WeeklyUsageUSD :: rat
  us_MonthlyUsageUSD :: rat
  us_AssignedBy :: "int option"
  us_AssignedAt :: gotime
  us_Notes :: string
  us_DeletedAt :: "gotime option"

record PaymentProviderInstance =
  pi_ID :: int
  pi_ProviderKey :: string
  pi_SupportedTypes :: string
  pi_Enabled :: bool
  pi_PaymentMode :: string
  pi_RefundEnabled :: bool
  pi_AllowUserRefund :: bool

record payDB =
  orders :: "PaymentOrder list"
  codes :: "RedeemCode list"
  users :: "User list"
  ledger :: "LedgerEntry list"
  pointsLedger :: "LedgerEntry list"
  audits :: "AuditEntry list"
  groups :: "Group list"
  subscriptions :: "UserSubscription list"
  instances :: "PaymentProviderInstance list"
  nextCodeID :: int
  nextSubID :: int

section \<open>What the outside world answers\<close>

text \<open>
  A provider object is known by its key, whether it can cancel a payment upstream, and the merchant
  identity it reports (none when it does not implement \<^verbatim>\<open>MerchantIdentityProvider\<close>).
\<close>

record Provider =
  pv_ProviderKey :: string
  pv_Cancelable :: bool
  pv_Identity :: "(string \<times> string) list"
  pv_Name :: string

record QueryOrderResponse =
  qr_TradeNo :: string
  qr_Status :: string
  qr_Amount :: gofloat
  qr_Metadata :: "(string \<times> string) list"

record RefundRequest =
  rr_TradeNo :: string
  rr_OrderID :: string
  rr_Amount :: rat
  rr_Reason :: string

text \<open>
  Per statement the world says whether the database works, what the clock shows, what the Redis
  cache of the redeem service answers, and what the providers answer. \<^const>\<open>None\<close> stands for a
  collaborator that is not configured.
\<close>

record payEnv = dbEnv +
  attemptCount :: "(int \<Rightarrow> int result) option"
  lockCode :: "(string \<Rightarrow> bool result) option"
  providerOf :: "PaymentProviderInstance \<Rightarrow> Provider result"
  registryKey :: "string \<Rightarrow> string"
  registryProvider :: "string \<Rightarrow> Provider result"
  QueryOrder :: "Provider \<Rightarrow> string \<Rightarrow> QueryOrderResponse result"
  Refund :: "Provider \<Rightarrow> RefundRequest \<Rightarrow> payError option"
  orderTimeoutMin :: "int result option"

type_synonym 'a payProg = "(payEnv, payDB, 'a) prog"
type_synonym 'a call = "(payEnv, payDB, 'a result) prog"

definition query :: "(payDB \<Rightarrow> 'a result) \<Rightarrow> 'a call" where
  "query g = statement DbError (\<lambda>_ s. (g s, s))"

definition update :: "(payEnv \<Rightarrow> payDB \<Rightarrow> 'a result \<times> payDB) \<Rightarrow> 'a call" where
  "update g = statement DbError g"

definition inTx :: "'a call \<Rightarrow> 'a call" where
  "inTx p = transaction DbError p"

definition failWith :: "payError \<Rightarrow> 'a call" where
  "failWith x = Return (Inl x)"

definition only :: "'a option \<Rightarrow> 'a result" where
  "only r = (case r of None \<Rightarrow> Inl RowNotFound | Some v \<Rightarrow> Inr v)"

lemma exec_query [simp]:
  "exec e (query g) s = ((if fault e = Works then g s else Inl DbError), s)"
  by (cases "fault e") (simp_all add: query_def)

lemma exec_update [simp]: "fault e = Works \<Longrightarrow> exec e (update g) s = g e s"
  by (simp add: update_def)

lemma exec_inTx [simp]:
  "fault e = Works \<Longrightarrow> exec e (inTx p) s =
     (case exec e p s of (Inl x, _) \<Rightarrow> (Inl x, s) | (Inr v, t) \<Rightarrow> (Inr v, t))"
  by (simp add: inTx_def)

lemma exec_failWith [simp]: "exec e (failWith x) s = (Inl x, s)"
  by (simp add: failWith_def)

section \<open>Payment orders and their audit log\<close>

definition orderOf :: "payDB \<Rightarrow> int \<Rightarrow> PaymentOrder option" where
  "orderOf s i = find (\<lambda>od. po_ID od = i) (orders s)"

definition getOrder :: "int \<Rightarrow> PaymentOrder call" where
  "getOrder i = query (\<lambda>s. only (orderOf s i))"

text \<open>
  \<^verbatim>\<open>Only\<close> fails when there is no row and when there are several (an empty \<^verbatim>\<open>out_trade_no\<close> is exempt
  from the unique index). \<^verbatim>\<open>UPDATE\<close> sets \<^verbatim>\<open>updated_at\<close> and returns the number of rows;
  \<^verbatim>\<open>UpdateOneID\<close> fails when there is no row.
\<close>

definition orderByOutTradeNo :: "string \<Rightarrow> PaymentOrder call" where
  "orderByOutTradeNo no = query (\<lambda>s. case filter (\<lambda>od. po_OutTradeNo od = no) (orders s) of
       [] \<Rightarrow> Inl RowNotFound | [od] \<Rightarrow> Inr od | _ \<Rightarrow> Inl DbError)"

definition setRows :: "('r \<Rightarrow> bool) \<Rightarrow> ('r \<Rightarrow> 'r) \<Rightarrow> 'r list \<Rightarrow> 'r list" where
  "setRows P f rs = map (\<lambda>r. if P r then f r else r) rs"

definition updateOrders ::
  "(payEnv \<Rightarrow> PaymentOrder \<Rightarrow> bool) \<Rightarrow> (payEnv \<Rightarrow> PaymentOrder \<Rightarrow> PaymentOrder) \<Rightarrow> nat call" where
  "updateOrders P f = update (\<lambda>e s.
     (Inr (length (filter (P e) (orders s))),
      s\<lparr>orders := setRows (P e) (\<lambda>od. (f e od)\<lparr>po_UpdatedAt := clock e\<rparr>) (orders s)\<rparr>))"

definition updateOrderOne :: "int \<Rightarrow> (payEnv \<Rightarrow> PaymentOrder \<Rightarrow> PaymentOrder) \<Rightarrow> unit call" where
  "updateOrderOne i f = handle (updateOrders (\<lambda>_ od. po_ID od = i) f) failWith
     (\<lambda>c. if c = 0 then failWith RowNotFound else Return (Inr ()))"

definition writeAuditLog :: "int \<Rightarrow> string \<Rightarrow> string \<Rightarrow> unit payProg" where
  "writeAuditLog oid action op = andThen (update (\<lambda>e s. (Inr (),
      s\<lparr>audits := audits s @ [\<lparr>ae_OrderID = oid, ae_Action = action, ae_Operator = op, ae_CreatedAt = clock e\<rparr>]\<rparr>)))
     (\<lambda>_. Return ())"

definition hasAudit :: "payDB \<Rightarrow> int \<Rightarrow> string \<Rightarrow> bool" where
  "hasAudit s oid action \<longleftrightarrow> list_ex (\<lambda>a. ae_OrderID a = oid \<and> ae_Action a = action) (audits s)"

definition hasAuditLog :: "int \<Rightarrow> string \<Rightarrow> bool payProg" where
  "hasAuditLog oid action = andThen (query (\<lambda>s. Inr (hasAudit s oid action)))
     (\<lambda>r. Return (case r of Inl _ \<Rightarrow> False | Inr b \<Rightarrow> b))"

section \<open>Users and their balance\<close>

definition ErrUserNotFound :: payError where
  "ErrUserNotFound = ApiError ''USER_NOT_FOUND'' ''user not found''"

definition userOf :: "payDB \<Rightarrow> int \<Rightarrow> User option" where
  "userOf s i = find (\<lambda>u. u_ID u = i) (users s)"

definition getUser :: "int \<Rightarrow> User call" where
  "getUser i = query (\<lambda>s. case userOf s i of None \<Rightarrow> Inl ErrUserNotFound | Some u \<Rightarrow> Inr u)"

definition setUser :: "payDB \<Rightarrow> int \<Rightarrow> (User \<Rightarrow> User) \<Rightarrow> payDB" where
  "setUser s i f = s\<lparr>users := setRows (\<lambda>u. u_ID u = i) f (users s)\<rparr>"

definition onUser :: "int \<Rightarrow> (User \<Rightarrow> User) \<Rightarrow> unit call" where
  "onUser i f = update (\<lambda>_ s. case userOf s i of
       None \<Rightarrow> (Inl ErrUserNotFound, s) | Some _ \<Rightarrow> (Inr (), setUser s i f))"

definition UpdateBalance :: "int \<Rightarrow> rat \<Rightarrow> unit call" where
  "UpdateBalance i amount = onUser i (\<lambda>u. u\<lparr>u_Balance := u_Balance u + amount,
     u_TotalRecharged := (if amount > 0 then u_TotalRecharged u + amount else u_TotalRecharged u)\<rparr>)"

definition DeductBalance :: "int \<Rightarrow> rat \<Rightarrow> unit call" where
  "DeductBalance i amount = onUser i (\<lambda>u. u\<lparr>u_Balance := u_Balance u - amount\<rparr>)"

definition UpdateConcurrency :: "int \<Rightarrow> int \<Rightarrow> unit call" where
  "UpdateConcurrency i amount = onUser i (\<lambda>u. u\<lparr>u_Concurrency := u_Concurrency u + amount\<rparr>)"

record UserBalanceLedgerDeltaInput =
  bl_UserID :: int
  bl_Delta :: rat
  bl_Reason :: string
  bl_RefType :: string
  bl_RefID :: "int option"
  bl_Code :: string
  bl_ClampZero :: bool
  bl_TrackTotalRecharged :: bool
  bl_AllowNegativeBalance :: bool

text \<open>The change of balance that is booked, with the new balance.\<close>

definition ledgerDelta :: "UserBalanceLedgerDeltaInput \<Rightarrow> rat \<Rightarrow> rat \<times> rat" where
  "ledgerDelta inp currentBalance =
     (let delta = bl_Delta inp; newBalance = currentBalance + delta in
      if bl_ClampZero inp \<and> newBalance < 0 then (- currentBalance, 0) else (delta, newBalance))"

definition sameLedgerRef :: "LedgerEntry \<Rightarrow> LedgerEntry \<Rightarrow> bool" where
  "sameLedgerRef a b \<longleftrightarrow> le_RefID a \<noteq> None \<and> le_UserID a = le_UserID b \<and> le_Direction a = le_Direction b \<and>
     le_Reason a = le_Reason b \<and> le_RefType a = le_RefType b \<and> le_RefID a = le_RefID b"

definition insertLedger :: "LedgerEntry list \<Rightarrow> LedgerEntry \<Rightarrow> LedgerEntry list" where
  "insertLedger es e = (if list_ex (sameLedgerRef e) es then es else es @ [e])"

definition ledgerEntry :: "UserBalanceLedgerDeltaInput \<Rightarrow> rat \<Rightarrow> rat \<Rightarrow> LedgerEntry" where
  "ledgerEntry inp delta newBalance =
     \<lparr>le_UserID = bl_UserID inp, le_Direction = (if delta < 0 then ''debit'' else ''credit''),
      le_Amount = \<bar>delta\<bar>, le_Reason = bl_Reason inp, le_RefType = bl_RefType inp, le_RefID = bl_RefID inp,
      le_BalanceAfter = newBalance, le_Code = bl_Code inp\<rparr>"

definition ApplyBalanceLedgerDelta :: "UserBalanceLedgerDeltaInput \<Rightarrow> (rat \<times> rat) call" where
  "ApplyBalanceLedgerDelta inp =
     (if bl_UserID inp \<le> 0 then failWith ErrUserNotFound
      else if TrimSpace (bl_Reason inp) = [] then failWith (PlainError ''balance ledger reason is required'')
      else if TrimSpace (bl_RefType inp) = [] then failWith (PlainError ''balance ledger ref type is required'')
      else inTx (update (\<lambda>_ s. case userOf s (bl_UserID inp) of
          None \<Rightarrow> (Inl ErrUserNotFound, s)
        | Some u \<Rightarrow>
            let (delta, newBalance) = ledgerDelta inp (u_Balance u) in
            if \<not> bl_AllowNegativeBalance inp \<and> newBalance < 0 then (Inl (PlainError ''balance cannot be negative''), s)
            else if delta = 0 then (Inr (delta, newBalance), s)
            else (Inr (delta, newBalance),
              (setUser s (bl_UserID inp) (\<lambda>u. u\<lparr>u_Balance := newBalance,
                 u_TotalRecharged := (if bl_TrackTotalRecharged inp \<and> delta > 0 then u_TotalRecharged u + delta
                                      else u_TotalRecharged u)\<rparr>))
              \<lparr>ledger := insertLedger (ledger s) (ledgerEntry inp delta newBalance)\<rparr>))))"

section \<open>Redeem codes\<close>

definition ErrRedeemCodeNotFound :: payError where
  "ErrRedeemCodeNotFound = ApiError ''REDEEM_CODE_NOT_FOUND'' ''redeem code not found''"
definition ErrRedeemCodeUsed :: payError where
  "ErrRedeemCodeUsed = ApiError ''REDEEM_CODE_USED'' ''redeem code already used''"

definition codeOf :: "payDB \<Rightarrow> string \<Rightarrow> RedeemCode option" where
  "codeOf s c = find (\<lambda>r. rc_Code r = c) (codes s)"

definition GetByCode :: "string \<Rightarrow> RedeemCode call" where
  "GetByCode c = query (\<lambda>s. case codeOf s c of None \<Rightarrow> Inl ErrRedeemCodeNotFound | Some r \<Rightarrow> Inr r)"

definition GetByID :: "int \<Rightarrow> RedeemCode call" where
  "GetByID i = query (\<lambda>s. case find (\<lambda>r. rc_ID r = i) (codes s) of
     None \<Rightarrow> Inl ErrRedeemCodeNotFound | Some r \<Rightarrow> Inr r)"

text \<open>The column \<^verbatim>\<open>code\<close> is unique: a second insert fails.\<close>

definition Create :: "RedeemCode \<Rightarrow> int call" where
  "Create code = update (\<lambda>_ s. case codeOf s (rc_Code code) of
       Some _ \<Rightarrow> (Inl DbError, s)
     | None \<Rightarrow> (Inr (nextCodeID s), s\<lparr>codes := codes s @ [code\<lparr>rc_ID := nextCodeID s\<rparr>],
         nextCodeID := nextCodeID s + 1\<rparr>))"

definition Use :: "int \<Rightarrow> int \<Rightarrow> unit call" where
  "Use i userID = update (\<lambda>e s.
     if list_ex (\<lambda>r. rc_ID r = i \<and> rc_Status r = StatusUnused) (codes s)
     then (Inr (), s\<lparr>codes := setRows (\<lambda>r. rc_ID r = i \<and> rc_Status r = StatusUnused)
       (\<lambda>r. r\<lparr>rc_Status := StatusUsed, rc_UsedBy := Some userID, rc_UsedAt := Some (clock e)\<rparr>) (codes s)\<rparr>)
     else (Inl ErrRedeemCodeUsed, s))"

definition DeleteCode :: "int \<Rightarrow> unit call" where
  "DeleteCode i = update (\<lambda>_ s. (Inr (), s\<lparr>codes := filter (\<lambda>r. rc_ID r \<noteq> i) (codes s)\<rparr>))"

section \<open>Groups and subscriptions\<close>

definition ErrGroupNotFound :: payError where
  "ErrGroupNotFound = ApiError ''GROUP_NOT_FOUND'' ''group not found''"
definition ErrSubscriptionNotFound :: payError where
  "ErrSubscriptionNotFound = ApiError ''SUBSCRIPTION_NOT_FOUND'' ''subscription not found''"
definition ErrSubscriptionAlreadyExists :: payError where
  "ErrSubscriptionAlreadyExists = ApiError ''SUBSCRIPTION_ALREADY_EXISTS'' ''subscription already exists for this user and group''"

definition getGroup :: "int \<Rightarrow> Group call" where
  "getGroup i = query (\<lambda>s. case find (\<lambda>g. g_ID g = i) (groups s) of
     None \<Rightarrow> Inl ErrGroupNotFound | Some g \<Rightarrow> Inr g)"

text \<open>Rows whose \<^verbatim>\<open>deleted_at\<close> is set are invisible to queries and updates.\<close>

definition liveSubs :: "payDB \<Rightarrow> UserSubscription list" where
  "liveSubs s = filter (\<lambda>u. us_DeletedAt u = None) (subscriptions s)"

definition subOf :: "payDB \<Rightarrow> (UserSubscription \<Rightarrow> bool) \<Rightarrow> UserSubscription result" where
  "subOf s P = (case find P (liveSubs s) of None \<Rightarrow> Inl ErrSubscriptionNotFound | Some u \<Rightarrow> Inr u)"

definition getSubByID :: "int \<Rightarrow> UserSubscription call" where
  "getSubByID i = query (\<lambda>s. subOf s (\<lambda>u. us_ID u = i))"

definition GetByUserIDAndGroupID :: "int \<Rightarrow> int \<Rightarrow> UserSubscription call" where
  "GetByUserIDAndGroupID uid gid = query (\<lambda>s. subOf s (\<lambda>u. us_UserID u = uid \<and> us_GroupID u = gid))"

definition GetActiveByUserIDAndGroupID :: "int \<Rightarrow> int \<Rightarrow> UserSubscription call" where
  "GetActiveByUserIDAndGroupID uid gid = statement DbError (\<lambda>e s. (subOf s (\<lambda>u. us_UserID u = uid \<and>
     us_GroupID u = gid \<and> us_Status u = StatusActive \<and> clock e < us_ExpiresAt u), s))"

text \<open>An update by number reaches deleted rows too: the soft-delete mixin filters queries only.\<close>

definition onSub :: "int \<Rightarrow> (UserSubscription \<Rightarrow> UserSubscription) \<Rightarrow> unit call" where
  "onSub i f = update (\<lambda>_ s.
     if list_ex (\<lambda>u. us_ID u = i) (subscriptions s)
     then (Inr (), s\<lparr>subscriptions := setRows (\<lambda>u. us_ID u = i) f (subscriptions s)\<rparr>)
     else (Inl ErrSubscriptionNotFound, s))"

definition ExtendExpiry :: "int \<Rightarrow> gotime \<Rightarrow> unit call" where
  "ExtendExpiry i newExpiresAt = onSub i (\<lambda>u. u\<lparr>us_ExpiresAt := newExpiresAt\<rparr>)"

definition UpdateStatus :: "int \<Rightarrow> string \<Rightarrow> unit call" where
  "UpdateStatus i st = onSub i (\<lambda>u. u\<lparr>us_Status := st\<rparr>)"

definition UpdateNotes :: "int \<Rightarrow> string \<Rightarrow> unit call" where
  "UpdateNotes i notes = onSub i (\<lambda>u. u\<lparr>us_Notes := notes\<rparr>)"

definition UpdateSub :: "UserSubscription \<Rightarrow> unit call" where
  "UpdateSub sub = onSub (us_ID sub) (\<lambda>u. sub\<lparr>us_ID := us_ID u, us_DeletedAt := us_DeletedAt u,
     us_DailyWindowStart := (case us_DailyWindowStart sub of None \<Rightarrow> us_DailyWindowStart u | w \<Rightarrow> w),
     us_WeeklyWindowStart := (case us_WeeklyWindowStart sub of None \<Rightarrow> us_WeeklyWindowStart u | w \<Rightarrow> w),
     us_MonthlyWindowStart := (case us_MonthlyWindowStart sub of None \<Rightarrow> us_MonthlyWindowStart u | w \<Rightarrow> w),
     us_AssignedBy := (case us_AssignedBy sub of None \<Rightarrow> us_AssignedBy u | b \<Rightarrow> b)\<rparr>)"

text \<open>One live subscription per user and group (the partial unique index of migration 016).\<close>

definition CreateSub :: "UserSubscription \<Rightarrow> int call" where
  "CreateSub sub = update (\<lambda>_ s.
     if list_ex (\<lambda>u. us_UserID u = us_UserID sub \<and> us_GroupID u = us_GroupID sub) (liveSubs s)
     then (Inl ErrSubscriptionAlreadyExists, s)
     else (Inr (nextSubID s), s\<lparr>subscriptions := subscriptions s @ [sub\<lparr>us_ID := nextSubID s\<rparr>],
       nextSubID := nextSubID s + 1\<rparr>))"

definition DeleteSub :: "int \<Rightarrow> unit call" where
  "DeleteSub i = update (\<lambda>e s. (Inr (), s\<lparr>subscriptions :=
     setRows (\<lambda>u. us_ID u = i \<and> us_DeletedAt u = None) (\<lambda>u. u\<lparr>us_DeletedAt := Some (clock e)\<rparr>) (subscriptions s)\<rparr>))"

end
