(* ===== verification/Subscriptions.thy ===== *)
theory Subscriptions
  imports PaymentStore
begin

text \<open>
  The changes of a user's subscription term in
  \<^verbatim>\<open>backend/internal/service/subscription_service.go\<close>: assigning or extending, adjusting, revoking,
  and looking up the active one. Cache invalidation and notices have no effect on the tables and
  are left out; \<^verbatim>\<open>GetActiveSubscription\<close> is the lookup behind its cache. \<^verbatim>\<open>AddDate(0, 0, n)\<close> adds \<open>n\<close> times 24
  hours: the server's time zone has no clock changes.
\<close>

section \<open>Operations\<close>

definition MaxValidityDays :: int where "MaxValidityDays = 36500"

text \<open>2099-12-31 23:59:59 UTC, one second before the end of day 766644 of the calendar.\<close>

definition MaxExpiresAt :: gotime where "MaxExpiresAt = 766644 * 24 * hour - second"

definition addDays :: "gotime \<Rightarrow> int \<Rightarrow> gotime" where "addDays t n = t + n * 24 * hour"

definition startOfDay :: "gotime \<Rightarrow> gotime" where "startOfDay t = t - t mod (24 * hour)"

definition ErrGroupNotSubscriptionType :: payError where
  "ErrGroupNotSubscriptionType = ApiError ''GROUP_NOT_SUBSCRIPTION_TYPE'' ''group is not a subscription type''"
definition ErrAdjustWouldExpire :: payError where
  "ErrAdjustWouldExpire = ApiError ''ADJUST_WOULD_EXPIRE''
     ''adjustment would result in expired subscription (remaining days must be > 0)''"

text \<open>\<^verbatim>\<open>strings.ToLower\<close> and \<^verbatim>\<open>strings.ToUpper\<close> on ASCII.\<close>

definition lower_char :: "char \<Rightarrow> char" where
  "lower_char c = (if 65 \<le> (of_char c :: nat) \<and> (of_char c :: nat) \<le> 90 then char_of (of_char c + 32 :: nat) else c)"

definition ToLower :: "string \<Rightarrow> string" where "ToLower s = map lower_char s"

definition IsSubscriptionType :: "Group \<Rightarrow> bool" where
  "IsSubscriptionType g \<longleftrightarrow> ToLower (TrimSpace (g_SubscriptionType g)) = ''subscription''"

record AssignSubscriptionInput =
  as_UserID :: int
  as_GroupID :: int
  as_ValidityDays :: int
  as_AssignedBy :: int
  as_Notes :: string

definition validDays :: "int \<Rightarrow> int" where
  "validDays days = (let d = (if days \<le> 0 then 30 else days) in if d > MaxValidityDays then MaxValidityDays else d)"

definition capExpiry :: "gotime \<Rightarrow> gotime" where
  "capExpiry t = (if t > MaxExpiresAt then MaxExpiresAt else t)"

definition appendSubscriptionNotes :: "string \<Rightarrow> string \<Rightarrow> string" where
  "appendSubscriptionNotes existing new =
     (if new = [] then existing else if existing = [] then new else existing @ [CHR 10] @ new)"

definition renewedSubscriptionTerm :: "UserSubscription \<Rightarrow> string \<Rightarrow> gotime \<Rightarrow> gotime \<Rightarrow> UserSubscription" where
  "renewedSubscriptionTerm sub notes startsAt expiresAt =
     (let windowStart = startOfDay startsAt in
      sub\<lparr>us_StartsAt := startsAt, us_ExpiresAt := expiresAt, us_Status := StatusActive,
        us_DailyWindowStart := Some windowStart, us_WeeklyWindowStart := Some windowStart,
        us_MonthlyWindowStart := Some windowStart, us_DailyUsageUSD := 0, us_WeeklyUsageUSD := 0,
        us_MonthlyUsageUSD := 0, us_Notes := appendSubscriptionNotes (us_Notes sub) notes\<rparr>)"

definition updateExistingSubscriptionTerm ::
  "UserSubscription \<Rightarrow> string \<Rightarrow> gotime \<Rightarrow> gotime \<Rightarrow> bool \<Rightarrow> unit call" where
  "updateExistingSubscriptionTerm sub notes startsAt newExpiresAt isExpired = inTx
     (if isExpired then
        handle (UpdateSub (renewedSubscriptionTerm sub notes startsAt newExpiresAt))
          (\<lambda>err. failWith (Because ''renew expired subscription'' err)) (\<lambda>_. Return (Inr ()))
      else
        handle (ExtendExpiry (us_ID sub) newExpiresAt) (\<lambda>err. failWith (Because ''extend subscription'' err)) (\<lambda>_.
        handle (if us_Status sub \<noteq> StatusActive then UpdateStatus (us_ID sub) StatusActive else Return (Inr ()))
          (\<lambda>err. failWith (Because ''update subscription status'' err)) (\<lambda>_.
        handle (if notes \<noteq> [] then UpdateNotes (us_ID sub) (appendSubscriptionNotes (us_Notes sub) notes) else Return (Inr ()))
          (\<lambda>err. failWith (Because ''update subscription notes'' err)) (\<lambda>_. Return (Inr ())))))"

definition Now :: "gotime payProg" where "Now = ask clock"

definition createSubscription :: "AssignSubscriptionInput \<Rightarrow> UserSubscription call" where
  "createSubscription inp = andThen Now (\<lambda>now.
     let sub = \<lparr>us_ID = 0, us_UserID = as_UserID inp, us_GroupID = as_GroupID inp, us_StartsAt = now,
       us_ExpiresAt = capExpiry (addDays now (validDays (as_ValidityDays inp))), us_Status = StatusActive,
       us_DailyWindowStart = None, us_WeeklyWindowStart = None, us_MonthlyWindowStart = None,
       us_DailyUsageUSD = 0, us_WeeklyUsageUSD = 0, us_MonthlyUsageUSD = 0,
       us_AssignedBy = (if as_AssignedBy inp > 0 then Some (as_AssignedBy inp) else None),
       us_AssignedAt = now, us_Notes = as_Notes inp, us_DeletedAt = None\<rparr>
     in handle (CreateSub sub) failWith getSubByID)"

definition newTerm :: "UserSubscription \<Rightarrow> int \<Rightarrow> gotime \<Rightarrow> gotime" where
  "newTerm sub days now = capExpiry (addDays (if us_ExpiresAt sub \<le> now then now else us_ExpiresAt sub) days)"

definition AssignOrExtendSubscription :: "AssignSubscriptionInput \<Rightarrow> (UserSubscription \<times> bool) call" where
  "AssignOrExtendSubscription inp =
     handle (getGroup (as_GroupID inp)) (\<lambda>err. failWith (Because ''group not found'' err)) (\<lambda>g.
     if \<not> IsSubscriptionType g then failWith ErrGroupNotSubscriptionType
     else andThen (GetByUserIDAndGroupID (as_UserID inp) (as_GroupID inp)) (\<lambda>r. case r of
       Inr sub \<Rightarrow> andThen Now (\<lambda>now.
         handle (updateExistingSubscriptionTerm sub (as_Notes inp) now
             (newTerm sub (validDays (as_ValidityDays inp)) now) (us_ExpiresAt sub \<le> now)) failWith (\<lambda>_.
         handle (getSubByID (us_ID sub)) failWith (\<lambda>u. Return (Inr (u, True)))))
     | Inl _ \<Rightarrow> handle (createSubscription inp) failWith (\<lambda>u. Return (Inr (u, False)))))"

definition clampDays :: "int \<Rightarrow> int" where
  "clampDays days = max (- MaxValidityDays) (min MaxValidityDays days)"

definition ExtendSubscription :: "int \<Rightarrow> int \<Rightarrow> UserSubscription call" where
  "ExtendSubscription subID days0 =
     handle (getSubByID subID) (\<lambda>_. failWith ErrSubscriptionNotFound) (\<lambda>sub.
     let days = clampDays days0 in
     andThen Now (\<lambda>now.
     if us_ExpiresAt sub \<le> now \<and> days < 0 then
       failWith (ApiError ''CANNOT_SHORTEN_EXPIRED'' ''cannot shorten an expired subscription'')
     else let newExpiresAt = newTerm sub days now in
       if newExpiresAt \<le> now then failWith ErrAdjustWouldExpire
       else handle (ExtendExpiry subID newExpiresAt) failWith (\<lambda>_.
            handle (if us_Status sub = StatusExpired then UpdateStatus subID StatusActive else Return (Inr ())) failWith (\<lambda>_.
            getSubByID subID))))"

definition RevokeSubscription :: "int \<Rightarrow> unit call" where
  "RevokeSubscription subID =
     handle (getSubByID subID) failWith (\<lambda>_. DeleteSub subID)"

definition GetActiveSubscription :: "int \<Rightarrow> int \<Rightarrow> UserSubscription call" where
  "GetActiveSubscription uid gid = GetActiveByUserIDAndGroupID uid gid"

text \<open>The notes are Chinese; a text outside ASCII is given by its bytes.\<close>

definition utf8 :: "nat list \<Rightarrow> string" where "utf8 bs = map char_of bs"

definition throughCode :: "string \<Rightarrow> string" where
  "throughCode code = utf8 [233, 128, 154, 232, 191, 135, 229, 133, 145, 230, 141, 162, 231, 160, 129, 32] @ code"

definition reducedNote :: "string \<Rightarrow> int \<Rightarrow> string" where
  "reducedNote code days = throughCode code @ utf8 [32, 233, 128, 128, 230, 172, 190, 230, 137, 163, 229, 135, 143, 32] @ Itoa days @ utf8 [32, 229, 164, 169]"

definition reduceOrCancelSubscription :: "int \<Rightarrow> int \<Rightarrow> int \<Rightarrow> string \<Rightarrow> unit call" where
  "reduceOrCancelSubscription userID groupID reduceDays code =
     handle (GetByUserIDAndGroupID userID groupID) (\<lambda>_. failWith ErrSubscriptionNotFound) (\<lambda>sub.
     andThen Now (\<lambda>now.
     let remaining = max 0 (go_quot (us_ExpiresAt sub - now) (24 * hour)) in
     handle (if remaining \<le> reduceDays then
          handle (UpdateStatus (us_ID sub) StatusExpired) (\<lambda>err. failWith (Because ''cancel subscription'' err)) (\<lambda>_.
          handle (ExtendExpiry (us_ID sub) now) (\<lambda>err. failWith (Because ''set subscription expiry'' err)) (\<lambda>_. Return (Inr ())))
        else
          handle (ExtendExpiry (us_ID sub) (addDays (us_ExpiresAt sub) (- reduceDays)))
            (\<lambda>err. failWith (Because ''reduce subscription'' err)) (\<lambda>_. Return (Inr ())))
       failWith (\<lambda>_.
     handle (UpdateNotes (us_ID sub) (us_Notes sub @ (if us_Notes sub = [] then [] else [CHR 10]) @ reducedNote code reduceDays))
       (\<lambda>err. failWith (Because ''update subscription notes'' err)) (\<lambda>_. Return (Inr ())))))"

end
