(* ===== verification/RedeemCodes.thy ===== *)
theory RedeemCodes
  imports Subscriptions
begin

text \<open>
  Redeem codes: \<^verbatim>\<open>backend/internal/service/redeem_code.go\<close>, and creating, redeeming and deleting a code in
  \<^verbatim>\<open>redeem_service.go\<close>. The Redis cache that counts failed attempts and locks a code answers through the
  environment; its own effects (a counter, a lock) are only seen through those answers. What follows a
  committed redemption besides reloading the code (cache invalidation, the inviter's rebate) is left
  to the argument \<open>rebate\<close>.
\<close>

section \<open>Codes\<close>

definition RedeemTypeBalance :: string where "RedeemTypeBalance = ''balance''"
definition RedeemTypePoints :: string where "RedeemTypePoints = ''points''"
definition RedeemTypeConcurrency :: string where "RedeemTypeConcurrency = ''concurrency''"
definition RedeemTypeSubscription :: string where "RedeemTypeSubscription = ''subscription''"
definition RedeemTypeInvitation :: string where "RedeemTypeInvitation = ''invitation''"

lemmas redeem_type_defs = RedeemTypeBalance_def RedeemTypePoints_def RedeemTypeConcurrency_def
  RedeemTypeSubscription_def RedeemTypeInvitation_def

definition IsUsed :: "RedeemCode \<Rightarrow> bool" where "IsUsed r \<longleftrightarrow> rc_Status r = StatusUsed"

definition IsExpiredAt :: "RedeemCode \<Rightarrow> gotime \<Rightarrow> bool" where
  "IsExpiredAt r now \<longleftrightarrow> rc_Status r = StatusExpired \<or>
     (rc_Status r = StatusUnused \<and> (case rc_ExpiresAt r of None \<Rightarrow> False | Some t \<Rightarrow> t \<le> now))"

definition CanUse :: "RedeemCode \<Rightarrow> gotime \<Rightarrow> bool" where
  "CanUse r now \<longleftrightarrow> rc_Status r = StatusUnused \<and> \<not> IsExpiredAt r now"

definition validateRedeemCodeValue :: "string \<Rightarrow> rat \<Rightarrow> payError option" where
  "validateRedeemCodeValue codeType v =
     (if codeType = RedeemTypeInvitation then None
      else if codeType = RedeemTypePoints then
        if v \<le> 0 then Some (PlainError ''points value must be greater than 0'') else None
      else if v = 0 then Some (PlainError ''value must not be zero'') else None)"

section \<open>Creating and deleting\<close>

definition CreateCode :: "RedeemCode \<Rightarrow> unit call" where
  "CreateCode code0 =
     (let code = code0\<lparr>rc_Code := TrimSpace (rc_Code code0)\<rparr> in
      if rc_Code code = [] then failWith (PlainError ''code is required'')
      else let code = (if rc_Type code = [] then code\<lparr>rc_Type := RedeemTypeBalance\<rparr> else code) in
        case validateRedeemCodeValue (rc_Type code) (rc_Value code) of
          Some err \<Rightarrow> failWith err
        | None \<Rightarrow>
            let code = (if rc_Status code = [] then code\<lparr>rc_Status := StatusUnused\<rparr> else code) in
            handle (Create code) (\<lambda>err. failWith (Because ''create redeem code'' err)) (\<lambda>_. Return (Inr ())))"

definition Delete :: "int \<Rightarrow> unit call" where
  "Delete i =
     handle (GetByID i) (\<lambda>err. failWith (Because ''get redeem code'' err)) (\<lambda>code.
     if IsUsed code then failWith (ApiError ''REDEEM_CODE_DELETE_USED'' ''cannot delete used redeem code'')
     else handle (DeleteCode i) (\<lambda>err. failWith (Because ''delete redeem code'' err)) (\<lambda>_. Return (Inr ())))"

section \<open>Redeeming\<close>

definition ErrRedeemRateLimited :: payError where
  "ErrRedeemRateLimited = ApiError ''REDEEM_RATE_LIMITED'' ''too many failed attempts, please try again later''"
definition ErrRedeemCodeLocked :: payError where
  "ErrRedeemCodeLocked = ApiError ''REDEEM_CODE_LOCKED'' ''redeem code is being processed, please try again''"

definition redeemMaxErrorsPerHour :: int where "redeemMaxErrorsPerHour = 20"

definition checkRedeemRateLimit :: "int \<Rightarrow> payEnv \<Rightarrow> payError option" where
  "checkRedeemRateLimit userID e = (case attemptCount e of
     None \<Rightarrow> None
   | Some get \<Rightarrow> (case get userID of
       Inl _ \<Rightarrow> None
     | Inr count \<Rightarrow> if count \<ge> redeemMaxErrorsPerHour then Some ErrRedeemRateLimited else None))"

definition acquireRedeemLock :: "string \<Rightarrow> payEnv \<Rightarrow> bool" where
  "acquireRedeemLock code e = (case lockCode e of
     None \<Rightarrow> True
   | Some acquire \<Rightarrow> (case acquire code of Inl _ \<Rightarrow> True | Inr ok \<Rightarrow> ok))"

definition unsupportedRedeemTypeError :: "string \<Rightarrow> payError" where
  "unsupportedRedeemTypeError codeType = ApiError ''REDEEM_CODE_UNSUPPORTED_TYPE''
     (if codeType = RedeemTypeInvitation then ''invitation codes can only be used during registration''
      else ''unsupported redeem type: '' @ codeType)"

text \<open>The checks on the type before the transaction.\<close>

definition typePrecondition :: "RedeemCode \<Rightarrow> payError option" where
  "typePrecondition r =
     (if rc_Type r = RedeemTypeBalance \<or> rc_Type r = RedeemTypeConcurrency then None
      else if rc_Type r = RedeemTypePoints then
        if rc_Value r \<le> 0
        then Some (ApiError ''REDEEM_CODE_INVALID'' ''invalid points redeem code: value must be greater than 0'') else None
      else if rc_Type r = RedeemTypeSubscription then
        if rc_GroupID r = None
        then Some (ApiError ''REDEEM_CODE_INVALID'' ''invalid subscription redeem code: missing group_id'') else None
      else Some (unsupportedRedeemTypeError (rc_Type r)))"

definition redeemLedgerInput :: "RedeemCode \<Rightarrow> int \<Rightarrow> UserBalanceLedgerDeltaInput" where
  "redeemLedgerInput r userID =
     \<lparr>bl_UserID = userID, bl_Delta = rc_Value r, bl_Reason = ''redeem_code'', bl_RefType = ''redeem_code'',
      bl_RefID = Some (rc_ID r), bl_Code = rc_Code r, bl_ClampZero = True, bl_TrackTotalRecharged = True,
      bl_AllowNegativeBalance = False\<rparr>"

text \<open>Points: \<^verbatim>\<open>applyPointsAdjustmentInTx\<close> with the clamp on.\<close>

definition pointsDelta :: "rat \<Rightarrow> rat \<Rightarrow> rat" where
  "pointsDelta balanceBefore delta = (if delta < 0 \<and> balanceBefore + delta < 0 then - balanceBefore else delta)"

definition applyPointsAdjustmentInTx :: "RedeemCode \<Rightarrow> int \<Rightarrow> unit call" where
  "applyPointsAdjustmentInTx r userID =
     (if userID \<le> 0 then failWith ErrUserNotFound
      else if rc_Value r = 0 then Return (Inr ())
      else update (\<lambda>_ s. case userOf s userID of
          None \<Rightarrow> (Inl ErrUserNotFound, s)
        | Some u \<Rightarrow>
            let delta = pointsDelta (u_Points u) (rc_Value r);
                balanceAfter0 = u_Points u + delta;
                balanceAfter = (if balanceAfter0 < 0 then 0 else balanceAfter0)
            in if balanceAfter0 < - (1 / 1000000000) then
                 (Inl (ApiError ''POINTS_BALANCE_NEGATIVE'' ''points balance cannot be negative''), s)
               else let t = setUser s userID (\<lambda>u. u\<lparr>u_Points := balanceAfter\<rparr>) in
                 (Inr (), if delta = 0 then t else t\<lparr>pointsLedger := insertLedger (pointsLedger s)
                    (ledgerEntry (redeemLedgerInput r userID) delta balanceAfter)\<rparr>)))"

definition UserMinConcurrency :: int where "UserMinConcurrency = 1"
definition RoleUser :: string where "RoleUser = ''user''"

text \<open>
  The change of concurrency. After the clamp \<^verbatim>\<open>validatePersonalUserConcurrency\<close> cannot fail: the next
  value is at least the minimum.
\<close>

definition concurrencyDelta :: "User \<Rightarrow> rat \<Rightarrow> int" where
  "concurrencyDelta user v =
     (let delta = rat_trunc v in
      if u_Role user = RoleUser then
        let nextConcurrency = u_Concurrency user + delta in
        if nextConcurrency < UserMinConcurrency then UserMinConcurrency - u_Concurrency user else delta
      else if delta < 0 \<and> u_Concurrency user + delta < 0 then - u_Concurrency user
      else delta)"

definition grantRedeemed :: "RedeemCode \<Rightarrow> int \<Rightarrow> User \<Rightarrow> unit call" where
  "grantRedeemed r userID user =
     (if rc_Type r = RedeemTypeBalance then
        handle (ApplyBalanceLedgerDelta (redeemLedgerInput r userID))
          (\<lambda>err. failWith (Because ''update user balance'' err)) (\<lambda>_. Return (Inr ()))
      else if rc_Type r = RedeemTypePoints then
        handle (applyPointsAdjustmentInTx r userID)
          (\<lambda>err. failWith (Because ''update user points'' err)) (\<lambda>_. Return (Inr ()))
      else if rc_Type r = RedeemTypeConcurrency then
        handle (UpdateConcurrency userID (concurrencyDelta user (rc_Value r)))
          (\<lambda>err. failWith (Because ''update user concurrency'' err)) (\<lambda>_. Return (Inr ()))
      else if rc_Type r = RedeemTypeSubscription then
        (case rc_GroupID r of
           None \<Rightarrow> failWith (PlainError ''nil pointer'')
         | Some gid \<Rightarrow>
             if rc_ValidityDays r < 0 then
               handle (reduceOrCancelSubscription userID gid (- rc_ValidityDays r) (rc_Code r))
                 (\<lambda>err. failWith (Because ''reduce or cancel subscription'' err)) (\<lambda>_. Return (Inr ()))
             else handle (AssignOrExtendSubscription \<lparr>as_UserID = userID, as_GroupID = gid,
                   as_ValidityDays = (if rc_ValidityDays r = 0 then 30 else rc_ValidityDays r), as_AssignedBy = 0,
                   as_Notes = throughCode (rc_Code r) @ utf8 [32, 229, 133, 145, 230, 141, 162]\<rparr>)
                 (\<lambda>err. failWith (Because ''assign or extend subscription'' err)) (\<lambda>_. Return (Inr ())))
      else failWith (unsupportedRedeemTypeError (rc_Type r)))"

text \<open>The transaction: mark the code as used, then grant what it is worth.\<close>

definition redeemTx :: "RedeemCode \<Rightarrow> int \<Rightarrow> User \<Rightarrow> unit call" where
  "redeemTx r userID user = inTx
     (handle (Use (rc_ID r) userID)
        (\<lambda>err. failWith (if err = ErrRedeemCodeNotFound \<or> err = ErrRedeemCodeUsed then ErrRedeemCodeUsed
                          else Because ''mark code as used'' err))
        (\<lambda>_. grantRedeemed r userID user))"

text \<open>After the commit: the rebate of the inviter, and the code as it is now.\<close>

definition afterRedeem :: "(int \<Rightarrow> rat \<Rightarrow> unit payProg) \<Rightarrow> int \<Rightarrow> RedeemCode \<Rightarrow> RedeemCode call" where
  "afterRedeem rebate userID r =
     followedBy (if rc_Type r = RedeemTypeBalance \<and> rc_Value r > 0 then rebate userID (rc_Value r) else Return ())
     (handle (GetByID (rc_ID r)) (\<lambda>err. failWith (Because ''get updated redeem code'' err)) (\<lambda>r'. Return (Inr r')))"

definition redeemFound :: "(int \<Rightarrow> rat \<Rightarrow> unit payProg) \<Rightarrow> int \<Rightarrow> RedeemCode \<Rightarrow> RedeemCode call" where
  "redeemFound rebate userID r =
     andThen Now (\<lambda>now.
     if \<not> CanUse r now then failWith ErrRedeemCodeUsed
     else case typePrecondition r of Some err \<Rightarrow> failWith err | None \<Rightarrow>
     handle (getUser userID) (\<lambda>err. failWith (Because ''get user'' err)) (\<lambda>user.
     handle (redeemTx r userID user) failWith (\<lambda>_. afterRedeem rebate userID r)))"

definition Redeem :: "(int \<Rightarrow> rat \<Rightarrow> unit payProg) \<Rightarrow> int \<Rightarrow> string \<Rightarrow> RedeemCode call" where
  "Redeem rebate userID code =
     andThen (ask (checkRedeemRateLimit userID)) (\<lambda>limited. case limited of
       Some err \<Rightarrow> failWith err
     | None \<Rightarrow>
     andThen (ask (acquireRedeemLock code)) (\<lambda>locked.
     if \<not> locked then failWith ErrRedeemCodeLocked
     else handle (GetByCode code) (\<lambda>err. failWith (if err = ErrRedeemCodeNotFound then ErrRedeemCodeNotFound
                                                     else Because ''get redeem code'' err))
       (redeemFound rebate userID)))"

end
