(* ===== verification/PaymentProviders.thy ===== *)
theory PaymentProviders
  imports RedeemCodes
begin

text \<open>
  Which provider an order belongs to and which money it expects: payment types and order statuses
  (\<^verbatim>\<open>payment/types.go\<close>), currencies (\<^verbatim>\<open>payment/currency.go\<close>), the provider snapshot stored with an
  order (\<^verbatim>\<open>payment_order_provider_snapshot.go\<close>), the lookup of the provider instance
  (\<^verbatim>\<open>payment_refund.go\<close>, \<^verbatim>\<open>payment_order_lifecycle.go\<close>) and the amounts (\<^verbatim>\<open>payment_amounts.go\<close>).
  Case is folded on ASCII: provider keys, merchant ids and currencies are ASCII.
\<close>

section \<open>Strings\<close>

definition upper_char :: "char \<Rightarrow> char" where
  "upper_char c = (if 97 \<le> (of_char c :: nat) \<and> (of_char c :: nat) \<le> 122 then char_of (of_char c - 32 :: nat) else c)"

definition ToUpper :: "string \<Rightarrow> string" where "ToUpper s = map upper_char s"

definition EqualFold :: "string \<Rightarrow> string \<Rightarrow> bool" where "EqualFold s t \<longleftrightarrow> ToLower s = ToLower t"

definition psStringValue :: "string option \<Rightarrow> string" where
  "psStringValue v = (case v of None \<Rightarrow> [] | Some s \<Rightarrow> s)"

definition meta :: "(string \<times> string) list \<Rightarrow> string \<Rightarrow> string" where
  "meta m k = (case map_of m k of None \<Rightarrow> [] | Some v \<Rightarrow> TrimSpace v)"

section \<open>Payment types\<close>

definition GetBasePaymentType :: "string \<Rightarrow> string" where
  "GetBasePaymentType t =
     (if t = ''easypay'' then ''easypay''
      else if t = ''airwallex'' then ''airwallex''
      else if t = ''stripe'' \<or> t = ''card'' \<or> t = ''link'' then ''stripe''
      else if take 6 t = ''alipay'' then ''alipay''
      else if take 5 t = ''wxpay'' then ''wxpay''
      else t)"

definition normalizeVisibleMethodSupportType :: "string \<Rightarrow> string" where
  "normalizeVisibleMethodSupportType t0 =
     (let t = TrimSpace t0 in
      if t = ''alipay'' \<or> t = ''alipay_direct'' then ''alipay''
      else if t = ''wxpay'' \<or> t = ''wxpay_direct'' then ''wxpay''
      else t)"

definition InstanceSupportsType :: "string \<Rightarrow> string \<Rightarrow> bool" where
  "InstanceSupportsType supportedTypes target \<longleftrightarrow> supportedTypes = [] \<or>
     list_ex (\<lambda>t. TrimSpace t = target \<or>
         normalizeVisibleMethodSupportType (TrimSpace t) = normalizeVisibleMethodSupportType target)
       (split_byte (CHR '','') supportedTypes)"

definition psIsRefundStatus :: "OrderStatus \<Rightarrow> bool" where
  "psIsRefundStatus st \<longleftrightarrow> st \<in> {OrderStatusRefundRequested, OrderStatusRefunding,
     OrderStatusPartiallyRefunded, OrderStatusRefunded, OrderStatusRefundFailed}"

section \<open>Currencies\<close>

definition DefaultPaymentCurrency :: string where "DefaultPaymentCurrency = ''CNY''"

definition zeroDecimalCurrencies :: "string list" where
  "zeroDecimalCurrencies = [''BIF'', ''CLP'', ''DJF'', ''GNF'', ''JPY'', ''KMF'', ''KRW'', ''MGA'', ''PYG'', ''RWF'',
     ''VND'', ''VUV'', ''XAF'', ''XOF'', ''XPF'']"

definition threeDecimalCurrencies :: "string list" where
  "threeDecimalCurrencies = [''BHD'', ''IQD'', ''JOD'', ''KWD'', ''LYD'', ''OMR'', ''TND'']"

definition NormalizePaymentCurrency :: "string \<Rightarrow> string option" where
  "NormalizePaymentCurrency raw =
     (let currency = ToUpper (TrimSpace raw) in
      if currency = [] then Some DefaultPaymentCurrency
      else if length currency \<noteq> 3 then None
      else if list_all (\<lambda>ch. CHR ''A'' \<le> ch \<and> ch \<le> CHR ''Z'') currency then Some currency else None)"

text \<open>The minor unit of the provider API and the digits a price may have.\<close>

definition paymentCurrencyAmountUnitFor :: "string \<Rightarrow> nat \<times> nat" where
  "paymentCurrencyAmountUnitFor currency = (case NormalizePaymentCurrency currency of
     None \<Rightarrow> (2, 2)
   | Some c \<Rightarrow>
       if c \<in> set zeroDecimalCurrencies then (0, 0)
       else if c = ''ISK'' \<or> c = ''UGX'' then (2, 0)
       else if c \<in> set threeDecimalCurrencies then (3, 3)
       else (2, 2))"

definition CurrencyMinorUnit :: "string \<Rightarrow> nat" where
  "CurrencyMinorUnit currency = fst (paymentCurrencyAmountUnitFor currency)"

definition CurrencyMaxFractionDigits :: "string \<Rightarrow> nat" where
  "CurrencyMaxFractionDigits currency = snd (paymentCurrencyAmountUnitFor currency)"

definition amountToleranceCNY :: rat where "amountToleranceCNY = 1 / 100"

definition paymentAmountToleranceForCurrency :: "string \<Rightarrow> rat" where
  "paymentAmountToleranceForCurrency currency =
     (let minorUnit = CurrencyMinorUnit currency in
      if minorUnit \<le> 2 then amountToleranceCNY else (1 / 10) ^ minorUnit / 2)"

fun isValidProviderAmount :: "gofloat \<Rightarrow> bool" where
  "isValidProviderAmount (GoFin q) = (q > 0)"
| "isValidProviderAmount _ = False"

section \<open>The provider snapshot of an order\<close>

record paymentOrderProviderSnapshot =
  sn_SchemaVersion :: int
  sn_ProviderInstanceID :: string
  sn_ProviderKey :: string
  sn_PaymentMode :: string
  sn_MerchantAppID :: string
  sn_MerchantID :: string
  sn_Currency :: string

fun psSnapshotStringValue :: "goval option \<Rightarrow> string" where
  "psSnapshotStringValue (Some (VString s)) = TrimSpace s"
| "psSnapshotStringValue _ = []"

fun psSnapshotIntValue :: "goval option \<Rightarrow> int" where
  "psSnapshotIntValue (Some (VInt i)) = i"
| "psSnapshotIntValue (Some (VInt64 i)) = i"
| "psSnapshotIntValue (Some (VFloat f)) = go_int_of_float f"
| "psSnapshotIntValue (Some (VString s)) = (case Atoi (TrimSpace s) of Some n \<Rightarrow> n | None \<Rightarrow> 0)"
| "psSnapshotIntValue _ = 0"

definition psOrderProviderSnapshot :: "PaymentOrder \<Rightarrow> paymentOrderProviderSnapshot option" where
  "psOrderProviderSnapshot od =
     (let m = po_ProviderSnapshot od;
          str = (\<lambda>k. psSnapshotStringValue (map_of m k));
          sn = \<lparr>sn_SchemaVersion = psSnapshotIntValue (map_of m ''schema_version''),
                sn_ProviderInstanceID = str ''provider_instance_id'', sn_ProviderKey = str ''provider_key'',
                sn_PaymentMode = str ''payment_mode'', sn_MerchantAppID = str ''merchant_app_id'',
                sn_MerchantID = str ''merchant_id'', sn_Currency = str ''currency''\<rparr>
      in if m = [] then None
         else if sn_SchemaVersion sn = 0 \<and> sn_ProviderInstanceID sn = [] \<and> sn_ProviderKey sn = [] \<and>
            sn_PaymentMode sn = [] \<and> sn_MerchantAppID sn = [] \<and> sn_MerchantID sn = [] \<and> sn_Currency sn = []
         then None else Some sn)"

definition PaymentOrderCurrency :: "PaymentOrder \<Rightarrow> string" where
  "PaymentOrderCurrency od = (case psOrderProviderSnapshot od of
     None \<Rightarrow> DefaultPaymentCurrency
   | Some sn \<Rightarrow> (case NormalizePaymentCurrency (sn_Currency sn) of
       Some c \<Rightarrow> c | None \<Rightarrow> DefaultPaymentCurrency))"

text \<open>A field the snapshot pins down must be reported, and be the same up to case.\<close>

definition pinned :: "string \<Rightarrow> string \<Rightarrow> string \<Rightarrow> payError option" where
  "pinned what expected actual =
     (if expected = [] then None
      else if actual = [] then Some (PlainError (what @ '' missing''))
      else if EqualFold expected actual then None else Some (PlainError (what @ '' mismatch'')))"

definition stateIs :: "string \<Rightarrow> string \<Rightarrow> string \<Rightarrow> payError option" where
  "stateIs what expected actual =
     (if actual \<noteq> [] \<and> \<not> EqualFold actual expected then Some (PlainError (what @ '' mismatch'')) else None)"

definition firstError :: "payError option list \<Rightarrow> payError option" where
  "firstError rs = (case find (\<lambda>r. r \<noteq> None) rs of None \<Rightarrow> None | Some r \<Rightarrow> r)"

definition validateProviderSnapshotMetadata ::
  "PaymentOrder \<Rightarrow> string \<Rightarrow> (string \<times> string) list \<Rightarrow> payError option" where
  "validateProviderSnapshotMetadata od providerKey metadata =
     (if metadata = [] then None
      else case psOrderProviderSnapshot od of None \<Rightarrow> None | Some sn \<Rightarrow>
        let key = TrimSpace providerKey;
            appID = sn_MerchantAppID sn; merchant = sn_MerchantID sn; currency = sn_Currency sn in
        if key = ''wxpay'' then firstError
          [pinned ''wxpay appid'' appID (meta metadata ''appid''),
           pinned ''wxpay mchid'' merchant (meta metadata ''mchid''),
           pinned ''wxpay currency'' currency (ToUpper (meta metadata ''currency'')),
           stateIs ''wxpay trade_state'' ''SUCCESS'' (meta metadata ''trade_state'')]
        else if key = ''alipay'' then pinned ''alipay app_id'' appID (meta metadata ''app_id'')
        else if key = ''easypay'' then pinned ''easypay pid'' merchant (meta metadata ''pid'')
        else if key = ''stripe'' then pinned ''stripe currency'' currency (ToUpper (meta metadata ''currency''))
        else if key = ''airwallex'' then firstError
          [pinned ''airwallex account_id'' merchant (meta metadata ''account_id''),
           pinned ''airwallex currency'' currency (ToUpper (meta metadata ''currency'')),
           stateIs ''airwallex status'' ''SUCCEEDED'' (meta metadata ''status'')]
        else None)"

section \<open>The provider a notification must come from\<close>

text \<open>The first name that is not blank, or the last one.\<close>

fun firstNonBlank :: "string list \<Rightarrow> string" where
  "firstNonBlank [] = []"
| "firstNonBlank (n # ns) = (if TrimSpace n \<noteq> [] then TrimSpace n else firstNonBlank ns)"

definition expectedNotificationProviderKey ::
  "(string \<Rightarrow> string) \<Rightarrow> string \<Rightarrow> string \<Rightarrow> string \<Rightarrow> string" where
  "expectedNotificationProviderKey registry orderPaymentType orderProviderKey instanceProviderKey =
     firstNonBlank [instanceProviderKey, orderProviderKey, registry orderPaymentType, orderPaymentType]"

definition expectedNotificationProviderKeyForOrder :: "(string \<Rightarrow> string) \<Rightarrow> PaymentOrder \<Rightarrow> string \<Rightarrow> string" where
  "expectedNotificationProviderKeyForOrder registry od instanceProviderKey =
     (let orderProviderKey = (case psOrderProviderSnapshot od of
            None \<Rightarrow> psStringValue (po_ProviderKey od)
          | Some sn \<Rightarrow> if sn_ProviderKey sn \<noteq> [] then sn_ProviderKey sn else psStringValue (po_ProviderKey od))
      in expectedNotificationProviderKey registry (po_PaymentType od) orderProviderKey instanceProviderKey)"

section \<open>The provider instance of an order\<close>

definition psLegacyOrderMatchesInstance :: "string \<Rightarrow> PaymentProviderInstance \<Rightarrow> bool" where
  "psLegacyOrderMatchesInstance orderPaymentType inst =
     (let baseType = GetBasePaymentType (TrimSpace orderPaymentType);
          instanceProviderKey = TrimSpace (pi_ProviderKey inst) in
      if baseType = [] then False
      else if baseType = ''stripe'' then instanceProviderKey = ''stripe''
      else if instanceProviderKey = ''stripe'' then False
      else if instanceProviderKey = baseType then True
      else InstanceSupportsType (pi_SupportedTypes inst) baseType)"

definition psFilterLegacyOrderProviderInstances ::
  "string \<Rightarrow> PaymentProviderInstance list \<Rightarrow> PaymentProviderInstance list" where
  "psFilterLegacyOrderProviderInstances orderPaymentType insts =
     (if TrimSpace orderPaymentType = [] then insts
      else filter (psLegacyOrderMatchesInstance orderPaymentType) insts)"

definition theOnly :: "'a list \<Rightarrow> 'a option" where
  "theOnly xs = (case xs of [x] \<Rightarrow> Some x | _ \<Rightarrow> None)"

definition getInstance :: "int \<Rightarrow> PaymentProviderInstance call" where
  "getInstance i = query (\<lambda>s. only (find (\<lambda>p. pi_ID p = i) (instances s)))"

definition resolveUniqueLegacyOrderProviderInstance :: "PaymentOrder \<Rightarrow> PaymentProviderInstance option call" where
  "resolveUniqueLegacyOrderProviderInstance od =
     (let paymentType = GetBasePaymentType (TrimSpace (po_PaymentType od));
          providerKey = TrimSpace (psStringValue (po_ProviderKey od)) in
      if providerKey \<noteq> [] then query (\<lambda>s. Inr (theOnly (psFilterLegacyOrderProviderInstances paymentType
             (filter (\<lambda>p. pi_ProviderKey p = providerKey) (instances s)))))
      else if paymentType = [] then Return (Inr None)
      else query (\<lambda>s. Inr (theOnly (psFilterLegacyOrderProviderInstances paymentType (instances s)))))"

definition resolveSnapshotOrderProviderInstance ::
  "PaymentOrder \<Rightarrow> paymentOrderProviderSnapshot \<Rightarrow> PaymentProviderInstance option call" where
  "resolveSnapshotOrderProviderInstance od sn =
     (let columnInstanceID = TrimSpace (psStringValue (po_ProviderInstanceID od));
          snapshotInstanceID = (if TrimSpace (sn_ProviderInstanceID sn) = [] then columnInstanceID
                                else TrimSpace (sn_ProviderInstanceID sn)) in
      if snapshotInstanceID = [] then failWith (PlainError ''provider snapshot is missing provider_instance_id'')
      else if columnInstanceID \<noteq> [] \<and> sn_ProviderInstanceID sn \<noteq> [] \<and>
          \<not> EqualFold columnInstanceID (sn_ProviderInstanceID sn)
      then failWith (PlainError ''provider snapshot instance mismatch'')
      else case Atoi snapshotInstanceID of
        None \<Rightarrow> failWith (PlainError ''provider snapshot instance id is invalid'')
      | Some instID \<Rightarrow>
          handle (getInstance instID)
            (\<lambda>err. failWith (if err = RowNotFound then PlainError ''provider snapshot instance is missing'' else err))
            (\<lambda>inst. if sn_ProviderKey sn \<noteq> [] \<and> \<not> EqualFold (TrimSpace (pi_ProviderKey inst)) (sn_ProviderKey sn)
              then failWith (PlainError ''provider snapshot key mismatch'') else Return (Inr (Some inst))))"

definition getOrderProviderInstance :: "PaymentOrder \<Rightarrow> PaymentProviderInstance option call" where
  "getOrderProviderInstance od = (case psOrderProviderSnapshot od of
     Some sn \<Rightarrow> resolveSnapshotOrderProviderInstance od sn
   | None \<Rightarrow>
       let instIDStr = TrimSpace (psStringValue (po_ProviderInstanceID od)) in
       if instIDStr = [] then resolveUniqueLegacyOrderProviderInstance od
       else case Atoi instIDStr of
         None \<Rightarrow> Return (Inr None)
       | Some instID \<Rightarrow> handle (getInstance instID) failWith (\<lambda>inst. Return (Inr (Some inst))))"

definition getRefundOrderProviderInstance :: "PaymentOrder \<Rightarrow> PaymentProviderInstance option call" where
  "getRefundOrderProviderInstance od = (case psOrderProviderSnapshot od of
     Some sn \<Rightarrow> resolveSnapshotOrderProviderInstance od sn
   | None \<Rightarrow>
       let instIDStr = TrimSpace (psStringValue (po_ProviderInstanceID od)) in
       if instIDStr = [] then Return (Inr None)
       else case Atoi instIDStr of
         None \<Rightarrow> failWith (PlainError ''refund provider instance id is invalid'')
       | Some instID \<Rightarrow> handle (getInstance instID)
           (\<lambda>err. failWith (if err = RowNotFound then PlainError ''refund provider instance is missing'' else err))
           (\<lambda>inst. Return (Inr (Some inst))))"

definition createProviderFromInstance :: "PaymentProviderInstance \<Rightarrow> Provider call" where
  "createProviderFromInstance inst = ask (\<lambda>e. providerOf e inst)"

definition paymentOrderAllowsRegistryFallback :: "PaymentOrder \<Rightarrow> bool" where
  "paymentOrderAllowsRegistryFallback od \<longleftrightarrow> psOrderProviderSnapshot od = None \<and>
     TrimSpace (psStringValue (po_ProviderInstanceID od)) = [] \<and> TrimSpace (psStringValue (po_ProviderKey od)) = []"

definition paymentOrderFallbackProviderKey :: "(string \<Rightarrow> string) \<Rightarrow> PaymentOrder \<Rightarrow> string" where
  "paymentOrderFallbackProviderKey registry od =
     firstNonBlank [registry (po_PaymentType od), GetBasePaymentType (TrimSpace (po_PaymentType od))]"

definition webhookRegistryFallbackAllowed :: "string \<Rightarrow> bool payProg" where
  "webhookRegistryFallbackAllowed providerKey0 =
     (let providerKey = TrimSpace providerKey0 in
      if providerKey = [] then Return False
      else andThen (query (\<lambda>s. Inr (length (filter (\<lambda>p. pi_ProviderKey p = providerKey \<and> pi_Enabled p) (instances s)))))
        (\<lambda>r. Return (case r of Inl _ \<Rightarrow> False | Inr count \<Rightarrow> count \<le> 1)))"

definition getOrderProvider :: "PaymentOrder \<Rightarrow> Provider call" where
  "getOrderProvider od =
     handle (getOrderProviderInstance od) (\<lambda>err. failWith (Because ''load order provider instance'' err)) (\<lambda>inst.
     case inst of
       Some i \<Rightarrow> createProviderFromInstance i
     | None \<Rightarrow>
         if \<not> paymentOrderAllowsRegistryFallback od then failWith (PlainError ''provider instance is unresolved'')
         else andThen (ask registryKey) (\<lambda>registry.
           let providerKey = paymentOrderFallbackProviderKey registry od in
           if providerKey = [] then failWith (PlainError ''provider fallback key is missing'')
           else andThen (webhookRegistryFallbackAllowed providerKey) (\<lambda>ok.
             if \<not> ok then failWith (PlainError ''provider fallback is ambiguous'')
             else ask (\<lambda>e. registryProvider e (po_PaymentType od)))))"

definition paymentOrderQueryReference :: "PaymentOrder \<Rightarrow> Provider \<Rightarrow> string" where
  "paymentOrderQueryReference od prov =
     (let providerKey = firstNonBlank [pv_ProviderKey prov,
            (case psOrderProviderSnapshot od of None \<Rightarrow> [] | Some sn \<Rightarrow> sn_ProviderKey sn),
            psStringValue (po_ProviderKey od), po_PaymentType od];
          outTradeNo = TrimSpace (po_OutTradeNo od); tradeNo = TrimSpace (po_PaymentTradeNo od) in
      if GetBasePaymentType providerKey \<in> {''alipay'', ''easypay'', ''wxpay''} then outTradeNo
      else if tradeNo \<noteq> [] then tradeNo else outTradeNo)"

definition paymentOrderShouldPersistUpstreamTradeNo :: "string \<Rightarrow> string \<Rightarrow> string \<Rightarrow> bool" where
  "paymentOrderShouldPersistUpstreamTradeNo queryRef upstreamTradeNo currentTradeNo \<longleftrightarrow>
     TrimSpace upstreamTradeNo \<noteq> [] \<and> \<not> EqualFold (TrimSpace upstreamTradeNo) (TrimSpace currentTradeNo) \<and>
     \<not> EqualFold (TrimSpace upstreamTradeNo) (TrimSpace queryRef)"

end
