(* ===== verification/Payments.thy ===== *)
theory Payments
  imports PaymentProviders
begin

text \<open>
  The life of a payment order in \<^verbatim>\<open>backend/internal/service/payment_fulfillment.go\<close> and
  \<^verbatim>\<open>payment_order_lifecycle.go\<close>: a provider's notification marks the order paid and fulfils it, an
  administrator retries or forces the fulfilment, a user or administrator cancels it, a timer expires
  it and fails fulfilments that hang. Every operation is a program over the tables of
  \<^verbatim>\<open>PaymentStore\<close>. System notices and e-mails are left out, as are the reloads that only feed them.

  The shop and the inviter's rebate are collaborators: programs given to the operations. So are the
  rounding and the division of the decimal library.
\<close>

record ShopPaymentFulfillment =
  ConfirmPaidAndDeliver :: "int \<Rightarrow> unit call"
  CancelPendingPaymentInTx :: "int \<Rightarrow> string \<Rightarrow> unit call"
  ReleaseStalePaymentReservations :: "gotime \<Rightarrow> unit call"

record PaymentService =
  shopFulfillment :: "ShopPaymentFulfillment option"
  accrueRebate :: "int \<Rightarrow> rat \<Rightarrow> unit payProg"
  decimalRound :: "nat \<Rightarrow> rat \<Rightarrow> rat"
  decimalDiv :: "rat \<Rightarrow> rat \<Rightarrow> rat"

record PaymentNotification =
  pn_TradeNo :: string
  pn_OrderID :: string
  pn_Amount :: gofloat
  pn_Status :: string
  pn_Metadata :: "(string \<times> string) list"

definition ok :: "unit call" where "ok = Return (Inr ())"

definition paymentGraceMinutes :: int where "paymentGraceMinutes = 5"
definition defaultOrderTimeoutMin :: int where "defaultOrderTimeoutMin = 30"
definition orderIDPrefix :: string where "orderIDPrefix = ''sub2_''"

definition ErrOrderNotFound :: payError where "ErrOrderNotFound = PlainError ''payment order not found''"

definition notFound :: payError where "notFound = ApiError ''NOT_FOUND'' ''order not found''"

definition invalidStatus :: "string \<Rightarrow> payError" where "invalidStatus m = ApiError ''INVALID_STATUS'' m"

section \<open>Fulfilment\<close>

definition markCompleted :: "PaymentOrder \<Rightarrow> string \<Rightarrow> unit call" where
  "markCompleted od auditAction =
     handle (updateOrders (\<lambda>_ x. po_ID x = po_ID od \<and> po_Status x = OrderStatusRecharging)
         (\<lambda>e x. x\<lparr>po_Status := OrderStatusCompleted, po_CompletedAt := Some (clock e)\<rparr>))
       (\<lambda>err. failWith (Because ''mark completed'' err)) (\<lambda>_.
     andThen (hasAuditLog (po_ID od) auditAction) (\<lambda>logged.
     followedBy (if logged then Return () else writeAuditLog (po_ID od) auditAction ''system'') ok))"

definition markFailed :: "int \<Rightarrow> payError \<Rightarrow> unit payProg" where
  "markFailed oid cause =
     andThen (updateOrders (\<lambda>_ x. po_ID x = oid \<and> po_Status x = OrderStatusRecharging)
         (\<lambda>e x. x\<lparr>po_Status := OrderStatusFailed, po_FailedAt := Some (clock e), po_FailedReason := Some cause\<rparr>))
       (\<lambda>r. case r of
          Inl _ \<Rightarrow> Return ()
        | Inr c \<Rightarrow> if c > 0 then writeAuditLog oid ''FULFILLMENT_FAILED'' ''system'' else Return ())"

datatype redeemAction = redeemActionCreate | redeemActionRedeem | redeemActionSkipCompleted

definition resolveRedeemAction :: "RedeemCode result \<Rightarrow> redeemAction" where
  "resolveRedeemAction r = (case r of
     Inl _ \<Rightarrow> redeemActionCreate
   | Inr existing \<Rightarrow> if IsUsed existing then redeemActionSkipCompleted else redeemActionRedeem)"

definition rechargeCode :: "PaymentOrder \<Rightarrow> RedeemCode" where
  "rechargeCode od = \<lparr>rc_ID = 0, rc_Code = po_RechargeCode od, rc_Type = RedeemTypeBalance,
     rc_Value = po_Amount od, rc_Status = StatusUnused, rc_UsedBy = None, rc_UsedAt = None,
     rc_ExpiresAt = None, rc_GroupID = None, rc_ValidityDays = 0\<rparr>"

definition doBalance :: "PaymentService \<Rightarrow> PaymentOrder \<Rightarrow> unit call" where
  "doBalance sv od =
     andThen (GetByCode (po_RechargeCode od)) (\<lambda>existing.
     let redeem = handle (Redeem (accrueRebate sv) (po_UserID od) (po_RechargeCode od))
           (\<lambda>err. failWith (Because ''redeem balance'' err)) (\<lambda>_. markCompleted od ''RECHARGE_SUCCESS'') in
     case resolveRedeemAction existing of
       redeemActionSkipCompleted \<Rightarrow> markCompleted od ''RECHARGE_SUCCESS''
     | redeemActionCreate \<Rightarrow>
         handle (CreateCode (rechargeCode od)) (\<lambda>err. failWith (Because ''create redeem code'' err)) (\<lambda>_. redeem)
     | redeemActionRedeem \<Rightarrow> redeem)"

definition doSub :: "PaymentOrder \<Rightarrow> int \<Rightarrow> int \<Rightarrow> unit call" where
  "doSub od gid days =
     andThen (getGroup gid) (\<lambda>r. case r of
       Inl _ \<Rightarrow> failWith (PlainError (''group '' @ Itoa gid @ '' no longer exists or inactive''))
     | Inr g \<Rightarrow>
         if g_Status g \<noteq> StatusActive then failWith (PlainError (''group '' @ Itoa gid @ '' no longer exists or inactive''))
         else andThen (hasAuditLog (po_ID od) ''SUBSCRIPTION_SUCCESS'') (\<lambda>assigned.
           if assigned then markCompleted od ''SUBSCRIPTION_SUCCESS''
           else handle (AssignOrExtendSubscription \<lparr>as_UserID = po_UserID od, as_GroupID = gid, as_ValidityDays = days,
                 as_AssignedBy = 0, as_Notes = ''payment order '' @ Itoa (po_ID od)\<rparr>)
             (\<lambda>err. failWith (Because ''assign subscription'' err))
             (\<lambda>_. markCompleted od ''SUBSCRIPTION_SUCCESS'')))"

text \<open>The checks and the lock the two kinds of fulfilment share; \<open>work\<close> is what happens under the lock.\<close>

definition lockForFulfillment :: "int \<Rightarrow> nat call" where
  "lockForFulfillment oid =
     updateOrders (\<lambda>_ x. po_ID x = oid \<and> po_Status x \<in> {OrderStatusPaid, OrderStatusFailed})
       (\<lambda>_ x. x\<lparr>po_Status := OrderStatusRecharging\<rparr>)"

definition underLock :: "int \<Rightarrow> unit call \<Rightarrow> unit call" where
  "underLock oid work =
     handle (lockForFulfillment oid) (\<lambda>err. failWith (Because ''lock'' err)) (\<lambda>c.
     if c = 0 then ok
     else handle work (\<lambda>err. followedBy (markFailed oid err) (failWith err)) (\<lambda>_. ok))"

definition ExecuteBalanceFulfillment :: "PaymentService \<Rightarrow> int \<Rightarrow> unit call" where
  "ExecuteBalanceFulfillment sv oid =
     handle (getOrder oid) (\<lambda>_. failWith notFound) (\<lambda>od.
     if po_Status od = OrderStatusCompleted then ok
     else if psIsRefundStatus (po_Status od) then failWith (invalidStatus ''refund-related order cannot fulfill'')
     else if po_Status od \<noteq> OrderStatusPaid \<and> po_Status od \<noteq> OrderStatusFailed
       then failWith (invalidStatus ''order cannot fulfill in status'')
     else underLock oid (doBalance sv od))"

definition ExecuteSubscriptionFulfillment :: "int \<Rightarrow> unit call" where
  "ExecuteSubscriptionFulfillment oid =
     handle (getOrder oid) (\<lambda>_. failWith notFound) (\<lambda>od.
     if po_Status od = OrderStatusCompleted then ok
     else if psIsRefundStatus (po_Status od) then failWith (invalidStatus ''refund-related order cannot fulfill'')
     else if po_Status od \<noteq> OrderStatusPaid \<and> po_Status od \<noteq> OrderStatusFailed
       then failWith (invalidStatus ''order cannot fulfill in status'')
     else case (po_SubscriptionGroupID od, po_SubscriptionDays od) of
       (Some gid, Some days) \<Rightarrow> underLock oid (doSub od gid days)
     | _ \<Rightarrow> failWith (invalidStatus ''missing subscription info''))"

definition executeFulfillment :: "PaymentService \<Rightarrow> int \<Rightarrow> unit call" where
  "executeFulfillment sv oid =
     handle (getOrder oid) (\<lambda>err. failWith (Because ''get order'' err)) (\<lambda>od.
     if po_OrderType od = OrderTypeSubscription then ExecuteSubscriptionFulfillment oid
     else if po_OrderType od = OrderTypeShop then
       (case shopFulfillment sv of
          None \<Rightarrow> failWith (ApiError ''SHOP_FULFILLMENT_NOT_CONFIGURED'' ''shop fulfillment service is not configured'')
        | Some shop \<Rightarrow> ConfirmPaidAndDeliver shop oid)
     else ExecuteBalanceFulfillment sv oid)"

section \<open>Notifications\<close>

definition alreadyProcessed :: "PaymentService \<Rightarrow> PaymentOrder \<Rightarrow> unit call" where
  "alreadyProcessed sv od =
     handle (getOrder (po_ID od)) (\<lambda>_. ok) (\<lambda>cur. case po_Status cur of
       OrderStatusFailed \<Rightarrow>
         if po_PaidAt cur = None
         then followedBy (writeAuditLog (po_ID od) ''PAYMENT_AFTER_FAILED_UNPAID'' ''system'') ok
         else executeFulfillment sv (po_ID od)
     | OrderStatusPaid \<Rightarrow> failWith (PlainError ''order is being processed'')
     | OrderStatusRecharging \<Rightarrow> failWith (PlainError ''order is being processed'')
     | OrderStatusExpired \<Rightarrow> followedBy (writeAuditLog (po_ID od) ''PAYMENT_AFTER_EXPIRY'' ''system'') ok
     | _ \<Rightarrow> ok)"

definition acceptsPayment :: "gotime \<Rightarrow> PaymentOrder \<Rightarrow> bool" where
  "acceptsPayment grace od \<longleftrightarrow>
     po_Status od = OrderStatusPending \<or> po_Status od = OrderStatusCancelled \<or>
     (po_Status od = OrderStatusFailed \<and> grace \<le> po_ExpiresAt od) \<or>
     (po_Status od = OrderStatusExpired \<and> grace \<le> po_UpdatedAt od)"

definition toPaid :: "PaymentService \<Rightarrow> PaymentOrder \<Rightarrow> string \<Rightarrow> rat \<Rightarrow> string \<Rightarrow> unit call" where
  "toPaid sv od tradeNo paid pk =
     handle (updateOrders (\<lambda>e x. po_ID x = po_ID od \<and> acceptsPayment (clock e - paymentGraceMinutes * minute) x)
         (\<lambda>e x. x\<lparr>po_Status := OrderStatusPaid, po_PayAmount := amountColumn paid, po_PaymentTradeNo := tradeNo,
                 po_PaidAt := Some (clock e), po_FailedAt := None, po_FailedReason := None\<rparr>))
       (\<lambda>err. failWith (Because ''update to PAID'' err)) (\<lambda>c.
     if c = 0 then alreadyProcessed sv od
     else followedBy (if po_Status od = OrderStatusCancelled \<or> po_Status od = OrderStatusExpired
                      then writeAuditLog (po_ID od) ''ORDER_RECOVERED'' pk else Return ())
         (followedBy (writeAuditLog (po_ID od) ''ORDER_PAID'' pk)
         (executeFulfillment sv (po_ID od))))"

definition confirmPayment ::
  "PaymentService \<Rightarrow> int \<Rightarrow> string \<Rightarrow> gofloat \<Rightarrow> string \<Rightarrow> (string \<times> string) list \<Rightarrow> unit call" where
  "confirmPayment sv oid tradeNo paid pk metadata =
     handle (getOrder oid) (\<lambda>_. ok) (\<lambda>od.
     andThen (getOrderProviderInstance od) (\<lambda>r.
     let instanceProviderKey = (case r of Inr (Some inst) \<Rightarrow> pi_ProviderKey inst | _ \<Rightarrow> []) in
     andThen (ask registryKey) (\<lambda>registry.
     let expected = expectedNotificationProviderKeyForOrder registry od instanceProviderKey in
     if expected \<noteq> [] \<and> TrimSpace pk \<noteq> [] \<and> \<not> EqualFold expected (TrimSpace pk) then
       followedBy (writeAuditLog (po_ID od) ''PAYMENT_PROVIDER_MISMATCH'' pk)
         (failWith (PlainError (''provider mismatch: expected '' @ expected @ '', got '' @ pk)))
     else case validateProviderSnapshotMetadata od pk metadata of
       Some err \<Rightarrow> followedBy (writeAuditLog (po_ID od) ''PAYMENT_PROVIDER_METADATA_MISMATCH'' pk) (failWith err)
     | None \<Rightarrow> (case paid of
         GoFin q \<Rightarrow>
           if \<not> isValidProviderAmount paid then
             followedBy (writeAuditLog (po_ID od) ''PAYMENT_INVALID_AMOUNT'' pk)
               (failWith (PlainError ''invalid paid amount from provider''))
           else if \<bar>q - po_PayAmount od\<bar> > paymentAmountToleranceForCurrency (PaymentOrderCurrency od) then
             followedBy (writeAuditLog (po_ID od) ''PAYMENT_AMOUNT_MISMATCH'' pk) (failWith (PlainError ''amount mismatch''))
           else toPaid sv od tradeNo q pk
       | _ \<Rightarrow> followedBy (writeAuditLog (po_ID od) ''PAYMENT_INVALID_AMOUNT'' pk)
               (failWith (PlainError ''invalid paid amount from provider''))))))"

definition parseLegacyPaymentOrderID :: "string \<Rightarrow> payError \<Rightarrow> int option" where
  "parseLegacyPaymentOrderID orderID0 lookupErr =
     (let orderID = TrimSpace orderID0 in
      if lookupErr \<noteq> RowNotFound then None
      else if take (length orderIDPrefix) orderID \<noteq> orderIDPrefix then None
      else let trimmed = drop (length orderIDPrefix) orderID in
        if trimmed = [] then None
        else case Atoi trimmed of Some oid \<Rightarrow> if oid \<le> 0 then None else Some oid | None \<Rightarrow> None)"

definition HandlePaymentNotification :: "PaymentService \<Rightarrow> PaymentNotification \<Rightarrow> string \<Rightarrow> unit call" where
  "HandlePaymentNotification sv n pk =
     (if pn_Status n \<noteq> ''success'' then ok
      else andThen (orderByOutTradeNo (pn_OrderID n)) (\<lambda>r. case r of
        Inl err \<Rightarrow> (case parseLegacyPaymentOrderID (pn_OrderID n) err of
            Some oid \<Rightarrow> confirmPayment sv oid (pn_TradeNo n) (pn_Amount n) pk (pn_Metadata n)
          | None \<Rightarrow> failWith (if err = RowNotFound then ErrOrderNotFound else Because ''lookup order failed'' err))
      | Inr od \<Rightarrow> confirmPayment sv (po_ID od) (pn_TradeNo n) (pn_Amount n) pk (pn_Metadata n)))"

end
