(* ===== verification/PaymentLifecycle.thy ===== *)
theory PaymentLifecycle
  imports Payments
begin

text \<open>
  What users, administrators and the timer do to payment orders: retrying or forcing a fulfilment
  (\<^verbatim>\<open>payment_fulfillment.go\<close>), asking the provider whether an order was paid after all, cancelling,
  expiring, and failing fulfilments that hang (\<^verbatim>\<open>payment_order_lifecycle.go\<close>).
\<close>

section \<open>Retrying and forcing a fulfilment\<close>

definition RetryFulfillment :: "PaymentService \<Rightarrow> int \<Rightarrow> unit call" where
  "RetryFulfillment sv oid =
     handle (getOrder oid) (\<lambda>_. failWith notFound) (\<lambda>od.
     if po_PaidAt od = None then failWith (invalidStatus ''order is not paid'')
     else if psIsRefundStatus (po_Status od) then failWith (invalidStatus ''refund-related order cannot retry'')
     else if po_Status od = OrderStatusRecharging then failWith (ApiError ''CONFLICT'' ''order is being processed'')
     else if po_Status od = OrderStatusCompleted then failWith (invalidStatus ''order already completed'')
     else if po_Status od \<noteq> OrderStatusFailed \<and> po_Status od \<noteq> OrderStatusPaid
       then failWith (invalidStatus ''only paid and failed orders can retry'')
     else handle (updateOrders (\<lambda>_ x. po_ID x = oid \<and> po_Status x \<in> {OrderStatusFailed, OrderStatusPaid})
           (\<lambda>_ x. x\<lparr>po_Status := OrderStatusPaid, po_FailedAt := None, po_FailedReason := None\<rparr>))
         (\<lambda>err. failWith (Because ''reset for retry'' err)) (\<lambda>_.
       followedBy (writeAuditLog oid ''RECHARGE_RETRY'' ''admin'') (executeFulfillment sv oid)))"

definition rechargingTimeout :: "duration call" where
  "rechargingTimeout = ask (\<lambda>e. case orderTimeoutMin e of
     None \<Rightarrow> Inr (max paymentGraceMinutes defaultOrderTimeoutMin * minute)
   | Some (Inl err) \<Rightarrow> Inl (Because ''load payment config for fulfillment timeout'' err)
   | Some (Inr timeoutMin) \<Rightarrow> Inr (max paymentGraceMinutes timeoutMin * minute))"

definition isRechargingOrderStale :: "PaymentOrder \<Rightarrow> gotime \<Rightarrow> bool call" where
  "isRechargingOrderStale od now =
     (if po_Status od \<noteq> OrderStatusRecharging then Return (Inr False)
      else handle rechargingTimeout failWith (\<lambda>timeout. Return (Inr (po_UpdatedAt od \<le> now - timeout))))"

record AdminManualFulfillmentRequest =
  mf_PaidAmount :: "gofloat option"
  mf_TradeNo :: string
  mf_Reason :: string

definition normalizeManualPaidAmount :: "rat \<Rightarrow> rat" where
  "normalizeManualPaidAmount amount = goRound (amount * 100) / 100"

fun validateManualPaidAmount :: "gofloat \<Rightarrow> rat result" where
  "validateManualPaidAmount (GoFin q) =
     (if q \<le> 0 then Inl (ApiError ''INVALID_PAID_AMOUNT'' ''paid amount is invalid'') else Inr q)"
| "validateManualPaidAmount _ = Inl (ApiError ''INVALID_PAID_AMOUNT'' ''paid amount is invalid'')"

text \<open>\<^verbatim>\<open>len([]rune(s))\<close>: an encoded character counts once, a stray byte too.\<close>

function runeCount :: "nat list \<Rightarrow> nat" where
  "runeCount bs = (if bs = [] then 0
     else case utf8_len bs of Some n \<Rightarrow> Suc (runeCount (drop n bs)) | None \<Rightarrow> Suc (runeCount (tl bs)))"
  by auto
termination
  by (relation "measure length") (auto dest: utf8_len_pos)

declare runeCount.simps [simp del]

text \<open>The amount an administrator says was paid: the request's, or the one the order asks for.\<close>

definition manualAmount :: "PaymentOrder \<Rightarrow> AdminManualFulfillmentRequest \<Rightarrow> rat result" where
  "manualAmount od req = (case mf_PaidAmount req of
     None \<Rightarrow> Inr (po_PayAmount od)
   | Some amount \<Rightarrow> (case validateManualPaidAmount amount of
       Inl err \<Rightarrow> Inl err | Inr q \<Rightarrow> Inr (normalizeManualPaidAmount q)))"

definition manualUpdate :: "PaymentOrder \<Rightarrow> rat \<Rightarrow> string \<Rightarrow> gotime \<Rightarrow> PaymentOrder \<Rightarrow> PaymentOrder" where
  "manualUpdate od paidAmount tradeNo now x =
     x\<lparr>po_PayAmount := amountColumn paidAmount,
       po_PaidAt := (if po_PaidAt od = None then Some now else po_PaidAt x),
       po_PaymentTradeNo := (if tradeNo \<noteq> [] then tradeNo else po_PaymentTradeNo x)\<rparr>"

definition markPaidManually :: "PaymentOrder \<Rightarrow> rat \<Rightarrow> string \<Rightarrow> gotime \<Rightarrow> unit call" where
  "markPaidManually od paidAmount tradeNo now =
     (if po_Status od \<noteq> OrderStatusPaid then
        handle (updateOrders (\<lambda>_ x. po_ID x = po_ID od \<and> po_Status x = po_Status od)
            (\<lambda>_ x. (manualUpdate od paidAmount tradeNo now x)
               \<lparr>po_Status := OrderStatusPaid, po_FailedAt := None, po_FailedReason := None\<rparr>))
          (\<lambda>err. failWith (Because ''mark order paid manually'' err))
          (\<lambda>updated. if updated = 0 then failWith (ApiError ''CONFLICT'' ''order status has changed'') else ok)
      else if tradeNo \<noteq> [] \<or> \<bar>paidAmount - po_PayAmount od\<bar> > amountToleranceCNY \<or> po_PaidAt od = None then
        handle (updateOrderOne (po_ID od) (\<lambda>_. manualUpdate od paidAmount tradeNo now))
          (\<lambda>err. failWith (Because ''update paid order manual details'' err)) (\<lambda>_. ok)
      else ok)"

definition AdminManualFulfillOrder :: "PaymentService \<Rightarrow> int \<Rightarrow> AdminManualFulfillmentRequest \<Rightarrow> unit call" where
  "AdminManualFulfillOrder sv oid req =
     (let reason = TrimSpace (mf_Reason req); tradeNo = TrimSpace (mf_TradeNo req) in
      if reason = [] then failWith (ApiError ''INVALID_REASON'' ''manual fulfillment reason is required'')
      else if runeCount (map of_char reason) > 500 then failWith (ApiError ''INVALID_REASON'' ''manual fulfillment reason is too long'')
      else handle (getOrder oid) (\<lambda>_. failWith notFound) (\<lambda>od.
        if po_Status od = OrderStatusCompleted then failWith (invalidStatus ''order already completed'')
        else if psIsRefundStatus (po_Status od) then failWith (invalidStatus ''refund-related order cannot fulfill'')
        else andThen Now (\<lambda>now.
        handle (isRechargingOrderStale od now) failWith (\<lambda>stale.
        if po_Status od = OrderStatusRecharging \<and> \<not> stale then
          failWith (ApiError ''ORDER_PROCESSING'' ''order is still being fulfilled'')
        else case manualAmount od req of
          Inl err \<Rightarrow> failWith err
        | Inr paidAmount \<Rightarrow>
            if length tradeNo > 128 then failWith (ApiError ''INVALID_TRADE_NO'' ''trade no is too long'')
            else handle (markPaidManually od paidAmount tradeNo now) failWith (\<lambda>_.
              followedBy (writeAuditLog oid ''ORDER_MANUAL_FULFILL'' ''admin'') (executeFulfillment sv oid))))))"

section \<open>Asking the provider\<close>

definition requeryPaidOrderOnce :: "Provider \<Rightarrow> string \<Rightarrow> QueryOrderResponse option payProg" where
  "requeryPaidOrderOnce prov queryRef =
     (if TrimSpace queryRef = [] then Return None
      else andThen (ask (\<lambda>e. QueryOrder e prov queryRef)) (\<lambda>r. Return (case r of
        Inl _ \<Rightarrow> None
      | Inr resp \<Rightarrow> if qr_Status resp \<noteq> ''paid'' \<or> \<not> isValidProviderAmount (qr_Amount resp) then None else Some resp)))"

text \<open>\<^const>\<open>True\<close> is \<^verbatim>\<open>already_paid\<close>. Cancelling the payment upstream leaves the tables alone.\<close>

definition settlePaid :: "PaymentService \<Rightarrow> PaymentOrder \<Rightarrow> Provider \<Rightarrow> string \<Rightarrow> QueryOrderResponse \<Rightarrow> bool payProg" where
  "settlePaid sv od prov queryRef resp =
     (let upstreamTradeNo = TrimSpace (qr_TradeNo resp);
          persist = paymentOrderShouldPersistUpstreamTradeNo queryRef upstreamTradeNo (po_PaymentTradeNo od);
          tradeNo = (if persist then upstreamTradeNo else po_PaymentTradeNo od) in
      followedBy (if persist then updateOrders (\<lambda>_ x. po_ID x = po_ID od) (\<lambda>_ x. x\<lparr>po_PaymentTradeNo := upstreamTradeNo\<rparr>)
                  else Return (Inr 0))
      (followedBy (HandlePaymentNotification sv \<lparr>pn_TradeNo = tradeNo, pn_OrderID = po_OutTradeNo od,
          pn_Amount = qr_Amount resp, pn_Status = ''success'', pn_Metadata = qr_Metadata resp\<rparr> (pv_ProviderKey prov))
      (Return True)))"

definition checkPaid :: "PaymentService \<Rightarrow> PaymentOrder \<Rightarrow> bool payProg" where
  "checkPaid sv od =
     handle (getOrderProvider od) (\<lambda>_. Return False) (\<lambda>prov.
     let queryRef = paymentOrderQueryReference od prov in
     if queryRef = [] then Return False
     else handle (ask (\<lambda>e. QueryOrder e prov queryRef)) (\<lambda>_. Return False) (\<lambda>resp.
     if qr_Status resp = ''paid'' then
       if isValidProviderAmount (qr_Amount resp) then settlePaid sv od prov queryRef resp
       else followedBy (writeAuditLog (po_ID od) ''PAYMENT_INVALID_AMOUNT'' (pv_ProviderKey prov))
         (andThen (requeryPaidOrderOnce prov queryRef) (\<lambda>retried. case retried of
            None \<Rightarrow> Return False
          | Some resp' \<Rightarrow> settlePaid sv od prov queryRef resp'))
     else Return False))"

definition normalizeOrderLookupOutTradeNo :: "string \<Rightarrow> string result" where
  "normalizeOrderLookupOutTradeNo raw =
     (let no = TrimSpace raw;
          good = (\<lambda>c. (CHR ''a'' \<le> c \<and> c \<le> CHR ''z'') \<or> (CHR ''A'' \<le> c \<and> c \<le> CHR ''Z'') \<or>
                      (CHR ''0'' \<le> c \<and> c \<le> CHR ''9'') \<or> c = CHR ''_'' \<or> c = CHR ''-'') in
      if no = [] then Inl (ApiError ''INVALID_OUT_TRADE_NO'' ''out_trade_no is required'')
      else if length no > 64 \<or> \<not> list_all good no
      then Inl (ApiError ''INVALID_OUT_TRADE_NO'' ''out_trade_no is invalid'')
      else Inr no)"

definition VerifyOrderByOutTradeNo :: "PaymentService \<Rightarrow> string \<Rightarrow> int \<Rightarrow> PaymentOrder call" where
  "VerifyOrderByOutTradeNo sv raw userID = (case normalizeOrderLookupOutTradeNo raw of
     Inl err \<Rightarrow> failWith err
   | Inr no \<Rightarrow>
       handle (orderByOutTradeNo no) (\<lambda>_. failWith notFound) (\<lambda>od.
       if po_UserID od \<noteq> userID then failWith (ApiError ''FORBIDDEN'' ''no permission for this order'')
       else if po_Status od = OrderStatusPending \<or> po_Status od = OrderStatusExpired then
         andThen (checkPaid sv od) (\<lambda>paid.
         if paid then handle (getOrder (po_ID od)) (\<lambda>err. failWith (Because ''reload order'' err)) (\<lambda>x. Return (Inr x))
         else Return (Inr od))
       else Return (Inr od)))"

definition VerifyOrderPublic :: "string \<Rightarrow> PaymentOrder call" where
  "VerifyOrderPublic raw = (case normalizeOrderLookupOutTradeNo raw of
     Inl err \<Rightarrow> failWith err
   | Inr no \<Rightarrow> handle (orderByOutTradeNo no) (\<lambda>_. failWith notFound) (\<lambda>od. Return (Inr od)))"

section \<open>Cancelling and expiring\<close>

datatype cancelOutcome = AlreadyPaid | Cancelled

definition cancelTx :: "PaymentService \<Rightarrow> PaymentOrder \<Rightarrow> OrderStatus \<Rightarrow> bool call" where
  "cancelTx sv od fs = inTx
     (handle (updateOrders (\<lambda>_ x. po_ID x = po_ID od \<and> po_Status x = OrderStatusPending) (\<lambda>_ x. x\<lparr>po_Status := fs\<rparr>))
        (\<lambda>err. failWith (Because ''update order status'' err)) (\<lambda>c.
      if c = 0 then Return (Inr False)
      else (case (po_OrderType od = OrderTypeShop, shopFulfillment sv) of
          (True, Some shop) \<Rightarrow>
            handle (CancelPendingPaymentInTx shop (po_ID od) (if fs = OrderStatusExpired then ''failed'' else ''cancelled''))
              failWith (\<lambda>_. Return (Inr True))
        | _ \<Rightarrow> Return (Inr True))))"

definition cancelCore :: "PaymentService \<Rightarrow> PaymentOrder \<Rightarrow> OrderStatus \<Rightarrow> string \<Rightarrow> cancelOutcome call" where
  "cancelCore sv od fs op =
     andThen (if po_PaymentTradeNo od \<noteq> [] \<or> po_PaymentType od \<noteq> [] then checkPaid sv od else Return False) (\<lambda>paid.
     if paid then Return (Inr AlreadyPaid)
     else handle (cancelTx sv od fs) failWith (\<lambda>changed.
       followedBy (if changed then writeAuditLog (po_ID od)
           (if fs = OrderStatusExpired then ''ORDER_EXPIRED'' else ''ORDER_CANCELLED'') op else Return ())
       (Return (Inr Cancelled))))"

definition CancelOrder :: "PaymentService \<Rightarrow> int \<Rightarrow> int \<Rightarrow> cancelOutcome call" where
  "CancelOrder sv orderID userID =
     handle (getOrder orderID) (\<lambda>_. failWith notFound) (\<lambda>od.
     if po_UserID od \<noteq> userID then failWith (ApiError ''FORBIDDEN'' ''no permission for this order'')
     else if po_Status od \<noteq> OrderStatusPending
       then failWith (invalidStatus ''order cannot be cancelled in current status'')
     else cancelCore sv od OrderStatusCancelled (''user:'' @ Itoa userID))"

definition AdminCancelOrder :: "PaymentService \<Rightarrow> int \<Rightarrow> cancelOutcome call" where
  "AdminCancelOrder sv orderID =
     handle (getOrder orderID) (\<lambda>_. failWith notFound) (\<lambda>od.
     if po_Status od \<noteq> OrderStatusPending
       then failWith (invalidStatus ''order cannot be cancelled in current status'')
     else cancelCore sv od OrderStatusCancelled ''admin'')"

primrec failStaleLoop :: "gotime \<Rightarrow> duration \<Rightarrow> PaymentOrder list \<Rightarrow> nat \<Rightarrow> nat call" where
  "failStaleLoop now timeout [] failed = Return (Inr failed)"
| "failStaleLoop now timeout (od # ods) failed =
     handle (updateOrders (\<lambda>_ x. po_ID x = po_ID od \<and> po_Status x = OrderStatusRecharging \<and> po_UpdatedAt x \<le> now - timeout)
         (\<lambda>_ x. x\<lparr>po_Status := OrderStatusFailed, po_FailedAt := Some now,
            po_FailedReason := Some (PlainError (''fulfillment timed out after '' @ Itoa (timeout div minute) @
              '' minutes; retry manually''))\<rparr>))
       (\<lambda>err. failWith (Because ''mark stale recharging order failed'' err)) (\<lambda>c.
     if c = 0 then failStaleLoop now timeout ods failed
     else followedBy (writeAuditLog (po_ID od) ''FULFILLMENT_TIMEOUT'' ''system'')
       (failStaleLoop now timeout ods (Suc failed)))"

definition failStaleRechargingOrders :: "gotime \<Rightarrow> nat call" where
  "failStaleRechargingOrders now =
     handle rechargingTimeout failWith (\<lambda>timeout.
     handle (query (\<lambda>s. Inr (filter (\<lambda>x. po_Status x = OrderStatusRecharging \<and> po_UpdatedAt x \<le> now - timeout) (orders s))))
       (\<lambda>err. failWith (Because ''query stale recharging orders'' err)) (\<lambda>ods.
     failStaleLoop now timeout ods 0))"

primrec expireLoop :: "PaymentService \<Rightarrow> PaymentOrder list \<Rightarrow> nat \<Rightarrow> nat call" where
  "expireLoop sv [] n = Return (Inr n)"
| "expireLoop sv (od # ods) n =
     andThen (cancelCore sv od OrderStatusExpired ''system'') (\<lambda>r. case r of
       Inr Cancelled \<Rightarrow> expireLoop sv ods (Suc n)
     | _ \<Rightarrow> expireLoop sv ods n)"

definition ExpireTimedOutOrders :: "PaymentService \<Rightarrow> nat call" where
  "ExpireTimedOutOrders sv =
     andThen Now (\<lambda>now.
     handle (case shopFulfillment sv of None \<Rightarrow> ok
             | Some shop \<Rightarrow> ReleaseStalePaymentReservations shop (now - paymentGraceMinutes * minute)) failWith (\<lambda>_.
     handle (failStaleRechargingOrders now) failWith (\<lambda>staleRecharging.
     handle (query (\<lambda>s. Inr (filter (\<lambda>x. po_Status x = OrderStatusPending \<and> po_ExpiresAt x \<le> now) (orders s))))
       (\<lambda>err. failWith (Because ''query expired'' err)) (\<lambda>ods.
     expireLoop sv ods staleRecharging))))"

end
