(* ===== verification/Refunds.thy ===== *)
theory Refunds
  imports PaymentLifecycle
begin

text \<open>
  Refunds: \<^verbatim>\<open>backend/internal/service/payment_refund.go\<close>. A user asks for a refund of a completed
  recharge; an administrator prepares a plan, and executing it locks the order, takes the money or the
  subscription days back, calls the payment gateway, and either marks the order refunded or undoes the
  deduction.
\<close>

section \<open>Plans\<close>

datatype DeductionType = DeductionTypeBalance | DeductionTypeSubscription | DeductionTypeNone

record RefundPlan =
  rp_OrderID :: int
  rp_Order :: PaymentOrder
  rp_RefundAmount :: rat
  rp_GatewayAmount :: rat
  rp_Reason :: string
  rp_Force :: bool
  rp_DeductBalance :: bool
  rp_DeductionType :: DeductionType
  rp_BalanceToDeduct :: rat
  rp_SubDaysToDeduct :: int
  rp_SubscriptionID :: int

record RefundResult =
  rs_Success :: bool
  rs_Warning :: string
  rs_RequireForce :: bool
  rs_BalanceDeducted :: rat
  rs_SubDaysDeducted :: int

definition calculateGatewayRefundAmount :: "PaymentService \<Rightarrow> rat \<Rightarrow> rat \<Rightarrow> rat \<Rightarrow> string \<Rightarrow> rat" where
  "calculateGatewayRefundAmount sv orderAmount payAmount refundAmount currency =
     (if orderAmount \<le> 0 \<or> payAmount \<le> 0 \<or> refundAmount \<le> 0 then 0
      else let fractionDigits = CurrencyMaxFractionDigits currency in
        if \<bar>refundAmount - orderAmount\<bar> \<le> paymentAmountToleranceForCurrency currency
        then decimalRound sv fractionDigits payAmount
        else decimalRound sv fractionDigits (decimalDiv sv (payAmount * refundAmount) orderAmount))"

definition needForce :: "string \<Rightarrow> RefundResult" where
  "needForce w = \<lparr>rs_Success = False, rs_Warning = w, rs_RequireForce = True, rs_BalanceDeducted = 0,
     rs_SubDaysDeducted = 0\<rparr>"

definition prepDeduct :: "PaymentOrder \<Rightarrow> RefundPlan \<Rightarrow> bool \<Rightarrow> (RefundPlan + RefundResult) payProg" where
  "prepDeduct od p force =
     (if po_OrderType od = OrderTypeSubscription then
        let p = p\<lparr>rp_DeductionType := DeductionTypeSubscription\<rparr> in
        case (po_SubscriptionGroupID od, po_SubscriptionDays od) of
          (Some gid, Some days) \<Rightarrow>
            let p = p\<lparr>rp_SubDaysToDeduct := days\<rparr> in
            andThen (GetActiveSubscription (po_UserID od) gid) (\<lambda>r. Return (case r of
              Inr sub \<Rightarrow> Inl (p\<lparr>rp_SubscriptionID := us_ID sub\<rparr>)
            | Inl _ \<Rightarrow> if \<not> force
                then Inr (needForce ''cannot find active subscription for deduction, use force'') else Inl p))
        | _ \<Rightarrow> Return (Inl p)
      else andThen (getUser (po_UserID od)) (\<lambda>r. Return (case r of
        Inl _ \<Rightarrow> if \<not> force then Inr (needForce ''cannot fetch user balance, use force'') else Inl p
      | Inr u \<Rightarrow> Inl (p\<lparr>rp_DeductionType := DeductionTypeBalance,
                        rp_BalanceToDeduct := min (rp_RefundAmount p) (u_Balance u)\<rparr>))))"

definition refundable :: "OrderStatus set" where
  "refundable = {OrderStatusCompleted, OrderStatusRefundRequested, OrderStatusRefundFailed}"

definition refundReason :: "PaymentOrder \<Rightarrow> string \<Rightarrow> string" where
  "refundReason od reason =
     (let rr = TrimSpace reason; rr' = (if rr = [] then psStringValue (po_RefundRequestReason od) else rr) in
      if rr' = [] then ''refund order:'' @ Itoa (po_ID od) else rr')"

definition PrepareRefund ::
  "PaymentService \<Rightarrow> int \<Rightarrow> gofloat \<Rightarrow> string \<Rightarrow> bool \<Rightarrow> bool \<Rightarrow> (RefundPlan + RefundResult) call" where
  "PrepareRefund sv oid amt reason force deduct =
     handle (getOrder oid) (\<lambda>_. failWith notFound) (\<lambda>od.
     if po_Status od \<notin> refundable then failWith (invalidStatus ''order status does not allow refund'')
     else handle (getRefundOrderProviderInstance od)
         (\<lambda>_. failWith (ApiError ''PROVIDER_LOOKUP_FAILED'' ''failed to look up payment provider for this order'')) (\<lambda>inst.
     case inst of
       None \<Rightarrow> failWith (ApiError ''REFUND_DISABLED'' ''refund is not available for this order'')
     | Some i \<Rightarrow>
         if \<not> pi_RefundEnabled i then failWith (ApiError ''REFUND_DISABLED'' ''refund is not enabled for this provider'')
         else (case amt of
           GoFin q \<Rightarrow>
             let a = (if q \<le> 0 then po_Amount od else q); currency = PaymentOrderCurrency od in
             if a - po_Amount od > paymentAmountToleranceForCurrency currency
             then failWith (ApiError ''REFUND_AMOUNT_EXCEEDED'' ''refund amount exceeds recharge'')
             else let p = \<lparr>rp_OrderID = oid, rp_Order = od, rp_RefundAmount = a,
                    rp_GatewayAmount = calculateGatewayRefundAmount sv (po_Amount od) (po_PayAmount od) a currency,
                    rp_Reason = refundReason od reason, rp_Force = force, rp_DeductBalance = deduct,
                    rp_DeductionType = DeductionTypeNone, rp_BalanceToDeduct = 0, rp_SubDaysToDeduct = 0,
                    rp_SubscriptionID = 0\<rparr> in
               if deduct then andThen (prepDeduct od p force) (\<lambda>r. Return (Inr r)) else Return (Inr (Inl p))
         | _ \<Rightarrow> failWith (ApiError ''INVALID_AMOUNT'' ''invalid refund amount''))))"

section \<open>The request of a user\<close>

definition validateRefundRequest :: "int \<Rightarrow> int \<Rightarrow> PaymentOrder call" where
  "validateRefundRequest oid uid =
     handle (getOrder oid) (\<lambda>_. failWith notFound) (\<lambda>od.
     if po_UserID od \<noteq> uid then failWith (ApiError ''FORBIDDEN'' ''no permission'')
     else if po_OrderType od \<noteq> OrderTypeBalance
       then failWith (ApiError ''INVALID_ORDER_TYPE'' ''only balance orders can request refund'')
     else if po_Status od \<noteq> OrderStatusCompleted
       then failWith (invalidStatus ''only completed orders can request refund'')
     else andThen (getRefundOrderProviderInstance od) (\<lambda>r. case r of
       Inr (Some inst) \<Rightarrow>
         if \<not> pi_AllowUserRefund inst
         then failWith (ApiError ''USER_REFUND_DISABLED'' ''user refund is not enabled for this provider'')
         else Return (Inr od)
     | _ \<Rightarrow> failWith (ApiError ''USER_REFUND_DISABLED'' ''refund is not available for this order'')))"

definition RequestRefund :: "int \<Rightarrow> int \<Rightarrow> string \<Rightarrow> unit call" where
  "RequestRefund oid uid reason =
     handle (validateRefundRequest oid uid) failWith (\<lambda>od.
     handle (getUser (po_UserID od)) (\<lambda>err. failWith (Because ''get user'' err)) (\<lambda>u.
     if u_Balance u < po_Amount od then failWith (ApiError ''BALANCE_NOT_ENOUGH'' ''refund amount exceeds balance'')
     else handle (updateOrders (\<lambda>_ x. po_ID x = oid \<and> po_UserID x = uid \<and> po_Status x = OrderStatusCompleted \<and>
             po_OrderType x = OrderTypeBalance)
           (\<lambda>e x. x\<lparr>po_Status := OrderStatusRefundRequested, po_RefundRequestedAt := Some (clock e),
              po_RefundRequestReason := Some (TrimSpace reason), po_RefundRequestedBy := Some (Itoa uid),
              po_RefundAmount := amountColumn (po_Amount od)\<rparr>))
         (\<lambda>err. failWith (Because ''update'' err)) (\<lambda>c.
       if c = 0 then failWith (ApiError ''CONFLICT'' ''order status changed'')
       else followedBy (writeAuditLog oid ''REFUND_REQUESTED'' (''user:'' @ Itoa uid)) ok)))"

section \<open>Executing a plan\<close>

definition restoreStatus :: "RefundPlan \<Rightarrow> unit payProg" where
  "restoreStatus p =
     andThen (updateOrderOne (rp_OrderID p) (\<lambda>_ x. x\<lparr>po_Status :=
         (if po_Status (rp_Order p) = OrderStatusRefundRequested then OrderStatusRefundRequested else OrderStatusCompleted)\<rparr>))
       (\<lambda>_. Return ())"

text \<open>\<^verbatim>\<open>strconv.FormatFloat(x, 'f', 2, 64)\<close>, as the number it denotes; a tie goes to the even digit.\<close>

definition formatTwo :: "rat \<Rightarrow> rat" where
  "formatTwo x = (let c = x * 100; f = \<lfloor>c\<rfloor>; d = c - of_int f in
     of_int (if d < 1 / 2 then f else if d > 1 / 2 then f + 1 else if even f then f else f + 1) / 100)"

definition refundRequestOf :: "RefundPlan \<Rightarrow> RefundRequest" where
  "refundRequestOf p = \<lparr>rr_TradeNo = po_PaymentTradeNo (rp_Order p), rr_OrderID = po_OutTradeNo (rp_Order p),
     rr_Amount = formatTwo (rp_GatewayAmount p), rr_Reason = rp_Reason p\<rparr>"

definition getRefundProvider :: "PaymentOrder \<Rightarrow> Provider call" where
  "getRefundProvider od =
     handle (getRefundOrderProviderInstance od) failWith (\<lambda>inst. case inst of
       None \<Rightarrow> failWith (PlainError ''refund provider instance is unavailable'')
     | Some i \<Rightarrow> createProviderFromInstance i)"

definition gwRefund :: "RefundPlan \<Rightarrow> unit call" where
  "gwRefund p =
     (if po_PaymentTradeNo (rp_Order p) = []
      then followedBy (writeAuditLog (po_ID (rp_Order p)) ''REFUND_NO_TRADE_NO'' ''admin'') ok
      else handle (getRefundProvider (rp_Order p)) (\<lambda>err. failWith (Because ''get refund provider'' err)) (\<lambda>prov.
        case validateProviderSnapshotMetadata (rp_Order p) (pv_ProviderKey prov) (pv_Identity prov) of
          Some err \<Rightarrow> followedBy (writeAuditLog (po_ID (rp_Order p)) ''REFUND_PROVIDER_METADATA_MISMATCH'' ''admin'') (failWith err)
        | None \<Rightarrow> ask (\<lambda>e. case Refund e prov (refundRequestOf p) of None \<Rightarrow> Inr () | Some err \<Rightarrow> Inl err)))"

definition RollbackRefund :: "RefundPlan \<Rightarrow> bool payProg" where
  "RollbackRefund p =
     (let failed = followedBy (writeAuditLog (rp_OrderID p) ''REFUND_ROLLBACK_FAILED'' ''admin'') (Return False);
          subscription =
            (if rp_DeductionType p = DeductionTypeSubscription \<and> rp_SubDaysToDeduct p > 0 \<and> rp_SubscriptionID p > 0
             then handle (ExtendSubscription (rp_SubscriptionID p) (rp_SubDaysToDeduct p)) (\<lambda>_. failed) (\<lambda>_. Return True)
             else Return True) in
      if rp_DeductionType p = DeductionTypeBalance \<and> rp_BalanceToDeduct p > 0
      then handle (UpdateBalance (po_UserID (rp_Order p)) (rp_BalanceToDeduct p)) (\<lambda>_. failed) (\<lambda>_. subscription)
      else subscription)"

definition handleGwFail :: "RefundPlan \<Rightarrow> payError \<Rightarrow> RefundResult call" where
  "handleGwFail p gErr =
     andThen (RollbackRefund p) (\<lambda>rolledBack.
     if rolledBack then
       followedBy (restoreStatus p) (followedBy (writeAuditLog (rp_OrderID p) ''REFUND_GATEWAY_FAILED'' ''admin'')
         (Return (Inr \<lparr>rs_Success = False, rs_Warning = ''gateway failed, rolled back'', rs_RequireForce = False,
            rs_BalanceDeducted = 0, rs_SubDaysDeducted = 0\<rparr>)))
     else
       followedBy (updateOrderOne (rp_OrderID p) (\<lambda>e x. x\<lparr>po_Status := OrderStatusRefundFailed,
           po_FailedAt := Some (clock e), po_FailedReason := Some gErr\<rparr>))
       (followedBy (writeAuditLog (rp_OrderID p) ''REFUND_FAILED'' ''admin'')
         (failWith (ApiError ''REFUND_FAILED'' ''refund failed''))))"

definition markRefundOk :: "RefundPlan \<Rightarrow> RefundResult call" where
  "markRefundOk p =
     handle (updateOrderOne (rp_OrderID p) (\<lambda>e x. x\<lparr>po_Status :=
         (if rp_RefundAmount p < po_Amount (rp_Order p) then OrderStatusPartiallyRefunded else OrderStatusRefunded),
         po_RefundAmount := amountColumn (rp_RefundAmount p), po_RefundReason := Some (rp_Reason p), po_RefundAt := Some (clock e),
         po_ForceRefund := rp_Force p\<rparr>))
       (\<lambda>err. failWith (Because ''mark refund'' err)) (\<lambda>_.
     followedBy (writeAuditLog (rp_OrderID p) ''REFUND_SUCCESS'' ''admin'')
       (Return (Inr \<lparr>rs_Success = True, rs_Warning = [], rs_RequireForce = False,
          rs_BalanceDeducted = rp_BalanceToDeduct p, rs_SubDaysDeducted = rp_SubDaysToDeduct p\<rparr>)))"

text \<open>Each deduction returns the plan it leaves behind: nothing more to deduct after a rollback that had failed.\<close>

definition abort :: "RefundPlan \<Rightarrow> string \<Rightarrow> payError \<Rightarrow> 'a call" where
  "abort p what err = followedBy (restoreStatus p) (failWith (Because what err))"

definition deductBalanceStep :: "RefundPlan \<Rightarrow> RefundPlan call" where
  "deductBalanceStep p =
     (if rp_DeductionType p = DeductionTypeBalance \<and> rp_BalanceToDeduct p > 0 then
        andThen (hasAuditLog (rp_OrderID p) ''REFUND_ROLLBACK_FAILED'') (\<lambda>stuck.
        if stuck then Return (Inr (p\<lparr>rp_BalanceToDeduct := 0\<rparr>))
        else handle (DeductBalance (po_UserID (rp_Order p)) (rp_BalanceToDeduct p)) (abort p ''deduction'') (\<lambda>_. Return (Inr p)))
      else Return (Inr p))"

definition deductSubscriptionStep :: "RefundPlan \<Rightarrow> RefundPlan call" where
  "deductSubscriptionStep p =
     (if rp_DeductionType p = DeductionTypeSubscription \<and> rp_SubDaysToDeduct p > 0 \<and> rp_SubscriptionID p > 0 then
        andThen (hasAuditLog (rp_OrderID p) ''REFUND_ROLLBACK_FAILED'') (\<lambda>stuck.
        if stuck then Return (Inr (p\<lparr>rp_SubDaysToDeduct := 0\<rparr>))
        else handle (ExtendSubscription (rp_SubscriptionID p) (- rp_SubDaysToDeduct p))
          (\<lambda>err. if err = ErrAdjustWouldExpire
             then handle (RevokeSubscription (rp_SubscriptionID p)) (abort p ''revoke subscription'') (\<lambda>_. Return (Inr p))
             else abort p ''deduct subscription days'' err)
          (\<lambda>_. Return (Inr p)))
      else Return (Inr p))"

definition ExecuteRefund :: "RefundPlan \<Rightarrow> RefundResult call" where
  "ExecuteRefund p0 =
     handle (updateOrders (\<lambda>_ x. po_ID x = rp_OrderID p0 \<and> po_Status x \<in> refundable)
         (\<lambda>_ x. x\<lparr>po_Status := OrderStatusRefunding\<rparr>))
       (\<lambda>err. failWith (Because ''lock'' err)) (\<lambda>c.
     if c = 0 then failWith (ApiError ''CONFLICT'' ''order status changed'')
     else handle (deductBalanceStep p0) failWith (\<lambda>p1.
     handle (deductSubscriptionStep p1) failWith (\<lambda>p.
     handle (gwRefund p) (handleGwFail p) (\<lambda>_. markRefundOk p))))"

end
