(* ===== verification/PaymentSafety.thy ===== *)
theory PaymentSafety
  imports Refunds
begin

text \<open>
  What the payment operations keep, whichever way their statements interleave, fail or stop half-way:
  an invariant of the tables and the direction in which they change. The operations are programs of
  the shared-store logic of \<^verbatim>\<open>Programs\<close>, which is interpreted here on the payment tables.
\<close>

section \<open>The invariant\<close>

definition settled :: "PaymentOrder \<Rightarrow> bool" where
  "settled od \<longleftrightarrow> po_Status od = OrderStatusCompleted \<or> psIsRefundStatus (po_Status od)"

text \<open>Orders that are fulfilled by crediting the balance: all that are neither subscription nor shop orders.\<close>

definition isRecharge :: "PaymentOrder \<Rightarrow> bool" where
  "isRecharge od \<longleftrightarrow> po_OrderType od \<noteq> OrderTypeSubscription \<and> po_OrderType od \<noteq> OrderTypeShop"

definition usedCode :: "payDB \<Rightarrow> string \<Rightarrow> bool" where
  "usedCode s c \<longleftrightarrow> (\<exists>r \<in> set (codes s). rc_Code r = c \<and> IsUsed r)"

text \<open>The bookings a code has caused.\<close>

definition credits :: "payDB \<Rightarrow> string \<Rightarrow> LedgerEntry list" where
  "credits s c = filter (\<lambda>e. le_RefType e = ''redeem_code'' \<and> le_Code e = c) (ledger s)"

text \<open>
  The booking of a code of positive value: a credit to the user who redeemed it, of the value of
  the code, or of more when it lifts an overdrawn balance to zero.
\<close>

definition creditFor :: "RedeemCode \<Rightarrow> LedgerEntry \<Rightarrow> bool" where
  "creditFor r e \<longleftrightarrow> le_Direction e = ''credit'' \<and> rc_UsedBy r = Some (le_UserID e) \<and>
     (le_Amount e = rc_Value r \<or> rc_Value r < le_Amount e \<and> le_BalanceAfter e = 0)"

definition codesOk :: "payDB \<Rightarrow> bool" where
  "codesOk s \<longleftrightarrow> distinct (map rc_Code (codes s)) \<and> distinct (map rc_ID (codes s)) \<and>
     (\<forall>r \<in> set (codes s). rc_ID r < nextCodeID s \<and>
        (IsUsed r \<and> rc_Type r = RedeemTypeBalance \<and> 0 < rc_Value r \<longrightarrow>
           (\<exists>e. credits s (rc_Code r) = [e] \<and> creditFor r e)))"

definition ledgerOk :: "payDB \<Rightarrow> bool" where
  "ledgerOk s \<longleftrightarrow> (\<forall>c. length (credits s c) \<le> 1) \<and>
     (\<forall>e \<in> set (ledger s). le_RefType e = ''redeem_code'' \<longrightarrow>
        (\<exists>r \<in> set (codes s). rc_Code r = le_Code e \<and> le_RefID e = Some (rc_ID r) \<and> IsUsed r))"

definition rechargeOk :: "payDB \<Rightarrow> PaymentOrder \<Rightarrow> bool" where
  "rechargeOk s od \<longleftrightarrow> 0 < po_Amount od \<and> prefix ''PAY-'' (po_RechargeCode od) \<and>
     TrimSpace (po_RechargeCode od) = po_RechargeCode od \<and>
     (\<forall>r \<in> set (codes s). rc_Code r = po_RechargeCode od \<longrightarrow>
        rc_Type r = RedeemTypeBalance \<and> rc_Value r = po_Amount od) \<and>
     (settled od \<longrightarrow> usedCode s (po_RechargeCode od))"

definition ordersOk :: "payDB \<Rightarrow> bool" where
  "ordersOk s \<longleftrightarrow> distinct (map po_ID (orders s)) \<and>
     distinct (map po_RechargeCode (filter isRecharge (orders s))) \<and>
     (\<forall>od \<in> set (orders s). isRecharge od \<longrightarrow> rechargeOk s od)"

definition payInv :: "payDB \<Rightarrow> bool" where
  "payInv s \<longleftrightarrow> ordersOk s \<and> codesOk s \<and> ledgerOk s"

section \<open>The direction of change\<close>

definition sameOrder :: "PaymentOrder \<Rightarrow> PaymentOrder \<Rightarrow> bool" where
  "sameOrder a b \<longleftrightarrow> po_ID a = po_ID b \<and> po_UserID a = po_UserID b \<and> po_Amount a = po_Amount b \<and>
     po_RechargeCode a = po_RechargeCode b \<and> po_OrderType a = po_OrderType b"

definition sameCode :: "RedeemCode \<Rightarrow> RedeemCode \<Rightarrow> bool" where
  "sameCode a b \<longleftrightarrow> rc_ID a = rc_ID b \<and> rc_Code a = rc_Code b \<and> rc_Type a = rc_Type b \<and> rc_Value a = rc_Value b"

definition knows :: "PaymentOrder \<Rightarrow> payDB \<Rightarrow> bool" where
  "knows od s \<longleftrightarrow> (\<exists>x \<in> set (orders s). sameOrder od x)"

definition knowsCode :: "RedeemCode \<Rightarrow> payDB \<Rightarrow> bool" where
  "knowsCode r s \<longleftrightarrow> (\<exists>x \<in> set (codes s). sameCode r x)"

text \<open>
  Orders are kept, and stay settled unless they are shop orders: \<^verbatim>\<open>shop.go\<close> fails a completed order
  whose goods it cannot deliver. Codes are kept and stay used; bookings and audit entries are only added.
\<close>

definition payStep :: "payDB \<Rightarrow> payDB \<Rightarrow> bool" where
  "payStep s t \<longleftrightarrow>
     (\<forall>od \<in> set (orders s). \<exists>x \<in> set (orders t). sameOrder od x \<and>
        (settled od \<and> po_OrderType od \<noteq> OrderTypeShop \<longrightarrow> settled x)) \<and>
     (\<forall>r \<in> set (codes s). \<exists>x \<in> set (codes t). sameCode r x \<and> (IsUsed r \<longrightarrow> IsUsed x)) \<and>
     prefix (ledger s) (ledger t) \<and> prefix (audits s) (audits t)"

lemma sameOrder_refl [simp]: "sameOrder a a" by (simp add: sameOrder_def)
lemma sameCode_refl [simp]: "sameCode a a" by (simp add: sameCode_def)

lemma sameOrder_trans: "sameOrder a b \<Longrightarrow> sameOrder b c \<Longrightarrow> sameOrder a c" by (simp add: sameOrder_def)
lemma sameCode_trans: "sameCode a b \<Longrightarrow> sameCode b c \<Longrightarrow> sameCode a c" by (simp add: sameCode_def)

lemma same_rows [simp]:
  "\<forall>od \<in> set os. \<exists>x \<in> set os. sameOrder od x \<and> (settled od \<and> po_OrderType od \<noteq> OrderTypeShop \<longrightarrow> settled x)"
  "\<forall>r \<in> set cs. \<exists>x \<in> set cs. sameCode r x \<and> (IsUsed r \<longrightarrow> IsUsed x)"
  using sameOrder_refl sameCode_refl by blast+

lemma payStep_refl [simp]: "payStep s s"
  by (simp add: payStep_def)

lemma payStep_trans: "payStep s t \<Longrightarrow> payStep t u \<Longrightarrow> payStep s u"
proof -
  assume st: "payStep s t" and tu: "payStep t u"
  have "\<exists>x \<in> set (orders u). sameOrder od x \<and> (settled od \<and> po_OrderType od \<noteq> OrderTypeShop \<longrightarrow> settled x)"
    if od: "od \<in> set (orders s)" for od
  proof -
    obtain y where y: "y \<in> set (orders t)" "sameOrder od y" "settled od \<and> po_OrderType od \<noteq> OrderTypeShop \<longrightarrow> settled y"
      using st od unfolding payStep_def by blast
    obtain x where "x \<in> set (orders u)" "sameOrder y x" "settled y \<and> po_OrderType y \<noteq> OrderTypeShop \<longrightarrow> settled x"
      using tu y(1) unfolding payStep_def by blast
    with y show ?thesis by (intro bexI [of _ x]) (auto simp: sameOrder_def)
  qed
  moreover have "\<forall>r \<in> set (codes s). \<exists>x \<in> set (codes u). sameCode r x \<and> (IsUsed r \<longrightarrow> IsUsed x)"
    using st tu unfolding payStep_def by (meson sameCode_trans)
  ultimately show "payStep s u"
    using st tu unfolding payStep_def by (meson prefix_order.order_trans)
qed

interpretation pay: shared_store payInv payStep
  by unfold_locales (rule payStep_refl, rule payStep_trans)

lemma knows_later: "knows od s \<Longrightarrow> payStep s t \<Longrightarrow> knows od t"
  unfolding knows_def payStep_def by (meson sameOrder_trans)

lemma knowsCode_later: "knowsCode r s \<Longrightarrow> payStep s t \<Longrightarrow> knowsCode r t"
  unfolding knowsCode_def payStep_def by (meson sameCode_trans)

lemma usedCode_later: "usedCode s c \<Longrightarrow> payStep s t \<Longrightarrow> usedCode t c"
  unfolding usedCode_def payStep_def sameCode_def by metis

definition settledID :: "payDB \<Rightarrow> int \<Rightarrow> bool" where
  "settledID s i \<longleftrightarrow> (\<exists>od \<in> set (orders s). po_ID od = i \<and> (settled od \<or> po_OrderType od = OrderTypeShop))"

lemma settledID_later: "settledID s i \<Longrightarrow> payStep s t \<Longrightarrow> settledID t i"
proof -
  assume "settledID s i" and st: "payStep s t"
  then obtain od where od: "od \<in> set (orders s)" "po_ID od = i" "settled od \<or> po_OrderType od = OrderTypeShop"
    by (auto simp: settledID_def)
  with st obtain x where "x \<in> set (orders t)" "sameOrder od x" "settled od \<and> po_OrderType od \<noteq> OrderTypeShop \<longrightarrow> settled x"
    unfolding payStep_def by blast
  with od(2,3) show "settledID t i" by (auto simp: settledID_def sameOrder_def)
qed

lemmas later = knows_later knowsCode_later usedCode_later settledID_later

lemma same_order_row:
  "payInv s \<Longrightarrow> x \<in> set (orders s) \<Longrightarrow> y \<in> set (orders s) \<Longrightarrow> po_ID x = po_ID y \<Longrightarrow> x = y"
  by (auto simp: payInv_def ordersOk_def distinct_map inj_on_def)

lemma same_code_row:
  "payInv s \<Longrightarrow> x \<in> set (codes s) \<Longrightarrow> y \<in> set (codes s) \<Longrightarrow> rc_ID x = rc_ID y \<Longrightarrow> x = y"
  by (auto simp: payInv_def codesOk_def distinct_map inj_on_def)

section \<open>Changes to the orders\<close>

text \<open>
  A row-wise change of the orders is fine when it keeps their identity, unsettles no other than shop orders, and settles
  a recharge only when its code is used.
\<close>

definition orderChange :: "payDB \<Rightarrow> (PaymentOrder \<Rightarrow> PaymentOrder) \<Rightarrow> bool" where
  "orderChange s g \<longleftrightarrow> (\<forall>x \<in> set (orders s). sameOrder x (g x) \<and>
     (settled x \<and> po_OrderType x \<noteq> OrderTypeShop \<longrightarrow> settled (g x)) \<and>
     (settled (g x) \<and> isRecharge x \<longrightarrow> settled x \<or> usedCode s (po_RechargeCode x)))"

lemma isRecharge_same: "sameOrder a b \<Longrightarrow> isRecharge b \<longleftrightarrow> isRecharge a"
  by (simp add: sameOrder_def isRecharge_def)

lemma order_change:
  assumes "payInv s" "orderChange s g"
  shows "payInv (s\<lparr>orders := map g (orders s)\<rparr>) \<and> payStep s (s\<lparr>orders := map g (orders s)\<rparr>)"
proof -
  let ?t = "s\<lparr>orders := map g (orders s)\<rparr>"
  have g: "sameOrder x (g x)" "settled x \<and> po_OrderType x \<noteq> OrderTypeShop \<longrightarrow> settled (g x)"
      "settled (g x) \<Longrightarrow> isRecharge x \<Longrightarrow> settled x \<or> usedCode s (po_RechargeCode x)"
    if "x \<in> set (orders s)" for x
    using assms(2) that by (auto simp: orderChange_def)
  have "map po_ID (orders ?t) = map po_ID (orders s)"
    using g(1) by (auto simp: sameOrder_def)
  then have ids: "distinct (map po_ID (orders ?t))" using assms(1) by (simp only: payInv_def ordersOk_def)
  have "map po_RechargeCode (filter isRecharge (map g os)) = map po_RechargeCode (filter isRecharge os)"
    if "\<forall>x \<in> set os. sameOrder x (g x)" for os
    using that by (induction os) (auto simp: isRecharge_same sameOrder_def isRecharge_def)
  with g(1) have "map po_RechargeCode (filter isRecharge (orders ?t)) = map po_RechargeCode (filter isRecharge (orders s))"
    by simp
  then have recharge: "distinct (map po_RechargeCode (filter isRecharge (orders ?t)))"
    using assms(1) by (simp only: payInv_def ordersOk_def)
  have "rechargeOk ?t (g x)" if x: "x \<in> set (orders s)" "isRecharge (g x)" for x
  proof -
    from x(2) isRecharge_same [OF g(1) [OF x(1)]] have r: "isRecharge x" by simp
    with x assms(1) have ok: "rechargeOk s x" by (auto simp: payInv_def ordersOk_def)
    from g(1) [OF x(1)] have same: "po_Amount (g x) = po_Amount x" "po_RechargeCode (g x) = po_RechargeCode x"
      by (auto simp: sameOrder_def)
    from ok g(3) [OF x(1)] r have "settled (g x) \<Longrightarrow> usedCode s (po_RechargeCode x)"
      by (auto simp: rechargeOk_def)
    with ok same show ?thesis by (auto simp: rechargeOk_def usedCode_def)
  qed
  with ids recharge have "ordersOk ?t" unfolding ordersOk_def by auto
  moreover from assms(1) have "codesOk ?t" "ledgerOk ?t"
    by (auto simp: payInv_def codesOk_def ledgerOk_def credits_def)
  moreover have "payStep s ?t" unfolding payStep_def using g by simp blast
  ultimately show ?thesis by (simp add: payInv_def)
qed

text \<open>The rule for \<^verbatim>\<open>UPDATE payment_orders\<close>.\<close>

definition rowChange :: "('x \<Rightarrow> bool) \<Rightarrow> ('x \<Rightarrow> 'x) \<Rightarrow> 'x \<Rightarrow> 'x" where
  "rowChange P f x = (if P x then f x else x)"

lemma setRows_map: "setRows P f rs = map (rowChange P f) rs"
  by (simp add: setRows_def rowChange_def)

lemma UpdatedAt_irrelevant [simp]:
  "settled (x\<lparr>po_UpdatedAt := u\<rparr>) = settled x" "sameOrder y (x\<lparr>po_UpdatedAt := u\<rparr>) = sameOrder y x"
  by (simp_all add: settled_def sameOrder_def)

lemma updateOrders_change:
  assumes "payInv t" "orderChange t (rowChange (P e) (f e))"
  shows "payInv (t\<lparr>orders := setRows (P e) (\<lambda>od. (f e od)\<lparr>po_UpdatedAt := clock e\<rparr>) (orders t)\<rparr>) \<and>
    payStep t (t\<lparr>orders := setRows (P e) (\<lambda>od. (f e od)\<lparr>po_UpdatedAt := clock e\<rparr>) (orders t)\<rparr>)"
proof -
  have "orderChange t (rowChange (P e) (\<lambda>od. (f e od)\<lparr>po_UpdatedAt := clock e\<rparr>))"
    using assms(2) unfolding orderChange_def rowChange_def by (fastforce split: if_splits)
  with order_change [OF assms(1)] show ?thesis by (simp add: setRows_map)
qed

lemma safe_updateOrders:
  assumes "\<And>t e. payInv t \<Longrightarrow> payStep s t \<Longrightarrow> orderChange t (rowChange (P e) (f e))"
    and "\<And>t e c u. payInv t \<Longrightarrow> payStep s t \<Longrightarrow> (0 < c \<Longrightarrow> \<exists>x \<in> set (orders t). P e x) \<Longrightarrow> payInv u \<Longrightarrow>
       payStep (t\<lparr>orders := setRows (P e) (\<lambda>od. (f e od)\<lparr>po_UpdatedAt := clock e\<rparr>) (orders t)\<rparr>) u \<Longrightarrow> Q (Inr c) u"
    and "\<And>t. payInv t \<Longrightarrow> payStep s t \<Longrightarrow> Q (Inl DbError) t"
  shows "safe payInv payStep Q (updateOrders P f) s"
  unfolding updateOrders_def update_def
proof (rule pay.safe_statement)
  fix t e assume t: "payInv t" "payStep s t"
  show "payInv (snd (Inr (length (filter (P e) (orders t))),
      t\<lparr>orders := setRows (P e) (\<lambda>od. f e od\<lparr>po_UpdatedAt := clock e\<rparr>) (orders t)\<rparr>)) \<and>
    payStep t (snd (Inr (length (filter (P e) (orders t))),
      t\<lparr>orders := setRows (P e) (\<lambda>od. f e od\<lparr>po_UpdatedAt := clock e\<rparr>) (orders t)\<rparr>))"
    using updateOrders_change [OF t(1), of P e f] assms(1) [OF t, of e] by simp
next
  fix t e u
  assume "payInv t" "payStep s t" "payInv u" "payStep (snd (Inr (length (filter (P e) (orders t))),
      t\<lparr>orders := setRows (P e) (\<lambda>od. f e od\<lparr>po_UpdatedAt := clock e\<rparr>) (orders t)\<rparr>)) u"
  then show "Q (fst (Inr (length (filter (P e) (orders t))),
      t\<lparr>orders := setRows (P e) (\<lambda>od. f e od\<lparr>po_UpdatedAt := clock e\<rparr>) (orders t)\<rparr>)) u"
    using assms(2) [of t "length (filter (P e) (orders t))" e u] by (auto simp: filter_empty_conv)
qed (rule assms(3))

lemma benign_updateOrders:
  assumes "\<And>t e. payInv t \<Longrightarrow> orderChange t (rowChange (P e) (f e))"
  shows "benign payInv payStep (updateOrders P f)"
  unfolding benign_def using assms by (auto intro: safe_updateOrders)

section \<open>Statements that leave orders, codes and bookings alone\<close>

lemma payInv_other [simp]:
  "payInv (s\<lparr>users := a\<rparr>) = payInv s" "payInv (s\<lparr>audits := b\<rparr>) = payInv s"
  "payInv (s\<lparr>subscriptions := c\<rparr>) = payInv s" "payInv (s\<lparr>pointsLedger := d\<rparr>) = payInv s"
  "payInv (s\<lparr>nextSubID := i\<rparr>) = payInv s"
  by (simp_all add: payInv_def ordersOk_def rechargeOk_def codesOk_def ledgerOk_def credits_def usedCode_def)

lemma payStep_other [simp]:
  "payStep s (t\<lparr>users := a\<rparr>) = payStep s t" "payStep s (t\<lparr>subscriptions := c\<rparr>) = payStep s t"
  "payStep s (t\<lparr>pointsLedger := d\<rparr>) = payStep s t" "payStep s (t\<lparr>nextSubID := i\<rparr>) = payStep s t"
  by (simp_all add: payStep_def)

lemma payInv_setUser [simp]: "payInv (setUser s i f) = payInv s" "payStep t (setUser s i f) = payStep t s"
  by (simp_all add: setUser_def)

lemma payStep_audit: "payStep s (s\<lparr>audits := audits s @ as\<rparr>)"
  by (simp add: payStep_def)

named_theorems benign_intros \<open>operations that are safe from every store\<close>

lemmas benign_rules [benign_intros] = pay.benign_Return pay.benign_andThen pay.benign_handle pay.benign_followedBy
  pay.benign_ask pay.benign_if pay.benign_option pay.benign_sum pay.benign_Let

lemma benign_query [benign_intros]: "benign payInv payStep (query g)"
  unfolding query_def by (rule pay.benign_read) simp

lemma benign_failWith [benign_intros]: "benign payInv payStep (failWith x)"
  by (simp add: failWith_def)

lemma benign_ok [benign_intros]: "benign payInv payStep ok"
  by (simp add: ok_def)

lemma benign_inTx [benign_intros]: "benign payInv payStep p \<Longrightarrow> benign payInv payStep (inTx p)"
  unfolding inTx_def by (rule pay.benign_transaction)

lemma benign_update:
  "(\<And>t e. payInv t \<Longrightarrow> payInv (snd (g e t)) \<and> payStep t (snd (g e t))) \<Longrightarrow> benign payInv payStep (update g)"
  unfolding update_def by (rule pay.benign_statement)

lemma benign_onUser [benign_intros]: "benign payInv payStep (onUser i f)"
  unfolding onUser_def by (rule benign_update) (simp split: option.split)

lemma benign_onSub [benign_intros]: "benign payInv payStep (onSub i f)"
  unfolding onSub_def by (rule benign_update) simp

lemma benign_writeAuditLog [benign_intros]: "benign payInv payStep (writeAuditLog i a b)"
  unfolding writeAuditLog_def by (intro benign_intros benign_update) (simp add: payStep_audit)

lemma benign_CreateSub [benign_intros]: "benign payInv payStep (CreateSub sub)"
  unfolding CreateSub_def by (rule benign_update) simp

lemma benign_DeleteSub [benign_intros]: "benign payInv payStep (DeleteSub i)"
  unfolding DeleteSub_def by (rule benign_update) simp

lemma benign_reads [benign_intros]:
  "benign payInv payStep (getOrder i)" "benign payInv payStep (orderByOutTradeNo no)"
  "benign payInv payStep (getUser i)" "benign payInv payStep (getGroup i)" "benign payInv payStep (getSubByID i)"
  "benign payInv payStep (GetByUserIDAndGroupID u g)" "benign payInv payStep (GetByCode c)"
  "benign payInv payStep (GetByID i)" "benign payInv payStep (getInstance i)"
  "benign payInv payStep (hasAuditLog i a)" "benign payInv payStep Now"
  "benign payInv payStep (GetActiveByUserIDAndGroupID u g)"
  unfolding getOrder_def orderByOutTradeNo_def getUser_def getGroup_def getSubByID_def GetByUserIDAndGroupID_def
    GetByCode_def GetByID_def getInstance_def hasAuditLog_def Now_def GetActiveByUserIDAndGroupID_def
  by (intro benign_intros pay.benign_read; simp)+

lemma benign_subscription [benign_intros]:
  "benign payInv payStep (AssignOrExtendSubscription inp)" "benign payInv payStep (ExtendSubscription i d)"
  "benign payInv payStep (RevokeSubscription i)" "benign payInv payStep (GetActiveSubscription u g)"
  "benign payInv payStep (reduceOrCancelSubscription u g d c)"
  unfolding AssignOrExtendSubscription_def ExtendSubscription_def RevokeSubscription_def GetActiveSubscription_def
    reduceOrCancelSubscription_def updateExistingSubscriptionTerm_def createSubscription_def
    ExtendExpiry_def UpdateStatus_def UpdateNotes_def UpdateSub_def
  by (intro benign_intros)+

lemma benign_balance [benign_intros]:
  "benign payInv payStep (UpdateBalance i a)" "benign payInv payStep (DeductBalance i a)"
  "benign payInv payStep (UpdateConcurrency i n)"
  unfolding UpdateBalance_def DeductBalance_def UpdateConcurrency_def by (intro benign_intros)+

lemma benign_providers [benign_intros]:
  "benign payInv payStep (getOrderProviderInstance od)" "benign payInv payStep (getRefundOrderProviderInstance od)"
  "benign payInv payStep (createProviderFromInstance inst)" "benign payInv payStep (webhookRegistryFallbackAllowed k)"
  unfolding getOrderProviderInstance_def getRefundOrderProviderInstance_def createProviderFromInstance_def
    webhookRegistryFallbackAllowed_def resolveSnapshotOrderProviderInstance_def resolveUniqueLegacyOrderProviderInstance_def
  by (intro benign_intros)+

lemma benign_getOrderProvider [benign_intros]: "benign payInv payStep (getOrderProvider od)"
  unfolding getOrderProvider_def by (intro benign_intros)

section \<open>Changes to the codes\<close>

text \<open>A new code must agree with the recharge order it is named after, if any.\<close>

definition fits :: "RedeemCode \<Rightarrow> payDB \<Rightarrow> bool" where
  "fits code s \<longleftrightarrow> (\<forall>od \<in> set (orders s). isRecharge od \<and> po_RechargeCode od = rc_Code code \<longrightarrow>
     rc_Type code = RedeemTypeBalance \<and> rc_Value code = po_Amount od)"

lemma code_added:
  assumes "payInv s" "codeOf s (rc_Code code) = None" "fits code s" "\<not> IsUsed code"
  shows "payInv (s\<lparr>codes := codes s @ [code\<lparr>rc_ID := nextCodeID s\<rparr>], nextCodeID := nextCodeID s + 1\<rparr>) \<and>
    payStep s (s\<lparr>codes := codes s @ [code\<lparr>rc_ID := nextCodeID s\<rparr>], nextCodeID := nextCodeID s + 1\<rparr>)"
    (is "payInv ?t \<and> _")
proof -
  have new: "rc_Code r \<noteq> rc_Code code" if "r \<in> set (codes s)" for r
    using assms(2) that by (auto simp: codeOf_def find_None_iff)
  have "\<not> IsUsed (code\<lparr>rc_ID := nextCodeID s\<rparr>)" using assms(4) by (simp add: IsUsed_def)
  then have used: "usedCode ?t c = usedCode s c" for c by (simp add: usedCode_def)
  have "rechargeOk ?t od" if "od \<in> set (orders s)" "isRecharge od" for od
    using that assms(1,3) by (auto simp: rechargeOk_def used payInv_def ordersOk_def fits_def)
  then have "ordersOk ?t" using assms(1) by (simp add: payInv_def ordersOk_def)
  moreover have "codesOk ?t"
  proof -
    have c: "credits ?t c = credits s c" for c by (simp add: credits_def)
    have "distinct (map rc_Code (codes ?t))" using assms(1) new by (force simp: payInv_def codesOk_def)
    moreover have "distinct (map rc_ID (codes ?t))" using assms(1) by (fastforce simp: payInv_def codesOk_def)
    moreover have "rc_ID r < nextCodeID ?t" if "r \<in> set (codes ?t)" for r
      using that assms(1) by (fastforce simp: payInv_def codesOk_def)
    ultimately show ?thesis
      using assms(1,4) unfolding codesOk_def c payInv_def by (auto simp: IsUsed_def)
  qed
  moreover have "ledgerOk ?t"
    using assms(1) unfolding payInv_def ledgerOk_def credits_def by (auto simp: bex_Un)
  moreover have "payStep s ?t" unfolding payStep_def using sameCode_refl by simp
  ultimately show ?thesis by (simp add: payInv_def)
qed

lemma safe_Create:
  assumes "\<And>t. payInv t \<Longrightarrow> payStep s t \<Longrightarrow> fits code t" "\<not> IsUsed code"
  shows "safe payInv payStep (\<lambda>_ _. True) (Create code) s"
  unfolding Create_def update_def
proof (rule pay.safe_statement)
  fix t e assume "payInv t" "payStep s t"
  with assms code_added [of t code]
  show "payInv (snd (case codeOf t (rc_Code code) of Some _ \<Rightarrow> (Inl DbError, t)
     | None \<Rightarrow> (Inr (nextCodeID t), t\<lparr>codes := codes t @ [code\<lparr>rc_ID := nextCodeID t\<rparr>], nextCodeID := nextCodeID t + 1\<rparr>))) \<and>
    payStep t (snd (case codeOf t (rc_Code code) of Some _ \<Rightarrow> (Inl DbError, t)
     | None \<Rightarrow> (Inr (nextCodeID t), t\<lparr>codes := codes t @ [code\<lparr>rc_ID := nextCodeID t\<rparr>], nextCodeID := nextCodeID t + 1\<rparr>)))"
    by (simp split: option.split)
qed simp_all

lemma safe_CreateCode:
  assumes "\<And>t. payInv t \<Longrightarrow> payStep s t \<Longrightarrow> fits (code\<lparr>rc_Code := TrimSpace (rc_Code code)\<rparr>) t"
    and "\<not> IsUsed code" "rc_Type code \<noteq> []"
  shows "safe payInv payStep (\<lambda>_ _. True) (CreateCode code) s"
proof -
  have "safe payInv payStep (\<lambda>_ _. True) (Create c) s"
    if "c = code\<lparr>rc_Code := TrimSpace (rc_Code code)\<rparr> \<or> c = code\<lparr>rc_Code := TrimSpace (rc_Code code), rc_Status := StatusUnused\<rparr>" for c
    using that assms(1,2)
    by (intro safe_Create) (fastforce simp: fits_def IsUsed_def row_status_defs)+
  then show ?thesis
    using assms(3) unfolding CreateCode_def Let_def
    by (auto split: option.split intro!: pay.safe_handle_bind [of "\<lambda>_ _. True"] pay.benign_safe [OF benign_failWith])
qed

section \<open>Redeeming\<close>

definition markUsed :: "int \<Rightarrow> int \<Rightarrow> gotime \<Rightarrow> RedeemCode \<Rightarrow> RedeemCode" where
  "markUsed i userID now = rowChange (\<lambda>r. rc_ID r = i \<and> rc_Status r = StatusUnused)
     (\<lambda>r. r\<lparr>rc_Status := StatusUsed, rc_UsedBy := Some userID, rc_UsedAt := Some now\<rparr>)"

lemma markUsed_same [simp]: "sameCode r (markUsed i u n r)" "IsUsed r \<Longrightarrow> IsUsed (markUsed i u n r)"
  "rc_Code (markUsed i u n r) = rc_Code r" "rc_ID (markUsed i u n r) = rc_ID r"
  "rc_Type (markUsed i u n r) = rc_Type r" "rc_Value (markUsed i u n r) = rc_Value r"
  by (simp_all add: markUsed_def rowChange_def sameCode_def IsUsed_def)

lemma markUsed_other: "rc_ID r \<noteq> i \<Longrightarrow> markUsed i u n r = r"
  by (simp add: markUsed_def rowChange_def)

lemma markUsed_this:
  "rc_Status r = StatusUnused \<Longrightarrow> IsUsed (markUsed (rc_ID r) u n r) \<and> rc_UsedBy (markUsed (rc_ID r) u n r) = Some u"
  by (simp add: markUsed_def rowChange_def IsUsed_def)

lemma unused_not_used: "rc_Status r = StatusUnused \<Longrightarrow> \<not> IsUsed r"
  by (simp add: IsUsed_def row_status_defs)

text \<open>Nothing was booked for a code that is still unused.\<close>

lemma unused_no_credits:
  assumes "payInv s" "x \<in> set (codes s)" "rc_Status x = StatusUnused"
  shows "credits s (rc_Code x) = []"
proof -
  have "le_Code e \<noteq> rc_Code x" if e: "e \<in> set (ledger s)" "le_RefType e = ''redeem_code''" for e
  proof
    assume "le_Code e = rc_Code x"
    with e assms(1) obtain r where "r \<in> set (codes s)" "rc_Code r = rc_Code x" "IsUsed r"
      by (auto simp: payInv_def ledgerOk_def)
    with assms unused_not_used [OF assms(3)] show False
      by (auto simp: payInv_def codesOk_def distinct_map inj_on_def)
  qed
  then show ?thesis by (auto simp: credits_def filter_empty_conv)
qed

text \<open>
  A redeemed code is used, and booked once if it is a balance code of positive value. Other codes may
  be booked, at most once.
\<close>

lemma code_redeemed:
  assumes "payInv s" "x \<in> set (codes s)" "rc_Status x = StatusUnused"
    and "\<forall>e \<in> set es. le_RefType e = ''redeem_code'' \<and> le_Code e = rc_Code x \<and> le_RefID e = Some (rc_ID x)"
    and "length es \<le> 1"
    and "rc_Type x = RedeemTypeBalance \<Longrightarrow> 0 < rc_Value x \<Longrightarrow>
      \<exists>e. es = [e] \<and> creditFor (markUsed (rc_ID x) userID now x) e"
  shows "payInv (s\<lparr>codes := map (markUsed (rc_ID x) userID now) (codes s), ledger := ledger s @ es\<rparr>) \<and>
    payStep s (s\<lparr>codes := map (markUsed (rc_ID x) userID now) (codes s), ledger := ledger s @ es\<rparr>)"
    (is "payInv ?t \<and> _")
proof -
  let ?m = "markUsed (rc_ID x) userID now"
  have x: "rc_ID r = rc_ID x \<Longrightarrow> r = x" if "r \<in> set (codes s)" for r
    using same_code_row [OF assms(1) that assms(2)] by simp
  have code: "rc_Code r = rc_Code x \<Longrightarrow> r = x" if "r \<in> set (codes s)" for r
    using assms(1,2) that by (auto simp: payInv_def codesOk_def distinct_map inj_on_def)
  have "filter (\<lambda>e. le_RefType e = ''redeem_code'' \<and> le_Code e = c) es = (if c = rc_Code x then es else [])" for c
    using assms(4) by (auto simp: filter_id_conv filter_empty_conv)
  then have credits: "credits ?t c = (if c = rc_Code x then es else credits s c)" for c
    using unused_no_credits [OF assms(1-3)] by (auto simp: credits_def)
  have codes: "codesOk ?t"
  proof -
    have "(\<exists>e. credits ?t (rc_Code (?m r)) = [e] \<and> creditFor (?m r) e)"
      if r: "r \<in> set (codes s)" "IsUsed (?m r)" "rc_Type (?m r) = RedeemTypeBalance" "0 < rc_Value (?m r)" for r
    proof (cases "r = x")
      case True
      with r assms(6) show ?thesis by (auto simp: credits)
    next
      case False
      with x [OF r(1)] have m: "?m r = r" by (auto intro: markUsed_other)
      with r assms(1) have "\<exists>e. credits s (rc_Code r) = [e] \<and> creditFor r e" by (auto simp: payInv_def codesOk_def)
      with m code [OF r(1)] False show ?thesis by (auto simp: credits)
    qed
    with assms(1) show ?thesis by (auto simp: payInv_def codesOk_def o_def)
  qed
  have "ledgerOk ?t"
  proof -
    have "\<exists>r \<in> set (codes ?t). rc_Code r = le_Code e \<and> le_RefID e = Some (rc_ID r) \<and> IsUsed r"
      if "e \<in> set (ledger ?t)" "le_RefType e = ''redeem_code''" for e
    proof (cases "e \<in> set es")
      case True
      with assms(2-4) markUsed_this [of x] show ?thesis by (auto intro!: bexI [of _ x])
    next
      case False
      with that assms(1) obtain r where "r \<in> set (codes s)" "rc_Code r = le_Code e" "le_RefID e = Some (rc_ID r)" "IsUsed r"
        by (auto simp: payInv_def ledgerOk_def)
      then show ?thesis by (auto intro!: bexI [of _ r])
    qed
    with assms(1,5) show ?thesis by (simp add: payInv_def ledgerOk_def credits)
  qed
  moreover have used: "usedCode s c \<Longrightarrow> usedCode ?t c" for c by (force simp: usedCode_def)
  have "ordersOk ?t"
    using assms(1) used unfolding payInv_def ordersOk_def rechargeOk_def by auto
  moreover have "\<forall>r \<in> set (codes s). \<exists>y \<in> set (codes ?t). sameCode r y \<and> (IsUsed r \<longrightarrow> IsUsed y)"
  proof
    fix r assume "r \<in> set (codes s)"
    then show "\<exists>y \<in> set (codes ?t). sameCode r y \<and> (IsUsed r \<longrightarrow> IsUsed y)"
      by (intro bexI [of _ "?m r"]) simp_all
  qed
  then have "payStep s ?t" unfolding payStep_def by simp
  ultimately show ?thesis using codes by (simp add: payInv_def)
qed

lemma exec_Use:
  "fault e = Works \<Longrightarrow> exec e (Use i u) t =
     (if list_ex (\<lambda>r. rc_ID r = i \<and> rc_Status r = StatusUnused) (codes t)
      then (Inr (), t\<lparr>codes := map (markUsed i u (clock e)) (codes t)\<rparr>) else (Inl ErrRedeemCodeUsed, t))"
  by (simp add: Use_def setRows_map markUsed_def)

lemma ledgerDelta_credit:
  assumes "ledgerDelta inp cur = (d, b)" "bl_ClampZero inp" "0 < bl_Delta inp"
  shows "0 < d \<and> (d = bl_Delta inp \<or> bl_Delta inp < d \<and> b = 0)"
  using assms by (auto simp: ledgerDelta_def Let_def split: if_splits)

lemma exec_ApplyBalanceLedgerDelta:
  assumes "fault e = Works" "exec e (ApplyBalanceLedgerDelta inp) t = (Inr v, u)"
  shows "\<exists>us cur d b. ledgerDelta inp cur = (d, b) \<and>
    u = t\<lparr>users := us, ledger := (if d = 0 then ledger t else insertLedger (ledger t) (ledgerEntry inp d b))\<rparr>"
proof -
  from assms obtain w where w: "userOf t (bl_UserID inp) = Some w"
    by (auto simp: ApplyBalanceLedgerDelta_def split: if_splits option.splits prod.splits sum.splits)
  obtain d b where db: "ledgerDelta inp (u_Balance w) = (d, b)" by fastforce
  have t: "t = t\<lparr>users := users t, ledger := ledger t\<rparr>" by simp
  have "u = t\<lparr>users := (if d = 0 then users t else users u),
      ledger := (if d = 0 then ledger t else insertLedger (ledger t) (ledgerEntry inp d b))\<rparr>"
    using assms w db t by (auto simp: ApplyBalanceLedgerDelta_def setUser_def Let_def split: if_splits)
  with db show ?thesis by blast
qed

text \<open>The booking of a code that was unused a moment ago is not a duplicate.\<close>

lemma insertLedger_new:
  assumes "payInv s" "x \<in> set (codes s)" "rc_Status x = StatusUnused"
    and "le_RefType e = ''redeem_code''" "le_RefID e = Some (rc_ID x)"
  shows "insertLedger (ledger s) e = ledger s @ [e]"
proof -
  have "\<not> sameLedgerRef e a" if "a \<in> set (ledger s)" for a
  proof
    assume "sameLedgerRef e a"
    with assms(4,5) have "le_RefType a = ''redeem_code''" "le_RefID a = Some (rc_ID x)" by (auto simp: sameLedgerRef_def)
    with assms(1) that obtain r where "r \<in> set (codes s)" "rc_ID r = rc_ID x" "IsUsed r"
      by (auto simp: payInv_def ledgerOk_def)
    with same_code_row [OF assms(1) _ assms(2)] unused_not_used [OF assms(3)] show False by auto
  qed
  then show ?thesis by (auto simp: insertLedger_def list_ex_iff)
qed

lemma redeem_balance_exec:
  assumes "payInv t" "knowsCode r t" "rc_Type r = RedeemTypeBalance" "fault e = Works"
    and "exec e (handle (Use (rc_ID r) userID) h (\<lambda>_. grantRedeemed r userID user)) t = (Inr v, u)"
    and "\<And>err s. \<exists>x. exec e (h err) s = (Inl x, s)"
  shows "payInv u \<and> payStep t u \<and> usedCode u (rc_Code r)"
proof -
  from assms(2) obtain x where x: "x \<in> set (codes t)" "sameCode r x" by (auto simp: knowsCode_def)
  let ?t = "t\<lparr>codes := map (markUsed (rc_ID r) userID (clock e)) (codes t)\<rparr>"
  from assms(4-6) obtain w where w: "exec e (ApplyBalanceLedgerDelta (redeemLedgerInput r userID)) ?t = (Inr w, u)"
    and "list_ex (\<lambda>r'. rc_ID r' = rc_ID r \<and> rc_Status r' = StatusUnused) (codes t)"
    using assms(3)
    by (auto simp: exec_Use grantRedeemed_def split: if_splits prod.splits sum.splits) (metis Pair_inject sum.distinct(1))
  with x same_code_row [OF assms(1) _ x(1)] have unused: "rc_Status x = StatusUnused"
    by (auto simp: list_ex_iff sameCode_def)
  from exec_ApplyBalanceLedgerDelta [OF assms(4) w] obtain us cur
d b where db: "ledgerDelta (redeemLedgerInput r userID) cur = (d, b)"
      and u: "u = ?t\<lparr>users := us, ledger := (if d = 0 then ledger ?t
        else insertLedger (ledger ?t) (ledgerEntry (redeemLedgerInput r userID) d b))\<rparr>"
    by blast
  define en where "en = ledgerEntry (redeemLedgerInput r userID) d b"
  define es where "es = (if d = 0 then [] else [en])"
  have en: "le_RefType en = ''redeem_code''" "le_Code en = rc_Code x" "le_RefID en = Some (rc_ID x)"
    using x(2) by (simp_all add: en_def ledgerEntry_def redeemLedgerInput_def sameCode_def)
  then have u: "u = t\<lparr>codes := map (markUsed (rc_ID x) userID (clock e)) (codes t), ledger := ledger t @ es\<rparr>\<lparr>users := us\<rparr>"
    using u insertLedger_new [OF assms(1) x(1) unused en(1,3)] x(2) by (simp add: es_def en_def sameCode_def)
  have "\<exists>a. es = [a] \<and> creditFor (markUsed (rc_ID x) userID (clock e) x) a" if "0 < rc_Value x"
    using ledgerDelta_credit [OF db] that x(2) markUsed_this [OF unused]
    by (auto simp: es_def en_def creditFor_def ledgerEntry_def redeemLedgerInput_def sameCode_def)
  with code_redeemed [OF assms(1) x(1) unused, of es userID "clock e"] en u
  have "payInv u \<and> payStep t u" by (auto simp: es_def)
  moreover have "usedCode u (rc_Code r)"
    using x markUsed_this [OF unused] by (auto simp: u usedCode_def sameCode_def)
  ultimately show ?thesis by blast
qed

text \<open>The other types of code keep the invariant statement by statement.\<close>

lemma safe_Use:
  assumes "knowsCode r s" "rc_Type r \<noteq> RedeemTypeBalance"
  shows "safe payInv payStep (\<lambda>x t. x = Inr () \<longrightarrow> usedCode t (rc_Code r)) (Use (rc_ID r) userID) s"
proof -
  define body where "body = (\<lambda>(e :: payEnv) (t :: payDB).
     if list_ex (\<lambda>r'. rc_ID r' = rc_ID r \<and> rc_Status r' = StatusUnused) (codes t)
     then (Inr (), t\<lparr>codes := map (markUsed (rc_ID r) userID (clock e)) (codes t)\<rparr>) else (Inl ErrRedeemCodeUsed, t))"
  have body: "payInv (snd (body e t)) \<and> payStep t (snd (body e t)) \<and>
      (fst (body e t) = Inr () \<longrightarrow> usedCode (snd (body e t)) (rc_Code r))" if t: "payInv t" "payStep s t" for e t
  proof (cases "list_ex (\<lambda>r'. rc_ID r' = rc_ID r \<and> rc_Status r' = StatusUnused) (codes t)")
    case True
    from knowsCode_later [OF assms(1) t(2)] obtain x where x: "x \<in> set (codes t)" "sameCode r x"
      by (auto simp: knowsCode_def)
    with True same_code_row [OF t(1) _ x(1)] have unused: "rc_Status x = StatusUnused"
      by (auto simp: list_ex_iff sameCode_def)
    have "rc_Type x \<noteq> RedeemTypeBalance" using x(2) assms(2) by (simp add: sameCode_def)
    moreover have "t\<lparr>codes := map (markUsed (rc_ID x) userID (clock e)) (codes t), ledger := ledger t\<rparr> =
        t\<lparr>codes := map (markUsed (rc_ID x) userID (clock e)) (codes t)\<rparr>" by simp
    ultimately have "payInv (snd (body e t)) \<and> payStep t (snd (body e t))"
      using code_redeemed [OF t(1) x(1) unused, of "[]" userID "clock e"] True x(2)
      by (simp add: body_def sameCode_def)
    moreover have "usedCode (snd (body e t)) (rc_Code r)"
      using x True markUsed_this [OF unused] by (auto simp: body_def usedCode_def sameCode_def)
    ultimately show ?thesis by blast
  qed (simp add: body_def t(1))
  have "Use (rc_ID r) userID = statement DbError body"
    unfolding Use_def update_def body_def setRows_map markUsed_def by (rule refl)
  moreover have "safe payInv payStep (\<lambda>x t. x = Inr () \<longrightarrow> usedCode t (rc_Code r)) (statement DbError body) s"
    using body usedCode_later by (intro pay.safe_statement) blast+
  ultimately show ?thesis by simp
qed

lemma benign_points [benign_intros]: "benign payInv payStep (applyPointsAdjustmentInTx r userID)"
  unfolding applyPointsAdjustmentInTx_def
  by (intro benign_intros benign_update) (simp add: Let_def split: option.split)

lemma benign_grant:
  assumes "rc_Type r \<noteq> RedeemTypeBalance"
  shows "benign payInv payStep (grantRedeemed r userID user)"
  unfolding grantRedeemed_def if_not_P [OF assms] by (intro benign_intros)

lemma safe_redeemTx:
  assumes "knowsCode r s"
  shows "safe payInv payStep (\<lambda>x t. x = Inr () \<longrightarrow> usedCode t (rc_Code r)) (redeemTx r userID user) s"
  unfolding redeemTx_def inTx_def
proof (rule pay.safe_transaction)
  fix t :: payDB and e :: payEnv and v :: unit and u
  let ?h = "\<lambda>err. failWith (if err = ErrRedeemCodeNotFound \<or> err = ErrRedeemCodeUsed then ErrRedeemCodeUsed
      else Because ''mark code as used'' err)"
  assume t: "payInv t" "payStep s t" and e: "fault e = Works"
    and ex: "exec e (handle (Use (rc_ID r) userID) ?h (\<lambda>_. grantRedeemed r userID user)) t = (Inr v, u)"
  have r: "knowsCode r t" using knowsCode_later [OF assms t(2)] .
  have "payInv u \<and> payStep t u \<and> usedCode u (rc_Code r)"
  proof (cases "rc_Type r = RedeemTypeBalance")
    case True
    show ?thesis by (rule redeem_balance_exec [OF t(1) r True e ex]) simp
  next
    case False
    have "safe payInv payStep (\<lambda>x t. x = Inr () \<longrightarrow> usedCode t (rc_Code r))
        (handle (Use (rc_ID r) userID) ?h (\<lambda>_. grantRedeemed r userID user)) t"
    proof (rule pay.safe_handle_bind [OF safe_Use [OF r False]])
      fix x t' show "safe payInv payStep (\<lambda>x t. x = Inr () \<longrightarrow> usedCode t (rc_Code r)) (?h x) t'"
        by (simp add: failWith_def)
    next
      fix v t' assume "payInv t'" and "Inr v = Inr () \<longrightarrow> usedCode t' (rc_Code r)"
      then have used: "usedCode t' (rc_Code r)" by simp
      have "safe payInv payStep (\<lambda>x t. payStep t' t \<and> True) (grantRedeemed r userID user) t'"
        by (rule pay.safe_ahead [OF pay.benign_safe [OF benign_grant [OF False]] payStep_refl])
      then show "safe payInv payStep (\<lambda>x t. x = Inr () \<longrightarrow> usedCode t (rc_Code r)) (grantRedeemed r userID user) t'"
        by (rule pay.safe_weaken) (use usedCode_later [OF used] in blast)
    qed
    from pay.safe_exec [OF this t(1), of e] ex show ?thesis by simp
  qed
  then show "payInv u \<and> payStep t u \<and>
      (\<forall>w. payInv w \<longrightarrow> payStep u w \<longrightarrow> (Inr v :: unit result) = Inr () \<longrightarrow> usedCode w (rc_Code r))"
    by (auto intro: usedCode_later)
qed simp

section \<open>Calls with a result\<close>

definition onSuccess :: "('a \<Rightarrow> payDB \<Rightarrow> bool) \<Rightarrow> 'a result \<Rightarrow> payDB \<Rightarrow> bool" where
  "onSuccess P r t \<longleftrightarrow> (\<forall>v. r = Inr v \<longrightarrow> P v t)"

lemma onSuccess_simps [simp]: "onSuccess P (Inl x) t" "onSuccess P (Inr v) t = P v t"
  by (simp_all add: onSuccess_def)

lemma safe_query:
  assumes "\<And>t u. payInv t \<Longrightarrow> payStep s t \<Longrightarrow> payInv u \<Longrightarrow> payStep t u \<Longrightarrow> Q (g t) u"
    and "\<And>t. payInv t \<Longrightarrow> payStep s t \<Longrightarrow> Q (Inl DbError) t"
  shows "safe payInv payStep Q (query g) s"
  unfolding query_def by (rule pay.safe_statement) (use assms in simp_all)

lemma safe_getOrder:
  "safe payInv payStep (onSuccess (\<lambda>od t. po_ID od = i \<and> knows od t)) (getOrder i) s"
  unfolding getOrder_def
proof (rule safe_query)
  fix t u assume tu: "payStep t u"
  show "onSuccess (\<lambda>od t. po_ID od = i \<and> knows od t) (only (orderOf t i)) u"
  proof (cases "orderOf t i")
    case (Some od)
    then have "od \<in> set (orders t)" "po_ID od = i" by (auto simp: orderOf_def find_Some_iff)
    then have "po_ID od = i" "knows od t" using sameOrder_refl unfolding knows_def by blast+
    with tu have "po_ID od = i" "knows od u" by (auto intro: knows_later)
    with Some show ?thesis by (simp add: only_def)
  qed (simp add: only_def)
qed simp

lemma safe_GetByCode:
  "safe payInv payStep (onSuccess (\<lambda>x t. rc_Code x = c \<and> knowsCode x t \<and> (IsUsed x \<longrightarrow> usedCode t c))) (GetByCode c) s"
  unfolding GetByCode_def
proof (rule safe_query)
  fix t u assume tu: "payStep t u"
  show "onSuccess (\<lambda>x t. rc_Code x = c \<and> knowsCode x t \<and> (IsUsed x \<longrightarrow> usedCode t c))
      (case codeOf t c of None \<Rightarrow> Inl ErrRedeemCodeNotFound | Some r \<Rightarrow> Inr r) u"
  proof (cases "codeOf t c")
    case (Some x)
    then have "x \<in> set (codes t)" "rc_Code x = c" by (auto simp: codeOf_def find_Some_iff)
    then have "rc_Code x = c" "knowsCode x t" "IsUsed x \<longrightarrow> usedCode t c"
      using sameCode_refl unfolding knowsCode_def usedCode_def by blast+
    with tu have "rc_Code x = c" "knowsCode x u" "IsUsed x \<longrightarrow> usedCode u c" by (auto intro: later)
    with Some show ?thesis by simp
  qed simp
qed simp

text \<open>
  The collaborators are assumed to respect the tables the same way: they may do what they like to
  shop orders, but keep the other orders settled, the codes used and the bookings in place.
\<close>

definition collaboratorsOk :: "PaymentService \<Rightarrow> bool" where
  "collaboratorsOk sv \<longleftrightarrow> (\<forall>u a. benign payInv payStep (accrueRebate sv u a)) \<and>
     (\<forall>shop. shopFulfillment sv = Some shop \<longrightarrow>
        (\<forall>i. benign payInv payStep (ConfirmPaidAndDeliver shop i)) \<and>
        (\<forall>i st. benign payInv payStep (CancelPendingPaymentInTx shop i st)) \<and>
        (\<forall>t. benign payInv payStep (ReleaseStalePaymentReservations shop t)))"

lemma safe_failWith [simp]: "safe payInv payStep (onSuccess P) (failWith x) s"
  by (simp add: failWith_def)

abbreviation redeemed :: "string \<Rightarrow> 'a result \<Rightarrow> payDB \<Rightarrow> bool" where
  "redeemed code \<equiv> onSuccess (\<lambda>_ t. usedCode t code)"

text \<open>A step that is safe anywhere, between two assertions.\<close>

lemma safe_skip:
  assumes "benign payInv payStep p" "\<And>x t. payInv t \<Longrightarrow> payStep s t \<Longrightarrow> safe payInv payStep Q (k x) t"
  shows "safe payInv payStep Q (andThen p k) s"
  by (rule pay.safe_bind [OF pay.benign_safe [OF assms(1)]]) (rule assms(2))

lemma safe_skip_handle:
  assumes "benign payInv payStep p" "\<And>x t. payInv t \<Longrightarrow> payStep s t \<Longrightarrow> safe payInv payStep Q (h x) t"
    and "\<And>v t. payInv t \<Longrightarrow> payStep s t \<Longrightarrow> safe payInv payStep Q (k v) t"
  shows "safe payInv payStep Q (handle p h k) s"
  by (rule pay.safe_handle_bind [OF pay.benign_safe [OF assms(1)]]) (use assms(2,3) in blast)+

lemma safe_skip_seq:
  assumes "benign payInv payStep p" "\<And>t. payInv t \<Longrightarrow> payStep s t \<Longrightarrow> safe payInv payStep Q q t"
  shows "safe payInv payStep Q (followedBy p q) s"
  by (rule pay.safe_seq [OF pay.benign_safe [OF assms(1)]]) (rule assms(2))

lemma safe_afterRedeem:
  assumes "usedCode t code" "\<And>u a. benign payInv payStep (rebate u a)"
  shows "safe payInv payStep (redeemed code) (afterRedeem rebate userID r) t"
  unfolding afterRedeem_def
proof (rule safe_skip_seq)
  show "benign payInv payStep (if rc_Type r = RedeemTypeBalance \<and> rc_Value r > 0 then rebate userID (rc_Value r) else Return ())"
    using assms(2) by simp
next
  fix u assume "payStep t u"
  with assms(1) have u: "usedCode u code" by (rule usedCode_later)
  show "safe payInv payStep (redeemed code) (handle (GetByID (rc_ID r))
      (\<lambda>err. failWith (Because ''get updated redeem code'' err)) (\<lambda>r'. Return (Inr r'))) u"
    by (rule safe_skip_handle [OF benign_reads(8)]) (use usedCode_later [OF u] usedCode_later in auto)
qed

lemma safe_redeemFound:
  assumes "knowsCode r t" "\<And>u a. benign payInv payStep (rebate u a)"
  shows "safe payInv payStep (redeemed (rc_Code r)) (redeemFound rebate userID r) t"
  unfolding redeemFound_def
proof (rule safe_skip [OF benign_reads(11)])
  fix now u assume "payStep t u"
  with assms(1) have u: "knowsCode r u" by (rule knowsCode_later)
  have "safe payInv payStep (redeemed (rc_Code r)) (handle (redeemTx r userID user) failWith (\<lambda>_. afterRedeem rebate userID r)) w"
    if "payStep u w" for user w
    by (rule pay.safe_handle_bind [OF safe_redeemTx [OF knowsCode_later [OF u that]]])
      (simp_all add: safe_afterRedeem assms(2))
  then have "safe payInv payStep (redeemed (rc_Code r)) (handle (getUser userID) (\<lambda>err. failWith (Because ''get user'' err))
      (\<lambda>user. handle (redeemTx r userID user) failWith (\<lambda>_. afterRedeem rebate userID r))) u"
    by (intro safe_skip_handle [OF benign_reads(3)]) simp_all
  then show "safe payInv payStep (redeemed (rc_Code r)) (if \<not> CanUse r now then failWith ErrRedeemCodeUsed
     else case typePrecondition r of Some err \<Rightarrow> failWith err | None \<Rightarrow>
     handle (getUser userID) (\<lambda>err. failWith (Because ''get user'' err)) (\<lambda>user.
     handle (redeemTx r userID user) failWith (\<lambda>_. afterRedeem rebate userID r))) u"
    by (simp split: option.split)
qed

lemma safe_Redeem:
  assumes "\<And>u a. benign payInv payStep (rebate u a)"
  shows "safe payInv payStep (redeemed code) (Redeem rebate userID code) s"
proof -
  have lookup: "safe payInv payStep (redeemed code) (handle (GetByCode code) (\<lambda>err. failWith (f err)) (redeemFound rebate userID)) t"
    for f t
  proof (rule pay.safe_handle_bind [OF safe_GetByCode])
    fix r w assume "onSuccess (\<lambda>x t. rc_Code x = code \<and> knowsCode x t \<and> (IsUsed x \<longrightarrow> usedCode t code)) (Inr r) w"
    then show "safe payInv payStep (redeemed code) (redeemFound rebate userID r) w"
      using safe_redeemFound [of r w rebate userID] assms by auto
  qed simp
  show ?thesis
    unfolding Redeem_def
    by (intro safe_skip [OF pay.benign_ask]) (auto simp: lookup split: option.split intro!: safe_skip [OF pay.benign_ask])
qed

end
