(* ===== verification/PaymentPool.thy ===== *)
theory PaymentPool
  imports PaymentSafety
begin

text \<open>
  The payment operations of \<^verbatim>\<open>Payments\<close>, \<^verbatim>\<open>PaymentLifecycle\<close> and \<^verbatim>\<open>Refunds\<close> in a pool: each is safe from every
  store, so every interleaving of them keeps the invariant of \<^verbatim>\<open>PaymentSafety\<close>.
\<close>

section \<open>Fulfilment\<close>

lemma benign_changes:
  assumes "\<And>e x. sameOrder x (f e x)" "\<And>e x. P e x \<Longrightarrow> \<not> settled x \<and> \<not> settled (f e x) \<or> settled x \<and> settled (f e x)"
  shows "benign payInv payStep (updateOrders P f)"
  by (rule benign_updateOrders) (use assms in \<open>force simp: orderChange_def rowChange_def\<close>)

lemmas status_simps = sameOrder_def settled_def psIsRefundStatus_def

lemma benign_writes [benign_intros]:
  "benign payInv payStep (lockForFulfillment oid)" "benign payInv payStep (markFailed oid cause)"
  unfolding lockForFulfillment_def markFailed_def
  by (intro benign_intros benign_changes; auto simp: status_simps)+

definition mayComplete :: "PaymentOrder \<Rightarrow> payDB \<Rightarrow> bool" where
  "mayComplete od s \<longleftrightarrow> knows od s \<and> (isRecharge od \<longrightarrow> usedCode s (po_RechargeCode od))"

lemma safe_markCompleted:
  assumes "mayComplete od s"
  shows "safe payInv payStep (\<lambda>_ _. True) (markCompleted od auditAction) s"
  unfolding markCompleted_def
proof (rule pay.safe_handle_bind [of "\<lambda>_ _. True"])
  let ?P = "\<lambda>x. po_ID x = po_ID od \<and> po_Status x = OrderStatusRecharging"
  have "orderChange t (rowChange ?P (\<lambda>x. x\<lparr>po_Status := OrderStatusCompleted, po_CompletedAt := Some (clock e)\<rparr>))"
    if t: "payInv t" "payStep s t" for t and e :: payEnv
    unfolding orderChange_def
  proof
    fix x assume x: "x \<in> set (orders t)"
    have "usedCode t (po_RechargeCode x)" if "?P x" "isRecharge x"
    proof -
      from assms t have k: "knows od t" "isRecharge od \<longrightarrow> usedCode t (po_RechargeCode od)"
        by (auto simp: mayComplete_def intro: later)
      then obtain y where "y \<in> set (orders t)" "sameOrder od y" by (auto simp: knows_def)
      with same_order_row [OF t(1) x] that have "sameOrder od x" by (auto simp: sameOrder_def)
      with k that isRecharge_same [of od x] show ?thesis by (simp add: sameOrder_def)
    qed
    then show "sameOrder x (rowChange ?P (\<lambda>x. x\<lparr>po_Status := OrderStatusCompleted, po_CompletedAt := Some (clock e)\<rparr>) x) \<and>
      (settled x \<and> po_OrderType x \<noteq> OrderTypeShop \<longrightarrow>
       settled (rowChange ?P (\<lambda>x. x\<lparr>po_Status := OrderStatusCompleted, po_CompletedAt := Some (clock e)\<rparr>) x)) \<and>
      (settled (rowChange ?P (\<lambda>x. x\<lparr>po_Status := OrderStatusCompleted, po_CompletedAt := Some (clock e)\<rparr>) x) \<and> isRecharge x \<longrightarrow>
       settled x \<or> usedCode t (po_RechargeCode x))"
      by (auto simp: rowChange_def status_simps)
  qed
  then show "safe payInv payStep (\<lambda>_ _. True) (updateOrders (\<lambda>_ x. po_ID x = po_ID od \<and> po_Status x = OrderStatusRecharging)
      (\<lambda>e x. x\<lparr>po_Status := OrderStatusCompleted, po_CompletedAt := Some (clock e)\<rparr>)) s"
    by (intro safe_updateOrders) simp_all
qed (intro pay.benign_safe benign_intros)+

lemma mayComplete_later: "mayComplete od s \<Longrightarrow> payStep s t \<Longrightarrow> mayComplete od t"
  by (auto simp: mayComplete_def intro: later)

lemma recharge_fits:
  assumes "payInv s" "knows od s" "isRecharge od"
  shows "fits ((rechargeCode od)\<lparr>rc_Code := TrimSpace (po_RechargeCode od)\<rparr>) s"
proof -
  obtain x where x: "x \<in> set (orders s)" "sameOrder od x" using assms(2) by (auto simp: knows_def)
  then have r: "isRecharge x" using assms(3) isRecharge_same by auto
  with x assms(1) have "rechargeOk s x" by (auto simp: payInv_def ordersOk_def)
  with x have trim: "TrimSpace (po_RechargeCode od) = po_RechargeCode od" by (auto simp: rechargeOk_def sameOrder_def)
  have "y = x" if "y \<in> set (orders s)" "isRecharge y" "po_RechargeCode y = po_RechargeCode od" for y
    using that x r assms(1) by (auto simp: payInv_def ordersOk_def distinct_map inj_on_def sameOrder_def)
  then show ?thesis using x trim by (auto simp: fits_def rechargeCode_def sameOrder_def)
qed

lemma safe_create_recharge:
  assumes "knows od s" "isRecharge od"
  shows "safe payInv payStep (\<lambda>_ _. True) (CreateCode (rechargeCode od)) s"
proof (rule safe_CreateCode)
  fix t assume "payInv t" "payStep s t"
  with assms have "fits ((rechargeCode od)\<lparr>rc_Code := TrimSpace (po_RechargeCode od)\<rparr>) t"
    by (intro recharge_fits) (auto intro: later)
  then show "fits (rechargeCode od\<lparr>rc_Code := TrimSpace (rc_Code (rechargeCode od))\<rparr>) t"
    by (simp add: rechargeCode_def)
qed (simp_all add: rechargeCode_def IsUsed_def row_status_defs redeem_type_defs)

lemma safe_redeem_complete:
  assumes "collaboratorsOk sv" "knows od s"
  shows "safe payInv payStep (\<lambda>_ _. True) (handle (Redeem (accrueRebate sv) (po_UserID od) (po_RechargeCode od))
     (\<lambda>err. failWith (Because m err)) (\<lambda>_. markCompleted od a)) s"
proof (rule pay.safe_handle_bind [OF safe_Redeem])
  show "benign payInv payStep (accrueRebate sv u b)" for u b using assms(1) by (simp add: collaboratorsOk_def)
next
  fix v t assume "payStep s t" "redeemed (po_RechargeCode od) (Inr v) t"
  with assms(2) show "safe payInv payStep (\<lambda>_ _. True) (markCompleted od a) t"
    by (intro safe_markCompleted) (auto simp: mayComplete_def intro: later)
qed (intro pay.benign_safe benign_intros)

lemma safe_doBalance:
  assumes "collaboratorsOk sv" "knows od s" "isRecharge od"
  shows "safe payInv payStep (\<lambda>_ _. True) (doBalance sv od) s"
  unfolding doBalance_def Let_def
proof (rule pay.safe_bind [OF safe_GetByCode])
  fix existing t assume t: "payStep s t"
    "onSuccess (\<lambda>x t. rc_Code x = po_RechargeCode od \<and> knowsCode x t \<and> (IsUsed x \<longrightarrow> usedCode t (po_RechargeCode od))) existing t"
  let ?redeem = "handle (Redeem (accrueRebate sv) (po_UserID od) (po_RechargeCode od))
     (\<lambda>err. failWith (Because ''redeem balance'' err)) (\<lambda>_. markCompleted od ''RECHARGE_SUCCESS'')"
  have k: "knows od u" if "payStep t u" for u using assms(2) t(1) that by (blast intro: later)
  have create: "safe payInv payStep (\<lambda>_ _. True) (handle (CreateCode (rechargeCode od))
      (\<lambda>err. failWith (Because ''create redeem code'' err)) (\<lambda>_. ?redeem)) t"
    by (rule pay.safe_handle_bind [OF safe_create_recharge [OF k assms(3)]])
      (auto intro: safe_redeem_complete assms(1) k pay.benign_safe benign_intros)
  show "safe payInv payStep (\<lambda>_ _. True) (case resolveRedeemAction existing of
       redeemActionCreate \<Rightarrow> handle (CreateCode (rechargeCode od)) (\<lambda>err. failWith (Because ''create redeem code'' err)) (\<lambda>_. ?redeem)
     | redeemActionRedeem \<Rightarrow> ?redeem
     | redeemActionSkipCompleted \<Rightarrow> markCompleted od ''RECHARGE_SUCCESS'') t"
  proof (cases "resolveRedeemAction existing")
    case redeemActionSkipCompleted
    then obtain r where "existing = Inr r" "IsUsed r"
      by (auto simp: resolveRedeemAction_def split: sum.splits if_splits)
    with t k [of t] have "mayComplete od t" by (simp add: mayComplete_def)
    with redeemActionSkipCompleted show ?thesis by (simp add: safe_markCompleted)
  qed (simp_all add: create safe_redeem_complete assms(1) k)
qed

text \<open>Work under the lock that fails is recorded; nothing else of it is lost.\<close>

lemma safe_underLock:
  assumes "\<And>t. payInv t \<Longrightarrow> payStep s t \<Longrightarrow> safe payInv payStep (\<lambda>_ _. True) work t"
  shows "safe payInv payStep (\<lambda>_ _. True) (underLock oid work) s"
  unfolding underLock_def
proof (rule safe_skip_handle)
  show "benign payInv payStep (lockForFulfillment oid)" by (rule benign_writes)
next
  fix c t assume t: "payInv t" "payStep s t"
  have "safe payInv payStep (\<lambda>_ _. True) (handle work (\<lambda>err. followedBy (markFailed oid err) (failWith err)) (\<lambda>_. ok)) t"
    by (rule pay.safe_handle_bind [OF assms [OF t]]) (intro pay.benign_safe benign_intros)+
  then show "safe payInv payStep (\<lambda>_ _. True)
      (if c = 0 then ok else handle work (\<lambda>err. followedBy (markFailed oid err) (failWith err)) (\<lambda>_. ok)) t"
    using pay.benign_safe [OF benign_ok] by simp
qed (intro pay.benign_safe benign_intros)

lemma knows_same:
  assumes "payInv s" "knows a s" "knows b s" "po_ID a = po_ID b"
  shows "isRecharge a \<longleftrightarrow> isRecharge b"
proof -
  obtain x y where "x \<in> set (orders s)" "sameOrder a x" "y \<in> set (orders s)" "sameOrder b y"
    using assms(2,3) by (auto simp: knows_def)
  with same_order_row [OF assms(1), of x y] assms(4) isRecharge_same [of a x] isRecharge_same [of b y]
  show ?thesis by (auto simp: sameOrder_def)
qed

lemma safe_ExecuteBalanceFulfillment:
  assumes "collaboratorsOk sv" "knows od0 s" "isRecharge od0" "po_ID od0 = oid"
  shows "safe payInv payStep (\<lambda>_ _. True) (ExecuteBalanceFulfillment sv oid) s"
  unfolding ExecuteBalanceFulfillment_def
proof (rule pay.safe_handle_bind [OF safe_getOrder])
  fix od t assume t: "payInv t" "payStep s t" "onSuccess (\<lambda>od t. po_ID od = oid \<and> knows od t) (Inr od) t"
  with assms(2-4) knows_same [OF t(1), of od0 od] have "isRecharge od" by (auto intro: later)
  with t(3) assms(1) have "safe payInv payStep (\<lambda>_ _. True) (underLock oid (doBalance sv od)) t"
    by (intro safe_underLock safe_doBalance) (auto intro: later)
  then show "safe payInv payStep (\<lambda>_ _. True) (if po_Status od = OrderStatusCompleted then ok
     else if psIsRefundStatus (po_Status od) then failWith (invalidStatus ''refund-related order cannot fulfill'')
     else if po_Status od \<noteq> OrderStatusPaid \<and> po_Status od \<noteq> OrderStatusFailed
       then failWith (invalidStatus ''order cannot fulfill in status'')
     else underLock oid (doBalance sv od)) t"
    by (simp add: pay.benign_safe benign_ok benign_failWith)
qed (intro pay.benign_safe benign_intros)

lemma safe_doSub:
  assumes "knows od s" "\<not> isRecharge od"
  shows "safe payInv payStep (\<lambda>_ _. True) (doSub od gid days) s"
proof -
  have m: "safe payInv payStep (\<lambda>_ _. True) (markCompleted od a) t" if "payStep s t" for a t
    using assms that by (intro safe_markCompleted) (auto simp: mayComplete_def intro: later)
  have assign: "safe payInv payStep (\<lambda>_ _. True) (handle (AssignOrExtendSubscription inp)
      (\<lambda>err. failWith (Because ''assign subscription'' err)) (\<lambda>_. markCompleted od ''SUBSCRIPTION_SUCCESS'')) t"
    if "payStep s t" for inp t
    by (rule safe_skip_handle [OF benign_subscription(1)])
      (use that m payStep_trans in \<open>auto intro: pay.benign_safe benign_failWith\<close>)
  have checked: "safe payInv payStep (\<lambda>_ _. True) (andThen (hasAuditLog (po_ID od) ''SUBSCRIPTION_SUCCESS'') (\<lambda>assigned.
      if assigned then markCompleted od ''SUBSCRIPTION_SUCCESS''
      else handle (AssignOrExtendSubscription inp) (\<lambda>err. failWith (Because ''assign subscription'' err))
        (\<lambda>_. markCompleted od ''SUBSCRIPTION_SUCCESS''))) t" if "payStep s t" for inp t
    by (rule safe_skip [OF benign_reads(10)]) (use that m assign payStep_trans in auto)
  show ?thesis
    unfolding doSub_def
    by (rule safe_skip [OF benign_reads(4)]) (use checked in \<open>auto simp: pay.benign_safe benign_failWith split: sum.split\<close>)
qed

lemma safe_ExecuteSubscriptionFulfillment:
  assumes "knows od0 s" "\<not> isRecharge od0" "po_ID od0 = oid"
  shows "safe payInv payStep (\<lambda>_ _. True) (ExecuteSubscriptionFulfillment oid) s"
  unfolding ExecuteSubscriptionFulfillment_def
proof (rule pay.safe_handle_bind [OF safe_getOrder])
  fix od t assume t: "payInv t" "payStep s t" "onSuccess (\<lambda>od t. po_ID od = oid \<and> knows od t) (Inr od) t"
  with assms knows_same [OF t(1), of od0 od] have "\<not> isRecharge od" by (auto intro: later)
  with t(3) have "safe payInv payStep (\<lambda>_ _. True) (underLock oid (doSub od gid days)) t" for gid days
    by (intro safe_underLock safe_doSub) (auto intro: later)
  then show "safe payInv payStep (\<lambda>_ _. True) (if po_Status od = OrderStatusCompleted then ok
     else if psIsRefundStatus (po_Status od) then failWith (invalidStatus ''refund-related order cannot fulfill'')
     else if po_Status od \<noteq> OrderStatusPaid \<and> po_Status od \<noteq> OrderStatusFailed
       then failWith (invalidStatus ''order cannot fulfill in status'')
     else case (po_SubscriptionGroupID od, po_SubscriptionDays od) of
       (Some gid, Some days) \<Rightarrow> underLock oid (doSub od gid days)
     | _ \<Rightarrow> failWith (invalidStatus ''missing subscription info'')) t"
    by (simp add: pay.benign_safe benign_ok benign_failWith split: option.split)
qed (intro pay.benign_safe benign_intros)

lemma benign_executeFulfillment:
  assumes "collaboratorsOk sv"
  shows "benign payInv payStep (executeFulfillment sv oid)"
  unfolding benign_def executeFulfillment_def
proof (intro allI pay.safe_handle_bind [OF safe_getOrder])
  fix s od t assume "onSuccess (\<lambda>od t. po_ID od = oid \<and> knows od t) (Inr od) t"
  then have od: "po_ID od = oid" "knows od t" by simp_all
  have shop: "safe payInv payStep (\<lambda>_ _. True) (ConfirmPaidAndDeliver shop oid) t" if "shopFulfillment sv = Some shop" for shop
    using assms that by (intro pay.benign_safe) (simp add: collaboratorsOk_def)
  show "safe payInv payStep (\<lambda>_ _. True) (if po_OrderType od = OrderTypeSubscription then ExecuteSubscriptionFulfillment oid
     else if po_OrderType od = OrderTypeShop then
       (case shopFulfillment sv of
          None \<Rightarrow> failWith (ApiError ''SHOP_FULFILLMENT_NOT_CONFIGURED'' ''shop fulfillment service is not configured'')
        | Some shop \<Rightarrow> ConfirmPaidAndDeliver shop oid)
     else ExecuteBalanceFulfillment sv oid) t"
    using safe_ExecuteSubscriptionFulfillment [OF od(2) _ od(1)] safe_ExecuteBalanceFulfillment [OF assms od(2) _ od(1)] shop
    by (auto simp: isRecharge_def pay.benign_safe benign_failWith split: option.split)
qed (intro pay.benign_safe benign_intros)

section \<open>Notifications, retries, cancellation, expiry\<close>

lemma benign_confirm:
  assumes "collaboratorsOk sv"
  shows "benign payInv payStep (confirmPayment sv oid tradeNo paid pk md)"
proof -
  note [benign_intros] = benign_executeFulfillment [OF assms]
  have "benign payInv payStep (alreadyProcessed sv od)" for od
  proof -
    have "benign payInv payStep (case po_Status cur of
       OrderStatusFailed \<Rightarrow>
         if po_PaidAt cur = None
         then followedBy (writeAuditLog (po_ID od) ''PAYMENT_AFTER_FAILED_UNPAID'' ''system'') ok
         else executeFulfillment sv (po_ID od)
     | OrderStatusPaid \<Rightarrow> failWith (PlainError ''order is being processed'')
     | OrderStatusRecharging \<Rightarrow> failWith (PlainError ''order is being processed'')
     | OrderStatusExpired \<Rightarrow> followedBy (writeAuditLog (po_ID od) ''PAYMENT_AFTER_EXPIRY'' ''system'') ok
     | _ \<Rightarrow> ok)" for cur
      by (cases "po_Status cur"; simp; intro conjI impI benign_intros)
    then show ?thesis unfolding alreadyProcessed_def by (intro benign_intros)
  qed
  note [benign_intros] = this
  have "benign payInv payStep (toPaid sv od tradeNo q pk)" for od q
    unfolding toPaid_def acceptsPayment_def
    by (intro benign_intros benign_changes) (auto simp: status_simps)
  note [benign_intros] = this
  have "benign payInv payStep (case paid of
         GoFin q \<Rightarrow>
           if \<not> isValidProviderAmount paid then
             followedBy (writeAuditLog (po_ID od) ''PAYMENT_INVALID_AMOUNT'' pk)
               (failWith (PlainError ''invalid paid amount from provider''))
           else if \<bar>q - po_PayAmount od\<bar> > paymentAmountToleranceForCurrency (PaymentOrderCurrency od) then
             followedBy (writeAuditLog (po_ID od) ''PAYMENT_AMOUNT_MISMATCH'' pk) (failWith (PlainError ''amount mismatch''))
           else toPaid sv od tradeNo q pk
       | _ \<Rightarrow> followedBy (writeAuditLog (po_ID od) ''PAYMENT_INVALID_AMOUNT'' pk)
               (failWith (PlainError ''invalid paid amount from provider'')))" for od
    by (cases paid; simp; intro conjI impI benign_intros)
  note [benign_intros] = this
  show ?thesis unfolding confirmPayment_def Let_def by (intro benign_intros)
qed

lemma benign_HandlePaymentNotification:
  assumes "collaboratorsOk sv"
  shows "benign payInv payStep (HandlePaymentNotification sv n pk)"
proof -
  note [benign_intros] = benign_confirm [OF assms]
  show ?thesis unfolding HandlePaymentNotification_def by (intro benign_intros)
qed

lemma benign_RetryFulfillment:
  assumes "collaboratorsOk sv"
  shows "benign payInv payStep (RetryFulfillment sv oid)"
proof -
  note [benign_intros] = benign_executeFulfillment [OF assms]
  show ?thesis
    unfolding RetryFulfillment_def
    by (intro benign_intros benign_changes) (auto simp: status_simps)
qed

lemma benign_updateOrderOne:
  assumes "\<And>e x. sameOrder x (f e x) \<and> settled (f e x) = settled x"
  shows "benign payInv payStep (updateOrderOne i f)"
  unfolding updateOrderOne_def by (intro benign_intros benign_changes) (use assms in auto)

lemma benign_AdminManualFulfillOrder:
  assumes "collaboratorsOk sv"
  shows "benign payInv payStep (AdminManualFulfillOrder sv oid req)"
proof -
  note [benign_intros] = benign_executeFulfillment [OF assms]
  have m: "benign payInv payStep (markPaidManually od amount tradeNo now)" if "\<not> settled od" for od amount tradeNo now
    unfolding markPaidManually_def manualUpdate_def
    by (intro benign_intros benign_changes benign_updateOrderOne) (use that in \<open>auto simp: status_simps\<close>)
  have "benign payInv payStep (isRechargingOrderStale od now)" for od now
    unfolding isRechargingOrderStale_def rechargingTimeout_def by (intro benign_intros)
  note [benign_intros] = this
  show ?thesis
    unfolding AdminManualFulfillOrder_def
    by (intro benign_intros m) (auto simp: settled_def)
qed

lemma benign_checkPaid:
  assumes "collaboratorsOk sv"
  shows "benign payInv payStep (checkPaid sv od)"
proof -
  note [benign_intros] = benign_HandlePaymentNotification [OF assms]
  have "benign payInv payStep (settlePaid sv od prov queryRef resp)" for prov queryRef resp
    unfolding settlePaid_def
    by (intro benign_intros benign_changes) (auto simp: status_simps)
  note [benign_intros] = this
  show ?thesis unfolding checkPaid_def requeryPaidOrderOnce_def by (intro benign_intros)
qed

lemma benign_VerifyOrderByOutTradeNo:
  assumes "collaboratorsOk sv"
  shows "benign payInv payStep (VerifyOrderByOutTradeNo sv raw userID)"
proof -
  note [benign_intros] = benign_checkPaid [OF assms]
  show ?thesis unfolding VerifyOrderByOutTradeNo_def by (intro benign_intros)
qed

lemma benign_cancelCore:
  assumes "collaboratorsOk sv" "fs \<in> {OrderStatusCancelled, OrderStatusExpired}"
  shows "benign payInv payStep (cancelCore sv od fs op)"
proof -
  note [benign_intros] = benign_checkPaid [OF assms(1)]
  have "benign payInv payStep (case (po_OrderType od = OrderTypeShop, shopFulfillment sv) of
          (True, Some shop) \<Rightarrow>
            handle (CancelPendingPaymentInTx shop (po_ID od) (if fs = OrderStatusExpired then ''failed'' else ''cancelled''))
              failWith (\<lambda>_. Return (Inr True))
        | _ \<Rightarrow> Return (Inr True))"
    using assms(1)
    by (cases "po_OrderType od = OrderTypeShop")
      (auto simp: collaboratorsOk_def split: option.split intro!: benign_intros)
  note [benign_intros] = this
  have "benign payInv payStep (cancelTx sv od fs)"
    unfolding cancelTx_def
    by (intro benign_intros benign_changes) (use assms(2) in \<open>auto simp: status_simps\<close>)
  note [benign_intros] = this
  show ?thesis unfolding cancelCore_def by (intro benign_intros)
qed

lemma benign_cancel:
  assumes "collaboratorsOk sv"
  shows "benign payInv payStep (CancelOrder sv i u)" "benign payInv payStep (AdminCancelOrder sv i)"
  unfolding CancelOrder_def AdminCancelOrder_def
  by (intro benign_intros benign_cancelCore [OF assms]; simp)+

lemma benign_ExpireTimedOutOrders:
  assumes "collaboratorsOk sv"
  shows "benign payInv payStep (ExpireTimedOutOrders sv)"
proof -
  have "benign payInv payStep (failStaleLoop now timeout ods n)" for now timeout ods n
  proof (induction ods arbitrary: n)
    case (Cons od ods)
    note [benign_intros] = Cons.IH
    show ?case unfolding failStaleLoop.simps by (intro benign_intros benign_changes) (auto simp: status_simps)
  qed simp
  note [benign_intros] = this
  have "benign payInv payStep (expireLoop sv ods n)" for ods n
  proof (induction ods arbitrary: n)
    case (Cons od ods)
    have "benign payInv payStep (case r of Inr Cancelled \<Rightarrow> expireLoop sv ods (Suc n) | _ \<Rightarrow> expireLoop sv ods n)"
      for r :: "cancelOutcome result"
      using Cons.IH by (auto split: sum.split cancelOutcome.split)
    then show ?case
      unfolding expireLoop.simps by (intro pay.benign_andThen benign_cancelCore [OF assms]) simp_all
  qed simp
  note [benign_intros] = this
  have "benign payInv payStep (case shopFulfillment sv of None \<Rightarrow> ok
      | Some shop \<Rightarrow> ReleaseStalePaymentReservations shop t)" for t
    using assms by (auto simp: collaboratorsOk_def benign_ok split: option.split)
  note [benign_intros] = this
  show ?thesis
    unfolding ExpireTimedOutOrders_def failStaleRechargingOrders_def rechargingTimeout_def by (intro benign_intros)
qed

section \<open>Refunds\<close>

text \<open>Once the lock is taken the order is settled and stays so; the later writes need no condition of their own.\<close>

lemma safe_settled_write:
  assumes "settledID s i" "\<And>e x. sameOrder x (f e x) \<and> settled (f e x)"
  shows "safe payInv payStep (\<lambda>_ _. True) (updateOrderOne i f) s"
  unfolding updateOrderOne_def
proof (rule pay.safe_handle_bind [of "\<lambda>_ _. True"])
  have "orderChange t (rowChange (\<lambda>x. po_ID x = i) (f e))" if t: "payInv t" "payStep s t" for t e
    unfolding orderChange_def
  proof
    fix x assume x: "x \<in> set (orders t)"
    have "settled x \<or> \<not> isRecharge x" if "po_ID x = i"
      using settledID_later [OF assms(1) t(2)] same_order_row [OF t(1) x] that unfolding settledID_def isRecharge_def by metis
    with assms(2) show "sameOrder x (rowChange (\<lambda>x. po_ID x = i) (f e) x) \<and>
      (settled x \<and> po_OrderType x \<noteq> OrderTypeShop \<longrightarrow> settled (rowChange (\<lambda>x. po_ID x = i) (f e) x)) \<and>
      (settled (rowChange (\<lambda>x. po_ID x = i) (f e) x) \<and> isRecharge x \<longrightarrow> settled x \<or> usedCode t (po_RechargeCode x))"
      by (auto simp: rowChange_def)
  qed
  then show "safe payInv payStep (\<lambda>_ _. True) (updateOrders (\<lambda>_ od. po_ID od = i) f) s"
    by (intro safe_updateOrders) simp_all
qed (intro pay.benign_safe benign_intros)+

lemma safe_True_seq:
  assumes "safe payInv payStep (\<lambda>_ _. True) p s" "benign payInv payStep q"
  shows "safe payInv payStep (\<lambda>_ _. True) (followedBy p q) s"
  by (rule pay.safe_seq [OF assms(1)]) (rule pay.benign_safe [OF assms(2)])

lemma safe_refund_writes:
  assumes "settledID s (rp_OrderID p)"
  shows "safe payInv payStep (\<lambda>_ _. True) (restoreStatus p) s"
    and "safe payInv payStep (\<lambda>_ _. True) (handleGwFail p gErr) s"
    and "safe payInv payStep (\<lambda>_ _. True) (markRefundOk p) s"
proof -
  have restore: "safe payInv payStep (\<lambda>_ _. True) (restoreStatus p) t" if "payStep s t" for t
    unfolding restoreStatus_def
    by (rule pay.safe_bind [OF safe_settled_write [OF settledID_later [OF assms that]]]) (auto simp: status_simps)
  then show "safe payInv payStep (\<lambda>_ _. True) (restoreStatus p) s" by simp
  have "benign payInv payStep (RollbackRefund p)"
    unfolding RollbackRefund_def by (intro benign_intros)
  then show "safe payInv payStep (\<lambda>_ _. True) (handleGwFail p gErr) s"
    unfolding handleGwFail_def
  proof (rule safe_skip)
    fix rolledBack t assume t: "payStep s t"
    have "safe payInv payStep (\<lambda>_ _. True) (updateOrderOne (rp_OrderID p) (\<lambda>e x. x\<lparr>po_Status := OrderStatusRefundFailed,
           po_FailedAt := Some (clock e), po_FailedReason := Some gErr\<rparr>)) t"
      by (rule safe_settled_write [OF settledID_later [OF assms t]]) (auto simp: status_simps)
    with restore [OF t] show "safe payInv payStep (\<lambda>_ _. True) (if rolledBack then
       followedBy (restoreStatus p) (followedBy (writeAuditLog (rp_OrderID p) ''REFUND_GATEWAY_FAILED'' ''admin'')
         (Return (Inr \<lparr>rs_Success = False, rs_Warning = ''gateway failed, rolled back'', rs_RequireForce = False,
            rs_BalanceDeducted = 0, rs_SubDaysDeducted = 0\<rparr>)))
     else
       followedBy (updateOrderOne (rp_OrderID p) (\<lambda>e x. x\<lparr>po_Status := OrderStatusRefundFailed,
           po_FailedAt := Some (clock e), po_FailedReason := Some gErr\<rparr>))
       (followedBy (writeAuditLog (rp_OrderID p) ''REFUND_FAILED'' ''admin'')
         (failWith (ApiError ''REFUND_FAILED'' ''refund failed'')))) t"
      by (simp, intro conjI impI safe_True_seq benign_intros)
  qed
  show "safe payInv payStep (\<lambda>_ _. True) (markRefundOk p) s"
    unfolding markRefundOk_def
    by (rule pay.safe_handle_bind [OF safe_settled_write [OF assms]])
      (auto simp: status_simps intro: pay.benign_safe benign_intros)
qed

lemma safe_abort:
  "settledID s (rp_OrderID p) \<Longrightarrow> safe payInv payStep (onSuccess P) (abort p what err) s"
  unfolding abort_def by (rule pay.safe_seq [OF safe_refund_writes(1)]) simp_all

lemma safe_deductions:
  assumes "settledID s (rp_OrderID p)"
  shows "safe payInv payStep (onSuccess (\<lambda>q _. rp_OrderID q = rp_OrderID p)) (deductBalanceStep p) s"
    and "safe payInv payStep (onSuccess (\<lambda>q _. rp_OrderID q = rp_OrderID p)) (deductSubscriptionStep p) s"
proof -
  let ?Q = "onSuccess (\<lambda>q (_ :: payDB). rp_OrderID q = rp_OrderID p)"
  have abort: "safe payInv payStep ?Q (abort p what err) t" if "payStep s t" for what err t
    using safe_abort [OF settledID_later [OF assms that]] .
  have balance: "safe payInv payStep ?Q (handle (DeductBalance i a) (abort p what) (\<lambda>_. Return (Inr p))) t"
    if "payStep s t" for i a what t
    by (rule safe_skip_handle [OF benign_balance(2)]) (auto intro: abort [OF payStep_trans [OF that]])
  show "safe payInv payStep ?Q (deductBalanceStep p) s"
    unfolding deductBalanceStep_def
    by (auto intro!: safe_skip [OF benign_reads(10)] simp: balance)
  have revoke: "safe payInv payStep ?Q (handle (RevokeSubscription i) (abort p what) (\<lambda>_. Return (Inr p))) t"
    if "payStep s t" for i what t
    by (rule safe_skip_handle [OF benign_subscription(3)]) (auto intro: abort [OF payStep_trans [OF that]])
  have extend: "safe payInv payStep ?Q (handle (ExtendSubscription i d)
      (\<lambda>err. if err = ErrAdjustWouldExpire then handle (RevokeSubscription i) (abort p w) (\<lambda>_. Return (Inr p)) else abort p w' err)
      (\<lambda>_. Return (Inr p))) t" if "payStep s t" for i d w w' t
    by (rule safe_skip_handle [OF benign_subscription(2)]) 
      (auto intro: abort [OF payStep_trans [OF that]] revoke [OF payStep_trans [OF that]])
  show "safe payInv payStep ?Q (deductSubscriptionStep p) s"
    unfolding deductSubscriptionStep_def
    by (auto intro!: safe_skip [OF benign_reads(10)] simp: extend)
qed

lemma safe_lock_refund:
  "safe payInv payStep (onSuccess (\<lambda>c t. 0 < c \<longrightarrow> settledID t i))
     (updateOrders (\<lambda>_ x. po_ID x = i \<and> po_Status x \<in> refundable) (\<lambda>_ x. x\<lparr>po_Status := OrderStatusRefunding\<rparr>)) s"
proof (rule safe_updateOrders)
  show "orderChange t (rowChange (\<lambda>x. po_ID x = i \<and> po_Status x \<in> refundable) (\<lambda>x. x\<lparr>po_Status := OrderStatusRefunding\<rparr>))" for t
    by (auto simp: orderChange_def rowChange_def status_simps refundable_def)
next
  fix t e c u
  assume t: "payInv t" and x: "0 < c \<Longrightarrow> \<exists>x \<in> set (orders t). po_ID x = i \<and> po_Status x \<in> refundable"
    and u: "payStep (t\<lparr>orders := setRows (\<lambda>x. po_ID x = i \<and> po_Status x \<in> refundable)
      (\<lambda>od. od\<lparr>po_Status := OrderStatusRefunding, po_UpdatedAt := clock e\<rparr>) (orders t)\<rparr>) u"
  have "settledID u i" if "0 < c"
  proof -
    from x [OF that] obtain y where y: "y \<in> set (orders t)" "po_ID y = i" "po_Status y \<in> refundable" by blast
    let ?f = "\<lambda>od. od\<lparr>po_Status := OrderStatusRefunding, po_UpdatedAt := clock e\<rparr>"
    have "?f y \<in> set (setRows (\<lambda>x. po_ID x = i \<and> po_Status x \<in> refundable) ?f (orders t))"
      using y unfolding setRows_def set_map image_iff by (intro bexI [of _ y]) simp_all
    moreover have "po_ID (?f y) = i" "settled (?f y)" using y by (simp_all add: status_simps)
    ultimately have "settledID (t\<lparr>orders := setRows (\<lambda>x. po_ID x = i \<and> po_Status x \<in> refundable) ?f (orders t)\<rparr>) i"
      unfolding settledID_def by (intro bexI [of _ "?f y"]) simp_all
    with u show ?thesis by (rule settledID_later [rotated])
  qed
  then show "onSuccess (\<lambda>c t. 0 < c \<longrightarrow> settledID t i) (Inr c) u" by simp
qed simp

lemma benign_gwRefund: "benign payInv payStep (gwRefund p)"
  unfolding gwRefund_def getRefundProvider_def by (intro benign_intros)

lemma benign_ExecuteRefund: "benign payInv payStep (ExecuteRefund p)"
proof -
  have gateway: "safe payInv payStep (\<lambda>_ _. True) (handle (gwRefund q) (handleGwFail q) (\<lambda>_. markRefundOk q)) t"
    if "settledID t (rp_OrderID q)" for q t
    by (rule safe_skip_handle [OF benign_gwRefund]) (use settledID_later [OF that] in \<open>auto intro: safe_refund_writes\<close>)
  have subscription: "safe payInv payStep (\<lambda>_ _. True) (handle (deductSubscriptionStep q) failWith
      (\<lambda>p. handle (gwRefund p) (handleGwFail p) (\<lambda>_. markRefundOk p))) t" if "settledID t (rp_OrderID q)" for q t
    by (rule pay.safe_handle_bind [OF safe_deductions(2) [OF that]])
      (use settledID_later [OF that] in \<open>auto intro: gateway pay.benign_safe benign_failWith\<close>)
  have balance: "safe payInv payStep (\<lambda>_ _. True) (handle (deductBalanceStep p) failWith (\<lambda>q.
      handle (deductSubscriptionStep q) failWith (\<lambda>p. handle (gwRefund p) (handleGwFail p) (\<lambda>_. markRefundOk p)))) t"
    if "settledID t (rp_OrderID p)" for t
    by (rule pay.safe_handle_bind [OF safe_deductions(1) [OF that]])
      (use settledID_later [OF that] in \<open>auto intro: subscription pay.benign_safe benign_failWith\<close>)
  show ?thesis
    unfolding benign_def ExecuteRefund_def
    by (intro allI pay.safe_handle_bind [OF safe_lock_refund])
      (auto intro: balance pay.benign_safe benign_failWith)
qed

lemma benign_RequestRefund: "benign payInv payStep (RequestRefund oid uid reason)"
proof -
  have "benign payInv payStep (case r of
       Inr (Some inst) \<Rightarrow>
         if \<not> pi_AllowUserRefund inst
         then failWith (ApiError ''USER_REFUND_DISABLED'' ''user refund is not enabled for this provider'')
         else Return (Inr od)
     | _ \<Rightarrow> failWith (ApiError ''USER_REFUND_DISABLED'' ''refund is not available for this order''))"
    for r and od :: PaymentOrder
    by (auto simp: benign_failWith split: sum.split option.split)
  note [benign_intros] = this
  show ?thesis
    unfolding RequestRefund_def validateRefundRequest_def
    by (intro benign_intros benign_changes) (auto simp: status_simps)
qed

lemma benign_PrepareRefund: "benign payInv payStep (PrepareRefund sv oid amt reason force deduct)"
proof -
  have "benign payInv payStep (prepDeduct od p force)" for od p
  proof -
    have "benign payInv payStep (case (po_SubscriptionGroupID od, po_SubscriptionDays od) of
          (Some gid, Some days) \<Rightarrow> andThen (GetActiveSubscription (po_UserID od) gid) (k days)
        | _ \<Rightarrow> Return x)" if "\<And>d r. benign payInv payStep (k d r)" for k and x :: "RefundPlan + RefundResult"
      using that by (auto split: option.split intro!: benign_intros)
    then show ?thesis unfolding prepDeduct_def Let_def by (intro benign_intros) simp_all
  qed
  note [benign_intros] = this
  have "benign payInv payStep (case amt of GoFin q \<Rightarrow> k q | _ \<Rightarrow> failWith x)"
    if "\<And>q. benign payInv payStep (k q)" for k and x
    using that by (auto simp: benign_failWith split: gofloat.split)
  note gofloat = this
  show ?thesis unfolding PrepareRefund_def Let_def by (intro benign_intros gofloat)
qed

lemma benign_admin_code:
  assumes "\<not> prefix ''PAY-'' (TrimSpace (rc_Code code))" "rc_Status code = StatusUnused" "rc_Type code \<noteq> []"
  shows "benign payInv payStep (CreateCode code)"
  unfolding benign_def
proof (intro allI safe_CreateCode)
  fix s t assume "payInv t"
  then show "fits (code\<lparr>rc_Code := TrimSpace (rc_Code code)\<rparr>) t"
    using assms(1) by (auto simp: fits_def payInv_def ordersOk_def rechargeOk_def)
qed (use assms in \<open>simp_all add: unused_not_used\<close>)

section \<open>A shop that cannot deliver\<close>

text \<open>
  What the shop does to the payment of an order whose goods it cannot deliver: also a completed payment
  is failed. On a shop order the assumption on collaborators allows it.
\<close>

definition markShopFulfillmentFailedInTx :: "int \<Rightarrow> payError \<Rightarrow> nat call" where
  "markShopFulfillmentFailedInTx paymentOrderID reason =
     updateOrders (\<lambda>_ x. po_ID x = paymentOrderID \<and>
         po_Status x \<in> {OrderStatusPaid, OrderStatusFailed, OrderStatusCompleted})
       (\<lambda>e x. x\<lparr>po_Status := OrderStatusFailed, po_FailedAt := Some (clock e), po_FailedReason := Some reason\<rparr>)"

lemma safe_shop_failure:
  assumes "knows od s" "po_OrderType od = OrderTypeShop"
  shows "safe payInv payStep (\<lambda>_ _. True) (markShopFulfillmentFailedInTx (po_ID od) reason) s"
  unfolding markShopFulfillmentFailedInTx_def
proof (rule safe_updateOrders)
  fix t and e :: payEnv assume t: "payInv t" "payStep s t"
  obtain y where y: "y \<in> set (orders t)" "sameOrder od y"
    using knows_later [OF assms(1) t(2)] by (auto simp: knows_def)
  have "po_OrderType x = OrderTypeShop" if "x \<in> set (orders t)" "po_ID x = po_ID od" for x
    using same_order_row [OF t(1) that(1) y(1)] that(2) y(2) assms(2) by (simp add: sameOrder_def)
  then show "orderChange t (rowChange (\<lambda>x. po_ID x = po_ID od \<and> po_Status x \<in> {OrderStatusPaid, OrderStatusFailed, OrderStatusCompleted})
      (\<lambda>x. x\<lparr>po_Status := OrderStatusFailed, po_FailedAt := Some (clock e), po_FailedReason := Some reason\<rparr>))"
    by (auto simp: orderChange_def rowChange_def status_simps)
qed simp_all

section \<open>The pool of payment operations\<close>

definition finish :: "'a payProg \<Rightarrow> unit payProg" where
  "finish p = andThen p (\<lambda>_. Return ())"

text \<open>
  What may arrive: a provider's notification, a user or an administrator acting on an order, the
  timer, a user redeeming any code, an administrator creating a code that is not named like a
  recharge code.
\<close>

inductive operation :: "PaymentService \<Rightarrow> unit payProg \<Rightarrow> bool" for sv where
  notification: "operation sv (finish (HandlePaymentNotification sv n pk))"
| retry: "operation sv (finish (RetryFulfillment sv oid))"
| manual: "operation sv (finish (AdminManualFulfillOrder sv oid req))"
| verify: "operation sv (finish (VerifyOrderByOutTradeNo sv raw uid))"
| cancel: "operation sv (finish (CancelOrder sv oid uid))"
| adminCancel: "operation sv (finish (AdminCancelOrder sv oid))"
| expire: "operation sv (finish (ExpireTimedOutOrders sv))"
| request: "operation sv (finish (RequestRefund oid uid reason))"
| prepare: "operation sv (finish (PrepareRefund sv oid amt reason force deduct))"
| refund: "operation sv (finish (ExecuteRefund plan))"
| redeem: "operation sv (finish (Redeem (accrueRebate sv) uid code))"
| create: "\<not> prefix ''PAY-'' (TrimSpace (rc_Code c)) \<Longrightarrow> rc_Status c = StatusUnused \<Longrightarrow> rc_Type c \<noteq> [] \<Longrightarrow>
    operation sv (finish (CreateCode c))"

lemma operation_benign:
  assumes "collaboratorsOk sv" "operation sv p"
  shows "benign payInv payStep p"
proof -
  have redeem: "benign payInv payStep (Redeem (accrueRebate sv) uid code)" for uid code
    unfolding benign_def
    using assms(1) by (intro allI pay.safe_weaken [OF safe_Redeem]) (auto simp: collaboratorsOk_def)
  from assms(2) show ?thesis
    by (cases rule: operation.cases)
      (auto simp: finish_def intro!: pay.benign_andThen benign_HandlePaymentNotification [OF assms(1)] benign_RetryFulfillment [OF assms(1)]
        benign_AdminManualFulfillOrder [OF assms(1)] benign_VerifyOrderByOutTradeNo [OF assms(1)] benign_cancel [OF assms(1)]
        benign_ExpireTimedOutOrders [OF assms(1)] benign_RequestRefund benign_PrepareRefund benign_ExecuteRefund redeem
        benign_admin_code)
qed

lemma operations_benign:
  assumes "collaboratorsOk sv" "list_all (arrives (operation sv)) evs"
  shows "list_all (arrives (benign payInv payStep)) evs"
  using assms(2)
proof (rule list.pred_mono_strong)
  fix ev assume "arrives (operation sv) ev"
  then show "arrives (benign payInv payStep) ev" using operation_benign [OF assms(1)] by (cases ev) auto
qed

abbreviation runPool :: "payDB \<Rightarrow> (payEnv, payDB, unit) turn list \<Rightarrow> payDB" where
  "runPool s evs \<equiv> snd (foldl poolStep ([], s) evs)"

lemma recharge_booked:
  assumes "payInv s" "od \<in> set (orders s)" "isRecharge od" "settled od"
  shows "\<exists>e. credits s (po_RechargeCode od) = [e] \<and> le_Direction e = ''credit'' \<and>
    (le_Amount e = po_Amount od \<or> po_Amount od < le_Amount e \<and> le_BalanceAfter e = 0)"
proof -
  from assms have ok: "rechargeOk s od" by (auto simp: payInv_def ordersOk_def)
  with assms(4) obtain r where r: "r \<in> set (codes s)" "rc_Code r = po_RechargeCode od" "IsUsed r"
    by (auto simp: rechargeOk_def usedCode_def)
  with ok have "rc_Type r = RedeemTypeBalance" "rc_Value r = po_Amount od" "0 < po_Amount od" by (auto simp: rechargeOk_def)
  with assms(1) r obtain e where "credits s (rc_Code r) = [e]" "creditFor r e" by (auto simp: payInv_def codesOk_def)
  with r(2) \<open>rc_Value r = po_Amount od\<close> show ?thesis by (auto simp: creditFor_def)
qed

end
