(* ===== verification/PaymentRuns.thy ===== *)
theory PaymentRuns
  imports PaymentPool
begin

text \<open>
  The theorems about payments: what holds of every pool of operations, that a retried fulfilment
  completes, and what single operations do.
\<close>

section \<open>Example tables\<close>

definition plainService :: PaymentService where
  "plainService = \<lparr>shopFulfillment = None, accrueRebate = (\<lambda>_ _. Return ()),
     decimalRound = (\<lambda>n q. of_int \<lfloor>q * 10 ^ n + 1 / 2\<rfloor> / 10 ^ n), decimalDiv = (/)\<rparr>"

definition calm :: payEnv where
  "calm = \<lparr>fault = Works, clock = 100 * hour, attemptCount = None, lockCode = None,
     providerOf = (\<lambda>_. Inl DbError), registryKey = (\<lambda>_. ''alipay''), registryProvider = (\<lambda>_. Inl DbError),
     QueryOrder = (\<lambda>_ _. Inl DbError), Refund = (\<lambda>_ _. None), orderTimeoutMin = None\<rparr>"

definition exampleOrder :: PaymentOrder where
  "exampleOrder = \<lparr>po_ID = 7, po_UserID = 3, po_Amount = 10, po_PayAmount = 10, po_RechargeCode = ''PAY-7-42'',
     po_OutTradeNo = ''sub2_a'', po_PaymentType = ''alipay'', po_PaymentTradeNo = [], po_OrderType = ''balance'',
     po_SubscriptionGroupID = None, po_SubscriptionDays = None, po_ProviderInstanceID = None, po_ProviderKey = None,
     po_ProviderSnapshot = [], po_Status = OrderStatusPending, po_RefundAmount = 0, po_RefundReason = None,
     po_RefundAt = None, po_ForceRefund = False, po_RefundRequestedAt = None, po_RefundRequestReason = None,
     po_RefundRequestedBy = None, po_ExpiresAt = 101 * hour, po_PaidAt = None, po_CompletedAt = None,
     po_FailedAt = None, po_FailedReason = None, po_UpdatedAt = 99 * hour\<rparr>"

definition exampleUser :: User where
  "exampleUser = \<lparr>u_ID = 3, u_Balance = 1, u_TotalRecharged = 0, u_Points = 0, u_Concurrency = 1, u_Role = ''user''\<rparr>"

definition exampleDB :: payDB where
  "exampleDB = \<lparr>orders = [exampleOrder], codes = [], users = [exampleUser], ledger = [], pointsLedger = [], audits = [],
     groups = [], subscriptions = [], instances = [], nextCodeID = 1, nextSubID = 1\<rparr>"

definition exampleNotification :: PaymentNotification where
  "exampleNotification = \<lparr>pn_TradeNo = ''T1'', pn_OrderID = ''sub2_a'', pn_Amount = GoFin 10, pn_Status = ''success'',
     pn_Metadata = []\<rparr>"

definition notified :: "unit payProg" where
  "notified = finish (HandlePaymentNotification plainService exampleNotification ''alipay'')"


lemma example_inv: "payInv exampleDB"
proof -
  have "TrimSpace ''PAY-7-42'' = ''PAY-7-42''" by code_simp
  then show ?thesis
    by (simp add: payInv_def ordersOk_def codesOk_def ledgerOk_def credits_def exampleDB_def exampleOrder_def
        rechargeOk_def settled_def psIsRefundStatus_def isRecharge_def order_type_defs)
qed

lemma plain_collaborators: "collaboratorsOk plainService"
  by (simp add: collaboratorsOk_def plainService_def)

lemma notified_operation: "operation plainService notified"
  unfolding notified_def by (rule operation.notification)

text \<open>Two notifications of one payment; the first is overtaken by the second in the middle of its work.\<close>

definition twiceNotified :: "(payEnv, payDB, unit) turn list" where
  "twiceNotified = [Arrive notified, Arrive notified] @ replicate 6 (Turn 0 calm) @ replicate 20 (Turn 1 calm) @
     replicate 20 (Turn 0 calm)"

lemma twice_operations: "list_all (arrives (operation plainService)) (twiceNotified @ [Arrive notified, Turn 2 calm])"
  by (simp add: twiceNotified_def notified_operation list_all_iff)

definition completedOrder :: PaymentOrder where
  "completedOrder = exampleOrder\<lparr>po_Status := OrderStatusCompleted, po_PaymentTradeNo := ''T1'', po_PaidAt := Some (100 * hour),
     po_CompletedAt := Some (100 * hour), po_UpdatedAt := 100 * hour\<rparr>"

lemma twice_completed: "orders (runPool exampleDB twiceNotified) = [completedOrder]"
  by code_simp

lemma completed_settled: "isRecharge completedOrder" "po_OrderType completedOrder \<noteq> OrderTypeShop" "settled completedOrder" "po_RechargeCode completedOrder = ''PAY-7-42''"
    "po_Amount completedOrder = 10"
  by (simp_all add: completedOrder_def exampleOrder_def isRecharge_def order_type_defs settled_def)

section \<open>Pools\<close>

text \<open>
  (C6) Whatever payment operations run, however their statements interleave, whichever statements
  fail or lose their answer and wherever processes die: no redeem code is ever booked twice, and a
  recharge order that is completed or being refunded has been credited exactly once, with its amount
  (or, when the balance was overdrawn by more than that, with what lifts it to zero). The shop and the
  inviter's rebate take part as any programs that keep other orders settled, codes used and bookings in
  place (\<^const>\<open>collaboratorsOk\<close>); what they do to shop orders is free.
\<close>

theorem recharge_credited_once:
  assumes "payInv s" "collaboratorsOk sv" "list_all (arrives (operation sv)) evs"
  shows "(\<forall>c. length (credits (runPool s evs) c) \<le> 1) \<and>
    (\<forall>od \<in> set (orders (runPool s evs)). isRecharge od \<and> settled od \<longrightarrow>
      (\<exists>e. credits (runPool s evs) (po_RechargeCode od) = [e] \<and> le_Direction e = ''credit'' \<and>
        (le_Amount e = po_Amount od \<or> po_Amount od < le_Amount e \<and> le_BalanceAfter e = 0)))"
proof -
  have inv: "payInv (runPool s evs)"
    using pay.pool_safe [OF assms(1) operations_benign [OF assms(2,3)]] by blast
  then have "length (credits (runPool s evs) c) \<le> 1" for c by (simp add: payInv_def ledgerOk_def)
  with recharge_booked [OF inv] show ?thesis by blast
qed

theorem recharge_credited_once_witness:
  "\<exists>e. credits (runPool exampleDB twiceNotified) ''PAY-7-42'' = [e] \<and> le_Direction e = ''credit'' \<and>
     (le_Amount e = 10 \<or> 10 < le_Amount e \<and> le_BalanceAfter e = 0)"
  using recharge_credited_once [OF example_inv plain_collaborators, of twiceNotified]
    twice_operations twice_completed completed_settled by simp

text \<open>
  (C11) A settled order stays settled: once a recharge or subscription order is completed, or anywhere in the
  refund process, no sequence of the operations of \<^const>\<open>operation\<close> (notifications, retries, manual fulfilment,
  queries, cancellation, expiry, refunds, redeeming) brings it back to a status from which it could be paid or
  fulfilled again. Shop orders are excepted, which the shop fails when it cannot deliver, and so is the
  creation of an order, whose error path overwrites the status of the order it has created.
\<close>

theorem settled_orders_stay:
  assumes "payInv s" "collaboratorsOk sv" "list_all (arrives (operation sv)) (evs @ later)"
    and "od \<in> set (orders (runPool s evs))" "settled od" "po_OrderType od \<noteq> OrderTypeShop"
  shows "\<exists>x \<in> set (orders (runPool s (evs @ later))). sameOrder od x \<and> settled x"
proof -
  have "payStep (runPool s evs) (runPool s (evs @ later))"
    by (rule pay.pool_ahead [OF assms(1) operations_benign [OF assms(2,3)]])
  with assms(4-6) show ?thesis unfolding payStep_def by blast
qed

theorem settled_orders_stay_witness:
  "\<exists>x \<in> set (orders (runPool exampleDB (twiceNotified @ [Arrive notified, Turn 2 calm]))).
     sameOrder completedOrder x \<and> settled x"
  using settled_orders_stay [OF example_inv plain_collaborators twice_operations, of completedOrder]
    twice_completed completed_settled by simp

section \<open>Runs without interference\<close>

lemma exec_orders [simp]:
  "fault e = Works \<Longrightarrow> exec e (getOrder i) s = (only (orderOf s i), s)"
  "fault e = Works \<Longrightarrow> exec e (updateOrders P f) s = (Inr (length (filter (P e) (orders s))),
     s\<lparr>orders := setRows (P e) (\<lambda>od. (f e od)\<lparr>po_UpdatedAt := clock e\<rparr>) (orders s)\<rparr>)"
  "fault e = Works \<Longrightarrow> exec e (writeAuditLog i a b) s =
     ((), s\<lparr>audits := audits s @ [\<lparr>ae_OrderID = i, ae_Action = a, ae_Operator = b, ae_CreatedAt = clock e\<rparr>]\<rparr>)"
  "fault e = Works \<Longrightarrow> exec e (hasAuditLog i a) s = (hasAudit s i a, s)"
  "exec e ok s = (Inr (), s)"
  by (simp_all add: getOrder_def updateOrders_def writeAuditLog_def hasAuditLog_def exec_andThen ok_def)

lemma find_setRows:
  assumes "\<And>x. k (f x) = k x"
  shows "find (\<lambda>x. k x = i) (setRows P f xs) = map_option (rowChange P f) (find (\<lambda>x. k x = i) xs)"
  using assms by (induction xs) (auto simp: setRows_def rowChange_def)

lemma orderOf_setRows:
  assumes "\<And>x. po_ID (f x) = po_ID x"
  shows "orderOf (s\<lparr>orders := setRows P f (orders s)\<rparr>) i = map_option (rowChange P f) (orderOf s i)"
  unfolding orderOf_def using assms by (simp add: find_setRows)

lemma orderOf_others [simp]:
  "orderOf (s\<lparr>audits := a\<rparr>) i = orderOf s i" "orderOf (s\<lparr>users := b\<rparr>) i = orderOf s i"
  by (simp_all add: orderOf_def)

lemma orderOf_row: "orderOf s i = Some od \<Longrightarrow> od \<in> set (orders s) \<and> po_ID od = i"
  by (auto simp: orderOf_def find_Some_iff)

lemma filter_row:
  "orderOf s i = Some od \<Longrightarrow> Q od \<Longrightarrow> filter (\<lambda>x. po_ID x = i \<and> Q x) (orders s) \<noteq> []"
  by (auto simp: filter_empty_conv dest: orderOf_row)

text \<open>A code that can be used is redeemed when the limits allow it.\<close>

lemma codeOf_row: "codeOf s c = Some r \<Longrightarrow> r \<in> set (codes s) \<and> rc_Code r = c"
  by (auto simp: codeOf_def find_Some_iff)

lemma exec_ApplyBalanceLedgerDelta_ok:
  assumes "fault e = Works" "userOf s (bl_UserID inp) = Some u" "0 < bl_UserID inp" "bl_ClampZero inp"
    and "TrimSpace (bl_Reason inp) \<noteq> []" "TrimSpace (bl_RefType inp) \<noteq> []"
  shows "\<exists>v t. exec e (ApplyBalanceLedgerDelta inp) s = (Inr v, t) \<and> orders t = orders s \<and> codes t = codes s"
  using assms
  by (auto simp: ApplyBalanceLedgerDelta_def ledgerDelta_def Let_def setUser_def split: prod.split)

lemma redeem_code_text: "TrimSpace ''redeem_code'' \<noteq> []"
  by code_simp

lemma exec_redeemTx:
  assumes "fault e = Works" "r \<in> set (codes s)" "rc_Status r = StatusUnused" "rc_Type r = RedeemTypeBalance"
    and "userOf s uid = Some u" "0 < uid"
  shows "\<exists>t. exec e (redeemTx r uid user) s = (Inr (), t) \<and> orders t = orders s \<and>
    codes t = map (markUsed (rc_ID r) uid (clock e)) (codes s)"
proof -
  let ?s = "s\<lparr>codes := map (markUsed (rc_ID r) uid (clock e)) (codes s)\<rparr>"
  have "userOf ?s uid = Some u" using assms(5) by (simp add: userOf_def)
  then obtain v t where "exec e (ApplyBalanceLedgerDelta (redeemLedgerInput r uid)) ?s = (Inr v, t)"
      "orders t = orders ?s" "codes t = codes ?s"
    using exec_ApplyBalanceLedgerDelta_ok [OF assms(1), of ?s "redeemLedgerInput r uid" u] assms(6)
    by (auto simp: redeemLedgerInput_def redeem_code_text)
  then show ?thesis using assms(1-4)
    by (auto simp: redeemTx_def exec_Use grantRedeemed_def list_ex_iff)
qed

definition quiet :: "payEnv \<Rightarrow> int \<Rightarrow> string \<Rightarrow> bool" where
  "quiet e uid code \<longleftrightarrow> fault e = Works \<and> checkRedeemRateLimit uid e = None \<and> acquireRedeemLock code e"

text \<open>The rebate of the inviter writes other tables.\<close>

definition rebateApart :: "payEnv \<Rightarrow> (int \<Rightarrow> rat \<Rightarrow> unit payProg) \<Rightarrow> bool" where
  "rebateApart e rebate \<longleftrightarrow> (\<forall>u a s. orders (snd (exec e (rebate u a) s)) = orders s \<and>
     codes (snd (exec e (rebate u a) s)) = codes s)"

lemma exec_Redeem:
  assumes "quiet e uid code" "codeOf s code = Some r" "CanUse r (clock e)" "rc_Type r = RedeemTypeBalance"
    and "userOf s uid = Some u" "0 < uid" "rebateApart e rebate"
  shows "\<exists>r' t. exec e (Redeem rebate uid code) s = (Inr r', t) \<and> orders t = orders s"
proof -
  have e: "fault e = Works" "checkRedeemRateLimit uid e = None" "acquireRedeemLock code e"
    using assms(1) by (auto simp: quiet_def)
  have r: "r \<in> set (codes s)" "rc_Status r = StatusUnused"
    using codeOf_row [OF assms(2)] assms(3) by (auto simp: CanUse_def)
  obtain t where t: "exec e (redeemTx r uid u) s = (Inr (), t)" "orders t = orders s"
      "codes t = map (markUsed (rc_ID r) uid (clock e)) (codes s)"
    using exec_redeemTx [OF e(1) r assms(4-6)] by blast
  define t' where "t' = snd (exec e (if rc_Type r = RedeemTypeBalance \<and> rc_Value r > 0 then rebate uid (rc_Value r) else Return ()) t)"
  have t': "orders t' = orders t" "codes t' = codes t"
    using assms(7) by (simp_all add: t'_def rebateApart_def)
  have "find (\<lambda>x. rc_ID x = rc_ID r) (codes t') \<noteq> None"
    using r(1) by (auto simp: t(3) t'(2) find_None_iff)
  then obtain r' where "find (\<lambda>x. rc_ID x = rc_ID r) (codes t') = Some r'" by blast
  then have "exec e (afterRedeem rebate uid r) t = (Inr r', t')"
    using e(1) by (simp add: afterRedeem_def GetByID_def followedBy_def exec_andThen t'_def split_def)
  with t t'(1) assms e show ?thesis
    by (simp add: Redeem_def redeemFound_def exec_andThen GetByCode_def getUser_def Now_def typePrecondition_def)
qed

text \<open>Past the limit, or while another process holds the code, nothing is touched.\<close>

lemma exec_Redeem_refused:
  "\<not> (checkRedeemRateLimit uid e = None \<and> acquireRedeemLock code e) \<Longrightarrow> \<exists>err. exec e (Redeem rebate uid code) s = (Inl err, s)"
  by (auto simp: Redeem_def exec_andThen split: option.split)

lemma exec_create_recharge:
  assumes "fault e = Works" "codeOf s (po_RechargeCode od) = None" "po_RechargeCode od \<noteq> []" "0 < po_Amount od"
    and "TrimSpace (po_RechargeCode od) = po_RechargeCode od"
  shows "exec e (CreateCode (rechargeCode od)) s = (Inr (),
    s\<lparr>codes := codes s @ [(rechargeCode od)\<lparr>rc_ID := nextCodeID s\<rparr>], nextCodeID := nextCodeID s + 1\<rparr>)"
  using assms
  by (simp add: CreateCode_def rechargeCode_def Create_def validateRedeemCodeValue_def redeem_type_defs row_status_defs)

lemma codeOf_created:
  assumes "codeOf s (po_RechargeCode od) = None"
  shows "codeOf (s\<lparr>codes := codes s @ [(rechargeCode od)\<lparr>rc_ID := i\<rparr>], nextCodeID := j\<rparr>) (po_RechargeCode od) =
    Some ((rechargeCode od)\<lparr>rc_ID := i\<rparr>)"
proof -
  have "find P (xs @ [x]) = Some x" if "find P xs = None" "P x" for P and xs :: "RedeemCode list" and x
    using that by (induction xs) (auto split: if_splits)
  then show ?thesis using assms by (simp add: codeOf_def rechargeCode_def)
qed

lemma exec_markCompleted:
  assumes "fault e = Works"
  shows "\<exists>t. exec e (markCompleted od a) s = (Inr (), t) \<and>
    orders t = setRows (\<lambda>x. po_ID x = po_ID od \<and> po_Status x = OrderStatusRecharging)
      (\<lambda>x. x\<lparr>po_Status := OrderStatusCompleted, po_CompletedAt := Some (clock e), po_UpdatedAt := clock e\<rparr>) (orders s)"
  using assms by (simp add: markCompleted_def exec_andThen)

definition redeemable :: "payDB \<Rightarrow> PaymentOrder \<Rightarrow> payEnv \<Rightarrow> bool" where
  "redeemable s od e \<longleftrightarrow> (\<forall>r. codeOf s (po_RechargeCode od) = Some r \<longrightarrow>
     IsUsed r \<or> CanUse r (clock e) \<and> rc_Type r = RedeemTypeBalance)"

lemma exec_doBalance:
  assumes "quiet e (po_UserID od) (po_RechargeCode od) \<or> fault e = Works \<and> usedCode s (po_RechargeCode od)"
    and "rebateApart e (accrueRebate sv)" "codesOk s"
    and "po_RechargeCode od \<noteq> []" "0 < po_Amount od" "TrimSpace (po_RechargeCode od) = po_RechargeCode od"
    and "redeemable s od e" "userOf s (po_UserID od) = Some u" "0 < po_UserID od"
  shows "\<exists>t. exec e (doBalance sv od) s = (Inr (), t) \<and>
    orders t = setRows (\<lambda>x. po_ID x = po_ID od \<and> po_Status x = OrderStatusRecharging)
      (\<lambda>x. x\<lparr>po_Status := OrderStatusCompleted, po_CompletedAt := Some (clock e), po_UpdatedAt := clock e\<rparr>) (orders s)"
proof -
  have e: "fault e = Works" using assms(1) by (auto simp: quiet_def)
  have q: "quiet e (po_UserID od) (po_RechargeCode od)" if "\<not> usedCode s (po_RechargeCode od)" using assms(1) that by blast
  have complete: "\<exists>t. exec e (handle (Redeem (accrueRebate sv) (po_UserID od) (po_RechargeCode od))
     (\<lambda>err. failWith (Because ''redeem balance'' err)) (\<lambda>_. markCompleted od ''RECHARGE_SUCCESS'')) s' = (Inr (), t) \<and>
    orders t = setRows (\<lambda>x. po_ID x = po_ID od \<and> po_Status x = OrderStatusRecharging)
      (\<lambda>x. x\<lparr>po_Status := OrderStatusCompleted, po_CompletedAt := Some (clock e), po_UpdatedAt := clock e\<rparr>) (orders s)"
    if c: "codeOf s' (po_RechargeCode od) = Some r" "CanUse r (clock e)" "rc_Type r = RedeemTypeBalance"
      and s': "orders s' = orders s" "users s' = users s" and unused: "\<not> usedCode s (po_RechargeCode od)" for s' r
  proof -
    have "userOf s' (po_UserID od) = Some u" using assms(8) s'(2) by (simp add: userOf_def)
    then obtain r' t' where "exec e (Redeem (accrueRebate sv) (po_UserID od) (po_RechargeCode od)) s' = (Inr r', t')"
        "orders t' = orders s'"
      using exec_Redeem [OF q [OF unused] c _ assms(9,2)] by auto
    with exec_markCompleted [OF e, of od "''RECHARGE_SUCCESS''" t'] s'(1) show ?thesis by auto
  qed
  show ?thesis
  proof (cases "codeOf s (po_RechargeCode od)")
    case None
    then have unused: "\<not> usedCode s (po_RechargeCode od)" by (auto simp: usedCode_def codeOf_def find_None_iff)
    let ?s = "s\<lparr>codes := codes s @ [(rechargeCode od)\<lparr>rc_ID := nextCodeID s\<rparr>], nextCodeID := nextCodeID s + 1\<rparr>"
    have "codeOf ?s (po_RechargeCode od) = Some ((rechargeCode od)\<lparr>rc_ID := nextCodeID s\<rparr>)"
      using codeOf_created [OF None] by simp
    from complete [OF this _ _ _ _ unused] exec_create_recharge [OF e None assms(4-6)] None e
    show ?thesis
      by (auto simp: doBalance_def exec_andThen GetByCode_def resolveRedeemAction_def rechargeCode_def CanUse_def
          IsExpiredAt_def row_status_defs)
  next
    case (Some r)
    show ?thesis
    proof (cases "IsUsed r")
      case True
      with Some e exec_markCompleted [OF e, of od "''RECHARGE_SUCCESS''" s] show ?thesis
        by (auto simp: doBalance_def exec_andThen GetByCode_def resolveRedeemAction_def)
    next
      case False
      with Some assms(7) have "CanUse r (clock e)" "rc_Type r = RedeemTypeBalance" by (auto simp: redeemable_def)
      moreover have "\<not> usedCode s (po_RechargeCode od)"
        using False codeOf_row [OF Some] assms(3) by (auto simp: usedCode_def codesOk_def distinct_map inj_on_def)
      ultimately show ?thesis using complete [OF Some] Some False e
        by (auto simp: doBalance_def exec_andThen GetByCode_def resolveRedeemAction_def)
    qed
  qed
qed

lemma CanUse_recharge: "CanUse ((rechargeCode od)\<lparr>rc_ID := i\<rparr>) now"
  by (simp add: rechargeCode_def CanUse_def IsExpiredAt_def row_status_defs)

lemma rechargeCode_type [simp]: "rc_Type (rechargeCode od) = RedeemTypeBalance"
  by (simp add: rechargeCode_def)

text \<open>Refused, the fulfilment leaves at most the code behind, which can still be used.\<close>

lemma exec_doBalance_refused:
  assumes "fault e = Works" "\<not> (checkRedeemRateLimit (po_UserID od) e = None \<and> acquireRedeemLock (po_RechargeCode od) e)"
    and "\<not> usedCode s (po_RechargeCode od)" "redeemable s od e"
    and "po_RechargeCode od \<noteq> []" "0 < po_Amount od" "TrimSpace (po_RechargeCode od) = po_RechargeCode od"
  shows "\<exists>err t. exec e (doBalance sv od) s = (Inl err, t) \<and> orders t = orders s \<and> ledger t = ledger s \<and> redeemable t od e"
proof (cases "codeOf s (po_RechargeCode od)")
  case None
  let ?s = "s\<lparr>codes := codes s @ [(rechargeCode od)\<lparr>rc_ID := nextCodeID s\<rparr>], nextCodeID := nextCodeID s + 1\<rparr>"
  have "redeemable ?s od e" using codeOf_created [OF None] CanUse_recharge by (simp add: redeemable_def)
  moreover obtain err where "exec e (Redeem (accrueRebate sv) (po_UserID od) (po_RechargeCode od)) ?s = (Inl err, ?s)"
    using exec_Redeem_refused [OF assms(2)] by blast
  ultimately show ?thesis using exec_create_recharge [OF assms(1) None assms(5-7)] None assms(1)
    by (simp add: doBalance_def exec_andThen GetByCode_def resolveRedeemAction_def)
next
  case (Some r)
  have "\<not> IsUsed r" using assms(3) codeOf_row [OF Some] by (auto simp: usedCode_def)
  moreover obtain err where "exec e (Redeem (accrueRebate sv) (po_UserID od) (po_RechargeCode od)) s = (Inl err, s)"
    using exec_Redeem_refused [OF assms(2)] by blast
  ultimately show ?thesis using Some assms(1,4)
    by (simp add: doBalance_def exec_andThen GetByCode_def resolveRedeemAction_def)
qed

lemma exec_markFailed:
  assumes "fault e = Works"
  shows "\<exists>t. exec e (markFailed oid err) s = ((), t) \<and> ledger t = ledger s \<and> codes t = codes s \<and>
    orders t = setRows (\<lambda>x. po_ID x = oid \<and> po_Status x = OrderStatusRecharging)
      (\<lambda>x. x\<lparr>po_Status := OrderStatusFailed, po_FailedAt := Some (clock e), po_FailedReason := Some err, po_UpdatedAt := clock e\<rparr>) (orders s)"
  using assms by (simp add: markFailed_def exec_andThen)

text \<open>The fulfilment of an order that is ready for it, up to the work under the lock.\<close>

lemma exec_retry_until_locked:
  assumes "orderOf s oid = Some od" "isRecharge od" "po_PaidAt od \<noteq> None"
    and "po_Status od \<in> {OrderStatusPaid, OrderStatusFailed}" "fault e = Works"
  obtains od1 s2 where "sameOrder od od1" "po_PaidAt od1 = po_PaidAt od"
    "orderOf s2 oid = Some (od1\<lparr>po_Status := OrderStatusRecharging, po_UpdatedAt := clock e\<rparr>)"
    "codes s2 = codes s" "users s2 = users s" "ledger s2 = ledger s" "nextCodeID s2 = nextCodeID s"
    "exec e (RetryFulfillment sv oid) s =
       exec e (handle (doBalance sv od1) (\<lambda>err. followedBy (markFailed oid err) (failWith err)) (\<lambda>_. ok)) s2"
proof -
  let ?Q = "\<lambda>x. po_Status x \<in> {OrderStatusFailed, OrderStatusPaid}"
  define s1 where "s1 = s\<lparr>orders := setRows (\<lambda>x. po_ID x = oid \<and> ?Q x)
    (\<lambda>x. x\<lparr>po_Status := OrderStatusPaid, po_FailedAt := None, po_FailedReason := None, po_UpdatedAt := clock e\<rparr>) (orders s),
    audits := audits s @ [\<lparr>ae_OrderID = oid, ae_Action = ''RECHARGE_RETRY'', ae_Operator = ''admin'', ae_CreatedAt = clock e\<rparr>]\<rparr>"
  define od1 where "od1 = od\<lparr>po_Status := OrderStatusPaid, po_FailedAt := None, po_FailedReason := None, po_UpdatedAt := clock e\<rparr>"
  define s2 where "s2 = s1\<lparr>orders := setRows (\<lambda>x. po_ID x = oid \<and> po_Status x \<in> {OrderStatusPaid, OrderStatusFailed})
    (\<lambda>x. x\<lparr>po_Status := OrderStatusRecharging, po_UpdatedAt := clock e\<rparr>) (orders s1)\<rparr>"
  have id: "po_ID od = oid" using orderOf_row [OF assms(1)] by auto
  have o1: "orderOf s1 oid = Some od1"
    using assms(1,4) id by (simp add: s1_def od1_def orderOf_setRows rowChange_def) auto
  have o2: "orderOf s2 oid = Some (od1\<lparr>po_Status := OrderStatusRecharging, po_UpdatedAt := clock e\<rparr>)"
    using o1 id by (simp add: s2_def orderOf_setRows rowChange_def od1_def)
  have locked: "filter (\<lambda>x. po_ID x = oid \<and> (po_Status x = OrderStatusPaid \<or> po_Status x = OrderStatusFailed)) (orders s1) \<noteq> []"
    by (rule filter_row [OF o1]) (simp add: od1_def)
  let ?work = "handle (doBalance sv od1) (\<lambda>err. followedBy (markFailed oid err) (failWith err)) (\<lambda>_. ok)"
  have "exec e (ExecuteBalanceFulfillment sv oid) s1 = exec e ?work s2"
    using assms(5) o1 locked by (simp add: ExecuteBalanceFulfillment_def underLock_def lockForFulfillment_def only_def od1_def
        psIsRefundStatus_def s2_def)
  then have "exec e (executeFulfillment sv oid) s1 = exec e ?work s2"
    using assms(2,5) o1 by (simp add: executeFulfillment_def only_def od1_def isRecharge_def)
  then have run: "exec e (RetryFulfillment sv oid) s = exec e ?work s2"
    using assms(1,3-5) by (auto simp: RetryFulfillment_def only_def psIsRefundStatus_def s1_def)
  have od1: "sameOrder od od1" "po_PaidAt od1 = po_PaidAt od" by (simp_all add: od1_def sameOrder_def)
  have "codes s2 = codes s" "users s2 = users s" "ledger s2 = ledger s" "nextCodeID s2 = nextCodeID s"
    by (simp_all add: s2_def s1_def)
  from that [OF od1 o2 this run] show ?thesis .
qed

lemma orderOf_changed:
  assumes "orderOf s oid = Some od" "orders t = setRows P f (orders s)" "\<And>x. po_ID (f x) = po_ID x" "P od"
  shows "orderOf t oid = Some (f od)"
  using assms unfolding orderOf_def by (subst assms(2), subst find_setRows) (simp_all add: rowChange_def)

text \<open>
  (C10) A paid recharge that is not yet credited gets credited. When the database works and the code of the order
  is neither disabled nor expired, retrying the fulfilment of a paid or failed recharge order of an
  existing user has one of two outcomes. If the code is used already, or the user's failed redeem
  attempts are within the limit and nobody else holds the code, the order is completed, and its amount is booked
  exactly once (or what lifts an overdrawn balance to zero) - also when an earlier attempt had already
  created or even redeemed the code. Otherwise the retry reports an error, nothing is booked, and
  the order is failed with its payment date kept, so that it can be retried again.
\<close>

theorem retry_completes:
  assumes "payInv s" "orderOf s oid = Some od" "isRecharge od" "po_PaidAt od \<noteq> None"
    and "po_Status od \<in> {OrderStatusPaid, OrderStatusFailed}" "fault e = Works"
    and "collaboratorsOk sv" "rebateApart e (accrueRebate sv)"
    and "redeemable s od e" "userOf s (po_UserID od) = Some u" "0 < po_UserID od"
  shows "\<exists>r t od'. exec e (RetryFulfillment sv oid) s = (r, t) \<and> orderOf t oid = Some od' \<and> sameOrder od od' \<and>
    (if usedCode s (po_RechargeCode od) \<or>
        checkRedeemRateLimit (po_UserID od) e = None \<and> acquireRedeemLock (po_RechargeCode od) e
     then r = Inr () \<and> po_Status od' = OrderStatusCompleted \<and>
       (\<exists>en. credits t (po_RechargeCode od) = [en] \<and> le_Direction en = ''credit'' \<and>
          (le_Amount en = po_Amount od \<or> po_Amount od < le_Amount en \<and> le_BalanceAfter en = 0))
     else (\<exists>err. r = Inl err) \<and> po_Status od' = OrderStatusFailed \<and> po_PaidAt od' = po_PaidAt od \<and>
       ledger t = ledger s \<and> redeemable t od' e)"
proof -
  obtain od1 s2 where s2: "sameOrder od od1" "po_PaidAt od1 = po_PaidAt od"
    "orderOf s2 oid = Some (od1\<lparr>po_Status := OrderStatusRecharging, po_UpdatedAt := clock e\<rparr>)"
    "codes s2 = codes s" "users s2 = users s" "ledger s2 = ledger s" "nextCodeID s2 = nextCodeID s"
    "exec e (RetryFulfillment sv oid) s =
       exec e (handle (doBalance sv od1) (\<lambda>err. followedBy (markFailed oid err) (failWith err)) (\<lambda>_. ok)) s2"
    by (rule exec_retry_until_locked [OF assms(2-6), where sv = sv])
  have same: "po_RechargeCode od1 = po_RechargeCode od" "po_UserID od1 = po_UserID od" "po_Amount od1 = po_Amount od" "po_ID od1 = oid"
    using s2(1) orderOf_row [OF assms(2)] by (simp_all add: sameOrder_def)
  have "rechargeOk s od" using assms(1,3) orderOf_row [OF assms(2)] by (auto simp: payInv_def ordersOk_def)
  then have code: "po_RechargeCode od1 \<noteq> []" "0 < po_Amount od1" "TrimSpace (po_RechargeCode od1) = po_RechargeCode od1"
    by (auto simp: rechargeOk_def same)
  have used: "usedCode s2 c = usedCode s c" for c by (simp add: usedCode_def s2(4))
  have "codesOk s2 = codesOk s" by (simp only: codesOk_def credits_def s2(4,6,7))
  then have st: "codesOk s2" using assms(1) by (simp add: payInv_def)
  have can: "redeemable s2 od1 e" using assms(9) by (simp add: redeemable_def codeOf_def s2(4) same)
  have user: "userOf s2 (po_UserID od1) = Some u" "0 < po_UserID od1"
    using assms(10,11) by (simp_all add: userOf_def s2(5) same)
  show ?thesis
  proof (cases "usedCode s (po_RechargeCode od) \<or>
        checkRedeemRateLimit (po_UserID od) e = None \<and> acquireRedeemLock (po_RechargeCode od) e")
    case True
    then have "quiet e (po_UserID od1) (po_RechargeCode od1) \<or> fault e = Works \<and> usedCode s2 (po_RechargeCode od1)"
      using assms(6) by (auto simp: quiet_def same used)
    from exec_doBalance [OF this assms(8) st code can user] obtain t where t: "exec e (doBalance sv od1) s2 = (Inr (), t)"
      and ot: "orders t = setRows (\<lambda>x. po_ID x = po_ID od1 \<and> po_Status x = OrderStatusRecharging)
        (\<lambda>x. x\<lparr>po_Status := OrderStatusCompleted, po_CompletedAt := Some (clock e), po_UpdatedAt := clock e\<rparr>) (orders s2)"
      by blast
    let ?od' = "od1\<lparr>po_Status := OrderStatusCompleted, po_UpdatedAt := clock e, po_CompletedAt := Some (clock e)\<rparr>"
    have ot': "orderOf t oid = Some ?od'" using orderOf_changed [OF s2(3) ot] same(4) by simp
    have ret: "exec e (RetryFulfillment sv oid) s = (Inr (), t)" using s2(8) t by simp
    have "payInv t"
      using pay.benign_exec [OF benign_RetryFulfillment assms(1), of sv e oid] ret assms(7) by simp
    moreover have "?od' \<in> set (orders t)" "isRecharge ?od'" "settled ?od'"
      using orderOf_row [OF ot'] assms(3) s2(1) by (auto simp: isRecharge_def settled_def sameOrder_def)
    ultimately have "\<exists>en. credits t (po_RechargeCode od) = [en] \<and> le_Direction en = ''credit'' \<and>
          (le_Amount en = po_Amount od \<or> po_Amount od < le_Amount en \<and> le_BalanceAfter en = 0)"
      using recharge_booked [of t ?od'] by (simp add: same)
    with True ret ot' s2(1) show ?thesis by (auto simp: sameOrder_def)
  next
    case False
    then have refused: "\<not> (checkRedeemRateLimit (po_UserID od1) e = None \<and> acquireRedeemLock (po_RechargeCode od1) e)"
      "\<not> usedCode s2 (po_RechargeCode od1)" by (auto simp: same used)
    from exec_doBalance_refused [OF assms(6) refused can code] obtain err t1 where t1:
      "exec e (doBalance sv od1) s2 = (Inl err, t1)" "orders t1 = orders s2" "ledger t1 = ledger s2" "redeemable t1 od1 e"
      by blast
    from exec_markFailed [OF assms(6), of oid err t1] obtain t where t: "exec e (markFailed oid err) t1 = ((), t)"
      "ledger t = ledger t1" "codes t = codes t1"
      "orders t = setRows (\<lambda>x. po_ID x = oid \<and> po_Status x = OrderStatusRecharging)
        (\<lambda>x. x\<lparr>po_Status := OrderStatusFailed, po_FailedAt := Some (clock e), po_FailedReason := Some err, po_UpdatedAt := clock e\<rparr>) (orders t1)"
      by blast
    let ?od' = "od1\<lparr>po_Status := OrderStatusFailed, po_UpdatedAt := clock e, po_FailedAt := Some (clock e), po_FailedReason := Some err\<rparr>"
    have ot': "orderOf t oid = Some ?od'" using orderOf_changed [OF s2(3) t(4) [unfolded t1(2)]] same(4) by simp
    have "exec e (RetryFulfillment sv oid) s = (Inl err, t)" using s2(8) t1(1) t(1) by simp
    moreover have "redeemable t ?od' e" using t1(4) by (simp add: redeemable_def codeOf_def t(3))
    ultimately show ?thesis using False ot' s2(1,2,6) t(2) t1(3) by (auto simp: sameOrder_def)
  qed
qed

definition failedOrder :: PaymentOrder where
  "failedOrder = exampleOrder\<lparr>po_Status := OrderStatusFailed, po_PaidAt := Some (99 * hour),
     po_FailedAt := Some (99 * hour), po_FailedReason := Some DbError\<rparr>"

lemma failed_inv: "payInv (exampleDB\<lparr>orders := [failedOrder]\<rparr>)"
proof -
  have "TrimSpace ''PAY-7-42'' = ''PAY-7-42''" by code_simp
  then show ?thesis
    by (simp add: payInv_def ordersOk_def codesOk_def ledgerOk_def credits_def exampleDB_def exampleOrder_def failedOrder_def
        rechargeOk_def settled_def psIsRefundStatus_def isRecharge_def order_type_defs)
qed

theorem retry_completes_witness:
  "\<exists>t od'. exec calm (RetryFulfillment plainService 7) (exampleDB\<lparr>orders := [failedOrder]\<rparr>) = (Inr (), t) \<and>
    orderOf t 7 = Some od' \<and> po_Status od' = OrderStatusCompleted \<and> sameOrder failedOrder od' \<and>
    (\<exists>en. credits t (po_RechargeCode failedOrder) = [en] \<and> le_Direction en = ''credit'' \<and>
      (le_Amount en = po_Amount failedOrder \<or> po_Amount failedOrder < le_Amount en \<and> le_BalanceAfter en = 0))"
proof -
  let ?s = "exampleDB\<lparr>orders := [failedOrder]\<rparr>"
  have order: "orderOf ?s 7 = Some failedOrder" "isRecharge failedOrder" "po_PaidAt failedOrder \<noteq> None"
    "po_Status failedOrder \<in> {OrderStatusPaid, OrderStatusFailed}"
    by (simp_all add: orderOf_def failedOrder_def exampleOrder_def isRecharge_def order_type_defs)
  have env: "fault calm = Works" "rebateApart calm (accrueRebate plainService)" "redeemable ?s failedOrder calm"
    by (simp_all add: calm_def rebateApart_def plainService_def redeemable_def codeOf_def exampleDB_def)
  have user: "userOf ?s (po_UserID failedOrder) = Some exampleUser" "0 < po_UserID failedOrder"
    by (simp_all add: userOf_def exampleDB_def exampleUser_def failedOrder_def exampleOrder_def)
  have limits: "checkRedeemRateLimit (po_UserID failedOrder) calm = None" "acquireRedeemLock (po_RechargeCode failedOrder) calm"
    by (simp_all add: calm_def checkRedeemRateLimit_def acquireRedeemLock_def)
  from retry_completes [OF failed_inv order env(1) plain_collaborators env(2,3) user] limits show ?thesis
    by (simp only: disj_commute conj_commute if_True simp_thms) blast
qed

end
