(* ===== verification/PaymentOutcomes.thy ===== *)
theory PaymentOutcomes
  imports PaymentRuns
begin

text \<open>
  What single payment operations do when nothing interferes: notifications that do not fit are
  refused, subscription terms are extended or restarted, a refused refund is undone; and the
  cases in which the code books something else than it means to.
\<close>

section \<open>Notifications that do not fit the order\<close>

text \<open>The checks a notification must pass: the provider, the data the provider reports, and the amount.\<close>

definition expectedKey :: "payEnv \<Rightarrow> payDB \<Rightarrow> PaymentOrder \<Rightarrow> string" where
  "expectedKey e s od = expectedNotificationProviderKeyForOrder (registryKey e) od
     (case fst (exec e (getOrderProviderInstance od) s) of Inr (Some inst) \<Rightarrow> pi_ProviderKey inst | _ \<Rightarrow> [])"

definition genuine :: "payEnv \<Rightarrow> payDB \<Rightarrow> PaymentOrder \<Rightarrow> PaymentNotification \<Rightarrow> string \<Rightarrow> bool" where
  "genuine e s od n pk \<longleftrightarrow>
     (expectedKey e s od = [] \<or> TrimSpace pk = [] \<or> EqualFold (expectedKey e s od) (TrimSpace pk)) \<and>
     validateProviderSnapshotMetadata od pk (pn_Metadata n) = None \<and>
     (case pn_Amount n of
        GoFin q \<Rightarrow> 0 < q \<and> \<bar>q - po_PayAmount od\<bar> \<le> paymentAmountToleranceForCurrency (PaymentOrderCurrency od)
      | _ \<Rightarrow> False)"

definition reads :: "'a payProg \<Rightarrow> bool" where
  "reads p \<longleftrightarrow> (\<forall>e s. snd (exec e p s) = s)"

lemma reads_intros:
  "reads (Return v)" "reads (failWith x)" "reads (query q)"
  "reads p \<Longrightarrow> (\<And>y. reads (h y)) \<Longrightarrow> (\<And>z. reads (k z)) \<Longrightarrow> reads (handle p h k)"
  "(b \<Longrightarrow> reads p1) \<Longrightarrow> (\<not> b \<Longrightarrow> reads p2) \<Longrightarrow> reads (if b then p1 else p2)"
  "(w = None \<Longrightarrow> reads p3) \<Longrightarrow> (\<And>u. w = Some u \<Longrightarrow> reads (f u)) \<Longrightarrow> reads (case w of None \<Rightarrow> p3 | Some u \<Rightarrow> f u)"
  by (auto simp: reads_def failWith_def split_def split: sum.split option.split)

lemma reads_getOrderProviderInstance: "reads (getOrderProviderInstance od)"
  unfolding getOrderProviderInstance_def resolveSnapshotOrderProviderInstance_def getInstance_def
    resolveUniqueLegacyOrderProviderInstance_def Let_def
  by (intro reads_intros)

definition refused :: "payEnv \<Rightarrow> payDB \<Rightarrow> int \<Rightarrow> 'a call \<Rightarrow> bool" where
  "refused e s i p \<longleftrightarrow> (\<exists>x a. exec e p s = (Inl x, s\<lparr>audits := audits s @ [a]\<rparr>) \<and> ae_OrderID a = i)"

lemma refused_audited: "fault e = Works \<Longrightarrow> refused e s i (followedBy (writeAuditLog i act op) (failWith y))"
  unfolding refused_def exec_simps exec_orders exec_failWith snd_conv
  by (intro exI conjI, rule refl) simp

lemma exec_confirm_rejects:
  assumes "fault e = Works" "orderOf s oid = Some od" "\<not> genuine e s od n pk"
  shows "refused e s (po_ID od) (confirmPayment sv oid no (pn_Amount n) pk (pn_Metadata n))"
proof -
  obtain r where r: "exec e (getOrderProviderInstance od) s = (r, s)"
    using reads_getOrderProviderInstance [of od] by (metis reads_def surjective_pairing)
  have key: "expectedKey e s od = expectedNotificationProviderKeyForOrder (registryKey e) od
      (case r of Inr (Some inst) \<Rightarrow> pi_ProviderKey inst | _ \<Rightarrow> [])"
    using r by (simp add: expectedKey_def)
  have "exec e (confirmPayment sv oid no (pn_Amount n) pk (pn_Metadata n)) s =
     exec e (let expected = expectedKey e s od; paid = pn_Amount n in
       if expected \<noteq> [] \<and> TrimSpace pk \<noteq> [] \<and> \<not> EqualFold expected (TrimSpace pk) then
       followedBy (writeAuditLog (po_ID od) ''PAYMENT_PROVIDER_MISMATCH'' pk)
         (failWith (PlainError (''provider mismatch: expected '' @ expected @ '', got '' @ pk)))
     else case validateProviderSnapshotMetadata od pk (pn_Metadata n) of
       Some err \<Rightarrow> followedBy (writeAuditLog (po_ID od) ''PAYMENT_PROVIDER_METADATA_MISMATCH'' pk) (failWith err)
     | None \<Rightarrow> (case paid of
         GoFin q \<Rightarrow>
           if \<not> isValidProviderAmount paid then
             followedBy (writeAuditLog (po_ID od) ''PAYMENT_INVALID_AMOUNT'' pk)
               (failWith (PlainError ''invalid paid amount from provider''))
           else if \<bar>q - po_PayAmount od\<bar> > paymentAmountToleranceForCurrency (PaymentOrderCurrency od) then
             followedBy (writeAuditLog (po_ID od) ''PAYMENT_AMOUNT_MISMATCH'' pk) (failWith (PlainError ''amount mismatch''))
           else toPaid sv od no q pk
       | _ \<Rightarrow> followedBy (writeAuditLog (po_ID od) ''PAYMENT_INVALID_AMOUNT'' pk)
               (failWith (PlainError ''invalid paid amount from provider'')))) s" (is "_ = exec e ?rest s")
    using assms(1,2) r unfolding confirmPayment_def key Let_def
    by (simp add: exec_andThen only_def split del: if_split)
  moreover have "refused e s (po_ID od) ?rest"
    using assms(1,3) unfolding genuine_def Let_def
    by (cases "validateProviderSnapshotMetadata od pk (pn_Metadata n)"; cases "pn_Amount n")
      (auto simp: refused_audited)
  ultimately show ?thesis by (simp only: refused_def)
qed

text \<open>
  (C12) A payment notification that does not fit its order is refused: when the provider, the merchant
  data or the amount differ from what the order asks for, the handler returns an error and the only
  change is one audit entry for the order - no status, code, balance or subscription changes.
\<close>

theorem notification_rejected:
  assumes "fault e = Works" "pn_Status n = ''success''"
    and "filter (\<lambda>x. po_OutTradeNo x = pn_OrderID n) (orders s) = [od]" "orderOf s (po_ID od) = Some od"
    and "\<not> genuine e s od n pk"
  shows "\<exists>x a. exec e (HandlePaymentNotification sv n pk) s = (Inl x, s\<lparr>audits := audits s @ [a]\<rparr>) \<and>
    ae_OrderID a = po_ID od"
  using assms(1-3) exec_confirm_rejects [OF assms(1,4,5), of sv "pn_TradeNo n"]
  by (simp add: HandlePaymentNotification_def orderByOutTradeNo_def exec_andThen refused_def)

lemma underpaid: "\<not> genuine calm exampleDB exampleOrder (exampleNotification\<lparr>pn_Amount := GoFin 1\<rparr>) ''alipay''"
  by code_simp

theorem notification_rejected_witness:
  "\<exists>x a. exec calm (HandlePaymentNotification plainService (exampleNotification\<lparr>pn_Amount := GoFin 1\<rparr>) ''alipay'') exampleDB =
     (Inl x, exampleDB\<lparr>audits := audits exampleDB @ [a]\<rparr>) \<and> ae_OrderID a = po_ID exampleOrder"
  by (rule notification_rejected [OF _ _ _ _ underpaid])
    (simp_all add: calm_def exampleNotification_def exampleDB_def exampleOrder_def orderOf_def)

section \<open>Subscription terms\<close>

definition putSub :: "payDB \<Rightarrow> UserSubscription \<Rightarrow> payDB" where
  "putSub s u = s\<lparr>subscriptions := map (\<lambda>x. if us_ID x = us_ID u then u else x) (subscriptions s)\<rparr>"

definition hasSub :: "payDB \<Rightarrow> UserSubscription \<Rightarrow> bool" where
  "hasSub s u \<longleftrightarrow> distinct (map us_ID (subscriptions s)) \<and> u \<in> set (subscriptions s) \<and> us_DeletedAt u = None"

lemma hasSub_unique: "hasSub s v \<Longrightarrow> x \<in> set (subscriptions s) \<Longrightarrow> us_ID x = us_ID v \<Longrightarrow> x = v"
  by (auto simp: hasSub_def distinct_map inj_on_def)

lemma putSub_again [simp]: "us_ID v = us_ID u \<Longrightarrow> putSub (putSub s u) v = putSub s v"
  by (simp add: putSub_def)

lemma hasSub_putSub:
  assumes "hasSub s v" "us_ID u = us_ID v" "us_DeletedAt u = None"
  shows "hasSub (putSub s u) u"
proof -
  have "map us_ID (subscriptions (putSub s u)) = map us_ID (subscriptions s)"
    by (simp add: putSub_def)
  moreover have "u \<in> set (subscriptions (putSub s u))"
    using assms(1,2) by (auto simp: hasSub_def putSub_def image_iff intro!: bexI [of _ v])
  ultimately show ?thesis using assms(1,3) by (simp add: hasSub_def)
qed

lemma subOf_hasSub:
  assumes "hasSub s v"
  shows "subOf s (\<lambda>u. us_ID u = us_ID v) = Inr v"
proof -
  have "v \<in> set (liveSubs s)" using assms by (auto simp: hasSub_def liveSubs_def)
  then obtain w where w: "find (\<lambda>u. us_ID u = us_ID v) (liveSubs s) = Some w"
    by (metis (mono_tags) find_None_iff not_Some_eq)
  then have "w \<in> set (liveSubs s)" "us_ID w = us_ID v" by (auto simp: find_Some_iff)
  then have "w = v" using hasSub_unique [OF assms, of w] by (simp add: liveSubs_def)
  with w show ?thesis by (simp add: subOf_def)
qed

lemma exec_onSub:
  assumes "fault e = Works" "hasSub s v" "us_ID (f v) = us_ID v" "i = us_ID v"
  shows "exec e (onSub i f) s = (Inr (), putSub s (f v))"
proof -
  have "setRows (\<lambda>u. us_ID u = us_ID v) f (subscriptions s) =
      map (\<lambda>x. if us_ID x = us_ID (f v) then f v else x) (subscriptions s)"
    unfolding setRows_def
  proof (rule map_cong [OF refl])
    fix x assume "x \<in> set (subscriptions s)"
    then show "(if us_ID x = us_ID v then f x else x) = (if us_ID x = us_ID (f v) then f v else x)"
      using hasSub_unique [OF assms(2), of x] assms(3) by auto
  qed
  moreover have "list_ex (\<lambda>u. us_ID u = us_ID v) (subscriptions s)" using assms(2) by (auto simp: hasSub_def list_ex_iff)
  ultimately show ?thesis using assms(1,4) by (simp add: onSub_def putSub_def)
qed

lemma exec_getSubByID: "fault e = Works \<Longrightarrow> hasSub s v \<Longrightarrow> i = us_ID v \<Longrightarrow> exec e (getSubByID i) s = (Inr v, s)"
  by (simp add: getSubByID_def subOf_hasSub)

text \<open>The subscription after the change: extended, or restarted when it has run out.\<close>

definition extended :: "UserSubscription \<Rightarrow> string \<Rightarrow> gotime \<Rightarrow> UserSubscription" where
  "extended v notes t = v\<lparr>us_ExpiresAt := t, us_Status := StatusActive, us_Notes := appendSubscriptionNotes (us_Notes v) notes\<rparr>"

definition restarted :: "UserSubscription \<Rightarrow> string \<Rightarrow> gotime \<Rightarrow> gotime \<Rightarrow> UserSubscription" where
  "restarted v notes now t = (extended v notes t)\<lparr>us_StartsAt := now, us_DailyWindowStart := Some (startOfDay now),
     us_WeeklyWindowStart := Some (startOfDay now), us_MonthlyWindowStart := Some (startOfDay now),
     us_DailyUsageUSD := 0, us_WeeklyUsageUSD := 0, us_MonthlyUsageUSD := 0\<rparr>"

lemma exec_restart:
  assumes "fault e = Works" "hasSub s v"
  shows "exec e (updateExistingSubscriptionTerm v notes now t True) s = (Inr (), putSub s (restarted v notes now t))"
  using exec_onSub [OF assms, of _ "us_ID v"] assms
  by (auto simp: updateExistingSubscriptionTerm_def UpdateSub_def renewedSubscriptionTerm_def Let_def restarted_def
      extended_def hasSub_def split: option.split intro!: arg_cong [of _ _ "putSub s"] UserSubscription.equality)

lemma exec_extend:
  assumes "fault e = Works" "hasSub s v"
  shows "exec e (updateExistingSubscriptionTerm v notes now t False) s = (Inr (), putSub s (extended v notes t))"
proof -
  define v1 where "v1 = v\<lparr>us_ExpiresAt := t\<rparr>"
  define v2 where "v2 = v1\<lparr>us_Status := StatusActive\<rparr>"
  have live: "us_DeletedAt v = None" using assms(2) by (simp add: hasSub_def)
  have h1: "hasSub (putSub s v1) v1" using hasSub_putSub [OF assms(2)] live by (simp add: v1_def)
  have 1: "exec e (ExtendExpiry (us_ID v) t) s = (Inr (), putSub s v1)"
    using exec_onSub [OF assms] by (simp add: ExtendExpiry_def v1_def)
  have 2: "exec e (if us_Status v \<noteq> StatusActive then UpdateStatus (us_ID v) StatusActive else Return (Inr ())) (putSub s v1) =
      (Inr (), putSub s v2)"
    using exec_onSub [OF assms(1) h1]
    by (auto simp: UpdateStatus_def v1_def v2_def intro!: arg_cong [of _ _ "putSub s"] UserSubscription.equality)
  have h2: "hasSub (putSub s v2) v2" using hasSub_putSub [OF assms(2)] live by (simp add: v1_def v2_def)
  have 3: "exec e (if notes \<noteq> [] then UpdateNotes (us_ID v) (appendSubscriptionNotes (us_Notes v) notes) else Return (Inr ())) (putSub s v2) =
      (Inr (), putSub s (extended v notes t))"
    using exec_onSub [OF assms(1) h2]
    by (auto simp: UpdateNotes_def v1_def v2_def extended_def appendSubscriptionNotes_def
        intro!: arg_cong [of _ _ "putSub s"] UserSubscription.equality)
  show ?thesis using assms(1) 1 2 3 by (simp add: updateExistingSubscriptionTerm_def)
qed

lemma capExpiry_min: "capExpiry t = min MaxExpiresAt t"
  by (simp add: capExpiry_def)

lemma exec_subscription_exists:
  assumes "fault e = Works" "find (\<lambda>g. g_ID g = as_GroupID inp) (groups s) = Some g" "IsSubscriptionType g"
    and "distinct (map us_ID (subscriptions s))"
    and "find (\<lambda>u. us_UserID u = as_UserID inp \<and> us_GroupID u = as_GroupID inp) (liveSubs s) = Some v"
  shows "let t = min MaxExpiresAt (max (clock e) (us_ExpiresAt v) + validDays (as_ValidityDays inp) * 24 * hour);
      u = (if us_ExpiresAt v \<le> clock e then restarted v (as_Notes inp) (clock e) t else extended v (as_Notes inp) t)
    in exec e (AssignOrExtendSubscription inp) s = (Inr (u, True), putSub s u)"
proof -
  have v: "hasSub s v" using assms(4,5) by (auto simp: hasSub_def find_Some_iff liveSubs_def dest!: nth_mem)
  let ?t = "newTerm v (validDays (as_ValidityDays inp)) (clock e)"
  define u where "u = (if us_ExpiresAt v \<le> clock e then restarted v (as_Notes inp) (clock e) ?t else extended v (as_Notes inp) ?t)"
  have id: "us_ID u = us_ID v" "us_DeletedAt u = None" using v by (auto simp: u_def restarted_def extended_def hasSub_def)
  have "exec e (updateExistingSubscriptionTerm v (as_Notes inp) (clock e) ?t (us_ExpiresAt v \<le> clock e)) s = (Inr (), putSub s u)"
    using exec_restart [OF assms(1) v] exec_extend [OF assms(1) v] by (auto simp: u_def)
  moreover have "exec e (getSubByID (us_ID v)) (putSub s u) = (Inr u, putSub s u)"
    using exec_getSubByID [OF assms(1) hasSub_putSub [OF v id]] id(1) by simp
  ultimately have "exec e (AssignOrExtendSubscription inp) s = (Inr (u, True), putSub s u)"
    using assms by (simp add: AssignOrExtendSubscription_def getGroup_def GetByUserIDAndGroupID_def subOf_def exec_andThen Now_def)
  moreover have "?t = min MaxExpiresAt (max (clock e) (us_ExpiresAt v) + validDays (as_ValidityDays inp) * 24 * hour)"
    by (simp add: newTerm_def addDays_def capExpiry_min max_def)
  ultimately show ?thesis by (simp add: u_def Let_def)
qed

lemma exec_subscription_new:
  assumes "fault e = Works" "find (\<lambda>g. g_ID g = as_GroupID inp) (groups s) = Some g" "IsSubscriptionType g"
    and "distinct (map us_ID (subscriptions s))" "\<forall>u \<in> set (subscriptions s). us_ID u < nextSubID s"
    and "find (\<lambda>u. us_UserID u = as_UserID inp \<and> us_GroupID u = as_GroupID inp) (liveSubs s) = None"
  shows "\<exists>u t. exec e (AssignOrExtendSubscription inp) s = (Inr (u, False), t) \<and>
    subscriptions t = subscriptions s @ [u] \<and> us_UserID u = as_UserID inp \<and> us_GroupID u = as_GroupID inp \<and>
    us_Status u = StatusActive \<and> us_StartsAt u = clock e \<and>
    us_ExpiresAt u = min MaxExpiresAt (clock e + validDays (as_ValidityDays inp) * 24 * hour)"
proof -
  define u where "u = \<lparr>us_ID = nextSubID s, us_UserID = as_UserID inp, us_GroupID = as_GroupID inp, us_StartsAt = clock e,
       us_ExpiresAt = capExpiry (addDays (clock e) (validDays (as_ValidityDays inp))), us_Status = StatusActive,
       us_DailyWindowStart = None, us_WeeklyWindowStart = None, us_MonthlyWindowStart = None,
       us_DailyUsageUSD = 0, us_WeeklyUsageUSD = 0, us_MonthlyUsageUSD = 0,
       us_AssignedBy = (if as_AssignedBy inp > 0 then Some (as_AssignedBy inp) else None),
       us_AssignedAt = clock e, us_Notes = as_Notes inp, us_DeletedAt = None\<rparr>"
  define t where "t = s\<lparr>subscriptions := subscriptions s @ [u], nextSubID := nextSubID s + 1\<rparr>"
  have "hasSub t u" using assms(4,5) by (auto simp: hasSub_def t_def u_def)
  from exec_getSubByID [OF assms(1) this, of "nextSubID s"]
  have "exec e (getSubByID (nextSubID s)) t = (Inr u, t)" by (simp add: u_def)
  moreover have "\<not> list_ex (\<lambda>u. us_UserID u = as_UserID inp \<and> us_GroupID u = as_GroupID inp) (liveSubs s)"
    using assms(6) by (auto simp: find_None_iff list_ex_iff)
  ultimately have "exec e (createSubscription inp) s = (Inr u, t)"
    using assms(1) by (simp add: createSubscription_def CreateSub_def exec_andThen Now_def u_def t_def)
  then have "exec e (AssignOrExtendSubscription inp) s = (Inr (u, False), t)"
    using assms by (simp add: AssignOrExtendSubscription_def getGroup_def GetByUserIDAndGroupID_def subOf_def exec_andThen)
  then show ?thesis by (auto simp: t_def u_def capExpiry_min addDays_def)
qed

text \<open>
  (C13) Assigning a subscription: a user without one gets one that starts now; a running one is
  extended from its expiry and keeps its usage; an expired one starts again now with its usage
  reset. Every new expiry is the right number of days later, at most the end of 2099, the result is
  active, and no other subscription changes.
\<close>

theorem subscription_term:
  assumes "fault e = Works" "find (\<lambda>g. g_ID g = as_GroupID inp) (groups s) = Some g" "IsSubscriptionType g"
    and "distinct (map us_ID (subscriptions s))" "list_all (\<lambda>u. us_ID u < nextSubID s) (subscriptions s)"
  shows "\<exists>u t. case find (\<lambda>u. us_UserID u = as_UserID inp \<and> us_GroupID u = as_GroupID inp) (liveSubs s) of
      None \<Rightarrow> exec e (AssignOrExtendSubscription inp) s = (Inr (u, False), t) \<and> subscriptions t = subscriptions s @ [u] \<and>
        us_UserID u = as_UserID inp \<and> us_GroupID u = as_GroupID inp \<and> us_Status u = StatusActive \<and> us_StartsAt u = clock e \<and>
        us_ExpiresAt u = min MaxExpiresAt (clock e + validDays (as_ValidityDays inp) * 24 * hour)
    | Some v \<Rightarrow> exec e (AssignOrExtendSubscription inp) s = (Inr (u, True), t) \<and>
        subscriptions t = map (\<lambda>x. if us_ID x = us_ID v then u else x) (subscriptions s) \<and> us_ID u = us_ID v \<and>
        us_Status u = StatusActive \<and>
        us_ExpiresAt u = min MaxExpiresAt (max (clock e) (us_ExpiresAt v) + validDays (as_ValidityDays inp) * 24 * hour) \<and>
        (if us_ExpiresAt v \<le> clock e
         then us_StartsAt u = clock e \<and> us_DailyUsageUSD u = 0 \<and> us_WeeklyUsageUSD u = 0 \<and> us_MonthlyUsageUSD u = 0
         else us_StartsAt u = us_StartsAt v \<and> us_DailyUsageUSD u = us_DailyUsageUSD v \<and>
           us_WeeklyUsageUSD u = us_WeeklyUsageUSD v \<and> us_MonthlyUsageUSD u = us_MonthlyUsageUSD v)"
proof (cases "find (\<lambda>u. us_UserID u = as_UserID inp \<and> us_GroupID u = as_GroupID inp) (liveSubs s)")
  case None
  then show ?thesis using exec_subscription_new [OF assms(1-4)] assms(5) by (auto simp: list_all_iff)
next
  case (Some v)
  let ?t = "min MaxExpiresAt (max (clock e) (us_ExpiresAt v) + validDays (as_ValidityDays inp) * 24 * hour)"
  define u where "u = (if us_ExpiresAt v \<le> clock e then restarted v (as_Notes inp) (clock e) ?t else extended v (as_Notes inp) ?t)"
  have "exec e (AssignOrExtendSubscription inp) s = (Inr (u, True), putSub s u)"
    using exec_subscription_exists [OF assms(1-4) Some] by (simp add: Let_def u_def)
  moreover have "us_ID u = us_ID v" "us_Status u = StatusActive" "us_ExpiresAt u = ?t"
    by (auto simp: u_def restarted_def extended_def)
  moreover have "if us_ExpiresAt v \<le> clock e
         then us_StartsAt u = clock e \<and> us_DailyUsageUSD u = 0 \<and> us_WeeklyUsageUSD u = 0 \<and> us_MonthlyUsageUSD u = 0
         else us_StartsAt u = us_StartsAt v \<and> us_DailyUsageUSD u = us_DailyUsageUSD v \<and>
           us_WeeklyUsageUSD u = us_WeeklyUsageUSD v \<and> us_MonthlyUsageUSD u = us_MonthlyUsageUSD v"
    by (simp add: u_def restarted_def extended_def)
  ultimately show ?thesis unfolding Some option.case
    by (intro exI [of _ u] exI [of _ "putSub s u"]) (simp add: putSub_def)
qed

definition exampleGroup :: Group where
  "exampleGroup = \<lparr>g_ID = 5, g_Status = ''active'', g_SubscriptionType = ''subscription''\<rparr>"

definition exampleAssign :: AssignSubscriptionInput where
  "exampleAssign = \<lparr>as_UserID = 3, as_GroupID = 5, as_ValidityDays = 30, as_AssignedBy = 0, as_Notes = []\<rparr>"

lemma example_group: "IsSubscriptionType exampleGroup"
  by code_simp

theorem subscription_term_witness:
  "\<exists>u t. exec calm (AssignOrExtendSubscription exampleAssign) (exampleDB\<lparr>groups := [exampleGroup]\<rparr>) = (Inr (u, False), t) \<and>
     subscriptions t = [u] \<and> us_ExpiresAt u = min MaxExpiresAt (clock calm + validDays 30 * 24 * hour)"
proof -
  have "fault calm = Works" by (simp add: calm_def)
  from subscription_term [OF this, of exampleAssign "exampleDB\<lparr>groups := [exampleGroup]\<rparr>" exampleGroup]
  show ?thesis using example_group
    by (simp add: exampleDB_def exampleAssign_def exampleGroup_def liveSubs_def) blast
qed

section \<open>Refunds\<close>

lemma userOf_setRows:
  assumes "\<And>x. u_ID (f x) = u_ID x"
  shows "userOf (setUser s i f) j = map_option (\<lambda>x. if u_ID x = i then f x else x) (userOf s j)"
  using find_setRows [of u_ID f j "\<lambda>u. u_ID u = i" "users s"] assms
  by (simp add: userOf_def setUser_def rowChange_def [abs_def])

lemma userOf_others [simp]: "userOf (s\<lparr>orders := a\<rparr>) i = userOf s i" "userOf (s\<lparr>audits := b\<rparr>) i = userOf s i"
  by (simp_all add: userOf_def)

lemma orderOf_setUser [simp]: "orderOf (setUser s i f) j = orderOf s j"
  by (simp add: orderOf_def setUser_def)

lemma userOf_row: "userOf s i = Some u \<Longrightarrow> u_ID u = i"
  by (auto simp: userOf_def find_Some_iff)

lemma exec_onUser:
  "fault e = Works \<Longrightarrow> userOf s i = Some u \<Longrightarrow> exec e (onUser i f) s = (Inr (), setUser s i f)"
  by (simp add: onUser_def)

lemma setUser_again: "(\<And>x. u_ID (f x) = u_ID x) \<Longrightarrow> setUser (setUser s i f) i g = setUser s i (g \<circ> f)"
  by (simp add: setUser_def setRows_def)

text \<open>The gateway's answer depends on the provider instances only; the call may add audit entries.\<close>

definition logsOnly :: "payDB \<Rightarrow> payDB \<Rightarrow> bool" where
  "logsOnly s t \<longleftrightarrow> (\<exists>a. t = s\<lparr>audits := audits s @ a\<rparr>)"

lemma logsOnly_refl [simp]: "logsOnly s s"
  unfolding logsOnly_def by (rule exI [of _ "[]"]) simp

lemma logsOnly_audit: "logsOnly s (s\<lparr>audits := audits s @ a\<rparr>)"
  unfolding logsOnly_def by blast

lemma logsOnly_trans: "logsOnly s t \<Longrightarrow> logsOnly t u \<Longrightarrow> logsOnly s u"
  unfolding logsOnly_def by fastforce

lemma logsOnly_instances: "logsOnly s t \<Longrightarrow> instances t = instances s"
  by (auto simp: logsOnly_def)

definition consults :: "'a payProg \<Rightarrow> bool" where
  "consults p \<longleftrightarrow> (\<forall>e s t. logsOnly s (snd (exec e p s)) \<and>
     (instances s = instances t \<longrightarrow> fst (exec e p s) = fst (exec e p t)))"

lemma consults_andThen:
  assumes "consults p" "\<And>x. consults (k x)"
  shows "consults (andThen p k)"
  unfolding consults_def exec_andThen split_def
proof (intro allI conjI impI)
  fix e and s t :: payDB
  show "logsOnly s (snd (exec e (k (fst (exec e p s))) (snd (exec e p s))))"
    using assms unfolding consults_def by (blast intro: logsOnly_trans)
  assume i: "instances s = instances t"
  have "instances (snd (exec e p s)) = instances (snd (exec e p t))"
    using assms(1) i logsOnly_instances unfolding consults_def by metis
  then show "fst (exec e (k (fst (exec e p s))) (snd (exec e p s))) = fst (exec e (k (fst (exec e p t))) (snd (exec e p t)))"
    using assms i unfolding consults_def by metis
qed

lemma consults_basic:
  "consults (Return v)" "consults (failWith x)" "consults (ask g)" "consults (writeAuditLog i b c)"
proof -
  show "consults (writeAuditLog i b c)"
    unfolding consults_def writeAuditLog_def update_def exec_andThen exec_statement
    by (auto simp: logsOnly_audit split: fault.split)
qed (simp_all add: consults_def failWith_def)

lemma consults_query:
  assumes "\<And>s t. instances s = instances t \<Longrightarrow> q s = q t"
  shows "consults (query q)"
  unfolding consults_def exec_query fst_conv snd_conv using assms by (metis logsOnly_refl)

lemma consults_intros:
  "consults p \<Longrightarrow> (\<And>y. consults (h y)) \<Longrightarrow> (\<And>z. consults (k z)) \<Longrightarrow> consults (handle p h k)"
  "consults p4 \<Longrightarrow> consults p5 \<Longrightarrow> consults (followedBy p4 p5)"
  "(b \<Longrightarrow> consults p1) \<Longrightarrow> (\<not> b \<Longrightarrow> consults p2) \<Longrightarrow> consults (if b then p1 else p2)"
  "(w = None \<Longrightarrow> consults p3) \<Longrightarrow> (\<And>u. w = Some u \<Longrightarrow> consults (f u)) \<Longrightarrow> consults (case w of None \<Rightarrow> p3 | Some u \<Rightarrow> f u)"
  by (auto simp: handle_def followedBy_def intro!: consults_andThen split: sum.split option.split)

lemma consults_gwRefund: "consults (gwRefund p)"
  unfolding gwRefund_def getRefundProvider_def getRefundOrderProviderInstance_def resolveSnapshotOrderProviderInstance_def
    getInstance_def createProviderFromInstance_def Let_def ok_def
  by (intro consults_intros consults_basic consults_query) simp_all

lemma logsOnly_rows: "logsOnly s t \<Longrightarrow> orders t = orders s \<and> users t = users s"
  by (auto simp: logsOnly_def)

lemma exec_updateOrderOne:
  assumes "fault e = Works" "orderOf s i = Some od"
  shows "exec e (updateOrderOne i f) s = (Inr (),
    s\<lparr>orders := setRows (\<lambda>x. po_ID x = i) (\<lambda>x. (f e x)\<lparr>po_UpdatedAt := clock e\<rparr>) (orders s)\<rparr>)"
  using assms orderOf_row [OF assms(2)] by (auto simp: updateOrderOne_def filter_empty_conv)

text \<open>
  (C14) When the gateway refuses a refund, the deduction is undone: the order is back in the status it
  was requested in and the balance is what it was. The undoing is booked as a recharge, so the total
  the user has recharged has grown by the amount although no money came in.
\<close>

theorem failed_refund_undone:
  assumes "fault e = Works" "orderOf s (rp_OrderID p) = Some (rp_Order p)" "po_Status (rp_Order p) \<in> refundable"
    and "rp_DeductionType p = DeductionTypeBalance" "0 < rp_BalanceToDeduct p" "userOf s (po_UserID (rp_Order p)) = Some u"
    and "\<not> hasAudit s (rp_OrderID p) ''REFUND_ROLLBACK_FAILED''" "fst (exec e (gwRefund p) s) = Inl err"
  shows "\<exists>r t od. exec e (ExecuteRefund p) s = (Inr r, t) \<and> \<not> rs_Success r \<and> orderOf t (rp_OrderID p) = Some od \<and>
    po_Status od = (if po_Status (rp_Order p) = OrderStatusRefundRequested then OrderStatusRefundRequested
                    else OrderStatusCompleted) \<and>
    userOf t (po_UserID (rp_Order p)) = Some (u\<lparr>u_TotalRecharged := u_TotalRecharged u + rp_BalanceToDeduct p\<rparr>)"
proof -
  let ?i = "rp_OrderID p" and ?od = "rp_Order p" and ?uid = "po_UserID (rp_Order p)" and ?b = "rp_BalanceToDeduct p"
  define s1 where "s1 = s\<lparr>orders := setRows (\<lambda>x. po_ID x = ?i \<and> po_Status x \<in> refundable)
    (\<lambda>x. x\<lparr>po_Status := OrderStatusRefunding, po_UpdatedAt := clock e\<rparr>) (orders s)\<rparr>"
  have id: "po_ID ?od = ?i" "u_ID u = ?uid" using orderOf_row [OF assms(2)] userOf_row [OF assms(6)] by auto
  have o1: "orderOf s1 ?i = Some (?od\<lparr>po_Status := OrderStatusRefunding, po_UpdatedAt := clock e\<rparr>)"
    using assms(2,3) id(1) by (simp add: s1_def orderOf_setRows rowChange_def)
  define s2 where "s2 = setUser s1 ?uid (\<lambda>u. u\<lparr>u_Balance := u_Balance u - ?b\<rparr>)"
  have u2: "userOf s2 ?uid = Some (u\<lparr>u_Balance := u_Balance u - ?b\<rparr>)"
    using assms(6) id(2) by (simp add: s2_def userOf_setRows s1_def)
  have "instances s2 = instances s" by (simp add: s2_def s1_def setUser_def)
  then have "fst (exec e (gwRefund p) s2) = Inl err" using assms(8) consults_gwRefund unfolding consults_def by metis
  then obtain s3 where gw: "exec e (gwRefund p) s2 = (Inl err, s3)" "logsOnly s2 s3"
    using consults_gwRefund [of p] unfolding consults_def by (metis prod.collapse)
  have o3: "orderOf s3 ?i = orderOf s1 ?i" and u3: "userOf s3 ?uid = userOf s2 ?uid"
    using logsOnly_rows [OF gw(2)] by (simp_all add: orderOf_def userOf_def s2_def setUser_def)
  have undo: "exec e (RollbackRefund p) s3 = (True, setUser s3 ?uid (\<lambda>u. u\<lparr>u_Balance := u_Balance u + ?b,
     u_TotalRecharged := u_TotalRecharged u + ?b\<rparr>))"
    using assms(1,4,5) u2 u3 by (simp add: RollbackRefund_def UpdateBalance_def exec_onUser)
  have "filter (\<lambda>x. po_ID x = ?i \<and> po_Status x \<in> refundable) (orders s) \<noteq> []"
    by (rule filter_row [OF assms(2), of "\<lambda>x. po_Status x \<in> refundable"]) (rule assms(3))
  then have lock: "\<exists>c. exec e (updateOrders (\<lambda>_ x. po_ID x = ?i \<and> po_Status x \<in> refundable)
      (\<lambda>_ x. x\<lparr>po_Status := OrderStatusRefunding\<rparr>)) s = (Inr c, s1) \<and> c \<noteq> 0"
    using assms(1) by (simp add: s1_def)
  have deducted: "exec e (deductBalanceStep p) s1 = (Inr p, s2)" "exec e (deductSubscriptionStep p) s2 = (Inr p, s2)"
    using assms(1,4-7)
    by (simp_all add: deductBalanceStep_def deductSubscriptionStep_def DeductBalance_def exec_onUser exec_andThen s2_def
        s1_def hasAudit_def)
  have run: "exec e (ExecuteRefund p) s = exec e (handleGwFail p err) s3"
    using lock deducted gw(1) unfolding ExecuteRefund_def exec_simps by auto
  show ?thesis
    unfolding run using assms(1) undo o3 o1 u2 u3 id
    by (simp add: handleGwFail_def exec_andThen restoreStatus_def exec_updateOrderOne orderOf_setRows rowChange_def userOf_setRows)
qed

definition examplePlan :: RefundPlan where
  "examplePlan = \<lparr>rp_OrderID = 7, rp_Order = completedOrder, rp_RefundAmount = 10, rp_GatewayAmount = 10,
     rp_Reason = ''refund order:7'', rp_Force = False, rp_DeductBalance = True, rp_DeductionType = DeductionTypeBalance,
     rp_BalanceToDeduct = 1, rp_SubDaysToDeduct = 0, rp_SubscriptionID = 0\<rparr>"

text \<open>The example order has no provider instance: the refund fails before it reaches a gateway.\<close>

lemma example_gateway:
  "\<exists>err. fst (exec calm (gwRefund examplePlan) (exampleDB\<lparr>orders := [completedOrder]\<rparr>)) = Inl err"
  by (simp add: gwRefund_def examplePlan_def completedOrder_def exampleOrder_def getRefundProvider_def
      getRefundOrderProviderInstance_def psOrderProviderSnapshot_def psStringValue_def TrimSpace_def Let_def calm_def exec_andThen)

theorem failed_refund_undone_witness:
  "\<exists>r t od. exec calm (ExecuteRefund examplePlan) (exampleDB\<lparr>orders := [completedOrder]\<rparr>) = (Inr r, t) \<and> \<not> rs_Success r \<and>
    orderOf t 7 = Some od \<and> po_Status od = OrderStatusCompleted \<and>
    userOf t 3 = Some (exampleUser\<lparr>u_TotalRecharged := 1\<rparr>)"
proof -
  obtain err where "fst (exec calm (gwRefund examplePlan) (exampleDB\<lparr>orders := [completedOrder]\<rparr>)) = Inl err"
    using example_gateway by blast
  from failed_refund_undone [OF _ _ _ _ _ _ _ this, of exampleUser] show ?thesis
    by (simp add: calm_def examplePlan_def completedOrder_def exampleOrder_def exampleDB_def exampleUser_def
        orderOf_def userOf_def refundable_def hasAudit_def)
qed

section \<open>Amounts\<close>

text \<open>
  (C39) Redeeming a code lifts an overdrawn balance to zero: when the balance is below zero by more than
  the code is worth, the user is credited with the whole debt, which is more than the code's value, and
  the difference counts as recharged.
\<close>

theorem overdrawn_redeem_overcredits:
  assumes "fault e = Works" "r \<in> set (codes s)" "rc_Status r = StatusUnused" "rc_Type r = RedeemTypeBalance"
    and "userOf s uid = Some u" "0 < uid" "0 < rc_Value r" "u_Balance u + rc_Value r < 0"
  shows "\<exists>t. exec e (redeemTx r uid u) s = (Inr (), t) \<and> rc_Value r < - u_Balance u \<and>
    userOf t uid = Some (u\<lparr>u_Balance := 0, u_TotalRecharged := u_TotalRecharged u - u_Balance u\<rparr>)"
proof -
  let ?s = "s\<lparr>codes := map (markUsed (rc_ID r) uid (clock e)) (codes s)\<rparr>"
  have u: "userOf ?s uid = Some u" "u_ID u = uid" using assms(5) userOf_row [OF assms(5)] by (simp_all add: userOf_def)
  let ?f = "\<lambda>u'. u'\<lparr>u_Balance := 0, u_TotalRecharged := u_TotalRecharged u' + - u_Balance u\<rparr>"
  have delta: "ledgerDelta (redeemLedgerInput r uid) (u_Balance u) = (- u_Balance u, 0)"
    using assms(8) by (simp add: ledgerDelta_def redeemLedgerInput_def)
  have "\<exists>l. exec e (ApplyBalanceLedgerDelta (redeemLedgerInput r uid)) ?s =
      (Inr (- u_Balance u, 0), (setUser ?s uid ?f)\<lparr>ledger := l\<rparr>)"
    using assms(1,6-8) u delta
    by (simp add: ApplyBalanceLedgerDelta_def redeemLedgerInput_def redeem_code_text) (rule exI, rule refl)
  then obtain l where "exec e (ApplyBalanceLedgerDelta (redeemLedgerInput r uid)) ?s =
      (Inr (- u_Balance u, 0), (setUser ?s uid ?f)\<lparr>ledger := l\<rparr>)" by blast
  then have "exec e (redeemTx r uid u) s = (Inr (), (setUser ?s uid ?f)\<lparr>ledger := l\<rparr>)"
    using assms(1-4) by (auto simp: redeemTx_def exec_Use grantRedeemed_def list_ex_iff)
  moreover have "userOf ((setUser ?s uid ?f)\<lparr>ledger := l\<rparr>) uid = userOf (setUser ?s uid ?f) uid"
    by (simp add: userOf_def)
  moreover have "\<dots> = Some (?f u)" using u by (simp add: userOf_setRows)
  ultimately show ?thesis using assms(8) by auto
qed

definition exampleCode :: RedeemCode where
  "exampleCode = (rechargeCode exampleOrder)\<lparr>rc_ID := 1\<rparr>"

theorem overdrawn_redeem_overcredits_witness:
  "\<exists>t. exec calm (redeemTx exampleCode 3 (exampleUser\<lparr>u_Balance := - 50\<rparr>))
      (exampleDB\<lparr>codes := [exampleCode], users := [exampleUser\<lparr>u_Balance := - 50\<rparr>]\<rparr>) = (Inr (), t) \<and>
    rc_Value exampleCode < 50 \<and> userOf t 3 = Some (exampleUser\<lparr>u_Balance := 0, u_TotalRecharged := 50\<rparr>)"
  using overdrawn_redeem_overcredits [of calm exampleCode
      "exampleDB\<lparr>codes := [exampleCode], users := [exampleUser\<lparr>u_Balance := - 50\<rparr>]\<rparr>" 3 "exampleUser\<lparr>u_Balance := - 50\<rparr>"]
  by (simp add: calm_def exampleCode_def rechargeCode_def exampleOrder_def userOf_def exampleUser_def)

lemma amountColumn_far:
  assumes "q * 1000 \<in> \<int>" "amountColumn q \<noteq> q"
  shows "1 / 1000 \<le> \<bar>q - amountColumn q\<bar>"
proof -
  obtain k where k: "q * 1000 = of_int k" using assms(1) by (auto elim: Ints_cases)
  obtain l :: int where l: "amountColumn q = of_int l / 100" 
    by (cases "q * 100 < 0") (auto simp: amountColumn_def goRound_def intro: that [of "- \<lfloor>- (q * 100) + 1 / 2\<rfloor>"])
  have "q = of_int k / 1000" using k by simp
  then have diff: "q - amountColumn q = of_int (k - 10 * l) / 1000" by (simp add: l)
  with assms(2) have "k - 10 * l \<noteq> 0" by auto
  then have "1 \<le> \<bar>k - 10 * l\<bar>" by simp
  then have "(1::rat) \<le> of_int \<bar>k - 10 * l\<bar>" by (metis of_int_1 of_int_le_iff)
  then show ?thesis by (simp add: diff)
qed

lemma three_decimal_tolerance:
  assumes "currency \<in> set threeDecimalCurrencies"
  shows "paymentAmountToleranceForCurrency currency < 1 / 1000"
proof -
  have "list_all (\<lambda>c. paymentAmountToleranceForCurrency c < 1 / 1000) threeDecimalCurrencies" by code_simp
  with assms show ?thesis by (simp add: list_all_iff)
qed

text \<open>
  Prices with three decimals cannot be paid: in a currency with three decimals the payment is asked for with
  three, the order's column keeps two and the tolerance is half of the third. When the third decimal is not
  zero, the notification that exactly the asked price was paid is refused, and nothing but an audit
  entry is left of the payment.
\<close>

theorem three_decimal_payment_refused:
  assumes "fault e = Works" "pn_Status n = ''success''"
    and "filter (\<lambda>x. po_OutTradeNo x = pn_OrderID n) (orders s) = [od]" "orderOf s (po_ID od) = Some od"
    and "PaymentOrderCurrency od \<in> set threeDecimalCurrencies" "po_PayAmount od = amountColumn q"
    and "q * 1000 \<in> \<int>" "amountColumn q \<noteq> q" "pn_Amount n = GoFin q"
  shows "\<exists>x a. exec e (HandlePaymentNotification sv n pk) s = (Inl x, s\<lparr>audits := audits s @ [a]\<rparr>) \<and>
    ae_OrderID a = po_ID od"
proof -
  have "\<not> genuine e s od n pk"
    using amountColumn_far [OF assms(7,8)] three_decimal_tolerance [OF assms(5)] assms(6,9) by (auto simp: genuine_def)
  from exec_confirm_rejects [OF assms(1,4) this, of sv "pn_TradeNo n"] show ?thesis using assms(1-3)
    by (simp add: HandlePaymentNotification_def orderByOutTradeNo_def exec_andThen refused_def)
qed

definition dinarOrder :: PaymentOrder where
  "dinarOrder = exampleOrder\<lparr>po_PayAmount := amountColumn (10205 / 1000), po_ProviderInstanceID := Some ''1'',
     po_ProviderSnapshot := [(''currency'', VString ''KWD''), (''provider_instance_id'', VString ''1'')]\<rparr>"

lemma dinar_facts: "PaymentOrderCurrency dinarOrder = ''KWD''" "amountColumn (2041 / 200) = 1021 / 100"
    "''KWD'' \<in> set threeDecimalCurrencies"
  by code_simp+

theorem three_decimal_payment_refused_witness:
  "\<exists>x a. exec calm (HandlePaymentNotification plainService (exampleNotification\<lparr>pn_Amount := GoFin (10205 / 1000)\<rparr>) ''stripe'')
       (exampleDB\<lparr>orders := [dinarOrder]\<rparr>) =
     (Inl x, exampleDB\<lparr>orders := [dinarOrder], audits := [a]\<rparr>) \<and> ae_OrderID a = 7"
proof -
  let ?n = "exampleNotification\<lparr>pn_Amount := GoFin (10205 / 1000)\<rparr>" and ?s = "exampleDB\<lparr>orders := [dinarOrder]\<rparr>"
  have "(10205 / 1000 :: rat) * 1000 = of_int 10205" by simp
  then have "(10205 / 1000 :: rat) * 1000 \<in> \<int>" by (metis Ints_of_int)
  then have "\<exists>x a. exec calm (HandlePaymentNotification plainService ?n ''stripe'') ?s =
     (Inl x, ?s\<lparr>audits := audits ?s @ [a]\<rparr>) \<and> ae_OrderID a = po_ID dinarOrder"
    by (intro three_decimal_payment_refused [where q = "10205 / 1000"])
      (simp_all add: calm_def exampleNotification_def dinar_facts(1,3), simp_all add: exampleDB_def dinarOrder_def
        exampleOrder_def orderOf_def dinar_facts(2))
  then show ?thesis by (simp add: exampleDB_def dinarOrder_def exampleOrder_def)
qed

section \<open>Fulfilling a subscription twice\<close>

definition subscriptionOrder :: PaymentOrder where
  "subscriptionOrder = exampleOrder\<lparr>po_OrderType := ''subscription'', po_SubscriptionGroupID := Some 5,
     po_SubscriptionDays := Some 30, po_Status := OrderStatusPaid, po_PaidAt := Some (99 * hour)\<rparr>"

definition subscriptionDB :: payDB where
  "subscriptionDB = exampleDB\<lparr>orders := [subscriptionOrder], groups := [exampleGroup]\<rparr>"

text \<open>The statements of a program, with the answer of the world to each.\<close>

fun execTurns :: "payEnv list \<Rightarrow> 'a payProg \<Rightarrow> payDB \<Rightarrow> 'a payProg \<times> payDB" where
  "execTurns (e # es) (Stmt f) s = (case f e s of (p, t) \<Rightarrow> execTurns es p t)"
| "execTurns _ p s = (p, s)"

definition completionFails :: "payEnv list" where
  "completionFails = replicate 9 calm @ [calm\<lparr>fault := Refused\<rparr>] @ replicate 10 calm"

definition failedOnce :: payDB where
  "failedOnce = snd (execTurns completionFails (ExecuteSubscriptionFulfillment 7) subscriptionDB)"

definition termsAndStatus :: "payDB \<Rightarrow> int list \<times> OrderStatus list" where
  "termsAndStatus s = (map (\<lambda>u. (us_ExpiresAt u - clock calm) div (24 * hour)) (subscriptions s), map po_Status (orders s))"

text \<open>
  A paid subscription can be granted twice: when the statement that marks the order completed fails after
  the subscription has been assigned, the order is failed without the audit entry that would tell a retry
  that the assignment is done, and the retry extends the subscription by another 30 days.
\<close>

theorem subscription_extended_twice:
  "termsAndStatus failedOnce = ([30], [OrderStatusFailed]) \<and>
   termsAndStatus (snd (exec calm (RetryFulfillment plainService 7) failedOnce)) = ([60], [OrderStatusCompleted])"
  by code_simp

end
