(* ===== verification/GoHeap.thy ===== *)
theory GoHeap
  imports Prelude "HOL-Library.Multiset"
begin

text \<open>
  Go's \<^verbatim>\<open>container/heap\<close> on a slice (the functions \<^verbatim>\<open>up\<close>, \<^verbatim>\<open>down\<close>, \<^verbatim>\<open>Push\<close> and \<^verbatim>\<open>Fix\<close>) and
  its \<^verbatim>\<open>sort\<close> package with a comparison function, as far as the account scheduler uses them. A
  comparison function that compares keys of a linear order is the locale \<open>keyed_order\<close>: there the
  heap operations keep the heap order and the elements, the root is a least element, and sorting is
  the library's \<^const>\<open>sort_key\<close>.
\<close>

section \<open>Sorting with a comparison function\<close>

text \<open>
  \<^verbatim>\<open>sort.SliceStable\<close>: every element goes behind the earlier ones it is not less than. For a
  comparison that puts no two elements of the slice on a par, \<^verbatim>\<open>sort.Slice\<close> gives the same list.
\<close>

fun insertBy :: "('a \<Rightarrow> 'a \<Rightarrow> bool) \<Rightarrow> 'a \<Rightarrow> 'a list \<Rightarrow> 'a list" where
  "insertBy lt x [] = [x]"
| "insertBy lt x (y # ys) = (if lt x y then x # y # ys else y # insertBy lt x ys)"

definition sortBy :: "('a \<Rightarrow> 'a \<Rightarrow> bool) \<Rightarrow> 'a list \<Rightarrow> 'a list" where
  "sortBy lt xs = fold (insertBy lt) xs []"

lemma mset_insertBy [simp]: "mset (insertBy lt x ys) = add_mset x (mset ys)"
  by (induction ys) auto

lemma set_insertBy [simp]: "set (insertBy lt x ys) = insert x (set ys)"
  by (induction ys) auto

lemma mset_fold_insertBy: "mset (fold (insertBy lt) xs ys) = mset xs + mset ys"
  by (induction xs arbitrary: ys) auto

lemma mset_sortBy [simp]: "mset (sortBy lt xs) = mset xs"
  by (simp add: sortBy_def mset_fold_insertBy)

lemma set_sortBy [simp]: "set (sortBy lt xs) = set xs"
  by (metis mset_sortBy set_mset_mset)

lemma length_sortBy [simp]: "length (sortBy lt xs) = length xs"
  by (metis mset_sortBy size_mset)

section \<open>Heaps\<close>

definition parent :: "nat \<Rightarrow> nat" where "parent j = (j - 1) div 2"

abbreviation children :: "nat \<Rightarrow> nat set" where
  "children i \<equiv> {k. 0 < k \<and> parent k = i}"

lemma parent_0 [simp]: "parent 0 = 0" by (simp add: parent_def)

lemma parent_less [simp]: "0 < j \<Longrightarrow> parent j < j" by (simp add: parent_def)

lemma parent_less_bound [simp]: "j < n \<Longrightarrow> parent j < n"
  using le_less_trans [of "parent j" j n] by (simp add: parent_def)

lemma parent_eq_self [simp]: "parent j = j \<longleftrightarrow> j = 0" by (auto simp: parent_def)

lemma childrenI: "2 * i + 1 \<in> children i" "2 * i + 2 \<in> children i"
  by (auto simp: parent_def)

lemma childrenD: "0 < k \<Longrightarrow> parent k = i \<Longrightarrow> k = 2 * i + 1 \<or> k = 2 * i + 2"
  by (auto simp: parent_def)

definition swap :: "nat \<Rightarrow> nat \<Rightarrow> 'a list \<Rightarrow> 'a list" where
  "swap i j h = h[i := h ! j, j := h ! i]"

lemma length_swap [simp]: "length (swap i j h) = length h"
  by (simp add: swap_def)

lemma mset_swap [simp]: "i < length h \<Longrightarrow> j < length h \<Longrightarrow> mset (swap i j h) = mset h"
  by (simp add: swap_def mset_swap)

lemma nth_swap:
  "i < length h \<Longrightarrow> j < length h \<Longrightarrow> swap i j h ! k = (if k = j then h ! i else if k = i then h ! j else h ! k)"
  by (simp add: swap_def nth_list_update)

fun heap_up :: "('a \<Rightarrow> 'a \<Rightarrow> bool) \<Rightarrow> 'a list \<Rightarrow> nat \<Rightarrow> 'a list" where
  "heap_up lt h j =
     (let i = parent j in
      if i = j \<or> \<not> lt (h ! j) (h ! i) then h else heap_up lt (swap i j h) i)"

declare heap_up.simps [simp del]

definition lesserChild :: "('a \<Rightarrow> 'a \<Rightarrow> bool) \<Rightarrow> 'a list \<Rightarrow> nat \<Rightarrow> nat" where
  "lesserChild lt h i =
     (let j1 = 2 * i + 1; j2 = j1 + 1 in if j2 < length h \<and> lt (h ! j2) (h ! j1) then j2 else j1)"

text \<open>The sifted slice and where the element ended up.\<close>

function heap_down :: "('a \<Rightarrow> 'a \<Rightarrow> bool) \<Rightarrow> 'a list \<Rightarrow> nat \<Rightarrow> 'a list \<times> nat" where
  "heap_down lt h i =
     (if length h \<le> 2 * i + 1 then (h, i)
      else let j = lesserChild lt h i in
           if \<not> lt (h ! j) (h ! i) then (h, i) else heap_down lt (swap i j h) j)"
  by pat_completeness auto
termination
  by (relation "measure (\<lambda>(lt, h, i). length h - i)") (auto simp: lesserChild_def Let_def)

declare heap_down.simps [simp del]

definition heap_Push :: "('a \<Rightarrow> 'a \<Rightarrow> bool) \<Rightarrow> 'a \<Rightarrow> 'a list \<Rightarrow> 'a list" where
  "heap_Push lt x h = heap_up lt (h @ [x]) (length h)"

definition heap_Fix :: "('a \<Rightarrow> 'a \<Rightarrow> bool) \<Rightarrow> 'a list \<Rightarrow> nat \<Rightarrow> 'a list" where
  "heap_Fix lt h i = (case heap_down lt h i of (h', j) \<Rightarrow> if i < j then h' else heap_up lt h' i)"

lemma mset_heap_up: "j < length h \<Longrightarrow> mset (heap_up lt h j) = mset h"
proof (induction lt h j rule: heap_up.induct)
  case (1 lt h j)
  then show ?case
    by (subst heap_up.simps) (auto simp: Let_def)
qed

lemma lesserChild_bounds:
  "2 * i + 1 < length h \<Longrightarrow> i < lesserChild lt h i \<and> lesserChild lt h i < length h"
  by (auto simp: lesserChild_def Let_def)

lemma mset_heap_down: "mset (fst (heap_down lt h i)) = mset h"
proof (induction lt h i rule: heap_down.induct)
  case (1 lt h i)
  then show ?case
    using lesserChild_bounds [of i h lt]
    by (subst heap_down.simps) (auto simp: Let_def)
qed

lemma heap_up_0 [simp]: "heap_up lt h 0 = h"
  by (subst heap_up.simps) simp

lemma mset_heap_Push [simp]: "mset (heap_Push lt x h) = add_mset x (mset h)"
  by (simp add: heap_Push_def mset_heap_up)

lemma heap_Fix_0: "heap_Fix lt h 0 = fst (heap_down lt h 0)"
  by (cases "heap_down lt h 0") (auto simp: heap_Fix_def)

lemma mset_heap_Fix_0 [simp]: "mset (heap_Fix lt h 0) = mset h"
  by (simp add: heap_Fix_0 mset_heap_down)

section \<open>Comparisons by a key\<close>

definition heapExcept :: "('a \<Rightarrow> 'k :: linorder) \<Rightarrow> nat set \<Rightarrow> 'a list \<Rightarrow> bool" where
  "heapExcept key S h \<longleftrightarrow>
     (\<forall>j < length h. 0 < j \<longrightarrow> j \<notin> S \<longrightarrow> key (h ! parent j) \<le> key (h ! j))"

abbreviation isHeap :: "('a \<Rightarrow> 'k :: linorder) \<Rightarrow> 'a list \<Rightarrow> bool" where
  "isHeap key \<equiv> heapExcept key {}"

lemma isHeap_Nil [simp]: "isHeap key []"
  by (simp add: heapExcept_def)

text \<open>The root of a heap is a least element.\<close>

lemma isHeap_root:
  assumes "isHeap key h" "j < length h"
  shows "key (h ! 0) \<le> key (h ! j)"
  using assms(2)
proof (induction j rule: less_induct)
  case (less j)
  show ?case
  proof (cases "j = 0")
    case False
    with less have "key (h ! 0) \<le> key (h ! parent j)" by (intro less.IH) auto
    also have "\<dots> \<le> key (h ! j)" using assms(1) less False by (auto simp: heapExcept_def)
    finally show ?thesis .
  qed simp
qed

locale keyed_order =
  fixes lt :: "'a \<Rightarrow> 'a \<Rightarrow> bool"
    and key :: "'a \<Rightarrow> 'k :: linorder"
  assumes lt_key: "lt x y \<longleftrightarrow> key x < key y"
begin

lemma sorted_insertBy: "sorted (map key ys) \<Longrightarrow> sorted (map key (insertBy lt x ys))"
  by (induction ys) (auto simp: lt_key)

lemma sorted_sortBy: "sorted (map key (sortBy lt xs))"
proof -
  have "sorted (map key ys) \<Longrightarrow> sorted (map key (fold (insertBy lt) xs ys))" for ys
    by (induction xs arbitrary: ys) (auto intro: sorted_insertBy)
  then show ?thesis by (simp add: sortBy_def)
qed

text \<open>Elements on a par keep their order.\<close>

lemma filter_insertBy:
  assumes "sorted (map key ys)"
  shows "filter (\<lambda>y. key y = k) (insertBy lt x ys) =
    (if key x = k then filter (\<lambda>y. key y = k) ys @ [x] else filter (\<lambda>y. key y = k) ys)"
  using assms
proof (induction ys)
  case (Cons y ys)
  show ?case
  proof (cases "key x < key y")
    case True
    with Cons.prems have "filter (\<lambda>y. key y = k) (y # ys) = []" if "key x = k"
      using that by (auto simp: filter_empty_conv)
    with True show ?thesis by (auto simp: lt_key)
  qed (use Cons in \<open>auto simp: lt_key\<close>)
qed simp

lemma sortBy_stable: "filter (\<lambda>y. k = key y) (sortBy lt xs) = filter (\<lambda>y. k = key y) xs"
proof -
  have "sorted (map key ys) \<Longrightarrow> filter (\<lambda>y. key y = k) (fold (insertBy lt) xs ys) =
    filter (\<lambda>y. key y = k) ys @ filter (\<lambda>y. key y = k) xs" for ys
    by (induction xs arbitrary: ys) (auto simp: filter_insertBy sorted_insertBy)
  then show ?thesis by (simp add: sortBy_def eq_commute [of k])
qed

theorem sortBy_sort_key: "sortBy lt xs = sort_key key xs"
  by (rule properties_for_sort_key [symmetric]) (auto simp: sorted_sortBy sortBy_stable)

text \<open>Sifting up repairs a heap whose only flaw is at \<open>j\<close>.\<close>

lemma heap_up_step:
  assumes h: "heapExcept key {j} h" "j < length h" "0 < j" "key (h ! j) < key (h ! parent j)"
    and below: "\<And>i. i < length h \<Longrightarrow> 0 < i \<Longrightarrow> parent i = j \<Longrightarrow> key (h ! parent j) \<le> key (h ! i)"
  shows "heapExcept key {parent j} (swap (parent j) j h)"
    and "i < length h \<Longrightarrow> 0 < i \<Longrightarrow> parent i = parent j \<Longrightarrow> 0 < parent j \<Longrightarrow>
      key (swap (parent j) j h ! parent (parent j)) \<le> key (swap (parent j) j h ! i)"
proof -
  define p where "p = parent j"
  have p: "p < length h" "p < j" using h by (auto simp: p_def)
  have up: "key (h ! parent k) \<le> key (h ! k)" if "k < length h" "0 < k" "k \<noteq> j" for k
    using h(1) that by (auto simp: heapExcept_def)
  have "key (swap p j h ! parent k) \<le> key (swap p j h ! k)" if "k < length h" "0 < k" "k \<noteq> p" for k
  proof (cases "k = j")
    case True
    with h p show ?thesis by (simp add: nth_swap p_def)
  next
    case False
    with that h p up [of k] below [of k] show ?thesis
      by (auto simp: nth_swap p_def)
  qed
  then show "heapExcept key {parent j} (swap (parent j) j h)"
    by (simp add: heapExcept_def p_def)
  assume i: "i < length h" "0 < i" "parent i = parent j" "0 < parent j"
  then have "parent p < p" by (auto simp: p_def)
  with p(2) have "parent p \<noteq> p" "parent p \<noteq> j" by linarith+
  moreover from i have "key (h ! parent p) \<le> key (h ! p)" "i \<noteq> j \<Longrightarrow> key (h ! p) \<le> key (h ! i)"
    using p up [of p] up [of i] by (auto simp: p_def)
  ultimately have "key (swap p j h ! parent p) \<le> key (swap p j h ! i)"
    using i p h(2) by (auto simp: nth_swap p_def)
  then show "key (swap (parent j) j h ! parent (parent j)) \<le> key (swap (parent j) j h ! i)"
    by (simp add: p_def)
qed

lemma heap_up_isHeap:
  assumes "heapExcept key {j} h" "j < length h"
    and "\<And>i. i < length h \<Longrightarrow> 0 < i \<Longrightarrow> parent i = j \<Longrightarrow> 0 < j \<Longrightarrow> key (h ! parent j) \<le> key (h ! i)"
  shows "isHeap key (heap_up lt h j)"
  using assms
proof (induction j arbitrary: h rule: less_induct)
  case (less j)
  show ?case
  proof (cases "j = 0 \<or> \<not> key (h ! j) < key (h ! parent j)")
    case True
    with less.prems(1) have "isHeap key h" by (auto simp: heapExcept_def)
    with True show ?thesis by (subst heap_up.simps) (auto simp: lt_key)
  next
    case False
    with less.prems heap_up_step [of j h]
    have "isHeap key (heap_up lt (swap (parent j) j h) (parent j))"
      by (intro less.IH) auto
    with False show ?thesis by (subst heap_up.simps) (auto simp: lt_key Let_def)
  qed
qed

lemma heap_Push_isHeap:
  assumes "isHeap key h"
  shows "isHeap key (heap_Push lt x h)"
  unfolding heap_Push_def
proof (rule heap_up_isHeap)
  show "heapExcept key {length h} (h @ [x])"
    using assms by (auto simp: heapExcept_def nth_append)
  show "key ((h @ [x]) ! parent (length h)) \<le> key ((h @ [x]) ! i)"
    if "i < length (h @ [x])" "0 < i" "parent i = length h" for i
    using that parent_less [of i] by simp
qed simp

text \<open>Sifting down repairs a heap whose only flaws are at the children of \<open>i\<close>.\<close>

lemma lesserChild_least:
  assumes "2 * i + 1 < length h"
  shows "lesserChild lt h i \<in> children i"
    and "k \<in> children i \<Longrightarrow> k < length h \<Longrightarrow> key (h ! lesserChild lt h i) \<le> key (h ! k)"
proof -
  show "lesserChild lt h i \<in> children i"
    unfolding lesserChild_def Let_def using childrenI [of i] by (auto simp del: mem_Collect_eq)
  assume "k \<in> children i" "k < length h"
  then have "k = 2 * i + 1 \<or> k = 2 * i + 2" "k < length h" using childrenD [of k i] by auto
  then show "key (h ! lesserChild lt h i) \<le> key (h ! k)"
    using assms by (auto simp: lesserChild_def Let_def lt_key)
qed

lemma heap_down_isHeap:
  assumes "heapExcept key (children i) h" "i < length h"
    and "\<And>k. k < length h \<Longrightarrow> k \<in> children i \<Longrightarrow> 0 < i \<Longrightarrow> key (h ! parent i) \<le> key (h ! k)"
  shows "isHeap key (fst (heap_down lt h i))"
  using assms
proof (induction "length h - i" arbitrary: h i rule: less_induct)
  case less
  define j where "j = lesserChild lt h i"
  show ?case
  proof (cases "2 * i + 1 < length h \<and> key (h ! j) < key (h ! i)")
    case False
    have "key (h ! i) \<le> key (h ! k)" if k: "k < length h" "0 < k" "parent k = i" for k
    proof -
      have "2 * i + 1 < length h" using k childrenD [of k i] by auto
      with k False lesserChild_least(2) [of i h k] show ?thesis by (fastforce simp: j_def)
    qed
    then have "isHeap key h"
      using less.prems(1) unfolding heapExcept_def by auto
    with False show ?thesis
      by (subst heap_down.simps) (auto simp: Let_def lt_key j_def)
  next
    case True
    then have c: "j \<in> children i" "j < length h" "i < j" "parent j = i"
      using lesserChild_least(1) [of i h] lesserChild_bounds [of i h lt] by (auto simp: j_def)
    have least: "key (h ! j) \<le> key (h ! k)" if "k < length h" "k \<in> children i" for k
      using True that lesserChild_least(2) [of i h k] by (auto simp: j_def)
    have ok: "key (h ! parent k) \<le> key (h ! k)" if "k < length h" "0 < k" "k \<notin> children i" for k
      using less.prems(1) that by (auto simp: heapExcept_def)
    let ?h = "swap i j h"
    have "key (?h ! parent k) \<le> key (?h ! k)" if k: "k < length h" "0 < k" "k \<notin> children j" for k
    proof (cases "parent k = i")
      case True
      then show ?thesis
        using k c \<open>i < length h\<close> least [of k] \<open>2 * i + 1 < length h \<and> _\<close>
        by (auto simp: nth_swap)
    next
      case False
      moreover have "parent k \<noteq> j" using k by auto
      moreover have "k \<noteq> j" using False c by auto
      ultimately show ?thesis
        using k c \<open>i < length h\<close> ok [of k] less.prems(3) [of j]
        by (auto simp: nth_swap)
    qed
    then have "heapExcept key (children j) ?h" by (simp add: heapExcept_def)
    moreover have "key (?h ! parent j) \<le> key (?h ! k)" if k: "k < length ?h" "k \<in> children j" for k
    proof -
      have "k \<noteq> i" "k \<noteq> j" "parent k = j" "0 < k"
        using k c parent_less [of k] by auto
      moreover from this have "k \<notin> children i" using c by auto
      ultimately show ?thesis using k c less.prems(2) ok [of k] by (simp add: nth_swap)
    qed
    ultimately have "isHeap key (fst (heap_down lt ?h j))"
      using c less.prems(2) by (intro less.hyps) auto
    with True show ?thesis
      by (subst heap_down.simps) (auto simp: Let_def lt_key j_def)
  qed
qed

lemma heap_Fix_isHeap:
  assumes "isHeap key h" "h \<noteq> []"
  shows "isHeap key (heap_Fix lt (h[0 := x]) 0)"
  unfolding heap_Fix_0
proof (rule heap_down_isHeap)
  show "heapExcept key (children 0) (h[0 := x])"
    using assms(1) by (auto simp: heapExcept_def nth_list_update)
qed (use assms(2) in auto)

end

end
