(* ===== verification/Candidates.thy ===== *)
theory Candidates
  imports Account GoHeap
begin

text \<open>
  The ranking core of the OpenAI account scheduler
  (\<^verbatim>\<open>backend/internal/service/openai_account_scheduler.go\<close>): scored candidates and their order,
  the heap that keeps the best \<open>k\<close>, the fair share of a selection, the probes beyond it, the seeded
  pseudo-random weighted order, and the orders layered by priority that the scheduler walks to find
  an account with a free slot.

  A \<^verbatim>\<open>float64\<close> score is a rational, so sums and comparisons are exact here. A function that reads the clock
  takes the readings as an argument: \<open>clk 0, clk 1, \<dots>\<close> are the results of its calls of
  \<^verbatim>\<open>time.Now().UnixNano()\<close>, and \<open>lap n clk\<close> are the readings left for its \<open>n\<close>-th callee.
\<close>

unbundle bit_operations_syntax

section \<open>Data\<close>

text \<open>The further fields of \<^verbatim>\<open>Account\<close> the scheduler reads.\<close>

record schedAccount = account +
  sa_Priority :: int
  sa_PrivatePriority :: "int option"
  sa_LastUsedAt :: "gotime option"
  sa_SessionWindowEnd :: "gotime option"
  sa_AccountGroups :: "int list"
  sa_GroupIDs :: "int list"

record accountLoadInfo =
  li_AccountID :: int
  li_CurrentConcurrency :: int
  li_WaitingCount :: int
  li_LoadRate :: int

record candidate =
  c_account :: "schedAccount option"
  c_loadInfo :: "accountLoadInfo option"
  c_loadKnown :: bool
  c_priority :: int
  c_score :: rat
  c_errorRate :: rat
  c_ttft :: rat
  c_hasTTFT :: bool

text \<open>\<^verbatim>\<open>OpenAIAccountScheduleRequest\<close>; an absent \<^verbatim>\<open>ExcludedIDs\<close> map and an empty one exclude alike.\<close>

record scheduleRequest =
  r_GroupID :: "int option"
  r_Platform :: string
  r_SessionHash :: string
  r_StickyAccountID :: int
  r_StickyPreviousAccountID :: int
  r_StickyWeighted :: bool
  r_SubscriptionPriority :: bool
  r_PreserveStickyBinding :: bool
  r_PreviousResponseID :: string
  r_PreviousResponseCanMove :: bool
  r_UseUpstreamTokenCost :: bool
  r_RequestedModel :: string
  r_RequiredTransport :: string
  r_RequiredCapability :: string
  r_RequiredImageCapability :: string
  r_RequireCompact :: bool
  r_ExcludedIDs :: "int list"

type_synonym clock = "nat \<Rightarrow> int"

definition lap :: "nat \<Rightarrow> clock \<Rightarrow> clock" where
  "lap n clk = (\<lambda>m. clk (2 * n + m))"

section \<open>The order of candidates\<close>

definition openAICandidatePriority :: "candidate \<Rightarrow> int" where
  "openAICandidatePriority c =
     (if c_priority c > 0 then c_priority c
      else case c_account c of Some a \<Rightarrow> sa_Priority a | None \<Rightarrow> 0)"

definition openAICandidateLoadBucket :: "accountLoadInfo option \<Rightarrow> int" where
  "openAICandidateLoadBucket li = (case li of None \<Rightarrow> 0
     | Some l \<Rightarrow> if li_LoadRate l \<ge> 100 then 2 else if li_LoadRate l \<ge> 80 then 1 else 0)"

definition openAICandidateWaitingCount :: "accountLoadInfo option \<Rightarrow> int" where
  "openAICandidateWaitingCount li = (case li of None \<Rightarrow> 0 | Some l \<Rightarrow> li_WaitingCount l)"

definition openAICandidateLoadRate :: "accountLoadInfo option \<Rightarrow> int" where
  "openAICandidateLoadRate li = (case li of None \<Rightarrow> 0 | Some l \<Rightarrow> li_LoadRate l)"

fun compareOpenAIAccountLastUsed :: "schedAccount option \<Rightarrow> schedAccount option \<Rightarrow> int" where
  "compareOpenAIAccountLastUsed None None = 0"
| "compareOpenAIAccountLastUsed None (Some _) = 1"
| "compareOpenAIAccountLastUsed (Some _) None = -1"
| "compareOpenAIAccountLastUsed (Some l) (Some r) =
     (case (sa_LastUsedAt l, sa_LastUsedAt r) of
        (None, Some _) \<Rightarrow> -1
      | (Some _, None) \<Rightarrow> 1
      | (None, None) \<Rightarrow> 0
      | (Some t, Some u) \<Rightarrow> if t < u then -1 else if u < t then 1 else 0)"

definition isOpenAIAccountCandidateBetter :: "candidate \<Rightarrow> candidate \<Rightarrow> bool" where
  "isOpenAIAccountCandidateBetter l r =
     (if c_score l \<noteq> c_score r then c_score l > c_score r
      else case (c_account l, c_account r) of
        (Some a, Some b) \<Rightarrow>
          (let pa = openAICandidatePriority l; pb = openAICandidatePriority r;
               la = openAICandidateLoadRate (c_loadInfo l); lb = openAICandidateLoadRate (c_loadInfo r);
               wa = openAICandidateWaitingCount (c_loadInfo l); wb = openAICandidateWaitingCount (c_loadInfo r);
               cmp = compareOpenAIAccountLastUsed (Some a) (Some b) in
           if pa \<noteq> pb then pa < pb
           else if la \<noteq> lb then la < lb
           else if wa \<noteq> wb then wa < wb
           else if cmp \<noteq> 0 then cmp < 0
           else a_ID a < a_ID b)
      | _ \<Rightarrow> c_account l \<noteq> None)"

text \<open>\<^verbatim>\<open>openAIAccountCandidateHeap.Less\<close>: the root is the worst candidate kept.\<close>

definition heapLess :: "candidate \<Rightarrow> candidate \<Rightarrow> bool" where
  "heapLess x y = isOpenAIAccountCandidateBetter y x"

section \<open>The best candidates\<close>

definition keepBest :: "int \<Rightarrow> candidate list \<Rightarrow> candidate \<Rightarrow> candidate list" where
  "keepBest topK best c =
     (if int (length best) < topK then heap_Push heapLess c best
      else if isOpenAIAccountCandidateBetter c (best ! 0) then heap_Fix heapLess (best[0 := c]) 0
      else best)"

definition selectTopKOpenAICandidates :: "candidate list \<Rightarrow> int \<Rightarrow> candidate list" where
  "selectTopKOpenAICandidates cs topK0 =
     (if cs = [] then []
      else let topK = (if topK0 \<le> 0 then 1 else topK0) in
        if topK \<ge> int (length cs) then sortBy isOpenAIAccountCandidateBetter cs
        else sortBy isOpenAIAccountCandidateBetter (foldl (keepBest topK) [] cs))"

section \<open>Seeds\<close>

text \<open>The splitmix64 finaliser over the account's number.\<close>

definition openAIAccountSeedRank :: "64 word \<Rightarrow> int \<Rightarrow> 64 word" where
  "openAIAccountSeedRank seed accountID =
     (let x0 = seed XOR (word_of_int accountID + 0x9e3779b97f4a7c15);
          x1 = x0 XOR drop_bit 30 x0;
          x2 = x1 * 0xbf58476d1ce4e5b9;
          x3 = x2 XOR drop_bit 27 x2;
          x4 = x3 * 0x94d049bb133111eb
      in x4 XOR drop_bit 31 x4)"

text \<open>\<^verbatim>\<open>hash/fnv\<close>: FNV-1a with 64 bits, over the bytes written so far.\<close>

definition fnv64a :: "64 word \<Rightarrow> string \<Rightarrow> 64 word" where
  "fnv64a h bytes = fold (\<lambda>b h. (h XOR of_char b) * 1099511628211) bytes h"

definition fnv64aOffset :: "64 word" where
  "fnv64aOffset = 14695981039346656037"

definition writeValue :: "string \<Rightarrow> 64 word \<Rightarrow> 64 word" where
  "writeValue value h = (let t = TrimSpace value in if t = [] then h else fnv64a (fnv64a h t) [CHR 0x00])"

definition selectionHash :: "scheduleRequest \<Rightarrow> 64 word" where
  "selectionHash req =
     (let h1 = writeValue (r_SessionHash req) fnv64aOffset;
          h2 = writeValue (r_PreviousResponseID req) h1;
          h3 = writeValue (r_RequestedModel req) h2
      in case r_GroupID req of None \<Rightarrow> h3 | Some g \<Rightarrow> fnv64a h3 (Itoa g))"

definition deriveOpenAISelectionSeed :: "clock \<Rightarrow> scheduleRequest \<Rightarrow> 64 word" where
  "deriveOpenAISelectionSeed clk req =
     (let h = selectionHash req;
          seed = (if TrimSpace (r_SessionHash req) = [] \<and> TrimSpace (r_PreviousResponseID req) = []
                  then h XOR word_of_int (clk 0) else h)
      in if seed = 0 then word_of_int (clk 1) XOR 0x9e3779b97f4a7c15 else seed)"

definition newOpenAISelectionRNG :: "64 word \<Rightarrow> 64 word" where
  "newOpenAISelectionRNG seed = (if seed = 0 then 0x9e3779b97f4a7c15 else seed)"

definition nextUint64 :: "64 word \<Rightarrow> 64 word \<times> 64 word" where
  "nextUint64 st =
     (let x1 = st XOR drop_bit 12 st;
          x2 = x1 XOR push_bit 25 x1;
          x3 = x2 XOR drop_bit 27 x2
      in (x3 * 2685821657736338717, x3))"

definition nextFloat64 :: "64 word \<Rightarrow> rat \<times> 64 word" where
  "nextFloat64 st = (case nextUint64 st of (u, st') \<Rightarrow> (of_nat (unat (drop_bit 11 u)) / 2 ^ 53, st'))"

section \<open>The fair share\<close>

definition openAIHybridFairCandidateCount :: "int \<Rightarrow> int \<Rightarrow> int" where
  "openAIHybridFairCandidateCount topK candidateCount =
     (if topK \<le> 1 \<or> candidateCount \<le> topK then 0
      else let count = \<lfloor>of_int topK * (30 / 100 :: rat)\<rfloor>;
               count = (if count < 1 then 1 else count);
               maxFair = \<lfloor>of_int topK * (50 / 100 :: rat)\<rfloor>;
               maxFair = (if maxFair < 1 then 1 else maxFair);
               count = (if count > maxFair then maxFair else count)
           in if count \<ge> topK then topK - 1 else count)"

definition openAIHybridOverflowProbeCount :: "int \<Rightarrow> int \<Rightarrow> int" where
  "openAIHybridOverflowProbeCount topK candidateCount =
     (if topK \<le> 0 \<or> candidateCount \<le> topK then 0
      else let count = (if topK > 32 then 32 else topK);
               remaining = candidateCount - topK
           in if count > remaining then remaining else count)"

definition fairBefore :: "64 word \<Rightarrow> candidate \<Rightarrow> candidate \<Rightarrow> bool" where
  "fairBefore seed a b =
     (case (c_account a, c_account b) of
        (Some x, Some y) \<Rightarrow>
          (let pa = openAICandidatePriority a; pb = openAICandidatePriority b;
               ba = openAICandidateLoadBucket (c_loadInfo a); bb = openAICandidateLoadBucket (c_loadInfo b);
               cmp = compareOpenAIAccountLastUsed (Some x) (Some y);
               wa = openAICandidateWaitingCount (c_loadInfo a); wb = openAICandidateWaitingCount (c_loadInfo b);
               la = openAICandidateLoadRate (c_loadInfo a); lb = openAICandidateLoadRate (c_loadInfo b) in
           if pa \<noteq> pb then pa < pb
           else if ba \<noteq> bb then ba < bb
           else if cmp \<noteq> 0 then cmp < 0
           else if wa \<noteq> wb then wa < wb
           else if la \<noteq> lb then la < lb
           else if c_score a \<noteq> c_score b then c_score a > c_score b
           else openAIAccountSeedRank seed (a_ID x) < openAIAccountSeedRank seed (a_ID y))
      | _ \<Rightarrow> c_account a \<noteq> None)"

definition selectFairOpenAICandidates :: "candidate list \<Rightarrow> int \<Rightarrow> 64 word \<Rightarrow> candidate list" where
  "selectFairOpenAICandidates cs count0 seed =
     (if count0 \<le> 0 \<or> cs = [] then []
      else let ranked = sortBy (fairBefore seed) cs;
               n = (if count0 > int (length ranked) then int (length ranked) else count0)
           in take (nat n) ranked)"

text \<open>The numbers of the selected accounts, and the candidates that are not among them.\<close>

definition selectedIDs :: "candidate list \<Rightarrow> int list" where
  "selectedIDs cs = map a_ID (List.map_filter c_account cs)"

definition notSelected :: "candidate list \<Rightarrow> candidate list \<Rightarrow> candidate list" where
  "notSelected selected cs =
     filter (\<lambda>c. case c_account c of None \<Rightarrow> False | Some a \<Rightarrow> a_ID a \<notin> set (selectedIDs selected)) cs"

definition selectHybridTopKOpenAICandidates ::
  "clock \<Rightarrow> candidate list \<Rightarrow> int \<Rightarrow> scheduleRequest \<Rightarrow> candidate list" where
  "selectHybridTopKOpenAICandidates clk cs topK0 req =
     (if cs = [] then []
      else let topK = (if topK0 \<le> 0 then 1 else topK0) in
        if topK \<ge> int (length cs) then selectTopKOpenAICandidates cs topK
        else
          let fairCount0 = openAIHybridFairCandidateCount topK (int (length cs));
              performanceCount0 = topK - fairCount0;
              performanceCount = (if performanceCount0 \<le> 0 then 1 else performanceCount0);
              fairCount = (if performanceCount0 \<le> 0 then topK - performanceCount else fairCount0);
              performance = selectTopKOpenAICandidates cs performanceCount;
              fairPool = notSelected performance cs;
              fair = selectFairOpenAICandidates fairPool fairCount (deriveOpenAISelectionSeed clk req)
          in performance @ fair)"

definition selectOpenAIOverflowProbeCandidates ::
  "clock \<Rightarrow> candidate list \<Rightarrow> candidate list \<Rightarrow> int \<Rightarrow> scheduleRequest \<Rightarrow> candidate list" where
  "selectOpenAIOverflowProbeCandidates clk cs selected limit req =
     (if limit \<le> 0 \<or> cs = [] then []
      else let remaining = notSelected selected cs in
        if remaining = [] then []
        else selectHybridTopKOpenAICandidates clk remaining
               (if limit > int (length remaining) then int (length remaining) else limit) req)"

definition effectiveOpenAIHybridTopK :: "int \<Rightarrow> int \<Rightarrow> int" where
  "effectiveOpenAIHybridTopK configuredTopK candidateCount =
     (if candidateCount \<le> 0 then 0
      else let configured = (if configuredTopK \<le> 0 then 1 else configuredTopK);
               topK = (if candidateCount > 500 \<and> configured < 32 then 32
                       else if candidateCount > 100 \<and> configured < 24 then 24
                       else if candidateCount > 20 \<and> configured < 16 then 16
                       else if candidateCount > 12 \<and> configured < 12 then 12
                       else configured)
           in if topK > candidateCount then candidateCount else topK)"

section \<open>The weighted order\<close>

text \<open>
  The slices \<^verbatim>\<open>pool\<close> and \<^verbatim>\<open>weights\<close>, which the loop shortens together, are one list of pairs.
\<close>

fun pickIndex :: "rat \<Rightarrow> rat \<Rightarrow> nat \<Rightarrow> rat list \<Rightarrow> nat" where
  "pickIndex r acc i [] = 0"
| "pickIndex r acc i (w # ws) = (if r \<le> acc + w then i else pickIndex r (acc + w) (Suc i) ws)"

lemma pickIndex_less: "ws \<noteq> [] \<Longrightarrow> pickIndex r acc i ws < i + length ws"
proof (induction ws arbitrary: acc i)
  case (Cons w ws)
  then show ?case
    using Cons.IH [of "acc + w" "Suc i"] by (cases "ws = []") auto
qed simp

definition removeAt :: "nat \<Rightarrow> 'a list \<Rightarrow> 'a list" where
  "removeAt i xs = take i xs @ drop (Suc i) xs"

lemma length_removeAt [simp]: "i < length xs \<Longrightarrow> length (removeAt i xs) = length xs - 1"
  by (simp add: removeAt_def)

definition drawIndex :: "64 word \<Rightarrow> (candidate \<times> rat) list \<Rightarrow> nat \<times> 64 word" where
  "drawIndex st pool =
     (let weights = map snd pool; total = sum_list weights in
      if total > 0 then (case nextFloat64 st of (f, st') \<Rightarrow> (pickIndex (f * total) 0 0 weights, st'))
      else (case nextUint64 st of (u, st') \<Rightarrow> (unat u mod length pool, st')))"

lemma drawIndex_less:
  assumes "pool \<noteq> []"
  shows "fst (drawIndex st pool) < length pool"
  using assms pickIndex_less [of "map snd pool" _ 0 0]
  by (auto simp: drawIndex_def Let_def split: prod.split)

function weightedOrder :: "64 word \<Rightarrow> (candidate \<times> rat) list \<Rightarrow> candidate list" where
  "weightedOrder st pool =
     (if pool = [] then []
      else case drawIndex st pool of (i, st') \<Rightarrow>
        fst (pool ! i) # weightedOrder st' (removeAt i pool))"
  by pat_completeness auto
termination
proof (relation "measure (\<lambda>(st, pool). length pool)")
  fix st pool i st'
  assume "pool \<noteq> []" "(i, st') = drawIndex st pool"
  with drawIndex_less [of pool st] show "((st', removeAt i pool), st, pool) \<in> measure (\<lambda>(st, pool). length pool)"
    by (auto dest: sym)
qed simp

declare weightedOrder.simps [simp del]

definition buildOpenAIWeightedSelectionOrder ::
  "clock \<Rightarrow> candidate list \<Rightarrow> scheduleRequest \<Rightarrow> candidate list" where
  "buildOpenAIWeightedSelectionOrder clk cs req =
     (if length cs \<le> 1 then cs
      else let minScore = foldl (\<lambda>m c. if c_score c < m then c_score c else m) (c_score (cs ! 0)) (drop 1 cs);
               weigh = (\<lambda>c. let weight = (c_score c - minScore) + 1 in if weight \<le> 0 then 1 else weight)
           in weightedOrder (newOpenAISelectionRNG (deriveOpenAISelectionSeed clk req)) (map (\<lambda>c. (c, weigh c)) cs))"

section \<open>Layers\<close>

definition addToGroup :: "(int \<rightharpoonup> candidate list) \<times> int list \<Rightarrow> candidate \<Rightarrow> (int \<rightharpoonup> candidate list) \<times> int list" where
  "addToGroup gp c = (case gp of (groups, priorities) \<Rightarrow>
     let p = openAICandidatePriority c in
     case groups p of
       None \<Rightarrow> (groups(p \<mapsto> [c]), priorities @ [p])
     | Some g \<Rightarrow> (groups(p \<mapsto> g @ [c]), priorities))"

definition groupOpenAICandidatesByPriority :: "candidate list \<Rightarrow> candidate list list" where
  "groupOpenAICandidatesByPriority cs =
     (case foldl addToGroup (Map.empty, []) cs of (groups, priorities) \<Rightarrow>
        map (\<lambda>p. case groups p of Some g \<Rightarrow> g | None \<Rightarrow> []) (sort priorities))"

definition layerOrders ::
  "clock \<Rightarrow> int \<Rightarrow> scheduleRequest \<Rightarrow> candidate list \<Rightarrow> candidate list \<times> candidate list" where
  "layerOrders clk topK req priorityGroup =
     (let groupTopK = (if topK > int (length priorityGroup) then int (length priorityGroup) else topK);
          ranked = selectHybridTopKOpenAICandidates (lap 0 clk) priorityGroup groupTopK req;
          layerSelection = buildOpenAIWeightedSelectionOrder (lap 1 clk) ranked req;
          overflowLimit = openAIHybridOverflowProbeCount groupTopK (int (length priorityGroup))
      in (layerSelection,
          if overflowLimit \<le> 0 then layerSelection
          else layerSelection @
            selectOpenAIOverflowProbeCandidates (lap 2 clk) priorityGroup layerSelection overflowLimit req))"

fun layeredOrders ::
  "clock \<Rightarrow> int \<Rightarrow> scheduleRequest \<Rightarrow> candidate list list \<Rightarrow> candidate list \<times> candidate list" where
  "layeredOrders clk topK req [] = ([], [])"
| "layeredOrders clk topK req (g # gs) =
     (case (layerOrders clk topK req g, layeredOrders (lap 3 clk) topK req gs) of
        ((sel, acq), (sels, acqs)) \<Rightarrow> (sel @ sels, acq @ acqs))"

definition buildOpenAIPriorityLayeredSelectionOrders ::
  "clock \<Rightarrow> candidate list \<Rightarrow> int \<Rightarrow> scheduleRequest \<Rightarrow> candidate list \<times> candidate list" where
  "buildOpenAIPriorityLayeredSelectionOrders clk cs topK req =
     (if cs = [] \<or> topK \<le> 0 then ([], [])
      else layeredOrders clk topK req (groupOpenAICandidatesByPriority cs))"

section \<open>The comparisons as keys\<close>

lemma lex_less:
  "(x, k) < (y, l) \<longleftrightarrow> (if x \<noteq> y then x < y else k < l)" for x y :: "'a :: linorder" and k l :: "'b :: linorder"
  by auto

definition lastUsedKey :: "schedAccount \<Rightarrow> int \<times> int" where
  "lastUsedKey a = (case sa_LastUsedAt a of None \<Rightarrow> (0, 0) | Some t \<Rightarrow> (1, t))"

lemma compare_lastUsed:
  "compareOpenAIAccountLastUsed (Some l) (Some r) =
     (if lastUsedKey l < lastUsedKey r then -1 else if lastUsedKey r < lastUsedKey l then 1 else 0)"
  by (auto simp: lastUsedKey_def split: option.splits)

definition rankKey :: "candidate \<Rightarrow> rat \<times> int \<times> int \<times> int \<times> int \<times> (int \<times> int) \<times> int" where
  "rankKey c = (- c_score c, case c_account c of
       None \<Rightarrow> (1, 0, 0, 0, (0, 0), 0)
     | Some a \<Rightarrow> (0, openAICandidatePriority c, openAICandidateLoadRate (c_loadInfo c),
         openAICandidateWaitingCount (c_loadInfo c), lastUsedKey a, a_ID a))"

lemma better_rankKey: "isOpenAIAccountCandidateBetter l r \<longleftrightarrow> rankKey l < rankKey r"
  by (simp add: isOpenAIAccountCandidateBetter_def rankKey_def Let_def compare_lastUsed lex_less
      del: compareOpenAIAccountLastUsed.simps less_prod_simp split: option.split)

definition worstKey :: "candidate \<Rightarrow> rat \<times> int \<times> int \<times> int \<times> int \<times> (int \<times> int) \<times> int" where
  "worstKey c = (case rankKey c of (s, n, p, l, w, (u, t), i) \<Rightarrow> (- s, - n, - p, - l, - w, (- u, - t), - i))"

lemma worstKey_less: "worstKey x < worstKey y \<longleftrightarrow> rankKey y < rankKey x"
  by (simp add: worstKey_def lex_less del: less_prod_simp split: prod.split)

definition fairKey :: "64 word \<Rightarrow> candidate \<Rightarrow>
    int \<times> int \<times> int \<times> (int \<times> int) \<times> int \<times> int \<times> rat \<times> 64 word" where
  "fairKey seed c = (case c_account c of
       None \<Rightarrow> (1, 0, 0, (0, 0), 0, 0, 0, 0)
     | Some a \<Rightarrow> (0, openAICandidatePriority c, openAICandidateLoadBucket (c_loadInfo c), lastUsedKey a,
         openAICandidateWaitingCount (c_loadInfo c), openAICandidateLoadRate (c_loadInfo c),
         - c_score c, openAIAccountSeedRank seed (a_ID a)))"

lemma fairBefore_fairKey: "fairBefore seed a b \<longleftrightarrow> fairKey seed a < fairKey seed b"
  by (simp add: fairBefore_def fairKey_def Let_def compare_lastUsed lex_less
      del: compareOpenAIAccountLastUsed.simps less_prod_simp split: option.split)

interpretation ranking: keyed_order isOpenAIAccountCandidateBetter rankKey
  by unfold_locales (rule better_rankKey)

interpretation heap: keyed_order heapLess worstKey
  by unfold_locales (simp add: heapLess_def better_rankKey worstKey_less)

interpretation fair: keyed_order "fairBefore seed" "fairKey seed" for seed
  by unfold_locales (rule fairBefore_fairKey)

section \<open>The heap keeps the best candidates\<close>

text \<open>The candidates kept and those dropped so far.\<close>

definition keptBest :: "int \<Rightarrow> candidate list \<Rightarrow> candidate multiset \<Rightarrow> candidate multiset \<Rightarrow> bool" where
  "keptBest topK best dropped seen \<longleftrightarrow>
     isHeap worstKey best \<and> mset best + dropped = seen \<and> int (length best) \<le> topK \<and>
     (int (length best) < topK \<longrightarrow> dropped = {#}) \<and>
     (\<forall>b \<in> set best. \<forall>d \<in># dropped. rankKey b \<le> rankKey d)"

lemma worst_root:
  assumes "isHeap worstKey best" "b \<in> set best"
  shows "rankKey b \<le> rankKey (best ! 0)"
  using assms isHeap_root [of worstKey best] worstKey_less
  by (metis in_set_conv_nth leD leI)

lemma keepBest_kept:
  assumes kept: "keptBest topK best dropped seen" and "0 < topK"
  shows "\<exists>dropped'. keptBest topK (keepBest topK best c) dropped' (add_mset c seen)"
proof (cases "int (length best) < topK")
  case True
  with kept have "keptBest topK (keepBest topK best c) dropped (add_mset c seen)"
    by (auto simp: keptBest_def keepBest_def heap.heap_Push_isHeap size_mset [symmetric]
        simp del: size_mset)
  then show ?thesis ..
next
  case full: False
  with assms have best: "best \<noteq> []" "int (length best) = topK" by (auto simp: keptBest_def)
  let ?w = "best ! 0"
  have root: "rankKey b \<le> rankKey ?w" if "b \<in> set best" for b
    using kept that by (auto simp: keptBest_def intro: worst_root)
  have w: "?w \<in> set best" using best by simp
  show ?thesis
  proof (cases "rankKey c < rankKey ?w")
    case True
    then have keep: "keepBest topK best c = heap_Fix heapLess (best[0 := c]) 0"
      using full by (simp add: keepBest_def better_rankKey)
    have "mset (best[0 := c]) = add_mset c (mset best - {#?w#})"
      using best by (simp add: mset_update)
    then have m: "mset (keepBest topK best c) = add_mset c (mset best - {#?w#})"
      by (simp add: keep)
    then have "set (keepBest topK best c) \<subseteq> insert c (set best)"
      by (metis in_diffD insert_iff set_mset_mset set_mset_add_mset_insert subsetI)
    moreover have "length (keepBest topK best c) = length best"
      using m w by (metis add_mset_remove_trivial_eq insert_DiffM size_add_mset size_mset set_mset_mset)
    moreover have "mset (keepBest topK best c) + add_mset ?w dropped = add_mset c seen"
      using kept w insert_DiffM [of ?w "mset best"] by (auto simp: m keptBest_def)
    moreover have "rankKey b \<le> rankKey d" if "b \<in> insert c (set best)" "d \<in># add_mset ?w dropped" for b d
    proof -
      have "rankKey b \<le> rankKey ?w" using that(1) True root by auto
      moreover have "rankKey ?w \<le> rankKey d" using that(2) kept w by (auto simp: keptBest_def)
      ultimately show ?thesis by (rule order_trans)
    qed
    moreover have "isHeap worstKey (keepBest topK best c)"
      using kept best heap.heap_Fix_isHeap [of best c] by (simp add: keep keptBest_def)
    ultimately have "keptBest topK (keepBest topK best c) (add_mset ?w dropped) (add_mset c seen)"
      using best(2) by (simp add: keptBest_def subset_iff)
    then show ?thesis ..
  next
    case False
    with full have "keepBest topK best c = best" by (simp add: keepBest_def better_rankKey)
    with kept root False full have "keptBest topK (keepBest topK best c) (add_mset c dropped) (add_mset c seen)"
      by (auto simp: keptBest_def not_less intro: order_trans)
    then show ?thesis ..
  qed
qed

lemma keepBest_run:
  assumes "keptBest topK best dropped seen" "0 < topK"
  shows "\<exists>dropped'. keptBest topK (foldl (keepBest topK) best cs) dropped' (mset cs + seen)"
  using assms(1)
proof (induction cs arbitrary: best dropped seen)
  case (Cons c cs)
  with keepBest_kept [OF _ assms(2)] obtain d where "keptBest topK (keepBest topK best c) d (add_mset c seen)"
    by blast
  from Cons.IH [OF this] show ?case by simp
qed auto

definition idOf :: "candidate \<Rightarrow> int" where
  "idOf c = (case c_account c of None \<Rightarrow> 0 | Some a \<Rightarrow> a_ID a)"

text \<open>The candidates of a plan: accounts that exist, none of them twice.\<close>

definition distinctAccounts :: "candidate list \<Rightarrow> bool" where
  "distinctAccounts cs \<longleftrightarrow> (\<forall>c \<in> set cs. c_account c \<noteq> None) \<and> distinct (map idOf cs)"

lemma rankKey_inj:
  assumes "distinctAccounts cs"
  shows "inj_on rankKey (set cs)"
proof (rule inj_onI)
  fix c d assume "c \<in> set cs" "d \<in> set cs" "rankKey c = rankKey d"
  moreover from this have "idOf c = idOf d"
    by (auto simp: rankKey_def idOf_def split: option.splits)
  ultimately show "c = d"
    using assms by (auto simp: distinctAccounts_def distinct_map dest: inj_onD)
qed

lemma topK_take:
  assumes "distinctAccounts cs" "0 < topK" "topK < int (length cs)"
  shows "sort_key rankKey (foldl (keepBest topK) [] cs) = take (nat topK) (sort_key rankKey cs)"
proof -
  have "keptBest topK [] {#} {#}" using assms by (simp add: keptBest_def)
  with keepBest_run [OF _ assms(2)] obtain d
    where kept: "keptBest topK (foldl (keepBest topK) [] cs) d (mset cs)"
    by (metis add.right_neutral)
  define best where "best = foldl (keepBest topK) [] cs"
  obtain ds where ds: "mset ds = d" by (metis ex_mset)
  have all: "mset (sort_key rankKey best @ sort_key rankKey ds) = mset cs"
    using kept ds by (simp add: keptBest_def best_def)
  then have "sort_key rankKey best @ sort_key rankKey ds = sort_key rankKey cs"
  proof (intro sort_key_inj_key_eq [symmetric] rankKey_inj assms(1))
    show "sorted (map rankKey (sort_key rankKey best @ sort_key rankKey ds))"
      using kept ds by (auto simp: keptBest_def best_def sorted_append)
  qed simp
  moreover have "length best = nat topK"
  proof -
    have "length best + size d = length cs"
      using kept unfolding keptBest_def best_def by (metis size_mset size_union)
    then show ?thesis using kept assms by (auto simp: keptBest_def best_def)
  qed
  ultimately show ?thesis by (metis append_eq_conv_conj best_def length_sort)
qed

end
