(* ===== verification/SelectionOrder.thy ===== *)
theory SelectionOrder
  imports Candidates
begin

text \<open>
  What the orders of \<open>Candidates\<close> contain: the heap gives the best candidates of a full sort, a
  selection has the size asked for and no account twice, the weighted order is a permutation that
  only depends on the request when the request is anchored in a session, and the layered order walks the
  priorities upwards.
\<close>

section \<open>Candidates without repetition\<close>

lemma distinct_mset_sub:
  assumes "mset ys \<subseteq># mset xs" "distinct xs"
  shows "distinct ys"
proof -
  obtain zs where "mset xs = mset (ys @ zs)"
    using assms(1) by (metis ex_mset mset_append mset_subset_eq_exists_conv)
  with assms(2) have "distinct (ys @ zs)" by (metis mset_eq_imp_distinct_iff)
  then show ?thesis by simp
qed

lemma distinctAccounts_sub:
  assumes "mset ds \<subseteq># mset cs" "distinctAccounts cs"
  shows "distinctAccounts ds"
proof -
  have "set ds \<subseteq> set cs" using set_mset_mono [OF assms(1)] by simp
  moreover have "mset (map idOf ds) \<subseteq># mset (map idOf cs)"
    using assms(1) by (simp add: image_mset_subseteq_mono)
  ultimately show ?thesis
    using assms(2) distinct_mset_sub by (auto simp: distinctAccounts_def simp del: mset_map)
qed

lemma distinctAccounts_distinct: "distinctAccounts cs \<Longrightarrow> distinct cs"
  by (simp add: distinctAccounts_def distinct_map)

lemma mset_take_sub: "mset (take n xs) \<subseteq># mset xs"
  by (metis append_take_drop_id mset_append mset_subset_eq_add_left)

lemma selectedIDs_idOf:
  "\<forall>c \<in> set cs. c_account c \<noteq> None \<Longrightarrow> selectedIDs cs = map idOf cs"
  by (induction cs) (auto simp: selectedIDs_def idOf_def List.map_filter_simps)

text \<open>Selected candidates and the rest make up the pool.\<close>

lemma notSelected_filter:
  assumes "distinctAccounts cs" "mset sel \<subseteq># mset cs"
  shows "notSelected sel cs = filter (\<lambda>c. c \<notin> set sel) cs"
proof -
  have sel: "set sel \<subseteq> set cs" using set_mset_mono [OF assms(2)] by simp
  have ids: "selectedIDs sel = map idOf sel"
    using distinctAccounts_sub [OF assms(2,1)] by (intro selectedIDs_idOf) (simp add: distinctAccounts_def)
  have inj: "inj_on idOf (set cs)" using assms(1) by (simp add: distinctAccounts_def distinct_map)
  have "(case c_account c of None \<Rightarrow> False | Some a \<Rightarrow> a_ID a \<notin> idOf ` set sel) \<longleftrightarrow> c \<notin> set sel"
    if c: "c \<in> set cs" for c
  proof -
    obtain a where "c_account c = Some a" "idOf c = a_ID a"
      using assms(1) c by (auto simp: distinctAccounts_def idOf_def)
    then show ?thesis using inj_on_image_mem_iff [OF inj c sel] by simp
  qed
  then show ?thesis unfolding notSelected_def ids set_map by (rule filter_cong [OF refl])
qed

lemma notSelected_mset:
  assumes "distinctAccounts cs" "mset sel \<subseteq># mset cs"
  shows "mset sel + mset (notSelected sel cs) = mset cs"
proof -
  have "distinct sel" "distinct cs" "set sel \<subseteq> set cs"
    using assms distinctAccounts_sub [OF assms(2,1)] set_mset_mono [OF assms(2)]
    by (auto intro: distinctAccounts_distinct)
  then have "mset sel = mset (filter (\<lambda>c. c \<in> set sel) cs)"
    by (intro set_eq_iff_mset_eq_distinct [THEN iffD1]) auto
  then show ?thesis
    unfolding notSelected_filter [OF assms] by (metis multiset_partition mset_filter)
qed

lemma notSelected_length:
  assumes "distinctAccounts cs" "mset sel \<subseteq># mset cs"
  shows "length sel + length (notSelected sel cs) = length cs"
  using notSelected_mset [OF assms] by (metis size_mset size_union)

section \<open>The best candidates\<close>

lemma selectTopK_take:
  assumes "distinctAccounts cs"
  shows "selectTopKOpenAICandidates cs topK = take (nat (max 1 topK)) (sort_key rankKey cs)"
  using topK_take [OF assms, of "max 1 topK"]
  by (auto simp: selectTopKOpenAICandidates_def ranking.sortBy_sort_key Let_def max_def)

lemma selectTopK_sub:
  "distinctAccounts cs \<Longrightarrow> mset (selectTopKOpenAICandidates cs topK) \<subseteq># mset cs"
  using mset_take_sub [of _ "sort_key rankKey cs"] by (simp add: selectTopK_take)

lemma selectTopK_length:
  "distinctAccounts cs \<Longrightarrow> length (selectTopKOpenAICandidates cs topK) = min (nat (max 1 topK)) (length cs)"
  by (simp add: selectTopK_take min.commute)

section \<open>The fair share\<close>

lemma fairCount_bounds:
  "0 \<le> openAIHybridFairCandidateCount topK n"
  "0 < topK \<Longrightarrow> 2 * openAIHybridFairCandidateCount topK n \<le> topK"
proof -
  have floors: "\<lfloor>of_int topK * (30 / 100 :: rat)\<rfloor> = 3 * topK div 10" "\<lfloor>of_int topK * (50 / 100 :: rat)\<rfloor> = topK div 2"
    using floor_divide_of_int_eq [of "3 * topK" 10, where 'a = rat] floor_divide_of_int_eq [of topK 2, where 'a = rat]
    by (simp_all add: mult.commute)
  show "0 \<le> openAIHybridFairCandidateCount topK n" "0 < topK \<Longrightarrow> 2 * openAIHybridFairCandidateCount topK n \<le> topK"
    unfolding openAIHybridFairCandidateCount_def floors Let_def by auto
qed

lemma selectFair_sub: "mset (selectFairOpenAICandidates cs n seed) \<subseteq># mset cs"
  using mset_take_sub [of "nat (if n > int (length cs) then int (length cs) else n)" "sortBy (fairBefore seed) cs"]
  by (auto simp: selectFairOpenAICandidates_def Let_def)

lemma selectFair_length: "length (selectFairOpenAICandidates cs n seed) = min (nat n) (length cs)"
  by (auto simp: selectFairOpenAICandidates_def Let_def min_def)

text \<open>A hybrid selection: the best ones first, then the fair share of the others.\<close>

lemma selectHybrid_split:
  assumes "distinctAccounts cs" "0 < topK" "topK < int (length cs)"
  defines "f \<equiv> openAIHybridFairCandidateCount topK (int (length cs))"
  shows "selectHybridTopKOpenAICandidates clk cs topK req =
    take (nat (topK - f)) (sort_key rankKey cs) @
    selectFairOpenAICandidates (notSelected (take (nat (topK - f)) (sort_key rankKey cs)) cs) f
      (deriveOpenAISelectionSeed clk req)"
proof -
  have "0 < topK - f" using fairCount_bounds [of topK "int (length cs)"] assms by (simp add: f_def)
  moreover have "cs \<noteq> []" using assms by auto
  ultimately show ?thesis
    using assms(2,3) unfolding selectHybridTopKOpenAICandidates_def
    by (simp add: Let_def f_def selectTopK_take [OF assms(1)] max_def not_le)
qed

lemma selectHybrid_small:
  assumes "distinctAccounts cs" "int (length cs) \<le> max 1 topK"
  shows "selectHybridTopKOpenAICandidates clk cs topK req = sort_key rankKey cs"
  using assms by (auto simp: selectHybridTopKOpenAICandidates_def selectTopK_take Let_def max_def)

lemma selectHybrid_sub:
  assumes "distinctAccounts cs"
  shows "mset (selectHybridTopKOpenAICandidates clk cs topK req) \<subseteq># mset cs"
proof (cases "int (length cs) \<le> max 1 topK")
  case True
  with assms show ?thesis by (simp add: selectHybrid_small)
next
  case False
  have same: "selectHybridTopKOpenAICandidates clk cs topK req = selectHybridTopKOpenAICandidates clk cs (max 1 topK) req"
    by (simp add: selectHybridTopKOpenAICandidates_def max_def Let_def)
  define best where "best = take (nat (max 1 topK - openAIHybridFairCandidateCount (max 1 topK) (int (length cs))))
    (sort_key rankKey cs)"
  have best: "mset best \<subseteq># mset cs" using mset_take_sub [of _ "sort_key rankKey cs"] by (simp add: best_def)
  have "mset best + mset (selectFairOpenAICandidates (notSelected best cs) n seed) \<subseteq># mset cs" for n seed
    unfolding notSelected_mset [OF assms best, symmetric]
    by (intro subset_mset.add_left_mono selectFair_sub)
  with False show ?thesis
    unfolding same by (subst selectHybrid_split [OF assms]) (auto simp: best_def)
qed

lemma selectHybrid_length:
  assumes "distinctAccounts cs"
  shows "length (selectHybridTopKOpenAICandidates clk cs topK req) = min (nat (max 1 topK)) (length cs)"
proof (cases "int (length cs) \<le> max 1 topK")
  case True
  then have "length cs \<le> nat (max 1 topK)" by linarith
  with True assms show ?thesis by (simp add: selectHybrid_small)
next
  case False
  have same: "selectHybridTopKOpenAICandidates clk cs topK req = selectHybridTopKOpenAICandidates clk cs (max 1 topK) req"
    by (simp add: selectHybridTopKOpenAICandidates_def max_def Let_def)
  define k where "k = max 1 topK"
  define f where "f = openAIHybridFairCandidateCount k (int (length cs))"
  define best where "best = take (nat (k - f)) (sort_key rankKey cs)"
  have k: "0 < k" "k < int (length cs)" using False by (auto simp: k_def)
  have f: "0 \<le> f" "2 * f \<le> k" using fairCount_bounds [of k] k by (simp_all add: f_def)
  have best: "mset best \<subseteq># mset cs" using mset_take_sub [of _ "sort_key rankKey cs"] by (simp add: best_def)
  have "length best = nat (k - f)" using k f by (simp add: best_def)
  moreover have "length best + length (notSelected best cs) = length cs"
    by (rule notSelected_length [OF assms best])
  ultimately have "length best + min (nat f) (length (notSelected best cs)) = nat k"
    using k f by linarith
  then show ?thesis
    unfolding same k_def [symmetric] selectHybrid_split [OF assms k] f_def [symmetric] best_def [symmetric]
    using k by (simp add: selectFair_length)
qed

section \<open>The weighted order\<close>

lemma mset_removeAt: "i < length xs \<Longrightarrow> add_mset (xs ! i) (mset (removeAt i xs)) = mset xs"
  using arg_cong [OF id_take_nth_drop [of i xs], of mset] by (simp add: removeAt_def)

lemma weightedOrder_perm: "mset (weightedOrder st pool) = mset (map fst pool)"
proof (induction st pool rule: weightedOrder.induct)
  case (1 st pool)
  show ?case
  proof (cases "pool = []")
    case False
    obtain i st' where d: "drawIndex st pool = (i, st')" by (cases "drawIndex st pool")
    with False have i: "i < length pool" using drawIndex_less [of pool st] by simp
    have "mset (weightedOrder st pool) = add_mset (fst (pool ! i)) (image_mset fst (mset (removeAt i pool)))"
      using 1 False d by (subst weightedOrder.simps) simp
    also have "\<dots> = image_mset fst (add_mset (pool ! i) (mset (removeAt i pool)))" by simp
    finally show ?thesis by (simp add: mset_removeAt [OF i])
  qed (simp add: weightedOrder.simps)
qed

lemma weighted_perm: "mset (buildOpenAIWeightedSelectionOrder clk cs req) = mset cs"
  by (simp add: buildOpenAIWeightedSelectionOrder_def Let_def weightedOrder_perm comp_def)

lemma weighted_length [simp]: "length (buildOpenAIWeightedSelectionOrder clk cs req) = length cs"
  using weighted_perm [of clk cs req] by (metis size_mset)

lemma weighted_set [simp]: "set (buildOpenAIWeightedSelectionOrder clk cs req) = set cs"
  using weighted_perm [of clk cs req] by (metis set_mset_mset)

section \<open>Requests with a session\<close>

definition anchored :: "scheduleRequest \<Rightarrow> bool" where
  "anchored req \<longleftrightarrow> selectionHash req \<noteq> 0 \<and>
     (TrimSpace (r_SessionHash req) \<noteq> [] \<or> TrimSpace (r_PreviousResponseID req) \<noteq> [])"

lemma anchored_seed: "anchored req \<Longrightarrow> deriveOpenAISelectionSeed clk req = selectionHash req"
  by (auto simp: anchored_def deriveOpenAISelectionSeed_def Let_def)

lemma anchored_weighted:
  "anchored req \<Longrightarrow> buildOpenAIWeightedSelectionOrder clk cs req = buildOpenAIWeightedSelectionOrder clk' cs req"
  by (simp add: buildOpenAIWeightedSelectionOrder_def anchored_seed)

lemma anchored_hybrid:
  "anchored req \<Longrightarrow> selectHybridTopKOpenAICandidates clk cs k req = selectHybridTopKOpenAICandidates clk' cs k req"
  by (simp add: selectHybridTopKOpenAICandidates_def anchored_seed)

lemma anchored_overflow:
  "anchored req \<Longrightarrow>
     selectOpenAIOverflowProbeCandidates clk cs sel k req = selectOpenAIOverflowProbeCandidates clk' cs sel k req"
  unfolding selectOpenAIOverflowProbeCandidates_def Let_def using anchored_hybrid [of req clk _ _ clk'] by auto

lemma anchored_layer:
  assumes "anchored req"
  shows "layerOrders clk k req g = layerOrders clk' k req g"
  unfolding layerOrders_def Let_def anchored_hybrid [OF assms, of "lap 0 clk" _ _ "lap 0 clk'"]
    anchored_weighted [OF assms, of "lap 1 clk" _ "lap 1 clk'"]
    anchored_overflow [OF assms, of "lap 2 clk" _ _ _ "lap 2 clk'"] ..

lemma anchored_layered: "anchored req \<Longrightarrow> layeredOrders clk k req gs = layeredOrders clk' k req gs"
proof (induction gs arbitrary: clk clk')
  case (Cons g gs)
  show ?case
    unfolding layeredOrders.simps Cons.IH [OF Cons.prems, of "lap 3 clk" "lap 3 clk'"]
      anchored_layer [OF Cons.prems, of clk k g clk'] ..
qed simp

section \<open>Priority groups\<close>

definition groupsOf :: "candidate list \<Rightarrow> (int \<rightharpoonup> candidate list) \<times> int list" where
  "groupsOf cs = foldl addToGroup (Map.empty, []) cs"

lemma groupsOf_spec:
  "fst (groupsOf cs) p = (if p \<in> openAICandidatePriority ` set cs
     then Some (filter (\<lambda>c. openAICandidatePriority c = p) cs) else None)"
  "distinct (snd (groupsOf cs)) \<and> set (snd (groupsOf cs)) = openAICandidatePriority ` set cs"
proof -
  have "(\<forall>p. fst (groupsOf cs) p = (if p \<in> openAICandidatePriority ` set cs
     then Some (filter (\<lambda>c. openAICandidatePriority c = p) cs) else None)) \<and>
     distinct (snd (groupsOf cs)) \<and> set (snd (groupsOf cs)) = openAICandidatePriority ` set cs"
  proof (induction cs rule: rev_induct)
    case (snoc c cs)
    obtain g ps where gp: "groupsOf cs = (g, ps)" by (cases "groupsOf cs")
    have step: "groupsOf (cs @ [c]) = addToGroup (g, ps) c" using gp by (simp add: groupsOf_def)
    from snoc gp show ?case
      unfolding step by (auto simp: addToGroup_def Let_def filter_empty_conv image_iff split: option.split)
  qed (simp add: groupsOf_def)
  then show "fst (groupsOf cs) p = (if p \<in> openAICandidatePriority ` set cs
     then Some (filter (\<lambda>c. openAICandidatePriority c = p) cs) else None)"
    and "distinct (snd (groupsOf cs)) \<and> set (snd (groupsOf cs)) = openAICandidatePriority ` set cs"
    by auto
qed

definition priorityGroup :: "candidate list \<Rightarrow> int \<Rightarrow> candidate list" where
  "priorityGroup cs p = filter (\<lambda>c. openAICandidatePriority c = p) cs"

lemma group_by_priority:
  "groupOpenAICandidatesByPriority cs =
     map (priorityGroup cs) (sorted_list_of_set (openAICandidatePriority ` set cs))"
proof -
  have "sort (snd (groupsOf cs)) = sorted_list_of_set (openAICandidatePriority ` set cs)"
    using groupsOf_spec(2) [of cs] by (metis sorted_list_of_set_sort_remdups distinct_remdups_id)
  then show ?thesis
    using groupsOf_spec(1) [of cs]
    by (auto simp: groupOpenAICandidatesByPriority_def groupsOf_def [symmetric] split_def priorityGroup_def)
qed

section \<open>Layers\<close>

lemma overflow_probes:
  assumes "distinctAccounts g" "mset sel \<subseteq># mset g"
  shows "mset (selectOpenAIOverflowProbeCandidates clk g sel limit req) \<subseteq># mset (notSelected sel g)"
    and "0 < limit \<Longrightarrow> limit \<le> int (length g) - int (length sel) \<Longrightarrow>
      length (selectOpenAIOverflowProbeCandidates clk g sel limit req) = nat limit"
proof -
  have rest: "mset sel + mset (notSelected sel g) = mset g" by (rule notSelected_mset [OF assms])
  then have "mset (notSelected sel g) \<subseteq># mset g" by (metis mset_subset_eq_add_right)
  then have d: "distinctAccounts (notSelected sel g)" using assms(1) by (rule distinctAccounts_sub)
  show "mset (selectOpenAIOverflowProbeCandidates clk g sel limit req) \<subseteq># mset (notSelected sel g)"
    unfolding selectOpenAIOverflowProbeCandidates_def Let_def using selectHybrid_sub [OF d] by auto
  assume limit: "0 < limit" "limit \<le> int (length g) - int (length sel)"
  moreover have "length sel + length (notSelected sel g) = length g" by (rule notSelected_length [OF assms])
  ultimately show "length (selectOpenAIOverflowProbeCandidates clk g sel limit req) = nat limit"
    unfolding selectOpenAIOverflowProbeCandidates_def Let_def
    by (auto simp: selectHybrid_length [OF d])
qed

lemma overflowCount_min:
  "0 < k \<Longrightarrow> openAIHybridOverflowProbeCount k n = max 0 (min (min k 32) (n - k))"
  by (auto simp: openAIHybridOverflowProbeCount_def Let_def)

lemma layer_counts:
  assumes "distinctAccounts g" "0 < topK" "layerOrders clk topK req g = (sel, acq)"
  shows "mset sel \<subseteq># mset acq" "mset acq \<subseteq># mset g"
    "length sel = min (nat topK) (length g)"
    "length acq = min (nat (topK + min topK 32)) (length g)"
proof -
  define k where "k = (if topK > int (length g) then int (length g) else topK)"
  define ranked where "ranked = selectHybridTopKOpenAICandidates (lap 0 clk) g k req"
  define lim where "lim = openAIHybridOverflowProbeCount k (int (length g))"
  define over where "over = selectOpenAIOverflowProbeCandidates (lap 2 clk) g sel lim req"
  have sel: "sel = buildOpenAIWeightedSelectionOrder (lap 1 clk) ranked req"
    and acq: "acq = (if lim \<le> 0 then sel else sel @ over)"
    using assms(3) by (auto simp: layerOrders_def Let_def k_def ranked_def lim_def over_def split: if_splits)
  have sub: "mset sel \<subseteq># mset g" unfolding sel weighted_perm ranked_def by (rule selectHybrid_sub [OF assms(1)])
  have len: "length sel = nat k"
  proof (cases "g = []")
    case False
    then show ?thesis using assms(2) by (simp add: sel ranked_def selectHybrid_length [OF assms(1)] k_def)
  qed (use assms(2) in \<open>simp add: sel ranked_def k_def selectHybridTopKOpenAICandidates_def\<close>)
  then show "length sel = min (nat topK) (length g)" by (simp add: k_def)
  show "mset sel \<subseteq># mset acq" by (simp add: acq)
  have "mset sel + mset over \<subseteq># mset g"
    unfolding notSelected_mset [OF assms(1) sub, symmetric] over_def
    by (intro subset_mset.add_left_mono overflow_probes(1) assms(1) sub)
  with sub show "mset acq \<subseteq># mset g" by (simp add: acq)
  show "length acq = min (nat (topK + min topK 32)) (length g)"
  proof (cases "lim \<le> 0")
    case True
    then have "int (length g) \<le> k"
      using assms(2) by (auto simp: lim_def openAIHybridOverflowProbeCount_def Let_def k_def split: if_splits)
    with True len assms(2) show ?thesis by (auto simp: acq k_def split: if_splits)
  next
    case False
    then have lim: "lim = min (min k 32) (int (length g) - k)" "0 < k" "0 < lim" "k = topK" 
      using assms(2) by (auto simp: lim_def openAIHybridOverflowProbeCount_def Let_def k_def split: if_splits)
    then have "length over = nat lim"
      unfolding over_def using len by (intro overflow_probes(2) assms(1) sub) auto
    then have "length acq = nat topK + nat (min (min topK 32) (int (length g) - topK))"
      using False len lim by (simp add: acq)
    moreover have "topK + min (min topK 32) (int (length g) - topK) = min (topK + min topK 32) (int (length g))"
      by (simp add: min_add_distrib_right)
    ultimately have "length acq = nat (min (topK + min topK 32) (int (length g)))"
      using lim by (metis nat_add_distrib order_less_imp_le)
    then show ?thesis by linarith
  qed
qed

text \<open>The layered orders of a list of groups, one group after the other.\<close>

lemma layered_groups:
  assumes "0 < topK" "\<And>g. g \<in> set gs \<Longrightarrow> distinctAccounts g" "layeredOrders clk topK req gs = (sel, acq)"
  shows "\<exists>sels acqs. sel = concat sels \<and> acq = concat acqs \<and>
    list_all2 (\<lambda>g s. mset s \<subseteq># mset g \<and> length s = min (nat topK) (length g)) gs sels \<and>
    list_all2 (\<lambda>g a. mset a \<subseteq># mset g \<and> length a = min (nat (topK + min topK 32)) (length g)) gs acqs"
  using assms(2,3)
proof (induction gs arbitrary: clk sel acq)
  case (Cons g gs)
  obtain s a where l: "layerOrders clk topK req g = (s, a)" by (cases "layerOrders clk topK req g")
  obtain ss as where ls: "layeredOrders (lap 3 clk) topK req gs = (ss, as)"
    by (cases "layeredOrders (lap 3 clk) topK req gs")
  from Cons.IH [OF _ ls] Cons.prems(1) obtain sels acqs where IH: "ss = concat sels" "as = concat acqs"
    "list_all2 (\<lambda>g s. mset s \<subseteq># mset g \<and> length s = min (nat topK) (length g)) gs sels"
    "list_all2 (\<lambda>g a. mset a \<subseteq># mset g \<and> length a = min (nat (topK + min topK 32)) (length g)) gs acqs"
    by auto
  have g: "distinctAccounts g" using Cons.prems(1) by simp
  note counts = layer_counts [OF g assms(1) l]
  have "mset s \<subseteq># mset g" using counts(1,2) by (rule subset_mset.order_trans)
  with counts IH(3,4) have "list_all2 (\<lambda>g s. mset s \<subseteq># mset g \<and> length s = min (nat topK) (length g)) (g # gs) (s # sels)"
    "list_all2 (\<lambda>g a. mset a \<subseteq># mset g \<and> length a = min (nat (topK + min topK 32)) (length g)) (g # gs) (a # acqs)"
    by (simp_all only: list_all2_Cons simp_thms)
  moreover have "sel = concat (s # sels)" "acq = concat (a # acqs)" using Cons.prems(2) l ls IH(1,2) by auto
  ultimately show ?case by blast
qed auto

lemma distinct_priorityGroup: "distinctAccounts cs \<Longrightarrow> distinctAccounts (priorityGroup cs p)"
  by (erule distinctAccounts_sub [rotated]) (simp add: priorityGroup_def)

text \<open>Parts of the groups, one after the other: sorted by priority, and read back group by group.\<close>

abbreviation partOf :: "candidate list \<Rightarrow> int \<Rightarrow> candidate list \<Rightarrow> bool" where
  "partOf cs p a \<equiv> mset a \<subseteq># mset (priorityGroup cs p)"

lemma partOf_priority: "partOf cs p a \<Longrightarrow> c \<in> set a \<Longrightarrow> openAICandidatePriority c = p"
  by (auto dest!: set_mset_mono simp: priorityGroup_def)

lemma priorityGroup_part: "partOf cs p a \<Longrightarrow> priorityGroup a q = (if q = p then a else [])"
  using partOf_priority [where cs = cs and p = p and a = a]
  by (auto simp: priorityGroup_def [of a] filter_id_conv filter_empty_conv)

lemma parts_sorted:
  "list_all2 (partOf cs) ps as \<Longrightarrow> sorted ps \<Longrightarrow> sorted (map openAICandidatePriority (concat as))"
proof (induction ps as rule: list_all2_induct)
  case (Cons p ps a as)
  have "\<forall>q \<in> set ps. p \<le> q" using Cons.prems by simp
  moreover have "openAICandidatePriority c \<in> set ps" if "c \<in> set (concat as)" for c
  proof -
    from that obtain b where "b \<in> set as" "c \<in> set b" by (auto simp: set_concat)
    with Cons.hyps(2) obtain q where "q \<in> set ps" "partOf cs q b"
      by (metis list_all2_conv_all_nth in_set_conv_nth)
    with \<open>c \<in> set b\<close> show ?thesis by (auto dest: partOf_priority)
  qed
  moreover have "sorted (map openAICandidatePriority a)"
    using Cons.hyps(1) partOf_priority [where cs = cs and p = p and a = a] by (auto simp: sorted_iff_nth_mono)
  ultimately show ?case
    using Cons partOf_priority [where cs = cs and p = p and a = a] by (auto simp: sorted_append)
qed simp

lemma parts_group:
  assumes "list_all2 (partOf cs) ps as" "distinct ps"
  shows "(\<forall>i < length ps. priorityGroup (concat as) (ps ! i) = as ! i) \<and>
    (\<forall>p. p \<notin> set ps \<longrightarrow> priorityGroup (concat as) p = [])"
  using assms
proof (induction ps as rule: list_all2_induct)
  case (Cons p ps a as)
  have app: "priorityGroup (concat (a # as)) q = priorityGroup a q @ priorityGroup (concat as) q" for q
    by (simp add: priorityGroup_def)
  have "p \<noteq> ps ! i" if "i < length ps" for i using Cons.prems that by auto
  with Cons show ?case
    unfolding app by (auto simp: priorityGroup_part nth_Cons split: nat.split)
qed (simp add: priorityGroup_def)

lemma parts_sub:
  assumes "list_all2 (partOf cs) ps as" "distinct ps"
  shows "mset (concat as) \<subseteq># mset cs"
proof (rule mset_subset_eqI)
  fix c
  have count_group: "count (mset (priorityGroup xs (openAICandidatePriority c))) c = count (mset xs) c" for xs
    by (simp add: priorityGroup_def)
  show "count (mset (concat as)) c \<le> count (mset cs) c"
  proof (cases "openAICandidatePriority c \<in> set ps")
    case True
    then obtain i where i: "i < length ps" "ps ! i = openAICandidatePriority c" by (auto simp: in_set_conv_nth)
    with parts_group [OF assms] have "priorityGroup (concat as) (openAICandidatePriority c) = as ! i" by metis
    moreover have "count (mset (as ! i)) c \<le> count (mset (priorityGroup cs (openAICandidatePriority c))) c"
      using assms(1) i by (metis list_all2_nthD mset_subset_eq_count)
    ultimately show ?thesis by (metis count_group)
  next
    case False
    with parts_group [OF assms] have "priorityGroup (concat as) (openAICandidatePriority c) = []" by blast
    then have "count (mset (concat as)) c = 0" by (metis count_group count_empty mset.simps(1))
    then show ?thesis by linarith
  qed
qed

lemma layered_parts:
  assumes "distinctAccounts cs" "0 < topK" "cs \<noteq> []"
    "buildOpenAIPriorityLayeredSelectionOrders clk cs topK req = (sel, acq)"
  defines "ps \<equiv> sorted_list_of_set (openAICandidatePriority ` set cs)"
  shows "\<exists>sels acqs. sel = concat sels \<and> acq = concat acqs \<and>
    list_all2 (\<lambda>p s. partOf cs p s \<and> length s = min (nat topK) (length (priorityGroup cs p))) ps sels \<and>
    list_all2 (\<lambda>p a. partOf cs p a \<and> length a = min (nat (topK + min topK 32)) (length (priorityGroup cs p))) ps acqs"
proof -
  have "layeredOrders clk topK req (map (priorityGroup cs) ps) = (sel, acq)"
    using assms by (simp add: buildOpenAIPriorityLayeredSelectionOrders_def group_by_priority)
  moreover have "distinctAccounts g" if "g \<in> set (map (priorityGroup cs) ps)" for g
    using that assms(1) by (auto intro: distinct_priorityGroup)
  ultimately show ?thesis
    using layered_groups [OF assms(2), of "map (priorityGroup cs) ps" clk req sel acq]
    by (simp add: list_all2_map1)
qed

lemma layered_spec:
  assumes "distinctAccounts cs" "0 < topK"
    "buildOpenAIPriorityLayeredSelectionOrders clk cs topK req = (sel, acq)"
  shows "sorted (map openAICandidatePriority acq) \<and> distinctAccounts acq \<and> mset acq \<subseteq># mset cs \<and>
    length (priorityGroup acq p) = min (nat (topK + min topK 32)) (length (priorityGroup cs p))"
proof (cases "cs = []")
  case True
  with assms show ?thesis
    by (simp add: buildOpenAIPriorityLayeredSelectionOrders_def priorityGroup_def)
next
  case False
  define ps where "ps = sorted_list_of_set (openAICandidatePriority ` set cs)"
  have ps: "sorted ps" "distinct ps" "set ps = openAICandidatePriority ` set cs" by (auto simp: ps_def)
  from layered_parts [OF assms(1,2) False assms(3)] obtain acqs where acq: "acq = concat acqs"
    and all: "list_all2 (\<lambda>p a. partOf cs p a \<and> length a = min (nat (topK + min topK 32)) (length (priorityGroup cs p))) ps acqs"
    by (auto simp: ps_def)
  then have parts: "list_all2 (partOf cs) ps acqs" by (auto elim: list_all2_mono)
  have sub: "mset acq \<subseteq># mset cs" using parts_sub [OF parts ps(2)] by (simp add: acq)
  have "length (priorityGroup acq p) = min (nat (topK + min topK 32)) (length (priorityGroup cs p))"
  proof (cases "p \<in> set ps")
    case True
    then obtain i where i: "i < length ps" "ps ! i = p" by (auto simp: in_set_conv_nth)
    with parts_group [OF parts ps(2)] list_all2_nthD [OF all i(1)] show ?thesis by (auto simp: acq)
  next
    case False
    then have "priorityGroup cs p = []" unfolding ps(3) by (auto simp: priorityGroup_def filter_empty_conv)
    moreover have "priorityGroup acq p = []" using parts_group [OF parts ps(2)] False by (simp add: acq)
    ultimately show ?thesis by simp
  qed
  with sub parts_sorted [OF parts ps(1)] distinctAccounts_sub [OF sub assms(1)] show ?thesis by (simp add: acq)
qed

section \<open>Seed ranks\<close>

text \<open>Every step of the finaliser can be undone, so two accounts never share a rank.\<close>

lemma xorshift_inj:
  fixes x y :: "64 word"
  assumes "x XOR drop_bit n x = y XOR drop_bit n y" "0 < n"
  shows "x = y"
proof (rule bit_word_eqI)
  fix i
  have eq: "bit (x XOR drop_bit n x) j = bit (y XOR drop_bit n y) j" for j using assms(1) by simp
  show "i < LENGTH(64) \<Longrightarrow> bit x i \<longleftrightarrow> bit y i"
  proof (induction "64 - i" arbitrary: i rule: less_induct)
    case less
    have "bit x (n + i) \<longleftrightarrow> bit y (n + i)"
    proof (cases "n + i < 64")
      case True
      then show ?thesis using less assms(2) by simp
    next
      case False
      then show ?thesis
        using bit_imp_le_length [of x "n + i"] bit_imp_le_length [of y "n + i"] by auto
    qed
    moreover have "(bit x i \<noteq> bit x (n + i)) = (bit y i \<noteq> bit y (n + i))"
      using eq [of i] by (simp only: bit_xor_iff bit_drop_bit_eq comp_def)
    ultimately show ?case by blast
  qed
qed

lemma mult_odd_inj:
  fixes x y :: "64 word"
  assumes "m * k = 1" "x * m = y * m"
  shows "x = y"
proof -
  have "x * m * k = y * m * k" using assms(2) by (rule arg_cong)
  then show ?thesis by (simp only: mult.assoc assms(1) mult_1_right)
qed

lemma seedRank_inj:
  assumes "openAIAccountSeedRank seed i = openAIAccountSeedRank seed j" "int64_range i" "int64_range j"
  shows "i = j"
proof -
  have k: "(0xbf58476d1ce4e5b9 :: 64 word) * 0x96de1b173f119089 = 1"
    "(0x94d049bb133111eb :: 64 word) * 0x319642b2d24d8ec3 = 1" by simp_all
  note eq = assms(1) [unfolded openAIAccountSeedRank_def Let_def]
  have "seed XOR (word_of_int i + 0x9e3779b97f4a7c15) = seed XOR (word_of_int j + 0x9e3779b97f4a7c15)"
    by (rule xorshift_inj [OF mult_odd_inj [OF k(1) xorshift_inj [OF mult_odd_inj [OF k(2) xorshift_inj [OF eq]]]]])
      simp_all
  from arg_cong [OF this, of "\<lambda>w. seed XOR w"] have "(word_of_int i :: 64 word) = word_of_int j"
    by (simp only: xor.assoc [symmetric] xor_self_eq xor.left_neutral add_right_cancel)
  then have "2 ^ 64 dvd i - j"
    by (simp add: word_of_int_eq_iff take_bit_eq_mod mod_eq_dvd_iff)
  moreover have "\<bar>i - j\<bar> < 2 ^ 64" using assms(2,3) by (auto simp: int64_range_def abs_less_iff)
  ultimately show ?thesis using dvd_imp_le_int [of "i - j" "2 ^ 64"] by fastforce
qed

end
