(* ===== verification/LoadPlan.thy ===== *)
theory LoadPlan
  imports SelectionOrder
begin

text \<open>
  How the OpenAI account scheduler scores its candidates and plans a selection
  (\<^verbatim>\<open>openai_account_scheduler.go\<close> and \<^verbatim>\<open>openai_account_scheduler_upstream_merge.go\<close>): the runtime
  statistics of accounts, the budget of probes, the cost factors, the load plan with its scores, the
  two selection orders of a plan and the score snapshot shown to administrators.

  What a plan reads besides its arguments is the record \<open>planEnv\<close>. It holds the readings of the
  clock, the weights and top-k of the settings, the statistics, and as functions the parts of the
  account code that are not modelled: the fresh upstream billing rate of an account, its quota
  headroom, and the exponential of the median logarithm of a list of rates. The load skew, a square root that is only
  reported, is left out.
\<close>

section \<open>Accounts\<close>

definition IsOpenAI :: "'a account_scheme \<Rightarrow> bool" where
  "IsOpenAI a \<longleftrightarrow> a_Platform a = ''openai''"

definition IsOpenAIOAuth :: "'a account_scheme \<Rightarrow> bool" where
  "IsOpenAIOAuth a \<longleftrightarrow> IsOpenAI a \<and> a_Type a = ''oauth''"

definition IsOpenAIApiKey :: "'a account_scheme \<Rightarrow> bool" where
  "IsOpenAIApiKey a \<longleftrightarrow> IsOpenAI a \<and> a_Type a = ''apikey''"

text \<open>
  \<^verbatim>\<open>strings.ToLower\<close> on the letters of ASCII, which is all that a comparison with an ASCII
  word without \<open>k\<close> and \<open>i\<close> can see.
\<close>

definition lowerChar :: "char \<Rightarrow> char" where
  "lowerChar c = (if 65 \<le> (of_char c :: nat) \<and> (of_char c :: nat) \<le> 90 then char_of ((of_char c :: nat) + 32) else c)"

definition normalizeOpenAICompactMode :: "string \<Rightarrow> string" where
  "normalizeOpenAICompactMode mode =
     (let m = map lowerChar (TrimSpace mode) in
      if m = ''force_on'' then ''force_on'' else if m = ''force_off'' then ''force_off'' else ''auto'')"

definition GetOpenAICompactMode :: "'a account_scheme \<Rightarrow> string" where
  "GetOpenAICompactMode a =
     (if \<not> IsOpenAI a \<or> a_Extra a = None then ''auto''
      else normalizeOpenAICompactMode
        (case cfg_get (a_Extra a) ''openai_compact_mode'' of Some (VString s) \<Rightarrow> s | _ \<Rightarrow> []))"

definition OpenAICompactSupportKnown :: "'a account_scheme \<Rightarrow> bool \<times> bool" where
  "OpenAICompactSupportKnown a =
     (if \<not> IsOpenAI a then (False, False)
      else if GetOpenAICompactMode a = ''force_on'' then (True, True)
      else if GetOpenAICompactMode a = ''force_off'' then (False, True)
      else case cfg_get (a_Extra a) ''openai_compact_supported'' of
        Some (VBool supported) \<Rightarrow> (supported, True)
      | _ \<Rightarrow> (False, False))"

definition openAICompactSupportTier :: "'a account_scheme option \<Rightarrow> int" where
  "openAICompactSupportTier acc = (case acc of
       None \<Rightarrow> 0
     | Some a \<Rightarrow> if \<not> IsOpenAI a then 0
         else (case OpenAICompactSupportKnown a of (supported, known) \<Rightarrow>
           if \<not> known then 1 else if supported then 2 else 0))"

definition EffectivePriorityForUser :: "schedAccount \<Rightarrow> int \<Rightarrow> int" where
  "EffectivePriorityForUser a userID =
     (case (a_OwnerUserID a, sa_PrivatePriority a) of
        (Some owner, Some p) \<Rightarrow> if userID > 0 \<and> owner = userID \<and> p > 0 then p else sa_Priority a
      | _ \<Rightarrow> sa_Priority a)"

section \<open>Runtime statistics\<close>

text \<open>\<^const>\<open>None\<close> stands for the not-a-number that marks a missing first-token time.\<close>

record runtimeStat =
  rs_errorRate :: rat
  rs_ttft :: "rat option"

record runtimeStats =
  st_accounts :: "int \<rightharpoonup> runtimeStat"
  st_accountCount :: int

definition newOpenAIAccountRuntimeStats :: runtimeStats where
  "newOpenAIAccountRuntimeStats = \<lparr>st_accounts = Map.empty, st_accountCount = 0\<rparr>"

definition loadOrCreate :: "int \<Rightarrow> runtimeStats \<Rightarrow> runtimeStat \<times> runtimeStats" where
  "loadOrCreate accountID s = (case st_accounts s accountID of
       Some stat \<Rightarrow> (stat, s)
     | None \<Rightarrow> (let stat = \<lparr>rs_errorRate = 0, rs_ttft = None\<rparr> in
         (stat, s\<lparr>st_accounts := (st_accounts s)(accountID \<mapsto> stat), st_accountCount := st_accountCount s + 1\<rparr>)))"

definition updateEWMA :: "rat \<Rightarrow> rat \<Rightarrow> rat \<Rightarrow> rat" where
  "updateEWMA oldValue sample alpha = alpha * sample + (1 - alpha) * oldValue"

definition report :: "int \<Rightarrow> bool \<Rightarrow> int option \<Rightarrow> runtimeStats \<Rightarrow> runtimeStats" where
  "report accountID success firstTokenMs s =
     (if accountID \<le> 0 then s
      else case loadOrCreate accountID s of (stat, s1) \<Rightarrow>
        let alpha = 1 / 5;
            stat1 = stat\<lparr>rs_errorRate := updateEWMA (rs_errorRate stat) (if success then 0 else 1) alpha\<rparr>;
            stat2 = (case firstTokenMs of
                Some ms \<Rightarrow> if ms > 0
                  then stat1\<lparr>rs_ttft := Some (case rs_ttft stat1 of
                           None \<Rightarrow> of_int ms
                         | Some oldValue \<Rightarrow> updateEWMA oldValue (of_int ms) alpha)\<rparr>
                  else stat1
              | None \<Rightarrow> stat1)
        in s1\<lparr>st_accounts := (st_accounts s1)(accountID \<mapsto> stat2)\<rparr>)"

definition clamp01 :: "rat \<Rightarrow> rat" where
  "clamp01 v = (if v < 0 then 0 else if v > 1 then 1 else v)"

definition snapshot :: "runtimeStats \<Rightarrow> int \<Rightarrow> rat \<times> rat \<times> bool" where
  "snapshot s accountID =
     (if accountID \<le> 0 then (0, 0, False)
      else case st_accounts s accountID of
        None \<Rightarrow> (0, 0, False)
      | Some stat \<Rightarrow> (case rs_ttft stat of
            None \<Rightarrow> (clamp01 (rs_errorRate stat), 0, False)
          | Some t \<Rightarrow> (clamp01 (rs_errorRate stat), t, True)))"

section \<open>The budget of probes\<close>

record probeBudget =
  pb_acquires :: int
  pb_rechecks :: int
  pb_attempted :: "int list"
  pb_limited :: bool

definition openAIAccountSelectionProbeLimit :: int where
  "openAIAccountSelectionProbeLimit = 64"

definition newOpenAISelectionProbeBudget :: probeBudget where
  "newOpenAISelectionProbeBudget = \<lparr>pb_acquires = 0, pb_rechecks = 0, pb_attempted = [], pb_limited = False\<rparr>"

definition enableLimit :: "probeBudget \<Rightarrow> probeBudget" where
  "enableLimit b = b\<lparr>pb_limited := True\<rparr>"

definition recordAcquire :: "int \<Rightarrow> probeBudget \<Rightarrow> bool \<times> probeBudget" where
  "recordAcquire accountID b =
     (if \<not> pb_limited b then (True, b)
      else if pb_acquires b \<ge> openAIAccountSelectionProbeLimit then (False, b)
      else (True, b\<lparr>pb_acquires := pb_acquires b + 1, pb_attempted := accountID # pb_attempted b\<rparr>))"

definition recordRecheck :: "probeBudget \<Rightarrow> bool \<times> probeBudget" where
  "recordRecheck b =
     (if \<not> pb_limited b then (True, b)
      else if pb_rechecks b \<ge> openAIAccountSelectionProbeLimit then (False, b)
      else (True, b\<lparr>pb_rechecks := pb_rechecks b + 1\<rparr>))"

definition acquireExhausted :: "probeBudget \<Rightarrow> bool" where
  "acquireExhausted b \<longleftrightarrow> pb_limited b \<and> pb_acquires b \<ge> openAIAccountSelectionProbeLimit"

definition wasAttempted :: "probeBudget \<Rightarrow> int \<Rightarrow> bool" where
  "wasAttempted b accountID \<longleftrightarrow> accountID \<in> set (pb_attempted b)"

section \<open>What a plan reads\<close>

record scoreWeights =
  sw_Priority :: rat
  sw_Load :: rat
  sw_Queue :: rat
  sw_ErrorRate :: rat
  sw_TTFT :: rat
  sw_Reset :: rat
  sw_QuotaHeadroom :: rat
  sw_UpstreamCost :: rat
  sw_Previous :: rat
  sw_SessionSticky :: rat

record planEnv =
  pe_userID :: int
  pe_stats :: runtimeStats
  pe_weights :: scoreWeights
  pe_lbTopK :: int
  pe_now :: gotime
  pe_clock :: clock
  pe_hasSnapshot :: bool
  pe_schedulingRate :: "schedAccount \<Rightarrow> rat option"
  pe_medianRate :: "rat list \<Rightarrow> rat option"
  pe_quotaHeadroom :: "schedAccount \<Rightarrow> rat"

section \<open>Cost factors\<close>

definition neutralFactor :: rat where "neutralFactor = 1 / 2"

definition costEligible :: "schedAccount \<Rightarrow> bool" where
  "costEligible a \<longleftrightarrow> IsOpenAIApiKey a \<or> IsOpenAIOAuth a"

definition rateSamples :: "(schedAccount \<Rightarrow> rat option) \<Rightarrow> schedAccount list \<Rightarrow> (int \<times> rat) list" where
  "rateSamples rate accounts =
     List.map_filter (\<lambda>a. if costEligible a then map_option (\<lambda>r. (a_ID a, r)) (rate a) else None) accounts"

definition costFactor :: "rat \<Rightarrow> rat \<Rightarrow> rat \<Rightarrow> rat" where
  "costFactor coverage center rate =
     (let rawFactor = (if rate > 0 then 1 / (1 + rate / center) else 1)
      in clamp01 (neutralFactor + coverage * (rawFactor - neutralFactor)))"

definition openAIUpstreamCostFactors ::
  "(schedAccount \<Rightarrow> rat option) \<Rightarrow> (rat list \<Rightarrow> rat option) \<Rightarrow> schedAccount list \<Rightarrow> (int \<rightharpoonup> rat)" where
  "openAIUpstreamCostFactors rate medianRate accounts =
     (let neutral = foldl (\<lambda>m a. m(a_ID a \<mapsto> neutralFactor)) Map.empty accounts;
          samples = rateSamples rate accounts;
          eligibleCount = length (filter costEligible accounts);
          allEqual = (\<forall>s \<in> set samples. snd s = snd (samples ! 0));
          positive = filter (\<lambda>r. r > 0) (map snd samples) in
      if length samples < 2 \<or> eligibleCount = 0 then neutral
      else if allEqual \<or> positive = [] then neutral
      else case medianRate positive of
        None \<Rightarrow> neutral
      | Some center \<Rightarrow>
          if center \<le> 0 then neutral
          else let coverage = of_nat (length samples) / of_nat eligibleCount in
            foldl (\<lambda>m s. m(fst s \<mapsto> costFactor coverage center (snd s))) neutral samples)"

section \<open>Scores\<close>

definition minBy :: "('a \<Rightarrow> 'b :: linorder) \<Rightarrow> 'b \<Rightarrow> 'a list \<Rightarrow> 'b" where
  "minBy f x cs = foldl (\<lambda>m c. if f c < m then f c else m) x cs"

definition maxBy :: "('a \<Rightarrow> 'b :: linorder) \<Rightarrow> 'b \<Rightarrow> 'a list \<Rightarrow> 'b" where
  "maxBy f x cs = foldl (\<lambda>m c. if f c > m then f c else m) x cs"

text \<open>The least and the greatest sample of a loop that may see none.\<close>

definition sampleRange :: "('a \<Rightarrow> rat option) \<Rightarrow> 'a list \<Rightarrow> (rat \<times> rat) option" where
  "sampleRange f cs = (case List.map_filter f cs of
       [] \<Rightarrow> None
     | x # xs \<Rightarrow> Some (minBy id x xs, maxBy id x xs))"

definition ttftSample :: "candidate \<Rightarrow> rat option" where
  "ttftSample c = (if c_hasTTFT c \<and> c_ttft c > 0 then Some (c_ttft c) else None)"

text \<open>Seconds left in the session window.\<close>

definition resetRemaining :: "gotime \<Rightarrow> schedAccount \<Rightarrow> rat option" where
  "resetRemaining now a = (case sa_SessionWindowEnd a of
       None \<Rightarrow> None
     | Some t \<Rightarrow> if now < t then Some (of_int (t - now) / of_int second) else None)"

definition priorityFactor :: "int \<Rightarrow> int \<Rightarrow> int \<Rightarrow> rat" where
  "priorityFactor minPriority maxPriority p =
     (if maxPriority > minPriority then 1 - of_int (p - minPriority) / of_int (maxPriority - minPriority) else 1)"

definition spreadFactor :: "(rat \<times> rat) option \<Rightarrow> rat option \<Rightarrow> rat \<Rightarrow> rat \<Rightarrow> rat" where
  "spreadFactor rng x missing flat = (case (rng, x) of
       (Some (lo, hi), Some v) \<Rightarrow> if hi > lo then 1 - clamp01 ((v - lo) / (hi - lo)) else flat
     | _ \<Rightarrow> missing)"

definition loadOf :: "candidate \<Rightarrow> accountLoadInfo" where
  "loadOf c = (case c_loadInfo c of Some l \<Rightarrow> l
     | None \<Rightarrow> \<lparr>li_AccountID = 0, li_CurrentConcurrency = 0, li_WaitingCount = 0, li_LoadRate = 0\<rparr>)"

definition baseScore :: "scoreWeights \<Rightarrow> rat \<Rightarrow> rat \<Rightarrow> rat \<Rightarrow> rat \<Rightarrow> rat \<Rightarrow> rat \<Rightarrow> rat \<Rightarrow> rat \<Rightarrow> rat" where
  "baseScore w prio load queue err ttft reset headroom cost =
     sw_Priority w * prio + sw_Load w * load + sw_Queue w * queue + sw_ErrorRate w * err + sw_TTFT w * ttft +
     sw_Reset w * reset + sw_QuotaHeadroom w * headroom + sw_UpstreamCost w * (cost - neutralFactor)"

definition loadFactor :: "candidate \<Rightarrow> rat" where
  "loadFactor c = 1 - clamp01 (of_int (li_LoadRate (loadOf c)) / 100)"

definition queueFactor :: "int \<Rightarrow> candidate \<Rightarrow> rat" where
  "queueFactor maxWaiting c = 1 - clamp01 (of_int (li_WaitingCount (loadOf c)) / of_int maxWaiting)"

definition accountOf :: "candidate \<Rightarrow> schedAccount" where
  "accountOf c = the (c_account c)"

text \<open>The second loop of \<^verbatim>\<open>buildOpenAIAccountLoadPlan\<close>, for one candidate of the pool \<open>cs\<close>.\<close>

definition planScore :: "planEnv \<Rightarrow> scheduleRequest \<Rightarrow> (int \<rightharpoonup> rat) \<Rightarrow> candidate list \<Rightarrow> candidate \<Rightarrow> rat" where
  "planScore env req costs cs item =
     (let w = pe_weights env; now = pe_now env;
          p0 = c_priority (cs ! 0);
          minPriority = minBy c_priority p0 cs; maxPriority = maxBy c_priority p0 cs;
          maxWaiting = maxBy (\<lambda>c. li_WaitingCount (loadOf c)) 1 cs;
          ttftRange = sampleRange ttftSample cs;
          resetRange = (if sw_Reset w > 0 then sampleRange (\<lambda>c. resetRemaining now (accountOf c)) cs else None);
          score = baseScore w
            (priorityFactor minPriority maxPriority (c_priority item))
            (loadFactor item)
            (queueFactor maxWaiting item)
            (1 - clamp01 (c_errorRate item))
            (spreadFactor ttftRange (if c_hasTTFT item then Some (c_ttft item) else None) (1/2) (1/2))
            (spreadFactor resetRange (resetRemaining now (accountOf item)) 0 1)
            (if sw_QuotaHeadroom w > 0 then pe_quotaHeadroom env (accountOf item) else 0)
            (case costs (a_ID (accountOf item)) of Some f \<Rightarrow> f | None \<Rightarrow> neutralFactor);
          prev = (if r_PreviousResponseCanMove req \<and> r_StickyPreviousAccountID req > 0 \<and>
                     a_ID (accountOf item) = r_StickyPreviousAccountID req then sw_Previous w else 0);
          sticky = (if r_StickyAccountID req > 0 \<and> a_ID (accountOf item) = r_StickyAccountID req
                    then sw_SessionSticky w else 0)
      in if r_StickyWeighted req then score + prev + sticky else score)"

section \<open>The plan\<close>

record loadPlan =
  lp_allCandidates :: "candidate list"
  lp_candidates :: "candidate list"
  lp_staleSnapshotCompactRetry :: "candidate list"
  lp_selectionOrder :: "candidate list"
  lp_candidateCount :: int
  lp_topK :: int
  lp_includeOverflowFallback :: bool

definition planCandidate :: "planEnv \<Rightarrow> (int \<rightharpoonup> accountLoadInfo) \<Rightarrow> schedAccount \<Rightarrow> candidate" where
  "planCandidate env loadMap a =
     (case snapshot (pe_stats env) (a_ID a) of (errorRate, ttft, hasTTFT) \<Rightarrow>
        \<lparr>c_account = Some a,
         c_loadInfo = Some (case loadMap (a_ID a) of Some l \<Rightarrow> l
           | None \<Rightarrow> \<lparr>li_AccountID = a_ID a, li_CurrentConcurrency = 0, li_WaitingCount = 0, li_LoadRate = 0\<rparr>),
         c_loadKnown = (loadMap (a_ID a) \<noteq> None),
         c_priority = 0, c_score = 0, c_errorRate = errorRate, c_ttft = ttft, c_hasTTFT = hasTTFT\<rparr>)"

text \<open>The first of the sticky accounts that is in the ranking goes to its front.\<close>

fun stickyFirst :: "int list \<Rightarrow> candidate list \<Rightarrow> candidate list" where
  "stickyFirst [] ranked = []"
| "stickyFirst (stickyID # ids) ranked =
     (if stickyID \<le> 0 then stickyFirst ids ranked
      else case List.extract (\<lambda>c. case c_account c of Some a \<Rightarrow> a_ID a = stickyID | None \<Rightarrow> False) ranked of
        Some (before, c, after) \<Rightarrow> c # before @ after
      | None \<Rightarrow> stickyFirst ids ranked)"

definition poolSelectionOrder ::
  "clock \<Rightarrow> scheduleRequest \<Rightarrow> int \<Rightarrow> bool \<Rightarrow> candidate list \<Rightarrow> candidate list" where
  "poolSelectionOrder clk req topK includeOverflowFallback pool =
     (if pool = [] \<or> topK \<le> 0 then []
      else
        let groupTopK = (if topK > int (length pool) then int (length pool) else topK);
            ranked = selectTopKOpenAICandidates pool groupTopK;
            primary0 = (if r_StickyWeighted req
                        then stickyFirst [r_StickyPreviousAccountID req, r_StickyAccountID req] ranked else []);
            primary = (if primary0 = [] then buildOpenAIWeightedSelectionOrder clk ranked req else primary0) in
        if \<not> includeOverflowFallback \<or> groupTopK \<ge> int (length pool) then primary
        else primary @ sortBy isOpenAIAccountCandidateBetter (notSelected primary pool))"

definition retryBefore :: "candidate \<Rightarrow> candidate \<Rightarrow> bool" where
  "retryBefore a b =
     (if openAICandidatePriority a \<noteq> openAICandidatePriority b
      then openAICandidatePriority a < openAICandidatePriority b
      else if li_LoadRate (loadOf a) \<noteq> li_LoadRate (loadOf b) then li_LoadRate (loadOf a) < li_LoadRate (loadOf b)
      else if li_WaitingCount (loadOf a) \<noteq> li_WaitingCount (loadOf b)
      then li_WaitingCount (loadOf a) < li_WaitingCount (loadOf b)
      else compareOpenAIAccountLastUsed (c_account a) (c_account b) < 0)"

definition sortOpenAICompactRetryCandidates :: "candidate list \<Rightarrow> candidate list" where
  "sortOpenAICompactRetryCandidates pool = (if pool = [] then [] else sortBy retryBefore pool)"

definition compactTier :: "int \<Rightarrow> candidate list \<Rightarrow> candidate list" where
  "compactTier tier cs = filter (\<lambda>c. openAICompactSupportTier (c_account c) = tier) cs"

definition buildOpenAISelectionOrder :: "planEnv \<Rightarrow> scheduleRequest \<Rightarrow> loadPlan \<Rightarrow> candidate list" where
  "buildOpenAISelectionOrder env req plan =
     (let build = (\<lambda>n. poolSelectionOrder (lap n (pe_clock env)) req (lp_topK plan) (lp_includeOverflowFallback plan)) in
      if r_RequireCompact req
      then build 0 (compactTier 2 (lp_candidates plan)) @ build 1 (compactTier 1 (lp_candidates plan)) @
        (if lp_staleSnapshotCompactRetry plan \<noteq> [] \<and> pe_hasSnapshot env
         then sortOpenAICompactRetryCandidates (lp_staleSnapshotCompactRetry plan) else [])
      else build 0 (lp_candidates plan))"

definition buildOpenAIAccountLoadPlan ::
  "planEnv \<Rightarrow> scheduleRequest \<Rightarrow> schedAccount list \<Rightarrow> (int \<rightharpoonup> accountLoadInfo) \<Rightarrow> loadPlan" where
  "buildOpenAIAccountLoadPlan env req filtered loadMap =
     (let allCandidates = map (planCandidate env loadMap) filtered;
          unsupported = (\<lambda>c. openAICompactSupportTier (c_account c) = 0);
          stale = (if r_RequireCompact req then filter unsupported allCandidates else []);
          pool = (if r_RequireCompact req then filter (\<lambda>c. \<not> unsupported c) allCandidates else allCandidates);
          plan = \<lparr>lp_allCandidates = allCandidates, lp_candidates = pool, lp_staleSnapshotCompactRetry = stale,
                  lp_selectionOrder = [], lp_candidateCount = int (length pool), lp_topK = 0,
                  lp_includeOverflowFallback = False\<rparr> in
      if pool = [] then plan\<lparr>lp_selectionOrder := buildOpenAISelectionOrder env req plan\<rparr>
      else
        let withPriority = map (\<lambda>c. c\<lparr>c_priority := EffectivePriorityForUser (accountOf c) (pe_userID env)\<rparr>) pool;
            costs = (if r_UseUpstreamTokenCost req \<and> sw_UpstreamCost (pe_weights env) > 0
                     then openAIUpstreamCostFactors (pe_schedulingRate env) (pe_medianRate env) (map accountOf pool)
                     else Map.empty);
            overflow = (\<exists>c \<in> set pool. case costs (a_ID (accountOf c)) of Some f \<Rightarrow> f \<noteq> neutralFactor | None \<Rightarrow> False);
            scored = map (\<lambda>c. c\<lparr>c_score := planScore env req costs withPriority c\<rparr>) withPriority;
            plan1 = plan\<lparr>lp_allCandidates := (if r_RequireCompact req then allCandidates else scored),
                         lp_candidates := scored, lp_includeOverflowFallback := overflow,
                         lp_topK := effectiveOpenAIHybridTopK (pe_lbTopK env) (int (length scored))\<rparr>
        in plan1\<lparr>lp_selectionOrder := buildOpenAISelectionOrder env req plan1\<rparr>)"

definition buildOpenAIRuntimeSelectionOrder :: "clock \<Rightarrow> scheduleRequest \<Rightarrow> loadPlan \<Rightarrow> candidate list" where
  "buildOpenAIRuntimeSelectionOrder clk req plan =
     (if lp_includeOverflowFallback plan then lp_selectionOrder plan
      else
        let pool = (\<lambda>n cs. if cs = [] \<or> lp_topK plan \<le> 0 then []
                      else snd (buildOpenAIPriorityLayeredSelectionOrders (lap n clk) cs (lp_topK plan) req)) in
        if r_RequireCompact req
        then pool 0 (compactTier 2 (lp_candidates plan)) @
             pool (3 * length (lp_candidates plan)) (compactTier 1 (lp_candidates plan)) @
             (if lp_staleSnapshotCompactRetry plan \<noteq> []
              then sortOpenAICompactRetryCandidates (lp_staleSnapshotCompactRetry plan) else [])
        else pool 0 (lp_candidates plan))"

definition openAICostOverflowExpanded :: "scheduleRequest \<Rightarrow> loadPlan \<Rightarrow> bool" where
  "openAICostOverflowExpanded req plan =
     (if \<not> lp_includeOverflowFallback plan \<or> lp_topK plan \<le> 0 then False
      else if \<not> r_RequireCompact req then int (length (lp_candidates plan)) > lp_topK plan
      else int (length (compactTier 2 (lp_candidates plan))) > lp_topK plan \<or>
           int (length (compactTier 1 (lp_candidates plan))) > lp_topK plan)"

section \<open>The score snapshot\<close>

record scoreSnapshot =
  ss_BaseScore :: rat
  ss_StickyScore :: rat
  ss_StickyScoreInfinity :: bool
  ss_StickyWeightedEnabled :: bool

definition buildOpenAIAccountSchedulerScoreSnapshot ::
  "planEnv \<Rightarrow> schedAccount list \<Rightarrow> (int \<rightharpoonup> accountLoadInfo) \<Rightarrow> bool \<Rightarrow> (int \<rightharpoonup> scoreSnapshot)" where
  "buildOpenAIAccountSchedulerScoreSnapshot env accounts loadMap stickyWeightedEnabled =
     (let w = pe_weights env; now = pe_now env;
          cs = map (\<lambda>a. (a, case loadMap (a_ID a) of Some l \<Rightarrow> l
                 | None \<Rightarrow> \<lparr>li_AccountID = a_ID a, li_CurrentConcurrency = 0, li_WaitingCount = 0, li_LoadRate = 0\<rparr>)) accounts;
          p0 = sa_Priority (accounts ! 0);
          minPriority = minBy sa_Priority p0 accounts; maxPriority = maxBy sa_Priority p0 accounts;
          maxWaiting = maxBy (\<lambda>(a, l). li_WaitingCount l) 1 cs;
          resetRange = (if sw_Reset w > 0 then sampleRange (resetRemaining now) accounts else None);
          costs = (if sw_UpstreamCost w > 0
                   then openAIUpstreamCostFactors (pe_schedulingRate env) (pe_medianRate env) accounts else Map.empty);
          score = (\<lambda>a l. baseScore w
            (priorityFactor minPriority maxPriority (sa_Priority a))
            (1 - clamp01 (of_int (li_LoadRate l) / 100))
            (1 - clamp01 (of_int (li_WaitingCount l) / of_int maxWaiting))
            1 (1/2)
            (spreadFactor resetRange (resetRemaining now a) 0 1)
            (if sw_QuotaHeadroom w > 0 then pe_quotaHeadroom env a else 0)
            (case costs (a_ID a) of Some f \<Rightarrow> f | None \<Rightarrow> neutralFactor)) in
      if accounts = [] then Map.empty
      else foldl (\<lambda>m (a, l). m(a_ID a \<mapsto>
             \<lparr>ss_BaseScore = score a l,
              ss_StickyScore = (if stickyWeightedEnabled then score a l + sw_Previous w + sw_SessionSticky w else 0),
              ss_StickyScoreInfinity = \<not> stickyWeightedEnabled,
              ss_StickyWeightedEnabled = stickyWeightedEnabled\<rparr>)) Map.empty cs)"

end
