(* ===== verification/PlanFacts.thy ===== *)
theory PlanFacts
  imports LoadPlan
begin

text \<open>
  Facts about the load plans of \<open>LoadPlan\<close>: error rates stay probabilities and depend on an account's own
  reports only, cheaper accounts get the larger cost factor, a plan's orders hold accounts of the pool and none
  of them twice, an order that was widened for cost holds all of them, and the score shown to
  administrators is the score a plan gives.
\<close>

section \<open>Runtime statistics\<close>

record resultReport =
  rr_account :: int
  rr_success :: bool
  rr_firstTokenMs :: "int option"

definition runReports :: "resultReport list \<Rightarrow> runtimeStats" where
  "runReports rs = foldl (\<lambda>s r. report (rr_account r) (rr_success r) (rr_firstTokenMs r) s) newOpenAIAccountRuntimeStats rs"

definition ownErrorRate :: "int \<Rightarrow> resultReport list \<Rightarrow> rat" where
  "ownErrorRate i rs = foldl (\<lambda>e r. updateEWMA e (if rr_success r then 0 else 1) (1 / 5)) 0 (filter (\<lambda>r. rr_account r = i) rs)"

lemma updateEWMA_bounds:
  assumes "0 \<le> e" "e \<le> 1" "0 \<le> s" "s \<le> 1"
  shows "0 \<le> updateEWMA e s (1 / 5)" "updateEWMA e s (1 / 5) \<le> 1"
  using assms by (simp_all add: updateEWMA_def field_simps)

lemma ownErrorRate_bounds: "0 \<le> ownErrorRate i rs \<and> ownErrorRate i rs \<le> 1"
proof -
  have "0 \<le> e \<Longrightarrow> e \<le> 1 \<Longrightarrow>
    0 \<le> foldl (\<lambda>e r. updateEWMA e (if rr_success r then 0 else 1) (1 / 5)) e xs \<and>
    foldl (\<lambda>e r. updateEWMA e (if rr_success r then 0 else 1) (1 / 5)) e xs \<le> 1" for e and xs :: "resultReport list"
  proof (induction xs arbitrary: e)
    case (Cons r xs)
    show ?case
      using Cons.IH [of "updateEWMA e (if rr_success r then 0 else 1) (1 / 5)"]
        updateEWMA_bounds [OF Cons.prems, of "if rr_success r then 0 else 1"] by simp
  qed simp
  then show ?thesis by (simp add: ownErrorRate_def)
qed

lemma ownErrorRate_snoc:
  "ownErrorRate i (rs @ [r]) = (if rr_account r = i
     then updateEWMA (ownErrorRate i rs) (if rr_success r then 0 else 1) (1 / 5) else ownErrorRate i rs)"
  by (simp add: ownErrorRate_def)

lemma runReports_snoc:
  "runReports (rs @ [r]) = report (rr_account r) (rr_success r) (rr_firstTokenMs r) (runReports rs)"
  by (simp add: runReports_def)

lemma report_accounts:
  "st_accounts (report i ok ms s) j = (if j = i \<and> 0 < i
     then Some \<lparr>rs_errorRate = updateEWMA (case st_accounts s i of None \<Rightarrow> 0 | Some stat \<Rightarrow> rs_errorRate stat) (if ok then 0 else 1) (1/5),
         rs_ttft = rs_ttft (the (st_accounts (report i ok ms s) i))\<rparr>
     else st_accounts s j)"
  by (auto simp: report_def loadOrCreate_def Let_def split: option.splits)

lemma runReports_errorRate:
  "0 < i \<Longrightarrow> (case st_accounts (runReports rs) i of None \<Rightarrow> 0 | Some stat \<Rightarrow> rs_errorRate stat) = ownErrorRate i rs"
proof (induction rs rule: rev_induct)
  case (snoc r rs)
  then show ?case
    by (subst runReports_snoc, subst report_accounts) (auto simp: ownErrorRate_snoc)
qed (simp add: runReports_def newOpenAIAccountRuntimeStats_def ownErrorRate_def)

lemma report_count:
  assumes "finite (dom (st_accounts s))" "st_accountCount s = int (card (dom (st_accounts s)))"
  shows "dom (st_accounts (report i ok ms s)) = (if 0 < i then insert i (dom (st_accounts s)) else dom (st_accounts s))"
    and "st_accountCount (report i ok ms s) = int (card (dom (st_accounts (report i ok ms s))))"
  using assms by (auto simp: report_def loadOrCreate_def Let_def card_insert_if insert_absorb split: option.splits)

lemma runReports_count:
  "dom (st_accounts (runReports rs)) = {i \<in> rr_account ` set rs. 0 < i} \<and>
   st_accountCount (runReports rs) = int (card {i \<in> rr_account ` set rs. 0 < i})"
proof (induction rs rule: rev_induct)
  case (snoc r rs)
  then have fin: "finite (dom (st_accounts (runReports rs)))"
    and cnt: "st_accountCount (runReports rs) = int (card (dom (st_accounts (runReports rs))))" by auto
  have d: "dom (st_accounts (runReports (rs @ [r]))) = {i \<in> rr_account ` set (rs @ [r]). 0 < i}"
    using snoc report_count(1) [OF fin cnt, of "rr_account r" "rr_success r" "rr_firstTokenMs r"]
    by (auto simp: runReports_snoc)
  with report_count(2) [OF fin cnt, of "rr_account r" "rr_success r" "rr_firstTokenMs r"] show ?case
    by (simp add: runReports_snoc)
qed (simp add: runReports_def newOpenAIAccountRuntimeStats_def)

lemma clamp01_id: "0 \<le> v \<Longrightarrow> v \<le> 1 \<Longrightarrow> clamp01 v = v"
  by (simp add: clamp01_def)

lemma clamp01_bounds: "0 \<le> clamp01 v" "clamp01 v \<le> 1"
  by (simp_all add: clamp01_def)

lemma clamp01_mono: "v \<le> w \<Longrightarrow> clamp01 v \<le> clamp01 w"
  by (auto simp: clamp01_def)

lemma snapshot_errorRate: "0 < i \<Longrightarrow> fst (snapshot (runReports rs) i) = ownErrorRate i rs"
  using runReports_errorRate [of i rs] ownErrorRate_bounds [of i rs]
  by (auto simp: snapshot_def clamp01_id split: option.splits)

section \<open>Cost factors\<close>

lemma fold_map_of:
  fixes f :: "'a \<Rightarrow> int" and g :: "'a \<Rightarrow> rat"
  shows "distinct (map f xs) \<Longrightarrow> foldl (\<lambda>m x. m(f x \<mapsto> g x)) m0 xs k =
    (case map_of (map (\<lambda>x. (f x, g x)) xs) k of None \<Rightarrow> m0 k | Some v \<Rightarrow> Some v)"
proof (induction xs arbitrary: m0)
  case (Cons x xs)
  then show ?case
    by (auto simp: map_of_eq_None_iff image_iff split: option.splits dest: map_of_SomeD)
qed simp

lemma costFactor_antimono:
  assumes "0 \<le> coverage" "0 < center" "r \<le> r'"
  shows "costFactor coverage center r' \<le> costFactor coverage center r"
proof -
  have raw: "(if r' > 0 then 1 / (1 + r' / center) else 1) \<le> (if r > 0 then 1 / (1 + r / center) else (1 :: rat))"
    using assms by (auto intro!: divide_left_mono divide_right_mono add_left_mono add_pos_pos mult_pos_pos simp: divide_le_eq_1)
  then show ?thesis
    unfolding costFactor_def Let_def
    by (intro clamp01_mono add_left_mono mult_left_mono diff_right_mono assms(1))
qed

lemma rateSamples_ids: "map fst (rateSamples rate accounts) = map a_ID (filter (\<lambda>a. costEligible a \<and> rate a \<noteq> None) accounts)"
  by (induction accounts) (auto simp: rateSamples_def List.map_filter_simps split: option.splits)

lemma rateSamples_mem:
  "a \<in> set accounts \<Longrightarrow> costEligible a \<Longrightarrow> rate a = Some r \<Longrightarrow> (a_ID a, r) \<in> set (rateSamples rate accounts)"
  by (auto simp: rateSamples_def List.map_filter_def intro!: image_eqI [of _ _ a])

lemma rateSamples_distinct: "distinct (map a_ID accounts) \<Longrightarrow> distinct (map fst (rateSamples rate accounts))"
  unfolding rateSamples_ids by (simp add: distinct_map_filter)

lemma costFactors_lookup:
  assumes "distinct (map a_ID accounts)" "a \<in> set accounts"
  shows "openAIUpstreamCostFactors rate medianRate accounts (a_ID a) = Some neutralFactor \<or>
    (\<exists>coverage center. 0 \<le> coverage \<and> 0 < center \<and>
      (\<forall>b \<in> set accounts. openAIUpstreamCostFactors rate medianRate accounts (a_ID b) =
        Some (if costEligible b \<and> rate b \<noteq> None then costFactor coverage center (the (rate b)) else neutralFactor)))"
proof -
  define neutral where "neutral = foldl (\<lambda>m a. m(a_ID a \<mapsto> neutralFactor)) Map.empty accounts"
  define samples where "samples = rateSamples rate accounts"
  have neutral: "neutral (a_ID b) = Some neutralFactor" if "b \<in> set accounts" for b
  proof -
    have "map_of (map (\<lambda>x. (a_ID x, neutralFactor)) accounts) (a_ID b) = Some neutralFactor"
      using assms(1) that by (intro map_of_is_SomeI) (auto simp: comp_def)
    then show ?thesis by (simp add: neutral_def fold_map_of [OF assms(1)])
  qed
  have widened: "foldl (\<lambda>m s. m(fst s \<mapsto> costFactor coverage center (snd s))) neutral samples (a_ID b) =
      Some (if costEligible b \<and> rate b \<noteq> None then costFactor coverage center (the (rate b)) else neutralFactor)"
    if b: "b \<in> set accounts" for b coverage center
  proof (cases "costEligible b \<and> rate b \<noteq> None")
    case True
    then obtain r where r: "rate b = Some r" "(a_ID b, r) \<in> set samples"
      using rateSamples_mem [OF b] by (auto simp: samples_def)
    then have "map_of (map (\<lambda>s. (fst s, costFactor coverage center (snd s))) samples) (a_ID b) = Some (costFactor coverage center r)"
      using rateSamples_distinct [OF assms(1), of rate]
      by (intro map_of_is_SomeI) (auto simp: comp_def samples_def intro!: image_eqI [of _ _ "(a_ID b, r)"])
    with True r show ?thesis
      using rateSamples_distinct [OF assms(1), of rate] by (simp add: fold_map_of samples_def)
  next
    case False
    have "a_ID b \<notin> set (map fst samples)"
    proof
      assume "a_ID b \<in> set (map fst samples)"
      then obtain c where "c \<in> set accounts" "a_ID c = a_ID b" "costEligible c \<and> rate c \<noteq> None"
        unfolding samples_def rateSamples_ids by auto
      with False b assms(1) show False by (metis distinct_map inj_onD)
    qed
    then have "map_of (map (\<lambda>s. (fst s, costFactor coverage center (snd s))) samples) (a_ID b) = None"
      by (simp add: map_of_eq_None_iff image_image)
    with False neutral [OF b] show ?thesis
      using rateSamples_distinct [OF assms(1), of rate] by (auto simp: fold_map_of samples_def)
  qed
  show ?thesis
  proof (cases "openAIUpstreamCostFactors rate medianRate accounts = neutral")
    case True
    with neutral [OF assms(2)] show ?thesis by simp
  next
    case False
    then obtain center where "0 < center" "openAIUpstreamCostFactors rate medianRate accounts =
        foldl (\<lambda>m s. m(fst s \<mapsto> costFactor (of_nat (length samples) / of_nat (length (filter costEligible accounts))) center (snd s))) neutral samples"
      unfolding openAIUpstreamCostFactors_def Let_def neutral_def [symmetric] samples_def [symmetric]
      by (auto simp: not_le split: if_splits option.splits)
    then show ?thesis using widened
      by (intro disjI2 exI [of _ "of_nat (length samples) / of_nat (length (filter costEligible accounts))"] exI [of _ center]) simp
  qed
qed

section \<open>Plans\<close>

lemma mset_compactTier_sub: "mset (compactTier n cs) \<subseteq># mset cs"
  by (simp add: compactTier_def)

lemma compactTiers_sub: "mset (compactTier 2 cs) + mset (compactTier 1 cs) \<subseteq># mset cs"
  by (rule mset_subset_eqI) (simp add: compactTier_def)

lemma stickyFirst_mset: "stickyFirst ids ranked \<noteq> [] \<Longrightarrow> mset (stickyFirst ids ranked) = mset ranked"
  by (induction ids) (auto split: if_splits option.splits dest!: extract_SomeE)

lemma poolSelectionOrder_mset:
  assumes "distinctAccounts pool"
  shows "mset (poolSelectionOrder clk req topK wide pool) \<subseteq># mset pool"
    and "0 < topK \<Longrightarrow> wide \<Longrightarrow> mset (poolSelectionOrder clk req topK wide pool) = mset pool"
proof -
  define k where "k = (if topK > int (length pool) then int (length pool) else topK)"
  define ranked where "ranked = selectTopKOpenAICandidates pool k"
  define primary where "primary = (let p = (if r_StickyWeighted req
      then stickyFirst [r_StickyPreviousAccountID req, r_StickyAccountID req] ranked else []) in
      if p = [] then buildOpenAIWeightedSelectionOrder clk ranked req else p)"
  have prim: "mset primary = mset ranked"
    by (simp add: primary_def Let_def weighted_perm stickyFirst_mset del: stickyFirst.simps)
  then have sub: "mset primary \<subseteq># mset pool" by (simp add: ranked_def selectTopK_sub [OF assms])
  have order: "poolSelectionOrder clk req topK wide pool = (if pool = [] \<or> topK \<le> 0 then []
      else if \<not> wide \<or> k \<ge> int (length pool) then primary
      else primary @ sortBy isOpenAIAccountCandidateBetter (notSelected primary pool))"
    by (simp add: poolSelectionOrder_def Let_def k_def ranked_def primary_def del: stickyFirst.simps)
  have all: "mset primary + mset (notSelected primary pool) = mset pool" by (rule notSelected_mset [OF assms sub])
  show "mset (poolSelectionOrder clk req topK wide pool) \<subseteq># mset pool"
    unfolding order using sub all by simp
  assume wide: "0 < topK" "wide"
  show "mset (poolSelectionOrder clk req topK wide pool) = mset pool"
  proof (cases "pool \<noteq> [] \<and> k \<ge> int (length pool)")
    case True
    with wide have "mset ranked = mset pool"
      by (simp add: ranked_def selectTopK_take [OF assms] max_def) (auto simp: k_def split: if_splits)
    with True wide prim show ?thesis unfolding order by auto
  next
    case False
    with wide all show ?thesis unfolding order by auto
  qed
qed

lemma sortRetry_mset: "mset (sortOpenAICompactRetryCandidates pool) = mset pool"
  by (simp add: sortOpenAICompactRetryCandidates_def)

text \<open>A candidate keeps its account through the passes of the plan.\<close>

lemma planCandidate_account [simp]: "c_account (planCandidate env loadMap a) = Some a"
  by (simp add: planCandidate_def split_def)

abbreviation compactOk :: "schedAccount \<Rightarrow> bool" where
  "compactOk a \<equiv> openAICompactSupportTier (Some a) \<noteq> 0"

lemma plan_accounts:
  fixes env :: planEnv and req :: scheduleRequest and filtered :: "schedAccount list" and loadMap :: "int \<rightharpoonup> accountLoadInfo"
  defines "plan \<equiv> buildOpenAIAccountLoadPlan env req filtered loadMap"
  shows "map c_account (lp_candidates plan) = map Some (if r_RequireCompact req then filter compactOk filtered else filtered)"
    and "map c_account (lp_staleSnapshotCompactRetry plan) =
      map Some (if r_RequireCompact req then filter (\<lambda>a. \<not> compactOk a) filtered else [])"
  by (auto simp: plan_def buildOpenAIAccountLoadPlan_def Let_def comp_def filter_map)

lemma distinctAccounts_map:
  assumes "map c_account cs = map Some as" "distinct (map a_ID as)"
  shows "distinctAccounts cs"
proof -
  have "map idOf cs = map a_ID as"
  proof -
    have "map idOf cs = map (\<lambda>x. case x of None \<Rightarrow> 0 | Some a \<Rightarrow> a_ID a) (map c_account cs)" by (simp add: idOf_def)
    then show ?thesis unfolding assms(1) by simp
  qed
  moreover have "c_account c \<noteq> None" if "c \<in> set cs" for c
    using arg_cong [OF assms(1), of set] that by (metis (mono_tags) imageE image_eqI list.set_map option.distinct(1))
  ultimately show ?thesis using assms(2) by (simp add: distinctAccounts_def)
qed

lemma plan_distinct:
  fixes env :: planEnv and req :: scheduleRequest and filtered :: "schedAccount list" and loadMap :: "int \<rightharpoonup> accountLoadInfo"
  assumes "distinct (map a_ID filtered)"
  defines "plan \<equiv> buildOpenAIAccountLoadPlan env req filtered loadMap"
  shows "distinctAccounts (lp_candidates plan @ lp_staleSnapshotCompactRetry plan)"
proof (rule distinctAccounts_map)
  let ?as = "(if r_RequireCompact req then filter compactOk filtered else filtered) @
    (if r_RequireCompact req then filter (\<lambda>a. \<not> compactOk a) filtered else [])"
  show "map c_account (lp_candidates plan @ lp_staleSnapshotCompactRetry plan) = map Some ?as"
    unfolding plan_def map_append plan_accounts ..
  have "mset (map a_ID ?as) = mset (map a_ID filtered)"
    using multiset_partition [of "mset filtered" compactOk]
    by (auto simp: image_mset_union [symmetric] simp del: image_mset_union)
  with assms(1) show "distinct (map a_ID ?as)" by (metis mset_eq_imp_distinct_iff)
qed

text \<open>Both orders of a plan walk the compact tiers, or else all candidates, with an order for one pool.\<close>

definition tieredOrder :: "bool \<Rightarrow> (nat \<Rightarrow> candidate list \<Rightarrow> candidate list) \<Rightarrow> nat \<Rightarrow> bool \<Rightarrow> loadPlan \<Rightarrow> candidate list" where
  "tieredOrder tiered po m retry plan =
     (if tiered then po 0 (compactTier 2 (lp_candidates plan)) @ po m (compactTier 1 (lp_candidates plan)) @
        (if lp_staleSnapshotCompactRetry plan \<noteq> [] \<and> retry
         then sortOpenAICompactRetryCandidates (lp_staleSnapshotCompactRetry plan) else [])
      else po 0 (lp_candidates plan))"

lemma tieredOrder_sub:
  assumes d: "distinctAccounts (lp_candidates plan)"
    and po: "\<And>n cs. distinctAccounts cs \<Longrightarrow> mset (po n cs) \<subseteq># mset cs"
  shows "mset (tieredOrder tiered po m retry plan) \<subseteq>#
    mset (lp_candidates plan) + mset (lp_staleSnapshotCompactRetry plan)"
proof (cases tiered)
  case True
  let ?t2 = "compactTier 2 (lp_candidates plan)" and ?t1 = "compactTier 1 (lp_candidates plan)"
  have tier: "mset (po i (compactTier n (lp_candidates plan))) \<subseteq># mset (compactTier n (lp_candidates plan))" for i n
    by (intro po distinctAccounts_sub [OF mset_compactTier_sub d])
  have "mset (po 0 ?t2) + mset (po m ?t1) \<subseteq># mset (lp_candidates plan)"
    using subset_mset.add_mono [OF tier tier] compactTiers_sub by (rule subset_mset.order_trans)
  moreover have "mset (if lp_staleSnapshotCompactRetry plan \<noteq> [] \<and> retry
      then sortOpenAICompactRetryCandidates (lp_staleSnapshotCompactRetry plan) else []) \<subseteq>#
      mset (lp_staleSnapshotCompactRetry plan)"
    by (simp add: sortRetry_mset)
  ultimately show ?thesis
    using True unfolding tieredOrder_def by (simp only: if_True mset_append add.assoc [symmetric] subset_mset.add_mono)
next
  case False
  have "mset (po 0 (lp_candidates plan)) \<subseteq># mset (lp_candidates plan)" by (rule po [OF d])
  also have "\<dots> \<subseteq># mset (lp_candidates plan) + mset (lp_staleSnapshotCompactRetry plan)" by simp
  finally show ?thesis using False by (simp add: tieredOrder_def)
qed

lemma selectionOrder_tiered:
  "lp_selectionOrder (buildOpenAIAccountLoadPlan env req filtered loadMap) =
     (let plan = buildOpenAIAccountLoadPlan env req filtered loadMap in
      tieredOrder (r_RequireCompact req)
        (\<lambda>n. poolSelectionOrder (lap n (pe_clock env)) req (lp_topK plan) (lp_includeOverflowFallback plan))
        1 (pe_hasSnapshot env) plan)"
  by (auto simp: buildOpenAIAccountLoadPlan_def buildOpenAISelectionOrder_def tieredOrder_def Let_def)

lemma runtimeOrder_tiered:
  "\<not> lp_includeOverflowFallback plan \<Longrightarrow> buildOpenAIRuntimeSelectionOrder clk req plan =
     tieredOrder (r_RequireCompact req)
       (\<lambda>n cs. snd (buildOpenAIPriorityLayeredSelectionOrders (lap n clk) cs (lp_topK plan) req))
       (3 * length (lp_candidates plan)) True plan"
  by (auto simp: buildOpenAIRuntimeSelectionOrder_def tieredOrder_def Let_def buildOpenAIPriorityLayeredSelectionOrders_def)

lemma layered_sub:
  assumes "distinctAccounts cs"
  shows "mset (snd (buildOpenAIPriorityLayeredSelectionOrders clk cs topK req)) \<subseteq># mset cs"
proof (cases "0 < topK")
  case True
  show ?thesis
    using layered_spec [OF assms True] by (metis prod.collapse)
qed (simp add: buildOpenAIPriorityLayeredSelectionOrders_def)

lemma runtimeOrder_sub:
  fixes env :: planEnv and req :: scheduleRequest and filtered :: "schedAccount list" and loadMap :: "int \<rightharpoonup> accountLoadInfo"
  assumes "distinct (map a_ID filtered)"
  defines "plan \<equiv> buildOpenAIAccountLoadPlan env req filtered loadMap"
  shows "mset (buildOpenAIRuntimeSelectionOrder clk req plan) \<subseteq>#
    mset (lp_candidates plan @ lp_staleSnapshotCompactRetry plan)"
proof -
  have d: "distinctAccounts (lp_candidates plan)"
    using plan_distinct [OF assms(1), of env req loadMap] by (rule distinctAccounts_sub [rotated]) (simp add: plan_def)
  show ?thesis
  proof (cases "lp_includeOverflowFallback plan")
    case True
    then have "buildOpenAIRuntimeSelectionOrder clk req plan = lp_selectionOrder plan"
      by (simp add: buildOpenAIRuntimeSelectionOrder_def)
    then show ?thesis
      unfolding plan_def selectionOrder_tiered Let_def mset_append
      using d poolSelectionOrder_mset(1) by (simp add: plan_def tieredOrder_sub)
  next
    case False
    then show ?thesis
      using d layered_sub by (simp add: runtimeOrder_tiered tieredOrder_sub)
  qed
qed

lemma runtimeOrder_accounts:
  fixes env :: planEnv and req :: scheduleRequest and filtered :: "schedAccount list" and loadMap :: "int \<rightharpoonup> accountLoadInfo" and clk :: clock
  assumes "distinct (map a_ID filtered)"
  defines "order \<equiv> buildOpenAIRuntimeSelectionOrder clk req (buildOpenAIAccountLoadPlan env req filtered loadMap)"
  shows "distinctAccounts order" and "c \<in> set order \<Longrightarrow> \<exists>a \<in> set filtered. c_account c = Some a"
proof -
  let ?plan = "buildOpenAIAccountLoadPlan env req filtered loadMap"
  have sub: "mset order \<subseteq># mset (lp_candidates ?plan @ lp_staleSnapshotCompactRetry ?plan)"
    unfolding order_def by (rule runtimeOrder_sub [OF assms(1)])
  then show "distinctAccounts order" using plan_distinct [OF assms(1)] by (rule distinctAccounts_sub)
  assume "c \<in> set order"
  with sub have "c_account c \<in> set (map c_account (lp_candidates ?plan @ lp_staleSnapshotCompactRetry ?plan))"
    using mset_subset_eqD by fastforce
  then show "\<exists>a \<in> set filtered. c_account c = Some a"
    unfolding map_append plan_accounts by (auto split: if_splits)
qed

section \<open>The score snapshot\<close>

lemma minBy_map: "minBy f x (map g xs) = minBy (\<lambda>y. f (g y)) x xs"
  by (simp add: minBy_def foldl_map)

lemma maxBy_map: "maxBy f x (map g xs) = maxBy (\<lambda>y. f (g y)) x xs"
  by (simp add: maxBy_def foldl_map)

lemma sampleRange_map: "sampleRange f (map g xs) = sampleRange (\<lambda>y. f (g y)) xs"
  by (simp add: sampleRange_def List.map_filter_def filter_map comp_def)

lemma sampleRange_none: "(\<And>x. f x = None) \<Longrightarrow> sampleRange f xs = None"
  by (simp add: sampleRange_def List.map_filter_def)

lemma foldl_lookup:
  assumes "distinct (map f xs)" "x \<in> set xs"
  shows "foldl (\<lambda>m x. m(f x \<mapsto> g x)) m0 xs (f x) = Some (g x)"
  using assms
proof (induction xs arbitrary: m0)
  case (Cons y xs)
  have keep: "f x \<notin> f ` set ys \<Longrightarrow> foldl (\<lambda>m x. m(f x \<mapsto> g x)) m ys (f x) = m (f x)" for m ys
    by (induction ys arbitrary: m) auto
  show ?case
  proof (cases "x = y")
    case True
    with Cons.prems keep [of xs "m0(f y \<mapsto> g y)"] show ?thesis by (simp add: fun_upd_same del: fun_upd_apply)
  qed (use Cons in \<open>simp del: fun_upd_apply\<close>)
qed simp

definition infoOf :: "(int \<rightharpoonup> accountLoadInfo) \<Rightarrow> schedAccount \<Rightarrow> accountLoadInfo" where
  "infoOf loadMap a = (case loadMap (a_ID a) of Some l \<Rightarrow> l
     | None \<Rightarrow> \<lparr>li_AccountID = a_ID a, li_CurrentConcurrency = 0, li_WaitingCount = 0, li_LoadRate = 0\<rparr>)"

lemma snapshot_score:
  assumes "distinct (map a_ID accounts)" "a \<in> set accounts" "pe_userID env \<le> 0"
    "pe_stats env = newOpenAIAccountRuntimeStats"
    "\<not> r_RequireCompact req" "\<not> r_StickyWeighted req" "r_UseUpstreamTokenCost req"
  shows "\<exists>c \<in> set (lp_candidates (buildOpenAIAccountLoadPlan env req accounts loadMap)).
    c_account c = Some a \<and>
    map_option ss_BaseScore (buildOpenAIAccountSchedulerScoreSnapshot env accounts loadMap stickyOn (a_ID a)) = Some (c_score c)"
proof -
  have prio: "EffectivePriorityForUser b (pe_userID env) = sa_Priority b" for b
    using assms(3) by (auto simp: EffectivePriorityForUser_def split: option.split)
  define cand where "cand = (\<lambda>b. \<lparr>c_account = Some b, c_loadInfo = Some (infoOf loadMap b),
    c_loadKnown = (loadMap (a_ID b) \<noteq> None), c_priority = sa_Priority b, c_score = 0, c_errorRate = 0, c_ttft = 0, c_hasTTFT = False\<rparr>)"
  define costs where "costs = (if sw_UpstreamCost (pe_weights env) > 0
    then openAIUpstreamCostFactors (pe_schedulingRate env) (pe_medianRate env) accounts else Map.empty)"
  have pc: "planCandidate env loadMap b = (cand b)\<lparr>c_priority := 0\<rparr>" for b
    by (simp add: planCandidate_def cand_def snapshot_def assms(4) newOpenAIAccountRuntimeStats_def infoOf_def)
  have ne: "accounts \<noteq> []" using assms(2) by auto
  have cands: "lp_candidates (buildOpenAIAccountLoadPlan env req accounts loadMap) =
      map (\<lambda>b. (cand b)\<lparr>c_score := planScore env req costs (map cand accounts) (cand b)\<rparr>) accounts"
    using ne assms(5,7) unfolding buildOpenAIAccountLoadPlan_def Let_def
    by (auto simp: comp_def pc accountOf_def prio costs_def) (simp_all add: cand_def)
  have score: "planScore env req costs (map cand accounts) (cand a) = baseScore (pe_weights env)
      (priorityFactor (minBy sa_Priority (sa_Priority (accounts ! 0)) accounts)
        (maxBy sa_Priority (sa_Priority (accounts ! 0)) accounts) (sa_Priority a))
      (1 - clamp01 (of_int (li_LoadRate (infoOf loadMap a)) / 100))
      (1 - clamp01 (of_int (li_WaitingCount (infoOf loadMap a)) /
        of_int (maxBy (\<lambda>b. li_WaitingCount (infoOf loadMap b)) 1 accounts)))
      1 (1/2)
      (spreadFactor (if sw_Reset (pe_weights env) > 0 then sampleRange (resetRemaining (pe_now env)) accounts else None)
        (resetRemaining (pe_now env) a) 0 1)
      (if sw_QuotaHeadroom (pe_weights env) > 0 then pe_quotaHeadroom env a else 0)
      (case costs (a_ID a) of Some f \<Rightarrow> f | None \<Rightarrow> neutralFactor)"
    using assms(6) ne
    by (simp add: planScore_def Let_def minBy_map maxBy_map sampleRange_map)
       (simp add: cand_def accountOf_def loadFactor_def queueFactor_def loadOf_def ttftSample_def sampleRange_none
          spreadFactor_def clamp01_def)
  have entry: "foldl (\<lambda>m (b, l). m(a_ID b \<mapsto> g b l)) Map.empty (map (\<lambda>b. (b, infoOf loadMap b)) accounts) (a_ID a) =
      Some (g a (infoOf loadMap a))" for g :: "schedAccount \<Rightarrow> accountLoadInfo \<Rightarrow> scoreSnapshot"
    using foldl_lookup [OF assms(1,2), of "\<lambda>b. g b (infoOf loadMap b)"]
    by (simp add: foldl_map del: fun_upd_apply)
  have snap: "map_option ss_BaseScore (buildOpenAIAccountSchedulerScoreSnapshot env accounts loadMap stickyOn (a_ID a)) =
      Some (planScore env req costs (map cand accounts) (cand a))"
    unfolding score buildOpenAIAccountSchedulerScoreSnapshot_def Let_def infoOf_def [symmetric] costs_def [symmetric]
    using ne by (simp only: entry if_False option.map scoreSnapshot.simps maxBy_map prod.case)
  show ?thesis
    unfolding cands snap using assms(2) by (auto simp: cand_def intro!: bexI [of _ a])
qed

end
