(* ===== verification/Outcomes.thy ===== *)
theory Outcomes
  imports Programs
begin

text \<open>
  What holds at the end of every run of a program of \<open>Programs\<close>, whatever the outside world answers to each of
  its statements, as long as every answer satisfies \<open>ok\<close>. This is a weakest precondition: the rules below
  compute it over the structure of the program.
\<close>

primrec always :: "('e \<Rightarrow> bool) \<Rightarrow> ('a \<Rightarrow> 's \<Rightarrow> bool) \<Rightarrow> ('e, 's, 'a) prog \<Rightarrow> 's \<Rightarrow> bool" where
  "always ok Q (Return x) = Q x"
| "always ok Q (Stmt f) = (\<lambda>s. \<forall>e. ok e \<longrightarrow> (case map_prod (always ok Q) id (f e s) of (g, t) \<Rightarrow> g t))"

lemma always_Stmt:
  "always ok Q (Stmt f) s \<longleftrightarrow> (\<forall>e. ok e \<longrightarrow> always ok Q (fst (f e s)) (snd (f e s)))"
  by (auto simp: map_prod_def split_def)

declare always.simps(2) [simp del] always_Stmt [simp]

lemma always_mono:
  "always ok Q p s \<Longrightarrow> (\<And>x t. Q x t \<Longrightarrow> Q' x t) \<Longrightarrow> always ok Q' p s"
  by (induction p arbitrary: s) auto

lemma always_andThen [simp]:
  "always ok Q (andThen p k) s = always ok (\<lambda>x. always ok Q (k x)) p s"
  by (induction p arbitrary: s) simp_all

lemma always_ask [simp]: "always ok Q (ask g) s \<longleftrightarrow> (\<forall>e. ok e \<longrightarrow> Q (g e) s)"
  by (simp add: ask_def)

lemma always_followedBy [simp]:
  "always ok Q (followedBy p q) s = always ok (\<lambda>_. always ok Q q) p s"
  by (simp add: followedBy_def)

lemma always_handle [simp]:
  "always ok Q (handle p h k) s =
     always ok (\<lambda>r. always ok Q (case r of Inl x \<Rightarrow> h x | Inr v \<Rightarrow> k v)) p s"
  by (simp add: handle_def)

lemma always_bind:
  "always ok Q p s \<Longrightarrow> (\<And>x t. Q x t \<Longrightarrow> always ok Q' (k x) t) \<Longrightarrow> always ok Q' (andThen p k) s"
  by (simp add: always_mono)

lemma always_ask_bind: "(\<And>e. ok e \<Longrightarrow> always ok Q (k (g e)) s) \<Longrightarrow> always ok Q (andThen (ask g) k) s"
  by simp

lemma always_conj: "always ok Q p s \<Longrightarrow> always ok Q' p s \<Longrightarrow> always ok (\<lambda>x t. Q x t \<and> Q' x t) p s"
  by (induction p arbitrary: s) auto

text \<open>A run in which the world answers alike all along is one of the runs.\<close>

lemma always_exec: "always ok Q p s \<Longrightarrow> ok e \<Longrightarrow> case exec e p s of (x, t) \<Rightarrow> Q x t"
proof (induction p arbitrary: s)
  case (Stmt f)
  then show ?case by (simp add: exec_Stmt del: exec.simps)
qed simp

end
