(* ===== verification/AccountSelect.thy ===== *)
theory AccountSelect
  imports PlanFacts Outcomes
begin

text \<open>
  Choosing an account for an OpenAI request: \<^verbatim>\<open>defaultOpenAIAccountScheduler.Select\<close> with its three
  layers (the account of the previous response, the account of the session, the load balanced pool),
  from \<^verbatim>\<open>openai_account_scheduler.go\<close>, \<^verbatim>\<open>openai_account_scheduler_upstream_merge.go\<close>,
  \<^verbatim>\<open>openai_gateway_scheduling.go\<close>, \<^verbatim>\<open>openai_sticky_compat.go\<close> and \<^verbatim>\<open>openai_ws_forwarder.go\<close>.

  The selection is a program whose statements ask the outside world, the record \<open>selEnv\<close>: the
  account repository and the scheduler's snapshot of it, the Redis slots, loads and session
  bindings, and the account predicates that are not modelled. Every statement may get a different answer, so
  accounts change, slots fill up and stores fail between any two of them. The state of a selection
  is what it has done so far: the concurrency slots it holds, the number of slots it asked for, and the changes of session bindings it
  has sent.
\<close>

section \<open>The outside world\<close>

text \<open>What Redis answers to a request for a slot; \<^term>\<open>SlotLost\<close> is a slot that was taken although the answer did not arrive.\<close>

datatype slotReply = SlotError | SlotLost | SlotBusy | SlotGranted

record selEnv =
  e_plan :: planEnv
  e_snapshotGet :: "int \<Rightarrow> unit + schedAccount option"
  e_repoGet :: "int \<Rightarrow> unit + schedAccount option"
  e_list :: "bool \<Rightarrow> unit + schedAccount list"
  e_groupRequiresPrivacy :: bool
  e_load :: "(int \<times> int) list \<Rightarrow> unit + (int \<rightharpoonup> accountLoadInfo)"
  e_loadFresh :: "(int \<times> int) list \<Rightarrow> unit + (int \<rightharpoonup> accountLoadInfo)"
  e_slot :: "int \<Rightarrow> int \<Rightarrow> slotReply"
  e_releaseWorks :: bool
  e_waiting :: "int \<Rightarrow> int"
  e_sessionAccount :: "int \<Rightarrow> string \<Rightarrow> unit + int"
  e_responseAccount :: "int \<Rightarrow> string \<Rightarrow> unit + int"
  e_cacheWorks :: bool
  e_tempUnschedulable :: "schedAccount \<Rightarrow> bool"
  e_visible :: "schedAccount \<Rightarrow> bool"
  e_schedulable :: "schedAccount \<Rightarrow> bool"
  e_schedulableForModel :: "schedAccount \<Rightarrow> string \<Rightarrow> bool"
  e_quotaPaused :: "schedAccount \<Rightarrow> bool"
  e_modelSupported :: "schedAccount \<Rightarrow> string \<Rightarrow> bool"
  e_supportsEndpoint :: "schedAccount \<Rightarrow> string \<Rightarrow> bool"
  e_proxyHealthy :: "schedAccount \<Rightarrow> bool"
  e_exitIPStable :: "schedAccount \<Rightarrow> bool"
  e_parentHealthy :: "schedAccount \<Rightarrow> bool"
  e_runtimeBlocked :: "schedAccount \<Rightarrow> string \<Rightarrow> bool"
  e_channelRestricts :: "schedAccount \<Rightarrow> string \<Rightarrow> bool \<Rightarrow> bool"
  e_privacySet :: "schedAccount \<Rightarrow> bool"
  e_subscription :: "schedAccount \<Rightarrow> bool"
  e_transport :: "schedAccount \<Rightarrow> string \<Rightarrow> bool"
  e_wsv2 :: "schedAccount \<Rightarrow> bool"
  e_cleanRelay :: "schedAccount \<Rightarrow> bool"
  e_clearSticky :: "schedAccount \<Rightarrow> string \<Rightarrow> bool"

text \<open>How the service was put together, and its settings.\<close>

record selConfig =
  g_concurrency :: bool
  g_snapshot :: bool
  g_repo :: bool
  g_cache :: bool
  g_simple :: bool
  g_indexedBuckets :: "string list"
  g_readOldSessionKey :: bool
  g_writeOldSessionKey :: bool
  g_legacyHash :: string
  g_stickyTTL :: duration
  g_StickySessionMaxWaiting :: int
  g_StickySessionWaitTimeout :: duration
  g_FallbackWaitTimeout :: duration
  g_FallbackMaxWaiting :: int

datatype cacheWrite =
    SetSessionAccountID int string int duration
  | RefreshSessionTTL int string duration
  | DeleteSessionAccountID int string
  | BindResponseAccount int string int
  | DeleteResponseAccount int string

text \<open>
  A slot: the number of its request identifier, and the account it counts against. Some are held by whoever has the function
  that releases them; the lost ones count as well, until their lifetime in Redis ends, but nobody will release them. Every
  slot that is lost has a call to Redis that failed.
\<close>

record selState =
  z_held :: "(nat \<times> int) list"
  z_lost :: "(nat \<times> int) list"
  z_failed :: nat
  z_next :: nat
  z_probes :: nat
  z_writes :: "cacheWrite list"

datatype selErr = ListFailed | NoAvailableAccounts string | NoAvailableCompactAccounts | AcquireFailed

record waitPlan =
  wp_AccountID :: int
  wp_MaxConcurrency :: int
  wp_Timeout :: duration
  wp_MaxWaiting :: int

text \<open>
  \<^verbatim>\<open>ReleaseFunc\<close> is the slot it gives back; \<^const>\<open>None\<close> is the function that does nothing, or none at all.
\<close>

record selection =
  x_Account :: schedAccount
  x_Acquired :: bool
  x_Release :: "nat option"
  x_WaitPlan :: "waitPlan option"

type_synonym 'a sel = "(selEnv, selState, 'a) prog"

section \<open>Slots\<close>

text \<open>
  \<^verbatim>\<open>OpenAIGatewayService.tryAcquireAccountSlot\<close> on \<^verbatim>\<open>ConcurrencyService.AcquireAccountSlot\<close>: an error, or
  whether the slot was acquired with the slot to release.
\<close>

definition tryAcquireAccountSlot :: "selConfig \<Rightarrow> int \<Rightarrow> int \<Rightarrow> (selErr + (bool \<times> nat option)) sel" where
  "tryAcquireAccountSlot g i maxConcurrency =
     (if \<not> g_concurrency g then Return (Inr (True, None))
      else if maxConcurrency \<le> 0 then Return (Inr (True, None))
      else Stmt (\<lambda>e z0. let z = z0\<lparr>z_probes := Suc (z_probes z0)\<rparr> in
        case e_slot e i maxConcurrency of
          SlotError \<Rightarrow> (Return (Inl AcquireFailed), z\<lparr>z_failed := Suc (z_failed z)\<rparr>)
        | SlotLost \<Rightarrow> (Return (Inl AcquireFailed),
            z\<lparr>z_lost := (z_next z, i) # z_lost z, z_failed := Suc (z_failed z), z_next := Suc (z_next z)\<rparr>)
        | SlotBusy \<Rightarrow> (Return (Inr (False, None)), z)
        | SlotGranted \<Rightarrow> (Return (Inr (True, Some (z_next z))),
            z\<lparr>z_held := (z_next z, i) # z_held z, z_next := Suc (z_next z)\<rparr>)))"

text \<open>A release that fails is only logged: the slot stays taken.\<close>

definition releaseAccountSlot :: "nat option \<Rightarrow> unit sel" where
  "releaseAccountSlot r = (case r of None \<Rightarrow> Return ()
     | Some n \<Rightarrow> Stmt (\<lambda>e z0. let z = z0\<lparr>z_held := filter (\<lambda>h. fst h \<noteq> n) (z_held z0)\<rparr> in
         (Return (), if e_releaseWorks e then z
            else z\<lparr>z_lost := filter (\<lambda>h. fst h = n) (z_held z0) @ z_lost z, z_failed := Suc (z_failed z)\<rparr>)))"

section \<open>Session bindings\<close>

definition derefGroupID :: "int option \<Rightarrow> int" where
  "derefGroupID gid = (case gid of None \<Rightarrow> 0 | Some i \<Rightarrow> i)"

definition openAISessionCacheKey :: "string \<Rightarrow> string" where
  "openAISessionCacheKey sessionHash =
     (let n = TrimSpace sessionHash in if n = [] then [] else ''openai:'' @ n)"

definition openAILegacySessionCacheKey :: "selConfig \<Rightarrow> string \<Rightarrow> string" where
  "openAILegacySessionCacheKey g sessionHash =
     (if g_legacyHash g = [] then []
      else let legacyKey = ''openai:'' @ g_legacyHash g in
        if legacyKey = openAISessionCacheKey sessionHash then [] else legacyKey)"

definition openAIStickyLegacyTTL :: "duration \<Rightarrow> duration" where
  "openAIStickyLegacyTTL ttl =
     (let l = (if ttl \<le> 0 then hour else ttl) in if l > 10 * minute then 10 * minute else l)"

definition getStickySessionAccountID :: "selConfig \<Rightarrow> int option \<Rightarrow> string \<Rightarrow> (unit + int) sel" where
  "getStickySessionAccountID g gid sessionHash =
     (let primaryKey = openAISessionCacheKey sessionHash in
      if \<not> g_cache g \<or> primaryKey = [] then Return (Inr 0)
      else andThen (ask (\<lambda>e. e_sessionAccount e (derefGroupID gid) primaryKey)) (\<lambda>r.
        let found = (case r of Inr i \<Rightarrow> i > 0 | Inl _ \<Rightarrow> False);
            legacyKey = openAILegacySessionCacheKey g sessionHash in
        if found \<or> \<not> g_readOldSessionKey g \<or> legacyKey = [] then Return r
        else andThen (ask (\<lambda>e. e_sessionAccount e (derefGroupID gid) legacyKey)) (\<lambda>l.
          Return (case l of Inr i \<Rightarrow> if i > 0 then Inr i else r | Inl _ \<Rightarrow> r))))"

text \<open>A write to the cache; the result says whether it worked, and an answer may be lost after the fact.\<close>

definition writeCache :: "cacheWrite \<Rightarrow> bool sel" where
  "writeCache w = Stmt (\<lambda>e z. (Return (e_cacheWorks e), z\<lparr>z_writes := z_writes z @ [w]\<rparr>))"

definition setStickySessionAccountID :: "selConfig \<Rightarrow> int option \<Rightarrow> string \<Rightarrow> int \<Rightarrow> duration \<Rightarrow> unit sel" where
  "setStickySessionAccountID g gid sessionHash i ttl =
     (let primaryKey = openAISessionCacheKey sessionHash in
      if \<not> g_cache g \<or> i \<le> 0 \<or> primaryKey = [] then Return ()
      else andThen (writeCache (SetSessionAccountID (derefGroupID gid) primaryKey i ttl)) (\<lambda>works.
        let legacyKey = openAILegacySessionCacheKey g sessionHash in
        if \<not> works \<or> \<not> g_writeOldSessionKey g \<or> legacyKey = [] then Return ()
        else andThen (writeCache (SetSessionAccountID (derefGroupID gid) legacyKey i (openAIStickyLegacyTTL ttl)))
          (\<lambda>_. Return ())))"

definition refreshStickySessionTTL :: "selConfig \<Rightarrow> int option \<Rightarrow> string \<Rightarrow> duration \<Rightarrow> unit sel" where
  "refreshStickySessionTTL g gid sessionHash ttl =
     (let primaryKey = openAISessionCacheKey sessionHash in
      if \<not> g_cache g \<or> primaryKey = [] then Return ()
      else andThen (writeCache (RefreshSessionTTL (derefGroupID gid) primaryKey ttl)) (\<lambda>_.
        let legacyKey = openAILegacySessionCacheKey g sessionHash in
        if \<not> g_readOldSessionKey g \<and> \<not> g_writeOldSessionKey g \<or> legacyKey = [] then Return ()
        else andThen (writeCache (RefreshSessionTTL (derefGroupID gid) legacyKey (openAIStickyLegacyTTL ttl)))
          (\<lambda>_. Return ())))"

definition deleteStickySessionAccountID :: "selConfig \<Rightarrow> int option \<Rightarrow> string \<Rightarrow> unit sel" where
  "deleteStickySessionAccountID g gid sessionHash =
     (let primaryKey = openAISessionCacheKey sessionHash in
      if \<not> g_cache g \<or> primaryKey = [] then Return ()
      else andThen (writeCache (DeleteSessionAccountID (derefGroupID gid) primaryKey)) (\<lambda>_.
        let legacyKey = openAILegacySessionCacheKey g sessionHash in
        if \<not> g_readOldSessionKey g \<and> \<not> g_writeOldSessionKey g \<or> legacyKey = [] then Return ()
        else andThen (writeCache (DeleteSessionAccountID (derefGroupID gid) legacyKey)) (\<lambda>_. Return ())))"

definition BindStickySession :: "selConfig \<Rightarrow> int option \<Rightarrow> string \<Rightarrow> int \<Rightarrow> unit sel" where
  "BindStickySession g gid sessionHash i =
     (if sessionHash = [] \<or> i \<le> 0 then Return ()
      else setStickySessionAccountID g gid sessionHash i (g_stickyTTL g))"

section \<open>Which accounts may serve a request\<close>

definition normalizeOpenAICompatiblePlatform :: "string \<Rightarrow> string" where
  "normalizeOpenAICompatiblePlatform platform = (if platform = ''grok'' then ''grok'' else ''openai'')"

definition SupportsOpenAIImageCapability :: "schedAccount \<Rightarrow> string \<Rightarrow> bool" where
  "SupportsOpenAIImageCapability a capability \<longleftrightarrow> IsOpenAI a \<and>
     (capability = ''images-basic'' \<or> capability = ''images-native'' \<longrightarrow> a_Type a = ''oauth'' \<or> a_Type a = ''apikey'')"

definition accountSupportsOpenAICapabilities :: "selEnv \<Rightarrow> schedAccount \<Rightarrow> string \<Rightarrow> string \<Rightarrow> bool" where
  "accountSupportsOpenAICapabilities e a requiredCapability requiredImageCapability \<longleftrightarrow>
     e_supportsEndpoint e a requiredCapability \<and> SupportsOpenAIImageCapability a requiredImageCapability"

definition isOpenAICompatibleAccountEligibleForRequest ::
  "selEnv \<Rightarrow> schedAccount \<Rightarrow> string \<Rightarrow> string \<Rightarrow> bool \<Rightarrow> string \<Rightarrow> bool" where
  "isOpenAICompatibleAccountEligibleForRequest e a platform0 model requireCompact requiredCapability =
     (let platform = normalizeOpenAICompatiblePlatform platform0 in
      if a_Platform a \<noteq> platform \<or> \<not> (a_Platform a = ''openai'' \<or> a_Platform a = ''grok'') \<or>
         \<not> e_schedulableForModel e a model then False
      else if e_quotaPaused e a then False
      else if model \<noteq> [] \<and> \<not> e_modelSupported e a model then False
      else if \<not> e_supportsEndpoint e a requiredCapability then False
      else if requireCompact \<and> (\<not> IsOpenAI a \<or> openAICompactSupportTier (Some a) = 0) then False
      else True)"

definition openAIStickyAccountMatchesGroup :: "schedAccount \<Rightarrow> int option \<Rightarrow> bool" where
  "openAIStickyAccountMatchesGroup a gid = (case gid of
       None \<Rightarrow> sa_AccountGroups a = [] \<and> sa_GroupIDs a = []
     | Some i \<Rightarrow> i \<in> set (sa_GroupIDs a) \<or> i \<in> set (sa_AccountGroups a))"

definition openAIAccountMatchesSchedulingGroup :: "selConfig \<Rightarrow> schedAccount \<Rightarrow> int option \<Rightarrow> bool" where
  "openAIAccountMatchesSchedulingGroup g a gid = (if g_simple g then True else openAIStickyAccountMatchesGroup a gid)"

definition isOpenAIAccountInRequestGroup :: "selConfig \<Rightarrow> schedAccount \<Rightarrow> int option \<Rightarrow> bool" where
  "isOpenAIAccountInRequestGroup g a gid = (if g_simple g then True else (case gid of
       None \<Rightarrow> sa_AccountGroups a = [] \<and> sa_GroupIDs a = []
     | Some i \<Rightarrow> i \<in> set (sa_AccountGroups a) \<or> i \<in> set (sa_GroupIDs a)))"

definition getSchedulableAccount :: "selConfig \<Rightarrow> selEnv \<Rightarrow> int \<Rightarrow> schedAccount option" where
  "getSchedulableAccount g e i =
     (case (if g_snapshot g then e_snapshotGet e i else e_repoGet e i) of
        Inl _ \<Rightarrow> None
      | Inr None \<Rightarrow> None
      | Inr (Some a) \<Rightarrow> if e_visible e a then Some a else None)"

definition resolveFreshSchedulableOpenAIAccount ::
  "selConfig \<Rightarrow> selEnv \<Rightarrow> schedAccount \<Rightarrow> string \<Rightarrow> bool \<Rightarrow> string \<Rightarrow> string \<Rightarrow> schedAccount option" where
  "resolveFreshSchedulableOpenAIAccount g e a model requireCompact requiredCapability platform =
     (if e_tempUnschedulable e a then None
      else case (if g_snapshot g then getSchedulableAccount g e (a_ID a) else Some a) of
        None \<Rightarrow> None
      | Some fresh \<Rightarrow>
          if e_tempUnschedulable e fresh then None
          else if \<not> isOpenAICompatibleAccountEligibleForRequest e fresh platform model requireCompact requiredCapability then None
          else if \<not> e_proxyHealthy e fresh then None
          else if \<not> e_parentHealthy e fresh then None
          else if e_runtimeBlocked e fresh model then None
          else if \<not> e_exitIPStable e fresh then None
          else Some fresh)"

definition recheckSelectedOpenAIAccountFromDB ::
  "selConfig \<Rightarrow> selEnv \<Rightarrow> schedAccount \<Rightarrow> int option \<Rightarrow> string \<Rightarrow> string \<Rightarrow> bool \<Rightarrow> string \<Rightarrow> schedAccount option" where
  "recheckSelectedOpenAIAccountFromDB g e a gid platform model requireCompact requiredCapability =
     (if e_tempUnschedulable e a then None
      else if \<not> g_snapshot g \<or> \<not> g_repo g then
        (if \<not> isOpenAICompatibleAccountEligibleForRequest e a platform model requireCompact requiredCapability then None
         else if \<not> e_parentHealthy e a then None
         else if \<not> e_proxyHealthy e a then None
         else if \<not> e_exitIPStable e a then None
         else Some a)
      else case e_repoGet e (a_ID a) of
        Inl _ \<Rightarrow> None
      | Inr None \<Rightarrow> None
      | Inr (Some latest) \<Rightarrow>
          if e_tempUnschedulable e latest then None
          else if \<not> openAIAccountMatchesSchedulingGroup g latest gid then None
          else if \<not> isOpenAICompatibleAccountEligibleForRequest e latest platform model requireCompact requiredCapability then None
          else if \<not> e_proxyHealthy e latest then None
          else if \<not> e_parentHealthy e latest then None
          else if e_runtimeBlocked e latest model then None
          else if \<not> e_exitIPStable e latest then None
          else Some latest)"

definition isAccountTransportCompatible :: "selEnv \<Rightarrow> schedAccount \<Rightarrow> string \<Rightarrow> bool" where
  "isAccountTransportCompatible e a requiredTransport =
     (if requiredTransport = [] \<or> requiredTransport = ''http_sse'' then True else e_transport e a requiredTransport)"

definition isAccountRequestCompatible :: "selEnv \<Rightarrow> schedAccount \<Rightarrow> scheduleRequest \<Rightarrow> bool" where
  "isAccountRequestCompatible e a req =
     (if e_runtimeBlocked e a (r_RequestedModel req) then False
      else if e_quotaPaused e a then False
      else if \<not> e_parentHealthy e a then False
      else if r_RequestedModel req \<noteq> [] \<and> \<not> e_modelSupported e a (r_RequestedModel req) then False
      else if r_GroupID req \<noteq> None \<and> e_channelRestricts e a (r_RequestedModel req) (r_RequireCompact req) then False
      else accountSupportsOpenAICapabilities e a (r_RequiredCapability req) (r_RequiredImageCapability req))"

definition shouldClearOpenAISessionStickyForRequest :: "selEnv \<Rightarrow> schedAccount \<Rightarrow> string \<Rightarrow> bool \<Rightarrow> string \<Rightarrow> bool" where
  "shouldClearOpenAISessionStickyForRequest e a model requireCompact requiredCapability =
     (if e_clearSticky e a model \<or> \<not> IsOpenAI a then True
      else if model \<noteq> [] \<and> \<not> e_modelSupported e a model then True
      else if \<not> e_supportsEndpoint e a requiredCapability then True
      else requireCompact \<and> openAICompactSupportTier (Some a) = 0)"

definition shouldClearSessionStickyForRequest :: "selEnv \<Rightarrow> schedAccount \<Rightarrow> scheduleRequest \<Rightarrow> bool" where
  "shouldClearSessionStickyForRequest e a req \<longleftrightarrow>
     shouldClearOpenAISessionStickyForRequest e a (r_RequestedModel req) (r_RequireCompact req) (r_RequiredCapability req) \<or>
     \<not> SupportsOpenAIImageCapability a (r_RequiredImageCapability req)"

definition freshFor :: "selConfig \<Rightarrow> scheduleRequest \<Rightarrow> schedAccount \<Rightarrow> selEnv \<Rightarrow> schedAccount option" where
  "freshFor g req a e =
     resolveFreshSchedulableOpenAIAccount g e a (r_RequestedModel req) False (r_RequiredCapability req) (r_Platform req)"

definition recheckFor :: "selConfig \<Rightarrow> scheduleRequest \<Rightarrow> bool \<Rightarrow> schedAccount \<Rightarrow> selEnv \<Rightarrow> schedAccount option" where
  "recheckFor g req requireCompact a e =
     recheckSelectedOpenAIAccountFromDB g e a (r_GroupID req) (r_Platform req) (r_RequestedModel req) requireCompact
       (r_RequiredCapability req)"

text \<open>\<^verbatim>\<open>fresh == nil || !isAccountTransportCompatible(...) || !isAccountRequestCompatible(...)\<close>, the other way round.\<close>

definition ifCompatible :: "scheduleRequest \<Rightarrow> selEnv \<Rightarrow> schedAccount option \<Rightarrow> schedAccount option" where
  "ifCompatible req e fresh = (case fresh of None \<Rightarrow> None
     | Some f \<Rightarrow> if isAccountTransportCompatible e f (r_RequiredTransport req) \<and> isAccountRequestCompatible e f req
                 then Some f else None)"

definition noAvailableOpenAISelectionError :: "string \<Rightarrow> bool \<Rightarrow> selErr" where
  "noAvailableOpenAISelectionError model compactBlocked =
     (if compactBlocked then NoAvailableCompactAccounts else NoAvailableAccounts model)"

section \<open>The load balanced pool\<close>

definition acquiredSelection :: "schedAccount \<Rightarrow> nat option \<Rightarrow> selection" where
  "acquiredSelection a slot = \<lparr>x_Account = a, x_Acquired = True, x_Release = slot, x_WaitPlan = None\<rparr>"

definition waitingSelection :: "schedAccount \<Rightarrow> int \<Rightarrow> duration \<Rightarrow> int \<Rightarrow> selection" where
  "waitingSelection a i timeout maxWaiting = \<lparr>x_Account = a, x_Acquired = False, x_Release = None,
     x_WaitPlan = Some \<lparr>wp_AccountID = i, wp_MaxConcurrency = a_Concurrency a, wp_Timeout = timeout, wp_MaxWaiting = maxWaiting\<rparr>\<rparr>"

definition tryAcquireOpenAIAccountSlot ::
  "selConfig \<Rightarrow> int \<Rightarrow> int \<Rightarrow> probeBudget \<Rightarrow> ((selErr + (bool \<times> nat option)) option \<times> probeBudget) sel" where
  "tryAcquireOpenAIAccountSlot g i maxConcurrency b =
     (case (if g_concurrency g \<and> maxConcurrency > 0 then recordAcquire i b else (True, b)) of (allowed, b1) \<Rightarrow>
        if \<not> allowed then Return (None, b1)
        else andThen (tryAcquireAccountSlot g i maxConcurrency) (\<lambda>r. Return (Some r, b1)))"

definition consumeOpenAISelectionDBRecheck :: "selConfig \<Rightarrow> probeBudget \<Rightarrow> bool \<times> probeBudget" where
  "consumeOpenAISelectionDBRecheck g b = (if \<not> g_snapshot g \<or> \<not> g_repo g then (True, b) else recordRecheck b)"

definition knownFull :: "candidate \<Rightarrow> schedAccount \<Rightarrow> bool" where
  "knownFull c a \<longleftrightarrow> c_loadKnown c \<and> a_Concurrency a > 0 \<and>
     (case c_loadInfo c of None \<Rightarrow> False | Some l \<Rightarrow> li_CurrentConcurrency l \<ge> a_Concurrency a)"

definition bindSession :: "selConfig \<Rightarrow> scheduleRequest \<Rightarrow> int \<Rightarrow> unit sel" where
  "bindSession g req i =
     (if r_SessionHash req \<noteq> [] \<and> \<not> r_PreserveStickyBinding req
      then BindStickySession g (r_GroupID req) (r_SessionHash req) i else Return ())"

type_synonym walkResult = "(selErr + selection option) \<times> bool \<times> probeBudget"

definition keepAccount ::
  "selConfig \<Rightarrow> scheduleRequest \<Rightarrow> schedAccount \<Rightarrow> nat option \<Rightarrow> bool \<Rightarrow> probeBudget \<Rightarrow> walkResult sel" where
  "keepAccount g req f slot compactBlocked b =
     andThen (bindSession g req (a_ID f)) (\<lambda>_. Return (Inr (Some (acquiredSelection f slot)), compactBlocked, b))"

text \<open>
  The body of the loop over the order. \<open>next\<close> is the rest of the loop, which \<^verbatim>\<open>continue\<close> goes on with: when the
  limit of the account has changed, its slot is given back and asked for again under the new limit; an account whose slot is
  held is read again and confirmed; a candidate is skipped, or its slot is asked for.
\<close>

type_synonym walk = "probeBudget \<Rightarrow> bool \<Rightarrow> walkResult sel"

definition reacquire :: "selConfig \<Rightarrow> scheduleRequest \<Rightarrow> schedAccount \<Rightarrow> probeBudget \<Rightarrow> bool \<Rightarrow> walk \<Rightarrow> walkResult sel" where
  "reacquire g req f b compactBlocked next =
     andThen (tryAcquireOpenAIAccountSlot g (a_ID f) (a_Concurrency f) b) (\<lambda>(again, b1).
       case again of
         None \<Rightarrow> next b1 compactBlocked
       | Some (Inl err) \<Rightarrow> Return (Inl err, compactBlocked, b1)
       | Some (Inr (acquired, slot)) \<Rightarrow>
           if \<not> acquired then next b1 compactBlocked else keepAccount g req f slot compactBlocked b1)"

definition confirmAccount ::
  "selConfig \<Rightarrow> scheduleRequest \<Rightarrow> schedAccount \<Rightarrow> nat option \<Rightarrow> schedAccount \<Rightarrow> probeBudget \<Rightarrow> bool \<Rightarrow> walk \<Rightarrow> walkResult sel" where
  "confirmAccount g req a slot f1 b compactBlocked next =
     (case consumeOpenAISelectionDBRecheck g b of (allowed, b1) \<Rightarrow>
        if \<not> allowed then andThen (releaseAccountSlot slot) (\<lambda>_. Return (Inr None, compactBlocked, b1))
        else andThen (ask (\<lambda>e. ifCompatible req e (recheckFor g req False f1 e))) (\<lambda>fresh2.
          case fresh2 of
            None \<Rightarrow> andThen (releaseAccountSlot slot) (\<lambda>_. next b1 compactBlocked)
          | Some f \<Rightarrow>
              if r_RequireCompact req \<and> openAICompactSupportTier (Some f) = 0
              then andThen (releaseAccountSlot slot) (\<lambda>_. next b1 True)
              else if a_Concurrency f \<noteq> a_Concurrency a
              then andThen (releaseAccountSlot slot) (\<lambda>_. reacquire g req f b1 compactBlocked next)
              else keepAccount g req f slot compactBlocked b1))"

definition visitCandidate :: "selConfig \<Rightarrow> scheduleRequest \<Rightarrow> candidate \<Rightarrow> probeBudget \<Rightarrow> bool \<Rightarrow> walk \<Rightarrow> walkResult sel" where
  "visitCandidate g req c b compactBlocked next =
     (case c_account c of
        None \<Rightarrow> next b compactBlocked
      | Some a \<Rightarrow>
          if knownFull c a then next b compactBlocked
          else andThen (tryAcquireOpenAIAccountSlot g (a_ID a) (a_Concurrency a) b) (\<lambda>(attempt, b1).
            case attempt of
              None \<Rightarrow> Return (Inr None, compactBlocked, b1)
            | Some (Inl err) \<Rightarrow> Return (Inl err, compactBlocked, b1)
            | Some (Inr (acquired, slot)) \<Rightarrow>
                if \<not> acquired then next b1 compactBlocked
                else andThen (ask (\<lambda>e. ifCompatible req e (freshFor g req a e))) (\<lambda>fresh1.
                  case fresh1 of
                    None \<Rightarrow> andThen (releaseAccountSlot slot) (\<lambda>_. next b1 compactBlocked)
                  | Some f1 \<Rightarrow> confirmAccount g req a slot f1 b1 compactBlocked next)))"

primrec tryAcquireOpenAISelectionOrderWithBudget :: "selConfig \<Rightarrow> scheduleRequest \<Rightarrow> candidate list \<Rightarrow> walk" where
  "tryAcquireOpenAISelectionOrderWithBudget g req [] = (\<lambda>b compactBlocked. Return (Inr None, compactBlocked, b))"
| "tryAcquireOpenAISelectionOrderWithBudget g req (c # cs) = (\<lambda>b compactBlocked.
     visitCandidate g req c b compactBlocked (tryAcquireOpenAISelectionOrderWithBudget g req cs))"

record loadAttempt =
  at_result :: "selection option"
  at_selectionOrder :: "candidate list"
  at_candidateCount :: int
  at_topK :: int
  at_compactBlocked :: bool
  at_noCompactCandidates :: bool
  at_err :: "selErr option"

definition planFor ::
  "selConfig \<Rightarrow> scheduleRequest \<Rightarrow> schedAccount list \<Rightarrow> (int \<rightharpoonup> accountLoadInfo) \<Rightarrow> (loadPlan \<times> candidate list) sel" where
  "planFor g req filtered loadMap =
     andThen (ask (\<lambda>e. buildOpenAIAccountLoadPlan ((e_plan e)\<lparr>pe_hasSnapshot := g_snapshot g\<rparr>) req filtered loadMap))
       (\<lambda>plan. andThen (ask (\<lambda>e. pe_clock (e_plan e))) (\<lambda>clk.
         Return (plan, buildOpenAIRuntimeSelectionOrder clk req plan)))"

definition buildOpenAIAccountLoadRequest :: "schedAccount list \<Rightarrow> (int \<times> int) list" where
  "buildOpenAIAccountLoadRequest accounts = map (\<lambda>a. (a_ID a, EffectiveLoadFactor (account.truncate a))) accounts"

definition limitIfExpanded :: "scheduleRequest \<Rightarrow> loadPlan \<Rightarrow> probeBudget \<Rightarrow> probeBudget" where
  "limitIfExpanded req plan b = (if openAICostOverflowExpanded req plan then enableLimit b else b)"

text \<open>The second half: a fresh reading of the loads when the first order gave nothing.\<close>

definition retryWithFreshLoads ::
  "selConfig \<Rightarrow> scheduleRequest \<Rightarrow> schedAccount list \<Rightarrow> loadAttempt \<Rightarrow> probeBudget \<Rightarrow> (loadAttempt \<times> probeBudget) sel" where
  "retryWithFreshLoads g req filtered attempt b =
     (if \<not> g_concurrency g \<or> acquireExhausted b then Return (attempt, b)
      else andThen (ask (\<lambda>e. e_loadFresh e (buildOpenAIAccountLoadRequest filtered))) (\<lambda>loads.
        case loads of
          Inl _ \<Rightarrow> Return (attempt, b)
        | Inr freshLoadMap \<Rightarrow> andThen (planFor g req filtered freshLoadMap) (\<lambda>(freshPlan, freshOrder).
            let b1 = limitIfExpanded req freshPlan b in
            if freshOrder = [] then Return (attempt, b1)
            else andThen (tryAcquireOpenAISelectionOrderWithBudget g req freshOrder b1 False) (\<lambda>(r, blocked, b2).
              case r of
                Inl err \<Rightarrow> Return (attempt\<lparr>at_err := Some err\<rparr>, b2)
              | Inr res \<Rightarrow> Return (attempt\<lparr>at_compactBlocked := at_compactBlocked attempt \<or> blocked,
                  at_selectionOrder := freshOrder, at_candidateCount := lp_candidateCount freshPlan,
                  at_topK := lp_topK freshPlan, at_result := res\<rparr>, b2)))))"

definition trySelectByLoadBalancePool ::
  "selConfig \<Rightarrow> scheduleRequest \<Rightarrow> schedAccount list \<Rightarrow> (int \<rightharpoonup> accountLoadInfo) \<Rightarrow> probeBudget \<Rightarrow> (loadAttempt \<times> probeBudget) sel" where
  "trySelectByLoadBalancePool g req filtered loadMap b =
     andThen (planFor g req filtered loadMap) (\<lambda>(plan, runtimeOrder).
       let b1 = limitIfExpanded req plan b;
           attempt = \<lparr>at_result = None, at_selectionOrder = runtimeOrder, at_candidateCount = lp_candidateCount plan,
                      at_topK = lp_topK plan, at_compactBlocked = False, at_noCompactCandidates = False, at_err = None\<rparr> in
       if r_RequireCompact req \<and> lp_candidates plan = [] \<and> lp_staleSnapshotCompactRetry plan = []
       then Return (attempt\<lparr>at_noCompactCandidates := True, at_err := Some NoAvailableCompactAccounts\<rparr>, b1)
       else if r_RequireCompact req \<and> runtimeOrder = [] \<and> \<not> g_snapshot g
       then Return (attempt\<lparr>at_noCompactCandidates := True, at_err := Some NoAvailableCompactAccounts\<rparr>, b1)
       else if runtimeOrder = []
       then Return (attempt\<lparr>at_compactBlocked := r_RequireCompact req \<and> lp_allCandidates plan \<noteq> []\<rparr>, b1)
       else andThen (tryAcquireOpenAISelectionOrderWithBudget g req runtimeOrder b1 False) (\<lambda>(r, blocked, b2).
         let attempt1 = attempt\<lparr>at_compactBlocked := blocked\<rparr> in
         case r of
           Inl err \<Rightarrow> Return (attempt1\<lparr>at_err := Some err\<rparr>, b2)
         | Inr (Some res) \<Rightarrow> Return (attempt1\<lparr>at_result := Some res\<rparr>, b2)
         | Inr None \<Rightarrow> retryWithFreshLoads g req filtered attempt1 b2))"

section \<open>When no slot was free\<close>

text \<open>The body of the loop over the sticky accounts; \<open>next\<close> is the rest of the loop.\<close>

definition stickyAcquire ::
  "selConfig \<Rightarrow> scheduleRequest \<Rightarrow> schedAccount \<Rightarrow> (selErr + selection option) sel \<Rightarrow> (selErr + selection option) sel" where
  "stickyAcquire g req a next =
     andThen (tryAcquireAccountSlot g (a_ID a) (a_Concurrency a)) (\<lambda>r.
       case r of
         Inl err \<Rightarrow> Return (Inl err)
       | Inr (acquired, slot) \<Rightarrow>
           if acquired
           then andThen (bindSession g req (a_ID a)) (\<lambda>_. Return (Inr (Some (acquiredSelection a slot))))
           else if g_concurrency g
           then Return (Inr (Some (waitingSelection a (a_ID a) (g_StickySessionWaitTimeout g) (g_StickySessionMaxWaiting g))))
           else next)"

definition stickyConfirm ::
  "selConfig \<Rightarrow> scheduleRequest \<Rightarrow> int \<Rightarrow> schedAccount \<Rightarrow> (selErr + selection option) sel \<Rightarrow> (selErr + selection option) sel" where
  "stickyConfirm g req i a0 next =
     andThen (ask (\<lambda>e. case recheckFor g req (r_RequireCompact req) a0 e of None \<Rightarrow> None
         | Some a \<Rightarrow> if isOpenAIAccountInRequestGroup g a (r_GroupID req) then Some a else None)) (\<lambda>checked.
       case checked of
         None \<Rightarrow> andThen (if i = r_StickyAccountID req \<and> TrimSpace (r_SessionHash req) \<noteq> []
                         then deleteStickySessionAccountID g (r_GroupID req) (r_SessionHash req) else Return ())
                  (\<lambda>_. next)
       | Some a \<Rightarrow> andThen (ask (\<lambda>e. isAccountRequestCompatible e a req \<and>
               isAccountTransportCompatible e a (r_RequiredTransport req))) (\<lambda>suitable.
           if \<not> suitable then next
           else if r_RequireCompact req \<and> openAICompactSupportTier (Some a) = 0 then next
           else stickyAcquire g req a next))"

primrec stickyFallbacks :: "selConfig \<Rightarrow> scheduleRequest \<Rightarrow> int list \<Rightarrow> (selErr + selection option) sel" where
  "stickyFallbacks g req [] = Return (Inr None)"
| "stickyFallbacks g req (i # ids) =
     (if i \<le> 0 \<or> i \<in> set (r_ExcludedIDs req) then stickyFallbacks g req ids
      else andThen (ask (\<lambda>e. case getSchedulableAccount g e i of None \<Rightarrow> None
             | Some a \<Rightarrow> if isAccountRequestCompatible e a req \<and> isAccountTransportCompatible e a (r_RequiredTransport req)
                         then Some a else None)) (\<lambda>found.
        case found of
          None \<Rightarrow> stickyFallbacks g req ids
        | Some a0 \<Rightarrow> stickyConfirm g req i a0 (stickyFallbacks g req ids)))"

definition tryFallbackToWeightedSticky :: "selConfig \<Rightarrow> scheduleRequest \<Rightarrow> (selErr + selection option) sel" where
  "tryFallbackToWeightedSticky g req =
     (if \<not> r_StickyWeighted req then Return (Inr None)
      else stickyFallbacks g req [r_StickyPreviousAccountID req, r_StickyAccountID req])"

text \<open>The nested loops over passes and candidates as one list of visits.\<close>

definition fallbackVisits :: "probeBudget \<Rightarrow> candidate list \<Rightarrow> (nat \<times> candidate) list" where
  "fallbackVisits b order = List.product [0..<(if pb_limited b then 4 else 1)] order"

definition skipVisit :: "probeBudget \<Rightarrow> nat \<Rightarrow> candidate \<Rightarrow> schedAccount \<Rightarrow> bool" where
  "skipVisit b pass c a \<longleftrightarrow> pb_limited b \<and>
     (wasAttempted b (a_ID a) \<noteq> (pass = 1 \<or> pass = 3) \<or> knownFull c a \<noteq> (pass \<ge> 2))"

primrec waitForCandidate ::
  "selConfig \<Rightarrow> scheduleRequest \<Rightarrow> (nat \<times> candidate) list \<Rightarrow> probeBudget \<Rightarrow> bool \<Rightarrow> ((selErr + selection) \<times> probeBudget) sel" where
  "waitForCandidate g req [] = (\<lambda>b compactBlocked.
     Return (Inl (noAvailableOpenAISelectionError (r_RequestedModel req) compactBlocked), b))"
| "waitForCandidate g req (v # vs) = (\<lambda>b compactBlocked.
     case c_account (snd v) of
       None \<Rightarrow> waitForCandidate g req vs b compactBlocked
     | Some a \<Rightarrow>
         if skipVisit b (fst v) (snd v) a then waitForCandidate g req vs b compactBlocked
         else andThen (ask (\<lambda>e. ifCompatible req e (freshFor g req a e))) (\<lambda>fresh1.
           case fresh1 of
             None \<Rightarrow> waitForCandidate g req vs b compactBlocked
           | Some f1 \<Rightarrow>
               (case consumeOpenAISelectionDBRecheck g b of (allowed, b1) \<Rightarrow>
                  if \<not> allowed then Return (Inl (noAvailableOpenAISelectionError (r_RequestedModel req) compactBlocked), b1)
                  else andThen (ask (\<lambda>e. ifCompatible req e (recheckFor g req False f1 e))) (\<lambda>fresh2.
                    case fresh2 of
                      None \<Rightarrow> waitForCandidate g req vs b1 compactBlocked
                    | Some f \<Rightarrow>
                        if r_RequireCompact req \<and> openAICompactSupportTier (Some f) = 0
                        then waitForCandidate g req vs b1 True
                        else Return (Inr (waitingSelection f (a_ID f) (g_FallbackWaitTimeout g) (g_FallbackMaxWaiting g)), b1)))))"

definition finishLoadBalanceSelectionFallback ::
  "selConfig \<Rightarrow> scheduleRequest \<Rightarrow> loadAttempt \<Rightarrow> probeBudget \<Rightarrow> ((selErr + selection) \<times> probeBudget) sel" where
  "finishLoadBalanceSelectionFallback g req attempt b =
     (if at_selectionOrder attempt = []
      then Return (Inl (noAvailableOpenAISelectionError (r_RequestedModel req) (at_compactBlocked attempt)), b)
      else andThen (tryFallbackToWeightedSticky g req) (\<lambda>sticky.
        case sticky of
          Inl err \<Rightarrow> Return (Inl err, b)
        | Inr (Some sel) \<Rightarrow> Return (Inr sel, b)
        | Inr None \<Rightarrow> waitForCandidate g req (fallbackVisits b (at_selectionOrder attempt)) b (at_compactBlocked attempt)))"

section \<open>Load balancing\<close>

record lbResult =
  lb_result :: "selErr + selection"
  lb_candidateCount :: int
  lb_topK :: int

definition schedulerFilter :: "selEnv \<Rightarrow> scheduleRequest \<Rightarrow> schedAccount list \<Rightarrow> schedAccount list" where
  "schedulerFilter e req accounts =
     filter (\<lambda>a. a_ID a \<notin> set (r_ExcludedIDs req) \<and> e_schedulable e a \<and> IsOpenAI a \<and> e_proxyHealthy e a \<and>
       (e_groupRequiresPrivacy e \<longrightarrow> e_privacySet e a) \<and> isAccountRequestCompatible e a req \<and>
       isAccountTransportCompatible e a (r_RequiredTransport req)) accounts"

definition shouldRetryOpenAISchedulerWithoutCandidateIndex :: "selConfig \<Rightarrow> int option \<Rightarrow> bool" where
  "shouldRetryOpenAISchedulerWithoutCandidateIndex g gid \<longleftrightarrow> g_snapshot g \<and>
     (let bucketGroup = (case gid of Some i \<Rightarrow> if i > 0 then i else 0 | None \<Rightarrow> 0)
      in (Itoa bucketGroup @ '':openai:single'') \<in> set (g_indexedBuckets g))"

text \<open>Listing and filtering; an empty filtered list is listed again past the candidate index.\<close>

definition listCandidates :: "selConfig \<Rightarrow> scheduleRequest \<Rightarrow> (selErr + schedAccount list) sel" where
  "listCandidates g req =
     andThen (ask (\<lambda>e. e_list e False)) (\<lambda>r.
       case r of
         Inl _ \<Rightarrow> Return (Inl ListFailed)
       | Inr accounts \<Rightarrow>
           if accounts = [] then Return (Inl (noAvailableOpenAISelectionError (r_RequestedModel req) False))
           else andThen (ask (\<lambda>e. schedulerFilter e req accounts)) (\<lambda>filtered.
             if filtered = [] \<and> shouldRetryOpenAISchedulerWithoutCandidateIndex g (r_GroupID req)
             then andThen (ask (\<lambda>e. e_list e True)) (\<lambda>r2.
               case r2 of
                 Inl _ \<Rightarrow> Return (Inl ListFailed)
               | Inr accounts2 \<Rightarrow> andThen (ask (\<lambda>e. schedulerFilter e req accounts2)) (\<lambda>filtered2.
                   Return (if filtered2 = [] then Inl (noAvailableOpenAISelectionError (r_RequestedModel req) False)
                           else Inr filtered2)))
             else Return (if filtered = [] then Inl (noAvailableOpenAISelectionError (r_RequestedModel req) False)
                          else Inr filtered)))"

definition lbOf :: "loadAttempt \<Rightarrow> (selErr + selection) \<Rightarrow> lbResult" where
  "lbOf attempt r = \<lparr>lb_result = r, lb_candidateCount = at_candidateCount attempt, lb_topK = at_topK attempt\<rparr>"

definition finishFallback :: "selConfig \<Rightarrow> scheduleRequest \<Rightarrow> loadAttempt \<Rightarrow> probeBudget \<Rightarrow> (lbResult \<times> probeBudget) sel" where
  "finishFallback g req attempt b =
     andThen (finishLoadBalanceSelectionFallback g req attempt b) (\<lambda>(r, b1). Return (lbOf attempt r, b1))"

definition selectFromPool :: "selConfig \<Rightarrow> scheduleRequest \<Rightarrow> schedAccount list \<Rightarrow> (int \<rightharpoonup> accountLoadInfo) \<Rightarrow> lbResult sel" where
  "selectFromPool g req filtered loadMap =
     andThen (trySelectByLoadBalancePool g req filtered loadMap newOpenAISelectionProbeBudget) (\<lambda>(attempt, b).
       case (at_err attempt, at_result attempt) of
         (Some err, _) \<Rightarrow> Return (lbOf attempt (Inl err))
       | (None, Some sel) \<Rightarrow> Return (lbOf attempt (Inr sel))
       | (None, None) \<Rightarrow> andThen (finishFallback g req attempt b) (\<lambda>(r, _). Return r))"

text \<open>Subscription accounts first; then the others; then a place in the queue of either pool.\<close>

definition selectBothPools ::
  "selConfig \<Rightarrow> scheduleRequest \<Rightarrow> schedAccount list \<Rightarrow> schedAccount list \<Rightarrow> (int \<rightharpoonup> accountLoadInfo) \<Rightarrow> lbResult sel" where
  "selectBothPools g req subscriptionAccounts regularAccounts loadMap =
     andThen (trySelectByLoadBalancePool g req subscriptionAccounts loadMap newOpenAISelectionProbeBudget) (\<lambda>(sub, b).
       if at_err sub \<noteq> None \<and> (\<not> at_noCompactCandidates sub \<or> regularAccounts = [])
       then Return (lbOf sub (Inl (the (at_err sub))))
       else case at_result sub of
         Some sel \<Rightarrow> Return (lbOf sub (Inr sel))
       | None \<Rightarrow>
           if regularAccounts = [] then andThen (finishFallback g req sub b) (\<lambda>(r, _). Return r)
           else andThen (trySelectByLoadBalancePool g req regularAccounts loadMap b) (\<lambda>(reg, b1).
             if at_err reg \<noteq> None \<and> \<not> at_noCompactCandidates reg
             then Return (lbOf reg (Inl (the (at_err reg))))
             else case at_result reg of
               Some sel \<Rightarrow> Return (lbOf reg (Inr sel))
             | None \<Rightarrow>
                 andThen (case at_err reg of
                     Some err \<Rightarrow> Return (lbOf reg (Inl err), b1)
                   | None \<Rightarrow> finishFallback g req reg b1) (\<lambda>(r, b2).
                   case lb_result r of
                     Inr sel \<Rightarrow> Return r
                   | Inl err \<Rightarrow> andThen (finishFallback g req sub b2) (\<lambda>(r2, _).
                       case lb_result r2 of Inr sel \<Rightarrow> Return r2 | Inl _ \<Rightarrow> Return r))))"

definition selectByLoadBalance :: "selConfig \<Rightarrow> scheduleRequest \<Rightarrow> lbResult sel" where
  "selectByLoadBalance g req =
     andThen (listCandidates g req) (\<lambda>r.
       case r of
         Inl err \<Rightarrow> Return \<lparr>lb_result = Inl err, lb_candidateCount = 0, lb_topK = 0\<rparr>
       | Inr filtered \<Rightarrow>
           andThen (if g_concurrency g then ask (\<lambda>e. case e_load e (buildOpenAIAccountLoadRequest filtered) of
               Inr m \<Rightarrow> m | Inl _ \<Rightarrow> Map.empty) else Return Map.empty) (\<lambda>loadMap.
             if r_SubscriptionPriority req
             then andThen (ask (\<lambda>e. List.partition (e_subscription e) filtered)) (\<lambda>(subs, regular).
               if subs \<noteq> [] then selectBothPools g req subs regular loadMap
               else selectFromPool g req filtered loadMap)
             else selectFromPool g req filtered loadMap))"

section \<open>The session's account\<close>

text \<open>The account of the binding was found; it is read again from the database, and its slot is asked for.\<close>

definition sessionConfirm :: "selConfig \<Rightarrow> scheduleRequest \<Rightarrow> string \<Rightarrow> int \<Rightarrow> schedAccount \<Rightarrow> selection option sel" where
  "sessionConfirm g req sessionHash i a0 =
     andThen (ask (\<lambda>e. case recheckFor g req (r_RequireCompact req) a0 e of None \<Rightarrow> None
         | Some a \<Rightarrow> if isAccountTransportCompatible e a (r_RequiredTransport req) then Some a else None)) (\<lambda>checked.
       case checked of
         None \<Rightarrow> andThen (deleteStickySessionAccountID g (r_GroupID req) sessionHash) (\<lambda>_. Return None)
       | Some a \<Rightarrow> andThen (tryAcquireAccountSlot g i (a_Concurrency a)) (\<lambda>slot.
           case slot of
             Inr (True, release) \<Rightarrow>
               andThen (refreshStickySessionTTL g (r_GroupID req) sessionHash (g_stickyTTL g))
                 (\<lambda>_. Return (Some (acquiredSelection a release)))
           | _ \<Rightarrow>
               if \<not> g_concurrency g then Return None
               else andThen (ask (\<lambda>e. e_waiting e i)) (\<lambda>waitingCount.
                 if waitingCount \<ge> g_StickySessionMaxWaiting g then Return None
                 else Return (Some (waitingSelection a i (g_StickySessionWaitTimeout g) (g_StickySessionMaxWaiting g))))))"

text \<open>What the snapshot says of the bound account: forget the binding or pass over it, or go on with the account.\<close>

definition sessionLookup :: "selConfig \<Rightarrow> scheduleRequest \<Rightarrow> int \<Rightarrow> selEnv \<Rightarrow> bool + schedAccount" where
  "sessionLookup g req i e = (case getSchedulableAccount g e i of None \<Rightarrow> Inl True
     | Some a \<Rightarrow> if shouldClearSessionStickyForRequest e a req then Inl True
         else if \<not> isAccountRequestCompatible e a req then Inl False
         else if \<not> isAccountTransportCompatible e a (r_RequiredTransport req) then Inl True
         else Inr a)"

definition selectBySessionHash :: "selConfig \<Rightarrow> scheduleRequest \<Rightarrow> selection option sel" where
  "selectBySessionHash g req =
     (let sessionHash = TrimSpace (r_SessionHash req) in
      if sessionHash = [] \<or> \<not> g_cache g then Return None
      else andThen (if r_StickyAccountID req > 0 then Return (Inr (r_StickyAccountID req))
                    else getStickySessionAccountID g (r_GroupID req) sessionHash) (\<lambda>r.
        case r of
          Inl _ \<Rightarrow> Return None
        | Inr i \<Rightarrow>
            if i \<le> 0 \<or> i \<in> set (r_ExcludedIDs req) then Return None
            else andThen (ask (sessionLookup g req i)) (\<lambda>found.
              case found of
                Inl clear \<Rightarrow>
                  if clear then andThen (deleteStickySessionAccountID g (r_GroupID req) sessionHash) (\<lambda>_. Return None)
                  else Return None
              | Inr a0 \<Rightarrow> sessionConfirm g req sessionHash i a0)))"

section \<open>The previous response's account\<close>

definition previousConfirm :: "selConfig \<Rightarrow> scheduleRequest \<Rightarrow> string \<Rightarrow> int \<Rightarrow> schedAccount \<Rightarrow> selection option sel" where
  "previousConfirm g req responseID i a0 =
     (let group = derefGroupID (r_GroupID req);
          forget = andThen (writeCache (DeleteResponseAccount group responseID)) (\<lambda>_. Return None) in
      andThen (ask (\<lambda>e. recheckSelectedOpenAIAccountFromDB g e a0 (r_GroupID req) ''openai''
          (r_RequestedModel req) (r_RequireCompact req) (r_RequiredCapability req))) (\<lambda>checked.
        case checked of
          None \<Rightarrow> forget
        | Some a \<Rightarrow>
            if r_RequireCompact req \<and> openAICompactSupportTier (Some a) = 0 then forget
            else andThen (tryAcquireAccountSlot g i (a_Concurrency a)) (\<lambda>slot.
              case slot of
                Inr (True, release) \<Rightarrow>
                  andThen (writeCache (BindResponseAccount group responseID i))
                    (\<lambda>_. Return (Some (acquiredSelection a release)))
              | _ \<Rightarrow>
                  if g_concurrency g
                  then Return (Some (waitingSelection a i (g_StickySessionWaitTimeout g) (g_StickySessionMaxWaiting g)))
                  else Return None)))"

definition previousLookup :: "selConfig \<Rightarrow> scheduleRequest \<Rightarrow> int \<Rightarrow> selEnv \<Rightarrow> bool + schedAccount" where
  "previousLookup g req i e = (case getSchedulableAccount g e i of None \<Rightarrow> Inl True
     | Some a \<Rightarrow>
         if e_cleanRelay e a then Inl False
         else if \<not> e_wsv2 e a then Inl False
         else if e_clearSticky e a (r_RequestedModel req) \<or> \<not> IsOpenAI a \<or> \<not> e_schedulable e a then Inl True
         else if r_RequestedModel req \<noteq> [] \<and> \<not> e_modelSupported e a (r_RequestedModel req) then Inl False
         else if \<not> e_supportsEndpoint e a (r_RequiredCapability req) then Inl False
         else Inr a)"

definition selectAccountByPreviousResponseIDForCapability :: "selConfig \<Rightarrow> scheduleRequest \<Rightarrow> selection option sel" where
  "selectAccountByPreviousResponseIDForCapability g req =
     (let responseID = TrimSpace (r_PreviousResponseID req); group = derefGroupID (r_GroupID req) in
      if responseID = [] then Return None
      else andThen (ask (\<lambda>e. e_responseAccount e group responseID)) (\<lambda>r.
        case r of
          Inl _ \<Rightarrow> Return None
        | Inr i \<Rightarrow>
            if i \<le> 0 \<or> i \<in> set (r_ExcludedIDs req) then Return None
            else andThen (ask (previousLookup g req i)) (\<lambda>found.
              case found of
                Inl clear \<Rightarrow>
                  if clear then andThen (writeCache (DeleteResponseAccount group responseID)) (\<lambda>_. Return None)
                  else Return None
              | Inr a0 \<Rightarrow> previousConfirm g req responseID i a0)))"

section \<open>Select\<close>

datatype layer = LayerNone | LayerPreviousResponse | LayerSessionSticky | LayerLoadBalance

record decision =
  d_Layer :: layer
  d_StickyPreviousHit :: bool
  d_StickySessionHit :: bool
  d_CandidateCount :: int
  d_TopK :: int
  d_SelectedAccountID :: int

definition noDecision :: decision where
  "noDecision = \<lparr>d_Layer = LayerNone, d_StickyPreviousHit = False, d_StickySessionHit = False,
     d_CandidateCount = 0, d_TopK = 0, d_SelectedAccountID = 0\<rparr>"

definition previousResponseLayer :: "selConfig \<Rightarrow> scheduleRequest \<Rightarrow> selection option sel" where
  "previousResponseLayer g req =
     (if TrimSpace (r_PreviousResponseID req) \<noteq> [] \<and> r_Platform req = ''openai'' \<and>
         (\<not> r_StickyWeighted req \<or> \<not> r_PreviousResponseCanMove req)
      then andThen (selectAccountByPreviousResponseIDForCapability g req) (\<lambda>r.
        case r of
          None \<Rightarrow> Return None
        | Some sel \<Rightarrow> andThen (ask (\<lambda>e. isAccountTransportCompatible e (x_Account sel) (r_RequiredTransport req))) (\<lambda>suitable.
            if suitable then Return (Some sel)
            else andThen (releaseAccountSlot (x_Release sel)) (\<lambda>_. Return None)))
      else Return None)"

definition Select :: "selConfig \<Rightarrow> scheduleRequest \<Rightarrow> ((selErr + selection) \<times> decision) sel" where
  "Select g req =
     andThen (previousResponseLayer g req) (\<lambda>prev.
       case prev of
         Some sel \<Rightarrow>
           andThen (if r_SessionHash req \<noteq> [] then BindStickySession g (r_GroupID req) (r_SessionHash req) (a_ID (x_Account sel))
                    else Return ()) (\<lambda>_.
             Return (Inr sel, noDecision\<lparr>d_Layer := LayerPreviousResponse, d_StickyPreviousHit := True,
               d_SelectedAccountID := a_ID (x_Account sel)\<rparr>))
       | None \<Rightarrow>
           andThen (if r_StickyWeighted req then Return None else selectBySessionHash g req) (\<lambda>session.
             case session of
               Some sel \<Rightarrow> Return (Inr sel, noDecision\<lparr>d_Layer := LayerSessionSticky, d_StickySessionHit := True,
                   d_SelectedAccountID := a_ID (x_Account sel)\<rparr>)
             | None \<Rightarrow> andThen (selectByLoadBalance g req) (\<lambda>lb.
                 let d = noDecision\<lparr>d_Layer := LayerLoadBalance, d_CandidateCount := lb_candidateCount lb, d_TopK := lb_topK lb\<rparr> in
                 case lb_result lb of
                   Inl err \<Rightarrow> Return (Inl err, d)
                 | Inr sel \<Rightarrow>
                     let i = a_ID (x_Account sel) in
                     Return (Inr sel, d\<lparr>d_SelectedAccountID := i,
                       d_StickyPreviousHit := r_StickyWeighted req \<and> r_StickyPreviousAccountID req > 0 \<and> i = r_StickyPreviousAccountID req,
                       d_StickySessionHit := r_StickyWeighted req \<and> r_StickyAccountID req > 0 \<and> i = r_StickyAccountID req\<rparr>))))"

end
