(* ===== verification/SelectFacts.thy ===== *)
theory SelectFacts
  imports AccountSelect
begin

text \<open>
  What every selection leaves behind, whatever the world answers: exactly the slot of the account it
  returns, no session bound to any other account, and an account that fits the request.
\<close>

section \<open>Answers\<close>

text \<open>
  What the world may answer: the stores return the account they were asked for and list no account twice; whether an account has a transport, an
  endpoint or a model does not change during the selection.
\<close>

definition worldOk ::
  "(schedAccount \<Rightarrow> string \<Rightarrow> bool) \<Rightarrow> (schedAccount \<Rightarrow> string \<Rightarrow> bool) \<Rightarrow> (schedAccount \<Rightarrow> string \<Rightarrow> bool) \<Rightarrow> selEnv \<Rightarrow> bool" where
  "worldOk transport endpoint model e \<longleftrightarrow>
     (\<forall>i a. e_snapshotGet e i = Inr (Some a) \<longrightarrow> a_ID a = i) \<and>
     (\<forall>i a. e_repoGet e i = Inr (Some a) \<longrightarrow> a_ID a = i) \<and>
     (\<forall>past accounts. e_list e past = Inr accounts \<longrightarrow> distinct (map a_ID accounts)) \<and>
     e_transport e = transport \<and> e_supportsEndpoint e = endpoint \<and> e_modelSupported e = model"

definition servable ::
  "(schedAccount \<Rightarrow> string \<Rightarrow> bool) \<Rightarrow> (schedAccount \<Rightarrow> string \<Rightarrow> bool) \<Rightarrow> (schedAccount \<Rightarrow> string \<Rightarrow> bool) \<Rightarrow>
   scheduleRequest \<Rightarrow> schedAccount \<Rightarrow> bool" where
  "servable transport endpoint model req a \<longleftrightarrow>
     a_ID a \<notin> set (r_ExcludedIDs req) \<and>
     (r_RequiredTransport req = [] \<or> r_RequiredTransport req = ''http_sse'' \<or> transport a (r_RequiredTransport req)) \<and>
     endpoint a (r_RequiredCapability req) \<and>
     (r_RequestedModel req = [] \<or> model a (r_RequestedModel req)) \<and>
     (r_RequireCompact req \<longrightarrow> openAICompactSupportTier (Some a) \<noteq> 0)"

lemma getSchedulable_id: "worldOk tr ep md e \<Longrightarrow> getSchedulableAccount g e i = Some a \<Longrightarrow> a_ID a = i"
  by (auto simp: getSchedulableAccount_def worldOk_def split: sum.splits option.splits if_splits)

lemma freshFor_id: "worldOk tr ep md e \<Longrightarrow> freshFor g req a e = Some f \<Longrightarrow> a_ID f = a_ID a"
  by (auto simp: freshFor_def resolveFreshSchedulableOpenAIAccount_def dest: getSchedulable_id
      split: option.splits if_splits)

lemma recheck_fits:
  assumes "worldOk tr ep md e"
    "recheckSelectedOpenAIAccountFromDB g e a gid platform model cp capability = Some f"
  shows "a_ID f = a_ID a" "ep f capability" "model = [] \<or> md f model" "cp \<Longrightarrow> openAICompactSupportTier (Some f) \<noteq> 0"
  using assms unfolding recheckSelectedOpenAIAccountFromDB_def isOpenAICompatibleAccountEligibleForRequest_def Let_def worldOk_def
  by (auto split: sum.splits option.splits if_splits)

lemma ifCompatible_SomeD:
  "worldOk tr ep md e \<Longrightarrow> ifCompatible req e r = Some f \<Longrightarrow> r = Some f \<and>
     (r_RequiredTransport req = [] \<or> r_RequiredTransport req = ''http_sse'' \<or> tr f (r_RequiredTransport req))"
  by (auto simp: ifCompatible_def isAccountTransportCompatible_def worldOk_def split: option.splits if_splits)

section \<open>What is held\<close>

definition slotHeld :: "nat option \<Rightarrow> int \<Rightarrow> (nat \<times> int) list \<Rightarrow> (nat \<times> int) list" where
  "slotHeld slot i held = (case slot of None \<Rightarrow> held | Some n \<Rightarrow> (n, i) # held)"

definition wellNumbered :: "selState \<Rightarrow> bool" where
  "wellNumbered z \<longleftrightarrow> distinct (map fst (z_held z)) \<and> (\<forall>n \<in> fst ` set (z_held z). n < z_next z)"

fun boundBy :: "cacheWrite \<Rightarrow> int set" where
  "boundBy (SetSessionAccountID _ _ j _) = {j}"
| "boundBy _ = {}"

text \<open>
  Since state \<open>z0\<close>: the slots of \<open>z0\<close> and the given one are held, and sessions were bound to accounts of \<open>S\<close> only.
\<close>

text \<open>Slots lost since then are slots taken since then, one for every failed call at most.\<close>

definition lostSince :: "selState \<Rightarrow> selState \<Rightarrow> bool" where
  "lostSince z0 z \<longleftrightarrow> z_next z0 \<le> z_next z \<and>
     (\<exists>ls. z_lost z = ls @ z_lost z0 \<and> (\<forall>h \<in> set ls. z_next z0 \<le> fst h) \<and> length ls + z_failed z0 \<le> z_failed z)"

definition since :: "selState \<Rightarrow> nat option \<Rightarrow> int \<Rightarrow> int set \<Rightarrow> selState \<Rightarrow> bool" where
  "since z0 slot i S z \<longleftrightarrow> wellNumbered z \<and> z_held z = slotHeld slot i (z_held z0) \<and>
     (case slot of None \<Rightarrow> True | Some n \<Rightarrow> z_next z0 \<le> n) \<and> lostSince z0 z \<and>
     (\<exists>ws. z_writes z = z_writes z0 @ ws \<and> \<Union> (boundBy ` set ws) \<subseteq> S)"

abbreviation idle :: "selState \<Rightarrow> selState \<Rightarrow> bool" where
  "idle z0 z \<equiv> since z0 None 0 {} z"

lemma lost_refl: "lostSince z z"
  by (simp add: lostSince_def)

lemma lost_one:
  assumes "lostSince z0 z" "z_next z0 \<le> n" "z_lost z' = (n, i) # z_lost z" "z_failed z' = Suc (z_failed z)" "z_next z \<le> z_next z'"
  shows "lostSince z0 z'"
proof -
  obtain ls where "z_lost z = ls @ z_lost z0" "\<forall>h \<in> set ls. z_next z0 \<le> fst h" "length ls + z_failed z0 \<le> z_failed z" "z_next z0 \<le> z_next z"
    using assms(1) by (auto simp: lostSince_def)
  then show ?thesis unfolding lostSince_def using assms(2-5) by (intro conjI exI [of _ "(n, i) # ls"]) auto
qed

lemma lost_cong:
  "lostSince z0 z \<Longrightarrow> z_lost z' = z_lost z \<Longrightarrow> z_failed z \<le> z_failed z' \<Longrightarrow> z_next z \<le> z_next z' \<Longrightarrow> lostSince z0 z'"
  by (fastforce simp: lostSince_def)

lemma idle_refl: "wellNumbered z \<Longrightarrow> idle z z"
  by (simp add: since_def slotHeld_def lost_refl)

lemma since_None: "since z0 None i S z \<longleftrightarrow> since z0 None j S z"
  by (simp add: since_def slotHeld_def)

lemma since_mono: "since z0 slot i S z \<Longrightarrow> S \<subseteq> T \<Longrightarrow> since z0 slot i T z"
  unfolding since_def by blast

definition selSettled :: "(schedAccount \<Rightarrow> bool) \<Rightarrow> selState \<Rightarrow> selection option \<Rightarrow> selState \<Rightarrow> bool" where
  "selSettled P z0 r z = (case r of
       None \<Rightarrow> idle z0 z
     | Some sel \<Rightarrow> since z0 (x_Release sel) (a_ID (x_Account sel)) {a_ID (x_Account sel)} z \<and> P (x_Account sel) \<and>
         (x_Acquired sel \<longleftrightarrow> x_WaitPlan sel = None) \<and> (\<not> x_Acquired sel \<longrightarrow> x_Release sel = None))"

lemma selSettled_None [simp]: "selSettled P z0 None z = idle z0 z"
  by (simp add: selSettled_def)

section \<open>Slots and bindings\<close>

fun slotAnswered :: "selState \<Rightarrow> int \<Rightarrow> selErr + (bool \<times> nat option) \<Rightarrow> selState \<Rightarrow> bool" where
  "slotAnswered z0 i (Inl _) z = idle z0 z"
| "slotAnswered z0 i (Inr (True, slot)) z = since z0 slot i {} z"
| "slotAnswered z0 i (Inr (False, slot)) z = (slot = None \<and> idle z0 z)"

lemma tryAcquire_since:
  assumes "idle z0 z"
  shows "always ok (slotAnswered z0 i) (tryAcquireAccountSlot g i m) z"
proof -
  have l: "lostSince z0 z" using assms by (simp add: since_def)
  then have n: "z_next z0 \<le> z_next z" by (simp add: lostSince_def)
  have "since z0 (Some (z_next z)) i {} (z\<lparr>z_probes := p, z_held := (z_next z, i) # z_held z, z_next := Suc (z_next z)\<rparr>)" for p
    using assms lost_cong [OF l] n by (force simp: since_def slotHeld_def wellNumbered_def less_Suc_eq)
  moreover have "idle z0 (z\<lparr>z_probes := p\<rparr>)" "idle z0 (z\<lparr>z_probes := p, z_failed := Suc (z_failed z)\<rparr>)" for p
    using assms lost_cong [OF l] by (auto simp: since_def slotHeld_def wellNumbered_def)
  moreover have "idle z0 (z\<lparr>z_probes := p, z_lost := (z_next z, i) # z_lost z, z_failed := Suc (z_failed z), z_next := Suc (z_next z)\<rparr>)" for p
    using assms lost_one [OF l n] by (force simp: since_def slotHeld_def wellNumbered_def)
  ultimately show ?thesis
    using assms since_None [of z0 i "{}" _ 0] by (simp add: tryAcquireAccountSlot_def Let_def split: slotReply.split)
qed

lemma release_since:
  assumes "since z0 slot i {} z"
  shows "always ok (\<lambda>_ z'. idle z0 z') (releaseAccountSlot slot) z"
proof (cases slot)
  case None
  then show ?thesis using assms since_None [of z0 i "{}" z 0] by (simp add: releaseAccountSlot_def)
next
  case (Some n)
  then have "n \<notin> fst ` set (z_held z0)" using assms by (force simp: since_def slotHeld_def wellNumbered_def)
  then have f: "filter (\<lambda>h. fst h \<noteq> n) (z_held z0) = z_held z0" "filter (\<lambda>h. fst h = n) (z_held z0) = []"
    by (force simp: filter_id_conv filter_empty_conv)+
  have z: "wellNumbered z" "z_held z = (n, i) # z_held z0" "z_next z0 \<le> n" "lostSince z0 z"
    using assms Some by (simp_all add: since_def slotHeld_def)
  have "idle z0 (z\<lparr>z_held := z_held z0\<rparr>)"
    using assms z f lost_cong [OF z(4)] by (simp add: since_def slotHeld_def wellNumbered_def)
  moreover have "idle z0 (z\<lparr>z_held := z_held z0, z_lost := (n, i) # z_lost z, z_failed := Suc (z_failed z)\<rparr>)"
    using assms z f lost_one [OF z(4,3)] by (simp add: since_def slotHeld_def wellNumbered_def)
  ultimately show ?thesis using f by (simp add: Some releaseAccountSlot_def Let_def z(2))
qed

lemma cacheWrite_since:
  assumes "since z0 slot i S z" "boundBy w \<subseteq> S"
  shows "always ok (\<lambda>_ z'. since z0 slot i S z') (writeCache w) z"
  using assms lost_cong [of z0 z] by (auto simp: writeCache_def since_def wellNumbered_def)

lemma bind_since:
  assumes "since z0 slot i S z" "j \<in> S"
  shows "always ok (\<lambda>_ z'. since z0 slot i S z') (setStickySessionAccountID g gid h j ttl) z"
    "always ok (\<lambda>_ z'. since z0 slot i S z') (BindStickySession g gid h j) z"
    "always ok (\<lambda>_ z'. since z0 slot i S z') (bindSession g req j) z"
proof -
  show set: "always ok (\<lambda>_ z'. since z0 slot i S z') (setStickySessionAccountID g gid h j ttl) z" for gid h ttl
    using assms unfolding setStickySessionAccountID_def Let_def
    by (auto intro!: always_mono [OF cacheWrite_since] simp: Let_def)
  show bind: "always ok (\<lambda>_ z'. since z0 slot i S z') (BindStickySession g gid h j) z" for gid h
    using assms(1) set by (simp add: BindStickySession_def)
  show "always ok (\<lambda>_ z'. since z0 slot i S z') (bindSession g req j) z"
    using assms(1) bind by (simp add: bindSession_def)
qed

lemma unbind_since:
  assumes "since z0 slot i S z"
  shows "always ok (\<lambda>_ z'. since z0 slot i S z') (deleteStickySessionAccountID g gid h) z"
    "always ok (\<lambda>_ z'. since z0 slot i S z') (refreshStickySessionTTL g gid h ttl) z"
  using assms unfolding deleteStickySessionAccountID_def refreshStickySessionTTL_def Let_def
  by (auto intro!: always_mono [OF cacheWrite_since] simp: Let_def)

section \<open>Walking an order\<close>

text \<open>A walk that starts idle ends settled.\<close>

definition walkEnds :: "(schedAccount \<Rightarrow> bool) \<Rightarrow> selState \<Rightarrow> walkResult \<Rightarrow> selState \<Rightarrow> bool" where
  "walkEnds P z0 x z = (case fst x of Inr res \<Rightarrow> selSettled P z0 res z | Inl _ \<Rightarrow> idle z0 z)"

definition walks :: "(selEnv \<Rightarrow> bool) \<Rightarrow> (schedAccount \<Rightarrow> bool) \<Rightarrow> selState \<Rightarrow> walkResult sel \<Rightarrow> bool" where
  "walks ok P z0 p \<longleftrightarrow> (\<forall>z. idle z0 z \<longrightarrow> always ok (walkEnds P z0) p z)"

lemma walks_Return [simp]:
  "walks ok P z0 (Return (Inr None, x))" "walks ok P z0 (Return (Inl err, x))"
  by (simp_all add: walks_def walkEnds_def)

lemma walksD: "walks ok P z0 p \<Longrightarrow> idle z0 z \<Longrightarrow> always ok (walkEnds P z0) p z"
  by (simp add: walks_def)

fun attemptAnswer :: "selState \<Rightarrow> int \<Rightarrow> (selErr + (bool \<times> nat option)) option \<times> probeBudget \<Rightarrow> selState \<Rightarrow> bool" where
  "attemptAnswer z0 i (None, _) z = idle z0 z"
| "attemptAnswer z0 i (Some r, _) z = slotAnswered z0 i r z"

lemma tryAcquireBudget_since:
  assumes "idle z0 z"
  shows "always ok (attemptAnswer z0 i) (tryAcquireOpenAIAccountSlot g i m b) z"
  using assms tryAcquire_since [OF assms, of ok i g m]
  by (auto simp: tryAcquireOpenAIAccountSlot_def split: prod.split elim: always_mono)

text \<open>What follows an attempt: nothing to give back, or a slot of the account.\<close>

lemma after_attempt:
  assumes "idle z0 z"
    and "\<And>b z. idle z0 z \<Longrightarrow> always ok Q (none b) z" "\<And>err b z. idle z0 z \<Longrightarrow> always ok Q (failed err b) z"
    and "\<And>b z. idle z0 z \<Longrightarrow> always ok Q (busy b) z" "\<And>slot b z. since z0 slot i {} z \<Longrightarrow> always ok Q (got slot b) z"
  shows "always ok Q (andThen (tryAcquireOpenAIAccountSlot g i m b) (\<lambda>(attempt, b1).
     case attempt of None \<Rightarrow> none b1 | Some (Inl err) \<Rightarrow> failed err b1
     | Some (Inr (acquired, slot)) \<Rightarrow> if \<not> acquired then busy b1 else got slot b1)) z"
proof (rule always_bind [OF tryAcquireBudget_since [OF assms(1)]])
  fix x z' assume x: "attemptAnswer z0 i x z'"
  obtain attempt b1 where p: "x = (attempt, b1)" by (cases x)
  show "always ok Q (case x of (attempt, b1) \<Rightarrow>
     case attempt of None \<Rightarrow> none b1 | Some (Inl err) \<Rightarrow> failed err b1
     | Some (Inr (acquired, slot)) \<Rightarrow> if \<not> acquired then busy b1 else got slot b1) z'"
  proof (cases attempt)
    case (Some r)
    show ?thesis
    proof (cases r)
      case (Inr y)
      obtain acquired slot where "y = (acquired, slot)" by (cases y)
      with x p Some Inr assms(4,5) show ?thesis by (cases acquired) auto
    qed (use x p Some assms(3) in auto)
  qed (use x p assms(2) in auto)
qed

lemma keepAccount_settled:
  assumes "since z0 slot (a_ID f) {} z" "P f"
  shows "always ok (walkEnds P z0) (keepAccount g req f slot cb b) z"
  unfolding keepAccount_def
  using bind_since(3) [OF since_mono [OF assms(1)], of "{a_ID f}" "a_ID f" ok g req] assms(2)
  by (auto simp: walkEnds_def selSettled_def acquiredSelection_def elim!: always_mono)

definition listed :: "scheduleRequest \<Rightarrow> candidate list \<Rightarrow> bool" where
  "listed req cs \<longleftrightarrow> (\<forall>c \<in> set cs. \<forall>a. c_account c = Some a \<longrightarrow> a_ID a \<notin> set (r_ExcludedIDs req))"

lemma release_walks:
  assumes "since z0 slot i {} z" "walks ok P z0 p"
  shows "always ok (walkEnds P z0) (andThen (releaseAccountSlot slot) (\<lambda>_. p)) z"
  using assms(2) by (intro always_bind [OF release_since [OF assms(1)]]) (simp add: walks_def)

lemma reacquire_walks:
  assumes "\<And>b cb. walks ok P z0 (next b cb)" "P f"
  shows "walks ok P z0 (reacquire g req f b cb next)"
  unfolding walks_def reacquire_def
  by (intro allI impI after_attempt walksD [OF assms(1)] walksD [OF walks_Return(2)] keepAccount_settled assms(2))

lemma confirm_walks:
  assumes "\<And>b cb. walks (worldOk tr ep md) (servable tr ep md req) z0 (next b cb)"
    and "since z0 slot (a_ID a) {} z" "a_ID f1 = a_ID a" "a_ID a \<notin> set (r_ExcludedIDs req)"
  shows "always (worldOk tr ep md) (walkEnds (servable tr ep md req) z0) (confirmAccount g req a slot f1 b cb next) z"
proof -
  let ?ok = "worldOk tr ep md" and ?P = "servable tr ep md req"
  have fits: "a_ID f = a_ID a \<and> ?P f"
    if "?ok e" "ifCompatible req e (recheckFor g req False f1 e) = Some f"
      "\<not> (r_RequireCompact req \<and> openAICompactSupportTier (Some f) = 0)" for e f
  proof -
    note c = ifCompatible_SomeD [OF that(1,2)]
    note r = recheck_fits [OF that(1) conjunct1 [OF c, unfolded recheckFor_def]]
    show ?thesis using c r(1-3) that(3) assms(3,4) by (simp add: servable_def)
  qed
  note release = release_walks [OF assms(2), of ?ok ?P]
  have confirmed: "always ?ok (walkEnds ?P z0)
      (case fresh2 of None \<Rightarrow> andThen (releaseAccountSlot slot) (\<lambda>_. next b1 cb)
       | Some f \<Rightarrow> if r_RequireCompact req \<and> openAICompactSupportTier (Some f) = 0
           then andThen (releaseAccountSlot slot) (\<lambda>_. next b1 True)
           else if a_Concurrency f \<noteq> a_Concurrency a
           then andThen (releaseAccountSlot slot) (\<lambda>_. reacquire g req f b1 cb next)
           else keepAccount g req f slot cb b1) z"
    if "?ok e" "fresh2 = ifCompatible req e (recheckFor g req False f1 e)" for e fresh2 b1
  proof (cases fresh2)
    case (Some f)
    show ?thesis
    proof (cases "r_RequireCompact req \<and> openAICompactSupportTier (Some f) = 0")
      case True
      show ?thesis unfolding Some option.case if_P [OF True] by (rule release [OF assms(1)])
    next
      case False
      with that Some fits have f: "a_ID f = a_ID a" "?P f" by auto
      have "walks ?ok ?P z0 (reacquire g req f b1 cb next)" using assms(1) f(2) by (rule reacquire_walks)
      then show ?thesis
        unfolding Some option.case if_not_P [OF False]
        using release keepAccount_settled [of z0 slot f z ?P] assms(2) f by (simp del: always_andThen)
    qed
  qed (use release [OF assms(1)] in \<open>simp del: always_andThen\<close>)
  obtain allowed b1 where b1: "consumeOpenAISelectionDBRecheck g b = (allowed, b1)" by fastforce
  show ?thesis
  proof (cases allowed)
    case True
    then show ?thesis
      unfolding confirmAccount_def b1 by (auto intro!: always_ask_bind confirmed simp del: always_andThen)
  next
    case False
    then show ?thesis using release by (simp add: confirmAccount_def b1 del: always_andThen)
  qed
qed

lemma visit_walks:
  assumes "\<And>b cb. walks (worldOk tr ep md) (servable tr ep md req) z0 (next b cb)" "listed req [c]"
  shows "walks (worldOk tr ep md) (servable tr ep md req) z0 (visitCandidate g req c b cb next)"
proof (cases "c_account c")
  case None
  with assms(1) show ?thesis by (simp add: visitCandidate_def)
next
  case (Some a)
  let ?ok = "worldOk tr ep md" and ?P = "servable tr ep md req"
  have excl: "a_ID a \<notin> set (r_ExcludedIDs req)" using assms(2) Some by (simp add: listed_def)
  have held: "always ?ok (walkEnds ?P z0)
      (andThen (ask (\<lambda>e. ifCompatible req e (freshFor g req a e))) (\<lambda>fresh1. case fresh1 of
         None \<Rightarrow> andThen (releaseAccountSlot slot) (\<lambda>_. next b1 cb)
       | Some f1 \<Rightarrow> confirmAccount g req a slot f1 b1 cb next)) z"
    if held: "since z0 slot (a_ID a) {} z" for slot b1 z
  proof (rule always_ask_bind)
    fix e assume e: "?ok e"
    show "always ?ok (walkEnds ?P z0) (case ifCompatible req e (freshFor g req a e) of
         None \<Rightarrow> andThen (releaseAccountSlot slot) (\<lambda>_. next b1 cb)
       | Some f1 \<Rightarrow> confirmAccount g req a slot f1 b1 cb next) z"
    proof (cases "ifCompatible req e (freshFor g req a e)")
      case None
      then show ?thesis using release_walks [OF held assms(1)] by (simp del: always_andThen)
    next
      case (Some f1)
      with e have "a_ID f1 = a_ID a" using ifCompatible_SomeD [OF e] freshFor_id [OF e] by blast
      with Some show ?thesis using confirm_walks [OF assms(1) held _ excl] by simp
    qed
  qed
  show ?thesis
    unfolding walks_def visitCandidate_def Some option.case
  proof (intro allI impI, split if_split, intro conjI impI)
    fix z assume "idle z0 z"
    then show "always ?ok (walkEnds ?P z0) (next b cb) z" using assms(1) by (simp add: walks_def)
    show "always ?ok (walkEnds ?P z0) (andThen (tryAcquireOpenAIAccountSlot g (a_ID a) (a_Concurrency a) b) (\<lambda>(attempt, b1).
        case attempt of None \<Rightarrow> Return (Inr None, cb, b1) | Some (Inl err) \<Rightarrow> Return (Inl err, cb, b1)
        | Some (Inr (acquired, slot)) \<Rightarrow> if \<not> acquired then next b1 cb
            else andThen (ask (\<lambda>e. ifCompatible req e (freshFor g req a e))) (\<lambda>fresh1. case fresh1 of
              None \<Rightarrow> andThen (releaseAccountSlot slot) (\<lambda>_. next b1 cb)
            | Some f1 \<Rightarrow> confirmAccount g req a slot f1 b1 cb next))) z"
      by (rule after_attempt [OF \<open>idle z0 z\<close>])
        (intro walksD [OF walks_Return(1)] walksD [OF walks_Return(2)] walksD [OF assms(1)] held; assumption)+
  qed
qed

lemma walk_settled:
  "listed req cs \<Longrightarrow> walks (worldOk tr ep md) (servable tr ep md req) z0 (tryAcquireOpenAISelectionOrderWithBudget g req cs b cb)"
proof (induction cs arbitrary: b cb)
  case (Cons c cs)
  then show ?case by (auto simp: listed_def intro!: visit_walks)
qed simp

section \<open>Queues\<close>

lemma waiting_settled: "idle z0 z \<Longrightarrow> P a \<Longrightarrow> i = a_ID a \<Longrightarrow> selSettled P z0 (Some (waitingSelection a i t m)) z"
  using since_None [of z0 0 "{}" z "a_ID a"] by (auto simp: selSettled_def waitingSelection_def intro: since_mono)

lemma acquired_settled: "since z0 slot (a_ID a) {a_ID a} z \<Longrightarrow> P a \<Longrightarrow> selSettled P z0 (Some (acquiredSelection a slot)) z"
  by (simp add: selSettled_def acquiredSelection_def)

definition ends :: "(schedAccount \<Rightarrow> bool) \<Rightarrow> selState \<Rightarrow> selErr + selection \<Rightarrow> selState \<Rightarrow> bool" where
  "ends P z0 r z = (case r of Inl _ \<Rightarrow> idle z0 z | Inr sel \<Rightarrow> selSettled P z0 (Some sel) z)"

definition endsIf :: "(schedAccount \<Rightarrow> bool) \<Rightarrow> selState \<Rightarrow> selErr + selection option \<Rightarrow> selState \<Rightarrow> bool" where
  "endsIf P z0 r z = (case r of Inl _ \<Rightarrow> idle z0 z | Inr res \<Rightarrow> selSettled P z0 res z)"

lemma recheckFor_fits:
  assumes "worldOk tr ep md e" "recheckFor g req cp a e = Some f"
  shows "a_ID f = a_ID a \<and> ep f (r_RequiredCapability req) \<and> (r_RequestedModel req = [] \<or> md f (r_RequestedModel req)) \<and>
    (cp \<longrightarrow> openAICompactSupportTier (Some f) \<noteq> 0)"
  using recheck_fits [OF assms(1) assms(2) [unfolded recheckFor_def]] by blast

lemma transport_fits:
  "worldOk tr ep md e \<Longrightarrow> isAccountTransportCompatible e f t \<Longrightarrow> t = [] \<or> t = ''http_sse'' \<or> tr f t"
  by (auto simp: isAccountTransportCompatible_def worldOk_def split: if_splits)

text \<open>The answer of a slot request, case by case.\<close>

lemma after_slot:
  assumes "idle z0 z"
    and "\<And>err z. idle z0 z \<Longrightarrow> always ok Q (k (Inl err)) z" "\<And>slot z. since z0 slot i {} z \<Longrightarrow> always ok Q (k (Inr (True, slot))) z"
    and "\<And>z. idle z0 z \<Longrightarrow> always ok Q (k (Inr (False, None))) z"
  shows "always ok Q (andThen (tryAcquireAccountSlot g i m) k) z"
proof (rule always_bind [OF tryAcquire_since [OF assms(1)]])
  fix r z' assume "slotAnswered z0 i r z'"
  then show "always ok Q (k r) z'"
    using assms(2-4) by (cases "(z0, i, r, z')" rule: slotAnswered.cases) auto
qed

lemma stickyAcquire_end:
  assumes "P a" "\<And>z. idle z0 z \<Longrightarrow> always ok (endsIf P z0) next z" "idle z0 z"
  shows "always ok (endsIf P z0) (stickyAcquire g req a next) z"
  unfolding stickyAcquire_def
proof (rule after_slot [OF assms(3)], goal_cases)
  case (2 slot z)
  have "always ok (\<lambda>_ z'. since z0 slot (a_ID a) {a_ID a} z') (bindSession g req (a_ID a)) z"
    using 2 by (intro bind_since(3) since_mono [OF 2]) auto
  with assms(1) show ?case by (auto simp: endsIf_def elim!: always_mono intro!: acquired_settled)
qed (use assms in \<open>auto simp: endsIf_def waiting_settled\<close>)

lemma stickyConfirm_end:
  assumes "\<And>z. idle z0 z \<Longrightarrow> always (worldOk tr ep md) (endsIf (servable tr ep md req) z0) next z" "idle z0 z"
    and "a_ID a0 = i" "i \<notin> set (r_ExcludedIDs req)"
  shows "always (worldOk tr ep md) (endsIf (servable tr ep md req) z0) (stickyConfirm g req i a0 next) z"
  unfolding stickyConfirm_def
proof (rule always_ask_bind, goal_cases)
  case (1 e)
  show ?case
  proof (cases "case recheckFor g req (r_RequireCompact req) a0 e of None \<Rightarrow> None
      | Some a \<Rightarrow> if isOpenAIAccountInRequestGroup g a (r_GroupID req) then Some a else None")
    case None
    have "always (worldOk tr ep md) (\<lambda>_. idle z0) (if c then deleteStickySessionAccountID g gid h else Return ()) z" for c gid h
      using unbind_since(1) [OF assms(2)] assms(2) by auto
    then show ?thesis unfolding None option.case by (rule always_bind) (rule assms(1))
  next
    case (Some a)
    then have fits: "recheckFor g req (r_RequireCompact req) a0 e = Some a" by (auto split: option.splits if_splits)
    show ?thesis
      unfolding Some option.case
    proof (rule always_ask_bind, goal_cases)
      case (1 e')
      have "servable tr ep md req a" if "isAccountTransportCompatible e' a (r_RequiredTransport req)"
        using recheckFor_fits [OF \<open>worldOk tr ep md e\<close> fits] transport_fits [OF 1 that] assms(3,4)
        by (simp add: servable_def)
      then show ?case using assms(1,2) stickyAcquire_end [of _ a] by auto
    qed
  qed
qed

lemma stickyFallbacks_end:
  "idle z0 z \<Longrightarrow> always (worldOk tr ep md) (endsIf (servable tr ep md req) z0) (stickyFallbacks g req ids) z"
proof (induction ids arbitrary: z)
  case (Cons i ids)
  show ?case
  proof (cases "i \<le> 0 \<or> i \<in> set (r_ExcludedIDs req)")
    case True
    with Cons show ?thesis by simp
  next
    case False
    show ?thesis
      unfolding stickyFallbacks.simps if_not_P [OF False]
    proof (rule always_ask_bind, goal_cases)
      case (1 e)
      then have "a_ID a = i" if "getSchedulableAccount g e i = Some a" for a using that by (rule getSchedulable_id)
      with False Cons show ?case by (auto intro!: stickyConfirm_end split: option.split)
    qed
  qed
qed (simp add: endsIf_def)

lemma waitForCandidate_end:
  "idle z0 z \<Longrightarrow> listed req (map snd vs) \<Longrightarrow>
     always (worldOk tr ep md) (\<lambda>x. ends (servable tr ep md req) z0 (fst x)) (waitForCandidate g req vs b cb) z"
proof (induction vs arbitrary: z b cb)
  case (Cons v vs)
  let ?ok = "worldOk tr ep md" and ?Q = "\<lambda>x :: (selErr + selection) \<times> probeBudget. ends (servable tr ep md req) z0 (fst x)"
  have rest: "always ?ok ?Q (waitForCandidate g req vs b cb) z" for b cb
    using Cons by (simp add: listed_def)
  show ?case
  proof (cases "c_account (snd v)")
    case None
    with rest show ?thesis by simp
  next
    case (Some a)
    have excl: "a_ID a \<notin> set (r_ExcludedIDs req)" using Cons.prems(2) Some by (simp add: listed_def)
    have found: "?Q (Inr (waitingSelection f (a_ID f) t m), b') z"
      if "?ok e" "?ok e'" "ifCompatible req e (freshFor g req a e) = Some f1"
        "ifCompatible req e' (recheckFor g req False f1 e') = Some f"
        "\<not> (r_RequireCompact req \<and> openAICompactSupportTier (Some f) = 0)" for e e' f1 f t m b'
    proof -
      have f1: "a_ID f1 = a_ID a" using ifCompatible_SomeD [OF that(1,3)] freshFor_id [OF that(1)] by blast
      note c = ifCompatible_SomeD [OF that(2,4)]
      have "servable tr ep md req f"
        using recheckFor_fits [OF that(2) conjunct1 [OF c]] c that(5) f1 excl by (simp add: servable_def)
      with Cons.prems(1) show ?thesis by (simp add: ends_def waiting_settled)
    qed
    show ?thesis
    proof (cases "skipVisit b (fst v) (snd v) a")
      case True
      with Some rest show ?thesis by simp
    next
      case False
      obtain allowed b1 where b1: "consumeOpenAISelectionDBRecheck g b = (allowed, b1)" by fastforce
      have idle: "?Q (Inl err, b') z" for err b' using Cons.prems(1) by (simp add: ends_def)
      from Some False show ?thesis
        using rest idle found by (auto simp: b1 split: option.split)
    qed
  qed
qed (simp add: ends_def)

lemma finishFallback_end:
  assumes "idle z0 z" "listed req (at_selectionOrder attempt)"
  shows "always (worldOk tr ep md) (\<lambda>x. ends (servable tr ep md req) z0 (fst x)) (finishLoadBalanceSelectionFallback g req attempt b) z"
proof (cases "at_selectionOrder attempt = []")
  case True
  with assms(1) show ?thesis by (simp add: finishLoadBalanceSelectionFallback_def ends_def)
next
  case False
  let ?P = "servable tr ep md req"
  have "always (worldOk tr ep md) (endsIf ?P z0) (tryFallbackToWeightedSticky g req) z"
    using assms(1) stickyFallbacks_end by (simp add: tryFallbackToWeightedSticky_def endsIf_def del: stickyFallbacks.simps)
  then show ?thesis
    unfolding finishLoadBalanceSelectionFallback_def if_not_P [OF False]
  proof (rule always_bind, goal_cases)
    case (1 x t)
    have "listed req (map snd (fallbackVisits b (at_selectionOrder attempt)))"
      using assms(2) by (auto simp: fallbackVisits_def listed_def)
    with 1 show ?case
      by (auto simp: endsIf_def ends_def intro!: waitForCandidate_end split: sum.splits option.splits)
  qed
qed

section \<open>Pools\<close>

definition attemptEnds :: "(schedAccount \<Rightarrow> bool) \<Rightarrow> scheduleRequest \<Rightarrow> selState \<Rightarrow> loadAttempt \<times> probeBudget \<Rightarrow> selState \<Rightarrow> bool" where
  "attemptEnds P req z0 x z \<longleftrightarrow> (at_err (fst x) \<noteq> None \<longrightarrow> at_result (fst x) = None) \<and>
     selSettled P z0 (at_result (fst x)) z \<and> listed req (at_selectionOrder (fst x))"

definition eligibleList :: "scheduleRequest \<Rightarrow> schedAccount list \<Rightarrow> bool" where
  "eligibleList req as \<longleftrightarrow> distinct (map a_ID as) \<and> (\<forall>a \<in> set as. a_ID a \<notin> set (r_ExcludedIDs req))"

lemma planFor_listed:
  assumes "eligibleList req filtered"
  shows "always ok (\<lambda>x z'. listed req (snd x) \<and> z' = z) (planFor g req filtered loadMap) z"
proof -
  have "listed req (buildOpenAIRuntimeSelectionOrder clk req (buildOpenAIAccountLoadPlan env req filtered loadMap))" for clk env
    unfolding listed_def
  proof (intro ballI allI impI)
    fix c a
    assume "c \<in> set (buildOpenAIRuntimeSelectionOrder clk req (buildOpenAIAccountLoadPlan env req filtered loadMap))"
      "c_account c = Some a"
    then have "a \<in> set filtered"
      using runtimeOrder_accounts(2) [of filtered c clk req env loadMap] assms by (auto simp: eligibleList_def)
    with assms show "a_ID a \<notin> set (r_ExcludedIDs req)" by (simp add: eligibleList_def)
  qed
  then show ?thesis by (simp add: planFor_def)
qed

lemma walk_end:
  assumes "idle z0 z" "listed req cs"
  shows "always (worldOk tr ep md) (\<lambda>x. endsIf (servable tr ep md req) z0 (fst x))
    (tryAcquireOpenAISelectionOrderWithBudget g req cs b cb) z"
  using walksD [OF walk_settled [OF assms(2)] assms(1)] by (rule always_mono) (simp add: walkEnds_def endsIf_def)

lemma retry_end:
  assumes "eligibleList req filtered" "idle z0 z" "at_err attempt = None" "at_result attempt = None"
    "listed req (at_selectionOrder attempt)"
  shows "always (worldOk tr ep md) (attemptEnds (servable tr ep md req) req z0) (retryWithFreshLoads g req filtered attempt b) z"
proof (cases "\<not> g_concurrency g \<or> acquireExhausted b")
  case True
  with assms show ?thesis by (simp add: retryWithFreshLoads_def attemptEnds_def)
next
  case False
  let ?ok = "worldOk tr ep md" and ?P = "servable tr ep md req"
  have same: "attemptEnds ?P req z0 (attempt, b') z" for b' using assms by (simp add: attemptEnds_def)
  show ?thesis
    unfolding retryWithFreshLoads_def if_not_P [OF False]
  proof (rule always_ask_bind, goal_cases)
    case (1 e)
    show ?case
    proof (cases "e_loadFresh e (buildOpenAIAccountLoadRequest filtered)")
      case (Inr m)
      show ?thesis
        unfolding Inr sum.case
      proof (rule always_bind [OF planFor_listed [OF assms(1)]], goal_cases)
        case (1 x t)
        obtain plan order where x: "x = (plan, order)" by (cases x)
        show ?case
        proof (cases "order = []")
          case False
          have "always ?ok (\<lambda>y. endsIf ?P z0 (fst y))
              (tryAcquireOpenAISelectionOrderWithBudget g req order (limitIfExpanded req plan b) False) t"
            using assms(2) 1 x by (intro walk_end) auto
          then show ?thesis
            unfolding x prod.case Let_def if_not_P [OF False]
          proof (rule always_bind, goal_cases)
            case (1 y t')
            with \<open>listed req (snd x) \<and> t = z\<close> x assms show ?case
              by (auto simp: endsIf_def attemptEnds_def split: sum.splits prod.splits)
          qed
        qed (use x 1 same in simp)
      qed
    qed (use same in simp)
  qed
qed

lemma pool_end:
  assumes "eligibleList req filtered" "idle z0 z"
  shows "always (worldOk tr ep md) (attemptEnds (servable tr ep md req) req z0) (trySelectByLoadBalancePool g req filtered loadMap b) z"
  unfolding trySelectByLoadBalancePool_def
proof (rule always_bind [OF planFor_listed [OF assms(1)]], goal_cases)
  case (1 x t)
  obtain plan order where x: "x = (plan, order)" by (cases x)
  let ?ok = "worldOk tr ep md" and ?P = "servable tr ep md req"
  have walk: "always ?ok (\<lambda>y. endsIf ?P z0 (fst y))
      (tryAcquireOpenAISelectionOrderWithBudget g req order (limitIfExpanded req plan b) False) t"
    using assms(2) 1 x by (intro walk_end) auto
  show ?case
    unfolding x prod.case Let_def
  proof (split if_split, intro conjI impI, goal_cases)
    case A: 2
    show ?case
    proof (split if_split, intro conjI impI, goal_cases)
      case B: 2
      show ?case
      proof (split if_split, intro conjI impI, goal_cases)
        case 2
        show ?case
        proof (rule always_bind [OF walk], goal_cases)
          case (1 y t')
          then show ?case
            using \<open>listed req (snd x) \<and> t = z\<close> x assms retry_end [OF assms(1)]
            by (auto simp: endsIf_def attemptEnds_def split: sum.splits prod.splits option.splits)
        qed
      qed (use 1 x assms in \<open>simp add: attemptEnds_def\<close>)
    qed (use 1 x assms in \<open>simp add: attemptEnds_def\<close>)
  qed (use 1 x assms in \<open>simp add: attemptEnds_def\<close>)
qed

section \<open>Load balancing\<close>

definition lbEnds :: "(schedAccount \<Rightarrow> bool) \<Rightarrow> selState \<Rightarrow> lbResult \<Rightarrow> selState \<Rightarrow> bool" where
  "lbEnds P z0 r = ends P z0 (lb_result r)"

lemma finishFallback_lb:
  assumes "idle z0 z" "listed req (at_selectionOrder attempt)"
  shows "always (worldOk tr ep md) (\<lambda>x. lbEnds (servable tr ep md req) z0 (fst x)) (finishFallback g req attempt b) z"
  unfolding finishFallback_def
  by (rule always_bind [OF finishFallback_end [OF assms]]) (auto simp: lbEnds_def lbOf_def)

lemma attemptEnds_cases:
  assumes "attemptEnds P req z0 (attempt, b) z"
  obtains err where "at_err attempt = Some err" "at_result attempt = None" "idle z0 z" "listed req (at_selectionOrder attempt)"
  | sel where "at_err attempt = None" "at_result attempt = Some sel" "selSettled P z0 (Some sel) z"
  | "at_err attempt = None" "at_result attempt = None" "idle z0 z" "listed req (at_selectionOrder attempt)"
  using assms by (cases "at_err attempt"; cases "at_result attempt") (auto simp: attemptEnds_def)

lemma selectFromPool_end:
  assumes "eligibleList req filtered" "idle z0 z"
  shows "always (worldOk tr ep md) (lbEnds (servable tr ep md req) z0) (selectFromPool g req filtered loadMap) z"
  unfolding selectFromPool_def
proof (rule always_bind [OF pool_end [OF assms]], goal_cases)
  case (1 x t)
  obtain attempt b where x: "x = (attempt, b)" by (cases x)
  from 1 [unfolded x] show ?case
  proof (cases rule: attemptEnds_cases)
    case 3
    show ?thesis
      unfolding x prod.case 3(1,2) option.case
      by (rule always_bind [OF finishFallback_lb [OF 3(3,4)]]) auto
  qed (auto simp: x lbEnds_def lbOf_def ends_def)
qed

lemma selectBothPools_end:
  assumes "eligibleList req subs" "eligibleList req regular" "idle z0 z"
  shows "always (worldOk tr ep md) (lbEnds (servable tr ep md req) z0) (selectBothPools g req subs regular loadMap) z"
proof -
  let ?ok = "worldOk tr ep md" and ?P = "servable tr ep md req"
  have last: "always ?ok (lbEnds ?P z0) (andThen (finishFallback g req sub b2) (\<lambda>(r2, _).
      case lb_result r2 of Inr sel \<Rightarrow> Return r2 | Inl _ \<Rightarrow> Return r)) t"
    if "idle z0 t" "listed req (at_selectionOrder sub)" "lb_result r = Inl err" for sub b2 r t err
    by (rule always_bind [OF finishFallback_lb [OF that(1,2)]])
      (use that(3) in \<open>auto simp: lbEnds_def ends_def split: sum.splits\<close>)
  have queue: "always ?ok (lbEnds ?P z0)
      (andThen (case at_err reg of Some err \<Rightarrow> Return (lbOf reg (Inl err), b1) | None \<Rightarrow> finishFallback g req reg b1) (\<lambda>(r, b2).
         case lb_result r of Inr sel \<Rightarrow> Return r
         | Inl err \<Rightarrow> andThen (finishFallback g req sub b2) (\<lambda>(r2, _).
             case lb_result r2 of Inr sel \<Rightarrow> Return r2 | Inl _ \<Rightarrow> Return r))) t"
    if "idle z0 t" "listed req (at_selectionOrder reg)" "listed req (at_selectionOrder sub)" for reg sub b1 t
  proof -
    have "always ?ok (\<lambda>x. lbEnds ?P z0 (fst x)) (case at_err reg of Some err \<Rightarrow> Return (lbOf reg (Inl err), b1) | None \<Rightarrow> finishFallback g req reg b1) t"
      using finishFallback_lb [OF that(1,2)] that(1) by (auto simp: lbEnds_def lbOf_def ends_def split: option.split)
    then show ?thesis
    proof (rule always_bind, goal_cases)
      case (1 x t')
      obtain r b2 where x: "x = (r, b2)" by (cases x)
      show ?case
      proof (cases "lb_result r")
        case (Inl err)
        with 1 x have "idle z0 t'" by (simp add: lbEnds_def ends_def)
        with last [OF this that(3) Inl] x Inl show ?thesis by (simp del: always_andThen)
      qed (use 1 x in simp)
    qed
  qed
  have second: "always ?ok (lbEnds ?P z0) (andThen (trySelectByLoadBalancePool g req regular loadMap b) (\<lambda>(reg, b1).
      if at_err reg \<noteq> None \<and> \<not> at_noCompactCandidates reg then Return (lbOf reg (Inl (the (at_err reg))))
      else case at_result reg of Some sel \<Rightarrow> Return (lbOf reg (Inr sel))
        | None \<Rightarrow> andThen (case at_err reg of Some err \<Rightarrow> Return (lbOf reg (Inl err), b1) | None \<Rightarrow> finishFallback g req reg b1) (\<lambda>(r, b2).
           case lb_result r of Inr sel \<Rightarrow> Return r
           | Inl err \<Rightarrow> andThen (finishFallback g req sub b2) (\<lambda>(r2, _).
               case lb_result r2 of Inr sel \<Rightarrow> Return r2 | Inl _ \<Rightarrow> Return r)))) t"
    if "idle z0 t" "listed req (at_selectionOrder sub)" for sub b t
  proof (rule always_bind [OF pool_end [OF assms(2) that(1)]], goal_cases)
    case (1 x t')
    obtain reg b1 where x: "x = (reg, b1)" by (cases x)
    from 1 [unfolded x] show ?case
    proof (cases rule: attemptEnds_cases)
      case (1 err)
      then show ?thesis
        using queue [OF 1(3,4) that(2), of b1] x by (auto simp: lbEnds_def lbOf_def ends_def simp del: always_andThen)
    next
      case 3
      then show ?thesis
        using queue [OF 3(3,4) that(2), of b1] x by (simp del: always_andThen)
    qed (auto simp: x lbEnds_def lbOf_def ends_def)
  qed
  show ?thesis
    unfolding selectBothPools_def
  proof (rule always_bind [OF pool_end [OF assms(1,3)]], goal_cases)
    case (1 x t)
    obtain sub b where x: "x = (sub, b)" by (cases x)
    from 1 [unfolded x] show ?case
    proof (cases rule: attemptEnds_cases)
      case (1 err)
      then show ?thesis
        using second [OF 1(3,4), of b] x by (auto simp: lbEnds_def lbOf_def ends_def simp del: always_andThen)
    next
      case 3
      have "always ?ok (lbEnds ?P z0) (andThen (finishFallback g req sub b) (\<lambda>(r, _). Return r)) t"
        by (rule always_bind [OF finishFallback_lb [OF 3(3,4)]]) auto
      then show ?thesis
        using second [OF 3(3,4), of b] 3 x by (simp del: always_andThen)
    qed (auto simp: x lbEnds_def lbOf_def ends_def)
  qed
qed

lemma schedulerFilter_eligible: "distinct (map a_ID accounts) \<Longrightarrow> eligibleList req (schedulerFilter e req accounts)"
  by (auto simp: eligibleList_def schedulerFilter_def distinct_map_filter)

lemma listCandidates_end:
  "always (worldOk tr ep md) (\<lambda>r z'. z' = z \<and> (case r of Inl _ \<Rightarrow> True | Inr filtered \<Rightarrow> eligibleList req filtered)) (listCandidates g req) z"
  unfolding listCandidates_def
  by (auto simp: worldOk_def intro!: schedulerFilter_eligible split: sum.split)

lemma eligible_partition:
  "eligibleList req xs \<Longrightarrow> eligibleList req (filter p xs)"
  by (auto simp: eligibleList_def distinct_map_filter)

lemma selectByLoadBalance_end:
  assumes "idle z0 z"
  shows "always (worldOk tr ep md) (lbEnds (servable tr ep md req) z0) (selectByLoadBalance g req) z"
  unfolding selectByLoadBalance_def
proof (rule always_bind [OF listCandidates_end], goal_cases)
  case (1 r t)
  then show ?case
    using assms selectFromPool_end selectBothPools_end
    by (cases r) (auto simp: lbEnds_def ends_def comp_def eligible_partition)
qed

end
