(* ===== verification/SelectSettles.thy ===== *)
theory SelectSettles
  imports SelectFacts
begin

text \<open>
  The two sticky layers of \<^verbatim>\<open>Select\<close>, and what a whole selection leaves behind.
\<close>

section \<open>Sticky layers\<close>

text \<open>Like \<^const>\<open>selSettled\<close>, with no session bound at all.\<close>

definition kept :: "(schedAccount \<Rightarrow> bool) \<Rightarrow> selState \<Rightarrow> selection option \<Rightarrow> selState \<Rightarrow> bool" where
  "kept P z0 r z = (case r of
       None \<Rightarrow> idle z0 z
     | Some sel \<Rightarrow> since z0 (x_Release sel) (a_ID (x_Account sel)) {} z \<and> P (x_Account sel) \<and>
         (x_Acquired sel \<longleftrightarrow> x_WaitPlan sel = None) \<and> (\<not> x_Acquired sel \<longrightarrow> x_Release sel = None))"

lemma kept_None [simp]: "kept P z0 None z = idle z0 z"
  by (simp add: kept_def)

lemma kept_settled: "kept P z0 r z \<Longrightarrow> selSettled P z0 r z"
  by (auto simp: kept_def selSettled_def intro: since_mono split: option.splits)

lemma kept_waiting: "idle z0 z \<Longrightarrow> P a \<Longrightarrow> kept P z0 (Some (waitingSelection a i t m)) z"
  using since_None [of z0 0 "{}" z "a_ID a"] by (simp add: kept_def waitingSelection_def)

lemma forget_end:
  assumes "idle z0 z"
  shows "always ok (kept P z0) (andThen (deleteStickySessionAccountID g gid h) (\<lambda>_. Return None)) z"
    "always ok (kept P z0) (andThen (writeCache (DeleteResponseAccount k r)) (\<lambda>_. Return None)) z"
  by (rule always_bind [OF unbind_since(1) [OF assms]], simp)
     (rule always_bind [OF cacheWrite_since [OF assms]], simp_all)

text \<open>The tail both layers share: take the slot of the account and keep the binding alive, or queue.\<close>

lemma sticky_tail:
  assumes "idle z0 z" "P a" "a_ID a = i"
    and "\<And>slot z. since z0 slot i {} z \<Longrightarrow> always ok (\<lambda>_. since z0 slot i {}) touch z"
    and "\<And>z. idle z0 z \<Longrightarrow> always ok (kept P z0) other z"
  shows "always ok (kept P z0) (andThen (tryAcquireAccountSlot g i m) (\<lambda>slot. case slot of
      Inr (True, release) \<Rightarrow> andThen touch (\<lambda>_. Return (Some (acquiredSelection a release)))
    | _ \<Rightarrow> other)) z"
proof (rule after_slot [OF assms(1)], goal_cases)
  case (2 slot z)
  have "always ok (kept P z0) (andThen touch (\<lambda>_. Return (Some (acquiredSelection a slot)))) z"
    by (rule always_bind [OF assms(4) [OF 2]]) (use assms(2,3) in \<open>simp add: kept_def acquiredSelection_def\<close>)
  then show ?case by (simp del: always_andThen)
qed (use assms(5) in simp_all)

lemma getSticky_state:
  "always ok (\<lambda>_ z'. z' = z) (getStickySessionAccountID g gid h) z"
  by (simp add: getStickySessionAccountID_def Let_def)

lemma sessionConfirm_end:
  assumes "idle z0 z" "a_ID a0 = i" "i \<notin> set (r_ExcludedIDs req)"
  shows "always (worldOk tr ep md) (kept (servable tr ep md req) z0) (sessionConfirm g req h i a0) z"
  unfolding sessionConfirm_def
proof (rule always_ask_bind, goal_cases)
  case (1 e)
  show ?case
  proof (cases "case recheckFor g req (r_RequireCompact req) a0 e of None \<Rightarrow> None
      | Some a \<Rightarrow> if isAccountTransportCompatible e a (r_RequiredTransport req) then Some a else None")
    case None
    then show ?thesis using forget_end(1) [OF assms(1)] by (simp del: always_andThen)
  next
    case (Some a)
    then have r: "recheckFor g req (r_RequireCompact req) a0 e = Some a" "isAccountTransportCompatible e a (r_RequiredTransport req)"
      by (auto split: option.splits if_splits)
    have a: "a_ID a = i" "servable tr ep md req a"
      using recheckFor_fits [OF 1 r(1)] transport_fits [OF 1 r(2)] assms(2,3) by (auto simp: servable_def)
    show ?thesis
      unfolding Some option.case
      by (rule sticky_tail [where P = "servable tr ep md req", OF assms(1) a(2,1)], erule unbind_since(2))
        (use a in \<open>auto simp: kept_waiting\<close>)
  qed
qed

lemma sessionLookup_id: "worldOk tr ep md e \<Longrightarrow> sessionLookup g req i e = Inr a \<Longrightarrow> a_ID a = i"
  by (auto simp: sessionLookup_def dest: getSchedulable_id split: option.splits if_splits)

lemma selectBySessionHash_end:
  assumes "idle z0 z"
  shows "always (worldOk tr ep md) (kept (servable tr ep md req) z0) (selectBySessionHash g req) z"
proof (cases "TrimSpace (r_SessionHash req) = [] \<or> \<not> g_cache g")
  case True
  with assms show ?thesis by (auto simp: selectBySessionHash_def Let_def)
next
  case False
  let ?ok = "worldOk tr ep md" and ?P = "servable tr ep md req"
  have found: "always ?ok (kept ?P z0) (case x of
      Inl clear \<Rightarrow> if clear then andThen (deleteStickySessionAccountID g gid h) (\<lambda>_. Return None) else Return None
    | Inr a0 \<Rightarrow> sessionConfirm g req h i a0) z"
    if "?ok e" "x = sessionLookup g req i e" "i \<notin> set (r_ExcludedIDs req)" for x e gid h i
    using that forget_end(1) [OF assms] assms sessionConfirm_end [OF assms sessionLookup_id [OF that(1)]]
    by (auto simp del: always_andThen split: sum.split)
  have lookup: "always ?ok (\<lambda>_ z'. z' = z) (if r_StickyAccountID req > 0 then Return (Inr (r_StickyAccountID req))
      else getStickySessionAccountID g (r_GroupID req) (TrimSpace (r_SessionHash req))) z"
    using getSticky_state by simp
  show ?thesis
    unfolding selectBySessionHash_def Let_def if_not_P [OF False]
  proof (rule always_bind [OF lookup], goal_cases)
    case (1 r t)
    then show ?case using assms by (auto intro!: always_ask_bind found simp del: always_andThen split: sum.split)
  qed
qed

abbreviation anyTransport :: "scheduleRequest \<Rightarrow> scheduleRequest" where
  "anyTransport req \<equiv> req\<lparr>r_RequiredTransport := []\<rparr>"

lemma previousConfirm_end:
  assumes "idle z0 z" "a_ID a0 = i" "i \<notin> set (r_ExcludedIDs req)"
  shows "always (worldOk tr ep md) (kept (servable tr ep md (anyTransport req)) z0) (previousConfirm g req h i a0) z"
  unfolding previousConfirm_def Let_def
proof (rule always_ask_bind, goal_cases)
  case (1 e)
  let ?r = "recheckSelectedOpenAIAccountFromDB g e a0 (r_GroupID req) ''openai'' (r_RequestedModel req) (r_RequireCompact req)
    (r_RequiredCapability req)"
  show ?case
  proof (cases ?r)
    case None
    then show ?thesis using forget_end(2) [OF assms(1)] by (simp del: always_andThen)
  next
    case (Some a)
    have a: "a_ID a = i" "servable tr ep md (anyTransport req) a"
      using recheck_fits [OF 1 Some] assms(2,3) by (auto simp: servable_def)
    have "always (worldOk tr ep md) (kept (servable tr ep md (anyTransport req)) z0)
      (andThen (tryAcquireAccountSlot g i (a_Concurrency a)) (\<lambda>slot. case slot of
          Inr (True, release) \<Rightarrow> andThen (writeCache (BindResponseAccount (derefGroupID (r_GroupID req)) h i))
              (\<lambda>_. Return (Some (acquiredSelection a release)))
        | _ \<Rightarrow> if g_concurrency g
            then Return (Some (waitingSelection a i (g_StickySessionWaitTimeout g) (g_StickySessionMaxWaiting g))) else Return None)) z"
      by (rule sticky_tail [where P = "servable tr ep md (anyTransport req)", OF assms(1) a(2,1)], erule cacheWrite_since)
        (use a in \<open>auto simp: kept_waiting\<close>)
    with Some show ?thesis using forget_end(2) [OF assms(1)] by (simp del: always_andThen)
  qed
qed

lemma previousLookup_id: "worldOk tr ep md e \<Longrightarrow> previousLookup g req i e = Inr a \<Longrightarrow> a_ID a = i"
  by (auto simp: previousLookup_def dest: getSchedulable_id split: option.splits if_splits)

lemma previousResponse_end:
  assumes "idle z0 z"
  shows "always (worldOk tr ep md) (kept (servable tr ep md (anyTransport req)) z0)
    (selectAccountByPreviousResponseIDForCapability g req) z"
proof -
  let ?ok = "worldOk tr ep md" and ?P = "servable tr ep md (anyTransport req)"
  have found: "always ?ok (kept ?P z0) (case x of
      Inl clear \<Rightarrow> if clear then andThen (writeCache (DeleteResponseAccount k h)) (\<lambda>_. Return None) else Return None
    | Inr a0 \<Rightarrow> previousConfirm g req h i a0) z"
    if "?ok e" "x = previousLookup g req i e" "i \<notin> set (r_ExcludedIDs req)" for x e k h i
    using that forget_end(2) [OF assms] assms previousConfirm_end [OF assms previousLookup_id [OF that(1)]]
    by (auto simp del: always_andThen split: sum.split)
  show ?thesis
    unfolding selectAccountByPreviousResponseIDForCapability_def Let_def
    using assms by (auto intro!: always_ask_bind found simp del: always_andThen split: sum.split)
qed

lemma previousResponseLayer_end:
  assumes "idle z0 z"
  shows "always (worldOk tr ep md) (kept (servable tr ep md req) z0) (previousResponseLayer g req) z"
proof (cases "TrimSpace (r_PreviousResponseID req) \<noteq> [] \<and> r_Platform req = ''openai'' \<and>
    (\<not> r_StickyWeighted req \<or> \<not> r_PreviousResponseCanMove req)")
  case True
  show ?thesis
    unfolding previousResponseLayer_def if_P [OF True]
  proof (rule always_bind [OF previousResponse_end [OF assms]], goal_cases)
    case (1 r t)
    show ?case
    proof (cases r)
      case (Some sel)
      note k = 1 [unfolded Some kept_def option.case]
      have fits: "kept (servable tr ep md req) z0 (Some sel) t"
        if "worldOk tr ep md e" "isAccountTransportCompatible e (x_Account sel) (r_RequiredTransport req)" for e
        using k transport_fits [OF that] by (auto simp: kept_def servable_def)
      have "always (worldOk tr ep md) (kept (servable tr ep md req) z0) (andThen (releaseAccountSlot (x_Release sel)) (\<lambda>_. Return None)) t"
        by (rule always_bind [OF release_since [OF conjunct1 [OF k]]]) simp
      with fits Some show ?thesis by (auto intro!: always_ask_bind simp del: always_andThen)
    qed (use 1 in simp)
  qed
qed (use assms in \<open>auto simp: previousResponseLayer_def\<close>)

section \<open>Select\<close>

text \<open>
  The end of a selection: an error with nothing held and no session bound, or an account that fits the request, with at most
  its own slot held, and no session bound to another.
\<close>

definition selected :: "(schedAccount \<Rightarrow> bool) \<Rightarrow> selState \<Rightarrow> (selErr + selection) \<times> decision \<Rightarrow> selState \<Rightarrow> bool" where
  "selected P z0 r z \<longleftrightarrow> ends P z0 (fst r) z \<and>
     (case fst r of Inl _ \<Rightarrow> True | Inr sel \<Rightarrow> d_SelectedAccountID (snd r) = a_ID (x_Account sel))"

lemma select_previous:
  assumes "kept P z0 (Some sel) z" "d_SelectedAccountID d = a_ID (x_Account sel)"
  shows "always ok (selected P z0)
    (andThen (if r_SessionHash req \<noteq> [] then BindStickySession g (r_GroupID req) (r_SessionHash req) (a_ID (x_Account sel))
              else Return ()) (\<lambda>_. Return (Inr sel, d))) z"
proof -
  let ?i = "a_ID (x_Account sel)"
  from assms have s: "since z0 (x_Release sel) ?i {?i} z"
    and rest: "P (x_Account sel)" "x_Acquired sel = (x_WaitPlan sel = None)" "\<not> x_Acquired sel \<longrightarrow> x_Release sel = None"
    by (auto simp: kept_def intro: since_mono)
  have "always ok (\<lambda>_. since z0 (x_Release sel) ?i {?i})
      (if r_SessionHash req \<noteq> [] then BindStickySession g (r_GroupID req) (r_SessionHash req) ?i else Return ()) z"
    using bind_since(2) [OF s] s by simp
  then show ?thesis
    by (rule always_bind) (use rest assms(2) in \<open>simp add: selected_def ends_def selSettled_def\<close>)
qed

lemma Select_end:
  assumes "idle z0 z"
  shows "always (worldOk tr ep md) (selected (servable tr ep md req) z0) (Select g req) z"
  unfolding Select_def
proof (rule always_bind [OF previousResponseLayer_end [OF assms]], goal_cases)
  case (1 prev t)
  let ?ok = "worldOk tr ep md" and ?P = "servable tr ep md req"
  have session: "always ?ok (kept ?P z0) (if r_StickyWeighted req then Return None else selectBySessionHash g req) t" if "idle z0 t"
    using that selectBySessionHash_end by simp
  show ?case
  proof (cases prev)
    case (Some sel)
    show ?thesis unfolding Some option.case by (rule select_previous [OF 1 [unfolded Some]]) simp
  next
    case None
    with 1 have t: "idle z0 t" by simp
    show ?thesis
      unfolding None option.case
    proof (rule always_bind [OF session [OF t]], goal_cases)
      case (1 s u)
      show ?case
      proof (cases s)
        case (Some sel)
        with 1 kept_settled show ?thesis by (auto simp: selected_def ends_def)
      next
        case None
        with 1 have u: "idle z0 u" by simp
        show ?thesis
          unfolding None option.case
          by (rule always_bind [OF selectByLoadBalance_end [OF u]])
            (auto simp: lbEnds_def selected_def ends_def Let_def split: sum.splits)
      qed
    qed
  qed
qed

end
