(* ===== verification/ProbeLimit.thy ===== *)
theory ProbeLimit
  imports SelectSettles
begin

text \<open>
  The walk over an order asks for at most 64 slots once the limit is on, however long the order is: every request for a
  slot is counted before it is sent.
\<close>

definition spent :: "int \<Rightarrow> probeBudget \<Rightarrow> selState \<Rightarrow> bool" where
  "spent n b z \<longleftrightarrow> pb_limited b \<and> pb_acquires b \<le> openAIAccountSelectionProbeLimit \<and> int (z_probes z) = n + pb_acquires b"

definition spentAfter :: "int \<Rightarrow> walkResult \<Rightarrow> selState \<Rightarrow> bool" where
  "spentAfter n x z \<longleftrightarrow> spent n (snd (snd x)) z"

definition counts :: "int \<Rightarrow> walk \<Rightarrow> bool" where
  "counts n p \<longleftrightarrow> (\<forall>b cb z. spent n b z \<longrightarrow> always (\<lambda>_. True) (spentAfter n) (p b cb) z)"

lemma spent_probes: "spent n b z \<Longrightarrow> z_probes z' = z_probes z \<Longrightarrow> spent n b z'"
  by (simp add: spent_def)

lemma release_probes: "always ok (\<lambda>_ z'. z_probes z' = z_probes z) (releaseAccountSlot slot) z"
  by (simp add: releaseAccountSlot_def Let_def split: option.split)

lemma bind_probes: "always ok (\<lambda>_ z'. z_probes z' = z_probes z) (bindSession g req i) z"
  by (simp add: bindSession_def BindStickySession_def setStickySessionAccountID_def writeCache_def Let_def)

lemma acquire_spent:
  assumes "spent n b z"
  shows "always ok (\<lambda>x. spent n (snd x)) (tryAcquireOpenAIAccountSlot g i m b) z"
  using assms
  by (auto simp: tryAcquireOpenAIAccountSlot_def tryAcquireAccountSlot_def recordAcquire_def spent_def Let_def split: slotReply.split)

lemma recheck_spent: "spent n b z \<Longrightarrow> spent n (snd (consumeOpenAISelectionDBRecheck g b)) z"
  by (simp add: consumeOpenAISelectionDBRecheck_def recordRecheck_def spent_def)

text \<open>The continuations of a slot request and of a release.\<close>

lemma after_acquire_spent:
  assumes "spent n b z"
    and "\<And>b z. spent n b z \<Longrightarrow> always ok (spentAfter n) (none b) z" "\<And>err b z. spent n b z \<Longrightarrow> always ok (spentAfter n) (failed err b) z"
    and "\<And>b z. spent n b z \<Longrightarrow> always ok (spentAfter n) (busy b) z" "\<And>slot b z. spent n b z \<Longrightarrow> always ok (spentAfter n) (got slot b) z"
  shows "always ok (spentAfter n) (andThen (tryAcquireOpenAIAccountSlot g i m b) (\<lambda>(attempt, b1).
     case attempt of None \<Rightarrow> none b1 | Some (Inl err) \<Rightarrow> failed err b1
     | Some (Inr (acquired, slot)) \<Rightarrow> if \<not> acquired then busy b1 else got slot b1)) z"
  by (rule always_bind [OF acquire_spent [OF assms(1)]])
    (use assms(2-5) in \<open>auto split: prod.split option.split sum.split\<close>)

lemma release_spent:
  assumes "spent n b z" "\<And>z. spent n b z \<Longrightarrow> always ok (spentAfter n) p z"
  shows "always ok (spentAfter n) (andThen (releaseAccountSlot slot) (\<lambda>_. p)) z"
  by (rule always_bind [OF release_probes]) (rule assms(2) [OF spent_probes [OF assms(1)]])

lemma keep_spent: "spent n b z \<Longrightarrow> always ok (spentAfter n) (keepAccount g req f slot cb b) z"
  unfolding keepAccount_def
  by (rule always_bind [OF bind_probes]) (auto simp: spentAfter_def intro: spent_probes)

lemma return_spent: "spent n b z \<Longrightarrow> always ok (spentAfter n) (Return (r, cb, b)) z"
  by (simp add: spentAfter_def)

lemma countsD: "counts n p \<Longrightarrow> spent n b z \<Longrightarrow> always (\<lambda>_. True) (spentAfter n) (p b cb) z"
  by (simp add: counts_def)

lemma reacquire_spent:
  assumes "counts n next" "spent n b z"
  shows "always (\<lambda>_. True) (spentAfter n) (reacquire g req f b cb next) z"
  unfolding reacquire_def
  by (intro after_acquire_spent assms(2) countsD [OF assms(1)] return_spent keep_spent)

lemma confirm_spent:
  assumes "counts n next" "spent n b z"
  shows "always (\<lambda>_. True) (spentAfter n) (confirmAccount g req a slot f1 b cb next) z"
proof -
  obtain allowed b1 where c: "consumeOpenAISelectionDBRecheck g b = (allowed, b1)" by (cases "consumeOpenAISelectionDBRecheck g b")
  with recheck_spent [OF assms(2), of g] have b1: "spent n b1 z" by simp
  note release = release_spent [OF b1, where ok = "\<lambda>_. True"]
  have checked: "always (\<lambda>_. True) (spentAfter n) (case r of
      None \<Rightarrow> andThen (releaseAccountSlot slot) (\<lambda>_. next b1 cb)
    | Some f \<Rightarrow> if r_RequireCompact req \<and> openAICompactSupportTier (Some f) = 0
        then andThen (releaseAccountSlot slot) (\<lambda>_. next b1 True)
        else if a_Concurrency f \<noteq> a_Concurrency a
        then andThen (releaseAccountSlot slot) (\<lambda>_. reacquire g req f b1 cb next)
        else keepAccount g req f slot cb b1) z" for r
    using b1 release countsD [OF assms(1)] reacquire_spent [OF assms(1)] keep_spent
    by (auto simp del: always_andThen split: option.split)
  show ?thesis
    unfolding confirmAccount_def c prod.case
    using release return_spent checked by (auto intro!: always_ask_bind simp del: always_andThen)
qed

lemma visit_spent:
  assumes "counts n next" "spent n b z"
  shows "always (\<lambda>_. True) (spentAfter n) (visitCandidate g req c b cb next) z"
proof (cases "case c_account c of None \<Rightarrow> True | Some a \<Rightarrow> knownFull c a")
  case True
  then show ?thesis using countsD [OF assms] by (auto simp: visitCandidate_def split: option.splits)
next
  case False
  then obtain a where a: "c_account c = Some a" "\<not> knownFull c a" by (auto split: option.splits)
  have got: "always (\<lambda>_. True) (spentAfter n) (andThen (ask (\<lambda>e. ifCompatible req e (freshFor g req a e))) (\<lambda>fresh1.
      case fresh1 of
        None \<Rightarrow> andThen (releaseAccountSlot slot) (\<lambda>_. next b1 cb)
      | Some f1 \<Rightarrow> confirmAccount g req a slot f1 b1 cb next)) t" if "spent n b1 t" for slot b1 t
    using that release_spent [OF that] countsD [OF assms(1)] confirm_spent [OF assms(1)]
    by (auto intro!: always_ask_bind simp del: always_andThen split: option.split)
  show ?thesis
    unfolding visitCandidate_def a(1) option.case if_not_P [OF a(2)]
    by (intro after_acquire_spent assms(2) countsD [OF assms(1)] return_spent got)
qed

lemma walk_counts: "counts n (tryAcquireOpenAISelectionOrderWithBudget g req order)"
proof (induction order)
  case (Cons c cs)
  then show ?case by (simp add: counts_def visit_spent)
qed (simp add: counts_def spentAfter_def)

end
