(* ===== verification/Scheduler.thy ===== *)
theory Scheduler
  imports ProbeLimit
begin

text \<open>
  The properties of the OpenAI account scheduler, stated over its definitions in \<open>Candidates\<close>, \<open>LoadPlan\<close> and
  \<open>AccountSelect\<close>.
\<close>

section \<open>An example account\<close>

definition exampleSched :: "int \<Rightarrow> int \<Rightarrow> schedAccount" where
  "exampleSched i p = \<lparr>a_ID = i, a_Platform = ''openai'', a_Type = ''oauth'', a_Status = ''active'', a_Credentials = None,
     a_Extra = None, a_OwnerUserID = None, a_Concurrency = 3, a_LoadFactor = None, a_Schedulable = True, a_CreatedAt = None,
     a_RateLimitResetAt = None, a_OverloadUntil = None, a_TempUnschedulableUntil = None,
     sa_Priority = p, sa_PrivatePriority = None, sa_LastUsedAt = None, sa_SessionWindowEnd = None,
     sa_AccountGroups = [], sa_GroupIDs = []\<rparr>"

definition exampleCandidate :: "int \<Rightarrow> int \<Rightarrow> rat \<Rightarrow> candidate" where
  "exampleCandidate i p s = \<lparr>c_account = Some (exampleSched i p), c_loadInfo = None, c_loadKnown = False, c_priority = 0,
     c_score = s, c_errorRate = 0, c_ttft = 0, c_hasTTFT = False\<rparr>"

definition exampleRequest :: scheduleRequest where
  "exampleRequest = \<lparr>r_GroupID = None, r_Platform = ''openai'', r_SessionHash = ''s'', r_StickyAccountID = 0,
     r_StickyPreviousAccountID = 0, r_StickyWeighted = False, r_SubscriptionPriority = False, r_PreserveStickyBinding = False,
     r_PreviousResponseID = [], r_PreviousResponseCanMove = False, r_UseUpstreamTokenCost = True, r_RequestedModel = [],
     r_RequiredTransport = [], r_RequiredCapability = [], r_RequiredImageCapability = [], r_RequireCompact = False,
     r_ExcludedIDs = []\<rparr>"

lemmas example_defs = exampleSched_def exampleCandidate_def exampleRequest_def

section \<open>Orders\<close>

text \<open>
  (C16) The bounded heap of \<^verbatim>\<open>selectTopKOpenAICandidates\<close> returns what sorting all candidates by score, priority, load,
  waiting count, last use and number and keeping the first \<open>k\<close> would; a count below one means one.
\<close>

theorem top_k_selection:
  assumes "distinctAccounts cs"
  shows "selectTopKOpenAICandidates cs topK = take (nat (max 1 topK)) (sort_key rankKey cs)"
  by (rule selectTopK_take [OF assms])

theorem top_k_selection_witness:
  "map idOf (selectTopKOpenAICandidates [exampleCandidate 1 0 2, exampleCandidate 2 0 1, exampleCandidate 3 0 5] 2) = [3, 1]"
  by (subst top_k_selection)
    (simp_all add: example_defs distinctAccounts_def idOf_def rankKey_def openAICandidatePriority_def
      openAICandidateLoadRate_def openAICandidateWaitingCount_def lastUsedKey_def)

text \<open>
  A hybrid selection of \<open>k\<close> out of more than \<open>k\<close> candidates has exactly \<open>k\<close> members and no account twice, and its first half,
  rounded up, are the best candidates in order: at most half of it is given away for fairness.
\<close>

theorem hybrid_share:
  assumes "distinctAccounts cs" "0 < topK" "topK < int (length cs)"
  shows "length (selectHybridTopKOpenAICandidates clk cs topK req) = nat topK \<and>
    distinctAccounts (selectHybridTopKOpenAICandidates clk cs topK req) \<and>
    take (nat ((topK + 1) div 2)) (selectHybridTopKOpenAICandidates clk cs topK req) =
      take (nat ((topK + 1) div 2)) (sort_key rankKey cs)"
proof -
  define f where "f = openAIHybridFairCandidateCount topK (int (length cs))"
  have f: "0 \<le> f" "2 * f \<le> topK" using fairCount_bounds assms(2) by (simp_all add: f_def)
  then have half: "nat ((topK + 1) div 2) \<le> nat (topK - f)" by linarith
  then have "nat ((topK + 1) div 2) \<le> length (take (nat (topK - f)) (sort_key rankKey cs))" using assms(3) f by simp
  then have "take (nat ((topK + 1) div 2)) (selectHybridTopKOpenAICandidates clk cs topK req) =
      take (nat ((topK + 1) div 2)) (sort_key rankKey cs)"
    using half unfolding selectHybrid_split [OF assms] f_def [symmetric] by (simp add: min_absorb1)
  moreover have "length (selectHybridTopKOpenAICandidates clk cs topK req) = nat topK"
    using selectHybrid_length [OF assms(1), of clk topK req] assms(2,3) by simp
  ultimately show ?thesis using distinctAccounts_sub [OF selectHybrid_sub [OF assms(1)] assms(1)] by blast
qed

theorem hybrid_share_witness:
  "length (selectHybridTopKOpenAICandidates (\<lambda>_. 0)
     [exampleCandidate 1 0 2, exampleCandidate 2 0 1, exampleCandidate 3 0 5] 2 exampleRequest) = 2"
  using hybrid_share [of "[exampleCandidate 1 0 2, exampleCandidate 2 0 1, exampleCandidate 3 0 5]" 2 "\<lambda>_. 0" exampleRequest]
  by (simp add: example_defs distinctAccounts_def idOf_def)

text \<open>
  (C15) The order in which slots are asked for walks the priorities upwards, names no account twice and none that was not a candidate, and
  has, of every priority, all its candidates or exactly \<open>k\<close> and up to 32 probes beyond them, at most as many as \<open>k\<close>.
\<close>

theorem layered_order:
  fixes clk :: clock and cs :: "candidate list" and topK :: int and req :: scheduleRequest
  assumes "distinctAccounts cs" "0 < topK"
  defines "order \<equiv> snd (buildOpenAIPriorityLayeredSelectionOrders clk cs topK req)"
  shows "sorted (map openAICandidatePriority order) \<and> distinctAccounts order \<and> mset order \<subseteq># mset cs \<and>
    length (filter (\<lambda>c. openAICandidatePriority c = p) order) =
      min (nat (topK + min topK 32)) (length (filter (\<lambda>c. openAICandidatePriority c = p) cs))"
  using layered_spec [OF assms(1,2), of clk req "fst (buildOpenAIPriorityLayeredSelectionOrders clk cs topK req)" order p]
  by (simp add: order_def priorityGroup_def)

theorem layered_order_witness:
  "length (filter (\<lambda>c. openAICandidatePriority c = 4) (snd (buildOpenAIPriorityLayeredSelectionOrders (\<lambda>_. 0)
     [exampleCandidate 1 4 2, exampleCandidate 2 7 1, exampleCandidate 3 4 5, exampleCandidate 4 4 1] 1 exampleRequest))) = 2"
  using layered_order [of "[exampleCandidate 1 4 2, exampleCandidate 2 7 1, exampleCandidate 3 4 5, exampleCandidate 4 4 1]" 1
      "\<lambda>_. 0" exampleRequest 4]
  by (simp add: example_defs distinctAccounts_def idOf_def openAICandidatePriority_def)

text \<open>
  A plan's order holds accounts of the list it was made from, and none twice; an order widened for cost holds all of them.
\<close>

theorem plan_order:
  fixes env :: planEnv and req :: scheduleRequest and filtered :: "schedAccount list" and loadMap :: "int \<rightharpoonup> accountLoadInfo" and clk :: clock
  assumes "distinct (map a_ID filtered)"
  defines "plan \<equiv> buildOpenAIAccountLoadPlan env req filtered loadMap"
  defines "order \<equiv> buildOpenAIRuntimeSelectionOrder clk req plan"
  shows "distinctAccounts order \<and> c_account ` set order \<subseteq> Some ` set filtered \<and>
    (lp_includeOverflowFallback plan \<and> \<not> r_RequireCompact req \<longrightarrow> mset (map c_account order) = mset (map Some filtered))"
proof (intro conjI impI)
  show "distinctAccounts order" unfolding order_def plan_def by (rule runtimeOrder_accounts(1) [OF assms(1)])
  show "c_account ` set order \<subseteq> Some ` set filtered"
    using runtimeOrder_accounts(2) [OF assms(1), of _ clk req env loadMap] by (fastforce simp: order_def plan_def)
  assume wide: "lp_includeOverflowFallback plan \<and> \<not> r_RequireCompact req"
  have d: "distinctAccounts (lp_candidates plan)"
    using plan_distinct [OF assms(1), of env req loadMap] by (rule distinctAccounts_sub [rotated]) (simp add: plan_def)
  have ne: "filtered \<noteq> []" "0 < lp_topK plan"
    using wide by (auto simp: plan_def buildOpenAIAccountLoadPlan_def Let_def effectiveOpenAIHybridTopK_def split: if_splits)
  have "order = poolSelectionOrder (lap 0 (pe_clock env)) req (lp_topK plan) True (lp_candidates plan)"
    using wide unfolding order_def buildOpenAIRuntimeSelectionOrder_def
    by (simp add: plan_def selectionOrder_tiered tieredOrder_def Let_def)
  then have "mset order = mset (lp_candidates plan)" using poolSelectionOrder_mset(2) [OF d ne(2)] by simp
  then have "mset (map c_account order) = mset (map c_account (lp_candidates plan))" by simp
  then show "mset (map c_account order) = mset (map Some filtered)" using wide plan_accounts(1) by (simp only: plan_def if_False)
qed

definition exampleWeights :: scoreWeights where
  "exampleWeights = \<lparr>sw_Priority = 1, sw_Load = 1, sw_Queue = 1, sw_ErrorRate = 1, sw_TTFT = 1, sw_Reset = 0, sw_QuotaHeadroom = 0,
     sw_UpstreamCost = 1, sw_Previous = 0, sw_SessionSticky = 0\<rparr>"

definition exampleEnv :: planEnv where
  "exampleEnv = \<lparr>pe_userID = 0, pe_stats = newOpenAIAccountRuntimeStats, pe_weights = exampleWeights, pe_lbTopK = 1, pe_now = 0,
     pe_clock = (\<lambda>_. 0), pe_hasSnapshot = False, pe_schedulingRate = (\<lambda>a. Some (of_int (a_ID a))),
     pe_medianRate = (\<lambda>rs. Some (rs ! 0)), pe_quotaHeadroom = (\<lambda>_. 0)\<rparr>"

lemma example_widened:
  "lp_includeOverflowFallback (buildOpenAIAccountLoadPlan exampleEnv exampleRequest [exampleSched 1 0, exampleSched 2 0] Map.empty)"
  by (simp add: buildOpenAIAccountLoadPlan_def example_defs exampleEnv_def exampleWeights_def accountOf_def
      openAIUpstreamCostFactors_def rateSamples_def costEligible_def IsOpenAIApiKey_def IsOpenAIOAuth_def IsOpenAI_def
      List.map_filter_simps costFactor_def clamp01_def neutralFactor_def Let_def)

theorem plan_order_witness:
  "mset (map c_account (buildOpenAIRuntimeSelectionOrder (\<lambda>_. 0) exampleRequest
     (buildOpenAIAccountLoadPlan exampleEnv exampleRequest [exampleSched 1 0, exampleSched 2 0] Map.empty))) =
   {#Some (exampleSched 1 0), Some (exampleSched 2 0)#}"
  using plan_order [of "[exampleSched 1 0, exampleSched 2 0]" "\<lambda>_. 0" exampleRequest exampleEnv Map.empty] example_widened
  by (simp add: exampleRequest_def) (simp add: exampleSched_def)

text \<open>
  A request that names a session or a previous response gets the same order for the same accounts, loads and statistics at
  every moment: the clock does not enter it.
\<close>

theorem session_order_stable:
  assumes "anchored req"
  shows "buildOpenAIRuntimeSelectionOrder clk req (buildOpenAIAccountLoadPlan env req filtered loadMap) =
    buildOpenAIRuntimeSelectionOrder clk' req (buildOpenAIAccountLoadPlan (env\<lparr>pe_clock := clk'\<rparr>) req filtered loadMap)"
proof -
  have pool: "poolSelectionOrder c req k wide cs = poolSelectionOrder c' req k wide cs" for c c' k wide cs
    unfolding poolSelectionOrder_def Let_def anchored_weighted [OF assms, of c _ c'] ..
  have select: "buildOpenAISelectionOrder env req plan = buildOpenAISelectionOrder (env\<lparr>pe_clock := clk'\<rparr>) req plan" for plan
    unfolding buildOpenAISelectionOrder_def Let_def
    using pool [of "lap 0 (pe_clock env)" _ _ _ "lap 0 clk'"] pool [of "lap 1 (pe_clock env)" _ _ _ "lap 1 clk'"] by simp
  have candidate: "planCandidate (env\<lparr>pe_clock := clk'\<rparr>) = planCandidate env"
    by (simp add: fun_eq_iff planCandidate_def)
  have score: "planScore (env\<lparr>pe_clock := clk'\<rparr>) = planScore env"
    by (simp add: fun_eq_iff planScore_def Let_def)
  have plan: "buildOpenAIAccountLoadPlan env req filtered loadMap =
      buildOpenAIAccountLoadPlan (env\<lparr>pe_clock := clk'\<rparr>) req filtered loadMap"
    unfolding buildOpenAIAccountLoadPlan_def candidate score select Let_def by simp
  have layers: "buildOpenAIPriorityLayeredSelectionOrders c cs k req = buildOpenAIPriorityLayeredSelectionOrders c' cs k req" for c c' cs k
    unfolding buildOpenAIPriorityLayeredSelectionOrders_def anchored_layered [OF assms, of c _ _ c'] ..
  have "buildOpenAIRuntimeSelectionOrder clk req p = buildOpenAIRuntimeSelectionOrder clk' req p" for p
    unfolding buildOpenAIRuntimeSelectionOrder_def Let_def
    using layers [of "lap 0 clk" _ _ "lap 0 clk'"]
      layers [of "lap (3 * length (lp_candidates p)) clk" _ _ "lap (3 * length (lp_candidates p)) clk'"] by auto
  then show ?thesis unfolding plan .
qed

lemma example_anchored: "anchored exampleRequest"
proof -
  have t: "TrimSpace ''s'' = ''s''" "TrimSpace [] = []" by code_simp+
  show ?thesis by (simp add: anchored_def exampleRequest_def t selectionHash_def writeValue_def fnv64a_def fnv64aOffset_def)
qed

theorem session_order_stable_witness:
  "buildOpenAIRuntimeSelectionOrder (\<lambda>_. 17) exampleRequest
     (buildOpenAIAccountLoadPlan exampleEnv exampleRequest [exampleSched 1 0, exampleSched 2 0] Map.empty) =
   buildOpenAIRuntimeSelectionOrder (\<lambda>_. 23) exampleRequest
     (buildOpenAIAccountLoadPlan (exampleEnv\<lparr>pe_clock := \<lambda>_. 23\<rparr>) exampleRequest [exampleSched 1 0, exampleSched 2 0] Map.empty)"
  by (rule session_order_stable [OF example_anchored])

section \<open>The pseudo-random numbers\<close>

lemma xorshift_zero: "x XOR drop_bit n x = 0 \<Longrightarrow> 0 < n \<Longrightarrow> x = 0" for x :: "64 word"
  using xorshift_inj [of x n 0] by simp

lemma xorshift_left_zero:
  fixes x :: "64 word"
  assumes "x XOR push_bit n x = 0" "0 < n"
  shows "x = 0"
proof -
  have "push_bit n x = x XOR (x XOR push_bit n x)" by (simp only: xor.assoc [symmetric] xor_self_eq xor.left_neutral)
  then have same: "push_bit n x = x" by (simp only: assms(1) xor.right_neutral)
  have "\<not> bit x i" for i
  proof (induction i rule: less_induct)
    case (less i)
    have "bit x i \<longleftrightarrow> bit (push_bit n x) i" by (simp only: same)
    also have "\<dots> \<longleftrightarrow> n \<le> i \<and> i < 64 \<and> bit x (i - n)" by (auto simp: bit_push_bit_iff)
    finally show ?case using less [of "i - n"] assms(2) by auto
  qed
  then show ?thesis by (simp add: bit_word_eqI)
qed

text \<open>
  (C40) The xorshift generator is well formed for ever: from any seed its state never becomes zero, from which it could not
  move on, and every number it draws lies in \<open>[0, 1)\<close>.
\<close>

theorem selection_rng_wellformed:
  "((\<lambda>st. snd (nextFloat64 st)) ^^ n) (newOpenAISelectionRNG seed) \<noteq> 0 \<and>
   0 \<le> fst (nextFloat64 st) \<and> fst (nextFloat64 st) < 1"
proof -
  have step: "snd (nextFloat64 st) \<noteq> 0" if "st \<noteq> 0" for st
    using that xorshift_zero [of st 12] xorshift_left_zero [of "st XOR drop_bit 12 st" 25]
      xorshift_zero [of "(st XOR drop_bit 12 st) XOR push_bit 25 (st XOR drop_bit 12 st)" 27]
    by (auto simp: nextFloat64_def nextUint64_def Let_def)
  have state: "((\<lambda>st. snd (nextFloat64 st)) ^^ n) (newOpenAISelectionRNG seed) \<noteq> 0"
    by (induction n) (simp_all add: step newOpenAISelectionRNG_def)
  have "unat (drop_bit 11 u) < 9007199254740992" for u :: "64 word"
    using unsigned_less [of u, where 'a = nat] by (simp add: drop_bit_eq_div unat_div less_mult_imp_div_less)
  then have "(of_nat (unat (drop_bit 11 u)) :: rat) < of_nat 9007199254740992" for u :: "64 word" by (rule of_nat_less_iff [THEN iffD2])
  moreover have "(0 :: rat) \<le> of_nat (unat u)" for u :: "64 word" by (rule of_nat_0_le_iff)
  ultimately have "0 \<le> fst (nextFloat64 st) \<and> fst (nextFloat64 st) < 1"
    by (simp add: nextFloat64_def split_def del: of_nat_less_iff of_nat_less_numeral_iff)
  with state show ?thesis by simp
qed

section \<open>Statistics and costs\<close>

text \<open>
  After any sequence of reports the error rate the scheduler sees for an account is the moving average of that account's own
  reports, a number between 0 and 1, and the statistics count exactly the accounts that were reported on.
\<close>

theorem error_rate_own_reports:
  "fst (snapshot (runReports rs) i) = (if 0 < i then ownErrorRate i rs else 0) \<and>
   0 \<le> fst (snapshot (runReports rs) i) \<and> fst (snapshot (runReports rs) i) \<le> 1 \<and>
   st_accountCount (runReports rs) = int (card {j \<in> rr_account ` set rs. 0 < j})"
proof (cases "0 < i")
  case True
  then show ?thesis using ownErrorRate_bounds [of i rs] by (simp add: snapshot_errorRate runReports_count)
qed (simp add: snapshot_def runReports_count)

text \<open>
  Of two accounts of a pool with known upstream rates the cheaper one gets a cost factor at least as large, between 0 and 1.
\<close>

theorem cheaper_account_preferred:
  assumes "distinct (map a_ID accounts)" "a \<in> set accounts" "b \<in> set accounts"
    "costEligible a" "costEligible b" "rate a = Some ra" "rate b = Some rb" "ra \<le> rb"
  shows "\<exists>fa fb. openAIUpstreamCostFactors rate medianRate accounts (a_ID a) = Some fa \<and>
    openAIUpstreamCostFactors rate medianRate accounts (a_ID b) = Some fb \<and> 0 \<le> fb \<and> fb \<le> fa \<and> fa \<le> 1"
proof -
  have "0 \<le> neutralFactor" "neutralFactor \<le> 1" by (simp_all add: neutralFactor_def)
  moreover have "0 \<le> costFactor coverage center r" "costFactor coverage center r \<le> 1" for coverage center r
    by (simp_all add: costFactor_def clamp01_bounds Let_def)
  note bounds = calculation this
  let ?F = "openAIUpstreamCostFactors rate medianRate accounts"
  show ?thesis
  proof (cases "\<exists>coverage center. 0 \<le> coverage \<and> 0 < center \<and> (\<forall>x \<in> set accounts. ?F (a_ID x) =
      Some (if costEligible x \<and> rate x \<noteq> None then costFactor coverage center (the (rate x)) else neutralFactor))")
    case True
    then obtain coverage center where c: "0 \<le> coverage" "0 < center" "\<And>x. x \<in> set accounts \<Longrightarrow> ?F (a_ID x) =
        Some (if costEligible x \<and> rate x \<noteq> None then costFactor coverage center (the (rate x)) else neutralFactor)" by blast
    show ?thesis
      using c(3) [OF assms(2)] c(3) [OF assms(3)] assms(4-7) bounds costFactor_antimono [OF c(1,2) assms(8)] by simp
  next
    case False
    with costFactors_lookup [OF assms(1,2), of rate medianRate] costFactors_lookup [OF assms(1,3), of rate medianRate]
    have "?F (a_ID a) = Some neutralFactor" "?F (a_ID b) = Some neutralFactor" by blast+
    with bounds show ?thesis by simp
  qed
qed

theorem cheaper_account_preferred_witness:
  "\<exists>fa fb. openAIUpstreamCostFactors (\<lambda>a. Some (of_int (a_ID a))) (\<lambda>rs. Some (rs ! 0)) [exampleSched 1 0, exampleSched 2 0] 1 = Some fa \<and>
    openAIUpstreamCostFactors (\<lambda>a. Some (of_int (a_ID a))) (\<lambda>rs. Some (rs ! 0)) [exampleSched 1 0, exampleSched 2 0] 2 = Some fb \<and>
    0 \<le> fb \<and> fb \<le> fa \<and> fa \<le> 1"
  using cheaper_account_preferred [of "[exampleSched 1 0, exampleSched 2 0]" "exampleSched 1 0" "exampleSched 2 0"
      "\<lambda>a. Some (of_int (a_ID a))" 1 2 "\<lambda>rs. Some (rs ! 0)"]
  by (simp add: exampleSched_def costEligible_def IsOpenAIApiKey_def IsOpenAIOAuth_def IsOpenAI_def)

text \<open>
  The score shown to administrators for an account is the score a plan gives it before any result was reported: the two
  implementations of the formula agree.
\<close>

theorem score_snapshot_agrees:
  assumes "distinct (map a_ID accounts)" "a \<in> set accounts" "pe_userID env \<le> 0" "pe_stats env = newOpenAIAccountRuntimeStats"
    "\<not> r_RequireCompact req" "\<not> r_StickyWeighted req" "r_UseUpstreamTokenCost req"
  shows "\<exists>c \<in> set (lp_candidates (buildOpenAIAccountLoadPlan env req accounts loadMap)). c_account c = Some a \<and>
    map_option ss_BaseScore (buildOpenAIAccountSchedulerScoreSnapshot env accounts loadMap stickyOn (a_ID a)) = Some (c_score c)"
  by (rule snapshot_score [OF assms])

theorem score_snapshot_agrees_witness:
  "\<exists>c \<in> set (lp_candidates (buildOpenAIAccountLoadPlan exampleEnv exampleRequest [exampleSched 1 5, exampleSched 2 9] Map.empty)).
     c_account c = Some (exampleSched 2 9) \<and>
     map_option ss_BaseScore (buildOpenAIAccountSchedulerScoreSnapshot exampleEnv [exampleSched 1 5, exampleSched 2 9] Map.empty True 2) =
       Some (c_score c)"
  using score_snapshot_agrees [of "[exampleSched 1 5, exampleSched 2 9]" "exampleSched 2 9" exampleEnv exampleRequest Map.empty True]
  by (simp add: exampleEnv_def exampleRequest_def exampleSched_def)

section \<open>Selections\<close>

text \<open>The accounts sessions were bound to between two states.\<close>

definition boundSince :: "selState \<Rightarrow> selState \<Rightarrow> int set" where
  "boundSince z z' = \<Union> (boundBy ` set (drop (length (z_writes z)) (z_writes z')))"

lemma since_bound: "since z0 slot i S z \<Longrightarrow> z_held z = slotHeld slot i (z_held z0) \<and> lostSince z0 z \<and> boundSince z0 z \<subseteq> S"
  unfolding since_def boundSince_def by clarsimp blast

text \<open>
  (C5) However the stores answer and the slots fill up between two steps of a selection, whichever calls to Redis fail or lose their
  answer, it ends in one of two ways: with an error, no slot held that was not held before and no session bound; or with an account
  that was not excluded and fits the request in transport, endpoint, model and compact mode, holding exactly the slot it returns
  to its caller for that account, if any, with no session bound to another account, and either the slot acquired or a place in the
  queue planned. Either way it leaves slots taken that nobody will release only where a call to Redis failed, one for a failed call
  at most, and only slots of its own.
\<close>

theorem select_settles:
  assumes "wellNumbered z"
  shows "always (worldOk transport endpoint model) (\<lambda>(r, d) z'.
    lostSince z z' \<and> (case r of
      Inl _ \<Rightarrow> z_held z' = z_held z \<and> boundSince z z' = {}
    | Inr sel \<Rightarrow> z_held z' = slotHeld (x_Release sel) (a_ID (x_Account sel)) (z_held z) \<and>
        boundSince z z' \<subseteq> {a_ID (x_Account sel)} \<and> servable transport endpoint model req (x_Account sel) \<and>
        d_SelectedAccountID d = a_ID (x_Account sel) \<and> (x_Acquired sel \<longleftrightarrow> x_WaitPlan sel = None))) (Select g req) z"
proof (rule always_mono [OF Select_end [OF idle_refl [OF assms]]], goal_cases)
  case (1 x t)
  obtain r d where x: "x = (r, d)" by (cases x)
  show ?case
  proof (cases r)
    case (Inl err)
    with 1 x have "idle z t" by (simp add: selected_def ends_def)
    from since_bound [OF this] x Inl show ?thesis by (simp add: slotHeld_def)
  next
    case (Inr sel)
    with 1 x have s: "since z (x_Release sel) (a_ID (x_Account sel)) {a_ID (x_Account sel)} t"
      and "servable transport endpoint model req (x_Account sel)" "d_SelectedAccountID d = a_ID (x_Account sel)"
        "x_Acquired sel \<longleftrightarrow> x_WaitPlan sel = None"
      by (auto simp: selected_def ends_def selSettled_def)
    with since_bound [OF s] x Inr show ?thesis by simp
  qed
qed

text \<open>
  (C17) Once the probe limit is on, a walk over an order of any length sends at most 64 requests for slots, those of earlier walks on the
  same budget included: every request sent is counted.
\<close>

theorem probe_limit:
  assumes "pb_limited b" "pb_acquires b \<le> openAIAccountSelectionProbeLimit"
  shows "always (\<lambda>_. True) (\<lambda>(r, blocked, b') z'.
    int (z_probes z') - int (z_probes z) = pb_acquires b' - pb_acquires b \<and> pb_acquires b' \<le> 64)
    (tryAcquireOpenAISelectionOrderWithBudget g req order b cb) z"
proof -
  have "spent (int (z_probes z) - pb_acquires b) b z" using assms by (simp add: spent_def)
  from countsD [OF walk_counts this] show ?thesis
    by (rule always_mono) (auto simp: spentAfter_def spent_def openAIAccountSelectionProbeLimit_def)
qed

section \<open>An example run\<close>

definition exampleWorld :: selEnv where
  "exampleWorld = \<lparr>e_plan = exampleEnv, e_snapshotGet = (\<lambda>i. Inr (Some (exampleSched i 0))), e_repoGet = (\<lambda>i. Inr (Some (exampleSched i 0))),
     e_list = (\<lambda>_. Inr [exampleSched 7 0]), e_groupRequiresPrivacy = False, e_load = (\<lambda>_. Inr Map.empty), e_loadFresh = (\<lambda>_. Inr Map.empty),
     e_slot = (\<lambda>_ _. SlotGranted), e_releaseWorks = True, e_waiting = (\<lambda>_. 0), e_sessionAccount = (\<lambda>_ _. Inl ()), e_responseAccount = (\<lambda>_ _. Inl ()),
     e_cacheWorks = True, e_tempUnschedulable = (\<lambda>_. False), e_visible = (\<lambda>_. True), e_schedulable = (\<lambda>_. True),
     e_schedulableForModel = (\<lambda>_ _. True), e_quotaPaused = (\<lambda>_. False), e_modelSupported = (\<lambda>_ _. True),
     e_supportsEndpoint = (\<lambda>_ _. True), e_proxyHealthy = (\<lambda>_. True), e_exitIPStable = (\<lambda>_. True), e_parentHealthy = (\<lambda>_. True),
     e_runtimeBlocked = (\<lambda>_ _. False), e_channelRestricts = (\<lambda>_ _ _. False), e_privacySet = (\<lambda>_. True), e_subscription = (\<lambda>_. False),
     e_transport = (\<lambda>_ _. True), e_wsv2 = (\<lambda>_. True), e_cleanRelay = (\<lambda>_. False), e_clearSticky = (\<lambda>_ _. False)\<rparr>"

definition exampleConfig :: selConfig where
  "exampleConfig = \<lparr>g_concurrency = True, g_snapshot = False, g_repo = True, g_cache = True, g_simple = True, g_indexedBuckets = [],
     g_readOldSessionKey = False, g_writeOldSessionKey = False, g_legacyHash = [], g_stickyTTL = hour, g_StickySessionMaxWaiting = 3,
     g_StickySessionWaitTimeout = minute, g_FallbackWaitTimeout = minute, g_FallbackMaxWaiting = 100\<rparr>"

definition exampleState :: selState where
  "exampleState = \<lparr>z_held = [], z_lost = [], z_failed = 0, z_next = 0, z_probes = 0, z_writes = []\<rparr>"

definition boundRequest :: scheduleRequest where
  "boundRequest = exampleRequest\<lparr>r_StickyAccountID := 7\<rparr>"

lemma example_trim: "TrimSpace ''s'' = ''s''" "TrimSpace [] = []"
  by code_simp+

lemma example_world: "worldOk (\<lambda>_ _. True) (\<lambda>_ _. True) (\<lambda>_ _. True) exampleWorld"
  by (auto simp: worldOk_def exampleWorld_def exampleSched_def)

lemma example_select:
  "fst (fst (exec exampleWorld (Select exampleConfig boundRequest) exampleState)) = Inr (acquiredSelection (exampleSched 7 0) (Some 0))"
proof -
  have [simp]: "shouldClearSessionStickyForRequest exampleWorld (exampleSched 7 0) boundRequest = False"
    "isAccountRequestCompatible exampleWorld (exampleSched 7 0) boundRequest = True"
    by (simp_all add: shouldClearSessionStickyForRequest_def shouldClearOpenAISessionStickyForRequest_def isAccountRequestCompatible_def
        accountSupportsOpenAICapabilities_def SupportsOpenAIImageCapability_def IsOpenAI_def exampleWorld_def boundRequest_def example_defs)
  have lookup: "sessionLookup exampleConfig boundRequest 7 exampleWorld = Inr (exampleSched 7 0)"
  proof -
    have "getSchedulableAccount exampleConfig exampleWorld 7 = Some (exampleSched 7 0)"
      by (simp add: getSchedulableAccount_def exampleConfig_def exampleWorld_def)
    moreover have "isAccountTransportCompatible exampleWorld (exampleSched 7 0) (r_RequiredTransport boundRequest)"
      by (simp add: isAccountTransportCompatible_def boundRequest_def exampleRequest_def)
    ultimately show ?thesis by (simp add: sessionLookup_def)
  qed
  have recheck: "recheckFor exampleConfig boundRequest False (exampleSched 7 0) exampleWorld = Some (exampleSched 7 0)"
    by (simp add: recheckFor_def recheckSelectedOpenAIAccountFromDB_def isOpenAICompatibleAccountEligibleForRequest_def
        normalizeOpenAICompatiblePlatform_def exampleConfig_def exampleWorld_def boundRequest_def example_defs)
  have req: "r_SessionHash boundRequest = ''s''" "r_PreviousResponseID boundRequest = []" "r_StickyAccountID boundRequest = 7"
    "r_StickyWeighted boundRequest = False" "r_RequireCompact boundRequest = False" "r_RequiredTransport boundRequest = []"
    "r_ExcludedIDs boundRequest = []" "r_GroupID boundRequest = None"
    by (simp_all add: boundRequest_def exampleRequest_def)
  have refresh: "refreshStickySessionTTL exampleConfig None ''s'' t = andThen (writeCache (RefreshSessionTTL 0 ''openai:s'' t)) (\<lambda>_. Return ())" for t
    by (simp add: refreshStickySessionTTL_def openAISessionCacheKey_def example_trim exampleConfig_def derefGroupID_def)
  have slot: "exec exampleWorld (tryAcquireAccountSlot exampleConfig 7 (a_Concurrency (exampleSched 7 0))) exampleState =
      (Inr (True, Some 0), \<lparr>z_held = [(0, 7)], z_lost = [], z_failed = 0, z_next = 1, z_probes = 1, z_writes = []\<rparr>)"
    by (simp add: tryAcquireAccountSlot_def exec_Stmt exampleConfig_def exampleWorld_def exampleState_def exampleSched_def del: exec.simps(2))
  have cache: "g_cache exampleConfig" by (simp add: exampleConfig_def)
  show ?thesis
    by (simp add: Select_def previousResponseLayer_def selectBySessionHash_def sessionConfirm_def example_trim lookup recheck req refresh
        isAccountTransportCompatible_def exec_andThen slot cache Let_def writeCache_def)
qed

theorem select_settles_witness:
  "z_held (snd (exec exampleWorld (Select exampleConfig boundRequest) exampleState)) = [(0, 7)] \<and>
   boundSince exampleState (snd (exec exampleWorld (Select exampleConfig boundRequest) exampleState)) \<subseteq> {7}"
proof -
  have "wellNumbered exampleState" by (simp add: wellNumbered_def exampleState_def)
  from always_exec [OF select_settles [OF this, where req = boundRequest and g = exampleConfig] example_world] example_select show ?thesis
    by (auto simp: split_def acquiredSelection_def slotHeld_def exampleState_def exampleSched_def)
qed

theorem probe_limit_witness:
  "z_probes (snd (exec exampleWorld (tryAcquireOpenAISelectionOrderWithBudget exampleConfig boundRequest
     (map (\<lambda>i. exampleCandidate i 0 0) [1..1000]) (enableLimit newOpenAISelectionProbeBudget) False) exampleState)) \<le> 64"
proof -
  have "pb_limited (enableLimit newOpenAISelectionProbeBudget)"
    "pb_acquires (enableLimit newOpenAISelectionProbeBudget) \<le> openAIAccountSelectionProbeLimit"
    by (simp_all add: enableLimit_def newOpenAISelectionProbeBudget_def openAIAccountSelectionProbeLimit_def)
  note limit = probe_limit [OF this, where g = exampleConfig and req = boundRequest and cb = False and z = exampleState
      and order = "map (\<lambda>i. exampleCandidate i 0 0) [1..1000]"]
  from always_exec [OF limit, of exampleWorld] show ?thesis
    by (simp add: split_def exampleState_def enableLimit_def newOpenAISelectionProbeBudget_def)
qed

end
