(* ===== verification/SystemLock.thy ===== *)
theory SystemLock
  imports Idempotency Outcomes
begin

text \<open>
  The lock that keeps system operations (updates, restarts, rollbacks) apart:
  \<^verbatim>\<open>backend/internal/service/system_operation_lock_service.go\<close>. The lock is one row of the table of idempotency
  records; acquiring, renewing and releasing it are programs of repository statements. Between any two of them other
  processes may run statements of their own, which are the environment of a statement here.
\<close>

section \<open>The service\<close>

definition systemOperationLockScope :: string where
  "systemOperationLockScope = ''admin.system.operations.global_lock''"

definition systemOperationLockKey :: string where
  "systemOperationLockKey = ''global-system-operation-lock''"

record SystemOperationLock =
  sl_recordID :: int
  sl_operationID :: string

record SystemOperationLockService =
  sl_keyHash :: string  \<comment> \<open>\<^verbatim>\<open>HashIdempotencyKey(systemOperationLockKey)\<close>\<close>
  sl_lease :: duration
  sl_renewInterval :: duration
  sl_ttl :: duration

definition NewSystemOperationLockService ::
  "('p, 'd, 'e) idemLib \<Rightarrow> IdempotencyConfig \<Rightarrow> SystemOperationLockService" where
  "NewSystemOperationLockService lib cfg =
     (let lease = (if ic_ProcessingTimeout cfg \<le> 0 then 30 * second else ic_ProcessingTimeout cfg);
          renewInterval = go_quot lease 3;
          ttl = (if ic_SystemOperationTTL cfg \<le> 0 then hour else ic_SystemOperationTTL cfg)
      in \<lparr>sl_keyHash = HashIdempotencyKey lib systemOperationLockKey, sl_lease = lease,
          sl_renewInterval = (if renewInterval < second then second else renewInterval), sl_ttl = ttl\<rparr>)"

text \<open>The metadata of a busy error: the operation that holds the lock and the seconds until its lease ends.\<close>

datatype lockError =
    LockStoreUnavail
  | SystemOperationIDRequired
  | ErrSystemOperationBusy "string option" "string option"

definition busyError :: "string \<Rightarrow> gotime option \<Rightarrow> gotime \<Rightarrow> lockError" where
  "busyError operationID lockedUntil now =
     ErrSystemOperationBusy (if operationID \<noteq> [] then Some operationID else None)
       (case lockedUntil of None \<Rightarrow> None
        | Some u \<Rightarrow> let sec = go_quot (u - now) second in Some (Itoa (if sec \<le> 0 then 1 else sec)))"

type_synonym 'a lockProg = "(sqlStatement list, idempotencyTable, 'a) prog"

definition repoCall :: "(idempotencyTable \<Rightarrow> 'a \<times> idempotencyTable) \<Rightarrow> 'a lockProg" where
  "repoCall f = Stmt (\<lambda>others t. case f (foldl sqlExec t others) of (x, t') \<Rightarrow> (Return x, t'))"

definition repoGet :: "SystemOperationLockService \<Rightarrow> (string + IdempotencyRecord option) lockProg" where
  "repoGet svc = repoCall (\<lambda>t. (sqlGetByScopeAndKeyHash t systemOperationLockScope (sl_keyHash svc), t))"

definition lockRecord :: "SystemOperationLockService \<Rightarrow> string \<Rightarrow> gotime \<Rightarrow> IdempotencyRecord" where
  "lockRecord svc operationID now =
     \<lparr>ir_ID = 0, ir_Scope = systemOperationLockScope, ir_IdempotencyKeyHash = sl_keyHash svc,
      ir_RequestFingerprint = operationID, ir_Status = IdempotencyStatusProcessing, ir_ResponseStatus = None,
      ir_ResponseBody = None, ir_ErrorReason = None, ir_LockedUntil = Some (now + sl_lease svc), ir_ExpiresAt = now + sl_ttl svc\<rparr>"

definition lockOf :: "string \<Rightarrow> int \<Rightarrow> lockError + SystemOperationLock" where
  "lockOf operationID i = (if i = 0 then Inl LockStoreUnavail else Inr \<lparr>sl_recordID = i, sl_operationID = operationID\<rparr>)"

text \<open>The row exists: its lease is running, or it is reclaimed.\<close>

definition takeOver :: "SystemOperationLockService \<Rightarrow> string \<Rightarrow> gotime \<Rightarrow> IdempotencyRecord \<Rightarrow> (lockError + SystemOperationLock) lockProg" where
  "takeOver svc operationID now existing =
     (if ir_Status existing = IdempotencyStatusProcessing \<and> (case ir_LockedUntil existing of None \<Rightarrow> False | Some u \<Rightarrow> u > now)
      then Return (Inl (busyError (ir_RequestFingerprint existing) (ir_LockedUntil existing) now))
      else andThen (repoCall (\<lambda>t. sqlTryReclaim t (ir_ID existing) (ir_Status existing) now (now + sl_lease svc) (now + sl_ttl svc)))
        (\<lambda>r. case r of
          Inl _ \<Rightarrow> Return (Inl LockStoreUnavail)
        | Inr reclaimed \<Rightarrow>
            if \<not> reclaimed
            then andThen (repoGet svc) (\<lambda>g. Return (Inl (case g of
                Inr (Some latest) \<Rightarrow> busyError (ir_RequestFingerprint latest) (ir_LockedUntil latest) now
              | _ \<Rightarrow> ErrSystemOperationBusy None None)))
            else Return (lockOf operationID (ir_ID existing))))"

definition Acquire :: "SystemOperationLockService \<Rightarrow> string \<Rightarrow> gotime \<Rightarrow> (lockError + SystemOperationLock) lockProg" where
  "Acquire svc operationID now =
     (if operationID = [] then Return (Inl SystemOperationIDRequired)
      else andThen (repoCall (\<lambda>t. sqlCreateProcessing t (lockRecord svc operationID now))) (\<lambda>r.
        case r of
          Inl _ \<Rightarrow> Return (Inl LockStoreUnavail)
        | Inr (owner, newID) \<Rightarrow>
            if owner then Return (lockOf operationID newID)
            else andThen (repoGet svc) (\<lambda>g.
              case g of
                Inr (Some existing) \<Rightarrow> takeOver svc operationID now existing
              | _ \<Rightarrow> Return (Inl LockStoreUnavail))))"

text \<open>\<^verbatim>\<open>time.Now()\<close> is read twice when the operation failed.\<close>

definition releaseBody :: "string \<Rightarrow> string" where
  "releaseBody operationID = ''{\"operation_id\":\"'' @ operationID @ ''\",\"released\":true}''"

definition Release ::
  "SystemOperationLockService \<Rightarrow> SystemOperationLock \<Rightarrow> bool \<Rightarrow> string \<Rightarrow> gotime \<Rightarrow> gotime \<Rightarrow> string option lockProg" where
  "Release svc lock succeeded failureReason now now2 =
     (if succeeded
      then repoCall (\<lambda>t. sqlMarkSucceeded t (sl_recordID lock) 200 (releaseBody (sl_operationID lock)) (now + sl_ttl svc))
      else repoCall (\<lambda>t. sqlMarkFailedRetryable t (sl_recordID lock)
             (if failureReason = [] then ''SYSTEM_OPERATION_FAILED'' else failureReason) now2 (now + sl_ttl svc)))"

text \<open>One tick of the renewal goroutine, and the ticks until it stops; the result says whether it goes on.\<close>

definition renew :: "SystemOperationLockService \<Rightarrow> SystemOperationLock \<Rightarrow> gotime \<Rightarrow> bool lockProg" where
  "renew svc lock now =
     andThen (repoCall (\<lambda>t. sqlExtendProcessingLock t (sl_recordID lock) (sl_operationID lock) (now + sl_lease svc) (now + sl_ttl svc)))
       (\<lambda>r. Return (case r of Inl _ \<Rightarrow> True | Inr extended \<Rightarrow> extended))"

primrec renewLoop :: "SystemOperationLockService \<Rightarrow> SystemOperationLock \<Rightarrow> gotime list \<Rightarrow> bool lockProg" where
  "renewLoop svc lock [] = Return True"
| "renewLoop svc lock (now # ticks) =
     andThen (renew svc lock now) (\<lambda>goesOn. if goesOn then renewLoop svc lock ticks else Return False)"

section \<open>The lock row\<close>

abbreviation lockRow :: "SystemOperationLockService \<Rightarrow> idempotencyTable \<Rightarrow> IdempotencyRecord option" where
  "lockRow svc t \<equiv> rowOf t systemOperationLockScope (sl_keyHash svc)"

text \<open>The row with number \<open>i\<close> is the lock's, and its lease lasts until \<open>u\<close> at least.\<close>

definition leased :: "SystemOperationLockService \<Rightarrow> int \<Rightarrow> gotime \<Rightarrow> idempotencyTable \<Rightarrow> bool" where
  "leased svc i u t \<longleftrightarrow> tableOk t \<and> (\<exists>r v. lockRow svc t = Some r \<and> ir_ID r = i \<and> ir_Status r = IdempotencyStatusProcessing \<and>
     ir_LockedUntil r = Some v \<and> u \<le> v \<and> u \<le> ir_ExpiresAt r)"

text \<open>
  Statements of others before \<open>u\<close>, of which those that name this record are attempts to reclaim it with a clock before \<open>u\<close> and
  renewals beyond \<open>u\<close>; clean-ups have a clock before \<open>u\<close>, and releases are those of other records.
\<close>

fun before :: "int \<Rightarrow> gotime \<Rightarrow> sqlStatement \<Rightarrow> bool" where
  "before i u (StmtReclaim j _ now _ _) \<longleftrightarrow> j \<noteq> i \<or> now < u"
| "before i u (StmtExtend j _ l e) \<longleftrightarrow> j \<noteq> i \<or> u \<le> l \<and> u \<le> e"
| "before i u (StmtSucceed j _ _ _) \<longleftrightarrow> j \<noteq> i"
| "before i u (StmtFail j _ _ _) \<longleftrightarrow> j \<noteq> i"
| "before i u (StmtDelete now _) \<longleftrightarrow> now < u"
| "before i u (StmtCreate _) \<longleftrightarrow> True"
| "before i u (StmtOutage _) \<longleftrightarrow> True"

lemma leased_update:
  assumes "leased svc i u t" "keepsKey f"
    and "\<And>r v. ir_ID r = i \<Longrightarrow> ir_Status r = IdempotencyStatusProcessing \<Longrightarrow> ir_LockedUntil r = Some v \<Longrightarrow> u \<le> v \<Longrightarrow> P r \<Longrightarrow>
      ir_Status (f r) = IdempotencyStatusProcessing \<and> (\<exists>w. ir_LockedUntil (f r) = Some w \<and> u \<le> w) \<and> u \<le> ir_ExpiresAt (f r)"
  shows "leased svc i u (snd (sqlUpdate t P f))"
proof -
  obtain r v where r: "lockRow svc t = Some r" "ir_ID r = i" "ir_Status r = IdempotencyStatusProcessing"
    "ir_LockedUntil r = Some v" "u \<le> v" "u \<le> ir_ExpiresAt r" using assms(1) by (auto simp: leased_def)
  have "ir_ID (f r) = ir_ID r" using assms(2) by (simp add: keepsKey_def)
  with r assms show ?thesis unfolding leased_def by (auto simp: rowOf_sqlUpdate sqlUpdate_ok)
qed

lemma leased_down: "leased svc i u (t\<lparr>down := b\<rparr>) = leased svc i u t"
  by (simp add: leased_def tableOk_def rowOf_def)

lemma leased_delete:
  assumes "leased svc i u t" "now < u"
  shows "leased svc i u (snd (sqlDeleteExpired t now limit))"
proof -
  obtain r v where r: "lockRow svc t = Some r" "ir_ID r = i" "ir_Status r = IdempotencyStatusProcessing"
    "ir_LockedUntil r = Some v" "u \<le> v" "u \<le> ir_ExpiresAt r" and ok: "tableOk t" using assms(1) by (auto simp: leased_def)
  from r(1) ok have mem: "r \<in> set (rows t)" "ir_Scope r = systemOperationLockScope" "ir_IdempotencyKeyHash r = sl_keyHash svc"
    by (auto simp: rowOf_Some_iff)
  have "r \<in> set (rows (snd (sqlDeleteExpired t now limit)))"
  proof -
    have "ir_ID r \<notin> ir_ID ` set (take n (sort_key ir_ExpiresAt (filter (\<lambda>x. ir_ExpiresAt x \<le> now) (rows t))))" for n
    proof
      assume "ir_ID r \<in> ir_ID ` set (take n (sort_key ir_ExpiresAt (filter (\<lambda>x. ir_ExpiresAt x \<le> now) (rows t))))"
      then obtain x where x: "x \<in> set (rows t)" "ir_ExpiresAt x \<le> now" "ir_ID r = ir_ID x" by (auto dest!: in_set_takeD)
      with tableOk_same_row [OF ok mem(1) x(1,3)] assms(2) r(6) show False by simp
    qed
    with mem(1) show ?thesis by (simp add: sqlDeleteExpired_def Let_def)
  qed
  with mem(2,3) sqlDelete_ok [OF ok] have "lockRow svc (snd (sqlDeleteExpired t now limit)) = Some r"
    by (simp add: rowOf_Some_iff)
  with r sqlDelete_ok [OF ok] show ?thesis by (auto simp: leased_def)
qed

lemma rowOf_create: "rowOf t s k = Some r \<Longrightarrow> rowOf (snd (sqlCreateProcessing t rec)) s k = Some r"
proof -
  assume r: "rowOf t s k = Some r"
  have "find P (xs @ ys) = Some x" if "find P xs = Some x" for P and xs ys :: "IdempotencyRecord list" and x
    using that by (induction xs) (auto split: if_splits)
  with r show ?thesis by (auto simp: sqlCreateProcessing_def rowOf_def Let_def split: option.split)
qed

lemma leased_create: "leased svc i u t \<Longrightarrow> leased svc i u (snd (sqlCreateProcessing t rec))"
  using sqlCreate_ok [of t rec] rowOf_create [of t _ _ _ rec] by (auto simp: leased_def)

lemma leased_exec:
  assumes "leased svc i u t" "before i u st"
  shows "leased svc i u (sqlExec t st)"
proof (cases st)
  case (StmtReclaim j st0 now l e)
  then show ?thesis
    using assms leased_update [OF assms(1), of "\<lambda>r. r\<lparr>ir_Status := IdempotencyStatusProcessing, ir_LockedUntil := Some l,
        ir_ErrorReason := None, ir_ExpiresAt := e\<rparr>" "\<lambda>r. ir_ID r = j \<and> ir_Status r = st0 \<and>
        (case ir_LockedUntil r of None \<Rightarrow> True | Some w \<Rightarrow> w \<le> now)"]
    by (auto simp: sqlTryReclaim_def split_def Let_def)
next
  case (StmtExtend j fp l e)
  then show ?thesis
    using assms leased_update [OF assms(1), of "\<lambda>r. r\<lparr>ir_LockedUntil := Some l, ir_ExpiresAt := e\<rparr>"
        "\<lambda>r. ir_ID r = j \<and> ir_Status r = IdempotencyStatusProcessing \<and> ir_RequestFingerprint r = fp"]
    by (auto simp: sqlExtendProcessingLock_def split_def Let_def)
next
  case (StmtSucceed j st' body e)
  then show ?thesis
    using assms by (auto simp: sqlMarkSucceeded_def intro!: leased_update)
next
  case (StmtFail j reason l e)
  then show ?thesis
    using assms by (auto simp: sqlMarkFailedRetryable_def intro!: leased_update)
qed (use assms in \<open>simp_all add: leased_create leased_delete leased_down\<close>)

lemma leased_others: "leased svc i u t \<Longrightarrow> list_all (before i u) sts \<Longrightarrow> leased svc i u (foldl sqlExec t sts)"
  by (induction sts arbitrary: t) (auto simp: leased_exec)

section \<open>Exclusion\<close>

lemma always_repoCall:
  "always ok Q (repoCall f) t \<longleftrightarrow> (\<forall>sts. ok sts \<longrightarrow> (case f (foldl sqlExec t sts) of (x, t') \<Rightarrow> Q x t'))"
  by (simp add: repoCall_def split_def)

lemma acquire_busy:
  assumes "leased svc i u t" "now < u"
  shows "always (list_all (before i u)) (\<lambda>r t'. (\<exists>err. r = Inl err) \<and> leased svc i u t') (Acquire svc op now) t"
proof -
  have get: "always (list_all (before i u)) (\<lambda>r t'. (\<exists>err. r = Inl err) \<and> leased svc i u t')
      (andThen (repoGet svc) (\<lambda>g. case g of Inr (Some existing) \<Rightarrow> takeOver svc op now existing | _ \<Rightarrow> Return (Inl LockStoreUnavail))) s"
    if "leased svc i u s" for s
  proof -
    have "leased svc i u s' \<Longrightarrow> always (list_all (before i u)) (\<lambda>r t'. (\<exists>err. r = Inl err) \<and> leased svc i u t')
        (case sqlGetByScopeAndKeyHash s' systemOperationLockScope (sl_keyHash svc) of
          Inr (Some existing) \<Rightarrow> takeOver svc op now existing | _ \<Rightarrow> Return (Inl LockStoreUnavail)) s'" for s'
      using assms(2) by (auto simp: leased_def sqlGetByScopeAndKeyHash_def takeOver_def)
    with that show ?thesis by (simp add: repoGet_def always_repoCall leased_others)
  qed
  have "case sqlCreateProcessing s (lockRecord svc op now) of (x, t') \<Rightarrow> leased svc i u t' \<and> (x = Inl dbError \<or> x = Inr (False, 0))"
    if "leased svc i u s" for s
    using that leased_create [OF that] by (auto simp: leased_def sqlCreateProcessing_def lockRecord_def)
  then show ?thesis
    using assms(1) get leased_others [OF assms(1)]
    by (fastforce simp: Acquire_def always_repoCall simp del: always_andThen intro!: always_bind [where Q = "\<lambda>x t'. leased svc i u t' \<and> (x = Inl dbError \<or> x = Inr (False, 0))"])
qed

text \<open>Row numbers are never used again, so a row once seen under the lock's key is the lock's for ever, or gone.\<close>

definition onlyLock :: "SystemOperationLockService \<Rightarrow> int \<Rightarrow> idempotencyTable \<Rightarrow> bool" where
  "onlyLock svc i t \<longleftrightarrow> tableOk t \<and> i < nextID t \<and>
     (\<forall>r \<in> set (rows t). ir_ID r = i \<longrightarrow> rowKey r = (systemOperationLockScope, sl_keyHash svc))"

lemma onlyLock_update: "onlyLock svc i t \<Longrightarrow> keepsKey f \<Longrightarrow> onlyLock svc i (snd (sqlUpdate t P f))"
  using sqlUpdate_ok [of f t P] by (auto simp: onlyLock_def keepsKey_def sqlUpdate_def split: if_splits)

lemma onlyLock_exec:
  assumes "onlyLock svc i t"
  shows "onlyLock svc i (sqlExec t st)"
proof (cases st)
  case (StmtCreate rec)
  with assms sqlCreate_ok [of t rec] show ?thesis
    by (auto simp: onlyLock_def sqlCreateProcessing_def Let_def split: option.splits)
next
  case (StmtDelete now limit)
  with assms sqlDelete_ok [of t now limit] show ?thesis
    by (auto simp: onlyLock_def sqlDeleteExpired_def Let_def split: if_splits)
next
  case (StmtOutage b)
  with assms show ?thesis by (simp add: onlyLock_def tableOk_def)
qed (use assms in \<open>auto simp: sqlTryReclaim_def sqlExtendProcessingLock_def sqlMarkSucceeded_def sqlMarkFailedRetryable_def
    split_def Let_def onlyLock_update\<close>)

lemma onlyLock_others: "onlyLock svc i t \<Longrightarrow> onlyLock svc i (foldl sqlExec t sts)"
  by (induction sts arbitrary: t) (auto simp: onlyLock_exec)

lemma tableOk_others: "tableOk t \<Longrightarrow> tableOk (foldl sqlExec t sts)"
  by (induction sts arbitrary: t) (auto simp: sqlExec_ok)

abbreviation leaseEnd :: "SystemOperationLockService \<Rightarrow> gotime \<Rightarrow> gotime" where
  "leaseEnd svc now \<equiv> now + min (sl_lease svc) (sl_ttl svc)"

definition acquired :: "SystemOperationLockService \<Rightarrow> string \<Rightarrow> gotime \<Rightarrow> lockError + SystemOperationLock \<Rightarrow> idempotencyTable \<Rightarrow> bool" where
  "acquired svc op now r t = (case r of Inl _ \<Rightarrow> True
     | Inr lock \<Rightarrow> sl_operationID lock = op \<and> leased svc (sl_recordID lock) (leaseEnd svc now) t)"

lemma acquired_Inl [simp]: "acquired svc op now (Inl err) t"
  by (simp add: acquired_def)

lemma create_leases:
  assumes "tableOk t" "sqlCreateProcessing t (lockRecord svc op now) = (Inr (True, i), t')"
  shows "acquired svc op now (lockOf op i) t'"
proof -
  let ?row = "(lockRecord svc op now)\<lparr>ir_ID := i\<rparr>"
  have "i = nextID t" "t' = t\<lparr>rows := rows t @ [?row], nextID := nextID t + 1\<rparr>"
    using assms(2) by (auto simp: sqlCreateProcessing_def lockRecord_def Let_def split: if_splits option.splits)
  moreover from this have "tableOk t'" using sqlCreate_ok [OF assms(1), of "lockRecord svc op now"] assms(2) by simp
  ultimately show ?thesis
    using assms(1) rowOf_Some_iff [of t' systemOperationLockScope "sl_keyHash svc" ?row]
    by (auto simp: acquired_def lockOf_def leased_def tableOk_def [of t] lockRecord_def)
qed

lemma reclaim_leases:
  assumes "onlyLock svc i t" "sqlTryReclaim t i st now (now + sl_lease svc) (now + sl_ttl svc) = (Inr True, t')"
  shows "acquired svc op now (lockOf op i) t'"
proof -
  let ?P = "\<lambda>r. ir_ID r = i \<and> ir_Status r = st \<and> (case ir_LockedUntil r of None \<Rightarrow> True | Some u \<Rightarrow> u \<le> now)"
    and ?f = "\<lambda>r. r\<lparr>ir_Status := IdempotencyStatusProcessing, ir_LockedUntil := Some (now + sl_lease svc),
                   ir_ErrorReason := None, ir_ExpiresAt := now + sl_ttl svc\<rparr>"
  have t': "t' = snd (sqlUpdate t ?P ?f)" and pos: "0 < length (filter ?P (rows t))"
    using assms(2) by (auto simp: sqlTryReclaim_def split_def Let_def split: if_splits)
  from pos obtain r where r: "r \<in> set (rows t)" "?P r" by (auto simp: filter_empty_conv)
  then have "rowKey r = (systemOperationLockScope, sl_keyHash svc)" using assms(1) by (auto simp: onlyLock_def)
  then have "lockRow svc t = Some r" using r(1) assms(1) by (simp add: rowOf_Some_iff onlyLock_def rowKey_def)
  moreover have "i \<noteq> 0" using r assms(1) by (auto simp: onlyLock_def tableOk_def list_all_iff)
  ultimately show ?thesis
    using r(2) assms(1) unfolding t' acquired_def lockOf_def leased_def
    by (auto simp: rowOf_sqlUpdate sqlUpdate_ok onlyLock_def)
qed

lemma takeOver_leases:
  assumes "onlyLock svc (ir_ID existing) t"
  shows "always ok (acquired svc op now) (takeOver svc op now existing) t"
proof -
  let ?done = "\<lambda>r. case r of Inl _ \<Rightarrow> Return (Inl LockStoreUnavail)
    | Inr reclaimed \<Rightarrow> if \<not> reclaimed then andThen (repoGet svc) (\<lambda>g. Return (Inl (case g of
          Inr (Some latest) \<Rightarrow> busyError (ir_RequestFingerprint latest) (ir_LockedUntil latest) now
        | _ \<Rightarrow> ErrSystemOperationBusy None None)))
      else Return (lockOf op (ir_ID existing))"
  have "always ok (acquired svc op now) (?done x) t'"
    if "sqlTryReclaim s (ir_ID existing) (ir_Status existing) now (now + sl_lease svc) (now + sl_ttl svc) = (x, t')"
      "onlyLock svc (ir_ID existing) s" for s x t'
    using that reclaim_leases [OF that(2)] by (auto simp: repoGet_def always_repoCall split: sum.split)
  with onlyLock_others [OF assms] show ?thesis
    unfolding takeOver_def by (auto simp: always_repoCall split: prod.split)
qed

lemma Acquire_leases:
  assumes "tableOk t"
  shows "always ok (acquired svc op now) (Acquire svc op now) t"
proof -
  have get: "always ok (acquired svc op now) (andThen (repoGet svc) (\<lambda>g. case g of Inr (Some existing) \<Rightarrow> takeOver svc op now existing
      | _ \<Rightarrow> Return (Inl LockStoreUnavail))) s" if "tableOk s" for s
  proof -
    have "always ok (acquired svc op now) (case sqlGetByScopeAndKeyHash s' systemOperationLockScope (sl_keyHash svc) of
        Inr (Some existing) \<Rightarrow> takeOver svc op now existing | _ \<Rightarrow> Return (Inl LockStoreUnavail)) s'" if "tableOk s'" for s'
    proof (cases "lockRow svc s'")
      case (Some r)
      then have r: "r \<in> set (rows s')" "rowKey r = (systemOperationLockScope, sl_keyHash svc)"
        using that by (auto simp: rowOf_Some_iff rowKey_def)
      moreover have "ir_ID r < nextID s'" using r(1) that by (auto simp: tableOk_def list_all_iff)
      moreover have "x = r" if "x \<in> set (rows s')" "ir_ID x = ir_ID r" for x
        using tableOk_same_row [OF \<open>tableOk s'\<close> that(1) r(1) that(2)] .
      ultimately have "onlyLock svc (ir_ID r) s'" using that by (auto simp: onlyLock_def)
      with Some show ?thesis by (auto simp: sqlGetByScopeAndKeyHash_def takeOver_leases)
    qed (simp add: sqlGetByScopeAndKeyHash_def)
    with tableOk_others [OF that] show ?thesis by (simp add: repoGet_def always_repoCall)
  qed
  have "always ok (acquired svc op now) (case x of Inl _ \<Rightarrow> Return (Inl LockStoreUnavail)
      | Inr (owner, newID) \<Rightarrow> if owner then Return (lockOf op newID) else andThen (repoGet svc) (\<lambda>g. case g of
          Inr (Some existing) \<Rightarrow> takeOver svc op now existing | _ \<Rightarrow> Return (Inl LockStoreUnavail))) t'"
    if "tableOk s" "sqlCreateProcessing s (lockRecord svc op now) = (x, t')" for s x t'
    using that create_leases [OF that(1)] get [of t'] sqlCreate_ok [OF that(1), of "lockRecord svc op now"]
    by (auto simp del: always_andThen split: sum.split)
  with tableOk_others [OF assms] show ?thesis
    unfolding Acquire_def by (auto simp: always_repoCall split: prod.split)
qed

text \<open>
  (C18) Once an operation has acquired the lock, no other operation acquires it until the lease ends, however attempts to acquire it,
  renewals, clean-ups, outages and statements on other records interleave, as long as nobody releases this record: neither
  its owner nor, which the code does not prevent, a former owner that ends late (\<open>late_release_frees\<close> below).
\<close>

theorem system_lock_exclusive:
  assumes "tableOk t"
  shows "always (\<lambda>_. True) (\<lambda>r t'. case r of Inl _ \<Rightarrow> True
    | Inr lock \<Rightarrow> \<forall>op' now'. now' < leaseEnd svc now \<longrightarrow>
        always (list_all (before (sl_recordID lock) (leaseEnd svc now))) (\<lambda>r' _. \<exists>err. r' = Inl err) (Acquire svc op' now') t')
    (Acquire svc op now) t"
proof (rule always_mono [OF Acquire_leases [OF assms]], goal_cases)
  case (1 r t')
  show ?case
  proof (cases r)
    case (Inr lock)
    with 1 have "leased svc (sl_recordID lock) (leaseEnd svc now) t'" by (simp add: acquired_def)
    then have "always (list_all (before (sl_recordID lock) (leaseEnd svc now))) (\<lambda>r' _. \<exists>err. r' = Inl err) (Acquire svc op' now') t'"
      if "now' < leaseEnd svc now" for op' now' by (rule always_mono [OF acquire_busy]) (use that in auto)
    with Inr show ?thesis by simp
  qed simp
qed

section \<open>Undisturbed runs\<close>

lemma exec_repoCall: "exec [] (repoCall f) t = f t"
  by (simp add: repoCall_def split_def)

lemma exec_Acquire_free:
  assumes "tableOk t" "\<not> down t" "op \<noteq> []"
    and "\<And>r u. lockRow svc t = Some r \<Longrightarrow> ir_LockedUntil r = Some u \<Longrightarrow> u \<le> now"
  shows "\<exists>lock. fst (exec [] (Acquire svc op now) t) = Inr lock"
proof (cases "lockRow svc t")
  case None
  then show ?thesis
    using assms by (auto simp: Acquire_def exec_andThen exec_repoCall sqlCreateProcessing_def lockRecord_def lockOf_def Let_def tableOk_def)
next
  case (Some r)
  have mem: "r \<in> set (rows t)" using Some assms(1) by (simp add: rowOf_Some_iff)
  then have "ir_ID r \<noteq> 0" using assms(1) by (auto simp: tableOk_def list_all_iff)
  moreover have "\<not> (case ir_LockedUntil r of None \<Rightarrow> False | Some u \<Rightarrow> u > now)"
    "(case ir_LockedUntil r of None \<Rightarrow> True | Some u \<Rightarrow> u \<le> now)" using assms(4) [OF Some] by (auto split: option.split)
  moreover from this(2) mem have "\<exists>x \<in> set (rows t). ir_ID x = ir_ID r \<and> ir_Status x = ir_Status r \<and>
      (case ir_LockedUntil x of None \<Rightarrow> True | Some u \<Rightarrow> u \<le> now)" by blast
  ultimately show ?thesis
    using Some assms(2,3) unfolding Acquire_def takeOver_def
    by (auto simp: exec_andThen exec_repoCall sqlCreateProcessing_def lockRecord_def repoGet_def sqlGetByScopeAndKeyHash_def
        sqlTryReclaim_def lockOf_def split_def Let_def filter_empty_conv)
qed

lemma exec_Acquire_row:
  assumes "lockRow svc t = Some r" "exec [] (Acquire svc op now) t = (Inr lock, t')"
  shows "sl_operationID lock = op \<and> sl_recordID lock = ir_ID r \<and>
    (\<exists>x \<in> set (rows t). ir_ID x = ir_ID r \<and> ir_Status x = ir_Status r \<and> (case ir_LockedUntil x of None \<Rightarrow> True | Some u \<Rightarrow> u \<le> now)) \<and>
    t' = snd (sqlUpdate t (\<lambda>x. ir_ID x = ir_ID r \<and> ir_Status x = ir_Status r \<and> (case ir_LockedUntil x of None \<Rightarrow> True | Some u \<Rightarrow> u \<le> now))
      (\<lambda>x. x\<lparr>ir_Status := IdempotencyStatusProcessing, ir_LockedUntil := Some (now + sl_lease svc),
            ir_ErrorReason := None, ir_ExpiresAt := now + sl_ttl svc\<rparr>))"
  using assms unfolding Acquire_def takeOver_def
  by (auto simp: exec_andThen exec_repoCall sqlCreateProcessing_def lockRecord_def repoGet_def sqlGetByScopeAndKeyHash_def
      sqlTryReclaim_def lockOf_def split_def Let_def filter_empty_conv split: if_splits)

text \<open>
  (C19) An operation that takes over the lock row of an earlier operation does not keep it: the row still names the earlier one, so the
  first renewal reports that the ownership is lost and changes nothing, and when the lease ends a third operation acquires the lock
  although the second has not released it.
\<close>

theorem reacquired_lock_expires:
  assumes "tableOk t" "\<not> down t" "lockRow svc t = Some r" "ir_RequestFingerprint r \<noteq> op"
    "exec [] (Acquire svc op now) t = (Inr lock, t')" "op' \<noteq> []"
  shows "exec [] (renew svc lock tick) t' = (False, t') \<and>
    (\<exists>lock'. fst (exec [] (Acquire svc op' (now + sl_lease svc)) t') = Inr lock')"
proof -
  note t' = exec_Acquire_row [OF assms(3,5)]
  let ?P = "\<lambda>x. ir_ID x = ir_ID r \<and> ir_Status x = ir_Status r \<and> (case ir_LockedUntil x of None \<Rightarrow> True | Some u \<Rightarrow> u \<le> now)"
    and ?f = "\<lambda>x. x\<lparr>ir_Status := IdempotencyStatusProcessing, ir_LockedUntil := Some (now + sl_lease svc),
            ir_ErrorReason := None, ir_ExpiresAt := now + sl_ttl svc\<rparr>"
  have ok: "tableOk t'" "\<not> down t'" using t' assms(1,2) by (simp_all add: sqlUpdate_ok)
  have mem: "r \<in> set (rows t)" using assms(1,3) by (simp add: rowOf_Some_iff)
  from t' have "?P r" using tableOk_same_row [OF assms(1) mem] by metis
  with t' assms(3) have row: "lockRow svc t' = Some (?f r)" by (simp add: rowOf_sqlUpdate)
  then obtain x where x: "lockRow svc t' = Some x" "ir_RequestFingerprint x \<noteq> op" "ir_ID x = ir_ID r"
    using assms(4) by simp
  have "\<not> (ir_ID y = ir_ID r \<and> ir_RequestFingerprint y = op)" if "y \<in> set (rows t')" for y
    using tableOk_same_row [OF ok(1) that, of x] x ok(1) by (auto simp: rowOf_Some_iff)
  then have none: "filter (\<lambda>y. ir_ID y = ir_ID r \<and> ir_Status y = IdempotencyStatusProcessing \<and> ir_RequestFingerprint y = op) (rows t') = []"
    by (auto simp: filter_empty_conv)
  then have same: "map (\<lambda>y. if ir_ID y = ir_ID r \<and> ir_Status y = IdempotencyStatusProcessing \<and> ir_RequestFingerprint y = op
      then y\<lparr>ir_LockedUntil := a, ir_ExpiresAt := b\<rparr> else y) (rows t') = rows t'" for a b
    by (auto simp: filter_empty_conv intro!: map_idI)
  have "exec [] (renew svc lock tick) t' = (False, t')"
    using none same t' ok(2) by (simp add: renew_def exec_andThen exec_repoCall sqlExtendProcessingLock_def sqlUpdate_def)
  moreover have "u \<le> now + sl_lease svc" if "lockRow svc t' = Some y" "ir_LockedUntil y = Some u" for y u
    using that row by auto
  ultimately show ?thesis using exec_Acquire_free [OF ok assms(6)] by blast
qed

definition exampleService :: SystemOperationLockService where
  "exampleService = \<lparr>sl_keyHash = ''k'', sl_lease = 30 * second, sl_renewInterval = 10 * second, sl_ttl = hour\<rparr>"

definition lockTable :: idempotencyTable where
  "lockTable = \<lparr>rows = [(lockRecord exampleService ''first'' 0)\<lparr>ir_ID := 1, ir_Status := IdempotencyStatusSucceeded, ir_LockedUntil := None\<rparr>],
     nextID = 2, down = False\<rparr>"

lemma example_table: "tableOk lockTable"
  by (simp add: lockTable_def tableOk_def)

lemma example_acquire:
  "exec [] (Acquire exampleService ''second'' minute) lockTable =
     (Inr \<lparr>sl_recordID = 1, sl_operationID = ''second''\<rparr>,
      lockTable\<lparr>rows := map (\<lambda>x. x\<lparr>ir_Status := IdempotencyStatusProcessing, ir_LockedUntil := Some (minute + 30 * second),
        ir_ErrorReason := None, ir_ExpiresAt := minute + hour\<rparr>) (rows lockTable)\<rparr>)"
  by (simp add: Acquire_def takeOver_def exec_andThen exec_repoCall sqlCreateProcessing_def lockRecord_def repoGet_def
      sqlGetByScopeAndKeyHash_def sqlTryReclaim_def sqlUpdate_def lockOf_def lockTable_def exampleService_def rowOf_def status_defs)

theorem reacquired_lock_expires_witness:
  "\<exists>lock t'. exec [] (Acquire exampleService ''second'' minute) lockTable = (Inr lock, t') \<and>
     exec [] (renew exampleService lock (minute + 10 * second)) t' = (False, t') \<and>
     (\<exists>lock'. fst (exec [] (Acquire exampleService ''third'' (minute + 30 * second)) t') = Inr lock')"
proof -
  have row: "\<exists>r. lockRow exampleService lockTable = Some r \<and> ir_RequestFingerprint r \<noteq> ''second''"
    by (simp add: lockTable_def rowOf_def lockRecord_def exampleService_def)
  have "\<not> down lockTable" "sl_lease exampleService = 30 * second" by (simp_all add: lockTable_def exampleService_def)
  with row reacquired_lock_expires [OF example_table _ _ _ example_acquire, of _ "''third''" "minute + 10 * second"] example_acquire
  show ?thesis by auto
qed

theorem system_lock_exclusive_witness:
  "\<exists>err. fst (exec [] (Acquire exampleService ''third'' (minute + 29 * second))
     (snd (exec [] (Acquire exampleService ''second'' minute) lockTable))) = Inl err"
proof -
  have e: "leaseEnd exampleService minute = minute + 30 * second" by (simp add: exampleService_def)
  from always_exec [OF system_lock_exclusive [OF example_table, where svc = exampleService and op = "''second''" and now = minute], of "[]"]
  have "always (list_all (before 1 (minute + 30 * second))) (\<lambda>r' _. \<exists>err. r' = Inl err) (Acquire exampleService ''third'' (minute + 29 * second))
      (snd (exec [] (Acquire exampleService ''second'' minute) lockTable))"
    unfolding example_acquire prod.case sum.case snd_conv e by simp
  from always_exec [OF this, of "[]"] show ?thesis by (simp add: split_def)
qed

text \<open>Releasing does not look at the owner either: whoever releases late frees the lock of the operation that holds it.\<close>

lemma late_release_frees:
  assumes "leased svc i u t" "\<not> down t" "op \<noteq> []"
  shows "\<exists>lock. fst (exec [] (Acquire svc op now) (snd (exec [] (Release svc \<lparr>sl_recordID = i, sl_operationID = other\<rparr> True reason n n2) t))) = Inr lock"
proof -
  let ?t = "snd (exec [] (Release svc \<lparr>sl_recordID = i, sl_operationID = other\<rparr> True reason n n2) t)"
  obtain r where r: "tableOk t" "lockRow svc t = Some r" "ir_ID r = i" using assms(1) by (auto simp: leased_def)
  have "?t = snd (sqlUpdate t (\<lambda>r. ir_ID r = i) (\<lambda>r. r\<lparr>ir_Status := IdempotencyStatusSucceeded, ir_ResponseStatus := Some 200,
      ir_ResponseBody := Some (releaseBody other), ir_ErrorReason := None, ir_LockedUntil := None, ir_ExpiresAt := n + sl_ttl svc\<rparr>))"
    using assms(2) by (simp add: Release_def exec_repoCall sqlMarkSucceeded_def)
  then show ?thesis
    using r assms(2,3) by (intro exec_Acquire_free) (auto simp: sqlUpdate_ok rowOf_sqlUpdate)
qed

end
