(* ===== verification/SubscriptionUsage.thy ===== *)
theory SubscriptionUsage
  imports Subscriptions
begin

text \<open>
  The usage windows of a subscription: the methods of \<^verbatim>\<open>backend/internal/service/user_subscription.go\<close>, the window statements of
  \<^verbatim>\<open>repository/user_subscription_repo.go\<close>, and the checks, resets, maintenance and progress of
  \<^verbatim>\<open>service/subscription_service.go\<close>. Maintenance runs asynchronously on a copy of the subscription that may be
  long out of date; resets are therefore conditional on the window start they expect.
\<close>

section \<open>The limits of a group\<close>

record groupLimits =
  gl_Name :: string
  gl_DailyLimitUSD :: "rat option"
  gl_WeeklyLimitUSD :: "rat option"
  gl_MonthlyLimitUSD :: "rat option"

definition positiveLimit :: "rat option \<Rightarrow> bool" where
  "positiveLimit l = (case l of None \<Rightarrow> False | Some v \<Rightarrow> v > 0)"

definition HasDailyLimit :: "groupLimits \<Rightarrow> bool" where "HasDailyLimit g = positiveLimit (gl_DailyLimitUSD g)"
definition HasWeeklyLimit :: "groupLimits \<Rightarrow> bool" where "HasWeeklyLimit g = positiveLimit (gl_WeeklyLimitUSD g)"
definition HasMonthlyLimit :: "groupLimits \<Rightarrow> bool" where "HasMonthlyLimit g = positiveLimit (gl_MonthlyLimitUSD g)"

section \<open>A subscription and its windows\<close>

abbreviation day :: duration where "day \<equiv> 24 * hour"

definition SubscriptionIsActive :: "gotime \<Rightarrow> UserSubscription \<Rightarrow> bool" where
  "SubscriptionIsActive now sub \<longleftrightarrow> us_Status sub = StatusActive \<and> now < us_ExpiresAt sub"

definition IsExpired :: "gotime \<Rightarrow> UserSubscription \<Rightarrow> bool" where
  "IsExpired now sub \<longleftrightarrow> us_ExpiresAt sub < now"

definition daysRemainingAt :: "gotime \<Rightarrow> UserSubscription \<Rightarrow> int" where
  "daysRemainingAt now sub =
     (let remaining = us_ExpiresAt sub - now in
      if remaining \<le> 0 then 0
      else let days = remaining div day in if remaining mod day \<noteq> 0 then days + 1 else days)"

definition IsWindowActivated :: "UserSubscription \<Rightarrow> bool" where
  "IsWindowActivated sub \<longleftrightarrow>
     us_DailyWindowStart sub \<noteq> None \<or> us_WeeklyWindowStart sub \<noteq> None \<or> us_MonthlyWindowStart sub \<noteq> None"

text \<open>Times count from the beginning of the year 1, Go's zero time.\<close>

definition IsZero :: "gotime \<Rightarrow> bool" where "IsZero t \<longleftrightarrow> t = 0"

definition HasOneTimeDailyQuota :: "UserSubscription \<Rightarrow> bool" where
  "HasOneTimeDailyQuota sub \<longleftrightarrow>
     (if IsZero (us_StartsAt sub) \<or> IsZero (us_ExpiresAt sub) then False
      else us_ExpiresAt sub \<le> addDays (us_StartsAt sub) 1)"

definition NeedsDailyResetAt :: "UserSubscription \<Rightarrow> gotime \<Rightarrow> bool" where
  "NeedsDailyResetAt sub now = (case us_DailyWindowStart sub of
       None \<Rightarrow> False
     | Some w \<Rightarrow> if HasOneTimeDailyQuota sub then False else \<not> now < w + day)"

definition NeedsWeeklyReset :: "gotime \<Rightarrow> UserSubscription \<Rightarrow> bool" where
  "NeedsWeeklyReset now sub = (case us_WeeklyWindowStart sub of None \<Rightarrow> False | Some w \<Rightarrow> now - w \<ge> 7 * day)"

definition NeedsMonthlyReset :: "gotime \<Rightarrow> UserSubscription \<Rightarrow> bool" where
  "NeedsMonthlyReset now sub = (case us_MonthlyWindowStart sub of None \<Rightarrow> False | Some w \<Rightarrow> now - w \<ge> 30 * day)"

definition DailyResetTime :: "UserSubscription \<Rightarrow> gotime option" where
  "DailyResetTime sub = (case us_DailyWindowStart sub of
       None \<Rightarrow> None
     | Some w \<Rightarrow> Some (if HasOneTimeDailyQuota sub then us_ExpiresAt sub else w + day))"

definition WeeklyResetTime :: "UserSubscription \<Rightarrow> gotime option" where
  "WeeklyResetTime sub = map_option (\<lambda>w. w + 7 * day) (us_WeeklyWindowStart sub)"

definition MonthlyResetTime :: "UserSubscription \<Rightarrow> gotime option" where
  "MonthlyResetTime sub = map_option (\<lambda>w. w + 30 * day) (us_MonthlyWindowStart sub)"

definition CheckDailyLimit :: "UserSubscription \<Rightarrow> groupLimits \<Rightarrow> rat \<Rightarrow> bool" where
  "CheckDailyLimit sub g cost = (if \<not> HasDailyLimit g then True
     else us_DailyUsageUSD sub + cost \<le> the (gl_DailyLimitUSD g))"

definition CheckWeeklyLimit :: "UserSubscription \<Rightarrow> groupLimits \<Rightarrow> rat \<Rightarrow> bool" where
  "CheckWeeklyLimit sub g cost = (if \<not> HasWeeklyLimit g then True
     else us_WeeklyUsageUSD sub + cost \<le> the (gl_WeeklyLimitUSD g))"

definition CheckMonthlyLimit :: "UserSubscription \<Rightarrow> groupLimits \<Rightarrow> rat \<Rightarrow> bool" where
  "CheckMonthlyLimit sub g cost = (if \<not> HasMonthlyLimit g then True
     else us_MonthlyUsageUSD sub + cost \<le> the (gl_MonthlyLimitUSD g))"

definition CheckAllLimits :: "UserSubscription \<Rightarrow> groupLimits \<Rightarrow> rat \<Rightarrow> bool \<times> bool \<times> bool" where
  "CheckAllLimits sub g cost = (CheckDailyLimit sub g cost, CheckWeeklyLimit sub g cost, CheckMonthlyLimit sub g cost)"

section \<open>Checks before a request\<close>

datatype usageError = ErrSubscriptionExpired | ErrSubscriptionSuspended
  | ErrDailyLimitExceeded | ErrWeeklyLimitExceeded | ErrMonthlyLimitExceeded

definition SubscriptionStatusSuspended :: string where "SubscriptionStatusSuspended = ''suspended''"

definition CheckUsageLimits :: "UserSubscription \<Rightarrow> groupLimits \<Rightarrow> rat \<Rightarrow> usageError option" where
  "CheckUsageLimits sub g cost =
     (if \<not> CheckDailyLimit sub g cost then Some ErrDailyLimitExceeded
      else if \<not> CheckWeeklyLimit sub g cost then Some ErrWeeklyLimitExceeded
      else if \<not> CheckMonthlyLimit sub g cost then Some ErrMonthlyLimitExceeded
      else None)"

text \<open>
  The function writes the corrected usage into the subscription it was given, which is the third part of the result.
  \<^verbatim>\<open>time.Now()\<close> is read for every test; the readings are one here.
\<close>

definition ValidateAndCheckLimits ::
  "gotime \<Rightarrow> UserSubscription \<Rightarrow> groupLimits \<Rightarrow> bool \<times> usageError option \<times> UserSubscription" where
  "ValidateAndCheckLimits now sub g =
     (if us_Status sub = StatusExpired then (False, Some ErrSubscriptionExpired, sub)
      else if us_Status sub = SubscriptionStatusSuspended then (False, Some ErrSubscriptionSuspended, sub)
      else if IsExpired now sub then (False, Some ErrSubscriptionExpired, sub)
      else
        let sub1 = (if NeedsDailyResetAt sub now then sub\<lparr>us_DailyUsageUSD := 0\<rparr> else sub);
            sub2 = (if NeedsWeeklyReset now sub1 then sub1\<lparr>us_WeeklyUsageUSD := 0\<rparr> else sub1);
            sub3 = (if NeedsMonthlyReset now sub2 then sub2\<lparr>us_MonthlyUsageUSD := 0\<rparr> else sub2);
            needsMaintenance = (NeedsDailyResetAt sub now \<or> NeedsWeeklyReset now sub1 \<or> NeedsMonthlyReset now sub2 \<or>
              \<not> IsWindowActivated sub3) in
        if \<not> CheckDailyLimit sub3 g 0 then (needsMaintenance, Some ErrDailyLimitExceeded, sub3)
        else if \<not> CheckWeeklyLimit sub3 g 0 then (needsMaintenance, Some ErrWeeklyLimitExceeded, sub3)
        else if \<not> CheckMonthlyLimit sub3 g 0 then (needsMaintenance, Some ErrMonthlyLimitExceeded, sub3)
        else (needsMaintenance, None, sub3))"

definition ValidateSubscription :: "UserSubscription \<Rightarrow> usageError option payProg" where
  "ValidateSubscription sub =
     (if us_Status sub = StatusExpired then Return (Some ErrSubscriptionExpired)
      else if us_Status sub = SubscriptionStatusSuspended then Return (Some ErrSubscriptionSuspended)
      else andThen Now (\<lambda>now.
        if IsExpired now sub then followedBy (UpdateStatus (us_ID sub) StatusExpired) (Return (Some ErrSubscriptionExpired))
        else Return None))"

text \<open>What lists show: expired windows as empty, overdue subscriptions as expired.\<close>

definition normalizeExpiredWindow :: "gotime \<Rightarrow> UserSubscription \<Rightarrow> UserSubscription" where
  "normalizeExpiredWindow now sub =
     (let sub1 = (if NeedsDailyResetAt sub now then sub\<lparr>us_DailyWindowStart := None, us_DailyUsageUSD := 0\<rparr> else sub);
          sub2 = (if NeedsWeeklyReset now sub1 then sub1\<lparr>us_WeeklyWindowStart := None, us_WeeklyUsageUSD := 0\<rparr> else sub1)
      in if NeedsMonthlyReset now sub2 then sub2\<lparr>us_MonthlyWindowStart := None, us_MonthlyUsageUSD := 0\<rparr> else sub2)"

definition normalizeExpiredWindows :: "gotime \<Rightarrow> UserSubscription list \<Rightarrow> UserSubscription list" where
  "normalizeExpiredWindows now subs = map (normalizeExpiredWindow now) subs"

definition normalizeSubscriptionStatus :: "gotime \<Rightarrow> UserSubscription list \<Rightarrow> UserSubscription list" where
  "normalizeSubscriptionStatus now subs =
     map (\<lambda>sub. if us_Status sub = StatusActive \<and> us_ExpiresAt sub \<le> now then sub\<lparr>us_Status := StatusExpired\<rparr> else sub) subs"

section \<open>Statements\<close>

definition ActivateWindows :: "int \<Rightarrow> gotime \<Rightarrow> unit call" where
  "ActivateWindows i start = onSub i (\<lambda>u. u\<lparr>us_DailyWindowStart := Some start, us_WeeklyWindowStart := Some start,
     us_MonthlyWindowStart := Some start\<rparr>)"

definition ResetUsageWindows :: "int \<Rightarrow> bool \<Rightarrow> bool \<Rightarrow> bool \<Rightarrow> gotime \<Rightarrow> unit call" where
  "ResetUsageWindows i resetDaily resetWeekly resetMonthly start = onSub i (\<lambda>u.
     let u1 = (if resetDaily then u\<lparr>us_DailyUsageUSD := 0, us_DailyWindowStart := Some start\<rparr> else u);
         u2 = (if resetWeekly then u1\<lparr>us_WeeklyUsageUSD := 0, us_WeeklyWindowStart := Some start\<rparr> else u1)
     in if resetMonthly then u2\<lparr>us_MonthlyUsageUSD := 0, us_MonthlyWindowStart := Some start\<rparr> else u2)"

text \<open>An update under a condition; when no row was hit, a query tells a missing subscription from a changed window.\<close>

definition conditionalReset :: "int \<Rightarrow> (UserSubscription \<Rightarrow> bool) \<Rightarrow> (UserSubscription \<Rightarrow> UserSubscription) \<Rightarrow> unit call" where
  "conditionalReset i P f =
     andThen (update (\<lambda>_ s. (Inr (length (filter (\<lambda>u. us_ID u = i \<and> P u) (subscriptions s))),
         s\<lparr>subscriptions := setRows (\<lambda>u. us_ID u = i \<and> P u) f (subscriptions s)\<rparr>))) (\<lambda>r.
       case r of
         Inl x \<Rightarrow> Return (Inl x)
       | Inr affected \<Rightarrow> if affected > 0 then Return (Inr ())
           else query (\<lambda>s. if list_ex (\<lambda>u. us_ID u = i) (liveSubs s) then Inr () else Inl ErrSubscriptionNotFound))"

definition ResetDailyUsageCAS :: "int \<Rightarrow> gotime option \<Rightarrow> gotime \<Rightarrow> unit call" where
  "ResetDailyUsageCAS i expected start = conditionalReset i (\<lambda>u. us_DailyWindowStart u = expected)
     (\<lambda>u. u\<lparr>us_DailyUsageUSD := 0, us_DailyWindowStart := Some start\<rparr>)"

definition ResetWeeklyUsageCAS :: "int \<Rightarrow> gotime option \<Rightarrow> gotime \<Rightarrow> unit call" where
  "ResetWeeklyUsageCAS i expected start = conditionalReset i (\<lambda>u. us_WeeklyWindowStart u = expected)
     (\<lambda>u. u\<lparr>us_WeeklyUsageUSD := 0, us_WeeklyWindowStart := Some start\<rparr>)"

definition ResetMonthlyUsageCAS :: "int \<Rightarrow> gotime option \<Rightarrow> gotime \<Rightarrow> unit call" where
  "ResetMonthlyUsageCAS i expected start = conditionalReset i (\<lambda>u. us_MonthlyWindowStart u = expected)
     (\<lambda>u. u\<lparr>us_MonthlyUsageUSD := 0, us_MonthlyWindowStart := Some start\<rparr>)"

definition IncrementUsage :: "int \<Rightarrow> rat \<Rightarrow> unit call" where
  "IncrementUsage i cost = update (\<lambda>_ s.
     let hit = (\<lambda>u. us_ID u = i \<and> us_DeletedAt u = None \<and> us_GroupID u \<in> g_ID ` set (groups s)) in
     if list_ex hit (subscriptions s)
     then (Inr (), s\<lparr>subscriptions := setRows hit (\<lambda>u. u\<lparr>us_DailyUsageUSD := us_DailyUsageUSD u + cost,
            us_WeeklyUsageUSD := us_WeeklyUsageUSD u + cost, us_MonthlyUsageUSD := us_MonthlyUsageUSD u + cost\<rparr>) (subscriptions s)\<rparr>)
     else (Inl ErrSubscriptionNotFound, s))"

definition BatchUpdateExpiredStatus :: "nat call" where
  "BatchUpdateExpiredStatus = update (\<lambda>e s.
     let hit = (\<lambda>u. us_Status u = StatusActive \<and> us_ExpiresAt u \<le> clock e) in
     (Inr (length (filter hit (subscriptions s))),
      s\<lparr>subscriptions := setRows hit (\<lambda>u. u\<lparr>us_Status := StatusExpired\<rparr>) (subscriptions s)\<rparr>))"

section \<open>Maintenance\<close>

definition CheckAndActivateWindow :: "UserSubscription \<Rightarrow> unit call" where
  "CheckAndActivateWindow sub =
     (if IsWindowActivated sub then Return (Inr ())
      else andThen Now (\<lambda>now. ActivateWindows (us_ID sub) (startOfDay now)))"

text \<open>
  \<^verbatim>\<open>time.Now()\<close> is read for the new start and once for every window, here one reading after the other. The function updates the
  copy as it goes on; the resets do not depend on each other's windows, so the copy is not returned.
\<close>

definition resetIf :: "bool \<Rightarrow> unit call \<Rightarrow> unit call \<Rightarrow> unit call" where
  "resetIf needed reset next = (if needed then andThen reset (\<lambda>r. case r of Inl x \<Rightarrow> Return (Inl x) | Inr _ \<Rightarrow> next) else next)"

definition resetWindowsAt :: "UserSubscription \<Rightarrow> gotime \<Rightarrow> gotime \<Rightarrow> gotime \<Rightarrow> gotime \<Rightarrow> unit call" where
  "resetWindowsAt sub now t1 t2 t3 =
     (let start = startOfDay now in
      resetIf (NeedsDailyResetAt sub t1) (ResetDailyUsageCAS (us_ID sub) (us_DailyWindowStart sub) start)
        (resetIf (NeedsWeeklyReset t2 sub) (ResetWeeklyUsageCAS (us_ID sub) (us_WeeklyWindowStart sub) start)
          (resetIf (NeedsMonthlyReset t3 sub) (ResetMonthlyUsageCAS (us_ID sub) (us_MonthlyWindowStart sub) start)
            (Return (Inr ())))))"

definition CheckAndResetWindows :: "UserSubscription \<Rightarrow> unit call" where
  "CheckAndResetWindows sub =
     andThen Now (\<lambda>now. andThen Now (\<lambda>t1. andThen Now (\<lambda>t2. andThen Now (\<lambda>t3. resetWindowsAt sub now t1 t2 t3))))"

definition doWindowMaintenance :: "UserSubscription \<Rightarrow> unit payProg" where
  "doWindowMaintenance sub =
     followedBy (if \<not> IsWindowActivated sub then CheckAndActivateWindow sub else Return (Inr ()))
       (followedBy (CheckAndResetWindows sub) (Return ()))"

definition RecordUsage :: "int \<Rightarrow> rat \<Rightarrow> unit call" where
  "RecordUsage i cost = IncrementUsage i cost"

definition ErrInvalidInput :: payError where
  "ErrInvalidInput = ApiError ''INVALID_INPUT'' ''at least one of resetDaily, resetWeekly, or resetMonthly must be true''"

definition AdminResetQuota :: "int \<Rightarrow> bool \<Rightarrow> bool \<Rightarrow> bool \<Rightarrow> UserSubscription call" where
  "AdminResetQuota i resetDaily resetWeekly resetMonthly =
     (if \<not> resetDaily \<and> \<not> resetWeekly \<and> \<not> resetMonthly then failWith ErrInvalidInput
      else handle (getSubByID i) failWith (\<lambda>sub.
        andThen Now (\<lambda>now.
          handle (ResetUsageWindows (us_ID sub) resetDaily resetWeekly resetMonthly (startOfDay now)) failWith (\<lambda>_.
            handle (getSubByID i) failWith (\<lambda>updated. Return (Inr updated))))))"

section \<open>Progress\<close>

record UsageWindowProgress =
  wp_LimitUSD :: rat
  wp_UsedUSD :: rat
  wp_RemainingUSD :: rat
  wp_Percentage :: rat
  wp_WindowStart :: gotime
  wp_ResetsAt :: gotime
  wp_ResetsInSeconds :: int

record SubscriptionProgress =
  sp_ID :: int
  sp_GroupName :: string
  sp_ExpiresAt :: gotime
  sp_ExpiresInDays :: int
  sp_Daily :: "UsageWindowProgress option"
  sp_Weekly :: "UsageWindowProgress option"
  sp_Monthly :: "UsageWindowProgress option"

text \<open>One of the three blocks of \<^verbatim>\<open>calculateProgress\<close>, which differ in the window and its length.\<close>

definition windowProgress :: "gotime \<Rightarrow> rat option \<Rightarrow> gotime option \<Rightarrow> rat \<Rightarrow> duration \<Rightarrow> UsageWindowProgress option" where
  "windowProgress now limit windowStart used len =
     (case (limit, windowStart) of
        (Some l, Some w) \<Rightarrow>
          if l > 0 then
            let resetsAt = w + len; remaining = l - used; percentage = used / l * 100;
                seconds = go_quot (resetsAt - now) second
            in Some \<lparr>wp_LimitUSD = l, wp_UsedUSD = used, wp_RemainingUSD = (if remaining < 0 then 0 else remaining),
                  wp_Percentage = (if percentage > 100 then 100 else percentage), wp_WindowStart = w, wp_ResetsAt = resetsAt,
                  wp_ResetsInSeconds = (if seconds < 0 then 0 else seconds)\<rparr>
          else None
      | _ \<Rightarrow> None)"

definition calculateProgress :: "gotime \<Rightarrow> UserSubscription \<Rightarrow> groupLimits \<Rightarrow> SubscriptionProgress" where
  "calculateProgress now sub g =
     \<lparr>sp_ID = us_ID sub, sp_GroupName = gl_Name g, sp_ExpiresAt = us_ExpiresAt sub, sp_ExpiresInDays = daysRemainingAt now sub,
      sp_Daily = windowProgress now (gl_DailyLimitUSD g) (us_DailyWindowStart sub) (us_DailyUsageUSD sub) day,
      sp_Weekly = windowProgress now (gl_WeeklyLimitUSD g) (us_WeeklyWindowStart sub) (us_WeeklyUsageUSD sub) (7 * day),
      sp_Monthly = windowProgress now (gl_MonthlyLimitUSD g) (us_MonthlyWindowStart sub) (us_MonthlyUsageUSD sub) (30 * day)\<rparr>"

section \<open>Windows only move forward\<close>

text \<open>Within a window usage only grows; when it shrinks, a later window has begun.\<close>

definition windowKept :: "gotime option \<Rightarrow> rat \<Rightarrow> gotime option \<Rightarrow> rat \<Rightarrow> bool" where
  "windowKept w used w' used' \<longleftrightarrow> w' = w \<and> used \<le> used' \<or> (\<exists>a b. w = Some a \<and> w' = Some b \<and> a < b)"

lemma windowKept_refl: "windowKept w u w u"
  by (simp add: windowKept_def)

lemma windowKept_trans: "windowKept w u w1 u1 \<Longrightarrow> windowKept w1 u1 w2 u2 \<Longrightarrow> windowKept w u w2 u2"
  by (auto simp: windowKept_def)

definition rowKept :: "UserSubscription \<Rightarrow> UserSubscription \<Rightarrow> bool" where
  "rowKept u v \<longleftrightarrow> us_ID v = us_ID u \<and>
     windowKept (us_DailyWindowStart u) (us_DailyUsageUSD u) (us_DailyWindowStart v) (us_DailyUsageUSD v) \<and>
     windowKept (us_WeeklyWindowStart u) (us_WeeklyUsageUSD u) (us_WeeklyWindowStart v) (us_WeeklyUsageUSD v) \<and>
     windowKept (us_MonthlyWindowStart u) (us_MonthlyUsageUSD u) (us_MonthlyWindowStart v) (us_MonthlyUsageUSD v)"

lemma rowKept_refl: "rowKept u u"
  by (simp add: rowKept_def windowKept_refl)

lemma rowKept_trans: "rowKept u v \<Longrightarrow> rowKept v w \<Longrightarrow> rowKept u w"
  unfolding rowKept_def by (auto intro: windowKept_trans)

definition usageKept :: "payDB \<Rightarrow> payDB \<Rightarrow> bool" where
  "usageKept s t \<longleftrightarrow> list_all2 rowKept (subscriptions s) (subscriptions t)"

interpretation usage: shared_store "\<lambda>_. True" usageKept
proof
  show "usageKept s s" for s by (simp add: usageKept_def list_all2_refl rowKept_refl)
  show "usageKept s t \<Longrightarrow> usageKept t u \<Longrightarrow> usageKept s u" for s t u
    unfolding usageKept_def by (rule list_all2_trans [OF rowKept_trans])
qed

lemma setRows_kept:
  assumes "\<And>u. P u \<Longrightarrow> rowKept u (f u)"
  shows "usageKept s (s\<lparr>subscriptions := setRows P f (subscriptions s)\<rparr>)"
  using assms by (auto simp: usageKept_def setRows_def list_all2_map2 rowKept_refl list_all2_same)

lemma kept_update:
  assumes "\<And>e s. usageKept s (snd (g e s))"
  shows "benign (\<lambda>_. True) usageKept (update g)"
  unfolding update_def by (rule usage.benign_statement) (use assms in simp_all)

lemma kept_query: "benign (\<lambda>_. True) usageKept (query g)"
  unfolding query_def by (rule usage.benign_read) simp

lemma kept_conditionalReset:
  assumes "\<And>u. P u \<Longrightarrow> rowKept u (f u)"
  shows "benign (\<lambda>_. True) usageKept (conditionalReset i P f)"
  unfolding conditionalReset_def
  by (intro usage.benign_andThen kept_update usage.benign_sum usage.benign_if usage.benign_Return kept_query)
    (use setRows_kept [of "\<lambda>u. us_ID u = i \<and> P u" f] assms in simp_all)

text \<open>A window that has to be reset began before the day that is now.\<close>

lemma startOfDay_later: "w + n * day \<le> now \<Longrightarrow> 1 \<le> n \<Longrightarrow> w < startOfDay now"
proof -
  assume a: "w + n * day \<le> now" "1 \<le> n"
  have "now mod day < day" by simp
  moreover have "1 * day \<le> n * day" using a(2) by (intro mult_right_mono) simp_all
  ultimately show ?thesis using a(1) by (simp add: startOfDay_def)
qed

definition sameDay :: "gotime \<Rightarrow> gotime \<Rightarrow> bool" where
  "sameDay t now \<longleftrightarrow> startOfDay t = startOfDay now"

lemma reset_moves_on:
  assumes "sameDay t now"
  shows "NeedsDailyResetAt sub t \<Longrightarrow> \<exists>w. us_DailyWindowStart sub = Some w \<and> w < startOfDay now"
    and "NeedsWeeklyReset t sub \<Longrightarrow> \<exists>w. us_WeeklyWindowStart sub = Some w \<and> w < startOfDay now"
    and "NeedsMonthlyReset t sub \<Longrightarrow> \<exists>w. us_MonthlyWindowStart sub = Some w \<and> w < startOfDay now"
  using assms startOfDay_later [of _ 1 t] startOfDay_later [of _ 7 t] startOfDay_later [of _ 30 t]
  by (auto simp: NeedsDailyResetAt_def NeedsWeeklyReset_def NeedsMonthlyReset_def sameDay_def split: option.splits if_splits)

lemma kept_resetIf:
  assumes "b \<Longrightarrow> benign (\<lambda>_. True) usageKept p" "benign (\<lambda>_. True) usageKept q"
  shows "benign (\<lambda>_. True) usageKept (resetIf b p q)"
  unfolding resetIf_def using assms by (intro usage.benign_if usage.benign_andThen usage.benign_sum usage.benign_Return) simp_all

lemma kept_resetWindowsAt:
  assumes "sameDay t1 now" "sameDay t2 now" "sameDay t3 now"
  shows "benign (\<lambda>_. True) usageKept (resetWindowsAt sub now t1 t2 t3)"
  unfolding resetWindowsAt_def ResetDailyUsageCAS_def ResetWeeklyUsageCAS_def ResetMonthlyUsageCAS_def
  using reset_moves_on(1) [OF assms(1), of sub] reset_moves_on(2) [OF assms(2), of sub] reset_moves_on(3) [OF assms(3), of sub]
  by (intro usage.benign_Let kept_resetIf kept_conditionalReset usage.benign_Return)
    (auto simp: rowKept_def windowKept_def)

lemma kept_RecordUsage: "0 \<le> cost \<Longrightarrow> benign (\<lambda>_. True) usageKept (RecordUsage i cost)"
  unfolding RecordUsage_def IncrementUsage_def
  by (rule kept_update) (auto simp: Let_def usage.R_refl rowKept_def windowKept_def intro!: setRows_kept)

text \<open>The programs that run while requests are served.\<close>

inductive usageOperation :: "unit call \<Rightarrow> bool" where
  maintain: "sameDay t1 now \<Longrightarrow> sameDay t2 now \<Longrightarrow> sameDay t3 now \<Longrightarrow> usageOperation (resetWindowsAt sub now t1 t2 t3)"
| record_usage: "0 \<le> cost \<Longrightarrow> usageOperation (RecordUsage i cost)"

text \<open>
  (C20) However maintenance runs and usage records interleave, from copies however stale, with failing and lost statements and dying
  processes: within a window the recorded usage never shrinks, and a usage that was reset belongs to an earlier window. The
  maintenance runs read the clock several times; this holds as long as the readings of one run fall on one day
  (\<^const>\<open>sameDay\<close>; \<open>reset_across_midnight\<close> below shows what happens otherwise). The reset of a quota by an
  administrator, which is meant to wipe it, is not among the operations.
\<close>

theorem usage_kept_in_window:
  assumes "list_all (arrives usageOperation) evs"
  shows "list_all2 (\<lambda>u v. us_ID v = us_ID u \<and>
      windowKept (us_DailyWindowStart u) (us_DailyUsageUSD u) (us_DailyWindowStart v) (us_DailyUsageUSD v) \<and>
      windowKept (us_WeeklyWindowStart u) (us_WeeklyUsageUSD u) (us_WeeklyWindowStart v) (us_WeeklyUsageUSD v) \<and>
      windowKept (us_MonthlyWindowStart u) (us_MonthlyUsageUSD u) (us_MonthlyWindowStart v) (us_MonthlyUsageUSD v))
    (subscriptions s) (subscriptions (snd (foldl poolStep ([], s) evs)))"
proof -
  have "benign (\<lambda>_. True) usageKept p" if "usageOperation p" for p
    using that by cases (simp_all add: kept_resetWindowsAt kept_RecordUsage)
  then have "arrives (benign (\<lambda>_. True) usageKept) ev" if "arrives usageOperation ev" for ev
    using that by (cases ev) auto
  then have "list_all (arrives (benign (\<lambda>_. True) usageKept)) evs" using assms by (auto simp: list_all_iff)
  from usage.pool_safe [OF _ this, of s] show ?thesis by (simp add: usageKept_def rowKept_def [abs_def])
qed

text \<open>A usage record and a reset from a copy taken before it: the reset wins the day, the record the next one.\<close>

definition usageDB :: payDB where
  "usageDB = \<lparr>orders = [], codes = [], users = [], ledger = [], pointsLedger = [], audits = [],
     groups = [\<lparr>g_ID = 1, g_Status = StatusActive, g_SubscriptionType = ''subscription''\<rparr>],
     subscriptions = [\<lparr>us_ID = 1, us_UserID = 1, us_GroupID = 1, us_StartsAt = 0, us_ExpiresAt = 30 * day, us_Status = StatusActive,
       us_DailyWindowStart = Some 0, us_WeeklyWindowStart = Some 0, us_MonthlyWindowStart = Some 0, us_DailyUsageUSD = 4,
       us_WeeklyUsageUSD = 4, us_MonthlyUsageUSD = 4, us_AssignedBy = None, us_AssignedAt = 0, us_Notes = [], us_DeletedAt = None\<rparr>],
     instances = [], nextCodeID = 1, nextSubID = 2\<rparr>"

abbreviation usageRow :: UserSubscription where "usageRow \<equiv> hd (subscriptions usageDB)"

theorem usage_kept_in_window_witness:
  "let evs = [Arrive (RecordUsage 1 3), Arrive (resetWindowsAt usageRow (2 * day) (2 * day) (2 * day) (2 * day))] in
   list_all (arrives usageOperation) evs \<and>
   list_all2 (\<lambda>u v. us_ID v = us_ID u \<and>
      windowKept (us_DailyWindowStart u) (us_DailyUsageUSD u) (us_DailyWindowStart v) (us_DailyUsageUSD v) \<and>
      windowKept (us_WeeklyWindowStart u) (us_WeeklyUsageUSD u) (us_WeeklyWindowStart v) (us_WeeklyUsageUSD v) \<and>
      windowKept (us_MonthlyWindowStart u) (us_MonthlyUsageUSD u) (us_MonthlyWindowStart v) (us_MonthlyUsageUSD v))
    (subscriptions usageDB) (subscriptions (snd (foldl poolStep ([], usageDB) evs)))"
proof -
  have "list_all (arrives usageOperation)
      [Arrive (RecordUsage 1 3), Arrive (resetWindowsAt usageRow (2 * day) (2 * day) (2 * day) (2 * day))]"
    by (auto intro!: usageOperation.intros simp: sameDay_def)
  with usage_kept_in_window [OF this, of usageDB] show ?thesis unfolding Let_def by blast
qed

section \<open>The hot path and the maintenance agree\<close>

definition hasRow :: "payDB \<Rightarrow> UserSubscription \<Rightarrow> bool" where
  "hasRow s v \<longleftrightarrow> v \<in> set (subscriptions s) \<and> distinct (map us_ID (subscriptions s))"

definition putRow :: "payDB \<Rightarrow> UserSubscription \<Rightarrow> payDB" where
  "putRow s v = s\<lparr>subscriptions := map (\<lambda>x. if us_ID x = us_ID v then v else x) (subscriptions s)\<rparr>"

lemma hasRow_unique: "hasRow s v \<Longrightarrow> x \<in> set (subscriptions s) \<Longrightarrow> us_ID x = us_ID v \<Longrightarrow> x = v"
  by (auto simp: hasRow_def distinct_map dest: inj_onD)

lemma hasRow_putRow: "hasRow s v \<Longrightarrow> us_ID w = us_ID v \<Longrightarrow> hasRow (putRow s w) w"
proof -
  assume a: "hasRow s v" "us_ID w = us_ID v"
  have "map us_ID (subscriptions (putRow s w)) = map us_ID (subscriptions s)" by (simp add: putRow_def)
  moreover have "w \<in> set (subscriptions (putRow s w))"
    using a by (auto simp: hasRow_def putRow_def image_iff intro!: bexI [of _ v])
  ultimately show ?thesis using a(1) by (simp add: hasRow_def)
qed

lemma putRow_same: "hasRow s v \<Longrightarrow> putRow s v = s"
proof -
  assume "hasRow s v"
  then have "map (\<lambda>x. if us_ID x = us_ID v then v else x) (subscriptions s) = subscriptions s"
    by (intro map_idI) (auto dest: hasRow_unique)
  then show ?thesis by (simp add: putRow_def)
qed

lemma putRow_putRow: "us_ID w = us_ID v \<Longrightarrow> putRow (putRow s v) w = putRow s w"
  by (simp add: putRow_def)

lemma find_hasRow: "hasRow s v \<Longrightarrow> find (\<lambda>u. us_ID u = us_ID v) (subscriptions s) = Some v"
proof -
  assume a: "hasRow s v"
  then obtain w where w: "find (\<lambda>u. us_ID u = us_ID v) (subscriptions s) = Some w"
    by (metis (mono_tags) find_None_iff hasRow_def not_Some_eq)
  then have "w \<in> set (subscriptions s)" "us_ID w = us_ID v" by (auto simp: find_Some_iff)
  with w hasRow_unique [OF a] show ?thesis by simp
qed

lemma setRows_hasRow:
  assumes "hasRow s v" "P v" "us_ID (f v) = us_ID v"
  shows "s\<lparr>subscriptions := setRows (\<lambda>u. us_ID u = us_ID v \<and> P u) f (subscriptions s)\<rparr> = putRow s (f v)"
proof -
  have "map (\<lambda>x. if us_ID x = us_ID v \<and> P x then f x else x) (subscriptions s) =
      map (\<lambda>x. if us_ID x = us_ID (f v) then f v else x) (subscriptions s)"
    using hasRow_unique [OF assms(1)] assms(2,3) by (intro map_cong) auto
  then show ?thesis by (simp add: putRow_def setRows_def)
qed

lemma exec_conditionalReset:
  assumes "fault e = Works" "hasRow s v" "P v" "us_ID (f v) = us_ID v"
  shows "exec e (conditionalReset (us_ID v) P f) s = (Inr (), putRow s (f v))"
proof -
  have "filter (\<lambda>u. us_ID u = us_ID v \<and> P u) (subscriptions s) \<noteq> []"
    using assms(2,3) by (auto simp: hasRow_def filter_empty_conv)
  with setRows_hasRow [of s v P f, OF assms(2-4)] show ?thesis
    using assms(1) by (simp add: conditionalReset_def exec_andThen)
qed

lemma exec_resetIf:
  assumes "fault e = Works" "hasRow s v" "b \<Longrightarrow> P v" "us_ID (f v) = us_ID v" "us_ID v = i"
  shows "exec e (resetIf b (conditionalReset i P f) next) s = exec e next (putRow s (if b then f v else v))"
  using exec_conditionalReset [OF assms(1,2), of P f] assms(3-5) putRow_same [OF assms(2)]
  by (auto simp: resetIf_def exec_andThen)

text \<open>The row the resets leave, window by window.\<close>

definition resetRow :: "gotime \<Rightarrow> UserSubscription \<Rightarrow> UserSubscription" where
  "resetRow now v =
     (let v1 = (if NeedsDailyResetAt v now then v\<lparr>us_DailyUsageUSD := 0, us_DailyWindowStart := Some (startOfDay now)\<rparr> else v);
          v2 = (if NeedsWeeklyReset now v then v1\<lparr>us_WeeklyUsageUSD := 0, us_WeeklyWindowStart := Some (startOfDay now)\<rparr> else v1)
      in if NeedsMonthlyReset now v then v2\<lparr>us_MonthlyUsageUSD := 0, us_MonthlyWindowStart := Some (startOfDay now)\<rparr> else v2)"

lemma exec_resetWindowsAt:
  assumes "fault e = Works" "hasRow s v"
  shows "exec e (resetWindowsAt v now now now now) s = (Inr (), putRow s (resetRow now v))"
proof -
  define v1 where "v1 = (if NeedsDailyResetAt v now then v\<lparr>us_DailyUsageUSD := 0, us_DailyWindowStart := Some (startOfDay now)\<rparr> else v)"
  define v2 where "v2 = (if NeedsWeeklyReset now v then v1\<lparr>us_WeeklyUsageUSD := 0, us_WeeklyWindowStart := Some (startOfDay now)\<rparr> else v1)"
  have id: "us_ID v1 = us_ID v" "us_ID v2 = us_ID v" by (simp_all add: v1_def v2_def)
  have rows: "hasRow (putRow s v1) v1" "hasRow (putRow s v2) v2"
    using hasRow_putRow [OF assms(2)] id by simp_all
  have w: "us_WeeklyWindowStart v1 = us_WeeklyWindowStart v" "us_MonthlyWindowStart v2 = us_MonthlyWindowStart v"
    by (simp_all add: v1_def v2_def)
  show ?thesis
    unfolding resetWindowsAt_def Let_def ResetDailyUsageCAS_def ResetWeeklyUsageCAS_def ResetMonthlyUsageCAS_def
    by (simp add: exec_resetIf [OF assms] v1_def [symmetric] exec_resetIf [OF assms(1) rows(1)] w(1) v2_def [symmetric] id
        putRow_putRow exec_resetIf [OF assms(1) rows(2)] w(2))
      (simp add: resetRow_def Let_def v1_def v2_def)
qed

lemma resetRow_settled:
  "\<not> NeedsDailyResetAt (resetRow now v) now" "\<not> NeedsWeeklyReset now (resetRow now v)" "\<not> NeedsMonthlyReset now (resetRow now v)"
proof -
  have "0 \<le> now mod day" "now mod day < day" by simp_all
  then show "\<not> NeedsDailyResetAt (resetRow now v) now" "\<not> NeedsWeeklyReset now (resetRow now v)" "\<not> NeedsMonthlyReset now (resetRow now v)"
    by (auto simp: resetRow_def Let_def NeedsDailyResetAt_def NeedsWeeklyReset_def NeedsMonthlyReset_def HasOneTimeDailyQuota_def
        startOfDay_def split: option.splits)
qed

text \<open>Whether a window has elapsed does not depend on the usage.\<close>

lemma needs_usage:
  "NeedsWeeklyReset now (v\<lparr>us_DailyUsageUSD := x\<rparr>) = NeedsWeeklyReset now v"
  "NeedsMonthlyReset now (v\<lparr>us_DailyUsageUSD := x\<rparr>) = NeedsMonthlyReset now v"
  "NeedsMonthlyReset now (v\<lparr>us_WeeklyUsageUSD := x\<rparr>) = NeedsMonthlyReset now v"
  by (simp_all add: NeedsWeeklyReset_def NeedsMonthlyReset_def)

lemma usage_ifs:
  "(if b then v\<lparr>us_DailyUsageUSD := 0\<rparr> else v) = v\<lparr>us_DailyUsageUSD := (if b then 0 else us_DailyUsageUSD v)\<rparr>"
  "(if b then v\<lparr>us_WeeklyUsageUSD := 0\<rparr> else v) = v\<lparr>us_WeeklyUsageUSD := (if b then 0 else us_WeeklyUsageUSD v)\<rparr>"
  "(if b then v\<lparr>us_MonthlyUsageUSD := 0\<rparr> else v) = v\<lparr>us_MonthlyUsageUSD := (if b then 0 else us_MonthlyUsageUSD v)\<rparr>"
  by simp_all

lemma CheckUsageLimits_cong:
  assumes "us_DailyUsageUSD u = us_DailyUsageUSD w" "us_WeeklyUsageUSD u = us_WeeklyUsageUSD w" "us_MonthlyUsageUSD u = us_MonthlyUsageUSD w"
  shows "CheckUsageLimits u g c = CheckUsageLimits w g c"
  using assms by (simp add: CheckUsageLimits_def CheckDailyLimit_def CheckWeeklyLimit_def CheckMonthlyLimit_def)

text \<open>What the hot path decides, in terms of the row the resets leave.\<close>

lemma ValidateAndCheckLimits_resetRow:
  assumes "us_Status v \<notin> {StatusExpired, SubscriptionStatusSuspended}" "\<not> IsExpired now v"
  shows "fst (snd (ValidateAndCheckLimits now v g)) = CheckUsageLimits (resetRow now v) g 0"
proof -
  define w where "w = v\<lparr>us_DailyUsageUSD := (if NeedsDailyResetAt v now then 0 else us_DailyUsageUSD v),
    us_WeeklyUsageUSD := (if NeedsWeeklyReset now v then 0 else us_WeeklyUsageUSD v),
    us_MonthlyUsageUSD := (if NeedsMonthlyReset now v then 0 else us_MonthlyUsageUSD v)\<rparr>"
  have "CheckUsageLimits (resetRow now v) g 0 = CheckUsageLimits w g 0"
    by (rule CheckUsageLimits_cong) (simp_all add: resetRow_def Let_def w_def)
  moreover define b where "b \<longleftrightarrow> NeedsDailyResetAt v now \<or> NeedsWeeklyReset now v \<or> NeedsMonthlyReset now v \<or> \<not> IsWindowActivated w"
  have "ValidateAndCheckLimits now v g =
      (if \<not> CheckDailyLimit w g 0 then (b, Some ErrDailyLimitExceeded, w)
       else if \<not> CheckWeeklyLimit w g 0 then (b, Some ErrWeeklyLimitExceeded, w)
       else if \<not> CheckMonthlyLimit w g 0 then (b, Some ErrMonthlyLimitExceeded, w) else (b, None, w))"
  proof -
    have "v\<lparr>us_DailyUsageUSD := (if NeedsDailyResetAt v now then 0 else us_DailyUsageUSD v),
        us_WeeklyUsageUSD := (if NeedsWeeklyReset now v then 0
          else us_WeeklyUsageUSD (v\<lparr>us_DailyUsageUSD := (if NeedsDailyResetAt v now then 0 else us_DailyUsageUSD v)\<rparr>)),
        us_MonthlyUsageUSD := (if NeedsMonthlyReset now v then 0
          else us_MonthlyUsageUSD (v\<lparr>us_DailyUsageUSD := (if NeedsDailyResetAt v now then 0 else us_DailyUsageUSD v),
            us_WeeklyUsageUSD := (if NeedsWeeklyReset now v then 0
              else us_WeeklyUsageUSD (v\<lparr>us_DailyUsageUSD := (if NeedsDailyResetAt v now then 0 else us_DailyUsageUSD v)\<rparr>))\<rparr>))\<rparr> = w"
      unfolding w_def by simp
    then show ?thesis using assms unfolding ValidateAndCheckLimits_def Let_def usage_ifs needs_usage by (simp only: b_def) simp
  qed
  then have "fst (snd (ValidateAndCheckLimits now v g)) = CheckUsageLimits w g 0"
    by (simp add: CheckUsageLimits_def)
  ultimately show ?thesis by simp
qed

definition activateRow :: "gotime \<Rightarrow> UserSubscription \<Rightarrow> UserSubscription" where
  "activateRow now v = (if IsWindowActivated v then v else v\<lparr>us_DailyWindowStart := Some (startOfDay now),
     us_WeeklyWindowStart := Some (startOfDay now), us_MonthlyWindowStart := Some (startOfDay now)\<rparr>)"

lemma exec_doWindowMaintenance:
  assumes "fault e = Works" "hasRow s v"
  shows "snd (exec e (doWindowMaintenance v) s) =
    putRow s (if IsWindowActivated v then resetRow (clock e) v else activateRow (clock e) v)"
proof (cases "IsWindowActivated v")
  case True
  then show ?thesis using exec_resetWindowsAt [OF assms]
    by (simp add: doWindowMaintenance_def CheckAndResetWindows_def Now_def exec_andThen)
next
  case False
  then have "resetWindowsAt v now now now now = Return (Inr ())" for now
    by (simp add: resetWindowsAt_def resetIf_def IsWindowActivated_def NeedsDailyResetAt_def NeedsWeeklyReset_def NeedsMonthlyReset_def)
  moreover have "exec e (CheckAndActivateWindow v) s = (Inr (), putRow s (activateRow (clock e) v))"
    using False assms setRows_hasRow [of s v "\<lambda>_. True" "\<lambda>u. u\<lparr>us_DailyWindowStart := Some (startOfDay (clock e)),
       us_WeeklyWindowStart := Some (startOfDay (clock e)), us_MonthlyWindowStart := Some (startOfDay (clock e))\<rparr>"]
    by (auto simp: CheckAndActivateWindow_def Now_def exec_andThen ActivateWindows_def onSub_def list_ex_iff hasRow_def activateRow_def)
  ultimately show ?thesis using False
    by (simp add: doWindowMaintenance_def CheckAndResetWindows_def Now_def exec_andThen)
qed

lemma row_settled_activate:
  assumes "\<not> IsWindowActivated v"
  shows "\<not> NeedsDailyResetAt (activateRow now v) now" "\<not> NeedsWeeklyReset now (activateRow now v)"
    "\<not> NeedsMonthlyReset now (activateRow now v)" "IsWindowActivated (activateRow now v)"
proof -
  have "0 \<le> now mod day" "now mod day < day" by simp_all
  with assms show "\<not> NeedsDailyResetAt (activateRow now v) now" "\<not> NeedsWeeklyReset now (activateRow now v)"
    "\<not> NeedsMonthlyReset now (activateRow now v)" "IsWindowActivated (activateRow now v)"
    by (simp_all add: activateRow_def NeedsDailyResetAt_def NeedsWeeklyReset_def NeedsMonthlyReset_def IsWindowActivated_def
        HasOneTimeDailyQuota_def startOfDay_def)
qed

lemma resetRow_activated: "IsWindowActivated v \<Longrightarrow> IsWindowActivated (resetRow now v)"
  by (auto simp: IsWindowActivated_def resetRow_def Let_def)

text \<open>
  (C21) The hot path decides in memory what the limits say of the stored subscription once maintenance has run: a request that
  finds an elapsed window is admitted or refused as if the window had already been reset.
\<close>

theorem hot_path_agrees:
  assumes "fault e = Works" "sub \<in> set (subscriptions s)" "distinct (map us_ID (subscriptions s))"
    and "us_Status sub \<noteq> StatusExpired" "us_Status sub \<noteq> SubscriptionStatusSuspended" "\<not> IsExpired (clock e) sub"
  shows "\<exists>u. find (\<lambda>u. us_ID u = us_ID sub) (subscriptions (snd (exec e (doWindowMaintenance sub) s))) = Some u \<and>
    fst (snd (ValidateAndCheckLimits (clock e) sub g)) = CheckUsageLimits u g 0 \<and>
    \<not> fst (ValidateAndCheckLimits (clock e) u g)"
proof -
  define u where "u = (if IsWindowActivated sub then resetRow (clock e) sub else activateRow (clock e) sub)"
  have row: "hasRow s sub" using assms(2,3) by (simp add: hasRow_def)
  have id: "us_ID u = us_ID sub" by (simp add: u_def resetRow_def activateRow_def Let_def)
  have 1: "find (\<lambda>u. us_ID u = us_ID sub) (subscriptions (snd (exec e (doWindowMaintenance sub) s))) = Some u"
    using find_hasRow [OF hasRow_putRow [OF row id]] id by (simp add: exec_doWindowMaintenance [OF assms(1) row] u_def [symmetric])
  have "CheckUsageLimits (resetRow (clock e) sub) g 0 = CheckUsageLimits u g 0"
    by (rule CheckUsageLimits_cong)
      (auto simp: u_def activateRow_def resetRow_def Let_def IsWindowActivated_def NeedsDailyResetAt_def NeedsWeeklyReset_def
        NeedsMonthlyReset_def)
  moreover have "fst (snd (ValidateAndCheckLimits (clock e) sub g)) = CheckUsageLimits (resetRow (clock e) sub) g 0"
    using assms(4-6) by (intro ValidateAndCheckLimits_resetRow) simp_all
  moreover have "\<not> NeedsDailyResetAt u (clock e)" "\<not> NeedsWeeklyReset (clock e) u" "\<not> NeedsMonthlyReset (clock e) u"
    "IsWindowActivated u"
    using resetRow_settled [of "clock e" sub] row_settled_activate [of sub "clock e"] resetRow_activated [of sub "clock e"]
    by (auto simp: u_def)
  ultimately show ?thesis using 1 by (simp add: ValidateAndCheckLimits_def Let_def)
qed

definition worldNow :: "gotime \<Rightarrow> payEnv" where
  "worldNow t = \<lparr>fault = Works, clock = t, attemptCount = None, lockCode = None, providerOf = (\<lambda>_. Inl RowNotFound),
     registryKey = (\<lambda>_. []), registryProvider = (\<lambda>_. Inl RowNotFound), QueryOrder = (\<lambda>_ _. Inl RowNotFound),
     Refund = (\<lambda>_ _. None), orderTimeoutMin = None\<rparr>"

lemma worldNow_simps [simp]: "fault (worldNow t) = Works" "clock (worldNow t) = t"
  by (simp_all add: worldNow_def)

definition usageGroup :: groupLimits where
  "usageGroup = \<lparr>gl_Name = ''team'', gl_DailyLimitUSD = Some 3, gl_WeeklyLimitUSD = Some 20, gl_MonthlyLimitUSD = None\<rparr>"

theorem hot_path_agrees_witness:
  "CheckUsageLimits usageRow usageGroup 0 = Some ErrDailyLimitExceeded \<and>
   fst (snd (ValidateAndCheckLimits (2 * day) usageRow usageGroup)) = None \<and>
   (\<exists>u. find (\<lambda>u. us_ID u = us_ID usageRow)
       (subscriptions (snd (exec (worldNow (2 * day)) (doWindowMaintenance usageRow) usageDB))) = Some u \<and>
     fst (snd (ValidateAndCheckLimits (clock (worldNow (2 * day))) usageRow usageGroup)) = CheckUsageLimits u usageGroup 0 \<and>
     \<not> fst (ValidateAndCheckLimits (clock (worldNow (2 * day))) u usageGroup))"
proof (intro conjI)
  show "CheckUsageLimits usageRow usageGroup 0 = Some ErrDailyLimitExceeded"
    by (simp add: usageDB_def usageGroup_def CheckUsageLimits_def CheckDailyLimit_def HasDailyLimit_def positiveLimit_def)
  show "fst (snd (ValidateAndCheckLimits (2 * day) usageRow usageGroup)) = None"
    by (simp add: usageDB_def usageGroup_def ValidateAndCheckLimits_def Let_def row_status_defs SubscriptionStatusSuspended_def IsExpired_def
        NeedsDailyResetAt_def NeedsWeeklyReset_def NeedsMonthlyReset_def HasOneTimeDailyQuota_def IsZero_def addDays_def CheckDailyLimit_def
        CheckWeeklyLimit_def CheckMonthlyLimit_def HasWeeklyLimit_def HasMonthlyLimit_def positiveLimit_def)
  show "\<exists>u. find (\<lambda>u. us_ID u = us_ID usageRow)
       (subscriptions (snd (exec (worldNow (2 * day)) (doWindowMaintenance usageRow) usageDB))) = Some u \<and>
     fst (snd (ValidateAndCheckLimits (clock (worldNow (2 * day))) usageRow usageGroup)) = CheckUsageLimits u usageGroup 0 \<and>
     \<not> fst (ValidateAndCheckLimits (clock (worldNow (2 * day))) u usageGroup)"
    by (rule hot_path_agrees) (simp_all add: usageDB_def row_status_defs SubscriptionStatusSuspended_def IsExpired_def)
qed

section \<open>Where the windows mislead\<close>

text \<open>
  A reset decided just after midnight with a start taken just before it: the window keeps its start, loses its usage, and has to be
  reset at once again, whatever was recorded in between.
\<close>

lemma reset_across_midnight:
  assumes "fault e = Works" "hasRow s v" "us_DailyWindowStart v = Some (startOfDay now)" "startOfDay now + day \<le> t"
    and "\<not> HasOneTimeDailyQuota v" "us_WeeklyWindowStart v = None" "us_MonthlyWindowStart v = None"
  shows "\<exists>u. exec e (resetWindowsAt v now t t t) s = (Inr (), putRow s u) \<and> us_DailyUsageUSD u = 0 \<and>
    us_DailyWindowStart u = us_DailyWindowStart v \<and> NeedsDailyResetAt u t"
proof -
  have needs: "NeedsDailyResetAt v t" "\<not> NeedsWeeklyReset t v" "\<not> NeedsMonthlyReset t v"
    using assms(3-7) by (simp_all add: NeedsDailyResetAt_def NeedsWeeklyReset_def NeedsMonthlyReset_def)
  then have "exec e (resetWindowsAt v now t t t) s =
      (Inr (), putRow s (v\<lparr>us_DailyUsageUSD := 0, us_DailyWindowStart := Some (startOfDay now)\<rparr>))"
    using exec_resetIf [OF assms(1,2), of "NeedsDailyResetAt v t" "\<lambda>u. us_DailyWindowStart u = us_DailyWindowStart v"
        "\<lambda>u. u\<lparr>us_DailyUsageUSD := 0, us_DailyWindowStart := Some (startOfDay now)\<rparr>" "us_ID v" "Return (Inr ())"]
    by (simp add: resetWindowsAt_def ResetDailyUsageCAS_def resetIf_def)
  then show ?thesis using needs(1) assms(3)
    by (intro exI [of _ "v\<lparr>us_DailyUsageUSD := 0, us_DailyWindowStart := Some (startOfDay now)\<rparr>"])
      (auto simp: NeedsDailyResetAt_def HasOneTimeDailyQuota_def split: if_splits)
qed

text \<open>
  The daily quota of a subscription that lasts one day is never renewed, and \<^verbatim>\<open>DailyResetTime\<close> says so; the progress shown to the
  user still promises a renewal one day after the window began.
\<close>

theorem one_time_quota_progress:
  assumes "HasOneTimeDailyQuota sub" "us_DailyWindowStart sub = Some w" "HasDailyLimit g"
  shows "map_option wp_ResetsAt (sp_Daily (calculateProgress now sub g)) = Some (w + day) \<and>
    DailyResetTime sub = Some (us_ExpiresAt sub) \<and> (\<forall>t. \<not> NeedsDailyResetAt sub t)"
  using assms by (auto simp: calculateProgress_def windowProgress_def DailyResetTime_def NeedsDailyResetAt_def HasDailyLimit_def
      positiveLimit_def Let_def split: option.splits)

definition oneDayRow :: UserSubscription where
  "oneDayRow = usageRow\<lparr>us_StartsAt := 10 * hour, us_ExpiresAt := 34 * hour\<rparr>"

theorem one_time_quota_progress_witness:
  "map_option wp_ResetsAt (sp_Daily (calculateProgress (30 * hour) oneDayRow usageGroup)) = Some (0 + day) \<and>
   DailyResetTime oneDayRow = Some (us_ExpiresAt oneDayRow) \<and> (\<forall>t. \<not> NeedsDailyResetAt oneDayRow t)"
  by (rule one_time_quota_progress)
    (simp_all add: oneDayRow_def usageDB_def usageGroup_def HasOneTimeDailyQuota_def IsZero_def addDays_def HasDailyLimit_def positiveLimit_def)

end
