(* ===== verification/BillingStore.thy ===== *)
theory BillingStore
  imports Subscriptions
begin

text \<open>
  The tables behind usage billing and the single statements \<^verbatim>\<open>repository/usage_billing_repo.go\<close> and
  \<^verbatim>\<open>usage_billing_repo_v160.go\<close> run on them inside one transaction: the claim of a request, the wallet of a user, the
  ledgers, API keys, account quotas, and the settlement with the owner and the inviter of a shared account.

  Rows that are soft deleted are absent. Amounts are exact rationals, rounded where a column or
  \<^verbatim>\<open>decimal.Round\<close> rounds them: a balance has eight decimals, points and ledgers ten. Of a usage log the
  columns are kept that something reads back, of the JSON metadata of a ledger entry the request.
\<close>

section \<open>Decimals\<close>

definition decimals :: "nat \<Rightarrow> rat \<Rightarrow> rat" where
  "decimals n q = goRound (q * 10 ^ n) / 10 ^ n"

definition decimalFromFloat :: "rat \<Rightarrow> rat" where
  "decimalFromFloat v = (if v \<le> 0 then 0 else decimals 10 v)"

definition decimalFromSignedFloat :: "rat \<Rightarrow> rat" where
  "decimalFromSignedFloat v = decimals 10 v"

section \<open>Rows\<close>

record dedupRow =
  dd_RequestID :: string
  dd_APIKeyID :: int
  dd_Fingerprint :: string
  dd_CreatedAt :: gotime

record walletRow =
  wu_ID :: int
  wu_Balance :: rat
  wu_Points :: rat
  wu_Frozen :: rat
  wu_Status :: string

record chargeEntry =
  ce_UserID :: int
  ce_Direction :: string
  ce_Amount :: rat
  ce_Reason :: string
  ce_RefType :: string
  ce_RefID :: "int option"
  ce_BalanceAfter :: rat
  ce_RequestID :: string
  ce_APIKeyID :: int

record UsageLog =
  ul_ID :: int
  ul_UserID :: int
  ul_APIKeyID :: int
  ul_AccountID :: int
  ul_RequestID :: string
  ul_TotalCost :: rat
  ul_ActualCost :: rat
  ul_AccountStatsCost :: "rat option"
  ul_AccountRateMultiplier :: "rat option"
  ul_CreatedAt :: "gotime option"

record keyRow =
  ak_ID :: int
  ak_Status :: string
  ak_Quota :: rat
  ak_QuotaUsed :: rat
  ak_Usage5h :: rat
  ak_Usage1d :: rat
  ak_Usage7d :: rat
  ak_Window5h :: "gotime option"
  ak_Window1d :: "gotime option"
  ak_Window7d :: "gotime option"

text \<open>
  The quota keys of \<^verbatim>\<open>accounts.extra\<close>. A key that is absent reads as zero, as rolling mode or as 1970; the start of a period may be
  absent.
\<close>

record quotaPeriod =
  qp_Limit :: rat
  qp_Used :: rat
  qp_Start :: "gotime option"
  qp_Fixed :: bool
  qp_ResetAt :: "gotime option"

record quotaAccount =
  qa_ID :: int
  qa_OwnerUserID :: "int option"
  qa_ShareMode :: string
  qa_ShareStatus :: string
  qa_Platform :: string
  qa_SharePolicyID :: "int option"
  qa_QuotaUsed :: rat
  qa_QuotaLimit :: rat
  qa_Daily :: quotaPeriod
  qa_Weekly :: quotaPeriod

record sharePolicy =
  sh_ID :: int
  sh_OwnerShareRatio :: rat
  sh_InviteShareRatio :: rat
  sh_Version :: int
  sh_EffectiveAt :: gotime

record affiliateRow =
  af_UserID :: int
  af_InviterID :: "int option"
  af_BoundAt :: gotime
  af_ExpiresAt :: "gotime option"
  af_HistoryQuota :: rat

record shareSettlement =
  ss_RequestID :: string
  ss_APIKeyID :: int
  ss_ConsumerUserID :: int
  ss_OwnerUserID :: int
  ss_AccountID :: int
  ss_PolicyID :: "int option"
  ss_PolicyVersion :: int
  ss_ConsumerCharge :: rat
  ss_AccountCost :: rat
  ss_OwnerShareRatio :: rat
  ss_OwnerCredit :: rat
  ss_InviterUserID :: "int option"
  ss_InviteShareRatio :: rat
  ss_InviteCredit :: rat
  ss_PlatformShareRatio :: rat
  ss_PlatformFee :: rat

text \<open>Only enabled policies of the global scope are ever read. The switch for rebates is the text of a setting.\<close>

record billDB =
  dedup :: "dedupRow list"
  archive :: "dedupRow list"
  wallets :: "walletRow list"
  balanceLedger :: "chargeEntry list"
  pointsCharges :: "chargeEntry list"
  usageLogs :: "UsageLog list"
  nextLogID :: int
  apiKeys :: "keyRow list"
  quotaAccounts :: "quotaAccount list"
  billGroups :: "int list"
  billSubs :: "UserSubscription list"
  policies :: "sharePolicy list"
  affiliates :: "affiliateRow list"
  affiliateLedger :: "(int \<times> rat \<times> int) list"
  settlements :: "shareSettlement list"
  affiliateSetting :: "string option"
  outbox :: "int list"

section \<open>Statements\<close>

datatype billError =
    BillDbError
  | ErrUsageBillingRequestIDRequired
  | ErrUsageBillingRequestConflict
  | NotApplied
  | BillUserNotFound
  | BillSubscriptionNotFound
  | ErrAPIKeyNotFound
  | ErrAccountNotFound
  | ErrBatchImageInsufficientBalance
  | ErrBatchImageSettlementCostExceedsHold
  | FrozenBalanceInsufficient

text \<open>
  The world says when the next daily or weekly reset of an account in fixed mode is due: it depends on the configured time zone
  and hour.
\<close>

record billEnv = dbEnv +
  nextDailyReset :: "quotaAccount \<Rightarrow> gotime"
  nextWeeklyReset :: "quotaAccount \<Rightarrow> gotime"

type_synonym 'a bill = "(billEnv, billDB, billError + 'a) prog"

definition sql :: "(billEnv \<Rightarrow> billDB \<Rightarrow> (billError + 'a) \<times> billDB) \<Rightarrow> 'a bill" where
  "sql g = statement BillDbError g"

definition refuse :: "billError \<Rightarrow> 'a bill" where
  "refuse x = Return (Inl x)"

definition yields :: "'a \<Rightarrow> 'a bill" where
  "yields v = Return (Inr v)"

abbreviation thenDo :: "'a bill \<Rightarrow> ('a \<Rightarrow> 'b bill) \<Rightarrow> 'b bill" where
  "thenDo p k \<equiv> handle p refuse k"

section \<open>Claims\<close>

definition hasKey :: "string \<Rightarrow> int \<Rightarrow> dedupRow \<Rightarrow> bool" where
  "hasKey rid key r \<longleftrightarrow> dd_RequestID r = rid \<and> dd_APIKeyID r = key"

text \<open>
  \<^verbatim>\<open>claimUsageBillingKey\<close>, and \<^verbatim>\<open>claimUsageBillingRequest\<close> with the same statements. A request that was claimed before makes the
  caller return without committing: the transaction ends with \<^term>\<open>NotApplied\<close> and is rolled back.
\<close>

definition insertClaim :: "string \<Rightarrow> int \<Rightarrow> string \<Rightarrow> bool bill" where
  "insertClaim rid key fp = sql (\<lambda>e s.
     if list_ex (hasKey rid key) (dedup s) then (Inr False, s)
     else (Inr True, s\<lparr>dedup := dedup s @ [\<lparr>dd_RequestID = rid, dd_APIKeyID = key, dd_Fingerprint = fp, dd_CreatedAt = clock e\<rparr>]\<rparr>))"

definition claimedFingerprint :: "string \<Rightarrow> int \<Rightarrow> dedupRow list \<Rightarrow> string option" where
  "claimedFingerprint rid key rows = map_option dd_Fingerprint (find (hasKey rid key) rows)"

definition sameFingerprint :: "string \<Rightarrow> string \<Rightarrow> unit bill" where
  "sameFingerprint existing fp =
     (if TrimSpace existing \<noteq> TrimSpace fp then refuse ErrUsageBillingRequestConflict else refuse NotApplied)"

definition claimUsageBillingKey :: "string \<Rightarrow> int \<Rightarrow> string \<Rightarrow> unit bill" where
  "claimUsageBillingKey rid key fp =
     thenDo (insertClaim rid key fp) (\<lambda>inserted.
       if \<not> inserted then
         thenDo (sql (\<lambda>_ s. (case claimedFingerprint rid key (dedup s) of None \<Rightarrow> Inl BillDbError | Some f \<Rightarrow> Inr f, s)))
           (\<lambda>existing. sameFingerprint existing fp)
       else
         thenDo (sql (\<lambda>_ s. (Inr (claimedFingerprint rid key (archive s)), s))) (\<lambda>archived.
           case archived of None \<Rightarrow> yields () | Some f \<Rightarrow> sameFingerprint f fp))"

text \<open>One round of \<^verbatim>\<open>CleanupUsageBillingDedup\<close>: old claims move to the archive, a batch at a time.\<close>

definition usageBillingDedupCleanupBatchSize :: nat where "usageBillingDedupCleanupBatchSize = 10000"

definition addToArchive :: "dedupRow list \<Rightarrow> dedupRow \<Rightarrow> dedupRow list" where
  "addToArchive rows r = (if list_ex (hasKey (dd_RequestID r) (dd_APIKeyID r)) rows then rows else rows @ [r])"

definition cleanupRound :: "gotime \<Rightarrow> nat bill" where
  "cleanupRound cutoff = sql (\<lambda>_ s.
     let victims = take usageBillingDedupCleanupBatchSize (filter (\<lambda>r. dd_CreatedAt r < cutoff) (dedup s)) in
     (Inr (length victims),
      s\<lparr>archive := foldl addToArchive (archive s) victims, dedup := filter (\<lambda>r. r \<notin> set victims) (dedup s)\<rparr>))"

text \<open>The loop goes on while a round is full; the argument bounds the rounds.\<close>

fun CleanupUsageBillingDedup :: "nat \<Rightarrow> gotime \<Rightarrow> unit bill" where
  "CleanupUsageBillingDedup 0 cutoff = yields ()"
| "CleanupUsageBillingDedup (Suc n) cutoff = thenDo (cleanupRound cutoff) (\<lambda>affected.
     if affected < usageBillingDedupCleanupBatchSize then yields () else CleanupUsageBillingDedup n cutoff)"

section \<open>Wallets and ledgers\<close>

definition walletOf :: "billDB \<Rightarrow> int \<Rightarrow> walletRow option" where
  "walletOf s i = find (\<lambda>u. wu_ID u = i) (wallets s)"

definition setWallet :: "billDB \<Rightarrow> int \<Rightarrow> (walletRow \<Rightarrow> walletRow) \<Rightarrow> billDB" where
  "setWallet s i f = s\<lparr>wallets := setRows (\<lambda>u. wu_ID u = i) f (wallets s)\<rparr>"

text \<open>\<^verbatim>\<open>UPDATE users ... WHERE id = i AND condition RETURNING ...\<close>; a balance and a frozen balance are stored with eight decimals.\<close>

definition updateWallet :: "int \<Rightarrow> (walletRow \<Rightarrow> bool) \<Rightarrow> (walletRow \<Rightarrow> walletRow) \<Rightarrow> walletRow option bill" where
  "updateWallet i c f = sql (\<lambda>_ s. case walletOf s i of
       None \<Rightarrow> (Inr None, s)
     | Some u \<Rightarrow> if c u then (Inr (Some (f u)), setWallet s i f) else (Inr None, s))"

definition debit :: "rat \<Rightarrow> walletRow \<Rightarrow> walletRow" where
  "debit amount u = u\<lparr>wu_Balance := decimals 8 (wu_Balance u - amount)\<rparr>"

definition deductUsageBillingBalance :: "int \<Rightarrow> rat \<Rightarrow> (rat \<times> bool) bill" where
  "deductUsageBillingBalance i amount =
     thenDo (updateWallet i (\<lambda>u. wu_Balance u \<ge> amount) (debit amount)) (\<lambda>r.
       case r of
         Some u \<Rightarrow> yields (wu_Balance u, True)
       | None \<Rightarrow> thenDo (updateWallet i (\<lambda>_. True) (debit amount)) (\<lambda>r2.
           case r2 of None \<Rightarrow> refuse BillUserNotFound | Some u \<Rightarrow> yields (wu_Balance u, False)))"

text \<open>New points, new balance, and what was taken of each.\<close>

definition walletSplit :: "rat \<Rightarrow> rat \<Rightarrow> rat \<times> rat" where
  "walletSplit amount points =
     (let p0 = (if points < amount then points else amount); p = (if p0 < 0 then 0 else p0); b = amount - p in
      (p, if b < 0 then 0 else b))"

definition deductUsageBillingWallet :: "int \<Rightarrow> rat \<Rightarrow> bool \<Rightarrow> (rat \<times> rat \<times> rat \<times> rat) bill" where
  "deductUsageBillingWallet i amount preferPoints =
     (if amount \<le> 0 then yields (0, 0, 0, 0)
      else if \<not> preferPoints then thenDo (deductUsageBillingBalance i amount) (\<lambda>(newBalance, _). yields (0, newBalance, 0, amount))
      else thenDo (sql (\<lambda>_ s. (case walletOf s i of None \<Rightarrow> Inl BillUserNotFound | Some u \<Rightarrow> Inr u, s))) (\<lambda>u.
        let (p, b) = walletSplit amount (wu_Points u); newPoints = wu_Points u - p; newBalance = wu_Balance u - b in
        thenDo (updateWallet i (\<lambda>_. True) (\<lambda>u. u\<lparr>wu_Points := decimalFromFloat newPoints,
            wu_Balance := decimals 8 (decimalFromSignedFloat newBalance)\<rparr>)) (\<lambda>_.
          yields (newPoints, newBalance, p, b))))"

definition sameRef :: "chargeEntry \<Rightarrow> chargeEntry \<Rightarrow> bool" where
  "sameRef a b \<longleftrightarrow> ce_RefID a \<noteq> None \<and> ce_UserID a = ce_UserID b \<and> ce_Direction a = ce_Direction b \<and>
     ce_Reason a = ce_Reason b \<and> ce_RefType a = ce_RefType b \<and> ce_RefID a = ce_RefID b"

definition addEntry :: "chargeEntry list \<Rightarrow> chargeEntry \<Rightarrow> chargeEntry list" where
  "addEntry es e = (if list_ex (sameRef e) es then es else es @ [e])"

definition insertUserBalanceLedger :: "chargeEntry \<Rightarrow> unit bill" where
  "insertUserBalanceLedger c =
     (if ce_UserID c \<le> 0 \<or> ce_Amount c < 0 then yields ()
      else sql (\<lambda>_ s. (Inr (), s\<lparr>balanceLedger := addEntry (balanceLedger s) c\<rparr>)))"

definition insertPointsLedger :: "chargeEntry \<Rightarrow> unit bill" where
  "insertPointsLedger c =
     (if ce_UserID c \<le> 0 \<or> ce_Amount c < 0 then yields ()
      else sql (\<lambda>_ s. (Inr (), s\<lparr>pointsCharges := addEntry (pointsCharges s) c\<rparr>)))"

definition nullablePositiveInt64 :: "int \<Rightarrow> int option" where
  "nullablePositiveInt64 v = (if v \<le> 0 then None else Some v)"

definition creditUsageBillingBalance :: "int \<Rightarrow> rat \<Rightarrow> rat bill" where
  "creditUsageBillingBalance i amount =
     thenDo (updateWallet i (\<lambda>_. True) (\<lambda>u. u\<lparr>wu_Balance := decimals 8 (wu_Balance u + amount)\<rparr>)) (\<lambda>r.
       case r of None \<Rightarrow> refuse BillUserNotFound | Some u \<Rightarrow> yields (wu_Balance u))"

end
