(* ===== verification/UsageBilling.thy ===== *)
theory UsageBilling
  imports BillingStore
begin

text \<open>
  Applying the cost of a request: \<^verbatim>\<open>UsageBillingCommand\<close> of \<^verbatim>\<open>service/usage_billing.go\<close> and \<^verbatim>\<open>Apply\<close> of
  \<^verbatim>\<open>repository/usage_billing_repo.go\<close>, one transaction that claims the request and books all its effects. SHA-256 is the
  argument \<open>sha\<close>, the text of an amount with ten decimals the argument \<open>fixed10\<close>.
\<close>

section \<open>Commands\<close>

record UsageBillingCommand =
  cm_RequestID :: string
  cm_APIKeyID :: int
  cm_RequestFingerprint :: string
  cm_RequestPayloadHash :: string
  cm_UserID :: int
  cm_AccountID :: int
  cm_SubscriptionID :: "int option"
  cm_AccountType :: string
  cm_Model :: string
  cm_ServiceTier :: string
  cm_ReasoningEffort :: string
  cm_BillingType :: int
  cm_InputTokens :: int
  cm_OutputTokens :: int
  cm_CacheCreationTokens :: int
  cm_CacheReadTokens :: int
  cm_ImageCount :: int
  cm_MediaType :: string
  cm_BalanceCost :: rat
  cm_PreferPointsBilling :: bool
  cm_SubscriptionCost :: rat
  cm_PrivateGroupCommissionCost :: rat
  cm_APIKeyQuotaCost :: rat
  cm_APIKeyRateLimitCost :: rat
  cm_AccountQuotaCost :: rat
  cm_ShareSnapshotCaptured :: bool
  cm_ShareOwnerUserID :: "int option"
  cm_ShareModeSnapshot :: string
  cm_ShareStatusSnapshot :: string
  cm_SharePlatform :: string
  cm_SharePolicyID :: "int option"
  cm_SharePolicyVersion :: int
  cm_OwnerShareRatio :: rat
  cm_InviteShareRatio :: rat
  cm_UsageOccurredAt :: "gotime option"
  cm_UsageLog :: "UsageLog option"

record textLib =
  sha :: "string \<Rightarrow> string"
  fixed10 :: "rat \<Rightarrow> string"

definition valueOrZero :: "int option \<Rightarrow> int" where
  "valueOrZero v = (case v of None \<Rightarrow> 0 | Some i \<Rightarrow> i)"

fun joinBar :: "string list \<Rightarrow> string" where
  "joinBar [] = []"
| "joinBar [x] = x"
| "joinBar (x # y # ys) = x @ ''|'' @ joinBar (y # ys)"

definition boolText :: "bool \<Rightarrow> string" where
  "boolText b = (if b then ''true'' else ''false'')"

definition buildUsageBillingFingerprint :: "textLib \<Rightarrow> UsageBillingCommand \<Rightarrow> string" where
  "buildUsageBillingFingerprint lib c =
     (let raw = joinBar [Itoa (cm_UserID c), Itoa (cm_AccountID c), Itoa (cm_APIKeyID c), TrimSpace (cm_AccountType c),
           TrimSpace (cm_Model c), TrimSpace (cm_ServiceTier c), TrimSpace (cm_ReasoningEffort c), Itoa (cm_BillingType c),
           Itoa (cm_InputTokens c), Itoa (cm_OutputTokens c), Itoa (cm_CacheCreationTokens c), Itoa (cm_CacheReadTokens c),
           Itoa (cm_ImageCount c), TrimSpace (cm_MediaType c), Itoa (valueOrZero (cm_SubscriptionID c)),
           fixed10 lib (cm_BalanceCost c), boolText (cm_PreferPointsBilling c), fixed10 lib (cm_SubscriptionCost c),
           fixed10 lib (cm_PrivateGroupCommissionCost c), fixed10 lib (cm_APIKeyQuotaCost c), fixed10 lib (cm_APIKeyRateLimitCost c),
           fixed10 lib (cm_AccountQuotaCost c)];
         payloadHash = TrimSpace (cm_RequestPayloadHash c)
      in sha lib (if payloadHash \<noteq> [] then raw @ ''|'' @ payloadHash else raw))"

definition Normalize :: "textLib \<Rightarrow> UsageBillingCommand \<Rightarrow> UsageBillingCommand" where
  "Normalize lib c =
     (let c1 = c\<lparr>cm_RequestID := TrimSpace (cm_RequestID c)\<rparr> in
      if TrimSpace (cm_RequestFingerprint c1) = [] then c1\<lparr>cm_RequestFingerprint := buildUsageBillingFingerprint lib c1\<rparr> else c1)"

record AccountQuotaState =
  qs_TotalUsed :: rat
  qs_TotalLimit :: rat
  qs_DailyUsed :: rat
  qs_DailyLimit :: rat
  qs_WeeklyUsed :: rat
  qs_WeeklyLimit :: rat

record UsageBillingApplyResult =
  ur_Applied :: bool
  ur_APIKeyQuotaExhausted :: bool
  ur_NewBalance :: "rat option"
  ur_BalanceOverdrafted :: bool
  ur_NewPointsBalance :: "rat option"
  ur_PointsDeducted :: rat
  ur_BalanceDeducted :: rat
  ur_CommissionDeducted :: rat
  ur_QuotaState :: "AccountQuotaState option"
  ur_UsageLogID :: "int option"
  ur_BalanceCreditUserIDs :: "int list"

definition emptyResult :: UsageBillingApplyResult where
  "emptyResult = \<lparr>ur_Applied = False, ur_APIKeyQuotaExhausted = False, ur_NewBalance = None, ur_BalanceOverdrafted = False,
     ur_NewPointsBalance = None, ur_PointsDeducted = 0, ur_BalanceDeducted = 0, ur_CommissionDeducted = 0, ur_QuotaState = None,
     ur_UsageLogID = None, ur_BalanceCreditUserIDs = []\<rparr>"

section \<open>Usage log and subscription\<close>

text \<open>
  The log takes its missing numbers from the command and is inserted unless its request is logged already; a log without a
  request id, stored as \<^verbatim>\<open>NULL\<close>, never conflicts. The command goes on with the number and the time of the stored row.
\<close>

definition fillLog :: "UsageBillingCommand \<Rightarrow> UsageLog \<Rightarrow> UsageLog" where
  "fillLog cmd l = l\<lparr>
     ul_RequestID := TrimSpace (if TrimSpace (ul_RequestID l) = [] then cm_RequestID cmd else ul_RequestID l),
     ul_APIKeyID := (if ul_APIKeyID l = 0 then cm_APIKeyID cmd else ul_APIKeyID l),
     ul_UserID := (if ul_UserID l = 0 then cm_UserID cmd else ul_UserID l),
     ul_AccountID := (if ul_AccountID l = 0 then cm_AccountID cmd else ul_AccountID l)\<rparr>"

definition sameLog :: "UsageLog \<Rightarrow> UsageLog \<Rightarrow> bool" where
  "sameLog l r \<longleftrightarrow> ul_RequestID l \<noteq> [] \<and> ul_RequestID r = ul_RequestID l \<and> ul_APIKeyID r = ul_APIKeyID l"

definition insertLog :: "UsageLog \<Rightarrow> UsageLog bill" where
  "insertLog l = sql (\<lambda>e s. case find (sameLog l) (usageLogs s) of
       Some r \<Rightarrow> (Inr (l\<lparr>ul_ID := ul_ID r, ul_CreatedAt := ul_CreatedAt r\<rparr>), s)
     | None \<Rightarrow>
         let row = l\<lparr>ul_ID := nextLogID s, ul_CreatedAt := Some (case ul_CreatedAt l of None \<Rightarrow> clock e | Some t \<Rightarrow> t)\<rparr>
         in (Inr row, s\<lparr>usageLogs := usageLogs s @ [row], nextLogID := nextLogID s + 1\<rparr>))"

definition ensureUsageBillingLog :: "UsageBillingCommand \<Rightarrow> (int \<times> UsageBillingCommand) bill" where
  "ensureUsageBillingLog cmd = (case cm_UsageLog cmd of
       None \<Rightarrow> yields (0, cmd)
     | Some l \<Rightarrow> thenDo (insertLog (fillLog cmd l)) (\<lambda>row. yields (ul_ID row, cmd\<lparr>cm_UsageLog := Some row\<rparr>)))"

definition incrementUsageBillingSubscription :: "int \<Rightarrow> rat \<Rightarrow> unit bill" where
  "incrementUsageBillingSubscription i cost = sql (\<lambda>_ s.
     let hit = (\<lambda>u. us_ID u = i \<and> us_DeletedAt u = None \<and> us_GroupID u \<in> set (billGroups s)) in
     if list_ex hit (billSubs s)
     then (Inr (), s\<lparr>billSubs := setRows hit (\<lambda>u. u\<lparr>us_DailyUsageUSD := decimals 10 (us_DailyUsageUSD u + cost),
            us_WeeklyUsageUSD := decimals 10 (us_WeeklyUsageUSD u + cost),
            us_MonthlyUsageUSD := decimals 10 (us_MonthlyUsageUSD u + cost)\<rparr>) (billSubs s)\<rparr>)
     else (Inl BillSubscriptionNotFound, s))"

section \<open>API keys\<close>

definition StatusAPIKeyActive :: string where "StatusAPIKeyActive = ''active''"
definition StatusAPIKeyQuotaExhausted :: string where "StatusAPIKeyQuotaExhausted = ''quota_exhausted''"

text \<open>The status is decided on the exact sum, the answer on the stored one.\<close>

definition useQuota :: "rat \<Rightarrow> keyRow \<Rightarrow> keyRow" where
  "useQuota amount k = k\<lparr>ak_QuotaUsed := decimals 8 (ak_QuotaUsed k + amount),
     ak_Status := (if ak_Quota k > 0 \<and> ak_Status k = StatusAPIKeyActive \<and> ak_QuotaUsed k < ak_Quota k \<and>
         ak_QuotaUsed k + amount \<ge> ak_Quota k then StatusAPIKeyQuotaExhausted else ak_Status k)\<rparr>"

definition updateKey :: "int \<Rightarrow> (billEnv \<Rightarrow> keyRow \<Rightarrow> keyRow) \<Rightarrow> keyRow bill" where
  "updateKey i f = sql (\<lambda>e s. case find (\<lambda>k. ak_ID k = i) (apiKeys s) of
       None \<Rightarrow> (Inl ErrAPIKeyNotFound, s)
     | Some k \<Rightarrow> (Inr (f e k), s\<lparr>apiKeys := setRows (\<lambda>k. ak_ID k = i) (f e) (apiKeys s)\<rparr>))"

definition incrementUsageBillingAPIKeyQuota :: "int \<Rightarrow> rat \<Rightarrow> bool bill" where
  "incrementUsageBillingAPIKeyQuota i amount =
     thenDo (updateKey i (\<lambda>_. useQuota amount)) (\<lambda>k.
       yields (ak_Quota k > 0 \<and> ak_QuotaUsed k \<ge> ak_Quota k \<and> ak_QuotaUsed k - amount < ak_Quota k))"

text \<open>One window of the rate limit: the usage of an elapsed window starts again, and so does a window that has elapsed or never began.\<close>

definition elapsed :: "gotime option \<Rightarrow> duration \<Rightarrow> gotime \<Rightarrow> bool" where
  "elapsed w len now = (case w of None \<Rightarrow> False | Some t \<Rightarrow> t + len \<le> now)"

definition windowUsage :: "gotime option \<Rightarrow> duration \<Rightarrow> gotime \<Rightarrow> rat \<Rightarrow> rat \<Rightarrow> rat" where
  "windowUsage w len now used cost = decimals 8 (if elapsed w len now then cost else used + cost)"

definition windowStart :: "gotime option \<Rightarrow> duration \<Rightarrow> gotime \<Rightarrow> gotime \<Rightarrow> gotime option" where
  "windowStart w len now start = (if w = None \<or> elapsed w len now then Some start else w)"

definition useRateLimit :: "rat \<Rightarrow> billEnv \<Rightarrow> keyRow \<Rightarrow> keyRow" where
  "useRateLimit cost e k =
     (let now = clock e in k\<lparr>
       ak_Usage5h := windowUsage (ak_Window5h k) (5 * hour) now (ak_Usage5h k) cost,
       ak_Usage1d := windowUsage (ak_Window1d k) (24 * hour) now (ak_Usage1d k) cost,
       ak_Usage7d := windowUsage (ak_Window7d k) (7 * (24 * hour)) now (ak_Usage7d k) cost,
       ak_Window5h := windowStart (ak_Window5h k) (5 * hour) now now,
       ak_Window1d := windowStart (ak_Window1d k) (24 * hour) now (startOfDay now),
       ak_Window7d := windowStart (ak_Window7d k) (7 * (24 * hour)) now (startOfDay now)\<rparr>)"

definition incrementUsageBillingAPIKeyRateLimit :: "int \<Rightarrow> rat \<Rightarrow> unit bill" where
  "incrementUsageBillingAPIKeyRateLimit i cost = thenDo (updateKey i (useRateLimit cost)) (\<lambda>_. yields ())"

section \<open>Account quotas\<close>

definition periodExpired :: "duration \<Rightarrow> gotime \<Rightarrow> quotaPeriod \<Rightarrow> bool" where
  "periodExpired len now p =
     (if qp_Fixed p then (case qp_ResetAt p of None \<Rightarrow> 0 | Some t \<Rightarrow> t) \<le> now
      else (case qp_Start p of None \<Rightarrow> 0 | Some t \<Rightarrow> t) + len \<le> now)"

definition usePeriod :: "duration \<Rightarrow> gotime \<Rightarrow> gotime \<Rightarrow> rat \<Rightarrow> quotaPeriod \<Rightarrow> quotaPeriod" where
  "usePeriod len now nextReset amount p =
     (if qp_Limit p > 0 then
        if periodExpired len now p
        then p\<lparr>qp_Used := amount, qp_Start := Some now, qp_ResetAt := (if qp_Fixed p then Some nextReset else qp_ResetAt p)\<rparr>
        else p\<lparr>qp_Used := qp_Used p + amount, qp_Start := Some (case qp_Start p of None \<Rightarrow> now | Some t \<Rightarrow> t)\<rparr>
      else p)"

definition useAccountQuota :: "billEnv \<Rightarrow> rat \<Rightarrow> quotaAccount \<Rightarrow> quotaAccount" where
  "useAccountQuota e amount a = a\<lparr>qa_QuotaUsed := qa_QuotaUsed a + amount,
     qa_Daily := usePeriod (24 * hour) (clock e) (nextDailyReset e a) amount (qa_Daily a),
     qa_Weekly := usePeriod (168 * hour) (clock e) (nextWeeklyReset e a) amount (qa_Weekly a)\<rparr>"

definition quotaStateOf :: "quotaAccount \<Rightarrow> AccountQuotaState" where
  "quotaStateOf a = \<lparr>qs_TotalUsed = qa_QuotaUsed a, qs_TotalLimit = qa_QuotaLimit a, qs_DailyUsed = qp_Used (qa_Daily a),
     qs_DailyLimit = qp_Limit (qa_Daily a), qs_WeeklyUsed = qp_Used (qa_Weekly a), qs_WeeklyLimit = qp_Limit (qa_Weekly a)\<rparr>"

definition crossed :: "rat \<Rightarrow> rat \<Rightarrow> rat \<Rightarrow> bool" where
  "crossed amount used limit \<longleftrightarrow> limit > 0 \<and> used \<ge> limit \<and> used - amount < limit"

text \<open>An event that is waiting in the outbox is not queued twice.\<close>

definition enqueueSchedulerOutbox :: "int \<Rightarrow> unit bill" where
  "enqueueSchedulerOutbox i = sql (\<lambda>_ s. (Inr (), if i \<in> set (outbox s) then s else s\<lparr>outbox := outbox s @ [i]\<rparr>))"

definition incrementUsageBillingAccountQuota :: "int \<Rightarrow> rat \<Rightarrow> AccountQuotaState bill" where
  "incrementUsageBillingAccountQuota i amount =
     thenDo (sql (\<lambda>e s. case find (\<lambda>a. qa_ID a = i) (quotaAccounts s) of
         None \<Rightarrow> (Inl ErrAccountNotFound, s)
       | Some a \<Rightarrow> (Inr (quotaStateOf (useAccountQuota e amount a)),
           s\<lparr>quotaAccounts := setRows (\<lambda>a. qa_ID a = i) (useAccountQuota e amount) (quotaAccounts s)\<rparr>))) (\<lambda>state.
       if crossed amount (qs_TotalUsed state) (qs_TotalLimit state) \<or> crossed amount (qs_DailyUsed state) (qs_DailyLimit state) \<or>
          crossed amount (qs_WeeklyUsed state) (qs_WeeklyLimit state)
       then thenDo (enqueueSchedulerOutbox i) (\<lambda>_. yields state)
       else yields state)"

end
