(* ===== verification/ShareSettlement.thy ===== *)
theory ShareSettlement
  imports UsageBilling
begin

text \<open>
  The settlement of \<^verbatim>\<open>repository/usage_billing_repo.go\<close>: what the consumer of a shared account was charged is split between
  its owner, the consumer's inviter and the platform. Of a settlement the columns are kept that carry amounts, ratios and the
  parties; the texts copied into it for reports are not.
\<close>

section \<open>Snapshots\<close>

definition AccountShareModePublic :: string where "AccountShareModePublic = ''public''"
definition AccountShareModePrivate :: string where "AccountShareModePrivate = ''private''"
definition AccountShareStatusPending :: string where "AccountShareStatusPending = ''pending''"
definition AccountShareStatusApproved :: string where "AccountShareStatusApproved = ''approved''"
definition AccountShareStatusSuspended :: string where "AccountShareStatusSuspended = ''suspended''"

definition NormalizeAccountShareMode :: "string \<Rightarrow> string" where
  "NormalizeAccountShareMode mode =
     (if ToLower (TrimSpace mode) = AccountShareModePublic then AccountShareModePublic else AccountShareModePrivate)"

definition NormalizeAccountShareStatus :: "string \<Rightarrow> string" where
  "NormalizeAccountShareStatus status =
     (let t = ToLower (TrimSpace status) in
      if t = AccountShareStatusPending then AccountShareStatusPending
      else if t = AccountShareStatusSuspended then AccountShareStatusSuspended
      else AccountShareStatusApproved)"

record accountShareSnapshot =
  as_OwnerUserID :: int
  as_ShareMode :: string
  as_ShareStatus :: string
  as_Platform :: string
  as_SharePolicyID :: "int option"

definition nullablePtrInt64 :: "int option \<Rightarrow> int option" where
  "nullablePtrInt64 v = (case v of None \<Rightarrow> None | Some i \<Rightarrow> if i \<le> 0 then None else Some i)"

definition loadAccountShareSnapshot :: "int \<Rightarrow> accountShareSnapshot bill" where
  "loadAccountShareSnapshot i = sql (\<lambda>_ s. (case find (\<lambda>a. qa_ID a = i) (quotaAccounts s) of
       None \<Rightarrow> Inl ErrAccountNotFound
     | Some a \<Rightarrow> Inr \<lparr>as_OwnerUserID = valueOrZero (qa_OwnerUserID a),
         as_ShareMode = (if qa_ShareMode a = [] then ''private'' else qa_ShareMode a),
         as_ShareStatus = (if qa_ShareStatus a = [] then ''approved'' else qa_ShareStatus a),
         as_Platform = TrimSpace (qa_Platform a), as_SharePolicyID = qa_SharePolicyID a\<rparr>, s))"

definition commandSnapshot :: "UsageBillingCommand \<Rightarrow> accountShareSnapshot" where
  "commandSnapshot cmd = \<lparr>as_OwnerUserID = (case cm_ShareOwnerUserID cmd of None \<Rightarrow> 0 | Some i \<Rightarrow> if i > 0 then i else 0),
     as_ShareMode = cm_ShareModeSnapshot cmd, as_ShareStatus = cm_ShareStatusSnapshot cmd,
     as_Platform = TrimSpace (cm_SharePlatform cmd), as_SharePolicyID = nullablePtrInt64 (cm_SharePolicyID cmd)\<rparr>"

definition mergeSnapshot :: "accountShareSnapshot \<Rightarrow> accountShareSnapshot \<Rightarrow> accountShareSnapshot" where
  "mergeSnapshot out db = out\<lparr>
     as_ShareMode := (if as_ShareMode out = [] then as_ShareMode db else as_ShareMode out),
     as_ShareStatus := (if as_ShareStatus out = [] then as_ShareStatus db else as_ShareStatus out),
     as_Platform := (if as_Platform out = [] then as_Platform db else as_Platform out),
     as_SharePolicyID := (if as_SharePolicyID out = None then as_SharePolicyID db else as_SharePolicyID out)\<rparr>"

definition accountShareSnapshotForSettlement :: "UsageBillingCommand \<Rightarrow> accountShareSnapshot bill" where
  "accountShareSnapshotForSettlement cmd =
     (let out = commandSnapshot cmd in
      if cm_ShareSnapshotCaptured cmd then yields out
      else if as_OwnerUserID out = 0 then loadAccountShareSnapshot (cm_AccountID cmd)
      else if as_ShareMode out = [] \<or> as_ShareStatus out = []
      then thenDo (loadAccountShareSnapshot (cm_AccountID cmd)) (\<lambda>db. yields (mergeSnapshot out db))
      else yields out)"

section \<open>Policy and inviter\<close>

record accountSharePolicySnapshot =
  ps_ID :: "int option"
  ps_Version :: int
  ps_OwnerShareRatio :: rat
  ps_InviteShareRatio :: rat

text \<open>Both ratios are clamped to the unit interval, and the inviter's to what the owner leaves.\<close>

definition clampRatio :: "rat \<Rightarrow> rat" where
  "clampRatio r = (if r < 0 then 0 else if r > 1 then 1 else r)"

definition clampedPolicy :: "int option \<Rightarrow> int \<Rightarrow> rat \<Rightarrow> rat \<Rightarrow> accountSharePolicySnapshot" where
  "clampedPolicy i version owner0 invite0 =
     (let owner = clampRatio owner0; invite = clampRatio invite0 in
      \<lparr>ps_ID = i, ps_Version = version, ps_OwnerShareRatio = owner,
       ps_InviteShareRatio = (if owner + invite > 1 then (if 1 - owner < 0 then 0 else 1 - owner) else invite)\<rparr>)"

definition usageBillingCommandHasPolicySnapshot :: "UsageBillingCommand \<Rightarrow> bool" where
  "usageBillingCommandHasPolicySnapshot cmd \<longleftrightarrow> cm_SharePolicyID cmd \<noteq> None \<or> cm_SharePolicyVersion cmd > 0 \<or>
     cm_OwnerShareRatio cmd > 0 \<or> cm_InviteShareRatio cmd > 0"

text \<open>\<^verbatim>\<open>ORDER BY effective_at DESC, version DESC, id DESC LIMIT 1\<close>\<close>

definition policyBefore :: "sharePolicy \<Rightarrow> sharePolicy \<Rightarrow> bool" where
  "policyBefore p q \<longleftrightarrow> sh_EffectiveAt p > sh_EffectiveAt q \<or> sh_EffectiveAt p = sh_EffectiveAt q \<and>
     (sh_Version p > sh_Version q \<or> sh_Version p = sh_Version q \<and> sh_ID p > sh_ID q)"

fun firstPolicy :: "sharePolicy list \<Rightarrow> sharePolicy option" where
  "firstPolicy [] = None"
| "firstPolicy (p # ps) = (case firstPolicy ps of None \<Rightarrow> Some p | Some q \<Rightarrow> Some (if policyBefore q p then q else p))"

definition queryAccountSharePolicy :: "accountSharePolicySnapshot option bill" where
  "queryAccountSharePolicy = sql (\<lambda>e s. (Inr (map_option
     (\<lambda>p. clampedPolicy (Some (sh_ID p)) (sh_Version p) (sh_OwnerShareRatio p) (sh_InviteShareRatio p))
     (firstPolicy (filter (\<lambda>p. sh_EffectiveAt p \<le> clock e) (policies s)))), s))"

definition resolveAccountSharePolicy :: "UsageBillingCommand \<Rightarrow> accountSharePolicySnapshot bill" where
  "resolveAccountSharePolicy cmd =
     (if cm_ShareSnapshotCaptured cmd \<and> usageBillingCommandHasPolicySnapshot cmd
      then yields (clampedPolicy (nullablePtrInt64 (cm_SharePolicyID cmd)) (cm_SharePolicyVersion cmd)
        (decimalFromFloat (cm_OwnerShareRatio cmd)) (decimalFromFloat (cm_InviteShareRatio cmd)))
      else thenDo queryAccountSharePolicy (\<lambda>found. yields (case found of
          Some p \<Rightarrow> p
        | None \<Rightarrow> \<lparr>ps_ID = None, ps_Version = 0, ps_OwnerShareRatio = 0, ps_InviteShareRatio = 0\<rparr>)))"

definition AffiliateEnabledDefault :: bool where "AffiliateEnabledDefault = True"

definition isUsageAffiliateEnabled :: "bool bill" where
  "isUsageAffiliateEnabled = sql (\<lambda>_ s. (Inr (case affiliateSetting s of
       None \<Rightarrow> AffiliateEnabledDefault | Some raw \<Rightarrow> ToLower (TrimSpace raw) = ''true''), s))"

definition resolveUsageOccurredAt :: "UsageBillingCommand \<Rightarrow> gotime \<Rightarrow> gotime" where
  "resolveUsageOccurredAt cmd now =
     (case cm_UsageOccurredAt cmd of
        Some t \<Rightarrow> t
      | None \<Rightarrow> (case cm_UsageLog cmd of None \<Rightarrow> now | Some l \<Rightarrow> (case ul_CreatedAt l of None \<Rightarrow> now | Some t \<Rightarrow> t)))"

text \<open>The inviter counts while he is an active user and the reward period covers the time of use; zero stands for none.\<close>

definition inviterOf :: "billDB \<Rightarrow> int \<Rightarrow> gotime \<Rightarrow> int" where
  "inviterOf s userID occurred =
     (case find (\<lambda>a. af_UserID a = userID) (affiliates s) of
        None \<Rightarrow> 0
      | Some a \<Rightarrow> (case af_InviterID a of
            None \<Rightarrow> 0
          | Some i \<Rightarrow>
              if i \<noteq> userID \<and> af_BoundAt a \<le> occurred \<and> (case af_ExpiresAt a of None \<Rightarrow> True | Some t \<Rightarrow> t > occurred) \<and>
                 list_ex (\<lambda>u. wu_ID u = i \<and> wu_Status u = StatusActive) (wallets s)
              then i else 0))"

definition resolveAccountShareInvite :: "UsageBillingCommand \<Rightarrow> accountSharePolicySnapshot \<Rightarrow> gotime \<Rightarrow> int bill" where
  "resolveAccountShareInvite cmd policy occurred =
     (if cm_BalanceCost cmd \<le> 0 \<or> ps_InviteShareRatio policy \<le> 0 then yields 0
      else thenDo isUsageAffiliateEnabled (\<lambda>enabled.
        if \<not> enabled then yields 0 else sql (\<lambda>_ s. (Inr (inviterOf s (cm_UserID cmd) occurred), s))))"

section \<open>The split\<close>

definition accountShareConsumerCharge :: "UsageBillingCommand \<Rightarrow> rat" where
  "accountShareConsumerCharge cmd =
     (if cm_BalanceCost cmd > 0 then decimalFromFloat (cm_BalanceCost cmd)
      else if cm_SubscriptionCost cmd > 0 then decimalFromFloat (cm_SubscriptionCost cmd)
      else case cm_UsageLog cmd of
          Some l \<Rightarrow> if ul_ActualCost l > 0 then decimalFromFloat (ul_ActualCost l) else 0
        | None \<Rightarrow> 0)"

definition accountCostForSettlement :: "UsageBillingCommand \<Rightarrow> rat" where
  "accountCostForSettlement cmd = (case cm_UsageLog cmd of
       Some l \<Rightarrow> decimals 10
         (decimalFromFloat (case ul_AccountStatsCost l of None \<Rightarrow> ul_TotalCost l | Some c \<Rightarrow> c) *
          decimalFromFloat (case ul_AccountRateMultiplier l of None \<Rightarrow> 1 | Some k \<Rightarrow> k))
     | None \<Rightarrow> decimalFromFloat (cm_AccountQuotaCost cmd))"

text \<open>Credit of the owner, credit of the inviter, fee of the platform.\<close>

definition shareSplit :: "rat \<Rightarrow> rat \<Rightarrow> rat \<Rightarrow> rat \<times> rat \<times> rat" where
  "shareSplit charge ownerRatio inviteRatio =
     (let owner0 = decimals 10 (charge * ownerRatio);
          owner1 = (if owner0 > charge then charge else owner0);
          owner = (if owner1 < 0 then 0 else owner1);
          invite0 = decimals 10 (charge * inviteRatio);
          invite1 = (if invite0 < 0 then 0 else invite0);
          invite = (if invite1 > charge - owner then charge - owner else invite1);
          fee = decimals 10 (charge - owner - invite)
      in (owner, invite, if fee < 0 then 0 else fee))"

definition insertAccountShareSettlement :: "shareSettlement \<Rightarrow> bool bill" where
  "insertAccountShareSettlement x = sql (\<lambda>_ s.
     if list_ex (\<lambda>y. ss_RequestID y = ss_RequestID x \<and> ss_APIKeyID y = ss_APIKeyID x) (settlements s) then (Inr False, s)
     else (Inr True, s\<lparr>settlements := settlements s @ [x]\<rparr>))"

definition creditEntry :: "UsageBillingCommand \<Rightarrow> int \<Rightarrow> int \<Rightarrow> rat \<Rightarrow> string \<Rightarrow> rat \<Rightarrow> chargeEntry" where
  "creditEntry cmd logID userID amount reason newBalance =
     \<lparr>ce_UserID = userID, ce_Direction = ''credit'', ce_Amount = amount, ce_Reason = reason, ce_RefType = ''usage_log'',
      ce_RefID = nullablePositiveInt64 logID, ce_BalanceAfter = decimalFromFloat newBalance, ce_RequestID = cm_RequestID cmd,
      ce_APIKeyID = cm_APIKeyID cmd\<rparr>"

definition creditInviteShareBalance :: "UsageBillingCommand \<Rightarrow> int \<Rightarrow> int \<Rightarrow> rat \<Rightarrow> unit bill" where
  "creditInviteShareBalance cmd logID inviter amount =
     thenDo (creditUsageBillingBalance inviter amount) (\<lambda>newBalance.
       thenDo (insertUserBalanceLedger (creditEntry cmd logID inviter amount ''invite_share_income'' newBalance)) (\<lambda>_.
         thenDo (sql (\<lambda>_ s. (Inr (), s\<lparr>affiliates := setRows (\<lambda>a. af_UserID a = inviter)
             (\<lambda>a. a\<lparr>af_HistoryQuota := decimals 8 (af_HistoryQuota a + amount)\<rparr>) (affiliates s)\<rparr>))) (\<lambda>_.
           sql (\<lambda>_ s. (Inr (), s\<lparr>affiliateLedger := affiliateLedger s @ [(inviter, decimals 8 amount, cm_UserID cmd)]\<rparr>)))))"

definition appendUsageBillingCreditUser :: "UsageBillingApplyResult \<Rightarrow> int \<Rightarrow> UsageBillingApplyResult" where
  "appendUsageBillingCreditUser result userID =
     (if userID \<le> 0 \<or> userID \<in> set (ur_BalanceCreditUserIDs result) then result
      else result\<lparr>ur_BalanceCreditUserIDs := ur_BalanceCreditUserIDs result @ [userID]\<rparr>)"

definition settlementRow ::
  "UsageBillingCommand \<Rightarrow> accountShareSnapshot \<Rightarrow> accountSharePolicySnapshot \<Rightarrow> int \<Rightarrow> shareSettlement" where
  "settlementRow cmd account policy inviter =
     (let charge = accountShareConsumerCharge cmd;
          inviteRatio = (if inviter > 0 then ps_InviteShareRatio policy else 0);
          (owner, invite, fee) = shareSplit charge (ps_OwnerShareRatio policy) inviteRatio;
          platform = 1 - ps_OwnerShareRatio policy - inviteRatio
      in \<lparr>ss_RequestID = cm_RequestID cmd, ss_APIKeyID = cm_APIKeyID cmd, ss_ConsumerUserID = cm_UserID cmd,
          ss_OwnerUserID = as_OwnerUserID account, ss_AccountID = cm_AccountID cmd, ss_PolicyID = ps_ID policy,
          ss_PolicyVersion = ps_Version policy, ss_ConsumerCharge = charge, ss_AccountCost = accountCostForSettlement cmd,
          ss_OwnerShareRatio = decimals 6 (ps_OwnerShareRatio policy), ss_OwnerCredit = owner, ss_InviterUserID = nullablePositiveInt64 inviter,
          ss_InviteShareRatio = decimals 6 inviteRatio, ss_InviteCredit = invite,
          ss_PlatformShareRatio = decimals 6 (if platform < 0 then 0 else platform), ss_PlatformFee = fee\<rparr>)"

definition creditOwner :: "UsageBillingCommand \<Rightarrow> int \<Rightarrow> shareSettlement \<Rightarrow> UsageBillingApplyResult \<Rightarrow> UsageBillingApplyResult bill" where
  "creditOwner cmd logID row result =
     (if ss_OwnerCredit row = 0 then yields result
      else thenDo (creditUsageBillingBalance (ss_OwnerUserID row) (ss_OwnerCredit row)) (\<lambda>newBalance.
        thenDo (insertUserBalanceLedger (creditEntry cmd logID (ss_OwnerUserID row) (ss_OwnerCredit row) ''account_share_income'' newBalance))
          (\<lambda>_. yields (appendUsageBillingCreditUser result (ss_OwnerUserID row)))))"

definition creditInviter :: "UsageBillingCommand \<Rightarrow> int \<Rightarrow> int \<Rightarrow> shareSettlement \<Rightarrow> UsageBillingApplyResult \<Rightarrow> UsageBillingApplyResult bill" where
  "creditInviter cmd logID inviter row result =
     (if inviter > 0 \<and> ss_InviteCredit row \<noteq> 0
      then thenDo (creditInviteShareBalance cmd logID inviter (ss_InviteCredit row))
        (\<lambda>_. yields (appendUsageBillingCreditUser result inviter))
      else yields result)"

definition applyAccountShareSettlement :: "UsageBillingCommand \<Rightarrow> int \<Rightarrow> UsageBillingApplyResult \<Rightarrow> UsageBillingApplyResult bill" where
  "applyAccountShareSettlement cmd logID result =
     (if cm_UserID cmd \<le> 0 \<or> cm_AccountID cmd \<le> 0 \<or> accountShareConsumerCharge cmd = 0 then yields result
      else thenDo (accountShareSnapshotForSettlement cmd) (\<lambda>account.
        if as_OwnerUserID account \<le> 0 \<or> as_OwnerUserID account = cm_UserID cmd \<or>
           NormalizeAccountShareMode (as_ShareMode account) \<noteq> AccountShareModePublic \<or>
           NormalizeAccountShareStatus (as_ShareStatus account) \<noteq> AccountShareStatusApproved then yields result
        else thenDo (resolveAccountSharePolicy cmd) (\<lambda>policy.
          thenDo (sql (\<lambda>e s. (Inr (resolveUsageOccurredAt cmd (clock e)), s))) (\<lambda>occurred.
          thenDo (resolveAccountShareInvite cmd policy occurred) (\<lambda>inviter.
            let row = settlementRow cmd account policy inviter in
            thenDo (insertAccountShareSettlement row) (\<lambda>inserted.
              if \<not> inserted then yields result
              else thenDo (creditOwner cmd logID row result) (creditInviter cmd logID inviter row)))))))"

end
