(* ===== verification/BillingApply.thy ===== *)
theory BillingApply
  imports ShareSettlement
begin

text \<open>
  \<^verbatim>\<open>Apply\<close> of \<^verbatim>\<open>repository/usage_billing_repo.go\<close>, the balance holds of image batches in \<^verbatim>\<open>usage_billing_repo_v160.go\<close>, and
  the calls of \<^verbatim>\<open>service/batch_image_billing_hold.go\<close>. A call is one database transaction. Two transactions that claim the same
  request, or change the same wallet, wait for each other on its row, so a transaction is one step here.
\<close>

section \<open>Effects\<close>

definition debitEntry :: "UsageBillingCommand \<Rightarrow> int \<Rightarrow> rat \<Rightarrow> string \<Rightarrow> rat \<Rightarrow> chargeEntry" where
  "debitEntry cmd logID amount reason balanceAfter =
     \<lparr>ce_UserID = cm_UserID cmd, ce_Direction = ''debit'', ce_Amount = decimalFromFloat amount, ce_Reason = reason,
      ce_RefType = ''usage_log'', ce_RefID = nullablePositiveInt64 logID, ce_BalanceAfter = balanceAfter,
      ce_RequestID = cm_RequestID cmd, ce_APIKeyID = cm_APIKeyID cmd\<rparr>"

definition chargeSubscription :: "UsageBillingCommand \<Rightarrow> unit bill" where
  "chargeSubscription cmd = (case cm_SubscriptionID cmd of
       Some i \<Rightarrow> if cm_SubscriptionCost cmd > 0 then incrementUsageBillingSubscription i (cm_SubscriptionCost cmd) else yields ()
     | None \<Rightarrow> yields ())"

definition recordPoints :: "UsageBillingCommand \<Rightarrow> int \<Rightarrow> rat \<Rightarrow> rat \<Rightarrow> UsageBillingApplyResult \<Rightarrow> UsageBillingApplyResult bill" where
  "recordPoints cmd logID newPoints p result =
     (if p > 0 then thenDo (insertPointsLedger (debitEntry cmd logID p ''usage_charge'' (decimalFromFloat newPoints)))
        (\<lambda>_. yields (result\<lparr>ur_NewPointsBalance := Some newPoints, ur_PointsDeducted := p\<rparr>))
      else yields result)"

definition recordBalance :: "UsageBillingCommand \<Rightarrow> int \<Rightarrow> rat \<Rightarrow> rat \<Rightarrow> UsageBillingApplyResult \<Rightarrow> UsageBillingApplyResult bill" where
  "recordBalance cmd logID newBalance b result =
     (if b > 0 then thenDo (insertUserBalanceLedger (debitEntry cmd logID b ''usage_charge'' (decimalFromSignedFloat newBalance)))
        (\<lambda>_. yields (result\<lparr>ur_NewBalance := Some newBalance, ur_BalanceDeducted := b, ur_BalanceOverdrafted := newBalance < 0\<rparr>))
      else yields result)"

definition chargeWallet :: "UsageBillingCommand \<Rightarrow> int \<Rightarrow> UsageBillingApplyResult \<Rightarrow> UsageBillingApplyResult bill" where
  "chargeWallet cmd logID result =
     (if cm_BalanceCost cmd > 0
      then thenDo (deductUsageBillingWallet (cm_UserID cmd) (cm_BalanceCost cmd) (cm_PreferPointsBilling cmd))
        (\<lambda>(newPoints, newBalance, p, b).
          thenDo (recordPoints cmd logID newPoints p result) (recordBalance cmd logID newBalance b))
      else yields result)"

definition chargeCommission :: "UsageBillingCommand \<Rightarrow> int \<Rightarrow> UsageBillingApplyResult \<Rightarrow> UsageBillingApplyResult bill" where
  "chargeCommission cmd logID result =
     (if cm_PrivateGroupCommissionCost cmd > 0
      then thenDo (deductUsageBillingBalance (cm_UserID cmd) (cm_PrivateGroupCommissionCost cmd)) (\<lambda>(newBalance, sufficient).
        thenDo (insertUserBalanceLedger (debitEntry cmd logID (cm_PrivateGroupCommissionCost cmd) ''private_group_commission''
            (decimalFromFloat newBalance)))
          (\<lambda>_. yields (result\<lparr>ur_NewBalance := Some newBalance,
             ur_BalanceOverdrafted := (ur_BalanceOverdrafted result \<or> \<not> sufficient),
             ur_CommissionDeducted := cm_PrivateGroupCommissionCost cmd\<rparr>)))
      else yields result)"

definition chargeKey :: "UsageBillingCommand \<Rightarrow> UsageBillingApplyResult \<Rightarrow> UsageBillingApplyResult bill" where
  "chargeKey cmd result =
     thenDo (if cm_APIKeyQuotaCost cmd > 0
       then thenDo (incrementUsageBillingAPIKeyQuota (cm_APIKeyID cmd) (cm_APIKeyQuotaCost cmd))
         (\<lambda>exhausted. yields (result\<lparr>ur_APIKeyQuotaExhausted := exhausted\<rparr>))
       else yields result) (\<lambda>result1.
     thenDo (if cm_APIKeyRateLimitCost cmd > 0
       then incrementUsageBillingAPIKeyRateLimit (cm_APIKeyID cmd) (cm_APIKeyRateLimitCost cmd) else yields ())
       (\<lambda>_. yields result1))"

definition AccountTypeAPIKey :: string where "AccountTypeAPIKey = ''apikey''"
definition AccountTypeBedrock :: string where "AccountTypeBedrock = ''bedrock''"

definition chargeAccount :: "UsageBillingCommand \<Rightarrow> UsageBillingApplyResult \<Rightarrow> UsageBillingApplyResult bill" where
  "chargeAccount cmd result =
     (if cm_AccountQuotaCost cmd > 0 \<and>
         (ToLower (cm_AccountType cmd) = AccountTypeAPIKey \<or> ToLower (cm_AccountType cmd) = AccountTypeBedrock)
      then thenDo (incrementUsageBillingAccountQuota (cm_AccountID cmd) (cm_AccountQuotaCost cmd))
        (\<lambda>state. yields (result\<lparr>ur_QuotaState := Some state\<rparr>))
      else yields result)"

definition applyUsageBillingEffects :: "UsageBillingCommand \<Rightarrow> UsageBillingApplyResult \<Rightarrow> UsageBillingApplyResult bill" where
  "applyUsageBillingEffects cmd0 result0 =
     thenDo (ensureUsageBillingLog cmd0) (\<lambda>(logID, cmd).
     thenDo (chargeSubscription cmd) (\<lambda>_.
     thenDo (chargeWallet cmd logID (if logID > 0 then result0\<lparr>ur_UsageLogID := Some logID\<rparr> else result0)) (\<lambda>r1.
     thenDo (chargeCommission cmd logID r1) (\<lambda>r2.
     thenDo (chargeKey cmd r2) (\<lambda>r3.
     thenDo (chargeAccount cmd r3) (applyAccountShareSettlement cmd logID))))))"

section \<open>Apply\<close>

text \<open>A transaction that ends with \<^term>\<open>NotApplied\<close> has been rolled back and is no error.\<close>

definition unlessApplied :: "'a \<Rightarrow> 'a bill \<Rightarrow> 'a bill" where
  "unlessApplied notApplied p = andThen (transaction BillDbError p)
     (\<lambda>r. Return (if r = Inl NotApplied then Inr notApplied else r))"

definition Apply :: "textLib \<Rightarrow> UsageBillingCommand \<Rightarrow> UsageBillingApplyResult bill" where
  "Apply lib cmd0 =
     (let cmd = Normalize lib cmd0 in
      if cm_RequestID cmd = [] then refuse ErrUsageBillingRequestIDRequired
      else unlessApplied emptyResult
        (thenDo (claimUsageBillingKey (cm_RequestID cmd) (cm_APIKeyID cmd) (cm_RequestFingerprint cmd)) (\<lambda>_.
          applyUsageBillingEffects cmd (emptyResult\<lparr>ur_Applied := True\<rparr>))))"

section \<open>Holds for image batches\<close>

record BatchImageBalanceHoldCommand =
  bh_RequestID :: string
  bh_APIKeyID :: int
  bh_RequestFingerprint :: string
  bh_RequestPayloadHash :: string
  bh_UserID :: int
  bh_BatchID :: string
  bh_HoldAmount :: rat
  bh_ActualAmount :: rat

definition buildBatchImageBalanceHoldFingerprint :: "textLib \<Rightarrow> BatchImageBalanceHoldCommand \<Rightarrow> string" where
  "buildBatchImageBalanceHoldFingerprint lib c =
     (let raw = joinBar [Itoa (bh_UserID c), Itoa (bh_APIKeyID c), TrimSpace (bh_BatchID c), fixed10 lib (bh_HoldAmount c),
           fixed10 lib (bh_ActualAmount c)];
         payloadHash = TrimSpace (bh_RequestPayloadHash c)
      in sha lib (if payloadHash \<noteq> [] then raw @ ''|'' @ payloadHash else raw))"

definition normalizeHold :: "textLib \<Rightarrow> BatchImageBalanceHoldCommand \<Rightarrow> BatchImageBalanceHoldCommand" where
  "normalizeHold lib c =
     (let c1 = c\<lparr>bh_RequestID := TrimSpace (bh_RequestID c), bh_BatchID := TrimSpace (bh_BatchID c)\<rparr> in
      if TrimSpace (bh_RequestFingerprint c1) = []
      then c1\<lparr>bh_RequestFingerprint := buildBatchImageBalanceHoldFingerprint lib c1\<rparr> else c1)"

record BatchImageBalanceHoldResult =
  br_Applied :: bool
  br_NewBalance :: "rat option"
  br_FrozenBalance :: "rat option"

definition emptyHold :: BatchImageBalanceHoldResult where
  "emptyHold = \<lparr>br_Applied = False, br_NewBalance = None, br_FrozenBalance = None\<rparr>"

definition holdResult :: "walletRow \<Rightarrow> BatchImageBalanceHoldResult" where
  "holdResult u = emptyHold\<lparr>br_NewBalance := Some (wu_Balance u), br_FrozenBalance := Some (wu_Frozen u)\<rparr>"

definition userExistsForBilling :: "int \<Rightarrow> bool bill" where
  "userExistsForBilling i = sql (\<lambda>_ s. (Inr (walletOf s i \<noteq> None), s))"

text \<open>An update that hit no row: either there is no such user or the guard of the update failed.\<close>

definition hitOr :: "int \<Rightarrow> billError \<Rightarrow> walletRow option \<Rightarrow> BatchImageBalanceHoldResult bill" where
  "hitOr i err r = (case r of
       Some u \<Rightarrow> yields (holdResult u)
     | None \<Rightarrow> thenDo (userExistsForBilling i) (\<lambda>exists. refuse (if exists then err else BillUserNotFound)))"

definition reserveUsageBillingBatchImageBalance :: "BatchImageBalanceHoldCommand \<Rightarrow> BatchImageBalanceHoldResult bill" where
  "reserveUsageBillingBatchImageBalance cmd =
     (let hold = bh_HoldAmount cmd in
      if hold \<le> 0 then yields emptyHold
      else thenDo (updateWallet (bh_UserID cmd) (\<lambda>u. wu_Balance u \<ge> hold)
          (\<lambda>u. u\<lparr>wu_Balance := decimals 8 (wu_Balance u - hold), wu_Frozen := decimals 8 (wu_Frozen u + hold)\<rparr>))
        (hitOr (bh_UserID cmd) ErrBatchImageInsufficientBalance))"

definition captureUsageBillingBatchImageBalance :: "BatchImageBalanceHoldCommand \<Rightarrow> BatchImageBalanceHoldResult bill" where
  "captureUsageBillingBatchImageBalance cmd =
     (let hold = bh_HoldAmount cmd; actual = bh_ActualAmount cmd in
      if hold \<le> 0 \<and> actual \<le> 0 then yields emptyHold
      else if actual - hold > 1 / 10 ^ 8 then refuse ErrBatchImageSettlementCostExceedsHold
      else thenDo (updateWallet (bh_UserID cmd) (\<lambda>u. wu_Frozen u \<ge> hold)
          (\<lambda>u. u\<lparr>wu_Balance := decimals 8 (wu_Balance u + (if hold > actual then hold - actual else 0) -
                (if actual > hold then actual - hold else 0)),
              wu_Frozen := decimals 8 (wu_Frozen u - hold)\<rparr>))
        (hitOr (bh_UserID cmd) FrozenBalanceInsufficient))"

definition BatchImageHoldRequestID :: "string \<Rightarrow> string" where
  "BatchImageHoldRequestID batchID = ''batch_image_hold:'' @ TrimSpace batchID"

definition BatchImageCaptureRequestID :: "string \<Rightarrow> string" where
  "BatchImageCaptureRequestID batchID = ''batch_image_capture:'' @ TrimSpace batchID"

definition BatchImageReleaseRequestID :: "string \<Rightarrow> string" where
  "BatchImageReleaseRequestID batchID = ''batch_image_release:'' @ TrimSpace batchID"

definition batchImageHoldClaimExists :: "string \<Rightarrow> int \<Rightarrow> bool bill" where
  "batchImageHoldClaimExists rid key =
     thenDo (sql (\<lambda>_ s. (Inr (list_ex (hasKey rid key) (dedup s)), s))) (\<lambda>found.
       if found then yields True else sql (\<lambda>_ s. (Inr (list_ex (hasKey rid key) (archive s)), s)))"

definition releaseUsageBillingBatchImageBalance :: "BatchImageBalanceHoldCommand \<Rightarrow> BatchImageBalanceHoldResult bill" where
  "releaseUsageBillingBatchImageBalance cmd =
     (let hold = bh_HoldAmount cmd in
      if hold \<le> 0 then yields emptyHold
      else thenDo (batchImageHoldClaimExists (BatchImageHoldRequestID (bh_BatchID cmd)) (bh_APIKeyID cmd)) (\<lambda>held.
        if \<not> held then yields emptyHold
        else thenDo (updateWallet (bh_UserID cmd) (\<lambda>u. wu_Frozen u \<ge> hold)
            (\<lambda>u. u\<lparr>wu_Balance := decimals 8 (wu_Balance u + hold), wu_Frozen := decimals 8 (wu_Frozen u - hold)\<rparr>))
          (hitOr (bh_UserID cmd) FrozenBalanceInsufficient)))"

definition applyBatchImageBalanceHold ::
  "textLib \<Rightarrow> BatchImageBalanceHoldCommand \<Rightarrow> (BatchImageBalanceHoldCommand \<Rightarrow> BatchImageBalanceHoldResult bill) \<Rightarrow>
   BatchImageBalanceHoldResult bill" where
  "applyBatchImageBalanceHold lib cmd0 effect =
     (let cmd = normalizeHold lib cmd0 in
      if bh_RequestID cmd = [] then refuse ErrUsageBillingRequestIDRequired
      else unlessApplied emptyHold
        (thenDo (claimUsageBillingKey (bh_RequestID cmd) (bh_APIKeyID cmd) (bh_RequestFingerprint cmd)) (\<lambda>_.
          thenDo (effect cmd) (\<lambda>r. yields (r\<lparr>br_Applied := True\<rparr>)))))"

definition ReserveBatchImageBalance :: "textLib \<Rightarrow> BatchImageBalanceHoldCommand \<Rightarrow> BatchImageBalanceHoldResult bill" where
  "ReserveBatchImageBalance lib cmd = applyBatchImageBalanceHold lib cmd reserveUsageBillingBatchImageBalance"

definition CaptureBatchImageBalance :: "textLib \<Rightarrow> BatchImageBalanceHoldCommand \<Rightarrow> BatchImageBalanceHoldResult bill" where
  "CaptureBatchImageBalance lib cmd = applyBatchImageBalanceHold lib cmd captureUsageBillingBatchImageBalance"

definition ReleaseBatchImageBalance :: "textLib \<Rightarrow> BatchImageBalanceHoldCommand \<Rightarrow> BatchImageBalanceHoldResult bill" where
  "ReleaseBatchImageBalance lib cmd = applyBatchImageBalanceHold lib cmd releaseUsageBillingBatchImageBalance"

section \<open>The calls of the batch service\<close>

record BatchImageJob =
  bj_BatchID :: string
  bj_UserID :: int
  bj_APIKeyID :: "int option"
  bj_EstimatedCost :: rat
  bj_HoldAmount :: "rat option"
  bj_RequestHash :: string

datatype holdError = ErrBatchImageBillingHoldFailed | ErrBatchImageSettlementMissingAPIKeyID
  | HoldInsufficientBalance | ErrBatchImageSettlementBillingFailed

definition buildBatchImageHoldCommand :: "BatchImageJob \<Rightarrow> string \<Rightarrow> rat \<Rightarrow> string \<Rightarrow> holdError + BatchImageBalanceHoldCommand" where
  "buildBatchImageHoldCommand job requestID actualAmount payloadHash =
     (case bj_APIKeyID job of
        None \<Rightarrow> Inl ErrBatchImageSettlementMissingAPIKeyID
      | Some key \<Rightarrow>
          if key \<le> 0 then Inl ErrBatchImageSettlementMissingAPIKeyID
          else
            let hold = (case bj_HoldAmount job of None \<Rightarrow> bj_EstimatedCost job | Some h \<Rightarrow> h) in
            Inr \<lparr>bh_RequestID = requestID, bh_APIKeyID = key, bh_RequestFingerprint = [],
              bh_RequestPayloadHash = TrimSpace payloadHash, bh_UserID = bj_UserID job, bh_BatchID = bj_BatchID job,
              bh_HoldAmount = (if hold < 0 then 0 else hold), bh_ActualAmount = (if actualAmount < 0 then 0 else actualAmount)\<rparr>)"

type_synonym holdCall = "(billEnv, billDB, holdError option) prog"

definition reserveBatchImageBalanceHold :: "textLib \<Rightarrow> BatchImageJob \<Rightarrow> string \<Rightarrow> holdCall" where
  "reserveBatchImageBalanceHold lib job payloadHash =
     (case buildBatchImageHoldCommand job (BatchImageHoldRequestID (bj_BatchID job)) 0 payloadHash of
        Inl err \<Rightarrow> Return (Some err)
      | Inr cmd \<Rightarrow>
          if bh_HoldAmount cmd \<le> 0 then Return None
          else andThen (ReserveBatchImageBalance lib cmd) (\<lambda>r. Return (case r of
              Inr _ \<Rightarrow> None
            | Inl err \<Rightarrow> Some (if err = ErrBatchImageInsufficientBalance then HoldInsufficientBalance else ErrBatchImageBillingHoldFailed))))"

definition captureBatchImageBalanceHold :: "textLib \<Rightarrow> BatchImageJob \<Rightarrow> rat \<Rightarrow> string \<Rightarrow> holdCall" where
  "captureBatchImageBalanceHold lib job actualAmount payloadHash =
     (case buildBatchImageHoldCommand job (BatchImageCaptureRequestID (bj_BatchID job)) actualAmount payloadHash of
        Inl err \<Rightarrow> Return (Some err)
      | Inr cmd \<Rightarrow> andThen (CaptureBatchImageBalance lib cmd) (\<lambda>r. Return (case r of
            Inr _ \<Rightarrow> None | Inl _ \<Rightarrow> Some ErrBatchImageSettlementBillingFailed)))"

definition releaseBatchImageBalanceHold :: "textLib \<Rightarrow> BatchImageJob \<Rightarrow> string \<Rightarrow> holdCall" where
  "releaseBatchImageBalanceHold lib job payloadHash =
     (case buildBatchImageHoldCommand job (BatchImageReleaseRequestID (bj_BatchID job)) 0 payloadHash of
        Inl err \<Rightarrow> Return (Some err)
      | Inr cmd \<Rightarrow>
          if bh_HoldAmount cmd \<le> 0 then Return None
          else andThen (ReleaseBatchImageBalance lib cmd) (\<lambda>r. Return (case r of
              Inr _ \<Rightarrow> None
            | Inl err \<Rightarrow> if err = ErrUsageBillingRequestConflict then None else Some ErrBatchImageBillingHoldFailed)))"

end
