(* ===== verification/BillingFacts.thy ===== *)
theory BillingFacts
  imports BillingApply
begin

text \<open>
  What holds in every run of the billing operations: claims are never forgotten, so a request is booked at most once; a request is
  settled with the owner of an account at most once, and the parts of every settlement add up.
\<close>

section \<open>Rounding\<close>

lemma goRound_of_int [simp]: "goRound (of_int i) = of_int i"
proof -
  have "\<lfloor>(of_int i :: rat) + 1 / 2\<rfloor> = i" "\<lfloor>- (of_int i :: rat) + 1 / 2\<rfloor> = - i" by linarith+
  then show ?thesis by (simp add: goRound_def)
qed

lemma goRound_int: "\<exists>i. goRound q = of_int i"
  by (simp add: goRound_def) (metis of_int_minus)

lemma goRound_nonneg: "0 \<le> q \<Longrightarrow> 0 \<le> goRound q"
  by (simp add: goRound_def)

lemma goRound_error: "\<bar>goRound q - q\<bar> \<le> 1 / 2"
proof (cases "q < 0")
  case True
  define k where "k = \<lfloor>- q + 1 / 2\<rfloor>"
  have "of_int k \<le> - q + 1 / 2 \<and> - q + 1 / 2 < of_int k + 1" unfolding k_def by linarith
  moreover have "goRound q = - of_int k" using True by (simp add: goRound_def k_def)
  ultimately show ?thesis by linarith
next
  case False
  define k where "k = \<lfloor>q + 1 / 2\<rfloor>"
  have "of_int k \<le> q + 1 / 2 \<and> q + 1 / 2 < of_int k + 1" unfolding k_def by linarith
  moreover have "goRound q = of_int k" using False by (simp add: goRound_def k_def)
  ultimately show ?thesis by linarith
qed

definition hasDecimals :: "nat \<Rightarrow> rat \<Rightarrow> bool" where
  "hasDecimals n q \<longleftrightarrow> decimals n q = q"

lemma decimals_hasDecimals [simp]: "hasDecimals n (decimals n q)"
  using goRound_int [of "q * 10 ^ n"] by (auto simp: hasDecimals_def decimals_def)

lemma hasDecimals_iff: "hasDecimals n q \<longleftrightarrow> (\<exists>i::int. q = of_int i / 10 ^ n)"
proof
  assume "hasDecimals n q"
  then show "\<exists>i::int. q = of_int i / 10 ^ n"
    using goRound_int [of "q * 10 ^ n"] by (metis decimals_def hasDecimals_def)
next
  assume "\<exists>i::int. q = of_int i / 10 ^ n"
  then show "hasDecimals n q" by (auto simp: hasDecimals_def decimals_def)
qed

lemma hasDecimals_0 [simp]: "hasDecimals n 0"
  unfolding hasDecimals_iff by (rule exI [of _ 0]) simp

lemma hasDecimals_add [intro]: "hasDecimals n p \<Longrightarrow> hasDecimals n q \<Longrightarrow> hasDecimals n (p + q)"
  unfolding hasDecimals_iff by (metis add_divide_distrib of_int_add)

lemma hasDecimals_diff [intro]: "hasDecimals n p \<Longrightarrow> hasDecimals n q \<Longrightarrow> hasDecimals n (p - q)"
  unfolding hasDecimals_iff by (metis diff_divide_distrib of_int_diff)

lemma decimals_id [simp]: "hasDecimals n q \<Longrightarrow> decimals n q = q"
  by (simp add: hasDecimals_def)

lemma decimals_nonneg: "0 \<le> q \<Longrightarrow> 0 \<le> decimals n q"
  by (simp add: decimals_def goRound_nonneg)

lemma decimals_error: "\<bar>decimals n q - q\<bar> \<le> 1 / (2 * 10 ^ n)"
proof -
  have "decimals n q - q = (goRound (q * 10 ^ n) - q * 10 ^ n) / 10 ^ n" by (simp add: decimals_def diff_divide_distrib)
  then have "\<bar>decimals n q - q\<bar> = \<bar>goRound (q * 10 ^ n) - q * 10 ^ n\<bar> / 10 ^ n" by simp
  also have "\<dots> \<le> (1 / 2) / 10 ^ n" by (intro divide_right_mono goRound_error) simp
  finally show ?thesis by simp
qed

lemma decimalFromFloat_simps [simp]:
  "0 \<le> decimalFromFloat q" "hasDecimals 10 (decimalFromFloat q)"
  by (simp_all add: decimalFromFloat_def decimals_nonneg)

section \<open>Splits\<close>

text \<open>Every part is at least nothing, and together they are the charge.\<close>

lemma shareSplit_sum:
  assumes "hasDecimals 10 charge" "0 \<le> charge" "shareSplit charge r1 r2 = (owner, invite, fee)"
  shows "0 \<le> owner \<and> 0 \<le> invite \<and> 0 \<le> fee \<and> owner + invite + fee = charge"
proof -
  define o1 where "o1 = (if decimals 10 (charge * r1) > charge then charge else decimals 10 (charge * r1))"
  define i1 where "i1 = (if decimals 10 (charge * r2) < 0 then 0 else decimals 10 (charge * r2))"
  have o: "owner = (if o1 < 0 then 0 else o1)" and i: "invite = (if i1 > charge - owner then charge - owner else i1)"
    and f: "fee = (let q = decimals 10 (charge - owner - invite) in if q < 0 then 0 else q)"
    using assms(3) by (auto simp: shareSplit_def Let_def o1_def i1_def)
  have "hasDecimals 10 o1" "hasDecimals 10 i1" using assms(1) by (simp_all add: o1_def i1_def)
  then have ho: "hasDecimals 10 owner" and hi: "hasDecimals 10 invite" using assms(1) o i by auto
  have "o1 \<le> charge" "0 \<le> i1" by (simp_all add: o1_def i1_def)
  then have b: "0 \<le> owner" "owner \<le> charge" "0 \<le> invite" "invite \<le> charge - owner" using o i assms(2) by auto
  have "hasDecimals 10 (charge - owner - invite)" using assms(1) ho hi by blast
  then have "fee = charge - owner - invite" using f b by (simp add: Let_def)
  with b show ?thesis by simp
qed

definition settlementOk :: "shareSettlement \<Rightarrow> bool" where
  "settlementOk x \<longleftrightarrow> 0 \<le> ss_OwnerCredit x \<and> 0 \<le> ss_InviteCredit x \<and> 0 \<le> ss_PlatformFee x \<and>
     ss_OwnerCredit x + ss_InviteCredit x + ss_PlatformFee x = ss_ConsumerCharge x"

lemma settlementOk_row: "settlementOk (settlementRow cmd account policy inviter)"
proof -
  obtain owner invite fee where s: "shareSplit (accountShareConsumerCharge cmd) (ps_OwnerShareRatio policy)
      (if inviter > 0 then ps_InviteShareRatio policy else 0) = (owner, invite, fee)"
    by (metis prod.exhaust)
  have "hasDecimals 10 (accountShareConsumerCharge cmd)" "0 \<le> accountShareConsumerCharge cmd"
    by (simp_all add: accountShareConsumerCharge_def split: option.split)
  from shareSplit_sum [OF this s] s show ?thesis by (simp add: settlementOk_def settlementRow_def Let_def)
qed

section \<open>The invariant\<close>

definition claimed :: "billDB \<Rightarrow> string \<Rightarrow> int \<Rightarrow> bool" where
  "claimed s rid key \<longleftrightarrow> list_ex (hasKey rid key) (dedup s) \<or> list_ex (hasKey rid key) (archive s)"

definition settledOk :: "billDB \<Rightarrow> bool" where
  "settledOk s \<longleftrightarrow> list_all settlementOk (settlements s) \<and> distinct (map (\<lambda>x. (ss_RequestID x, ss_APIKeyID x)) (settlements s))"

definition booksOn :: "billDB \<Rightarrow> billDB \<Rightarrow> bool" where
  "booksOn s t \<longleftrightarrow> (\<forall>rid key. claimed s rid key \<longrightarrow> claimed t rid key) \<and> (settledOk s \<longrightarrow> settledOk t)"

interpretation billing: shared_store "\<lambda>_. True" booksOn
  by unfold_locales (auto simp: booksOn_def)

named_theorems bill_intros

abbreviation billSafe :: "'a bill \<Rightarrow> bool" where
  "billSafe p \<equiv> benign (\<lambda>_. True) booksOn p"

text \<open>A statement that leaves claims and settlements alone.\<close>

lemma billSafe_sql:
  assumes "\<And>e s. dedup (snd (g e s)) = dedup s" "\<And>e s. archive (snd (g e s)) = archive s"
    "\<And>e s. settlements (snd (g e s)) = settlements s"
  shows "billSafe (sql g)"
  unfolding sql_def by (rule billing.benign_statement) (simp add: settledOk_def booksOn_def claimed_def assms)

lemma billSafe_thenDo [bill_intros]: "billSafe p \<Longrightarrow> (\<And>v. billSafe (k v)) \<Longrightarrow> billSafe (thenDo p k)"
  by (rule billing.benign_handle) (simp_all add: refuse_def)

lemma billSafe_simple [bill_intros]: "billSafe (yields v)" "billSafe (refuse x)"
  by (simp_all add: yields_def refuse_def)

lemma billSafe_query [bill_intros]: "billSafe (sql (\<lambda>e s. (f e s, s)))"
  by (rule billSafe_sql) simp_all

lemmas billSafe_cases [bill_intros] = billing.benign_if billing.benign_Let

lemma billSafe_option [bill_intros]:
  "(r = None \<Longrightarrow> billSafe p) \<Longrightarrow> (\<And>v. r = Some v \<Longrightarrow> billSafe (k v)) \<Longrightarrow> billSafe (case r of None \<Rightarrow> p | Some v \<Rightarrow> k v)"
  by (cases r) simp_all

lemma billSafe_prod [bill_intros]: "(\<And>a b. billSafe (k a b)) \<Longrightarrow> billSafe (case x of (a, b) \<Rightarrow> k a b)"
  by (cases x) simp

lemma claimed_addToArchive:
  "list_ex (hasKey rid key) (addToArchive rows r) \<longleftrightarrow> list_ex (hasKey rid key) rows \<or> hasKey rid key r"
  by (auto simp: addToArchive_def list_ex_iff hasKey_def)

lemma claimed_archived:
  "list_ex (hasKey rid key) (foldl addToArchive rows vs) \<longleftrightarrow> list_ex (hasKey rid key) rows \<or> list_ex (hasKey rid key) vs"
  by (induction vs arbitrary: rows) (auto simp: claimed_addToArchive)

lemma billSafe_cleanupRound [bill_intros]: "billSafe (cleanupRound cutoff)"
  unfolding cleanupRound_def sql_def
proof (rule billing.benign_statement)
  fix t :: billDB and e :: billEnv
  define vs where "vs = take usageBillingDedupCleanupBatchSize (filter (\<lambda>r. dd_CreatedAt r < cutoff) (dedup t))"
  define u where "u = t\<lparr>archive := foldl addToArchive (archive t) vs, dedup := filter (\<lambda>r. r \<notin> set vs) (dedup t)\<rparr>"
  have "claimed u rid key" if "claimed t rid key" for rid key
  proof -
    have "list_ex (hasKey rid key) (dedup t) \<Longrightarrow>
        list_ex (hasKey rid key) vs \<or> list_ex (hasKey rid key) (filter (\<lambda>r. r \<notin> set vs) (dedup t))"
      by (auto simp: list_ex_iff)
    with that show ?thesis by (auto simp: claimed_def u_def claimed_archived)
  qed
  then have "booksOn t u" by (simp add: booksOn_def settledOk_def u_def)
  then show "True \<and> booksOn t (snd (let victims = take usageBillingDedupCleanupBatchSize (filter (\<lambda>r. dd_CreatedAt r < cutoff) (dedup t)) in
      (Inr (length victims), t\<lparr>archive := foldl addToArchive (archive t) victims, dedup := filter (\<lambda>r. r \<notin> set victims) (dedup t)\<rparr>)))"
    by (simp add: Let_def vs_def [symmetric] u_def)
qed

lemma billSafe_cleanup [bill_intros]: "billSafe (CleanupUsageBillingDedup n cutoff)"
  by (induction n) (auto intro!: bill_intros)

lemma billSafe_insertClaim [bill_intros]: "billSafe (insertClaim rid key fp)"
  unfolding insertClaim_def sql_def
  by (rule billing.benign_statement) (auto simp: settledOk_def booksOn_def claimed_def)

lemma billSafe_claim [bill_intros]: "billSafe (claimUsageBillingKey rid key fp)"
  unfolding claimUsageBillingKey_def sameFingerprint_def by (intro bill_intros)

lemma billSafe_updateWallet [bill_intros]: "billSafe (updateWallet i c f)"
  unfolding updateWallet_def by (rule billSafe_sql) (auto simp: setWallet_def split: option.split)

lemma billSafe_ledgers [bill_intros]: "billSafe (insertUserBalanceLedger c)" "billSafe (insertPointsLedger c)"
  unfolding insertUserBalanceLedger_def insertPointsLedger_def by (auto intro!: bill_intros billSafe_sql)

lemma billSafe_wallet [bill_intros]:
  "billSafe (deductUsageBillingBalance i amount)" "billSafe (creditUsageBillingBalance i amount)"
  unfolding deductUsageBillingBalance_def creditUsageBillingBalance_def by (intro bill_intros)+

lemma billSafe_deductWallet [bill_intros]: "billSafe (deductUsageBillingWallet i amount pref)"
  unfolding deductUsageBillingWallet_def by (intro bill_intros)

lemma billSafe_log [bill_intros]: "billSafe (ensureUsageBillingLog cmd)"
  unfolding ensureUsageBillingLog_def insertLog_def by (intro bill_intros billSafe_sql) (auto simp: Let_def split: option.split)

lemma billSafe_tables [bill_intros]:
  "billSafe (incrementUsageBillingSubscription i cost)" "billSafe (updateKey i f)" "billSafe (enqueueSchedulerOutbox i)"
  unfolding incrementUsageBillingSubscription_def updateKey_def enqueueSchedulerOutbox_def
  by (intro billSafe_sql; auto simp: Let_def split: option.split)+

lemma billSafe_keys [bill_intros]:
  "billSafe (incrementUsageBillingAPIKeyQuota i amount)" "billSafe (incrementUsageBillingAPIKeyRateLimit i amount)"
  unfolding incrementUsageBillingAPIKeyQuota_def incrementUsageBillingAPIKeyRateLimit_def by (intro bill_intros)+

lemma billSafe_quota [bill_intros]: "billSafe (incrementUsageBillingAccountQuota i amount)"
  unfolding incrementUsageBillingAccountQuota_def by (intro bill_intros billSafe_sql) (auto split: option.split)

lemma billSafe_insertSettlement: "settlementOk x \<Longrightarrow> billSafe (insertAccountShareSettlement x)"
  unfolding insertAccountShareSettlement_def sql_def
  by (rule billing.benign_statement) (auto simp: settledOk_def booksOn_def claimed_def list_ex_iff)

lemma billSafe_settlement [bill_intros]: "billSafe (applyAccountShareSettlement cmd logID result)"
  unfolding applyAccountShareSettlement_def accountShareSnapshotForSettlement_def loadAccountShareSnapshot_def
    resolveAccountSharePolicy_def queryAccountSharePolicy_def resolveAccountShareInvite_def isUsageAffiliateEnabled_def
    creditOwner_def creditInviter_def creditInviteShareBalance_def
  by (intro bill_intros billSafe_insertSettlement settlementOk_row billSafe_sql) (simp_all add: Let_def)

lemma billSafe_effects [bill_intros]: "billSafe (applyUsageBillingEffects cmd result)"
  unfolding applyUsageBillingEffects_def chargeSubscription_def chargeWallet_def recordPoints_def recordBalance_def
    chargeCommission_def chargeKey_def chargeAccount_def
  by (intro bill_intros)

lemma billSafe_unlessApplied: "billSafe p \<Longrightarrow> billSafe (unlessApplied v p)"
  unfolding unlessApplied_def by (intro billing.benign_andThen billing.benign_transaction) simp_all

lemma billSafe_Apply: "billSafe (Apply lib cmd)"
  unfolding Apply_def Let_def by (intro bill_intros billSafe_unlessApplied)

lemma billSafe_hitOr [bill_intros]: "billSafe (hitOr i err r)"
  unfolding hitOr_def userExistsForBilling_def by (intro bill_intros)

lemma billSafe_holds [bill_intros]:
  "billSafe (reserveUsageBillingBatchImageBalance cmd)" "billSafe (captureUsageBillingBatchImageBalance cmd)"
  "billSafe (releaseUsageBillingBatchImageBalance cmd)"
  unfolding reserveUsageBillingBatchImageBalance_def captureUsageBillingBatchImageBalance_def releaseUsageBillingBatchImageBalance_def
    batchImageHoldClaimExists_def
  by (intro bill_intros)+

lemma billSafe_applyHold: "(\<And>c. billSafe (f c)) \<Longrightarrow> billSafe (applyBatchImageBalanceHold lib cmd f)"
  unfolding applyBatchImageBalanceHold_def Let_def by (intro bill_intros billSafe_unlessApplied)

end
