(* ===== verification/BillingSafety.thy ===== *)
theory BillingSafety
  imports BillingFacts
begin

text \<open>
  The theorems on usage billing, each with a concrete run where its hypotheses hold.
\<close>

section \<open>Claims\<close>

lemma exec_sql [simp]: "fault e = Works \<Longrightarrow> exec e (sql g) s = g e s"
  by (simp add: sql_def)

lemma exec_simple [simp]: "exec e (yields v) s = (Inr v, s)" "exec e (refuse x) s = (Inl x, s)"
  by (simp_all add: yields_def refuse_def)

lemma exec_insertClaim:
  "fault e = Works \<Longrightarrow> exec e (insertClaim rid key fp) s =
     (if list_ex (hasKey rid key) (dedup s) then (Inr False, s)
      else (Inr True, s\<lparr>dedup := dedup s @ [\<lparr>dd_RequestID = rid, dd_APIKeyID = key, dd_Fingerprint = fp, dd_CreatedAt = clock e\<rparr>]\<rparr>))"
  by (simp add: insertClaim_def)

lemma claimedFingerprint_None: "claimedFingerprint rid key rows = None \<longleftrightarrow> \<not> list_ex (hasKey rid key) rows"
  by (auto simp: claimedFingerprint_def find_None_iff list_ex_iff)

lemma claim_fresh:
  "fault e = Works \<Longrightarrow> \<not> claimed s rid key \<Longrightarrow> exec e (claimUsageBillingKey rid key fp) s =
     (Inr (), s\<lparr>dedup := dedup s @ [\<lparr>dd_RequestID = rid, dd_APIKeyID = key, dd_Fingerprint = fp, dd_CreatedAt = clock e\<rparr>]\<rparr>)"
  by (simp add: claimUsageBillingKey_def exec_insertClaim claimed_def claimedFingerprint_None [THEN iffD2])

lemma claim_again:
  assumes "fault e = Works" "claimed s rid key"
  obtains x t where "exec e (claimUsageBillingKey rid key fp) s = (Inl x, t)"
proof -
  have "\<exists>x t. exec e (claimUsageBillingKey rid key fp) s = (Inl x, t)"
  proof (cases "list_ex (hasKey rid key) (dedup s)")
    case True
    then obtain f where "claimedFingerprint rid key (dedup s) = Some f" using claimedFingerprint_None by fast
    with True assms(1) show ?thesis by (simp add: claimUsageBillingKey_def exec_insertClaim sameFingerprint_def)
  next
    case False
    with assms(2) obtain f where "claimedFingerprint rid key (archive s) = Some f"
      using claimedFingerprint_None unfolding claimed_def by fast
    with False assms(1) show ?thesis by (simp add: claimUsageBillingKey_def exec_insertClaim sameFingerprint_def)
  qed
  with that show thesis by blast
qed

text \<open>What every claimed transaction does: its effects, or nothing at all.\<close>

definition underClaim :: "'a \<Rightarrow> string \<Rightarrow> int \<Rightarrow> string \<Rightarrow> 'a bill \<Rightarrow> 'a bill" where
  "underClaim notApplied rid key fp effects =
     unlessApplied notApplied (thenDo (claimUsageBillingKey rid key fp) (\<lambda>_. effects))"

lemma exec_unlessApplied:
  "exec e (unlessApplied v p) s = (case exec e (transaction BillDbError p) s of (r, t) \<Rightarrow> (if r = Inl NotApplied then Inr v else r, t))"
  by (simp add: unlessApplied_def exec_andThen split: prod.split)

lemma transaction_claimed:
  assumes "\<And>e. fault e = Works \<Longrightarrow> \<exists>x t. exec e p s = (Inl x, t)"
  shows "snd (exec e (transaction b p) s) = s \<and> (\<exists>x. fst (exec e (transaction b p) s) = Inl x)"
proof -
  obtain x t where "exec (e\<lparr>fault := Works\<rparr>) p s = (Inl x, t)" using assms [of "e\<lparr>fault := Works\<rparr>"] by auto
  then show ?thesis by (simp add: transaction_def split: fault.split)
qed

lemma underClaim_claimed:
  assumes "claimed s rid key"
  shows "snd (exec e (underClaim v rid key fp p) s) = s \<and>
    (fst (exec e (underClaim v rid key fp p) s) = Inr v \<or> (\<exists>x. fst (exec e (underClaim v rid key fp p) s) = Inl x))"
proof -
  have "\<exists>x t. exec e (thenDo (claimUsageBillingKey rid key fp) (\<lambda>_. p)) s = (Inl x, t)" if w: "fault e = Works" for e
  proof -
    obtain x t where "exec e (claimUsageBillingKey rid key fp) s = (Inl x, t)" by (rule claim_again [OF w assms])
    then show ?thesis by simp
  qed
  from transaction_claimed [of "thenDo (claimUsageBillingKey rid key fp) (\<lambda>_. p)" s e BillDbError, OF this]
  show ?thesis by (auto simp: underClaim_def exec_unlessApplied split: prod.split)
qed

lemma underClaim_claims:
  assumes "billSafe p" "snd (exec e (underClaim v rid key fp p) s) \<noteq> s"
  shows "claimed (snd (exec e (underClaim v rid key fp p) s)) rid key"
proof -
  define e' where "e' = e\<lparr>fault := Works\<rparr>"
  have w: "fault e' = Works" by (simp add: e'_def)
  define q where "q = thenDo (claimUsageBillingKey rid key fp) (\<lambda>_. p)"
  have "\<not> claimed s rid key" using underClaim_claimed assms(2) by metis
  then have c: "exec e' q s = exec e' p (s\<lparr>dedup := dedup s @ [\<lparr>dd_RequestID = rid, dd_APIKeyID = key, dd_Fingerprint = fp, dd_CreatedAt = clock e'\<rparr>]\<rparr>)"
    (is "_ = exec e' p ?s1") by (simp add: q_def claim_fresh w)
  have "claimed ?s1 rid key" by (simp add: claimed_def hasKey_def)
  then have "claimed (snd (exec e' q s)) rid key"
    using billing.benign_exec [OF assms(1), of ?s1 e'] unfolding c by (simp add: booksOn_def)
  moreover have "snd (exec e (underClaim v rid key fp p) s) = s \<or> snd (exec e (underClaim v rid key fp p) s) = snd (exec e' q s)"
    by (auto simp: underClaim_def exec_unlessApplied transaction_def e'_def [symmetric] q_def [symmetric]
        split: fault.split prod.split sum.split)
  ultimately show ?thesis using assms(2) by metis
qed

section \<open>A request is booked once\<close>

lemma Normalize_key [simp]:
  "cm_RequestID (Normalize lib cmd) = TrimSpace (cm_RequestID cmd)" "cm_APIKeyID (Normalize lib cmd) = cm_APIKeyID cmd"
  by (simp_all add: Normalize_def Let_def)

lemma Applied_emptyResult [simp]: "\<not> ur_Applied emptyResult"
  by (simp add: emptyResult_def)

lemma Apply_underClaim:
  "Apply lib cmd = (if TrimSpace (cm_RequestID cmd) = [] then refuse ErrUsageBillingRequestIDRequired
     else underClaim emptyResult (TrimSpace (cm_RequestID cmd)) (cm_APIKeyID cmd) (cm_RequestFingerprint (Normalize lib cmd))
       (applyUsageBillingEffects (Normalize lib cmd) (emptyResult\<lparr>ur_Applied := True\<rparr>)))"
  by (simp add: Apply_def Let_def underClaim_def)

lemma Apply_claims:
  "snd (exec e (Apply lib cmd) s) \<noteq> s \<Longrightarrow> claimed (snd (exec e (Apply lib cmd) s)) (TrimSpace (cm_RequestID cmd)) (cm_APIKeyID cmd)"
  by (auto simp: Apply_underClaim intro: underClaim_claims billSafe_effects split: if_splits)

lemma Apply_claimed:
  assumes "claimed s (TrimSpace (cm_RequestID cmd)) (cm_APIKeyID cmd)"
  shows "snd (exec e (Apply lib cmd) s) = s \<and> (\<forall>r. fst (exec e (Apply lib cmd) s) = Inr r \<longrightarrow> \<not> ur_Applied r)"
proof (cases "TrimSpace (cm_RequestID cmd) = []")
  case False
  then show ?thesis
    using underClaim_claimed [OF assms, of e emptyResult "cm_RequestFingerprint (Normalize lib cmd)"
        "applyUsageBillingEffects (Normalize lib cmd) (emptyResult\<lparr>ur_Applied := True\<rparr>)"]
    by (fastforce simp: Apply_underClaim)
qed (simp add: Apply_underClaim)

text \<open>What may run against the tables in the meantime, in any number and interleaving.\<close>

inductive billingOperation :: "(billEnv, billDB, unit) prog \<Rightarrow> bool" where
  "billingOperation (followedBy (Apply lib cmd) (Return ()))"
| "billingOperation (followedBy (ReserveBatchImageBalance lib hold) (Return ()))"
| "billingOperation (followedBy (CaptureBatchImageBalance lib hold) (Return ()))"
| "billingOperation (followedBy (ReleaseBatchImageBalance lib hold) (Return ()))"
| "billingOperation (followedBy (CleanupUsageBillingDedup n cutoff) (Return ()))"

lemma billSafe_operation: "billingOperation p \<Longrightarrow> benign (\<lambda>_. True) booksOn p"
  by (induction rule: billingOperation.induct)
    (auto simp: ReserveBatchImageBalance_def CaptureBatchImageBalance_def ReleaseBatchImageBalance_def
      intro!: billSafe_Apply billSafe_applyHold billSafe_holds billSafe_cleanup)

lemma billing_run:
  assumes "list_all (arrives billingOperation) evs"
  shows "booksOn s (snd (foldl poolStep ([], s) evs))"
proof -
  have "arrives billingOperation ev \<Longrightarrow> arrives (benign (\<lambda>_. True) booksOn) ev" for ev
    by (cases ev) (simp_all add: billSafe_operation)
  with assms have "list_all (arrives (benign (\<lambda>_. True) booksOn)) evs" by (auto simp: list_all_iff)
  from billing.pool_safe [OF _ this, of s] show ?thesis by simp
qed

section \<open>An example\<close>

text \<open>User 1 has five of balance and two points and uses the account of user 2, who was invited by nobody and gets half of it.\<close>

definition billWorld :: "fault \<Rightarrow> billEnv" where
  "billWorld f = \<lparr>fault = f, clock = 0, nextDailyReset = (\<lambda>_. 0), nextWeeklyReset = (\<lambda>_. 0)\<rparr>"

definition billLib :: textLib where
  "billLib = \<lparr>sha = (\<lambda>t. t), fixed10 = (\<lambda>_. ''x'')\<rparr>"

definition walletRowOf :: "int \<Rightarrow> rat \<Rightarrow> rat \<Rightarrow> walletRow" where
  "walletRowOf i balance points = \<lparr>wu_ID = i, wu_Balance = balance, wu_Points = points, wu_Frozen = 0, wu_Status = StatusActive\<rparr>"

definition noPeriod :: quotaPeriod where
  "noPeriod = \<lparr>qp_Limit = 0, qp_Used = 0, qp_Start = None, qp_Fixed = False, qp_ResetAt = None\<rparr>"

definition billTables :: billDB where
  "billTables = \<lparr>dedup = [], archive = [], wallets = [walletRowOf 1 5 2, walletRowOf 2 0 0], balanceLedger = [], pointsCharges = [],
     usageLogs = [], nextLogID = 1, apiKeys = [],
     quotaAccounts = [\<lparr>qa_ID = 7, qa_OwnerUserID = Some 2, qa_ShareMode = ''public'', qa_ShareStatus = [], qa_Platform = [],
       qa_SharePolicyID = None, qa_QuotaUsed = 0, qa_QuotaLimit = 0, qa_Daily = noPeriod, qa_Weekly = noPeriod\<rparr>],
     billGroups = [], billSubs = [],
     policies = [\<lparr>sh_ID = 1, sh_OwnerShareRatio = 1 / 2, sh_InviteShareRatio = 1 / 10, sh_Version = 1, sh_EffectiveAt = 0\<rparr>],
     affiliates = [], affiliateLedger = [], settlements = [], affiliateSetting = None, outbox = []\<rparr>"

definition billCommand :: "string \<Rightarrow> rat \<Rightarrow> UsageBillingCommand" where
  "billCommand rid cost = \<lparr>cm_RequestID = rid, cm_APIKeyID = 3, cm_RequestFingerprint = ''f'', cm_RequestPayloadHash = [], cm_UserID = 1,
     cm_AccountID = 7, cm_SubscriptionID = None, cm_AccountType = [], cm_Model = [], cm_ServiceTier = [], cm_ReasoningEffort = [],
     cm_BillingType = 0, cm_InputTokens = 0, cm_OutputTokens = 0, cm_CacheCreationTokens = 0, cm_CacheReadTokens = 0, cm_ImageCount = 0,
     cm_MediaType = [], cm_BalanceCost = cost, cm_PreferPointsBilling = True, cm_SubscriptionCost = 0,
     cm_PrivateGroupCommissionCost = 0, cm_APIKeyQuotaCost = 0, cm_APIKeyRateLimitCost = 0, cm_AccountQuotaCost = 0,
     cm_ShareSnapshotCaptured = False, cm_ShareOwnerUserID = None, cm_ShareModeSnapshot = [], cm_ShareStatusSnapshot = [],
     cm_SharePlatform = [], cm_SharePolicyID = None, cm_SharePolicyVersion = 0, cm_OwnerShareRatio = 0, cm_InviteShareRatio = 0,
     cm_UsageOccurredAt = None, cm_UsageLog = None\<rparr>"

text \<open>
  (C1) A request is billed at most once: when one call of \<^verbatim>\<open>Apply\<close> changed anything, even though its answer was lost, then after
  any further billing calls, holds and clean-ups of old claims, a call for the same request and API key changes nothing, whatever the
  database does to it and whatever else the command says, and never reports that it was applied.
\<close>

theorem usage_billed_once:
  assumes "snd (exec e (Apply lib cmd) s) \<noteq> s" "list_all (arrives billingOperation) evs"
    "TrimSpace (cm_RequestID cmd') = TrimSpace (cm_RequestID cmd)" "cm_APIKeyID cmd' = cm_APIKeyID cmd"
    "t = snd (foldl poolStep ([], snd (exec e (Apply lib cmd) s)) evs)"
  shows "snd (exec e' (Apply lib' cmd') t) = t \<and> (\<forall>r. fst (exec e' (Apply lib' cmd') t) = Inr r \<longrightarrow> \<not> ur_Applied r)"
proof (rule Apply_claimed)
  show "claimed t (TrimSpace (cm_RequestID cmd')) (cm_APIKeyID cmd')"
    using Apply_claims [OF assms(1)] billing_run [OF assms(2)] assms(3-5) by (simp add: booksOn_def)
qed

text \<open>
  (C4) In every run of billing calls, holds and clean-ups, from tables where it holds, a request is settled with an account's owner
  at most once, and the credit of the owner, the credit of the inviter and the fee of the platform are never negative and add up to
  exactly what the consumer was charged.
\<close>

theorem settlements_conserve:
  assumes "settledOk s" "list_all (arrives billingOperation) evs"
  shows "settledOk (snd (foldl poolStep ([], s) evs))"
  using billing_run [OF assms(2), of s] assms(1) by (simp add: booksOn_def)

lemma apply_example:
  "wallets (snd (exec (billWorld Works) (Apply billLib (billCommand ''r'' 3)) billTables)) = [walletRowOf 1 4 0, walletRowOf 2 (3 / 2) 0]"
  by code_simp

lemma usage_billed_once_witness:
  "let t = snd (exec (billWorld Lost) (Apply billLib (billCommand ''r'' 3)) billTables) in
   snd (exec (billWorld Works) (Apply billLib (billCommand '' r'' 4)) t) = t"
proof -
  have "wallets (snd (exec (billWorld Lost) (Apply billLib (billCommand ''r'' 3)) billTables)) \<noteq> wallets billTables" by code_simp
  then have "snd (exec (billWorld Lost) (Apply billLib (billCommand ''r'' 3)) billTables) \<noteq> billTables" by auto
  moreover have "TrimSpace (cm_RequestID (billCommand '' r'' 4)) = TrimSpace (cm_RequestID (billCommand ''r'' 3))" by code_simp
  ultimately show ?thesis
    using usage_billed_once [of "billWorld Lost" billLib "billCommand ''r'' 3" billTables "[]" "billCommand '' r'' 4" _ "billWorld Works" billLib]
    by (simp add: billCommand_def Let_def)
qed

lemma settlements_conserve_witness:
  "settledOk (snd (foldl poolStep ([], billTables) [Arrive (followedBy (Apply billLib (billCommand ''r'' 3)) (Return ())), Turn 0 (billWorld Works)]))"
  by (rule settlements_conserve) (simp_all add: settledOk_def billTables_def billingOperation.intros)

section \<open>Wallets\<close>

lemma exec_updateWallet:
  "fault e = Works \<Longrightarrow> exec e (updateWallet i c f) s = (case walletOf s i of
     None \<Rightarrow> (Inr None, s) | Some u \<Rightarrow> if c u then (Inr (Some (f u)), setWallet s i f) else (Inr None, s))"
  by (simp add: updateWallet_def)

lemma find_updatedRows:
  "(\<And>r. P (f r) = P r) \<Longrightarrow> find P (setRows P f rs) = map_option f (find P rs)"
  by (induction rs) (auto simp: setRows_def)

lemma walletOf_setWallet:
  "(\<And>u. wu_ID (f u) = wu_ID u) \<Longrightarrow> walletOf (setWallet s i f) i = map_option f (walletOf s i)"
  by (simp add: walletOf_def setWallet_def find_updatedRows)

lemma hasDecimals_mono:
  assumes "hasDecimals m q" "m \<le> n"
  shows "hasDecimals n q"
proof -
  obtain i :: int where "q = of_int i / 10 ^ m" using assms(1) hasDecimals_iff by blast
  then have "q = of_int (i * 10 ^ (n - m)) / 10 ^ n"
    using power_add [of "10::rat" m "n - m"] assms(2) by (simp add: field_simps)
  then show ?thesis unfolding hasDecimals_iff by blast
qed

lemma decimalFromFloat_error:
  assumes "0 \<le> v"
  shows "0 \<le> decimalFromFloat v" "\<bar>decimalFromFloat v - v\<bar> \<le> 1 / (2 * 10 ^ 10)"
  using assms decimals_error [of 10 v] decimals_nonneg [of v 10] by (auto simp: decimalFromFloat_def)

lemma twice_rounded: "\<bar>decimals 8 (decimalFromSignedFloat v) - v\<bar> \<le> 1 / (2 * 10 ^ 8) + 1 / (2 * 10 ^ 10)"
  using decimals_error [of 8 "decimals 10 v"] decimals_error [of 10 v] unfolding decimalFromSignedFloat_def by linarith

text \<open>
  (C22) Charging a wallet takes the whole amount, whatever its number of decimals: the part taken from the points and the part taken
  from the balance add up to it, and points are used first if they are preferred and never below zero. What is stored differs from
  the exact values by the rounding alone: the points by half a unit of their tenth decimal at most; the balance, which is rounded to ten
  decimals by the code and to eight by its column, by half a unit of the eighth and half a unit of the tenth. An amount of
  at most ten decimals leaves the points exact and the balance within half a unit of its last decimal.
\<close>

theorem wallet_charged:
  assumes "fault e = Works" "walletOf s i = Some u" "0 < amount"
    "0 \<le> wu_Points u" "hasDecimals 10 (wu_Points u)" "hasDecimals 8 (wu_Balance u)"
    "exec e (deductUsageBillingWallet i amount preferPoints) s = (r, t)"
  shows "\<exists>newPoints newBalance p b v. r = Inr (newPoints, newBalance, p, b) \<and> p + b = amount \<and>
    p = (if preferPoints then min amount (wu_Points u) else 0) \<and> walletOf t i = Some v \<and>
    0 \<le> wu_Points v \<and> \<bar>wu_Points v - (wu_Points u - p)\<bar> \<le> 1 / (2 * 10 ^ 10) \<and>
    \<bar>wu_Balance v - (wu_Balance u - b)\<bar> \<le> 1 / (2 * 10 ^ 8) + 1 / (2 * 10 ^ 10) \<and>
    (hasDecimals 10 amount \<longrightarrow> wu_Points v = wu_Points u - p \<and> \<bar>wu_Balance v - (wu_Balance u - b)\<bar> \<le> 1 / (2 * 10 ^ 8))"
proof (cases preferPoints)
  case True
  define p where "p = min amount (wu_Points u)"
  let ?newPoints = "wu_Points u - p" and ?newBalance = "wu_Balance u - (amount - p)"
  let ?v = "u\<lparr>wu_Points := decimalFromFloat ?newPoints, wu_Balance := decimals 8 (decimalFromSignedFloat ?newBalance)\<rparr>"
  have split: "walletSplit amount (wu_Points u) = (p, amount - p)" using assms(3,4) by (auto simp: walletSplit_def p_def Let_def)
  have run: "r = Inr (?newPoints, ?newBalance, p, amount - p)" "walletOf t i = Some ?v"
    using assms(1,2,3,7) True by (auto simp: deductUsageBillingWallet_def Let_def split exec_updateWallet walletOf_setWallet)
  have exact: "decimalFromFloat ?newPoints = ?newPoints \<and> decimalFromSignedFloat ?newBalance = ?newBalance" if "hasDecimals 10 amount"
  proof
    have p10: "hasDecimals 10 p" using that assms(5) by (simp add: p_def min_def)
    then show "decimalFromFloat ?newPoints = ?newPoints"
      using assms(5) hasDecimals_diff by (auto simp: decimalFromFloat_def p_def)
    have "hasDecimals 10 ?newBalance"
      using p10 that hasDecimals_mono [OF assms(6), of 10] by (intro hasDecimals_diff) simp_all
    then show "decimalFromSignedFloat ?newBalance = ?newBalance" by (simp add: decimalFromSignedFloat_def)
  qed
  have "0 \<le> ?newPoints" by (simp add: p_def)
  note error = decimalFromFloat_error [OF this] twice_rounded [of ?newBalance] decimals_error [of 8 ?newBalance]
  show ?thesis
    by (rule exI [of _ ?newPoints], rule exI [of _ ?newBalance], rule exI [of _ p], rule exI [of _ "amount - p"], rule exI [of _ ?v])
      (use run error exact True in \<open>auto simp: p_def [symmetric]\<close>)
next
  case False
  have "\<bar>decimals 8 (wu_Balance u - amount) - (wu_Balance u - amount)\<bar> \<le> 1 / (2 * 10 ^ 8)" by (rule decimals_error)
  then have "\<bar>decimals 8 (wu_Balance u - amount) - (wu_Balance u - amount)\<bar> \<le> 1 / (2 * 10 ^ 8) + 1 / (2 * 10 ^ 10)" by simp
  with decimals_error [of 8 "wu_Balance u - amount"] False show ?thesis
    using assms(1-4,7)
    by (auto simp: deductUsageBillingWallet_def deductUsageBillingBalance_def exec_updateWallet walletOf_setWallet debit_def split: if_splits)
qed

lemma wallet_charged_witness:
  "\<exists>newPoints newBalance p b v. fst (exec (billWorld Works) (deductUsageBillingWallet 1 3 True) billTables) = Inr (newPoints, newBalance, p, b) \<and>
     p + b = 3 \<and> p = min 3 2 \<and> walletOf (snd (exec (billWorld Works) (deductUsageBillingWallet 1 3 True) billTables)) 1 = Some v \<and>
     wu_Points v = 2 - p \<and> \<bar>wu_Balance v - (5 - b)\<bar> \<le> 1 / (2 * 10 ^ 8)"
proof -
  have "walletOf billTables 1 = Some (walletRowOf 1 5 2)" by (simp add: walletOf_def billTables_def walletRowOf_def)
  moreover have "hasDecimals 10 3" "hasDecimals 10 2" "hasDecimals 8 5" by code_simp+
  moreover obtain r t where run: "exec (billWorld Works) (deductUsageBillingWallet 1 3 True) billTables = (r, t)" by fastforce
  ultimately have "\<exists>newPoints newBalance p b v. r = Inr (newPoints, newBalance, p, b) \<and> p + b = 3 \<and> p = min 3 2 \<and>
      walletOf t 1 = Some v \<and> wu_Points v = 2 - p \<and> \<bar>wu_Balance v - (5 - b)\<bar> \<le> 1 / (2 * 10 ^ 8)"
    using wallet_charged [of "billWorld Works" billTables 1 "walletRowOf 1 5 2" 3 True r t]
    unfolding billWorld_def walletRowOf_def by (simp del: power_numeral) blast
  then show ?thesis unfolding run by simp
qed

section \<open>Holds\<close>

definition plainText :: "string \<Rightarrow> bool" where
  "plainText t \<longleftrightarrow> list_all (\<lambda>c. c \<notin> set (concat go_spaces)) t"

lemma TrimSpace_plain: "plainText t \<Longrightarrow> TrimSpace t = t"
proof (rule TrimSpace_keep)
  assume plain: "plainText t"
  have absent: "\<not> set w \<subseteq> set t" if "w \<in> set go_spaces" for w
  proof -
    have "w \<noteq> []" using that by (auto simp: go_spaces_def)
    then have "hd w \<in> set w" by simp
    moreover have "hd w \<in> set (concat go_spaces)" using calculation that by (simp only: set_concat) blast
    ultimately show ?thesis using plain unfolding plainText_def list_all_iff by blast
  qed
  show "list_all (\<lambda>w. \<not> prefix w t) go_spaces" "list_all (\<lambda>w. \<not> suffix w t) go_spaces"
    using absent set_mono_prefix set_mono_suffix unfolding list_all_iff by blast+
qed

lemma plain_ids:
  assumes "plainText b"
  shows "BatchImageHoldRequestID b = ''batch_image_hold:'' @ b" "BatchImageReleaseRequestID b = ''batch_image_release:'' @ b"
    "BatchImageCaptureRequestID b = ''batch_image_capture:'' @ b" "TrimSpace b = b"
    "TrimSpace (''batch_image_hold:'' @ b) = ''batch_image_hold:'' @ b"
    "TrimSpace (''batch_image_release:'' @ b) = ''batch_image_release:'' @ b"
    "TrimSpace (''batch_image_capture:'' @ b) = ''batch_image_capture:'' @ b"
proof -
  have "plainText ''batch_image_hold:''" "plainText ''batch_image_release:''" "plainText ''batch_image_capture:''" by code_simp+
  with assms have "plainText (''batch_image_hold:'' @ b)" "plainText (''batch_image_release:'' @ b)" "plainText (''batch_image_capture:'' @ b)"
    by (simp_all only: plainText_def list_all_append)
  then show "TrimSpace (''batch_image_hold:'' @ b) = ''batch_image_hold:'' @ b"
    "TrimSpace (''batch_image_release:'' @ b) = ''batch_image_release:'' @ b"
    "TrimSpace (''batch_image_capture:'' @ b) = ''batch_image_capture:'' @ b" "TrimSpace b = b"
    using assms by (simp_all only: TrimSpace_plain)
  then show "BatchImageHoldRequestID b = ''batch_image_hold:'' @ b" "BatchImageReleaseRequestID b = ''batch_image_release:'' @ b"
    "BatchImageCaptureRequestID b = ''batch_image_capture:'' @ b"
    by (simp_all only: BatchImageHoldRequestID_def BatchImageReleaseRequestID_def BatchImageCaptureRequestID_def)
qed

end
