(* ===== verification/BillingHolds.thy ===== *)
theory BillingHolds
  imports BillingSafety
begin

text \<open>
  The balance holds of image batches: what a hold, its capture and its release do to the wallet when the database works, and in which
  orders a hold is given back twice or not at all.
\<close>

section \<open>One call\<close>

definition claimWith :: "billEnv \<Rightarrow> string \<Rightarrow> int \<Rightarrow> string \<Rightarrow> billDB \<Rightarrow> billDB" where
  "claimWith e rid key fp s =
     s\<lparr>dedup := dedup s @ [\<lparr>dd_RequestID = rid, dd_APIKeyID = key, dd_Fingerprint = fp, dd_CreatedAt = clock e\<rparr>]\<rparr>"

lemma underClaim_fresh:
  "fault e = Works \<Longrightarrow> \<not> claimed s rid key \<Longrightarrow> exec e (underClaim v rid key fp p) s =
     (case exec e p (claimWith e rid key fp s) of
        (Inl x, _) \<Rightarrow> (if x = NotApplied then Inr v else Inl x, s) | (Inr r, t) \<Rightarrow> (Inr r, t))"
  by (simp add: underClaim_def exec_unlessApplied claim_fresh claimWith_def split: prod.split sum.split)

lemma claimWith_simps [simp]:
  "walletOf (claimWith e rid key fp s) i = walletOf s i"
  "claimed (claimWith e rid key fp s) x k \<longleftrightarrow> claimed s x k \<or> x = rid \<and> k = key"
  by (auto simp: claimWith_def walletOf_def claimed_def hasKey_def)

lemma claimed_setWallet [simp]: "claimed (setWallet s i f) x k = claimed s x k"
  by (simp add: setWallet_def claimed_def)

lemma exec_claimExists:
  "fault e = Works \<Longrightarrow> exec e (batchImageHoldClaimExists rid key) s = (Inr (claimed s rid key), s)"
  by (simp add: batchImageHoldClaimExists_def claimed_def)

lemma exec_holdCall:
  "exec e (applyBatchImageBalanceHold lib cmd effect) s =
     (if TrimSpace (bh_RequestID cmd) = [] then (Inl ErrUsageBillingRequestIDRequired, s)
      else exec e (underClaim emptyHold (TrimSpace (bh_RequestID cmd)) (bh_APIKeyID cmd) (bh_RequestFingerprint (normalizeHold lib cmd))
        (thenDo (effect (normalizeHold lib cmd)) (\<lambda>r. yields (r\<lparr>br_Applied := True\<rparr>)))) s)"
  by (simp add: applyBatchImageBalanceHold_def normalizeHold_def Let_def underClaim_def)

lemma normalizeHold_simps [simp]:
  "bh_BatchID (normalizeHold lib cmd) = TrimSpace (bh_BatchID cmd)" "bh_APIKeyID (normalizeHold lib cmd) = bh_APIKeyID cmd"
  "bh_UserID (normalizeHold lib cmd) = bh_UserID cmd" "bh_HoldAmount (normalizeHold lib cmd) = bh_HoldAmount cmd"
  "bh_ActualAmount (normalizeHold lib cmd) = bh_ActualAmount cmd"
  by (simp_all add: normalizeHold_def Let_def)

text \<open>A job with an API key, a plain batch number and something to hold.\<close>

definition holdsFor :: "BatchImageJob \<Rightarrow> int \<Rightarrow> rat \<Rightarrow> bool" where
  "holdsFor job key h \<longleftrightarrow> bj_APIKeyID job = Some key \<and> 0 < key \<and> plainText (bj_BatchID job) \<and> 0 < h \<and>
     (case bj_HoldAmount job of None \<Rightarrow> bj_EstimatedCost job | Some a \<Rightarrow> a) = h"

lemma built:
  "holdsFor job key h \<Longrightarrow> buildBatchImageHoldCommand job rid actual hash =
     Inr \<lparr>bh_RequestID = rid, bh_APIKeyID = key, bh_RequestFingerprint = [], bh_RequestPayloadHash = TrimSpace hash,
       bh_UserID = bj_UserID job, bh_BatchID = bj_BatchID job, bh_HoldAmount = h, bh_ActualAmount = (if actual < 0 then 0 else actual)\<rparr>"
  by (auto simp: holdsFor_def buildBatchImageHoldCommand_def Let_def split: option.splits)

lemma plain_job: "holdsFor job key h \<Longrightarrow> plainText (bj_BatchID job) \<and> 0 < h"
  by (simp add: holdsFor_def)

lemma hold_ids:
  assumes "plainText b"
  shows "TrimSpace (BatchImageHoldRequestID b) = BatchImageHoldRequestID b" "TrimSpace (BatchImageReleaseRequestID b) = BatchImageReleaseRequestID b"
    "TrimSpace (BatchImageCaptureRequestID b) = BatchImageCaptureRequestID b" "TrimSpace b = b"
    "BatchImageHoldRequestID b \<noteq> []" "BatchImageReleaseRequestID b \<noteq> []" "BatchImageCaptureRequestID b \<noteq> []"
    "BatchImageHoldRequestID b \<noteq> BatchImageReleaseRequestID b" "BatchImageReleaseRequestID b \<noteq> BatchImageHoldRequestID b"
    "BatchImageHoldRequestID b \<noteq> BatchImageCaptureRequestID b" "BatchImageCaptureRequestID b \<noteq> BatchImageHoldRequestID b"
    "BatchImageReleaseRequestID b \<noteq> BatchImageCaptureRequestID b" "BatchImageCaptureRequestID b \<noteq> BatchImageReleaseRequestID b"
  using plain_ids [OF assms] by simp_all

lemmas hold_simps = exec_holdCall underClaim_fresh exec_updateWallet walletOf_setWallet hitOr_def holdResult_def exec_andThen
  built hold_ids exec_claimExists

lemma reserve_fresh:
  assumes "holdsFor job key h" "fault e = Works" "\<not> claimed s (BatchImageHoldRequestID (bj_BatchID job)) key"
    "walletOf s (bj_UserID job) = Some u" "h \<le> wu_Balance u"
  shows "fst (exec e (reserveBatchImageBalanceHold lib job hash) s) = None"
    "walletOf (snd (exec e (reserveBatchImageBalanceHold lib job hash) s)) (bj_UserID job) = Some (u\<lparr>wu_Balance := decimals 8 (wu_Balance u - h), wu_Frozen := decimals 8 (wu_Frozen u + h)\<rparr>)"
    "claimed (snd (exec e (reserveBatchImageBalanceHold lib job hash) s)) x k \<longleftrightarrow> claimed s x k \<or> x = BatchImageHoldRequestID (bj_BatchID job) \<and> k = key"
  using assms plain_job [OF assms(1)]
  by (auto simp: reserveBatchImageBalanceHold_def ReserveBatchImageBalance_def reserveUsageBillingBatchImageBalance_def hold_simps)

lemma release_held:
  assumes "holdsFor job key h" "fault e = Works" "\<not> claimed s (BatchImageReleaseRequestID (bj_BatchID job)) key"
    "claimed s (BatchImageHoldRequestID (bj_BatchID job)) key" "walletOf s (bj_UserID job) = Some u" "h \<le> wu_Frozen u"
  shows "fst (exec e (releaseBatchImageBalanceHold lib job hash) s) = None"
    "walletOf (snd (exec e (releaseBatchImageBalanceHold lib job hash) s)) (bj_UserID job) = Some (u\<lparr>wu_Balance := decimals 8 (wu_Balance u + h), wu_Frozen := decimals 8 (wu_Frozen u - h)\<rparr>)"
    "claimed (snd (exec e (releaseBatchImageBalanceHold lib job hash) s)) x k \<longleftrightarrow> claimed s x k \<or> x = BatchImageReleaseRequestID (bj_BatchID job) \<and> k = key"
  using assms plain_job [OF assms(1)]
  by (auto simp: releaseBatchImageBalanceHold_def ReleaseBatchImageBalance_def releaseUsageBillingBatchImageBalance_def hold_simps)

lemma release_refused:
  assumes "holdsFor job key h" "fault e = Works" "\<not> claimed s (BatchImageReleaseRequestID (bj_BatchID job)) key"
    "claimed s (BatchImageHoldRequestID (bj_BatchID job)) key" "walletOf s (bj_UserID job) = Some u" "\<not> h \<le> wu_Frozen u"
  shows "fst (exec e (releaseBatchImageBalanceHold lib job hash) s) \<noteq> None \<and>
    snd (exec e (releaseBatchImageBalanceHold lib job hash) s) = s"
  using assms plain_job [OF assms(1)]
  by (auto simp: releaseBatchImageBalanceHold_def ReleaseBatchImageBalance_def releaseUsageBillingBatchImageBalance_def hold_simps
    userExistsForBilling_def sql_def refuse_def yields_def)

lemma capture_held:
  assumes "holdsFor job key h" "fault e = Works" "\<not> claimed s (BatchImageCaptureRequestID (bj_BatchID job)) key"
    "walletOf s (bj_UserID job) = Some u" "h \<le> wu_Frozen u" "0 \<le> cost" "cost \<le> h"
  shows "fst (exec e (captureBatchImageBalanceHold lib job cost hash) s) = None"
    "walletOf (snd (exec e (captureBatchImageBalanceHold lib job cost hash) s)) (bj_UserID job) = Some (u\<lparr>wu_Balance := decimals 8 (wu_Balance u + (h - cost)), wu_Frozen := decimals 8 (wu_Frozen u - h)\<rparr>)"
    "claimed (snd (exec e (captureBatchImageBalanceHold lib job cost hash) s)) x k \<longleftrightarrow> claimed s x k \<or> x = BatchImageCaptureRequestID (bj_BatchID job) \<and> k = key"
  using assms plain_job [OF assms(1)]
  by (auto simp: captureBatchImageBalanceHold_def CaptureBatchImageBalance_def captureUsageBillingBatchImageBalance_def hold_simps)

text \<open>A release of a batch that never held anything takes the claim and leaves the wallet alone.\<close>

lemma release_unheld:
  assumes "holdsFor job key h" "fault e = Works" "\<not> claimed s (BatchImageReleaseRequestID (bj_BatchID job)) key"
    "\<not> claimed s (BatchImageHoldRequestID (bj_BatchID job)) key"
  shows "fst (exec e (releaseBatchImageBalanceHold lib job hash) s) = None"
    "walletOf (snd (exec e (releaseBatchImageBalanceHold lib job hash) s)) (bj_UserID job) = walletOf s (bj_UserID job)"
    "claimed (snd (exec e (releaseBatchImageBalanceHold lib job hash) s)) x k \<longleftrightarrow> claimed s x k \<or> x = BatchImageReleaseRequestID (bj_BatchID job) \<and> k = key"
  using assms plain_job [OF assms(1)]
  by (auto simp: releaseBatchImageBalanceHold_def ReleaseBatchImageBalance_def releaseUsageBillingBatchImageBalance_def hold_simps)

lemma release_again:
  assumes "holdsFor job key h" "claimed s (BatchImageReleaseRequestID (bj_BatchID job)) key"
  shows "snd (exec e (releaseBatchImageBalanceHold lib job hash) s) = s"
  using assms underClaim_claimed [OF assms(2), of e emptyHold] plain_job [OF assms(1)]
  by (simp add: releaseBatchImageBalanceHold_def ReleaseBatchImageBalance_def hold_simps split_def)

text \<open>An example: a batch of user 1 that holds two of the five he has.\<close>

definition holdJob :: BatchImageJob where
  "holdJob = \<lparr>bj_BatchID = ''imgbatch_0'', bj_UserID = 1, bj_APIKeyID = Some 3, bj_EstimatedCost = 2, bj_HoldAmount = None, bj_RequestHash = []\<rparr>"

definition heldTables :: "rat \<Rightarrow> billDB" where
  "heldTables frozen = billTables\<lparr>wallets := [(walletRowOf 1 5 2)\<lparr>wu_Frozen := frozen\<rparr>],
     dedup := [\<lparr>dd_RequestID = ''batch_image_hold:imgbatch_0'', dd_APIKeyID = 3, dd_Fingerprint = [], dd_CreatedAt = 0\<rparr>]\<rparr>"

lemma example_facts:
  "holdsFor holdJob 3 2" "fault (billWorld f) = f" "bj_UserID holdJob = 1"
  "\<not> claimed billTables (BatchImageHoldRequestID (bj_BatchID holdJob)) 3"
  "\<not> claimed billTables (BatchImageReleaseRequestID (bj_BatchID holdJob)) 3"
  "walletOf billTables (bj_UserID holdJob) = Some (walletRowOf 1 5 2)"
  "\<not> claimed (heldTables q) (BatchImageCaptureRequestID (bj_BatchID holdJob)) 3"
  "\<not> claimed (heldTables q) (BatchImageReleaseRequestID (bj_BatchID holdJob)) 3"
  "claimed (heldTables q) (BatchImageHoldRequestID (bj_BatchID holdJob)) 3"
  "walletOf (heldTables q) (bj_UserID holdJob) = Some ((walletRowOf 1 5 2)\<lparr>wu_Frozen := q\<rparr>)"
proof -
  have "plainText (bj_BatchID holdJob)" by code_simp
  from plain_ids(1-3) [OF this] show "holdsFor holdJob 3 2" "fault (billWorld f) = f" "bj_UserID holdJob = 1"
    "\<not> claimed billTables (BatchImageHoldRequestID (bj_BatchID holdJob)) 3"
    "\<not> claimed billTables (BatchImageReleaseRequestID (bj_BatchID holdJob)) 3"
    "walletOf billTables (bj_UserID holdJob) = Some (walletRowOf 1 5 2)"
    "\<not> claimed (heldTables q) (BatchImageCaptureRequestID (bj_BatchID holdJob)) 3"
    "\<not> claimed (heldTables q) (BatchImageReleaseRequestID (bj_BatchID holdJob)) 3"
    "claimed (heldTables q) (BatchImageHoldRequestID (bj_BatchID holdJob)) 3"
    "walletOf (heldTables q) (bj_UserID holdJob) = Some ((walletRowOf 1 5 2)\<lparr>wu_Frozen := q\<rparr>)"
    using \<open>plainText (bj_BatchID holdJob)\<close>
    by (simp_all add: holdsFor_def claimed_def hasKey_def heldTables_def billTables_def walletOf_def walletRowOf_def billWorld_def holdJob_def)
qed

lemma example_amounts: "hasDecimals 8 1" "hasDecimals 8 2" "hasDecimals 8 4" "hasDecimals 8 5" "hasDecimals 8 9"
  by code_simp+

section \<open>Orders of calls\<close>

lemma decimals_back: "hasDecimals 8 q \<Longrightarrow> \<bar>decimals 8 (decimals 8 (q + d) - d) - q\<bar> \<le> 1 / 10 ^ 8"
  using decimals_error [of 8 "q + d"] decimals_error [of 8 "decimals 8 (q + d) - d"] by linarith

text \<open>
  (C23) A hold and its release cancel out: when the wallet covers a batch's hold, reserving it succeeds, and releasing it afterwards succeeds
  too and leaves the wallet exactly as it was if the hold has at most eight decimals, which is what the columns of the
  wallet store. A hold with more decimals, as its own column allows, is given back within a unit of the eighth decimal, unless rounding has
  left less frozen than the hold: then the release is refused and the hold stays.
\<close>

theorem hold_roundtrip:
  assumes "holdsFor job key h" "fault e = Works" "fault e' = Works"
    "\<not> claimed s (BatchImageHoldRequestID (bj_BatchID job)) key" "\<not> claimed s (BatchImageReleaseRequestID (bj_BatchID job)) key"
    "walletOf s (bj_UserID job) = Some u" "h \<le> wu_Balance u" "0 \<le> wu_Frozen u"
    "hasDecimals 8 (wu_Balance u)" "hasDecimals 8 (wu_Frozen u)"
    "exec e (reserveBatchImageBalanceHold lib job hash) s = (r, t)" "exec e' (releaseBatchImageBalanceHold lib job hash') t = (r', t')"
  shows "r = None \<and> (hasDecimals 8 h \<longrightarrow> r' = None \<and> walletOf t' (bj_UserID job) = Some u) \<and>
    (if h \<le> decimals 8 (wu_Frozen u + h)
     then r' = None \<and> (\<exists>balance frozen. walletOf t' (bj_UserID job) = Some (u\<lparr>wu_Balance := balance, wu_Frozen := frozen\<rparr>) \<and>
       \<bar>balance - wu_Balance u\<bar> \<le> 1 / 10 ^ 8 \<and> \<bar>frozen - wu_Frozen u\<bar> \<le> 1 / 10 ^ 8)
     else r' \<noteq> None \<and> t' = t)"
proof -
  let ?v = "u\<lparr>wu_Balance := decimals 8 (wu_Balance u - h), wu_Frozen := decimals 8 (wu_Frozen u + h)\<rparr>"
  note taken = reserve_fresh [OF assms(1,2,4,6,7), of lib hash, unfolded assms(11) fst_conv snd_conv]
  have c: "claimed t (BatchImageHoldRequestID (bj_BatchID job)) key" "\<not> claimed t (BatchImageReleaseRequestID (bj_BatchID job)) key"
    using taken(3) assms(5) hold_ids(9) plain_job [OF assms(1)] by simp_all
  have exact: "decimals 8 (wu_Balance u - h) = wu_Balance u - h \<and> decimals 8 (wu_Frozen u + h) = wu_Frozen u + h" if "hasDecimals 8 h"
    using assms(9,10) that decimals_id [of 8 "wu_Balance u - h"] decimals_id [of 8 "wu_Frozen u + h"] by blast
  show ?thesis
  proof (cases "h \<le> decimals 8 (wu_Frozen u + h)")
    case True
    then have "h \<le> wu_Frozen ?v" by simp
    note given = release_held [OF assms(1,3) c(2,1) taken(2) this, of lib hash', unfolded assms(12) fst_conv snd_conv]
    have "u = u\<lparr>wu_Balance := wu_Balance u, wu_Frozen := wu_Frozen u\<rparr>" by simp
    then have "walletOf t' (bj_UserID job) = Some u" if "hasDecimals 8 h"
      using given(2) exact [OF that] assms(9,10) by simp
    moreover have "\<bar>decimals 8 (decimals 8 (wu_Balance u - h) + h) - wu_Balance u\<bar> \<le> 1 / 10 ^ 8"
      "\<bar>decimals 8 (decimals 8 (wu_Frozen u + h) - h) - wu_Frozen u\<bar> \<le> 1 / 10 ^ 8"
      using decimals_back [OF assms(9), of "- h"] decimals_back [OF assms(10), of h] by simp_all
    ultimately show ?thesis using True taken(1) given(1,2) by auto
  next
    case False
    then have "\<not> hasDecimals 8 h" using exact assms(8) by auto
    from False have "\<not> h \<le> wu_Frozen ?v" by simp
    from release_refused [OF assms(1,3) c(2,1) taken(2) this, of lib hash'] False \<open>\<not> hasDecimals 8 h\<close> taken(1) show ?thesis
      by (simp add: assms(12))
  qed
qed

lemma hold_roundtrip_witness:
  "let t = snd (exec (billWorld Works) (reserveBatchImageBalanceHold billLib holdJob ''h'') billTables) in
   walletOf (snd (exec (billWorld Works) (releaseBatchImageBalanceHold billLib holdJob ''h'') t)) 1 = Some (walletRowOf 1 5 2)"
proof -
  have "(2::rat) \<le> wu_Balance (walletRowOf 1 5 2)" "0 \<le> wu_Frozen (walletRowOf 1 5 2)" "hasDecimals 8 (wu_Balance (walletRowOf 1 5 2))"
    "hasDecimals 8 (wu_Frozen (walletRowOf 1 5 2))"
    using example_amounts by (simp_all add: walletRowOf_def)
  from hold_roundtrip [OF example_facts(1,2,2,4,5,6) this prod.collapse [symmetric] prod.collapse [symmetric]] example_amounts(2)
  show ?thesis by (simp add: example_facts)
qed

text \<open>
  (C32) A release asks whether the batch was ever held, not whether the hold was captured: released after its capture, the hold is paid out
  a second time, from whatever else the user has frozen.
\<close>

theorem captured_hold_released:
  assumes "holdsFor job key h" "fault e = Works"
    "\<not> claimed s (BatchImageCaptureRequestID (bj_BatchID job)) key" "\<not> claimed s (BatchImageReleaseRequestID (bj_BatchID job)) key"
    "claimed s (BatchImageHoldRequestID (bj_BatchID job)) key"
    "walletOf s (bj_UserID job) = Some u" "0 \<le> cost" "cost \<le> h" "2 * h \<le> wu_Frozen u"
    "hasDecimals 8 h" "hasDecimals 8 cost" "hasDecimals 8 (wu_Balance u)" "hasDecimals 8 (wu_Frozen u)"
    "exec e (captureBatchImageBalanceHold lib job cost hash) s = (r, t)" "exec e (releaseBatchImageBalanceHold lib job hash') t = (r', t')"
  shows "r = None \<and> r' = None \<and> walletOf t' (bj_UserID job) =
    Some (u\<lparr>wu_Balance := wu_Balance u + (h - cost) + h, wu_Frozen := wu_Frozen u - h - h\<rparr>)"
proof -
  have d: "hasDecimals 8 (wu_Balance u + (h - cost))" "hasDecimals 8 (wu_Frozen u - h)" using assms(10-13) by blast+
  then have d2: "hasDecimals 8 (wu_Balance u + (h - cost) + h)" "hasDecimals 8 (wu_Frozen u - h - h)" using assms(10) by blast+
  have frozen: "h \<le> wu_Frozen u" "h \<le> wu_Frozen u - h" using assms(9) plain_job [OF assms(1)] by linarith+
  note taken = capture_held [OF assms(1,2,3,6) frozen(1) assms(7,8), of lib hash, unfolded assms(14) fst_conv snd_conv]
  have w: "walletOf t (bj_UserID job) = Some (u\<lparr>wu_Balance := wu_Balance u + (h - cost), wu_Frozen := wu_Frozen u - h\<rparr>)"
    using taken(2) d by simp
  have c: "claimed t (BatchImageHoldRequestID (bj_BatchID job)) key" "\<not> claimed t (BatchImageReleaseRequestID (bj_BatchID job)) key"
    using taken(3) assms(4,5) hold_ids(12) plain_job [OF assms(1)] by simp_all
  have "h \<le> wu_Frozen (u\<lparr>wu_Balance := wu_Balance u + (h - cost), wu_Frozen := wu_Frozen u - h\<rparr>)" using frozen(2) by simp
  note given = release_held [OF assms(1,2) c(2,1) w this, of lib hash', unfolded assms(15) fst_conv snd_conv]
  show ?thesis using taken(1) given(1,2) d2 by simp
qed

lemma captured_hold_released_witness:
  "let t = snd (exec (billWorld Works) (captureBatchImageBalanceHold billLib holdJob 1 ''m'') (heldTables 4)) in
   walletOf (snd (exec (billWorld Works) (releaseBatchImageBalanceHold billLib holdJob ''h'') t)) 1 = Some (walletRowOf 1 8 2)"
proof -
  have "2 * (2::rat) \<le> wu_Frozen ((walletRowOf 1 5 2)\<lparr>wu_Frozen := 4\<rparr>)" "hasDecimals 8 (wu_Balance ((walletRowOf 1 5 2)\<lparr>wu_Frozen := 4\<rparr>))"
    "hasDecimals 8 (wu_Frozen ((walletRowOf 1 5 2)\<lparr>wu_Frozen := 4\<rparr>))" "(0::rat) \<le> 1" "(1::rat) \<le> 2"
    using example_amounts by (simp_all add: walletRowOf_def)
  from captured_hold_released [OF example_facts(1,2,7,8,9,10) this(4,5,1) example_amounts(2,1) this(2,3)
      prod.collapse [symmetric] prod.collapse [symmetric]]
  show ?thesis by (simp add: example_facts walletRowOf_def)
qed

text \<open>
  (C31) A release that comes before its hold spends the only release there is: the hold that follows succeeds, and from then on no release
  of the batch, under whatever fault, gives it back.
\<close>

theorem early_release_strands_hold:
  assumes "holdsFor job key h" "fault e = Works"
    "\<not> claimed s (BatchImageHoldRequestID (bj_BatchID job)) key" "\<not> claimed s (BatchImageReleaseRequestID (bj_BatchID job)) key"
    "walletOf s (bj_UserID job) = Some u" "h \<le> wu_Balance u"
    "t = snd (exec e (releaseBatchImageBalanceHold lib job hash) s)" "exec e (reserveBatchImageBalanceHold lib job hash') t = (r, t')"
    "list_all (arrives billingOperation) evs" "t'' = snd (foldl poolStep ([], t') evs)"
  shows "r = None \<and> walletOf t' (bj_UserID job) = Some (u\<lparr>wu_Balance := decimals 8 (wu_Balance u - h),
      wu_Frozen := decimals 8 (wu_Frozen u + h)\<rparr>) \<and> snd (exec e' (releaseBatchImageBalanceHold lib job hash'') t'') = t''"
proof -
  note early = release_unheld [OF assms(1,2,4,3), of lib hash, folded assms(7)]
  have c: "\<not> claimed t (BatchImageHoldRequestID (bj_BatchID job)) key" and w: "walletOf t (bj_UserID job) = Some u"
    using early(2,3) assms(3,5) hold_ids(8) plain_job [OF assms(1)] by simp_all
  note taken = reserve_fresh [OF assms(1,2) c w assms(6), of lib hash', unfolded assms(8) fst_conv snd_conv]
  have "claimed t' (BatchImageReleaseRequestID (bj_BatchID job)) key" using early(3) taken(3) by simp
  then have "claimed t'' (BatchImageReleaseRequestID (bj_BatchID job)) key"
    using billing_run [OF assms(9), of t'] assms(10) by (simp add: booksOn_def)
  with taken(1,2) release_again [OF assms(1)] show ?thesis by simp
qed

lemma early_release_strands_hold_witness:
  "let t = snd (exec (billWorld Works) (releaseBatchImageBalanceHold billLib holdJob ''h'') billTables);
     t' = snd (exec (billWorld Works) (reserveBatchImageBalanceHold billLib holdJob ''h'') t) in
   snd (exec (billWorld Works) (releaseBatchImageBalanceHold billLib holdJob ''h'') t') = t'"
proof -
  have "(2::rat) \<le> wu_Balance (walletRowOf 1 5 2)" "list_all (arrives billingOperation) []" by (simp_all add: walletRowOf_def)
  from early_release_strands_hold [OF example_facts(1,2,4,5,6) this(1) refl prod.collapse [symmetric] this(2) refl]
  show ?thesis by (simp only: Let_def foldl.simps snd_conv)
qed

section \<open>The ledger of a commission\<close>

text \<open>
  The ledger entry of a private group's commission claims a balance of nothing after it when the charge overdraws the wallet, though
  the wallet itself is below zero.
\<close>

theorem commission_overdraft_hidden:
  assumes "fault e = Works" "walletOf s (cm_UserID cmd) = Some u" "0 < cm_UserID cmd" "0 < cm_PrivateGroupCommissionCost cmd"
    "wu_Balance u < cm_PrivateGroupCommissionCost cmd" "hasDecimals 8 (wu_Balance u)" "hasDecimals 8 (cm_PrivateGroupCommissionCost cmd)"
    "\<not> list_ex (\<lambda>c. ce_RefID c = Some logID) (balanceLedger s)" "exec e (chargeCommission cmd logID result) s = (r, t)"
  shows "\<exists>v. walletOf t (cm_UserID cmd) = Some v \<and> wu_Balance v < 0 \<and> ce_Reason (last (balanceLedger t)) = ''private_group_commission'' \<and>
    ce_BalanceAfter (last (balanceLedger t)) = 0"
proof -
  let ?c = "cm_PrivateGroupCommissionCost cmd"
  have "hasDecimals 8 (wu_Balance u - ?c)" using assms(6,7) by blast
  then have d: "decimals 8 (wu_Balance u - ?c) = wu_Balance u - ?c" by simp
  have fresh: "ce_RefID x = nullablePositiveInt64 logID \<Longrightarrow> \<not> list_ex (sameRef x) (balanceLedger s)" for x
    using assms(8) by (auto simp: list_ex_iff sameRef_def nullablePositiveInt64_def split: if_splits)
  have l: "balanceLedger (setWallet s i f) = balanceLedger s" for i f by (simp add: setWallet_def)
  have w: "walletOf (w\<lparr>balanceLedger := l\<rparr>) i = walletOf w i" for w l i by (simp add: walletOf_def)
  show ?thesis
    using assms(1-5,9) d decimals_nonneg [of ?c 10]
    by (auto simp: chargeCommission_def deductUsageBillingBalance_def exec_updateWallet walletOf_setWallet debit_def debitEntry_def l w
        insertUserBalanceLedger_def addEntry_def fresh decimalFromFloat_def split: if_splits)
qed

lemma commission_overdraft_hidden_witness:
  "let cmd = (billCommand ''r'' 0)\<lparr>cm_PrivateGroupCommissionCost := 9\<rparr>; t = snd (exec (billWorld Works) (chargeCommission cmd 1 emptyResult) billTables) in
   \<exists>v. walletOf t 1 = Some v \<and> wu_Balance v < 0 \<and> ce_Reason (last (balanceLedger t)) = ''private_group_commission'' \<and>
     ce_BalanceAfter (last (balanceLedger t)) = 0"
  using commission_overdraft_hidden [of "billWorld Works" billTables "(billCommand ''r'' 0)\<lparr>cm_PrivateGroupCommissionCost := 9\<rparr>" "walletRowOf 1 5 2"
      1 emptyResult, OF _ _ _ _ _ _ _ _ prod.collapse [symmetric]] example_amounts example_facts(6)
  by (simp add: billCommand_def walletRowOf_def billWorld_def billTables_def holdJob_def)

end
