(* ===== verification/ModelNames.thy ===== *)
theory ModelNames
  imports Subscriptions
begin

text \<open>
  The spellings of OpenAI model names: \<^verbatim>\<open>service/openai_model_alias.go\<close> and the name tables of
  \<^verbatim>\<open>service/openai_codex_transform.go\<close>. \<^verbatim>\<open>strings.Contains(s, t)\<close> is \<^term>\<open>sublist t s\<close>.
\<close>

section \<open>Strings\<close>

text \<open>\<^verbatim>\<open>strings.Fields\<close>: the words between the spaces.\<close>

fun firstField :: "string \<Rightarrow> string" where
  "firstField [] = []"
| "firstField (x # xs) = (if list_ex (\<lambda>w. prefix w (x # xs)) go_spaces then [] else x # firstField xs)"

lemma length_trim_words: "length (trim_words ws s) \<le> length s"
proof (induction ws s rule: trim_words.induct)
  case (1 ws s)
  then show ?case by (subst trim_words.simps) (fastforce split: option.split)
qed

function Fields :: "string \<Rightarrow> string list" where
  "Fields s = (case firstField (trim_words go_spaces s) of
       [] \<Rightarrow> []
     | w \<Rightarrow> w # Fields (drop (length w) (trim_words go_spaces s)))"
  by pat_completeness auto
termination
proof (relation "measure length", goal_cases)
  case (2 s x xs)
  then have "trim_words go_spaces s \<noteq> []" by (cases "trim_words go_spaces s") auto
  with length_trim_words [of go_spaces s] show ?case by (cases "trim_words go_spaces s") auto
qed simp

declare Fields.simps [simp del]

fun joinDash :: "string list \<Rightarrow> string" where
  "joinDash [] = []"
| "joinDash [x] = x"
| "joinDash (x # y # ys) = x @ ''-'' @ joinDash (y # ys)"

lemma replace_all_hit: "old \<noteq> [] \<Longrightarrow> replace_all old new (old @ r) = new @ replace_all old new r"
  by (cases "old @ r") (auto simp: prefix_def simp del: append_Cons dest: sym)

lemma length_replace_all: "length new \<le> length old \<Longrightarrow> length (replace_all old new s) \<le> length s"
proof (induction old new s rule: replace_all.induct)
  case (2 old new x xs)
  show ?case
  proof (cases "old \<noteq> [] \<and> prefix old (x # xs)")
    case True
    then obtain r where r: "x # xs = old @ r" by (auto simp: prefix_def)
    then have "drop (length old) (x # xs) = r" by simp
    then have "length (replace_all old new r) \<le> length r" using "2.IH"(1) [OF True] "2.prems" by simp
    moreover have "length (x # xs) = length old + length r" by (simp only: r length_append)
    moreover have "replace_all old new (x # xs) = new @ replace_all old new r" unfolding r using True by (intro replace_all_hit) simp
    ultimately show ?thesis using "2.prems" by simp
  next
    case False
    with "2.IH"(2) "2.prems" show ?thesis by auto
  qed
qed simp

lemma replace_all_shrinks:
  "length new < length old \<Longrightarrow> sublist old s \<Longrightarrow> length (replace_all old new s) < length s"
proof (induction old new s rule: replace_all.induct)
  case (1 old new)
  then show ?case by (simp add: sublist_def)
next
  case (2 old new x xs)
  show ?case
  proof (cases "prefix old (x # xs)")
    case True
    then obtain r where r: "x # xs = old @ r" by (auto simp: prefix_def)
    have "old \<noteq> []" using "2.prems"(1) by auto
    moreover have "length (replace_all old new r) \<le> length r" by (rule length_replace_all) (use "2.prems"(1) in simp)
    moreover have "length (x # xs) = length old + length r" by (simp only: r length_append)
    moreover have "replace_all old new (x # xs) = new @ replace_all old new r" unfolding r using \<open>old \<noteq> []\<close> by (rule replace_all_hit)
    ultimately show ?thesis using "2.prems"(1) by simp
  next
    case False
    then have "sublist old xs" using "2.prems"(2) by (simp add: sublist_Cons_right)
    with False "2.prems"(1) "2.IH"(2) show ?thesis by auto
  qed
qed

text \<open>Every round replaces pairs from left to right; rounds are repeated while a pair is left.\<close>

function collapseDashes :: "string \<Rightarrow> string" where
  "collapseDashes s = (if sublist ''--'' s then collapseDashes (replace_all ''--'' ''-'' s) else s)"
  by pat_completeness auto
termination
  by (relation "measure length") (simp_all add: replace_all_shrinks)

declare collapseDashes.simps [simp del]

section \<open>Aliases\<close>

definition lastOpenAIModelSegment :: "string \<Rightarrow> string" where
  "lastOpenAIModelSegment model =
     (let m = TrimSpace model in if m = [] then [] else TrimSpace (if sublist ''/'' m then last (split_byte (CHR ''/'') m) else m))"

definition aliasReplacements :: "(string \<times> string) list" where
  "aliasReplacements =
    [(''gpt-5.4mini'', ''gpt-5.4-mini''), (''gpt-5.4nano'', ''gpt-5.4-nano''), (''gpt-5.3-codexspark'', ''gpt-5.3-codex-spark''),
     (''gpt-5.3codexspark'', ''gpt-5.3-codex-spark''), (''gpt-5.3codex'', ''gpt-5.3-codex'')]"

definition canonicalizeOpenAIModelAliasSpelling :: "string \<Rightarrow> string" where
  "canonicalizeOpenAIModelAliasSpelling model0 =
     (let model = ToLower (lastOpenAIModelSegment model0) in
      if model = [] then []
      else let n1 = collapseDashes (joinDash (Fields (replace_all ''_'' ''-'' model)));
               n2 = (if prefix ''gpt5'' n1 then ''gpt-5'' @ drop 4 n1 else n1)
           in if \<not> prefix ''gpt-'' n2 \<and> \<not> sublist ''codex'' n2 then []
              else foldl (\<lambda>n (old, new). replace_all old new n) n2 aliasReplacements)"

definition codexModelLookupKey :: "string \<Rightarrow> string" where
  "codexModelLookupKey modelID =
     (let m = TrimSpace modelID in
      if m = [] then []
      else ToLower (joinDash (Fields (if sublist ''/'' m then last (split_byte (CHR ''/'') m) else m))))"

definition codexModelMap :: "(string \<times> string) list" where
  "codexModelMap =
    [(''gpt-5.6-sol'', ''gpt-5.6-sol''), (''gpt-5.6-terra'', ''gpt-5.6-terra''),
     (''gpt-5.6-luna'', ''gpt-5.6-luna''), (''gpt-5.5'', ''gpt-5.5''),
     (''gpt-5.5-pro'', ''gpt-5.5-pro''), (''gpt-5.4'', ''gpt-5.4''),
     (''gpt-5.4-mini'', ''gpt-5.4-mini''), (''gpt-5.4-none'', ''gpt-5.4''),
     (''gpt-5.4-low'', ''gpt-5.4''), (''gpt-5.4-medium'', ''gpt-5.4''),
     (''gpt-5.4-high'', ''gpt-5.4''), (''gpt-5.4-xhigh'', ''gpt-5.4''),
     (''gpt-5.4-chat-latest'', ''gpt-5.4''), (''gpt-5.3'', ''gpt-5.3-codex''),
     (''gpt-5.3-none'', ''gpt-5.3-codex''), (''gpt-5.3-low'', ''gpt-5.3-codex''),
     (''gpt-5.3-medium'', ''gpt-5.3-codex''), (''gpt-5.3-high'', ''gpt-5.3-codex''),
     (''gpt-5.3-xhigh'', ''gpt-5.3-codex''), (''gpt-5.3-codex'', ''gpt-5.3-codex''),
     (''gpt-5.3-codex-spark'', ''gpt-5.3-codex-spark''), (''gpt-5.3-codex-low'', ''gpt-5.3-codex''),
     (''gpt-5.3-codex-medium'', ''gpt-5.3-codex''), (''gpt-5.3-codex-high'', ''gpt-5.3-codex''),
     (''gpt-5.3-codex-xhigh'', ''gpt-5.3-codex''), (''gpt-5.2'', ''gpt-5.2''),
     (''gpt-5.2-none'', ''gpt-5.2''), (''gpt-5.2-low'', ''gpt-5.2''),
     (''gpt-5.2-medium'', ''gpt-5.2''), (''gpt-5.2-high'', ''gpt-5.2''),
     (''gpt-5.2-xhigh'', ''gpt-5.2''), (''gpt-5'', ''gpt-5.4''),
     (''gpt-5-mini'', ''gpt-5.4''), (''gpt-5-nano'', ''gpt-5.4''),
     (''gpt-5.1'', ''gpt-5.4''), (''gpt-5.1-codex'', ''gpt-5.3-codex''),
     (''gpt-5.1-codex-max'', ''gpt-5.3-codex''), (''gpt-5.1-codex-mini'', ''gpt-5.3-codex''),
     (''gpt-5.2-codex'', ''gpt-5.2''), (''codex-mini-latest'', ''gpt-5.3-codex''),
     (''gpt-5-codex'', ''gpt-5.3-codex''), (''codex-auto-review'', ''codex-auto-review'')]"

definition codexVersionModelPrefixes :: "(string \<times> string) list" where
  "codexVersionModelPrefixes =
    [(''gpt-5.6-sol'', ''gpt-5.6-sol''), (''gpt-5.6-terra'', ''gpt-5.6-terra''),
     (''gpt-5.6-luna'', ''gpt-5.6-luna''), (''gpt-5.3-codex-spark'', ''gpt-5.3-codex-spark''),
     (''gpt-5.3-codex'', ''gpt-5.3-codex''), (''gpt-5.4-mini'', ''gpt-5.4-mini''),
     (''gpt-5.4-nano'', ''gpt-5.4-nano''), (''gpt-5.5-pro'', ''gpt-5.5-pro''),
     (''gpt-5.5'', ''gpt-5.5''), (''gpt-5.4'', ''gpt-5.4''),
     (''gpt-5.2'', ''gpt-5.2'')]"

definition getNormalizedCodexModel :: "string \<Rightarrow> string" where
  "getNormalizedCodexModel modelID =
     (let key = codexModelLookupKey modelID in
      if key = [] then [] else case map_of codexModelMap key of Some mapped \<Rightarrow> mapped | None \<Rightarrow> [])"

definition isCodexDateSuffix :: "string \<Rightarrow> bool" where
  "isCodexDateSuffix sfx = (case split_byte (CHR ''-'') sfx of
       [y, m, d] \<Rightarrow> length y = 4 \<and> length m = 2 \<and> length d = 2 \<and> list_all (\<lambda>c. digit_value c \<noteq> None) (y @ m @ d)
     | _ \<Rightarrow> False)"

definition isKnownCodexModelSuffix :: "string \<Rightarrow> bool" where
  "isKnownCodexModelSuffix sfx \<longleftrightarrow>
     sfx \<in> set [''none'', ''minimal'', ''low'', ''medium'', ''high'', ''xhigh''] \<or> isCodexDateSuffix sfx"

definition compactSuffix :: string where "compactSuffix = ''-openai-compact''"

definition familyOf :: "string \<Rightarrow> string" where
  "familyOf n =
     (if sublist ''gpt-5.6-sol'' n then ''gpt-5.6-sol''
      else if sublist ''gpt-5.6-terra'' n then ''gpt-5.6-terra''
      else if sublist ''gpt-5.6-luna'' n then ''gpt-5.6-luna''
      else if n = ''gpt-5.6'' then ''gpt-5.6-sol''
      else if prefix ''gpt-5.6-'' n then
        (if drop 8 n = ''max'' \<or> isKnownCodexModelSuffix (drop 8 n) then ''gpt-5.6-sol'' else [])
      else if sublist ''gpt-5.5-pro'' n then ''gpt-5.5-pro''
      else if sublist ''gpt-5.5'' n then ''gpt-5.5''
      else if sublist ''gpt-5.4-mini'' n then ''gpt-5.4-mini''
      else if sublist ''gpt-5.4-nano'' n then ''gpt-5.4-nano''
      else if sublist ''gpt-5.4'' n then ''gpt-5.4''
      else if sublist ''gpt-5.2'' n then ''gpt-5.2''
      else if sublist ''gpt-5.3-codex-spark'' n then ''gpt-5.3-codex-spark''
      else if sublist ''gpt-5.3-codex'' n then ''gpt-5.3-codex''
      else if sublist ''gpt-5.3'' n then ''gpt-5.3-codex''
      else if sublist ''codex'' n then ''gpt-5.3-codex''
      else if sublist ''gpt-5'' n then ''gpt-5.4''
      else [])"

definition normalizeKnownOpenAICodexModel :: "string \<Rightarrow> string" where
  "normalizeKnownOpenAICodexModel model =
     (let n = canonicalizeOpenAIModelAliasSpelling model in
      if n = [] then []
      else if getNormalizedCodexModel n \<noteq> [] then getNormalizedCodexModel n
      else if suffix compactSuffix n \<and> getNormalizedCodexModel (take (length n - length compactSuffix) n) \<noteq> []
      then getNormalizedCodexModel (take (length n - length compactSuffix) n)
      else familyOf n)"

text \<open>The native image models.\<close>

definition IsGPTImageGenerationModel :: "string \<Rightarrow> bool" where
  "IsGPTImageGenerationModel model = prefix ''gpt-image-'' (ToLower (TrimSpace model))"

definition isGrokImageGenerationModel :: "string \<Rightarrow> bool" where
  "isGrokImageGenerationModel model0 =
     (let model = ToLower (TrimSpace model0) in model = ''grok-imagine'' \<or> model = ''grok-imagine-edit'' \<or> prefix ''grok-imagine-image'' model)"

definition isOpenAIImageGenerationModel :: "string \<Rightarrow> bool" where
  "isOpenAIImageGenerationModel model \<longleftrightarrow> IsGPTImageGenerationModel model \<or> isGrokImageGenerationModel model"

fun versionTarget :: "string \<Rightarrow> (string \<times> string) list \<Rightarrow> string option" where
  "versionTarget key [] = None"
| "versionTarget key ((p, target) # rest) =
     (if key = p \<or> prefix (p @ ''-'') key \<and> isKnownCodexModelSuffix (drop (length p + 1) key) then Some target
      else versionTarget key rest)"

definition normalizeKnownCodexModel :: "string \<Rightarrow> string option" where
  "normalizeKnownCodexModel model0 =
     (let model = TrimSpace model0 in
      if model = [] then None
      else if isOpenAIImageGenerationModel model then Some model
      else
        let segment = lastOpenAIModelSegment model; canonical = canonicalizeOpenAIModelAliasSpelling segment;
            modelID = (if canonical \<noteq> [] then canonical else segment)
        in if normalizeKnownOpenAICodexModel modelID \<noteq> [] then Some (normalizeKnownOpenAICodexModel modelID)
           else let key = codexModelLookupKey modelID in
             if key = [] then None
             else if getNormalizedCodexModel key \<noteq> [] then Some (getNormalizedCodexModel key)
             else versionTarget key codexVersionModelPrefixes)"

definition normalizeCodexModel :: "string \<Rightarrow> string" where
  "normalizeCodexModel model0 =
     (let model = TrimSpace model0 in
      if model = [] then ''gpt-5.4'' else case normalizeKnownCodexModel model of Some mapped \<Rightarrow> mapped | None \<Rightarrow> model)"

section \<open>Families with prices of their own\<close>

definition isOpenAIGPT56Model :: "string \<Rightarrow> bool" where
  "isOpenAIGPT56Model model =
     (let n = canonicalizeOpenAIModelAliasSpelling model in
      n = ''gpt-5.6'' \<or> prefix ''gpt-5.6-'' n \<and> (drop 8 n = ''max'' \<or> isKnownCodexModelSuffix (drop 8 n)) \<or>
      list_ex (\<lambda>p. n = p \<or> prefix (p @ ''-'') n) [''gpt-5.6-sol'', ''gpt-5.6-terra'', ''gpt-5.6-luna''])"

definition isOpenAIGPT54Model :: "string \<Rightarrow> bool" where
  "isOpenAIGPT54Model model =
     (let trimmed = TrimSpace (ToLower model) in
      (sublist ''gpt-5'' trimmed \<or> sublist ''codex'' trimmed) \<and>
      normalizeCodexModel trimmed \<in>
        set [''gpt-5.4'', ''gpt-5.5'', ''gpt-5.5-pro'', ''gpt-5.6-sol'', ''gpt-5.6-terra'', ''gpt-5.6-luna''])"

definition isOpenAIGPT55Model :: "string \<Rightarrow> bool" where
  "isOpenAIGPT55Model model =
     (let trimmed = TrimSpace (ToLower model) in
      sublist ''gpt-5'' trimmed \<and> normalizeCodexModel trimmed \<in> set [''gpt-5.5'', ''gpt-5.5-pro''])"

end
