(* ===== verification/ModelPrices.thy ===== *)
theory ModelPrices
  imports ModelNames
begin

text \<open>
  The prices of a model: the tables and \<^verbatim>\<open>GetModelPricing\<close> of \<^verbatim>\<open>service/billing_service.go\<close>. A price that is not set is
  zero, as in the source. The price list that is downloaded, \<^verbatim>\<open>service/pricing_service.go\<close>, is the argument \<open>dyn\<close>;
  without a pricing service it is empty. Prices are rationals.
\<close>

section \<open>Prices\<close>

record ModelPricing =
  mp_InputPricePerToken :: rat
  mp_InputPricePerTokenPriority :: rat
  mp_OutputPricePerToken :: rat
  mp_OutputPricePerTokenPriority :: rat
  mp_CacheCreationPricePerToken :: rat
  mp_CacheCreationPricePerTokenPriority :: rat
  mp_CacheCreationPriceExplicit :: bool
  mp_CacheReadPricePerToken :: rat
  mp_CacheReadPricePerTokenPriority :: rat
  mp_CacheCreation5mPrice :: rat
  mp_CacheCreation1hPrice :: rat
  mp_SupportsCacheBreakdown :: bool
  mp_LongContextInputThreshold :: int
  mp_LongContextInputMultiplier :: rat
  mp_LongContextOutputMultiplier :: rat
  mp_LongContextInputPricePerToken :: rat
  mp_LongContextInputPricePerTokenPriority :: rat
  mp_LongContextOutputPricePerToken :: rat
  mp_LongContextOutputPricePerTokenPriority :: rat
  mp_LongContextCacheCreationPricePerToken :: rat
  mp_LongContextCacheCreationPricePerTokenPriority :: rat
  mp_LongContextCacheReadPricePerToken :: rat
  mp_LongContextCacheReadPricePerTokenPriority :: rat
  mp_ImageInputPricePerToken :: rat
  mp_ImageCacheReadPricePerToken :: rat
  mp_ImageOutputPricePerToken :: rat
  mp_ImageOutputPriceExplicit :: bool

definition zeroPricing :: ModelPricing where
  "zeroPricing = \<lparr>mp_InputPricePerToken = 0, mp_InputPricePerTokenPriority = 0, mp_OutputPricePerToken = 0,
     mp_OutputPricePerTokenPriority = 0, mp_CacheCreationPricePerToken = 0, mp_CacheCreationPricePerTokenPriority = 0,
     mp_CacheCreationPriceExplicit = False, mp_CacheReadPricePerToken = 0, mp_CacheReadPricePerTokenPriority = 0,
     mp_CacheCreation5mPrice = 0, mp_CacheCreation1hPrice = 0, mp_SupportsCacheBreakdown = False,
     mp_LongContextInputThreshold = 0, mp_LongContextInputMultiplier = 0, mp_LongContextOutputMultiplier = 0,
     mp_LongContextInputPricePerToken = 0, mp_LongContextInputPricePerTokenPriority = 0,
     mp_LongContextOutputPricePerToken = 0, mp_LongContextOutputPricePerTokenPriority = 0,
     mp_LongContextCacheCreationPricePerToken = 0, mp_LongContextCacheCreationPricePerTokenPriority = 0,
     mp_LongContextCacheReadPricePerToken = 0, mp_LongContextCacheReadPricePerTokenPriority = 0,
     mp_ImageInputPricePerToken = 0, mp_ImageCacheReadPricePerToken = 0, mp_ImageOutputPricePerToken = 0,
     mp_ImageOutputPriceExplicit = False\<rparr>"

record LiteLLMModelPricing =
  ll_InputCostPerToken :: rat
  ll_InputCostPerTokenPriority :: rat
  ll_OutputCostPerToken :: rat
  ll_OutputCostPerTokenPriority :: rat
  ll_CacheCreationInputTokenCost :: rat
  ll_CacheCreationInputTokenCostPriority :: rat
  ll_CacheCreationInputTokenCostAbove1hr :: rat
  ll_CacheReadInputTokenCost :: rat
  ll_CacheReadInputTokenCostPriority :: rat
  ll_LongContextInputTokenThreshold :: int
  ll_LongContextInputCostMultiplier :: rat
  ll_LongContextOutputCostMultiplier :: rat
  ll_LongContextInputCostPerToken :: rat
  ll_LongContextInputCostPerTokenPriority :: rat
  ll_LongContextOutputCostPerToken :: rat
  ll_LongContextOutputCostPerTokenPriority :: rat
  ll_LongContextCacheCreationInputTokenCost :: rat
  ll_LongContextCacheCreationInputTokenCostPriority :: rat
  ll_LongContextCacheReadInputTokenCost :: rat
  ll_LongContextCacheReadInputTokenCostPriority :: rat
  ll_SupportsServiceTier :: bool
  ll_LiteLLMProvider :: string
  ll_Mode :: string
  ll_SupportsPromptCaching :: bool
  ll_InputCostPerImageToken :: rat
  ll_CacheReadInputImageTokenCost :: rat
  ll_OutputCostPerImage :: rat
  ll_OutputCostPerImageToken :: rat

text \<open>Dollars per million tokens.\<close>

definition mtok :: "rat \<Rightarrow> rat" where "mtok q = q / 1000000"

definition openAIGPT54LongContextInputThreshold :: int where "openAIGPT54LongContextInputThreshold = 272000"
definition openAIGPT54LongContextInputMultiplier :: rat where "openAIGPT54LongContextInputMultiplier = 2"
definition openAIGPT54LongContextOutputMultiplier :: rat where "openAIGPT54LongContextOutputMultiplier = 3 / 2"

definition deriveOneHourCacheWritePrice :: "ModelPricing option \<Rightarrow> rat \<Rightarrow> rat" where
  "deriveOneHourCacheWritePrice base fiveMinutePrice =
     (if fiveMinutePrice \<le> 0 then 0
      else case base of
          None \<Rightarrow> fiveMinutePrice * (8 / 5)
        | Some b \<Rightarrow>
            if mp_CacheCreation5mPrice b > 0 \<and> mp_CacheCreation1hPrice b > mp_CacheCreation5mPrice b
            then fiveMinutePrice * (mp_CacheCreation1hPrice b / mp_CacheCreation5mPrice b)
            else if mp_InputPricePerToken b > 0 then mp_InputPricePerToken b * 2
            else fiveMinutePrice * (8 / 5))"

definition enableFallbackCacheBreakdown :: "ModelPricing \<Rightarrow> ModelPricing" where
  "enableFallbackCacheBreakdown p =
     (if mp_CacheCreationPricePerToken p \<le> 0 then p
      else let p5 = p\<lparr>mp_CacheCreation5mPrice := mp_CacheCreationPricePerToken p\<rparr>;
               h = deriveOneHourCacheWritePrice (Some p5) (mp_CacheCreationPricePerToken p)
           in p5\<lparr>mp_CacheCreation1hPrice := h, mp_SupportsCacheBreakdown := h > mp_CacheCreation5mPrice p5\<rparr>)"

section \<open>Built-in prices\<close>

text \<open>
  The pointers \<^verbatim>\<open>claude-opus-4.6\<close> and \<^verbatim>\<open>claude-opus-4.7\<close> are the one of \<^verbatim>\<open>claude-opus-4.5\<close>, so they get its split of cache writes
  too.
\<close>

definition claudeFallbackPrices :: "(string \<times> ModelPricing) list" where
  "claudeFallbackPrices =
    [(''claude-opus-4.5'', enableFallbackCacheBreakdown (zeroPricing\<lparr>mp_InputPricePerToken := mtok 5, mp_OutputPricePerToken := mtok 25, mp_CacheCreationPricePerToken := mtok (625 / 100),
      mp_CacheReadPricePerToken := mtok (5 / 10)\<rparr>)),
     (''claude-sonnet-4'', enableFallbackCacheBreakdown (zeroPricing\<lparr>mp_InputPricePerToken := mtok 3, mp_OutputPricePerToken := mtok 15, mp_CacheCreationPricePerToken := mtok (375 / 100),
      mp_CacheReadPricePerToken := mtok (3 / 10)\<rparr>)),
     (''claude-3-5-sonnet'', enableFallbackCacheBreakdown (zeroPricing\<lparr>mp_InputPricePerToken := mtok 3, mp_OutputPricePerToken := mtok 15, mp_CacheCreationPricePerToken := mtok (375 / 100),
      mp_CacheReadPricePerToken := mtok (3 / 10)\<rparr>)),
     (''claude-3-5-haiku'', enableFallbackCacheBreakdown (zeroPricing\<lparr>mp_InputPricePerToken := mtok 1, mp_OutputPricePerToken := mtok 5, mp_CacheCreationPricePerToken := mtok (125 / 100),
      mp_CacheReadPricePerToken := mtok (1 / 10)\<rparr>)),
     (''claude-3-opus'', enableFallbackCacheBreakdown (zeroPricing\<lparr>mp_InputPricePerToken := mtok 15, mp_OutputPricePerToken := mtok 75, mp_CacheCreationPricePerToken := mtok (1875 / 100),
      mp_CacheReadPricePerToken := mtok (15 / 10)\<rparr>)),
     (''claude-3-haiku'', enableFallbackCacheBreakdown (zeroPricing\<lparr>mp_InputPricePerToken := mtok (25 / 100), mp_OutputPricePerToken := mtok (125 / 100),
      mp_CacheCreationPricePerToken := mtok (3 / 10), mp_CacheReadPricePerToken := mtok (3 / 100)\<rparr>)),
     (''claude-opus-4.6'', enableFallbackCacheBreakdown (zeroPricing\<lparr>mp_InputPricePerToken := mtok 5, mp_OutputPricePerToken := mtok 25, mp_CacheCreationPricePerToken := mtok (625 / 100),
      mp_CacheReadPricePerToken := mtok (5 / 10)\<rparr>)),
     (''claude-opus-4.7'', enableFallbackCacheBreakdown (zeroPricing\<lparr>mp_InputPricePerToken := mtok 5, mp_OutputPricePerToken := mtok 25, mp_CacheCreationPricePerToken := mtok (625 / 100),
      mp_CacheReadPricePerToken := mtok (5 / 10)\<rparr>))]"

definition otherFallbackPrices :: "(string \<times> ModelPricing) list" where
  "otherFallbackPrices =
    [(''gemini-3.1-pro'', zeroPricing\<lparr>mp_InputPricePerToken := mtok 2, mp_OutputPricePerToken := mtok 12, mp_CacheCreationPricePerToken := mtok 2,
      mp_CacheReadPricePerToken := mtok (2 / 10), mp_LongContextInputThreshold := 200000, mp_LongContextInputMultiplier := 2,
      mp_LongContextOutputMultiplier := 3 / 2, mp_LongContextInputPricePerToken := mtok 4,
      mp_LongContextOutputPricePerToken := mtok 18, mp_LongContextCacheCreationPricePerToken := mtok (25 / 100),
      mp_LongContextCacheReadPricePerToken := mtok (4 / 10)\<rparr>),
     (''gemini-3-pro-preview'', zeroPricing\<lparr>mp_InputPricePerToken := mtok 2, mp_OutputPricePerToken := mtok 12, mp_CacheCreationPricePerToken := mtok 2,
      mp_CacheReadPricePerToken := mtok (2 / 10), mp_LongContextInputThreshold := 200000, mp_LongContextInputMultiplier := 2,
      mp_LongContextOutputMultiplier := 3 / 2, mp_LongContextInputPricePerToken := mtok 4,
      mp_LongContextOutputPricePerToken := mtok 18, mp_LongContextCacheCreationPricePerToken := mtok (25 / 100),
      mp_LongContextCacheReadPricePerToken := mtok (4 / 10)\<rparr>),
     (''gemini-3.1-pro-preview'', zeroPricing\<lparr>mp_InputPricePerToken := mtok 2, mp_OutputPricePerToken := mtok 12, mp_CacheCreationPricePerToken := mtok 2,
      mp_CacheReadPricePerToken := mtok (2 / 10), mp_LongContextInputThreshold := 200000, mp_LongContextInputMultiplier := 2,
      mp_LongContextOutputMultiplier := 3 / 2, mp_LongContextInputPricePerToken := mtok 4,
      mp_LongContextOutputPricePerToken := mtok 18, mp_LongContextCacheCreationPricePerToken := mtok (25 / 100),
      mp_LongContextCacheReadPricePerToken := mtok (4 / 10)\<rparr>),
     (''gemini-3.1-pro-preview-customtools'', zeroPricing\<lparr>mp_InputPricePerToken := mtok 2, mp_OutputPricePerToken := mtok 12, mp_CacheCreationPricePerToken := mtok 2,
      mp_CacheReadPricePerToken := mtok (2 / 10), mp_LongContextInputThreshold := 200000, mp_LongContextInputMultiplier := 2,
      mp_LongContextOutputMultiplier := 3 / 2, mp_LongContextInputPricePerToken := mtok 4,
      mp_LongContextOutputPricePerToken := mtok 18, mp_LongContextCacheCreationPricePerToken := mtok (25 / 100),
      mp_LongContextCacheReadPricePerToken := mtok (4 / 10)\<rparr>),
     (''gpt-5.4'', zeroPricing\<lparr>mp_InputPricePerToken := mtok (625 / 10), mp_InputPricePerTokenPriority := mtok 125, mp_OutputPricePerToken := mtok 375,
      mp_OutputPricePerTokenPriority := mtok 750, mp_CacheCreationPricePerToken := mtok (625 / 10),
      mp_CacheReadPricePerToken := mtok (625 / 100), mp_CacheReadPricePerTokenPriority := mtok (125 / 10),
      mp_LongContextInputThreshold := openAIGPT54LongContextInputThreshold,
      mp_LongContextInputMultiplier := openAIGPT54LongContextInputMultiplier,
      mp_LongContextOutputMultiplier := openAIGPT54LongContextOutputMultiplier\<rparr>),
     (''gpt-5.5'', zeroPricing\<lparr>mp_InputPricePerToken := mtok 125, mp_InputPricePerTokenPriority := mtok (3125 / 10), mp_OutputPricePerToken := mtok 750,
      mp_OutputPricePerTokenPriority := mtok 1875, mp_CacheCreationPricePerToken := mtok 125,
      mp_CacheReadPricePerToken := mtok (125 / 10), mp_CacheReadPricePerTokenPriority := mtok (3125 / 100),
      mp_LongContextInputThreshold := openAIGPT54LongContextInputThreshold,
      mp_LongContextInputMultiplier := openAIGPT54LongContextInputMultiplier,
      mp_LongContextOutputMultiplier := openAIGPT54LongContextOutputMultiplier\<rparr>),
     (''gpt-5.5-pro'', zeroPricing\<lparr>mp_InputPricePerToken := mtok 125, mp_InputPricePerTokenPriority := mtok (3125 / 10), mp_OutputPricePerToken := mtok 750,
      mp_OutputPricePerTokenPriority := mtok 1875, mp_CacheCreationPricePerToken := mtok 125,
      mp_CacheReadPricePerToken := mtok (125 / 10), mp_CacheReadPricePerTokenPriority := mtok (3125 / 100),
      mp_LongContextInputThreshold := openAIGPT54LongContextInputThreshold,
      mp_LongContextInputMultiplier := openAIGPT54LongContextInputMultiplier,
      mp_LongContextOutputMultiplier := openAIGPT54LongContextOutputMultiplier\<rparr>),
     (''gpt-5.4-mini'', zeroPricing\<lparr>mp_InputPricePerToken := mtok (75 / 100), mp_OutputPricePerToken := mtok (45 / 10),
      mp_CacheReadPricePerToken := mtok (75 / 1000)\<rparr>),
     (''gpt-5.4-nano'', zeroPricing\<lparr>mp_InputPricePerToken := mtok (2 / 10), mp_OutputPricePerToken := mtok (125 / 100),
      mp_CacheReadPricePerToken := mtok (2 / 100)\<rparr>),
     (''gpt-5.2'', zeroPricing\<lparr>mp_InputPricePerToken := mtok (175 / 100), mp_InputPricePerTokenPriority := mtok (35 / 10),
      mp_OutputPricePerToken := mtok 14, mp_OutputPricePerTokenPriority := mtok 28,
      mp_CacheCreationPricePerToken := mtok (175 / 100), mp_CacheReadPricePerToken := mtok (175 / 1000),
      mp_CacheReadPricePerTokenPriority := mtok (35 / 100)\<rparr>),
     (''gpt-5.3-codex'', zeroPricing\<lparr>mp_InputPricePerToken := mtok (15 / 10), mp_InputPricePerTokenPriority := mtok 3, mp_OutputPricePerToken := mtok 12,
      mp_OutputPricePerTokenPriority := mtok 24, mp_CacheCreationPricePerToken := mtok (15 / 10),
      mp_CacheReadPricePerToken := mtok (15 / 100), mp_CacheReadPricePerTokenPriority := mtok (3 / 10)\<rparr>)]"

definition additionalFallbackPrices :: "(string \<times> ModelPricing) list" where
  "additionalFallbackPrices =
    [(''gpt-5.6-sol'', zeroPricing\<lparr>mp_InputPricePerToken := mtok 5, mp_InputPricePerTokenPriority := mtok 10, mp_OutputPricePerToken := mtok 30,
      mp_OutputPricePerTokenPriority := mtok 60, mp_CacheCreationPricePerToken := mtok (625 / 100),
      mp_CacheCreationPricePerTokenPriority := mtok (125 / 10), mp_CacheReadPricePerToken := mtok (5 / 10),
      mp_CacheReadPricePerTokenPriority := mtok 1, mp_LongContextInputThreshold := openAIGPT54LongContextInputThreshold,
      mp_LongContextInputMultiplier := openAIGPT54LongContextInputMultiplier,
      mp_LongContextOutputMultiplier := openAIGPT54LongContextOutputMultiplier\<rparr>),
     (''gpt-5.6-terra'', zeroPricing\<lparr>mp_InputPricePerToken := mtok (25 / 10), mp_InputPricePerTokenPriority := mtok 5, mp_OutputPricePerToken := mtok 15,
      mp_OutputPricePerTokenPriority := mtok 30, mp_CacheCreationPricePerToken := mtok (3125 / 1000),
      mp_CacheCreationPricePerTokenPriority := mtok (625 / 100), mp_CacheReadPricePerToken := mtok (25 / 100),
      mp_CacheReadPricePerTokenPriority := mtok (5 / 10), mp_LongContextInputThreshold := openAIGPT54LongContextInputThreshold,
      mp_LongContextInputMultiplier := openAIGPT54LongContextInputMultiplier,
      mp_LongContextOutputMultiplier := openAIGPT54LongContextOutputMultiplier\<rparr>),
     (''gpt-5.6-luna'', zeroPricing\<lparr>mp_InputPricePerToken := mtok 1, mp_InputPricePerTokenPriority := mtok 2, mp_OutputPricePerToken := mtok 6,
      mp_OutputPricePerTokenPriority := mtok 12, mp_CacheCreationPricePerToken := mtok (125 / 100),
      mp_CacheCreationPricePerTokenPriority := mtok (25 / 10), mp_CacheReadPricePerToken := mtok (1 / 10),
      mp_CacheReadPricePerTokenPriority := mtok (2 / 10), mp_LongContextInputThreshold := openAIGPT54LongContextInputThreshold,
      mp_LongContextInputMultiplier := openAIGPT54LongContextInputMultiplier,
      mp_LongContextOutputMultiplier := openAIGPT54LongContextOutputMultiplier\<rparr>),
     (''deepseek-v4-pro'', zeroPricing\<lparr>mp_InputPricePerToken := mtok (435 / 1000), mp_OutputPricePerToken := mtok (87 / 100),
      mp_CacheReadPricePerToken := mtok (3625 / 1000000)\<rparr>),
     (''deepseek-v4-flash'', zeroPricing\<lparr>mp_InputPricePerToken := mtok (14 / 100), mp_OutputPricePerToken := mtok (28 / 100),
      mp_CacheReadPricePerToken := mtok (28 / 10000)\<rparr>),
     (''glm-5.1'', zeroPricing\<lparr>mp_InputPricePerToken := mtok (14 / 10), mp_OutputPricePerToken := mtok (44 / 10),
      mp_CacheReadPricePerToken := mtok (26 / 100)\<rparr>),
     (''glm-5'', zeroPricing\<lparr>mp_InputPricePerToken := mtok 1, mp_OutputPricePerToken := mtok (32 / 10), mp_CacheReadPricePerToken := mtok (2 / 10)\<rparr>),
     (''glm-5-turbo'', zeroPricing\<lparr>mp_InputPricePerToken := mtok (12 / 10), mp_OutputPricePerToken := mtok 4, mp_CacheReadPricePerToken := mtok (24 / 100)\<rparr>),
     (''glm-4.7'', zeroPricing\<lparr>mp_InputPricePerToken := mtok (6 / 10), mp_OutputPricePerToken := mtok (22 / 10),
      mp_CacheReadPricePerToken := mtok (11 / 100)\<rparr>),
     (''glm-4.7-flashx'', zeroPricing\<lparr>mp_InputPricePerToken := mtok (7 / 100), mp_OutputPricePerToken := mtok (4 / 10),
      mp_CacheReadPricePerToken := mtok (1 / 100)\<rparr>),
     (''glm-4.6'', zeroPricing\<lparr>mp_InputPricePerToken := mtok (6 / 10), mp_OutputPricePerToken := mtok (22 / 10),
      mp_CacheReadPricePerToken := mtok (11 / 100)\<rparr>),
     (''glm-4.5'', zeroPricing\<lparr>mp_InputPricePerToken := mtok (6 / 10), mp_OutputPricePerToken := mtok (22 / 10),
      mp_CacheReadPricePerToken := mtok (11 / 100)\<rparr>),
     (''glm-4.5-x'', zeroPricing\<lparr>mp_InputPricePerToken := mtok (22 / 10), mp_OutputPricePerToken := mtok (89 / 10),
      mp_CacheReadPricePerToken := mtok (45 / 100)\<rparr>),
     (''glm-4.5-air'', zeroPricing\<lparr>mp_InputPricePerToken := mtok (2 / 10), mp_OutputPricePerToken := mtok (11 / 10),
      mp_CacheReadPricePerToken := mtok (3 / 100)\<rparr>),
     (''glm-4.5-airx'', zeroPricing\<lparr>mp_InputPricePerToken := mtok (11 / 10), mp_OutputPricePerToken := mtok (45 / 10),
      mp_CacheReadPricePerToken := mtok (22 / 100)\<rparr>),
     (''glm-4-32b-0414-128k'', zeroPricing\<lparr>mp_InputPricePerToken := mtok (1 / 10), mp_OutputPricePerToken := mtok (1 / 10)\<rparr>),
     (''glm-4.5-flash'', zeroPricing),
     (''glm-4.7-flash'', zeroPricing),
     (''kimi-k2.6'', zeroPricing\<lparr>mp_InputPricePerToken := mtok (95 / 100), mp_OutputPricePerToken := mtok 4, mp_CacheReadPricePerToken := mtok (15 / 100)\<rparr>),
     (''kimi-for-coding'', zeroPricing\<lparr>mp_InputPricePerToken := mtok (95 / 100), mp_OutputPricePerToken := mtok 4, mp_CacheReadPricePerToken := mtok (15 / 100)\<rparr>),
     (''kimi-k2.5'', zeroPricing\<lparr>mp_InputPricePerToken := mtok (6 / 10), mp_OutputPricePerToken := mtok 3, mp_CacheReadPricePerToken := mtok (98 / 1000)\<rparr>),
     (''kimi-k2-thinking'', zeroPricing\<lparr>mp_InputPricePerToken := mtok (56 / 100), mp_OutputPricePerToken := mtok (224 / 100),
      mp_CacheReadPricePerToken := mtok (14 / 100)\<rparr>),
     (''kimi-k2'', zeroPricing\<lparr>mp_InputPricePerToken := mtok (56 / 100), mp_OutputPricePerToken := mtok (224 / 100),
      mp_CacheReadPricePerToken := mtok (14 / 100)\<rparr>),
     (''minimax-m3'', zeroPricing\<lparr>mp_InputPricePerToken := mtok (6 / 10), mp_OutputPricePerToken := mtok (24 / 10),
      mp_CacheReadPricePerToken := mtok (12 / 100)\<rparr>),
     (''minimax-m2.7'', zeroPricing\<lparr>mp_InputPricePerToken := mtok (3 / 10), mp_OutputPricePerToken := mtok (12 / 10),
      mp_CacheReadPricePerToken := mtok (6 / 100)\<rparr>),
     (''minimax-m2.7-highspeed'', zeroPricing\<lparr>mp_InputPricePerToken := mtok (6 / 10), mp_OutputPricePerToken := mtok (24 / 10),
      mp_CacheReadPricePerToken := mtok (6 / 100)\<rparr>),
     (''minimax-m2.5'', zeroPricing\<lparr>mp_InputPricePerToken := mtok (3 / 10), mp_OutputPricePerToken := mtok (12 / 10),
      mp_CacheReadPricePerToken := mtok (3 / 100)\<rparr>),
     (''minimax-m2.1'', zeroPricing\<lparr>mp_InputPricePerToken := mtok (3 / 10), mp_OutputPricePerToken := mtok (12 / 10),
      mp_CacheReadPricePerToken := mtok (3 / 100)\<rparr>),
     (''minimax-m2'', zeroPricing\<lparr>mp_InputPricePerToken := mtok (3 / 10), mp_OutputPricePerToken := mtok (12 / 10),
      mp_CacheReadPricePerToken := mtok (3 / 100)\<rparr>),
     (''doubao-embedding-vision'', zeroPricing\<lparr>mp_InputPricePerToken := mtok (98 / 1000), mp_ImageInputPricePerToken := mtok (252 / 1000)\<rparr>),
     (''grok-4.5'', zeroPricing\<lparr>mp_InputPricePerToken := mtok 2, mp_OutputPricePerToken := mtok 6, mp_CacheReadPricePerToken := mtok (5 / 10)\<rparr>),
     (''grok-4.3'', zeroPricing\<lparr>mp_InputPricePerToken := mtok (125 / 100), mp_OutputPricePerToken := mtok (25 / 10),
      mp_CacheReadPricePerToken := mtok (2 / 10), mp_LongContextInputThreshold := 1000000, mp_LongContextInputMultiplier := 1\<rparr>),
     (''grok-build-0.1'', zeroPricing\<lparr>mp_InputPricePerToken := mtok 1, mp_OutputPricePerToken := mtok 2, mp_CacheReadPricePerToken := mtok (2 / 10)\<rparr>)]"

definition fallbackPrices :: "string \<Rightarrow> ModelPricing option" where
  "fallbackPrices = map_of (claudeFallbackPrices @ otherFallbackPrices @ additionalFallbackPrices)"

definition additionalFamilies :: "(string list \<times> string) list" where
  "additionalFamilies =
    [([''deepseek-v4-flash''], ''deepseek-v4-flash''),
     ([''deepseek-v4-pro''], ''deepseek-v4-pro''),
     ([''deepseek-chat'', ''deepseek-reasoner''], ''deepseek-v4-flash''),
     ([''glm-5.1''], ''glm-5.1''),
     ([''glm-5-turbo'', ''glm-5turbo''], ''glm-5-turbo''),
     ([''glm-5''], ''glm-5''),
     ([''glm-4.7-flashx''], ''glm-4.7-flashx''),
     ([''glm-4.7-flash''], ''glm-4.7-flash''),
     ([''glm-4.7''], ''glm-4.7''),
     ([''glm-4.6''], ''glm-4.6''),
     ([''glm-4.5-flash''], ''glm-4.5-flash''),
     ([''glm-4.5-x'', ''glm-4.5x''], ''glm-4.5-x''),
     ([''glm-4.5-airx'', ''glm-4.5airx''], ''glm-4.5-airx''),
     ([''glm-4.5-air'', ''glm-4.5air''], ''glm-4.5-air''),
     ([''glm-4.5''], ''glm-4.5''),
     ([''glm-4-32b''], ''glm-4-32b-0414-128k''),
     ([''kimi-for-coding''], ''kimi-for-coding''),
     ([''kimi-k2.6'', ''kimi-k2-6''], ''kimi-k2.6''),
     ([''kimi-k2.5'', ''kimi-k2-5''], ''kimi-k2.5''),
     ([''kimi-k2-thinking'', ''kimi-k2-thinking-''], ''kimi-k2-thinking''),
     ([''kimi-k2'', ''kimi/k2''], ''kimi-k2''),
     ([''minimax-m3''], ''minimax-m3''),
     ([''minimax-m2.7-highspeed'', ''minimax-m2-7-highspeed''], ''minimax-m2.7-highspeed''),
     ([''minimax-m2.7'', ''minimax-m2-7''], ''minimax-m2.7''),
     ([''minimax-m2.5'', ''minimax-m2-5''], ''minimax-m2.5''),
     ([''minimax-m2.1'', ''minimax-m2-1''], ''minimax-m2.1''),
     ([''minimax-m2'', ''minimax-m-2''], ''minimax-m2''),
     ([''doubao-embedding-vision''], ''doubao-embedding-vision'')]"

definition grokNames :: "(string list \<times> string) list" where
  "grokNames =
    [([''grok'', ''grok-latest'', ''grok-4.5'', ''grok-4.5-latest'', ''grok-build-latest''], ''grok-4.5''),
     ([''grok-4.3'', ''grok-4.20-reasoning'', ''grok-4.20-0309-reasoning'', ''grok-4.20-non-reasoning'', ''grok-4.20-0309-non-reasoning'', ''grok-4.20-multi-agent-0309''], ''grok-4.3''),
     ([''grok-build'', ''grok-build-0.1'', ''grok-composer'', ''composer-2.5'', ''grok-composer-2.5-fast''], ''grok-build-0.1'')]"

text \<open>The first family that has one of its words in the name.\<close>

fun familyKey :: "(string \<Rightarrow> string \<Rightarrow> bool) \<Rightarrow> string \<Rightarrow> (string list \<times> string) list \<Rightarrow> string option" where
  "familyKey fits n [] = None"
| "familyKey fits n ((ws, key) # rest) = (if list_ex (\<lambda>w. fits w n) ws then Some key else familyKey fits n rest)"

definition matchAdditionalFallbackPricing :: "string \<Rightarrow> ModelPricing option" where
  "matchAdditionalFallbackPricing n =
     (case familyKey sublist n additionalFamilies of
        Some key \<Rightarrow> fallbackPrices key
      | None \<Rightarrow> (case familyKey (=) n grokNames of Some key \<Rightarrow> fallbackPrices key | None \<Rightarrow> None))"

definition contains :: "string \<Rightarrow> string list \<Rightarrow> bool" where
  "contains n ws = list_ex (\<lambda>w. sublist w n) ws"

definition openAIFallbackKey :: "string \<Rightarrow> string option" where
  "openAIFallbackKey n =
     (let m = normalizeCodexModel n in
      if m \<in> set [''gpt-5.6-sol'', ''gpt-5.6-terra'', ''gpt-5.6-luna'', ''gpt-5.5-pro'', ''gpt-5.5'', ''gpt-5.4-nano'', ''gpt-5.4-mini'',
        ''gpt-5.4'', ''gpt-5.2''] then Some m
      else if m \<in> set [''gpt-5.3-codex'', ''gpt-5.3-codex-spark''] then Some ''gpt-5.3-codex''
      else None)"

definition getFallbackPricing :: "string \<Rightarrow> ModelPricing option" where
  "getFallbackPricing model =
     (let n = ToLower model in
      if contains n [''opus''] then
        if contains n [''4.7'', ''4-7''] then fallbackPrices ''claude-opus-4.7''
        else if contains n [''4.6'', ''4-6''] then fallbackPrices ''claude-opus-4.6''
        else if contains n [''4.5'', ''4-5''] then fallbackPrices ''claude-opus-4.5''
        else fallbackPrices ''claude-3-opus''
      else if contains n [''sonnet''] then
        if contains n [''4''] \<and> \<not> contains n [''3''] then fallbackPrices ''claude-sonnet-4'' else fallbackPrices ''claude-3-5-sonnet''
      else if contains n [''haiku''] then
        if contains n [''3-5'', ''3.5''] then fallbackPrices ''claude-3-5-haiku'' else fallbackPrices ''claude-3-haiku''
      else if contains n [''claude''] then fallbackPrices ''claude-sonnet-4''
      else if contains n [''gemini-3.1-pro'', ''gemini-3-1-pro''] then fallbackPrices ''gemini-3.1-pro''
      else if prefix ''gemini-3-pro'' n \<and> \<not> contains n [''image''] then fallbackPrices ''gemini-3-pro-preview''
      else case matchAdditionalFallbackPricing n of
          Some p \<Rightarrow> Some p
        | None \<Rightarrow>
            if contains n [''gpt-5'', ''codex'']
            then (case openAIFallbackKey n of Some key \<Rightarrow> fallbackPrices key | None \<Rightarrow> None)
            else None)"

section \<open>The price of a model\<close>

text \<open>Rules for OpenAI models that hold wherever the price comes from.\<close>

definition applyModelSpecificPricingPolicy :: "string \<Rightarrow> ModelPricing \<Rightarrow> ModelPricing" where
  "applyModelSpecificPricingPolicy model p =
     (if \<not> isOpenAIGPT54Model model then p
      else
        let isGPT56 = isOpenAIGPT56Model model;
            needsLongContextPolicy = (mp_LongContextInputThreshold p \<le> 0 \<or> mp_LongContextInputMultiplier p \<le> 0 \<or>
              mp_LongContextOutputMultiplier p \<le> 0);
            needsCacheCreationPolicy = (isGPT56 \<and> \<not> mp_CacheCreationPriceExplicit p \<and> (mp_CacheCreationPricePerToken p \<le> 0 \<or>
              mp_InputPricePerTokenPriority p > 0 \<and> mp_CacheCreationPricePerTokenPriority p \<le> 0))
        in if \<not> needsLongContextPolicy \<and> \<not> needsCacheCreationPolicy then p
           else
             let p1 = (if isGPT56 \<and> \<not> mp_CacheCreationPriceExplicit p
                   then p\<lparr>mp_CacheCreationPricePerToken := (if mp_CacheCreationPricePerToken p \<le> 0
                       then mp_InputPricePerToken p * (5 / 4) else mp_CacheCreationPricePerToken p),
                     mp_CacheCreationPricePerTokenPriority := (if mp_CacheCreationPricePerTokenPriority p \<le> 0
                       then mp_InputPricePerTokenPriority p * (5 / 4) else mp_CacheCreationPricePerTokenPriority p)\<rparr>
                   else p)
             in p1\<lparr>mp_LongContextInputThreshold := (if mp_LongContextInputThreshold p1 \<le> 0
                   then openAIGPT54LongContextInputThreshold else mp_LongContextInputThreshold p1),
                 mp_LongContextInputMultiplier := (if mp_LongContextInputMultiplier p1 \<le> 0
                   then openAIGPT54LongContextInputMultiplier else mp_LongContextInputMultiplier p1),
                 mp_LongContextOutputMultiplier := (if mp_LongContextOutputMultiplier p1 \<le> 0
                   then openAIGPT54LongContextOutputMultiplier else mp_LongContextOutputMultiplier p1)\<rparr>)"

text \<open>Cache writes of five minutes and of one hour are told apart only if the longer one costs more.\<close>

definition ofLiteLLM :: "LiteLLMModelPricing \<Rightarrow> ModelPricing" where
  "ofLiteLLM l = zeroPricing\<lparr>mp_InputPricePerToken := ll_InputCostPerToken l, mp_InputPricePerTokenPriority := ll_InputCostPerTokenPriority l,
     mp_OutputPricePerToken := ll_OutputCostPerToken l, mp_OutputPricePerTokenPriority := ll_OutputCostPerTokenPriority l,
     mp_CacheCreationPricePerToken := ll_CacheCreationInputTokenCost l,
     mp_CacheCreationPricePerTokenPriority := ll_CacheCreationInputTokenCostPriority l,
     mp_CacheReadPricePerToken := ll_CacheReadInputTokenCost l,
     mp_CacheReadPricePerTokenPriority := ll_CacheReadInputTokenCostPriority l,
     mp_CacheCreation5mPrice := ll_CacheCreationInputTokenCost l,
     mp_CacheCreation1hPrice := ll_CacheCreationInputTokenCostAbove1hr l,
     mp_SupportsCacheBreakdown := (ll_CacheCreationInputTokenCostAbove1hr l > 0 \<and> ll_CacheCreationInputTokenCostAbove1hr l > ll_CacheCreationInputTokenCost l),
     mp_LongContextInputThreshold := ll_LongContextInputTokenThreshold l,
     mp_LongContextInputMultiplier := ll_LongContextInputCostMultiplier l,
     mp_LongContextOutputMultiplier := ll_LongContextOutputCostMultiplier l,
     mp_LongContextInputPricePerToken := ll_LongContextInputCostPerToken l,
     mp_LongContextInputPricePerTokenPriority := ll_LongContextInputCostPerTokenPriority l,
     mp_LongContextOutputPricePerToken := ll_LongContextOutputCostPerToken l,
     mp_LongContextOutputPricePerTokenPriority := ll_LongContextOutputCostPerTokenPriority l,
     mp_LongContextCacheCreationPricePerToken := ll_LongContextCacheCreationInputTokenCost l,
     mp_LongContextCacheCreationPricePerTokenPriority := ll_LongContextCacheCreationInputTokenCostPriority l,
     mp_LongContextCacheReadPricePerToken := ll_LongContextCacheReadInputTokenCost l,
     mp_LongContextCacheReadPricePerTokenPriority := ll_LongContextCacheReadInputTokenCostPriority l,
     mp_ImageInputPricePerToken := ll_InputCostPerImageToken l,
     mp_ImageCacheReadPricePerToken := ll_CacheReadInputImageTokenCost l,
     mp_ImageOutputPricePerToken := ll_OutputCostPerImageToken l\<rparr>"

type_synonym priceList = "string \<Rightarrow> LiteLLMModelPricing option"

definition GetModelPricing :: "priceList \<Rightarrow> string \<Rightarrow> ModelPricing option" where
  "GetModelPricing dyn model0 =
     (let model = ToLower model0 in
      case dyn model of
        Some l \<Rightarrow> Some (applyModelSpecificPricingPolicy model (ofLiteLLM l))
      | None \<Rightarrow> map_option (applyModelSpecificPricingPolicy model) (getFallbackPricing model))"

end
