(* ===== verification/ModelCosts.thy ===== *)
theory ModelCosts
  imports ModelPrices
begin

text \<open>
  The cost of a request in \<^verbatim>\<open>service/billing_service.go\<close>: the cost of tokens at a given price with its service tiers and long
  contexts, and the cost of images, videos and web searches. Token counts are unbounded integers.
\<close>

section \<open>Service tiers\<close>

definition normalizeBillingServiceTier :: "string \<Rightarrow> string" where
  "normalizeBillingServiceTier serviceTier = ToLower (TrimSpace serviceTier)"

definition openAIGPT54FastMultiplier :: rat where "openAIGPT54FastMultiplier = 2"
definition openAIGPT55FastMultiplier :: rat where "openAIGPT55FastMultiplier = 5 / 2"

definition serviceTierCostMultiplierForModel :: "string \<Rightarrow> string \<Rightarrow> rat" where
  "serviceTierCostMultiplierForModel model serviceTier =
     (if normalizeBillingServiceTier serviceTier = ''priority''
      then if isOpenAIGPT55Model model then openAIGPT55FastMultiplier else openAIGPT54FastMultiplier
      else if normalizeBillingServiceTier serviceTier = ''flex'' then 1 / 2
      else 1)"

section \<open>Tokens\<close>

record UsageTokens =
  ut_InputTokens :: int
  ut_TextInputTokens :: int
  ut_ImageInputTokens :: int
  ut_OutputTokens :: int
  ut_CacheCreationTokens :: int
  ut_CacheReadTokens :: int
  ut_ImageCacheReadTokens :: int
  ut_CacheCreation5mTokens :: int
  ut_CacheCreation1hTokens :: int
  ut_ImageOutputTokens :: int

definition noTokens :: UsageTokens where
  "noTokens = \<lparr>ut_InputTokens = 0, ut_TextInputTokens = 0, ut_ImageInputTokens = 0, ut_OutputTokens = 0, ut_CacheCreationTokens = 0,
     ut_CacheReadTokens = 0, ut_ImageCacheReadTokens = 0, ut_CacheCreation5mTokens = 0, ut_CacheCreation1hTokens = 0, ut_ImageOutputTokens = 0\<rparr>"

record CostBreakdown =
  cb_InputCost :: rat
  cb_ImageInputCost :: rat
  cb_OutputCost :: rat
  cb_ImageOutputCost :: rat
  cb_CacheCreationCost :: rat
  cb_CacheReadCost :: rat
  cb_TotalCost :: rat
  cb_ActualCost :: rat
  cb_BillingMode :: string
  cb_LongContextBillingApplied :: bool

definition noCost :: CostBreakdown where
  "noCost = \<lparr>cb_InputCost = 0, cb_ImageInputCost = 0, cb_OutputCost = 0, cb_ImageOutputCost = 0, cb_CacheCreationCost = 0,
     cb_CacheReadCost = 0, cb_TotalCost = 0, cb_ActualCost = 0, cb_BillingMode = [], cb_LongContextBillingApplied = False\<rparr>"

definition totalInputContextTokens :: "UsageTokens \<Rightarrow> int" where
  "totalInputContextTokens t =
     (let breakdown = ut_CacheCreation5mTokens t + ut_CacheCreation1hTokens t;
          cacheCreationTokens = (if breakdown > ut_CacheCreationTokens t then breakdown else ut_CacheCreationTokens t)
      in ut_InputTokens t + ut_TextInputTokens t + ut_ImageInputTokens t + cacheCreationTokens + ut_CacheReadTokens t)"

definition clampImageCacheReadTokens :: "UsageTokens \<Rightarrow> int" where
  "clampImageCacheReadTokens t =
     (if ut_ImageCacheReadTokens t < 0 then 0
      else if ut_ImageCacheReadTokens t > ut_CacheReadTokens t then ut_CacheReadTokens t
      else ut_ImageCacheReadTokens t)"

definition hasExactLongContextPricing :: "ModelPricing \<Rightarrow> bool" where
  "hasExactLongContextPricing p \<longleftrightarrow>
     mp_LongContextInputPricePerToken p > 0 \<or> mp_LongContextInputPricePerTokenPriority p > 0 \<or>
     mp_LongContextOutputPricePerToken p > 0 \<or> mp_LongContextOutputPricePerTokenPriority p > 0 \<or>
     mp_LongContextCacheCreationPricePerToken p > 0 \<or> mp_LongContextCacheCreationPricePerTokenPriority p > 0 \<or>
     mp_LongContextCacheReadPricePerToken p > 0 \<or> mp_LongContextCacheReadPricePerTokenPriority p > 0"

definition shouldApplySessionLongContextPricing :: "UsageTokens \<Rightarrow> ModelPricing \<Rightarrow> bool" where
  "shouldApplySessionLongContextPricing t p \<longleftrightarrow> mp_LongContextInputThreshold p > 0 \<and>
     \<not> (mp_LongContextInputMultiplier p \<le> 1 \<and> mp_LongContextOutputMultiplier p \<le> 1 \<and> \<not> hasExactLongContextPricing p) \<and>
     totalInputContextTokens t > mp_LongContextInputThreshold p"

section \<open>The cost of tokens\<close>

text \<open>The prices and tier multipliers \<^verbatim>\<open>computeTokenBreakdown\<close> keeps in local variables.\<close>

record unitPrices =
  up_Input :: rat
  up_Output :: rat
  up_CacheRead :: rat
  up_CacheCreation :: rat
  up_ImageInput :: rat
  up_ImageCacheRead :: rat
  up_CacheCreationLong :: rat
  tm_Input :: rat
  tm_Output :: rat
  tm_CacheCreation :: rat
  tm_CacheRead :: rat
  tm_Image :: rat

definition standardPrices :: "ModelPricing \<Rightarrow> unitPrices" where
  "standardPrices p = \<lparr>up_Input = mp_InputPricePerToken p, up_Output = mp_OutputPricePerToken p,
     up_CacheRead = mp_CacheReadPricePerToken p, up_CacheCreation = mp_CacheCreationPricePerToken p,
     up_ImageInput = (if mp_ImageInputPricePerToken p = 0 then mp_InputPricePerToken p else mp_ImageInputPricePerToken p),
     up_ImageCacheRead = (if mp_ImageCacheReadPricePerToken p = 0 then mp_CacheReadPricePerToken p else mp_ImageCacheReadPricePerToken p),
     up_CacheCreationLong = 1, tm_Input = 1, tm_Output = 1, tm_CacheCreation = 1, tm_CacheRead = 1, tm_Image = 1\<rparr>"

definition tierPrices :: "string \<Rightarrow> string \<Rightarrow> ModelPricing \<Rightarrow> unitPrices" where
  "tierPrices model serviceTier p =
     (let u = standardPrices p; tier = normalizeBillingServiceTier serviceTier;
          k = serviceTierCostMultiplierForModel model serviceTier in
      if tier = ''priority'' then u\<lparr>
        up_Input := (if mp_InputPricePerTokenPriority p > 0 then mp_InputPricePerTokenPriority p else up_Input u),
        tm_Input := (if mp_InputPricePerTokenPriority p > 0 then 1 else k),
        up_Output := (if mp_OutputPricePerTokenPriority p > 0 then mp_OutputPricePerTokenPriority p else up_Output u),
        tm_Output := (if mp_OutputPricePerTokenPriority p > 0 then 1 else k),
        up_CacheRead := (if mp_CacheReadPricePerTokenPriority p > 0 then mp_CacheReadPricePerTokenPriority p else up_CacheRead u),
        tm_CacheRead := (if mp_CacheReadPricePerTokenPriority p > 0 then 1 else k),
        up_CacheCreation := (if mp_CacheCreationPricePerTokenPriority p > 0 then mp_CacheCreationPricePerTokenPriority p else up_CacheCreation u),
        tm_CacheCreation := (if mp_CacheCreationPricePerTokenPriority p > 0 then 1 else k),
        tm_Image := k\<rparr>
      else if tier = ''flex'' then u\<lparr>tm_Input := k, tm_Output := k, tm_CacheCreation := k, tm_CacheRead := k, tm_Image := k\<rparr>
      else u)"

text \<open>The price of a long context: the exact one of the tier if there is one, else the multiple.\<close>

definition longPrice :: "bool \<Rightarrow> rat \<Rightarrow> rat \<Rightarrow> rat \<Rightarrow> rat \<Rightarrow> rat" where
  "longPrice priorityTier exactPriority exact k price =
     (if priorityTier \<and> exactPriority > 0 then exactPriority else if \<not> priorityTier \<and> exact > 0 then exact else price * k)"

definition longContextPrices :: "bool \<Rightarrow> ModelPricing \<Rightarrow> unitPrices \<Rightarrow> unitPrices" where
  "longContextPrices priorityTier p u =
     (let longCacheCreation = (if priorityTier \<and> mp_LongContextCacheCreationPricePerTokenPriority p > 0
            then mp_LongContextCacheCreationPricePerTokenPriority p else mp_LongContextCacheCreationPricePerToken p);
          v = u\<lparr>
            up_Input := longPrice priorityTier (mp_LongContextInputPricePerTokenPriority p) (mp_LongContextInputPricePerToken p)
              (mp_LongContextInputMultiplier p) (up_Input u),
            up_ImageInput := up_ImageInput u * mp_LongContextInputMultiplier p,
            up_Output := longPrice priorityTier (mp_LongContextOutputPricePerTokenPriority p) (mp_LongContextOutputPricePerToken p)
              (mp_LongContextOutputMultiplier p) (up_Output u),
            up_CacheRead := longPrice priorityTier (mp_LongContextCacheReadPricePerTokenPriority p) (mp_LongContextCacheReadPricePerToken p)
              (mp_LongContextInputMultiplier p) (up_CacheRead u),
            up_ImageCacheRead := up_ImageCacheRead u * mp_LongContextInputMultiplier p\<rparr>
      in if longCacheCreation > 0 then
           if mp_SupportsCacheBreakdown p \<and> up_CacheCreation u > 0
           then v\<lparr>up_CacheCreationLong := longCacheCreation / up_CacheCreation u\<rparr>
           else v\<lparr>up_CacheCreation := longCacheCreation\<rparr>
         else v\<lparr>up_CacheCreationLong := mp_LongContextInputMultiplier p\<rparr>)"

definition computeCacheCreationCostAtPrice :: "ModelPricing \<Rightarrow> UsageTokens \<Rightarrow> rat \<Rightarrow> rat" where
  "computeCacheCreationCostAtPrice p t price =
     (if mp_SupportsCacheBreakdown p \<and> (mp_CacheCreation5mPrice p > 0 \<or> mp_CacheCreation1hPrice p > 0) then
        if ut_CacheCreation5mTokens t = 0 \<and> ut_CacheCreation1hTokens t = 0 \<and> ut_CacheCreationTokens t > 0
        then of_int (ut_CacheCreationTokens t) * mp_CacheCreation5mPrice p
        else of_int (ut_CacheCreation5mTokens t) * mp_CacheCreation5mPrice p + of_int (ut_CacheCreation1hTokens t) * mp_CacheCreation1hPrice p
      else of_int (ut_CacheCreationTokens t) * price)"

definition costAt :: "ModelPricing \<Rightarrow> UsageTokens \<Rightarrow> rat \<Rightarrow> unitPrices \<Rightarrow> CostBreakdown" where
  "costAt p t rateMultiplier u =
     (let inputCost = of_int (ut_InputTokens t + ut_TextInputTokens t) * up_Input u * tm_Input u +
            of_int (ut_ImageInputTokens t) * up_ImageInput u * tm_Image u;
          text0 = ut_OutputTokens t - ut_ImageOutputTokens t; textOutput = (if text0 < 0 then 0 else text0);
          outputCost = of_int textOutput * up_Output u * tm_Output u;
          imgPrice = (if mp_ImageOutputPricePerToken p = 0 \<and> \<not> mp_ImageOutputPriceExplicit p then up_Output u
            else mp_ImageOutputPricePerToken p);
          imageOutputCost = (if ut_ImageOutputTokens t > 0 then of_int (ut_ImageOutputTokens t) * imgPrice * tm_Image u else 0);
          cacheCreationCost = computeCacheCreationCostAtPrice p t (up_CacheCreation u) * up_CacheCreationLong u * tm_CacheCreation u;
          imageCacheRead = clampImageCacheReadTokens t;
          cacheReadCost = of_int (ut_CacheReadTokens t - imageCacheRead) * up_CacheRead u * tm_CacheRead u +
            of_int imageCacheRead * up_ImageCacheRead u * tm_Image u;
          total = inputCost + 0 + outputCost + imageOutputCost + cacheCreationCost + cacheReadCost
      in noCost\<lparr>cb_InputCost := inputCost, cb_OutputCost := outputCost, cb_ImageOutputCost := imageOutputCost,
           cb_CacheCreationCost := cacheCreationCost, cb_CacheReadCost := cacheReadCost, cb_TotalCost := total,
           cb_ActualCost := total * rateMultiplier\<rparr>)"

definition computeTokenBreakdown :: "string \<Rightarrow> ModelPricing \<Rightarrow> UsageTokens \<Rightarrow> rat \<Rightarrow> string \<Rightarrow> bool \<Rightarrow> CostBreakdown" where
  "computeTokenBreakdown model p t rateMultiplier0 serviceTier applyLongCtx =
     (let rateMultiplier = (if rateMultiplier0 < 0 then 0 else rateMultiplier0); u = tierPrices model serviceTier p;
          priorityTier = (normalizeBillingServiceTier serviceTier = ''priority'')
      in if applyLongCtx \<and> shouldApplySessionLongContextPricing t p
         then let baseline = costAt p t rateMultiplier u; bd = costAt p t rateMultiplier (longContextPrices priorityTier p u)
              in bd\<lparr>cb_LongContextBillingApplied := cb_ActualCost bd > cb_ActualCost baseline\<rparr>
         else costAt p t rateMultiplier u)"

end
