(* ===== verification/ChannelPrices.thy ===== *)
theory ChannelPrices
  imports ModelCosts
begin

text \<open>
  The prices of a channel, \<^verbatim>\<open>service/channel.go\<close>, \<^verbatim>\<open>service/model_pricing_resolver.go\<close> and \<^verbatim>\<open>service/account_stats_pricing.go\<close>, and
  the entry points of \<^verbatim>\<open>service/billing_service.go\<close> that use them. The lookup of a channel's price for a group and a
  model is an argument; a resolver without a channel service has none.
\<close>

section \<open>Intervals\<close>

definition BillingModeToken :: string where "BillingModeToken = ''token''"
definition BillingModePerRequest :: string where "BillingModePerRequest = ''per_request''"
definition BillingModeImage :: string where "BillingModeImage = ''image''"
definition BillingModeVideo :: string where "BillingModeVideo = ''video''"

record PricingInterval =
  pi_MinTokens :: int
  pi_MaxTokens :: "int option"
  pi_TierLabel :: string
  pi_InputPrice :: "rat option"
  pi_OutputPrice :: "rat option"
  pi_CacheWritePrice :: "rat option"
  pi_CacheReadPrice :: "rat option"
  pi_PerRequestPrice :: "rat option"

record ChannelModelPricing =
  cp_Platform :: string
  cp_Models :: "string list"
  cp_BillingMode :: string
  cp_InputPrice :: "rat option"
  cp_OutputPrice :: "rat option"
  cp_CacheWritePrice :: "rat option"
  cp_CacheReadPrice :: "rat option"
  cp_ImageInputPrice :: "rat option"
  cp_ImageCacheReadPrice :: "rat option"
  cp_ImageOutputPrice :: "rat option"
  cp_PerRequestPrice :: "rat option"
  cp_Intervals :: "PricingInterval list"

definition matchesInterval :: "int \<Rightarrow> PricingInterval \<Rightarrow> bool" where
  "matchesInterval n iv \<longleftrightarrow> n > pi_MinTokens iv \<and> (case pi_MaxTokens iv of None \<Rightarrow> True | Some b \<Rightarrow> n \<le> b)"

definition FindMatchingInterval :: "PricingInterval list \<Rightarrow> int \<Rightarrow> PricingInterval option" where
  "FindMatchingInterval ivs n = find (matchesInterval n) ivs"

definition validateIntervalPrices :: "PricingInterval \<Rightarrow> bool" where
  "validateIntervalPrices iv = list_all (\<lambda>p. case p of None \<Rightarrow> True | Some v \<Rightarrow> \<not> v < 0)
     [pi_InputPrice iv, pi_OutputPrice iv, pi_CacheWritePrice iv, pi_CacheReadPrice iv, pi_PerRequestPrice iv]"

definition validateSingleInterval :: "PricingInterval \<Rightarrow> bool" where
  "validateSingleInterval iv \<longleftrightarrow> \<not> pi_MinTokens iv < 0 \<and>
     (case pi_MaxTokens iv of None \<Rightarrow> True | Some b \<Rightarrow> \<not> b \<le> 0 \<and> \<not> b \<le> pi_MinTokens iv) \<and> validateIntervalPrices iv"

fun validateIntervalOverlap :: "PricingInterval list \<Rightarrow> bool" where
  "validateIntervalOverlap [] = True"
| "validateIntervalOverlap [iv] = True"
| "validateIntervalOverlap (iv # next # rest) =
     ((case pi_MaxTokens iv of None \<Rightarrow> False | Some b \<Rightarrow> \<not> b > pi_MinTokens next) \<and> validateIntervalOverlap (next # rest))"

text \<open>Whether \<^verbatim>\<open>ValidateIntervals\<close> accepts; intervals that start alike are rejected in whatever order the sort leaves them.\<close>

definition ValidateIntervals :: "PricingInterval list \<Rightarrow> bool" where
  "ValidateIntervals ivs =
     (let sorted = sort_key pi_MinTokens ivs in list_all validateSingleInterval sorted \<and> validateIntervalOverlap sorted)"

definition validatePricingIntervals :: "ChannelModelPricing list \<Rightarrow> bool" where
  "validatePricingIntervals pricingList = list_all (\<lambda>p. ValidateIntervals (cp_Intervals p)) pricingList"

definition filterValidIntervals :: "PricingInterval list \<Rightarrow> PricingInterval list" where
  "filterValidIntervals ivs = filter (\<lambda>iv. pi_InputPrice iv \<noteq> None \<or> pi_OutputPrice iv \<noteq> None \<or> pi_CacheWritePrice iv \<noteq> None \<or>
     pi_CacheReadPrice iv \<noteq> None \<or> pi_PerRequestPrice iv \<noteq> None) ivs"

section \<open>Overrides\<close>

definition applyCacheWritePriceOverride :: "ModelPricing \<Rightarrow> rat \<Rightarrow> ModelPricing option \<Rightarrow> ModelPricing" where
  "applyCacheWritePriceOverride p price base =
     (let h = deriveOneHourCacheWritePrice base price in
      p\<lparr>mp_CacheCreationPricePerToken := price, mp_CacheCreationPricePerTokenPriority := price, mp_CacheCreationPriceExplicit := True,
        mp_CacheCreation5mPrice := price, mp_CacheCreation1hPrice := h,
        mp_SupportsCacheBreakdown := (h > price \<or> mp_SupportsCacheBreakdown p)\<rparr>)"

definition whenSet :: "'a option \<Rightarrow> ('a \<Rightarrow> 'b \<Rightarrow> 'b) \<Rightarrow> 'b \<Rightarrow> 'b" where
  "whenSet v f p = (case v of None \<Rightarrow> p | Some x \<Rightarrow> f x p)"

text \<open>The overrides that \<^verbatim>\<open>GetModelPricingWithChannel\<close> and \<^verbatim>\<open>applyTokenOverrides\<close> both spell out.\<close>

definition flatOverrides :: "ChannelModelPricing \<Rightarrow> ModelPricing \<Rightarrow> ModelPricing" where
  "flatOverrides c p0 =
     (let p1 = whenSet (cp_InputPrice c) (\<lambda>v p. p\<lparr>mp_InputPricePerToken := v, mp_InputPricePerTokenPriority := 0,
            mp_LongContextInputPricePerToken := 0, mp_LongContextInputPricePerTokenPriority := 0\<rparr>) p0;
          p2 = whenSet (cp_OutputPrice c) (\<lambda>v p. p\<lparr>mp_OutputPricePerToken := v, mp_OutputPricePerTokenPriority := 0,
            mp_LongContextOutputPricePerToken := 0, mp_LongContextOutputPricePerTokenPriority := 0\<rparr>) p1;
          p3 = whenSet (cp_CacheWritePrice c) (\<lambda>v p. (applyCacheWritePriceOverride p v (Some p))\<lparr>
            mp_LongContextCacheCreationPricePerToken := 0, mp_LongContextCacheCreationPricePerTokenPriority := 0\<rparr>) p2;
          p4 = whenSet (cp_CacheReadPrice c) (\<lambda>v p. p\<lparr>mp_CacheReadPricePerToken := v, mp_CacheReadPricePerTokenPriority := 0,
            mp_LongContextCacheReadPricePerToken := 0, mp_LongContextCacheReadPricePerTokenPriority := 0\<rparr>) p3;
          p5 = whenSet (cp_ImageInputPrice c) (\<lambda>v p. p\<lparr>mp_ImageInputPricePerToken := v\<rparr>) p4;
          p6 = whenSet (cp_ImageCacheReadPrice c) (\<lambda>v p. p\<lparr>mp_ImageCacheReadPricePerToken := v\<rparr>) p5
      in whenSet (cp_ImageOutputPrice c) (\<lambda>v p. p\<lparr>mp_ImageOutputPricePerToken := v, mp_ImageOutputPriceExplicit := True\<rparr>) p6)"

definition GetModelPricingWithChannel :: "priceList \<Rightarrow> string \<Rightarrow> ChannelModelPricing option \<Rightarrow> ModelPricing option" where
  "GetModelPricingWithChannel dyn model channelPricing = (case GetModelPricing dyn model of
       None \<Rightarrow> None
     | Some p \<Rightarrow> (case channelPricing of None \<Rightarrow> Some p | Some c \<Rightarrow> Some (flatOverrides c p)))"

section \<open>Resolving\<close>

record ResolvedPricing =
  rp_Mode :: string
  rp_BasePricing :: "ModelPricing option"
  rp_Intervals :: "PricingInterval list"
  rp_RequestTiers :: "PricingInterval list"
  rp_DefaultPerRequestPrice :: rat
  rp_Source :: string
  rp_SupportsCacheBreakdown :: bool

definition PricingSourceChannel :: string where "PricingSourceChannel = ''channel''"
definition PricingSourceLiteLLM :: string where "PricingSourceLiteLLM = ''litellm''"
definition PricingSourceFallback :: string where "PricingSourceFallback = ''fallback''"

type_synonym channelLookup = "int \<Rightarrow> string \<Rightarrow> ChannelModelPricing option"

definition applyTokenOverrides :: "ChannelModelPricing \<Rightarrow> ResolvedPricing \<Rightarrow> ResolvedPricing" where
  "applyTokenOverrides c r =
     (let validIntervals = filterValidIntervals (cp_Intervals c) in
      if validIntervals \<noteq> [] then r\<lparr>rp_Intervals := validIntervals\<rparr>
      else r\<lparr>rp_BasePricing := Some (flatOverrides c (case rp_BasePricing r of None \<Rightarrow> zeroPricing | Some p \<Rightarrow> p))\<rparr>)"

definition applyRequestTierOverrides :: "ChannelModelPricing \<Rightarrow> ResolvedPricing \<Rightarrow> ResolvedPricing" where
  "applyRequestTierOverrides c r = whenSet (cp_PerRequestPrice c) (\<lambda>v q. q\<lparr>rp_DefaultPerRequestPrice := v\<rparr>)
     (r\<lparr>rp_RequestTiers := filterValidIntervals (cp_Intervals c)\<rparr>)"

definition resolveBasePricing :: "priceList \<Rightarrow> string \<Rightarrow> ModelPricing option \<times> string" where
  "resolveBasePricing dyn model = (case GetModelPricing dyn model of
       None \<Rightarrow> (None, PricingSourceFallback) | Some p \<Rightarrow> (Some p, PricingSourceLiteLLM))"

definition applyChannelOverrides :: "channelLookup \<Rightarrow> int \<Rightarrow> string \<Rightarrow> ResolvedPricing \<Rightarrow> ResolvedPricing" where
  "applyChannelOverrides lookup groupID model r = (case lookup groupID model of
       None \<Rightarrow> r
     | Some c \<Rightarrow>
         let mode = (if cp_BillingMode c = [] then BillingModeToken else cp_BillingMode c);
             r1 = r\<lparr>rp_Source := PricingSourceChannel, rp_Mode := mode\<rparr>
         in if mode = BillingModeToken then applyTokenOverrides c r1
            else if mode = BillingModePerRequest \<or> mode = BillingModeImage then applyRequestTierOverrides c r1
            else r1)"

definition emptyResolved :: ResolvedPricing where
  "emptyResolved = \<lparr>rp_Mode = [], rp_BasePricing = None, rp_Intervals = [], rp_RequestTiers = [], rp_DefaultPerRequestPrice = 0,
     rp_Source = [], rp_SupportsCacheBreakdown = False\<rparr>"

definition Resolve :: "priceList \<Rightarrow> channelLookup option \<Rightarrow> string \<Rightarrow> int option \<Rightarrow> ResolvedPricing" where
  "Resolve dyn channels model groupID =
     (let chPricing = (case (groupID, channels) of (Some g, Some lookup) \<Rightarrow> lookup g model | _ \<Rightarrow> None);
          mode = (case chPricing of None \<Rightarrow> [] | Some c \<Rightarrow> if cp_BillingMode c = [] then BillingModeToken else cp_BillingMode c)
      in if mode = BillingModePerRequest \<or> mode = BillingModeImage
         then (case chPricing of None \<Rightarrow> emptyResolved | Some c \<Rightarrow>
           applyRequestTierOverrides c (emptyResolved\<lparr>rp_Mode := mode, rp_Source := PricingSourceChannel\<rparr>))
         else
           let (basePricing, source) = resolveBasePricing dyn model;
               r = emptyResolved\<lparr>rp_Mode := BillingModeToken, rp_BasePricing := basePricing, rp_Source := source,
                 rp_SupportsCacheBreakdown := (case basePricing of None \<Rightarrow> False | Some p \<Rightarrow> mp_SupportsCacheBreakdown p)\<rparr>
           in case chPricing of
                Some c \<Rightarrow> applyTokenOverrides c (r\<lparr>rp_Source := PricingSourceChannel\<rparr>)
              | None \<Rightarrow> (case (groupID, channels) of (Some g, Some lookup) \<Rightarrow> applyChannelOverrides lookup g model r | _ \<Rightarrow> r))"

text \<open>The price of an interval starts from nothing, except that the base price decides the price of an hour of cache.\<close>

definition intervalToModelPricing :: "PricingInterval \<Rightarrow> bool \<Rightarrow> ModelPricing option \<Rightarrow> ModelPricing" where
  "intervalToModelPricing iv supportsCacheBreakdown base =
     (let p0 = zeroPricing\<lparr>mp_SupportsCacheBreakdown := supportsCacheBreakdown\<rparr>;
          p1 = whenSet (pi_InputPrice iv) (\<lambda>v p. p\<lparr>mp_InputPricePerToken := v\<rparr>) p0;
          p2 = whenSet (pi_OutputPrice iv) (\<lambda>v p. p\<lparr>mp_OutputPricePerToken := v\<rparr>) p1;
          p3 = whenSet (pi_CacheWritePrice iv) (\<lambda>v p. applyCacheWritePriceOverride p v base) p2
      in whenSet (pi_CacheReadPrice iv) (\<lambda>v p. p\<lparr>mp_CacheReadPricePerToken := v\<rparr>) p3)"

definition GetIntervalPricing :: "ResolvedPricing \<Rightarrow> int \<Rightarrow> ModelPricing option" where
  "GetIntervalPricing r n =
     (if rp_Intervals r = [] then rp_BasePricing r
      else case FindMatchingInterval (rp_Intervals r) n of
          None \<Rightarrow> rp_BasePricing r
        | Some iv \<Rightarrow> Some (intervalToModelPricing iv (rp_SupportsCacheBreakdown r) (rp_BasePricing r)))"

definition GetRequestTierPrice :: "ResolvedPricing \<Rightarrow> string \<Rightarrow> rat" where
  "GetRequestTierPrice r label =
     (case find (\<lambda>t. pi_TierLabel t = label \<and> pi_PerRequestPrice t \<noteq> None) (rp_RequestTiers r) of
        Some t \<Rightarrow> the (pi_PerRequestPrice t) | None \<Rightarrow> 0)"

definition GetRequestTierPriceByContext :: "ResolvedPricing \<Rightarrow> int \<Rightarrow> rat" where
  "GetRequestTierPriceByContext r n = (case FindMatchingInterval (rp_RequestTiers r) n of
       None \<Rightarrow> 0 | Some iv \<Rightarrow> (case pi_PerRequestPrice iv of None \<Rightarrow> 0 | Some v \<Rightarrow> v))"

section \<open>Entry points\<close>

record CostInput =
  ci_Model :: string
  ci_GroupID :: "int option"
  ci_Tokens :: UsageTokens
  ci_RequestCount :: int
  ci_SizeTier :: string
  ci_RateMultiplier :: rat
  ci_ServiceTier :: string
  ci_Resolver :: "channelLookup option option"
  ci_Resolved :: "ResolvedPricing option"
  ci_LongContextBillingEnabled :: "bool option"

definition calculateCostInternalWithPolicy ::
  "priceList \<Rightarrow> string \<Rightarrow> UsageTokens \<Rightarrow> rat \<Rightarrow> string \<Rightarrow> ChannelModelPricing option \<Rightarrow> bool \<Rightarrow> CostBreakdown option" where
  "calculateCostInternalWithPolicy dyn model t rateMultiplier serviceTier channelPricing longContextBillingEnabled =
     (case (case channelPricing of None \<Rightarrow> GetModelPricing dyn model | Some _ \<Rightarrow> GetModelPricingWithChannel dyn model channelPricing) of
        None \<Rightarrow> None
      | Some p \<Rightarrow> Some (computeTokenBreakdown model p t rateMultiplier serviceTier longContextBillingEnabled))"

definition CalculateCost :: "priceList \<Rightarrow> string \<Rightarrow> UsageTokens \<Rightarrow> rat \<Rightarrow> CostBreakdown option" where
  "CalculateCost dyn model t rateMultiplier = calculateCostInternalWithPolicy dyn model t rateMultiplier [] None True"

definition CalculateCostWithServiceTier :: "priceList \<Rightarrow> string \<Rightarrow> UsageTokens \<Rightarrow> rat \<Rightarrow> string \<Rightarrow> CostBreakdown option" where
  "CalculateCostWithServiceTier dyn model t rateMultiplier serviceTier =
     calculateCostInternalWithPolicy dyn model t rateMultiplier serviceTier None True"

definition calculateTokenCost :: "ResolvedPricing \<Rightarrow> CostInput \<Rightarrow> CostBreakdown option" where
  "calculateTokenCost r i = (case GetIntervalPricing r (totalInputContextTokens (ci_Tokens i)) of
       None \<Rightarrow> None
     | Some p \<Rightarrow>
         let applyLongCtx = (rp_Intervals r = [] \<and> (case ci_LongContextBillingEnabled i of None \<Rightarrow> True | Some b \<Rightarrow> b)) in
         Some (computeTokenBreakdown (ci_Model i) (applyModelSpecificPricingPolicy (ci_Model i) p) (ci_Tokens i) (ci_RateMultiplier i)
           (ci_ServiceTier i) applyLongCtx))"

definition calculatePerRequestCost :: "ResolvedPricing \<Rightarrow> CostInput \<Rightarrow> CostBreakdown" where
  "calculatePerRequestCost r i =
     (let count = (if ci_RequestCount i \<le> 0 then 1 else ci_RequestCount i);
          byLabel = (if ci_SizeTier i \<noteq> [] then GetRequestTierPrice r (ci_SizeTier i) else 0);
          byContext = (if byLabel = 0 then GetRequestTierPriceByContext r (totalInputContextTokens (ci_Tokens i)) else byLabel);
          unitPrice = (if byContext = 0 then rp_DefaultPerRequestPrice r else byContext);
          total = unitPrice * of_int count
      in noCost\<lparr>cb_TotalCost := total, cb_ActualCost := total * ci_RateMultiplier i\<rparr>)"

definition CalculateCostUnified :: "priceList \<Rightarrow> CostInput \<Rightarrow> CostBreakdown option" where
  "CalculateCostUnified dyn i0 = (case ci_Resolver i0 of
       None \<Rightarrow> calculateCostInternalWithPolicy dyn (ci_Model i0) (ci_Tokens i0) (ci_RateMultiplier i0) (ci_ServiceTier i0) None
         (case ci_LongContextBillingEnabled i0 of None \<Rightarrow> True | Some b \<Rightarrow> b)
     | Some channels \<Rightarrow>
         let r = (case ci_Resolved i0 of Some r \<Rightarrow> r | None \<Rightarrow> Resolve dyn channels (ci_Model i0) (ci_GroupID i0));
             i = (if ci_RateMultiplier i0 < 0 then i0\<lparr>ci_RateMultiplier := 0\<rparr> else i0);
             bd = (if rp_Mode r = BillingModePerRequest \<or> rp_Mode r = BillingModeImage then Some (calculatePerRequestCost r i)
               else calculateTokenCost r i)
         in map_option (\<lambda>b. b\<lparr>cb_BillingMode := (if rp_Mode r = [] then BillingModeToken else rp_Mode r)\<rparr>) bd)"

text \<open>
  The older way to charge long contexts: the tokens beyond the threshold cost more. A price that brings a long tier of its own goes
  before it.
\<close>

definition splitTokens :: "UsageTokens \<Rightarrow> int \<Rightarrow> UsageTokens \<times> UsageTokens" where
  "splitTokens t threshold =
     (let (inCache, inInput, outCache, outInput) =
        (if ut_CacheReadTokens t \<ge> threshold then (threshold, 0, ut_CacheReadTokens t - threshold, ut_InputTokens t)
         else (ut_CacheReadTokens t, threshold - ut_CacheReadTokens t, 0, ut_InputTokens t - (threshold - ut_CacheReadTokens t)))
      in (noTokens\<lparr>ut_InputTokens := inInput, ut_OutputTokens := ut_OutputTokens t, ut_CacheCreationTokens := ut_CacheCreationTokens t,
            ut_CacheReadTokens := inCache, ut_CacheCreation5mTokens := ut_CacheCreation5mTokens t,
            ut_CacheCreation1hTokens := ut_CacheCreation1hTokens t, ut_ImageOutputTokens := ut_ImageOutputTokens t\<rparr>,
          noTokens\<lparr>ut_InputTokens := outInput, ut_CacheReadTokens := outCache\<rparr>))"

definition addCosts :: "CostBreakdown \<Rightarrow> CostBreakdown \<Rightarrow> CostBreakdown" where
  "addCosts a b = noCost\<lparr>cb_InputCost := cb_InputCost a + cb_InputCost b, cb_OutputCost := cb_OutputCost a,
     cb_ImageOutputCost := cb_ImageOutputCost a, cb_CacheCreationCost := cb_CacheCreationCost a,
     cb_CacheReadCost := cb_CacheReadCost a + cb_CacheReadCost b, cb_TotalCost := cb_TotalCost a + cb_TotalCost b,
     cb_ActualCost := cb_ActualCost a + cb_ActualCost b\<rparr>"

definition CalculateCostWithLongContext ::
  "priceList \<Rightarrow> string \<Rightarrow> UsageTokens \<Rightarrow> rat \<Rightarrow> int \<Rightarrow> rat \<Rightarrow> CostBreakdown option" where
  "CalculateCostWithLongContext dyn model t rateMultiplier threshold extraMultiplier =
     (if threshold \<le> 0 \<or> extraMultiplier \<le> 1 then CalculateCost dyn model t rateMultiplier
      else case GetModelPricing dyn model of
          None \<Rightarrow> None
        | Some p \<Rightarrow>
            if mp_LongContextInputThreshold p > 0 \<and>
               (mp_LongContextInputMultiplier p > 1 \<or> mp_LongContextOutputMultiplier p > 1 \<or> hasExactLongContextPricing p)
            then Some (computeTokenBreakdown model p t rateMultiplier [] True)
            else if ut_CacheReadTokens t + ut_InputTokens t \<le> threshold then CalculateCost dyn model t rateMultiplier
            else let (inRange, outRange) = splitTokens t threshold in
              (case (CalculateCost dyn model inRange rateMultiplier, CalculateCost dyn model outRange (rateMultiplier * extraMultiplier)) of
                 (Some a, Some b) \<Rightarrow> Some (addCosts a b) | _ \<Rightarrow> None))"

definition CalculateCostWithConfig :: "priceList \<Rightarrow> rat \<Rightarrow> string \<Rightarrow> UsageTokens \<Rightarrow> CostBreakdown option" where
  "CalculateCostWithConfig dyn cfgMultiplier model t = CalculateCost dyn model t (if cfgMultiplier \<le> 0 then 1 else cfgMultiplier)"

definition IsModelSupported :: "string \<Rightarrow> bool" where
  "IsModelSupported model = contains (ToLower model) [''claude'', ''opus'', ''sonnet'', ''haiku'']"

definition GetEstimatedCost :: "priceList \<Rightarrow> rat \<Rightarrow> string \<Rightarrow> int \<Rightarrow> int \<Rightarrow> rat option" where
  "GetEstimatedCost dyn cfgMultiplier model estimatedInputTokens estimatedOutputTokens = map_option cb_ActualCost
     (CalculateCostWithConfig dyn cfgMultiplier model (noTokens\<lparr>ut_InputTokens := estimatedInputTokens, ut_OutputTokens := estimatedOutputTokens\<rparr>))"

end
