(* ===== verification/AccountStats.thy ===== *)
theory AccountStats
  imports ChannelPrices
begin

text \<open>
  What an account is booked for a request, \<^verbatim>\<open>service/account_stats_pricing.go\<close>, and the cost of images, videos and searches of
  \<^verbatim>\<open>service/billing_service.go\<close> with \<^verbatim>\<open>image_billing_size.go\<close> and \<^verbatim>\<open>video_billing_resolution.go\<close>. The channel of a group
  and the group's platform are arguments.
\<close>

section \<open>Account statistics\<close>

record AccountStatsPricingRule =
  sr_GroupIDs :: "int list"
  sr_AccountIDs :: "int list"
  sr_Pricing :: "ChannelModelPricing list"

record Channel =
  ch_ID :: int
  ch_Status :: string
  ch_BillingModelSource :: string
  ch_RestrictModels :: bool
  ch_GroupIDs :: "int list"
  ch_ModelPricing :: "ChannelModelPricing list"
  ch_ModelMapping :: "(string \<times> (string \<times> string) list) list"
  ch_ApplyPricingToAccountStats :: bool
  ch_AccountStatsPricingRules :: "AccountStatsPricingRule list"

definition matchAccountStatsRule :: "AccountStatsPricingRule \<Rightarrow> int \<Rightarrow> int \<Rightarrow> bool" where
  "matchAccountStatsRule rule accountID groupID \<longleftrightarrow>
     \<not> (sr_AccountIDs rule = [] \<and> sr_GroupIDs rule = []) \<and> (accountID \<in> set (sr_AccountIDs rule) \<or> groupID \<in> set (sr_GroupIDs rule))"

definition isPlatformMatch :: "string \<Rightarrow> string \<Rightarrow> bool" where
  "isPlatformMatch q p \<longleftrightarrow> q = [] \<or> p = [] \<or> q = p"

definition wildcardFits :: "string \<Rightarrow> string \<Rightarrow> bool" where
  "wildcardFits modelLower pat = (let ml = ToLower pat in suffix ''*'' ml \<and> prefix (butlast ml) modelLower)"

definition findPricingForModel :: "ChannelModelPricing list \<Rightarrow> string \<Rightarrow> string \<Rightarrow> ChannelModelPricing option" where
  "findPricingForModel pricingList platform modelLower =
     (let ps = filter (\<lambda>p. isPlatformMatch platform (cp_Platform p)) pricingList in
      case find (\<lambda>p. list_ex (\<lambda>m. ToLower m = modelLower) (cp_Models p)) ps of
        Some p \<Rightarrow> Some p
      | None \<Rightarrow> find (\<lambda>p. list_ex (wildcardFits modelLower) (cp_Models p)) ps)"

definition positiveCost :: "rat \<Rightarrow> rat option" where
  "positiveCost c = (if c \<le> 0 then None else Some c)"

definition calculatePerRequestStatsCost :: "ChannelModelPricing \<Rightarrow> int \<Rightarrow> rat option" where
  "calculatePerRequestStatsCost p requestCount = (case cp_PerRequestPrice p of
       None \<Rightarrow> None | Some v \<Rightarrow> if v \<le> 0 then None else Some (v * of_int requestCount))"

definition deref :: "rat option \<Rightarrow> rat" where
  "deref v = (case v of None \<Rightarrow> 0 | Some x \<Rightarrow> x)"

definition calculateChannelCacheWriteCost :: "rat option \<Rightarrow> UsageTokens \<Rightarrow> rat" where
  "calculateChannelCacheWriteCost price t = (case price of
       None \<Rightarrow> 0
     | Some v \<Rightarrow>
         if v \<le> 0 then 0
         else if ut_CacheCreation5mTokens t > 0 \<or> ut_CacheCreation1hTokens t > 0
         then of_int (ut_CacheCreation5mTokens t) * v + of_int (ut_CacheCreation1hTokens t) * deriveOneHourCacheWritePrice None v
         else of_int (ut_CacheCreationTokens t) * v)"

definition noChannelPricing :: ChannelModelPricing where
  "noChannelPricing = \<lparr>cp_Platform = [], cp_Models = [], cp_BillingMode = [], cp_InputPrice = None, cp_OutputPrice = None,
     cp_CacheWritePrice = None, cp_CacheReadPrice = None, cp_ImageInputPrice = None, cp_ImageCacheReadPrice = None,
     cp_ImageOutputPrice = None, cp_PerRequestPrice = None, cp_Intervals = []\<rparr>"

definition statsPricing :: "ChannelModelPricing \<Rightarrow> UsageTokens \<Rightarrow> ChannelModelPricing" where
  "statsPricing p t =
     (let n = ut_InputTokens t + ut_OutputTokens t + ut_CacheCreationTokens t + ut_CacheReadTokens t in
      if cp_Intervals p = [] then p
      else case FindMatchingInterval (cp_Intervals p) n of
          None \<Rightarrow> p
        | Some iv \<Rightarrow> noChannelPricing\<lparr>cp_InputPrice := pi_InputPrice iv, cp_OutputPrice := pi_OutputPrice iv,
            cp_CacheWritePrice := pi_CacheWritePrice iv, cp_CacheReadPrice := pi_CacheReadPrice iv, cp_PerRequestPrice := pi_PerRequestPrice iv\<rparr>)"

definition calculateTokenStatsCost :: "ChannelModelPricing \<Rightarrow> UsageTokens \<Rightarrow> rat option" where
  "calculateTokenStatsCost p0 t =
     (let p = statsPricing p0 t; inputPrice = deref (cp_InputPrice p); cacheReadPrice = deref (cp_CacheReadPrice p);
          imageInputPrice = (if deref (cp_ImageInputPrice p) = 0 then inputPrice else deref (cp_ImageInputPrice p));
          imageCacheReadPrice = (if deref (cp_ImageCacheReadPrice p) = 0 then cacheReadPrice else deref (cp_ImageCacheReadPrice p));
          imageCacheRead = clampImageCacheReadTokens t;
          text0 = ut_OutputTokens t - ut_ImageOutputTokens t; textOutput = (if text0 < 0 then 0 else text0)
      in positiveCost (of_int (ut_InputTokens t + ut_TextInputTokens t) * inputPrice + of_int (ut_ImageInputTokens t) * imageInputPrice +
           of_int textOutput * deref (cp_OutputPrice p) + calculateChannelCacheWriteCost (cp_CacheWritePrice p) t +
           of_int (ut_CacheReadTokens t - imageCacheRead) * cacheReadPrice + of_int imageCacheRead * imageCacheReadPrice +
           of_int (ut_ImageOutputTokens t) * deref (cp_ImageOutputPrice p)))"

definition calculateStatsCost :: "ChannelModelPricing \<Rightarrow> UsageTokens \<Rightarrow> int \<Rightarrow> rat option" where
  "calculateStatsCost p t requestCount =
     (if cp_BillingMode p = BillingModePerRequest \<or> cp_BillingMode p = BillingModeImage
      then calculatePerRequestStatsCost p requestCount else calculateTokenStatsCost p t)"

text \<open>The first rule that fits and has a price for the model decides, even if it decides on nothing.\<close>

fun tryRules :: "AccountStatsPricingRule list \<Rightarrow> int \<Rightarrow> int \<Rightarrow> string \<Rightarrow> string \<Rightarrow> UsageTokens \<Rightarrow> int \<Rightarrow> rat option" where
  "tryRules [] accountID groupID platform modelLower t requestCount = None"
| "tryRules (rule # rest) accountID groupID platform modelLower t requestCount =
     (if \<not> matchAccountStatsRule rule accountID groupID then tryRules rest accountID groupID platform modelLower t requestCount
      else case findPricingForModel (sr_Pricing rule) platform modelLower of
          None \<Rightarrow> tryRules rest accountID groupID platform modelLower t requestCount
        | Some p \<Rightarrow> calculateStatsCost p t requestCount)"

definition tryCustomRules :: "Channel \<Rightarrow> int \<Rightarrow> int \<Rightarrow> string \<Rightarrow> string \<Rightarrow> UsageTokens \<Rightarrow> int \<Rightarrow> rat option" where
  "tryCustomRules c accountID groupID platform model t requestCount =
     tryRules (ch_AccountStatsPricingRules c) accountID groupID platform (ToLower model) t requestCount"

definition tryModelFilePricing :: "priceList \<Rightarrow> string \<Rightarrow> UsageTokens \<Rightarrow> rat option" where
  "tryModelFilePricing dyn model t = (case CalculateCost dyn model t 1 of None \<Rightarrow> None | Some b \<Rightarrow> positiveCost (cb_TotalCost b))"

definition resolveAccountStatsCost ::
  "priceList \<Rightarrow> Channel option \<Rightarrow> string \<Rightarrow> int \<Rightarrow> int \<Rightarrow> string \<Rightarrow> UsageTokens \<Rightarrow> int \<Rightarrow> rat \<Rightarrow> rat option" where
  "resolveAccountStatsCost dyn channelOfGroup platform accountID groupID upstreamModel t requestCount totalCost =
     (if upstreamModel = [] then None
      else case channelOfGroup of
          None \<Rightarrow> None
        | Some c \<Rightarrow>
            (case tryCustomRules c accountID groupID platform upstreamModel t requestCount of
               Some cost \<Rightarrow> Some cost
             | None \<Rightarrow>
                 if ch_ApplyPricingToAccountStats c then positiveCost totalCost
                 else tryModelFilePricing dyn upstreamModel t))"

definition applyAccountStatsCost ::
  "priceList \<Rightarrow> Channel option \<Rightarrow> string \<Rightarrow> int \<Rightarrow> int \<Rightarrow> string \<Rightarrow> string \<Rightarrow> UsageTokens \<Rightarrow> rat \<Rightarrow> rat option" where
  "applyAccountStatsCost dyn channelOfGroup platform accountID groupID upstreamModel requestedModel t totalCost =
     resolveAccountStatsCost dyn channelOfGroup platform accountID groupID
       (if upstreamModel = [] then requestedModel else upstreamModel) t 1 totalCost"

section \<open>Images\<close>

definition ImageBillingSize1K :: string where "ImageBillingSize1K = ''1K''"
definition ImageBillingSize2K :: string where "ImageBillingSize2K = ''2K''"
definition ImageBillingSize4K :: string where "ImageBillingSize4K = ''4K''"

definition parseImageBillingDimensions :: "string \<Rightarrow> (int \<times> int) option" where
  "parseImageBillingDimensions sz = (case split_byte (CHR ''x'') (ToLower (TrimSpace sz)) of
       [a, b] \<Rightarrow> (case (Atoi (TrimSpace a), Atoi (TrimSpace b)) of
           (Some width, Some height) \<Rightarrow> if width \<le> 0 \<or> height \<le> 0 then None else Some (width, height)
         | _ \<Rightarrow> None)
     | _ \<Rightarrow> None)"

definition ClassifyImageBillingTier :: "string \<Rightarrow> string option" where
  "ClassifyImageBillingTier sz =
     (let trimmed = TrimSpace sz; n = ToLower trimmed in
      if n \<in> set [[], ''auto''] then None
      else if n = ''1k'' then Some ImageBillingSize1K
      else if n = ''2k'' then Some ImageBillingSize2K
      else if n = ''4k'' then Some ImageBillingSize4K
      else if n \<in> set [''2048x2048'', ''2048x1152''] then Some ImageBillingSize2K
      else if n \<in> set [''3840x2160'', ''2160x3840''] then Some ImageBillingSize4K
      else case parseImageBillingDimensions trimmed of
          None \<Rightarrow> None
        | Some (width, height) \<Rightarrow>
            let maxEdge = (if height > width then height else width) in
            Some (if maxEdge \<le> 1024 then ImageBillingSize1K else if maxEdge \<le> 2048 then ImageBillingSize2K else ImageBillingSize4K))"

definition NormalizeImageBillingTierOrDefault :: "string \<Rightarrow> string" where
  "NormalizeImageBillingTierOrDefault sz = (case ClassifyImageBillingTier sz of Some tier \<Rightarrow> tier | None \<Rightarrow> ImageBillingSize2K)"

record ImagePriceConfig =
  ip_Price1K :: "rat option"
  ip_Price2K :: "rat option"
  ip_Price4K :: "rat option"

definition getGrokImagineImageTierPrice :: "string \<Rightarrow> rat \<Rightarrow> rat \<Rightarrow> rat" where
  "getGrokImagineImageTierPrice imageSize price1K price2K =
     (if NormalizeImageBillingTierOrDefault imageSize = ImageBillingSize1K then price1K else price2K)"

definition getDefaultGrokImagineImagePrice :: "string \<Rightarrow> string \<Rightarrow> rat option" where
  "getDefaultGrokImagineImagePrice model imageSize =
     (let n = ToLower (TrimSpace model) in
      if n = ''grok-imagine-image-quality'' then Some (getGrokImagineImageTierPrice imageSize (5 / 100) (7 / 100))
      else if n \<in> set [''grok-imagine'', ''grok-imagine-image'', ''grok-imagine-edit'']
      then Some (getGrokImagineImageTierPrice imageSize (2 / 100) (2 / 100))
      else None)"

definition defaultImageGenerationPrice :: rat where "defaultImageGenerationPrice = 134 / 1000"

definition getDefaultImagePrice :: "priceList \<Rightarrow> string \<Rightarrow> string \<Rightarrow> rat" where
  "getDefaultImagePrice dyn model imageSize =
     (case getDefaultGrokImagineImagePrice model imageSize of
        Some price \<Rightarrow> price
      | None \<Rightarrow>
          let base0 = (case dyn model of None \<Rightarrow> 0 | Some l \<Rightarrow> if ll_OutputCostPerImage l > 0 then ll_OutputCostPerImage l else 0);
              basePrice = (if base0 \<le> 0 then defaultImageGenerationPrice else base0)
          in if imageSize = ''2K'' then basePrice * (3 / 2) else if imageSize = ''4K'' then basePrice * 2 else basePrice)"

definition getImageUnitPrice :: "priceList \<Rightarrow> string \<Rightarrow> string \<Rightarrow> ImagePriceConfig option \<Rightarrow> rat" where
  "getImageUnitPrice dyn model imageSize groupConfig =
     (let configured = (case groupConfig of
          None \<Rightarrow> None
        | Some c \<Rightarrow> if imageSize = ''1K'' then ip_Price1K c else if imageSize = ''2K'' then ip_Price2K c
            else if imageSize = ''4K'' then ip_Price4K c else None)
      in case configured of Some v \<Rightarrow> v | None \<Rightarrow> getDefaultImagePrice dyn model imageSize)"

definition flatCost :: "rat \<Rightarrow> rat \<Rightarrow> string \<Rightarrow> CostBreakdown" where
  "flatCost totalCost rateMultiplier mode = noCost\<lparr>cb_TotalCost := totalCost,
     cb_ActualCost := totalCost * (if rateMultiplier < 0 then 0 else rateMultiplier), cb_BillingMode := mode\<rparr>"

definition CalculateImageCost :: "priceList \<Rightarrow> string \<Rightarrow> string \<Rightarrow> int \<Rightarrow> ImagePriceConfig option \<Rightarrow> rat \<Rightarrow> CostBreakdown" where
  "CalculateImageCost dyn model imageSize imageCount groupConfig rateMultiplier =
     (if imageCount \<le> 0 then noCost
      else flatCost (getImageUnitPrice dyn model (NormalizeImageBillingTierOrDefault imageSize) groupConfig * of_int imageCount)
        rateMultiplier BillingModeImage)"

section \<open>Videos and searches\<close>

definition VideoBillingResolution480P :: string where "VideoBillingResolution480P = ''480p''"
definition VideoBillingResolution720P :: string where "VideoBillingResolution720P = ''720p''"
definition VideoBillingResolution1080P :: string where "VideoBillingResolution1080P = ''1080p''"

definition NormalizeVideoBillingDurationSecondsOrDefault :: "int \<Rightarrow> int" where
  "NormalizeVideoBillingDurationSecondsOrDefault d = (if d \<le> 0 then 8 else if d < 1 then 1 else if d > 15 then 15 else d)"

definition NormalizeVideoBillingResolutionOrDefault :: "string \<Rightarrow> string" where
  "NormalizeVideoBillingResolutionOrDefault resolution =
     (let n = ToLower (TrimSpace resolution) in
      if n \<in> set [''480'', ''480p'', ''sd''] then VideoBillingResolution480P
      else if n \<in> set [''720'', ''720p'', ''hd''] then VideoBillingResolution720P
      else if n \<in> set [''1080'', ''1080p'', ''full_hd'', ''full-hd'', ''fhd''] then VideoBillingResolution1080P
      else VideoBillingResolution480P)"

record VideoPriceConfig =
  vp_Price480P :: "rat option"
  vp_Price720P :: "rat option"
  vp_Price1080P :: "rat option"

definition getDefaultGrokImagineVideoPrice :: "string \<Rightarrow> string \<Rightarrow> rat option" where
  "getDefaultGrokImagineVideoPrice model0 resolution =
     (let model = ToLower (TrimSpace model0); r = NormalizeVideoBillingResolutionOrDefault resolution in
      if prefix ''grok-imagine-video-1.5'' model then
        (if r = VideoBillingResolution480P then Some (8 / 100) else if r = VideoBillingResolution720P then Some (14 / 100)
         else if r = VideoBillingResolution1080P then Some (25 / 100) else None)
      else if prefix ''grok-imagine-video'' model then
        (if r = VideoBillingResolution480P then Some (5 / 100) else Some (7 / 100))
      else None)"

definition getVideoUnitPrice :: "priceList \<Rightarrow> string \<Rightarrow> string \<Rightarrow> VideoPriceConfig option \<Rightarrow> rat" where
  "getVideoUnitPrice dyn model resolution groupConfig =
     (let configured = (case groupConfig of
          None \<Rightarrow> None
        | Some c \<Rightarrow> if resolution = VideoBillingResolution480P then vp_Price480P c
            else if resolution = VideoBillingResolution720P then vp_Price720P c
            else if resolution = VideoBillingResolution1080P then vp_Price1080P c else None)
      in case configured of
           Some v \<Rightarrow> v
         | None \<Rightarrow> (case getDefaultGrokImagineVideoPrice model resolution of
             Some v \<Rightarrow> v | None \<Rightarrow> getDefaultImagePrice dyn model ImageBillingSize2K))"

definition CalculateVideoCost :: "priceList \<Rightarrow> string \<Rightarrow> string \<Rightarrow> int \<Rightarrow> int \<Rightarrow> VideoPriceConfig option \<Rightarrow> rat \<Rightarrow> CostBreakdown" where
  "CalculateVideoCost dyn model resolution videoCount durationSeconds groupConfig rateMultiplier =
     (if videoCount \<le> 0 then noCost
      else flatCost (getVideoUnitPrice dyn model (NormalizeVideoBillingResolutionOrDefault resolution) groupConfig *
          of_int (NormalizeVideoBillingDurationSecondsOrDefault durationSeconds) * of_int videoCount) rateMultiplier BillingModeVideo)"

definition CalculateWebSearchCost :: "int \<Rightarrow> rat option \<Rightarrow> rat \<Rightarrow> CostBreakdown" where
  "CalculateWebSearchCost callCount groupPrice rateMultiplier =
     (if callCount \<le> 0 then noCost
      else let unitPrice = (case groupPrice of Some v \<Rightarrow> if v \<ge> 0 then v else 1 / 100 | None \<Rightarrow> 1 / 100) in
        flatCost (unitPrice * of_int callCount) rateMultiplier BillingModePerRequest)"

end
