(* ===== verification/CostFacts.thy ===== *)
theory CostFacts
  imports AccountStats "HOL-Library.Multiset"
begin

text \<open>
  The theorems on prices and costs: that the ways to a price agree, that valid intervals decide a price, what tiers and long
  contexts do to a cost, and where the books of the customer and of the account differ.
\<close>

section \<open>Lower case\<close>

lemma lower_char_code: "(of_char (lower_char c) :: nat) = (if 65 \<le> (of_char c :: nat) \<and> (of_char c :: nat) \<le> 90 then of_char c + 32 else of_char c)"
proof -
  have "(of_char c :: nat) < 256" by simp
  then show ?thesis by (auto simp: lower_char_def)
qed

lemma lower_char_idem [simp]: "lower_char (lower_char c) = lower_char c"
proof -
  have "(of_char (lower_char (lower_char c)) :: nat) = of_char (lower_char c)" by (simp add: lower_char_code)
  then show ?thesis by simp
qed

lemma ToLower_idem [simp]: "ToLower (ToLower s) = ToLower s"
  by (simp add: ToLower_def)

text \<open>Trimming, splitting and lowering commute, for no encoding of a space and no slash has a letter in it.\<close>

definition noLetter :: "char \<Rightarrow> bool" where
  "noLetter b \<longleftrightarrow> \<not> (65 \<le> (of_char b :: nat) \<and> (of_char b :: nat) \<le> 90) \<and> \<not> (97 \<le> (of_char b :: nat) \<and> (of_char b :: nat) \<le> 122)"

lemma lower_noLetter: "noLetter b \<Longrightarrow> lower_char c = b \<longleftrightarrow> c = b"
proof -
  assume b: "noLetter b"
  have "lower_char c = b \<longleftrightarrow> (of_char (lower_char c) :: nat) = of_char b" by simp
  also have "\<dots> \<longleftrightarrow> (of_char c :: nat) = of_char b" using b by (auto simp: lower_char_code noLetter_def)
  finally show ?thesis by simp
qed

lemma noLetter_lower: "noLetter b \<Longrightarrow> b = lower_char c \<longleftrightarrow> b = c"
  using lower_noLetter [of b c] by (simp add: eq_commute)

lemma prefix_lower: "list_all noLetter w \<Longrightarrow> prefix w (map lower_char s) \<longleftrightarrow> prefix w s"
proof (induction w arbitrary: s)
  case (Cons b w)
  then show ?case by (cases s) (simp_all add: noLetter_lower)
qed simp

lemma find_prefix_lower:
  "list_all (list_all noLetter) ws \<Longrightarrow>
   find (\<lambda>w. w \<noteq> [] \<and> prefix w (map lower_char s)) ws = find (\<lambda>w. w \<noteq> [] \<and> prefix w s) ws"
  by (induction ws) (auto simp: prefix_lower)

lemma trim_words_lower:
  "list_all (list_all noLetter) ws \<Longrightarrow> trim_words ws (map lower_char s) = map lower_char (trim_words ws s)"
proof (induction ws s rule: trim_words.induct)
  case (1 ws s)
  show ?case
  proof (cases "find (\<lambda>w. w \<noteq> [] \<and> prefix w s) ws")
    case None
    then show ?thesis by (simp add: trim_words.simps [of ws "map lower_char s"] trim_words.simps [of ws s] find_prefix_lower "1.prems")
  next
    case (Some w)
    with "1.IH" "1.prems" have "trim_words ws (map lower_char (drop (length w) s)) = map lower_char (trim_words ws (drop (length w) s))" by simp
    with Some show ?thesis
      by (simp add: trim_words.simps [of ws "map lower_char s"] trim_words.simps [of ws s] find_prefix_lower "1.prems" drop_map)
  qed
qed

lemma spaces_noLetter: "list_all (list_all noLetter) go_spaces" "list_all (list_all noLetter) (map rev go_spaces)"
  by code_simp+

lemma TrimSpace_lower: "TrimSpace (ToLower s) = ToLower (TrimSpace s)"
  by (simp add: TrimSpace_def ToLower_def trim_words_lower spaces_noLetter rev_map)

lemma split_lower: "noLetter c \<Longrightarrow> split_byte c (map lower_char s) = map (map lower_char) (split_byte c s)"
  by (induction s) (auto simp: lower_noLetter split: list.split)

lemma split_byte_nonempty: "split_byte c s \<noteq> []"
  by (induction s) (auto split: list.split)

lemma sublist_single: "sublist [c] u \<longleftrightarrow> c \<in> set u"
  by (metis in_set_conv_decomp list.set_intros(1) set_mono_sublist subsetD sublist_appendI append_Cons append_Nil)

lemma slash_lower: "sublist ''/'' (map lower_char s) \<longleftrightarrow> sublist ''/'' s"
proof -
  have "noLetter (CHR ''/'')" by code_simp
  then show ?thesis by (simp add: sublist_single image_iff noLetter_lower)
qed

lemma segment_lower: "lastOpenAIModelSegment (ToLower s) = ToLower (lastOpenAIModelSegment s)"
proof -
  have "noLetter (CHR ''/'')" by code_simp
  then have "last (split_byte (CHR ''/'') (map lower_char u)) = map lower_char (last (split_byte (CHR ''/'') u))" for u
    by (simp add: split_lower last_map split_byte_nonempty)
  then show ?thesis
    by (simp add: lastOpenAIModelSegment_def Let_def TrimSpace_lower ToLower_def slash_lower
        TrimSpace_lower [unfolded ToLower_def])
qed

lemma canonicalize_lower: "canonicalizeOpenAIModelAliasSpelling (ToLower s) = canonicalizeOpenAIModelAliasSpelling s"
  by (simp add: canonicalizeOpenAIModelAliasSpelling_def segment_lower)

lemma families_lower [simp]:
  "isOpenAIGPT54Model (ToLower m) = isOpenAIGPT54Model m" "isOpenAIGPT56Model (ToLower m) = isOpenAIGPT56Model m"
  by (simp_all add: isOpenAIGPT54Model_def isOpenAIGPT56Model_def canonicalize_lower)

lemma policy_lower [simp]: "applyModelSpecificPricingPolicy (ToLower m) p = applyModelSpecificPricingPolicy m p"
  by (simp add: applyModelSpecificPricingPolicy_def)

section \<open>Intervals\<close>

definition endsBefore :: "PricingInterval \<Rightarrow> PricingInterval \<Rightarrow> bool" where
  "endsBefore a b \<longleftrightarrow> (case pi_MaxTokens a of None \<Rightarrow> False | Some m \<Rightarrow> m \<le> pi_MinTokens b)"

lemma no_overlap:
  "validateIntervalOverlap ivs \<Longrightarrow> sorted (map pi_MinTokens ivs) \<Longrightarrow> sorted_wrt endsBefore ivs"
proof (induction ivs rule: validateIntervalOverlap.induct)
  case (3 iv nxt rest)
  then obtain m where m: "pi_MaxTokens iv = Some m" "m \<le> pi_MinTokens nxt" by (auto split: option.splits)
  from "3" have "sorted_wrt endsBefore (nxt # rest)" by simp
  moreover have "endsBefore iv z" if "z \<in> set (nxt # rest)" for z
    using that m "3.prems"(2) by (auto simp: endsBefore_def)
  ultimately show ?case by simp
qed simp_all

lemma valid_disjoint: "ValidateIntervals ivs \<Longrightarrow> sorted_wrt endsBefore (sort_key pi_MinTokens ivs)"
  by (simp add: ValidateIntervals_def Let_def no_overlap)

lemma not_both: "endsBefore a b \<Longrightarrow> matchesInterval n a \<Longrightarrow> \<not> matchesInterval n b"
  by (auto simp: endsBefore_def matchesInterval_def split: option.splits)

lemma at_most_one: "sorted_wrt endsBefore ivs \<Longrightarrow> length (filter (matchesInterval n) ivs) \<le> 1"
  by (induction ivs) (auto simp: filter_empty_conv not_both Suc_le_eq)

lemma find_filter: "find p xs = (case filter p xs of [] \<Rightarrow> None | x # _ \<Rightarrow> Some x)"
  by (induction xs) auto

lemma mset_short: "mset xs = mset ys \<Longrightarrow> length ys \<le> 1 \<Longrightarrow> xs = ys"
  by (cases ys) simp_all

lemma find_valid:
  assumes "ValidateIntervals ivs" "mset ivs' = mset ivs"
  shows "filter (matchesInterval n) ivs' = filter (matchesInterval n) (sort_key pi_MinTokens ivs)"
proof (rule mset_short)
  show "mset (filter (matchesInterval n) ivs') = mset (filter (matchesInterval n) (sort_key pi_MinTokens ivs))"
    by (simp add: assms)
qed (rule at_most_one [OF valid_disjoint [OF assms(1)]])

lemma two_unbounded:
  assumes "2 \<le> length (filter (\<lambda>iv. pi_MaxTokens iv = None) ivs)"
  shows "\<not> ValidateIntervals ivs"
proof
  assume "ValidateIntervals ivs"
  then have "sorted_wrt endsBefore (filter (\<lambda>iv. pi_MaxTokens iv = None) (sort_key pi_MinTokens ivs))"
    by (rule sorted_wrt_filter [OF valid_disjoint])
  moreover have "length (filter (\<lambda>iv. pi_MaxTokens iv = None) (sort_key pi_MinTokens ivs)) = length (filter (\<lambda>iv. pi_MaxTokens iv = None) ivs)"
    by (metis mset_filter mset_sort size_mset)
  then obtain a b rest where ab: "filter (\<lambda>iv. pi_MaxTokens iv = None) (sort_key pi_MinTokens ivs) = a # b # rest"
    using assms by (cases "filter (\<lambda>iv. pi_MaxTokens iv = None) (sort_key pi_MinTokens ivs)"
        rule: remdups_adj.cases) simp_all
  moreover have "pi_MaxTokens a = None"
    using ab by (metis (mono_tags, lifting) list.set_intros(1) mem_Collect_eq set_filter)
  ultimately show False by (auto simp: endsBefore_def)
qed

section \<open>Prices of a channel\<close>

definition fillPos :: "'a::{zero,ord} \<Rightarrow> 'a \<Rightarrow> 'a" where
  "fillPos d x = (if x \<le> 0 then d else x)"

lemma fillPos_idem [simp]: "fillPos d (fillPos d x) = fillPos d x"
  by (simp add: fillPos_def)

definition fillCache :: "ModelPricing \<Rightarrow> ModelPricing" where
  "fillCache p = p\<lparr>mp_CacheCreationPricePerToken := fillPos (mp_InputPricePerToken p * (5 / 4)) (mp_CacheCreationPricePerToken p),
     mp_CacheCreationPricePerTokenPriority := fillPos (mp_InputPricePerTokenPriority p * (5 / 4)) (mp_CacheCreationPricePerTokenPriority p)\<rparr>"

definition fillLong :: "ModelPricing \<Rightarrow> ModelPricing" where
  "fillLong p = p\<lparr>mp_LongContextInputThreshold := fillPos openAIGPT54LongContextInputThreshold (mp_LongContextInputThreshold p),
     mp_LongContextInputMultiplier := fillPos openAIGPT54LongContextInputMultiplier (mp_LongContextInputMultiplier p),
     mp_LongContextOutputMultiplier := fillPos openAIGPT54LongContextOutputMultiplier (mp_LongContextOutputMultiplier p)\<rparr>"

definition needsLong :: "ModelPricing \<Rightarrow> bool" where
  "needsLong p \<longleftrightarrow> mp_LongContextInputThreshold p \<le> 0 \<or> mp_LongContextInputMultiplier p \<le> 0 \<or> mp_LongContextOutputMultiplier p \<le> 0"

definition needsCache :: "ModelPricing \<Rightarrow> bool" where
  "needsCache p \<longleftrightarrow> \<not> mp_CacheCreationPriceExplicit p \<and> (mp_CacheCreationPricePerToken p \<le> 0 \<or>
     mp_InputPricePerTokenPriority p > 0 \<and> mp_CacheCreationPricePerTokenPriority p \<le> 0)"

lemma policy_filled:
  "applyModelSpecificPricingPolicy m p =
     (if isOpenAIGPT54Model m \<and> (needsLong p \<or> isOpenAIGPT56Model m \<and> needsCache p)
      then fillLong (if isOpenAIGPT56Model m \<and> \<not> mp_CacheCreationPriceExplicit p then fillCache p else p) else p)"
proof (cases "isOpenAIGPT56Model m \<and> \<not> mp_CacheCreationPriceExplicit p")
  case True
  then show ?thesis
    unfolding applyModelSpecificPricingPolicy_def Let_def needsLong_def [symmetric] needsCache_def [symmetric]
    by (cases "isOpenAIGPT54Model m"; cases "needsLong p"; cases "needsCache p")
      (simp_all add: fillLong_def fillCache_def fillPos_def split del: if_split cong: if_cong)
next
  case False
  then show ?thesis
    unfolding applyModelSpecificPricingPolicy_def Let_def needsLong_def [symmetric] needsCache_def [symmetric]
    by (cases "isOpenAIGPT54Model m"; cases "needsLong p"; cases "isOpenAIGPT56Model m"; cases "needsCache p")
      (simp_all add: fillLong_def fillPos_def split del: if_split cong: if_cong)
qed

lemma fill_twice:
  "fillLong (fillLong p) = fillLong p" "fillCache (fillLong p) = fillLong (fillCache p)" "fillCache (fillCache p) = fillCache p"
  "mp_CacheCreationPriceExplicit (fillLong p) = mp_CacheCreationPriceExplicit p"
  "mp_CacheCreationPriceExplicit (fillCache p) = mp_CacheCreationPriceExplicit p"
  by (simp_all add: fillLong_def fillCache_def)

lemma policy_idem [simp]:
  "applyModelSpecificPricingPolicy m (applyModelSpecificPricingPolicy m p) = applyModelSpecificPricingPolicy m p"
  unfolding policy_filled
  by (cases "isOpenAIGPT54Model m"; cases "isOpenAIGPT56Model m"; cases "mp_CacheCreationPriceExplicit p"; cases "needsLong p"; cases "needsCache p")
    (simp_all add: fill_twice)

lemma filled_long: "\<not> needsLong (fillLong p)"
  by (simp add: needsLong_def fillLong_def fillPos_def openAIGPT54LongContextInputThreshold_def
      openAIGPT54LongContextInputMultiplier_def openAIGPT54LongContextOutputMultiplier_def)

lemma policy_fixed_needs:
  assumes fixed: "applyModelSpecificPricingPolicy m q = q" and m: "isOpenAIGPT54Model m"
  shows "\<not> needsLong q"
  using filled_long fixed m by (metis policy_filled)

lemma fill_priority:
  "mp_CacheCreationPricePerTokenPriority (fillLong (fillCache q)) =
   fillPos (mp_InputPricePerTokenPriority q * (5 / 4)) (mp_CacheCreationPricePerTokenPriority q)"
  by (simp add: fillLong_def fillCache_def)

lemma fill_standard:
  "mp_CacheCreationPricePerToken (fillLong (fillCache q)) = fillPos (mp_InputPricePerToken q * (5 / 4)) (mp_CacheCreationPricePerToken q)"
  by (simp add: fillLong_def fillCache_def)

lemma policy_fixed_cache:
  assumes fixed: "applyModelSpecificPricingPolicy m q = q" and m: "isOpenAIGPT54Model m" "isOpenAIGPT56Model m"
    and pos: "mp_CacheCreationPriceExplicit q \<or> 0 < mp_CacheCreationPricePerToken q"
  shows "\<not> needsCache q"
proof
  assume n: "needsCache q"
  then have "\<not> mp_CacheCreationPriceExplicit q" by (simp add: needsCache_def)
  with n m fixed have "q = fillLong (fillCache q)" by (simp add: policy_filled)
  then have "mp_CacheCreationPricePerTokenPriority q = fillPos (mp_InputPricePerTokenPriority q * (5 / 4)) (mp_CacheCreationPricePerTokenPriority q)"
    by (metis fill_priority)
  with n pos show False by (auto simp: needsCache_def fillPos_def split: if_splits)
qed

text \<open>A fixed price of a GPT-5.6 model with a price for input has one for cache writes.\<close>

lemma policy_fixed_input:
  assumes fixed: "applyModelSpecificPricingPolicy m q = q" and m: "isOpenAIGPT54Model m" "isOpenAIGPT56Model m"
    and pos: "0 < mp_InputPricePerToken q"
  shows "mp_CacheCreationPriceExplicit q \<or> 0 < mp_CacheCreationPricePerToken q"
proof (rule ccontr)
  assume "\<not> ?thesis"
  then have none: "\<not> mp_CacheCreationPriceExplicit q" "mp_CacheCreationPricePerToken q \<le> 0" by auto
  then have "needsCache q" by (simp add: needsCache_def)
  with m fixed none have "q = fillLong (fillCache q)" by (simp add: policy_filled)
  then have "mp_CacheCreationPricePerToken q = fillPos (mp_InputPricePerToken q * (5 / 4)) (mp_CacheCreationPricePerToken q)"
    by (metis fill_standard)
  with none pos show False by (simp add: fillPos_def)
qed

lemma whenSet_keep: "(\<And>v p. f (g v p) = f p) \<Longrightarrow> f (whenSet v g p) = f p"
  by (simp add: whenSet_def split: option.split)

lemma whenSet_simps [simp]: "whenSet None g p = p" "whenSet (Some v) g p = g v p"
  by (simp_all add: whenSet_def)

lemma flat_long: "needsLong (flatOverrides c q) = needsLong q"
  by (simp add: needsLong_def flatOverrides_def Let_def applyCacheWritePriceOverride_def whenSet_keep [of mp_LongContextInputThreshold]
      whenSet_keep [of mp_LongContextInputMultiplier] whenSet_keep [of mp_LongContextOutputMultiplier])

lemma flat_cache: "\<not> needsCache q \<Longrightarrow> \<not> needsCache (flatOverrides c q)"
  by (cases "cp_CacheWritePrice c"; cases "cp_InputPrice c")
    (auto simp: needsCache_def flatOverrides_def Let_def applyCacheWritePriceOverride_def
      whenSet_keep [of mp_CacheCreationPriceExplicit] whenSet_keep [of mp_CacheCreationPricePerToken]
      whenSet_keep [of mp_InputPricePerTokenPriority] whenSet_keep [of mp_CacheCreationPricePerTokenPriority])

lemma policy_flat:
  assumes "applyModelSpecificPricingPolicy m q = q"
    and "isOpenAIGPT56Model m \<Longrightarrow> 0 < mp_InputPricePerToken q \<or> mp_CacheCreationPriceExplicit q \<or> 0 < mp_CacheCreationPricePerToken q"
  shows "applyModelSpecificPricingPolicy m (flatOverrides c q) = flatOverrides c q"
  using assms policy_fixed_needs [OF assms(1)] policy_fixed_cache [OF assms(1)] policy_fixed_input [OF assms(1)]
  by (auto simp: policy_filled [of m "flatOverrides c q"] flat_long flat_cache)

lemma GetModelPricing_fixed: "GetModelPricing dyn m = Some q \<Longrightarrow> applyModelSpecificPricingPolicy m q = q"
  by (auto simp: GetModelPricing_def Let_def split: option.splits)

lemma negative_rate: "r < 0 \<Longrightarrow> computeTokenBreakdown m p t 0 tier b = computeTokenBreakdown m p t r tier b"
  by (simp add: computeTokenBreakdown_def)

lemma Resolve_flat:
  assumes "case lookup g m of None \<Rightarrow> True | Some c \<Rightarrow>
      cp_BillingMode c \<noteq> BillingModePerRequest \<and> cp_BillingMode c \<noteq> BillingModeImage \<and> filterValidIntervals (cp_Intervals c) = []"
    and "GetModelPricing dyn m = Some q"
  shows "rp_Mode (Resolve dyn (Some lookup) m (Some g)) = BillingModeToken"
    and "rp_Intervals (Resolve dyn (Some lookup) m (Some g)) = []"
    and "rp_BasePricing (Resolve dyn (Some lookup) m (Some g)) = GetModelPricingWithChannel dyn m (lookup g m)"
  using assms
  by (auto simp: Resolve_def resolveBasePricing_def applyChannelOverrides_def applyTokenOverrides_def GetModelPricingWithChannel_def Let_def
      emptyResolved_def BillingModeToken_def BillingModePerRequest_def BillingModeImage_def split: option.splits)

section \<open>Tiers\<close>

definition scaleCost :: "rat \<Rightarrow> CostBreakdown \<Rightarrow> CostBreakdown" where
  "scaleCost k b = b\<lparr>cb_InputCost := k * cb_InputCost b, cb_ImageInputCost := k * cb_ImageInputCost b, cb_OutputCost := k * cb_OutputCost b,
     cb_ImageOutputCost := k * cb_ImageOutputCost b, cb_CacheCreationCost := k * cb_CacheCreationCost b,
     cb_CacheReadCost := k * cb_CacheReadCost b, cb_TotalCost := k * cb_TotalCost b, cb_ActualCost := k * cb_ActualCost b\<rparr>"

definition atTier :: "rat \<Rightarrow> unitPrices \<Rightarrow> unitPrices" where
  "atTier k u = u\<lparr>tm_Input := k, tm_Output := k, tm_CacheCreation := k, tm_CacheRead := k, tm_Image := k\<rparr>"

lemma costAt_tier: "costAt p t r (atTier k u) = scaleCost k (costAt p t r (atTier 1 u))"
  by (simp add: costAt_def atTier_def scaleCost_def noCost_def Let_def algebra_simps)

lemma long_atTier: "longContextPrices b p (atTier k u) = atTier k (longContextPrices b p u)"
  by (simp add: longContextPrices_def atTier_def Let_def)

lemma standard_atTier: "standardPrices p = atTier 1 (standardPrices p)"
  by (simp add: standardPrices_def atTier_def)

definition noPriorityPrices :: "ModelPricing \<Rightarrow> bool" where
  "noPriorityPrices p \<longleftrightarrow> \<not> 0 < mp_InputPricePerTokenPriority p \<and> \<not> 0 < mp_OutputPricePerTokenPriority p \<and>
     \<not> 0 < mp_CacheCreationPricePerTokenPriority p \<and> \<not> 0 < mp_CacheReadPricePerTokenPriority p \<and> \<not> hasExactLongContextPricing p"

lemma tierPrices_atTier:
  "(normalizeBillingServiceTier tier = ''priority'' \<Longrightarrow> noPriorityPrices p) \<Longrightarrow>
   tierPrices m tier p = atTier (serviceTierCostMultiplierForModel m tier) (standardPrices p)"
  by (auto simp: tierPrices_def Let_def standardPrices_def atTier_def noPriorityPrices_def serviceTierCostMultiplierForModel_def)

lemma long_prices_tier:
  "(b \<Longrightarrow> noPriorityPrices p) \<Longrightarrow> longContextPrices b p u = longContextPrices False p u"
  by (cases b) (simp_all add: longContextPrices_def longPrice_def Let_def noPriorityPrices_def hasExactLongContextPricing_def)

lemma tier_pos: "0 < serviceTierCostMultiplierForModel m tier"
  by (simp add: serviceTierCostMultiplierForModel_def openAIGPT54FastMultiplier_def openAIGPT55FastMultiplier_def)

lemma scale_flag: "0 < k \<Longrightarrow>
  (scaleCost k b)\<lparr>cb_LongContextBillingApplied := cb_ActualCost (scaleCost k b) > cb_ActualCost (scaleCost k c)\<rparr> =
  scaleCost k (b\<lparr>cb_LongContextBillingApplied := cb_ActualCost b > cb_ActualCost c\<rparr>)"
  by (simp add: scaleCost_def)

lemma breakdown_tier:
  fixes m :: string
  assumes "normalizeBillingServiceTier tier = ''priority'' \<Longrightarrow> noPriorityPrices p"
  defines "k \<equiv> serviceTierCostMultiplierForModel m tier" and "long \<equiv> atTier 1 (longContextPrices False p (standardPrices p))"
  shows "computeTokenBreakdown m p t r tier b =
    (if b \<and> shouldApplySessionLongContextPricing t p
     then (scaleCost k (costAt p t (max 0 r) long))\<lparr>cb_LongContextBillingApplied :=
       cb_ActualCost (scaleCost k (costAt p t (max 0 r) long)) > cb_ActualCost (scaleCost k (costAt p t (max 0 r) (standardPrices p)))\<rparr>
     else scaleCost k (costAt p t (max 0 r) (standardPrices p)))"
proof -
  have rate: "(if r < 0 then 0 else r) = max 0 r" by simp
  have t: "tierPrices m tier p = atTier k (standardPrices p)" unfolding k_def using assms(1) by (rule tierPrices_atTier)
  have "longContextPrices (normalizeBillingServiceTier tier = ''priority'') p u = longContextPrices False p u" for u
    using assms(1) by (rule long_prices_tier)
  moreover have "costAt p t x (atTier k (standardPrices p)) = scaleCost k (costAt p t x (standardPrices p))" for x
    using costAt_tier [of p t x k "standardPrices p"] by (simp only: standard_atTier [symmetric])
  moreover have "costAt p t x (longContextPrices False p (atTier k (standardPrices p))) = scaleCost k (costAt p t x long)" for x
    unfolding long_atTier long_def by (rule costAt_tier)
  ultimately show ?thesis by (simp only: computeTokenBreakdown_def Let_def rate t)
qed

section \<open>Long contexts\<close>

lemma no_session:
  "\<not> (mp_LongContextInputThreshold p > 0 \<and> (mp_LongContextInputMultiplier p > 1 \<or> mp_LongContextOutputMultiplier p > 1 \<or> hasExactLongContextPricing p)) \<Longrightarrow>
   \<not> shouldApplySessionLongContextPricing t p"
  by (auto simp: shouldApplySessionLongContextPricing_def)

lemma tierless: "normalizeBillingServiceTier [] = []" "tierPrices m [] p = standardPrices p"
proof -
  show n: "normalizeBillingServiceTier [] = []" by code_simp
  show "tierPrices m [] p = standardPrices p" by (simp add: tierPrices_def n)
qed

lemma cost_plain:
  "GetModelPricing dyn m = Some p \<Longrightarrow> \<not> shouldApplySessionLongContextPricing t p \<Longrightarrow>
   CalculateCost dyn m t r = Some (costAt p t (max 0 r) (standardPrices p))"
  by (simp add: CalculateCost_def calculateCostInternalWithPolicy_def computeTokenBreakdown_def tierless Let_def max_def)

lemma ActualCost: "cb_ActualCost (costAt p t r u) = cb_TotalCost (costAt p t r u) * r"
  by (simp add: costAt_def noCost_def Let_def)

lemma total_rate: "cb_TotalCost (costAt p t r u) = cb_TotalCost (costAt p t r' u)"
  by (simp add: costAt_def noCost_def Let_def)

lemma max_rate: "0 < k \<Longrightarrow> max 0 (r * k) = (max 0 r * k :: rat)"
  by (cases "r \<le> 0") (auto simp: max_def mult_le_0_iff zero_le_mult_iff)

definition excessInput :: "UsageTokens \<Rightarrow> int \<Rightarrow> int" where
  "excessInput t threshold = ut_InputTokens t - max 0 (threshold - ut_CacheReadTokens t)"

definition excessCache :: "UsageTokens \<Rightarrow> int \<Rightarrow> int" where
  "excessCache t threshold = max 0 (ut_CacheReadTokens t - threshold)"

definition excessCost :: "ModelPricing \<Rightarrow> UsageTokens \<Rightarrow> int \<Rightarrow> rat" where
  "excessCost p t threshold = of_int (excessInput t threshold) * mp_InputPricePerToken p +
     of_int (excessCache t threshold) * mp_CacheReadPricePerToken p"

definition textOnly :: "UsageTokens \<Rightarrow> bool" where
  "textOnly t \<longleftrightarrow> ut_TextInputTokens t = 0 \<and> ut_ImageInputTokens t = 0 \<and> ut_ImageCacheReadTokens t = 0 \<and> 0 \<le> ut_CacheReadTokens t"

text \<open>The tokens without their division into text and images.\<close>

definition withoutParts :: "UsageTokens \<Rightarrow> UsageTokens" where
  "withoutParts t = t\<lparr>ut_TextInputTokens := 0, ut_ImageInputTokens := 0, ut_ImageCacheReadTokens := 0\<rparr>"

lemma textOnly_without: "0 \<le> ut_CacheReadTokens t \<Longrightarrow> textOnly (withoutParts t)"
  by (simp add: textOnly_def withoutParts_def)

lemma withoutParts_simps [simp]:
  "splitTokens (withoutParts t) threshold = splitTokens t threshold" "excessCost p (withoutParts t) threshold = excessCost p t threshold"
  by (simp_all add: withoutParts_def splitTokens_def Let_def excessCost_def excessInput_def excessCache_def)

lemma excess_total:
  "textOnly t \<Longrightarrow> 0 < threshold \<Longrightarrow> cb_TotalCost (costAt p (snd (splitTokens t threshold)) r (standardPrices p)) = excessCost p t threshold"
  by (auto simp: costAt_def splitTokens_def standardPrices_def noCost_def noTokens_def Let_def computeCacheCreationCostAtPrice_def
      clampImageCacheReadTokens_def excessCost_def excessInput_def excessCache_def max_def)

lemma split_cache:
  "ut_CacheCreationTokens (fst (splitTokens t threshold)) = ut_CacheCreationTokens t"
  "ut_CacheCreation5mTokens (fst (splitTokens t threshold)) = ut_CacheCreation5mTokens t"
  "ut_CacheCreation1hTokens (fst (splitTokens t threshold)) = ut_CacheCreation1hTokens t"
  by (simp_all add: splitTokens_def Let_def)

lemma split_fields:
  "ut_OutputTokens (fst (splitTokens t threshold)) = ut_OutputTokens t"
  "ut_ImageOutputTokens (fst (splitTokens t threshold)) = ut_ImageOutputTokens t"
  "ut_InputTokens (fst (splitTokens t threshold)) = ut_InputTokens t - excessInput t threshold"
  "ut_CacheReadTokens (fst (splitTokens t threshold)) = ut_CacheReadTokens t - excessCache t threshold"
  "ut_TextInputTokens (fst (splitTokens t threshold)) = 0" "ut_ImageInputTokens (fst (splitTokens t threshold)) = 0"
  by (auto simp: splitTokens_def noTokens_def excessInput_def excessCache_def Let_def max_def)

lemma split_total:
  assumes "textOnly t" "0 < threshold"
  shows "cb_TotalCost (costAt p (fst (splitTokens t threshold)) r (standardPrices p)) =
    cb_TotalCost (costAt p t r (standardPrices p)) - excessCost p t threshold"
proof -
  let ?u = "fst (splitTokens t threshold)"
  have "computeCacheCreationCostAtPrice p ?u x = computeCacheCreationCostAtPrice p t x" for x
    unfolding computeCacheCreationCostAtPrice_def by (simp only: split_cache)
  moreover have "clampImageCacheReadTokens ?u = 0" "clampImageCacheReadTokens t = 0"
    using assms by (auto simp: clampImageCacheReadTokens_def textOnly_def splitTokens_def noTokens_def Let_def)
  moreover have "ut_TextInputTokens t = 0" "ut_ImageInputTokens t = 0" using assms(1) by (simp_all add: textOnly_def)
  ultimately show ?thesis
    by (simp add: costAt_def standardPrices_def noCost_def Let_def excessCost_def split_fields left_diff_distrib)
qed

section \<open>Books of the account\<close>

definition plainWrites :: "UsageTokens \<Rightarrow> bool" where
  "plainWrites t \<longleftrightarrow> ut_CacheCreationTokens t = 0 \<and> ut_CacheCreation5mTokens t = 0 \<and> ut_CacheCreation1hTokens t = 0 \<and> ut_ImageOutputTokens t = 0"

lemma no_writes: "plainWrites t \<Longrightarrow> computeCacheCreationCostAtPrice q t x = 0"
  by (simp add: computeCacheCreationCostAtPrice_def plainWrites_def)

lemma policy_keeps:
  "mp_InputPricePerToken (applyModelSpecificPricingPolicy m p) = mp_InputPricePerToken p"
  "mp_OutputPricePerToken (applyModelSpecificPricingPolicy m p) = mp_OutputPricePerToken p"
  "mp_CacheReadPricePerToken (applyModelSpecificPricingPolicy m p) = mp_CacheReadPricePerToken p"
  "mp_ImageInputPricePerToken (applyModelSpecificPricingPolicy m p) = mp_ImageInputPricePerToken p"
  "mp_ImageCacheReadPricePerToken (applyModelSpecificPricingPolicy m p) = mp_ImageCacheReadPricePerToken p"
  by (simp_all add: policy_filled fillLong_def fillCache_def)

lemma total_plain:
  "plainWrites t \<Longrightarrow> cb_TotalCost (computeTokenBreakdown m (applyModelSpecificPricingPolicy m p) t r [] False) =
   of_int (ut_InputTokens t + ut_TextInputTokens t) * mp_InputPricePerToken p +
   of_int (ut_ImageInputTokens t) * (if mp_ImageInputPricePerToken p = 0 then mp_InputPricePerToken p else mp_ImageInputPricePerToken p) +
   of_int (if ut_OutputTokens t < 0 then 0 else ut_OutputTokens t) * mp_OutputPricePerToken p +
   of_int (ut_CacheReadTokens t - clampImageCacheReadTokens t) * mp_CacheReadPricePerToken p +
   of_int (clampImageCacheReadTokens t) *
     (if mp_ImageCacheReadPricePerToken p = 0 then mp_CacheReadPricePerToken p else mp_ImageCacheReadPricePerToken p)"
  by (simp add: computeTokenBreakdown_def tierless costAt_def noCost_def standardPrices_def no_writes policy_keeps Let_def plainWrites_def
      split del: if_split cong: if_cong)

lemma interval_prices:
  "mp_InputPricePerToken (intervalToModelPricing iv b base) = deref (pi_InputPrice iv)"
  "mp_OutputPricePerToken (intervalToModelPricing iv b base) = deref (pi_OutputPrice iv)"
  "mp_CacheReadPricePerToken (intervalToModelPricing iv b base) = deref (pi_CacheReadPrice iv)"
  "mp_ImageInputPricePerToken (intervalToModelPricing iv b base) = 0"
  "mp_ImageCacheReadPricePerToken (intervalToModelPricing iv b base) = 0"
  by (simp_all add: intervalToModelPricing_def Let_def applyCacheWritePriceOverride_def zeroPricing_def deref_def whenSet_def split: option.split)

lemma stats_plain:
  assumes "plainWrites t" "FindMatchingInterval (cp_Intervals c)
      (ut_InputTokens t + ut_OutputTokens t + ut_CacheCreationTokens t + ut_CacheReadTokens t) = Some iv"
  shows "calculateTokenStatsCost c t = positiveCost (cb_TotalCost
    (computeTokenBreakdown m (applyModelSpecificPricingPolicy m (intervalToModelPricing iv b base)) t r [] False))"
proof -
  have "cp_Intervals c \<noteq> []" using assms(2) by (auto simp: FindMatchingInterval_def)
  with assms show ?thesis
    by (simp add: calculateTokenStatsCost_def statsPricing_def noChannelPricing_def total_plain interval_prices calculateChannelCacheWriteCost_def
        plainWrites_def deref_def Let_def split del: if_split cong: if_cong split: option.split)
qed

end
