(* ===== verification/CostProperties.thy ===== *)
theory CostProperties
  imports CostFacts
begin

text \<open>
  The properties of prices and costs: that the ways to a price agree, that valid intervals decide a price, what tiers and long
  contexts do to a cost, and when the books of the account are those of the customer.
\<close>

section \<open>An example\<close>

definition exampleList :: priceList where
  "exampleList m = (if m = ''claude-opus-4.5''
     then Some \<lparr>ll_InputCostPerToken = 5, ll_InputCostPerTokenPriority = 0, ll_OutputCostPerToken = 25,
       ll_OutputCostPerTokenPriority = 0, ll_CacheCreationInputTokenCost = 6, ll_CacheCreationInputTokenCostPriority = 0,
       ll_CacheCreationInputTokenCostAbove1hr = 10, ll_CacheReadInputTokenCost = 1, ll_CacheReadInputTokenCostPriority = 0,
       ll_LongContextInputTokenThreshold = 0, ll_LongContextInputCostMultiplier = 0, ll_LongContextOutputCostMultiplier = 0,
       ll_LongContextInputCostPerToken = 0, ll_LongContextInputCostPerTokenPriority = 0, ll_LongContextOutputCostPerToken = 0,
       ll_LongContextOutputCostPerTokenPriority = 0, ll_LongContextCacheCreationInputTokenCost = 0,
       ll_LongContextCacheCreationInputTokenCostPriority = 0, ll_LongContextCacheReadInputTokenCost = 0,
       ll_LongContextCacheReadInputTokenCostPriority = 0, ll_SupportsServiceTier = False, ll_LiteLLMProvider = [], ll_Mode =
       [], ll_SupportsPromptCaching = False, ll_InputCostPerImageToken = 0, ll_CacheReadInputImageTokenCost = 0,
       ll_OutputCostPerImage = 0, ll_OutputCostPerImageToken = 0\<rparr> else None)"

definition exampleTokens :: UsageTokens where
  "exampleTokens = noTokens\<lparr>ut_InputTokens := 100, ut_OutputTokens := 20, ut_CacheReadTokens := 50\<rparr>"

definition exampleInterval :: "int \<Rightarrow> int option \<Rightarrow> rat \<Rightarrow> PricingInterval" where
  "exampleInterval lo hi v = \<lparr>pi_MinTokens = lo, pi_MaxTokens = hi, pi_TierLabel = [], pi_InputPrice = Some v, pi_OutputPrice = Some v,
     pi_CacheWritePrice = None, pi_CacheReadPrice = None, pi_PerRequestPrice = None\<rparr>"

definition exampleInput :: CostInput where
  "exampleInput = \<lparr>ci_Model = ''claude-opus-4.5'', ci_GroupID = Some 1, ci_Tokens = exampleTokens, ci_RequestCount = 1, ci_SizeTier = [],
     ci_RateMultiplier = 2, ci_ServiceTier = [], ci_Resolver = Some (Some (\<lambda>g m. Some (noChannelPricing\<lparr>cp_InputPrice := Some 3\<rparr>))),
     ci_Resolved = None, ci_LongContextBillingEnabled = None\<rparr>"

section \<open>Channels\<close>

text \<open>
  (C24) The two ways to the price of a channel agree for a model of the price list: where a channel bills the model by tokens and without
  intervals of its own, or has no price for it, the resolver of a request comes to the same costs as the older calculation with
  the channel's price, although it applies the rules for OpenAI models once more after the channel's overrides. A GPT-5.6
  model has to have a price for its input in the list, or one for cache writes.
\<close>
theorem channel_paths_agree:
  assumes "ci_Resolver i = Some (Some lookup)" "ci_Resolved i = None" "ci_GroupID i = Some g"
    and "case lookup g (ci_Model i) of None \<Rightarrow> True | Some c \<Rightarrow>
      cp_BillingMode c \<noteq> BillingModePerRequest \<and> cp_BillingMode c \<noteq> BillingModeImage \<and> filterValidIntervals (cp_Intervals c) = []"
    and "GetModelPricing dyn (ci_Model i) = Some q"
    and "isOpenAIGPT56Model (ci_Model i) \<Longrightarrow>
      0 < mp_InputPricePerToken q \<or> mp_CacheCreationPriceExplicit q \<or> 0 < mp_CacheCreationPricePerToken q"
  shows "CalculateCostUnified dyn i = map_option (\<lambda>b. b\<lparr>cb_BillingMode := BillingModeToken\<rparr>)
    (calculateCostInternalWithPolicy dyn (ci_Model i) (ci_Tokens i) (ci_RateMultiplier i) (ci_ServiceTier i) (lookup g (ci_Model i))
      (case ci_LongContextBillingEnabled i of None \<Rightarrow> True | Some b \<Rightarrow> b))"
proof -
  let ?r = "Resolve dyn (Some lookup) (ci_Model i) (Some g)"
  let ?i = "if ci_RateMultiplier i < 0 then i\<lparr>ci_RateMultiplier := 0\<rparr> else i"
  note r = Resolve_flat [where lookup = lookup and g = g and m = "ci_Model i", OF assms(4,5)]
  obtain p where p: "rp_BasePricing ?r = Some p" "applyModelSpecificPricingPolicy (ci_Model i) p = p"
    "GetModelPricingWithChannel dyn (ci_Model i) (lookup g (ci_Model i)) = Some p"
    using r(3) assms(5) policy_flat [OF GetModelPricing_fixed [OF assms(5)] assms(6)] GetModelPricing_fixed [OF assms(5)]
    by (auto simp: GetModelPricingWithChannel_def split: option.splits)
  have "CalculateCostUnified dyn i = map_option (\<lambda>b. b\<lparr>cb_BillingMode := BillingModeToken\<rparr>) (calculateTokenCost ?r ?i)"
    using assms(1-3) r(1) by (simp add: CalculateCostUnified_def Let_def BillingModeToken_def BillingModePerRequest_def BillingModeImage_def)
  also have "calculateTokenCost ?r ?i = Some (computeTokenBreakdown (ci_Model i) p (ci_Tokens i) (ci_RateMultiplier i) (ci_ServiceTier i)
      (case ci_LongContextBillingEnabled i of None \<Rightarrow> True | Some b \<Rightarrow> b))"
    using p negative_rate [of "ci_RateMultiplier i" "ci_Model i" p "ci_Tokens i"]
    by (simp add: calculateTokenCost_def GetIntervalPricing_def r(2) Let_def split: if_splits)
  also have "\<dots> = calculateCostInternalWithPolicy dyn (ci_Model i) (ci_Tokens i) (ci_RateMultiplier i) (ci_ServiceTier i) (lookup g (ci_Model i))
      (case ci_LongContextBillingEnabled i of None \<Rightarrow> True | Some b \<Rightarrow> b)"
    using p(3) assms(5) by (cases "lookup g (ci_Model i)") (simp_all add: calculateCostInternalWithPolicy_def GetModelPricingWithChannel_def)
  finally show ?thesis .
qed

lemma example_names: "\<not> isOpenAIGPT54Model ''claude-opus-4.5''" "\<not> isOpenAIGPT56Model ''claude-opus-4.5''" "ToLower ''claude-opus-4.5'' = ''claude-opus-4.5''"
  by code_simp+

lemma example_price: "\<exists>q. GetModelPricing exampleList ''claude-opus-4.5'' = Some q"
  by (simp add: GetModelPricing_def exampleList_def example_names)

theorem channel_paths_agree_witness:
  "CalculateCostUnified exampleList exampleInput = map_option (\<lambda>b. b\<lparr>cb_BillingMode := BillingModeToken\<rparr>)
    (calculateCostInternalWithPolicy exampleList ''claude-opus-4.5'' exampleTokens 2 [] (Some (noChannelPricing\<lparr>cp_InputPrice := Some 3\<rparr>)) True)"
proof -
  obtain q where q: "GetModelPricing exampleList ''claude-opus-4.5'' = Some q" using example_price by blast
  have "cp_BillingMode noChannelPricing = []" "cp_Intervals noChannelPricing = []" by (simp_all add: noChannelPricing_def)
  with q show ?thesis
    using channel_paths_agree [of exampleInput "\<lambda>g m. Some (noChannelPricing\<lparr>cp_InputPrice := Some 3\<rparr>)" 1 exampleList q]
    by (simp add: exampleInput_def example_names BillingModePerRequest_def BillingModeImage_def filterValidIntervals_def)
qed

text \<open>
  Intervals that pass validation decide the price of a context whatever order they are kept in: at most one of them holds a
  number of tokens.
\<close>
theorem interval_order_irrelevant:
  assumes "ValidateIntervals ivs" "mset ivs' = mset ivs"
  shows "FindMatchingInterval ivs' n = FindMatchingInterval ivs n"
  by (simp add: FindMatchingInterval_def find_filter find_valid [OF assms] find_valid [OF assms(1) refl])

theorem interval_order_irrelevant_witness:
  "FindMatchingInterval [exampleInterval 10 None 2, exampleInterval 0 (Some 10) 1] 12 =
   FindMatchingInterval [exampleInterval 0 (Some 10) 1, exampleInterval 10 None 2] 12"
proof (rule interval_order_irrelevant)
  show "ValidateIntervals [exampleInterval 0 (Some 10) 1, exampleInterval 10 None 2]" by code_simp
qed simp

text \<open>
  (C25) A price list with two intervals without an upper bound in one entry is rejected, whatever the entry bills by: also the tiers of
  an image price, which are told apart by label and not by tokens.
\<close>
theorem label_tiers_rejected:
  assumes "c \<in> set pricingList" "2 \<le> length (filter (\<lambda>iv. pi_MaxTokens iv = None) (cp_Intervals c))"
  shows "\<not> validatePricingIntervals pricingList"
  using assms two_unbounded by (auto simp: validatePricingIntervals_def list_all_iff)

definition exampleTier :: "string \<Rightarrow> rat \<Rightarrow> PricingInterval" where
  "exampleTier label v = (exampleInterval 0 None 0)\<lparr>pi_TierLabel := label, pi_InputPrice := None, pi_OutputPrice := None, pi_PerRequestPrice := Some v\<rparr>"

theorem label_tiers_rejected_witness:
  "\<not> validatePricingIntervals [noChannelPricing\<lparr>cp_BillingMode := BillingModeImage, cp_Intervals := [exampleTier ''1K'' 1, exampleTier ''2K'' 2]\<rparr>]"
  by (rule label_tiers_rejected [of "noChannelPricing\<lparr>cp_BillingMode := BillingModeImage, cp_Intervals := [exampleTier ''1K'' 1, exampleTier ''2K'' 2]\<rparr>"])
    (simp_all add: exampleTier_def exampleInterval_def)

section \<open>Tiers and long contexts\<close>

text \<open>
  (C26) A service tier scales a bill as a whole: every part of the cost, and whether a long context was charged, is that of the
  standard tier times the multiplier of the tier, unless the tier is priority and the model has priority prices of its own.
\<close>
theorem tier_scales_cost:
  assumes "normalizeBillingServiceTier tier = ''priority'' \<Longrightarrow> noPriorityPrices p"
  shows "computeTokenBreakdown m p t r tier b =
    scaleCost (serviceTierCostMultiplierForModel m tier) (computeTokenBreakdown m p t r [] b)"
proof -
  have "serviceTierCostMultiplierForModel m [] = 1" by (simp add: serviceTierCostMultiplierForModel_def tierless)
  moreover have "scaleCost 1 x = x" for x by (simp add: scaleCost_def)
  ultimately show ?thesis
    using breakdown_tier [of tier p, OF assms] breakdown_tier [of "[]" p] scale_flag [OF tier_pos [of m tier]]
    by (simp add: tierless)
qed

theorem tier_scales_cost_witness:
  "computeTokenBreakdown ''gpt-5.5'' (zeroPricing\<lparr>mp_InputPricePerToken := 4\<rparr>) exampleTokens 1 ''priority'' True =
   scaleCost (serviceTierCostMultiplierForModel ''gpt-5.5'' ''priority'')
     (computeTokenBreakdown ''gpt-5.5'' (zeroPricing\<lparr>mp_InputPricePerToken := 4\<rparr>) exampleTokens 1 [] True)"
  by (rule tier_scales_cost) (simp add: noPriorityPrices_def zeroPricing_def hasExactLongContextPricing_def)

text \<open>
  (C27) The older charge for long contexts, for a price without a long tier of its own, charges exactly the tokens beyond the threshold at
  the extra multiplier, the cached ones first; output and cache writes are never part of the excess. The total is that of
  the plain calculation for the same counts of tokens: how the input divides into text and images is forgotten on the
  way, so that all of it is charged at the price of text.
\<close>
theorem long_context_charges_excess:
  assumes "0 < threshold" "1 < extra" "GetModelPricing dyn m = Some p" "0 \<le> ut_CacheReadTokens t" "threshold < ut_CacheReadTokens t + ut_InputTokens t"
    and "\<not> (mp_LongContextInputThreshold p > 0 \<and>
      (mp_LongContextInputMultiplier p > 1 \<or> mp_LongContextOutputMultiplier p > 1 \<or> hasExactLongContextPricing p))"
  shows "map_option (\<lambda>b. (cb_TotalCost b, cb_ActualCost b)) (CalculateCostWithLongContext dyn m t r threshold extra) =
    map_option (\<lambda>b. (cb_TotalCost b, cb_ActualCost b + max 0 r * (extra - 1) * excessCost p t threshold)) (CalculateCost dyn m (withoutParts t) r)"
proof -
  let ?c = "\<lambda>u x. costAt p u x (standardPrices p)"
  have plain: "CalculateCost dyn m u x = Some (?c u (max 0 x))" for u x using cost_plain [OF assms(3) no_session [OF assms(6)]] .
  have "CalculateCostWithLongContext dyn m t r threshold extra =
      Some (addCosts (?c (fst (splitTokens t threshold)) (max 0 r)) (?c (snd (splitTokens t threshold)) (max 0 (r * extra))))"
    using assms(1,2,5,6) by (auto simp: CalculateCostWithLongContext_def assms(3) plain split: prod.split)
  moreover have "cb_TotalCost (?c (fst (splitTokens t threshold)) (max 0 r)) = cb_TotalCost (?c (withoutParts t) (max 0 r)) - excessCost p t threshold"
    using split_total [OF textOnly_without [OF assms(4)] assms(1)] by simp
  moreover have "cb_TotalCost (?c (snd (splitTokens t threshold)) (max 0 (r * extra))) = excessCost p t threshold"
    using excess_total [OF textOnly_without [OF assms(4)] assms(1)] by simp
  moreover have "max 0 (r * extra) = max 0 r * extra" using assms(2) by (intro max_rate) simp
  ultimately show ?thesis by (simp add: plain addCosts_def noCost_def ActualCost algebra_simps)
qed

theorem long_context_charges_excess_witness:
  "let t = exampleTokens\<lparr>ut_TextInputTokens := 60, ut_ImageInputTokens := 40\<rparr> in
   map_option (\<lambda>b. (cb_TotalCost b, cb_ActualCost b)) (CalculateCostWithLongContext exampleList ''claude-opus-4.5'' t 1 60 2) =
   map_option (\<lambda>b. (cb_TotalCost b, cb_ActualCost b + 450)) (CalculateCost exampleList ''claude-opus-4.5'' exampleTokens 1)"
proof -
  have p: "GetModelPricing exampleList ''claude-opus-4.5'' = Some (ofLiteLLM (the (exampleList ''claude-opus-4.5'')))"
    by (simp add: GetModelPricing_def exampleList_def example_names applyModelSpecificPricingPolicy_def)
  show ?thesis
    using long_context_charges_excess [OF _ _ p, of 60 2 "exampleTokens\<lparr>ut_TextInputTokens := 60, ut_ImageInputTokens := 40\<rparr>" 1]
    by (simp add: exampleTokens_def noTokens_def withoutParts_def excessCost_def excessInput_def excessCache_def exampleList_def
        ofLiteLLM_def zeroPricing_def)
qed

section \<open>Books of the account\<close>

text \<open>
  Where the count of tokens that account statistics look an interval up by and the context that bills look it up by fall in
  the same interval, the account is booked what the request costs before multipliers; cache writes and image output aside.
\<close>
theorem stats_match_billing:
  assumes "plainWrites t" "rp_Intervals res \<noteq> []" "ci_Tokens i = t" "ci_ServiceTier i = []"
    and "FindMatchingInterval (cp_Intervals c) (ut_InputTokens t + ut_OutputTokens t + ut_CacheCreationTokens t + ut_CacheReadTokens t) = Some iv"
    and "FindMatchingInterval (rp_Intervals res) (totalInputContextTokens t) = Some iv"
  shows "calculateTokenStatsCost c t = Option.bind (calculateTokenCost res i) (\<lambda>b. positiveCost (cb_TotalCost b))"
  using assms(2-4,6) stats_plain [OF assms(1,5)]
  by (simp add: calculateTokenCost_def GetIntervalPricing_def Let_def)

definition exampleChannel :: ChannelModelPricing where
  "exampleChannel = noChannelPricing\<lparr>cp_Intervals := [exampleInterval 0 (Some 200) 1, exampleInterval 200 None 2]\<rparr>"

theorem stats_match_billing_witness:
  "calculateTokenStatsCost exampleChannel exampleTokens =
   Option.bind (calculateTokenCost (emptyResolved\<lparr>rp_Intervals := cp_Intervals exampleChannel\<rparr>) exampleInput) (\<lambda>b. positiveCost (cb_TotalCost b))"
  by (rule stats_match_billing [where iv = "exampleInterval 0 (Some 200) 1"])
    (simp_all add: plainWrites_def exampleTokens_def noTokens_def exampleInput_def exampleChannel_def exampleInterval_def noChannelPricing_def
      emptyResolved_def FindMatchingInterval_def matchesInterval_def totalInputContextTokens_def Let_def)

text \<open>In between they differ: bills leave the output out of the context, account statistics count it.\<close>

lemma stats_other_interval:
  assumes "t = noTokens\<lparr>ut_InputTokens := 150, ut_OutputTokens := 100\<rparr>"
  shows "calculateTokenStatsCost exampleChannel t = Some 500"
    "map_option cb_TotalCost (calculateTokenCost (emptyResolved\<lparr>rp_Intervals := cp_Intervals exampleChannel\<rparr>) (exampleInput\<lparr>ci_Tokens := t\<rparr>)) = Some 250"
  using assms
  by (simp_all add: calculateTokenStatsCost_def statsPricing_def exampleChannel_def exampleInterval_def noChannelPricing_def noTokens_def
      FindMatchingInterval_def matchesInterval_def deref_def clampImageCacheReadTokens_def calculateChannelCacheWriteCost_def positiveCost_def
      calculateTokenCost_def GetIntervalPricing_def emptyResolved_def exampleInput_def totalInputContextTokens_def total_plain plainWrites_def
      interval_prices Let_def)

end
