(* ===== verification/ChannelCache.thy ===== *)
theory ChannelCache
  imports AccountStats
begin

text \<open>
  The channel of a group and its price for a model: the snapshot of all channels in \<^verbatim>\<open>service/channel_service.go\<close>, the lookups in
  it, and the validation of a channel before it is stored. A model mapping is a Go map; it is a list of its entries here, in the
  order in which the snapshot was filled from it.
\<close>

section \<open>Patterns\<close>

record modelEntry =
  me_prefix :: string
  me_wildcard :: bool

definition splitWildcardSuffix :: "string \<Rightarrow> string \<times> bool" where
  "splitWildcardSuffix pattern = (if suffix ''*'' pattern then (butlast pattern, True) else (pattern, False))"

definition toModelEntry :: "string \<Rightarrow> modelEntry" where
  "toModelEntry pattern = (let (pre, isWild) = splitWildcardSuffix (ToLower pattern) in \<lparr>me_prefix = pre, me_wildcard = isWild\<rparr>)"

definition conflictsBetween :: "modelEntry \<Rightarrow> modelEntry \<Rightarrow> bool" where
  "conflictsBetween a b =
     (if \<not> me_wildcard a \<and> \<not> me_wildcard b then me_prefix a = me_prefix b
      else if me_wildcard a \<and> \<not> me_wildcard b then prefix (me_prefix a) (me_prefix b)
      else if \<not> me_wildcard a \<and> me_wildcard b then prefix (me_prefix b) (me_prefix a)
      else prefix (me_prefix b) (me_prefix a) \<or> prefix (me_prefix a) (me_prefix b))"

fun detectConflicts :: "modelEntry list \<Rightarrow> bool" where
  "detectConflicts [] = False"
| "detectConflicts (e # es) = (list_ex (conflictsBetween e) es \<or> detectConflicts es)"

section \<open>Validation\<close>

datatype channelError =
    MODEL_PATTERN_CONFLICT
  | MAPPING_PATTERN_CONFLICT
  | INVALID_PRICING_INTERVALS
  | BILLING_MODE_MISSING_PRICE
  | NEGATIVE_PRICE
  | INTERVAL_MISSING_PRICE

definition entriesOf :: "ChannelModelPricing list \<Rightarrow> string \<Rightarrow> modelEntry list" where
  "entriesOf pricingList platform =
     map toModelEntry (concat (map cp_Models (filter (\<lambda>p. cp_Platform p = platform) pricingList)))"

definition validateNoConflictingModels :: "ChannelModelPricing list \<Rightarrow> channelError option" where
  "validateNoConflictingModels pricingList =
     (if list_ex (\<lambda>p. detectConflicts (entriesOf pricingList (cp_Platform p))) pricingList then Some MODEL_PATTERN_CONFLICT else None)"

definition validateNoConflictingMappings :: "(string \<times> (string \<times> string) list) list \<Rightarrow> channelError option" where
  "validateNoConflictingMappings mapping =
     (if list_ex (\<lambda>(platform, m). detectConflicts (map (\<lambda>(src, dst). toModelEntry src) m)) mapping
      then Some MAPPING_PATTERN_CONFLICT else None)"

definition checkBillingModeRequirements :: "ChannelModelPricing \<Rightarrow> channelError option" where
  "checkBillingModeRequirements p =
     (if (cp_BillingMode p = BillingModePerRequest \<or> cp_BillingMode p = BillingModeImage) \<and>
        cp_PerRequestPrice p = None \<and> cp_Intervals p = [] then Some BILLING_MODE_MISSING_PRICE else None)"

definition checkPricesNotNegative :: "ChannelModelPricing \<Rightarrow> channelError option" where
  "checkPricesNotNegative p =
     (if list_ex (\<lambda>v. case v of None \<Rightarrow> False | Some x \<Rightarrow> x < 0)
        [cp_InputPrice p, cp_OutputPrice p, cp_CacheWritePrice p, cp_CacheReadPrice p, cp_ImageInputPrice p, cp_ImageCacheReadPrice p,
         cp_ImageOutputPrice p, cp_PerRequestPrice p] then Some NEGATIVE_PRICE else None)"

definition checkIntervalsHavePrices :: "ChannelModelPricing \<Rightarrow> channelError option" where
  "checkIntervalsHavePrices p =
     (if list_ex (\<lambda>iv. pi_InputPrice iv = None \<and> pi_OutputPrice iv = None \<and> pi_CacheWritePrice iv = None \<and>
        pi_CacheReadPrice iv = None \<and> pi_PerRequestPrice iv = None) (cp_Intervals p) then Some INTERVAL_MISSING_PRICE else None)"

definition orElse :: "'a option \<Rightarrow> 'a option \<Rightarrow> 'a option" where
  "orElse a b = (case a of None \<Rightarrow> b | Some _ \<Rightarrow> a)"

fun validatePricingBillingMode :: "ChannelModelPricing list \<Rightarrow> channelError option" where
  "validatePricingBillingMode [] = None"
| "validatePricingBillingMode (p # ps) = orElse (checkBillingModeRequirements p) (orElse (checkPricesNotNegative p)
     (orElse (checkIntervalsHavePrices p) (validatePricingBillingMode ps)))"

definition validatePricingEntries :: "ChannelModelPricing list \<Rightarrow> channelError option" where
  "validatePricingEntries pricing = orElse (validateNoConflictingModels pricing)
     (orElse (if validatePricingIntervals pricing then None else Some INVALID_PRICING_INTERVALS) (validatePricingBillingMode pricing))"

definition validateChannelConfig :: "ChannelModelPricing list \<Rightarrow> (string \<times> (string \<times> string) list) list \<Rightarrow> channelError option" where
  "validateChannelConfig pricing mapping = orElse (validatePricingEntries pricing) (validateNoConflictingMappings mapping)"

section \<open>The snapshot\<close>

record channelCache =
  cc_pricing :: "int \<times> string \<times> string \<Rightarrow> ChannelModelPricing option"
  cc_wildcards :: "int \<times> string \<Rightarrow> (string \<times> ChannelModelPricing) list"
  cc_mapping :: "int \<times> string \<times> string \<Rightarrow> string option"
  cc_wildcardMapping :: "int \<times> string \<Rightarrow> (string \<times> string) list"
  cc_channel :: "int \<Rightarrow> Channel option"
  cc_groupPlatform :: "int \<Rightarrow> string option"
  cc_byID :: "int \<Rightarrow> Channel option"
  cc_loadedAt :: gotime

definition newEmptyChannelCache :: channelCache where
  "newEmptyChannelCache = \<lparr>cc_pricing = (\<lambda>_. None), cc_wildcards = (\<lambda>_. []), cc_mapping = (\<lambda>_. None), cc_wildcardMapping = (\<lambda>_. []),
     cc_channel = (\<lambda>_. None), cc_groupPlatform = (\<lambda>_. None), cc_byID = (\<lambda>_. None), cc_loadedAt = 0\<rparr>"

definition isPlatformPricingMatch :: "string \<Rightarrow> string \<Rightarrow> bool" where
  "isPlatformPricingMatch groupPlatform pricingPlatform \<longleftrightarrow> groupPlatform = pricingPlatform"

definition matchingPlatforms :: "string \<Rightarrow> string list" where
  "matchingPlatforms groupPlatform = [groupPlatform]"

definition expandModel :: "int \<Rightarrow> ChannelModelPricing \<Rightarrow> string \<Rightarrow> channelCache \<Rightarrow> channelCache" where
  "expandModel gid pricing model c =
     (if suffix ''*'' model
      then c\<lparr>cc_wildcards := (cc_wildcards c)((gid, cp_Platform pricing) :=
          cc_wildcards c (gid, cp_Platform pricing) @ [(ToLower (butlast model), pricing)])\<rparr>
      else c\<lparr>cc_pricing := (cc_pricing c)((gid, cp_Platform pricing, ToLower model) := Some pricing)\<rparr>)"

definition expandPricingToCache :: "Channel \<Rightarrow> int \<Rightarrow> string \<Rightarrow> channelCache \<Rightarrow> channelCache" where
  "expandPricingToCache ch gid platform c = fold (\<lambda>pricing c.
       if \<not> isPlatformPricingMatch platform (cp_Platform pricing) then c
       else fold (expandModel gid pricing) (cp_Models pricing) c) (ch_ModelPricing ch) c"

definition expandMapping :: "int \<Rightarrow> string \<Rightarrow> string \<times> string \<Rightarrow> channelCache \<Rightarrow> channelCache" where
  "expandMapping gid mappingPlatform entry c = (case entry of (src, dst) \<Rightarrow>
     if suffix ''*'' src
     then c\<lparr>cc_wildcardMapping := (cc_wildcardMapping c)((gid, mappingPlatform) :=
         cc_wildcardMapping c (gid, mappingPlatform) @ [(ToLower (butlast src), dst)])\<rparr>
     else c\<lparr>cc_mapping := (cc_mapping c)((gid, mappingPlatform, ToLower src) := Some dst)\<rparr>)"

definition expandMappingToCache :: "Channel \<Rightarrow> int \<Rightarrow> string \<Rightarrow> channelCache \<Rightarrow> channelCache" where
  "expandMappingToCache ch gid platform c = fold (\<lambda>mappingPlatform c. case map_of (ch_ModelMapping ch) mappingPlatform of
       None \<Rightarrow> c | Some m \<Rightarrow> fold (expandMapping gid mappingPlatform) m c) (matchingPlatforms platform) c"

definition BillingModelSourceChannelMapped :: string where "BillingModelSourceChannelMapped = ''channel_mapped''"

definition normalizeBillingModelSource :: "Channel \<Rightarrow> Channel" where
  "normalizeBillingModelSource ch =
     (if ch_BillingModelSource ch = [] then ch\<lparr>ch_BillingModelSource := BillingModelSourceChannelMapped\<rparr> else ch)"

definition platformOf :: "(int \<Rightarrow> string option) \<Rightarrow> int \<Rightarrow> string" where
  "platformOf platforms gid = (case platforms gid of None \<Rightarrow> [] | Some p \<Rightarrow> p)"

definition expandGroup :: "(int \<Rightarrow> string option) \<Rightarrow> Channel \<Rightarrow> int \<Rightarrow> channelCache \<Rightarrow> channelCache" where
  "expandGroup platforms ch gid c = expandMappingToCache ch gid (platformOf platforms gid)
     (expandPricingToCache ch gid (platformOf platforms gid) (c\<lparr>cc_channel := (cc_channel c)(gid := Some ch)\<rparr>))"

definition expandChannel :: "(int \<Rightarrow> string option) \<Rightarrow> Channel \<Rightarrow> channelCache \<Rightarrow> channelCache" where
  "expandChannel platforms ch0 c = (let ch = normalizeBillingModelSource ch0 in
     fold (expandGroup platforms ch) (ch_GroupIDs ch) (c\<lparr>cc_byID := (cc_byID c)(ch_ID ch := Some ch)\<rparr>))"

definition populateChannelCache :: "gotime \<Rightarrow> Channel list \<Rightarrow> (int \<Rightarrow> string option) \<Rightarrow> channelCache" where
  "populateChannelCache now channels platforms =
     fold (expandChannel platforms) channels (newEmptyChannelCache\<lparr>cc_groupPlatform := platforms, cc_loadedAt := now\<rparr>)"

section \<open>Loading\<close>

definition channelCacheTTL :: duration where "channelCacheTTL = 10 * minute"
definition channelErrorTTL :: duration where "channelErrorTTL = 5 * second"

text \<open>What the database answers, should it be asked: nothing, or all channels with the platforms of their groups.\<close>

type_synonym channelData = "(Channel list \<times> (int \<Rightarrow> string option)) option"

definition storeErrorCache :: "gotime \<Rightarrow> channelCache" where
  "storeErrorCache now = newEmptyChannelCache\<lparr>cc_loadedAt := now - (channelCacheTTL - channelErrorTTL)\<rparr>"

definition buildCache :: "gotime \<Rightarrow> channelData \<Rightarrow> channelCache option \<times> channelCache" where
  "buildCache now data = (case data of
       None \<Rightarrow> (None, storeErrorCache now)
     | Some (channels, platforms) \<Rightarrow> (let c = populateChannelCache now channels platforms in (Some c, c)))"

text \<open>The snapshot for the caller, none if it could not be loaded, and the one that is kept.\<close>

definition loadCache :: "gotime \<Rightarrow> channelData \<Rightarrow> channelCache option \<Rightarrow> channelCache option \<times> channelCache option" where
  "loadCache now data kept = (case kept of
       Some c \<Rightarrow> if now - cc_loadedAt c < channelCacheTTL then (Some c, kept)
         else (let (r, c') = buildCache now data in (r, Some c'))
     | None \<Rightarrow> (let (r, c') = buildCache now data in (r, Some c')))"

definition invalidateCache :: "gotime \<Rightarrow> channelData \<Rightarrow> channelCache option" where
  "invalidateCache now data = Some (snd (buildCache now data))"

section \<open>Lookups\<close>

definition cacheMatchWildcard :: "channelCache \<Rightarrow> int \<Rightarrow> string \<Rightarrow> string \<Rightarrow> ChannelModelPricing option" where
  "cacheMatchWildcard c groupID platform modelLower =
     map_option snd (find (\<lambda>w. prefix (fst w) modelLower) (cc_wildcards c (groupID, platform)))"

definition matchWildcardMapping :: "channelCache \<Rightarrow> int \<Rightarrow> string \<Rightarrow> string \<Rightarrow> string" where
  "matchWildcardMapping c groupID platform modelLower =
     (case find (\<lambda>w. prefix (fst w) modelLower) (cc_wildcardMapping c (groupID, platform)) of None \<Rightarrow> [] | Some w \<Rightarrow> snd w)"

fun firstSome :: "('a \<Rightarrow> 'b option) \<Rightarrow> 'a list \<Rightarrow> 'b option" where
  "firstSome f [] = None"
| "firstSome f (x # xs) = orElse (f x) (firstSome f xs)"

definition lookupPricingAcrossPlatforms :: "channelCache \<Rightarrow> int \<Rightarrow> string \<Rightarrow> string \<Rightarrow> ChannelModelPricing option" where
  "lookupPricingAcrossPlatforms c groupID groupPlatform modelLower =
     orElse (firstSome (\<lambda>p. cc_pricing c (groupID, p, modelLower)) (matchingPlatforms groupPlatform))
       (firstSome (\<lambda>p. cacheMatchWildcard c groupID p modelLower) (matchingPlatforms groupPlatform))"

definition lookupMappingAcrossPlatforms :: "channelCache \<Rightarrow> int \<Rightarrow> string \<Rightarrow> string \<Rightarrow> string" where
  "lookupMappingAcrossPlatforms c groupID groupPlatform modelLower =
     (case firstSome (\<lambda>p. cc_mapping c (groupID, p, modelLower)) (matchingPlatforms groupPlatform) of
        Some mapped \<Rightarrow> mapped
      | None \<Rightarrow> (case find (\<lambda>t. t \<noteq> []) (map (\<lambda>p. matchWildcardMapping c groupID p modelLower) (matchingPlatforms groupPlatform)) of
            Some mapped \<Rightarrow> mapped | None \<Rightarrow> []))"

definition channelIsActive :: "Channel \<Rightarrow> bool" where
  "channelIsActive ch \<longleftrightarrow> ch_Status ch = StatusActive"

definition activeChannel :: "channelCache \<Rightarrow> int \<Rightarrow> Channel option" where
  "activeChannel c groupID = (case cc_channel c groupID of Some ch \<Rightarrow> if channelIsActive ch then Some ch else None | None \<Rightarrow> None)"

definition lookupGroupChannel :: "channelCache option \<Rightarrow> int \<Rightarrow> (channelCache \<times> Channel \<times> string) option" where
  "lookupGroupChannel loaded groupID = (case loaded of
       None \<Rightarrow> None
     | Some c \<Rightarrow> map_option (\<lambda>ch. (c, ch, platformOf (cc_groupPlatform c) groupID)) (activeChannel c groupID))"

text \<open>The lookups of a request, on the snapshot that \<^term>\<open>loadCache\<close> returned to it.\<close>

definition GetChannelForGroup :: "channelCache option \<Rightarrow> int \<Rightarrow> Channel option" where
  "GetChannelForGroup loaded groupID = (case loaded of None \<Rightarrow> None | Some c \<Rightarrow> activeChannel c groupID)"

definition GetGroupPlatform :: "channelCache option \<Rightarrow> int \<Rightarrow> string" where
  "GetGroupPlatform loaded groupID = (case loaded of None \<Rightarrow> [] | Some c \<Rightarrow> platformOf (cc_groupPlatform c) groupID)"

definition GetChannelModelPricing :: "channelCache option \<Rightarrow> channelLookup" where
  "GetChannelModelPricing loaded groupID model = (case lookupGroupChannel loaded groupID of
       None \<Rightarrow> None
     | Some (c, ch, platform) \<Rightarrow> lookupPricingAcrossPlatforms c groupID platform (ToLower model))"

record ChannelMappingResult =
  mr_MappedModel :: string
  mr_ChannelID :: int
  mr_Mapped :: bool
  mr_BillingModelSource :: string

definition resolveMapping :: "channelCache \<times> Channel \<times> string \<Rightarrow> int \<Rightarrow> string \<Rightarrow> ChannelMappingResult" where
  "resolveMapping lk groupID model = (case lk of (c, ch, platform) \<Rightarrow>
     let mapped = lookupMappingAcrossPlatforms c groupID platform (ToLower model) in
     \<lparr>mr_MappedModel = (if mapped \<noteq> [] then mapped else model), mr_ChannelID = ch_ID ch, mr_Mapped = (mapped \<noteq> []),
       mr_BillingModelSource = ch_BillingModelSource ch\<rparr>)"

definition unmapped :: "string \<Rightarrow> ChannelMappingResult" where
  "unmapped model = \<lparr>mr_MappedModel = model, mr_ChannelID = 0, mr_Mapped = False, mr_BillingModelSource = []\<rparr>"

definition ResolveChannelMapping :: "channelCache option \<Rightarrow> int \<Rightarrow> string \<Rightarrow> ChannelMappingResult" where
  "ResolveChannelMapping loaded groupID model = (case lookupGroupChannel loaded groupID of
       None \<Rightarrow> unmapped model | Some lk \<Rightarrow> resolveMapping lk groupID model)"

definition ResolveChannelMappingAndRestrict :: "channelCache option \<Rightarrow> int option \<Rightarrow> string \<Rightarrow> ChannelMappingResult \<times> bool" where
  "ResolveChannelMappingAndRestrict loaded groupID model = (case groupID of
       None \<Rightarrow> (unmapped model, False) | Some g \<Rightarrow> (ResolveChannelMapping loaded g model, False))"

definition checkRestricted :: "channelCache \<times> Channel \<times> string \<Rightarrow> int \<Rightarrow> string \<Rightarrow> bool" where
  "checkRestricted lk groupID model = (case lk of (c, ch, platform) \<Rightarrow>
     ch_RestrictModels ch \<and> lookupPricingAcrossPlatforms c groupID platform (ToLower model) = None)"

definition IsModelRestricted :: "channelCache option \<Rightarrow> int \<Rightarrow> string \<Rightarrow> bool" where
  "IsModelRestricted loaded groupID model = (case lookupGroupChannel loaded groupID of
       None \<Rightarrow> False | Some lk \<Rightarrow> checkRestricted lk groupID model)"

section \<open>What a usage record keeps\<close>

text \<open>The arrow of a mapping chain in UTF-8.\<close>

definition arrow :: string where
  "arrow = [CHR 0xE2, CHR 0x86, CHR 0x92]"

definition BuildModelMappingChain :: "ChannelMappingResult \<Rightarrow> string \<Rightarrow> string \<Rightarrow> string" where
  "BuildModelMappingChain r reqModel upstreamModel =
     (if \<not> mr_Mapped r then
        if upstreamModel \<noteq> [] \<and> upstreamModel \<noteq> reqModel then reqModel @ arrow @ upstreamModel else []
      else if upstreamModel \<noteq> [] \<and> upstreamModel \<noteq> mr_MappedModel r
      then reqModel @ arrow @ mr_MappedModel r @ arrow @ upstreamModel
      else reqModel @ arrow @ mr_MappedModel r)"

record ChannelUsageFields =
  uf_ChannelID :: int
  uf_OriginalModel :: string
  uf_ChannelMappedModel :: string
  uf_BillingModelSource :: string
  uf_ModelMappingChain :: string

definition ToUsageFields :: "ChannelMappingResult \<Rightarrow> string \<Rightarrow> string \<Rightarrow> ChannelUsageFields" where
  "ToUsageFields r reqModel upstreamModel = \<lparr>uf_ChannelID = mr_ChannelID r, uf_OriginalModel = reqModel,
     uf_ChannelMappedModel = (if mr_Mapped r then mr_MappedModel r else reqModel), uf_BillingModelSource = mr_BillingModelSource r,
     uf_ModelMappingChain = BuildModelMappingChain r reqModel upstreamModel\<rparr>"

end
