(* ===== verification/ChannelFacts.thy ===== *)
theory ChannelFacts
  imports ChannelCache CostFacts
begin

text \<open>
  What the snapshot of the channels finds: patterns that pass validation cover every model at most once, so the hashed lookups
  agree with the lists of the channel they were filled from, in whatever order that happened.
\<close>

section \<open>Patterns\<close>

definition covers :: "modelEntry \<Rightarrow> string \<Rightarrow> bool" where
  "covers e x = (if me_wildcard e then prefix (me_prefix e) x else me_prefix e = x)"

lemma conflicts_iff: "conflictsBetween a b \<longleftrightarrow> (\<exists>x. covers a x \<and> covers b x)"
  using prefix_order.refl prefix_same_cases
  by (cases "me_wildcard a"; cases "me_wildcard b") (force simp: conflictsBetween_def covers_def)+

lemma one_cover:
  assumes "\<not> detectConflicts (map f rs)" "r \<in> set rs" "r' \<in> set rs" "covers (f r) x" "covers (f r') x"
  shows "r = r'"
  using assms
proof (induction rs)
  case (Cons a rs)
  then have "\<not> (\<exists>s \<in> set rs. covers (f a) x \<and> covers (f s) x)" by (auto simp: list_ex_iff conflicts_iff)
  with Cons show ?case by auto
qed simp

lemma star_lower: "suffix ''*'' (ToLower m) = suffix ''*'' m"
proof -
  have "noLetter (CHR ''*'')" by code_simp
  then have "prefix ''*'' (map lower_char (rev m)) = prefix ''*'' (rev m)" by (simp add: prefix_lower)
  then show ?thesis by (simp add: suffix_to_prefix ToLower_def rev_map)
qed

lemma covers_pattern:
  "covers (toModelEntry m) x = (if suffix ''*'' m then prefix (ToLower (butlast m)) x else ToLower m = x)"
  using star_lower [of m] by (simp add: covers_def toModelEntry_def splitWildcardSuffix_def ToLower_def map_butlast)

section \<open>Filling\<close>

definition priceRows :: "Channel \<Rightarrow> string \<Rightarrow> (ChannelModelPricing \<times> string) list" where
  "priceRows ch platform = concat (map (\<lambda>p. map (Pair p) (cp_Models p)) (filter (\<lambda>p. cp_Platform p = platform) (ch_ModelPricing ch)))"

definition addRow :: "int \<Rightarrow> ChannelModelPricing \<times> string \<Rightarrow> channelCache \<Rightarrow> channelCache" where
  "addRow gid r = expandModel gid (fst r) (snd r)"

lemma fold_models: "fold (expandModel gid p) ms = fold (addRow gid) (map (Pair p) ms)"
  by (induction ms) (auto simp: addRow_def)

lemma expandPricing_rows: "expandPricingToCache ch gid platform = fold (addRow gid) (priceRows ch platform)"
proof -
  have "fold (\<lambda>pricing c. if \<not> isPlatformPricingMatch platform (cp_Platform pricing) then c else fold (expandModel gid pricing) (cp_Models pricing) c) ps c =
      fold (addRow gid) (concat (map (\<lambda>p. map (Pair p) (cp_Models p)) (filter (\<lambda>p. cp_Platform p = platform) ps))) c" for ps c
    by (induction ps arbitrary: c) (auto simp: isPlatformPricingMatch_def fold_models)
  then show ?thesis by (intro ext) (simp add: expandPricingToCache_def priceRows_def)
qed

lemma rows_exact:
  "\<forall>r \<in> set rs. cp_Platform (fst r) = pl \<Longrightarrow>
   cc_pricing (fold (addRow gid) rs c) (gid, pl, x) = (case find (\<lambda>r. \<not> suffix ''*'' (snd r) \<and> ToLower (snd r) = x) (rev rs) of
     Some r \<Rightarrow> Some (fst r) | None \<Rightarrow> cc_pricing c (gid, pl, x))"
  by (induction rs rule: rev_induct) (auto simp: addRow_def expandModel_def split: option.split)

lemma rows_wild:
  "\<forall>r \<in> set rs. cp_Platform (fst r) = pl \<Longrightarrow>
   cc_wildcards (fold (addRow gid) rs c) (gid, pl) =
     cc_wildcards c (gid, pl) @ map (\<lambda>r. (ToLower (butlast (snd r)), fst r)) (filter (\<lambda>r. suffix ''*'' (snd r)) rs)"
  by (induction rs rule: rev_induct) (auto simp: addRow_def expandModel_def)

lemma priceRows_platform: "\<forall>r \<in> set (priceRows ch platform). cp_Platform (fst r) = platform"
  by (auto simp: priceRows_def)

text \<open>What a group sees of the snapshot.\<close>

definition view :: "int \<Rightarrow> channelCache \<Rightarrow> (string \<Rightarrow> string \<Rightarrow> ChannelModelPricing option) \<times> (string \<Rightarrow> (string \<times> ChannelModelPricing) list) \<times>
    (string \<Rightarrow> string \<Rightarrow> string option) \<times> (string \<Rightarrow> (string \<times> string) list) \<times> Channel option" where
  "view gid c = (\<lambda>pl x. cc_pricing c (gid, pl, x), \<lambda>pl. cc_wildcards c (gid, pl), \<lambda>pl x. cc_mapping c (gid, pl, x),
     \<lambda>pl. cc_wildcardMapping c (gid, pl), cc_channel c gid)"

lemma view_row: "g \<noteq> gid \<Longrightarrow> view gid (addRow g r c) = view gid c"
  by (simp add: view_def addRow_def expandModel_def)

lemma view_rows: "g \<noteq> gid \<Longrightarrow> view gid (fold (addRow g) rs c) = view gid c"
  by (induction rs arbitrary: c) (simp_all add: view_row)

lemma view_mapping: "g \<noteq> gid \<Longrightarrow> view gid (fold (expandMapping g pl) m c) = view gid c"
  by (induction m arbitrary: c) (auto simp: view_def expandMapping_def)

lemma view_other_group: "g \<noteq> gid \<Longrightarrow> view gid (expandGroup platforms ch g c) = view gid c"
  by (auto simp: expandGroup_def expandMappingToCache_def matchingPlatforms_def expandPricing_rows view_mapping view_rows
      split: option.split) (simp add: view_def)+

lemma view_groups: "gid \<notin> set gids \<Longrightarrow> view gid (fold (expandGroup platforms ch) gids c) = view gid c"
  by (induction gids arbitrary: c) (simp_all add: view_other_group)

lemma normalized [simp]:
  "ch_GroupIDs (normalizeBillingModelSource ch) = ch_GroupIDs ch" "ch_ModelPricing (normalizeBillingModelSource ch) = ch_ModelPricing ch"
  "ch_ModelMapping (normalizeBillingModelSource ch) = ch_ModelMapping ch" "ch_Status (normalizeBillingModelSource ch) = ch_Status ch"
  "ch_RestrictModels (normalizeBillingModelSource ch) = ch_RestrictModels ch" "ch_ID (normalizeBillingModelSource ch) = ch_ID ch"
  by (simp_all add: normalizeBillingModelSource_def)

lemma view_byID [simp]: "view gid (cc_byID_update f c) = view gid c"
  by (simp add: view_def)

lemma view_other_channel: "gid \<notin> set (ch_GroupIDs ch) \<Longrightarrow> view gid (expandChannel platforms ch c) = view gid c"
  by (simp add: expandChannel_def Let_def view_groups)

lemma view_channels:
  "\<forall>ch \<in> set chs. gid \<notin> set (ch_GroupIDs ch) \<Longrightarrow> view gid (fold (expandChannel platforms) chs c) = view gid c"
  by (induction chs arbitrary: c) (simp_all add: view_other_channel)

lemma groupPlatform_kept: "cc_groupPlatform (fold (expandChannel platforms) chs c) = cc_groupPlatform c"
proof -
  have "cc_groupPlatform (fold (addRow g) rs c) = cc_groupPlatform c" for g rs c
    by (induction rs arbitrary: c) (auto simp: addRow_def expandModel_def)
  moreover have "cc_groupPlatform (fold (expandMapping g pl) m c) = cc_groupPlatform c" for g pl m c
    by (induction m arbitrary: c) (auto simp: expandMapping_def)
  ultimately have "cc_groupPlatform (expandGroup platforms ch g c) = cc_groupPlatform c" for ch g c
    by (simp add: expandGroup_def expandMappingToCache_def matchingPlatforms_def expandPricing_rows split: option.split)
  then have "cc_groupPlatform (fold (expandGroup platforms ch) gs c) = cc_groupPlatform c" for ch gs c
    by (induction gs arbitrary: c) simp_all
  then have "cc_groupPlatform (expandChannel platforms ch c) = cc_groupPlatform c" for ch c
    by (simp add: expandChannel_def Let_def)
  then show ?thesis by (induction chs arbitrary: c) simp_all
qed

text \<open>A group in one channel only, once, sees what that channel brings.\<close>

lemma view_populated:
  assumes "channels = as @ ch # bs" "ch_GroupIDs ch = gs @ gid # hs"
    and "gid \<notin> set gs" "gid \<notin> set hs" "\<forall>c \<in> set as \<union> set bs. gid \<notin> set (ch_GroupIDs c)"
  obtains c where "view gid c = view gid newEmptyChannelCache"
    and "view gid (populateChannelCache now channels platforms) = view gid (expandGroup platforms (normalizeBillingModelSource ch) gid c)"
proof -
  let ?n = "normalizeBillingModelSource ch"
  let ?a = "fold (expandChannel platforms) as (newEmptyChannelCache\<lparr>cc_groupPlatform := platforms, cc_loadedAt := now\<rparr>)"
  let ?c = "fold (expandGroup platforms ?n) gs (?a\<lparr>cc_byID := (cc_byID ?a)(ch_ID ?n := Some ?n)\<rparr>)"
  have "view gid ?c = view gid ?a" using assms(3) by (simp add: view_groups)
  also have "\<dots> = view gid (newEmptyChannelCache\<lparr>cc_groupPlatform := platforms, cc_loadedAt := now\<rparr>)" using assms(5) by (simp add: view_channels)
  also have "\<dots> = view gid newEmptyChannelCache" by (simp add: view_def)
  finally have "view gid ?c = view gid newEmptyChannelCache" .
  moreover have "view gid (populateChannelCache now channels platforms) = view gid (expandGroup platforms ?n gid ?c)"
    using assms(4,5) by (simp add: populateChannelCache_def assms(1) view_channels expandChannel_def Let_def assms(2) view_groups)
  ultimately show ?thesis by (rule that)
qed

section \<open>Finding\<close>

lemma mapping_keeps [simp]:
  "cc_pricing (fold (expandMapping g pl) m c) = cc_pricing c" "cc_wildcards (fold (expandMapping g pl) m c) = cc_wildcards c"
  "cc_channel (fold (expandMapping g pl) m c) = cc_channel c"
  by (induction m arbitrary: c) (auto simp: expandMapping_def)

lemma rows_keep [simp]:
  "cc_mapping (fold (addRow g) rs c) = cc_mapping c" "cc_wildcardMapping (fold (addRow g) rs c) = cc_wildcardMapping c"
  "cc_channel (fold (addRow g) rs c) = cc_channel c"
  by (induction rs arbitrary: c) (auto simp: addRow_def expandModel_def)

lemma find_SomeI: "x \<in> set xs \<Longrightarrow> P x \<Longrightarrow> \<exists>y. find P xs = Some y"
  by (metis find_None_iff not_Some_eq)

lemma unique_find:
  assumes "\<And>r r'. r \<in> set rs \<Longrightarrow> r' \<in> set rs \<Longrightarrow> Q r \<Longrightarrow> Q r' \<Longrightarrow> r = r'" and "r \<in> set rs" "P r" "\<And>r. P r \<Longrightarrow> Q r"
  shows "find P rs = Some r" "find P (rev rs) = Some r"
proof -
  have "find P xs = Some r" if eq: "set xs = set rs" for xs
  proof -
    obtain y where y: "find P xs = Some y" using find_SomeI [of r xs P] eq assms(2,3) by blast
    then have "y \<in> set rs" "P y" using eq by (auto simp: find_Some_iff)
    with assms have "y = r" by blast
    with y show ?thesis by simp
  qed
  then show "find P rs = Some r" "find P (rev rs) = Some r" by simp_all
qed

lemma unique_either:
  assumes uniq: "\<And>r r'. r \<in> set rs \<Longrightarrow> r' \<in> set rs \<Longrightarrow> Q r \<Longrightarrow> Q r' \<Longrightarrow> r = r'" and Q: "\<And>r. Q r \<longleftrightarrow> E r \<or> W r"
  shows "orElse (find E (rev rs)) (find W rs) = Some r \<longleftrightarrow> r \<in> set rs \<and> Q r"
proof (cases "\<exists>s \<in> set rs. Q s")
  case True
  then obtain s where s: "s \<in> set rs" "Q s" by blast
  have "orElse (find E (rev rs)) (find W rs) = Some s"
  proof (cases "E s")
    case True
    with s(1) have "find E (rev rs) = Some s" using uniq Q by (intro unique_find(2) [where Q = Q]) blast+
    then show ?thesis by (simp add: orElse_def)
  next
    case False
    then have "W s" using s(2) Q by blast
    moreover have "find E (rev rs) = None" using uniq [OF s(1)] s(2) False Q by (auto simp: find_None_iff)
    moreover have "find W rs = Some s" using s(1) \<open>W s\<close> uniq Q by (intro unique_find(1) [where Q = Q]) blast+
    ultimately show ?thesis by (simp add: orElse_def)
  qed
  with s uniq show ?thesis by (metis option.inject)
next
  case False
  then have "find E (rev rs) = None" "find W rs = None" using Q by (auto simp: find_None_iff)
  with False show ?thesis by (auto simp: orElse_def)
qed

text \<open>The row of a list of patterns that a model finds: the exact one, or the first wildcard.\<close>

definition rowFound :: "('r \<Rightarrow> string) \<Rightarrow> 'r list \<Rightarrow> string \<Rightarrow> 'r option" where
  "rowFound pat rs x = orElse (find (\<lambda>r. \<not> suffix ''*'' (pat r) \<and> ToLower (pat r) = x) (rev rs))
     (find (\<lambda>r. suffix ''*'' (pat r) \<and> prefix (ToLower (butlast (pat r))) x) rs)"

lemma rowFound_iff:
  "\<not> detectConflicts (map (\<lambda>r. toModelEntry (pat r)) rs) \<Longrightarrow>
   rowFound pat rs x = Some r \<longleftrightarrow> r \<in> set rs \<and> covers (toModelEntry (pat r)) x"
  unfolding rowFound_def
  by (rule unique_either [where Q = "\<lambda>r. covers (toModelEntry (pat r)) x"]) (auto simp: covers_pattern dest: one_cover)

lemma find_wildcards:
  "find (\<lambda>w. prefix (fst w) x) (map (\<lambda>r. (ToLower (butlast (pat r)), val r)) (filter (\<lambda>r. suffix ''*'' (pat r)) rs)) =
   map_option (\<lambda>r. (ToLower (butlast (pat r)), val r)) (find (\<lambda>r. suffix ''*'' (pat r) \<and> prefix (ToLower (butlast (pat r))) x) rs)"
  by (induction rs) auto

lemma lookup_filled:
  assumes pl: "\<forall>r \<in> set rows. cp_Platform (fst r) = pl"
    and fresh: "\<And>x. cc_pricing c (gid, pl, x) = None" "cc_wildcards c (gid, pl) = []"
    and c': "\<And>x. cc_pricing c' (gid, pl, x) = cc_pricing (fold (addRow gid) rows c) (gid, pl, x)"
      "cc_wildcards c' (gid, pl) = cc_wildcards (fold (addRow gid) rows c) (gid, pl)"
  shows "lookupPricingAcrossPlatforms c' gid pl x = map_option fst (rowFound snd rows x)"
  by (cases "find (\<lambda>r. suffix ''*'' (snd r) \<and> prefix (ToLower (butlast (snd r))) x) rows")
    (simp_all add: lookupPricingAcrossPlatforms_def matchingPlatforms_def cacheMatchWildcard_def c' rows_exact [OF pl] rows_wild [OF pl] fresh
      find_wildcards rowFound_def orElse_def split: option.split)

lemma no_conflicts: "validateNoConflictingModels (ch_ModelPricing ch) = None \<Longrightarrow> \<not> detectConflicts (map (\<lambda>r. toModelEntry (snd r)) (priceRows ch pl))"
proof -
  have rows: "map (\<lambda>r. toModelEntry (snd r)) (priceRows ch pl) = entriesOf (ch_ModelPricing ch) pl"
    by (simp add: priceRows_def entriesOf_def map_concat comp_def)
  assume "validateNoConflictingModels (ch_ModelPricing ch) = None"
  then have "\<forall>p \<in> set (ch_ModelPricing ch). \<not> detectConflicts (entriesOf (ch_ModelPricing ch) (cp_Platform p))"
    by (simp add: validateNoConflictingModels_def list_ex_iff split: if_splits)
  then show ?thesis unfolding rows
    by (cases "\<exists>p \<in> set (ch_ModelPricing ch). cp_Platform p = pl") (auto simp: entriesOf_def filter_False)
qed

lemma mapping_exact:
  "cc_mapping (fold (expandMapping gid pl) m c) (gid, pl, x) = (case find (\<lambda>r. \<not> suffix ''*'' (fst r) \<and> ToLower (fst r) = x) (rev m) of
     Some r \<Rightarrow> Some (snd r) | None \<Rightarrow> cc_mapping c (gid, pl, x))"
  by (induction m rule: rev_induct) (auto simp: expandMapping_def split: option.split)

lemma mapping_wild:
  "cc_wildcardMapping (fold (expandMapping gid pl) m c) (gid, pl) =
     cc_wildcardMapping c (gid, pl) @ map (\<lambda>r. (ToLower (butlast (fst r)), snd r)) (filter (\<lambda>r. suffix ''*'' (fst r)) m)"
  by (induction m rule: rev_induct) (auto simp: expandMapping_def)

lemma mapping_filled:
  assumes fresh: "\<And>x. cc_mapping c (gid, pl, x) = None" "cc_wildcardMapping c (gid, pl) = []"
    and c': "\<And>x. cc_mapping c' (gid, pl, x) = cc_mapping (fold (expandMapping gid pl) m c) (gid, pl, x)"
      "cc_wildcardMapping c' (gid, pl) = cc_wildcardMapping (fold (expandMapping gid pl) m c) (gid, pl)"
  shows "lookupMappingAcrossPlatforms c' gid pl x = (case rowFound fst m x of None \<Rightarrow> [] | Some r \<Rightarrow> snd r)"
  by (simp add: lookupMappingAcrossPlatforms_def matchingPlatforms_def matchWildcardMapping_def c' mapping_exact mapping_wild fresh
      find_wildcards rowFound_def orElse_def split: option.split)

text \<open>A group in exactly one channel.\<close>

definition onlyChannel :: "Channel list \<Rightarrow> int \<Rightarrow> Channel \<Rightarrow> bool" where
  "onlyChannel channels gid ch \<longleftrightarrow>
     ch \<in> set channels \<and> gid \<in> set (ch_GroupIDs ch) \<and> count_list (concat (map ch_GroupIDs channels)) gid = 1"

lemma only_split:
  assumes "onlyChannel channels gid ch"
  obtains as bs gs hs where "channels = as @ ch # bs" "ch_GroupIDs ch = gs @ gid # hs" "gid \<notin> set gs" "gid \<notin> set hs"
    "\<forall>c \<in> set as \<union> set bs. gid \<notin> set (ch_GroupIDs c)"
proof -
  obtain as bs where c: "channels = as @ ch # bs" using assms split_list [of ch channels] by (auto simp: onlyChannel_def)
  obtain gs hs where g: "ch_GroupIDs ch = gs @ gid # hs" using assms split_list [of gid "ch_GroupIDs ch"] by (auto simp: onlyChannel_def)
  have "count_list (concat (map ch_GroupIDs as)) gid + count_list gs gid + count_list hs gid + count_list (concat (map ch_GroupIDs bs)) gid = 0"
    using assms by (simp add: onlyChannel_def c g)
  then have "gid \<notin> set (concat (map ch_GroupIDs as))" "gid \<notin> set gs" "gid \<notin> set hs" "gid \<notin> set (concat (map ch_GroupIDs bs))"
    by (simp_all add: count_list_0_iff)
  with c g show ?thesis by (intro that [of as bs gs hs]) auto
qed

text \<open>The snapshot as a group sees it.\<close>

lemma populated_group:
  fixes now :: gotime and platforms :: "int \<Rightarrow> string option"
  assumes "onlyChannel channels gid ch"
  defines "cache \<equiv> populateChannelCache now channels platforms" and "pl \<equiv> platformOf platforms gid"
  obtains c where
    "\<And>x. cc_pricing c (gid, pl, x) = None" "cc_wildcards c (gid, pl) = []"
    "\<And>x. cc_mapping c (gid, pl, x) = None" "cc_wildcardMapping c (gid, pl) = []"
    "\<And>x. cc_pricing cache (gid, pl, x) = cc_pricing (fold (addRow gid) (priceRows ch pl) c) (gid, pl, x)"
    "cc_wildcards cache (gid, pl) = cc_wildcards (fold (addRow gid) (priceRows ch pl) c) (gid, pl)"
    "\<And>x. cc_mapping cache (gid, pl, x) = cc_mapping (case map_of (ch_ModelMapping ch) pl of None \<Rightarrow> c | Some m \<Rightarrow> fold (expandMapping gid pl) m c) (gid, pl, x)"
    "cc_wildcardMapping cache (gid, pl) = cc_wildcardMapping (case map_of (ch_ModelMapping ch) pl of None \<Rightarrow> c | Some m \<Rightarrow> fold (expandMapping gid pl) m c) (gid, pl)"
    "cc_channel cache gid = Some (normalizeBillingModelSource ch)" "cc_groupPlatform cache = platforms"
proof -
  let ?n = "normalizeBillingModelSource ch"
  obtain as bs gs hs where s: "channels = as @ ch # bs" "ch_GroupIDs ch = gs @ gid # hs" "gid \<notin> set gs" "gid \<notin> set hs"
    "\<forall>c \<in> set as \<union> set bs. gid \<notin> set (ch_GroupIDs c)"
    using assms(1) by (rule only_split)
  obtain c0 where c0: "view gid c0 = view gid newEmptyChannelCache" "view gid cache = view gid (expandGroup platforms ?n gid c0)"
    unfolding cache_def using s by (rule view_populated)
  let ?c = "c0\<lparr>cc_channel := (cc_channel c0)(gid := Some ?n)\<rparr>"
  let ?g = "expandGroup platforms ?n gid c0"
  have rows: "priceRows ?n pl = priceRows ch pl" by (simp add: priceRows_def)
  have fresh: "cc_pricing ?c (gid, pl, x) = None" "cc_wildcards ?c (gid, pl) = []" "cc_mapping ?c (gid, pl, x) = None"
    "cc_wildcardMapping ?c (gid, pl) = []" for x
    using c0(1) by (simp_all add: view_def newEmptyChannelCache_def fun_eq_iff)
  have g: "?g = (case map_of (ch_ModelMapping ch) pl of None \<Rightarrow> fold (addRow gid) (priceRows ch pl) ?c
      | Some m \<Rightarrow> fold (expandMapping gid pl) m (fold (addRow gid) (priceRows ch pl) ?c))"
    by (simp add: expandGroup_def expandMappingToCache_def matchingPlatforms_def expandPricing_rows rows pl_def [symmetric])
  have maps: "cc_mapping (fold (expandMapping gid pl) m d) (gid, pl, x) = cc_mapping (fold (expandMapping gid pl) m e) (gid, pl, x) \<and>
      cc_wildcardMapping (fold (expandMapping gid pl) m d) (gid, pl) = cc_wildcardMapping (fold (expandMapping gid pl) m e) (gid, pl)"
    if "\<And>x. cc_mapping d (gid, pl, x) = cc_mapping e (gid, pl, x)" "cc_wildcardMapping d (gid, pl) = cc_wildcardMapping e (gid, pl)" for m d e x
    by (simp add: mapping_exact mapping_wild that split: option.split)
  have v: "cc_pricing cache (gid, pl, x) = cc_pricing ?g (gid, pl, x)" "cc_wildcards cache (gid, pl) = cc_wildcards ?g (gid, pl)"
    "cc_mapping cache (gid, pl, x) = cc_mapping ?g (gid, pl, x)" "cc_wildcardMapping cache (gid, pl) = cc_wildcardMapping ?g (gid, pl)"
    "cc_channel cache gid = cc_channel ?g gid" for x
    using c0(2) by (simp_all add: view_def fun_eq_iff)
  let ?f = "fold (addRow gid) (priceRows ch pl) ?c" and ?m = "\<lambda>c. case map_of (ch_ModelMapping ch) pl of None \<Rightarrow> c | Some m \<Rightarrow> fold (expandMapping gid pl) m c"
  have g': "?g = ?m ?f" by (simp only: g)
  have "cc_mapping (?m ?f) (gid, pl, x) = cc_mapping (?m ?c) (gid, pl, x) \<and> cc_wildcardMapping (?m ?f) (gid, pl) = cc_wildcardMapping (?m ?c) (gid, pl)" for x
  proof (cases "map_of (ch_ModelMapping ch) pl")
    case (Some m)
    have "cc_mapping ?f = cc_mapping ?c" "cc_wildcardMapping ?f = cc_wildcardMapping ?c" by simp_all
    then show ?thesis unfolding Some option.case by (intro maps) (simp_all only:)
  qed (simp only: option.case rows_keep simp_thms)
  moreover have "cc_pricing (?m ?f) = cc_pricing ?f" "cc_wildcards (?m ?f) = cc_wildcards ?f" "cc_channel (?m ?f) = cc_channel ?c"
    by (cases "map_of (ch_ModelMapping ch) pl"; simp only: option.case mapping_keeps rows_keep)+
  ultimately have m: "cc_pricing cache (gid, pl, x) = cc_pricing ?f (gid, pl, x)" "cc_wildcards cache (gid, pl) = cc_wildcards ?f (gid, pl)"
    "cc_mapping cache (gid, pl, x) = cc_mapping (?m ?c) (gid, pl, x)" "cc_wildcardMapping cache (gid, pl) = cc_wildcardMapping (?m ?c) (gid, pl)"
    "cc_channel cache gid = cc_channel ?c gid" for x
    by (simp_all only: v g')
  have n: "cc_channel cache gid = Some ?n" by (simp add: m(5))
  have p: "cc_groupPlatform cache = platforms" by (simp add: cache_def populateChannelCache_def groupPlatform_kept)
  show ?thesis by (rule that [of ?c, OF fresh m(1-4) n p])
qed

lemma found_price:
  assumes "onlyChannel channels gid ch"
  shows "lookupPricingAcrossPlatforms (populateChannelCache now channels platforms) gid (platformOf platforms gid) x =
    map_option fst (rowFound snd (priceRows ch (platformOf platforms gid)) x)"
  using assms
proof (rule populated_group)
  fix c
  assume "\<And>x. cc_pricing c (gid, platformOf platforms gid, x) = None" "cc_wildcards c (gid, platformOf platforms gid) = []"
    "\<And>x. cc_pricing (populateChannelCache now channels platforms) (gid, platformOf platforms gid, x) =
       cc_pricing (fold (addRow gid) (priceRows ch (platformOf platforms gid)) c) (gid, platformOf platforms gid, x)"
    "cc_wildcards (populateChannelCache now channels platforms) (gid, platformOf platforms gid) =
       cc_wildcards (fold (addRow gid) (priceRows ch (platformOf platforms gid)) c) (gid, platformOf platforms gid)"
  then show ?thesis by (rule lookup_filled [OF priceRows_platform])
qed

lemma found_mapping:
  assumes "onlyChannel channels gid ch"
  shows "lookupMappingAcrossPlatforms (populateChannelCache now channels platforms) gid (platformOf platforms gid) x =
    (case rowFound fst (case map_of (ch_ModelMapping ch) (platformOf platforms gid) of None \<Rightarrow> [] | Some m \<Rightarrow> m) x of None \<Rightarrow> [] | Some r \<Rightarrow> snd r)"
  using assms
proof (rule populated_group)
  fix c
  let ?pl = "platformOf platforms gid" and ?p = "populateChannelCache now channels platforms"
  let ?m = "case map_of (ch_ModelMapping ch) ?pl of None \<Rightarrow> [] | Some m \<Rightarrow> m"
  assume fresh: "\<And>x. cc_mapping c (gid, ?pl, x) = None" "cc_wildcardMapping c (gid, ?pl) = []"
    and "\<And>x. cc_mapping ?p (gid, ?pl, x) = cc_mapping (case map_of (ch_ModelMapping ch) ?pl of None \<Rightarrow> c | Some m \<Rightarrow> fold (expandMapping gid ?pl) m c) (gid, ?pl, x)"
    "cc_wildcardMapping ?p (gid, ?pl) = cc_wildcardMapping (case map_of (ch_ModelMapping ch) ?pl of None \<Rightarrow> c | Some m \<Rightarrow> fold (expandMapping gid ?pl) m c) (gid, ?pl)"
  then have "cc_mapping ?p (gid, ?pl, y) = cc_mapping (fold (expandMapping gid ?pl) ?m c) (gid, ?pl, y)"
    "cc_wildcardMapping ?p (gid, ?pl) = cc_wildcardMapping (fold (expandMapping gid ?pl) ?m c) (gid, ?pl)" for y
    by (simp_all split: option.split)
  with fresh show ?thesis by (rule mapping_filled)
qed

lemma group_lookup:
  assumes "onlyChannel channels gid ch" "channelIsActive ch"
  shows "lookupGroupChannel (Some (populateChannelCache now channels platforms)) gid =
    Some (populateChannelCache now channels platforms, normalizeBillingModelSource ch, platformOf platforms gid)"
  using assms(1)
proof (rule populated_group)
  fix c
  assume "cc_channel (populateChannelCache now channels platforms) gid = Some (normalizeBillingModelSource ch)"
    "cc_groupPlatform (populateChannelCache now channels platforms) = platforms"
  then show ?thesis using assms(2) by (simp add: lookupGroupChannel_def activeChannel_def channelIsActive_def)
qed

text \<open>A snapshot serves for ten minutes without asking again.\<close>

definition laterLoad :: "gotime \<Rightarrow> channelData \<Rightarrow> gotime \<Rightarrow> channelData \<Rightarrow> channelCache option" where
  "laterLoad now data later data' = fst (loadCache later data' (snd (loadCache now data None)))"

lemma populated_at [simp]: "cc_loadedAt (populateChannelCache now channels platforms) = now"
proof -
  have "cc_loadedAt (fold (addRow g) rs c) = cc_loadedAt c" for g rs c
    by (induction rs arbitrary: c) (auto simp: addRow_def expandModel_def)
  moreover have "cc_loadedAt (fold (expandMapping g pl) m c) = cc_loadedAt c" for g pl m c
    by (induction m arbitrary: c) (auto simp: expandMapping_def)
  ultimately have "cc_loadedAt (expandGroup platforms ch g c) = cc_loadedAt c" for ch g c
    by (simp add: expandGroup_def expandMappingToCache_def matchingPlatforms_def expandPricing_rows split: option.split)
  then have "cc_loadedAt (fold (expandGroup platforms ch) gs c) = cc_loadedAt c" for ch gs c
    by (induction gs arbitrary: c) simp_all
  then have "cc_loadedAt (expandChannel platforms ch c) = cc_loadedAt c" for ch c
    by (simp add: expandChannel_def Let_def)
  then have "cc_loadedAt (fold (expandChannel platforms) chs c) = cc_loadedAt c" for chs c
    by (induction chs arbitrary: c) simp_all
  then show ?thesis by (simp add: populateChannelCache_def)
qed

lemma later_populated:
  "later < now + channelCacheTTL \<Longrightarrow> laterLoad now (Some (channels, platforms)) later data' = Some (populateChannelCache now channels platforms)"
  by (simp add: laterLoad_def loadCache_def buildCache_def Let_def)

end
