(* ===== verification/PriceLists.thy ===== *)
theory PriceLists
  imports ModelPrices
begin

text \<open>
  The price list that is downloaded or shipped with the program, \<^verbatim>\<open>service/pricing_service.go\<close>: how a model name finds an entry.
  The list is a Go map, whose iteration order is random; it is an association list with distinct keys here, in the order
  in which the loops of a lookup meet the entries.
\<close>

section \<open>Prices that come with the code\<close>

definition zeroLiteLLM :: LiteLLMModelPricing where
  "zeroLiteLLM = \<lparr>ll_InputCostPerToken = 0, ll_InputCostPerTokenPriority = 0, ll_OutputCostPerToken = 0, ll_OutputCostPerTokenPriority = 0,
     ll_CacheCreationInputTokenCost = 0, ll_CacheCreationInputTokenCostPriority = 0, ll_CacheCreationInputTokenCostAbove1hr = 0,
     ll_CacheReadInputTokenCost = 0, ll_CacheReadInputTokenCostPriority = 0, ll_LongContextInputTokenThreshold = 0,
     ll_LongContextInputCostMultiplier = 0, ll_LongContextOutputCostMultiplier = 0, ll_LongContextInputCostPerToken = 0,
     ll_LongContextInputCostPerTokenPriority = 0, ll_LongContextOutputCostPerToken = 0, ll_LongContextOutputCostPerTokenPriority =
     0, ll_LongContextCacheCreationInputTokenCost = 0, ll_LongContextCacheCreationInputTokenCostPriority = 0,
     ll_LongContextCacheReadInputTokenCost = 0, ll_LongContextCacheReadInputTokenCostPriority = 0, ll_SupportsServiceTier = False,
     ll_LiteLLMProvider = [], ll_Mode = [], ll_SupportsPromptCaching = False, ll_InputCostPerImageToken = 0,
     ll_CacheReadInputImageTokenCost = 0, ll_OutputCostPerImage = 0, ll_OutputCostPerImageToken = 0\<rparr>"

definition openAIGPT56SolFallbackPricing :: LiteLLMModelPricing where
  "openAIGPT56SolFallbackPricing = zeroLiteLLM\<lparr>ll_InputCostPerToken := mtok 5, ll_InputCostPerTokenPriority := mtok 10, ll_OutputCostPerToken := mtok 30,
     ll_OutputCostPerTokenPriority := mtok 60, ll_CacheCreationInputTokenCost := mtok (25 / 4),
     ll_CacheCreationInputTokenCostPriority := mtok (25 / 2), ll_CacheReadInputTokenCost := mtok (1 / 2),
     ll_CacheReadInputTokenCostPriority := mtok 1, ll_LongContextInputTokenThreshold := openAIGPT54LongContextInputThreshold,
     ll_LongContextInputCostMultiplier := openAIGPT54LongContextInputMultiplier, ll_LongContextOutputCostMultiplier :=
     openAIGPT54LongContextOutputMultiplier, ll_LiteLLMProvider := ''openai'', ll_Mode := ''chat'', ll_SupportsPromptCaching :=
     True, ll_SupportsServiceTier := True\<rparr>"

definition openAIGPT56TerraFallbackPricing :: LiteLLMModelPricing where
  "openAIGPT56TerraFallbackPricing = zeroLiteLLM\<lparr>ll_InputCostPerToken := mtok (5 / 2), ll_InputCostPerTokenPriority := mtok 5, ll_OutputCostPerToken := mtok 15,
     ll_OutputCostPerTokenPriority := mtok 30, ll_CacheCreationInputTokenCost := mtok (25 / 8),
     ll_CacheCreationInputTokenCostPriority := mtok (25 / 4), ll_CacheReadInputTokenCost := mtok (1 / 4),
     ll_CacheReadInputTokenCostPriority := mtok (1 / 2), ll_LongContextInputTokenThreshold :=
     openAIGPT54LongContextInputThreshold, ll_LongContextInputCostMultiplier := openAIGPT54LongContextInputMultiplier,
     ll_LongContextOutputCostMultiplier := openAIGPT54LongContextOutputMultiplier, ll_LiteLLMProvider := ''openai'', ll_Mode :=
     ''chat'', ll_SupportsPromptCaching := True, ll_SupportsServiceTier := True\<rparr>"

definition openAIGPT56LunaFallbackPricing :: LiteLLMModelPricing where
  "openAIGPT56LunaFallbackPricing = zeroLiteLLM\<lparr>ll_InputCostPerToken := mtok 1, ll_InputCostPerTokenPriority := mtok 2, ll_OutputCostPerToken := mtok 6,
     ll_OutputCostPerTokenPriority := mtok 12, ll_CacheCreationInputTokenCost := mtok (5 / 4),
     ll_CacheCreationInputTokenCostPriority := mtok (5 / 2), ll_CacheReadInputTokenCost := mtok (1 / 10),
     ll_CacheReadInputTokenCostPriority := mtok (1 / 5), ll_LongContextInputTokenThreshold :=
     openAIGPT54LongContextInputThreshold, ll_LongContextInputCostMultiplier := openAIGPT54LongContextInputMultiplier,
     ll_LongContextOutputCostMultiplier := openAIGPT54LongContextOutputMultiplier, ll_LiteLLMProvider := ''openai'', ll_Mode :=
     ''chat'', ll_SupportsPromptCaching := True, ll_SupportsServiceTier := True\<rparr>"

definition openAIGPT55FallbackPricing :: LiteLLMModelPricing where
  "openAIGPT55FallbackPricing = zeroLiteLLM\<lparr>ll_InputCostPerToken := mtok 125, ll_InputCostPerTokenPriority := mtok (625 / 2), ll_OutputCostPerToken := mtok 750,
     ll_OutputCostPerTokenPriority := mtok 1875, ll_CacheCreationInputTokenCost := mtok 125, ll_CacheReadInputTokenCost := mtok
     (25 / 2), ll_CacheReadInputTokenCostPriority := mtok (125 / 4), ll_LongContextInputTokenThreshold := 272000,
     ll_LongContextInputCostMultiplier := 2, ll_LongContextOutputCostMultiplier := 3 / 2, ll_LiteLLMProvider := ''openai'',
     ll_Mode := ''chat'', ll_SupportsPromptCaching := True, ll_SupportsServiceTier := True\<rparr>"

definition openAIGPT54FallbackPricing :: LiteLLMModelPricing where
  "openAIGPT54FallbackPricing = zeroLiteLLM\<lparr>ll_InputCostPerToken := mtok (125 / 2), ll_InputCostPerTokenPriority := mtok 125, ll_OutputCostPerToken := mtok 375,
     ll_OutputCostPerTokenPriority := mtok 750, ll_CacheCreationInputTokenCost := mtok (125 / 2), ll_CacheReadInputTokenCost :=
     mtok (25 / 4), ll_CacheReadInputTokenCostPriority := mtok (25 / 2), ll_LongContextInputTokenThreshold := 272000,
     ll_LongContextInputCostMultiplier := 2, ll_LongContextOutputCostMultiplier := 3 / 2, ll_LiteLLMProvider := ''openai'',
     ll_Mode := ''chat'', ll_SupportsPromptCaching := True, ll_SupportsServiceTier := True\<rparr>"

definition openAIGPT54MiniFallbackPricing :: LiteLLMModelPricing where
  "openAIGPT54MiniFallbackPricing = zeroLiteLLM\<lparr>ll_InputCostPerToken := mtok (3 / 4), ll_OutputCostPerToken := mtok (9 / 2), ll_CacheReadInputTokenCost := mtok (3 / 40),
     ll_LiteLLMProvider := ''openai'', ll_Mode := ''chat'', ll_SupportsPromptCaching := True\<rparr>"

definition openAIGPT54NanoFallbackPricing :: LiteLLMModelPricing where
  "openAIGPT54NanoFallbackPricing = zeroLiteLLM\<lparr>ll_InputCostPerToken := mtok (1 / 5), ll_OutputCostPerToken := mtok (5 / 4), ll_CacheReadInputTokenCost := mtok (1 / 50),
     ll_LiteLLMProvider := ''openai'', ll_Mode := ''chat'', ll_SupportsPromptCaching := True\<rparr>"

section \<open>Names\<close>

type_synonym pricingData = "(string \<times> LiteLLMModelPricing) list"

fun afterLast :: "string \<Rightarrow> string \<Rightarrow> string option" where
  "afterLast sep [] = None"
| "afterLast sep (c # s) = (case afterLast sep s of
       Some r \<Rightarrow> Some r | None \<Rightarrow> if prefix sep (c # s) then Some (drop (length sep) (c # s)) else None)"

definition afterLastOr :: "string \<Rightarrow> string \<Rightarrow> string" where
  "afterLastOr sep s = (case afterLast sep s of None \<Rightarrow> s | Some r \<Rightarrow> r)"

definition TrimPrefix :: "string \<Rightarrow> string \<Rightarrow> string" where
  "TrimPrefix s p = (if prefix p s then drop (length p) s else s)"

definition isGPT56Alias :: "string \<Rightarrow> bool" where
  "isGPT56Alias canonical \<longleftrightarrow> canonical = ''gpt-5.6'' \<or>
     prefix ''gpt-5.6-'' canonical \<and> (drop 8 canonical = ''max'' \<or> isKnownCodexModelSuffix (drop 8 canonical))"

definition normalizeModelNameForPricing :: "string \<Rightarrow> string" where
  "normalizeModelNameForPricing model0 =
     (let m1 = dropWhile (\<lambda>c. c = CHR ''/'') (TrimSpace model0);
          m2 = TrimPrefix (TrimPrefix m1 ''models/'') ''publishers/google/models/'';
          m3 = afterLastOr ''/models/'' (afterLastOr ''/publishers/google/models/'' m2);
          model = dropWhile (\<lambda>c. c = CHR ''/'') m3;
          canonical = canonicalizeOpenAIModelAliasSpelling model
      in if canonical = [] then model else if isGPT56Alias canonical then ''gpt-5.6-sol'' else canonical)"

definition lastSegment :: "string \<Rightarrow> string" where
  "lastSegment model = afterLastOr ''/'' model"

fun firsts :: "string list \<Rightarrow> string list" where
  "firsts [] = []"
| "firsts (x # xs) = x # filter (\<lambda>y. y \<noteq> x) (firsts xs)"

definition buildModelLookupCandidates :: "string \<Rightarrow> string list" where
  "buildModelLookupCandidates modelLower =
     (let out = firsts (filter (\<lambda>c. c \<noteq> []) (map TrimSpace [normalizeModelNameForPricing modelLower, modelLower,
            TrimPrefix modelLower ''models/'', lastSegment modelLower, lastSegment (TrimPrefix modelLower ''models/'')]))
      in if out = [] then [modelLower] else out)"

definition isNumeric :: "string \<Rightarrow> bool" where
  "isNumeric s = list_all (\<lambda>c. CHR ''0'' \<le> c \<and> c \<le> CHR ''9'') s"

definition extractBaseName :: "string \<Rightarrow> string" where
  "extractBaseName model = joinDash (filter (\<lambda>part. \<not> (length part = 8 \<and> isNumeric part) \<and> CHR '':'' \<notin> set part)
     (split_byte (CHR ''-'') model))"

section \<open>Families\<close>

record modelFamily =
  mf_name :: string
  mf_match :: "string list"
  mf_pricing :: "string list option"

definition families :: "modelFamily list" where
  "families =
    [\<lparr>mf_name = ''fable-5'', mf_match = [''claude-fable-5'', ''claude-fable''], mf_pricing = None\<rparr>,
     \<lparr>mf_name = ''opus-4.8'', mf_match = [''claude-opus-4-8'', ''claude-opus-4.8''], mf_pricing = None\<rparr>,
     \<lparr>mf_name = ''opus-4.7'', mf_match = [''claude-opus-4-7'', ''claude-opus-4.7''],
       mf_pricing = Some [''claude-opus-4-7'', ''claude-opus-4.7'', ''claude-opus-4-6'']\<rparr>,
     \<lparr>mf_name = ''opus-4.6'', mf_match = [''claude-opus-4-6'', ''claude-opus-4.6''], mf_pricing = None\<rparr>,
     \<lparr>mf_name = ''opus-4.5'', mf_match = [''claude-opus-4-5'', ''claude-opus-4.5''], mf_pricing = None\<rparr>,
     \<lparr>mf_name = ''opus-4'', mf_match = [''claude-opus-4'', ''claude-3-opus''], mf_pricing = None\<rparr>,
     \<lparr>mf_name = ''sonnet-4.5'', mf_match = [''claude-sonnet-4-5'', ''claude-sonnet-4.5''], mf_pricing = None\<rparr>,
     \<lparr>mf_name = ''sonnet-4'', mf_match = [''claude-sonnet-4'', ''claude-3-5-sonnet''], mf_pricing = None\<rparr>,
     \<lparr>mf_name = ''sonnet-3.5'', mf_match = [''claude-3-5-sonnet'', ''claude-3.5-sonnet''], mf_pricing = None\<rparr>,
     \<lparr>mf_name = ''sonnet-3'', mf_match = [''claude-3-sonnet''], mf_pricing = None\<rparr>,
     \<lparr>mf_name = ''haiku-3.5'', mf_match = [''claude-3-5-haiku'', ''claude-3.5-haiku''], mf_pricing = None\<rparr>,
     \<lparr>mf_name = ''haiku-3'', mf_match = [''claude-3-haiku''], mf_pricing = None\<rparr>]"

definition familyFallbackName :: "string \<Rightarrow> string" where
  "familyFallbackName model =
     (if contains model [''opus''] then
        if contains model [''4.8'', ''4-8''] then ''opus-4.8''
        else if contains model [''4.7'', ''4-7''] then ''opus-4.7''
        else if contains model [''4.6'', ''4-6''] then ''opus-4.6''
        else if contains model [''4.5'', ''4-5''] then ''opus-4.5''
        else ''opus-4''
      else if contains model [''sonnet''] then
        if contains model [''4.5'', ''4-5''] then ''sonnet-4.5''
        else if contains model [''3-5'', ''3.5''] then ''sonnet-3.5''
        else ''sonnet-4''
      else if contains model [''haiku''] then
        if contains model [''3-5'', ''3.5''] then ''haiku-3.5'' else ''haiku-3''
      else if contains model [''fable''] then ''fable-5''
      else [])"

definition matchedFamily :: "string \<Rightarrow> modelFamily option" where
  "matchedFamily model =
     (case find (\<lambda>f. list_ex (\<lambda>p. sublist p model \<or> sublist (filter (\<lambda>c. c \<noteq> CHR ''-'') p) model) (mf_match f)) families of
        Some f \<Rightarrow> Some f
      | None \<Rightarrow> (let name = familyFallbackName model in
          if name = [] then None else find (\<lambda>f. mf_name f = name) families))"

text \<open>The first pattern that some key contains, and the first key that contains it.\<close>

fun priceByPatterns :: "string list \<Rightarrow> pricingData \<Rightarrow> LiteLLMModelPricing option" where
  "priceByPatterns [] pd = None"
| "priceByPatterns (p # ps) pd = (case find (\<lambda>(key, l). sublist p (ToLower key)) pd of
       Some (key, l) \<Rightarrow> Some l | None \<Rightarrow> priceByPatterns ps pd)"

definition matchByModelFamily :: "string \<Rightarrow> pricingData \<Rightarrow> LiteLLMModelPricing option" where
  "matchByModelFamily model pd = (case matchedFamily model of
       None \<Rightarrow> None
     | Some f \<Rightarrow> priceByPatterns (case mf_pricing f of Some ps \<Rightarrow> ps | None \<Rightarrow> mf_match f) pd)"

section \<open>OpenAI models\<close>

definition isDigit :: "char \<Rightarrow> bool" where
  "isDigit c \<longleftrightarrow> CHR ''0'' \<le> c \<and> c \<le> CHR ''9''"

text \<open>\<^verbatim>\<open>-\d{8}$\<close> taken off, and the match of \<^verbatim>\<open>^(gpt-\d+(?:\.\d+)?)(?:-|$)\<close>.\<close>

definition withoutDate :: "string \<Rightarrow> string" where
  "withoutDate model = (let n = length model - 9 in
     if 9 \<le> length model \<and> model ! n = CHR ''-'' \<and> list_all isDigit (drop (n + 1) model) then take n model else model)"

definition openAIModelBase :: "string \<Rightarrow> string option" where
  "openAIModelBase model =
     (if \<not> prefix ''gpt-'' model then None
      else let r = drop 4 model; major = takeWhile isDigit r; r1 = dropWhile isDigit r;
          minor = (if prefix ''.'' r1 then takeWhile isDigit (tl r1) else []);
          base = ''gpt-'' @ major @ (if minor = [] then [] else CHR ''.'' # minor);
          r2 = drop (length base) model
        in if major = [] then None else if r2 = [] \<or> hd r2 = CHR ''-'' then Some base else None)"

definition generateOpenAIModelVariants :: "string \<Rightarrow> string list" where
  "generateOpenAIModelVariants model =
     (let w = withoutDate model; dated = (w \<noteq> model) in
      firsts (filter (\<lambda>v. v \<noteq> model)
        ((if dated then [w] else []) @ (case openAIModelBase model of None \<Rightarrow> [] | Some b \<Rightarrow> [b]) @
         (if dated then (case openAIModelBase w of None \<Rightarrow> [] | Some b \<Rightarrow> [b]) else []))))"

text \<open>The price of the first of these keys that the list has.\<close>

fun firstPriced :: "pricingData \<Rightarrow> string list \<Rightarrow> LiteLLMModelPricing option" where
  "firstPriced pd [] = None"
| "firstPriced pd (k # ks) = (case map_of pd k of Some l \<Rightarrow> Some l | None \<Rightarrow> firstPriced pd ks)"

definition defaultOpenAITextPricingModel :: string where "defaultOpenAITextPricingModel = ''gpt-5.1-codex''"

definition staticOpenAIPrice :: "string \<Rightarrow> LiteLLMModelPricing option" where
  "staticOpenAIPrice model =
     (if prefix ''gpt-5.6-sol'' model \<or> model = ''gpt-5.6'' \<or> prefix ''gpt-5.6-max'' model then Some openAIGPT56SolFallbackPricing
      else if prefix ''gpt-5.6-terra'' model then Some openAIGPT56TerraFallbackPricing
      else if prefix ''gpt-5.6-luna'' model then Some openAIGPT56LunaFallbackPricing
      else if prefix ''gpt-5.5'' model then Some openAIGPT55FallbackPricing
      else if prefix ''gpt-5.4-mini'' model then Some openAIGPT54MiniFallbackPricing
      else if prefix ''gpt-5.4-nano'' model then Some openAIGPT54NanoFallbackPricing
      else if prefix ''gpt-5.4'' model then Some openAIGPT54FallbackPricing
      else None)"

definition matchOpenAIModel :: "string \<Rightarrow> pricingData \<Rightarrow> LiteLLMModelPricing option" where
  "matchOpenAIModel model pd =
     (case firstPriced pd ((if prefix ''gpt-5.3-codex-spark'' model then [''gpt-5.1-codex''] else []) @ generateOpenAIModelVariants model @
         (if prefix ''gpt-5.3-codex'' model then [''gpt-5.2-codex''] else [])) of
        Some l \<Rightarrow> Some l
      | None \<Rightarrow>
          (case staticOpenAIPrice model of
             Some l \<Rightarrow> Some l
           | None \<Rightarrow>
               if isOpenAIImageGenerationModel model then firstPriced pd [''gpt-image-2'', ''gpt-image-1.5'', ''gpt-image-1'']
               else map_of pd defaultOpenAITextPricingModel))"

section \<open>The price of a name\<close>

definition pricingServiceGetModelPricing :: "pricingData \<Rightarrow> string \<Rightarrow> LiteLLMModelPricing option" where
  "pricingServiceGetModelPricing pd modelName =
     (if modelName = [] then None
      else let modelLower = ToLower (TrimSpace modelName); candidates = buildModelLookupCandidates modelLower in
        case firstPriced pd (filter (\<lambda>c. c \<noteq> []) candidates) of
          Some l \<Rightarrow> Some l
        | None \<Rightarrow>
            if ''codex-auto-review'' \<in> set candidates
            then (case map_of pd ''gpt-5.3-codex'' of Some l \<Rightarrow> Some l | None \<Rightarrow> matchOpenAIModel ''gpt-5.3-codex'' pd)
            else case firstPriced pd (map (replace_all ''-4-5-'' ''-4.5-'') candidates) of
                Some l \<Rightarrow> Some l
              | None \<Rightarrow>
                  (let baseName = extractBaseName (hd candidates) in
                   case find (\<lambda>(key, l). extractBaseName (ToLower key) = baseName) pd of
                     Some (key, l) \<Rightarrow> Some l
                   | None \<Rightarrow>
                       (case matchByModelFamily (hd candidates) pd of
                          Some l \<Rightarrow> Some l
                        | None \<Rightarrow> if prefix ''gpt-'' (hd candidates) then matchOpenAIModel (hd candidates) pd else None)))"

end
