(* ===== verification/ChannelProperties.thy ===== *)
theory ChannelProperties
  imports ChannelFacts PriceLists
begin

text \<open>
  The properties of the channel snapshot and of the price list: what a request finds in a snapshot is what its channel says, and
  what becomes of prices when a snapshot cannot be loaded or a model is not in the list.
\<close>

section \<open>Channels\<close>

text \<open>
  (C28) For ten minutes after the channels were read, the price that the snapshot has for a group and a model is the entry of the group's
  channel with a pattern of the group's platform that covers the model, exactly or by wildcard and whatever the case of the
  letters; validation made sure that there is one such entry at most. Where no entry covers the model there is no price.
\<close>
theorem cached_price_found:
  assumes "onlyChannel channels gid ch" "channelIsActive ch" "validateNoConflictingModels (ch_ModelPricing ch) = None"
    and "later < now + channelCacheTTL"
  shows "GetChannelModelPricing (laterLoad now (Some (channels, platforms)) later data) gid model = Some p \<longleftrightarrow>
    p \<in> set (ch_ModelPricing ch) \<and> cp_Platform p = platformOf platforms gid \<and>
    (\<exists>m \<in> set (cp_Models p). covers (toModelEntry m) (ToLower model))"
proof -
  let ?rows = "priceRows ch (platformOf platforms gid)"
  have "GetChannelModelPricing (laterLoad now (Some (channels, platforms)) later data) gid model =
      map_option fst (rowFound snd ?rows (ToLower model))"
    by (simp add: later_populated [OF assms(4)] GetChannelModelPricing_def group_lookup [OF assms(1,2)] found_price [OF assms(1)])
  moreover have "rowFound snd ?rows (ToLower model) = Some r \<longleftrightarrow> r \<in> set ?rows \<and> covers (toModelEntry (snd r)) (ToLower model)" for r
    using no_conflicts [OF assms(3)] by (rule rowFound_iff)
  ultimately show ?thesis by (auto simp: priceRows_def)
qed

definition exampleEntry :: ChannelModelPricing where
  "exampleEntry = noChannelPricing\<lparr>cp_Platform := ''anthropic'', cp_Models := [''Claude-*''], cp_InputPrice := Some 3\<rparr>"

definition exampleOf :: "int list \<Rightarrow> Channel" where
  "exampleOf gids = \<lparr>ch_ID = 1, ch_Status = StatusActive, ch_BillingModelSource = [], ch_RestrictModels = True, ch_GroupIDs = gids,
     ch_ModelPricing = [exampleEntry], ch_ModelMapping = [(''anthropic'', [(''sonnet'', ''claude-sonnet-4''), (''Opus*'', ''claude-opus-4'')])],
     ch_ApplyPricingToAccountStats = False, ch_AccountStatsPricingRules = []\<rparr>"

lemma example_channel: "onlyChannel [exampleOf [1, 2]] 2 (exampleOf [1, 2])" "channelIsActive (exampleOf [1, 2])"
  by (simp_all add: onlyChannel_def exampleOf_def channelIsActive_def)

theorem cached_price_found_witness:
  "GetChannelModelPricing (laterLoad 0 (Some ([exampleOf [1, 2]], \<lambda>_. Some ''anthropic'')) minute None) 2 ''claude-opus-4'' = Some exampleEntry"
proof -
  have "validateNoConflictingModels (ch_ModelPricing (exampleOf [1, 2])) = None"
    by (simp add: validateNoConflictingModels_def exampleOf_def entriesOf_def exampleEntry_def)
  moreover have "covers (toModelEntry ''Claude-*'') (ToLower ''claude-opus-4'')" by code_simp
  moreover have "minute < 0 + channelCacheTTL" by (simp add: channelCacheTTL_def)
  ultimately show ?thesis
    using cached_price_found [OF example_channel, of minute 0 "\<lambda>_. Some ''anthropic''" None "''claude-opus-4''" exampleEntry]
    by (simp add: exampleOf_def platformOf_def exampleEntry_def)
qed

text \<open>
  (C29) The name that a channel maps a model to does not depend on the order in which the snapshot met the entries of the mapping, a Go
  map: a model is mapped to a name exactly if the mapping of the group's platform has an entry with that name whose pattern covers
  the model.
\<close>
theorem cached_mapping_found:
  assumes "onlyChannel channels gid ch" "channelIsActive ch" "validateNoConflictingMappings (ch_ModelMapping ch) = None"
    and "later < now + channelCacheTTL" "map_of (ch_ModelMapping ch) (platformOf platforms gid) = Some m" "dst \<noteq> []"
  shows "(let r = ResolveChannelMapping (laterLoad now (Some (channels, platforms)) later data) gid model in mr_Mapped r \<and> mr_MappedModel r = dst) \<longleftrightarrow>
    (\<exists>src. (src, dst) \<in> set m \<and> covers (toModelEntry src) (ToLower model))"
proof -
  let ?f = "rowFound fst m (ToLower model)"
  have "\<not> detectConflicts (map (\<lambda>r. toModelEntry (fst r)) m)"
    using assms(3) map_of_SomeD [OF assms(5)]
    by (fastforce simp: validateNoConflictingMappings_def list_ex_iff case_prod_unfold split: if_splits)
  then have f: "?f = Some r \<longleftrightarrow> r \<in> set m \<and> covers (toModelEntry (fst r)) (ToLower model)" for r
    by (rule rowFound_iff)
  have "ResolveChannelMapping (laterLoad now (Some (channels, platforms)) later data) gid model =
      (let mapped = (case ?f of None \<Rightarrow> [] | Some r \<Rightarrow> snd r) in
       \<lparr>mr_MappedModel = (if mapped \<noteq> [] then mapped else model), mr_ChannelID = ch_ID ch, mr_Mapped = (mapped \<noteq> []),
         mr_BillingModelSource = ch_BillingModelSource (normalizeBillingModelSource ch)\<rparr>)"
    by (simp add: later_populated [OF assms(4)] ResolveChannelMapping_def group_lookup [OF assms(1,2)] resolveMapping_def
        found_mapping [OF assms(1)] assms(5))
  then have "(let r = ResolveChannelMapping (laterLoad now (Some (channels, platforms)) later data) gid model in mr_Mapped r \<and> mr_MappedModel r = dst) \<longleftrightarrow>
      (\<exists>r. ?f = Some r \<and> snd r = dst)"
    using assms(6) by (auto simp: Let_def split: option.split)
  with f show ?thesis by auto
qed

theorem cached_mapping_found_witness:
  "let r = ResolveChannelMapping (laterLoad 0 (Some ([exampleOf [1, 2]], \<lambda>_. Some ''anthropic'')) minute None) 2 ''OPUS'' in
   mr_Mapped r \<and> mr_MappedModel r = ''claude-opus-4''"
proof -
  have "validateNoConflictingMappings (ch_ModelMapping (exampleOf [1, 2])) = None" unfolding exampleOf_def by code_simp
  moreover have "covers (toModelEntry ''Opus*'') (ToLower ''OPUS'')" by code_simp
  moreover have "minute < 0 + channelCacheTTL" by (simp add: channelCacheTTL_def)
  moreover have "map_of (ch_ModelMapping (exampleOf [1, 2])) (platformOf (\<lambda>_. Some ''anthropic'') 2) =
      Some [(''sonnet'', ''claude-sonnet-4''), (''Opus*'', ''claude-opus-4'')]" by (simp add: exampleOf_def platformOf_def)
  ultimately show ?thesis
    using cached_mapping_found [OF example_channel, of minute 0 "\<lambda>_. Some ''anthropic''" _ "''claude-opus-4''" None "''OPUS''"] by auto
qed

text \<open>Which models a channel turns away.\<close>

lemma restricted_unlisted:
  assumes "onlyChannel channels gid ch" "channelIsActive ch" "validateNoConflictingModels (ch_ModelPricing ch) = None"
    and "later < now + channelCacheTTL"
  shows "IsModelRestricted (laterLoad now (Some (channels, platforms)) later data) gid model \<longleftrightarrow>
    ch_RestrictModels ch \<and> (\<forall>r \<in> set (priceRows ch (platformOf platforms gid)). \<not> covers (toModelEntry (snd r)) (ToLower model))"
proof -
  let ?rows = "priceRows ch (platformOf platforms gid)"
  have "rowFound snd ?rows (ToLower model) = Some r \<longleftrightarrow> r \<in> set ?rows \<and> covers (toModelEntry (snd r)) (ToLower model)" for r
    using no_conflicts [OF assms(3)] by (rule rowFound_iff)
  then have "rowFound snd ?rows (ToLower model) = None \<longleftrightarrow> (\<forall>r \<in> set ?rows. \<not> covers (toModelEntry (snd r)) (ToLower model))"
    by (metis not_None_eq)
  then show ?thesis
    by (simp add: later_populated [OF assms(4)] IsModelRestricted_def group_lookup [OF assms(1,2)] checkRestricted_def
        found_price [OF assms(1)])
qed

text \<open>
  When the channels cannot be read, an empty snapshot takes the place of whatever was kept, and for five seconds, in which the
  database is not asked again, no group has a channel: no price, no mapping, no restriction.
\<close>
theorem failed_load_forgets:
  assumes "case kept of None \<Rightarrow> True | Some c \<Rightarrow> cc_loadedAt c + channelCacheTTL \<le> now" "later < now + channelErrorTTL"
  shows "lookupGroupChannel (fst (loadCache later data (snd (loadCache now None kept)))) gid = None"
  using assms
  by (auto simp: loadCache_def buildCache_def storeErrorCache_def newEmptyChannelCache_def lookupGroupChannel_def activeChannel_def Let_def
      channelErrorTTL_def channelCacheTTL_def split: option.splits)

theorem failed_load_forgets_witness:
  "lookupGroupChannel (fst (loadCache (11 * minute + second) (Some ([exampleOf [1, 2]], \<lambda>_. Some ''anthropic''))
     (snd (loadCache (11 * minute) None (Some (populateChannelCache 0 [exampleOf [1, 2]] (\<lambda>_. Some ''anthropic'')))))) ) 2 = None"
  by (rule failed_load_forgets) (simp_all add: channelCacheTTL_def channelErrorTTL_def)

section \<open>Price list\<close>

lemma candidates_nonempty: "buildModelLookupCandidates x \<noteq> []"
proof -
  have "(if xs = [] then [a] else xs) \<noteq> []" for xs :: "string list" and a by simp
  then show ?thesis unfolding buildModelLookupCandidates_def Let_def .
qed

text \<open>A model that is in the list under its own name has that price, in whatever order the list is walked.\<close>

lemma listed_price:
  assumes "distinct (map fst pd)" "(hd (buildModelLookupCandidates (ToLower (TrimSpace name))), l) \<in> set pd"
    and "name \<noteq> []" "hd (buildModelLookupCandidates (ToLower (TrimSpace name))) \<noteq> []"
  shows "pricingServiceGetModelPricing pd name = Some l"
proof -
  obtain c cs where c: "buildModelLookupCandidates (ToLower (TrimSpace name)) = c # cs"
    using candidates_nonempty list.exhaust by blast
  with assms(1,2) have "map_of pd c = Some l" by simp
  with c assms(3,4) show ?thesis by (simp add: pricingServiceGetModelPricing_def Let_def)
qed

text \<open>A model that is priced by its family alone: no key of the list is one of its names or shares its base name.\<close>

definition pricedByFamily :: "pricingData \<Rightarrow> string \<Rightarrow> modelFamily \<Rightarrow> bool" where
  "pricedByFamily pd name f \<longleftrightarrow>
     (let candidates = buildModelLookupCandidates (ToLower (TrimSpace name)) in
      name \<noteq> [] \<and> ''codex-auto-review'' \<notin> set candidates \<and> matchedFamily (hd candidates) = Some f \<and>
      (\<forall>key \<in> fst ` set pd. key \<notin> set candidates \<and> key \<notin> replace_all ''-4-5-'' ''-4.5-'' ` set candidates \<and>
         extractBaseName (ToLower key) \<noteq> extractBaseName (hd candidates)))"

definition familyPatterns :: "modelFamily \<Rightarrow> string list" where
  "familyPatterns f = (case mf_pricing f of Some ps \<Rightarrow> ps | None \<Rightarrow> mf_match f)"

lemma firstPriced_none: "\<forall>c \<in> set cs. c \<notin> fst ` set pd \<Longrightarrow> firstPriced pd cs = None"
  by (induction cs) (auto simp: map_of_eq_None_iff split: option.splits)

lemma pricedByFamily_order: "set pd' = set pd \<Longrightarrow> pricedByFamily pd' name f = pricedByFamily pd name f"
  by (simp add: pricedByFamily_def)

lemma family_price:
  assumes "pricedByFamily pd name f" "priceByPatterns (familyPatterns f) pd = Some l"
  shows "pricingServiceGetModelPricing pd name = Some l"
proof -
  let ?cs = "buildModelLookupCandidates (ToLower (TrimSpace name))"
  have none: "firstPriced pd (filter (\<lambda>c. c \<noteq> []) ?cs) = None" "firstPriced pd (map (replace_all ''-4-5-'' ''-4.5-'') ?cs) = None"
    using assms(1) by (auto simp: pricedByFamily_def Let_def intro!: firstPriced_none)
  have "find (\<lambda>(key, l). extractBaseName (ToLower key) = extractBaseName (hd ?cs)) pd = None"
    using assms(1) by (force simp: find_None_iff pricedByFamily_def Let_def)
  moreover have "matchByModelFamily (hd ?cs) pd = Some l"
    using assms by (simp add: pricedByFamily_def Let_def matchByModelFamily_def familyPatterns_def)
  ultimately show ?thesis
    using assms(1) none by (simp add: pricingServiceGetModelPricing_def pricedByFamily_def Let_def)
qed

lemma first_pattern:
  assumes "\<forall>q \<in> set earlier. \<forall>key \<in> fst ` set pd. \<not> sublist q (ToLower key)" "key \<in> fst ` set pd" "sublist p (ToLower key)"
  shows "\<exists>k l. find (\<lambda>(key, l). sublist p (ToLower key)) pd = Some (k, l) \<and> priceByPatterns (earlier @ p # later) pd = Some l"
  using assms
proof (induction earlier)
  case Nil
  then obtain l where "(key, l) \<in> set pd" by auto
  with Nil have "find (\<lambda>(key, l). sublist p (ToLower key)) pd \<noteq> None" unfolding find_None_iff by blast
  then show ?case by auto
next
  case (Cons q qs)
  have "find (\<lambda>(key, l). sublist q (ToLower key)) pd = None" using Cons.prems(1) by (force simp: find_None_iff)
  with Cons show ?case by simp
qed

text \<open>
  (C30) The price of a model that is priced by its family alone hangs on the order in which Go happens to walk its map: the prices that
  it has in the orders of one list are those of all entries that have the pattern in their key, for the first pattern of the
  family that any key has. So \<^verbatim>\<open>claude-opus-4-0\<close> may cost a third of its price, as the entry of a later version.
\<close>
theorem family_price_by_chance:
  assumes "pricedByFamily pd name f" "familyPatterns f = earlier @ p # later"
    and "\<forall>q \<in> set earlier. \<forall>key \<in> fst ` set pd. \<not> sublist q (ToLower key)" "\<exists>key \<in> fst ` set pd. sublist p (ToLower key)"
  shows "(\<exists>pd'. mset pd' = mset pd \<and> pricingServiceGetModelPricing pd' name = Some l) \<longleftrightarrow>
    (\<exists>k. (k, l) \<in> set pd \<and> sublist p (ToLower k))"
proof -
  have found: "\<exists>k l. find (\<lambda>(key, l). sublist p (ToLower key)) pd' = Some (k, l) \<and> pricingServiceGetModelPricing pd' name = Some l"
    if same: "set pd' = set pd" for pd'
  proof -
    obtain key where "key \<in> fst ` set pd'" "sublist p (ToLower key)" using assms(4) same by auto
    from first_pattern [OF _ this, of earlier later] assms(3) same show ?thesis
      using family_price [OF iffD2 [OF pricedByFamily_order [OF same] assms(1)], unfolded assms(2)] by metis
  qed
  show ?thesis
  proof
    assume "\<exists>pd'. mset pd' = mset pd \<and> pricingServiceGetModelPricing pd' name = Some l"
    then obtain pd' where pd': "mset pd' = mset pd" "pricingServiceGetModelPricing pd' name = Some l" by blast
    then have same: "set pd' = set pd" by (blast dest: mset_eq_setD)
    from found [OF same] pd'(2) obtain k where "find (\<lambda>(key, l). sublist p (ToLower key)) pd' = Some (k, l)" by auto
    with same show "\<exists>k. (k, l) \<in> set pd \<and> sublist p (ToLower k)" by (metis (mono_tags, lifting) case_prod_conv find_Some_iff nth_mem)
  next
    assume "\<exists>k. (k, l) \<in> set pd \<and> sublist p (ToLower k)"
    then obtain k where k: "(k, l) \<in> set pd" "sublist p (ToLower k)" by blast
    let ?pd = "(k, l) # remove1 (k, l) pd"
    have m: "mset ?pd = mset pd" using k(1) by simp
    from found [OF mset_eq_setD [OF this]] k(2) have "pricingServiceGetModelPricing ?pd name = Some l" by simp
    with m show "\<exists>pd'. mset pd' = mset pd \<and> pricingServiceGetModelPricing pd' name = Some l" by blast
  qed
qed

definition shippedPrices :: pricingData where
  "shippedPrices = [(''claude-opus-4-1'', zeroLiteLLM\<lparr>ll_InputCostPerToken := mtok 15\<rparr>), (''claude-opus-4-5'', zeroLiteLLM\<lparr>ll_InputCostPerToken := mtok 5\<rparr>)]"

lemma opus_family:
  "pricedByFamily shippedPrices ''claude-opus-4-0'' \<lparr>mf_name = ''opus-4'', mf_match = [''claude-opus-4'', ''claude-3-opus''], mf_pricing = None\<rparr>"
  by code_simp

theorem family_price_by_chance_witness:
  "\<exists>pd'. mset pd' = mset shippedPrices \<and>
     pricingServiceGetModelPricing pd' ''claude-opus-4-0'' = Some (zeroLiteLLM\<lparr>ll_InputCostPerToken := mtok 5\<rparr>)"
proof -
  have s: "sublist ''claude-opus-4'' (ToLower ''claude-opus-4-5'')" by code_simp
  have "(''claude-opus-4-5'', zeroLiteLLM\<lparr>ll_InputCostPerToken := mtok 5\<rparr>) \<in> set shippedPrices" by (simp add: shippedPrices_def)
  moreover from imageI [OF this, of fst] s have "\<exists>key \<in> fst ` set shippedPrices. sublist ''claude-opus-4'' (ToLower key)"
    unfolding fst_conv by (rule bexI [rotated])
  ultimately show ?thesis
    using s family_price_by_chance [OF opus_family, of "[]" "''claude-opus-4''" "[''claude-3-opus'']" "zeroLiteLLM\<lparr>ll_InputCostPerToken := mtok 5\<rparr>"]
    by (force simp: familyPatterns_def)
qed

end
