(* ===== verification/Spec2Isabelle.thy ===== *)
theory Spec2Isabelle
  imports StatusCodes Account Failover AbuseLimiter ImageLimiter Idempotency Slots KeywordSearch MessagesGateway StreamCollect
    PaymentOutcomes Scheduler SystemLock SubscriptionUsage BillingHolds CostProperties ChannelProperties
begin

text \<open>
  A verification development for the backend of LevelUpAPI (Sub2API), a gateway that spreads
  API requests over pools of upstream accounts. The source files are below
  \<^verbatim>\<open>src/backend/internal\<close>; each theory names the functions it models, and its definitions keep
  their names.

  \<^bold>\<open>The program and its parts.\<close> A request reaches a handler, which checks the API key, picks a
  route, selects an account, takes a concurrency slot and forwards the request; a failed
  attempt is retried on the same account or on another one. Account records carry dynamically
  typed settings that decide how they are scheduled and which upstream errors count. Redis
  holds the concurrency slots and wait queues, PostgreSQL the records of idempotent requests;
  the limiters for invalid keys and for images live in memory. Users buy balance and subscriptions:
  a payment order is created, a payment provider reports that it was paid, and the order is
  fulfilled by redeeming a code or extending a subscription, all on PostgreSQL. When a request has been
  answered, its tokens are priced by the model, the channel and the service tier, and one transaction
  charges the user, counts the quotas and settles with the owner of a shared account.

  \<^item> \<open>Prelude\<close>: Go's data and library as far as the sources use them (instants, dynamically typed
    values, \<^verbatim>\<open>strings.TrimSpace\<close>, \<^verbatim>\<open>strconv.Atoi\<close> and \<^verbatim>\<open>Itoa\<close>, UTF-8 validity) and the shared
    lemmas. Strings are byte strings, \<^verbatim>\<open>int\<close> is 64 bits wide; \<open>wrap64\<close> marks results that can
    leave that range.
  \<^item> \<open>Transitions\<close>: loops, event machines, transition systems and simulations as locales; the
    facts about whole runs are proved there once and reach the components by interpretation.
  \<^item> \<open>StatusCodes\<close>: \<^verbatim>\<open>service/status_code_range_policy.go\<close>. Normalisation of ranges is a
    canonical form, the early-exit membership test and the expansion agree with it, and the
    strict and the lenient parser agree where they should.
  \<^item> \<open>Account\<close>: the policy methods of \<^verbatim>\<open>service/account.go\<close>. Bounds of every computed limit, the
    ramp of the requests-per-minute limit under 64-bit overflow, monotonicity of the
    schedulability verdict, longest-match model mapping independent of map order.
  \<^item> \<open>Failover\<close>: \<^verbatim>\<open>handler/failover_loop.go\<close>, \<^verbatim>\<open>handler/openai_same_account_retry.go\<close> and the
    attempt loop of \<^verbatim>\<open>handler/gateway_handler_responses.go\<close>. The loop ends within a bound that is
    computed from the limits, the retry budget of an account is used exactly, the two retry
    implementations agree, forced cache billing has a cause.
  \<^item> \<open>AbuseLimiter\<close>: \<^verbatim>\<open>service/invalid_auth_abuse_limiter.go\<close>. Consistency of the sharded table
    under every history, blocking exactly at the threshold, isolation of clients.
  \<^item> \<open>ImageLimiter\<close>: \<^verbatim>\<open>handler/image_concurrency_limiter.go\<close> as a transition system over
    interleaved goroutines. Exact counters, limits, no lost wake-up.
  \<^item> \<open>IdempotencyRepo\<close> and \<open>Idempotency\<close>: \<^verbatim>\<open>repository/idempotency_repo.go\<close> as statements on the
    table, \<^verbatim>\<open>service/idempotency.go\<close> over any store with the laws of the locale
    \<open>idempotency_store\<close>, which the SQL repository satisfies. Exclusive claims, replay, conflict,
    backoff, round trip of the waiting time, truncation at rune boundaries.
  \<^item> \<open>Slots\<close>: \<^verbatim>\<open>repository/concurrency_cache.go\<close> and the slot functions of
    \<^verbatim>\<open>service/concurrency_service.go\<close>. The Lua scripts with their purging and key expiry simulate
    a plain table of slots; capacity, acquire and release, start-up clean-up.
  \<^item> \<open>KeywordMatcher\<close> and \<open>KeywordSearch\<close>:
    \<^verbatim>\<open>service/content_moderation_keyword_matcher.go\<close>, an Aho-Corasick automaton. The trie, its failure
    links and the packed edges with binary search find the first configured keyword that occurs
    in the text.
  \<^item> \<open>AnthropicStream\<close> and \<open>MessagesGateway\<close>: \<^verbatim>\<open>pkg/apicompat/responses_to_anthropic.go\<close>, the conversion of OpenAI
    Responses answers into Anthropic messages, and the stream loop of
    \<^verbatim>\<open>service/openai_gateway_messages.go\<close> that reads the lines of the upstream, writes what they convert to,
    stops at failures and reports a missing end. \<open>StreamProtocol\<close> and \<open>StreamCollect\<close>: what a connected client
    has been sent is at any time the beginning of one well-formed message, and the whole of one when the stream ends
    well; collecting the stream of a response that arrives item by item gives the converted whole response;
    and a case in which interleaved tool calls lose arguments.
  \<^item> \<open>Programs\<close>: service code as programs of atomic database statements that can run alone, be
    interleaved, die between statements and meet a database that refuses a statement or loses its
    answer, with a rely-guarantee rule for each construct.
  \<^item> \<open>PaymentStore\<close>: the rows and statements of \<^verbatim>\<open>repository/redeem_code_repo.go\<close>, \<^verbatim>\<open>user_repo.go\<close>,
    \<^verbatim>\<open>user_subscription_repo.go\<close> and the order and audit queries; \<open>Subscriptions\<close>:
    \<^verbatim>\<open>service/subscription_service.go\<close>; \<open>RedeemCodes\<close>: \<^verbatim>\<open>service/redeem_service.go\<close>;
    \<open>PaymentProviders\<close>: currencies, provider snapshots and the lookup of an order's provider; \<open>Payments\<close> and
    \<open>PaymentLifecycle\<close>: \<^verbatim>\<open>service/payment_fulfillment.go\<close> and \<^verbatim>\<open>service/payment_order_lifecycle.go\<close>;
    \<open>Refunds\<close>: \<^verbatim>\<open>service/payment_refund.go\<close>.
  \<^item> \<open>PaymentSafety\<close>, \<open>PaymentPool\<close>, \<open>PaymentRuns\<close> and \<open>PaymentOutcomes\<close>: the invariant of orders, codes and
    ledger, that every statement of every operation keeps it in every interleaving, and the theorems: a recharge
    is credited exactly once, settled orders of balance and subscriptions stay settled, a retried fulfilment completes or
    is refused with nothing booked, notifications that do not fit change nothing, the terms of subscriptions, what a refused refund leaves
    behind; and four cases in which the code books something else than it means to.

  \<^item> \<open>GoHeap\<close>, \<open>Candidates\<close> and \<open>LoadPlan\<close>: \<^verbatim>\<open>service/openai_account_scheduler.go\<close> up to the order in which
    accounts are tried: Go's heap and stable sort, scored candidates, runtime statistics and load
    plans. \<open>SelectionOrder\<close> and \<open>PlanFacts\<close> show that the bounded heap gives the best candidates of a full sort
    and that the order names every account at most once, priority by priority.
  \<^item> \<open>AccountSelect\<close>: \<^verbatim>\<open>Select\<close> with its layers for previous responses, sessions and load, as a
    program whose stores and slots are answers of the world. \<open>Outcomes\<close> holds the rules for the end of every
    run, \<open>SelectFacts\<close>, \<open>SelectSettles\<close> and \<open>ProbeLimit\<close> what a selection leaves behind (the slot of the account
    it returns and no other but those whose release Redis did not carry out) and how many slots it asks for; \<open>Scheduler\<close> states the properties.
  \<^item> \<open>SystemLock\<close>: \<^verbatim>\<open>service/system_operation_lock_service.go\<close> on the idempotency table. The lock excludes while its
    lease runs and nobody else finishes its row, and a lock taken over from an earlier row is not renewed.
  \<^item> \<open>SubscriptionUsage\<close>: the usage windows of \<^verbatim>\<open>service/user_subscription.go\<close> and their statements. Usage is not
    lost within a window as long as the clock readings of one operation fall on one day and no administrator resets it; the cached
    limit check agrees with the stored one.
  \<^item> \<open>BillingStore\<close>, \<open>UsageBilling\<close>, \<open>ShareSettlement\<close> and \<open>BillingApply\<close>: \<^verbatim>\<open>service/usage_billing.go\<close>,
    \<^verbatim>\<open>service/batch_image_billing_hold.go\<close>, \<^verbatim>\<open>repository/usage_billing_repo.go\<close> and \<^verbatim>\<open>usage_billing_repo_v160.go\<close> as
    transactions on a record of the tables, with the clean-up of claims of
    \<^verbatim>\<open>repository/dashboard_aggregation_repo.go\<close>. \<open>BillingFacts\<close>, \<open>BillingSafety\<close> and \<open>BillingHolds\<close>: a request is billed at
    most once under every fault, the parts of a settlement add up, a wallet pays what it is charged
    up to the rounding of its columns, holds are given back (exactly, if they have the decimals of the wallet), and the orders of calls in which they are not.
  \<^item> \<open>ModelNames\<close>, \<open>ModelPrices\<close>, \<open>ModelCosts\<close>, \<open>ChannelPrices\<close> and \<open>AccountStats\<close>: \<^verbatim>\<open>service/billing_service.go\<close> with
    the model names of \<^verbatim>\<open>openai_model_alias.go\<close> and \<^verbatim>\<open>openai_codex_transform.go\<close>,
    \<^verbatim>\<open>model_pricing_resolver.go\<close>, the intervals of \<^verbatim>\<open>channel.go\<close>, \<^verbatim>\<open>account_stats_pricing.go\<close>,
    \<^verbatim>\<open>image_billing_size.go\<close> and \<^verbatim>\<open>video_billing_resolution.go\<close>. \<open>CostFacts\<close> and \<open>CostProperties\<close>: the two ways to a
    channel's flat price agree, valid intervals decide a price in any order, tiers scale a bill as a whole, the
    older long context charge, and when account statistics book what is billed.
  \<^item> \<open>ChannelCache\<close> and \<open>PriceLists\<close>: the channel snapshot of \<^verbatim>\<open>service/channel_service.go\<close> and the lookup in
    \<^verbatim>\<open>service/pricing_service.go\<close>. \<open>ChannelFacts\<close> and \<open>ChannelProperties\<close>: hashed lookups find exactly what the channel
    lists, mappings do not depend on the order of a map, and prices by model family are those of any
    entry with the family's pattern, depending on it.

  \<^bold>\<open>Bounds and termination.\<close> All loops are structural recursions or functions with a termination
  proof; the attempt loop runs on a list of answers of its environment and is shown to be left
  after \<open>2 * maxAccountSwitches + 10 * accounts + 1\<close> of them. The loops of the keyword matcher over
  linked edges, failure links and the queue run on fuel, the number of edges or nodes; its
  correctness theorem includes that the fuel is never used up.

  \<^bold>\<open>Arguments of the model.\<close> The JSON encoder and decoder, SHA-256, upper-casing and the redaction
  of stored responses are arguments of the idempotency model, lower-casing of the keyword matcher,
  the JSON library and the upstream's lines of the stream conversion, the shop and the inviter's rebate (assumed to keep
  all but shop orders settled, codes used and bookings in place) and the decimal library of
  the payment services; what payment providers and the redeem cache answer is part of the environment
  of each statement; the answers of account selection,
  slots and upstreams are events of the attempt loop; clocks are arguments everywhere. The account
  scheduler has as arguments its settings, the scheduling rate, the geometric median, the quota headroom and
  the predicates of other files on accounts, whose answers a selection asks the world for; usage billing the
  digest and the decimal text of fingerprints and the next reset of a quota period; the cost of a
  request the price list and the channel of a group, which the snapshot and the lookup provide. Amounts and
  prices are exact rationals, rounded where a column rounds them; the code computes them with
  \<^verbatim>\<open>float64\<close> and decimals.

  \<^bold>\<open>Not modelled.\<close> Gateway forwarding, the selection of accounts for platforms other than OpenAI, the
  billing cache and usage statistics, the management of channels and the download of prices, the creation of payment
  orders, the clients of payment providers, the shop, the rate limit service, the other protocol conversions,
  OAuth, the remaining repositories, HTTP plumbing, generated code and the frontend. They are input and output
  over many stores and third parties, or generated. Logging and metrics are left out of the modelled functions.
\<close>

end
